(* ===== verification/Prelude.thy ===== *)
theory Prelude
  imports Main
    "HOL-Library.Word"
    "HOL-Library.Char_ord"
    "HOL-Library.List_Lexorder"
    "HOL-Library.Product_Lexorder"
    "HOL-Library.Sublist"
begin

text \<open>
  Shared vocabulary of the development.

  \<^item> Rust's \<open>Result\<close> is the sum type with the error on the left. A body of the form
    \<open>check()?; check()?; ...; Ok(())\<close> is \<open>checks [c1, c2, ...]\<close>: the first error is
    the result. \<open>rbind\<close> is the question mark operator on a value.
  \<^item> A Rust string is the list of its UTF-8 bytes, so \<open>length\<close> is \<open>str::len\<close>. The
    order on strings is the bytewise lexicographic order of Rust's \<open>Ord for str\<close>.
  \<^item> The string functions of the standard library the sources use: \<open>split_once\<close>,
    \<open>rsplit_once\<close>, \<open>split\<close>, \<open>splitn\<close>, \<open>strip_prefix\<close>, \<open>is_char_boundary\<close>,
    decimal printing and parsing of integers.
  \<^item> A \<open>BTreeMap\<close> is an association list with strictly increasing keys (\<open>bt_ok\<close>).
\<close>

named_theorems accept_simps \<open>when a validator returns Ok\<close>
named_theorems ascii_simps \<open>the byte classes of the standard library\<close>

section \<open>Results\<close>

type_synonym ('e, 'a) result = "'e + 'a"

abbreviation Ok :: "'a \<Rightarrow> ('e, 'a) result" where "Ok \<equiv> Inr"
abbreviation Err :: "'e \<Rightarrow> ('e, 'a) result" where "Err \<equiv> Inl"

fun rbind :: "('e, 'a) result \<Rightarrow> ('a \<Rightarrow> ('e, 'b) result) \<Rightarrow> ('e, 'b) result" where
  "rbind (Inl e) f = Inl e"
| "rbind (Inr x) f = f x"

fun map_err :: "('e \<Rightarrow> 'd) \<Rightarrow> ('e, 'a) result \<Rightarrow> ('d, 'a) result" where
  "map_err f (Inl e) = Inl (f e)"
| "map_err f (Inr x) = Inr x"

fun ok_or :: "'a option \<Rightarrow> 'e \<Rightarrow> ('e, 'a) result" where
  "ok_or None e = Inl e"
| "ok_or (Some x) e = Inr x"

definition guard :: "bool \<Rightarrow> 'e \<Rightarrow> ('e, unit) result" where
  "guard b e = (if b then Inr () else Inl e)"

fun checks :: "('e, unit) result list \<Rightarrow> ('e, unit) result" where
  "checks [] = Inr ()"
| "checks (Inl e # cs) = Inl e"
| "checks (Inr u # cs) = checks cs"

fun check_opt :: "('a \<Rightarrow> ('e, unit) result) \<Rightarrow> 'a option \<Rightarrow> ('e, unit) result" where
  "check_opt f None = Inr ()"
| "check_opt f (Some x) = f x"

definition check_each :: "('a \<Rightarrow> ('e, unit) result) \<Rightarrow> 'a list \<Rightarrow> ('e, unit) result" where
  "check_each f xs = checks (map f xs)"

section \<open>Bytes and strings\<close>

definition byte :: "char \<Rightarrow> nat" where
  "byte c = of_char c"

definition is_ascii_digit :: "char \<Rightarrow> bool" where
  "is_ascii_digit c \<longleftrightarrow> 48 \<le> byte c \<and> byte c \<le> 57"

definition is_ascii_lowercase :: "char \<Rightarrow> bool" where
  "is_ascii_lowercase c \<longleftrightarrow> 97 \<le> byte c \<and> byte c \<le> 122"

definition is_ascii_uppercase :: "char \<Rightarrow> bool" where
  "is_ascii_uppercase c \<longleftrightarrow> 65 \<le> byte c \<and> byte c \<le> 90"

definition is_ascii_alphabetic :: "char \<Rightarrow> bool" where
  "is_ascii_alphabetic c \<longleftrightarrow> is_ascii_lowercase c \<or> is_ascii_uppercase c"

definition is_ascii_alphanumeric :: "char \<Rightarrow> bool" where
  "is_ascii_alphanumeric c \<longleftrightarrow> is_ascii_alphabetic c \<or> is_ascii_digit c"

definition is_ascii_hexdigit :: "char \<Rightarrow> bool" where
  "is_ascii_hexdigit c \<longleftrightarrow> is_ascii_digit c \<or> (97 \<le> byte c \<and> byte c \<le> 102)
     \<or> (65 \<le> byte c \<and> byte c \<le> 70)"

lemmas ascii_defs [ascii_simps] =
  is_ascii_digit_def is_ascii_lowercase_def is_ascii_uppercase_def is_ascii_alphabetic_def
  is_ascii_alphanumeric_def is_ascii_hexdigit_def byte_def

definition starts_with :: "string \<Rightarrow> string \<Rightarrow> bool" where
  "starts_with s p \<longleftrightarrow> prefix p s"

definition strip_prefix :: "string \<Rightarrow> string \<Rightarrow> string option" where
  "strip_prefix s p = (if prefix p s then Some (drop (length p) s) else None)"

text \<open>\<open>split_once\<close> cuts at the first separator, \<open>rsplit_once\<close> at the last.\<close>

definition split_once :: "char \<Rightarrow> string \<Rightarrow> (string \<times> string) option" where
  "split_once c s =
     (case dropWhile (\<lambda>d. d \<noteq> c) s of
        [] \<Rightarrow> None
      | _ # rest \<Rightarrow> Some (takeWhile (\<lambda>d. d \<noteq> c) s, rest))"

definition rsplit_once :: "char \<Rightarrow> string \<Rightarrow> (string \<times> string) option" where
  "rsplit_once c s = map_option (\<lambda>(a, b). (rev b, rev a)) (split_once c (rev s))"

fun splitn :: "nat \<Rightarrow> char \<Rightarrow> string \<Rightarrow> string list" where
  "splitn 0 c s = []"
| "splitn (Suc 0) c s = [s]"
| "splitn (Suc (Suc n)) c s =
     (case split_once c s of
        None \<Rightarrow> [s]
      | Some (a, rest) \<Rightarrow> a # splitn (Suc n) c rest)"

lemma split_once_shorter: "split_once c s = Some (a, b) \<Longrightarrow> length b < length s"
  using length_dropWhile_le [of "\<lambda>d. d \<noteq> c" s] by (auto simp: split_once_def split: list.splits)

function split_all :: "char \<Rightarrow> string \<Rightarrow> string list" where
  "split_all c s =
     (case split_once c s of None \<Rightarrow> [s] | Some (a, rest) \<Rightarrow> a # split_all c rest)"
  by pat_completeness auto
termination
  by (relation "measure (\<lambda>(c, s). length s)") (auto dest: split_once_shorter)

declare split_all.simps [simp del]

definition nth_opt :: "'a list \<Rightarrow> nat \<Rightarrow> 'a option" where
  "nth_opt xs i = (if i < length xs then Some (xs ! i) else None)"

text \<open>A byte offset is a character boundary when it is an end of the string or the byte there is
  not a UTF-8 continuation byte \<open>10xxxxxx\<close>.\<close>

definition is_char_boundary :: "string \<Rightarrow> nat \<Rightarrow> bool" where
  "is_char_boundary s i \<longleftrightarrow>
     (i = 0 \<or> i = length s \<or> (i < length s \<and> \<not> (128 \<le> byte (s ! i) \<and> byte (s ! i) < 192)))"

section \<open>Decimal integers\<close>

definition digit_char :: "nat \<Rightarrow> char" where
  "digit_char d = char_of (48 + d)"

fun show_nat :: "nat \<Rightarrow> string" where
  "show_nat n = (if n < 10 then [digit_char n] else show_nat (n div 10) @ [digit_char (n mod 10)])"

declare show_nat.simps [simp del]

definition show_int :: "int \<Rightarrow> string" where
  "show_int i = (if i < 0 then CHR ''-'' # show_nat (nat (- i)) else show_nat (nat i))"

definition digits_value :: "string \<Rightarrow> nat" where
  "digits_value s = foldl (\<lambda>acc c. 10 * acc + (byte c - 48)) 0 s"

text \<open>The digits that \<open>from_str_radix\<close> accepts: at least one, decimal digits only.\<close>

definition parse_digits :: "string \<Rightarrow> nat option" where
  "parse_digits s = (if s \<noteq> [] \<and> list_all is_ascii_digit s then Some (digits_value s) else None)"

text \<open>\<open>str::parse\<close> for an unsigned type of \<open>w\<close> bits: an optional plus sign, digits, no overflow.\<close>

definition parse_unsigned :: "nat \<Rightarrow> string \<Rightarrow> nat option" where
  "parse_unsigned w s =
     (case parse_digits (case s of c # r \<Rightarrow> if c = CHR ''+'' then r else s | [] \<Rightarrow> []) of
        None \<Rightarrow> None
      | Some n \<Rightarrow> if n < 2 ^ w then Some n else None)"

text \<open>The same for the signed 64-bit type.\<close>

definition parse_i64 :: "string \<Rightarrow> int option" where
  "parse_i64 s =
     (case s of
        [] \<Rightarrow> None
      | c # r \<Rightarrow>
         (if c = CHR ''-'' then
            (case parse_digits r of
               None \<Rightarrow> None
             | Some n \<Rightarrow> if n \<le> 2 ^ 63 then Some (- int n) else None)
          else
            (case parse_digits (if c = CHR ''+'' then r else s) of
               None \<Rightarrow> None
             | Some n \<Rightarrow> if n < 2 ^ 63 then Some (int n) else None)))"

section \<open>Ordered maps\<close>

fun bt_insert :: "'k::linorder \<Rightarrow> 'v \<Rightarrow> ('k \<times> 'v) list \<Rightarrow> ('k \<times> 'v) list" where
  "bt_insert k v [] = [(k, v)]"
| "bt_insert k v ((k', v') # m) =
     (if k < k' then (k, v) # (k', v') # m
      else if k = k' then (k, v) # m
      else (k', v') # bt_insert k v m)"

definition bt_ok :: "('k::linorder \<times> 'v) list \<Rightarrow> bool" where
  "bt_ok m \<longleftrightarrow> sorted (map fst m) \<and> distinct (map fst m)"

text \<open>\<open>*map.entry(k).or_insert(0) += n\<close> and \<open>*map.entry(k).or_default() += n\<close>.\<close>

definition bt_add :: "'k::linorder \<Rightarrow> 'n::monoid_add \<Rightarrow> ('k \<times> 'n) list \<Rightarrow> ('k \<times> 'n) list" where
  "bt_add k n m = bt_insert k (case map_of m k of None \<Rightarrow> n | Some c \<Rightarrow> c + n) m"

text \<open>\<open>is_strictly_sorted\<close> over windows of two, and \<open>Vec::dedup\<close> after \<open>sort\<close>.\<close>

fun strictly_sorted :: "'a::linorder list \<Rightarrow> bool" where
  "strictly_sorted (x # y # zs) \<longleftrightarrow> x < y \<and> strictly_sorted (y # zs)"
| "strictly_sorted _ \<longleftrightarrow> True"

definition sort_dedup :: "'a::linorder list \<Rightarrow> 'a list" where
  "sort_dedup xs = remdups_adj (sort xs)"

section \<open>Lemmas on results\<close>

lemma guard_Ok [simp, accept_simps]: "guard b e = Inr u \<longleftrightarrow> b"
  by (simp add: guard_def)

lemma guard_Err [simp]: "guard b e = Inl d \<longleftrightarrow> \<not> b \<and> d = e"
  by (auto simp: guard_def)

lemma guard_True [simp]: "guard True e = Inr ()"
  by (simp add: guard_def)

lemma guard_False [simp]: "guard False e = Inl e"
  by (simp add: guard_def)

lemma checks_Cons: "checks (c # cs) = (case c of Inl e \<Rightarrow> Inl e | Inr _ \<Rightarrow> checks cs)"
  by (cases c) auto

lemma checks_Ok_Cons [simp, accept_simps]:
  "checks (c # cs) = Inr u \<longleftrightarrow> c = Inr () \<and> checks cs = Inr ()"
  by (cases c) auto

lemma checks_Ok_iff: "checks cs = Inr u \<longleftrightarrow> (\<forall>c \<in> set cs. c = Inr ())"
  by (induction cs) auto

text \<open>The error of a sequence of checks is the error of its first failing check.\<close>

lemma checks_Err_iff:
  "checks cs = Inl e \<longleftrightarrow> (\<exists>pre post. cs = pre @ Inl e # post \<and> (\<forall>c \<in> set pre. c = Inr ()))"
proof (induction cs)
  case Nil
  then show ?case by simp
next
  case (Cons c cs)
  show ?case
  proof (cases c)
    case (Inl d)
    then show ?thesis by (auto simp: Cons_eq_append_conv)
  next
    case (Inr u)
    have "(\<exists>pre post. c # cs = pre @ Inl e # post \<and> (\<forall>c \<in> set pre. c = Inr ())) \<longleftrightarrow>
        (\<exists>pre post. cs = pre @ Inl e # post \<and> (\<forall>c \<in> set pre. c = Inr ()))"
      (is "?L \<longleftrightarrow> ?R")
    proof
      assume ?L
      with Inr show ?R by (auto simp: Cons_eq_append_conv)
    next
      assume ?R
      then obtain pre post where "cs = pre @ Inl e # post" "\<forall>c \<in> set pre. c = Inr ()" by blast
      with Inr have "c # cs = (c # pre) @ Inl e # post \<and> (\<forall>d \<in> set (c # pre). d = Inr ())"
        by simp
      then show ?L by blast
    qed
    with Inr Cons.IH show ?thesis by simp
  qed
qed

lemma checks_Err_in: "checks cs = Inl e \<Longrightarrow> Inl e \<in> set cs"
  by (auto simp: checks_Err_iff)

lemma check_each_Ok [simp, accept_simps]:
  "check_each f xs = Inr u \<longleftrightarrow> (\<forall>x \<in> set xs. f x = Inr ())"
  by (auto simp: check_each_def checks_Ok_iff)

lemma check_each_Err_in: "check_each f xs = Inl e \<Longrightarrow> \<exists>x \<in> set xs. f x = Inl e"
  unfolding check_each_def by (drule checks_Err_in) force

lemma check_opt_Ok [simp, accept_simps]:
  "check_opt f x = Inr u \<longleftrightarrow> (\<forall>y. x = Some y \<longrightarrow> f y = Inr ())"
  by (cases x) auto

lemma check_opt_Err: "check_opt f x = Inl e \<longleftrightarrow> (\<exists>y. x = Some y \<and> f y = Inl e)"
  by (cases x) auto

lemma rbind_Ok [simp]: "rbind r f = Inr y \<longleftrightarrow> (\<exists>x. r = Inr x \<and> f x = Inr y)"
  by (cases r) auto

lemma map_err_Ok [simp]: "map_err f r = Inr y \<longleftrightarrow> r = Inr y"
  by (cases r) auto

lemma map_err_Err: "map_err f r = Inl e \<longleftrightarrow> (\<exists>d. r = Inl d \<and> e = f d)"
  by (cases r) auto

lemma ok_or_Ok [simp]: "ok_or x e = Inr y \<longleftrightarrow> x = Some y"
  by (cases x) auto

lemma unit_result_cases:
  fixes r :: "('e, unit) result"
  obtains (Ok) "r = Inr ()" | (Err) e where "r = Inl e"
  by (cases r) auto

section \<open>Validators\<close>

text \<open>
  The contract every validator of the protocol offers its callers: it accepts exactly the values
  that satisfy a predicate. Iterating or optionally applying it then accepts exactly when the
  predicate holds throughout.
\<close>

locale validator =
  fixes validate :: "'a \<Rightarrow> ('e, unit) result"
    and good :: "'a \<Rightarrow> bool"
  assumes accepts_iff: "validate x = Inr () \<longleftrightarrow> good x"
begin

lemma accepts_each: "check_each validate xs = Inr () \<longleftrightarrow> list_all good xs"
  by (simp add: accepts_iff list_all_iff)

lemma accepts_opt: "check_opt validate x = Inr () \<longleftrightarrow> pred_option good x"
  by (cases x) (simp_all add: accepts_iff)

lemma rejects_iff: "(\<exists>e. validate x = Inl e) \<longleftrightarrow> \<not> good x"
  using accepts_iff [of x] by (cases "validate x") auto

end

section \<open>Lemmas on strings\<close>

lemma of_char_less_256: "(of_char c :: nat) < 256"
  by (metis char_of_nat nat_of_char_less_256)

lemma byte_less: "byte c < 256"
  unfolding byte_def using of_char_less_256 .

lemma byte_digit_char [simp]: "d < 10 \<Longrightarrow> byte (digit_char d) = 48 + d"
  by (simp add: byte_def digit_char_def of_char_of)

lemma is_ascii_digit_digit_char [simp]: "d < 10 \<Longrightarrow> is_ascii_digit (digit_char d)"
  by (simp add: is_ascii_digit_def)

lemma show_nat_digits: "list_all is_ascii_digit (show_nat n)"
proof (induction n rule: show_nat.induct)
  case (1 n)
  then show ?case by (subst show_nat.simps) auto
qed

lemma show_nat_nonempty [simp]: "show_nat n \<noteq> []"
  by (subst show_nat.simps) simp

lemma length_show_nat: "n < 10 ^ k \<Longrightarrow> 0 < k \<Longrightarrow> length (show_nat n) \<le> k"
proof (induction k arbitrary: n)
  case (Suc k)
  show ?case
  proof (cases "n < 10")
    case True
    then show ?thesis by (subst show_nat.simps) simp
  next
    case False
    then have "k \<noteq> 0" using Suc.prems by (cases k) auto
    moreover have "n div 10 < 10 ^ k" using Suc.prems by auto
    ultimately show ?thesis using Suc.IH [of "n div 10"] False
      by (subst show_nat.simps) simp
  qed
qed simp

lemma digits_value_append: "digits_value (s @ [c]) = 10 * digits_value s + (byte c - 48)"
  by (simp add: digits_value_def)

lemma digits_value_show_nat [simp]: "digits_value (show_nat n) = n"
proof (induction n rule: show_nat.induct)
  case (1 n)
  show ?case
  proof (cases "n < 10")
    case True
    then show ?thesis by (subst show_nat.simps) (simp add: digits_value_def)
  next
    case False
    with 1 show ?thesis by (subst show_nat.simps) (simp add: digits_value_append)
  qed
qed

lemma parse_digits_show_nat [simp]: "parse_digits (show_nat n) = Some n"
  by (simp add: parse_digits_def show_nat_digits)

lemma digit_not_sign: "is_ascii_digit c \<Longrightarrow> c \<noteq> CHR ''+'' \<and> c \<noteq> CHR ''-''"
  by (auto simp: ascii_simps)

lemma show_nat_no_sign: "show_nat n = c # r \<Longrightarrow> c \<noteq> CHR ''+'' \<and> c \<noteq> CHR ''-''"
  using show_nat_digits [of n] digit_not_sign [of c] by simp

text \<open>Printing then parsing an integer gives it back, for every width that holds it.\<close>

lemma parse_unsigned_show_nat [simp]: "n < 2 ^ w \<Longrightarrow> parse_unsigned w (show_nat n) = Some n"
proof -
  assume n: "n < 2 ^ w"
  obtain c r where cr: "show_nat n = c # r"
    using show_nat_nonempty [of n] by (cases "show_nat n") auto
  with show_nat_no_sign have "c \<noteq> CHR ''+''" by blast
  then have "parse_unsigned w (show_nat n) = (case parse_digits (show_nat n) of
        None \<Rightarrow> None | Some n \<Rightarrow> if n < 2 ^ w then Some n else None)"
    by (simp add: parse_unsigned_def cr)
  with n show ?thesis by simp
qed

lemma parse_unsigned_bound: "parse_unsigned w s = Some n \<Longrightarrow> n < 2 ^ w"
  by (auto simp: parse_unsigned_def split: option.splits if_splits)

lemma parse_i64_show_int [simp]:
  assumes "- (2 ^ 63) \<le> i" "i < 2 ^ 63"
  shows "parse_i64 (show_int i) = Some i"
proof (cases "i < 0")
  case True
  with assms show ?thesis by (simp add: parse_i64_def show_int_def nat_le_iff)
next
  case False
  obtain c r where cr: "show_nat (nat i) = c # r"
    using show_nat_nonempty by (cases "show_nat (nat i)") auto
  with show_nat_no_sign have ns: "c \<noteq> CHR ''+''" "c \<noteq> CHR ''-''" by blast+
  have "parse_digits (c # r) = Some (nat i)"
    using parse_digits_show_nat [of "nat i"] by (simp add: cr)
  with False assms ns cr show ?thesis by (simp add: parse_i64_def show_int_def nat_less_iff)
qed

lemma split_once_append:
  "c \<notin> set a \<Longrightarrow> split_once c (a @ c # b) = Some (a, b)"
proof -
  assume "c \<notin> set a"
  then have "\<forall>d \<in> set a. d \<noteq> c" by auto
  then show ?thesis
    by (simp add: split_once_def dropWhile_append2 takeWhile_append2)
qed

lemma split_once_None: "c \<notin> set s \<Longrightarrow> split_once c s = None"
proof -
  assume "c \<notin> set s"
  then have "dropWhile (\<lambda>d. d \<noteq> c) s = []" by (auto simp: dropWhile_eq_Nil_conv)
  then show ?thesis by (simp only: split_once_def list.case)
qed

lemma split_once_Some:
  "split_once c s = Some (a, b) \<longleftrightarrow> s = a @ c # b \<and> c \<notin> set a"
proof
  assume "split_once c s = Some (a, b)"
  then obtain d where d: "dropWhile (\<lambda>d. d \<noteq> c) s = d # b" "a = takeWhile (\<lambda>d. d \<noteq> c) s"
    by (auto simp: split_once_def split: list.splits)
  then have "d = c" using hd_dropWhile [of "\<lambda>d. d \<noteq> c" s] by simp
  with d have "s = a @ c # b" using takeWhile_dropWhile_id [of "\<lambda>d. d \<noteq> c" s] by simp
  moreover have "c \<notin> set a" using d(2) by (auto dest: set_takeWhileD)
  ultimately show "s = a @ c # b \<and> c \<notin> set a" ..
qed (auto simp: split_once_append)

lemma rsplit_once_append:
  "c \<notin> set b \<Longrightarrow> rsplit_once c (a @ c # b) = Some (a, b)"
  by (simp add: rsplit_once_def split_once_append)

lemma rsplit_once_Some:
  "rsplit_once c s = Some (a, b) \<longleftrightarrow> s = a @ c # b \<and> c \<notin> set b"
proof
  assume "rsplit_once c s = Some (a, b)"
  then have "split_once c (rev s) = Some (rev b, rev a)"
    by (auto simp: rsplit_once_def)
  then have "rev s = rev b @ c # rev a" "c \<notin> set b"
    by (auto simp: split_once_Some)
  then show "s = a @ c # b \<and> c \<notin> set b"
    by (metis append.assoc append_Cons append_Nil rev.simps(2) rev_append rev_rev_ident)
qed (auto simp: rsplit_once_append)

lemma split_all_step: "c \<notin> set a \<Longrightarrow> split_all c (a @ c # b) = a # split_all c b"
  by (simp add: split_all.simps [of c "a @ c # b"] split_once_append)

lemma digits_no_char:
  "list_all is_ascii_digit s \<Longrightarrow> \<not> is_ascii_digit c \<Longrightarrow> c \<notin> set s"
  by (auto simp: list_all_iff)

lemma starts_with_append [simp]: "starts_with (p @ s) p"
  by (simp add: starts_with_def)

lemma strip_prefix_Some: "strip_prefix s p = Some r \<longleftrightarrow> s = p @ r"
  by (auto simp: strip_prefix_def prefix_def)

section \<open>Lemmas on ordered maps\<close>

lemma map_of_bt_insert [simp]:
  "bt_ok m \<Longrightarrow> map_of (bt_insert k v m) = (map_of m)(k \<mapsto> v)"
proof (induction k v m rule: bt_insert.induct)
  case (2 k v k' v' m)
  have nin: "k < k' \<Longrightarrow> k \<notin> fst ` set m"
    using 2(2) by (force simp: bt_ok_def)
  from 2 nin show ?case by (auto simp: bt_ok_def fun_eq_iff)
qed simp

lemma fst_set_bt_insert [simp]: "fst ` set (bt_insert k v m) = insert k (fst ` set m)"
  by (induction k v m rule: bt_insert.induct) auto

lemma bt_ok_Cons: "bt_ok ((k, v) # m) \<longleftrightarrow> bt_ok m \<and> (\<forall>x \<in> fst ` set m. k < x)"
  by (auto simp: bt_ok_def order.strict_iff_order)

lemma bt_ok_Nil [simp]: "bt_ok []"
  by (simp add: bt_ok_def)

lemma bt_ok_bt_insert [simp]: "bt_ok m \<Longrightarrow> bt_ok (bt_insert k v m)"
  by (induction k v m rule: bt_insert.induct) (auto simp: bt_ok_Cons)

lemma bt_ok_bt_add [simp]: "bt_ok m \<Longrightarrow> bt_ok (bt_add k n m)"
  by (simp add: bt_add_def)

lemma map_of_bt_add [simp]:
  "bt_ok m \<Longrightarrow> map_of (bt_add k n m) =
     (map_of m)(k \<mapsto> (case map_of m k of None \<Rightarrow> n | Some c \<Rightarrow> c + n))"
  by (simp add: bt_add_def)

section \<open>Lemmas on sorted lists\<close>

lemma strictly_sorted_iff: "strictly_sorted xs \<longleftrightarrow> sorted xs \<and> distinct xs"
proof (induction xs rule: strictly_sorted.induct)
  case (1 x y zs)
  then show ?case by (auto simp: order.strict_iff_order intro: order.trans)
qed auto

lemma sorted_remdups_adj_distinct: "sorted xs \<Longrightarrow> distinct (remdups_adj xs)"
proof (induction xs rule: remdups_adj.induct)
  case (3 x y xs)
  then show ?case by (auto simp: order.antisym)
qed auto

lemma remdups_adj_distinct_id: "distinct xs \<Longrightarrow> remdups_adj xs = xs"
  by (induction xs rule: remdups_adj.induct) auto

lemma strictly_sorted_sort_dedup [simp]: "strictly_sorted (sort_dedup xs)"
  by (simp add: strictly_sorted_iff sort_dedup_def sorted_remdups_adj sorted_remdups_adj_distinct)

lemma set_sort_dedup [simp]: "set (sort_dedup xs) = set xs"
  by (simp add: sort_dedup_def)

lemma sort_dedup_Nil_iff [simp]: "sort_dedup xs = [] \<longleftrightarrow> xs = []"
  using set_sort_dedup [of xs] by (metis set_empty)

lemma sort_dedup_id: "strictly_sorted xs \<Longrightarrow> sort_dedup xs = xs"
  by (simp add: strictly_sorted_iff sort_dedup_def sorted_sort_id remdups_adj_distinct_id)

end
