(* ===== verification/Protocol_Core.thy ===== *)
theory Protocol_Core
  imports Prelude
begin

text \<open>
  The vocabulary of the wire protocol (\<open>protocol/src/lib.rs\<close>): reason codes, errors, evidence
  scopes, JSON values, and the primitive validators every other validator is made of.

  The JSON library, the SHA-256 digest and the hex printer are not part of the repository. They are
  the fields of the record \<open>serde\<close>, an argument of every definition that calls them; what a
  theorem needs of them is a premise of that theorem.
\<close>

section \<open>Constants\<close>

definition VERSION :: "16 word" where "VERSION = 1"
definition FRAME_PREFIX :: string where "FRAME_PREFIX = ''REPROIT/1 ''"
definition MAX_FRAME_BYTES :: nat where "MAX_FRAME_BYTES = 1024 * 1024"
definition MAX_HEADER_BYTES :: nat where "MAX_HEADER_BYTES = 512"
definition MAX_BATCH_FRAMES :: nat where "MAX_BATCH_FRAMES = 5000"
definition MAX_BATCH_GRAPHS :: nat where "MAX_BATCH_GRAPHS = 256"
definition MAX_ARTIFACT_NODES :: nat where "MAX_ARTIFACT_NODES = 4096"
definition MAX_TOKEN_BYTES :: nat where "MAX_TOKEN_BYTES = 128"
definition MAX_TEXT_BYTES :: nat where "MAX_TEXT_BYTES = 16 * 1024"
definition MAX_CONTEXT_BYTES :: nat where "MAX_CONTEXT_BYTES = 64 * 1024"

lemmas protocol_limits =
  VERSION_def MAX_FRAME_BYTES_def MAX_HEADER_BYTES_def MAX_BATCH_FRAMES_def MAX_BATCH_GRAPHS_def
  MAX_ARTIFACT_NODES_def MAX_TOKEN_BYTES_def MAX_TEXT_BYTES_def MAX_CONTEXT_BYTES_def

section \<open>JSON values\<close>

text \<open>\<open>serde_json::Value\<close>. A number keeps its three representations (unsigned, negative, float with
  its printed form); an object is the crate's default map, ordered by key.\<close>

datatype jnum = PosInt nat | NegInt int | Float string

datatype json =
    JNull
  | JBool bool
  | JNum jnum
  | JStr string
  | JArr "json list"
  | JObj "(string \<times> json) list"

fun as_str :: "json \<Rightarrow> string option" where
  "as_str (JStr s) = Some s"
| "as_str _ = None"

fun as_object :: "json \<Rightarrow> (string \<times> json) list option" where
  "as_object (JObj m) = Some m"
| "as_object _ = None"

section \<open>Reason codes\<close>

datatype ReasonCode =
    FrameTooLarge
  | BatchTooLarge
  | MalformedFrame
  | UnsupportedVersion
  | InvalidScope
  | InvalidSequence
  | InvalidEvent
  | IncompleteStream
  | NoObservations
  | AuthorityUnavailable
  | InvalidArtifact

fun reason_as_str :: "ReasonCode \<Rightarrow> string" where
  "reason_as_str FrameTooLarge = ''frame-too-large''"
| "reason_as_str BatchTooLarge = ''batch-too-large''"
| "reason_as_str MalformedFrame = ''malformed-frame''"
| "reason_as_str UnsupportedVersion = ''unsupported-version''"
| "reason_as_str InvalidScope = ''invalid-scope''"
| "reason_as_str InvalidSequence = ''invalid-sequence''"
| "reason_as_str InvalidEvent = ''invalid-event''"
| "reason_as_str IncompleteStream = ''incomplete-stream''"
| "reason_as_str NoObservations = ''no-observations''"
| "reason_as_str AuthorityUnavailable = ''authority-unavailable''"
| "reason_as_str InvalidArtifact = ''invalid-artifact''"

text \<open>The derived \<open>Ord\<close>: declaration order.\<close>

fun reason_rank :: "ReasonCode \<Rightarrow> nat" where
  "reason_rank FrameTooLarge = 0"
| "reason_rank BatchTooLarge = 1"
| "reason_rank MalformedFrame = 2"
| "reason_rank UnsupportedVersion = 3"
| "reason_rank InvalidScope = 4"
| "reason_rank InvalidSequence = 5"
| "reason_rank InvalidEvent = 6"
| "reason_rank IncompleteStream = 7"
| "reason_rank NoObservations = 8"
| "reason_rank AuthorityUnavailable = 9"
| "reason_rank InvalidArtifact = 10"

lemma reason_rank_inject: "reason_rank a = reason_rank b \<Longrightarrow> a = b"
  by (cases a; cases b) simp_all

instantiation ReasonCode :: linorder
begin
definition less_eq_ReasonCode :: "ReasonCode \<Rightarrow> ReasonCode \<Rightarrow> bool" where
  "less_eq_ReasonCode a b \<longleftrightarrow> reason_rank a \<le> reason_rank b"
definition less_ReasonCode :: "ReasonCode \<Rightarrow> ReasonCode \<Rightarrow> bool" where
  "less_ReasonCode a b \<longleftrightarrow> reason_rank a < reason_rank b"
instance
  by standard (auto simp: less_eq_ReasonCode_def less_ReasonCode_def intro: reason_rank_inject)
end

section \<open>Scopes and errors\<close>

datatype EvidenceScope = Shared | Backend | Contract "string option"

record ProtocolError =
  pe_reason :: ReasonCode
  pe_scope :: "EvidenceScope option"

record StreamDefect =
  sd_reason :: ReasonCode
  sd_scope :: EvidenceScope
  sd_sequence :: "64 word option"

definition perr_new :: "ReasonCode \<Rightarrow> ProtocolError" where
  "perr_new r = \<lparr>pe_reason = r, pe_scope = None\<rparr>"

definition perr_scoped :: "ReasonCode \<Rightarrow> EvidenceScope \<Rightarrow> ProtocolError" where
  "perr_scoped r s = \<lparr>pe_reason = r, pe_scope = Some s\<rparr>"

definition defect_shared :: "ReasonCode \<Rightarrow> StreamDefect" where
  "defect_shared r = \<lparr>sd_reason = r, sd_scope = Shared, sd_sequence = None\<rparr>"

type_synonym check = "(ProtocolError, unit) result"

section \<open>Primitive validators\<close>

definition valid_hash :: "string \<Rightarrow> nat \<Rightarrow> bool" where
  "valid_hash value n \<longleftrightarrow>
     length value = n \<and> list_all (\<lambda>b. is_ascii_hexdigit b \<and> \<not> is_ascii_uppercase b) value"

definition token_byte :: "char \<Rightarrow> bool" where
  "token_byte b \<longleftrightarrow> is_ascii_alphanumeric b \<or> b \<in> {CHR ''-'', CHR ''_'', CHR ''.'', CHR '':''}"

definition validate_token :: "string \<Rightarrow> check" where
  "validate_token value =
     (if value = [] \<or> MAX_TOKEN_BYTES < length value \<or> \<not> list_all token_byte value
      then Err (perr_new InvalidEvent) else Ok ())"

definition lower_token_byte :: "char \<Rightarrow> bool" where
  "lower_token_byte b \<longleftrightarrow>
     is_ascii_lowercase b \<or> is_ascii_digit b \<or> b \<in> {CHR ''-'', CHR ''_''}"

definition validate_lower_token :: "string \<Rightarrow> check" where
  "validate_lower_token value =
     checks [validate_token value, guard (list_all lower_token_byte value) (perr_new InvalidEvent)]"

definition validate_optional_token :: "string option \<Rightarrow> check" where
  "validate_optional_token value = check_opt validate_token value"

definition validate_text :: "string \<Rightarrow> nat \<Rightarrow> check" where
  "validate_text value max_bytes =
     (if max_bytes < length value then Err (perr_new InvalidEvent) else Ok ())"

definition validate_optional_text :: "string option \<Rightarrow> nat \<Rightarrow> check" where
  "validate_optional_text value max_bytes = check_opt (\<lambda>text. validate_text text max_bytes) value"

definition validate_strings :: "string list \<Rightarrow> nat \<Rightarrow> nat \<Rightarrow> check" where
  "validate_strings values max_count max_bytes =
     (if max_count < length values then Err (perr_new InvalidEvent)
      else check_each (\<lambda>value. validate_text value max_bytes) values)"

section \<open>Scopes\<close>

definition affects_contract :: "EvidenceScope \<Rightarrow> string \<Rightarrow> bool" where
  "affects_contract s contract_hash =
     (case s of
        Shared \<Rightarrow> True
      | Backend \<Rightarrow> False
      | Contract None \<Rightarrow> True
      | Contract (Some affected) \<Rightarrow> affected = contract_hash)"

definition scope_validate :: "EvidenceScope \<Rightarrow> check" where
  "scope_validate s =
     (case s of
        Contract (Some contract_hash) \<Rightarrow>
          if \<not> valid_hash contract_hash 16 then Err (perr_new InvalidScope) else Ok ()
      | _ \<Rightarrow> Ok ())"

definition header_parts :: "EvidenceScope \<Rightarrow> string \<times> string" where
  "header_parts s =
     (case s of
        Shared \<Rightarrow> (''shared'', ''-'')
      | Backend \<Rightarrow> (''backend'', ''-'')
      | Contract (Some contract_hash) \<Rightarrow> (''contract'', contract_hash)
      | Contract None \<Rightarrow> (''contract'', ''-''))"

definition parse_scope :: "string \<Rightarrow> string \<Rightarrow> EvidenceScope option" where
  "parse_scope domain subject =
     (if domain = ''shared'' \<and> subject = ''-'' then Some Shared
      else if domain = ''backend'' \<and> subject = ''-'' then Some Backend
      else if domain = ''contract'' \<and> subject = ''-'' then Some (Contract None)
      else if domain = ''contract'' \<and> valid_hash subject 16 then Some (Contract (Some subject))
      else None)"

section \<open>Properties of the primitive validators\<close>

definition token_ok :: "string \<Rightarrow> bool" where
  "token_ok s \<longleftrightarrow> s \<noteq> [] \<and> length s \<le> MAX_TOKEN_BYTES \<and> list_all token_byte s"

definition lower_token_ok :: "string \<Rightarrow> bool" where
  "lower_token_ok s \<longleftrightarrow> token_ok s \<and> list_all lower_token_byte s"

interpretation token: validator validate_token token_ok
  by unfold_locales (auto simp: validate_token_def token_ok_def)

interpretation lower_token: validator validate_lower_token lower_token_ok
  by unfold_locales (simp add: validate_lower_token_def lower_token_ok_def token.accepts_iff)

interpretation text_val: validator "\<lambda>s. validate_text s n" "\<lambda>s. length s \<le> n" for n
  by unfold_locales (simp add: validate_text_def not_less)

lemma validate_token_Ok [simp, accept_simps]: "validate_token s = Inr u \<longleftrightarrow> token_ok s"
  using token.accepts_iff by simp

lemma validate_lower_token_Ok [simp, accept_simps]:
  "validate_lower_token s = Inr u \<longleftrightarrow> lower_token_ok s"
  using lower_token.accepts_iff by simp

lemma validate_text_Ok [simp, accept_simps]: "validate_text s n = Inr u \<longleftrightarrow> length s \<le> n"
  using text_val.accepts_iff by simp

lemma validate_optional_token_Ok [simp, accept_simps]:
  "validate_optional_token x = Inr u \<longleftrightarrow> pred_option token_ok x"
  using token.accepts_opt by (simp add: validate_optional_token_def)

lemma validate_optional_text_Ok [simp, accept_simps]:
  "validate_optional_text x n = Inr u \<longleftrightarrow> pred_option (\<lambda>s. length s \<le> n) x"
  using text_val.accepts_opt by (simp add: validate_optional_text_def)

lemma validate_strings_Ok [simp, accept_simps]:
  "validate_strings xs c n = Inr u \<longleftrightarrow> length xs \<le> c \<and> (\<forall>x \<in> set xs. length x \<le> n)"
  by (simp add: validate_strings_def not_less)

text \<open>Every primitive validator reports the same reason and no scope.\<close>

lemma validate_token_Err: "validate_token s = Inl e \<Longrightarrow> e = perr_new InvalidEvent"
  by (simp add: validate_token_def split: if_splits)

lemma validate_text_Err: "validate_text s n = Inl e \<Longrightarrow> e = perr_new InvalidEvent"
  by (simp add: validate_text_def split: if_splits)

lemma scope_validate_Ok [simp, accept_simps]:
  "scope_validate s = Inr u \<longleftrightarrow> (\<forall>h. s = Contract (Some h) \<longrightarrow> valid_hash h 16)"
  by (auto simp: scope_validate_def split: EvidenceScope.splits option.splits)

lemma token_no_space: "token_ok s \<Longrightarrow> CHR '' '' \<notin> set s"
proof
  assume "token_ok s" "CHR '' '' \<in> set s"
  then have "token_byte (CHR '' '')" by (auto simp: token_ok_def list_all_iff)
  then show False by (simp add: token_byte_def ascii_simps)
qed

lemma valid_hash_no_space: "valid_hash s n \<Longrightarrow> CHR '' '' \<notin> set s"
proof
  assume "valid_hash s n" "CHR '' '' \<in> set s"
  then have "is_ascii_hexdigit (CHR '' '')" by (auto simp: valid_hash_def list_all_iff)
  then show False by (simp add: ascii_simps)
qed

text \<open>The header spelling of a valid scope parses back to that scope, and only valid scopes have
  a spelling.\<close>

lemma parse_scope_header_parts:
  "scope_validate s = Inr () \<Longrightarrow> parse_scope (fst (header_parts s)) (snd (header_parts s)) = Some s"
  by (cases s)
     (auto simp: header_parts_def parse_scope_def valid_hash_def split: option.splits)

lemma parse_scope_valid: "parse_scope d s = Some sc \<Longrightarrow> scope_validate sc = Inr ()"
  by (auto simp: parse_scope_def split: if_splits)

lemma header_parts_parse_scope: "parse_scope d s = Some sc \<Longrightarrow> header_parts sc = (d, s)"
  by (auto simp: parse_scope_def header_parts_def split: if_splits)

lemma header_parts_no_space:
  "scope_validate s = Inr () \<Longrightarrow>
     CHR '' '' \<notin> set (fst (header_parts s)) \<and> CHR '' '' \<notin> set (snd (header_parts s))"
  by (auto simp: header_parts_def valid_hash_no_space
      split: EvidenceScope.splits option.splits)

lemma header_parts_length:
  "scope_validate s = Inr () \<Longrightarrow>
     length (fst (header_parts s)) \<le> 8 \<and> length (snd (header_parts s)) \<le> 16"
  by (auto simp: header_parts_def valid_hash_def split: EvidenceScope.splits option.splits)

end
