(* ===== verification/Protocol_Causal.thy ===== *)
theory Protocol_Causal
  imports Protocol_Core
begin

text \<open>
  The causal-event graph (\<open>protocol/src/causal.rs\<close>). \<open>causal_validate\<close> checks nodes and edges
  and then runs Kahn's algorithm; the theory shows that it accepts exactly the well-formed acyclic
  graphs. \<open>removal_closure\<close> is shown to be reachability along dependency edges.
\<close>

definition CAUSAL_GRAPH_VERSION :: "16 word" where "CAUSAL_GRAPH_VERSION = 1"
definition MAX_CAUSAL_NODES :: nat where "MAX_CAUSAL_NODES = 16384"
definition MAX_CAUSAL_EDGES :: nat where "MAX_CAUSAL_EDGES = 65536"
definition MAX_CAUSAL_LABEL_BYTES :: nat where "MAX_CAUSAL_LABEL_BYTES = 16 * 1024"

section \<open>Nodes and edges\<close>

text \<open>Variants shared by the two enums carry \<open>T\<close> when they are targets.\<close>

datatype CausalNodeKind =
    Action | Response | Timer | StateWrite | Callback | Permission | ActorEvent | BackendEvent
  | Environment | Finding

datatype CausalTarget =
    TAction string "32 word"
  | TExchange string "32 word" "32 word" string
  | TBackendEvent "64 word" string string
  | TEnvironment string

record CausalNode =
  cn_id :: string
  cn_kind :: CausalNodeKind
  cn_label :: string
  cn_actor :: "string option"
  cn_target :: "CausalTarget option"

datatype CausalEdgeKind =
    HappensBefore | DataDependency | StatePrerequisite | ActorOwnership | ContractScope

record CausalEdge =
  ce_from :: string
  ce_to :: string
  ce_kind :: CausalEdgeKind

record CausalGraph =
  cg_version :: "16 word"
  cg_nodes :: "CausalNode list"
  cg_edges :: "CausalEdge list"

definition causal_default :: CausalGraph where
  "causal_default = \<lparr>cg_version = CAUSAL_GRAPH_VERSION, cg_nodes = [], cg_edges = []\<rparr>"

definition valid_target :: "CausalNodeKind \<Rightarrow> CausalTarget option \<Rightarrow> bool" where
  "valid_target kind target =
     (case (kind, target) of
        (Action, Some (TAction _ _)) \<Rightarrow> True
      | (Response, Some (TExchange _ _ _ _)) \<Rightarrow> True
      | (Timer, Some (TEnvironment _)) \<Rightarrow> True
      | (Permission, Some (TEnvironment _)) \<Rightarrow> True
      | (Environment, Some (TEnvironment _)) \<Rightarrow> True
      | (StateWrite, None) \<Rightarrow> True
      | (StateWrite, Some (TBackendEvent _ _ _)) \<Rightarrow> True
      | (Callback, Some (TBackendEvent _ _ _)) \<Rightarrow> True
      | (BackendEvent, Some (TBackendEvent _ _ _)) \<Rightarrow> True
      | (ActorEvent, None) \<Rightarrow> True
      | (Finding, None) \<Rightarrow> True
      | _ \<Rightarrow> False)"

definition validate_target :: "CausalTarget option \<Rightarrow> check" where
  "validate_target target =
     (case target of
        Some (TAction actor _) \<Rightarrow> validate_token actor
      | Some (TExchange actor _ _ exchange_id) \<Rightarrow>
          checks [validate_token actor, validate_text exchange_id MAX_CAUSAL_LABEL_BYTES]
      | Some (TBackendEvent _ trace_id span_id) \<Rightarrow>
          checks [validate_token trace_id, validate_token span_id]
      | Some (TEnvironment key) \<Rightarrow> validate_text key MAX_CAUSAL_LABEL_BYTES
      | None \<Rightarrow> Ok ())"

definition validate_node :: "CausalNode \<Rightarrow> check" where
  "validate_node node = checks
     [validate_token (cn_id node),
      validate_text (cn_label node) MAX_CAUSAL_LABEL_BYTES,
      check_opt validate_token (cn_actor node),
      guard (valid_target (cn_kind node) (cn_target node)) (perr_new InvalidEvent),
      validate_target (cn_target node)]"

section \<open>Validation of the graph\<close>

text \<open>The loop over the nodes: validate and insert into the set of ids, refusing duplicates.\<close>

fun collect_ids :: "CausalNode list \<Rightarrow> string set \<Rightarrow> (ProtocolError, string set) result" where
  "collect_ids [] ids = Ok ids"
| "collect_ids (node # nodes) ids =
     rbind (validate_node node) (\<lambda>_.
       if cn_id node \<in> ids then Err (perr_new InvalidEvent)
       else collect_ids nodes (insert (cn_id node) ids))"

text \<open>The loop over the edges. The maps \<open>indegree\<close> and \<open>outgoing\<close> are functions from ids; an
  id with no entry in \<open>outgoing\<close> has no successors. \<open>seen\<close> is \<open>unique_edges\<close>.\<close>

type_synonym degrees = "string \<Rightarrow> nat"
type_synonym successors = "string \<Rightarrow> string list"

fun collect_edges :: "string set \<Rightarrow> CausalEdge list \<Rightarrow> CausalEdge set \<Rightarrow> degrees \<Rightarrow> successors
    \<Rightarrow> (ProtocolError, degrees \<times> successors) result" where
  "collect_edges ids [] seen indegree outgoing = Ok (indegree, outgoing)"
| "collect_edges ids (edge # edges) seen indegree outgoing =
     rbind (checks [validate_token (ce_from edge), validate_token (ce_to edge)]) (\<lambda>_.
       if ce_from edge = ce_to edge \<or> ce_from edge \<notin> ids \<or> ce_to edge \<notin> ids \<or> edge \<in> seen
       then Err (perr_new InvalidEvent)
       else collect_edges ids edges (insert edge seen)
              (indegree(ce_to edge := indegree (ce_to edge) + 1))
              (outgoing(ce_from edge := outgoing (ce_from edge) @ [ce_to edge])))"

text \<open>One pass of the inner loop: decrement every successor, and queue those that reach zero.\<close>

fun relax :: "string list \<Rightarrow> degrees \<Rightarrow> string list \<Rightarrow> degrees \<times> string list" where
  "relax [] indegree ready = (indegree, ready)"
| "relax (nxt # rest) indegree ready =
     (let degree = indegree nxt - 1;
          indegree = indegree(nxt := degree)
      in relax rest indegree (if degree = 0 then ready @ [nxt] else ready))"

text \<open>The \<open>while let\<close> loop, with fuel: every id is queued at most once, so one unit of fuel per
  node and one to see the empty queue are enough (\<open>kahn_total\<close>).\<close>

fun kahn :: "nat \<Rightarrow> successors \<Rightarrow> degrees \<Rightarrow> string list \<Rightarrow> nat \<Rightarrow> nat option" where
  "kahn 0 outgoing indegree ready visited = None"
| "kahn (Suc fuel) outgoing indegree [] visited = Some visited"
| "kahn (Suc fuel) outgoing indegree (i # ready) visited =
     (let (indegree, ready) = relax (outgoing i) indegree ready
      in kahn fuel outgoing indegree ready (visited + 1))"

text \<open>The initial queue lists the ids of in-degree zero in the order of the id set.\<close>

definition causal_validate :: "CausalGraph \<Rightarrow> check" where
  "causal_validate g =
     rbind (checks
       [guard (cg_version g = CAUSAL_GRAPH_VERSION) (perr_new UnsupportedVersion),
        guard (\<not> (MAX_CAUSAL_NODES < length (cg_nodes g) \<or> MAX_CAUSAL_EDGES < length (cg_edges g)))
          (perr_new BatchTooLarge)]) (\<lambda>_.
     rbind (collect_ids (cg_nodes g) {}) (\<lambda>ids.
     rbind (collect_edges ids (cg_edges g) {} (\<lambda>_. 0) (\<lambda>_. [])) (\<lambda>(indegree, outgoing).
       let ready = filter (\<lambda>i. indegree i = 0) (sort (map cn_id (cg_nodes g)));
           visited = kahn (Suc (length (cg_nodes g))) outgoing indegree ready 0
       in if visited \<noteq> Some (length (cg_nodes g)) then Err (perr_new InvalidSequence) else Ok ())))"

section \<open>Reduction\<close>

definition reduction_nodes :: "CausalGraph \<Rightarrow> string list" where
  "reduction_nodes g = map cn_id (filter (\<lambda>node.
     case cn_target node of
       Some (TAction _ _) \<Rightarrow> True
     | Some (TExchange _ _ _ _) \<Rightarrow> True
     | Some (TBackendEvent _ _ _) \<Rightarrow> True
     | _ \<Rightarrow> False) (cg_nodes g))"

definition dependency_edge :: "CausalEdge \<Rightarrow> bool" where
  "dependency_edge e \<longleftrightarrow> ce_kind e = DataDependency \<or> ce_kind e = StatePrerequisite"

text \<open>The inner loop of \<open>removal_closure\<close> over the edges out of \<open>i\<close>.\<close>

fun absorb :: "string \<Rightarrow> CausalEdge list \<Rightarrow> string set \<Rightarrow> string list \<Rightarrow> string set \<times> string list" where
  "absorb i [] removed pending = (removed, pending)"
| "absorb i (e # es) removed pending =
     (if ce_from e = i \<and> dependency_edge e \<and> ce_to e \<notin> removed
      then absorb i es (insert (ce_to e) removed) (pending @ [ce_to e])
      else absorb i es removed pending)"

fun closure_loop :: "nat \<Rightarrow> CausalEdge list \<Rightarrow> string set \<Rightarrow> string list \<Rightarrow> string set option" where
  "closure_loop 0 es removed pending = None"
| "closure_loop (Suc fuel) es removed [] = Some removed"
| "closure_loop (Suc fuel) es removed (i # pending) =
     (let (removed, pending) = absorb i es removed pending in closure_loop fuel es removed pending)"

text \<open>\<open>requested\<close> is the ordered list of the requested set. Each iteration takes one id off the
  queue and an id is queued at most once per requested id or edge, which bounds the fuel.\<close>

definition removal_closure :: "CausalGraph \<Rightarrow> string list \<Rightarrow> string set option" where
  "removal_closure g requested =
     closure_loop (Suc (length requested + length (cg_edges g))) (cg_edges g)
       (set requested) requested"

section \<open>Nodes and edges that pass\<close>

definition node_ok :: "CausalNode \<Rightarrow> bool" where
  "node_ok n \<longleftrightarrow> token_ok (cn_id n) \<and> length (cn_label n) \<le> MAX_CAUSAL_LABEL_BYTES
     \<and> pred_option token_ok (cn_actor n) \<and> valid_target (cn_kind n) (cn_target n)
     \<and> validate_target (cn_target n) = Ok ()"

interpretation node_val: validator validate_node node_ok
  by unfold_locales (simp add: validate_node_def node_ok_def token.accepts_opt del: check_opt_Ok)

definition edge_ok :: "string set \<Rightarrow> CausalEdge \<Rightarrow> bool" where
  "edge_ok ids e \<longleftrightarrow> token_ok (ce_from e) \<and> token_ok (ce_to e) \<and> ce_from e \<noteq> ce_to e
     \<and> ce_from e \<in> ids \<and> ce_to e \<in> ids"

lemma collect_ids_Ok:
  "collect_ids nodes ids = Ok r \<longleftrightarrow>
     (\<forall>n \<in> set nodes. node_ok n) \<and> distinct (map cn_id nodes)
     \<and> set (map cn_id nodes) \<inter> ids = {} \<and> r = ids \<union> set (map cn_id nodes)"
  by (induction nodes ids rule: collect_ids.induct) (auto simp: node_val.accepts_iff)

definition edges_into :: "CausalEdge list \<Rightarrow> string \<Rightarrow> nat" where
  "edges_into es y = length (filter (\<lambda>e. ce_to e = y) es)"

definition edges_from :: "CausalEdge list \<Rightarrow> successors" where
  "edges_from es x = map ce_to (filter (\<lambda>e. ce_from e = x) es)"

lemma collect_edges_Ok:
  "collect_edges ids es seen ind out = Ok r \<longleftrightarrow>
     (\<forall>e \<in> set es. edge_ok ids e) \<and> distinct es \<and> set es \<inter> seen = {}
     \<and> r = (\<lambda>y. ind y + edges_into es y, \<lambda>x. out x @ edges_from es x)"
proof (induction ids es seen ind out rule: collect_edges.induct)
  case (1 ids seen ind out)
  then show ?case by (auto simp: edges_into_def edges_from_def)
next
  case (2 ids e es seen ind out)
  have "(\<lambda>y. (ind(ce_to e := ind (ce_to e) + 1)) y + edges_into es y,
         \<lambda>x. (out(ce_from e := out (ce_from e) @ [ce_to e])) x @ edges_from es x)
      = (\<lambda>y. ind y + edges_into (e # es) y, \<lambda>x. out x @ edges_from (e # es) x)"
    by (auto simp: edges_into_def edges_from_def fun_eq_iff)
  note shift = this
  show ?case
  proof (cases "edge_ok ids e \<and> e \<notin> seen")
    case True
    then have c: "\<not> (ce_from e = ce_to e \<or> ce_from e \<notin> ids \<or> ce_to e \<notin> ids \<or> e \<in> seen)"
      and "checks [validate_token (ce_from e), validate_token (ce_to e)] = Inr ()"
      by (auto simp: edge_ok_def)
    then have "collect_edges ids (e # es) seen ind out = Ok r \<longleftrightarrow>
        collect_edges ids es (insert e seen) (ind(ce_to e := ind (ce_to e) + 1))
          (out(ce_from e := out (ce_from e) @ [ce_to e])) = Ok r"
      by simp
    also note "2.IH" [OF c, unfolded shift]
    finally show ?thesis using True by auto
  next
    case False
    then show ?thesis by (auto simp: edge_ok_def)
  qed
qed

section \<open>Kahn's algorithm\<close>

text \<open>The successor relation of the graph.\<close>

definition edge_rel :: "CausalEdge list \<Rightarrow> (string \<times> string) set" where
  "edge_rel es = (\<lambda>e. (ce_from e, ce_to e)) ` set es"

text \<open>In-degree counted from the nodes not yet processed.\<close>

definition open_into :: "CausalEdge list \<Rightarrow> string set \<Rightarrow> string \<Rightarrow> nat" where
  "open_into es P y = length (filter (\<lambda>e. ce_to e = y \<and> ce_from e \<notin> P) es)"

definition kahn_inv :: "string set \<Rightarrow> CausalEdge list \<Rightarrow> string set \<Rightarrow> degrees \<Rightarrow> string list \<Rightarrow> bool" where
  "kahn_inv ids es P ind ready \<longleftrightarrow>
     ind = open_into es P \<and> distinct ready \<and> P \<subseteq> ids
     \<and> set ready = {y \<in> ids - P. open_into es P y = 0}
     \<and> (\<exists>rank :: string \<Rightarrow> nat. (\<forall>p \<in> P. rank p < card P)
          \<and> (\<forall>e \<in> set es. ce_to e \<in> P \<longrightarrow> ce_from e \<in> P \<and> rank (ce_from e) < rank (ce_to e)))"

lemma relax_spec:
  assumes "\<And>y. count_list xs y \<le> ind y" "distinct ready" "set ready \<inter> set xs = {}"
    "relax xs ind ready = (ind', ready')"
  shows "ind' = (\<lambda>y. ind y - count_list xs y) \<and> distinct ready'
    \<and> set ready' = set ready \<union> {y \<in> set xs. ind y = count_list xs y}"
  using assms
proof (induction xs ind ready rule: relax.induct)
  case (2 x xs ind ready)
  let ?ind = "ind(x := ind x - 1)"
  let ?ready = "if ind x - 1 = 0 then ready @ [x] else ready"
  have le: "count_list xs y \<le> ?ind y" for y
    using "2.prems"(1) [of y] by (auto split: if_splits)
  have x0: "ind x - 1 = 0 \<Longrightarrow> x \<notin> set xs"
    using le [of x] by (auto simp: count_list_0_iff [symmetric])
  have "distinct ?ready" "set ?ready \<inter> set xs = {}"
    using "2.prems"(2,3) x0 by auto
  moreover have "relax xs ?ind ?ready = (ind', ready')"
    using "2.prems"(4) by (simp only: relax.simps Let_def)
  ultimately have ih: "ind' = (\<lambda>y. ?ind y - count_list xs y)" "distinct ready'"
    "set ready' = set ?ready \<union> {y \<in> set xs. ?ind y = count_list xs y}"
    using "2.IH" [OF refl refl le] by blast+
  have ge: "Suc (count_list xs x) \<le> ind x" using "2.prems"(1) [of x] by simp
  have "ind' = (\<lambda>y. ind y - count_list (x # xs) y)" using ih(1) by (auto simp: fun_eq_iff)
  moreover have "set ready' = set ready \<union> {y \<in> set (x # xs). ind y = count_list (x # xs) y}"
  proof (rule set_eqI)
    fix y
    have m: "y \<in> set ready' \<longleftrightarrow> y \<in> set ?ready \<or> (y \<in> set xs \<and> ?ind y = count_list xs y)"
      by (simp only: ih(3) Un_iff mem_Collect_eq)
    show "y \<in> set ready' \<longleftrightarrow>
        y \<in> set ready \<union> {y \<in> set (x # xs). ind y = count_list (x # xs) y}"
    proof (cases "y = x")
      case True
      have "ind x = Suc (count_list xs x) \<longleftrightarrow> ind x - 1 = 0 \<or> (x \<in> set xs \<and> ind x - 1 = count_list xs x)"
        using ge x0 by (cases "x \<in> set xs") (auto simp: count_notin)
      with m True show ?thesis by auto
    next
      case False
      with m show ?thesis by auto
    qed
  qed
  ultimately show ?case using ih(2) by blast
qed auto

lemma count_edges_from:
  "count_list (edges_from es x) y = length (filter (\<lambda>e. ce_from e = x \<and> ce_to e = y) es)"
  by (induction es) (auto simp: edges_from_def)

lemma open_into_insert:
  "i \<notin> P \<Longrightarrow> open_into es (insert i P) y = open_into es P y - count_list (edges_from es i) y
     \<and> count_list (edges_from es i) y \<le> open_into es P y"
  unfolding count_edges_from open_into_def by (induction es) auto

lemma open_into_0: "open_into es P y = 0 \<longleftrightarrow> (\<forall>e \<in> set es. ce_to e = y \<longrightarrow> ce_from e \<in> P)"
  by (auto simp: open_into_def filter_empty_conv)

lemma kahn_step:
  assumes inv: "kahn_inv ids es P ind (i # ready)" and fin: "finite ids"
    and es: "\<forall>e \<in> set es. edge_ok ids e"
    and r: "relax (edges_from es i) ind ready = (ind', ready')"
  shows "i \<in> ids - P \<and> kahn_inv ids es (insert i P) ind' ready'"
proof -
  from inv obtain rank where
    ind: "ind = open_into es P" and dist: "distinct (i # ready)" and sub: "P \<subseteq> ids"
    and rd: "set (i # ready) = {y \<in> ids - P. open_into es P y = 0}"
    and rk: "\<forall>p \<in> P. rank p < card P"
      "\<forall>e \<in> set es. ce_to e \<in> P \<longrightarrow> ce_from e \<in> P \<and> rank (ce_from e) < (rank (ce_to e) :: nat)"
    by (auto simp: kahn_inv_def)
  have i: "i \<in> ids - P" "open_into es P i = 0" using rd by auto
  have le: "count_list (edges_from es i) y \<le> ind y" for y
    using open_into_insert [of i P es y] i ind by simp
  have nil: "set ready \<inter> set (edges_from es i) = {}"
  proof (rule ccontr)
    assume "set ready \<inter> set (edges_from es i) \<noteq> {}"
    then obtain y where y: "y \<in> set ready" "y \<in> set (edges_from es i)" by blast
    then have "ind y = 0" using rd ind by auto
    with le [of y] have "count_list (edges_from es i) y = 0" by simp
    with y(2) show False by (simp add: count_list_0_iff)
  qed
  from relax_spec [OF le _ nil r] dist have
    r': "ind' = (\<lambda>y. ind y - count_list (edges_from es i) y)" "distinct ready'"
      "set ready' = set ready \<union> {y \<in> set (edges_from es i). ind y = count_list (edges_from es i) y}"
    by auto
  have ind': "ind' = open_into es (insert i P)"
    using open_into_insert [of i P es] i ind r'(1) by auto
  have "card (insert i P) = Suc (card P)"
    using i finite_subset [OF sub fin] by simp
  moreover have "\<forall>e \<in> set es. ce_to e = i \<longrightarrow> ce_from e \<in> P" using i by (simp add: open_into_0)
  ultimately have "\<exists>rank :: string \<Rightarrow> nat. (\<forall>p \<in> insert i P. rank p < card (insert i P))
      \<and> (\<forall>e \<in> set es. ce_to e \<in> insert i P \<longrightarrow>
            ce_from e \<in> insert i P \<and> rank (ce_from e) < rank (ce_to e))"
    using rk i by (intro exI [of _ "rank(i := card P)"]) fastforce
  moreover have "set ready' = {y \<in> ids - insert i P. open_into es (insert i P) y = 0}"
  proof -
    have "y \<in> set (edges_from es i) \<Longrightarrow> y \<in> ids \<and> y \<notin> P \<and> y \<noteq> i" for y
      using es i rk(2) by (auto simp: edges_from_def edge_ok_def)
    moreover have "open_into es (insert i P) y = 0 \<longleftrightarrow>
        open_into es P y = 0 \<or> (y \<in> set (edges_from es i) \<and> ind y = count_list (edges_from es i) y)" for y
      using open_into_insert [of i P es y] i ind
      by (cases "y \<in> set (edges_from es i)") (auto simp: count_notin)
    moreover have "i \<notin> set ready" using dist by simp
    moreover have "set ready = {y \<in> ids - P. open_into es P y = 0} - {i}"
      using rd dist by auto
    ultimately show ?thesis using r'(3) by auto
  qed
  ultimately show ?thesis
    using i sub ind' r'(2) by (simp add: kahn_inv_def)
qed

text \<open>With one unit of fuel per open node and one more, the loop returns the number of nodes it
  processed, in a state with an empty queue.\<close>

lemma kahn_total:
  assumes "kahn_inv ids es P ind ready" "finite ids" "\<forall>e \<in> set es. edge_ok ids e"
    "card (ids - P) < fuel"
  shows "\<exists>Q ind'. kahn fuel (edges_from es) ind ready (card P) = Some (card Q)
    \<and> kahn_inv ids es Q ind' []"
  using assms
proof (induction fuel arbitrary: P ind ready)
  case (Suc fuel)
  show ?case
  proof (cases ready)
    case Nil
    with Suc.prems(1) show ?thesis by auto
  next
    case (Cons i rest)
    obtain ind' ready' where r: "relax (edges_from es i) ind rest = (ind', ready')" by fastforce
    have step: "i \<in> ids - P" "kahn_inv ids es (insert i P) ind' ready'"
      using kahn_step [OF _ Suc.prems(2,3) r] Suc.prems(1) Cons by auto
    have "finite P" using Suc.prems(1,2) by (auto simp: kahn_inv_def dest: finite_subset)
    then have c: "card (insert i P) = card P + 1" using step(1) by simp
    have "card (ids - insert i P) < card (ids - P)"
      using step(1) Suc.prems(2) by (intro psubset_card_mono) auto
    then have "card (ids - insert i P) < fuel" using Suc.prems(4) by simp
    from Suc.IH [OF step(2) Suc.prems(2,3) this] r c show ?thesis by (simp add: Cons)
  qed
qed simp

lemma kahn_inv_init:
  "distinct ready \<Longrightarrow> set ready = {y \<in> ids. edges_into es y = 0} \<Longrightarrow>
     kahn_inv ids es {} (edges_into es) ready"
  by (auto simp: kahn_inv_def open_into_def edges_into_def fun_eq_iff)

lemma kahn_done_acyclic:
  assumes "kahn_inv ids es ids ind ready" "\<forall>e \<in> set es. edge_ok ids e"
  shows "acyclic (edge_rel es)"
proof -
  from assms(1) obtain rank :: "string \<Rightarrow> nat" where
    "\<forall>e \<in> set es. ce_to e \<in> ids \<longrightarrow> rank (ce_from e) < rank (ce_to e)"
    by (auto simp: kahn_inv_def)
  with assms(2) have "edge_rel es \<subseteq> measure rank"
    by (auto simp: edge_rel_def edge_ok_def)
  then show ?thesis by (meson acyclic_subset wf_acyclic wf_measure)
qed

lemma acyclic_kahn_done:
  assumes "kahn_inv ids es P ind []" "finite ids" "\<forall>e \<in> set es. edge_ok ids e"
    "acyclic (edge_rel es)"
  shows "P = ids"
proof (rule ccontr)
  assume "P \<noteq> ids"
  with assms(1) obtain y where y: "y \<in> ids - P" by (auto simp: kahn_inv_def)
  have "finite (edge_rel es)" by (simp add: edge_rel_def)
  with assms(4) have "wf (edge_rel es)" by (simp add: finite_acyclic_wf)
  then obtain z where z: "z \<in> ids - P" "\<And>x. (x, z) \<in> edge_rel es \<Longrightarrow> x \<notin> ids - P"
    using y by (meson wfE_min)
  with assms(3) have "open_into es P z = 0"
    by (force simp: open_into_0 edge_rel_def edge_ok_def)
  with z(1) assms(1) show False by (auto simp: kahn_inv_def)
qed

section \<open>Removal closure\<close>

definition dep_rel :: "CausalEdge list \<Rightarrow> (string \<times> string) set" where
  "dep_rel es = edge_rel (filter dependency_edge es)"

lemma absorb_spec:
  assumes "absorb i es removed pending = (removed', pending')"
  shows "removed' = removed \<union> dep_rel es `` {i}
    \<and> (\<exists>new. pending' = pending @ new \<and> distinct new \<and> set new = removed' - removed)"
  using assms
proof (induction i es removed pending rule: absorb.induct)
  case (1 i removed pending)
  then show ?case by (auto simp: dep_rel_def edge_rel_def)
next
  case (2 i e es removed pending)
  have rel: "dep_rel (e # es) `` {i} =
      (if ce_from e = i \<and> dependency_edge e then insert (ce_to e) else id) (dep_rel es `` {i})"
    by (auto simp: dep_rel_def edge_rel_def)
  show ?case
  proof (cases "ce_from e = i \<and> dependency_edge e \<and> ce_to e \<notin> removed")
    case True
    with "2.IH"(1) [OF True] "2.prems" obtain new where
      "removed' = insert (ce_to e) removed \<union> dep_rel es `` {i}"
      "pending' = pending @ [ce_to e] @ new" "distinct new"
      "set new = removed' - insert (ce_to e) removed"
      by auto
    with True rel show ?thesis by (intro conjI exI [of _ "ce_to e # new"]) auto
  next
    case False
    then have "absorb i es removed pending = (removed', pending')"
      using "2.prems" by (simp only: absorb.simps if_False)
    from "2.IH"(2) [OF False this] False rel show ?thesis by auto
  qed
qed

lemma finite_dep_targets: "finite (dep_rel es `` A)"
  by (rule finite_subset [of _ "ce_to ` set es"]) (auto simp: dep_rel_def edge_rel_def)

lemma closure_loop_spec:
  assumes "set pending \<subseteq> removed" "start \<subseteq> removed" "removed \<subseteq> (dep_rel es)\<^sup>* `` start"
    "dep_rel es `` (removed - set pending) \<subseteq> removed"
    "length pending + card (ce_to ` set es - removed) < fuel"
  shows "closure_loop fuel es removed pending = Some ((dep_rel es)\<^sup>* `` start)"
  using assms
proof (induction fuel arbitrary: removed pending)
  case (Suc fuel)
  show ?case
  proof (cases pending)
    case Nil
    with Suc.prems(4) have "(dep_rel es)\<^sup>* `` removed = removed"
      by (intro Image_closed_trancl) simp
    moreover have "(dep_rel es)\<^sup>* `` start \<subseteq> (dep_rel es)\<^sup>* `` removed"
      using Suc.prems(2) by (rule Image_mono [OF order_refl])
    ultimately show ?thesis using Suc.prems(3) Nil by auto
  next
    case (Cons i rest)
    obtain removed' pending' where a: "absorb i es removed rest = (removed', pending')" by fastforce
    from absorb_spec [OF a] obtain new where
      r: "removed' = removed \<union> dep_rel es `` {i}" and
      new: "pending' = rest @ new" "distinct new" "set new = removed' - removed" by blast
    have "i \<in> (dep_rel es)\<^sup>* `` start" using Suc.prems(1,3) Cons by auto
    then have "removed' \<subseteq> (dep_rel es)\<^sup>* `` start"
      using Suc.prems(3) r by (auto intro: rtrancl_into_rtrancl)
    moreover have "dep_rel es `` (removed' - set pending') \<subseteq> removed'"
      using Suc.prems(4) r new Cons by auto
    moreover have "length pending' + card (ce_to ` set es - removed') < fuel"
    proof -
      have "set new \<subseteq> ce_to ` set es - removed"
        using r new by (auto simp: dep_rel_def edge_rel_def)
      moreover have "ce_to ` set es - removed' = (ce_to ` set es - removed) - set new"
        using r new by auto
      ultimately have "card (ce_to ` set es - removed') = card (ce_to ` set es - removed) - length new"
        using new(2) by (simp add: card_Diff_subset distinct_card)
      moreover have "length new \<le> card (ce_to ` set es - removed)"
        using \<open>set new \<subseteq> _\<close> new(2) by (metis card_mono distinct_card finite_Diff finite_imageI List.finite_set)
      ultimately show ?thesis using Suc.prems(5) new(1) Cons by simp
    qed
    ultimately have "closure_loop fuel es removed' pending' = Some ((dep_rel es)\<^sup>* `` start)"
      using Suc.prems(1,2) r new Cons by (intro Suc.IH) auto
    with a Cons show ?thesis by simp
  qed
qed simp

section \<open>Properties\<close>

definition graph_ok :: "CausalGraph \<Rightarrow> bool" where
  "graph_ok g \<longleftrightarrow> cg_version g = CAUSAL_GRAPH_VERSION
     \<and> length (cg_nodes g) \<le> MAX_CAUSAL_NODES \<and> length (cg_edges g) \<le> MAX_CAUSAL_EDGES
     \<and> list_all node_ok (cg_nodes g) \<and> distinct (map cn_id (cg_nodes g))
     \<and> list_all (edge_ok (set (map cn_id (cg_nodes g)))) (cg_edges g) \<and> distinct (cg_edges g)"

lemma causal_validate_graph_ok:
  assumes "graph_ok g"
  shows "causal_validate g =
    (if acyclic (edge_rel (cg_edges g)) then Ok () else Err (perr_new InvalidSequence))"
proof -
  let ?ids = "set (map cn_id (cg_nodes g))" and ?es = "cg_edges g"
  let ?ready = "filter (\<lambda>i. edges_into ?es i = 0) (sort (map cn_id (cg_nodes g)))"
  from assms have es: "\<forall>e \<in> set ?es. edge_ok ?ids e" and d: "distinct (map cn_id (cg_nodes g))"
    by (simp_all add: graph_ok_def list_all_iff)
  have n: "card ?ids = length (cg_nodes g)" using distinct_card [OF d] by simp
  have "kahn_inv ?ids ?es {} (edges_into ?es) ?ready"
    using d by (intro kahn_inv_init) auto
  from kahn_total [OF this _ es, of "Suc (length (cg_nodes g))"] n obtain Q ind' where
    k: "kahn (Suc (length (cg_nodes g))) (edges_from ?es) (edges_into ?es) ?ready (card {}) = Some (card Q)"
    and inv: "kahn_inv ?ids ?es Q ind' []"
    by auto
  have "card Q = length (cg_nodes g) \<longleftrightarrow> Q = ?ids"
    using inv n by (metis card_subset_eq kahn_inv_def List.finite_set)
  also have "\<dots> \<longleftrightarrow> acyclic (edge_rel ?es)"
    using kahn_done_acyclic [OF _ es] acyclic_kahn_done [OF inv _ es] inv by (metis List.finite_set)
  finally have iff: "card Q = length (cg_nodes g) \<longleftrightarrow> acyclic (edge_rel ?es)" .
  have "collect_ids (cg_nodes g) {} = Ok ?ids"
    using assms by (simp add: collect_ids_Ok graph_ok_def list_all_iff)
  moreover have "collect_edges ?ids ?es {} (\<lambda>_. 0) (\<lambda>_. []) = Ok (edges_into ?es, edges_from ?es)"
    using assms by (simp add: collect_edges_Ok graph_ok_def list_all_iff)
  ultimately show ?thesis
    using assms k iff by (simp add: causal_validate_def graph_ok_def not_less Let_def)
qed

text \<open>C2. The graph validator accepts exactly the well-formed acyclic graphs: right version, within
  the node and edge limits, every node valid and no id used twice, every edge between two different
  known nodes and listed once, and no cycle. Kahn's algorithm is thus correct and complete, and the
  fuel of its loop never runs out.\<close>

theorem causal_validate_iff_acyclic:
  "causal_validate g = Ok () \<longleftrightarrow> graph_ok g \<and> acyclic (edge_rel (cg_edges g))"
proof
  assume ok: "causal_validate g = Ok ()"
  then have "graph_ok g"
    by (auto simp: causal_validate_def graph_ok_def collect_ids_Ok collect_edges_Ok list_all_iff
        not_less split: prod.splits)
  with ok show "graph_ok g \<and> acyclic (edge_rel (cg_edges g))"
    by (simp add: causal_validate_graph_ok split: if_splits)
qed (simp add: causal_validate_graph_ok)

text \<open>A well-formed graph with a cycle is rejected with the reason \<open>invalid-sequence\<close> and no
  other.\<close>

theorem causal_validate_cycle:
  assumes "graph_ok g" "\<not> acyclic (edge_rel (cg_edges g))"
  shows "causal_validate g = Err (perr_new InvalidSequence)"
  using causal_validate_graph_ok [OF assms(1)] assms(2) by simp

text \<open>The removal closure always returns, and is exactly the set of nodes reachable from the
  requested ones along data-dependency and state-prerequisite edges: ordering, ownership and scope
  edges never pull a node in.\<close>

theorem removal_closure_reachable:
  "removal_closure g requested =
     Some ((edge_rel (filter dependency_edge (cg_edges g)))\<^sup>* `` set requested)"
proof -
  have "card (ce_to ` set (cg_edges g) - set requested) \<le> length (cg_edges g)"
    by (meson List.finite_set card_image_le card_length card_mono finite_imageI Diff_subset order_trans)
  then show ?thesis
    unfolding removal_closure_def dep_rel_def [symmetric]
    by (intro closure_loop_spec) auto
qed

section \<open>Witness\<close>

definition sample_node :: "string \<Rightarrow> CausalNode" where
  "sample_node i = \<lparr>cn_id = i, cn_kind = ActorEvent, cn_label = i, cn_actor = None, cn_target = None\<rparr>"

text \<open>The cyclic graph of the unit test \<open>rejects_cycles\<close>.\<close>

definition sample_cycle :: CausalGraph where
  "sample_cycle = \<lparr>cg_version = CAUSAL_GRAPH_VERSION, cg_nodes = [sample_node ''a'', sample_node ''b''],
     cg_edges = [\<lparr>ce_from = ''a'', ce_to = ''b'', ce_kind = HappensBefore\<rparr>,
                 \<lparr>ce_from = ''b'', ce_to = ''a'', ce_kind = DataDependency\<rparr>]\<rparr>"

theorem causal_validate_cycle_witness:
  "causal_validate sample_cycle = Err (perr_new InvalidSequence)"
proof (rule causal_validate_cycle)
  show "graph_ok sample_cycle"
    by (simp add: graph_ok_def sample_cycle_def sample_node_def node_ok_def edge_ok_def token_ok_def
        token_byte_def ascii_simps MAX_TOKEN_BYTES_def MAX_CAUSAL_NODES_def MAX_CAUSAL_EDGES_def
        MAX_CAUSAL_LABEL_BYTES_def valid_target_def validate_target_def)
  have "(''a'', ''b'') \<in> edge_rel (cg_edges sample_cycle)" "(''b'', ''a'') \<in> edge_rel (cg_edges sample_cycle)"
    by (simp_all add: edge_rel_def sample_cycle_def)
  then have "(''a'', ''a'') \<in> (edge_rel (cg_edges sample_cycle))\<^sup>+" by (meson trancl.simps)
  then show "\<not> acyclic (edge_rel (cg_edges sample_cycle))" by (auto simp: acyclic_def)
qed

end
