(* ===== verification/Protocol_Environment.thy ===== *)
theory Protocol_Environment
  imports Protocol_Core
begin

text \<open>
  The environment-minimization proof (\<open>protocol/src/environment.rs\<close>). The attempt counters are
  machine words of the widths the code uses; \<open>environment_validate_iff\<close> states what is accepted
  with exact natural numbers, so it also shows that the 32-bit sum of attempts never wraps.
\<close>

definition ENVIRONMENT_ENVELOPE_VERSION :: "16 word" where "ENVIRONMENT_ENVELOPE_VERSION = 1"
definition MAX_ENVIRONMENT_TRIALS :: nat where "MAX_ENVIRONMENT_TRIALS = 4096"
definition MAX_ENVIRONMENT_TEXT_BYTES :: nat where "MAX_ENVIRONMENT_TEXT_BYTES = 16 * 1024"

datatype EnvironmentOutcome = Reproduces | DoesNotReproduce | OAbstain

record EnvironmentTrial =
  et_dimension :: string
  et_baseline :: string
  et_candidate :: "string option"
  et_outcome :: EnvironmentOutcome
  et_reason :: string
  et_replay_attempts :: "16 word"

text \<open>\<open>relaxed_dimensions\<close> is the increasing list of the \<open>BTreeSet\<close>, \<open>captured\<close> the entries of the
  \<open>BTreeMap\<close>.\<close>

record EnvironmentEnvelope =
  ee_version :: "16 word"
  ee_complete :: bool
  ee_replay_attempts :: "16 word"
  ee_relaxed_dimensions :: "string list"
  ee_trials :: "EnvironmentTrial list"

record EnvironmentProof =
  ep_captured :: "(string \<times> string) list"
  ep_envelope :: EnvironmentEnvelope

definition envelope_default :: EnvironmentEnvelope where
  "envelope_default = \<lparr>ee_version = ENVIRONMENT_ENVELOPE_VERSION, ee_complete = False,
     ee_replay_attempts = 0, ee_relaxed_dimensions = [], ee_trials = []\<rparr>"

definition saturating_add :: "32 word \<Rightarrow> 32 word \<Rightarrow> 32 word" where
  "saturating_add a b = (if unat a + unat b < 2 ^ 32 then a + b else - 1)"

text \<open>The checks on one trial; \<open>dimensions\<close> is the set built up by the loop.\<close>

definition trial_bad :: "(string \<times> string) list \<Rightarrow> string set \<Rightarrow> EnvironmentTrial \<Rightarrow> bool" where
  "trial_bad captured dimensions t \<longleftrightarrow>
     map_of captured (et_dimension t) = None
     \<or> et_dimension t \<in> dimensions
     \<or> MAX_ENVIRONMENT_TEXT_BYTES < length (et_dimension t)
     \<or> MAX_ENVIRONMENT_TEXT_BYTES < length (et_baseline t)
     \<or> (case et_candidate t of None \<Rightarrow> False | Some v \<Rightarrow> MAX_ENVIRONMENT_TEXT_BYTES < length v)
     \<or> MAX_ENVIRONMENT_TEXT_BYTES < length (et_reason t)
     \<or> map_of captured (et_dimension t) \<noteq> Some (et_baseline t)"

fun check_trials :: "(string \<times> string) list \<Rightarrow> EnvironmentTrial list \<Rightarrow> string set \<Rightarrow> 32 word
    \<Rightarrow> (ProtocolError, 32 word) result" where
  "check_trials captured [] dimensions recorded_attempts = Ok recorded_attempts"
| "check_trials captured (t # ts) dimensions recorded_attempts =
     (if trial_bad captured dimensions t then Err (perr_new InvalidEvent)
      else if et_outcome t = Reproduces \<and> et_replay_attempts t = 0
      then Err (perr_new InvalidSequence)
      else if et_outcome t = DoesNotReproduce \<and> et_replay_attempts t < 2
      then Err (perr_new InvalidSequence)
      else check_trials captured ts (insert (et_dimension t) dimensions)
             (recorded_attempts + ucast (et_replay_attempts t)))"

definition envelope_validate :: "EnvironmentEnvelope \<Rightarrow> (string \<times> string) list \<Rightarrow> check" where
  "envelope_validate e captured =
     rbind (checks
       [guard (ee_version e = ENVIRONMENT_ENVELOPE_VERSION) (perr_new UnsupportedVersion),
        guard (\<not> MAX_ENVIRONMENT_TRIALS < length (ee_trials e)) (perr_new BatchTooLarge),
        guard (\<not> (\<not> ee_complete e \<and> ee_relaxed_dimensions e \<noteq> [])) (perr_new InvalidEvent)]) (\<lambda>_.
     rbind (check_trials captured (ee_trials e) {} 0) (\<lambda>recorded_attempts.
       let attempts = ucast (ee_replay_attempts e);
           valid_attempts =
             (if ee_complete e then attempts = saturating_add recorded_attempts 1
              else attempts = recorded_attempts \<or> attempts = saturating_add recorded_attempts 1)
       in checks
         [guard valid_attempts (perr_new InvalidSequence),
          check_each (\<lambda>dimension.
            guard (list_ex (\<lambda>t. et_dimension t = dimension \<and> et_outcome t = Reproduces) (ee_trials e))
              (perr_new InvalidEvent)) (ee_relaxed_dimensions e)]))"

definition environment_validate :: "EnvironmentProof \<Rightarrow> check" where
  "environment_validate p = envelope_validate (ep_envelope p) (ep_captured p)"

section \<open>Lemmas\<close>

definition trial_ok :: "(string \<times> string) list \<Rightarrow> EnvironmentTrial \<Rightarrow> bool" where
  "trial_ok captured t \<longleftrightarrow>
     map_of captured (et_dimension t) = Some (et_baseline t)
     \<and> length (et_dimension t) \<le> MAX_ENVIRONMENT_TEXT_BYTES
     \<and> length (et_baseline t) \<le> MAX_ENVIRONMENT_TEXT_BYTES
     \<and> pred_option (\<lambda>v. length v \<le> MAX_ENVIRONMENT_TEXT_BYTES) (et_candidate t)
     \<and> length (et_reason t) \<le> MAX_ENVIRONMENT_TEXT_BYTES
     \<and> (et_outcome t = Reproduces \<longrightarrow> 1 \<le> unat (et_replay_attempts t))
     \<and> (et_outcome t = DoesNotReproduce \<longrightarrow> 2 \<le> unat (et_replay_attempts t))"

lemma trial_bad_iff:
  "\<not> (trial_bad captured dims t \<or> (et_outcome t = Reproduces \<and> et_replay_attempts t = 0)
      \<or> (et_outcome t = DoesNotReproduce \<and> et_replay_attempts t < 2))
   \<longleftrightarrow> trial_ok captured t \<and> et_dimension t \<notin> dims"
proof -
  have "(et_replay_attempts t = 0) = (\<not> 1 \<le> unat (et_replay_attempts t))"
    by (simp add: unat_eq_0 not_le)
  moreover have "(et_replay_attempts t < 2) = (\<not> 2 \<le> unat (et_replay_attempts t))"
    by (simp add: word_less_nat_alt not_le)
  ultimately show ?thesis
    by (cases "et_candidate t") (auto simp: trial_bad_def trial_ok_def)
qed

lemma unat_u16_bound: "unat (w :: 16 word) \<le> 65535"
proof -
  have "unat w < 2 ^ LENGTH(16)" by (rule unsigned_less)
  then show ?thesis by simp
qed

lemma unat_ucast_attempts [simp]: "unat (ucast (a :: 16 word) :: 32 word) = unat a"
proof -
  have "unat a < 2 ^ 32" using unat_u16_bound [of a] by simp
  then show ?thesis by (simp add: unsigned_ucast_eq take_bit_nat_eq_self)
qed

definition total_attempts :: "EnvironmentTrial list \<Rightarrow> nat" where
  "total_attempts ts = sum_list (map (\<lambda>t. unat (et_replay_attempts t)) ts)"

lemma total_attempts_Cons:
  "total_attempts (t # ts) = unat (et_replay_attempts t) + total_attempts ts"
  by (simp add: total_attempts_def)

lemma total_attempts_bound: "total_attempts ts \<le> 65535 * length ts"
proof (induction ts)
  case (Cons t ts)
  then show ?case using unat_u16_bound [of "et_replay_attempts t"] by (simp add: total_attempts_Cons)
qed (simp add: total_attempts_def)

lemma check_trials_Ok:
  assumes "unat n + total_attempts ts < 2 ^ 32"
  shows "check_trials captured ts dims n = Ok r \<longleftrightarrow>
    list_all (trial_ok captured) ts \<and> distinct (map et_dimension ts)
    \<and> et_dimension ` set ts \<inter> dims = {} \<and> unat r = unat n + total_attempts ts"
  using assms
proof (induction captured ts dims n rule: check_trials.induct)
  case (1 captured dims n)
  then show ?case by (auto simp: total_attempts_def dest: sym simp: word_unat_eq_iff)
next
  case (2 captured t ts dims n)
  let ?bad = "trial_bad captured dims t \<or> (et_outcome t = Reproduces \<and> et_replay_attempts t = 0)
      \<or> (et_outcome t = DoesNotReproduce \<and> et_replay_attempts t < 2)"
  show ?case
  proof (cases ?bad)
    case True
    then have "\<not> (trial_ok captured t \<and> et_dimension t \<notin> dims)" using trial_bad_iff by blast
    moreover have "check_trials captured (t # ts) dims n \<noteq> Ok r" using True by auto
    ultimately show ?thesis by auto
  next
    case False
    then have ok: "trial_ok captured t" "et_dimension t \<notin> dims"
      using trial_bad_iff by blast+
    let ?n = "n + ucast (et_replay_attempts t) :: 32 word"
    have "unat n + unat (et_replay_attempts t) < 2 ^ 32" using "2.prems" by (simp add: total_attempts_Cons)
    then have n: "unat ?n = unat n + unat (et_replay_attempts t)"
      by (simp add: unat_word_ariths)
    have "check_trials captured (t # ts) dims n =
        check_trials captured ts (insert (et_dimension t) dims) ?n"
      using False by auto
    moreover have "unat ?n + total_attempts ts < 2 ^ 32"
      using "2.prems" n by (simp add: total_attempts_Cons)
    ultimately show ?thesis
      using "2.IH" False ok n by (auto simp: total_attempts_Cons)
  qed
qed

definition envelope_ok :: "EnvironmentEnvelope \<Rightarrow> (string \<times> string) list \<Rightarrow> bool" where
  "envelope_ok e captured \<longleftrightarrow>
     ee_version e = ENVIRONMENT_ENVELOPE_VERSION
     \<and> length (ee_trials e) \<le> MAX_ENVIRONMENT_TRIALS
     \<and> list_all (trial_ok captured) (ee_trials e) \<and> distinct (map et_dimension (ee_trials e))
     \<and> (unat (ee_replay_attempts e) = total_attempts (ee_trials e) + 1
        \<or> \<not> ee_complete e \<and> unat (ee_replay_attempts e) = total_attempts (ee_trials e))
     \<and> list_all (\<lambda>d. ee_complete e \<and>
          list_ex (\<lambda>t. et_dimension t = d \<and> et_outcome t = Reproduces) (ee_trials e))
          (ee_relaxed_dimensions e)"

lemma attempts_valid:
  fixes r :: "32 word"
  assumes "unat r = n" "n + 1 < 2 ^ 32"
  shows "(ucast (a :: 16 word) = saturating_add r 1) = (unat a = n + 1)"
    "(ucast a = r) = (unat a = n)"
proof -
  have "unat (saturating_add r 1) = n + 1"
    using assms by (simp add: saturating_add_def unat_word_ariths)
  then show "(ucast a = saturating_add r 1) = (unat a = n + 1)"
    by (simp only: word_unat_eq_iff unat_ucast_attempts)
  show "(ucast a = r) = (unat a = n)"
    using assms by (simp only: word_unat_eq_iff unat_ucast_attempts)
qed

lemma environment_accepts_iff:
  "environment_validate p = Ok () \<longleftrightarrow> envelope_ok (ep_envelope p) (ep_captured p)"
proof (cases "length (ee_trials (ep_envelope p)) \<le> MAX_ENVIRONMENT_TRIALS")
  case False
  then show ?thesis by (simp add: environment_validate_def envelope_validate_def envelope_ok_def)
next
  case True
  define e where "e = ep_envelope p"
  have le: "total_attempts (ee_trials e) \<le> 65535 * 4096"
    using total_attempts_bound [of "ee_trials e"] True
    by (simp add: MAX_ENVIRONMENT_TRIALS_def e_def)
  then have "unat (0 :: 32 word) + total_attempts (ee_trials e) < 2 ^ 32" by simp
  note ct = check_trials_Ok [OF this, of "ep_captured p" "{}"]
  show ?thesis
  proof (cases "\<exists>r. check_trials (ep_captured p) (ee_trials e) {} 0 = Ok r")
    case False
    then have "envelope_validate e (ep_captured p) \<noteq> Ok ()" by (simp add: envelope_validate_def)
    moreover have "\<not> envelope_ok e (ep_captured p)"
    proof
      assume "envelope_ok e (ep_captured p)"
      then have "check_trials (ep_captured p) (ee_trials e) {} 0 =
          Ok (of_nat (total_attempts (ee_trials e)))"
        using ct le by (simp add: envelope_ok_def unat_of_nat)
      with False show False by blast
    qed
    ultimately show ?thesis by (simp add: environment_validate_def e_def)
  next
    case True
    then obtain r where r: "check_trials (ep_captured p) (ee_trials e) {} 0 = Ok r" by blast
    with ct have r': "list_all (trial_ok (ep_captured p)) (ee_trials e)"
      "distinct (map et_dimension (ee_trials e))" "unat r = total_attempts (ee_trials e)" by auto
    from r'(3) le have "total_attempts (ee_trials e) + 1 < 2 ^ 32" by simp
    note av = attempts_valid [OF r'(3) this]
    show ?thesis
      using \<open>length (ee_trials (ep_envelope p)) \<le> _\<close> r'(1,2)
      by (auto simp: environment_validate_def envelope_validate_def envelope_ok_def r av Let_def
          list_all_iff not_less e_def [symmetric])
  qed
qed

section \<open>Properties\<close>

text \<open>What the envelope validator accepts, with exact counts: the version matches, at most 4096
  trials, every trial starts from the captured value of a captured dimension that no other trial
  uses, a reproducing trial has at least one attempt and a non-reproducing one at least two, the
  recorded total accounts for every attempt (one more for the final confirmation, which only an
  incomplete envelope may lack), and a relaxed dimension is backed by a reproducing trial of a
  complete envelope. The 32-bit accumulator never overflows.\<close>

theorem environment_validate_iff:
  "environment_validate p = Ok () \<longleftrightarrow> envelope_ok (ep_envelope p) (ep_captured p)"
  by (rule environment_accepts_iff)

text \<open>The number of replay attempts an accepted proof accounts for fits the 16-bit counter it
  declares: no accepted proof hides attempts behind a wrapped counter.\<close>

theorem environment_attempts_bound:
  assumes "environment_validate p = Ok ()"
  shows "total_attempts (ee_trials (ep_envelope p)) \<le> unat (ee_replay_attempts (ep_envelope p))
    \<and> unat (ee_replay_attempts (ep_envelope p)) \<le> total_attempts (ee_trials (ep_envelope p)) + 1
    \<and> total_attempts (ee_trials (ep_envelope p)) \<le> 65535"
  using assms unat_u16_bound [of "ee_replay_attempts (ep_envelope p)"]
  by (auto simp: environment_accepts_iff envelope_ok_def)

section \<open>Witness\<close>

text \<open>The accepted envelope of the unit test \<open>relaxed_dimension_requires_a_complete_reproducing_trial\<close>.\<close>

definition sample_proof :: EnvironmentProof where
  "sample_proof = \<lparr>ep_captured = [(''define:MODE'', ''debug'')],
     ep_envelope = \<lparr>ee_version = ENVIRONMENT_ENVELOPE_VERSION, ee_complete = True,
       ee_replay_attempts = 2, ee_relaxed_dimensions = [''define:MODE''],
       ee_trials = [\<lparr>et_dimension = ''define:MODE'', et_baseline = ''debug'', et_candidate = None,
         et_outcome = Reproduces, et_reason = ''candidate-replay-incomplete'',
         et_replay_attempts = 1\<rparr>]\<rparr>\<rparr>"

lemma sample_proof_valid: "environment_validate sample_proof = Ok ()"
  by (simp add: environment_validate_def envelope_validate_def sample_proof_def trial_bad_def
      saturating_add_def MAX_ENVIRONMENT_TRIALS_def MAX_ENVIRONMENT_TEXT_BYTES_def)

theorem environment_attempts_bound_witness:
  "total_attempts (ee_trials (ep_envelope sample_proof)) \<le> 65535"
  using environment_attempts_bound [OF sample_proof_valid] by blast

end
