(* ===== verification/Protocol_Frame.thy ===== *)
theory Protocol_Frame
  imports Protocol_Core
begin

text \<open>
  Events, event frames and the line format of the stream (\<open>protocol/src/lib.rs\<close>): what
  \<open>Event::validate\<close> and \<open>EventFrame::validate\<close> accept, \<open>EventFrame::encode_line\<close>, and
  \<open>decode_frame_line\<close> with every defect it can report.
\<close>

section \<open>Events\<close>

record FindingIdentity =
  fi_oracle :: string
  fi_invariant :: string
  fi_kind :: string
  fi_message :: string
  fi_frame :: string
  fi_trigger :: string
  fi_boundary :: "string option"

record PathStep =
  ps_signature :: string
  ps_action :: string
  ps_label :: "string option"

text \<open>The constructors of the Rust enum carry an \<open>E\<close> in front, since \<open>Backend\<close> names a scope too.
  The arguments are the variant's fields in declaration order.\<close>

datatype Event =
    EAction "string option" string
  | EObservation "string option" "string option" "string option" "string list"
      "(string \<times> 64 word) list" "string list" "16 word list" "string list"
  | EBackend json
  | EGraphEdge string string string
  | EFinding string string FindingIdentity "PathStep list" "(string \<times> json) list"
  | EStreamDefect ReasonCode

text \<open>The JSON calls made on events and values; \<open>None\<close> is the library's error.\<close>

record serde =
  to_vec_event :: "Event \<Rightarrow> string option"
  to_string_event :: "Event \<Rightarrow> string option"
  from_str_event :: "string \<Rightarrow> Event option"
  to_vec_value :: "json \<Rightarrow> string option"
  to_value_context :: "(string \<times> json) list \<Rightarrow> json option"

definition validate_value :: "'z serde_scheme \<Rightarrow> json \<Rightarrow> nat \<Rightarrow> check" where
  "validate_value sj value max_bytes =
     (case to_vec_value sj value of
        None \<Rightarrow> Err (perr_new InvalidEvent)
      | Some bytes \<Rightarrow>
          if max_bytes < length bytes then Err (perr_new InvalidEvent) else Ok ())"

definition identity_validate :: "FindingIdentity \<Rightarrow> check" where
  "identity_validate i = checks
     [validate_lower_token (fi_oracle i),
      check_each (\<lambda>value. validate_text value MAX_TEXT_BYTES)
        [fi_invariant i, fi_kind i, fi_message i, fi_frame i, fi_trigger i],
      validate_optional_text (fi_boundary i) MAX_TEXT_BYTES]"

definition step_validate :: "PathStep \<Rightarrow> check" where
  "step_validate s = checks
     [validate_text (ps_signature s) MAX_TEXT_BYTES,
      validate_text (ps_action s) MAX_TEXT_BYTES,
      validate_optional_text (ps_label s) MAX_TEXT_BYTES]"

fun event_validate :: "'z serde_scheme \<Rightarrow> Event \<Rightarrow> check" where
  "event_validate sj (EAction actor action) = checks
     [validate_optional_token actor, validate_text action MAX_TEXT_BYTES]"
| "event_validate sj (EObservation actor state route visible_text counts oracle_signals
      network_statuses response_shapes) = checks
     [validate_optional_token actor,
      validate_optional_text state MAX_TEXT_BYTES,
      validate_optional_text route MAX_TEXT_BYTES,
      validate_strings visible_text 1024 MAX_TEXT_BYTES,
      validate_strings oracle_signals 256 MAX_TOKEN_BYTES,
      validate_strings response_shapes 256 MAX_TEXT_BYTES,
      guard (length counts \<le> 4096) (perr_new InvalidEvent),
      check_each (\<lambda>key. validate_text key MAX_TOKEN_BYTES) (map fst counts)]"
| "event_validate sj (EBackend evidence) = validate_value sj evidence MAX_CONTEXT_BYTES"
| "event_validate sj (EGraphEdge frm action to) = checks
     [validate_text frm MAX_TEXT_BYTES,
      validate_text action MAX_TEXT_BYTES,
      validate_text to MAX_TEXT_BYTES]"
| "event_validate sj (EFinding signature message identity path ctxt) = checks
     [validate_text signature MAX_TEXT_BYTES,
      validate_text message MAX_TEXT_BYTES,
      identity_validate identity,
      guard (length path \<le> 256) (perr_new InvalidEvent),
      check_each step_validate path,
      validate_value sj (case to_value_context sj ctxt of None \<Rightarrow> JNull | Some v \<Rightarrow> v)
        MAX_CONTEXT_BYTES]"
| "event_validate sj (EStreamDefect reason) = Ok ()"

section \<open>Frames\<close>

record EventFrame =
  ef_run_id :: string
  ef_sequence :: "64 word"
  ef_scope :: EvidenceScope
  ef_event :: Event

definition frame_validate :: "'z serde_scheme \<Rightarrow> EventFrame \<Rightarrow> check" where
  "frame_validate sj f = checks
     [validate_token (ef_run_id f),
      scope_validate (ef_scope f),
      event_validate sj (ef_event f),
      (case to_vec_event sj (ef_event f) of
         None \<Rightarrow> Err (perr_new InvalidEvent)
       | Some encoded \<Rightarrow>
           if MAX_FRAME_BYTES < length encoded
           then Err (perr_scoped FrameTooLarge (ef_scope f)) else Ok ())]"

definition frame_header :: "EventFrame \<Rightarrow> string" where
  "frame_header f =
     ''REPROIT/1 '' @ fst (header_parts (ef_scope f)) @ '' '' @ snd (header_parts (ef_scope f))
       @ '' '' @ show_nat (unat (ef_sequence f)) @ '' '' @ ef_run_id f @ '' ''"

definition encode_line :: "'z serde_scheme \<Rightarrow> EventFrame \<Rightarrow> (ProtocolError, string) result" where
  "encode_line sj f =
     rbind (frame_validate sj f) (\<lambda>_.
       case to_string_event sj (ef_event f) of
         None \<Rightarrow> Err (perr_new InvalidEvent)
       | Some event \<Rightarrow>
           let line = frame_header f @ event in
           if MAX_FRAME_BYTES < length line
           then Err (perr_scoped FrameTooLarge (ef_scope f)) else Ok line)"

text \<open>The loop of \<open>bounded_prefix\<close> steps back from the limit to a character boundary.\<close>

fun step_back :: "string \<Rightarrow> nat \<Rightarrow> nat" where
  "step_back value n = (if 0 < n \<and> \<not> is_char_boundary value n then step_back value (n - 1) else n)"

declare step_back.simps [simp del]

definition bounded_prefix :: "string \<Rightarrow> nat \<Rightarrow> string" where
  "bounded_prefix value max_bytes =
     (if length value \<le> max_bytes then value else take (step_back value max_bytes) value)"

definition header_scope :: "string \<Rightarrow> EvidenceScope option" where
  "header_scope header =
     (case split_all (CHR '' '') header of
        magic # domain # subject # _ \<Rightarrow>
          if magic = ''REPROIT/1'' then parse_scope domain subject else None
      | _ \<Rightarrow> None)"

definition header_sequence :: "string \<Rightarrow> 64 word option" where
  "header_sequence header =
     (case nth_opt (split_all (CHR '' '') header) 3 of
        None \<Rightarrow> None
      | Some field \<Rightarrow> map_option of_nat (parse_unsigned 64 field))"

definition unwrap_or_default :: "string option \<Rightarrow> string" where
  "unwrap_or_default x = (case x of None \<Rightarrow> [] | Some s \<Rightarrow> s)"

definition decode_frame_line ::
    "'z serde_scheme \<Rightarrow> string \<Rightarrow> (StreamDefect, EventFrame) result" where
  "decode_frame_line sj line =
    (let header = bounded_prefix line MAX_HEADER_BYTES in
     if MAX_FRAME_BYTES < length line then
       Err \<lparr>sd_reason = FrameTooLarge,
            sd_scope = (case header_scope header of None \<Rightarrow> Shared | Some s \<Rightarrow> s),
            sd_sequence = header_sequence header\<rparr>
     else if \<not> starts_with line FRAME_PREFIX then
       Err (defect_shared
         (if starts_with line ''REPROIT/'' then UnsupportedVersion else MalformedFrame))
     else
      (let parts = splitn 6 (CHR '' '') line;
           magic = nth_opt parts 0;
           domain = nth_opt parts 1;
           subject = nth_opt parts 2;
           sequence_text = nth_opt parts 3;
           run_id = nth_opt parts 4;
           event_json = nth_opt parts 5
       in
       if magic \<noteq> Some ''REPROIT/1'' then Err (defect_shared MalformedFrame)
       else case parse_scope (unwrap_or_default domain) (unwrap_or_default subject) of
         None \<Rightarrow> Err (defect_shared MalformedFrame)
       | Some scope \<Rightarrow>
       (case Option.bind sequence_text (parse_unsigned 64) of
         None \<Rightarrow> Err \<lparr>sd_reason = InvalidSequence, sd_scope = scope, sd_sequence = None\<rparr>
       | Some n \<Rightarrow>
       (let sequence = of_nat n in
        case (run_id, event_json) of
          (Some run_id, Some event_json) \<Rightarrow>
            (if validate_token run_id \<noteq> Ok () then
               Err \<lparr>sd_reason = InvalidEvent, sd_scope = scope, sd_sequence = Some sequence\<rparr>
             else case from_str_event sj event_json of
               None \<Rightarrow> Err \<lparr>sd_reason = InvalidEvent, sd_scope = scope, sd_sequence = Some sequence\<rparr>
             | Some event \<Rightarrow>
                 (let frame = \<lparr>ef_run_id = run_id, ef_sequence = sequence,
                               ef_scope = scope, ef_event = event\<rparr> in
                  rbind (map_err (\<lambda>error.
                      \<lparr>sd_reason = pe_reason error,
                       sd_scope = (case pe_scope error of None \<Rightarrow> scope | Some s \<Rightarrow> s),
                       sd_sequence = Some sequence\<rparr>) (frame_validate sj frame))
                    (\<lambda>_. Ok frame)))
        | _ \<Rightarrow> Err \<lparr>sd_reason = MalformedFrame, sd_scope = scope, sd_sequence = Some sequence\<rparr>))))"

section \<open>What the validators accept\<close>

definition value_fits :: "'z serde_scheme \<Rightarrow> json \<Rightarrow> nat \<Rightarrow> bool" where
  "value_fits sj v n \<longleftrightarrow> (case to_vec_value sj v of None \<Rightarrow> False | Some b \<Rightarrow> length b \<le> n)"

interpretation value_val: validator "\<lambda>v. validate_value sj v n" "\<lambda>v. value_fits sj v n" for sj n
  by unfold_locales (auto simp: validate_value_def value_fits_def not_less split: option.splits)

lemma validate_value_Ok [simp, accept_simps]:
  "validate_value sj v n = Inr u \<longleftrightarrow> value_fits sj v n"
  using value_val.accepts_iff by simp

definition identity_ok :: "FindingIdentity \<Rightarrow> bool" where
  "identity_ok i \<longleftrightarrow> lower_token_ok (fi_oracle i)
     \<and> length (fi_invariant i) \<le> MAX_TEXT_BYTES \<and> length (fi_kind i) \<le> MAX_TEXT_BYTES
     \<and> length (fi_message i) \<le> MAX_TEXT_BYTES \<and> length (fi_frame i) \<le> MAX_TEXT_BYTES
     \<and> length (fi_trigger i) \<le> MAX_TEXT_BYTES
     \<and> pred_option (\<lambda>b. length b \<le> MAX_TEXT_BYTES) (fi_boundary i)"

interpretation identity_val: validator identity_validate identity_ok
  by unfold_locales (auto simp: identity_validate_def identity_ok_def)

definition step_ok :: "PathStep \<Rightarrow> bool" where
  "step_ok s \<longleftrightarrow> length (ps_signature s) \<le> MAX_TEXT_BYTES \<and> length (ps_action s) \<le> MAX_TEXT_BYTES
     \<and> pred_option (\<lambda>l. length l \<le> MAX_TEXT_BYTES) (ps_label s)"

interpretation step_val: validator step_validate step_ok
  by unfold_locales (auto simp: step_validate_def step_ok_def)

fun event_ok :: "'z serde_scheme \<Rightarrow> Event \<Rightarrow> bool" where
  "event_ok sj (EAction actor action) \<longleftrightarrow>
     pred_option token_ok actor \<and> length action \<le> MAX_TEXT_BYTES"
| "event_ok sj (EObservation actor state route vis counts oracles nets shapes) \<longleftrightarrow>
     pred_option token_ok actor
     \<and> pred_option (\<lambda>s. length s \<le> MAX_TEXT_BYTES) state
     \<and> pred_option (\<lambda>s. length s \<le> MAX_TEXT_BYTES) route
     \<and> length vis \<le> 1024 \<and> (\<forall>s \<in> set vis. length s \<le> MAX_TEXT_BYTES)
     \<and> length oracles \<le> 256 \<and> (\<forall>s \<in> set oracles. length s \<le> MAX_TOKEN_BYTES)
     \<and> length shapes \<le> 256 \<and> (\<forall>s \<in> set shapes. length s \<le> MAX_TEXT_BYTES)
     \<and> length counts \<le> 4096 \<and> (\<forall>s \<in> set (map fst counts). length s \<le> MAX_TOKEN_BYTES)"
| "event_ok sj (EBackend evidence) \<longleftrightarrow> value_fits sj evidence MAX_CONTEXT_BYTES"
| "event_ok sj (EGraphEdge frm action to) \<longleftrightarrow> length frm \<le> MAX_TEXT_BYTES
     \<and> length action \<le> MAX_TEXT_BYTES \<and> length to \<le> MAX_TEXT_BYTES"
| "event_ok sj (EFinding signature message identity path ctxt) \<longleftrightarrow>
     length signature \<le> MAX_TEXT_BYTES \<and> length message \<le> MAX_TEXT_BYTES
     \<and> identity_ok identity \<and> length path \<le> 256 \<and> (\<forall>s \<in> set path. step_ok s)
     \<and> value_fits sj (case to_value_context sj ctxt of None \<Rightarrow> JNull | Some v \<Rightarrow> v) MAX_CONTEXT_BYTES"
| "event_ok sj (EStreamDefect reason) \<longleftrightarrow> True"

interpretation event_val: validator "event_validate sj" "event_ok sj" for sj
proof
  fix e
  show "event_validate sj e = Inr () \<longleftrightarrow> event_ok sj e"
    by (cases e) (simp_all add: identity_val.accepts_iff step_val.accepts_iff)
qed

definition frame_ok :: "'z serde_scheme \<Rightarrow> EventFrame \<Rightarrow> bool" where
  "frame_ok sj f \<longleftrightarrow> token_ok (ef_run_id f) \<and> scope_validate (ef_scope f) = Inr ()
     \<and> event_ok sj (ef_event f)
     \<and> (\<exists>b. to_vec_event sj (ef_event f) = Some b \<and> length b \<le> MAX_FRAME_BYTES)"

interpretation frame_val: validator "frame_validate sj" "frame_ok sj" for sj
  by unfold_locales
     (auto simp: frame_validate_def frame_ok_def event_val.accepts_iff not_less
       split: option.splits)

lemma frame_validate_Ok [simp, accept_simps]: "frame_validate sj f = Inr u \<longleftrightarrow> frame_ok sj f"
  using frame_val.accepts_iff by simp

section \<open>Splitting a line\<close>

lemma splitn_step: "c \<notin> set a \<Longrightarrow> splitn (Suc (Suc n)) c (a @ c # b) = a # splitn (Suc n) c b"
  by (simp add: split_once_append)

lemma splitn_length_le: "length (splitn n c s) \<le> n"
  by (induction n c s rule: splitn.induct) (auto split: option.splits)

lemma splitn_6:
  assumes "CHR '' '' \<notin> set a" "CHR '' '' \<notin> set b" "CHR '' '' \<notin> set c" "CHR '' '' \<notin> set d"
    "CHR '' '' \<notin> set e"
  shows "splitn 6 (CHR '' '') (a @ '' '' @ b @ '' '' @ c @ '' '' @ d @ '' '' @ e @ '' '' @ f)
    = [a, b, c, d, e, f]"
  using assms by (simp add: numeral_eq_Suc splitn_step del: splitn.simps(3))

lemma show_nat_no_space: "CHR '' '' \<notin> set (show_nat n)"
  by (rule digits_no_char [OF show_nat_digits]) (simp add: ascii_simps)

lemma splitn_frame_header:
  assumes "token_ok (ef_run_id f)" "scope_validate (ef_scope f) = Inr ()"
  shows "splitn 6 (CHR '' '') (frame_header f @ ev) =
    [''REPROIT/1'', fst (header_parts (ef_scope f)), snd (header_parts (ef_scope f)),
     show_nat (unat (ef_sequence f)), ef_run_id f, ev]"
proof -
  have "frame_header f @ ev = ''REPROIT/1'' @ '' '' @ fst (header_parts (ef_scope f)) @ '' ''
      @ snd (header_parts (ef_scope f)) @ '' '' @ show_nat (unat (ef_sequence f)) @ '' ''
      @ ef_run_id f @ '' '' @ ev"
    by (simp add: frame_header_def)
  then show ?thesis
    using header_parts_no_space [OF assms(2)] token_no_space [OF assms(1)]
    by (simp only:) (rule splitn_6, simp_all add: show_nat_no_space)
qed

lemma unat_u64_bound [simp]: "unat (w :: 64 word) < 2 ^ 64"
  using unsigned_less [of w] by (simp del: unsigned_less)

lemma parse_show_u64 [simp]: "parse_unsigned 64 (show_nat (unat (w :: 64 word))) = Some (unat w)"
  by (rule parse_unsigned_show_nat [OF unat_u64_bound])

section \<open>Round trip\<close>

lemma frame_header_prefix: "starts_with (frame_header f @ ev) FRAME_PREFIX"
  by (simp add: frame_header_def FRAME_PREFIX_def starts_with_def)

text \<open>The decoder on a line with a well-formed header, whatever the payload.\<close>

lemma decode_frame_header:
  assumes "token_ok (ef_run_id f)" "scope_validate (ef_scope f) = Inr ()"
    "length (frame_header f @ ev) \<le> MAX_FRAME_BYTES"
  shows "decode_frame_line sj (frame_header f @ ev) =
    (case from_str_event sj ev of
       None \<Rightarrow> Err \<lparr>sd_reason = InvalidEvent, sd_scope = ef_scope f,
                    sd_sequence = Some (ef_sequence f)\<rparr>
     | Some event \<Rightarrow>
         rbind (map_err (\<lambda>error.
             \<lparr>sd_reason = pe_reason error,
              sd_scope = (case pe_scope error of None \<Rightarrow> ef_scope f | Some s \<Rightarrow> s),
              sd_sequence = Some (ef_sequence f)\<rparr>) (frame_validate sj (f\<lparr>ef_event := event\<rparr>)))
           (\<lambda>_. Ok (f\<lparr>ef_event := event\<rparr>)))"
proof -
  have f: "\<lparr>ef_run_id = ef_run_id f, ef_sequence = ef_sequence f, ef_scope = ef_scope f,
      ef_event = e\<rparr> = f\<lparr>ef_event := e\<rparr>" for e
    by simp
  show ?thesis
    using assms parse_scope_header_parts [OF assms(2)]
    by (simp add: decode_frame_line_def splitn_frame_header frame_header_prefix Let_def not_less
        nth_opt_def unwrap_or_default_def f del: splitn.simps length_append cong: option.case_cong)
qed

text \<open>A decoded frame passes validation: the decoder never hands on a frame its own validator
  rejects.\<close>

lemma decode_frame_ok: "decode_frame_line sj line = Inr f \<Longrightarrow> frame_ok sj f"
  by (auto simp: decode_frame_line_def Let_def split: if_splits option.splits)

lemma splitn_6_inv:
  "splitn 6 c s = [a0, a1, a2, a3, a4, a5] \<Longrightarrow>
     s = a0 @ [c] @ a1 @ [c] @ a2 @ [c] @ a3 @ [c] @ a4 @ [c] @ a5"
  by (auto simp: numeral_eq_Suc split_once_Some split: option.splits)

lemma length_6_conv:
  assumes "length xs \<le> 6" "5 < length xs"
  shows "xs = [xs ! 0, xs ! 1, xs ! 2, xs ! 3, xs ! 4, xs ! 5]"
proof -
  have "length xs = Suc (Suc (Suc (Suc (Suc (Suc 0)))))" using assms by simp
  then show ?thesis by (auto simp: length_Suc_conv numeral_eq_Suc)
qed

lemma decode_Ok_parts:
  assumes "decode_frame_line sj line = Inr f"
  shows "splitn 6 (CHR '' '') line =
      [''REPROIT/1'', fst (header_parts (ef_scope f)), snd (header_parts (ef_scope f)),
       splitn 6 (CHR '' '') line ! 3, ef_run_id f, splitn 6 (CHR '' '') line ! 5]
    \<and> parse_unsigned 64 (splitn 6 (CHR '' '') line ! 3) = Some (unat (ef_sequence f))
    \<and> from_str_event sj (splitn 6 (CHR '' '') line ! 5) = Some (ef_event f)
    \<and> length line \<le> MAX_FRAME_BYTES"
proof -
  let ?p = "splitn 6 (CHR '' '') line"
  from assms obtain n sc where
    len: "length line \<le> MAX_FRAME_BYTES" and l: "5 < length ?p" and m: "?p ! 0 = ''REPROIT/1''"
    and sc: "parse_scope (?p ! 1) (?p ! 2) = Some sc" and n: "parse_unsigned 64 (?p ! 3) = Some n"
    and ev: "from_str_event sj (?p ! 5) = Some (ef_event f)"
    and f: "ef_scope f = sc" "ef_sequence f = of_nat n" "ef_run_id f = ?p ! 4"
    by (auto simp: decode_frame_line_def Let_def nth_opt_def unwrap_or_default_def
        split: if_splits option.splits simp del: splitn.simps)
  have "header_parts sc = (?p ! 1, ?p ! 2)" by (rule header_parts_parse_scope [OF sc])
  moreover have "unat (of_nat n :: 64 word) = n"
    using parse_unsigned_bound [OF n] by (simp add: unat_of_nat)
  ultimately show ?thesis
    using length_6_conv [OF splitn_length_le l] m n ev len f by simp
qed

section \<open>Properties\<close>

text \<open>C4. Round trip of the line format: a line that \<open>encode_line\<close> produced is read back by
  \<open>decode_frame_line\<close> as exactly the frame that was encoded. The premise on the JSON library is
  that it reads back the text it printed for this event.\<close>

theorem encode_decode_roundtrip:
  assumes "encode_line sj f = Ok line"
    and "\<And>s. to_string_event sj (ef_event f) = Some s \<Longrightarrow> from_str_event sj s = Some (ef_event f)"
  shows "decode_frame_line sj line = Ok f"
proof -
  from assms(1) obtain ev where ok: "frame_ok sj f" and ev: "to_string_event sj (ef_event f) = Some ev"
    and line: "line = frame_header f @ ev" and len: "length line \<le> MAX_FRAME_BYTES"
    by (auto simp: encode_line_def Let_def split: option.splits if_splits)
  from ok have "token_ok (ef_run_id f)" "scope_validate (ef_scope f) = Inr ()"
    by (simp_all add: frame_ok_def)
  with len line assms(2) [OF ev] ok show ?thesis
    by (simp add: decode_frame_header frame_val.accepts_iff del: length_append)
qed

text \<open>Soundness of the decoder: an accepted line is at most one mebibyte, splits into the six
  header fields of the accepted frame, the sequence field denotes the frame's sequence number
  without overflow, the payload parses to the frame's event, and the frame passes validation.\<close>

theorem decode_frame_line_sound:
  assumes "decode_frame_line sj line = Ok f"
  shows "frame_validate sj f = Ok () \<and> length line \<le> MAX_FRAME_BYTES
    \<and> (\<exists>q ev. line = ''REPROIT/1 '' @ fst (header_parts (ef_scope f)) @ '' ''
             @ snd (header_parts (ef_scope f)) @ '' '' @ q @ '' '' @ ef_run_id f @ '' '' @ ev
          \<and> parse_unsigned 64 q = Some (unat (ef_sequence f))
          \<and> from_str_event sj ev = Some (ef_event f))"
proof -
  let ?p = "splitn 6 (CHR '' '') line"
  note parts = decode_Ok_parts [OF assms]
  from parts have "line = ''REPROIT/1'' @ '' '' @ fst (header_parts (ef_scope f)) @ '' ''
      @ snd (header_parts (ef_scope f)) @ '' '' @ ?p ! 3 @ '' '' @ ef_run_id f @ '' '' @ ?p ! 5"
    by (blast dest: splitn_6_inv)
  then have "line = ''REPROIT/1 '' @ fst (header_parts (ef_scope f)) @ '' ''
      @ snd (header_parts (ef_scope f)) @ '' '' @ ?p ! 3 @ '' '' @ ef_run_id f @ '' '' @ ?p ! 5"
    by (simp del: splitn.simps)
  with decode_frame_ok [OF assms] parts show ?thesis
    unfolding frame_validate_Ok by blast
qed

lemma frame_header_length:
  assumes "token_ok (ef_run_id f)" "scope_validate (ef_scope f) = Inr ()"
  shows "length (frame_header f) \<le> 202"
proof -
  have "length (show_nat (unat (ef_sequence f))) \<le> 20"
    using unat_u64_bound [of "ef_sequence f"] by (intro length_show_nat) simp_all
  with header_parts_length [OF assms(2)] assms(1)
  show ?thesis by (simp add: frame_header_def token_ok_def MAX_TOKEN_BYTES_def)
qed

text \<open>The part of the header in front of the run id, which decides scope and sequence.\<close>

definition frame_prefix :: "EventFrame \<Rightarrow> string" where
  "frame_prefix f = ''REPROIT/1'' @ '' '' @ fst (header_parts (ef_scope f)) @ '' ''
     @ snd (header_parts (ef_scope f)) @ '' '' @ show_nat (unat (ef_sequence f)) @ '' ''"

lemma frame_header_split: "frame_header f = frame_prefix f @ ef_run_id f @ '' ''"
  by (simp add: frame_header_def frame_prefix_def)

lemma split_all_frame_prefix:
  assumes "scope_validate (ef_scope f) = Inr ()"
  shows "split_all (CHR '' '') (frame_prefix f @ x) =
    ''REPROIT/1'' # fst (header_parts (ef_scope f)) # snd (header_parts (ef_scope f))
      # show_nat (unat (ef_sequence f)) # split_all (CHR '' '') x"
proof -
  have "frame_prefix f @ x = ''REPROIT/1'' @ CHR '' '' # fst (header_parts (ef_scope f)) @ CHR '' ''
      # snd (header_parts (ef_scope f)) @ CHR '' '' # show_nat (unat (ef_sequence f)) @ CHR '' '' # x"
    by (simp add: frame_prefix_def)
  moreover have "CHR '' '' \<notin> set ''REPROIT/1''" by simp
  ultimately show ?thesis
    using header_parts_no_space [OF assms] show_nat_no_space
    by (simp only: split_all_step simp_thms)
qed

lemma step_back_ge: "m \<le> n \<Longrightarrow> m = 0 \<or> is_char_boundary v m \<Longrightarrow> m \<le> step_back v n"
proof (induction v n rule: step_back.induct)
  case (1 v n)
  show ?case
  proof (cases "0 < n \<and> \<not> is_char_boundary v n")
    case True
    with "1.prems" have "m \<le> n - 1" by (cases "m = n") auto
    from "1.IH" [OF True this "1.prems"(2)] True show ?thesis by (subst step_back.simps) simp
  next
    case False
    with "1.prems" show ?thesis by (subst step_back.simps) auto
  qed
qed

lemma token_byte_ascii: "token_byte b \<Longrightarrow> byte b < 128"
  by (auto simp: token_byte_def ascii_simps)

lemma bounded_prefix_keeps:
  assumes "length p \<le> n" "r \<noteq> []" "byte (hd r) < 128"
  shows "\<exists>x. bounded_prefix (p @ r) n = p @ x"
proof (cases "length (p @ r) \<le> n")
  case False
  have "is_char_boundary (p @ r) (length p)"
    using assms by (auto simp: is_char_boundary_def nth_append hd_conv_nth)
  with assms(1) have "length p \<le> step_back (p @ r) n" by (intro step_back_ge) auto
  with False show ?thesis by (auto simp: bounded_prefix_def)
qed (auto simp: bounded_prefix_def)

text \<open>An oversized frame is attributed to its own scope: when the header of a too long line is
  that of a frame with a valid run id and scope, the defect carries that scope and sequence number,
  so that a single oversized contract frame does not taint other contracts.\<close>

theorem oversized_frame_keeps_scope:
  assumes "validate_token (ef_run_id f) = Ok ()" "scope_validate (ef_scope f) = Ok ()"
    and "MAX_FRAME_BYTES < length (frame_header f @ payload)"
  shows "decode_frame_line sj (frame_header f @ payload) =
    Err \<lparr>sd_reason = FrameTooLarge, sd_scope = ef_scope f, sd_sequence = Some (ef_sequence f)\<rparr>"
proof -
  let ?r = "ef_run_id f @ '' '' @ payload"
  have tok: "token_ok (ef_run_id f)" using assms(1) by simp
  then have "byte (hd ?r) < 128"
    by (cases "ef_run_id f") (auto simp: token_ok_def token_byte_ascii)
  moreover have "length (frame_prefix f) \<le> MAX_HEADER_BYTES"
    using frame_header_length [OF tok assms(2)]
    by (simp add: frame_header_split MAX_HEADER_BYTES_def)
  ultimately obtain x where
    x: "bounded_prefix (frame_prefix f @ ?r) MAX_HEADER_BYTES = frame_prefix f @ x"
    using bounded_prefix_keeps [of "frame_prefix f" MAX_HEADER_BYTES ?r] tok
    by (auto simp: token_ok_def)
  have bp: "bounded_prefix (frame_header f @ payload) MAX_HEADER_BYTES = frame_prefix f @ x"
    using x by (simp add: frame_header_split)
  have "header_scope (frame_prefix f @ x) = Some (ef_scope f)"
    using parse_scope_header_parts [OF assms(2)]
    by (simp add: header_scope_def split_all_frame_prefix [OF assms(2)])
  moreover have "header_sequence (frame_prefix f @ x) = Some (ef_sequence f)"
    by (simp add: header_sequence_def split_all_frame_prefix [OF assms(2)] nth_opt_def)
  ultimately show ?thesis
    using assms(3) by (simp add: decode_frame_line_def Let_def bp del: length_append)
qed

section \<open>Witnesses\<close>

text \<open>A JSON library that prints and reads one event.\<close>

definition sample_serde :: serde where
  "sample_serde =
     \<lparr>to_vec_event = (\<lambda>e. Some ''{}''), to_string_event = (\<lambda>e. Some ''{}''),
      from_str_event = (\<lambda>s. if s = ''{}'' then Some (EStreamDefect InvalidEvent) else None),
      to_vec_value = (\<lambda>v. Some ''{}''), to_value_context = (\<lambda>c. Some (JObj c))\<rparr>"

definition sample_frame :: EventFrame where
  "sample_frame = \<lparr>ef_run_id = ''run-1'', ef_sequence = 7,
     ef_scope = Contract (Some ''0123456789abcdef''), ef_event = EStreamDefect InvalidEvent\<rparr>"

definition sample_line :: string where
  "sample_line = ''REPROIT/1 contract 0123456789abcdef 7 run-1 {}''"

lemma sample_valid: "token_ok ''run-1''" "valid_hash ''0123456789abcdef'' 16"
  by (simp_all add: token_ok_def token_byte_def valid_hash_def ascii_simps MAX_TOKEN_BYTES_def)

lemma show_nat_digit [simp]: "n < 10 \<Longrightarrow> show_nat n = [digit_char n]"
  by (subst show_nat.simps) simp

lemma encode_sample: "encode_line sample_serde sample_frame = Ok sample_line"
  using sample_valid
  by (simp add: encode_line_def sample_serde_def sample_frame_def sample_line_def frame_ok_def
      frame_header_def header_parts_def Let_def MAX_FRAME_BYTES_def digit_char_def char_of_def bit_0)

theorem encode_decode_roundtrip_witness:
  "decode_frame_line sample_serde sample_line = Ok sample_frame"
  by (rule encode_decode_roundtrip [OF encode_sample])
     (simp add: sample_serde_def sample_frame_def)

lemma sample_line_header: "sample_line = frame_header sample_frame @ ''{}''"
  by (simp add: sample_line_def frame_header_def sample_frame_def header_parts_def
      digit_char_def char_of_def bit_0)

lemma decode_sample: "decode_frame_line sample_serde sample_line = Ok sample_frame"
  unfolding sample_line_header using sample_valid
  by (subst decode_frame_header)
     (simp_all add: sample_serde_def sample_frame_def frame_ok_def frame_header_def header_parts_def
       MAX_FRAME_BYTES_def)

theorem decode_frame_line_sound_witness:
  "frame_validate sample_serde sample_frame = Ok ()"
  using decode_frame_line_sound [OF decode_sample] by blast

theorem oversized_frame_keeps_scope_witness:
  "decode_frame_line sample_serde (frame_header sample_frame @ replicate (1024 * 1024) CHR ''x'') =
    Err \<lparr>sd_reason = FrameTooLarge, sd_scope = Contract (Some ''0123456789abcdef''),
         sd_sequence = Some 7\<rparr>"
proof -
  have "validate_token (ef_run_id sample_frame) = Ok ()" "scope_validate (ef_scope sample_frame) = Ok ()"
    using sample_valid by (simp_all add: sample_frame_def)
  moreover have "MAX_FRAME_BYTES < length (frame_header sample_frame @ replicate (1024 * 1024) CHR ''x'')"
    by (simp add: MAX_FRAME_BYTES_def frame_header_def)
  ultimately have "decode_frame_line sample_serde
      (frame_header sample_frame @ replicate (1024 * 1024) CHR ''x'') =
    Err \<lparr>sd_reason = FrameTooLarge, sd_scope = ef_scope sample_frame,
         sd_sequence = Some (ef_sequence sample_frame)\<rparr>"
    by (rule oversized_frame_keeps_scope)
  then show ?thesis by (simp add: sample_frame_def)
qed

end
