(* ===== verification/Protocol_Ledger.thy ===== *)
theory Protocol_Ledger
  imports Protocol_Core
begin

text \<open>
  The proof ledger (\<open>protocol/src/lib.rs\<close>, \<open>ProofLedger\<close>): the projection of the proof stages
  that decides whether a candidate finding is promoted to a confirmed one. \<open>derive_promotion\<close>
  computes status and blockers from the stages; \<open>ledger_validate\<close> recomputes them, so a ledger that
  claims more than its stages show is rejected.
\<close>

section \<open>Stages\<close>

datatype EvaluationStatus = Satisfied | Violation | Abstain

datatype AuthoritySource =
    AuthoredContract | RuntimeDiagnosis | ApprovedBaseline | PublishedStandard

text \<open>\<open>NotAttempted\<close> is a variant of two enums; the second one carries its enum's initial.\<close>

datatype ConfirmationStatus =
    NotAttempted | Reproduced | NotReproduced | Flaky | Stale | CouldNotReplay

datatype MinimizationStatus = MNotAttempted | Preserved | CouldNotConfirm

datatype PromotionStatus = Candidate | Confirmed

datatype PromotionBlocker =
    MissingAuthority
  | NoViolation
  | EvaluationAbstained
  | ReplayNotReproduced
  | ReplayIdentityMismatch
  | MinimizationNotPreserved

fun blocker_as_str :: "PromotionBlocker \<Rightarrow> string" where
  "blocker_as_str MissingAuthority = ''missing-authority''"
| "blocker_as_str NoViolation = ''no-violation''"
| "blocker_as_str EvaluationAbstained = ''evaluation-abstained''"
| "blocker_as_str ReplayNotReproduced = ''replay-not-reproduced''"
| "blocker_as_str ReplayIdentityMismatch = ''replay-identity-mismatch''"
| "blocker_as_str MinimizationNotPreserved = ''minimization-not-preserved''"

fun authority_rank :: "AuthoritySource \<Rightarrow> nat" where
  "authority_rank AuthoredContract = 0"
| "authority_rank RuntimeDiagnosis = 1"
| "authority_rank ApprovedBaseline = 2"
| "authority_rank PublishedStandard = 3"

fun blocker_rank :: "PromotionBlocker \<Rightarrow> nat" where
  "blocker_rank MissingAuthority = 0"
| "blocker_rank NoViolation = 1"
| "blocker_rank EvaluationAbstained = 2"
| "blocker_rank ReplayNotReproduced = 3"
| "blocker_rank ReplayIdentityMismatch = 4"
| "blocker_rank MinimizationNotPreserved = 5"

lemma authority_rank_inject: "authority_rank a = authority_rank b \<Longrightarrow> a = b"
  by (cases a; cases b) simp_all

lemma blocker_rank_inject: "blocker_rank a = blocker_rank b \<Longrightarrow> a = b"
  by (cases a; cases b) simp_all

instantiation AuthoritySource :: linorder
begin
definition less_eq_AuthoritySource :: "AuthoritySource \<Rightarrow> AuthoritySource \<Rightarrow> bool" where
  "less_eq_AuthoritySource a b \<longleftrightarrow> authority_rank a \<le> authority_rank b"
definition less_AuthoritySource :: "AuthoritySource \<Rightarrow> AuthoritySource \<Rightarrow> bool" where
  "less_AuthoritySource a b \<longleftrightarrow> authority_rank a < authority_rank b"
instance
  by standard
     (auto simp: less_eq_AuthoritySource_def less_AuthoritySource_def intro: authority_rank_inject)
end

instantiation PromotionBlocker :: linorder
begin
definition less_eq_PromotionBlocker :: "PromotionBlocker \<Rightarrow> PromotionBlocker \<Rightarrow> bool" where
  "less_eq_PromotionBlocker a b \<longleftrightarrow> blocker_rank a \<le> blocker_rank b"
definition less_PromotionBlocker :: "PromotionBlocker \<Rightarrow> PromotionBlocker \<Rightarrow> bool" where
  "less_PromotionBlocker a b \<longleftrightarrow> blocker_rank a < blocker_rank b"
instance
  by standard
     (auto simp: less_eq_PromotionBlocker_def less_PromotionBlocker_def intro: blocker_rank_inject)
end

section \<open>The ledger\<close>

record ProofLedger =
  pl_finding_identities :: "string list"
  pl_authority :: "AuthoritySource list"
  pl_evaluation :: EvaluationStatus
  pl_evaluation_reasons :: "ReasonCode list"
  pl_confirmation :: ConfirmationStatus
  pl_replay_identity_matched :: bool
  pl_minimization :: MinimizationStatus
  pl_promotion :: PromotionStatus
  pl_blockers :: "PromotionBlocker list"

text \<open>The \<open>BTreeSet\<close> of blockers is its increasing list; \<open>insort_insert\<close> is insertion.\<close>

definition derive_promotion ::
    "AuthoritySource list \<Rightarrow> EvaluationStatus \<Rightarrow> ConfirmationStatus \<Rightarrow> bool \<Rightarrow> MinimizationStatus
     \<Rightarrow> PromotionStatus \<times> PromotionBlocker list" where
  "derive_promotion authority evaluation confirmation replay_identity_matched minimization =
    (let b0 = (if authority = [] then insort_insert MissingAuthority [] else []);
         b1 = (case evaluation of
                 Violation \<Rightarrow> b0
               | Satisfied \<Rightarrow> insort_insert NoViolation b0
               | Abstain \<Rightarrow> insort_insert EvaluationAbstained b0);
         b2 = (if confirmation \<noteq> Reproduced then insort_insert ReplayNotReproduced b1 else b1);
         b3 = (if \<not> replay_identity_matched then insort_insert ReplayIdentityMismatch b2 else b2);
         blockers = (if minimization \<noteq> Preserved
                     then insort_insert MinimizationNotPreserved b3 else b3)
     in (if blockers = [] then Confirmed else Candidate, blockers))"

definition ledger_validate :: "ProofLedger \<Rightarrow> check" where
  "ledger_validate l = checks
     [guard (\<not> (pl_finding_identities l = [] \<or> 256 < length (pl_finding_identities l)))
        (perr_new InvalidArtifact),
      check_each (\<lambda>identity. validate_text identity MAX_TEXT_BYTES) (pl_finding_identities l),
      guard (\<not> (8 < length (pl_authority l) \<or> 256 < length (pl_evaluation_reasons l)))
        (perr_new InvalidArtifact),
      guard (\<not> (pl_evaluation l = Abstain \<and> pl_evaluation_reasons l = []))
        (perr_new InvalidArtifact),
      guard (\<not> (\<not> strictly_sorted (pl_finding_identities l)
               \<or> \<not> strictly_sorted (pl_authority l)
               \<or> \<not> strictly_sorted (pl_evaluation_reasons l)))
        (perr_new InvalidArtifact),
      (let expected = derive_promotion (pl_authority l) (pl_evaluation l) (pl_confirmation l)
                        (pl_replay_identity_matched l) (pl_minimization l)
       in guard (\<not> (pl_promotion l \<noteq> fst expected \<or> pl_blockers l \<noteq> snd expected))
            (perr_new InvalidArtifact))]"

definition from_stages ::
    "string list \<Rightarrow> AuthoritySource list \<Rightarrow> EvaluationStatus \<Rightarrow> ReasonCode list \<Rightarrow> ConfirmationStatus
     \<Rightarrow> bool \<Rightarrow> MinimizationStatus \<Rightarrow> (ProtocolError, ProofLedger) result" where
  "from_stages finding_identities authority evaluation evaluation_reasons confirmation
     replay_identity_matched minimization =
    (let finding_identities = sort_dedup finding_identities;
         authority = sort_dedup authority;
         evaluation_reasons = sort_dedup evaluation_reasons;
         (promotion, blockers) = derive_promotion authority evaluation confirmation
           replay_identity_matched minimization;
         ledger = \<lparr>pl_finding_identities = finding_identities, pl_authority = authority,
           pl_evaluation = evaluation, pl_evaluation_reasons = evaluation_reasons,
           pl_confirmation = confirmation, pl_replay_identity_matched = replay_identity_matched,
           pl_minimization = minimization, pl_promotion = promotion, pl_blockers = blockers\<rparr>
     in rbind (ledger_validate ledger) (\<lambda>_. Ok ledger))"

section \<open>Lemmas\<close>

text \<open>When a blocker applies to the given stages.\<close>

fun blocks :: "AuthoritySource list \<Rightarrow> EvaluationStatus \<Rightarrow> ConfirmationStatus \<Rightarrow> bool
    \<Rightarrow> MinimizationStatus \<Rightarrow> PromotionBlocker \<Rightarrow> bool" where
  "blocks a e c r m MissingAuthority \<longleftrightarrow> a = []"
| "blocks a e c r m NoViolation \<longleftrightarrow> e = Satisfied"
| "blocks a e c r m EvaluationAbstained \<longleftrightarrow> e = Abstain"
| "blocks a e c r m ReplayNotReproduced \<longleftrightarrow> c \<noteq> Reproduced"
| "blocks a e c r m ReplayIdentityMismatch \<longleftrightarrow> \<not> r"
| "blocks a e c r m MinimizationNotPreserved \<longleftrightarrow> m \<noteq> Preserved"

lemma set_derive_promotion:
  "b \<in> set (snd (derive_promotion a e c r m)) \<longleftrightarrow> blocks a e c r m b"
  by (cases b) (auto simp: derive_promotion_def Let_def set_insort_insert split: EvaluationStatus.splits)

lemma derive_promotion_status:
  "fst (derive_promotion a e c r m) = (if snd (derive_promotion a e c r m) = [] then Confirmed else Candidate)"
  by (simp add: derive_promotion_def Let_def)

lemma all_PromotionBlocker:
  "(\<forall>b. P b) \<longleftrightarrow> P MissingAuthority \<and> P NoViolation \<and> P EvaluationAbstained
     \<and> P ReplayNotReproduced \<and> P ReplayIdentityMismatch \<and> P MinimizationNotPreserved"
  by (auto intro: PromotionBlocker.induct)

lemma derive_promotion_Confirmed:
  "fst (derive_promotion a e c r m) = Confirmed \<longleftrightarrow>
     a \<noteq> [] \<and> e = Violation \<and> c = Reproduced \<and> r \<and> m = Preserved"
proof -
  have "snd (derive_promotion a e c r m) = [] \<longleftrightarrow> (\<forall>b. \<not> blocks a e c r m b)"
    using set_derive_promotion by (metis all_not_in_conv set_empty)
  also have "\<dots> \<longleftrightarrow> a \<noteq> [] \<and> e = Violation \<and> c = Reproduced \<and> r \<and> m = Preserved"
    by (cases e) (simp_all add: all_PromotionBlocker)
  finally show ?thesis by (simp add: derive_promotion_status)
qed

lemma ledger_validate_Ok:
  "ledger_validate l = Ok u \<longleftrightarrow>
     pl_finding_identities l \<noteq> [] \<and> length (pl_finding_identities l) \<le> 256
     \<and> (\<forall>i \<in> set (pl_finding_identities l). length i \<le> MAX_TEXT_BYTES)
     \<and> length (pl_authority l) \<le> 8 \<and> length (pl_evaluation_reasons l) \<le> 256
     \<and> \<not> (pl_evaluation l = Abstain \<and> pl_evaluation_reasons l = [])
     \<and> strictly_sorted (pl_finding_identities l) \<and> strictly_sorted (pl_authority l)
     \<and> strictly_sorted (pl_evaluation_reasons l)
     \<and> derive_promotion (pl_authority l) (pl_evaluation l) (pl_confirmation l)
          (pl_replay_identity_matched l) (pl_minimization l) = (pl_promotion l, pl_blockers l)"
  by (auto simp: ledger_validate_def Let_def not_less prod_eq_iff)

lemma card_AuthoritySource: "card A \<le> 4" for A :: "AuthoritySource set"
proof -
  have "A \<subseteq> {AuthoredContract, RuntimeDiagnosis, ApprovedBaseline, PublishedStandard}"
    using AuthoritySource.exhaust by auto
  from card_mono [OF _ this] show ?thesis by (simp add: card_insert_if)
qed

lemma card_ReasonCode: "card A \<le> 11" for A :: "ReasonCode set"
proof -
  have "inj_on reason_rank A" by (auto intro: inj_onI reason_rank_inject)
  then have "card A = card (reason_rank ` A)" by (simp add: card_image)
  moreover have "reason_rank r \<le> 10" for r by (cases r) simp_all
  then have "reason_rank ` A \<subseteq> {..10}" by auto
  from card_mono [OF _ this] have "card (reason_rank ` A) \<le> 11" by simp
  ultimately show ?thesis by simp
qed

lemma length_sort_dedup: "length (sort_dedup xs) = card (set xs)"
  using strictly_sorted_sort_dedup [of xs] distinct_card [of "sort_dedup xs"]
  by (simp add: strictly_sorted_iff)

section \<open>Properties\<close>

text \<open>A ledger that passes validation is confirmed exactly when every proof stage succeeded: an
  authority is named, the evaluation found a violation, the replay reproduced it with the same
  identity, and minimization preserved it. No detector output alone can produce a confirmed
  ledger.\<close>

theorem ledger_confirmed_iff:
  assumes "ledger_validate l = Ok ()"
  shows "pl_promotion l = Confirmed \<longleftrightarrow>
    pl_authority l \<noteq> [] \<and> pl_evaluation l = Violation \<and> pl_confirmation l = Reproduced
    \<and> pl_replay_identity_matched l \<and> pl_minimization l = Preserved"
proof -
  from assms have "fst (derive_promotion (pl_authority l) (pl_evaluation l) (pl_confirmation l)
      (pl_replay_identity_matched l) (pl_minimization l)) = pl_promotion l"
    by (simp add: ledger_validate_Ok)
  then show ?thesis using derive_promotion_Confirmed by metis
qed

text \<open>C35. Validation and construction agree: a ledger passes \<open>validate\<close> exactly when
  \<open>from_stages\<close>, run on the stages the ledger records, returns that same ledger. In particular no
  accepted ledger differs from what the constructor computes.\<close>

theorem ledger_validate_iff_from_stages:
  "ledger_validate l = Ok () \<longleftrightarrow>
     from_stages (pl_finding_identities l) (pl_authority l) (pl_evaluation l)
       (pl_evaluation_reasons l) (pl_confirmation l) (pl_replay_identity_matched l)
       (pl_minimization l) = Ok l"
proof
  assume ok: "ledger_validate l = Ok ()"
  then have "derive_promotion (pl_authority l) (pl_evaluation l) (pl_confirmation l)
      (pl_replay_identity_matched l) (pl_minimization l) = (pl_promotion l, pl_blockers l)"
    "sort_dedup (pl_finding_identities l) = pl_finding_identities l"
    "sort_dedup (pl_authority l) = pl_authority l"
    "sort_dedup (pl_evaluation_reasons l) = pl_evaluation_reasons l"
    by (simp_all add: ledger_validate_Ok sort_dedup_id)
  with ok show "from_stages (pl_finding_identities l) (pl_authority l) (pl_evaluation l)
       (pl_evaluation_reasons l) (pl_confirmation l) (pl_replay_identity_matched l)
       (pl_minimization l) = Ok l"
    by (cases l) (simp add: from_stages_def Let_def)
next
  assume "from_stages (pl_finding_identities l) (pl_authority l) (pl_evaluation l)
       (pl_evaluation_reasons l) (pl_confirmation l) (pl_replay_identity_matched l)
       (pl_minimization l) = Ok l"
  then show "ledger_validate l = Ok ()"
    by (auto simp: from_stages_def Let_def split: prod.splits)
qed

text \<open>When \<open>from_stages\<close> succeeds, on every input: the identities must be non-empty, at most 256
  after removing duplicates and each within the text bound, and an abstaining evaluation must give a
  reason. The limits on authorities and reasons never reject a ledger, because the enums have fewer
  values than the limits.\<close>

theorem from_stages_succeeds_iff:
  "(\<exists>l. from_stages ids auth ev reasons conf matched mini = Ok l) \<longleftrightarrow>
     ids \<noteq> [] \<and> card (set ids) \<le> 256 \<and> list_all (\<lambda>i. length i \<le> MAX_TEXT_BYTES) ids
     \<and> (ev = Abstain \<longrightarrow> reasons \<noteq> [])"
proof -
  have "card (set auth) \<le> 8" "card (set reasons) \<le> 256"
    using card_AuthoritySource [of "set auth"] card_ReasonCode [of "set reasons"] by simp_all
  then show ?thesis
    by (auto simp: from_stages_def Let_def ledger_validate_Ok length_sort_dedup list_all_iff
        split: prod.splits)
qed

section \<open>Witnesses\<close>

definition sample_ledger :: ProofLedger where
  "sample_ledger = \<lparr>pl_finding_identities = [''bug_1''], pl_authority = [AuthoredContract],
     pl_evaluation = Violation, pl_evaluation_reasons = [], pl_confirmation = Reproduced,
     pl_replay_identity_matched = True, pl_minimization = Preserved, pl_promotion = Confirmed,
     pl_blockers = []\<rparr>"

lemma sample_ledger_valid: "ledger_validate sample_ledger = Ok ()"
  by (simp add: ledger_validate_Ok sample_ledger_def derive_promotion_def MAX_TEXT_BYTES_def)

theorem ledger_confirmed_iff_witness:
  "pl_promotion sample_ledger = Confirmed \<longleftrightarrow>
    pl_authority sample_ledger \<noteq> [] \<and> pl_evaluation sample_ledger = Violation
    \<and> pl_confirmation sample_ledger = Reproduced \<and> pl_replay_identity_matched sample_ledger
    \<and> pl_minimization sample_ledger = Preserved"
  by (rule ledger_confirmed_iff [OF sample_ledger_valid])

theorem from_stages_succeeds_iff_witness:
  "\<exists>l. from_stages [''bug_1''] [] Abstain [NoObservations] NotAttempted False MNotAttempted = Ok l"
  using from_stages_succeeds_iff [of "[''bug_1'']" "[]" Abstain "[NoObservations]" NotAttempted False
      MNotAttempted]
  by (simp add: MAX_TEXT_BYTES_def)

end
