(* ===== verification/Protocol_Evidence.thy ===== *)
theory Protocol_Evidence
  imports Protocol_Frame Protocol_Ledger Protocol_Causal Protocol_Environment
begin

text \<open>
  Content-addressed evidence graphs and event batches (\<open>protocol/src/lib.rs\<close>): artifact ids,
  \<open>ArtifactNode\<close>, \<open>EvidenceGraph\<close>, \<open>DeploymentIdentity\<close> and \<open>EventBatch\<close>, the value the ingest
  endpoint validates before anything is stored.
\<close>

section \<open>Artifacts\<close>

text \<open>The three kinds named like a type of their own carry a \<open>K\<close>.\<close>

datatype ArtifactKind =
    RawCapture | NormalizedTrace | KEvaluation | Replay | MinimizedTrace | KCausalGraph
  | KEnvironmentEnvelope | KProofLedger

fun artifact_kind_as_str :: "ArtifactKind \<Rightarrow> string" where
  "artifact_kind_as_str RawCapture = ''raw-capture''"
| "artifact_kind_as_str NormalizedTrace = ''normalized-trace''"
| "artifact_kind_as_str KEvaluation = ''evaluation''"
| "artifact_kind_as_str Replay = ''replay''"
| "artifact_kind_as_str MinimizedTrace = ''minimized-trace''"
| "artifact_kind_as_str KCausalGraph = ''causal-graph''"
| "artifact_kind_as_str KEnvironmentEnvelope = ''environment-envelope''"
| "artifact_kind_as_str KProofLedger = ''proof-ledger''"

record ArtifactNode =
  an_id :: string
  an_kind :: ArtifactKind
  an_parents :: "string list"
  an_payload :: json

record EvidenceGraph =
  eg_run_id :: string
  eg_root :: string
  eg_nodes :: "ArtifactNode list"

text \<open>The JSON calls made on artifacts, and the digest.\<close>

record serde_graph = serde +
  to_vec_artifact :: "ArtifactKind \<Rightarrow> string list \<Rightarrow> json \<Rightarrow> string option"
  from_value_causal :: "json \<Rightarrow> CausalGraph option"
  from_value_environment :: "json \<Rightarrow> EnvironmentProof option"
  from_value_ledger :: "json \<Rightarrow> ProofLedger option"
  sha256 :: "string \<Rightarrow> string"
  hex_encode :: "string \<Rightarrow> string"

definition artifact_id ::
    "'z serde_graph_scheme \<Rightarrow> ArtifactKind \<Rightarrow> string list \<Rightarrow> json \<Rightarrow> (ProtocolError, string) result" where
  "artifact_id sj kind parents payload =
     rbind (checks
       [validate_value sj payload MAX_FRAME_BYTES,
        check_each (\<lambda>parent.
          guard (\<not> (\<not> starts_with parent ''sha256:'' \<or> \<not> valid_hash (drop 7 parent) 64))
            (perr_new InvalidArtifact)) parents]) (\<lambda>_.
     rbind (ok_or (to_vec_artifact sj kind parents payload) (perr_new InvalidArtifact)) (\<lambda>material.
       Ok (''sha256:'' @ hex_encode sj (sha256 sj material))))"

definition artifact_new ::
    "'z serde_graph_scheme \<Rightarrow> ArtifactKind \<Rightarrow> string list \<Rightarrow> json
     \<Rightarrow> (ProtocolError, ArtifactNode) result" where
  "artifact_new sj kind parents payload =
     rbind (artifact_id sj kind parents payload) (\<lambda>i.
       Ok \<lparr>an_id = i, an_kind = kind, an_parents = parents, an_payload = payload\<rparr>)"

definition artifact_validate :: "'z serde_graph_scheme \<Rightarrow> ArtifactNode \<Rightarrow> check" where
  "artifact_validate sj n =
     rbind (artifact_id sj (an_kind n) (an_parents n) (an_payload n)) (\<lambda>i.
       if an_id n \<noteq> i then Err (perr_new InvalidArtifact)
       else case an_kind n of
         KCausalGraph \<Rightarrow>
           rbind (ok_or (from_value_causal sj (an_payload n)) (perr_new InvalidArtifact))
             causal_validate
       | KEnvironmentEnvelope \<Rightarrow>
           rbind (ok_or (from_value_environment sj (an_payload n)) (perr_new InvalidArtifact))
             environment_validate
       | KProofLedger \<Rightarrow>
           rbind (ok_or (from_value_ledger sj (an_payload n)) (perr_new InvalidArtifact))
             ledger_validate
       | _ \<Rightarrow> Ok ())"

section \<open>Evidence graphs\<close>

fun check_nodes ::
    "'z serde_graph_scheme \<Rightarrow> ArtifactNode list \<Rightarrow> string set \<Rightarrow> (ProtocolError, string set) result" where
  "check_nodes sj [] prior = Ok prior"
| "check_nodes sj (node # nodes) prior =
     rbind (artifact_validate sj node) (\<lambda>_.
       if \<not> list_all (\<lambda>parent. parent \<in> prior) (an_parents node) then Err (perr_new InvalidArtifact)
       else if an_id node \<in> prior then Err (perr_new InvalidArtifact)
       else check_nodes sj nodes (insert (an_id node) prior))"

definition evidence_validate :: "'z serde_graph_scheme \<Rightarrow> EvidenceGraph \<Rightarrow> check" where
  "evidence_validate sj g =
     rbind (checks
       [validate_token (eg_run_id g),
        guard (\<not> (eg_nodes g = [] \<or> MAX_ARTIFACT_NODES < length (eg_nodes g)))
          (perr_new InvalidArtifact)]) (\<lambda>_.
     rbind (check_nodes sj (eg_nodes g) {}) (\<lambda>prior.
       if eg_root g \<notin> prior then Err (perr_new InvalidArtifact) else Ok ()))"

definition proof_ledger ::
    "'z serde_graph_scheme \<Rightarrow> EvidenceGraph \<Rightarrow> (ProtocolError, ProofLedger option) result" where
  "proof_ledger sj g =
     rbind (evidence_validate sj g) (\<lambda>_.
       case List.find (\<lambda>node. an_id node = eg_root g) (eg_nodes g) of
         None \<Rightarrow> Err (perr_new InvalidArtifact)
       | Some root \<Rightarrow>
           if an_kind root \<noteq> KProofLedger then Ok None
           else (case from_value_ledger sj (an_payload root) of
                   None \<Rightarrow> Err (perr_new InvalidArtifact)
                 | Some ledger \<Rightarrow> Ok (Some ledger)))"

section \<open>Batches\<close>

record DeploymentIdentity =
  di_version :: "string option"
  di_commit :: "string option"

definition deployment_validate :: "DeploymentIdentity \<Rightarrow> check" where
  "deployment_validate d = checks
     [guard (\<not> (di_version d = None \<and> di_commit d = None)) (perr_new InvalidEvent),
      check_opt validate_token (di_version d),
      check_opt validate_token (di_commit d)]"

definition deployment_key :: "DeploymentIdentity \<Rightarrow> string option" where
  "deployment_key d = (case di_commit d of None \<Rightarrow> di_version d | Some c \<Rightarrow> Some c)"

record EventBatch =
  eb_version :: "16 word"
  eb_batch_id :: string
  eb_app_id :: string
  eb_deployment :: "DeploymentIdentity option"
  eb_frames :: "EventFrame list"
  eb_evidence :: "EvidenceGraph list"

fun check_frames :: "'z serde_scheme \<Rightarrow> EventFrame list \<Rightarrow> 64 word option \<Rightarrow> check" where
  "check_frames sj [] last_sequence = Ok ()"
| "check_frames sj (frame # frames) last_sequence =
     rbind (frame_validate sj frame) (\<lambda>_.
       if (case last_sequence of None \<Rightarrow> False | Some prev \<Rightarrow> ef_sequence frame \<le> prev)
       then Err (perr_new InvalidSequence)
       else check_frames sj frames (Some (ef_sequence frame)))"

definition batch_validate :: "'z serde_graph_scheme \<Rightarrow> EventBatch \<Rightarrow> check" where
  "batch_validate sj b = checks
     [guard (eb_version b = VERSION) (perr_new UnsupportedVersion),
      validate_token (eb_batch_id b),
      validate_token (eb_app_id b),
      check_opt deployment_validate (eb_deployment b),
      guard (\<not> MAX_BATCH_FRAMES < length (eb_frames b)) (perr_new BatchTooLarge),
      guard (\<not> MAX_BATCH_GRAPHS < length (eb_evidence b)) (perr_new BatchTooLarge),
      guard (\<not> (eb_frames b = [] \<and> eb_evidence b = [])) (perr_new InvalidEvent),
      check_frames sj (eb_frames b) None,
      check_each (evidence_validate sj) (eb_evidence b)]"

section \<open>What is accepted\<close>

lemma check_nodes_Ok:
  "check_nodes sj nodes prior = Ok r \<longleftrightarrow>
     (\<forall>n \<in> set nodes. artifact_validate sj n = Ok ())
     \<and> (\<forall>i < length nodes. set (an_parents (nodes ! i)) \<subseteq> prior \<union> an_id ` set (take i nodes))
     \<and> distinct (map an_id nodes) \<and> an_id ` set nodes \<inter> prior = {}
     \<and> r = prior \<union> an_id ` set nodes"
proof (induction nodes arbitrary: prior)
  case (Cons n nodes)
  have "(\<forall>i < length (n # nodes).
        set (an_parents ((n # nodes) ! i)) \<subseteq> prior \<union> an_id ` set (take i (n # nodes))) \<longleftrightarrow>
      set (an_parents n) \<subseteq> prior \<and>
      (\<forall>i < length nodes.
        set (an_parents (nodes ! i)) \<subseteq> insert (an_id n) prior \<union> an_id ` set (take i nodes))"
    by (subst All_less_Suc2 [of "length nodes", folded length_Cons [of n nodes]]) auto
  then show ?case
    by (cases "artifact_validate sj n = Inr ()") (auto simp: Cons.IH list_all_iff subset_iff)
qed auto

text \<open>Every parent of a node is the id of an earlier node.\<close>

definition parents_first :: "ArtifactNode list \<Rightarrow> bool" where
  "parents_first nodes \<longleftrightarrow>
     (\<forall>i < length nodes. set (an_parents (nodes ! i)) \<subseteq> an_id ` set (take i nodes))"

definition evidence_ok :: "'z serde_graph_scheme \<Rightarrow> EvidenceGraph \<Rightarrow> bool" where
  "evidence_ok sj g \<longleftrightarrow> token_ok (eg_run_id g) \<and> eg_nodes g \<noteq> []
     \<and> length (eg_nodes g) \<le> MAX_ARTIFACT_NODES
     \<and> list_all (\<lambda>n. artifact_validate sj n = Ok ()) (eg_nodes g)
     \<and> parents_first (eg_nodes g) \<and> distinct (map an_id (eg_nodes g))
     \<and> eg_root g \<in> an_id ` set (eg_nodes g)"

interpretation evidence_val: validator "evidence_validate sj" "evidence_ok sj" for sj
  by unfold_locales
     (auto simp: evidence_validate_def evidence_ok_def check_nodes_Ok parents_first_def list_all_iff)

lemma deployment_val_Ok:
  "deployment_validate d = Ok u \<longleftrightarrow> deployment_key d \<noteq> None
     \<and> pred_option token_ok (di_version d) \<and> pred_option token_ok (di_commit d)"
  by (cases "di_version d"; cases "di_commit d") (auto simp: deployment_validate_def deployment_key_def)

lemma check_frames_Ok:
  "check_frames sj frames prev = Ok u \<longleftrightarrow>
     list_all (frame_ok sj) frames
     \<and> sorted_wrt (<) ((case prev of None \<Rightarrow> [] | Some l \<Rightarrow> [l]) @ map ef_sequence frames)"
proof (induction sj frames prev rule: check_frames.induct)
  case (2 sj f fs prev)
  show ?case
  proof (cases "frame_ok sj f")
    case True
    with 2 show ?thesis
      by (cases prev) (auto simp: frame_val.accepts_iff [THEN iffD2] not_le)
  next
    case False
    then obtain e where "frame_validate sj f = Inl e" using frame_val.rejects_iff by blast
    with False show ?thesis by simp
  qed
qed (auto split: option.splits)

definition batch_ok :: "'z serde_graph_scheme \<Rightarrow> EventBatch \<Rightarrow> bool" where
  "batch_ok sj b \<longleftrightarrow> eb_version b = VERSION \<and> token_ok (eb_batch_id b) \<and> token_ok (eb_app_id b)
     \<and> pred_option (\<lambda>d. deployment_key d \<noteq> None \<and> pred_option token_ok (di_version d)
          \<and> pred_option token_ok (di_commit d)) (eb_deployment b)
     \<and> length (eb_frames b) \<le> MAX_BATCH_FRAMES \<and> length (eb_evidence b) \<le> MAX_BATCH_GRAPHS
     \<and> (eb_frames b \<noteq> [] \<or> eb_evidence b \<noteq> [])
     \<and> list_all (frame_ok sj) (eb_frames b) \<and> sorted_wrt (<) (map ef_sequence (eb_frames b))
     \<and> list_all (evidence_ok sj) (eb_evidence b)"

interpretation deployment_val: validator deployment_validate
    "\<lambda>d. deployment_key d \<noteq> None \<and> pred_option token_ok (di_version d)
       \<and> pred_option token_ok (di_commit d)"
  by unfold_locales (simp add: deployment_val_Ok)

interpretation batch_val: validator "batch_validate sj" "batch_ok sj" for sj
proof
  fix b :: EventBatch
  have "check_opt deployment_validate (eb_deployment b) = Ok () \<longleftrightarrow>
      pred_option (\<lambda>d. deployment_key d \<noteq> None \<and> pred_option token_ok (di_version d)
        \<and> pred_option token_ok (di_commit d)) (eb_deployment b)"
    by (rule deployment_val.accepts_opt)
  moreover have "check_each (evidence_validate sj) (eb_evidence b) = Ok () \<longleftrightarrow>
      list_all (evidence_ok sj) (eb_evidence b)"
    by (rule evidence_val.accepts_each)
  ultimately show "batch_validate sj b = Ok () \<longleftrightarrow> batch_ok sj b"
    by (simp add: batch_validate_def batch_ok_def check_frames_Ok not_less
        del: check_opt_Ok check_each_Ok)
qed

section \<open>Content addressing\<close>

definition node_material :: "'z serde_graph_scheme \<Rightarrow> ArtifactNode \<Rightarrow> string option" where
  "node_material sj n = to_vec_artifact sj (an_kind n) (an_parents n) (an_payload n)"

lemma artifact_validate_id:
  assumes "artifact_validate sj n = Ok ()"
  shows "\<exists>m. node_material sj n = Some m \<and> an_id n = ''sha256:'' @ hex_encode sj (sha256 sj m)"
  using assms
  by (auto simp: artifact_validate_def artifact_id_def node_material_def split: if_splits)

text \<open>The digest does not collide, and the serialization does not confuse, any two nodes of the given
  lists: the standing assumptions of content addressing, for the nodes at hand.\<close>

definition digest_faithful :: "'z serde_graph_scheme \<Rightarrow> ArtifactNode list \<Rightarrow> ArtifactNode list \<Rightarrow> bool" where
  "digest_faithful sj ns ms \<longleftrightarrow>
     (\<forall>n \<in> set ns. \<forall>m \<in> set ms. \<forall>a b. node_material sj n = Some a \<longrightarrow> node_material sj m = Some b \<longrightarrow>
        (hex_encode sj (sha256 sj a) = hex_encode sj (sha256 sj b) \<longrightarrow> a = b)
        \<and> (a = b \<longrightarrow> an_kind n = an_kind m \<and> an_parents n = an_parents m \<and> an_payload n = an_payload m))"

lemma same_id_same_node:
  assumes "artifact_validate sj n = Ok ()" "artifact_validate sj m = Ok ()" "an_id n = an_id m"
    "digest_faithful sj ns ms" "n \<in> set ns" "m \<in> set ms"
  shows "n = m"
proof -
  obtain a b where ab: "node_material sj n = Some a" "node_material sj m = Some b"
    "hex_encode sj (sha256 sj a) = hex_encode sj (sha256 sj b)"
    using artifact_validate_id [OF assms(1)] artifact_validate_id [OF assms(2)] assms(3) by auto
  with assms(4-6) have "an_kind n = an_kind m" "an_parents n = an_parents m" "an_payload n = an_payload m"
    unfolding digest_faithful_def by blast+
  with assms(3) show ?thesis by simp
qed

text \<open>The nodes a node rests on, directly or not.\<close>

inductive in_history :: "ArtifactNode list \<Rightarrow> string \<Rightarrow> ArtifactNode \<Rightarrow> bool" for nodes i where
  self: "n \<in> set nodes \<Longrightarrow> an_id n = i \<Longrightarrow> in_history nodes i n"
| parent: "in_history nodes i n \<Longrightarrow> an_id m \<in> set (an_parents n) \<Longrightarrow> m \<in> set nodes
    \<Longrightarrow> in_history nodes i m"

lemma in_history_member: "in_history nodes i n \<Longrightarrow> n \<in> set nodes"
  by (induction rule: in_history.induct) auto

lemma parents_first_member:
  "parents_first nodes \<Longrightarrow> n \<in> set nodes \<Longrightarrow> p \<in> set (an_parents n) \<Longrightarrow> p \<in> an_id ` set nodes"
  unfolding parents_first_def in_set_conv_nth [of n]
  using set_take_subset by (metis image_mono subsetD)

lemma in_history_transfer:
  assumes "evidence_ok sj g" "evidence_ok sj h" "i \<in> an_id ` set (eg_nodes h)"
    "digest_faithful sj (eg_nodes g) (eg_nodes h)" "in_history (eg_nodes g) i n"
  shows "in_history (eg_nodes h) i n"
proof -
  have val: "n \<in> set (eg_nodes g) \<Longrightarrow> artifact_validate sj n = Ok ()"
    "n \<in> set (eg_nodes h) \<Longrightarrow> artifact_validate sj n = Ok ()" for n
    using assms(1,2) by (auto simp: evidence_ok_def list_all_iff)
  have same: "n = m" if "n \<in> set (eg_nodes g)" "m \<in> set (eg_nodes h)" "an_id n = an_id m" for n m
    using same_id_same_node val assms(4) that by blast
  show ?thesis
    using assms(5)
  proof (induction rule: in_history.induct)
    case (self n)
    with assms(3) same show ?case by (metis imageE in_history.self)
  next
    case (parent n m)
    have "parents_first (eg_nodes h)" using assms(2) by (simp add: evidence_ok_def)
    from parents_first_member [OF this in_history_member [OF parent.IH] parent.hyps(2)]
    obtain m' where "m' \<in> set (eg_nodes h)" "an_id m' = an_id m" by auto
    with same [OF parent.hyps(3)] parent show ?case by (metis in_history.parent)
  qed
qed

lemma digest_faithful_sym: "digest_faithful sj ns ms \<Longrightarrow> digest_faithful sj ms ns"
  unfolding digest_faithful_def by metis

lemma artifact_ledger_valid:
  "artifact_validate sj n = Ok () \<Longrightarrow> an_kind n = KProofLedger \<Longrightarrow>
     \<exists>l. from_value_ledger sj (an_payload n) = Some l \<and> ledger_validate l = Ok ()"
  by (auto simp: artifact_validate_def split: if_splits)

section \<open>Properties\<close>

text \<open>An evidence graph is accepted exactly when it is a content-addressed DAG in topological
  order: a valid run id, one to 4096 nodes, every node's id is the digest of its content and its
  typed payload validates, every parent is an earlier node, no id occurs twice, and the root is one
  of the nodes.\<close>

theorem evidence_validate_iff: "evidence_validate sj g = Ok () \<longleftrightarrow> evidence_ok sj g"
  by (rule evidence_val.accepts_iff)

text \<open>The root id determines the evidence behind it: two accepted graphs with the same root agree
  on every node the root rests on, provided the digest does not collide and the serialization is
  faithful on the nodes of the two graphs.\<close>

theorem evidence_root_determines_history:
  assumes "evidence_validate sj g = Ok ()" "evidence_validate sj h = Ok ()"
    and "eg_root g = eg_root h" and "digest_faithful sj (eg_nodes g) (eg_nodes h)"
  shows "in_history (eg_nodes g) (eg_root g) n \<longleftrightarrow> in_history (eg_nodes h) (eg_root h) n"
proof -
  from assms(1,2) have ok: "evidence_ok sj g" "evidence_ok sj h" by (simp_all add: evidence_val.accepts_iff)
  then have roots: "eg_root g \<in> an_id ` set (eg_nodes g)" "eg_root h \<in> an_id ` set (eg_nodes h)"
    by (simp_all add: evidence_ok_def)
  show ?thesis
    using in_history_transfer [OF ok _ assms(4)] in_history_transfer [OF ok(2,1) _ digest_faithful_sym [OF assms(4)]]
      roots assms(3) by metis
qed

text \<open>Reading the proof ledger of a graph succeeds exactly on accepted graphs, and a ledger it
  returns has passed ledger validation: no unvalidated ledger leaves a graph.\<close>

theorem proof_ledger_validated:
  "(\<exists>r. proof_ledger sj g = Ok r) = (evidence_validate sj g = Ok ())
   \<and> (\<forall>l. proof_ledger sj g = Ok (Some l) \<longrightarrow> ledger_validate l = Ok ())"
proof (cases "evidence_validate sj g = Ok ()")
  case False
  then obtain e where "evidence_validate sj g = Inl e" by (cases "evidence_validate sj g") auto
  then show ?thesis by (simp add: proof_ledger_def)
next
  case True
  then have ok: "evidence_ok sj g" by (simp add: evidence_val.accepts_iff)
  then obtain root where root: "List.find (\<lambda>n. an_id n = eg_root g) (eg_nodes g) = Some root"
    by (cases "List.find (\<lambda>n. an_id n = eg_root g) (eg_nodes g)")
       (auto simp: evidence_ok_def find_None_iff)
  then have "root \<in> set (eg_nodes g)" by (auto simp: find_Some_iff)
  with ok have "artifact_validate sj root = Ok ()" by (simp add: evidence_ok_def list_all_iff)
  from artifact_ledger_valid [OF this] show ?thesis
    using True by (cases "an_kind root = KProofLedger") (auto simp: proof_ledger_def root)
qed

text \<open>What the ingest endpoint's batch validation accepts: version 1, valid ids and deployment,
  at most 5000 frames and 256 graphs and not both empty, every frame and graph valid, and the
  frames in strictly increasing order of sequence number.\<close>

theorem batch_validate_iff: "batch_validate sj b = Ok () \<longleftrightarrow> batch_ok sj b"
  by (rule batch_val.accepts_iff)

section \<open>Witnesses\<close>

text \<open>A digest and serialization that tell one artifact from every other.\<close>

definition sample_serde_graph :: serde_graph where
  "sample_serde_graph =
     \<lparr>to_vec_event = to_vec_event sample_serde, to_string_event = to_string_event sample_serde,
      from_str_event = from_str_event sample_serde, to_vec_value = to_vec_value sample_serde,
      to_value_context = to_value_context sample_serde,
      to_vec_artifact = (\<lambda>k p v. Some (if k = RawCapture \<and> p = [] \<and> v = JNull then ''A'' else ''B'')),
      from_value_causal = (\<lambda>v. None), from_value_environment = (\<lambda>v. None),
      from_value_ledger = (\<lambda>v. Some sample_ledger),
      sha256 = (\<lambda>m. m),
      hex_encode = (\<lambda>m. replicate 64 (if m = ''A'' then CHR ''a'' else CHR ''b''))\<rparr>"

definition sample_capture :: ArtifactNode where
  "sample_capture = \<lparr>an_id = ''sha256:'' @ replicate 64 CHR ''a'', an_kind = RawCapture,
     an_parents = [], an_payload = JNull\<rparr>"

definition sample_root :: ArtifactNode where
  "sample_root = \<lparr>an_id = ''sha256:'' @ replicate 64 CHR ''b'', an_kind = KProofLedger,
     an_parents = [an_id sample_capture], an_payload = JNull\<rparr>"

definition sample_graph :: EvidenceGraph where
  "sample_graph = \<lparr>eg_run_id = ''run-1'', eg_root = an_id sample_root,
     eg_nodes = [sample_capture, sample_root]\<rparr>"

lemma sample_graph_valid: "evidence_validate sample_serde_graph sample_graph = Ok ()"
proof -
  have "valid_hash (replicate 64 CHR ''a'') 64"
    by (simp add: valid_hash_def list_all_iff ascii_simps)
  then have "artifact_validate sample_serde_graph sample_capture = Ok ()"
    "artifact_validate sample_serde_graph sample_root = Ok ()"
    using sample_ledger_valid
    by (simp_all add: artifact_validate_def artifact_id_def sample_serde_graph_def sample_capture_def
        sample_root_def sample_serde_def value_fits_def MAX_FRAME_BYTES_def starts_with_def)
  moreover have "an_id sample_capture \<noteq> an_id sample_root"
    by (simp add: sample_capture_def sample_root_def replicate_eq_replicate)
  ultimately show ?thesis
    using sample_valid(1)
    by (simp add: evidence_validate_def sample_graph_def sample_root_def MAX_ARTIFACT_NODES_def
        sample_capture_def)
qed

theorem evidence_root_determines_history_witness:
  "in_history (eg_nodes sample_graph) (eg_root sample_graph) sample_capture"
proof -
  have "digest_faithful sample_serde_graph (eg_nodes sample_graph) (eg_nodes sample_graph)"
    by (auto simp: digest_faithful_def sample_graph_def node_material_def sample_serde_graph_def
        sample_capture_def sample_root_def)
  from evidence_root_determines_history [OF sample_graph_valid sample_graph_valid refl this]
  have "in_history (eg_nodes sample_graph) (eg_root sample_graph) sample_capture \<longleftrightarrow>
      in_history (eg_nodes sample_graph) (eg_root sample_graph) sample_capture" .
  moreover have "in_history (eg_nodes sample_graph) (eg_root sample_graph) sample_root"
    by (rule in_history.self) (simp_all add: sample_graph_def)
  then have "in_history (eg_nodes sample_graph) (eg_root sample_graph) sample_capture"
    by (rule in_history.parent) (simp_all add: sample_graph_def sample_root_def)
  ultimately show ?thesis by blast
qed

theorem proof_ledger_validated_witness:
  "proof_ledger sample_serde_graph sample_graph = Ok (Some sample_ledger)
   \<and> ledger_validate sample_ledger = Ok ()"
proof -
  have "an_id sample_capture \<noteq> an_id sample_root"
    by (simp add: sample_capture_def sample_root_def replicate_eq_replicate)
  then have "proof_ledger sample_serde_graph sample_graph = Ok (Some sample_ledger)"
    using sample_graph_valid
    by (simp add: proof_ledger_def sample_graph_def)
       (simp add: sample_root_def sample_serde_graph_def)
  with proof_ledger_validated [of sample_serde_graph sample_graph] show ?thesis by blast
qed

end
