(* ===== verification/Table.thy ===== *)
theory Table
  imports Prelude
begin

text \<open>
  The statements the stores issue, over a table that is the list of its rows: \<open>UPDATE ... WHERE\<close>
  with its affected-row count, \<open>DELETE ... WHERE\<close>, and \<open>SELECT ... ORDER BY ... LIMIT 1\<close>. One
  statement is one atomic step. Text columns are ordered bytewise.
\<close>

definition update_where :: "('r \<Rightarrow> bool) \<Rightarrow> ('r \<Rightarrow> 'r) \<Rightarrow> 'r list \<Rightarrow> 'r list" where
  "update_where P f t = map (\<lambda>r. if P r then f r else r) t"

definition affected :: "('r \<Rightarrow> bool) \<Rightarrow> 'r list \<Rightarrow> nat" where
  "affected P t = length (filter P t)"

definition delete_where :: "('r \<Rightarrow> bool) \<Rightarrow> 'r list \<Rightarrow> 'r list" where
  "delete_where P t = filter (\<lambda>r. \<not> P r) t"

definition select_first :: "('r \<Rightarrow> 'k::linorder) \<Rightarrow> ('r \<Rightarrow> bool) \<Rightarrow> 'r list \<Rightarrow> 'r option" where
  "select_first key P t = (case sort_key key (filter P t) of [] \<Rightarrow> None | r # _ \<Rightarrow> Some r)"

text \<open>\<open>INSERT ... ON CONFLICT (key) DO UPDATE\<close>: \<open>f\<close> updates the row that has the new row's key.\<close>

definition upsert :: "('r \<Rightarrow> 'k) \<Rightarrow> 'r \<Rightarrow> ('r \<Rightarrow> 'r) \<Rightarrow> 'r list \<Rightarrow> 'r list" where
  "upsert key r f t =
     (if key r \<in> key ` set t then update_where (\<lambda>s. key s = key r) f t else t @ [r])"

definition row_of :: "('r \<Rightarrow> 'k) \<Rightarrow> 'k \<Rightarrow> 'r list \<Rightarrow> 'r option" where
  "row_of key k t = List.find (\<lambda>s. key s = k) t"

lemma select_first_None: "select_first key P t = None \<longleftrightarrow> (\<forall>r \<in> set t. \<not> P r)"
proof -
  have "select_first key P t = None \<longleftrightarrow> sort_key key (filter P t) = []"
    by (simp add: select_first_def split: list.splits)
  also have "\<dots> \<longleftrightarrow> set (sort_key key (filter P t)) = {}" by (simp only: set_empty)
  also have "\<dots> \<longleftrightarrow> (\<forall>r \<in> set t. \<not> P r)" by auto
  finally show ?thesis .
qed

lemma select_first_Some:
  assumes "select_first key P t = Some r"
  shows "r \<in> set t \<and> P r \<and> (\<forall>s \<in> set t. P s \<longrightarrow> key r \<le> key s)"
proof -
  obtain rs where rs: "sort_key key (filter P t) = r # rs"
    using assms by (auto simp: select_first_def split: list.splits)
  then have "set (r # rs) = set (filter P t)" by (metis set_sort)
  moreover have "sorted (map key (r # rs))" by (metis rs sorted_sort_key)
  ultimately show ?thesis by fastforce
qed

lemma sort_key_Nil_iff [simp]: "sort_key f xs = [] \<longleftrightarrow> xs = []"
  by (metis length_0_conv length_sort)

lemma find_in: "List.find P xs = Some x \<Longrightarrow> x \<in> set xs \<and> P x"
  by (auto simp: find_Some_iff)

lemma length_update_where [simp]: "length (update_where P f t) = length t"
  by (simp add: update_where_def)

lemma set_update_where: "set (update_where P f t) = f ` {r \<in> set t. P r} \<union> {r \<in> set t. \<not> P r}"
  by (auto simp: update_where_def)

lemma update_where_none: "(\<And>r. r \<in> set t \<Longrightarrow> \<not> P r) \<Longrightarrow> update_where P f t = t"
  by (auto simp: update_where_def intro: map_idI)

lemma affected_0: "affected P t = 0 \<longleftrightarrow> (\<forall>r \<in> set t. \<not> P r)"
  by (auto simp: affected_def filter_empty_conv)

text \<open>Rows with a unique key: a statement that pins the key affects at most one of them.\<close>

lemma affected_key_le_1:
  assumes "distinct (map key t)"
  shows "affected (\<lambda>r. key r = k \<and> Q r) t \<le> 1"
  using assms
proof (induction t)
  case (Cons r t)
  then have ih: "affected (\<lambda>r. key r = k \<and> Q r) t \<le> 1" by simp
  show ?case
  proof (cases "key r = k \<and> Q r")
    case True
    with Cons.prems have "\<forall>s \<in> set t. key s \<noteq> k" by (force simp: image_iff)
    then have "affected (\<lambda>r. key r = k \<and> Q r) t = 0" by (simp add: affected_0)
    with True show ?thesis by (simp add: affected_def)
  next
    case False
    with ih show ?thesis by (auto simp: affected_def)
  qed
qed (simp add: affected_def)

lemma affected_key_1:
  assumes "distinct (map key t)"
  shows "affected (\<lambda>r. key r = k \<and> Q r) t = 1 \<longleftrightarrow> (\<exists>r \<in> set t. key r = k \<and> Q r)"
  using affected_key_le_1 [OF assms, of k Q] affected_0 [of "\<lambda>r. key r = k \<and> Q r" t] by fastforce

lemma key_unique: "distinct (map key t) \<Longrightarrow> r \<in> set t \<Longrightarrow> s \<in> set t \<Longrightarrow> key r = key s \<Longrightarrow> r = s"
  by (auto simp: distinct_map dest: inj_onD)

lemma row_of_append: "row_of key k (xs @ ys) = (case row_of key k xs of Some r \<Rightarrow> Some r | None \<Rightarrow> row_of key k ys)"
  by (induction xs) (simp_all add: row_of_def)

lemma row_of_single [simp]: "row_of key k [r] = (if key r = k then Some r else None)"
  by (simp add: row_of_def)

lemma row_of_None: "row_of key k t = None \<longleftrightarrow> k \<notin> key ` set t"
  by (auto simp: row_of_def find_None_iff)

lemma row_of_update_where:
  assumes "\<And>r. key (f r) = key r"
  shows "row_of key k (update_where (\<lambda>s. key s = k') f t)
    = (if k = k' then map_option f (row_of key k t) else row_of key k t)"
  by (induction t) (auto simp: row_of_def update_where_def assms)

text \<open>What a lookup returns after an upsert.\<close>

lemma row_of_upsert:
  assumes "\<And>s. key (f s) = key s"
  shows "row_of key k (upsert key r f t) =
    (if k = key r then Some (case row_of key k t of Some s \<Rightarrow> f s | None \<Rightarrow> r) else row_of key k t)"
proof (cases "key r \<in> key ` set t")
  case True
  then have "row_of key (key r) t \<noteq> None" by (simp add: row_of_None)
  with True show ?thesis by (auto simp: upsert_def row_of_update_where [of key f, OF assms] split: option.splits)
next
  case False
  then have "row_of key (key r) t = None" by (simp add: row_of_None)
  with False show ?thesis
    by (auto simp: upsert_def row_of_append split: option.splits)
qed

lemma row_of_in: "distinct (map key t) \<Longrightarrow> s \<in> set t \<Longrightarrow> row_of key (key s) t = Some s"
  by (induction t) (auto simp: row_of_def)

lemma row_of_update_at:
  assumes "\<And>r. key r = k' \<Longrightarrow> key (f r) = k'"
  shows "row_of key k (update_where (\<lambda>s. key s = k') f t)
    = (if k = k' then map_option f (row_of key k t) else row_of key k t)"
  by (induction t) (auto simp: row_of_def update_where_def assms)

lemma row_of_delete:
  assumes "distinct (map key t)"
  shows "row_of key k' (delete_where (\<lambda>s. key s = k \<and> Q s) t) =
    (if k' = k then (case row_of key k t of Some s \<Rightarrow> if Q s then None else Some s | None \<Rightarrow> None)
     else row_of key k' t)"
  using assms
proof (induction t)
  case (Cons s t)
  have "key s = k \<Longrightarrow> row_of key k t = None" using Cons.prems by (auto simp: row_of_None)
  with Cons show ?case by (auto simp: row_of_def delete_where_def split: option.splits)
qed (simp add: row_of_def delete_where_def)

lemma distinct_delete_where: "distinct (map key t) \<Longrightarrow> distinct (map key (delete_where P t))"
  by (simp add: delete_where_def distinct_map_filter)

lemma list_ex_row_of:
  assumes "distinct (map key t)"
  shows "list_ex (\<lambda>s. key s = k \<and> E s) t \<longleftrightarrow> (\<exists>s. row_of key k t = Some s \<and> E s)"
proof -
  have "row_of key k t = Some s \<longleftrightarrow> s \<in> set t \<and> key s = k" for s
    using row_of_in [OF assms] find_in [of "\<lambda>s. key s = k" t] by (auto simp: row_of_def)
  then show ?thesis by (auto simp: list_ex_iff)
qed

lemma distinct_update_where:
  "(\<And>s. P s \<Longrightarrow> key (f s) = key s) \<Longrightarrow> distinct (map key t) \<Longrightarrow> distinct (map key (update_where P f t))"
  by (auto simp: update_where_def o_def if_distrib cong: if_cong)

lemma distinct_upsert: "distinct (map key t) \<Longrightarrow> (\<And>s. key (f s) = key s) \<Longrightarrow> distinct (map key (upsert key r f t))"
  by (auto simp: upsert_def distinct_update_where)

lemma map_update_where:
  "(\<And>r. key (f r) = key r) \<Longrightarrow> map key (update_where P f t) = map key t"
  by (simp add: update_where_def)

lemma ball_update_where:
  "(\<forall>s \<in> set (update_where P f t). Q s) \<longleftrightarrow> (\<forall>r \<in> set t. if P r then Q (f r) else Q r)"
  by (auto simp: update_where_def)

lemma image_update_where:
  "(\<And>r. key (f r) = key r) \<Longrightarrow> key ` set (update_where P f t) = key ` set t"
  by (metis list.set_map map_update_where)

lemma set_delete_where: "set (delete_where P t) = {r \<in> set t. \<not> P r}"
  by (auto simp: delete_where_def)

lemma in_upsert:
  assumes "m \<in> set (upsert key r f t)"
  obtains "m = r" | "m \<in> set t" | s where "s \<in> set t" "key s = key r" "m = f s"
  using assms by (auto simp: upsert_def update_where_def split: if_splits)

lemma distinct_update_one:
  assumes "distinct (map key t)" "\<And>s. s \<in> set t \<Longrightarrow> P s \<Longrightarrow> key (f s) = k" "\<And>s. s \<in> set t \<Longrightarrow> \<not> P s \<Longrightarrow> key s \<noteq> k"
    and "\<And>s s'. s \<in> set t \<Longrightarrow> s' \<in> set t \<Longrightarrow> P s \<Longrightarrow> P s' \<Longrightarrow> s = s'"
  shows "distinct (map key (update_where P f t))"
  using assms
proof (induction t)
  case (Cons r t)
  then have ih: "distinct (map key (update_where P f t))" by simp
  have "key (if P r then f r else r) \<noteq> key (if P s then f s else s)" if s: "s \<in> set t" for s
  proof -
    have new: "key r \<noteq> key s" using Cons.prems(1) s by force
    then have "\<not> (P r \<and> P s)" using Cons.prems(4) [of r s] s by auto
    then show ?thesis
      using new Cons.prems(2) [of r] Cons.prems(2) [of s] Cons.prems(3) [of r] Cons.prems(3) [of s] s by auto
  qed
  then have "key (if P r then f r else r) \<notin> (\<lambda>s. key (if P s then f s else s)) ` set t" by blast
  with ih show ?case by (simp add: update_where_def image_image del: if_image_distrib)
qed (simp add: update_where_def)

lemmas table_simps = map_update_where ball_update_where image_update_where set_delete_where

text \<open>
  An update that does not write the key: uniqueness and the set of keys survive every statement
  built from it, and a row condition that the update keeps survives too.
\<close>

locale key_update =
  fixes key :: "'r \<Rightarrow> 'k" and f :: "'r \<Rightarrow> 'r"
  assumes key_f: "key (f r) = key r"
begin

lemma keys_update: "map key (update_where P f t) = map key t"
  by (simp add: update_where_def key_f)

lemma key_set_update: "key ` set (update_where P f t) = key ` set t"
  using arg_cong [OF keys_update, of set] by simp

lemma row_of_update:
  assumes "r' \<in> set (update_where P f t)"
  obtains r where "r \<in> set t" "key r' = key r" "r' = (if P r then f r else r)"
  using assms by (auto simp: update_where_def key_f intro: that)

end

end
