(* ===== verification/Job_Model.thy ===== *)
theory Job_Model
  imports Prelude
begin

text \<open>
  Jobs and shards (\<open>src/jobs/mod.rs\<close>): the submitted specification and its bounds, the
  confinement of the application directory, and the fan-out of a job into one pending shard per
  seed. The file system is the pair of arguments \<open>canonicalize\<close> and \<open>is_dir\<close>; the fresh id and
  the current time are arguments of \<open>job_new\<close>.
\<close>

section \<open>Confinement of the application directory\<close>

text \<open>A canonical path is the list of its components, so \<open>Path::starts_with\<close> is a list prefix.\<close>

type_synonym path = "string list"

datatype app_dir_error = RootUnavailable | NotAccessible | NotADirectory | EscapesRoot

definition validate_app_dir ::
    "(string \<Rightarrow> path option) \<Rightarrow> (path \<Rightarrow> bool) \<Rightarrow> string \<Rightarrow> string \<Rightarrow> (app_dir_error, path) result" where
  "validate_app_dir canonicalize is_dir jobs_root app_dir =
     rbind (ok_or (canonicalize jobs_root) RootUnavailable) (\<lambda>root.
     rbind (ok_or (canonicalize app_dir) NotAccessible) (\<lambda>resolved.
       if \<not> is_dir resolved then Err NotADirectory
       else if \<not> prefix root resolved then Err EscapesRoot
       else Ok resolved))"

text \<open>\<open>REPROIT_JOBS_ROOT\<close> when set and not empty, else the current directory, else a dot.\<close>

definition jobs_root :: "string option \<Rightarrow> string option \<Rightarrow> string" where
  "jobs_root env_root current_dir =
     (case env_root of
        Some v \<Rightarrow> if v \<noteq> [] then v else (case current_dir of Some d \<Rightarrow> d | None \<Rightarrow> ''.'')
      | None \<Rightarrow> (case current_dir of Some d \<Rightarrow> d | None \<Rightarrow> ''.''))"

section \<open>Job specifications\<close>

record JobSpec =
  js_app_dir :: string
  js_mode :: string
  js_seeds :: "32 word"
  js_budget :: "32 word"
  js_backend :: string

definition MAX_JOB_SEEDS :: "32 word" where "MAX_JOB_SEEDS = 1024"
definition MAX_JOB_BUDGET :: "32 word" where "MAX_JOB_BUDGET = 10000"

datatype spec_error = BadSeeds | BadBudget | BadBackend | BadMode

definition spec_validate :: "JobSpec \<Rightarrow> (spec_error, unit) result" where
  "spec_validate s = checks
     [guard (1 \<le> js_seeds s \<and> js_seeds s \<le> MAX_JOB_SEEDS) BadSeeds,
      guard (1 \<le> js_budget s \<and> js_budget s \<le> MAX_JOB_BUDGET) BadBudget,
      guard (js_backend s \<in> {''web'', ''android'', ''ios''}) BadBackend,
      guard (js_mode s = ''fuzz'') BadMode]"

definition spec_defaults :: "string \<Rightarrow> JobSpec" where
  "spec_defaults app_dir =
     \<lparr>js_app_dir = app_dir, js_mode = ''fuzz'', js_seeds = 8, js_budget = 24, js_backend = ''web''\<rparr>"

section \<open>Shards and jobs\<close>

datatype ShardState = Pending | Running | Clean | SFinding | SError

fun shard_state_as_str :: "ShardState \<Rightarrow> string" where
  "shard_state_as_str Pending = ''pending''"
| "shard_state_as_str Running = ''running''"
| "shard_state_as_str Clean = ''clean''"
| "shard_state_as_str SFinding = ''finding''"
| "shard_state_as_str SError = ''error''"

text \<open>A double is its 64-bit pattern; the development only stores and copies them here.\<close>

type_synonym f64_bits = "64 word"

record Shard =
  s_seed :: "32 word"
  s_state :: ShardState
  s_report :: "string option"
  s_duration_s :: f64_bits

record Job =
  j_id :: string
  j_spec_app_dir :: string
  j_budget :: "32 word"
  j_backend :: string
  j_shards :: "Shard list"
  j_started_at :: string

definition job_new :: "string \<Rightarrow> string \<Rightarrow> JobSpec \<Rightarrow> Job" where
  "job_new uuid now spec =
     \<lparr>j_id = uuid, j_spec_app_dir = js_app_dir spec, j_budget = js_budget spec,
      j_backend = js_backend spec,
      j_shards = map (\<lambda>n. \<lparr>s_seed = of_nat n, s_state = Pending, s_report = None, s_duration_s = 0\<rparr>)
        [1..<Suc (unat (js_seeds spec))],
      j_started_at = now\<rparr>"

section \<open>Lemmas\<close>

lemma shard_state_as_str_inject: "shard_state_as_str a = shard_state_as_str b \<longleftrightarrow> a = b"
  by (cases a; cases b) simp_all

lemma unat_u32_bound: "unat (w :: 32 word) < 2 ^ 32"
  using unsigned_less [where 'a = nat, of w] by simp

lemma inj_of_nat_u32: "inj_on (of_nat :: nat \<Rightarrow> 32 word) {..<2 ^ 32}"
proof (rule inj_onI)
  fix x y :: nat
  assume xy: "x \<in> {..<2 ^ 32}" "y \<in> {..<2 ^ 32}" "(of_nat x :: 32 word) = of_nat y"
  then have "unat (of_nat x :: 32 word) = unat (of_nat y :: 32 word)" by simp
  with xy(1,2) show "x = y" by (simp add: unat_of_nat)
qed

lemma job_new_seeds: "map s_seed (j_shards (job_new u now s)) = map of_nat [1..<Suc (unat (js_seeds s))]"
  by (simp add: job_new_def)

lemma job_new_distinct_seeds: "distinct (map s_seed (j_shards (job_new u now s)))"
  unfolding job_new_seeds
proof (subst distinct_map, intro conjI)
  have "set [1..<Suc (unat (js_seeds s))] \<subseteq> {..<2 ^ 32}"
    using unat_u32_bound [of "js_seeds s"] by auto
  then show "inj_on (of_nat :: nat \<Rightarrow> 32 word) (set [1..<Suc (unat (js_seeds s))])"
    by (rule inj_on_subset [OF inj_of_nat_u32])
qed simp

text \<open>An accepted directory lies under the canonical jobs root.\<close>

lemma validate_app_dir_Ok:
  "validate_app_dir canon is_dir root dir = Ok p \<longleftrightarrow>
     (\<exists>r. canon root = Some r \<and> canon dir = Some p \<and> is_dir p \<and> prefix r p)"
  by (auto simp: validate_app_dir_def)

section \<open>Properties\<close>

text \<open>A validated job fans out into between 1 and 1024 shards with the seeds 1, 2, ... in order,
  all different, all pending, without a report.\<close>

theorem job_new_shards:
  assumes "spec_validate spec = Ok ()"
  shows "1 \<le> length (j_shards (job_new uuid now spec)) \<and> length (j_shards (job_new uuid now spec)) \<le> 1024
    \<and> length (j_shards (job_new uuid now spec)) = unat (js_seeds spec)
    \<and> distinct (map s_seed (j_shards (job_new uuid now spec)))
    \<and> (\<forall>i < unat (js_seeds spec). unat (s_seed (j_shards (job_new uuid now spec) ! i)) = Suc i
         \<and> s_state (j_shards (job_new uuid now spec) ! i) = Pending)"
proof -
  have len: "length (j_shards (job_new uuid now spec)) = unat (js_seeds spec)"
    by (simp add: job_new_def)
  from assms have "1 \<le> js_seeds spec" "js_seeds spec \<le> 1024"
    by (simp_all add: spec_validate_def MAX_JOB_SEEDS_def)
  then have b: "1 \<le> unat (js_seeds spec)" "unat (js_seeds spec) \<le> 1024"
    by (simp_all add: word_le_nat_alt)
  have "unat (s_seed (j_shards (job_new uuid now spec) ! i)) = Suc i
      \<and> s_state (j_shards (job_new uuid now spec) ! i) = Pending" if "i < unat (js_seeds spec)" for i
  proof -
    have "unat (of_nat (Suc i) :: 32 word) = Suc i"
      using that b by (simp add: unat_of_nat del: of_nat_Suc)
    then show ?thesis using that by (simp add: job_new_def del: upt_Suc of_nat_Suc)
  qed
  with len b job_new_distinct_seeds [of uuid now spec] show ?thesis by simp
qed

section \<open>Witness\<close>

theorem job_new_shards_witness:
  "length (j_shards (job_new ''j-1'' ''t0'' (spec_defaults ''/srv/app''))) = 8"
proof -
  have "spec_validate (spec_defaults ''/srv/app'') = Ok ()"
    by (simp add: spec_validate_def spec_defaults_def MAX_JOB_SEEDS_def MAX_JOB_BUDGET_def)
  from job_new_shards [OF this, of "''j-1''" "''t0''"] show ?thesis
    by (simp add: spec_defaults_def)
qed

end
