(* ===== verification/Shard_Queue.thy ===== *)
theory Shard_Queue
  imports Table Job_Model
begin

text \<open>
  The durable queue of one tenant (\<open>src/db/tenant/jobs.rs\<close>, the tables \<open>jobs\<close> and \<open>shards\<close> of
  \<open>src/db/schema.rs\<close>). Every store method is one function; instants are microseconds, the current
  instant is an argument. \<open>claim_shard\<close> takes the rows that concurrent transactions hold locked,
  which \<open>FOR UPDATE SKIP LOCKED\<close> passes over. A shard column of type \<open>INT\<close> holds the signed
  reading of the \<open>u32\<close> the code binds.
\<close>

section \<open>Rows\<close>

record job_row =
  jb_id :: string
  jb_app_dir :: string
  jb_budget :: int
  jb_started_at :: string
  jb_finished_at :: "string option"
  jb_map_states :: int
  jb_map_transitions :: int

record shard_row =
  sh_job_id :: string
  sh_seed :: int
  sh_state :: ShardState
  sh_report :: "string option"
  sh_duration_s :: f64_bits
  sh_backend :: string
  sh_claimed_by :: "string option"
  sh_claimed_at :: "int option"
  sh_heartbeat_at :: "int option"
  sh_attempts :: int

record tenant_db =
  jobs :: "job_row list"
  shards :: "shard_row list"

definition empty_db :: tenant_db where
  "empty_db = \<lparr>jobs = [], shards = []\<rparr>"

definition shard_key :: "shard_row \<Rightarrow> string \<times> int" where
  "shard_key r = (sh_job_id r, sh_seed r)"

record ClaimedShard =
  cs_job_id :: string
  cs_seed :: "32 word"
  cs_claimed_by :: string
  cs_backend :: string
  cs_app_dir :: string
  cs_budget :: "32 word"

record PendingJob =
  pj_job_id :: string
  pj_backend :: string
  pj_started_at :: string
  pj_seeds :: "32 word"

section \<open>Operations\<close>

definition job_to_row :: "Job \<Rightarrow> job_row" where
  "job_to_row job = \<lparr>jb_id = j_id job, jb_app_dir = j_spec_app_dir job, jb_budget = sint (j_budget job),
     jb_started_at = j_started_at job, jb_finished_at = None, jb_map_states = 0, jb_map_transitions = 0\<rparr>"

definition shard_to_row :: "Job \<Rightarrow> Shard \<Rightarrow> shard_row" where
  "shard_to_row job s = \<lparr>sh_job_id = j_id job, sh_seed = sint (s_seed s), sh_state = Pending,
     sh_report = None, sh_duration_s = 0, sh_backend = j_backend job, sh_claimed_by = None,
     sh_claimed_at = None, sh_heartbeat_at = None, sh_attempts = 0\<rparr>"

text \<open>One transaction; \<open>None\<close> is the primary-key violation that rolls it back.\<close>

definition insert_job :: "Job \<Rightarrow> tenant_db \<Rightarrow> tenant_db option" where
  "insert_job job db =
     (if j_id job \<in> jb_id ` set (jobs db)
         \<or> \<not> distinct (map shard_key (shards db @ map (shard_to_row job) (j_shards job)))
      then None
      else Some (db\<lparr>jobs := jobs db @ [job_to_row job],
                    shards := shards db @ map (shard_to_row job) (j_shards job)\<rparr>))"

definition job_exists :: "string \<Rightarrow> tenant_db \<Rightarrow> bool" where
  "job_exists job_id db \<longleftrightarrow> job_id \<in> jb_id ` set (jobs db)"

definition claimable :: "(string \<times> int \<Rightarrow> bool) \<Rightarrow> string list \<Rightarrow> string option \<Rightarrow> shard_row \<Rightarrow> bool" where
  "claimable locked capabilities job_id s \<longleftrightarrow>
     sh_state s = Pending \<and> sh_backend s \<in> set capabilities
     \<and> (case job_id of None \<Rightarrow> True | Some j \<Rightarrow> sh_job_id s = j) \<and> \<not> locked (shard_key s)"

definition claim_row :: "int \<Rightarrow> string \<Rightarrow> shard_row \<Rightarrow> shard_row" where
  "claim_row now worker_id s = s\<lparr>sh_state := Running, sh_claimed_by := Some worker_id,
     sh_claimed_at := Some now, sh_heartbeat_at := Some now, sh_attempts := sh_attempts s + 1\<rparr>"

definition claim_shard :: "int \<Rightarrow> (string \<times> int \<Rightarrow> bool) \<Rightarrow> string \<Rightarrow> string list \<Rightarrow> string option
    \<Rightarrow> tenant_db \<Rightarrow> ClaimedShard option \<times> tenant_db" where
  "claim_shard now locked worker_id capabilities job_id db =
     (case select_first shard_key (claimable locked capabilities job_id) (shards db) of
        None \<Rightarrow> (None, db)
      | Some s \<Rightarrow>
          (let db' = db\<lparr>shards := update_where (\<lambda>r. shard_key r = shard_key s)
                         (claim_row now worker_id) (shards db)\<rparr>
           in case List.find (\<lambda>j. jb_id j = sh_job_id s) (jobs db) of
                None \<Rightarrow> (None, db')
              | Some j \<Rightarrow>
                  (Some \<lparr>cs_job_id = sh_job_id s, cs_seed = word_of_int (sh_seed s),
                         cs_claimed_by = worker_id, cs_backend = sh_backend s,
                         cs_app_dir = jb_app_dir j, cs_budget = word_of_int (jb_budget j)\<rparr>, db')))"

text \<open>\<open>SELECT DISTINCT job_id, backend\<close> joined with the jobs, oldest first, at most 256.\<close>

definition pending_jobs :: "string list \<Rightarrow> tenant_db \<Rightarrow> PendingJob list" where
  "pending_jobs capabilities db =
     (let p = remdups (map (\<lambda>s. (sh_job_id s, sh_backend s))
                (filter (\<lambda>s. sh_state s = Pending \<and> sh_backend s \<in> set capabilities) (shards db)));
          joined = concat (map (\<lambda>(job_id, backend).
            map (\<lambda>j. \<lparr>pj_job_id = job_id, pj_backend = backend, pj_started_at = jb_started_at j,
                       pj_seeds = of_nat (affected (\<lambda>t. sh_job_id t = job_id) (shards db))\<rparr>)
              (filter (\<lambda>j. jb_id j = job_id) (jobs db))) p)
      in take 256 (sort_key (\<lambda>r. (pj_started_at r, pj_job_id r)) joined))"

definition running_by_backend :: "tenant_db \<Rightarrow> (string \<times> nat) list" where
  "running_by_backend db =
     (let running = filter (\<lambda>s. sh_state s = Running) (shards db)
      in map (\<lambda>b. (b, affected (\<lambda>s. sh_backend s = b) running)) (remdups (map sh_backend running)))"

text \<open>The condition of the two statements a claimant issues on its shard.\<close>

definition held_by :: "string \<Rightarrow> 32 word \<Rightarrow> string \<Rightarrow> shard_row \<Rightarrow> bool" where
  "held_by job_id seed worker_id s \<longleftrightarrow>
     shard_key s = (job_id, sint seed) \<and> sh_claimed_by s = Some worker_id \<and> sh_state s = Running"

definition touch_row :: "int \<Rightarrow> shard_row \<Rightarrow> shard_row" where
  "touch_row now s = s\<lparr>sh_heartbeat_at := Some now\<rparr>"

definition touch_shard :: "int \<Rightarrow> string \<Rightarrow> 32 word \<Rightarrow> string \<Rightarrow> tenant_db \<Rightarrow> bool \<times> tenant_db" where
  "touch_shard now job_id seed worker_id db =
     (affected (held_by job_id seed worker_id) (shards db) = 1,
      db\<lparr>shards := update_where (held_by job_id seed worker_id) (touch_row now) (shards db)\<rparr>)"

definition pending_shard_count :: "tenant_db \<Rightarrow> nat" where
  "pending_shard_count db = affected (\<lambda>s. sh_state s = Pending) (shards db)"

definition stranded :: "int \<Rightarrow> int \<Rightarrow> shard_row \<Rightarrow> bool" where
  "stranded now stale_secs s \<longleftrightarrow>
     sh_state s = Running
     \<and> (case sh_heartbeat_at s of None \<Rightarrow> True | Some h \<Rightarrow> h < now - stale_secs * 1000000)"

definition requeue_row :: "shard_row \<Rightarrow> shard_row" where
  "requeue_row s = s\<lparr>sh_state := Pending, sh_claimed_by := None, sh_claimed_at := None,
     sh_heartbeat_at := None\<rparr>"

definition requeue_stranded :: "int \<Rightarrow> int \<Rightarrow> tenant_db \<Rightarrow> nat \<times> tenant_db" where
  "requeue_stranded now stale_secs db =
     (affected (stranded now stale_secs) (shards db),
      db\<lparr>shards := update_where (stranded now stale_secs) requeue_row (shards db)\<rparr>)"

definition job_incomplete :: "string \<Rightarrow> tenant_db \<Rightarrow> bool" where
  "job_incomplete job_id db \<longleftrightarrow>
     0 < affected (\<lambda>s. sh_job_id s = job_id \<and> sh_state s \<in> {Pending, Running}) (shards db)"

definition set_row :: "ShardState \<Rightarrow> string option \<Rightarrow> f64_bits \<Rightarrow> shard_row \<Rightarrow> shard_row" where
  "set_row state report duration_s s =
     s\<lparr>sh_state := state, sh_report := report, sh_duration_s := duration_s\<rparr>"

definition set_shard :: "string \<Rightarrow> 32 word \<Rightarrow> string \<Rightarrow> ShardState \<Rightarrow> string option \<Rightarrow> f64_bits
    \<Rightarrow> tenant_db \<Rightarrow> bool \<times> tenant_db" where
  "set_shard job_id seed worker_id state report duration_s db =
     (affected (held_by job_id seed worker_id) (shards db) = 1,
      db\<lparr>shards := update_where (held_by job_id seed worker_id) (set_row state report duration_s)
                     (shards db)\<rparr>)"

definition finish_row :: "string \<Rightarrow> 64 word \<Rightarrow> 64 word \<Rightarrow> job_row \<Rightarrow> job_row" where
  "finish_row now states transitions j =
     j\<lparr>jb_finished_at := Some now, jb_map_states := sint (ucast states :: 32 word),
       jb_map_transitions := sint (ucast transitions :: 32 word)\<rparr>"

definition finalize_job :: "string \<Rightarrow> string \<Rightarrow> 64 word \<Rightarrow> 64 word \<Rightarrow> tenant_db \<Rightarrow> tenant_db" where
  "finalize_job now job_id states transitions db =
     db\<lparr>jobs := update_where (\<lambda>j. jb_id j = job_id) (finish_row now states transitions) (jobs db)\<rparr>"

definition findings_count :: "string \<Rightarrow> tenant_db \<Rightarrow> nat" where
  "findings_count job_id db = affected (\<lambda>s. sh_job_id s = job_id \<and> sh_state s = SFinding) (shards db)"

text \<open>The two read models of a job: its line in the list and its snapshot.\<close>

record job_summary =
  su_id :: string
  su_app_dir :: string
  su_started_at :: string
  su_finished_at :: "string option"
  su_complete :: bool
  su_backend :: string
  su_shards :: nat
  su_done :: nat
  su_findings :: nat
  su_errors :: nat
  su_running :: nat
  su_clean :: nat
  su_states :: int
  su_transitions :: int

definition job_shards :: "string \<Rightarrow> tenant_db \<Rightarrow> shard_row list" where
  "job_shards job_id db = filter (\<lambda>s. sh_job_id s = job_id) (shards db)"

definition summarize :: "tenant_db \<Rightarrow> job_row \<Rightarrow> job_summary" where
  "summarize db j =
     (let s = job_shards (jb_id j) db in
      \<lparr>su_id = jb_id j, su_app_dir = jb_app_dir j, su_started_at = jb_started_at j,
       su_finished_at = jb_finished_at j, su_complete = (jb_finished_at j \<noteq> None),
       su_backend = (case sort (map sh_backend s) of [] \<Rightarrow> ''web'' | b # _ \<Rightarrow> b),
       su_shards = length s,
       su_done = affected (\<lambda>s. sh_state s \<notin> {Pending, Running}) s,
       su_findings = affected (\<lambda>s. sh_state s = SFinding) s,
       su_errors = affected (\<lambda>s. sh_state s = SError) s,
       su_running = affected (\<lambda>s. sh_state s = Running) s,
       su_clean = affected (\<lambda>s. sh_state s = Clean) s,
       su_states = jb_map_states j, su_transitions = jb_map_transitions j\<rparr>)"

text \<open>Newest first; ties in an unspecified order, here that of the table.\<close>

definition list_jobs :: "int \<Rightarrow> tenant_db \<Rightarrow> job_summary list" where
  "list_jobs limit db =
     take (nat (max 1 (min 100 limit)))
       (map (summarize db) (rev (sort_key jb_started_at (rev (jobs db)))))"

record job_snapshot =
  sn_id :: string
  sn_app_dir :: string
  sn_shards :: nat
  sn_done :: nat
  sn_complete :: bool
  sn_started_at :: string
  sn_finished_at :: "string option"
  sn_findings :: nat
  sn_states :: int
  sn_transitions :: int
  sn_detail :: "(int \<times> ShardState \<times> string option \<times> f64_bits) list"

definition snapshot :: "string \<Rightarrow> tenant_db \<Rightarrow> job_snapshot option" where
  "snapshot i db =
     (case List.find (\<lambda>j. jb_id j = i) (jobs db) of
        None \<Rightarrow> None
      | Some j \<Rightarrow>
          (let rows = sort_key sh_seed (job_shards i db) in
           Some \<lparr>sn_id = i, sn_app_dir = jb_app_dir j, sn_shards = length rows,
             sn_done = affected (\<lambda>s. sh_state s \<noteq> Pending \<and> sh_state s \<noteq> Running) rows,
             sn_complete = (jb_finished_at j \<noteq> None), sn_started_at = jb_started_at j,
             sn_finished_at = jb_finished_at j,
             sn_findings = affected (\<lambda>s. sh_state s = SFinding) rows,
             sn_states = jb_map_states j, sn_transitions = jb_map_transitions j,
             sn_detail = map (\<lambda>s. (sh_seed s, sh_state s, sh_report s, sh_duration_s s)) rows\<rparr>))"

section \<open>The invariant of the queue\<close>

fun terminal :: "ShardState \<Rightarrow> bool" where
  "terminal Pending = False"
| "terminal Running = False"
| "terminal _ = True"

definition reportable :: "ShardState \<Rightarrow> string option \<Rightarrow> bool" where
  "reportable st rep \<longleftrightarrow> terminal st \<or> st = Running \<and> rep = None"

definition row_ok :: "shard_row \<Rightarrow> bool" where
  "row_ok s \<longleftrightarrow>
     (case sh_state s of
        Pending \<Rightarrow> sh_claimed_by s = None \<and> sh_claimed_at s = None \<and> sh_heartbeat_at s = None
                   \<and> sh_report s = None
      | Running \<Rightarrow> sh_claimed_by s \<noteq> None \<and> sh_heartbeat_at s \<noteq> None \<and> sh_report s = None \<and> 0 < sh_attempts s
      | _ \<Rightarrow> sh_claimed_by s \<noteq> None \<and> 0 < sh_attempts s)
     \<and> 0 \<le> sh_attempts s \<and> (\<exists>w :: 32 word. sh_seed s = sint w)"

definition queue_inv :: "tenant_db \<Rightarrow> bool" where
  "queue_inv db \<longleftrightarrow>
     distinct (map jb_id (jobs db)) \<and> distinct (map shard_key (shards db))
     \<and> sh_job_id ` set (shards db) \<subseteq> jb_id ` set (jobs db)
     \<and> (\<forall>s \<in> set (shards db). row_ok s)"

interpretation claim_u: key_update shard_key "claim_row now w" for now w
  by unfold_locales (simp add: shard_key_def claim_row_def)

interpretation touch_u: key_update shard_key "touch_row now" for now
  by unfold_locales (simp add: shard_key_def touch_row_def)

interpretation set_u: key_update shard_key "set_row st rep d" for st rep d
  by unfold_locales (simp add: shard_key_def set_row_def)

interpretation requeue_u: key_update shard_key requeue_row
  by unfold_locales (simp add: shard_key_def requeue_row_def)

interpretation finish_u: key_update jb_id "finish_row now st tr" for now st tr
  by unfold_locales (simp add: finish_row_def)

lemma terminal_iff: "terminal st \<longleftrightarrow> st \<notin> {Pending, Running}"
  by (cases st) simp_all

text \<open>The row updates keep \<open>row_ok\<close> on the rows their statements select.\<close>

lemma row_ok_claim: "row_ok s \<Longrightarrow> sh_state s = Pending \<Longrightarrow> row_ok (claim_row now w s)"
  by (auto simp: row_ok_def claim_row_def)

lemma row_ok_touch: "row_ok s \<Longrightarrow> sh_state s = Running \<Longrightarrow> row_ok (touch_row now s)"
  by (auto simp: row_ok_def touch_row_def)

lemma row_ok_requeue: "row_ok s \<Longrightarrow> sh_state s = Running \<Longrightarrow> row_ok (requeue_row s)"
  by (auto simp: row_ok_def requeue_row_def)

lemma row_ok_set: "row_ok s \<Longrightarrow> sh_state s = Running \<Longrightarrow> reportable st rep \<Longrightarrow> row_ok (set_row st rep d s)"
  by (cases st) (auto simp: row_ok_def set_row_def reportable_def)

text \<open>A statement on the shard table keeps the invariant when its row update keeps key and \<open>row_ok\<close>.\<close>

lemma queue_inv_update:
  assumes inv: "queue_inv db"
    and key: "\<And>r. shard_key (f r) = shard_key r"
    and ok: "\<And>r. r \<in> set (shards db) \<Longrightarrow> P r \<Longrightarrow> row_ok r \<Longrightarrow> row_ok (f r)"
  shows "queue_inv (db\<lparr>shards := update_where P f (shards db)\<rparr>)"
proof -
  have keys: "map shard_key (update_where P f (shards db)) = map shard_key (shards db)"
    by (simp add: update_where_def key)
  then have "map fst (map shard_key (update_where P f (shards db))) = map fst (map shard_key (shards db))"
    by simp
  then have "map sh_job_id (update_where P f (shards db)) = map sh_job_id (shards db)"
    by (simp add: shard_key_def comp_def)
  then have ids: "sh_job_id ` set (update_where P f (shards db)) = sh_job_id ` set (shards db)"
    by (metis list.set_map)
  show ?thesis
    using inv keys ids ok by (auto simp: queue_inv_def set_update_where)
qed

lemma insert_job_inv:
  assumes "queue_inv db" "insert_job job db = Some db'"
  shows "queue_inv db'"
proof -
  have "row_ok (shard_to_row job s)" for s
    by (auto simp: row_ok_def shard_to_row_def)
  moreover have "sh_job_id (shard_to_row job s) = jb_id (job_to_row job)" for s
    by (simp add: shard_to_row_def job_to_row_def)
  ultimately show ?thesis
    using assms
    by (auto simp: queue_inv_def insert_job_def job_to_row_def image_subset_iff split: if_splits)
qed

lemma claim_shard_cases:
  assumes "claim_shard now locked w caps jid db = (res, db')"
  obtains (none) "res = None" "db' = db" "\<forall>s \<in> set (shards db). \<not> claimable locked caps jid s"
  | (row) s where "s \<in> set (shards db)" "claimable locked caps jid s"
      "\<forall>t \<in> set (shards db). claimable locked caps jid t \<longrightarrow> shard_key s \<le> shard_key t"
      "db' = db\<lparr>shards := update_where (\<lambda>r. shard_key r = shard_key s) (claim_row now w) (shards db)\<rparr>"
proof (cases "select_first shard_key (claimable locked caps jid) (shards db)")
  case None
  moreover have "\<forall>s \<in> set (shards db). \<not> claimable locked caps jid s"
    using None by (simp only: select_first_None)
  ultimately show ?thesis using assms none by (simp add: claim_shard_def)
next
  case (Some s)
  then show ?thesis using assms row [of s] select_first_Some [OF Some]
    by (auto simp: claim_shard_def Let_def split: option.splits)
qed

lemma claim_shard_inv:
  assumes inv: "queue_inv db" and c: "claim_shard now locked w caps jid db = (res, db')"
  shows "queue_inv db'"
  using c
proof (cases rule: claim_shard_cases)
  case none
  with inv show ?thesis by simp
next
  case (row s)
  have "row_ok (claim_row now w r)"
    if "r \<in> set (shards db)" "shard_key r = shard_key s" "row_ok r" for r
  proof -
    have "r = s" using key_unique [of shard_key "shards db" r s] inv that row(1) by (simp add: queue_inv_def)
    with row(2) that show ?thesis by (auto simp: claimable_def intro: row_ok_claim)
  qed
  then show ?thesis unfolding row(4) by (intro queue_inv_update [OF inv] claim_u.key_f)
qed

lemma touch_shard_inv: "queue_inv db \<Longrightarrow> queue_inv (snd (touch_shard now j seed w db))"
  by (auto simp: touch_shard_def held_by_def intro!: queue_inv_update row_ok_touch touch_u.key_f)

lemma set_shard_inv: "queue_inv db \<Longrightarrow> reportable st rep \<Longrightarrow> queue_inv (snd (set_shard j seed w st rep d db))"
  by (auto simp: set_shard_def held_by_def intro!: queue_inv_update row_ok_set set_u.key_f)

lemma requeue_stranded_inv: "queue_inv db \<Longrightarrow> queue_inv (snd (requeue_stranded now stale db))"
  by (auto simp: requeue_stranded_def stranded_def intro!: queue_inv_update row_ok_requeue requeue_u.key_f)

lemma finalize_job_inv: "queue_inv db \<Longrightarrow> queue_inv (finalize_job now j st tr db)"
  by (simp add: queue_inv_def finalize_job_def finish_u.keys_update finish_u.key_set_update)

lemmas queue_inv_steps = insert_job_inv claim_shard_inv touch_shard_inv set_shard_inv
  requeue_stranded_inv finalize_job_inv

section \<open>Runs of the queue\<close>

text \<open>
  What any number of request handlers, workers and sweeps do to one tenant's queue: an arbitrary
  interleaving of store calls. The callers of \<open>set_shard\<close> bind a terminal state, or, when the embedded
  worker starts a run, \<open>running\<close> without a report.
\<close>

datatype qevent =
    Submitted string
  | Claimed "string \<times> int" string
  | ClaimMissed
  | Touched "string \<times> int" string bool
  | Reported "string \<times> int" string ShardState bool
  | Requeued "(string \<times> int) list"
  | Finalized string

inductive qstep :: "tenant_db \<Rightarrow> qevent \<Rightarrow> tenant_db \<Rightarrow> bool" where
  q_submit: "insert_job (job_new uuid now spec) db = Some db' \<Longrightarrow> qstep db (Submitted uuid) db'"
| q_claim: "claim_shard now locked w caps jid db = (Some c, db') \<Longrightarrow>
     qstep db (Claimed (cs_job_id c, sint (cs_seed c)) w) db'"
| q_claim_none: "claim_shard now locked w caps jid db = (None, db') \<Longrightarrow> qstep db ClaimMissed db'"
| q_touch: "touch_shard now j seed w db = (ok, db') \<Longrightarrow> qstep db (Touched (j, sint seed) w ok) db'"
| q_set: "set_shard j seed w st rep d db = (ok, db') \<Longrightarrow> reportable st rep \<Longrightarrow>
     qstep db (Reported (j, sint seed) w st ok) db'"
| q_requeue: "requeue_stranded now stale db = (n, db') \<Longrightarrow>
     qstep db (Requeued (map shard_key (filter (stranded now stale) (shards db)))) db'"
| q_finalize: "qstep db (Finalized j) (finalize_job now j st tr db)"

inductive qrun :: "tenant_db \<Rightarrow> qevent list \<Rightarrow> tenant_db \<Rightarrow> bool" where
  q_nil: "qrun db [] db"
| q_cons: "qstep db e db' \<Longrightarrow> qrun db' es db'' \<Longrightarrow> qrun db (e # es) db''"

inductive_cases qstepE: "qstep db e db'"
inductive_simps qrun_simps: "qrun db [] db'" "qrun db (e # es) db'"

lemma empty_db_inv: "queue_inv empty_db"
  by (simp add: queue_inv_def empty_db_def)

lemma qstep_inv: "qstep db e db' \<Longrightarrow> queue_inv db \<Longrightarrow> queue_inv db'"
proof (induction rule: qstep.induct)
  case (q_touch now j seed w db ok db')
  then show ?case using touch_shard_inv [of db now j seed w] by simp
next
  case (q_set j seed w st rep d db ok db')
  then show ?case using set_shard_inv [of db st rep j seed w d] by simp
next
  case (q_requeue now stale db n db')
  then show ?case using requeue_stranded_inv [of db now stale] by simp
qed (auto intro: queue_inv_steps)

lemma qrun_inv: "qrun db es db' \<Longrightarrow> queue_inv db \<Longrightarrow> queue_inv db'"
  by (induction rule: qrun.induct) (auto dest: qstep_inv)

lemma row_of_key: "queue_inv db \<Longrightarrow> r \<in> set (shards db) \<Longrightarrow> s \<in> set (shards db) \<Longrightarrow>
    shard_key r = shard_key s \<Longrightarrow> r = s"
  by (auto simp: queue_inv_def intro: key_unique)

text \<open>How one step changes the row of a given key.\<close>

fun moves :: "string \<times> int \<Rightarrow> qevent \<Rightarrow> bool" where
  "moves k (Claimed k' w) \<longleftrightarrow> k' = k"
| "moves k (Reported k' w st ok) \<longleftrightarrow> k' = k \<and> ok \<and> terminal st"
| "moves k (Requeued ks) \<longleftrightarrow> k \<in> set ks"
| "moves k _ \<longleftrightarrow> False"

definition row_step :: "shard_row \<Rightarrow> qevent \<Rightarrow> shard_row \<Rightarrow> bool" where
  "row_step r e r' \<longleftrightarrow>
     (r' = r \<and> \<not> moves (shard_key r) e)
   \<or> (\<exists>w now. e = Claimed (shard_key r) w \<and> sh_state r = Pending \<and> r' = claim_row now w r)
   \<or> (\<exists>w now. e = Touched (shard_key r) w True \<and> sh_state r = Running \<and> sh_claimed_by r = Some w
        \<and> r' = touch_row now r)
   \<or> (\<exists>w st rep d. e = Reported (shard_key r) w st True \<and> terminal st \<and> sh_state r = Running
        \<and> sh_claimed_by r = Some w \<and> r' = set_row st rep d r)
   \<or> (\<exists>w d. e = Reported (shard_key r) w Running True \<and> sh_state r = Running
        \<and> sh_claimed_by r = Some w \<and> r' = set_row Running None d r)
   \<or> (\<exists>ks. e = Requeued ks \<and> shard_key r \<in> set ks \<and> sh_state r = Running \<and> r' = requeue_row r)"

lemma held_row:
  assumes "queue_inv db"
  shows "affected (held_by j seed w) (shards db) = 1 \<longleftrightarrow> (\<exists>r \<in> set (shards db). held_by j seed w r)"
proof -
  have "held_by j seed w
      = (\<lambda>r. shard_key r = (j, sint seed) \<and> sh_claimed_by r = Some w \<and> sh_state r = Running)"
    by (auto simp: held_by_def)
  with assms show ?thesis
    using affected_key_1 [of shard_key "shards db" "(j, sint seed)"
      "\<lambda>r. sh_claimed_by r = Some w \<and> sh_state r = Running"] by (simp add: queue_inv_def)
qed

lemmas held_row1 = held_row [unfolded One_nat_def]

lemma sint_seed: "row_ok s \<Longrightarrow> sint (word_of_int (sh_seed s) :: 32 word) = sh_seed s"
  by (auto simp: row_ok_def)

lemma find_job:
  assumes "queue_inv db" "s \<in> set (shards db)"
  shows "\<exists>j. List.find (\<lambda>j. jb_id j = sh_job_id s) (jobs db) = Some j \<and> j \<in> set (jobs db) \<and> jb_id j = sh_job_id s"
proof -
  from assms have "\<exists>j \<in> set (jobs db). jb_id j = sh_job_id s"
    by (fastforce simp: queue_inv_def image_subset_iff)
  then show ?thesis
    by (cases "List.find (\<lambda>j. jb_id j = sh_job_id s) (jobs db)")
      (auto simp: find_None_iff dest!: find_Some_iff [THEN iffD1])
qed

lemma claim_shard_Some:
  assumes inv: "queue_inv db" and c: "claim_shard now locked w caps jid db = (Some c, db')"
  obtains s j where "s \<in> set (shards db)" "claimable locked caps jid s"
      "\<forall>t \<in> set (shards db). claimable locked caps jid t \<longrightarrow> shard_key s \<le> shard_key t"
      "j \<in> set (jobs db)" "jb_id j = sh_job_id s"
      "c = \<lparr>cs_job_id = sh_job_id s, cs_seed = word_of_int (sh_seed s), cs_claimed_by = w,
            cs_backend = sh_backend s, cs_app_dir = jb_app_dir j, cs_budget = word_of_int (jb_budget j)\<rparr>"
      "(cs_job_id c, sint (cs_seed c)) = shard_key s"
      "db' = db\<lparr>shards := update_where (\<lambda>r. shard_key r = shard_key s) (claim_row now w) (shards db)\<rparr>"
proof -
  obtain s where sel: "select_first shard_key (claimable locked caps jid) (shards db) = Some s"
    using c by (cases "select_first shard_key (claimable locked caps jid) (shards db)")
      (auto simp: claim_shard_def)
  note s = select_first_Some [OF sel]
  obtain j where j: "List.find (\<lambda>j. jb_id j = sh_job_id s) (jobs db) = Some j"
      "j \<in> set (jobs db)" "jb_id j = sh_job_id s"
    using find_job [OF inv, of s] s by auto
  have "row_ok s" using inv s by (simp add: queue_inv_def)
  with c sel s j that [of s j] sint_seed [of s] show thesis
    by (auto simp: claim_shard_def Let_def shard_key_def)
qed

lemma claim_shard_None:
  assumes inv: "queue_inv db" and c: "claim_shard now locked w caps jid db = (None, db')"
  shows "db' = db \<and> (\<forall>s \<in> set (shards db). \<not> claimable locked caps jid s)"
proof (cases "select_first shard_key (claimable locked caps jid) (shards db)")
  case None
  then have "\<forall>s \<in> set (shards db). \<not> claimable locked caps jid s" by (simp only: select_first_None)
  with None c show ?thesis by (simp add: claim_shard_def)
next
  case (Some s)
  with c find_job [OF inv, of s] select_first_Some [OF Some] show ?thesis
    by (auto simp: claim_shard_def Let_def)
qed

lemma in_update_where: "r \<in> set t \<Longrightarrow> (if P r then f r else r) \<in> set (update_where P f t)"
  by (auto simp: update_where_def)

lemma row_step_key: "row_step r e r' \<Longrightarrow> shard_key r' = shard_key r"
  by (auto simp: row_step_def claim_u.key_f touch_u.key_f set_u.key_f requeue_u.key_f)

lemma step_row:
  assumes inv: "queue_inv db" and "qstep db e db'" and r: "r \<in> set (shards db)"
  shows "\<exists>r' \<in> set (shards db'). row_step r e r'"
  using assms(2)
proof (cases rule: qstep.cases)
  case (q_submit uuid now spec)
  with r have "r \<in> set (shards db')" by (auto simp: insert_job_def split: if_splits)
  moreover have "row_step r e r" using q_submit(1) by (simp add: row_step_def)
  ultimately show ?thesis by blast
next
  case (q_claim now locked w caps jid c)
  from claim_shard_Some [OF inv q_claim(2)] obtain s where
    s: "s \<in> set (shards db)" "claimable locked caps jid s" "(cs_job_id c, sint (cs_seed c)) = shard_key s"
      "db' = db\<lparr>shards := update_where (\<lambda>r. shard_key r = shard_key s) (claim_row now w) (shards db)\<rparr>" by metis
  have "row_step r e (if shard_key r = shard_key s then claim_row now w r else r)"
    using row_of_key [OF inv r s(1)] s(2,3) q_claim(1) by (auto simp: row_step_def claimable_def)
  then show ?thesis
    using in_update_where [OF r, of "\<lambda>r. shard_key r = shard_key s"] s(4) by fastforce
next
  case (q_claim_none now locked w caps jid)
  then have "row_step r e r" by (simp add: row_step_def)
  with claim_shard_None [OF inv q_claim_none(2)] r show ?thesis by blast
next
  case (q_touch now j seed w ok)
  have "row_step r e (if held_by j seed w r then touch_row now r else r)"
    using held_row [OF inv, of j seed w] r q_touch by (auto simp: row_step_def held_by_def touch_shard_def)
  then show ?thesis
    using in_update_where [OF r, of "held_by j seed w"] q_touch by (fastforce simp: touch_shard_def)
next
  case (q_set j seed w st rep d ok)
  have un: "held_by j seed w r" if "shard_key r = (j, sint seed)" "ok"
    using that held_row [OF inv, of j seed w] row_of_key [OF inv r] q_set(2)
    by (auto simp: held_by_def set_shard_def)
  have "row_step r e (if held_by j seed w r then set_row st rep d r else r)"
  proof (cases "held_by j seed w r")
    case True
    with r have "ok" using held_row [OF inv, of j seed w] q_set(2) by (auto simp: set_shard_def)
    with True q_set(1,3) show ?thesis
      by (cases "terminal st") (auto simp: row_step_def held_by_def reportable_def)
  next
    case False
    with un q_set(1) show ?thesis by (auto simp: row_step_def)
  qed
  then show ?thesis
    using in_update_where [OF r, of "held_by j seed w"] q_set by (fastforce simp: set_shard_def)
next
  case (q_requeue now stale n)
  have un: "stranded now stale r \<longleftrightarrow> shard_key r \<in> shard_key ` {s \<in> set (shards db). stranded now stale s}"
    using row_of_key [OF inv r] r by auto
  have "row_step r e (if stranded now stale r then requeue_row r else r)"
  proof (cases "stranded now stale r")
    case True
    with un q_requeue(1) show ?thesis by (auto simp: row_step_def stranded_def)
  next
    case False
    with un q_requeue(1) show ?thesis by (simp add: row_step_def)
  qed
  then show ?thesis
    using in_update_where [OF r, of "stranded now stale"] q_requeue by (fastforce simp: requeue_stranded_def)
next
  case (q_finalize j now st tr)
  then have "row_step r e r" by (simp add: row_step_def)
  with r q_finalize show ?thesis by (auto simp: finalize_job_def)
qed

lemma step_keys:
  assumes inv: "queue_inv db" and "qstep db e db'" and "r' \<in> set (shards db')"
  shows "shard_key r' \<in> shard_key ` set (shards db)
    \<or> (e = Submitted (sh_job_id r') \<and> sh_job_id r' \<notin> jb_id ` set (jobs db) \<and> sh_state r' = Pending)"
  using assms(2)
proof (cases rule: qstep.cases)
  case (q_submit uuid now spec)
  with assms(3) show ?thesis
    by (auto simp: insert_job_def shard_to_row_def job_new_def split: if_splits)
next
  case (q_claim now locked w caps jid c)
  from claim_shard_Some [OF inv q_claim(2)] obtain s where
    "db' = db\<lparr>shards := update_where (\<lambda>r. shard_key r = shard_key s) (claim_row now w) (shards db)\<rparr>" by metis
  with assms(3) claim_u.key_set_update [of "\<lambda>r. shard_key r = shard_key s" now w "shards db"]
  show ?thesis by auto
next
  case (q_claim_none now locked w caps jid)
  with claim_shard_None [OF inv q_claim_none(2)] assms(3) show ?thesis by simp
next
  case (q_touch now j seed w ok)
  with assms(3) touch_u.key_set_update [of "held_by j seed w" now "shards db"]
  show ?thesis by (auto simp: touch_shard_def)
next
  case (q_set j seed w st rep d ok)
  with assms(3) set_u.key_set_update [of "held_by j seed w" st rep d "shards db"]
  show ?thesis by (auto simp: set_shard_def)
next
  case (q_requeue now stale n)
  with assms(3) requeue_u.key_set_update [of "stranded now stale" "shards db"]
  show ?thesis by (auto simp: requeue_stranded_def)
next
  case (q_finalize j now st tr)
  with assms(3) show ?thesis by (simp add: finalize_job_def)
qed

text \<open>Every row after a step is an old row moved by \<open>row_step\<close>, or a pending row of a new job.\<close>

lemma step_row_back:
  assumes inv: "queue_inv db" and st: "qstep db e db'" and r': "r' \<in> set (shards db')"
  shows "(\<exists>r \<in> set (shards db). row_step r e r')
    \<or> (e = Submitted (sh_job_id r') \<and> sh_job_id r' \<notin> jb_id ` set (jobs db) \<and> sh_state r' = Pending)"
proof (cases "shard_key r' \<in> shard_key ` set (shards db)")
  case True
  then obtain r where r: "r \<in> set (shards db)" "shard_key r = shard_key r'" by auto
  obtain r'' where r'': "r'' \<in> set (shards db')" "row_step r e r''" using step_row [OF inv st r(1)] by blast
  have "r'' = r'"
    using row_of_key [OF qstep_inv [OF st inv] r''(1) r'] row_step_key [OF r''(2)] r(2) by simp
  with r r'' show ?thesis by blast
next
  case False
  with step_keys [OF inv st r'] show ?thesis by blast
qed

lemma step_jobs: "queue_inv db \<Longrightarrow> qstep db e db' \<Longrightarrow> jb_id ` set (jobs db) \<subseteq> jb_id ` set (jobs db')"
proof (erule qstepE, goal_cases)
  case (2 now locked w caps jid c)
  from claim_shard_Some [OF 2(1) 2(3)] obtain t where "db' = db\<lparr>shards := t\<rparr>" by metis
  then show ?case by simp
next
  case (3 now locked w caps jid)
  then show ?case using claim_shard_None [OF 3(1) 3(3)] by simp
qed (auto simp: insert_job_def touch_shard_def set_shard_def requeue_stranded_def finalize_job_def
  finish_u.key_set_update split: if_splits)

section \<open>Leases\<close>

text \<open>
  The abstract view of a shard: who holds it, as a function of the history of its events. A claim
  gives the lease, an accepted terminal report or a requeue of that shard ends it.
\<close>

fun lease_step :: "string \<times> int \<Rightarrow> string option \<Rightarrow> qevent \<Rightarrow> string option" where
  "lease_step k l (Claimed k' w) = (if k' = k then Some w else l)"
| "lease_step k l (Reported k' w st ok) = (if k' = k \<and> ok \<and> terminal st then None else l)"
| "lease_step k l (Requeued ks) = (if k \<in> set ks then None else l)"
| "lease_step k l _ = l"

definition lease :: "string \<times> int \<Rightarrow> qevent list \<Rightarrow> string option" where
  "lease k es = foldl (lease_step k) None es"

definition holder :: "tenant_db \<Rightarrow> string \<times> int \<Rightarrow> string option" where
  "holder db k = (case List.find (\<lambda>r. shard_key r = k \<and> sh_state r = Running) (shards db) of
     None \<Rightarrow> None | Some r \<Rightarrow> sh_claimed_by r)"

lemma holder_row:
  assumes inv: "queue_inv db" and r: "r \<in> set (shards db)"
  shows "holder db (shard_key r) = (if sh_state r = Running then sh_claimed_by r else None)"
proof (cases "List.find (\<lambda>x. shard_key x = shard_key r \<and> sh_state x = Running) (shards db)")
  case None
  with r have "sh_state r \<noteq> Running" by (auto simp: find_None_iff)
  with None show ?thesis by (simp add: holder_def)
next
  case (Some x)
  then have "x \<in> set (shards db)" "shard_key x = shard_key r" "sh_state x = Running"
    using find_in [OF Some] by simp_all
  with Some row_of_key [OF inv _ r] show ?thesis by (auto simp: holder_def)
qed

lemma holder_absent: "k \<notin> shard_key ` set (shards db) \<Longrightarrow> holder db k = None"
  by (force simp: holder_def split: option.splits dest: find_in)

lemma holder_Some:
  assumes "queue_inv db"
  shows "holder db (j, sint seed) = Some w \<longleftrightarrow> (\<exists>r \<in> set (shards db). held_by j seed w r)"
  using assms holder_row [OF assms] holder_absent [of "(j, sint seed)" db]
  by (cases "(j, sint seed) \<in> shard_key ` set (shards db)") (fastforce simp: held_by_def split: if_splits)+

lemma step_claimed_row:
  assumes inv: "queue_inv db" and "qstep db (Claimed k w) db'"
  obtains s now where "s \<in> set (shards db)" "shard_key s = k" "sh_state s = Pending"
    "claim_row now w s \<in> set (shards db')"
  using assms(2)
proof (cases rule: qstep.cases)
  case (q_claim now locked caps jid c)
  from claim_shard_Some [OF inv q_claim(2)] obtain s where
    s: "s \<in> set (shards db)" "claimable locked caps jid s" "(cs_job_id c, sint (cs_seed c)) = shard_key s"
      "db' = db\<lparr>shards := update_where (\<lambda>r. shard_key r = shard_key s) (claim_row now w) (shards db)\<rparr>" by metis
  then have "claim_row now w s \<in> set (shards db')"
    using in_update_where [OF s(1), of "\<lambda>r. shard_key r = shard_key s" "claim_row now w"] by simp
  with s q_claim(1) that show ?thesis by (simp add: claimable_def)
qed

lemma lease_step_moves: "\<not> moves k e \<Longrightarrow> lease_step k l e = l"
  by (cases e) auto

lemma claimed_by_running: "queue_inv db \<Longrightarrow> r \<in> set (shards db) \<Longrightarrow> sh_state r = Running \<Longrightarrow> sh_claimed_by r \<noteq> None"
  by (auto simp: queue_inv_def row_ok_def)

text \<open>One step of the store is one step of the abstract lease.\<close>

lemma holder_step:
  assumes inv: "queue_inv db" and st: "qstep db e db'"
  shows "holder db' k = lease_step k (holder db k) e"
proof (cases "k \<in> shard_key ` set (shards db)")
  case True
  then obtain r where r: "r \<in> set (shards db)" "shard_key r = k" by auto
  obtain r' where r': "r' \<in> set (shards db')" "row_step r e r'" using step_row [OF inv st r(1)] by blast
  note h = holder_row [OF inv r(1)] holder_row [OF qstep_inv [OF st inv] r'(1)] row_step_key [OF r'(2)]
  from r'(2) show ?thesis unfolding row_step_def
  proof (elim disjE exE conjE)
    assume "r' = r" "\<not> moves (shard_key r) e"
    then show ?thesis using h r(2) by (simp add: lease_step_moves)
  next
    fix w now assume "e = Claimed (shard_key r) w" "r' = claim_row now w r"
    then show ?thesis using h r(2) by (simp add: claim_row_def)
  next
    fix w now assume "e = Touched (shard_key r) w True" "r' = touch_row now r"
    then show ?thesis using h r(2) by (simp add: touch_row_def)
  next
    fix w st rep d assume "e = Reported (shard_key r) w st True" "terminal st" "r' = set_row st rep d r"
    then show ?thesis using h r(2) by (auto simp: set_row_def)
  next
    fix w d assume "e = Reported (shard_key r) w Running True" "r' = set_row Running None d r" "sh_state r = Running"
    then show ?thesis using h r(2) by (simp add: set_row_def)
  next
    fix ks assume "e = Requeued ks" "shard_key r \<in> set ks" "r' = requeue_row r"
    then show ?thesis using h r(2) by (simp add: requeue_row_def)
  qed
next
  case False
  have new: "holder db' k = None"
  proof (cases "k \<in> shard_key ` set (shards db')")
    case True
    then obtain r' where r': "r' \<in> set (shards db')" "shard_key r' = k" by auto
    with step_row_back [OF inv st r'(1)] False have "sh_state r' = Pending"
      by (metis image_eqI row_step_key)
    with holder_row [OF qstep_inv [OF st inv] r'(1)] r'(2) show ?thesis by simp
  qed (simp add: holder_absent)
  have "lease_step k None e = None"
  proof (cases "\<exists>w. e = Claimed k w")
    case True
    then obtain w where "e = Claimed k w" by blast
    with st False show ?thesis by (auto elim!: step_claimed_row [OF inv])
  next
    case False
    then show ?thesis by (cases e) auto
  qed
  with new holder_absent [OF False] show ?thesis by simp
qed

lemma holder_run: "qrun db es db' \<Longrightarrow> queue_inv db \<Longrightarrow> holder db' k = foldl (lease_step k) (holder db k) es"
  by (induction rule: qrun.induct) (simp_all add: holder_step qstep_inv)

lemma holder_lease: "qrun empty_db es db \<Longrightarrow> holder db k = lease k es"
  using holder_run [of empty_db es db k, OF _ empty_db_inv] holder_absent [of k empty_db]
  by (simp add: lease_def empty_db_def)

lemma set_shard_accepts:
  "queue_inv db \<Longrightarrow> fst (set_shard j seed w st rep d db) \<longleftrightarrow> holder db (j, sint seed) = Some w"
  by (simp add: set_shard_def held_row1 holder_Some)

lemma touch_shard_accepts:
  "queue_inv db \<Longrightarrow> fst (touch_shard now j seed w db) \<longleftrightarrow> holder db (j, sint seed) = Some w"
  by (simp add: touch_shard_def held_row1 holder_Some)

lemma set_shard_rejects: "queue_inv db \<Longrightarrow> \<not> fst (set_shard j seed w st rep d db) \<Longrightarrow>
    snd (set_shard j seed w st rep d db) = db"
  by (auto simp: set_shard_def held_row1 update_where_none)

lemma touch_shard_rejects: "queue_inv db \<Longrightarrow> \<not> fst (touch_shard now j seed w db) \<Longrightarrow>
    snd (touch_shard now j seed w db) = db"
  by (auto simp: touch_shard_def held_row1 update_where_none)

lemma qrun_append: "qrun db (xs @ ys) db'' \<longleftrightarrow> (\<exists>db'. qrun db xs db' \<and> qrun db' ys db'')"
  by (induction xs arbitrary: db) (auto simp: qrun_simps)

lemma row_step_terminal: "row_step r e r' \<Longrightarrow> terminal (sh_state r) \<Longrightarrow> r' = r"
  by (auto simp: row_step_def)

lemma row_step_leaves_pending:
  "row_step r e r' \<Longrightarrow> sh_state r \<noteq> Pending \<Longrightarrow> (\<And>ks. e = Requeued ks \<Longrightarrow> shard_key r \<notin> set ks) \<Longrightarrow>
     sh_state r' \<noteq> Pending"
  by (auto simp: row_step_def claim_row_def touch_row_def set_row_def)

lemma run_leaves_pending:
  assumes "qrun db es db'" "queue_inv db" "r \<in> set (shards db)" "sh_state r \<noteq> Pending"
    "\<And>ks. Requeued ks \<in> set es \<Longrightarrow> shard_key r \<notin> set ks"
  shows "\<exists>r' \<in> set (shards db'). shard_key r' = shard_key r \<and> sh_state r' \<noteq> Pending"
  using assms
proof (induction arbitrary: r rule: qrun.induct)
  case (q_cons db e db' es db'')
  obtain r' where r': "r' \<in> set (shards db')" "row_step r e r'"
    using step_row [OF q_cons.prems(1) q_cons.hyps(1) q_cons.prems(2)] by blast
  have k: "shard_key r' = shard_key r" by (rule row_step_key [OF r'(2)])
  have "sh_state r' \<noteq> Pending"
    using row_step_leaves_pending [OF r'(2) q_cons.prems(3)] q_cons.prems(4) by auto
  with q_cons.IH [OF qstep_inv [OF q_cons.hyps(1) q_cons.prems(1)] r'(1)] q_cons.prems(4) k
  show ?case by auto
qed auto

lemma job_incomplete_iff: "job_incomplete j db \<longleftrightarrow> (\<exists>s \<in> set (job_shards j db). \<not> terminal (sh_state s))"
proof -
  have "\<not> job_incomplete j db \<longleftrightarrow> (\<forall>s \<in> set (job_shards j db). terminal (sh_state s))"
    by (auto simp: job_incomplete_def affected_0 job_shards_def terminal_iff)
  then show ?thesis by blast
qed

lemma complete_step:
  assumes inv: "queue_inv db" and st: "qstep db e db'" and ex: "job_exists j db" and c: "\<not> job_incomplete j db"
  shows "set (job_shards j db') = set (job_shards j db) \<and> job_exists j db'"
proof (intro conjI equalityI subsetI)
  fix r' assume "r' \<in> set (job_shards j db')"
  then have r': "r' \<in> set (shards db')" "sh_job_id r' = j" by (auto simp: job_shards_def)
  from step_row_back [OF inv st r'(1)] ex r'(2) obtain r where r: "r \<in> set (shards db)" "row_step r e r'"
    by (auto simp: job_exists_def)
  then have "sh_job_id r = j" using row_step_key [OF r(2)] r'(2) by (simp add: shard_key_def)
  with r c have "terminal (sh_state r)" by (auto simp: job_incomplete_iff job_shards_def)
  with row_step_terminal [OF r(2)] r \<open>sh_job_id r = j\<close> show "r' \<in> set (job_shards j db)"
    by (simp add: job_shards_def)
next
  fix r assume r: "r \<in> set (job_shards j db)"
  then have "r \<in> set (shards db)" "terminal (sh_state r)" "sh_job_id r = j"
    using c by (auto simp: job_incomplete_iff job_shards_def)
  with step_row [OF inv st] row_step_terminal show "r \<in> set (job_shards j db')"
    by (fastforce simp: job_shards_def)
next
  show "job_exists j db'" using step_jobs [OF inv st] ex by (auto simp: job_exists_def)
qed

lemma complete_run:
  assumes "qrun db es db'" "queue_inv db" "job_exists j db" "\<not> job_incomplete j db"
  shows "set (job_shards j db') = set (job_shards j db)"
  using assms
proof (induction rule: qrun.induct)
  case (q_cons db e db' es db'')
  then have s: "set (job_shards j db') = set (job_shards j db)" "job_exists j db'"
    using complete_step [OF q_cons.prems(1) q_cons.hyps(1)] by auto
  then have "\<not> job_incomplete j db'" using q_cons.prems(3) by (simp add: job_incomplete_iff)
  with s q_cons.IH qstep_inv [OF q_cons.hyps(1) q_cons.prems(1)] show ?case by simp
qed simp

section \<open>Properties\<close>

text \<open>Every state that an arbitrary interleaving of submissions, claims, heartbeats, reports,
  requeue sweeps and finalizations reaches from the empty store satisfies the queue invariant: job
  ids and shard keys are unique, no shard is without its job, a pending shard has no claimant,
  heartbeat or report, a running or finished shard has a claimant and at least one attempt.\<close>

theorem queue_invariant:
  assumes "qrun empty_db es db"
  shows "queue_inv db"
  by (rule qrun_inv [OF assms empty_db_inv])

text \<open>A claim serves the first claimable shard in the order of job id and seed: pending, of a
  capable backend, of the requested job, not locked by another transaction. It moves exactly that
  row to running under the worker and returns its job's data; it returns nothing exactly when no
  shard is claimable, and then changes nothing.\<close>

theorem claim_shard_correct:
  assumes "queue_inv db"
  shows "case claim_shard now locked w caps jid db of
      (None, db') \<Rightarrow> db' = db \<and> (\<forall>s \<in> set (shards db). \<not> claimable locked caps jid s)
    | (Some c, db') \<Rightarrow> (\<exists>s \<in> set (shards db). \<exists>j \<in> set (jobs db).
          claimable locked caps jid s
        \<and> (\<forall>t \<in> set (shards db). claimable locked caps jid t \<longrightarrow> shard_key s \<le> shard_key t)
        \<and> jb_id j = sh_job_id s
        \<and> (cs_job_id c, sint (cs_seed c)) = shard_key s \<and> cs_claimed_by c = w
        \<and> cs_backend c = sh_backend s \<and> cs_app_dir c = jb_app_dir j
        \<and> jobs db' = jobs db
        \<and> set (shards db') = insert (claim_row now w s) (set (shards db) - {s}))"
proof (cases "claim_shard now locked w caps jid db")
  case (Pair res db')
  show ?thesis
  proof (cases res)
    case None
    with Pair claim_shard_None [OF assms] show ?thesis by simp
  next
    case (Some c)
    with Pair have "claim_shard now locked w caps jid db = (Some c, db')" by simp
    from claim_shard_Some [OF assms this] obtain s j where
      s: "s \<in> set (shards db)" "claimable locked caps jid s"
        "\<forall>t \<in> set (shards db). claimable locked caps jid t \<longrightarrow> shard_key s \<le> shard_key t"
      and j: "j \<in> set (jobs db)" "jb_id j = sh_job_id s"
      and c: "c = \<lparr>cs_job_id = sh_job_id s, cs_seed = word_of_int (sh_seed s), cs_claimed_by = w,
            cs_backend = sh_backend s, cs_app_dir = jb_app_dir j, cs_budget = word_of_int (jb_budget j)\<rparr>"
        "(cs_job_id c, sint (cs_seed c)) = shard_key s"
      and db': "db' = db\<lparr>shards := update_where (\<lambda>r. shard_key r = shard_key s) (claim_row now w) (shards db)\<rparr>"
      by blast
    have only: "r \<in> set (shards db) \<and> shard_key r = shard_key s \<longleftrightarrow> r = s" for r
      using row_of_key [OF assms _ s(1)] s(1) by auto
    then have "{r \<in> set (shards db). shard_key r = shard_key s} = {s}"
      "{r \<in> set (shards db). shard_key r \<noteq> shard_key s} = set (shards db) - {s}" by auto
    then have "set (shards db') = insert (claim_row now w s) (set (shards db) - {s})"
      by (simp add: db' set_update_where)
    with s j c db' show ?thesis unfolding Pair Some by auto
  qed
qed

text \<open>C1. The store refines the abstract lease: after any history, the running claimant of a shard
  is the worker that last claimed it with no accepted terminal report and no requeue of that shard since. A
  heartbeat or a report succeeds exactly for that worker; any other call changes nothing.\<close>

theorem lease_refinement:
  assumes "qrun empty_db es db"
  shows "holder db (j, sint seed) = lease (j, sint seed) es
    \<and> (fst (touch_shard now j seed w db) \<longleftrightarrow> lease (j, sint seed) es = Some w)
    \<and> (fst (set_shard j seed w st rep d db) \<longleftrightarrow> lease (j, sint seed) es = Some w)
    \<and> (lease (j, sint seed) es \<noteq> Some w \<longrightarrow>
         snd (touch_shard now j seed w db) = db \<and> snd (set_shard j seed w st rep d db) = db)"
proof -
  have inv: "queue_inv db" by (rule qrun_inv [OF assms empty_db_inv])
  note accepts = set_shard_accepts [OF inv, of j seed w] touch_shard_accepts [OF inv, of now j seed w]
  note rejects = set_shard_rejects [OF inv, of j seed w st rep d] touch_shard_rejects [OF inv, of now j seed w]
  from holder_lease [OF assms, of "(j, sint seed)"] accepts rejects show ?thesis by simp
qed

text \<open>C3. No shard is claimed twice, by the same worker or another, unless a requeue sweep returned
  that very shard to the queue in between.\<close>

theorem no_double_claim:
  assumes "qrun empty_db (es1 @ Claimed k w # es2 @ [Claimed k w']) db"
  shows "\<exists>ks. Requeued ks \<in> set es2 \<and> k \<in> set ks"
proof (rule ccontr)
  assume no: "\<not> ?thesis"
  from assms obtain a b c where run: "qrun empty_db es1 a" "qstep a (Claimed k w) b" "qrun b es2 c"
      "qstep c (Claimed k w') db"
    by (auto simp: qrun_append qrun_simps)
  have a: "queue_inv a" by (rule qrun_inv [OF run(1) empty_db_inv])
  have b: "queue_inv b" by (rule qstep_inv [OF run(2) a])
  have c: "queue_inv c" by (rule qrun_inv [OF run(3) b])
  obtain s now where s: "shard_key s = k" "claim_row now w s \<in> set (shards b)"
    using step_claimed_row [OF a run(2)] by metis
  have "shard_key (claim_row now w s) = k" "sh_state (claim_row now w s) \<noteq> Pending"
    using s(1) by (simp_all add: claim_u.key_f) (simp add: claim_row_def)
  with run_leaves_pending [OF run(3) b s(2)] no obtain r' where
    r': "r' \<in> set (shards c)" "shard_key r' = k" "sh_state r' \<noteq> Pending" by metis
  obtain t where t: "t \<in> set (shards c)" "shard_key t = k" "sh_state t = Pending"
    using step_claimed_row [OF c run(4)] by metis
  from row_of_key [OF c r'(1) t(1)] r' t show False by simp
qed

text \<open>Once the report that settles a job's last open shard is accepted, no interleaving of other
  calls reopens the job or changes any of its shards: the reporter's own later check of
  \<open>job_incomplete\<close> returns false, so the finalization that depends on it is never skipped.\<close>

theorem completed_job_frozen:
  assumes "qrun empty_db es db" "qstep db (Reported (j, seed) w st True) db1" "\<not> job_incomplete j db1"
    "qrun db1 es' db2"
  shows "\<not> job_incomplete j db2 \<and> set (job_shards j db2) = set (job_shards j db1)
    \<and> (\<exists>s \<in> set (job_shards j db2). sh_seed s = seed \<and> sh_state s = st)"
proof -
  have inv: "queue_inv db" by (rule qrun_inv [OF assms(1) empty_db_inv])
  have inv1: "queue_inv db1" by (rule qstep_inv [OF assms(2) inv])
  from assms(2) obtain r' where r': "r' \<in> set (shards db1)" "shard_key r' = (j, seed)" "sh_state r' = st"
  proof (cases rule: qstep.cases)
    case (q_set sd rep d)
    then obtain r where r: "r \<in> set (shards db)" "held_by j sd w r"
      using held_row [OF inv, of j sd w] by (auto simp: set_shard_def)
    have "set_row st rep d r \<in> set (shards db1)"
      using in_update_where [OF r(1), of "held_by j sd w" "set_row st rep d"] r(2) q_set by (auto simp: set_shard_def)
    with r(2) q_set that [of "set_row st rep d r"] show ?thesis
      by (simp add: held_by_def set_row_def shard_key_def)
  qed
  then have "job_exists j db1"
    using inv1 by (force simp: queue_inv_def job_exists_def shard_key_def image_subset_iff)
  from complete_run [OF assms(4) inv1 this assms(3)]
  have same: "set (job_shards j db2) = set (job_shards j db1)" .
  with assms(3) r' show ?thesis by (auto simp: job_incomplete_iff job_shards_def shard_key_def)
qed

text \<open>The snapshot of a job counts as many finished shards as it has shards exactly when the job is
  no longer incomplete; its findings are the stored count and its details come in seed order.\<close>

theorem snapshot_consistent:
  assumes "snapshot i db = Some sn"
  shows "(sn_done sn = sn_shards sn \<longleftrightarrow> \<not> job_incomplete i db) \<and> sn_done sn \<le> sn_shards sn
    \<and> sn_findings sn = findings_count i db
    \<and> length (sn_detail sn) = sn_shards sn \<and> sorted (map fst (sn_detail sn))"
proof -
  let ?rows = "sort_key sh_seed (job_shards i db)"
  have aff: "affected P ?rows = affected P (job_shards i db)" for P
    by (simp add: affected_def filter_sort)
  have dn: "affected (\<lambda>s. sh_state s \<noteq> Pending \<and> sh_state s \<noteq> Running) (job_shards i db) = length (job_shards i db)
      \<longleftrightarrow> \<not> job_incomplete i db"
    unfolding affected_def job_incomplete_iff
    using sum_length_filter_compl [of "\<lambda>s. sh_state s \<noteq> Pending \<and> sh_state s \<noteq> Running" "job_shards i db"]
    by (auto simp: terminal_iff filter_empty_conv)
  from assms have sn: "sn_shards sn = length (job_shards i db)"
    "sn_done sn = affected (\<lambda>s. sh_state s \<noteq> Pending \<and> sh_state s \<noteq> Running) ?rows"
    "sn_findings sn = affected (\<lambda>s. sh_state s = SFinding) ?rows"
    "sn_detail sn = map (\<lambda>s. (sh_seed s, sh_state s, sh_report s, sh_duration_s s)) ?rows"
    by (auto simp: snapshot_def Let_def split: option.splits)
  have "affected (\<lambda>s. sh_state s = SFinding) (job_shards i db) = findings_count i db"
    by (simp add: findings_count_def affected_def job_shards_def conj_commute)
  moreover have "affected P (job_shards i db) \<le> length (job_shards i db)" for P
    by (simp add: affected_def)
  ultimately show ?thesis using dn by (simp add: sn aff comp_def)
qed

section \<open>Witnesses\<close>

definition sample_spec :: JobSpec where "sample_spec = (spec_defaults ''/a'')\<lparr>js_seeds := 1\<rparr>"
definition sample_db0 :: tenant_db where
  "sample_db0 = the (insert_job (job_new ''j'' ''t'' sample_spec) empty_db)"
definition sample_db1 :: tenant_db where
  "sample_db1 = snd (claim_shard 0 (\<lambda>_. False) ''v'' [''web''] None sample_db0)"
definition sample_db2 :: tenant_db where
  "sample_db2 = snd (requeue_stranded 700000000 600 sample_db1)"
definition sample_db3 :: tenant_db where
  "sample_db3 = snd (claim_shard 700000001 (\<lambda>_. False) ''w'' [''web''] None sample_db2)"
definition sample_db4 :: tenant_db where
  "sample_db4 = snd (set_shard ''j'' 1 ''w'' Clean None 0 sample_db3)"

lemma sample_submit: "qstep empty_db (Submitted ''j'') sample_db0"
  by (rule q_submit [of "''j''" "''t''" sample_spec]) code_simp

lemma sample_claim: "qstep sample_db0 (Claimed (''j'', 1) ''v'') sample_db1"
proof -
  have "claim_shard 0 (\<lambda>_. False) ''v'' [''web''] None sample_db0 =
      (Some \<lparr>cs_job_id = ''j'', cs_seed = 1, cs_claimed_by = ''v'', cs_backend = ''web'',
        cs_app_dir = ''/a'', cs_budget = 24\<rparr>, sample_db1)" by code_simp
  from q_claim [OF this] show ?thesis by simp
qed

lemma sample_requeue: "qstep sample_db1 (Requeued [(''j'', 1)]) sample_db2"
proof -
  have "requeue_stranded 700000000 600 sample_db1 = (1, sample_db2)" by code_simp
  moreover have "map shard_key (filter (stranded 700000000 600) (shards sample_db1)) = [(''j'', 1)]"
    by code_simp
  ultimately show ?thesis using q_requeue [of 700000000 600 sample_db1] by simp
qed

lemma sample_reclaim: "qstep sample_db2 (Claimed (''j'', 1) ''w'') sample_db3"
proof -
  have "claim_shard 700000001 (\<lambda>_. False) ''w'' [''web''] None sample_db2 =
      (Some \<lparr>cs_job_id = ''j'', cs_seed = 1, cs_claimed_by = ''w'', cs_backend = ''web'',
        cs_app_dir = ''/a'', cs_budget = 24\<rparr>, sample_db3)" by code_simp
  from q_claim [OF this] show ?thesis by simp
qed

lemma sample_report: "qstep sample_db3 (Reported (''j'', 1) ''w'' Clean True) sample_db4"
proof -
  have "set_shard ''j'' 1 ''w'' Clean None 0 sample_db3 = (True, sample_db4)" by code_simp
  from q_set [OF this] show ?thesis by (simp add: reportable_def)
qed

lemma sample_run:
  "qrun empty_db [Submitted ''j'', Claimed (''j'', 1) ''v'', Requeued [(''j'', 1)], Claimed (''j'', 1) ''w''] sample_db3"
  by (intro q_cons [OF sample_submit] q_cons [OF sample_claim] q_cons [OF sample_requeue]
    q_cons [OF sample_reclaim] q_nil)

theorem queue_invariant_witness: "queue_inv sample_db3"
  by (rule queue_invariant [OF sample_run])

theorem claim_shard_correct_witness:
  "\<exists>c db'. claim_shard 0 (\<lambda>_. False) ''v'' [''web''] None sample_db0 = (Some c, db')
     \<and> (\<exists>s \<in> set (shards sample_db0). (cs_job_id c, sint (cs_seed c)) = shard_key s)"
proof -
  have inv: "queue_inv sample_db0" by (rule qstep_inv [OF sample_submit empty_db_inv])
  have "fst (claim_shard 0 (\<lambda>_. False) ''v'' [''web''] None sample_db0) \<noteq> None" by code_simp
  with claim_shard_correct [OF inv, where now = 0 and locked = "\<lambda>_. False" and w = "''v''"
    and caps = "[''web'']" and jid = None] show ?thesis
    by (fastforce split: prod.splits option.splits)
qed

theorem lease_refinement_witness:
  "fst (set_shard ''j'' 1 ''w'' Clean None 0 sample_db3)
   \<and> \<not> fst (set_shard ''j'' 1 ''v'' Clean None 0 sample_db3)
   \<and> snd (set_shard ''j'' 1 ''v'' Clean None 0 sample_db3) = sample_db3"
  using lease_refinement [OF sample_run, of "''j''" 1 0 "''w''" Clean None 0]
    lease_refinement [OF sample_run, of "''j''" 1 0 "''v''" Clean None 0]
  by (simp add: lease_def)

theorem no_double_claim_witness: "\<exists>ks. Requeued ks \<in> set [Requeued [(''j'', 1 :: int)]] \<and> (''j'', 1) \<in> set ks"
  by (rule no_double_claim [of "[Submitted ''j'']" _ "''v''" _ "''w''" sample_db3]) (simp add: sample_run)

theorem completed_job_frozen_witness:
  "\<not> job_incomplete ''j'' (finalize_job ''t1'' ''j'' 0 0 sample_db4)"
proof -
  have c: "\<not> job_incomplete ''j'' sample_db4" by code_simp
  have "qrun sample_db4 [Finalized ''j''] (finalize_job ''t1'' ''j'' 0 0 sample_db4)"
    by (rule q_cons [OF q_finalize q_nil])
  from completed_job_frozen [OF sample_run sample_report c this] show ?thesis by simp
qed

theorem snapshot_consistent_witness:
  "\<exists>sn. snapshot ''j'' sample_db4 = Some sn \<and> sn_done sn = sn_shards sn"
proof -
  have s: "snapshot ''j'' sample_db4 \<noteq> None" and c: "\<not> job_incomplete ''j'' sample_db4" by code_simp+
  then obtain sn where "snapshot ''j'' sample_db4 = Some sn" by blast
  with snapshot_consistent [OF this] c show ?thesis by blast
qed

end
