(* ===== verification/Scheduler.thy ===== *)
theory Scheduler
  imports Prelude "HOL-Library.Multiset"
begin

text \<open>
  The claim policy (\<open>src/jobs/scheduler.rs\<close>): tiers, service classes, the deployment's lane cap and
  the order in which a worker attempts candidates. A \<open>u32\<close> is a 32-bit word, an \<open>i64\<close> an integer with
  the wrap-around of the release build written out. Every double of the score is integer-valued, so
  it is an integer kept to 53 significant bits by \<open>fround\<close>, round half to even.
\<close>

section \<open>Integers and doubles\<close>

definition i64_max :: int where "i64_max = 2 ^ 63 - 1"
definition i64_min :: int where "i64_min = - (2 ^ 63)"

definition i64_wrap :: "int \<Rightarrow> int" where
  "i64_wrap x = (x + 2 ^ 63) mod 2 ^ 64 - 2 ^ 63"

definition i64_saturating_add :: "int \<Rightarrow> int \<Rightarrow> int" where
  "i64_saturating_add a b = max i64_min (min i64_max (a + b))"

definition u32_saturating_sub :: "32 word \<Rightarrow> 32 word \<Rightarrow> 32 word" where
  "u32_saturating_sub a b = (if a < b then 0 else a - b)"

function bit_len :: "int \<Rightarrow> nat" where
  "bit_len n = (if n \<le> 0 then 0 else Suc (bit_len (n div 2)))"
  by pat_completeness auto
termination
  by (relation "measure nat") auto

declare bit_len.simps [simp del]

text \<open>The double nearest to an integer.\<close>

definition fround :: "int \<Rightarrow> int" where
  "fround n =
     (let a = \<bar>n\<bar>; k = bit_len a - 53; q = a div 2 ^ k; r = a mod 2 ^ k;
          q' = (if 2 ^ k < 2 * r \<or> (2 ^ k = 2 * r \<and> odd q) then q + 1 else q)
      in sgn n * (q' * 2 ^ k))"

section \<open>Tiers, classes and configuration\<close>

datatype Tier = Elastic | Mac

definition tier :: "string \<Rightarrow> Tier" where
  "tier backend = (if backend = ''ios'' then Mac else Elastic)"

datatype Class = Interactive | Batch

definition INTERACTIVE_SHARD_MAX :: "32 word" where "INTERACTIVE_SHARD_MAX = 4"
definition INTERACTIVE_SLA_S :: int where "INTERACTIVE_SLA_S = 600"
definition BATCH_SLA_S :: int where "BATCH_SLA_S = 6 * 3600"
definition INTERACTIVE_BOOST :: int where "INTERACTIVE_BOOST = 3600"
definition FAIRNESS_PENALTY :: int where "FAIRNESS_PENALTY = 30"
definition DEFAULT_LANE_CAP :: "32 word" where "DEFAULT_LANE_CAP = 4"

lemmas sched_consts = INTERACTIVE_SHARD_MAX_def INTERACTIVE_SLA_S_def BATCH_SLA_S_def
  INTERACTIVE_BOOST_def FAIRNESS_PENALTY_def DEFAULT_LANE_CAP_def

record SchedulerConfig =
  rationed :: bool
  default_lane_cap :: "32 word"

definition hosted :: SchedulerConfig where
  "hosted = \<lparr>rationed = True, default_lane_cap = DEFAULT_LANE_CAP\<rparr>"

definition self_hosted :: SchedulerConfig where
  "self_hosted = \<lparr>rationed = False, default_lane_cap = - 1\<rparr>"

text \<open>\<open>env\<close> is the value of \<open>REPROIT_SCHED_LANE_CAP\<close>.\<close>

definition resolve :: "string option \<Rightarrow> bool \<Rightarrow> SchedulerConfig" where
  "resolve env self_host =
     (if self_host then self_hosted
      else case env of
             None \<Rightarrow> hosted
           | Some v \<Rightarrow> (case parse_unsigned 32 v of
               None \<Rightarrow> hosted
             | Some n \<Rightarrow> if 0 < n then hosted\<lparr>default_lane_cap := of_nat n\<rparr> else hosted))"

definition lane_cap :: "SchedulerConfig \<Rightarrow> 32 word" where
  "lane_cap cfg = (if rationed cfg then default_lane_cap cfg else - 1)"

definition class_for :: "string \<Rightarrow> 32 word \<Rightarrow> Class" where
  "class_for mode seeds =
     (if mode = ''reproduce'' \<or> seeds \<le> INTERACTIVE_SHARD_MAX then Interactive else Batch)"

fun sla :: "Class \<Rightarrow> int" where
  "sla Interactive = INTERACTIVE_SLA_S"
| "sla Batch = BATCH_SLA_S"

definition deadline_unix :: "int \<Rightarrow> Class \<Rightarrow> int" where
  "deadline_unix enqueue_unix cls = i64_saturating_add enqueue_unix (sla cls)"

definition fair_share :: "32 word \<Rightarrow> 32 word \<Rightarrow> 32 word" where
  "fair_share tier_running_total active_tenants =
     (if active_tenants = 0 then 0 else tier_running_total div active_tenants)"

section \<open>Candidates and their order\<close>

record Candidate =
  c_tenant :: string
  c_tier :: Tier
  c_class :: Class
  c_deadline_unix :: int
  c_tenant_running :: "32 word"
  c_tenant_fair_share :: "32 word"
  c_tenant_lane_cap :: "32 word"

definition may_claim :: "Candidate \<Rightarrow> bool" where
  "may_claim c \<longleftrightarrow> c_tier c \<noteq> Mac \<or> c_tenant_running c < c_tenant_lane_cap c"

fun boost :: "Class \<Rightarrow> int" where
  "boost Interactive = INTERACTIVE_BOOST"
| "boost Batch = 0"

definition claim_score :: "Candidate \<Rightarrow> int \<Rightarrow> int" where
  "claim_score c now_unix =
     (let slack = fround (i64_wrap (c_deadline_unix c - now_unix));
          over = fround (uint (u32_saturating_sub (c_tenant_running c) (c_tenant_fair_share c)))
      in fround (fround (slack - boost (c_class c)) + fround (FAIRNESS_PENALTY * over)))"

text \<open>The comparison key; no score is a NaN, so \<open>partial_cmp\<close> always decides.\<close>

definition claim_key :: "int \<Rightarrow> Candidate \<Rightarrow> int \<times> int \<times> string" where
  "claim_key now_unix c = (claim_score c now_unix, c_deadline_unix c, c_tenant c)"

definition claim_order :: "Candidate list \<Rightarrow> int \<Rightarrow> nat list" where
  "claim_order cands now_unix =
     sort_key (\<lambda>i. claim_key now_unix (cands ! i))
       (filter (\<lambda>i. may_claim (cands ! i)) [0..<length cands])"

section \<open>Lemmas\<close>

lemma bit_len_le: "n < 2 ^ m \<Longrightarrow> bit_len n \<le> m"
proof (induction m arbitrary: n)
  case 0
  then show ?case by (simp add: bit_len.simps)
next
  case (Suc m)
  then have "n div 2 < 2 ^ m" by auto
  with Suc.IH [of "n div 2"] show ?case by (subst bit_len.simps) simp
qed

text \<open>An integer of at most 53 bits is its own double.\<close>

lemma fround_exact: "\<bar>n\<bar> < 2 ^ 53 \<Longrightarrow> fround n = n"
proof -
  assume "\<bar>n\<bar> < 2 ^ 53"
  then have "bit_len \<bar>n\<bar> - 53 = 0" using bit_len_le [of "\<bar>n\<bar>" 53] by simp
  then show ?thesis by (simp add: fround_def Let_def sgn_if)
qed

lemma i64_wrap_id: "i64_min \<le> x \<Longrightarrow> x \<le> i64_max \<Longrightarrow> i64_wrap x = x"
  by (simp add: i64_wrap_def i64_min_def i64_max_def)

lemma i64_saturating_add_id: "i64_min \<le> a + b \<Longrightarrow> a + b \<le> i64_max \<Longrightarrow> i64_saturating_add a b = a + b"
  by (simp add: i64_saturating_add_def)

definition over_share :: "Candidate \<Rightarrow> int" where
  "over_share c = uint (u32_saturating_sub (c_tenant_running c) (c_tenant_fair_share c))"

lemma over_share_bounds: "0 \<le> over_share c" "over_share c < 2 ^ 32"
  using uint_lt2p [of "u32_saturating_sub (c_tenant_running c) (c_tenant_fair_share c)"]
  by (simp_all add: over_share_def)

lemma over_share_alt: "over_share c = max 0 (uint (c_tenant_running c) - uint (c_tenant_fair_share c))"
  by (auto simp: over_share_def u32_saturating_sub_def word_less_def uint_sub_if' max_def)

lemma score_exact:
  assumes "\<bar>c_deadline_unix c - now\<bar> \<le> 2 ^ 52"
  shows "claim_score c now = c_deadline_unix c - now - boost (c_class c) + 30 * over_share c"
proof -
  have b: "0 \<le> boost (c_class c)" "boost (c_class c) \<le> 3600"
    by (cases "c_class c"; simp add: sched_consts)+
  note o = over_share_bounds [of c]
  have w: "i64_wrap (c_deadline_unix c - now) = c_deadline_unix c - now"
    using assms by (intro i64_wrap_id) (simp_all add: i64_min_def i64_max_def)
  have "fround (c_deadline_unix c - now) = c_deadline_unix c - now"
    "fround (c_deadline_unix c - now - boost (c_class c)) = c_deadline_unix c - now - boost (c_class c)"
    "fround (over_share c) = over_share c" "fround (30 * over_share c) = 30 * over_share c"
    "fround (c_deadline_unix c - now - boost (c_class c) + 30 * over_share c)
       = c_deadline_unix c - now - boost (c_class c) + 30 * over_share c"
    using assms b o by (auto intro!: fround_exact)
  then show ?thesis
    by (simp add: claim_score_def w Let_def FAIRNESS_PENALTY_def flip: over_share_def)
qed

text \<open>A stable sort of an ascending list is the sort that breaks ties by the elements themselves.\<close>

lemma sort_key_ascending:
  fixes f :: "'a::linorder \<Rightarrow> 'b::linorder"
  assumes "sorted xs"
  shows "sort_key f xs = sort_key (\<lambda>x. (f x, x)) xs"
proof (rule properties_for_sort_key)
  let ?ys = "sort_key (\<lambda>x. (f x, x)) xs"
  have sorted_ys: "sorted (map (\<lambda>x. (f x, x)) ?ys)" by (rule sorted_sort_key)
  then show "sorted (map f ?ys)"
    by (auto simp: sorted_map elim!: sorted_wrt_mono_rel [rotated])
  show "filter (\<lambda>x. f k = f x) ?ys = filter (\<lambda>x. f k = f x) xs" for k
  proof -
    have "sorted (filter (\<lambda>x. f k = f x) xs)" using assms by (rule sorted_filter [of "\<lambda>x. x", simplified])
    then have "sorted_wrt (\<lambda>x y. (f x, x) \<le> (f y, y)) (filter (\<lambda>x. f k = f x) xs)"
      by (auto intro: sorted_wrt_mono_rel [rotated])
    then have "sort_key (\<lambda>x. (f x, x)) (filter (\<lambda>x. f k = f x) xs) = filter (\<lambda>x. f k = f x) xs"
      by (intro sort_key_id_if_sorted) (simp add: sorted_map)
    then show ?thesis by (simp add: filter_sort)
  qed
qed simp

lemma set_claim_order: "set (claim_order cands now) = {i. i < length cands \<and> may_claim (cands ! i)}"
  by (auto simp: claim_order_def)

lemma distinct_claim_order: "distinct (claim_order cands now)"
  by (simp add: claim_order_def distinct_sort)

lemma sorted_claim_order: "sorted (map (\<lambda>i. (claim_key now (cands ! i), i)) (claim_order cands now))"
proof -
  let ?xs = "filter (\<lambda>i. may_claim (cands ! i)) [0..<length cands]"
  have "sorted ?xs" by (rule sorted_filter [of "\<lambda>x. x", simplified]) simp
  then have "claim_order cands now = sort_key (\<lambda>i. (claim_key now (cands ! i), i)) ?xs"
    unfolding claim_order_def by (rule sort_key_ascending)
  then show ?thesis by simp
qed

text \<open>The smaller key stands earlier.\<close>

lemma sorted_precedes:
  fixes f :: "'a \<Rightarrow> 'b::linorder"
  assumes "sorted (map f xs)" "x \<in> set xs" "y \<in> set xs" "f x < f y"
  shows "\<exists>us vs ws. xs = us @ x # vs @ y # ws"
proof -
  obtain us zs where xs: "xs = us @ x # zs" using split_list [OF assms(2)] by blast
  have "y \<notin> set us" using assms(1,4) by (auto simp: xs sorted_append)
  with assms(3,4) have "y \<in> set zs" by (auto simp: xs)
  with xs show ?thesis using split_list [of y zs] by fastforce
qed

lemma claim_order_precedes:
  assumes "i < length cands" "j < length cands" "may_claim (cands ! i)" "may_claim (cands ! j)"
    "claim_score (cands ! i) now < claim_score (cands ! j) now"
  shows "\<exists>us vs ws. claim_order cands now = us @ i # vs @ j # ws"
  using assms
  by (intro sorted_precedes [OF sorted_claim_order]) (auto simp: set_claim_order claim_key_def)

section \<open>Properties\<close>

text \<open>The claim order lists every admissible candidate exactly once and no other (in particular no
  Mac candidate of a tenant at or over its lane cap), by ascending score, ties by deadline, then
  tenant name, then input position.\<close>

theorem claim_order_correct:
  "distinct (claim_order cands now)
   \<and> set (claim_order cands now) = {i. i < length cands \<and> may_claim (cands ! i)}
   \<and> sorted (map (\<lambda>i. (claim_score (cands ! i) now, c_deadline_unix (cands ! i), c_tenant (cands ! i), i))
       (claim_order cands now))"
proof -
  have "sorted (map (\<lambda>i. (claim_score (cands ! i) now, c_deadline_unix (cands ! i), c_tenant (cands ! i), i))
       (claim_order cands now))"
    using sorted_claim_order [of now cands]
    by (auto simp: sorted_map claim_key_def elim!: sorted_wrt_mono_rel [rotated])
  then show ?thesis by (simp add: distinct_claim_order set_claim_order)
qed

text \<open>For deadlines within \<open>2 ^ 52\<close> seconds of now the double arithmetic of the score is exact: it
  is the slack, less the boost of its class, plus thirty seconds for every shard the tenant runs
  above its fair share.\<close>

theorem claim_score_exact:
  assumes "\<bar>c_deadline_unix c - now\<bar> \<le> 2 ^ 52"
  shows "claim_score c now = c_deadline_unix c - now - (if c_class c = Interactive then 3600 else 0)
    + 30 * max 0 (uint (c_tenant_running c) - uint (c_tenant_fair_share c))"
  using score_exact [OF assms] by (cases "c_class c") (simp_all add: over_share_alt sched_consts)

text \<open>No starvation by age: an admissible candidate whose tenant is within its fair share stands
  in the claim order before every candidate enqueued more than 24600 seconds after it, whatever the
  two classes and loads; and an interactive one stands before every batch candidate enqueued less
  than 24600 seconds before it.\<close>

theorem aged_work_first:
  assumes "i < length cands" "j < length cands" "may_claim (cands ! i)" "may_claim (cands ! j)"
    and "c_deadline_unix (cands ! i) = deadline_unix e (c_class (cands ! i))"
    and "c_deadline_unix (cands ! j) = deadline_unix e' (c_class (cands ! j))"
    and "c_tenant_running (cands ! i) \<le> c_tenant_fair_share (cands ! i)"
    and "\<bar>e\<bar> \<le> 2 ^ 50" "\<bar>e'\<bar> \<le> 2 ^ 50" "\<bar>now\<bar> \<le> 2 ^ 50"
    and "e + 24600 < e' \<or> (c_class (cands ! i) = Interactive \<and> c_class (cands ! j) = Batch \<and> e < e' + 24600)"
  shows "\<exists>us vs ws. claim_order cands now = us @ i # vs @ j # ws"
proof (rule claim_order_precedes [OF assms(1-4)])
  have sla: "600 \<le> sla c" "sla c \<le> 21600" for c by (cases c; simp add: sched_consts)+
  have dl: "deadline_unix t c = t + sla c" if "\<bar>t\<bar> \<le> 2 ^ 50" for t c
    using that sla [of c] unfolding deadline_unix_def
    by (intro i64_saturating_add_id) (auto simp: i64_min_def i64_max_def)
  have near: "\<bar>t + sla c - now\<bar> \<le> 2 ^ 52" if "\<bar>t\<bar> \<le> 2 ^ 50" for t c
    using that assms(10) sla [of c] by auto
  have "over_share (cands ! i) = 0"
    using assms(7) by (simp add: over_share_alt word_le_def)
  then have "claim_score (cands ! i) now = e + sla (c_class (cands ! i)) - now - boost (c_class (cands ! i))"
    using assms(5) dl [OF assms(8)] near [OF assms(8)] score_exact [of "cands ! i" now] by simp
  moreover have "claim_score (cands ! j) now
      = e' + sla (c_class (cands ! j)) - now - boost (c_class (cands ! j)) + 30 * over_share (cands ! j)"
    using assms(6) dl [OF assms(9)] near [OF assms(9)] score_exact [of "cands ! j" now] by simp
  moreover note over_share_bounds(1) [of "cands ! j"]
  ultimately show "claim_score (cands ! i) now < claim_score (cands ! j) now"
    using assms(11)
    by (cases "c_class (cands ! i)"; cases "c_class (cands ! j)") (auto simp: sched_consts)
qed

section \<open>Witnesses\<close>

definition sample_candidate :: "Class \<Rightarrow> int \<Rightarrow> Candidate" where
  "sample_candidate cls e = \<lparr>c_tenant = ''1'', c_tier = Elastic, c_class = cls,
     c_deadline_unix = deadline_unix e cls, c_tenant_running = 0, c_tenant_fair_share = 0,
     c_tenant_lane_cap = 4\<rparr>"

theorem claim_score_exact_witness: "claim_score (sample_candidate Interactive 0) 100 = - 3100"
proof -
  have d: "c_deadline_unix (sample_candidate Interactive 0) = 600"
    by (simp add: sample_candidate_def deadline_unix_def i64_saturating_add_def i64_min_def i64_max_def sched_consts)
  then have "\<bar>c_deadline_unix (sample_candidate Interactive 0) - 100\<bar> \<le> 2 ^ 52" by simp
  from claim_score_exact [OF this] show ?thesis by (simp add: d) (simp add: sample_candidate_def)
qed

theorem aged_work_first_witness:
  "\<exists>us vs ws. claim_order [sample_candidate Interactive 30000, sample_candidate Batch 0] 40000
     = us @ 1 # vs @ 0 # ws"
  by (rule aged_work_first [where e = 0 and e' = 30000])
    (simp_all add: sample_candidate_def may_claim_def)

end
