(* ===== verification/Worker.thy ===== *)
theory Worker
  imports Shard_Queue Scheduler
begin

text \<open>
  The worker protocol over the queues of all tenants: claim, heartbeat and result
  (\<open>src/jobs/worker.rs\<close>), job submission, status and the requeue sweep (\<open>src/lib.rs\<close>,
  \<open>src/operations.rs\<close>), and the routing hint of the control plane
  (\<open>src/db/control/tenant_registry.rs\<close>). A \<open>world\<close> carries what a call observes from outside: the
  clock, the lane-cap variable, the RFC 3339 parser of the time library, which statements fail and
  which rows other transactions hold locked. A failed statement changes nothing.
\<close>

section \<open>State\<close>

datatype store_call =
    TenantsWithPending | ResolveTenant int | PendingJobs int | PendingShardCount int
  | ClearTenantPending int | RunningByBackend int | ClaimShard int string | TouchShard int
  | SetShardRunning int | SetShard int | JobIncomplete int | FinalizeJob int | InsertJob int
  | MarkTenantPending int | RequeueStranded int | Snapshot int

record world =
  now_us :: int
  now_rfc :: string
  lane_env :: "string option"
  parse_rfc3339 :: "string \<Rightarrow> int option"
  fails :: "store_call \<Rightarrow> bool"
  locked_rows :: "int \<Rightarrow> string \<times> int \<Rightarrow> bool"

datatype audit_entry =
    AuditClaim string int string "32 word"
  | AuditResult string int string "32 word" string
  | AuditRequeue int nat

record app =
  pending_hint :: "int list"
  tenants :: "int \<rightharpoonup> tenant_db"
  audit_log :: "audit_entry list"
  app_self_hosted :: bool
  allow_raw_jobs :: bool

definition timestamp :: "world \<Rightarrow> int" where
  "timestamp w = now_us w div 1000000"

definition audit :: "audit_entry \<Rightarrow> app \<Rightarrow> app" where
  "audit e a = a\<lparr>audit_log := audit_log a @ [e]\<rparr>"

definition put_tenant :: "int \<Rightarrow> tenant_db \<Rightarrow> app \<Rightarrow> app" where
  "put_tenant org_id db a = a\<lparr>tenants := (tenants a)(org_id \<mapsto> db)\<rparr>"

section \<open>The routing hint\<close>

definition mark_tenant_pending :: "int \<Rightarrow> app \<Rightarrow> app" where
  "mark_tenant_pending org_id a =
     (if org_id \<in> set (pending_hint a) then a else a\<lparr>pending_hint := pending_hint a @ [org_id]\<rparr>)"

definition clear_tenant_pending :: "int \<Rightarrow> app \<Rightarrow> app" where
  "clear_tenant_pending org_id a = a\<lparr>pending_hint := delete_where (\<lambda>o'. o' = org_id) (pending_hint a)\<rparr>"

definition tenants_with_pending :: "app \<Rightarrow> int list" where
  "tenants_with_pending a = sort (pending_hint a)"

definition tenant_store :: "world \<Rightarrow> app \<Rightarrow> int \<Rightarrow> tenant_db option" where
  "tenant_store w a org_id = (if fails w (ResolveTenant org_id) then None else tenants a org_id)"

section \<open>Shard ids\<close>

text \<open>\<open>chars()\<close> over UTF-8 bytes: every byte that is not a continuation byte starts a character.\<close>

definition sanitize_char :: "char \<Rightarrow> char" where
  "sanitize_char c =
     (if is_ascii_alphanumeric c \<or> c \<in> {CHR ''-'', CHR ''_'', CHR ''.''} then c else CHR ''_'')"

definition sanitize_worker_id :: "string \<Rightarrow> string \<Rightarrow> string" where
  "sanitize_worker_id uuid i =
     (let clean = take 96 (map sanitize_char (filter (\<lambda>c. \<not> (128 \<le> byte c \<and> byte c < 192)) i))
      in if clean = [] then ''w-'' @ uuid else clean)"

definition format_shard_id :: "int \<Rightarrow> string \<Rightarrow> 32 word \<Rightarrow> string \<Rightarrow> string" where
  "format_shard_id org_id job_id seed claimed_by =
     show_int org_id @ '':'' @ job_id @ '':'' @ show_nat (unat seed) @ '':'' @ claimed_by"

definition parse_shard_id :: "string \<Rightarrow> (int \<times> string \<times> 32 word \<times> string) option" where
  "parse_shard_id i =
     Option.bind (split_once CHR '':'' i) (\<lambda>(org, rest).
     Option.bind (parse_i64 org) (\<lambda>org_id.
     Option.bind (rsplit_once CHR '':'' rest) (\<lambda>(rest, worker_id).
     if worker_id = [] then None else
     Option.bind (rsplit_once CHR '':'' rest) (\<lambda>(job, seed).
     if job = [] then None else
     Option.bind (parse_unsigned 32 seed) (\<lambda>seed.
     Some (org_id, job, of_nat seed, worker_id))))))"

section \<open>Claiming across tenants\<close>

definition add_tier :: "Tier \<Rightarrow> 32 word \<Rightarrow> 32 word \<times> 32 word \<Rightarrow> 32 word \<times> 32 word" where
  "add_tier t n r = (case t of Elastic \<Rightarrow> (fst r + n, snd r) | Mac \<Rightarrow> (fst r, snd r + n))"

definition tier_of :: "Tier \<Rightarrow> 32 word \<times> 32 word \<Rightarrow> 32 word" where
  "tier_of t r = (case t of Elastic \<Rightarrow> fst r | Mac \<Rightarrow> snd r)"

record gathered =
  g_cands :: "Candidate list"
  g_targets :: "(int \<times> string) list"
  g_running_total :: "32 word \<times> 32 word"
  g_tenants_active :: "32 word"

definition tenant_load :: "world \<Rightarrow> int \<Rightarrow> tenant_db \<Rightarrow> 32 word \<times> 32 word" where
  "tenant_load w org_id db =
     (if fails w (RunningByBackend org_id) then (0, 0)
      else foldl (\<lambda>r (backend, n). add_tier (tier backend) (of_nat n) r) (0, 0) (running_by_backend db))"

definition job_candidate :: "world \<Rightarrow> SchedulerConfig \<Rightarrow> int \<Rightarrow> 32 word \<times> 32 word \<Rightarrow> PendingJob \<Rightarrow> Candidate" where
  "job_candidate w cfg org_id running job =
     (let t = tier (pj_backend job); cls = class_for ''fuzz'' (pj_seeds job);
          enqueue = (case parse_rfc3339 w (pj_started_at job) of Some e \<Rightarrow> e | None \<Rightarrow> timestamp w)
      in \<lparr>c_tenant = show_int org_id, c_tier = t, c_class = cls,
          c_deadline_unix = deadline_unix enqueue cls, c_tenant_running = tier_of t running,
          c_tenant_fair_share = 0, c_tenant_lane_cap = lane_cap cfg\<rparr>)"

definition gather_tenant ::
    "world \<Rightarrow> SchedulerConfig \<Rightarrow> string list \<Rightarrow> int \<Rightarrow> app \<times> gathered \<Rightarrow> app \<times> gathered" where
  "gather_tenant w cfg caps org_id s =
     (case s of (a, g) \<Rightarrow>
      (case tenant_store w a org_id of
         None \<Rightarrow> (a, g)
       | Some db \<Rightarrow>
           if fails w (PendingJobs org_id) then (a, g)
           else if pending_jobs caps db = [] then
             (if \<not> fails w (PendingShardCount org_id) \<and> pending_shard_count db = 0
                 \<and> \<not> fails w (ClearTenantPending org_id)
              then (clear_tenant_pending org_id a, g) else (a, g))
           else
             (let running = tenant_load w org_id db;
                  jobs = pending_jobs caps db
              in (a, g\<lparr>g_cands := g_cands g @ map (job_candidate w cfg org_id running) jobs,
                       g_targets := g_targets g @ map (\<lambda>j. (org_id, pj_job_id j)) jobs,
                       g_running_total := (fst (g_running_total g) + fst running,
                                           snd (g_running_total g) + snd running),
                       g_tenants_active := g_tenants_active g + 1\<rparr>))))"

definition gather_candidates ::
    "world \<Rightarrow> string list \<Rightarrow> app \<Rightarrow> (Candidate list \<times> (int \<times> string) list) option \<times> app" where
  "gather_candidates w caps a =
     (if fails w TenantsWithPending then (None, a)
      else
        (let cfg = resolve (lane_env w) (app_self_hosted a);
             (a', g) = fold (gather_tenant w cfg caps) (tenants_with_pending a)
               (a, \<lparr>g_cands = [], g_targets = [], g_running_total = (0, 0), g_tenants_active = 0\<rparr>)
         in (Some (map (\<lambda>c. c\<lparr>c_tenant_fair_share :=
                            fair_share (tier_of (c_tier c) (g_running_total g)) (g_tenants_active g)\<rparr>)
                     (g_cands g), g_targets g), a')))"

fun claim_first :: "nat list \<Rightarrow> (nat \<Rightarrow> 's \<Rightarrow> 't option \<times> 's) \<Rightarrow> 's \<Rightarrow> 't option \<times> 's" where
  "claim_first [] try_claim s = (None, s)"
| "claim_first (i # order) try_claim s =
     (case try_claim i s of
        (Some c, s') \<Rightarrow> (Some c, s')
      | (None, s') \<Rightarrow> claim_first order try_claim s')"

definition try_target :: "world \<Rightarrow> string \<Rightarrow> string list \<Rightarrow> (int \<times> string) list \<Rightarrow> nat \<Rightarrow> app
    \<Rightarrow> (int \<times> ClaimedShard) option \<times> app" where
  "try_target w worker_id caps targets i a =
     (case targets ! i of (org_id, job_id) \<Rightarrow>
      (case tenants a org_id of
         None \<Rightarrow> (None, a)
       | Some db \<Rightarrow>
           if fails w (ClaimShard org_id job_id) then (None, a)
           else (case claim_shard (now_us w) (locked_rows w org_id) worker_id caps (Some job_id) db of
                   (r, db') \<Rightarrow> (map_option (\<lambda>s. (org_id, s)) r, put_tenant org_id db' a))))"

text \<open>The closing hook \<open>on_shard_claimed\<close> of the self-hosted edition (\<open>src/edition.rs\<close>) does nothing.\<close>

definition claim_across_tenants ::
    "world \<Rightarrow> string \<Rightarrow> string list \<Rightarrow> app \<Rightarrow> (int \<times> ClaimedShard) option \<times> app" where
  "claim_across_tenants w worker_id caps a =
     (case gather_candidates w caps a of
        (None, a') \<Rightarrow> (None, a')
      | (Some (cands, targets), a') \<Rightarrow>
          claim_first (claim_order cands (timestamp w)) (try_target w worker_id caps targets) a')"

section \<open>Handlers\<close>

datatype StatusCode = OK | ACCEPTED | NO_CONTENT | BAD_REQUEST | NOT_FOUND | GONE | INTERNAL_SERVER_ERROR

record claim_body =
  cb_id :: string
  cb_appDir :: string
  cb_seed :: "32 word"
  cb_budget :: "32 word"
  cb_backend :: string

definition claim :: "world \<Rightarrow> string \<Rightarrow> string list \<Rightarrow> string option \<Rightarrow> app \<Rightarrow> claim_body option \<times> app" where
  "claim w uuid capabilities worker a =
     (let caps = (if capabilities = [] then [''web''] else capabilities);
          worker_id = sanitize_worker_id uuid (case worker of Some i \<Rightarrow> i | None \<Rightarrow> ''w-'' @ uuid)
      in case claim_across_tenants w worker_id caps a of
           (None, a') \<Rightarrow> (None, a')
         | (Some (org_id, s), a') \<Rightarrow>
             (Some \<lparr>cb_id = format_shard_id org_id (cs_job_id s) (cs_seed s) (cs_claimed_by s),
                    cb_appDir = cs_app_dir s, cb_seed = cs_seed s, cb_budget = cs_budget s,
                    cb_backend = cs_backend s\<rparr>,
              audit (AuditClaim worker_id org_id (cs_job_id s) (cs_seed s)) a'))"

definition heartbeat :: "world \<Rightarrow> string \<Rightarrow> app \<Rightarrow> StatusCode \<times> app" where
  "heartbeat w i a =
     (case parse_shard_id i of
        None \<Rightarrow> (BAD_REQUEST, a)
      | Some (org_id, job_id, seed, worker_id) \<Rightarrow>
          (case tenant_store w a org_id of
             None \<Rightarrow> (GONE, a)
           | Some db \<Rightarrow>
               if fails w (TouchShard org_id) then (INTERNAL_SERVER_ERROR, a)
               else (case touch_shard (now_us w) job_id seed worker_id db of
                       (True, db') \<Rightarrow> (OK, put_tenant org_id db' a)
                     | (False, db') \<Rightarrow> (GONE, put_tenant org_id db' a))))"

definition map_status :: "string \<Rightarrow> ShardState option" where
  "map_status status =
     (if status = ''clean'' then Some Clean
      else if status = ''finding'' then Some SFinding
      else if status = ''timeout'' then Some SError
      else if status = ''error'' then Some SError
      else None)"

definition maybe_finalize :: "world \<Rightarrow> int \<Rightarrow> string \<Rightarrow> tenant_db \<Rightarrow> tenant_db" where
  "maybe_finalize w org_id job_id db =
     (if fails w (JobIncomplete org_id) \<or> job_incomplete job_id db \<or> fails w (FinalizeJob org_id) then db
      else finalize_job (now_rfc w) job_id 0 0 db)"

record ResultReq =
  rr_status :: string
  rr_report :: "string option"
  rr_duration_s :: "f64_bits option"

definition result_handler :: "world \<Rightarrow> string \<Rightarrow> ResultReq \<Rightarrow> app \<Rightarrow> StatusCode \<times> app" where
  "result_handler w i res a =
     (case parse_shard_id i of
        None \<Rightarrow> (BAD_REQUEST, a)
      | Some (org_id, job_id, seed, worker_id) \<Rightarrow>
     (case map_status (rr_status res) of
        None \<Rightarrow> (BAD_REQUEST, a)
      | Some state \<Rightarrow>
     (case tenant_store w a org_id of
        None \<Rightarrow> (GONE, a)
      | Some db \<Rightarrow>
          if fails w (SetShard org_id) then (INTERNAL_SERVER_ERROR, a)
          else (case set_shard job_id seed worker_id state (rr_report res)
                       (case rr_duration_s res of Some d \<Rightarrow> d | None \<Rightarrow> 0) db of
                  (False, db') \<Rightarrow> (GONE, put_tenant org_id db' a)
                | (True, db') \<Rightarrow>
                    (OK, put_tenant org_id (maybe_finalize w org_id job_id db')
                           (audit (AuditResult worker_id org_id job_id seed (rr_status res)) a))))))"

section \<open>The embedded worker\<close>

text \<open>What the child process and the file system did.\<close>

datatype shard_outcome =
    AppDirRefused string
  | IsolateFailed string
  | SpawnFailed string
  | TimedOut
  | Exited string "string option"

definition run_shard :: "shard_outcome \<Rightarrow> ShardState \<times> string option" where
  "run_shard oc =
     (case oc of
        AppDirRefused msg \<Rightarrow> (SError, Some msg)
      | IsolateFailed e \<Rightarrow> (SError, Some (''isolate: '' @ e))
      | SpawnFailed e \<Rightarrow> (SError, Some e)
      | TimedOut \<Rightarrow> (SError, Some ''timeout after 300s'')
      | Exited out report \<Rightarrow>
          (if sublist ''FINDING'' out \<or> report \<noteq> None then SFinding else Clean, report))"

text \<open>\<open>beats\<close> lists the instants of the heartbeats between the two writes.\<close>

fun heartbeats :: "string \<Rightarrow> 32 word \<Rightarrow> string \<Rightarrow> int list \<Rightarrow> tenant_db \<Rightarrow> tenant_db" where
  "heartbeats job_id seed claimed_by [] db = db"
| "heartbeats job_id seed claimed_by (t # ts) db =
     (case touch_shard t job_id seed claimed_by db of
        (False, db') \<Rightarrow> db'
      | (True, db') \<Rightarrow> heartbeats job_id seed claimed_by ts db')"

definition run_embedded_shard ::
    "world \<Rightarrow> int \<Rightarrow> ClaimedShard \<Rightarrow> int list \<Rightarrow> shard_outcome \<Rightarrow> f64_bits \<Rightarrow> app \<Rightarrow> app" where
  "run_embedded_shard w org_id s beats oc elapsed a =
     (case tenant_store w a org_id of
        None \<Rightarrow> a
      | Some db \<Rightarrow>
          (let db1 = (if fails w (SetShardRunning org_id) then db
                      else snd (set_shard (cs_job_id s) (cs_seed s) (cs_claimed_by s) Running None 0 db));
               db2 = heartbeats (cs_job_id s) (cs_seed s) (cs_claimed_by s) beats db1;
               (state, report) = run_shard oc
           in if fails w (SetShard org_id) then put_tenant org_id db2 a
              else (case set_shard (cs_job_id s) (cs_seed s) (cs_claimed_by s) state report elapsed db2 of
                      (False, db3) \<Rightarrow> put_tenant org_id db3 a
                    | (True, db3) \<Rightarrow>
                        put_tenant org_id (maybe_finalize w org_id (cs_job_id s) db3) a)))"

section \<open>Submission, status and the requeue sweep\<close>

definition submit_job :: "world \<Rightarrow> (string \<Rightarrow> path option) \<Rightarrow> (path \<Rightarrow> bool) \<Rightarrow> string \<Rightarrow> string
    \<Rightarrow> (StatusCode, int) result \<Rightarrow> JobSpec \<Rightarrow> app \<Rightarrow> (StatusCode \<times> (string \<times> nat) option) \<times> app" where
  "submit_job w canonicalize is_dir root uuid tenant spec a =
     (if \<not> allow_raw_jobs a then ((NOT_FOUND, None), a)
      else if spec_validate spec \<noteq> Ok () then ((BAD_REQUEST, None), a)
      else (case validate_app_dir canonicalize is_dir root (js_app_dir spec) of
              Inl _ \<Rightarrow> ((BAD_REQUEST, None), a)
            | Inr _ \<Rightarrow>
     (case tenant of
        Inl s \<Rightarrow> ((s, None), a)
      | Inr org_id \<Rightarrow>
     (let job = job_new uuid (now_rfc w) spec in
      case (if fails w (InsertJob org_id) then None else Option.bind (tenants a org_id) (insert_job job)) of
        None \<Rightarrow> ((INTERNAL_SERVER_ERROR, None), a)
      | Some db' \<Rightarrow>
          (let a' = put_tenant org_id db' a
           in ((ACCEPTED, Some (j_id job, length (j_shards job))),
               if fails w (MarkTenantPending org_id) then a' else mark_tenant_pending org_id a'))))))"

definition get_job :: "world \<Rightarrow> (StatusCode, int) result \<Rightarrow> string \<Rightarrow> app \<Rightarrow> StatusCode \<times> job_snapshot option" where
  "get_job w tenant i a =
     (case tenant of
        Inl s \<Rightarrow> (s, None)
      | Inr org_id \<Rightarrow>
          if fails w (Snapshot org_id) then (INTERNAL_SERVER_ERROR, None)
          else (case Option.bind (tenants a org_id) (snapshot i) of
                  Some v \<Rightarrow> (OK, Some v)
                | None \<Rightarrow> (NOT_FOUND, None)))"

text \<open>One tenant's turn of the minutely sweep.\<close>

definition requeue_tenant :: "world \<Rightarrow> int \<Rightarrow> app \<Rightarrow> app" where
  "requeue_tenant w org_id a =
     (case tenant_store w a org_id of
        None \<Rightarrow> a
      | Some db \<Rightarrow>
          if fails w (RequeueStranded org_id) then a
          else (case requeue_stranded (now_us w) 120 db of
                  (n, db') \<Rightarrow>
                    (let a' = put_tenant org_id db' a
                     in if 1 \<le> n \<and> \<not> fails w (MarkTenantPending org_id) then mark_tenant_pending org_id a'
                        else a')))"

text \<open>The operator's command; an error stops it and is reported.\<close>

definition run_requeue :: "world \<Rightarrow> int \<Rightarrow> app \<Rightarrow> (store_call, nat) result \<times> app" where
  "run_requeue w org_id a =
     (case tenant_store w a org_id of
        None \<Rightarrow> (Err (ResolveTenant org_id), a)
      | Some db \<Rightarrow>
          if fails w (RequeueStranded org_id) then (Err (RequeueStranded org_id), a)
          else (case requeue_stranded (now_us w) 120 db of
                  (n, db') \<Rightarrow>
                    (let a' = put_tenant org_id db' a
                     in if 1 \<le> n \<and> fails w (MarkTenantPending org_id)
                        then (Err (MarkTenantPending org_id), a')
                        else (Ok n, audit (AuditRequeue org_id n)
                               (if 1 \<le> n then mark_tenant_pending org_id a' else a')))))"

section \<open>Lemmas on shard ids\<close>

lemma sanitize_char_not_colon: "sanitize_char c \<noteq> CHR '':''"
  by (auto simp: sanitize_char_def ascii_simps byte_def)

lemma sanitize_no_colon: "CHR '':'' \<notin> set uuid \<Longrightarrow> CHR '':'' \<notin> set (sanitize_worker_id uuid i)"
proof -
  have "CHR '':'' \<notin> sanitize_char ` A" for A
    by (metis imageE sanitize_char_not_colon)
  then have "CHR '':'' \<notin> set (take 96 (map sanitize_char xs))" for xs
    by (metis set_map set_take_subset subsetD)
  moreover assume "CHR '':'' \<notin> set uuid"
  ultimately show ?thesis by (simp add: sanitize_worker_id_def Let_def)
qed

lemma sanitize_nonempty: "sanitize_worker_id uuid i \<noteq> []"
  by (simp add: sanitize_worker_id_def Let_def)

lemma show_int_no_colon: "CHR '':'' \<notin> set (show_int n)"
proof -
  have "CHR '':'' \<notin> set (show_nat k)" for k
    using show_nat_digits [of k] by (auto simp: list_all_iff ascii_simps byte_def)
  then show ?thesis by (simp add: show_int_def)
qed

lemma parse_format_shard_id:
  assumes "- (2 ^ 63) \<le> org" "org < 2 ^ 63" "job \<noteq> []" "worker \<noteq> []" "CHR '':'' \<notin> set worker"
  shows "parse_shard_id (format_shard_id org job seed worker) = Some (org, job, seed, worker)"
proof -
  have no: "CHR '':'' \<notin> set (show_nat (unat seed))"
    using show_int_no_colon [of "int (unat seed)"] by (simp add: show_int_def)
  have "parse_unsigned 32 (show_nat (unat seed)) = Some (unat seed)"
    using unat_u32_bound [of seed] by simp
  then show ?thesis
    using assms no
      split_once_append [of "CHR '':''" "show_int org" "job @ '':'' @ show_nat (unat seed) @ '':'' @ worker"]
      rsplit_once_append [of "CHR '':''" worker "job @ '':'' @ show_nat (unat seed)"]
      rsplit_once_append [of "CHR '':''" "show_nat (unat seed)" job]
    by (simp add: parse_shard_id_def format_shard_id_def show_int_no_colon)
qed

section \<open>Invariants of the application\<close>

definition app_inv :: "app \<Rightarrow> bool" where
  "app_inv a \<longleftrightarrow>
     (\<forall>org db. tenants a org = Some db \<longrightarrow>
        - (2 ^ 63) \<le> org \<and> org < 2 ^ 63 \<and> queue_inv db \<and> (\<forall>j \<in> set (jobs db). jb_id j \<noteq> []))"

text \<open>The routing hint never under-includes.\<close>

definition hint_inv :: "app \<Rightarrow> bool" where
  "hint_inv a \<longleftrightarrow>
     (\<forall>org db. tenants a org = Some db \<longrightarrow> 0 < pending_shard_count db \<longrightarrow> org \<in> set (pending_hint a))"

lemma app_invD:
  assumes "app_inv a" "tenants a org = Some db"
  shows "queue_inv db" "- (2 ^ 63) \<le> org" "org < 2 ^ 63" "\<And>j. j \<in> set (jobs db) \<Longrightarrow> jb_id j \<noteq> []"
  using assms by (auto simp: app_inv_def)

lemma tenants_put [simp]: "tenants (put_tenant org db a) = (tenants a)(org \<mapsto> db)"
  by (simp add: put_tenant_def)

lemma hint_put [simp]: "pending_hint (put_tenant org db a) = pending_hint a"
  by (simp add: put_tenant_def)

lemma put_same: "tenants a org = Some db \<Longrightarrow> put_tenant org db a = a"
  by (simp add: put_tenant_def map_upd_triv)

lemma audit_simps [simp]: "tenants (audit e a) = tenants a" "pending_hint (audit e a) = pending_hint a"
  by (simp_all add: audit_def)

lemma mark_simps [simp]: "tenants (mark_tenant_pending org a) = tenants a"
  "set (pending_hint (mark_tenant_pending org a)) = insert org (set (pending_hint a))"
  by (auto simp: mark_tenant_pending_def)

lemma clear_simps [simp]: "tenants (clear_tenant_pending org a) = tenants a"
  "set (pending_hint (clear_tenant_pending org a)) = set (pending_hint a) - {org}"
  "app_self_hosted (clear_tenant_pending org a) = app_self_hosted a"
  by (auto simp: clear_tenant_pending_def delete_where_def)

lemma app_inv_tenants: "tenants a' = tenants a \<Longrightarrow> app_inv a' = app_inv a"
  by (simp add: app_inv_def)

section \<open>Lemmas on the claim path\<close>

lemma pending_jobs_sound:
  assumes "pj \<in> set (pending_jobs caps db)"
  shows "\<exists>s \<in> set (shards db). sh_state s = Pending \<and> sh_backend s \<in> set caps
    \<and> sh_job_id s = pj_job_id pj \<and> sh_backend s = pj_backend pj"
  using assms by (fastforce simp: pending_jobs_def Let_def dest!: in_set_takeD)

lemma pending_jobs_Nil:
  assumes "queue_inv db"
  shows "pending_jobs caps db = [] \<longleftrightarrow>
    (\<forall>s \<in> set (shards db). sh_state s = Pending \<longrightarrow> sh_backend s \<notin> set caps)"
proof
  assume empty: "pending_jobs caps db = []"
  show "\<forall>s \<in> set (shards db). sh_state s = Pending \<longrightarrow> sh_backend s \<notin> set caps"
  proof (intro ballI impI notI)
    fix s assume s: "s \<in> set (shards db)" "sh_state s = Pending" "sh_backend s \<in> set caps"
    obtain j where j: "j \<in> set (jobs db)" "jb_id j = sh_job_id s" using find_job [OF assms s(1)] by blast
    let ?p = "remdups (map (\<lambda>s. (sh_job_id s, sh_backend s))
                (filter (\<lambda>s. sh_state s = Pending \<and> sh_backend s \<in> set caps) (shards db)))"
    have p: "(sh_job_id s, sh_backend s) \<in> set ?p" using s by auto
    have "filter (\<lambda>j. jb_id j = sh_job_id s) (jobs db) \<noteq> []" using j by (auto simp: filter_empty_conv)
    with empty p show False
      by (force simp: pending_jobs_def Let_def)
  qed
next
  assume "\<forall>s \<in> set (shards db). sh_state s = Pending \<longrightarrow> sh_backend s \<notin> set caps"
  then show "pending_jobs caps db = []"
    using pending_jobs_sound [of "hd (pending_jobs caps db)" caps db] by (cases "pending_jobs caps db") auto
qed

text \<open>Attempts in the order of the policy: a failed attempt keeps the state's property.\<close>

locale attempts =
  fixes try_claim :: "nat \<Rightarrow> 's \<Rightarrow> 't option \<times> 's" and I :: "'s \<Rightarrow> bool"
  assumes keep: "I s \<Longrightarrow> try_claim i s = (None, s') \<Longrightarrow> I s'"
begin

lemma first_None: "I s \<Longrightarrow> claim_first order try_claim s = (None, s') \<Longrightarrow> I s'"
  by (induction order arbitrary: s) (auto split: prod.splits option.splits dest: keep)

lemma first_Some:
  "I s \<Longrightarrow> claim_first order try_claim s = (Some c, s') \<Longrightarrow>
     \<exists>i \<in> set order. \<exists>t. I t \<and> try_claim i t = (Some c, s')"
proof (induction order arbitrary: s)
  case (Cons i order)
  show ?case
  proof (cases "try_claim i s")
    case (Pair r t)
    show ?thesis
    proof (cases r)
      case None
      with Cons.prems Pair have "I t" "claim_first order try_claim t = (Some c, s')"
        by (auto dest: keep)
      with Cons.IH show ?thesis by auto
    next
      case (Some d)
      with Cons.prems Pair show ?thesis by auto
    qed
  qed
qed simp

end

lemma try_target_None:
  assumes "app_inv a" "try_target w worker caps targets i a = (None, a')"
  shows "a' = a"
proof (cases "targets ! i")
  case (Pair org job)
  show ?thesis
  proof (cases "tenants a org")
    case None
    with assms(2) Pair show ?thesis by (simp add: try_target_def)
  next
    case (Some db)
    show ?thesis
    proof (cases "fails w (ClaimShard org job)")
      case False
      obtain r db' where c: "claim_shard (now_us w) (locked_rows w org) worker caps (Some job) db = (r, db')"
        by fastforce
      with assms(2) Pair Some False have r: "r = None" "a' = put_tenant org db' a"
        by (auto simp: try_target_def)
      then have "db' = db" using c claim_shard_None [OF app_invD(1) [OF assms(1) Some]] by blast
      with r put_same [OF Some] show ?thesis by simp
    qed (use assms(2) Pair Some in \<open>simp add: try_target_def\<close>)
  qed
qed

interpretation claims: attempts "try_target w worker caps targets" "\<lambda>s. app_inv s \<and> s = a"
  for w worker caps targets a
  by unfold_locales (metis try_target_None)

lemma try_target_Some:
  assumes "app_inv a" "try_target w worker caps targets i a = (Some (org, c), a')"
  obtains db db' where "tenants a org = Some db" "targets ! i = (org, cs_job_id c)"
    "claim_shard (now_us w) (locked_rows w org) worker caps (Some (cs_job_id c)) db = (Some c, db')"
    "a' = put_tenant org db' a"
proof -
  obtain org' job where t: "targets ! i = (org', job)" by fastforce
  with assms(2) obtain db where db: "tenants a org' = Some db" "\<not> fails w (ClaimShard org' job)"
    by (auto simp: try_target_def split: option.splits if_splits)
  obtain r db' where c: "claim_shard (now_us w) (locked_rows w org') worker caps (Some job) db = (r, db')"
    by fastforce
  with assms(2) t db have r: "r = Some c" "org' = org" "a' = put_tenant org db' a"
    by (auto simp: try_target_def)
  have "cs_job_id c = job"
    by (rule claim_shard_Some [OF app_invD(1) [OF assms(1) db(1)] c [unfolded r(1)]]) (simp add: claimable_def)
  with t db c r that show thesis by simp
qed

text \<open>What a gathered pair of candidate and target stands for.\<close>

definition gathered_from :: "world \<Rightarrow> string list \<Rightarrow> app \<Rightarrow> Candidate \<Rightarrow> int \<times> string \<Rightarrow> bool" where
  "gathered_from w caps a c t \<longleftrightarrow>
     fst t \<in> set (pending_hint a)
     \<and> (\<exists>db. tenants a (fst t) = Some db
          \<and> (\<exists>pj \<in> set (pending_jobs caps db).
               snd t = pj_job_id pj \<and> c_tier c = tier (pj_backend pj)
             \<and> c_class c = class_for ''fuzz'' (pj_seeds pj)
             \<and> c_tenant_running c = tier_of (c_tier c) (tenant_load w (fst t) db)))"

definition gather_ok :: "world \<Rightarrow> string list \<Rightarrow> app \<Rightarrow> app \<times> gathered \<Rightarrow> bool" where
  "gather_ok w caps a s \<longleftrightarrow>
     tenants (fst s) = tenants a \<and> app_self_hosted (fst s) = app_self_hosted a
     \<and> set (pending_hint (fst s)) \<subseteq> set (pending_hint a)
     \<and> (\<forall>org \<in> set (pending_hint a) - set (pending_hint (fst s)).
          \<exists>db. tenants a org = Some db \<and> pending_shard_count db = 0)
     \<and> list_all2 (gathered_from w caps a) (g_cands (snd s)) (g_targets (snd s))"

lemma gathered_from_map:
  assumes "org \<in> set (pending_hint a)" "tenants a org = Some db" "set js \<subseteq> set (pending_jobs caps db)"
  shows "list_all2 (gathered_from w caps a)
    (map (job_candidate w cfg org (tenant_load w org db)) js) (map (\<lambda>j. (org, pj_job_id j)) js)"
  using assms(3) assms(1,2)
  by (induction js) (auto simp: gathered_from_def job_candidate_def Let_def)

lemma gather_tenant_ok:
  assumes "org \<in> set (pending_hint a)" "gather_ok w caps a s"
  shows "gather_ok w caps a (gather_tenant w cfg caps org s)"
proof -
  obtain b g where s: "s = (b, g)" by fastforce
  have tn: "tenants b = tenants a" using assms(2) s by (simp add: gather_ok_def)
  show ?thesis
  proof (cases "tenant_store w b org")
    case None
    with assms(2) s show ?thesis by (simp add: gather_tenant_def)
  next
    case (Some db)
    then have db: "tenants a org = Some db" using tn by (auto simp: tenant_store_def split: if_splits)
    consider "fails w (PendingJobs org)" | "\<not> fails w (PendingJobs org)" "pending_jobs caps db = []"
      | "\<not> fails w (PendingJobs org)" "pending_jobs caps db \<noteq> []" by blast
    then show ?thesis
    proof cases
      case 3
      with assms(2) s Some gathered_from_map [OF assms(1) db order_refl, of w caps cfg] show ?thesis
        by (simp add: gather_tenant_def gather_ok_def Let_def list_all2_appendI)
    qed (use assms(2) s Some db in \<open>auto simp: gather_tenant_def gather_ok_def\<close>)
  qed
qed

lemma gather_candidates_ok:
  assumes "gather_candidates w caps a = (r, a')"
  shows "tenants a' = tenants a" "app_self_hosted a' = app_self_hosted a"
    "set (pending_hint a') \<subseteq> set (pending_hint a)"
    "\<forall>org \<in> set (pending_hint a) - set (pending_hint a').
          \<exists>db. tenants a org = Some db \<and> pending_shard_count db = 0"
    "\<And>cands targets. r = Some (cands, targets) \<Longrightarrow> list_all2 (gathered_from w caps a) cands targets"
proof -
  let ?cfg = "resolve (lane_env w) (app_self_hosted a)"
  let ?g0 = "(a, \<lparr>g_cands = [], g_targets = [], g_running_total = (0, 0), g_tenants_active = 0\<rparr>)"
  let ?s = "fold (gather_tenant w ?cfg caps) (tenants_with_pending a) ?g0"
  have ok: "gather_ok w caps a ?s"
  proof (rule fold_invariant [where Q = "\<lambda>org. org \<in> set (pending_hint a)"])
    show "gather_ok w caps a ?g0" by (simp add: gather_ok_def)
  qed (auto simp: tenants_with_pending_def intro: gather_tenant_ok)
  have upd: "gathered_from w caps a (c\<lparr>c_tenant_fair_share := n\<rparr>) t = gathered_from w caps a c t" for c n t
    by (simp add: gathered_from_def)
  show "tenants a' = tenants a" "app_self_hosted a' = app_self_hosted a"
    "set (pending_hint a') \<subseteq> set (pending_hint a)"
    "\<forall>org \<in> set (pending_hint a) - set (pending_hint a').
          \<exists>db. tenants a org = Some db \<and> pending_shard_count db = 0"
    "\<And>cands targets. r = Some (cands, targets) \<Longrightarrow> list_all2 (gathered_from w caps a) cands targets"
    using assms ok
    by (auto simp: gather_candidates_def gather_ok_def Let_def upd list_all2_map1 split: prod.splits if_splits)
qed

lemma no_fault_try_target:
  assumes inv: "app_inv a" and nf: "\<not> fails w (ClaimShard org job)" and nl: "\<And>k. \<not> locked_rows w org k"
    and t: "targets ! i = (org, job)" and db: "tenants a org = Some db" and pj: "pj \<in> set (pending_jobs caps db)"
    and job: "job = pj_job_id pj"
  shows "fst (try_target w worker caps targets i a) \<noteq> None"
proof
  assume none: "fst (try_target w worker caps targets i a) = None"
  obtain r db' where c: "claim_shard (now_us w) (locked_rows w org) worker caps (Some job) db = (r, db')"
    by fastforce
  with none t db nf have "r = None" by (simp add: try_target_def)
  with c claim_shard_None [OF app_invD(1) [OF inv db]]
  have none: "\<forall>s \<in> set (shards db). \<not> claimable (locked_rows w org) caps (Some job) s" by blast
  obtain s where "s \<in> set (shards db)" "sh_state s = Pending" "sh_backend s \<in> set caps" "sh_job_id s = job"
    using pending_jobs_sound [OF pj] job by blast
  with none nl show False by (auto simp: claimable_def)
qed

lemma claim_first_hd:
  "fst (try_claim i s) \<noteq> None \<Longrightarrow> claim_first (i # order) try_claim s = try_claim i s"
  by (auto split: prod.splits option.splits)

text \<open>With no failure and no locked row, the first candidate of the order is the one claimed.\<close>

lemma claim_takes_first:
  assumes inv: "app_inv a" and nf: "\<And>c. \<not> fails w c" and nl: "\<And>org k. \<not> locked_rows w org k"
    and g: "gather_candidates w caps a = (Some (cands, targets), a1)"
    and o: "claim_order cands (timestamp w) = i # order"
  shows "\<exists>c a2. claim_across_tenants w worker caps a = (Some (fst (targets ! i), c), a2)
    \<and> cs_job_id c = snd (targets ! i)"
proof -
  note ok = gather_candidates_ok [OF g]
  have inv1: "app_inv a1" using inv ok(1) by (simp add: app_inv_def)
  have la: "list_all2 (gathered_from w caps a) cands targets" using ok(5) by simp
  have "i < length cands" using o set_claim_order [of cands "timestamp w"] by auto
  then have gf: "gathered_from w caps a (cands ! i) (targets ! i)" by (rule list_all2_nthD [OF la])
  obtain org job where t: "targets ! i = (org, job)" by fastforce
  from gf t obtain db pj where "tenants a1 org = Some db" "pj \<in> set (pending_jobs caps db)" "job = pj_job_id pj"
    using ok(1) by (auto simp: gathered_from_def)
  then have ne: "fst (try_target w worker caps targets i a1) \<noteq> None"
    using no_fault_try_target [OF inv1 nf nl t] by blast
  then obtain org' c a2 where tr: "try_target w worker caps targets i a1 = (Some (org', c), a2)"
    by (cases "try_target w worker caps targets i a1") auto
  have "org' = org" "cs_job_id c = job"
    using try_target_Some [OF inv1 tr] t by auto
  with tr g o t claim_first_hd [of "try_target w worker caps targets" i a1 order, OF ne] show ?thesis
    by (simp add: claim_across_tenants_def)
qed

lemma claim_across_Some:
  assumes inv: "app_inv a" and c: "claim_across_tenants w worker caps a = (Some (org, c), a')"
  obtains a1 db db' where "tenants a1 = tenants a" "set (pending_hint a1) \<subseteq> set (pending_hint a)"
    "\<forall>org \<in> set (pending_hint a) - set (pending_hint a1).
          \<exists>db. tenants a org = Some db \<and> pending_shard_count db = 0"
    "org \<in> set (pending_hint a)" "tenants a org = Some db" "a' = put_tenant org db' a1"
    "claim_shard (now_us w) (locked_rows w org) worker caps (Some (cs_job_id c)) db = (Some c, db')"
proof -
  obtain r a1 where g: "gather_candidates w caps a = (r, a1)" by fastforce
  with c obtain cands targets where r: "r = Some (cands, targets)"
    by (cases r) (auto simp: claim_across_tenants_def)
  note ok = gather_candidates_ok [OF g]
  have inv1: "app_inv a1" using inv ok(1) by (simp add: app_inv_def)
  from c g r have "claim_first (claim_order cands (timestamp w)) (try_target w worker caps targets) a1
      = (Some (org, c), a')" by (simp add: claim_across_tenants_def)
  from claims.first_Some [OF _ this] inv1 obtain i where i: "i \<in> set (claim_order cands (timestamp w))"
    "try_target w worker caps targets i a1 = (Some (org, c), a')" by blast
  then have "gathered_from w caps a (cands ! i) (targets ! i)"
    using ok(5) [OF r] by (auto simp: set_claim_order intro: list_all2_nthD)
  moreover from try_target_Some [OF inv1 i(2)] obtain db db' where
    "tenants a1 org = Some db" "targets ! i = (org, cs_job_id c)"
    "claim_shard (now_us w) (locked_rows w org) worker caps (Some (cs_job_id c)) db = (Some c, db')"
    "a' = put_tenant org db' a1" by metis
  ultimately show thesis using that [of a1 db db'] ok(1-4) by (simp add: gathered_from_def)
qed

lemma claim_across_None:
  assumes inv: "app_inv a" and c: "claim_across_tenants w worker caps a = (None, a')"
  shows "tenants a' = tenants a" "\<forall>org \<in> set (pending_hint a) - set (pending_hint a').
          \<exists>db. tenants a org = Some db \<and> pending_shard_count db = 0"
proof -
  obtain r a1 where g: "gather_candidates w caps a = (r, a1)" by fastforce
  note ok = gather_candidates_ok [OF g]
  have inv1: "app_inv a1" using inv ok(1) by (simp add: app_inv_def)
  have "a' = a1"
  proof (cases r)
    case None
    with c g show ?thesis by (simp add: claim_across_tenants_def)
  next
    case (Some ct)
    obtain cands targets where "ct = (cands, targets)" by fastforce
    with Some c g have "claim_first (claim_order cands (timestamp w)) (try_target w worker caps targets) a1
      = (None, a')" by (simp add: claim_across_tenants_def)
    from claims.first_None [OF _ this] inv1 show ?thesis by blast
  qed
  with ok show "tenants a' = tenants a" "\<forall>org \<in> set (pending_hint a) - set (pending_hint a').
          \<exists>db. tenants a org = Some db \<and> pending_shard_count db = 0" by auto
qed

section \<open>Atomic handlers keep the invariants\<close>

lemma pending_pos: "0 < pending_shard_count db \<longleftrightarrow> (\<exists>s \<in> set (shards db). sh_state s = Pending)"
proof -
  have "pending_shard_count db = 0 \<longleftrightarrow> (\<forall>s \<in> set (shards db). sh_state s \<noteq> Pending)"
    by (simp add: pending_shard_count_def affected_0)
  then show ?thesis by (cases "pending_shard_count db = 0") auto
qed

lemma pending_update:
  assumes "\<And>r. r \<in> set (shards db) \<Longrightarrow> P r \<Longrightarrow> sh_state (f r) \<noteq> Pending"
    "0 < pending_shard_count (db\<lparr>shards := update_where P f (shards db)\<rparr>)"
  shows "0 < pending_shard_count db"
  using assms by (fastforce simp: pending_pos set_update_where)

lemma claim_pending: "claim_shard now locked w caps jid db = (r, db') \<Longrightarrow> 0 < pending_shard_count db' \<Longrightarrow>
    0 < pending_shard_count db"
  by (erule claim_shard_cases) (auto simp: claim_row_def elim!: pending_update [rotated])

lemma touch_pending: "0 < pending_shard_count (snd (touch_shard now j seed w db)) \<Longrightarrow> 0 < pending_shard_count db"
  by (auto simp: touch_shard_def held_by_def touch_row_def elim!: pending_update [rotated])

lemma set_pending: "reportable st rep \<Longrightarrow> 0 < pending_shard_count (snd (set_shard j seed w st rep d db)) \<Longrightarrow>
    0 < pending_shard_count db"
  by (auto simp: set_shard_def set_row_def reportable_def elim!: pending_update [rotated])

lemma finalize_pending: "pending_shard_count (finalize_job now j st tr db) = pending_shard_count db"
  by (simp add: pending_shard_count_def finalize_job_def)

lemma maybe_finalize_pending [simp]: "pending_shard_count (maybe_finalize w org j db) = pending_shard_count db"
  by (simp add: maybe_finalize_def finalize_pending)

lemma requeue_zero: "requeue_stranded now stale db = (0, db') \<Longrightarrow> db' = db"
  by (auto simp: requeue_stranded_def affected_0 update_where_none)

lemma map_status_terminal: "map_status s = Some st \<Longrightarrow> terminal st"
  by (auto simp: map_status_def split: if_splits)

lemma run_shard_terminal: "run_shard oc = (st, rep) \<Longrightarrow> terminal st"
  by (auto simp: run_shard_def split: shard_outcome.splits if_splits)

text \<open>The conditions on a tenant's store that every queue operation keeps.\<close>

definition store_ok :: "tenant_db \<Rightarrow> bool" where
  "store_ok db \<longleftrightarrow> queue_inv db \<and> (\<forall>j \<in> set (jobs db). jb_id j \<noteq> [])"

definition settles :: "tenant_db \<Rightarrow> tenant_db \<Rightarrow> bool" where
  "settles db db' \<longleftrightarrow> (store_ok db \<longrightarrow> store_ok db') \<and> (0 < pending_shard_count db' \<longrightarrow> 0 < pending_shard_count db)"

lemma settles_refl [simp]: "settles db db"
  by (simp add: settles_def)

lemma settles_trans: "settles a b \<Longrightarrow> settles b c \<Longrightarrow> settles a c"
  by (auto simp: settles_def)

lemma settlesI:
  assumes "queue_inv db \<Longrightarrow> queue_inv db'" "jobs db' = jobs db"
    "0 < pending_shard_count db' \<Longrightarrow> 0 < pending_shard_count db"
  shows "settles db db'"
  using assms by (simp add: settles_def store_ok_def)

lemma jobs_claim: "claim_shard now locked w caps jid db = (r, db') \<Longrightarrow> jobs db' = jobs db"
  by (erule claim_shard_cases) simp_all

lemma settles_claim: "claim_shard now locked w caps jid db = (r, db') \<Longrightarrow> settles db db'"
  by (rule settlesI [OF claim_shard_inv jobs_claim claim_pending])

lemma settles_touch: "settles db (snd (touch_shard now j seed w db))"
  by (rule settlesI [OF touch_shard_inv _ touch_pending]) (simp_all add: touch_shard_def)

lemma settles_set: "reportable st rep \<Longrightarrow> settles db (snd (set_shard j seed w st rep d db))"
  by (rule settlesI [OF set_shard_inv _ set_pending]) (simp_all add: set_shard_def)

lemma settles_finalize: "settles db (maybe_finalize w org j db)"
proof -
  have "j' \<in> set (jobs (finalize_job now j 0 0 db)) \<Longrightarrow> jb_id j' \<in> jb_id ` set (jobs db)" for j' now
    using finish_u.key_set_update [of "\<lambda>r. jb_id r = j" now 0 0 "jobs db"]
    by (auto simp: finalize_job_def)
  then show ?thesis
    by (fastforce simp: settles_def store_ok_def maybe_finalize_def finalize_pending intro: finalize_job_inv)
qed

lemma settles_heartbeats: "settles db (heartbeats j seed c ts db)"
proof (induction ts arbitrary: db)
  case (Cons t ts)
  obtain ok db' where t: "touch_shard t j seed c db = (ok, db')" by fastforce
  then have "settles db db'" using settles_touch [of db t j seed c] by simp
  with t Cons [of db'] show ?case by (cases ok) (auto intro: settles_trans)
qed simp

lemma app_inv_store: "app_inv a \<longleftrightarrow>
    (\<forall>org db. tenants a org = Some db \<longrightarrow> - (2 ^ 63) \<le> org \<and> org < 2 ^ 63 \<and> store_ok db)"
  by (auto simp: app_inv_def store_ok_def)

definition good :: "app \<Rightarrow> bool" where
  "good a \<longleftrightarrow> app_inv a \<and> hint_inv a"

lemma good_put_settles:
  assumes "good a" "tenants a org = Some db" "settles db db'"
  shows "good (put_tenant org db' a)"
  using assms by (auto simp: good_def app_inv_store hint_inv_def settles_def)

lemma good_put_mark:
  assumes "good a" "tenants a org = Some db" "store_ok db'"
  shows "good (mark_tenant_pending org (put_tenant org db' a))"
  using assms by (auto simp: good_def app_inv_store hint_inv_def)

lemma good_audit [simp]: "good (audit e a) = good a"
  by (simp add: good_def app_inv_def hint_inv_def)

lemma good_hint:
  assumes "good a" "tenants a' = tenants a"
    "\<forall>org \<in> set (pending_hint a) - set (pending_hint a').
          \<exists>db. tenants a org = Some db \<and> pending_shard_count db = 0"
  shows "good a'"
  using assms by (fastforce simp: good_def app_inv_def hint_inv_def)

lemma good_claim_across:
  assumes "good a" "claim_across_tenants w worker caps a = (r, a')"
  shows "good a'"
proof (cases r)
  case None
  with assms claim_across_None [of a w worker caps a'] show ?thesis
    by (intro good_hint [OF assms(1)]) (auto simp: good_def)
next
  case (Some oc)
  obtain org c where "oc = (org, c)" by fastforce
  with Some assms have inv: "app_inv a" "claim_across_tenants w worker caps a = (Some (org, c), a')"
    by (simp_all add: good_def)
  from claim_across_Some [OF inv] obtain a1 db db' where
    t: "tenants a1 = tenants a" "\<forall>org \<in> set (pending_hint a) - set (pending_hint a1).
          \<exists>db. tenants a org = Some db \<and> pending_shard_count db = 0"
    and db: "tenants a org = Some db" "a' = put_tenant org db' a1"
      "claim_shard (now_us w) (locked_rows w org) worker caps (Some (cs_job_id c)) db = (Some c, db')"
    by metis
  from good_hint [OF assms(1) t] db t(1) settles_claim [OF db(3)] show ?thesis
    by (simp add: good_put_settles)
qed

lemma tenant_store_Some: "tenant_store w a org = Some db \<Longrightarrow> tenants a org = Some db"
  by (auto simp: tenant_store_def split: if_splits)

text \<open>
  Whole handlers, one at a time, with any statement failing but the mark of the hint: the state the
  fleet reaches from an application without tenants.
\<close>

inductive app_step :: "app \<Rightarrow> app \<Rightarrow> bool" where
  s_provision: "tenants a org = None \<Longrightarrow> - (2 ^ 63) \<le> org \<Longrightarrow> org < 2 ^ 63 \<Longrightarrow>
     app_step a (put_tenant org empty_db a)"
| s_submit: "\<not> fails w (MarkTenantPending org) \<Longrightarrow> uuid \<noteq> [] \<Longrightarrow>
     submit_job w canon is_dir root uuid (Inr org) spec a = (r, a') \<Longrightarrow> app_step a a'"
| s_claim: "claim w uuid caps worker a = (r, a') \<Longrightarrow> app_step a a'"
| s_heartbeat: "heartbeat w i a = (c, a') \<Longrightarrow> app_step a a'"
| s_result: "result_handler w i res a = (c, a') \<Longrightarrow> app_step a a'"
| s_embedded: "app_step a (run_embedded_shard w org s beats oc elapsed a)"
| s_requeue: "\<not> fails w (MarkTenantPending org) \<Longrightarrow> app_step a (requeue_tenant w org a)"
| s_ops: "\<not> fails w (MarkTenantPending org) \<Longrightarrow> run_requeue w org a = (r, a') \<Longrightarrow> app_step a a'"

definition no_tenants :: "bool \<Rightarrow> bool \<Rightarrow> app" where
  "no_tenants self_host raw = \<lparr>pending_hint = [], tenants = Map.empty, audit_log = [],
     app_self_hosted = self_host, allow_raw_jobs = raw\<rparr>"

lemma good_submit:
  assumes "good a" "\<not> fails w (MarkTenantPending org)" "uuid \<noteq> []"
    "submit_job w canon is_dir root uuid (Inr org) spec a = (r, a')"
  shows "good a'"
proof (cases "a' = a")
  case False
  let ?job = "job_new uuid (now_rfc w) spec"
  obtain db db' where db: "tenants a org = Some db" "insert_job ?job db = Some db'"
    "a' = mark_tenant_pending org (put_tenant org db' a)"
    using assms(2,4) False
    by (auto simp: submit_job_def Let_def bind_eq_Some_conv split: if_splits sum.splits option.splits)
  then have "store_ok db" using assms(1) by (auto simp: good_def app_inv_store)
  moreover have "jobs db' = jobs db @ [job_to_row ?job]" "jb_id (job_to_row ?job) = uuid"
    using db(2) by (auto simp: insert_job_def job_to_row_def job_new_def split: if_splits)
  ultimately have "store_ok db'" using insert_job_inv [OF _ db(2)] assms(3) by (auto simp: store_ok_def)
  with assms(1) db show ?thesis by (simp add: good_put_mark)
qed (use assms(1) in simp)

lemma good_heartbeat:
  assumes "good a" "heartbeat w i a = (c, a')"
  shows "good a'"
proof (cases "a' = a")
  case False
  then obtain org job seed worker db ok db' where db: "tenant_store w a org = Some db"
    "touch_shard (now_us w) job seed worker db = (ok, db')" "a' = put_tenant org db' a"
    using assms(2) by (auto simp: heartbeat_def split: option.splits if_splits prod.splits bool.splits)
  with assms(1) settles_touch [of db "now_us w" job seed worker] show ?thesis
    by (auto intro: good_put_settles dest: tenant_store_Some)
qed (use assms(1) in simp)

lemma result_handler_cases:
  assumes "result_handler w i res a = (c, a')"
  obtains (refused) "a' = a" "c \<noteq> OK"
  | (stored) org job seed worker st d db ok db' where
      "parse_shard_id i = Some (org, job, seed, worker)" "map_status (rr_status res) = Some st"
      "tenant_store w a org = Some db" "set_shard job seed worker st (rr_report res) d db = (ok, db')"
      "c = (if ok then OK else GONE)"
      "a' = (if ok then put_tenant org (maybe_finalize w org job db')
                 (audit (AuditResult worker org job seed (rr_status res)) a) else put_tenant org db' a)"
proof -
  consider (1) "parse_shard_id i = None \<or> map_status (rr_status res) = None"
    | (2) org job seed worker st where "parse_shard_id i = Some (org, job, seed, worker)"
        "map_status (rr_status res) = Some st"
    by (cases "parse_shard_id i"; cases "map_status (rr_status res)") auto
  then show thesis
  proof cases
    case 1
    with assms refused show ?thesis
      by (auto simp: result_handler_def split: option.splits)
  next
    case 2
    show ?thesis
    proof (cases "tenant_store w a org = None \<or> fails w (SetShard org)")
      case True
      with 2 assms refused show ?thesis by (auto simp: result_handler_def split: option.splits)
    next
      case False
      then obtain db where db: "tenant_store w a org = Some db" "\<not> fails w (SetShard org)" by auto
      let ?d = "case rr_duration_s res of Some d \<Rightarrow> d | None \<Rightarrow> 0"
      obtain ok db' where s: "set_shard job seed worker st (rr_report res) ?d db = (ok, db')" by fastforce
      from assms have "c = (if ok then OK else GONE)"
        "a' = (if ok then put_tenant org (maybe_finalize w org job db')
                 (audit (AuditResult worker org job seed (rr_status res)) a) else put_tenant org db' a)"
        by (cases ok; simp add: result_handler_def 2 db s)+
      then show ?thesis by (rule stored [OF 2 db(1) s])
    qed
  qed
qed

lemma good_result:
  assumes "good a" "result_handler w i res a = (c, a')"
  shows "good a'"
  using assms(2)
proof (cases rule: result_handler_cases)
  case (stored org job seed worker st d db ok db')
  have s: "settles db db'"
    using settles_set [of st "rr_report res" db job seed worker d] map_status_terminal [OF stored(2)] stored(4)
    by (simp add: reportable_def)
  note fin = settles_trans [OF s settles_finalize [of db' w org job]]
  from s fin stored(6) assms(1) tenant_store_Some [OF stored(3)] show ?thesis
    by (auto intro: good_put_settles)
qed (use assms(1) in simp)

lemma good_embedded:
  assumes "good a"
  shows "good (run_embedded_shard w org s beats oc elapsed a)"
proof (cases "tenant_store w a org")
  case None
  with assms show ?thesis by (simp add: run_embedded_shard_def)
next
  case (Some db)
  let ?j = "cs_job_id s" and ?n = "cs_seed s" and ?c = "cs_claimed_by s"
  let ?db1 = "if fails w (SetShardRunning org) then db else snd (set_shard ?j ?n ?c Running None 0 db)"
  let ?db2 = "heartbeats ?j ?n ?c beats ?db1"
  obtain st rep where r: "run_shard oc = (st, rep)" by fastforce
  obtain ok db3 where s3: "set_shard ?j ?n ?c st rep elapsed ?db2 = (ok, db3)" by fastforce
  have "settles db ?db1" using settles_set [of Running None] by (simp add: reportable_def)
  then have 2: "settles db ?db2" using settles_heartbeats settles_trans by blast
  moreover have "settles ?db2 db3"
    using settles_set [of st rep ?db2 ?j ?n ?c elapsed] run_shard_terminal [OF r] s3 by (simp add: reportable_def)
  ultimately have 3: "settles db db3" by (rule settles_trans)
  have 4: "settles db (maybe_finalize w org ?j db3)" by (rule settles_trans [OF 3 settles_finalize])
  have "run_embedded_shard w org s beats oc elapsed a = put_tenant org ?db2 a
      \<or> run_embedded_shard w org s beats oc elapsed a = put_tenant org db3 a
      \<or> run_embedded_shard w org s beats oc elapsed a = put_tenant org (maybe_finalize w org ?j db3) a"
    using Some r s3 by (cases ok) (simp_all add: run_embedded_shard_def Let_def)
  with 2 3 4 good_put_settles [OF assms tenant_store_Some [OF Some]] show ?thesis by metis
qed

lemma store_ok_requeue: "store_ok db \<Longrightarrow> requeue_stranded now stale db = (n, db') \<Longrightarrow> store_ok db'"
  using requeue_stranded_inv [of db now stale] by (auto simp: store_ok_def requeue_stranded_def)

lemma good_store: "good a \<Longrightarrow> tenants a org = Some db \<Longrightarrow> store_ok db"
  by (auto simp: good_def app_inv_store)

lemma good_requeue_step:
  assumes "good a" "tenants a org = Some db" "requeue_stranded now stale db = (n, db')"
  shows "good (if 1 \<le> n then mark_tenant_pending org (put_tenant org db' a) else put_tenant org db' a)"
proof (cases "1 \<le> n")
  case True
  with good_put_mark [OF assms(1,2)] store_ok_requeue [OF good_store [OF assms(1,2)] assms(3)] show ?thesis by simp
next
  case False
  then have "n = 0" by simp
  with requeue_zero [of now stale db db'] assms put_same [OF assms(2)] show ?thesis by simp
qed

lemma good_requeue:
  assumes "good a" "\<not> fails w (MarkTenantPending org)"
  shows "good (requeue_tenant w org a)"
proof (cases "tenant_store w a org")
  case None
  with assms(1) show ?thesis by (simp add: requeue_tenant_def)
next
  case (Some db)
  obtain n db' where r: "requeue_stranded (now_us w) 120 db = (n, db')" by fastforce
  from good_requeue_step [OF assms(1) tenant_store_Some [OF Some] r] Some r assms show ?thesis
    by (simp add: requeue_tenant_def Let_def)
qed

lemma good_ops:
  assumes "good a" "\<not> fails w (MarkTenantPending org)" "run_requeue w org a = (x, a')"
  shows "good a'"
proof (cases "tenant_store w a org")
  case None
  with assms(1,3) show ?thesis by (simp add: run_requeue_def)
next
  case (Some db)
  obtain n db' where r: "requeue_stranded (now_us w) 120 db = (n, db')" by fastforce
  from good_requeue_step [OF assms(1) tenant_store_Some [OF Some] r] Some r assms show ?thesis
    by (auto simp: run_requeue_def Let_def split: if_splits)
qed

lemma good_step: "app_step a a' \<Longrightarrow> good a \<Longrightarrow> good a'"
proof (induction rule: app_step.induct)
  case (s_provision a org)
  then show ?case
    by (auto simp: good_def app_inv_store hint_inv_def store_ok_def empty_db_inv)
      (auto simp: empty_db_def pending_shard_count_def affected_def)
next
  case (s_claim w uuid caps worker a r a')
  then show ?case
    by (auto simp: claim_def Let_def split: prod.splits option.splits if_splits dest: good_claim_across)
qed (auto intro: good_submit good_heartbeat good_result good_embedded good_requeue good_ops)

lemma good_no_tenants: "good (no_tenants sh raw)"
  by (simp add: good_def no_tenants_def app_inv_def hint_inv_def)

lemma good_reachable: "app_step\<^sup>*\<^sup>* (no_tenants sh raw) a \<Longrightarrow> good a"
  by (induction rule: rtranclp_induct) (auto intro: good_no_tenants good_step)

lemma gather_tenant_mono:
  "g_cands (snd s) \<noteq> [] \<Longrightarrow> g_cands (snd (gather_tenant w cfg caps org s)) \<noteq> []"
  "tenants (fst (gather_tenant w cfg caps org s)) = tenants (fst s)"
  by (auto simp: gather_tenant_def Let_def split: prod.splits option.splits)

lemma gather_fold_nonempty:
  assumes "\<And>c. \<not> fails w c" "org \<in> set orgs" "tenants (fst s) org = Some db" "pending_jobs caps db \<noteq> []"
  shows "g_cands (snd (fold (gather_tenant w cfg caps) orgs s)) \<noteq> []"
  using assms(2,3)
proof (induction orgs arbitrary: s)
  case (Cons o' orgs)
  have keep: "g_cands (snd s) \<noteq> [] \<Longrightarrow> g_cands (snd (fold (gather_tenant w cfg caps) orgs s)) \<noteq> []" for s
    by (rule fold_invariant [where Q = "\<lambda>_. True" and P = "\<lambda>s. g_cands (snd s) \<noteq> []"])
      (simp_all add: gather_tenant_mono(1) del: split_paired_All)
  show ?case
  proof (cases "o' = org")
    case True
    with Cons.prems assms(1,4) have "g_cands (snd (gather_tenant w cfg caps o' s)) \<noteq> []"
      by (auto simp: gather_tenant_def tenant_store_def Let_def split: prod.splits)
    with keep show ?thesis by simp
  next
    case False
    with Cons show ?thesis by (simp add: gather_tenant_mono(2))
  qed
qed simp

lemma gather_nonempty:
  assumes "\<And>c. \<not> fails w c" "org \<in> set (pending_hint a)" "tenants a org = Some db" "pending_jobs caps db \<noteq> []"
    "gather_candidates w caps a = (Some (cands, targets), a1)"
  shows "cands \<noteq> []"
proof -
  let ?s = "fold (gather_tenant w (resolve (lane_env w) (app_self_hosted a)) caps) (tenants_with_pending a)
               (a, \<lparr>g_cands = [], g_targets = [], g_running_total = (0, 0), g_tenants_active = 0\<rparr>)"
  have "g_cands (snd ?s) \<noteq> []"
    using assms(2) by (intro gather_fold_nonempty [OF assms(1) _ _ assms(4)])
      (auto simp: tenants_with_pending_def assms(3))
  with assms(1,5) show ?thesis by (auto simp: gather_candidates_def Let_def split: prod.splits)
qed

lemma no_fault_gather: "(\<And>c. \<not> fails w c) \<Longrightarrow> \<exists>cands targets a1. gather_candidates w caps a = (Some (cands, targets), a1)"
  by (auto simp: gather_candidates_def Let_def split: prod.splits)

lemma elastic_may_claim:
  assumes "gathered_from w caps a c t" "''ios'' \<notin> set caps"
  shows "may_claim c"
proof -
  obtain db pj where pj: "pj \<in> set (pending_jobs caps db)" "c_tier c = tier (pj_backend pj)"
    using assms(1) by (auto simp: gathered_from_def)
  then have "pj_backend pj \<noteq> ''ios''" using pending_jobs_sound [OF pj(1)] assms(2) by auto
  with pj(2) show ?thesis by (simp add: may_claim_def tier_def)
qed

text \<open>After a claim the row is held by the claimant.\<close>

lemma claimed_holder:
  assumes inv: "queue_inv db" and c: "claim_shard now locked wid caps jid db = (Some c, db')"
  shows "holder db' (cs_job_id c, sint (cs_seed c)) = Some wid" "cs_claimed_by c = wid"
    "\<exists>j \<in> set (jobs db). jb_id j = cs_job_id c"
proof -
  have inv': "queue_inv db'" by (rule claim_shard_inv [OF inv c])
  obtain s j where s: "s \<in> set (shards db)" "j \<in> set (jobs db)" "jb_id j = cs_job_id c" "cs_claimed_by c = wid"
      "(cs_job_id c, sint (cs_seed c)) = shard_key s"
      "db' = db\<lparr>shards := update_where (\<lambda>r. shard_key r = shard_key s) (claim_row now wid) (shards db)\<rparr>"
    by (rule claim_shard_Some [OF inv c]) simp
  have "claim_row now wid s \<in> set (shards db')"
    using in_update_where [OF s(1), of "\<lambda>r. shard_key r = shard_key s" "claim_row now wid"] s(6) by simp
  moreover have "held_by (cs_job_id c) (cs_seed c) wid (claim_row now wid s)"
    using s(5) by (simp add: held_by_def claim_u.key_f) (simp add: claim_row_def)
  ultimately show "holder db' (cs_job_id c, sint (cs_seed c)) = Some wid"
    using holder_Some [OF inv'] by blast
  show "cs_claimed_by c = wid" "\<exists>j \<in> set (jobs db). jb_id j = cs_job_id c" using s by blast+
qed

lemma elastic_idle:
  assumes "app_inv a" "hint_inv a" "\<And>c. \<not> fails w c" "\<And>org k. \<not> locked_rows w org k" "''ios'' \<notin> set caps"
  shows "fst (claim_across_tenants w worker caps a) = None \<longleftrightarrow>
    (\<forall>org db. tenants a org = Some db \<longrightarrow>
       (\<forall>s \<in> set (shards db). sh_state s = Pending \<longrightarrow> sh_backend s \<notin> set caps))"
proof -
  obtain cands targets a1 where g: "gather_candidates w caps a = (Some (cands, targets), a1)"
    using no_fault_gather [OF assms(3)] by blast
  note ok = gather_candidates_ok(5) [OF g refl]
  have all: "may_claim (cands ! i)" if "i < length cands" for i
    using elastic_may_claim [OF list_all2_nthD [OF ok that] assms(5)] .
  have idle: "fst (claim_across_tenants w worker caps a) = None \<longleftrightarrow> cands = []"
  proof (cases "claim_order cands (timestamp w)")
    case Nil
    then have "cands = []" using set_claim_order [of cands "timestamp w"] all by (cases cands) auto
    with Nil g show ?thesis by (simp add: claim_across_tenants_def)
  next
    case (Cons i order)
    have "i < length cands" using set_claim_order [of cands "timestamp w"] by (simp add: Cons set_eq_iff) blast
    moreover obtain c a2 where "claim_across_tenants w worker caps a = (Some (fst (targets ! i), c), a2)"
      using claim_takes_first [OF assms(1,3,4) g Cons, of worker] by blast
    ultimately show ?thesis by auto
  qed
  have "cands = [] \<longleftrightarrow> (\<forall>org db. tenants a org = Some db \<longrightarrow> pending_jobs caps db = [])"
  proof
    assume "cands = []"
    then have no: "tenants a org = Some db \<Longrightarrow> org \<in> set (pending_hint a) \<Longrightarrow> pending_jobs caps db = []" for org db
      using gather_nonempty [OF assms(3) _ _ _ g] by blast
    show "\<forall>org db. tenants a org = Some db \<longrightarrow> pending_jobs caps db = []"
    proof (intro allI impI)
      fix org db assume t: "tenants a org = Some db"
      show "pending_jobs caps db = []"
      proof (cases "org \<in> set (pending_hint a)")
        case False
        then have "pending_shard_count db = 0" using assms(2) t by (auto simp: hint_inv_def)
        then have "\<forall>s \<in> set (shards db). sh_state s \<noteq> Pending" using pending_pos [of db] by auto
        then show ?thesis by (simp add: pending_jobs_Nil [OF app_invD(1) [OF assms(1) t]])
      qed (use no t in blast)
    qed
  next
    assume "\<forall>org db. tenants a org = Some db \<longrightarrow> pending_jobs caps db = []"
    with ok show "cands = []" by (cases cands) (auto simp: list_all2_Cons1 gathered_from_def)
  qed
  with idle show ?thesis using pending_jobs_Nil app_invD(1) [OF assms(1)] by metis
qed

lemma finalized_row:
  assumes "j \<in> set (update_where (\<lambda>j. jb_id j = job) (finish_row now st tr) js)" "jb_id j = job"
  shows "jb_finished_at j = Some now"
proof -
  from assms(1) obtain x where x: "j = (if jb_id x = job then finish_row now st tr x else x)"
    by (rule finish_u.row_of_update)
  show ?thesis
  proof (cases "jb_id x = job")
    case True
    with x show ?thesis by (simp add: finish_row_def)
  next
    case False
    with x assms(2) show ?thesis by simp
  qed
qed

section \<open>Properties\<close>

text \<open>The id of a claim response, \<open>org:job:seed:worker\<close>, parses back to exactly the tenant, job,
  seed and worker it was built from, for every 64-bit tenant id, non-empty job id (colons included)
  and sanitized worker id.\<close>

theorem shard_id_roundtrip:
  assumes "- (2 ^ 63) \<le> org" "org < 2 ^ 63" "job \<noteq> []" "CHR '':'' \<notin> set uuid"
  shows "parse_shard_id (format_shard_id org job seed (sanitize_worker_id uuid i))
    = Some (org, job, seed, sanitize_worker_id uuid i)"
  using assms by (intro parse_format_shard_id sanitize_nonempty sanitize_no_colon)

text \<open>A worker that was given a shard can use it: a heartbeat or a well-formed result that follows
  the claim, under the id of the response, is accepted when its statements do not fail.\<close>

theorem claim_then_report:
  assumes "app_inv a" "CHR '':'' \<notin> set uuid" "claim w uuid caps worker a = (Some body, a')"
    and "\<And>c. \<not> fails w' c" "map_status (rr_status res) \<noteq> None"
  shows "fst (heartbeat w' (cb_id body) a') = OK \<and> fst (result_handler w' (cb_id body) res a') = OK"
proof -
  define caps' where "caps' = (if caps = [] then [''web''] else caps)"
  define wid where "wid = sanitize_worker_id uuid (case worker of Some i \<Rightarrow> i | None \<Rightarrow> ''w-'' @ uuid)"
  from assms(3) obtain org c a2 where c: "claim_across_tenants w wid caps' a = (Some (org, c), a2)"
    "cb_id body = format_shard_id org (cs_job_id c) (cs_seed c) (cs_claimed_by c)"
    "tenants a' = tenants a2"
    by (auto simp: claim_def Let_def caps'_def [symmetric] wid_def [symmetric] split: prod.splits option.splits)
  from claim_across_Some [OF assms(1) c(1)] obtain a1 db db' where
    db: "tenants a1 = tenants a" "tenants a org = Some db" "a2 = put_tenant org db' a1"
      "claim_shard (now_us w) (locked_rows w org) wid caps' (Some (cs_job_id c)) db = (Some c, db')" by metis
  note inv = app_invD [OF assms(1) db(2)]
  have inv': "queue_inv db'" by (rule claim_shard_inv [OF inv(1) db(4)])
  note h = claimed_holder [OF inv(1) db(4)]
  have acc: "fst (touch_shard n (cs_job_id c) (cs_seed c) wid db')"
    "fst (set_shard (cs_job_id c) (cs_seed c) wid st rep d db')" for n st rep d
    using touch_shard_accepts [OF inv'] set_shard_accepts [OF inv'] h(1) by blast+
  have "parse_shard_id (cb_id body) = Some (org, cs_job_id c, cs_seed c, wid)"
    unfolding c(2) h(2) using inv(2-4) h(3) assms(2)
    by (intro parse_format_shard_id) (auto simp: wid_def sanitize_nonempty sanitize_no_colon)
  moreover have "tenant_store w' a' org = Some db'"
    using assms(4) c(3) db by (simp add: tenant_store_def)
  ultimately show ?thesis using assms(4,5) acc
    by (auto simp: heartbeat_def result_handler_def split: prod.splits bool.splits option.splits)
      (metis fst_conv)+
qed

text \<open>A result that is answered with success is stored, and the job is then either still
  incomplete or marked finished: the report of the last shard finalizes the job.\<close>

theorem result_finalizes:
  assumes "app_inv a" "\<And>c. \<not> fails w c" "result_handler w i res a = (OK, a')"
    "parse_shard_id i = Some (org, job, seed, worker)" "tenants a' org = Some db'"
  shows "(\<exists>r \<in> set (shards db'). shard_key r = (job, sint seed) \<and> Some (sh_state r) = map_status (rr_status res)
           \<and> sh_report r = rr_report res \<and> sh_claimed_by r = Some worker)
    \<and> (job_incomplete job db' \<or> (\<forall>j \<in> set (jobs db'). jb_id j = job \<longrightarrow> jb_finished_at j = Some (now_rfc w)))"
  using assms(3)
proof (cases rule: result_handler_cases)
  case (stored org' job' seed' worker' st d db ok db1)
  from stored(1) assms(4) have id: "org' = org" "job' = job" "seed' = seed" "worker' = worker" by simp_all
  from stored(5) have ok: "ok" by (cases ok) simp_all
  with stored(6) assms(5) id have db': "db' = maybe_finalize w org job db1" by simp
  have shards: "shards db' = shards db1" by (simp add: db' maybe_finalize_def finalize_job_def)
  have "queue_inv db" using app_invD(1) [OF assms(1)] tenant_store_Some [OF stored(3)] id by simp
  then obtain r where r: "r \<in> set (shards db)" "held_by job seed worker r"
    using held_row [of db job seed worker] stored(4) ok id by (auto simp: set_shard_def)
  then have "set_row st (rr_report res) d r \<in> set (shards db1)"
    using in_update_where [OF r(1), of "held_by job seed worker" "set_row st (rr_report res) d"] stored(4) id
    by (auto simp: set_shard_def)
  with r(2) stored(2) shards
  have "\<exists>r \<in> set (shards db'). shard_key r = (job, sint seed) \<and> Some (sh_state r) = map_status (rr_status res)
           \<and> sh_report r = rr_report res \<and> sh_claimed_by r = Some worker"
    by (intro bexI [of _ "set_row st (rr_report res) d r"]) (auto simp: held_by_def set_row_def shard_key_def)
  moreover have "job_incomplete job db' \<or> (\<forall>j \<in> set (jobs db'). jb_id j = job \<longrightarrow> jb_finished_at j = Some (now_rfc w))"
  proof (cases "job_incomplete job db1")
    case True
    with db' show ?thesis by (simp add: maybe_finalize_def)
  next
    case False
    with db' assms(2) have "db' = finalize_job (now_rfc w) job 0 0 db1" by (simp add: maybe_finalize_def)
    then have "jobs db' = update_where (\<lambda>j. jb_id j = job) (finish_row (now_rfc w) 0 0) (jobs db1)"
      by (simp add: finalize_job_def)
    then have "jb_finished_at j = Some (now_rfc w)" if "j \<in> set (jobs db')" "jb_id j = job" for j
      using finalized_row that by metis
    then show ?thesis by blast
  qed
  ultimately show ?thesis ..
qed simp

text \<open>C34. When handlers run one at a time and marking the hint does not fail, the routing hint never
  under-includes: in every reachable state each tenant with a pending shard is in the hint, and
  every tenant's queue satisfies its invariant.\<close>

theorem hint_never_under_includes:
  assumes "app_step\<^sup>*\<^sup>* (no_tenants sh raw) a" "tenants a org = Some db"
  shows "queue_inv db \<and> (0 < pending_shard_count db \<longrightarrow> org \<in> set (tenants_with_pending a))"
  using good_reachable [OF assms(1)] assms(2)
  by (auto simp: good_def app_inv_def hint_inv_def tenants_with_pending_def)

text \<open>Completeness of the claim: with a hint that does not under-include, no failing statement and
  no locked row, a worker without the Mac capability goes idle exactly when no tenant has a pending
  shard of a backend it serves.\<close>

theorem elastic_claim_complete:
  assumes "app_inv a" "hint_inv a" "\<And>c. \<not> fails w c" "\<And>org k. \<not> locked_rows w org k" "''ios'' \<notin> set caps"
  shows "fst (claim_across_tenants w worker caps a) = None \<longleftrightarrow>
    (\<forall>org db. tenants a org = Some db \<longrightarrow>
       (\<forall>s \<in> set (shards db). sh_state s = Pending \<longrightarrow> sh_backend s \<notin> set caps))"
  by (rule elastic_idle [OF assms])

text \<open>With no failing statement and no locked row, the job a claim serves is an admissible
  candidate of least key (score, deadline, tenant) among all admissible candidates gathered.\<close>

theorem claim_most_urgent:
  assumes "app_inv a" "\<And>c. \<not> fails w c" "\<And>org k. \<not> locked_rows w org k"
    "gather_candidates w caps a = (Some (cands, targets), a1)"
    "claim_across_tenants w worker caps a = (Some (org, c), a2)"
  shows "\<exists>i < length cands. targets ! i = (org, cs_job_id c) \<and> may_claim (cands ! i)
    \<and> (\<forall>j < length cands. may_claim (cands ! j) \<longrightarrow>
         claim_key (timestamp w) (cands ! i) \<le> claim_key (timestamp w) (cands ! j))"
proof (cases "claim_order cands (timestamp w)")
  case Nil
  with assms(4,5) show ?thesis by (simp add: claim_across_tenants_def)
next
  case (Cons i order)
  have t: "targets ! i = (org, cs_job_id c)"
    using claim_takes_first [OF assms(1-4) Cons, of worker] assms(5) by (cases "targets ! i") auto
  have i: "i < length cands" "may_claim (cands ! i)"
    using Cons set_claim_order [of cands "timestamp w"] by auto
  have "claim_key (timestamp w) (cands ! i) \<le> claim_key (timestamp w) (cands ! j)"
    if "j < length cands" "may_claim (cands ! j)" for j
  proof -
    have "j \<in> set (i # order)" using that set_claim_order [of cands "timestamp w"] by (simp flip: Cons)
    with sorted_claim_order [of "timestamp w" cands] show ?thesis by (auto simp: Cons)
  qed
  with t i show ?thesis by blast
qed

text \<open>The sweep marks a tenant only when it moved a running shard.\<close>

lemma requeue_without_stranded:
  assumes "tenants a org = Some db" "\<forall>s \<in> set (shards db). \<not> stranded (now_us w) 120 s"
  shows "requeue_tenant w org a = a"
proof -
  have r: "requeue_stranded (now_us w) 120 db = (0, db)"
    using assms(2) by (simp add: requeue_stranded_def affected_0 update_where_none)
  show ?thesis
    using assms(1) r put_same [OF assms(1)] by (auto simp: requeue_tenant_def tenant_store_def Let_def)
qed

text \<open>The check of the pending count and the clearing of the hint are two statements: when a
  submission commits and marks the tenant between them, the clear removes the mark, the tenant keeps
  pending shards outside the hint, no later claim serves it, and the sweep does not put it back
  while none of its shards is running.\<close>

theorem hint_lost_in_race:
  assumes "app_inv a" "uuid \<noteq> []" "tenants a org = Some db" "pending_shard_count db = 0"
    and "\<forall>s \<in> set (shards db). sh_state s \<noteq> Running"
    and "submit_job w canon is_dir root uuid (Inr org) spec a = ((ACCEPTED, r), a1)"
    and "a2 = clear_tenant_pending org a1"
  shows "org \<notin> set (tenants_with_pending a2)
    \<and> (\<exists>db2. tenants a2 org = Some db2 \<and> 0 < pending_shard_count db2)
    \<and> (\<forall>w' worker caps c a3. claim_across_tenants w' worker caps a2 \<noteq> (Some (org, c), a3))
    \<and> (\<forall>w'. requeue_tenant w' org a2 = a2)"
proof -
  let ?job = "job_new uuid (now_rfc w) spec"
  from assms(3,6) obtain db1 where ins: "spec_validate spec = Ok ()" "insert_job ?job db = Some db1"
    and a1: "tenants a1 = (tenants a)(org \<mapsto> db1)"
    by (auto simp: submit_job_def Let_def split: if_splits sum.splits option.splits)
  have db1: "jobs db1 = jobs db @ [job_to_row ?job]"
    "shards db1 = shards db @ map (shard_to_row ?job) (j_shards ?job)"
    using ins(2) by (auto simp: insert_job_def split: if_splits)
  have nr: "sh_state s \<noteq> Running" if "s \<in> set (shards db1)" for s
    using that assms(5) by (auto simp: db1 shard_to_row_def)
  have "js_seeds spec \<noteq> 0" using ins(1) by (auto simp: spec_validate_def)
  then have "0 < unat (js_seeds spec)" by (simp add: unat_gt_0)
  then have "j_shards ?job \<noteq> []" by (simp add: job_new_def)
  then have pend: "0 < pending_shard_count db1"
    unfolding pending_pos db1 by (cases "j_shards ?job") (auto simp: shard_to_row_def)
  have t2: "tenants a2 org = Some db1" by (simp add: assms(7) a1)
  have "store_ok db1"
    using assms(1-3) insert_job_inv [OF _ ins(2)] by (auto simp: app_inv_store store_ok_def db1 job_to_row_def job_new_def)
  then have inv2: "app_inv a2" using assms(1,3) by (auto simp: app_inv_store assms(7) a1)
  have out: "org \<notin> set (pending_hint a2)" by (simp add: assms(7))
  have "claim_across_tenants w' worker caps a2 \<noteq> (Some (org, c), a3)" for w' worker caps c a3
    using claim_across_Some [OF inv2] out by metis
  moreover have "requeue_tenant w' org a2 = a2" for w'
    using nr by (intro requeue_without_stranded [OF t2]) (simp add: stranded_def)
  ultimately show ?thesis using out t2 pend by (simp add: tenants_with_pending_def)
qed

section \<open>Witnesses\<close>

definition calm :: world where
  "calm = \<lparr>now_us = 0, now_rfc = ''t'', lane_env = None, parse_rfc3339 = (\<lambda>_. Some 0),
     fails = (\<lambda>_. False), locked_rows = (\<lambda>_ _. False)\<rparr>"

lemma calm_simps [simp]: "\<not> fails calm c" "\<not> locked_rows calm org k" "now_rfc calm = ''t''"
  by (simp_all add: calm_def)

definition idle_app :: app where
  "idle_app = put_tenant 7 empty_db (no_tenants True True)"

definition busy_app :: app where
  "busy_app = snd (submit_job calm (\<lambda>p. Some [p]) (\<lambda>_. True) ''/a'' ''j'' (Inr 7) sample_spec idle_app)"

lemma sample_reach0: "app_step\<^sup>*\<^sup>* (no_tenants True True) idle_app"
proof -
  have "app_step (no_tenants True True) idle_app"
    unfolding idle_app_def by (rule s_provision) (simp_all add: no_tenants_def)
  then show ?thesis by blast
qed

lemma sample_submitted:
  "submit_job calm (\<lambda>p. Some [p]) (\<lambda>_. True) ''/a'' ''j'' (Inr 7) sample_spec idle_app
     = ((ACCEPTED, Some (''j'', 1)), busy_app)"
proof (rule prod_eqI)
  show "fst (submit_job calm (\<lambda>p. Some [p]) (\<lambda>_. True) ''/a'' ''j'' (Inr 7) sample_spec idle_app)
     = fst ((ACCEPTED, Some (''j'', 1)), busy_app)" by code_simp
qed (simp add: busy_app_def)

lemma sample_reach1: "app_step\<^sup>*\<^sup>* (no_tenants True True) busy_app"
proof -
  have "app_step idle_app busy_app"
    by (rule s_submit [OF _ _ sample_submitted]) (simp_all add: calm_def)
  with sample_reach0 show ?thesis by (rule rtranclp.rtrancl_into_rtrancl)
qed

lemma busy_good: "app_inv busy_app" "hint_inv busy_app"
  using good_reachable [OF sample_reach1] by (simp_all add: good_def)

definition claimed_app :: app where
  "claimed_app = snd (claim calm ''u'' [''web''] (Some ''w'') busy_app)"

definition claimed_body :: claim_body where
  "claimed_body = the (fst (claim calm ''u'' [''web''] (Some ''w'') busy_app))"

lemma busy_pending:
  "\<exists>db. tenants busy_app 7 = Some db \<and> (\<exists>s \<in> set (shards db). sh_state s = Pending \<and> sh_backend s = ''web'')"
proof -
  have "case tenants busy_app 7 of None \<Rightarrow> False
    | Some db \<Rightarrow> (\<exists>s \<in> set (shards db). sh_state s = Pending \<and> sh_backend s = ''web'')" by code_simp
  then show ?thesis by (auto split: option.splits)
qed

lemma sample_claimed: "claim calm ''u'' [''web''] (Some ''w'') busy_app = (Some claimed_body, claimed_app)"
proof -
  let ?wid = "sanitize_worker_id ''u'' ''w''"
  have "fst (claim_across_tenants calm ?wid [''web''] busy_app) \<noteq> None"
    using elastic_idle [OF busy_good, of calm "[''web'']" ?wid] busy_pending by force
  then obtain org c a2 where "claim_across_tenants calm ?wid [''web''] busy_app = (Some (org, c), a2)"
    by (cases "claim_across_tenants calm ?wid [''web''] busy_app") auto
  then have "fst (claim calm ''u'' [''web''] (Some ''w'') busy_app) \<noteq> None" by (simp add: claim_def)
  then show ?thesis by (auto simp: claimed_app_def claimed_body_def intro: prod_eqI)
qed

definition clean_result :: ResultReq where
  "clean_result = \<lparr>rr_status = ''clean'', rr_report = None, rr_duration_s = None\<rparr>"

theorem shard_id_roundtrip_witness:
  "parse_shard_id (format_shard_id 7 ''a:b'' 3 (sanitize_worker_id ''u'' ''mac:1''))
     = Some (7, ''a:b'', 3, sanitize_worker_id ''u'' ''mac:1'')"
  by (rule shard_id_roundtrip) simp_all

theorem claim_then_report_witness:
  "fst (heartbeat calm (cb_id claimed_body) claimed_app) = OK
   \<and> fst (result_handler calm (cb_id claimed_body) clean_result claimed_app) = OK"
  by (rule claim_then_report [OF busy_good(1) _ sample_claimed])
    (simp_all add: clean_result_def map_status_def)

theorem hint_never_under_includes_witness:
  "\<exists>db. tenants busy_app 7 = Some db \<and> 0 < pending_shard_count db \<and> queue_inv db \<and> 7 \<in> set (tenants_with_pending busy_app)"
proof -
  have "case tenants busy_app 7 of None \<Rightarrow> False | Some db \<Rightarrow> 0 < pending_shard_count db" by code_simp
  then obtain db where "tenants busy_app 7 = Some db" "0 < pending_shard_count db" by (cases "tenants busy_app 7") auto
  with hint_never_under_includes [OF sample_reach1 this(1)] show ?thesis by blast
qed

theorem elastic_claim_complete_witness:
  "fst (claim_across_tenants calm ''w'' [''web''] busy_app) \<noteq> None"
  using elastic_claim_complete [OF busy_good, of calm "[''web'']" "''w''"] busy_pending
  by force

lemma sample_targets:
  "\<exists>cands targets a1 c a2. gather_candidates calm [''web''] busy_app = (Some (cands, targets), a1)
     \<and> claim_across_tenants calm ''w'' [''web''] busy_app = (Some (7, c), a2)"
proof -
  obtain cands targets a1 where g: "gather_candidates calm [''web''] busy_app = (Some (cands, targets), a1)"
    using no_fault_gather [OF calm_simps(1)] by blast
  obtain org c a2 where c: "claim_across_tenants calm ''w'' [''web''] busy_app = (Some (org, c), a2)"
    using elastic_idle [OF busy_good, of calm "[''web'']" "''w''"] busy_pending
    by (cases "claim_across_tenants calm ''w'' [''web''] busy_app") force
  have "pending_hint busy_app = [7]" by code_simp
  then have "org = 7" using claim_across_Some [OF busy_good(1) c] by (metis list.set(1,2) singletonD)
  with g c show ?thesis by blast
qed

theorem claim_most_urgent_witness:
  "\<exists>cands targets a1 c a2 i. gather_candidates calm [''web''] busy_app = (Some (cands, targets), a1)
     \<and> claim_across_tenants calm ''w'' [''web''] busy_app = (Some (7, c), a2)
     \<and> i < length cands \<and> targets ! i = (7, cs_job_id c)"
proof -
  obtain cands targets a1 c a2 where
    g: "gather_candidates calm [''web''] busy_app = (Some (cands, targets), a1)"
    and c: "claim_across_tenants calm ''w'' [''web''] busy_app = (Some (7, c), a2)"
    using sample_targets by blast
  from claim_most_urgent [OF busy_good(1) _ _ g c] g c show ?thesis by fastforce
qed

definition held_app :: app where
  "held_app = put_tenant 7 sample_db3 (no_tenants True True)"

lemma held_good: "app_inv held_app"
proof -
  have "queue_inv sample_db3" by (rule qrun_inv [OF sample_run empty_db_inv])
  moreover have "\<forall>j \<in> set (jobs sample_db3). jb_id j \<noteq> []" by code_simp
  ultimately show ?thesis by (auto simp: app_inv_def held_app_def no_tenants_def)
qed

theorem result_finalizes_witness:
  "\<exists>a' db'. result_handler calm ''7:j:1:w'' clean_result held_app = (OK, a') \<and> tenants a' 7 = Some db'
     \<and> (\<exists>r \<in> set (shards db'). sh_state r = Clean \<and> sh_claimed_by r = Some ''w'')"
proof -
  have "format_shard_id 7 ''j'' 1 ''w'' = ''7:j:1:w''" by code_simp
  then have p: "parse_shard_id ''7:j:1:w'' = Some (7, ''j'', 1, ''w'')"
    using parse_format_shard_id [of 7 "''j''" "''w''" 1] by simp
  have s: "map_status ''clean'' = Some Clean" by (simp add: map_status_def)
  have "set_shard ''j'' 1 ''w'' Clean None 0 sample_db3 = (True, sample_db4)" by code_simp
  then obtain a' db' where r: "result_handler calm ''7:j:1:w'' clean_result held_app = (OK, a')"
    and db': "tenants a' 7 = Some db'"
    by (simp add: result_handler_def p s clean_result_def tenant_store_def held_app_def)
  from result_finalizes [OF held_good calm_simps(1) r p db'] s r db' show ?thesis
    by (auto simp: clean_result_def)
qed

theorem hint_lost_in_race_witness:
  "7 \<notin> set (tenants_with_pending (clear_tenant_pending 7 busy_app))
   \<and> (\<exists>db. tenants (clear_tenant_pending 7 busy_app) 7 = Some db \<and> 0 < pending_shard_count db)"
proof -
  have inv: "app_inv idle_app" using good_reachable [OF sample_reach0] by (simp add: good_def)
  have t: "tenants idle_app 7 = Some empty_db" by (simp add: idle_app_def)
  have e: "pending_shard_count empty_db = 0" "\<forall>s \<in> set (shards empty_db). sh_state s \<noteq> Running"
    by (simp_all add: empty_db_def pending_shard_count_def affected_def)
  from hint_lost_in_race [OF inv _ t e sample_submitted refl] show ?thesis by blast
qed

end
