(* ===== verification/Text.thy ===== *)
theory Text
  imports Prelude
begin

text \<open>
  Characters of UTF-8 strings, as the standard library iterates and classifies them: \<open>chars\<close> cuts a
  byte string before every byte that is not a continuation byte, \<open>is_whitespace\<close> is the Unicode
  property \<open>White_Space\<close> on the encoded character, \<open>trim\<close> removes it from both ends.
\<close>

definition is_cont :: "char \<Rightarrow> bool" where
  "is_cont c \<longleftrightarrow> 128 \<le> byte c \<and> byte c < 192"

function chars :: "string \<Rightarrow> string list" where
  "chars [] = []"
| "chars (b # bs) = (b # takeWhile is_cont bs) # chars (dropWhile is_cont bs)"
  by pat_completeness auto
termination
  by (relation "measure length") (auto simp: le_imp_less_Suc length_dropWhile_le)

definition is_whitespace :: "string \<Rightarrow> bool" where
  "is_whitespace c \<longleftrightarrow>
     (case map byte c of
        [a] \<Rightarrow> (9 \<le> a \<and> a \<le> 13) \<or> a = 32
      | [a, b] \<Rightarrow> a = 194 \<and> (b = 133 \<or> b = 160)
      | [a, b, d] \<Rightarrow>
          (a = 225 \<and> b = 154 \<and> d = 128)
          \<or> (a = 226 \<and> b = 128 \<and> ((128 \<le> d \<and> d \<le> 138) \<or> d = 168 \<or> d = 169 \<or> d = 175))
          \<or> (a = 226 \<and> b = 129 \<and> d = 159)
          \<or> (a = 227 \<and> b = 128 \<and> d = 128)
      | _ \<Rightarrow> False)"

definition trim_chars :: "string list \<Rightarrow> string list" where
  "trim_chars cs = rev (dropWhile is_whitespace (rev (dropWhile is_whitespace cs)))"

definition trim :: "string \<Rightarrow> string" where
  "trim s = concat (trim_chars (chars s))"

lemma concat_chars [simp]: "concat (chars s) = s"
  by (induction s rule: chars.induct) simp_all

lemma trim_chars_ends:
  assumes "trim_chars cs \<noteq> []"
  shows "\<not> is_whitespace (hd (trim_chars cs)) \<and> \<not> is_whitespace (last (trim_chars cs))"
proof -
  let ?d = "dropWhile is_whitespace cs"
  have ne: "dropWhile is_whitespace (rev ?d) \<noteq> []" using assms by (simp add: trim_chars_def)
  have "hd (trim_chars cs) = hd ?d"
  proof -
    obtain w where "rev ?d = w @ dropWhile is_whitespace (rev ?d)"
      by (metis takeWhile_dropWhile_id)
    then have "?d = trim_chars cs @ rev w" by (metis rev_append rev_rev_ident trim_chars_def)
    with assms show ?thesis by (metis hd_append2)
  qed
  moreover have "?d \<noteq> []" using ne by (metis dropWhile.simps(1) rev.simps(1))
  then have "\<not> is_whitespace (hd ?d)" by (rule hd_dropWhile)
  moreover have "\<not> is_whitespace (hd (dropWhile is_whitespace (rev ?d)))" by (rule hd_dropWhile [OF ne])
  ultimately show ?thesis using ne by (simp add: trim_chars_def last_rev)
qed

end
