(* ===== verification/Resolution.thy ===== *)
theory Resolution
  imports Scheduler
begin

text \<open>
  The production-evidence verdict on a bug (\<open>src/triage/resolution.rs\<close>). The RFC 3339 parser and
  printer of the time library are the arguments \<open>parse_epoch\<close> and \<open>epoch_to_rfc3339\<close>; epochs are
  integers in the range of the library, far below the 64-bit limits. Counts of list elements are
  natural numbers, the stored batch counters 64-bit words.
\<close>

section \<open>Verdicts, thresholds and occurrences\<close>

definition DEFAULT_RESOLVE_QUIET_SECS :: int where "DEFAULT_RESOLVE_QUIET_SECS = 72 * 3600"
definition DEFAULT_MIN_POST_FIX_TRAFFIC :: "64 word" where "DEFAULT_MIN_POST_FIX_TRAFFIC = 50"

datatype Resolution = Active | Resolving | Resolved | Regressed

fun resolution_as_str :: "Resolution \<Rightarrow> string" where
  "resolution_as_str Active = ''active''"
| "resolution_as_str Resolving = ''resolving''"
| "resolution_as_str Resolved = ''resolved''"
| "resolution_as_str Regressed = ''regressed''"

record Thresholds =
  resolve_quiet_secs :: int
  min_post_fix_traffic :: "64 word"

definition thresholds_default :: Thresholds where
  "thresholds_default = \<lparr>resolve_quiet_secs = DEFAULT_RESOLVE_QUIET_SECS,
     min_post_fix_traffic = DEFAULT_MIN_POST_FIX_TRAFFIC\<rparr>"

text \<open>The values of the two environment variables are the arguments.\<close>

definition thresholds_configured :: "string option \<Rightarrow> string option \<Rightarrow> Thresholds" where
  "thresholds_configured quiet traffic =
     \<lparr>resolve_quiet_secs =
        (case Option.bind quiet parse_i64 of
           Some v \<Rightarrow> if 0 \<le> v then v else resolve_quiet_secs thresholds_default
         | None \<Rightarrow> resolve_quiet_secs thresholds_default),
      min_post_fix_traffic =
        (case Option.bind traffic (parse_unsigned 64) of
           Some v \<Rightarrow> of_nat v | None \<Rightarrow> min_post_fix_traffic thresholds_default)\<rparr>"

record Outcome =
  out_status :: Resolution
  out_fixed_in_build :: "string option"
  out_last_seen_on_fixed_build :: "string option"
  out_post_fix_occurrences :: nat

record Occurrence =
  occ_at :: string
  occ_build :: "string option"

section \<open>The decision\<close>

type_synonym first_seen = "(string \<times> int) list"

definition see_build :: "(string \<Rightarrow> int option) \<Rightarrow> first_seen \<Rightarrow> Occurrence \<Rightarrow> first_seen" where
  "see_build parse_epoch m oc =
     (case (occ_build oc, parse_epoch (occ_at oc)) of
        (Some b, Some e) \<Rightarrow> bt_insert b (case map_of m b of Some x \<Rightarrow> min x e | None \<Rightarrow> e) m
      | _ \<Rightarrow> m)"

definition first_seen_by_build :: "(string \<Rightarrow> int option) \<Rightarrow> Occurrence list \<Rightarrow> first_seen" where
  "first_seen_by_build parse_epoch occ = foldl (see_build parse_epoch) [] occ"

text \<open>The closure \<open>on_or_after\<close>, and the test of one occurrence against the cut line.\<close>

definition on_or_after :: "first_seen \<Rightarrow> string \<Rightarrow> int \<Rightarrow> string \<Rightarrow> bool" where
  "on_or_after first_seen fixed fix_epoch build \<longleftrightarrow>
     build = fixed \<or> (case map_of first_seen build of Some f \<Rightarrow> fix_epoch \<le> f | None \<Rightarrow> False)"

definition post_fix_epoch ::
    "(string \<Rightarrow> int option) \<Rightarrow> first_seen \<Rightarrow> string \<Rightarrow> int \<Rightarrow> Occurrence \<Rightarrow> int option" where
  "post_fix_epoch parse_epoch first_seen fixed fix_epoch oc =
     (case occ_build oc of
        None \<Rightarrow> None
      | Some b \<Rightarrow>
          (case parse_epoch (occ_at oc) of
             None \<Rightarrow> None
           | Some e \<Rightarrow> if on_or_after first_seen fixed fix_epoch b \<and> fix_epoch \<le> e then Some e else None))"

definition post_fix_traffic :: "(string \<Rightarrow> int option) \<Rightarrow> Occurrence list \<Rightarrow> string \<Rightarrow> nat" where
  "post_fix_traffic parse_epoch app_stream fixed =
     (let first_seen = first_seen_by_build parse_epoch app_stream in
      case map_of first_seen fixed of
        None \<Rightarrow> 0
      | Some fix_epoch \<Rightarrow>
          length (filter (\<lambda>oc. post_fix_epoch parse_epoch first_seen fixed fix_epoch oc \<noteq> None) app_stream))"

definition post_fix_build_traffic ::
    "(string \<Rightarrow> int option) \<Rightarrow> (Occurrence \<times> 64 word) list \<Rightarrow> string \<Rightarrow> 64 word" where
  "post_fix_build_traffic parse_epoch builds fixed =
     (let first_seen = first_seen_by_build parse_epoch (map fst builds) in
      case map_of first_seen fixed of
        None \<Rightarrow> 0
      | Some fix_epoch \<Rightarrow>
          sum_list (map snd (filter (\<lambda>(oc, _). post_fix_epoch parse_epoch first_seen fixed fix_epoch oc \<noteq> None)
            builds)))"

text \<open>The loop over the bug's occurrences: the count and the latest epoch.\<close>

fun recur :: "(Occurrence \<Rightarrow> int option) \<Rightarrow> Occurrence list \<Rightarrow> nat \<times> int option \<Rightarrow> nat \<times> int option" where
  "recur post [] acc = acc"
| "recur post (oc # os) (n, latest) =
     (case post oc of
        None \<Rightarrow> recur post os (n, latest)
      | Some e \<Rightarrow> recur post os (n + 1, Some (case latest of None \<Rightarrow> e | Some m \<Rightarrow> max m e)))"

definition evaluate :: "(string \<Rightarrow> int option) \<Rightarrow> (int \<Rightarrow> string) \<Rightarrow> Occurrence list \<Rightarrow> first_seen
    \<Rightarrow> string option \<Rightarrow> 64 word \<Rightarrow> string \<Rightarrow> Thresholds \<Rightarrow> Outcome" where
  "evaluate parse_epoch epoch_to_rfc3339 bug fix_first_seen fixed_in_build traffic now th =
     (case fixed_in_build of
        None \<Rightarrow> \<lparr>out_status = Active, out_fixed_in_build = None, out_last_seen_on_fixed_build = None,
                 out_post_fix_occurrences = 0\<rparr>
      | Some fixed \<Rightarrow>
     (case map_of fix_first_seen fixed of
        None \<Rightarrow> \<lparr>out_status = Resolving, out_fixed_in_build = Some fixed,
                 out_last_seen_on_fixed_build = None, out_post_fix_occurrences = 0\<rparr>
      | Some fix_epoch \<Rightarrow>
     (case recur (post_fix_epoch parse_epoch fix_first_seen fixed fix_epoch) bug (0, None) of
        (n, latest) \<Rightarrow>
          if 0 < n then
            \<lparr>out_status = Regressed, out_fixed_in_build = Some fixed,
             out_last_seen_on_fixed_build = map_option epoch_to_rfc3339 latest,
             out_post_fix_occurrences = n\<rparr>
          else
            (let now_epoch = (case parse_epoch now of Some e \<Rightarrow> e | None \<Rightarrow> 0);
                 enough_quiet = (resolve_quiet_secs th \<le> now_epoch - fix_epoch);
                 enough_traffic = (min_post_fix_traffic th \<le> traffic)
             in \<lparr>out_status = (if enough_quiet \<and> enough_traffic then Resolved else Resolving),
                 out_fixed_in_build = Some fixed, out_last_seen_on_fixed_build = None,
                 out_post_fix_occurrences = 0\<rparr>))))"

section \<open>Lemmas\<close>

text \<open>The epochs at which a build was seen.\<close>

definition seen_at :: "(string \<Rightarrow> int option) \<Rightarrow> Occurrence list \<Rightarrow> string \<Rightarrow> int set" where
  "seen_at parse_epoch occ b = {e. \<exists>oc \<in> set occ. occ_build oc = Some b \<and> parse_epoch (occ_at oc) = Some e}"

lemma finite_seen_at: "finite (seen_at pe occ b)"
proof -
  have "seen_at pe occ b \<subseteq> (\<lambda>oc. the (pe (occ_at oc))) ` set occ" by (force simp: seen_at_def)
  then show ?thesis by (rule finite_subset) simp
qed

lemma see_build_map: "bt_ok m \<Longrightarrow> map_of (see_build pe m oc) b =
    (if occ_build oc = Some b then
       (case pe (occ_at oc) of None \<Rightarrow> map_of m b
        | Some e \<Rightarrow> Some (case map_of m b of Some x \<Rightarrow> min x e | None \<Rightarrow> e))
     else map_of m b)"
  by (auto simp: see_build_def split: option.splits)

lemma first_seen_snoc:
  "first_seen_by_build pe (occ @ [oc]) = see_build pe (first_seen_by_build pe occ) oc"
  by (simp add: first_seen_by_build_def)

lemma bt_ok_first_seen: "bt_ok (first_seen_by_build pe occ)"
  by (induction occ rule: rev_induct)
    (auto simp: see_build_def first_seen_by_build_def split: option.splits)

lemma seen_at_snoc: "seen_at pe (occ @ [oc]) b =
    (if occ_build oc = Some b then set_option (pe (occ_at oc)) \<union> seen_at pe occ b else seen_at pe occ b)"
  by (auto simp: seen_at_def)

text \<open>The map holds the earliest epoch of each build seen.\<close>

lemma first_seen_min:
  "map_of (first_seen_by_build pe occ) b =
     (if seen_at pe occ b = {} then None else Some (Min (seen_at pe occ b)))"
proof (induction occ rule: rev_induct)
  case Nil
  show ?case by (simp add: first_seen_by_build_def seen_at_def)
next
  case (snoc oc occ)
  show ?case
  proof (cases "occ_build oc = Some b \<and> pe (occ_at oc) \<noteq> None")
    case True
    then obtain e where e: "occ_build oc = Some b" "pe (occ_at oc) = Some e" by auto
    have "Min (insert e (seen_at pe occ b)) = min (Min (seen_at pe occ b)) e" if "seen_at pe occ b \<noteq> {}"
      using that finite_seen_at [of pe occ b] by (simp add: min.commute)
    with e snoc show ?thesis by (simp add: first_seen_snoc see_build_map [OF bt_ok_first_seen] seen_at_snoc)
  next
    case False
    with snoc show ?thesis
      by (auto simp: first_seen_snoc see_build_map [OF bt_ok_first_seen] seen_at_snoc split: option.splits)
  qed
qed

text \<open>The loop computes the number of selected occurrences and their latest epoch.\<close>

definition selected :: "(Occurrence \<Rightarrow> int option) \<Rightarrow> Occurrence list \<Rightarrow> int list" where
  "selected post os = List.map_filter post os"

lemma selected_simps [simp]:
  "selected post [] = []"
  "selected post (oc # os) = (case post oc of None \<Rightarrow> selected post os | Some e \<Rightarrow> e # selected post os)"
  by (simp_all add: selected_def map_filter_simps split: option.splits)

lemma set_selected: "set (selected post os) = {e. \<exists>oc \<in> set os. post oc = Some e}"
  by (induction os) (auto split: option.splits)

lemma length_selected: "length (selected post os) = length (filter (\<lambda>oc. post oc \<noteq> None) os)"
  by (induction os) (auto split: option.splits)

lemma recur_selected:
  "recur post os (n, latest) = (n + length (selected post os),
     if selected post os = [] then latest
     else Some (case latest of None \<Rightarrow> Max (set (selected post os)) | Some m \<Rightarrow> max m (Max (set (selected post os)))))"
proof (induction os arbitrary: n latest)
  case (Cons oc os)
  show ?case
  proof (cases "post oc")
    case None
    then have "selected post (oc # os) = selected post os" by simp
    with None Cons show ?thesis by (simp del: selected_simps split: option.splits)
  next
    case (Some e)
    with Cons show ?thesis
      by (cases "selected post os = []") (auto simp: max.assoc max.commute max.left_commute split: option.splits)
  qed
qed simp

lemma post_fix_epoch_Some:
  "post_fix_epoch pe fs fixed fe oc = Some e \<longleftrightarrow>
     (\<exists>b. occ_build oc = Some b \<and> pe (occ_at oc) = Some e \<and> on_or_after fs fixed fe b \<and> fe \<le> e)"
  by (auto simp: post_fix_epoch_def split: option.splits)

text \<open>A recurrence: an occurrence on a build at or after the fix, dated at or after the fix shipped.\<close>

definition recurrence :: "(string \<Rightarrow> int option) \<Rightarrow> first_seen \<Rightarrow> string \<Rightarrow> int \<Rightarrow> Occurrence \<Rightarrow> bool" where
  "recurrence pe fs fixed fe oc \<longleftrightarrow>
     (\<exists>b e. occ_build oc = Some b \<and> pe (occ_at oc) = Some e \<and> fe \<le> e
        \<and> (b = fixed \<or> (\<exists>f. map_of fs b = Some f \<and> fe \<le> f)))"

lemma recurrence_iff: "post_fix_epoch pe fs fixed fe oc \<noteq> None \<longleftrightarrow> recurrence pe fs fixed fe oc"
proof -
  have "on_or_after fs fixed fe b \<longleftrightarrow> b = fixed \<or> (\<exists>f. map_of fs b = Some f \<and> fe \<le> f)" for b
    by (auto simp: on_or_after_def split: option.splits)
  then show ?thesis by (auto simp: post_fix_epoch_Some recurrence_def)
qed

lemma evaluate_unfold:
  assumes "map_of fs fixed = Some fe"
  shows "evaluate pe pr bug fs (Some fixed) traffic now th =
    (let sel = selected (post_fix_epoch pe fs fixed fe) bug in
     if sel \<noteq> [] then
       \<lparr>out_status = Regressed, out_fixed_in_build = Some fixed,
        out_last_seen_on_fixed_build = Some (pr (Max (set sel))), out_post_fix_occurrences = length sel\<rparr>
     else
       \<lparr>out_status = (if resolve_quiet_secs th \<le> (case pe now of Some e \<Rightarrow> e | None \<Rightarrow> 0) - fe
                         \<and> min_post_fix_traffic th \<le> traffic then Resolved else Resolving),
        out_fixed_in_build = Some fixed, out_last_seen_on_fixed_build = None, out_post_fix_occurrences = 0\<rparr>)"
  using assms by (simp add: evaluate_def recur_selected Let_def)

lemma selected_perm: "mset xs = mset ys \<Longrightarrow> mset (selected post xs) = mset (selected post ys)"
proof -
  have "mset (selected post zs) = image_mset (the \<circ> post) (filter_mset (\<lambda>oc. post oc \<noteq> None) (mset zs))" for zs
    by (induction zs) (auto split: option.splits)
  then show "mset xs = mset ys \<Longrightarrow> mset (selected post xs) = mset (selected post ys)" by simp
qed

section \<open>Properties\<close>

text \<open>C5. The verdict, on every branch: active exactly without a claimed fix; regressed exactly when the
  fix build was seen and the bug has a recurrence, that is an occurrence on the fix build or on a
  build that first appeared no earlier, dated no earlier than the fix; resolved exactly when the fix
  build was seen, there is no recurrence, the quiet time has passed and the traffic gate is met;
  resolving otherwise. The reported count is the number of recurrences.\<close>

theorem evaluate_decision:
  "out_status (evaluate pe pr bug fs claimed traffic now th) =
     (case claimed of None \<Rightarrow> Active
      | Some fixed \<Rightarrow>
          (case map_of fs fixed of None \<Rightarrow> Resolving
           | Some fe \<Rightarrow>
               if \<exists>oc \<in> set bug. recurrence pe fs fixed fe oc then Regressed
               else if resolve_quiet_secs th \<le> (case pe now of Some e \<Rightarrow> e | None \<Rightarrow> 0) - fe
                       \<and> min_post_fix_traffic th \<le> traffic then Resolved
               else Resolving))
   \<and> out_post_fix_occurrences (evaluate pe pr bug fs claimed traffic now th) =
     (case claimed of None \<Rightarrow> 0
      | Some fixed \<Rightarrow>
          (case map_of fs fixed of None \<Rightarrow> 0
           | Some fe \<Rightarrow> length (filter (recurrence pe fs fixed fe) bug)))"
proof (cases claimed)
  case (Some fixed)
  show ?thesis
  proof (cases "map_of fs fixed")
    case (Some fe)
    let ?sel = "selected (post_fix_epoch pe fs fixed fe) bug"
    have len: "length ?sel = length (filter (recurrence pe fs fixed fe) bug)"
      by (simp only: length_selected recurrence_iff)
    have "?sel = [] \<longleftrightarrow> \<not> (\<exists>oc \<in> set bug. recurrence pe fs fixed fe oc)"
      using len by (metis filter_empty_conv length_0_conv)
    then show ?thesis unfolding \<open>claimed = Some fixed\<close>
      by (simp add: evaluate_unfold [OF Some] Some Let_def flip: len)
  next
    case None
    then show ?thesis by (simp add: \<open>claimed = Some fixed\<close> evaluate_def)
  qed
qed (simp add: evaluate_def)

text \<open>Users of old versions never cause a regression: an occurrence without a build tag, on a build
  that first appeared before the fix build, or dated before the fix changes nothing in the verdict.\<close>

theorem old_builds_ignored:
  assumes "map_of fs fixed = Some fe"
    and "occ_build oc = None \<or> (\<exists>b f. occ_build oc = Some b \<and> b \<noteq> fixed \<and> map_of fs b = Some f \<and> f < fe)
         \<or> (\<exists>e. pe (occ_at oc) = Some e \<and> e < fe)"
  shows "evaluate pe pr (xs @ oc # ys) fs (Some fixed) traffic now th
    = evaluate pe pr (xs @ ys) fs (Some fixed) traffic now th"
proof -
  have "post_fix_epoch pe fs fixed fe oc = None"
    using assms(2) by (auto simp: post_fix_epoch_def on_or_after_def split: option.splits)
  then have "selected (post_fix_epoch pe fs fixed fe) (xs @ oc # ys)
      = selected (post_fix_epoch pe fs fixed fe) (xs @ ys)"
    by (simp add: selected_def map_filter_def)
  then show ?thesis by (simp only: evaluate_unfold [OF assms(1)])
qed

text \<open>The denominator covers the numerator: when the bug's stream is part of the application's
  stream, the recurrences reported against the first-seen map of that stream are at most the
  post-fix traffic counted over it; and neither depends on the order of the streams.\<close>

theorem recurrences_within_traffic:
  assumes "mset bug \<subseteq># mset app"
  shows "out_post_fix_occurrences (evaluate pe pr bug (first_seen_by_build pe app) (Some fixed) traffic now th)
      \<le> post_fix_traffic pe app fixed
    \<and> (mset bug' = mset bug \<longrightarrow>
         evaluate pe pr bug' (first_seen_by_build pe app) (Some fixed) traffic now th
       = evaluate pe pr bug (first_seen_by_build pe app) (Some fixed) traffic now th)"
proof (cases "map_of (first_seen_by_build pe app) fixed")
  case None
  then show ?thesis by (simp add: evaluate_def)
next
  case (Some fe)
  let ?post = "post_fix_epoch pe (first_seen_by_build pe app) fixed fe"
  have "size (filter_mset (\<lambda>oc. ?post oc \<noteq> None) (mset bug)) \<le> size (filter_mset (\<lambda>oc. ?post oc \<noteq> None) (mset app))"
    by (intro size_mset_mono multiset_filter_mono assms)
  then have "length (selected ?post bug) \<le> post_fix_traffic pe app fixed"
    by (simp add: length_selected post_fix_traffic_def Some Let_def flip: mset_filter)
  moreover have "evaluate pe pr bug' (first_seen_by_build pe app) (Some fixed) traffic now th
       = evaluate pe pr bug (first_seen_by_build pe app) (Some fixed) traffic now th" if "mset bug' = mset bug"
  proof -
    have "mset (selected ?post bug') = mset (selected ?post bug)" by (rule selected_perm [OF that])
    then have "length (selected ?post bug') = length (selected ?post bug)"
      "set (selected ?post bug') = set (selected ?post bug)" by (metis size_mset, metis set_mset_mset)
    then show ?thesis by (auto simp: evaluate_unfold [OF Some] Let_def)
  qed
  ultimately show ?thesis by (auto simp: evaluate_unfold [OF Some] Let_def)
qed

section \<open>Witnesses\<close>

text \<open>A time is written as its epoch.\<close>

definition sample_stream :: "Occurrence list" where
  "sample_stream = [\<lparr>occ_at = ''10'', occ_build = Some ''1.0''\<rparr>, \<lparr>occ_at = ''20'', occ_build = Some ''1.1''\<rparr>,
     \<lparr>occ_at = ''30'', occ_build = Some ''1.0''\<rparr>]"

lemma sample_first_seen:
  "first_seen_by_build (map_option int \<circ> parse_digits) sample_stream = [(''1.0'', 10), (''1.1'', 20)]"
  by code_simp

theorem old_builds_ignored_witness:
  "evaluate (map_option int \<circ> parse_digits) show_int ([] @ \<lparr>occ_at = ''30'', occ_build = Some ''1.0''\<rparr> # [])
     [(''1.0'', 10), (''1.1'', 20)] (Some ''1.1'') 50 ''40'' thresholds_default
   = evaluate (map_option int \<circ> parse_digits) show_int ([] @ []) [(''1.0'', 10), (''1.1'', 20)] (Some ''1.1'') 50
       ''40'' thresholds_default"
  by (rule old_builds_ignored [where fe = 20]) simp_all

theorem recurrences_within_traffic_witness:
  "out_post_fix_occurrences (evaluate (map_option int \<circ> parse_digits) show_int sample_stream
       (first_seen_by_build (map_option int \<circ> parse_digits) sample_stream) (Some ''1.1'') 1 ''40'' thresholds_default)
     \<le> post_fix_traffic (map_option int \<circ> parse_digits) sample_stream ''1.1''"
  by (rule recurrences_within_traffic [THEN conjunct1]) simp

end
