(* ===== verification/Triage.thy ===== *)
theory Triage
  imports Table Text Resolution
begin

unbundle bit_operations_syntax

text \<open>
  Triage of buckets: the status machine, the seat gate and the authorization of a data request
  (\<open>src/triage/mod.rs\<close>, \<open>src/auth/session.rs\<close>), the stored triage, tickets and resolution history
  (\<open>src/db/tenant/triage.rs\<close>), and the background sweep that turns verdicts into transition events
  (\<open>src/sweep.rs\<close>).
\<close>

section \<open>The triage state machine\<close>

datatype Status = Untriaged | Investigating | Fixed | Wontfix

fun status_as_str :: "Status \<Rightarrow> string" where
  "status_as_str Untriaged = ''untriaged''"
| "status_as_str Investigating = ''investigating''"
| "status_as_str Fixed = ''fixed''"
| "status_as_str Wontfix = ''wontfix''"

definition status_parse :: "string \<Rightarrow> Status option" where
  "status_parse s =
     (if s = ''untriaged'' then Some Untriaged
      else if s = ''investigating'' then Some Investigating
      else if s = ''fixed'' then Some Fixed
      else if s = ''wontfix'' then Some Wontfix
      else None)"

definition apply_status :: "Status \<Rightarrow> Status \<Rightarrow> Status" where
  "apply_status from_status to_status = to_status"

fun on_verified_fix :: "Status \<Rightarrow> Status option" where
  "on_verified_fix Wontfix = None"
| "on_verified_fix _ = Some Fixed"

datatype SeatVerdict = Allow | NoSeat | NotSignedIn

definition seat_decision :: "bool \<Rightarrow> bool \<Rightarrow> SeatVerdict" where
  "seat_decision signed_in has_seat =
     (if \<not> signed_in then NotSignedIn else if has_seat then Allow else NoSeat)"

section \<open>The stored state\<close>

record triage_row =
  tr_app_id :: string
  tr_bucket_id :: string
  tr_status :: string
  tr_assignee :: "int option"
  tr_fixed_in_build :: "string option"
  tr_updated_at :: int

record ticket_row =
  tk_app_id :: string
  tk_bucket_id :: string
  tk_provider :: string
  tk_repo :: string
  tk_external_id :: string
  tk_url :: string

record resolution_row =
  rs_app_id :: string
  rs_bucket_id :: string
  rs_status :: string
  rs_build :: "string option"
  rs_updated_at :: int

record resolution_event =
  ev_app_id :: string
  ev_bucket_id :: string
  ev_from :: "string option"
  ev_to :: string
  ev_build :: "string option"

text \<open>The id of an event is its position in the list.\<close>

record triage_db =
  bucket_triage :: "triage_row list"
  bucket_tickets :: "ticket_row list"
  bucket_resolution_status :: "resolution_row list"
  bucket_resolution_events :: "resolution_event list"

definition tr_key :: "triage_row \<Rightarrow> string \<times> string" where "tr_key r = (tr_app_id r, tr_bucket_id r)"
definition tk_key :: "ticket_row \<Rightarrow> string \<times> string" where "tk_key r = (tk_app_id r, tk_bucket_id r)"
definition rs_key :: "resolution_row \<Rightarrow> string \<times> string" where "rs_key r = (rs_app_id r, rs_bucket_id r)"

definition triage_for_bucket :: "string \<Rightarrow> string \<Rightarrow> triage_db \<Rightarrow> triage_row option" where
  "triage_for_bucket app_id bucket_id db = row_of tr_key (app_id, bucket_id) (bucket_triage db)"

definition upsert_triage :: "int \<Rightarrow> string \<Rightarrow> string \<Rightarrow> string \<Rightarrow> int option \<Rightarrow> string option
    \<Rightarrow> triage_db \<Rightarrow> triage_db" where
  "upsert_triage now app_id bucket_id status assignee fixed_in_build db =
     db\<lparr>bucket_triage := upsert tr_key
       \<lparr>tr_app_id = app_id, tr_bucket_id = bucket_id, tr_status = status, tr_assignee = assignee,
        tr_fixed_in_build = fixed_in_build, tr_updated_at = now\<rparr>
       (\<lambda>r. r\<lparr>tr_status := status, tr_assignee := assignee, tr_fixed_in_build := fixed_in_build,
              tr_updated_at := now\<rparr>)
       (bucket_triage db)\<rparr>"

definition last_resolution_status :: "string \<Rightarrow> string \<Rightarrow> triage_db \<Rightarrow> string option" where
  "last_resolution_status app_id bucket_id db =
     map_option rs_status (row_of rs_key (app_id, bucket_id) (bucket_resolution_status db))"

text \<open>The guarded update: a row whose status is wontfix is not touched and not counted.\<close>

definition advance_triage_unless_wontfix :: "int \<Rightarrow> string \<Rightarrow> string \<Rightarrow> string \<Rightarrow> string option
    \<Rightarrow> triage_db \<Rightarrow> bool \<times> triage_db" where
  "advance_triage_unless_wontfix now app_id bucket_id new_status fixed_in_build db =
     (case triage_for_bucket app_id bucket_id db of
        Some r \<Rightarrow>
          if tr_status r = ''wontfix'' then (False, db)
          else (True, db\<lparr>bucket_triage := update_where (\<lambda>s. tr_key s = (app_id, bucket_id))
            (\<lambda>s. s\<lparr>tr_status := new_status,
                   tr_fixed_in_build :=
                     (if last_resolution_status app_id bucket_id db = Some ''regressed'' then fixed_in_build
                      else case tr_fixed_in_build s of Some b \<Rightarrow> Some b | None \<Rightarrow> fixed_in_build),
                   tr_updated_at := now\<rparr>) (bucket_triage db)\<rparr>)
      | None \<Rightarrow>
          (True, db\<lparr>bucket_triage := bucket_triage db @
            [\<lparr>tr_app_id = app_id, tr_bucket_id = bucket_id, tr_status = new_status, tr_assignee = None,
              tr_fixed_in_build = fixed_in_build, tr_updated_at = now\<rparr>]\<rparr>))"

definition link_ticket :: "string \<Rightarrow> string \<Rightarrow> string \<Rightarrow> string \<Rightarrow> string \<Rightarrow> string \<Rightarrow> triage_db \<Rightarrow> triage_db" where
  "link_ticket app_id bucket_id provider repo external_id url db =
     db\<lparr>bucket_tickets := upsert tk_key
       \<lparr>tk_app_id = app_id, tk_bucket_id = bucket_id, tk_provider = provider, tk_repo = repo,
        tk_external_id = external_id, tk_url = url\<rparr>
       (\<lambda>r. r\<lparr>tk_provider := provider, tk_repo := repo, tk_external_id := external_id, tk_url := url\<rparr>)
       (bucket_tickets db)\<rparr>"

definition ticket_for_bucket :: "string \<Rightarrow> string \<Rightarrow> triage_db \<Rightarrow> ticket_row option" where
  "ticket_for_bucket app_id bucket_id db = row_of tk_key (app_id, bucket_id) (bucket_tickets db)"

definition anchored_buckets :: "triage_db \<Rightarrow> (string \<times> string \<times> string) list" where
  "anchored_buckets db =
     map (\<lambda>r. (tr_app_id r, tr_bucket_id r, the (tr_fixed_in_build r)))
       (sort_key tr_key (filter (\<lambda>r. tr_fixed_in_build r \<notin> {None, Some []}) (bucket_triage db)))"

definition upsert_resolution_status :: "int \<Rightarrow> string \<Rightarrow> string \<Rightarrow> string \<Rightarrow> string option
    \<Rightarrow> triage_db \<Rightarrow> triage_db" where
  "upsert_resolution_status now app_id bucket_id status build db =
     db\<lparr>bucket_resolution_status := upsert rs_key
       \<lparr>rs_app_id = app_id, rs_bucket_id = bucket_id, rs_status = status, rs_build = build, rs_updated_at = now\<rparr>
       (\<lambda>r. r\<lparr>rs_status := status, rs_build := build, rs_updated_at := now\<rparr>)
       (bucket_resolution_status db)\<rparr>"

definition record_resolution_event :: "string \<Rightarrow> string \<Rightarrow> string option \<Rightarrow> string \<Rightarrow> string option
    \<Rightarrow> triage_db \<Rightarrow> triage_db" where
  "record_resolution_event app_id bucket_id from_status to_status build db =
     db\<lparr>bucket_resolution_events := bucket_resolution_events db @
       [\<lparr>ev_app_id = app_id, ev_bucket_id = bucket_id, ev_from = from_status, ev_to = to_status, ev_build = build\<rparr>]\<rparr>"

definition recent_resolution_events :: "string \<Rightarrow> nat \<Rightarrow> triage_db \<Rightarrow> resolution_event list" where
  "recent_resolution_events app_id limit db =
     take limit (rev (filter (\<lambda>e. ev_app_id e = app_id) (bucket_resolution_events db)))"

section \<open>Setting a status\<close>

datatype triage_error = Unauthorized_request | Bad_status | Store_failed

text \<open>\<open>body\<close> is the status and the optional \<open>fixedInBuild\<close> of the request.\<close>

definition post_triage :: "int \<Rightarrow> (triage_error, unit) result \<Rightarrow> bool \<Rightarrow> bool \<Rightarrow> string \<Rightarrow> string
    \<Rightarrow> string \<times> string option \<Rightarrow> triage_db \<Rightarrow> (triage_error, string \<times> string option) result \<times> triage_db" where
  "post_triage now authorized read_fails write_fails app_id bucket body db =
     (case authorized of
        Inl e \<Rightarrow> (Err e, db)
      | Inr _ \<Rightarrow>
     (case status_parse (fst body) of
        None \<Rightarrow> (Err Bad_status, db)
      | Some to_status \<Rightarrow>
          if read_fails then (Err Store_failed, db)
          else
            (let current = (case triage_for_bucket app_id bucket db of
                              Some t \<Rightarrow> (case status_parse (tr_status t) of Some s \<Rightarrow> s | None \<Rightarrow> Untriaged)
                            | None \<Rightarrow> Untriaged);
                 next_status = apply_status current to_status;
                 fixed_in_build = (if next_status = Fixed then
                     (case snd body of Some b \<Rightarrow> if trim b \<noteq> [] then Some (trim b) else None | None \<Rightarrow> None)
                   else None)
             in if write_fails then (Err Store_failed, db)
                else (Ok (status_as_str next_status, fixed_in_build),
                      upsert_triage now app_id bucket (status_as_str next_status) None fixed_in_build db))))"

section \<open>Authorizing a data request\<close>

text \<open>\<open>ct_eq\<close> folds the differences of all bytes before it decides.\<close>

definition byte_word :: "char \<Rightarrow> 8 word" where "byte_word c = of_nat (byte c)"

definition ct_eq :: "string \<Rightarrow> string \<Rightarrow> bool" where
  "ct_eq a b =
     (if length a \<noteq> length b then False
      else foldl (\<lambda>diff (x, y). diff OR (byte_word x XOR byte_word y)) 0 (zip a b) = 0)"

text \<open>What a request presents and what the stores answer; a failed lookup answers nothing.\<close>

record request =
  rq_authorization :: "string option"
  rq_tenant_header :: "string option"
  rq_user :: "int option"
  rq_user_org :: "int option"

record directory =
  dir_shared_key :: "string option"
  dir_org_for_key :: "string \<Rightarrow> int option"
  dir_has_seat :: "int \<Rightarrow> int \<Rightarrow> bool"
  dir_resolves :: "int \<Rightarrow> bool"
  dir_owns_app :: "int \<Rightarrow> string \<Rightarrow> bool"

datatype auth_error = UNAUTHORIZED | PAYMENT_REQUIRED | AUTH_NOT_FOUND | AUTH_BAD_REQUEST

definition bearer :: "request \<Rightarrow> string option" where
  "bearer rq = Option.bind (rq_authorization rq) (\<lambda>h. strip_prefix h ''Bearer '')"

definition admin_target :: "request \<Rightarrow> int option" where
  "admin_target rq = Option.bind (rq_tenant_header rq) (\<lambda>s. parse_i64 (trim s))"

definition resolve_owning :: "directory \<Rightarrow> int \<Rightarrow> string \<Rightarrow> (auth_error, int) result" where
  "resolve_owning dir org_id app_id =
     (if \<not> dir_resolves dir org_id then Err AUTH_NOT_FOUND
      else if dir_owns_app dir org_id app_id then Ok org_id
      else Err AUTH_NOT_FOUND)"

definition seat_gate :: "directory \<Rightarrow> request \<Rightarrow> string \<Rightarrow> (auth_error, int) result" where
  "seat_gate dir rq app_id =
     (let signed_in = (rq_user rq \<noteq> None);
          org = (case rq_user rq of Some _ \<Rightarrow> rq_user_org rq | None \<Rightarrow> None);
          has_seat = (case (rq_user rq, org) of (Some uid, Some o') \<Rightarrow> dir_has_seat dir o' uid | _ \<Rightarrow> False)
      in case seat_decision signed_in has_seat of
           NotSignedIn \<Rightarrow> Err UNAUTHORIZED
         | NoSeat \<Rightarrow> Err PAYMENT_REQUIRED
         | Allow \<Rightarrow> (case (rq_user rq, org) of
             (Some _, Some o') \<Rightarrow> resolve_owning dir o' app_id
           | _ \<Rightarrow> Err UNAUTHORIZED))"

definition authorize_app :: "directory \<Rightarrow> request \<Rightarrow> string \<Rightarrow> (auth_error, int) result" where
  "authorize_app dir rq app_id =
     (case bearer rq of
        None \<Rightarrow> seat_gate dir rq app_id
      | Some token \<Rightarrow>
          (let is_admin = (case dir_shared_key dir of
                             Some s \<Rightarrow> s \<noteq> [] \<and> ct_eq s token | None \<Rightarrow> False)
           in if is_admin then
                (case admin_target rq of
                   Some org_id \<Rightarrow> resolve_owning dir org_id app_id
                 | None \<Rightarrow> Err AUTH_BAD_REQUEST)
              else (case dir_org_for_key dir token of
                      Some org_id \<Rightarrow> resolve_owning dir org_id app_id
                    | None \<Rightarrow> seat_gate dir rq app_id)))"

section \<open>The background sweep\<close>

definition interval_secs :: "string option \<Rightarrow> nat option" where
  "interval_secs env =
     (case env of
        Some v \<Rightarrow> if v = ''0'' then None
          else Some (case parse_unsigned 64 v of Some n \<Rightarrow> n | None \<Rightarrow> 5 * 60)
      | None \<Rightarrow> Some (5 * 60))"

record alert =
  al_app :: string
  al_bucket :: string
  al_from :: "string option"
  al_to :: string
  al_org :: int
  al_text :: string

definition alert_payload :: "string \<Rightarrow> string \<Rightarrow> string option \<Rightarrow> string \<Rightarrow> int \<Rightarrow> alert option" where
  "alert_payload app_id bucket_id from_status to_status org_id =
     (if to_status \<noteq> ''regressed'' \<and> to_status \<noteq> ''resolved'' then None
      else Some \<lparr>al_app = app_id, al_bucket = bucket_id, al_from = from_status, al_to = to_status, al_org = org_id,
        al_text = ''Reproit: bucket '' @ bucket_id @ '' in '' @ app_id @ '' is now '' @ to_status @ '' (was ''
          @ (case from_status of Some f \<Rightarrow> f | None \<Rightarrow> ''?'') @ '')''\<rparr>)"

definition transition :: "string option \<Rightarrow> string \<Rightarrow> string option option" where
  "transition prev current =
     (case prev of None \<Rightarrow> None | Some p \<Rightarrow> if p = current then None else Some (Some p))"

text \<open>What the telemetry store returns for an application and for one of its buckets.\<close>

record streams =
  build_traffic :: "string \<Rightarrow> (string \<times> 64 word \<times> string) list"
  recent_stream :: "string \<Rightarrow> Occurrence list"
  bucket_stream :: "string \<Rightarrow> string \<Rightarrow> Occurrence list"

text \<open>\<open>max_by_key\<close> returns the last of the maximal elements.\<close>

definition latest_post_fix_build :: "(string \<Rightarrow> int option) \<Rightarrow> Occurrence list \<Rightarrow> first_seen \<Rightarrow> string \<Rightarrow> string option" where
  "latest_post_fix_build pe bug fs fixed =
     (case map_of fs fixed of
        None \<Rightarrow> None
      | Some fe \<Rightarrow>
          (let hits = List.map_filter (\<lambda>oc.
                 Option.bind (occ_build oc) (\<lambda>b.
                 Option.bind (pe (occ_at oc)) (\<lambda>e.
                 Option.bind (map_of fs b) (\<lambda>be.
                 if fe \<le> e \<and> (b = fixed \<or> fe \<le> be) then Some (e, b) else None)))) bug
           in map_option snd (foldl (\<lambda>best h. case best of None \<Rightarrow> Some h
                | Some m \<Rightarrow> if fst m \<le> fst h then Some h else best) None hits)))"

definition weighted_traffic :: "streams \<Rightarrow> string \<Rightarrow> (Occurrence \<times> 64 word) list" where
  "weighted_traffic st app_id =
     map (\<lambda>(build, n, at). (\<lparr>occ_at = at, occ_build = Some build\<rparr>, n)) (build_traffic st app_id)"

definition app_stream :: "streams \<Rightarrow> string \<Rightarrow> Occurrence list" where
  "app_stream st app_id =
     (if weighted_traffic st app_id = [] then recent_stream st app_id else map fst (weighted_traffic st app_id))"

definition fix_traffic :: "(string \<Rightarrow> int option) \<Rightarrow> streams \<Rightarrow> string \<Rightarrow> string \<Rightarrow> 64 word" where
  "fix_traffic pe st app_id fixed =
     (if weighted_traffic st app_id = [] then of_nat (post_fix_traffic pe (app_stream st app_id) fixed)
      else post_fix_build_traffic pe (weighted_traffic st app_id) fixed)"

text \<open>The verdict on the read path and on the sweep.\<close>

definition compute_resolution_for_occurrences :: "(string \<Rightarrow> int option) \<Rightarrow> (int \<Rightarrow> string) \<Rightarrow> Thresholds \<Rightarrow> streams
    \<Rightarrow> string \<Rightarrow> string \<Rightarrow> string option \<Rightarrow> Occurrence list \<Rightarrow> Outcome" where
  "compute_resolution_for_occurrences pe pr th st now app_id fixed bug =
     evaluate pe pr bug (first_seen_by_build pe (app_stream st app_id)) fixed
       (case fixed of Some f \<Rightarrow> fix_traffic pe st app_id f | None \<Rightarrow> 0) now th"

definition compute_for_bucket :: "(string \<Rightarrow> int option) \<Rightarrow> (int \<Rightarrow> string) \<Rightarrow> Thresholds \<Rightarrow> streams
    \<Rightarrow> string \<Rightarrow> string \<Rightarrow> string \<Rightarrow> string \<Rightarrow> Outcome \<times> string option" where
  "compute_for_bucket pe pr th st now app_id bucket fixed =
     (let bug = bucket_stream st app_id bucket;
          first_seen = first_seen_by_build pe (app_stream st app_id)
      in (evaluate pe pr bug first_seen (Some fixed) (fix_traffic pe st app_id fixed) now th,
          latest_post_fix_build pe bug first_seen fixed))"

datatype sweep_call = ComputeResolution | LastStatus | RecordEvent | UpsertStatus

datatype effect =
    Alert alert
  | CloseTicket string string string
  | ReopenTicket string string "string option"

record sweep_env =
  sw_verdict :: "string \<Rightarrow> string \<Rightarrow> string \<Rightarrow> Outcome \<times> string option"
  sw_fault :: "string \<times> string \<Rightarrow> sweep_call \<Rightarrow> bool"
  sw_webhook :: bool
  sw_now :: int
  sw_org :: int

text \<open>The event is written before the status; a failing call stops the bucket there.\<close>

definition sweep_bucket :: "sweep_env \<Rightarrow> string \<times> string \<times> string \<Rightarrow> triage_db
    \<Rightarrow> (sweep_call, nat) result \<times> effect list \<times> triage_db" where
  "sweep_bucket w b db =
     (case b of (app_id, bucket_id, fixed) \<Rightarrow>
      if sw_fault w (app_id, bucket_id) ComputeResolution then (Err ComputeResolution, [], db)
      else
        (let (outcome, regression_build) = sw_verdict w app_id bucket_id fixed;
             current = resolution_as_str (out_status outcome)
         in if sw_fault w (app_id, bucket_id) LastStatus then (Err LastStatus, [], db)
            else
              (case transition (last_resolution_status app_id bucket_id db) current of
                 None \<Rightarrow>
                   if sw_fault w (app_id, bucket_id) UpsertStatus then (Err UpsertStatus, [], db)
                   else (Ok 0, [], upsert_resolution_status (sw_now w) app_id bucket_id current (Some fixed) db)
               | Some from_status \<Rightarrow>
                   if sw_fault w (app_id, bucket_id) RecordEvent then (Err RecordEvent, [], db)
                   else
                     (let db1 = record_resolution_event app_id bucket_id from_status current (Some fixed) db;
                          alerts = (if sw_webhook w
                            then (case alert_payload app_id bucket_id from_status current (sw_org w) of
                                    Some p \<Rightarrow> [Alert p] | None \<Rightarrow> []) else []);
                          tickets = (if current = ''resolved'' then [CloseTicket app_id bucket_id fixed]
                            else if current = ''regressed'' then [ReopenTicket app_id bucket_id regression_build]
                            else [])
                      in if sw_fault w (app_id, bucket_id) UpsertStatus then (Err UpsertStatus, alerts @ tickets, db1)
                         else (Ok 1, alerts @ tickets,
                               upsert_resolution_status (sw_now w) app_id bucket_id current (Some fixed) db1)))))"

definition sweep_step :: "sweep_env \<Rightarrow> string \<times> string \<times> string \<Rightarrow> nat \<times> effect list \<times> triage_db
    \<Rightarrow> nat \<times> effect list \<times> triage_db" where
  "sweep_step w b s =
     (case s of (changes, effs, db) \<Rightarrow>
      (case sweep_bucket w b db of
         (Inr n, es, db') \<Rightarrow> (changes + n, effs @ es, db')
       | (Inl _, es, db') \<Rightarrow> (changes, effs @ es, db')))"

definition sweep_tenant :: "bool \<Rightarrow> sweep_env \<Rightarrow> triage_db \<Rightarrow> nat \<times> effect list \<times> triage_db" where
  "sweep_tenant read_fails w db =
     (if read_fails then (0, [], db) else fold (sweep_step w) (anchored_buckets db) (0, [], db))"

section \<open>Lemmas\<close>

text \<open>A store that answers the last value put under a key.\<close>

locale keyed_store =
  fixes get :: "'k \<Rightarrow> 's \<Rightarrow> 'v option" and put :: "'k \<Rightarrow> 'v \<Rightarrow> 's \<Rightarrow> 's"
  assumes get_put: "get k' (put k v s) = (if k' = k then Some v else get k' s)"
begin

lemma get_puts: "get k (foldl (\<lambda>s (k, v). put k v s) s kvs) =
    (case map_of (rev kvs) k of Some v \<Rightarrow> Some v | None \<Rightarrow> get k s)"
  by (induction kvs rule: rev_induct) (auto simp: get_put map_add_def split: option.splits)

lemma put_idem: "get k' (put k v (put k v' s)) = get k' (put k v s)"
  by (simp add: get_put)

end

interpretation statuses: keyed_store "\<lambda>k. last_resolution_status (fst k) (snd k)"
    "\<lambda>k v. upsert_resolution_status now (fst k) (snd k) v build" for now build
  by unfold_locales
    (auto simp: last_resolution_status_def upsert_resolution_status_def row_of_upsert rs_key_def split: option.splits)

interpretation tickets: keyed_store "\<lambda>k db. map_option tk_url (ticket_for_bucket (fst k) (snd k) db)"
    "\<lambda>k v. link_ticket (fst k) (snd k) provider repo external_id v" for provider repo external_id
  by unfold_locales
    (auto simp: ticket_for_bucket_def link_ticket_def row_of_upsert tk_key_def split: option.splits)

interpretation triages: keyed_store "\<lambda>k db. map_option tr_status (triage_for_bucket (fst k) (snd k) db)"
    "\<lambda>k v. upsert_triage now (fst k) (snd k) v assignee build" for now assignee build
  by unfold_locales
    (auto simp: triage_for_bucket_def upsert_triage_def row_of_upsert tr_key_def split: option.splits)

lemma byte_word_inj: "byte_word x = byte_word y \<longleftrightarrow> x = y"
proof
  assume "byte_word x = byte_word y"
  then have "unat (byte_word x) = unat (byte_word y)" by simp
  then have "byte x = byte y" using byte_less [of x] byte_less [of y] by (simp add: byte_word_def unat_of_nat)
  then show "x = y" by (simp add: byte_def)
qed simp

lemma or_zero_iff: "a OR b = 0 \<longleftrightarrow> a = 0 \<and> b = (0 :: 8 word)"
  by (auto simp: bit_eq_iff bit_or_iff)

lemma xor_zero_iff: "a XOR b = 0 \<longleftrightarrow> a = (b :: 8 word)"
  by (auto simp: bit_eq_iff bit_xor_iff)

lemma diff_fold:
  "foldl (\<lambda>diff (x, y). diff OR (byte_word x XOR byte_word y)) d (zip a b) = 0
     \<longleftrightarrow> d = 0 \<and> (\<forall>(x, y) \<in> set (zip a b). x = y)"
proof (induction "zip a b" arbitrary: a b d)
  case (Cons p ps)
  obtain x as y bs where ab: "a = x # as" "b = y # bs" "p = (x, y)" "ps = zip as bs"
    using Cons.hyps(2) by (cases a; cases b) auto
  have "byte_word x XOR byte_word y = 0 \<longleftrightarrow> x = y" by (simp only: xor_zero_iff byte_word_inj)
  with Cons.hyps(1) [OF ab(4)] ab show ?case by (auto simp: or_zero_iff)
qed auto

text \<open>The constant-time comparison decides equality.\<close>

lemma ct_eq_iff: "ct_eq a b \<longleftrightarrow> a = b"
proof -
  have "length a = length b \<Longrightarrow> (\<forall>(x, y) \<in> set (zip a b). x = y) \<longleftrightarrow> a = b"
    by (induction a b rule: list_induct2) auto
  then show ?thesis unfolding ct_eq_def diff_fold by auto
qed

lemma resolve_owning_Ok: "resolve_owning dir org app_id = Ok o' \<longleftrightarrow> o' = org \<and> dir_resolves dir org \<and> dir_owns_app dir org app_id"
  by (auto simp: resolve_owning_def)

lemma seat_gate_Ok: "seat_gate dir rq app_id = Ok org \<longleftrightarrow>
    (\<exists>uid. rq_user rq = Some uid \<and> rq_user_org rq = Some org \<and> dir_has_seat dir org uid)
    \<and> dir_resolves dir org \<and> dir_owns_app dir org app_id"
  by (auto simp: seat_gate_def seat_decision_def resolve_owning_Ok Let_def split: option.splits)

lemma resolution_as_str_inject: "resolution_as_str a = resolution_as_str b \<longleftrightarrow> a = b"
  by (cases a; cases b) simp_all

lemma transition_Some: "transition prev cur = Some f \<longleftrightarrow> (\<exists>p. prev = Some p \<and> p \<noteq> cur \<and> f = Some p)"
  by (auto simp: transition_def split: option.splits)

lemma transition_None: "transition prev cur = None \<longleftrightarrow> prev = None \<or> prev = Some cur"
  by (auto simp: transition_def split: option.splits)

text \<open>
  A linked history: newest event first, every event starts from the status the one before it ended
  in, ends in a different one, and the newest ends in the stored status.
\<close>

fun linked :: "resolution_event list \<Rightarrow> string \<Rightarrow> bool" where
  "linked [] s \<longleftrightarrow> True"
| "linked (e # es) s \<longleftrightarrow> ev_to e = s \<and> (\<exists>p. ev_from e = Some p \<and> p \<noteq> s \<and> linked es p)"

definition events_of :: "string \<times> string \<Rightarrow> triage_db \<Rightarrow> resolution_event list" where
  "events_of k db = rev (filter (\<lambda>e. (ev_app_id e, ev_bucket_id e) = k) (bucket_resolution_events db))"

fun consistent :: "string option \<Rightarrow> resolution_event list \<Rightarrow> bool" where
  "consistent None es \<longleftrightarrow> es = []"
| "consistent (Some s) es \<longleftrightarrow> linked es s"

definition history_ok :: "triage_db \<Rightarrow> bool" where
  "history_ok db \<longleftrightarrow> (\<forall>a b. consistent (last_resolution_status a b db) (events_of (a, b) db))"

lemma events_upsert [simp]: "events_of k (upsert_resolution_status now a b s build db) = events_of k db"
  "bucket_resolution_events (upsert_resolution_status now a b s build db) = bucket_resolution_events db"
  by (simp_all add: events_of_def upsert_resolution_status_def)

lemma events_record: "events_of k (record_resolution_event a b f t build db) =
    (if k = (a, b) then \<lparr>ev_app_id = a, ev_bucket_id = b, ev_from = f, ev_to = t, ev_build = build\<rparr> # events_of k db
     else events_of k db)"
  by (auto simp: events_of_def record_resolution_event_def)

lemma status_record [simp]: "last_resolution_status x y (record_resolution_event a b f t build db) = last_resolution_status x y db"
  by (simp add: last_resolution_status_def record_resolution_event_def)

lemma status_upsert: "last_resolution_status x y (upsert_resolution_status now a b s build db) =
    (if (x, y) = (a, b) then Some s else last_resolution_status x y db)"
  using statuses.get_put [where k' = "(x, y)" and k = "(a, b)" and v = s and s = db] by simp

lemma sweep_bucket_history:
  assumes ok: "history_ok db" and nf: "\<not> sw_fault w (a, b) UpsertStatus"
    and sw: "sweep_bucket w (a, b, fixed) db = (r, es, db')"
  shows "history_ok db'
    \<and> length (bucket_resolution_events db') = length (bucket_resolution_events db) + (case r of Inr n \<Rightarrow> n | Inl _ \<Rightarrow> 0)"
proof -
  obtain out reg where v: "sw_verdict w a b fixed = (out, reg)" by fastforce
  let ?cur = "resolution_as_str (out_status out)"
  have keep: ?thesis if "db' = db" "\<exists>c. r = Inl c" using that ok by auto
  have seed: ?thesis if n: "transition (last_resolution_status a b db) ?cur = None" and "r = Inr 0"
    and db': "db' = upsert_resolution_status (sw_now w) a b ?cur (Some fixed) db"
  proof -
    have "linked (events_of (a, b) db) ?cur"
      using ok n [unfolded transition_None] unfolding history_ok_def
      by (metis consistent.simps linked.simps(1))
    with ok that show ?thesis by (auto simp: history_ok_def status_upsert)
  qed
  have move: ?thesis if s: "transition (last_resolution_status a b db) ?cur = Some f" and "r = Inr 1"
    and db': "db' = upsert_resolution_status (sw_now w) a b ?cur (Some fixed)
          (record_resolution_event a b f ?cur (Some fixed) db)" for f
  proof -
    from s obtain p where p: "last_resolution_status a b db = Some p" "p \<noteq> ?cur" "f = Some p"
      by (auto simp: transition_Some)
    have "linked (events_of (a, b) db) p" using ok p(1) unfolding history_ok_def
      by (metis consistent.simps(2))
    then have "history_ok db'" using ok p by (auto simp: history_ok_def db' status_upsert events_record)
    with that show ?thesis by (simp add: record_resolution_event_def)
  qed
  show ?thesis
  proof (cases "transition (last_resolution_status a b db) ?cur")
    case None
    with sw v nf keep seed show ?thesis by (auto simp: sweep_bucket_def Let_def split: if_splits)
  next
    case (Some f)
    with sw v nf keep move [OF Some] show ?thesis by (auto simp: sweep_bucket_def Let_def split: if_splits)
  qed
qed

lemma sweep_step_eq: "sweep_bucket w b db = (r, e, d) \<Longrightarrow>
    sweep_step w b (n, es, db) = (case r of Inl _ \<Rightarrow> n | Inr m \<Rightarrow> n + m, es @ e, d)"
  by (cases r) (simp_all add: sweep_step_def)

lemma sweep_fold_history:
  assumes "history_ok db" "\<And>k. \<not> sw_fault w k UpsertStatus"
    "fold (sweep_step w) bs (n, es, db) = (n', es', db')"
  shows "history_ok db' \<and> length (bucket_resolution_events db') + n = length (bucket_resolution_events db) + n'"
  using assms(1,3)
proof (induction bs arbitrary: n es db)
  case (Cons b bs)
  obtain x y fixed where b: "b = (x, y, fixed)" by (cases b)
  obtain r e d where s: "sweep_bucket w (x, y, fixed) db = (r, e, d)" by (cases "sweep_bucket w (x, y, fixed) db")
  note h = sweep_bucket_history [OF Cons.prems(1) assms(2) s]
  from Cons.prems(2) have "fold (sweep_step w) bs (case r of Inl _ \<Rightarrow> n | Inr m \<Rightarrow> n + m, es @ e, d) = (n', es', db')"
    by (simp add: b sweep_step_eq [OF s])
  from Cons.IH [OF _ this] h show ?case by (cases r) auto
qed simp

definition triage_status :: "string \<Rightarrow> string \<Rightarrow> triage_db \<Rightarrow> Status" where
  "triage_status app_id bucket_id db =
     (case triage_for_bucket app_id bucket_id db of
        Some t \<Rightarrow> (case status_parse (tr_status t) of Some s \<Rightarrow> s | None \<Rightarrow> Untriaged)
      | None \<Rightarrow> Untriaged)"

lemma status_parse_wontfix: "status_parse s = Some Wontfix \<longleftrightarrow> s = ''wontfix''"
  by (simp add: status_parse_def)

lemma status_parse_as_str [simp]: "status_parse (status_as_str s) = Some s"
  by (cases s) (simp_all add: status_parse_def)

lemma triage_status_wontfix: "triage_status a b db = Wontfix \<longleftrightarrow>
    (\<exists>t. triage_for_bucket a b db = Some t \<and> tr_status t = ''wontfix'')"
  by (auto simp: triage_status_def status_parse_def split: option.splits)

section \<open>Properties\<close>

text \<open>C36. The transition log is a faithful history: a sweep of a tenant whose status writes do not fail
  keeps, for every bucket, the log linked (each event starts where the previous one ended and ends
  in a different status, the newest in the stored status), whatever the verdicts and whichever other
  calls fail, and it reports as many changes as it appended events.\<close>

theorem sweep_keeps_history:
  assumes "history_ok db" "\<And>k. \<not> sw_fault w k UpsertStatus" "sweep_tenant read_fails w db = (n, es, db')"
  shows "history_ok db' \<and> length (bucket_resolution_events db') = length (bucket_resolution_events db) + n"
  using assms sweep_fold_history [OF assms(1,2), where n = 0 and n' = n and db' = db' and es' = es]
  by (auto simp: sweep_tenant_def split: if_splits)

text \<open>The guarded SQL update refines the pure rule for a verified fix: it reports success exactly when
  the rule advances the bucket's status, leaves that status stored, keeps an existing fix anchor
  unless production last contradicted it, and touches no other bucket; a bucket marked wontfix is
  left exactly as it was.\<close>

theorem verified_fix_refines:
  "case advance_triage_unless_wontfix now a b ''fixed'' fixed db of (ok, db') \<Rightarrow>
     (ok \<longleftrightarrow> on_verified_fix (triage_status a b db) \<noteq> None)
   \<and> (\<not> ok \<longrightarrow> db' = db)
   \<and> (ok \<longrightarrow> Some (triage_status a b db') = on_verified_fix (triage_status a b db)
       \<and> (\<exists>t'. triage_for_bucket a b db' = Some t'
          \<and> tr_fixed_in_build t' =
              (case triage_for_bucket a b db of
                 None \<Rightarrow> fixed
               | Some t \<Rightarrow> if last_resolution_status a b db = Some ''regressed'' \<or> tr_fixed_in_build t = None
                           then fixed else tr_fixed_in_build t)))
   \<and> (\<forall>a' b'. (a', b') \<noteq> (a, b) \<longrightarrow> triage_for_bucket a' b' db' = triage_for_bucket a' b' db)"
proof -
  let ?f = "\<lambda>s. s\<lparr>tr_status := ''fixed'', tr_fixed_in_build :=
      (if last_resolution_status a b db = Some ''regressed'' then fixed
       else case tr_fixed_in_build s of Some b \<Rightarrow> Some b | None \<Rightarrow> fixed), tr_updated_at := now\<rparr>"
  have key: "tr_key (?f s) = tr_key s" for s by (simp add: tr_key_def)
  note upd = row_of_update_where [of tr_key ?f, OF key]
  have fixed: "status_parse ''fixed'' = Some Fixed" by (simp add: status_parse_def)
  have rule: "on_verified_fix (triage_status a b db) =
      (if \<exists>t. triage_for_bucket a b db = Some t \<and> tr_status t = ''wontfix'' then None else Some Fixed)"
    using triage_status_wontfix [of a b db] by (cases "triage_status a b db") auto
  show ?thesis
  proof (cases "triage_for_bucket a b db")
    case None
    then show ?thesis
      by (auto simp: advance_triage_unless_wontfix_def rule triage_status_def triage_for_bucket_def
        row_of_append tr_key_def fixed split: option.splits)
  next
    case (Some t)
    show ?thesis
    proof (cases "tr_status t = ''wontfix''")
      case True
      with Some show ?thesis by (simp add: advance_triage_unless_wontfix_def rule)
    next
      case False
      let ?db' = "db\<lparr>bucket_triage := update_where (\<lambda>s. tr_key s = (a, b)) ?f (bucket_triage db)\<rparr>"
      have adv: "advance_triage_unless_wontfix now a b ''fixed'' fixed db = (True, ?db')"
        using Some False by (simp add: advance_triage_unless_wontfix_def)
      have here: "triage_for_bucket a b ?db' = Some (?f t)"
        using Some by (simp add: triage_for_bucket_def upd)
      have there: "triage_for_bucket a' b' ?db' = triage_for_bucket a' b' db" if "(a', b') \<noteq> (a, b)" for a' b'
        using that by (auto simp: triage_for_bucket_def upd)
      have "triage_status a b ?db' = Fixed" by (simp add: triage_status_def here fixed)
      then show ?thesis unfolding adv using Some False here there
        by (auto simp: rule split: option.splits)
    qed
  qed
qed

text \<open>C6. Tenant isolation: a data request is served only from an organization whose tenant resolves and
  owns the application, and which is the one the shared admin key named, the owner of the presented
  key, or the organization of a signed-in user who holds a seat in it.\<close>

theorem authorize_app_isolated:
  assumes "authorize_app dir rq app_id = Ok org"
  shows "dir_resolves dir org \<and> dir_owns_app dir org app_id
    \<and> ((\<exists>token. bearer rq = Some token \<and> dir_shared_key dir = Some token \<and> admin_target rq = Some org)
       \<or> (\<exists>token. bearer rq = Some token \<and> dir_org_for_key dir token = Some org)
       \<or> (\<exists>uid. rq_user rq = Some uid \<and> rq_user_org rq = Some org \<and> dir_has_seat dir org uid))"
proof (cases "bearer rq")
  case None
  with assms show ?thesis by (auto simp: authorize_app_def seat_gate_Ok)
next
  case (Some token)
  show ?thesis
  proof (cases "dir_shared_key dir = Some token \<and> token \<noteq> []")
    case True
    with Some assms show ?thesis
      by (auto simp: authorize_app_def ct_eq_iff resolve_owning_Ok split: option.splits)
  next
    case False
    with Some assms have "(case dir_org_for_key dir token of
        Some o' \<Rightarrow> resolve_owning dir o' app_id | None \<Rightarrow> seat_gate dir rq app_id) = Ok org"
      by (auto simp: authorize_app_def ct_eq_iff Let_def split: option.splits if_splits)
    with Some show ?thesis by (auto simp: resolve_owning_Ok seat_gate_Ok split: option.splits)
  qed
qed

section \<open>Witnesses\<close>

definition sample_triage_db :: triage_db where
  "sample_triage_db = \<lparr>bucket_triage = [\<lparr>tr_app_id = ''app'', tr_bucket_id = ''b'', tr_status = ''fixed'',
       tr_assignee = None, tr_fixed_in_build = Some ''1.1'', tr_updated_at = 0\<rparr>],
     bucket_tickets = [],
     bucket_resolution_status = [\<lparr>rs_app_id = ''app'', rs_bucket_id = ''b'', rs_status = ''resolved'',
       rs_build = Some ''1.1'', rs_updated_at = 0\<rparr>],
     bucket_resolution_events = []\<rparr>"

definition sample_sweep :: sweep_env where
  "sample_sweep = \<lparr>sw_verdict = (\<lambda>_ _ fixed. (\<lparr>out_status = Regressed, out_fixed_in_build = Some fixed,
       out_last_seen_on_fixed_build = None, out_post_fix_occurrences = 1\<rparr>, Some fixed)),
     sw_fault = (\<lambda>_ _. False), sw_webhook = False, sw_now = 1, sw_org = 7\<rparr>"

theorem sweep_keeps_history_witness:
  "\<exists>es db'. sweep_tenant False sample_sweep sample_triage_db = (1, es, db')
     \<and> history_ok db' \<and> length (bucket_resolution_events db') = 1"
proof -
  have ok: "history_ok sample_triage_db"
    by (auto simp: history_ok_def events_of_def sample_triage_db_def last_resolution_status_def row_of_def rs_key_def)
  obtain n es db' where s: "sweep_tenant False sample_sweep sample_triage_db = (n, es, db')"
    by (cases "sweep_tenant False sample_sweep sample_triage_db")
  have "fst (sweep_tenant False sample_sweep sample_triage_db) = 1" by code_simp
  then have "n = 1" by (simp add: s)
  with sweep_keeps_history [OF ok _ s] s show ?thesis
    by (simp add: sample_sweep_def sample_triage_db_def)
qed

theorem verified_fix_refines_witness:
  "\<exists>db' t'. advance_triage_unless_wontfix 5 ''app'' ''b'' ''fixed'' (Some ''2.0'') sample_triage_db = (True, db')
     \<and> triage_status ''app'' ''b'' db' = Fixed
     \<and> triage_for_bucket ''app'' ''b'' db' = Some t' \<and> tr_fixed_in_build t' = Some ''1.1''"
proof -
  obtain ok db' where s: "advance_triage_unless_wontfix 5 ''app'' ''b'' ''fixed'' (Some ''2.0'') sample_triage_db
      = (ok, db')"
    by (cases "advance_triage_unless_wontfix 5 ''app'' ''b'' ''fixed'' (Some ''2.0'') sample_triage_db")
  have ok: "fst (advance_triage_unless_wontfix 5 ''app'' ''b'' ''fixed'' (Some ''2.0'') sample_triage_db)"
    and rule: "on_verified_fix (triage_status ''app'' ''b'' sample_triage_db) = Some Fixed"
    and last: "last_resolution_status ''app'' ''b'' sample_triage_db = Some ''resolved''"
    and anchor: "map_option tr_fixed_in_build (triage_for_bucket ''app'' ''b'' sample_triage_db) = Some (Some ''1.1'')"
    by code_simp+
  from verified_fix_refines [where now = 5 and a = "''app''" and b = "''b''" and fixed = "Some ''2.0''"
      and db = sample_triage_db] s ok rule last anchor
  show ?thesis by auto
qed

definition sample_directory :: directory where
  "sample_directory = \<lparr>dir_shared_key = None, dir_org_for_key = (\<lambda>k. if k = ''k'' then Some 7 else None),
     dir_has_seat = (\<lambda>_ _. False), dir_resolves = (\<lambda>org. org = 7), dir_owns_app = (\<lambda>org a. a = ''app'')\<rparr>"

definition sample_request :: request where
  "sample_request = \<lparr>rq_authorization = Some ''Bearer k'', rq_tenant_header = None, rq_user = None, rq_user_org = None\<rparr>"

theorem authorize_app_isolated_witness:
  "authorize_app sample_directory sample_request ''app'' = Ok 7 \<and> dir_owns_app sample_directory 7 ''app''"
proof -
  have a: "authorize_app sample_directory sample_request ''app'' = Ok 7" by code_simp
  from authorize_app_isolated [OF a] a show ?thesis by blast
qed

end
