(* ===== verification/Buckets.thy ===== *)
theory Buckets
  imports Text Resolution Protocol_Evidence
begin

text \<open>
  Error buckets (\<open>src/ingest/buckets.rs\<close>) and the reduction of a batch into stored records
  (\<open>src/ingest/aggregation.rs\<close>): identifiers that do not depend on volatile parts of a message, the
  replay actions a package may carry, the build coordinate and the occurrence time series. SHA-256
  with hexadecimal output, the JSON form of an identity and the time library are arguments.
\<close>

section \<open>Records\<close>

record Step =
  st_sig :: string
  st_action :: string
  st_label :: "string option"

record ErrorRec =
  er_sig :: string
  er_message :: string
  er_path :: "Step list"
  er_context :: "(string \<times> json) list"

record ReplayResult =
  rp_status :: string
  rp_runs :: "32 word"
  rp_failures :: "32 word"
  rp_local_repro_id :: "string option"
  rp_created_at :: string

record bucket_lib =
  sha256_hex :: "string \<Rightarrow> string"
  identity_of_value :: "json \<Rightarrow> FindingIdentity option"
  value_of_identity :: "FindingIdentity \<Rightarrow> json"

section \<open>Reduction of a batch\<close>

record BatchAgg =
  ba_edge_counts :: "(string \<times> int) list"
  ba_error_recs :: "ErrorRec list"

definition edge_key :: "string \<Rightarrow> string \<Rightarrow> string \<Rightarrow> string" where
  "edge_key from_sig action to_sig = from_sig @ ''|'' @ action @ ''|'' @ to_sig"

definition finding_record :: "'z bucket_lib_scheme \<Rightarrow> string \<Rightarrow> string \<Rightarrow> FindingIdentity \<Rightarrow> PathStep list
    \<Rightarrow> (string \<times> json) list \<Rightarrow> ErrorRec" where
  "finding_record lib signature message identity path context =
     \<lparr>er_sig = signature, er_message = message,
      er_path = map (\<lambda>s. \<lparr>st_sig = ps_signature s, st_action = ps_action s, st_label = ps_label s\<rparr>) path,
      er_context = bt_insert ''oracle'' (JStr (fi_oracle identity))
        (bt_insert ''findingIdentity'' (value_of_identity lib identity) context)\<rparr>"

definition aggregate_frame :: "'z bucket_lib_scheme \<Rightarrow> BatchAgg \<Rightarrow> EventFrame \<Rightarrow> BatchAgg" where
  "aggregate_frame lib agg frame =
     (case ef_event frame of
        EGraphEdge from_sig action to_sig \<Rightarrow>
          agg\<lparr>ba_edge_counts := bt_add (edge_key from_sig action to_sig) 1 (ba_edge_counts agg)\<rparr>
      | EFinding signature message identity path context \<Rightarrow>
          agg\<lparr>ba_error_recs := ba_error_recs agg @ [finding_record lib signature message identity path context]\<rparr>
      | _ \<Rightarrow> agg)"

definition aggregate_events :: "'z bucket_lib_scheme \<Rightarrow> EventFrame list \<Rightarrow> BatchAgg" where
  "aggregate_events lib frames =
     foldl (aggregate_frame lib) \<lparr>ba_edge_counts = [], ba_error_recs = []\<rparr> frames"

section \<open>Normalized messages\<close>

definition ascii_lower :: "char \<Rightarrow> char" where
  "ascii_lower c = (if is_ascii_uppercase c then char_of (byte c + 32) else c)"

definition normalize_token :: "string \<Rightarrow> string" where
  "normalize_token token =
     (let lower = map ascii_lower token;
          has_digit = list_ex is_ascii_digit token;
          has_alpha = list_ex is_ascii_alphabetic token;
          all_hex = list_all is_ascii_hexdigit token
      in if list_all is_ascii_digit token then ''N''
         else if starts_with lower ''0x'' \<and> 6 \<le> length lower \<and> list_all is_ascii_hexdigit (drop 2 lower) then ''0xID''
         else if 7 \<le> length token \<and> all_hex \<and> has_alpha then ''ID''
         else if 8 \<le> length token \<and> has_digit \<and> has_alpha then ''ID''
         else token)"

definition flush_token :: "string \<Rightarrow> string \<Rightarrow> string" where
  "flush_token out token = (if token = [] then out else out @ normalize_token token)"

definition alnum_char :: "string \<Rightarrow> bool" where
  "alnum_char c \<longleftrightarrow> length c = 1 \<and> list_all is_ascii_alphanumeric c"

fun norm_loop :: "string list \<Rightarrow> string \<Rightarrow> bool \<Rightarrow> string \<Rightarrow> string" where
  "norm_loop [] out last_was_space token = flush_token out token"
| "norm_loop (ch # cs) out last_was_space token =
     (if alnum_char ch then norm_loop cs out False (token @ ch)
      else
        (let out' = flush_token out token in
         if is_whitespace ch then norm_loop cs (if last_was_space then out' else out' @ '' '') True []
         else norm_loop cs (out' @ ch) False []))"

definition normalize_message :: "string \<Rightarrow> string" where
  "normalize_message m = trim (norm_loop (chars m) [] False [])"

section \<open>Identifiers\<close>

definition structural_bug_id :: "'z bucket_lib_scheme \<Rightarrow> FindingIdentity \<Rightarrow> string" where
  "structural_bug_id lib i =
     ''bug_'' @ take 12 (sha256_hex lib (''reproit-structural-bug-v1'' @ [CHR 0x0A] @
       concat (map (\<lambda>part. trim part @ [CHR 0x0A])
         [fi_oracle i, fi_invariant i, fi_kind i, fi_message i, fi_frame i, fi_trigger i,
          (case fi_boundary i of Some b \<Rightarrow> b | None \<Rightarrow> [])])))"

definition finding_identity :: "'z bucket_lib_scheme \<Rightarrow> ErrorRec \<Rightarrow> FindingIdentity option" where
  "finding_identity lib r = Option.bind (map_of (er_context r) ''findingIdentity'') (identity_of_value lib)"

definition is_tester_capture :: "ErrorRec \<Rightarrow> bool" where
  "is_tester_capture r \<longleftrightarrow> Option.bind (map_of (er_context r) ''oracle'') as_str = Some ''tester-capture''"

definition tester_capture_confirmed :: "ReplayResult list \<Rightarrow> bool" where
  "tester_capture_confirmed results \<longleftrightarrow> list_ex (\<lambda>r. rp_status r = ''reproduced'') results"

definition derived_bucket_id :: "'z bucket_lib_scheme \<Rightarrow> ErrorRec \<Rightarrow> string" where
  "derived_bucket_id lib r =
     (let start_sig = (case er_path r of [] \<Rightarrow> [] | s # _ \<Rightarrow> st_sig s)
      in ''bkt_'' @ take 12 (sha256_hex lib
           (normalize_message (er_message r) @ [CHR 0x1F] @ er_sig r @ [CHR 0x1F] @ start_sig)))"

fun trim_start_matches :: "nat \<Rightarrow> string \<Rightarrow> string \<Rightarrow> string" where
  "trim_start_matches 0 pat s = s"
| "trim_start_matches (Suc n) pat s =
     (case strip_prefix s pat of None \<Rightarrow> s | Some r \<Rightarrow> trim_start_matches n pat r)"

definition bucket_id :: "'z bucket_lib_scheme \<Rightarrow> ErrorRec \<Rightarrow> string" where
  "bucket_id lib r =
     (case finding_identity lib r of
        Some i \<Rightarrow> (let bug = structural_bug_id lib i in ''bkt_'' @ trim_start_matches (length bug) ''bug_'' bug)
      | None \<Rightarrow> derived_bucket_id lib r)"

fun replace_first :: "string \<Rightarrow> string \<Rightarrow> string \<Rightarrow> string" where
  "replace_first pat by s =
     (case strip_prefix s pat of
        Some r \<Rightarrow> by @ r
      | None \<Rightarrow> (case s of [] \<Rightarrow> [] | c # r \<Rightarrow> c # replace_first pat by r))"

declare replace_first.simps [simp del]

definition bug_id :: "'z bucket_lib_scheme \<Rightarrow> ErrorRec \<Rightarrow> string" where
  "bug_id lib r =
     (case finding_identity lib r of
        Some i \<Rightarrow> structural_bug_id lib i
      | None \<Rightarrow> replace_first ''bkt_'' ''bug_'' (derived_bucket_id lib r))"

definition crash_summary :: "ErrorRec \<Rightarrow> string" where
  "crash_summary r =
     (let head_part = concat (take 80 (chars (normalize_message (er_message r))))
      in if head_part = [] then er_sig r else head_part @ '' ('' @ er_sig r @ '')'')"

section \<open>Replay actions\<close>

definition is_role_selector :: "string \<Rightarrow> bool" where
  "is_role_selector sel \<longleftrightarrow>
     (case Option.bind (strip_prefix sel ''role:'') (split_once (CHR ''#'')) of
        None \<Rightarrow> False
      | Some (role, idx) \<Rightarrow>
          role \<noteq> [] \<and> list_all (\<lambda>c. is_ascii_lowercase c \<or> c = CHR ''-'') role
          \<and> idx \<noteq> [] \<and> list_all is_ascii_digit idx)"

definition is_structural_selector :: "string \<Rightarrow> bool" where
  "is_structural_selector sel \<longleftrightarrow> starts_with sel ''key:'' \<or> is_role_selector sel"

definition is_structural_tap_action :: "string \<Rightarrow> bool" where
  "is_structural_tap_action a \<longleftrightarrow>
     (case strip_prefix a ''tap:'' of None \<Rightarrow> False | Some sel \<Rightarrow> is_structural_selector sel)"

definition class_token :: "string \<Rightarrow> bool" where
  "class_token cls \<longleftrightarrow> cls \<noteq> [] \<and> length cls \<le> 32
     \<and> list_all (\<lambda>b. is_ascii_lowercase b \<or> is_ascii_digit b \<or> b = CHR ''_'' \<or> b = CHR ''-'') cls"

definition is_safe_type_action :: "string \<Rightarrow> bool" where
  "is_safe_type_action a \<longleftrightarrow>
     (case Option.bind (strip_prefix a ''type:'') (rsplit_once (CHR ''='')) of
        None \<Rightarrow> False
      | Some (sel, cls) \<Rightarrow> (starts_with sel ''key:'' \<or> is_role_selector sel) \<and> class_token cls)"

definition is_replay_action :: "string \<Rightarrow> bool" where
  "is_replay_action a \<longleftrightarrow>
     a = ''back'' \<or> starts_with a ''key:'' \<or> is_structural_tap_action a \<or> is_safe_type_action a"

definition replay_actions :: "ErrorRec \<Rightarrow> string list" where
  "replay_actions r = filter is_replay_action (map st_action (er_path r))"

section \<open>Builds and the time series\<close>

definition build_object :: "ErrorRec \<Rightarrow> (string \<times> json) list option" where
  "build_object r = Option.bind (map_of (er_context r) ''build'') as_object"

definition build_of :: "ErrorRec \<Rightarrow> (string \<times> string) list" where
  "build_of r =
     (case build_object r of
        None \<Rightarrow> []
      | Some b \<Rightarrow> foldl (\<lambda>out k. case Option.bind (map_of b k) as_str of
            Some v \<Rightarrow> bt_insert k v out | None \<Rightarrow> out) [] [''version'', ''commit''])"

definition lineage :: "ErrorRec \<Rightarrow> ErrorRec \<Rightarrow> (string \<times> string) list \<times> (string \<times> string) list" where
  "lineage oldest newest = (build_of oldest, build_of newest)"

definition build_version :: "ErrorRec \<Rightarrow> string option" where
  "build_version r =
     Option.bind (build_object r) (\<lambda>b.
       case Option.bind (map_of b ''commit'') as_str of
         Some c \<Rightarrow> Some c
       | None \<Rightarrow> Option.bind (map_of b ''version'') as_str)"

record TimelineCell =
  tc_window :: string
  tc_build :: string
  tc_count :: "64 word"

record TimelineCount =
  tn_window :: string
  tn_count :: "64 word"

record Timeline =
  tl_cells :: "TimelineCell list"
  tl_total :: "TimelineCount list"

definition window_of :: "(string \<Rightarrow> int option) \<Rightarrow> int \<Rightarrow> string \<Rightarrow> int" where
  "window_of parse_epoch window_secs ts =
     ((case parse_epoch ts of Some e \<Rightarrow> e | None \<Rightarrow> 0) div window_secs) * window_secs"

definition build_label :: "string option \<Rightarrow> string" where
  "build_label b = (case b of Some s \<Rightarrow> s | None \<Rightarrow> ''unknown'')"

type_synonym weighted = "string \<times> string option \<times> 64 word"

definition timeline_maps :: "(string \<Rightarrow> int option) \<Rightarrow> weighted list \<Rightarrow> int
    \<Rightarrow> ((int \<times> string) \<times> 64 word) list \<times> (int \<times> 64 word) list" where
  "timeline_maps parse_epoch occ window_secs =
     foldl (\<lambda>(cells, totals) (ts, build, n).
         let win = window_of parse_epoch (max window_secs 1) ts
         in (bt_add (win, build_label build) n cells, bt_add win n totals)) ([], []) occ"

definition timeline_weighted :: "(string \<Rightarrow> int option) \<Rightarrow> (int \<Rightarrow> string) \<Rightarrow> weighted list \<Rightarrow> int \<Rightarrow> Timeline" where
  "timeline_weighted parse_epoch epoch_to_rfc3339 occ window_secs =
     (case timeline_maps parse_epoch occ window_secs of
        (cells, totals) \<Rightarrow>
          \<lparr>tl_cells = map (\<lambda>((win, build), n). \<lparr>tc_window = epoch_to_rfc3339 win, tc_build = build, tc_count = n\<rparr>) cells,
           tl_total = map (\<lambda>(win, n). \<lparr>tn_window = epoch_to_rfc3339 win, tn_count = n\<rparr>) totals\<rparr>)"

definition timeline :: "(string \<Rightarrow> int option) \<Rightarrow> (int \<Rightarrow> string) \<Rightarrow> (string \<times> string option) list \<Rightarrow> int \<Rightarrow> Timeline" where
  "timeline parse_epoch epoch_to_rfc3339 occ window_secs =
     timeline_weighted parse_epoch epoch_to_rfc3339 (map (\<lambda>(ts, build). (ts, build, 1)) occ) window_secs"

section \<open>Lemmas on messages\<close>

lemma chars_append: "\<not> is_cont b \<Longrightarrow> chars (p @ b # q) = chars p @ chars (b # q)"
proof (induction p rule: chars.induct)
  case (2 x p)
  let ?r = "dropWhile is_cont p"
  have "dropWhile is_cont (p @ b # q) = ?r @ b # q" "takeWhile is_cont (p @ b # q) = takeWhile is_cont p"
    using 2(2) by (induction p) auto
  then show ?case using 2 by simp
qed simp

lemma alnum_not_cont: "is_ascii_alphanumeric c \<Longrightarrow> \<not> is_cont c"
  by (auto simp: is_cont_def ascii_simps)

lemma chars_ascii:
  assumes "list_all is_ascii_alphanumeric t"
  shows "chars t = map (\<lambda>c. [c]) t"
  using assms
proof (induction t)
  case (Cons c t)
  then have "takeWhile is_cont t = []" "dropWhile is_cont t = t"
    by (cases t; simp add: alnum_not_cont)+
  with Cons show ?case by simp
qed simp

lemma alnum_char_last: "alnum_char c \<Longrightarrow> \<exists>b. c = [b] \<and> is_ascii_alphanumeric b"
  by (cases c) (auto simp: alnum_char_def)

lemma last_last_chars: "p \<noteq> [] \<Longrightarrow> last (last (chars p)) = last p"
proof (induction p rule: chars.induct)
  case (2 b bs)
  show ?case
  proof (cases "dropWhile is_cont bs = []")
    case True
    then have "takeWhile is_cont bs = bs" by (simp add: dropWhile_eq_Nil_conv takeWhile_eq_all_conv)
    with True have "chars (b # bs) = [b # bs]" by (simp only: chars.simps)
    then show ?thesis by (simp only: last.simps refl if_True)
  next
    case False
    have "last bs = last (dropWhile is_cont bs)"
      using False by (metis last_appendR takeWhile_dropWhile_id)
    with 2(1) False show ?thesis
      by (metis (no_types, lifting) chars.simps(2) concat.simps(1) concat_chars dropWhile.simps(1) last_ConsR)
  qed
qed simp

text \<open>The loop processes a complete piece of the message into an output and a flag.\<close>

lemma norm_loop_piece:
  assumes "cs \<noteq> [] \<Longrightarrow> \<not> alnum_char (last cs)" "cs = [] \<Longrightarrow> token = []"
  shows "\<exists>out' sp'. \<forall>rest. norm_loop (cs @ rest) out sp token = norm_loop rest out' sp' []"
  using assms
proof (induction cs arbitrary: out sp token)
  case (Cons c cs)
  show ?case
  proof (cases "cs = []")
    case True
    with Cons.prems have "\<not> alnum_char c" by simp
    with True show ?thesis by (cases "is_whitespace c") (auto simp: Let_def)
  next
    case False
    then have l: "\<not> alnum_char (last cs)" using Cons.prems(1) by simp
    obtain out1 sp1 tok1 where "norm_loop (c # cs @ rest) out sp token = norm_loop (cs @ rest) out1 sp1 tok1" for rest
    proof (cases "alnum_char c")
      case True
      then show ?thesis using that [of out False "token @ c"] by simp
    next
      case na: False
      then show ?thesis using that by (cases "is_whitespace c") (auto simp: Let_def)
    qed
    moreover obtain out' sp' where "norm_loop (cs @ rest) out1 sp1 tok1 = norm_loop rest out' sp' []" for rest
      using Cons.IH [of tok1 out1 sp1] l False by blast
    ultimately show ?thesis by auto
  qed
qed auto

lemma norm_loop_token:
  assumes "list_all is_ascii_alphanumeric t"
  shows "norm_loop (map (\<lambda>c. [c]) t @ rest) out sp token
    = norm_loop rest out (if t = [] then sp else False) (token @ t)"
  using assms by (induction t arbitrary: sp token) (auto simp: alnum_char_def)

lemma norm_loop_flush:
  assumes "token \<noteq> []" "rest = [] \<or> \<not> alnum_char (hd rest)"
  shows "norm_loop rest out False token = norm_loop rest (out @ normalize_token token) False []"
  using assms by (cases rest) (auto simp: flush_token_def Let_def)

lemma normalize_token_swap:
  assumes t: "t \<noteq> []" "list_all is_ascii_alphanumeric t"
    and p: "p = [] \<or> \<not> is_ascii_alphanumeric (last p)"
    and q: "q = [] \<or> (\<not> is_ascii_alphanumeric (hd q) \<and> \<not> is_cont (hd q))"
  obtains out sp where "\<And>t. t \<noteq> [] \<Longrightarrow> list_all is_ascii_alphanumeric t \<Longrightarrow>
    norm_loop (chars (p @ t @ q)) [] False [] = norm_loop (chars q) (out @ normalize_token t) False []"
proof -
  have cs: "chars (p @ t @ q) = chars p @ map (\<lambda>c. [c]) t @ chars q"
    if "t \<noteq> []" "list_all is_ascii_alphanumeric t" for t
  proof -
    have "chars (t @ q) = chars t @ chars q"
      using q chars_append [of "hd q" t "tl q"] by (cases q) auto
    moreover have "chars (p @ t @ q) = chars p @ chars (t @ q)"
      using that chars_append [of "hd t" p "tl t @ q"] by (cases t) (auto dest: alnum_not_cont)
    ultimately show ?thesis by (simp add: chars_ascii that(2))
  qed
  have "\<not> alnum_char (last (chars p))" if "chars p \<noteq> []"
  proof
    assume a: "alnum_char (last (chars p))"
    have "p \<noteq> []" using that by auto
    moreover obtain b where "last (chars p) = [b]" "is_ascii_alphanumeric b"
      using alnum_char_last [OF a] by auto
    ultimately show False using p last_last_chars [of p] by simp
  qed
  then obtain out sp where o: "norm_loop (chars p @ rest) [] False [] = norm_loop rest out sp []" for rest
    using norm_loop_piece [of "chars p" "[]" "[]" False] by blast
  have hd_q: "chars q = [] \<or> \<not> alnum_char (hd (chars q))"
    using q by (cases q) (auto simp: alnum_char_def)
  have "norm_loop (chars (p @ t @ q)) [] False [] = norm_loop (chars q) (out @ normalize_token t) False []"
    if "t \<noteq> []" "list_all is_ascii_alphanumeric t" for t
    using that hd_q by (simp add: cs o norm_loop_token norm_loop_flush)
  then show thesis using that by blast
qed

section \<open>Lemmas on the time series\<close>

definition bt_get :: "('k \<times> 'n::zero) list \<Rightarrow> 'k \<Rightarrow> 'n" where
  "bt_get m k = (case map_of m k of Some n \<Rightarrow> n | None \<Rightarrow> 0)"

lemma bt_get_add:
  fixes n :: "'n::comm_monoid_add"
  shows "bt_ok m \<Longrightarrow> bt_get (bt_add k n m) k' = (if k' = k then bt_get m k + n else bt_get m k')"
  by (auto simp: bt_get_def map_of_bt_add split: option.splits)

lemma sum_bt_insert:
  fixes m :: "('k::linorder \<times> 'n::comm_monoid_add) list"
  assumes "bt_ok m"
  shows "sum_list (map snd (bt_insert k v m)) + bt_get m k = sum_list (map snd m) + v"
  using assms
proof (induction m)
  case (Cons kv m)
  obtain k' v' where kv: "kv = (k', v')" by fastforce
  have no: "map_of m k = None" if "k < k'"
    using Cons.prems that by (auto simp: kv bt_ok_Cons map_of_eq_None_iff dest: less_trans)
  have IH: "sum_list (map snd (bt_insert k v m)) + bt_get m k = sum_list (map snd m) + v"
    using Cons by (simp add: kv bt_ok_Cons)
  show ?case
  proof (cases "k < k'")
    case True
    then show ?thesis using no by (auto simp: kv bt_get_def add.commute)
  next
    case False
    then show ?thesis
      using IH by (auto simp: kv bt_get_def add.assoc add.commute add.left_commute)
  qed
qed (simp add: bt_get_def)

lemma sum_bt_add:
  fixes m :: "('k::linorder \<times> 'n::cancel_comm_monoid_add) list"
  assumes "bt_ok m"
  shows "sum_list (map snd (bt_add k n m)) = sum_list (map snd m) + n"
proof -
  have "sum_list (map snd (bt_add k n m)) + bt_get m k = sum_list (map snd m) + (bt_get m k + n)"
    using sum_bt_insert [OF assms, of k "bt_get m k + n"]
    by (auto simp: bt_add_def bt_get_def split: option.splits)
  then have "bt_get m k + sum_list (map snd (bt_add k n m)) = bt_get m k + (sum_list (map snd m) + n)"
    by (simp add: ac_simps)
  then show ?thesis by (simp only: add_left_cancel)
qed

definition cell_sum :: "(string \<Rightarrow> int option) \<Rightarrow> int \<Rightarrow> (int \<Rightarrow> string \<Rightarrow> bool) \<Rightarrow> weighted list \<Rightarrow> 64 word" where
  "cell_sum pe w P occ = sum_list (map (\<lambda>(ts, b, n). if P (window_of pe w ts) (build_label b) then n else 0) occ)"

lemma timeline_maps_spec:
  "(case timeline_maps pe occ secs of (cells, totals) \<Rightarrow>
      bt_ok cells \<and> bt_ok totals
    \<and> (\<forall>win b. bt_get cells (win, b) = cell_sum pe (max secs 1) (\<lambda>w l. w = win \<and> l = b) occ)
    \<and> (\<forall>win. bt_get totals win = cell_sum pe (max secs 1) (\<lambda>w l. w = win) occ)
    \<and> sum_list (map snd cells) = sum_list (map (\<lambda>(_, _, n). n) occ)
    \<and> sum_list (map snd totals) = sum_list (map (\<lambda>(_, _, n). n) occ))"
proof (induction occ rule: rev_induct)
  case Nil
  show ?case by (simp add: timeline_maps_def bt_get_def cell_sum_def)
next
  case (snoc oc occ)
  obtain ts b n where oc: "oc = (ts, b, n)" by (cases oc)
  obtain cells totals where m: "timeline_maps pe occ secs = (cells, totals)" by fastforce
  have step: "timeline_maps pe (occ @ [oc]) secs =
      (bt_add (window_of pe (max secs 1) ts, build_label b) n cells, bt_add (window_of pe (max secs 1) ts) n totals)"
    using m by (simp add: timeline_maps_def oc Let_def)
  from snoc m show ?case unfolding step
    by (auto simp: oc bt_get_add cell_sum_def sum_bt_add)
qed

section \<open>Properties\<close>

text \<open>Volatile parts of a message do not change the bucket: replacing one alphanumeric word of the
  message by another with the same normal form (two numbers, two addresses, two build hashes)
  changes neither the normalized message nor the bucket id nor the bug id, wherever the word stands.\<close>

theorem bucket_ignores_volatile_words:
  assumes "t \<noteq> []" "t' \<noteq> []" "list_all is_ascii_alphanumeric t" "list_all is_ascii_alphanumeric t'"
    and "normalize_token t = normalize_token t'"
    and "p = [] \<or> \<not> is_ascii_alphanumeric (last p)"
    and "q = [] \<or> (\<not> is_ascii_alphanumeric (hd q) \<and> \<not> is_cont (hd q))"
  shows "normalize_message (p @ t @ q) = normalize_message (p @ t' @ q)
    \<and> bucket_id lib (r\<lparr>er_message := p @ t @ q\<rparr>) = bucket_id lib (r\<lparr>er_message := p @ t' @ q\<rparr>)
    \<and> bug_id lib (r\<lparr>er_message := p @ t @ q\<rparr>) = bug_id lib (r\<lparr>er_message := p @ t' @ q\<rparr>)"
proof -
  obtain out where "\<And>t. t \<noteq> [] \<Longrightarrow> list_all is_ascii_alphanumeric t \<Longrightarrow>
      norm_loop (chars (p @ t @ q)) [] False [] = norm_loop (chars q) (out @ normalize_token t) False []"
    using normalize_token_swap [OF assms(1,3,6,7)] by metis
  then have m: "normalize_message (p @ t @ q) = normalize_message (p @ t' @ q)"
    using assms(1-5) by (simp add: normalize_message_def)
  then have "derived_bucket_id lib (r\<lparr>er_message := p @ t @ q\<rparr>) = derived_bucket_id lib (r\<lparr>er_message := p @ t' @ q\<rparr>)"
    by (simp add: derived_bucket_id_def)
  with m show ?thesis
    by (simp add: bucket_id_def bug_id_def finding_identity_def split: option.splits)
qed

text \<open>The time series conserves occurrences: every cell holds the sum (modulo \<open>2 ^ 64\<close>) of the counts
  of the occurrences in its window and build, every total the sum over all builds of its window, and
  each of the two series sums to the number of all occurrences, parseable or not; cells and totals
  come with distinct keys, oldest window first.\<close>

theorem timeline_conserves:
  assumes "timeline_maps pe occ secs = (cells, totals)"
  shows "bt_ok cells \<and> bt_ok totals
    \<and> (\<forall>win b. bt_get cells (win, b) = cell_sum pe (max secs 1) (\<lambda>w l. w = win \<and> l = b) occ)
    \<and> (\<forall>win. bt_get totals win = cell_sum pe (max secs 1) (\<lambda>w l. w = win) occ)
    \<and> sum_list (map tc_count (tl_cells (timeline_weighted pe pr occ secs))) = sum_list (map (\<lambda>(_, _, n). n) occ)
    \<and> sum_list (map tn_count (tl_total (timeline_weighted pe pr occ secs))) = sum_list (map (\<lambda>(_, _, n). n) occ)"
proof -
  have "map tc_count (tl_cells (timeline_weighted pe pr occ secs)) = map snd cells"
    "map tn_count (tl_total (timeline_weighted pe pr occ secs)) = map snd totals"
    using assms by (auto simp: timeline_weighted_def)
  with timeline_maps_spec [where pe = pe and occ = occ and secs = secs] assms show ?thesis by simp
qed

section \<open>Witnesses\<close>

definition sample_lib :: bucket_lib where
  "sample_lib = \<lparr>sha256_hex = (\<lambda>s. s), identity_of_value = (\<lambda>_. None), value_of_identity = (\<lambda>_. JNull)\<rparr>"

theorem bucket_ignores_volatile_words_witness:
  "normalize_message (''line '' @ ''42'' @ '': x'') = normalize_message (''line '' @ ''9001'' @ '': x'')"
proof -
  have "list_all is_ascii_alphanumeric ''42''" "list_all is_ascii_alphanumeric ''9001''"
    "normalize_token ''42'' = normalize_token ''9001''" "\<not> is_ascii_alphanumeric (last ''line '')"
    "\<not> is_ascii_alphanumeric (hd '': x'')" "\<not> is_cont (hd '': x'')" by code_simp+
  with bucket_ignores_volatile_words [of "''42''" "''9001''" "''line ''" "'': x''" sample_lib] show ?thesis
    by simp
qed

theorem timeline_conserves_witness:
  "sum_list (map tc_count (tl_cells (timeline_weighted (map_option int \<circ> parse_digits) show_int
     [(''10'', Some ''1.0'', 2), (''x'', None, 3)] 3600))) = 5"
proof -
  obtain cells totals where
    "timeline_maps (map_option int \<circ> parse_digits) [(''10'', Some ''1.0'', 2), (''x'', None, 3)] 3600 = (cells, totals)"
    by fastforce
  from timeline_conserves [OF this, of show_int] show ?thesis by simp
qed

end
