(* ===== verification/Counter.thy ===== *)
theory Counter
  imports Table
begin

text \<open>
  Counter tables: a key and a \<open>BIGINT\<close> count, maintained by \<open>INSERT ... ON CONFLICT DO UPDATE SET count =
  count + EXCLUDED.count\<close> and by the pair \<open>UPDATE ... count-1\<close>, \<open>DELETE ... count <= 0\<close> of a trigger. A
  table \<open>tallies\<close> a function when it has one row for every key the function counts and no other.
\<close>

type_synonym 'k counter = "('k \<times> int) list"

definition bump :: "'k \<Rightarrow> int \<Rightarrow> 'k counter \<Rightarrow> 'k counter" where
  "bump k n t = upsert fst (k, n) (\<lambda>r. (fst r, snd r + n)) t"

text \<open>\<open>SELECT key, COUNT(*) FROM UNNEST(...) GROUP BY key\<close>, upserted in one statement.\<close>

definition bump_groups :: "'k list \<Rightarrow> 'k counter \<Rightarrow> 'k counter" where
  "bump_groups ks t = fold (\<lambda>k. bump k (int (count_list ks k))) (remdups ks) t"

definition unbump :: "'k \<Rightarrow> 'k counter \<Rightarrow> 'k counter" where
  "unbump k t = delete_where (\<lambda>r. fst r = k \<and> snd r \<le> 0)
     (update_where (\<lambda>r. fst r = k) (\<lambda>r. (fst r, snd r - 1)) t)"

definition tally :: "'k counter \<Rightarrow> ('k \<Rightarrow> nat) \<Rightarrow> bool" where
  "tally t f \<longleftrightarrow> distinct (map fst t)
     \<and> (\<forall>k. map_of t k = (if f k = 0 then None else Some (int (f k))))"

section \<open>Lookup after each statement\<close>

lemma map_of_bump:
  "map_of (bump k n t) = (map_of t)(k \<mapsto> (case map_of t k of None \<Rightarrow> n | Some c \<Rightarrow> c + n))"
proof (cases "k \<in> fst ` set t")
  case True
  then obtain c where c: "map_of t k = Some c" by (metis map_of_eq_None_iff not_None_eq)
  have "map_of (update_where (\<lambda>s. fst s = k) (\<lambda>r. (fst r, snd r + n)) t) j =
      (if j = k then map_option (\<lambda>c. c + n) (map_of t j) else map_of t j)" for j
    by (induction t) (auto simp: update_where_def)
  with True c show ?thesis by (auto simp: bump_def upsert_def fun_eq_iff)
next
  case False
  then have "map_of t k = None" by (simp add: map_of_eq_None_iff)
  with False show ?thesis by (auto simp: bump_def upsert_def fun_eq_iff map_add_def split: option.splits)
qed

lemma distinct_bump: "distinct (map fst t) \<Longrightarrow> distinct (map fst (bump k n t))"
  by (auto simp: bump_def upsert_def update_where_def o_def if_distrib cong: if_cong)

lemma map_of_unbump:
  assumes "distinct (map fst t)"
  shows "map_of (unbump k t) j =
    (if j = k then (case map_of t k of None \<Rightarrow> None | Some c \<Rightarrow> if c \<le> 1 then None else Some (c - 1))
     else map_of t j)"
  using assms
proof (induction t)
  case (Cons r t)
  have cons: "unbump k (r # t) = (if fst r = k then if snd r \<le> 1 then [] else [(k, snd r - 1)] else [r]) @ unbump k t"
    by (auto simp: unbump_def delete_where_def update_where_def)
  from Cons show ?case
    by (cases "fst r = k"; cases "map_of t k") (auto simp: cons map_of_eq_None_iff [symmetric])
qed (simp add: unbump_def delete_where_def update_where_def)

lemma distinct_unbump:
  assumes "distinct (map fst t)"
  shows "distinct (map fst (unbump k t))"
proof -
  have "map fst (update_where (\<lambda>r. fst r = k) (\<lambda>r. (fst r, snd r - 1)) t) = map fst t"
    by (simp add: update_where_def)
  with assms show ?thesis by (simp add: unbump_def delete_where_def distinct_map_filter)
qed

section \<open>Tallies\<close>

lemma tally_Nil [simp]: "tally [] (\<lambda>_. 0)"
  by (simp add: tally_def)

lemma tally_bump:
  "tally t f \<Longrightarrow> 0 < n \<Longrightarrow> tally (bump k (int n) t) (f(k := f k + n))"
  by (auto simp: tally_def map_of_bump distinct_bump)

lemma tally_fold_bump:
  assumes "tally t f" "distinct ks" "\<And>k. k \<in> set ks \<Longrightarrow> 0 < (g k :: nat)"
  shows "tally (fold (\<lambda>k. bump k (int (g k))) ks t) (\<lambda>k. f k + (if k \<in> set ks then g k else 0))"
  using assms
proof (induction ks arbitrary: t f)
  case (Cons k ks)
  have "tally (bump k (int (g k)) t) (f(k := f k + g k))" using Cons.prems by (simp add: tally_bump)
  from Cons.IH [OF this] Cons.prems
  have "tally (fold (\<lambda>k. bump k (int (g k))) (k # ks) t)
      (\<lambda>j. (f(k := f k + g k)) j + (if j \<in> set ks then g j else 0))" by simp
  moreover have "(\<lambda>j. (f(k := f k + g k)) j + (if j \<in> set ks then g j else 0)) =
      (\<lambda>j. f j + (if j \<in> set (k # ks) then g j else 0))"
    using Cons.prems(2) by (auto simp: fun_eq_iff)
  ultimately show ?case by simp
qed simp

lemma tally_bump_groups:
  assumes "tally t f"
  shows "tally (bump_groups ks t) (\<lambda>k. f k + count_list ks k)"
proof -
  have "tally (bump_groups ks t) (\<lambda>k. f k + (if k \<in> set (remdups ks) then count_list ks k else 0))"
    unfolding bump_groups_def
    by (rule tally_fold_bump [OF assms]) (auto simp: count_list_0_iff intro: Nat.gr0I)
  moreover have "(\<lambda>k. f k + (if k \<in> set (remdups ks) then count_list ks k else 0)) = (\<lambda>k. f k + count_list ks k)"
    by (auto simp: fun_eq_iff count_list_0_iff)
  ultimately show ?thesis by simp
qed

lemma tally_unbump:
  assumes "tally t f"
  shows "tally (unbump k t) (f(k := f k - 1))"
  using assms by (auto simp: tally_def map_of_unbump distinct_unbump)

lemma tally_fold_unbump:
  "tally t f \<Longrightarrow> tally (fold unbump ks t) (\<lambda>k. f k - count_list ks k)"
proof (induction ks arbitrary: t f)
  case (Cons k ks)
  have "tally (fold unbump ks (unbump k t)) (\<lambda>j. (f(k := f k - 1)) j - count_list ks j)"
    by (rule Cons.IH [OF tally_unbump [OF Cons.prems]])
  moreover have "(\<lambda>j. (f(k := f k - 1)) j - count_list ks j) = (\<lambda>j. f j - count_list (k # ks) j)"
    by (auto simp: fun_eq_iff)
  ultimately show ?case by simp
qed simp

section \<open>Read models of a log\<close>

text \<open>How often the rows of a log contribute a key.\<close>

definition hist :: "('r \<Rightarrow> 'k list) \<Rightarrow> 'r list \<Rightarrow> 'k \<Rightarrow> nat" where
  "hist keys rs k = sum_list (map (\<lambda>r. count_list (keys r) k) rs)"

lemma hist_append [simp]: "hist keys (rs @ rs') k = hist keys rs k + hist keys rs' k"
  by (simp add: hist_def)

lemma hist_Nil [simp]: "hist keys [] = (\<lambda>_. 0)"
  by (simp add: hist_def fun_eq_iff)

lemma hist_concat: "hist keys rs k = count_list (concat (map keys rs)) k"
  by (induction rs) (simp_all add: hist_def)

lemma hist_partition: "hist keys rs k = hist keys (filter P rs) k + hist keys (delete_where P rs) k"
  by (induction rs) (auto simp: hist_def delete_where_def)

text \<open>
  The contract of a counter that an insertion path and a deletion trigger maintain separately: on the
  rows they treat alike, what the trigger removes is what the insertion added.
\<close>

locale counter_view =
  fixes added removed :: "'r \<Rightarrow> 'k list" and agrees :: "'r \<Rightarrow> bool"
  assumes removed_added: "agrees r \<Longrightarrow> removed r = added r"
begin

lemma view_insert:
  assumes "tally t (hist added rs)"
  shows "tally (bump_groups (concat (map added new)) t) (hist added (rs @ new))"
proof -
  have "hist added (rs @ new) = (\<lambda>k. hist added rs k + count_list (concat (map added new)) k)"
    by (simp add: fun_eq_iff hist_concat [of added new])
  with tally_bump_groups [OF assms] show ?thesis by simp
qed

lemma view_delete:
  assumes "tally t (hist added rs)" "\<And>r. r \<in> set rs \<Longrightarrow> P r \<Longrightarrow> agrees r"
  shows "tally (fold unbump (concat (map removed (filter P rs))) t) (hist added (delete_where P rs))"
proof -
  have "map removed (filter P rs) = map added (filter P rs)" using assms(2) by (simp add: removed_added)
  moreover have "hist added (delete_where P rs) =
      (\<lambda>k. hist added rs k - count_list (concat (map added (filter P rs))) k)"
    using hist_partition [of added rs _ P] by (simp add: fun_eq_iff hist_concat [of added "filter P rs"])
  ultimately show ?thesis using tally_fold_unbump [OF assms(1)] by metis
qed

end

end
