(* ===== verification/Telemetry.thy ===== *)
theory Telemetry
  imports Counter Buckets Triage
begin

text \<open>
  The telemetry tables of one tenant (\<open>src/db/tenant/telemetry.rs\<close>, \<open>src/db/artifacts.rs\<close>, the
  retention statements of \<open>src/db/tenant/projects.rs\<close>, tables and triggers of \<open>src/db/schema.rs\<close>): the
  error log, the read models the ingest transaction and the deletion trigger maintain beside it, the
  outbox, and the evidence rows with their byte quota. A transaction is one function; \<open>None\<close> is a
  violated constraint, which rolls the transaction back. Instants are microseconds, the current one
  is an argument. Number and composite renderings of PostgreSQL are the argument \<open>pg\<close>.
\<close>

section \<open>Tables\<close>

record error_row =
  el_id :: int
  el_app_id :: string
  el_rec :: ErrorRec
  el_bucket_id :: "string option"
  el_created_at :: int

record summary_row =
  bs_app_id :: string
  bs_bucket_id :: string
  bs_count :: int
  bs_first_error_id :: int
  bs_last_error_id :: int
  bs_first_seen :: int
  bs_last_seen :: int

record traffic_row =
  tf_app_id :: string
  tf_build :: string
  tf_count :: int
  tf_first_seen :: int
  tf_last_seen :: int

record batch_row =
  pb_app_id :: string
  pb_batch_id :: string
  pb_created_at :: int

record outbox_row =
  ob_id :: int
  ob_app_id :: string
  ob_bucket_id :: string
  ob_kind :: string
  ob_attempts :: int
  ob_available_at :: int

record node_row =
  nr_app_id :: string
  nr_node_id :: string
  nr_kind :: ArtifactKind
  nr_parents :: "string list"
  nr_payload :: json

record evidence_row =
  ew_id :: int
  ew_app_id :: string
  ew_error_id :: int
  ew_kind :: string
  ew_storage_key :: string
  ew_bytes :: int
  ew_created_at :: int

record replay_row =
  rr_id :: int
  rr_app_id :: string
  rr_bucket_id :: string
  rr_result :: ReplayResult

record cloud_run_row =
  cl_id :: int
  cl_app_id :: string
  cl_bucket_id :: string
  cl_status :: string
  cl_requested_by :: string
  cl_dispatched_at :: int
  cl_completed_at :: "int option"

record project_row =
  pj_id :: int
  pj_created_by :: "int option"
  pj_name :: string
  pj_app_id :: string

record telemetry_db = triage_db +
  projects :: "project_row list"
  edges :: "(string \<times> string) counter"
  errors :: "error_row list"
  next_error_id :: int
  bucket_summaries :: "summary_row list"
  bucket_windows :: "(string \<times> string \<times> int \<times> string) counter"
  app_context_counts :: "(string \<times> string \<times> string) counter"
  bucket_context_counts :: "(string \<times> string \<times> string \<times> string) counter"
  build_traffic_rows :: "traffic_row list"
  processed_batches :: "batch_row list"
  integration_outbox :: "outbox_row list"
  next_outbox_id :: int
  artifact_nodes :: "node_row list"
  artifact_roots :: "((string \<times> string \<times> string) \<times> int) list"
  evidence :: "evidence_row list"
  next_evidence_id :: int
  app_storage_usage :: "string counter"
  replay_results :: "replay_row list"
  next_replay_id :: int
  cloud_runs :: "cloud_run_row list"

definition summary_key :: "summary_row \<Rightarrow> string \<times> string" where
  "summary_key s = (bs_app_id s, bs_bucket_id s)"

definition traffic_key :: "traffic_row \<Rightarrow> string \<times> string" where
  "traffic_key r = (tf_app_id r, tf_build r)"

definition batch_key :: "batch_row \<Rightarrow> string \<times> string" where
  "batch_key r = (pb_app_id r, pb_batch_id r)"

definition outbox_key :: "outbox_row \<Rightarrow> string \<times> string \<times> string" where
  "outbox_key r = (ob_app_id r, ob_bucket_id r, ob_kind r)"

definition node_key :: "node_row \<Rightarrow> string \<times> string" where
  "node_key r = (nr_app_id r, nr_node_id r)"

definition error_bucket :: "error_row \<Rightarrow> (string \<times> string) option" where
  "error_bucket e = map_option (\<lambda>b. (el_app_id e, b)) (el_bucket_id e)"

text \<open>\<open>INSERT ... ON CONFLICT DO NOTHING\<close>.\<close>

definition insert_missing :: "('r \<Rightarrow> 'k) \<Rightarrow> 'r \<Rightarrow> 'r list \<Rightarrow> 'r list" where
  "insert_missing key r t = (if key r \<in> key ` set t then t else t @ [r])"

definition date_trunc_hour :: "int \<Rightarrow> int" where
  "date_trunc_hour now = now div 3600000000 * 3600000000"

section \<open>Context dimensions\<close>

definition safe_cohort_key :: "string \<Rightarrow> bool" where
  "safe_cohort_key key \<longleftrightarrow> key \<notin> {''fingerprint'', ''input'', ''inputs''}"

definition show_bool :: "bool \<Rightarrow> string" where
  "show_bool b = (if b then ''true'' else ''false'')"

fun show_num :: "jnum \<Rightarrow> string" where
  "show_num (PosInt n) = show_nat n"
| "show_num (NegInt i) = show_int i"
| "show_num (Float s) = s"

definition cohort_value :: "string \<Rightarrow> json \<Rightarrow> string option" where
  "cohort_value key v =
     (case v of
        JStr s \<Rightarrow> Some s
      | JNum n \<Rightarrow> Some (show_num n)
      | JBool b \<Rightarrow> Some (show_bool b)
      | JObj m \<Rightarrow>
          if key = ''build'' then
            Option.bind (case map_of m ''version'' of Some x \<Rightarrow> Some x | None \<Rightarrow> map_of m ''commit'') as_str
          else None
      | _ \<Rightarrow> None)"

definition dimension_values :: "(string \<times> json) list \<Rightarrow> (string \<times> string) list" where
  "dimension_values context =
     List.map_filter (\<lambda>(key, value). map_option (\<lambda>v. (key, v)) (cohort_value key value))
       (filter (\<lambda>(key, _). safe_cohort_key key) context)"

section \<open>The ingest transaction\<close>

definition insert_errors :: "'z bucket_lib_scheme \<Rightarrow> int \<Rightarrow> string \<Rightarrow> int \<Rightarrow> ErrorRec list \<Rightarrow> error_row list" where
  "insert_errors lib now app_id next recs =
     map (\<lambda>(i, r). \<lparr>el_id = next + int i, el_app_id = app_id, el_rec = r,
                     el_bucket_id = Some (bucket_id lib r), el_created_at = now\<rparr>)
       (List.enumerate 0 recs)"

definition summarize_group :: "string \<Rightarrow> string \<Rightarrow> error_row list \<Rightarrow> summary_row" where
  "summarize_group app_id b rs =
     \<lparr>bs_app_id = app_id, bs_bucket_id = b, bs_count = int (length rs),
      bs_first_error_id = Min (set (map el_id rs)), bs_last_error_id = Max (set (map el_id rs)),
      bs_first_seen = Min (set (map el_created_at rs)), bs_last_seen = Max (set (map el_created_at rs))\<rparr>"

definition merge_summary :: "summary_row \<Rightarrow> summary_row \<Rightarrow> summary_row" where
  "merge_summary new s = s\<lparr>bs_count := bs_count s + bs_count new,
     bs_first_error_id := min (bs_first_error_id s) (bs_first_error_id new),
     bs_last_error_id := max (bs_last_error_id s) (bs_last_error_id new),
     bs_first_seen := min (bs_first_seen s) (bs_first_seen new),
     bs_last_seen := max (bs_last_seen s) (bs_last_seen new)\<rparr>"

definition upsert_summaries :: "string \<Rightarrow> error_row list \<Rightarrow> summary_row list \<Rightarrow> summary_row list" where
  "upsert_summaries app_id inserted t =
     fold (\<lambda>b. let g = summarize_group app_id b (filter (\<lambda>e. el_bucket_id e = Some b) inserted)
               in upsert summary_key g (merge_summary g))
       (remdups (List.map_filter el_bucket_id inserted)) t"

definition row_dimensions :: "error_row \<Rightarrow> (string \<times> string \<times> string) list" where
  "row_dimensions e = map (\<lambda>(k, v). (el_app_id e, k, v)) (dimension_values (er_context (el_rec e)))"

definition bucket_dimensions :: "error_row \<Rightarrow> (string \<times> string \<times> string \<times> string) list" where
  "bucket_dimensions e =
     (case el_bucket_id e of
        None \<Rightarrow> []
      | Some b \<Rightarrow> map (\<lambda>(k, v). (el_app_id e, b, k, v)) (dimension_values (er_context (el_rec e))))"

definition push_outbox :: "int \<Rightarrow> string \<Rightarrow> string \<Rightarrow> outbox_row list \<times> int \<Rightarrow> outbox_row list \<times> int" where
  "push_outbox now app_id b s =
     (case s of (t, next) \<Rightarrow>
      (insert_missing outbox_key
         \<lparr>ob_id = next, ob_app_id = app_id, ob_bucket_id = b, ob_kind = ''file-issue'', ob_attempts = 0,
          ob_available_at = now\<rparr> t, next + 1))"

definition ingest_errors :: "'z bucket_lib_scheme \<Rightarrow> int \<Rightarrow> string \<Rightarrow> string option \<Rightarrow> ErrorRec list
    \<Rightarrow> telemetry_db \<Rightarrow> telemetry_db" where
  "ingest_errors lib now app_id deployment recs db =
     (if recs = [] then db
      else
        (let new = insert_errors lib now app_id (next_error_id db) recs;
             ids = map (bucket_id lib) recs;
             build = (case deployment of Some b \<Rightarrow> b | None \<Rightarrow> []);
             (outbox, next) = fold (push_outbox now app_id) (sort_dedup ids)
               (integration_outbox db, next_outbox_id db)
         in db\<lparr>errors := errors db @ new,
               next_error_id := next_error_id db + int (length recs),
               bucket_summaries := upsert_summaries app_id new (bucket_summaries db),
               app_context_counts := bump_groups (concat (map row_dimensions new)) (app_context_counts db),
               bucket_context_counts := bump_groups (concat (map bucket_dimensions new)) (bucket_context_counts db),
               integration_outbox := outbox, next_outbox_id := next,
               bucket_windows := bump_groups (map (\<lambda>b. (app_id, b, date_trunc_hour now, build)) ids)
                 (bucket_windows db)\<rparr>))"

text \<open>The first node with an id wins; the roots refer to stored nodes.\<close>

definition store_graphs :: "int \<Rightarrow> string \<Rightarrow> EvidenceGraph list \<Rightarrow> telemetry_db \<Rightarrow> telemetry_db option" where
  "store_graphs now app_id graphs db =
     (let all_nodes = concat (map eg_nodes graphs) in
      if all_nodes = [] then Some db
      else
        (let unique_nodes = foldl (\<lambda>m n. if map_of m (an_id n) = None then bt_insert (an_id n) n m else m) [] all_nodes;
             rows = map (\<lambda>(_, n). \<lparr>nr_app_id = app_id, nr_node_id = an_id n, nr_kind = an_kind n,
               nr_parents = an_parents n, nr_payload = an_payload n\<rparr>) unique_nodes;
             nodes = fold (insert_missing node_key) rows (artifact_nodes db);
             roots = map (\<lambda>g. ((app_id, eg_run_id g, eg_root g), now)) graphs
         in if list_all (\<lambda>g. (app_id, eg_root g) \<in> node_key ` set nodes) graphs
            then Some (db\<lparr>artifact_nodes := nodes,
                          artifact_roots := fold (insert_missing fst) roots (artifact_roots db)\<rparr>)
            else None))"

definition count_traffic :: "int \<Rightarrow> string \<Rightarrow> string option \<Rightarrow> telemetry_db \<Rightarrow> telemetry_db" where
  "count_traffic now app_id deployment db =
     (case deployment of
        None \<Rightarrow> db
      | Some build \<Rightarrow>
          db\<lparr>build_traffic_rows := upsert traffic_key
            \<lparr>tf_app_id = app_id, tf_build = build, tf_count = 1, tf_first_seen = now, tf_last_seen = now\<rparr>
            (\<lambda>r. r\<lparr>tf_count := tf_count r + 1, tf_last_seen := now\<rparr>) (build_traffic_rows db)\<rparr>)"

text \<open>One statement may not update a row twice, so repeated edge keys abort it.\<close>

definition ingest_edges :: "string \<Rightarrow> (string \<times> int) list \<Rightarrow> telemetry_db \<Rightarrow> telemetry_db option" where
  "ingest_edges app_id es db =
     (if \<not> distinct (map fst es) then None
      else Some (db\<lparr>edges := fold (\<lambda>(k, d). bump (app_id, k) d) es (edges db)\<rparr>))"

definition ingest_batch :: "'z bucket_lib_scheme \<Rightarrow> int \<Rightarrow> string \<Rightarrow> (string \<times> int) list \<Rightarrow> ErrorRec list
    \<Rightarrow> EvidenceGraph list \<Rightarrow> string \<Rightarrow> string option \<Rightarrow> telemetry_db \<Rightarrow> (bool \<times> telemetry_db) option" where
  "ingest_batch lib now app_id es recs graphs batch_id deployment db =
     (if es = [] \<and> recs = [] \<and> graphs = [] then Some (False, db)
      else if (app_id, batch_id) \<in> batch_key ` set (processed_batches db) then Some (True, db)
      else
        (let db1 = db\<lparr>processed_batches := processed_batches db @
               [\<lparr>pb_app_id = app_id, pb_batch_id = batch_id, pb_created_at = now\<rparr>]\<rparr>
         in Option.bind (ingest_edges app_id es (count_traffic now app_id deployment db1)) (\<lambda>db2.
            map_option (Pair False) (store_graphs now app_id graphs (ingest_errors lib now app_id deployment recs db2)))))"

definition incr_edge :: "string \<Rightarrow> string \<Rightarrow> telemetry_db \<Rightarrow> telemetry_db" where
  "incr_edge app_id key db = db\<lparr>edges := bump (app_id, key) 1 (edges db)\<rparr>"

definition prune_processed_batches :: "int \<Rightarrow> int \<Rightarrow> telemetry_db \<Rightarrow> nat \<times> telemetry_db" where
  "prune_processed_batches now older_than_hours db =
     (let old = (\<lambda>r. pb_created_at r < now - older_than_hours * 3600000000)
      in (affected old (processed_batches db), db\<lparr>processed_batches := delete_where old (processed_batches db)\<rparr>))"

section \<open>Deletion and its triggers\<close>

text \<open>The text of a JSON value as \<open>->>\<close> and the cast to \<open>TEXT\<close> give it.\<close>

definition jsonb_text :: "(json \<Rightarrow> string) \<Rightarrow> json \<Rightarrow> string option" where
  "jsonb_text pg v =
     (case v of
        JNull \<Rightarrow> None
      | JStr s \<Rightarrow> Some s
      | JBool b \<Rightarrow> Some (show_bool b)
      | JNum (PosInt n) \<Rightarrow> Some (show_nat n)
      | JNum (NegInt i) \<Rightarrow> Some (show_int i)
      | _ \<Rightarrow> Some (pg v))"

definition jsonb_field :: "(json \<Rightarrow> string) \<Rightarrow> json option \<Rightarrow> string \<Rightarrow> string option" where
  "jsonb_field pg v key = Option.bind (Option.bind v as_object) (\<lambda>m. Option.bind (map_of m key) (jsonb_text pg))"

fun coalesce :: "'a option list \<Rightarrow> 'a option" where
  "coalesce [] = None"
| "coalesce (Some x # _) = Some x"
| "coalesce (None # xs) = coalesce xs"

definition trigger_value :: "(json \<Rightarrow> string) \<Rightarrow> string \<Rightarrow> json \<Rightarrow> string option" where
  "trigger_value pg key v =
     (case v of
        JStr s \<Rightarrow> Some s
      | JNum _ \<Rightarrow> jsonb_text pg v
      | JBool _ \<Rightarrow> jsonb_text pg v
      | _ \<Rightarrow> if key = ''build'' then coalesce [jsonb_field pg (Some v) ''version'', jsonb_field pg (Some v) ''commit'']
             else None)"

definition trigger_dimensions :: "(json \<Rightarrow> string) \<Rightarrow> (string \<times> json) list \<Rightarrow> (string \<times> string) list" where
  "trigger_dimensions pg context =
     List.map_filter (\<lambda>(key, value). map_option (\<lambda>v. (key, v)) (trigger_value pg key value))
       (filter (\<lambda>(key, _). safe_cohort_key key) context)"

definition window_build :: "(json \<Rightarrow> string) \<Rightarrow> error_row \<Rightarrow> string" where
  "window_build pg old =
     (let build = map_of (er_context (el_rec old)) ''build''
      in case coalesce [jsonb_field pg build ''commit'', jsonb_field pg build ''version''] of
           Some b \<Rightarrow> b | None \<Rightarrow> [])"

text \<open>
  The summary part of the trigger. The row triggers of one statement run when all its rows are gone,
  so the endpoints are recomputed from what the whole statement left; with nothing left the aggregates
  are null, which the columns refuse.
\<close>

definition trigger_summary :: "error_row list \<Rightarrow> error_row \<Rightarrow> summary_row list \<Rightarrow> summary_row list option" where
  "trigger_summary remaining old t =
     (case error_bucket old of
        None \<Rightarrow> Some t
      | Some k \<Rightarrow>
          (let t1 = update_where (\<lambda>s. summary_key s = k) (\<lambda>s. s\<lparr>bs_count := bs_count s - 1\<rparr>) t;
               t2 = delete_where (\<lambda>s. summary_key s = k \<and> bs_count s \<le> 0) t1
           in if list_ex (\<lambda>s. summary_key s = k \<and> (bs_first_error_id s = el_id old \<or> bs_last_error_id s = el_id old)) t2
              then
                (let rs = filter (\<lambda>e. error_bucket e = Some k) remaining
                 in if rs = [] then None
                    else Some (update_where (\<lambda>s. summary_key s = k)
                      (\<lambda>s. (summarize_group (fst k) (snd k) rs)\<lparr>bs_count := bs_count s\<rparr>) t2))
              else Some t2))"

definition trigger_windows :: "(json \<Rightarrow> string) \<Rightarrow> error_row \<Rightarrow> (string \<times> string \<times> int \<times> string) counter
    \<Rightarrow> (string \<times> string \<times> int \<times> string) counter" where
  "trigger_windows pg old t =
     (case el_bucket_id old of
        None \<Rightarrow> t
      | Some b \<Rightarrow>
          delete_where (\<lambda>((a, b', _), n). a = el_app_id old \<and> b' = b \<and> n \<le> 0)
            (update_where (\<lambda>r. fst r = (el_app_id old, b, date_trunc_hour (el_created_at old), window_build pg old))
              (\<lambda>r. (fst r, snd r - 1)) t))"

definition row_removed :: "(json \<Rightarrow> string) \<Rightarrow> error_row \<Rightarrow> (string \<times> string \<times> string) list" where
  "row_removed pg e = map (\<lambda>(k, v). (el_app_id e, k, v)) (trigger_dimensions pg (er_context (el_rec e)))"

definition bucket_removed :: "(json \<Rightarrow> string) \<Rightarrow> error_row \<Rightarrow> (string \<times> string \<times> string \<times> string) list" where
  "bucket_removed pg e =
     (case el_bucket_id e of
        None \<Rightarrow> []
      | Some b \<Rightarrow> map (\<lambda>(k, v). (el_app_id e, b, k, v)) (trigger_dimensions pg (er_context (el_rec e))))"

definition remove_error_from_read_models :: "(json \<Rightarrow> string) \<Rightarrow> error_row \<Rightarrow> telemetry_db \<Rightarrow> telemetry_db option" where
  "remove_error_from_read_models pg old db =
     Option.bind (trigger_summary (errors db) old (bucket_summaries db)) (\<lambda>summaries.
       Some (db\<lparr>bucket_summaries := summaries,
                bucket_windows := trigger_windows pg old (bucket_windows db),
                app_context_counts := fold unbump (row_removed pg old) (app_context_counts db),
                bucket_context_counts := fold unbump (bucket_removed pg old) (bucket_context_counts db)\<rparr>))"

text \<open>\<open>update_app_storage_usage\<close> for an insertion and a deletion, and the statements that fire it.\<close>

definition usage_added :: "evidence_row \<Rightarrow> string counter \<Rightarrow> string counter" where
  "usage_added r t = bump (ew_app_id r) (ew_bytes r) t"

definition usage_removed :: "evidence_row \<Rightarrow> string counter \<Rightarrow> string counter" where
  "usage_removed r t = update_where (\<lambda>u. fst u = ew_app_id r) (\<lambda>u. (fst u, max 0 (snd u - ew_bytes r))) t"

definition delete_evidence :: "(evidence_row \<Rightarrow> bool) \<Rightarrow> telemetry_db \<Rightarrow> telemetry_db" where
  "delete_evidence P db =
     db\<lparr>evidence := delete_where P (evidence db),
        app_storage_usage := fold usage_removed (filter P (evidence db)) (app_storage_usage db)\<rparr>"

text \<open>Deleting errors: the evidence rows go with them, then the trigger runs for every deleted row.\<close>

definition delete_errors :: "(json \<Rightarrow> string) \<Rightarrow> (error_row \<Rightarrow> bool) \<Rightarrow> telemetry_db \<Rightarrow> telemetry_db option" where
  "delete_errors pg P db =
     (let gone = filter P (errors db);
          db1 = delete_evidence (\<lambda>ev. ew_error_id ev \<in> set (map el_id gone))
            (db\<lparr>errors := delete_where P (errors db)\<rparr>)
      in foldl (\<lambda>s old. Option.bind s (remove_error_from_read_models pg old)) (Some db1) gone)"

definition drop_bucket :: "string \<Rightarrow> string \<Rightarrow> telemetry_db \<Rightarrow> telemetry_db" where
  "drop_bucket a b db =
     db\<lparr>bucket_summaries := delete_where (\<lambda>s. summary_key s = (a, b)) (bucket_summaries db),
        bucket_windows := delete_where (\<lambda>((a', b', _), _). a' = a \<and> b' = b) (bucket_windows db),
        bucket_context_counts := delete_where (\<lambda>((a', b', _), _). a' = a \<and> b' = b) (bucket_context_counts db),
        replay_results := delete_where (\<lambda>r. rr_app_id r = a \<and> rr_bucket_id r = b) (replay_results db),
        bucket_tickets := delete_where (\<lambda>r. tk_key r = (a, b)) (bucket_tickets db),
        bucket_triage := delete_where (\<lambda>r. tr_key r = (a, b)) (bucket_triage db),
        bucket_resolution_status := delete_where (\<lambda>r. rs_key r = (a, b)) (bucket_resolution_status db),
        bucket_resolution_events := delete_where (\<lambda>r. ev_app_id r = a \<and> ev_bucket_id r = b)
          (bucket_resolution_events db),
        cloud_runs := delete_where (\<lambda>r. cl_app_id r = a \<and> cl_bucket_id r = b) (cloud_runs db)\<rparr>"

definition delete_sample_bucket_data :: "(json \<Rightarrow> string) \<Rightarrow> string \<Rightarrow> string \<Rightarrow> int list \<Rightarrow> telemetry_db
    \<Rightarrow> ((nat \<times> string list) \<times> telemetry_db) option" where
  "delete_sample_bucket_data pg a b error_ids db =
     (if error_ids = [] then Some ((0, []), db)
      else
        (let keys = map ew_storage_key
               (filter (\<lambda>r. ew_app_id r = a \<and> ew_error_id r \<in> set error_ids) (evidence db));
             P = (\<lambda>e. error_bucket e = Some (a, b) \<and> el_id e \<in> set error_ids)
         in Option.bind (delete_errors pg P db) (\<lambda>db1.
              Some ((affected P (errors db), keys),
                    if affected (\<lambda>e. error_bucket e = Some (a, b)) (errors db1) = 0
                    then drop_bucket a b db1 else db1))))"

definition expired_evidence_keys :: "int \<Rightarrow> int \<Rightarrow> nat \<Rightarrow> telemetry_db \<Rightarrow> (int \<times> string) list" where
  "expired_evidence_keys now days limit db =
     map (\<lambda>r. (ew_id r, ew_storage_key r)) (take limit (sort_key ew_id (filter (\<lambda>r.
       list_ex (\<lambda>e. el_id e = ew_error_id r \<and> el_created_at e < now - days * 86400000000) (errors db))
       (evidence db))))"

definition delete_evidence_rows :: "int list \<Rightarrow> telemetry_db \<Rightarrow> nat \<times> telemetry_db" where
  "delete_evidence_rows ids db =
     (affected (\<lambda>r. ew_id r \<in> set ids) (evidence db), delete_evidence (\<lambda>r. ew_id r \<in> set ids) db)"

definition delete_expired_errors :: "(json \<Rightarrow> string) \<Rightarrow> int \<Rightarrow> int \<Rightarrow> nat \<Rightarrow> telemetry_db
    \<Rightarrow> (nat \<times> telemetry_db) option" where
  "delete_expired_errors pg now days limit db =
     (let expired = take limit (sort_key el_id (filter (\<lambda>e. el_created_at e < now - days * 86400000000
            \<and> \<not> list_ex (\<lambda>r. ew_error_id r = el_id e) (evidence db)) (errors db)));
          P = (\<lambda>e. el_id e \<in> set (map el_id expired))
      in map_option (Pair (affected P (errors db))) (delete_errors pg P db))"

section \<open>Evidence within the quota\<close>

definition i64_range :: "int \<Rightarrow> bool" where
  "i64_range n \<longleftrightarrow> - (2 ^ 63) \<le> n \<and> n < 2 ^ 63"

definition quota_allows :: "int \<Rightarrow> int \<Rightarrow> int \<Rightarrow> bool" where
  "quota_allows used incoming limit \<longleftrightarrow> i64_range (used + incoming) \<and> used + incoming \<le> limit"

text \<open>
  The row refers to an error and the usage the trigger stores is a \<open>BIGINT\<close> that is not negative. A
  refused reservation is rolled back.
\<close>

definition insert_evidence :: "int \<Rightarrow> string \<Rightarrow> int \<Rightarrow> string \<Rightarrow> string \<Rightarrow> int \<Rightarrow> telemetry_db
    \<Rightarrow> (int \<times> telemetry_db) option" where
  "insert_evidence now app_id error_id kind storage_key bytes db =
     (let r = \<lparr>ew_id = next_evidence_id db, ew_app_id = app_id, ew_error_id = error_id, ew_kind = kind,
               ew_storage_key = storage_key, ew_bytes = bytes, ew_created_at = now\<rparr>;
          usage = usage_added r (app_storage_usage db)
      in if \<not> list_ex (\<lambda>e. el_id e = error_id) (errors db)
            \<or> \<not> list_all (\<lambda>(_, n). 0 \<le> n \<and> i64_range n) usage then None
         else Some (ew_id r, db\<lparr>evidence := evidence db @ [r], next_evidence_id := next_evidence_id db + 1,
                               app_storage_usage := usage\<rparr>))"

definition add_evidence_within_quota :: "int \<Rightarrow> string \<Rightarrow> int \<Rightarrow> string \<Rightarrow> string \<Rightarrow> int \<Rightarrow> int option
    \<Rightarrow> telemetry_db \<Rightarrow> (int option \<times> telemetry_db) option" where
  "add_evidence_within_quota now app_id error_id kind storage_key bytes limit db =
     (case limit of
        None \<Rightarrow> map_option (\<lambda>(i, db'). (Some i, db')) (insert_evidence now app_id error_id kind storage_key bytes db)
      | Some m \<Rightarrow>
          (let db1 = db\<lparr>app_storage_usage := insert_missing fst (app_id, 0) (app_storage_usage db)\<rparr>;
               used = (case map_of (app_storage_usage db1) app_id of Some n \<Rightarrow> n | None \<Rightarrow> 0)
           in if \<not> quota_allows used bytes m then Some (None, db)
              else map_option (\<lambda>(i, db'). (Some i, db'))
                (insert_evidence now app_id error_id kind storage_key bytes db1)))"

definition remove_evidence :: "int \<Rightarrow> telemetry_db \<Rightarrow> telemetry_db" where
  "remove_evidence i db = delete_evidence (\<lambda>r. ew_id r = i) db"

definition evidence_for_many :: "(int \<Rightarrow> string) \<Rightarrow> int list \<Rightarrow> telemetry_db
    \<Rightarrow> (string \<times> string \<times> int \<times> string) list" where
  "evidence_for_many rfc error_ids db =
     (if error_ids = [] then []
      else map (\<lambda>r. (ew_kind r, ew_storage_key r, ew_bytes r, rfc (ew_created_at r)))
        (sort_key (\<lambda>r. (ew_error_id r, ew_id r)) (filter (\<lambda>r. ew_error_id r \<in> set error_ids) (evidence db))))"

definition evidence_bytes_total :: "telemetry_db \<Rightarrow> int" where
  "evidence_bytes_total db = sum_list (map ew_bytes (evidence db))"

section \<open>The outbox\<close>

text \<open>The delay before an item is offered again, from its attempts before this one.\<close>

definition outbox_delay :: "int \<Rightarrow> int" where
  "outbox_delay attempts = min 3600 (15 * push_bit (nat (min attempts 8)) 1)"

definition claim_outbox_row :: "int \<Rightarrow> outbox_row \<Rightarrow> outbox_row" where
  "claim_outbox_row now r = r\<lparr>ob_attempts := ob_attempts r + 1,
     ob_available_at := now + outbox_delay (ob_attempts r) * 1000000\<rparr>"

record IntegrationWork =
  iw_id :: int
  iw_app_id :: string
  iw_bucket_id :: string

definition claim_integration_work :: "int \<Rightarrow> (int \<Rightarrow> bool) \<Rightarrow> int \<Rightarrow> telemetry_db \<Rightarrow> IntegrationWork list \<times> telemetry_db" where
  "claim_integration_work now locked limit db =
     (let picked = map ob_id (take (nat (max 1 (min 100 limit)))
            (sort_key ob_id (filter (\<lambda>r. ob_available_at r \<le> now \<and> \<not> locked (ob_id r)) (integration_outbox db))));
          P = (\<lambda>r. ob_id r \<in> set picked)
      in (map (\<lambda>r. \<lparr>iw_id = ob_id r, iw_app_id = ob_app_id r, iw_bucket_id = ob_bucket_id r\<rparr>)
            (filter P (integration_outbox db)),
          db\<lparr>integration_outbox := update_where P (claim_outbox_row now) (integration_outbox db)\<rparr>))"

definition complete_integration_work :: "int \<Rightarrow> telemetry_db \<Rightarrow> telemetry_db" where
  "complete_integration_work i db = db\<lparr>integration_outbox := delete_where (\<lambda>r. ob_id r = i) (integration_outbox db)\<rparr>"

section \<open>Reads\<close>

text \<open>\<open>rfc\<close> prints an instant.\<close>

definition build_traffic :: "(int \<Rightarrow> string) \<Rightarrow> string \<Rightarrow> telemetry_db \<Rightarrow> (string \<times> int \<times> string) list" where
  "build_traffic rfc app_id db =
     map (\<lambda>r. (tf_build r, max 0 (tf_count r), rfc (tf_first_seen r)))
       (sort_key (\<lambda>r. (tf_first_seen r, tf_build r)) (filter (\<lambda>r. tf_app_id r = app_id) (build_traffic_rows db)))"

record BucketRollup =
  br_bucket_id :: string
  br_count :: int
  br_last_seen :: string
  br_oldest :: ErrorRec
  br_newest :: ErrorRec

definition error_by_id :: "int \<Rightarrow> telemetry_db \<Rightarrow> error_row list" where
  "error_by_id i db = filter (\<lambda>e. el_id e = i) (errors db)"

definition rollup_rows :: "(int \<Rightarrow> string) \<Rightarrow> telemetry_db \<Rightarrow> summary_row \<Rightarrow> BucketRollup list" where
  "rollup_rows rfc db s =
     concat (map (\<lambda>f. map (\<lambda>l. \<lparr>br_bucket_id = bs_bucket_id s, br_count = max 0 (bs_count s),
         br_last_seen = rfc (bs_last_seen s), br_oldest = el_rec f, br_newest = el_rec l\<rparr>)
       (error_by_id (bs_last_error_id s) db)) (error_by_id (bs_first_error_id s) db))"

definition bucket_rollups :: "(int \<Rightarrow> string) \<Rightarrow> string \<Rightarrow> telemetry_db \<Rightarrow> BucketRollup list" where
  "bucket_rollups rfc app_id db =
     concat (map (rollup_rows rfc db)
       (sort_key (\<lambda>s. (bs_first_seen s, bs_bucket_id s)) (filter (\<lambda>s. bs_app_id s = app_id) (bucket_summaries db))))"

definition bucket_endpoints :: "string \<Rightarrow> string \<Rightarrow> telemetry_db \<Rightarrow> (ErrorRec \<times> ErrorRec) option" where
  "bucket_endpoints app_id b db =
     (case concat (map (rollup_rows (\<lambda>_. []) db) (filter (\<lambda>s. summary_key s = (app_id, b)) (bucket_summaries db))) of
        [] \<Rightarrow> None
      | r # _ \<Rightarrow> Some (br_oldest r, br_newest r))"

definition edges_of :: "string \<Rightarrow> telemetry_db \<Rightarrow> (string \<times> int) list" where
  "edges_of app_id db =
     sort_key fst (map (\<lambda>((_, k), n). (k, n)) (filter (\<lambda>((a, _), _). a = app_id) (edges db)))"

definition app_errors :: "string \<Rightarrow> telemetry_db \<Rightarrow> error_row list" where
  "app_errors app_id db = sort_key el_id (filter (\<lambda>e. el_app_id e = app_id) (errors db))"

definition with_meta :: "(int \<Rightarrow> string) \<Rightarrow> error_row \<Rightarrow> int \<times> string \<times> ErrorRec" where
  "with_meta rfc e = (el_id e, rfc (el_created_at e), el_rec e)"

definition errors_capped :: "string \<Rightarrow> nat \<Rightarrow> telemetry_db \<Rightarrow> ErrorRec list \<times> nat" where
  "errors_capped app_id cap db =
     (let out = map el_rec (take cap (app_errors app_id db))
      in (out, affected (\<lambda>e. el_app_id e = app_id) (errors db) - length out))"

definition errors_with_meta_capped :: "(int \<Rightarrow> string) \<Rightarrow> string \<Rightarrow> nat \<Rightarrow> telemetry_db
    \<Rightarrow> (int \<times> string \<times> ErrorRec \<times> string option) list \<times> nat" where
  "errors_with_meta_capped rfc app_id cap db =
     (let out = map (\<lambda>e. (el_id e, rfc (el_created_at e), el_rec e, el_bucket_id e)) (take cap (app_errors app_id db))
      in (out, affected (\<lambda>e. el_app_id e = app_id) (errors db) - length out))"

definition errors_for_bucket :: "(int \<Rightarrow> string) \<Rightarrow> string \<Rightarrow> string \<Rightarrow> nat \<Rightarrow> telemetry_db
    \<Rightarrow> (int \<times> string \<times> ErrorRec) list" where
  "errors_for_bucket rfc app_id b cap db =
     map (with_meta rfc) (take cap (sort_key el_id (filter (\<lambda>e. error_bucket e = Some (app_id, b)) (errors db))))"

definition recent_errors_with_meta :: "(int \<Rightarrow> string) \<Rightarrow> string \<Rightarrow> nat \<Rightarrow> telemetry_db
    \<Rightarrow> (int \<times> string \<times> ErrorRec) list" where
  "recent_errors_with_meta rfc app_id limit db =
     map (with_meta rfc) (rev (take limit (rev (app_errors app_id db))))"

definition errors_paginated :: "string \<Rightarrow> nat \<Rightarrow> nat \<Rightarrow> telemetry_db \<Rightarrow> ErrorRec list \<times> nat" where
  "errors_paginated app_id limit offset db =
     (map el_rec (take limit (drop offset (app_errors app_id db))),
      affected (\<lambda>e. el_app_id e = app_id) (errors db))"

definition bucket_window_counts :: "(int \<Rightarrow> string) \<Rightarrow> string \<Rightarrow> string \<Rightarrow> telemetry_db
    \<Rightarrow> (string \<times> string option \<times> int) list" where
  "bucket_window_counts rfc app_id b db =
     map (\<lambda>((_, _, w, build), n). (rfc w, if build = [] then None else Some build, max 0 n))
       (sort_key (\<lambda>((_, _, w, build), _). (w, build))
         (filter (\<lambda>((a, b', _, _), _). a = app_id \<and> b' = b) (bucket_windows db)))"

definition add_replay_result :: "(int \<Rightarrow> string) \<Rightarrow> int \<Rightarrow> string \<Rightarrow> string \<Rightarrow> string \<Rightarrow> 32 word \<Rightarrow> 32 word
    \<Rightarrow> string option \<Rightarrow> telemetry_db \<Rightarrow> int \<times> telemetry_db" where
  "add_replay_result rfc now app_id b status runs failures local_repro_id db =
     (let i = next_replay_id db in
      (i, db\<lparr>next_replay_id := i + 1,
             replay_results := replay_results db @ [\<lparr>rr_id = i, rr_app_id = app_id, rr_bucket_id = b,
        rr_result = \<lparr>rp_status = status, rp_runs = runs, rp_failures = failures,
          rp_local_repro_id = local_repro_id, rp_created_at = rfc now\<rparr>\<rparr>]\<rparr>))"

definition replay_results_for :: "string \<Rightarrow> string \<Rightarrow> telemetry_db \<Rightarrow> ReplayResult list" where
  "replay_results_for app_id b db =
     map rr_result (rev (sort_key rr_id (filter (\<lambda>r. rr_app_id r = app_id \<and> rr_bucket_id r = b) (replay_results db))))"

text \<open>The newest stored proof of a run, decoded and validated again.\<close>

definition proof_ledger_of :: "'z serde_graph_scheme \<Rightarrow> string \<Rightarrow> string \<Rightarrow> telemetry_db
    \<Rightarrow> (unit, (string \<times> ProofLedger) option) result" where
  "proof_ledger_of sj app_id run_id db =
     (let rows = concat (map (\<lambda>((a, run, root), created_at). map (\<lambda>n. (root, created_at, nr_payload n))
            (filter (\<lambda>n. node_key n = (a, root) \<and> nr_kind n = KProofLedger) (artifact_nodes db)))
          (filter (\<lambda>((a, run, _), _). a = app_id \<and> run = run_id) (artifact_roots db)))
      in case sort_key (\<lambda>(root, created_at, _). (- created_at, root)) rows of
           [] \<Rightarrow> Ok None
         | (root, _, payload) # _ \<Rightarrow>
             (case from_value_ledger sj payload of
                None \<Rightarrow> Err ()
              | Some ledger \<Rightarrow> if ledger_validate ledger = Ok () then Ok (Some (root, ledger)) else Err ()))"

end
