(* ===== verification/Rollups.thy ===== *)
theory Rollups
  imports Telemetry
begin

text \<open>
  The read models of the telemetry tables against the error log: the summaries of the buckets and the
  two context counters are functions of the log in every state the store reaches, whether the ingest
  transaction or the deletion trigger brought it there, and the usage rows are sums over the evidence.
  The last sections state what a deletion statement may remove, that a batch is stored once, and what
  the byte quota guarantees.
\<close>

declare split_paired_All [simp del] split_paired_Ex [simp del]

definition of_bucket :: "string \<times> string \<Rightarrow> error_row list \<Rightarrow> error_row list" where
  "of_bucket k rs = filter (\<lambda>e. error_bucket e = Some k) rs"

definition summary_view :: "error_row list \<Rightarrow> string \<times> string \<Rightarrow> summary_row option" where
  "summary_view es k =
     (if of_bucket k es = [] then None else Some (summarize_group (fst k) (snd k) (of_bucket k es)))"

definition summaries_ok :: "summary_row list \<Rightarrow> error_row list \<Rightarrow> bool" where
  "summaries_ok t es \<longleftrightarrow> distinct (map summary_key t) \<and> (\<forall>k. row_of summary_key k t = summary_view es k)"

lemma key_summarize [simp]: "summary_key (summarize_group a b rs) = (a, b)"
  by (simp add: summarize_group_def summary_key_def)

lemma key_merge [simp]: "summary_key (merge_summary g s) = summary_key s"
  by (simp add: merge_summary_def summary_key_def)

lemma summarize_append:
  assumes "xs \<noteq> []" "ys \<noteq> []"
  shows "summarize_group a b (xs @ ys) = merge_summary (summarize_group a b ys) (summarize_group a b xs)"
  using assms by (simp add: summarize_group_def merge_summary_def Min_Un Max_Un)

text \<open>A multi-row upsert of one group per key.\<close>

lemma upsert_groups:
  assumes "distinct bs" "distinct (map summary_key t)" "\<And>b. summary_key (g b) = (a, b)"
  shows "distinct (map summary_key (fold (\<lambda>b. upsert summary_key (g b) (merge_summary (g b))) bs t))
    \<and> row_of summary_key k (fold (\<lambda>b. upsert summary_key (g b) (merge_summary (g b))) bs t) =
       (if fst k = a \<and> snd k \<in> set bs
        then Some (case row_of summary_key k t of Some s \<Rightarrow> merge_summary (g (snd k)) s | None \<Rightarrow> g (snd k))
        else row_of summary_key k t)"
  using assms(1,2)
proof (induction bs arbitrary: t)
  case (Cons b bs)
  let ?t = "upsert summary_key (g b) (merge_summary (g b)) t"
  have "distinct (map summary_key ?t)" using Cons.prems by (simp add: distinct_upsert)
  moreover have "row_of summary_key k ?t = (if k = (a, b)
      then Some (case row_of summary_key k t of Some s \<Rightarrow> merge_summary (g b) s | None \<Rightarrow> g b)
      else row_of summary_key k t)"
    using row_of_upsert [of summary_key "merge_summary (g b)" k "g b" t] assms(3) by simp
  ultimately show ?case using Cons.IH [of ?t] Cons.prems by (cases k) (auto split: option.splits)
qed simp

lemma upsert_summaries_ok:
  assumes "summaries_ok t es" "\<And>e. e \<in> set new \<Longrightarrow> el_app_id e = a"
  shows "summaries_ok (upsert_summaries a new t) (es @ new)"
proof -
  let ?g = "\<lambda>b. summarize_group a b (filter (\<lambda>e. el_bucket_id e = Some b) new)"
  have same: "of_bucket k new = (if fst k = a then filter (\<lambda>e. el_bucket_id e = Some (snd k)) new else [])" for k
    using assms(2) by (cases k) (auto simp: of_bucket_def error_bucket_def filter_empty_conv intro!: filter_cong)
  have mem: "snd k \<in> set (List.map_filter el_bucket_id new) \<longleftrightarrow> filter (\<lambda>e. el_bucket_id e = Some (snd k)) new \<noteq> []" for k :: "string \<times> string"
    by (force simp: List.map_filter_def filter_empty_conv image_iff)
  have "row_of summary_key k (upsert_summaries a new t) = summary_view (es @ new) k" for k
  proof -
    have "row_of summary_key k (upsert_summaries a new t) =
       (if fst k = a \<and> snd k \<in> set (remdups (List.map_filter el_bucket_id new))
        then Some (case row_of summary_key k t of Some s \<Rightarrow> merge_summary (?g (snd k)) s | None \<Rightarrow> ?g (snd k))
        else row_of summary_key k t)"
      using assms(1) upsert_groups [of "remdups (List.map_filter el_bucket_id new)" t ?g a k]
      by (simp add: upsert_summaries_def summaries_ok_def Let_def)
    also have "\<dots> = summary_view (es @ new) k"
    proof (cases "of_bucket k new = []")
      case True
      then have "\<not> (fst k = a \<and> snd k \<in> set (List.map_filter el_bucket_id new))" by (auto simp: same mem split: if_splits)
      moreover have "summary_view (es @ new) k = summary_view es k"
        using True by (simp add: summary_view_def of_bucket_def)
      ultimately show ?thesis using assms(1) by (cases k) (auto simp: summaries_ok_def)
    next
      case False
      then have a: "fst k = a" and b: "snd k \<in> set (List.map_filter el_bucket_id new)"
        and g: "?g (snd k) = summarize_group a (snd k) (of_bucket k new)"
        by (auto simp: same mem split: if_splits)
      have app: "of_bucket k (es @ new) = of_bucket k es @ of_bucket k new" by (simp add: of_bucket_def)
      have t: "row_of summary_key k t = summary_view es k" using assms(1) unfolding summaries_ok_def by blast
      show ?thesis unfolding t g summary_view_def app using a b False
        by (simp add: summarize_append)
    qed
    finally show ?thesis .
  qed
  moreover have "distinct (map summary_key (upsert_summaries a new t))"
    using assms(1) upsert_groups [of "remdups (List.map_filter el_bucket_id new)" t ?g a]
    by (simp add: upsert_summaries_def summaries_ok_def Let_def)
  ultimately show ?thesis by (simp add: summaries_ok_def)
qed


section \<open>The deletion trigger\<close>

text \<open>Ids order the log by time.\<close>

definition mono_log :: "error_row list \<Rightarrow> bool" where
  "mono_log es \<longleftrightarrow> distinct (map el_id es)
     \<and> (\<forall>e \<in> set es. \<forall>e' \<in> set es. el_id e \<le> el_id e' \<longrightarrow> el_created_at e \<le> el_created_at e')"

definition partial_summary :: "string \<times> string \<Rightarrow> nat \<Rightarrow> error_row list \<Rightarrow> summary_row" where
  "partial_summary k n zs = (summarize_group (fst k) (snd k) zs)\<lparr>bs_count := int n\<rparr>"

text \<open>
  Between the row triggers of a statement: \<open>R\<close> is what the statement left, \<open>G\<close> the rows whose trigger has
  not run. A summary counts both; its endpoints are those of both, or already those of \<open>R\<close>.
\<close>

definition endpoints_of :: "error_row list \<Rightarrow> error_row list \<Rightarrow> error_row list \<Rightarrow> bool" where
  "endpoints_of R G zs \<longleftrightarrow> set zs = set R \<union> set G \<or> R \<noteq> [] \<and> set zs = set R"

definition pending_row :: "error_row list \<Rightarrow> error_row list \<Rightarrow> string \<times> string \<Rightarrow> summary_row option \<Rightarrow> bool" where
  "pending_row R G k row \<longleftrightarrow>
     (if of_bucket k R = [] \<and> of_bucket k G = [] then row = None
      else \<exists>zs. endpoints_of (of_bucket k R) (of_bucket k G) zs
             \<and> row = Some (partial_summary k (length (of_bucket k R) + length (of_bucket k G)) zs))"

definition pending_ok :: "error_row list \<Rightarrow> error_row list \<Rightarrow> summary_row list \<Rightarrow> bool" where
  "pending_ok R G t \<longleftrightarrow> distinct (map summary_key t)
     \<and> (\<forall>k. pending_row R G k (row_of summary_key k t))"

lemma summarize_set_eq:
  assumes "set xs = set ys"
  shows "partial_summary k n xs = partial_summary k n ys"
  using assms by (simp add: partial_summary_def summarize_group_def)

text \<open>Taking a row that is no endpoint out of a set of rows leaves the endpoints alone.\<close>

lemma endpoints_remove:
  assumes mono: "mono_log es" and sub: "set zs \<subseteq> set es" and "old \<in> set zs"
    and "set zs' = set zs - {old}" and "el_id old \<noteq> Min (set (map el_id zs))" "el_id old \<noteq> Max (set (map el_id zs))"
  shows "zs' \<noteq> [] \<and> partial_summary k n zs = partial_summary k n zs'"
proof -
  let ?I = "el_id ` set zs" and ?I' = "el_id ` set zs'"
  have "Min ?I \<in> ?I" "Max ?I \<in> ?I" using assms(3) by (auto intro!: Min_in Max_in)
  then obtain lo hi where lo: "lo \<in> set zs" "el_id lo = Min ?I" and hi: "hi \<in> set zs" "el_id hi = Max ?I" by auto
  have in': "lo \<in> set zs'" "hi \<in> set zs'" using lo hi assms by auto
  have le: "el_id lo \<le> el_id z" "el_id z \<le> el_id hi" if "z \<in> set zs" for z using that lo hi by auto
  have cr: "el_created_at lo \<le> el_created_at z" "el_created_at z \<le> el_created_at hi" if "z \<in> set zs" for z
    using mono le [OF that] that lo(1) hi(1) sub unfolding mono_log_def by blast+
  have sub': "set zs' \<subseteq> set zs" using assms(4) by auto
  have min_eq: "Min (f ` A) = f lo" if "lo \<in> A" "A \<subseteq> set zs" "\<And>z. z \<in> set zs \<Longrightarrow> f lo \<le> f z" for f :: "error_row \<Rightarrow> int" and A
    using that by (intro Min_eqI) (auto intro: finite_subset)
  have max_eq: "Max (f ` A) = f hi" if "hi \<in> A" "A \<subseteq> set zs" "\<And>z. z \<in> set zs \<Longrightarrow> f z \<le> f hi" for f :: "error_row \<Rightarrow> int" and A
    using that by (intro Max_eqI) (auto intro: finite_subset)
  have "summarize_group (fst k) (snd k) zs = (summarize_group (fst k) (snd k) zs')\<lparr>bs_count := int (length zs)\<rparr>"
    using min_eq [of "set zs" el_id] min_eq [of "set zs'" el_id] max_eq [of "set zs" el_id] max_eq [of "set zs'" el_id]
      min_eq [of "set zs" el_created_at] min_eq [of "set zs'" el_created_at] max_eq [of "set zs" el_created_at]
      max_eq [of "set zs'" el_created_at] in' lo(1) hi(1) sub' le cr
    by (simp add: summarize_group_def)
  then show ?thesis using in' by (auto simp: partial_summary_def)
qed

lemma key_partial [simp]: "summary_key (partial_summary k n zs) = k"
  by (simp add: partial_summary_def summarize_group_def summary_key_def)

lemma partial_simps [simp]:
  "bs_count (partial_summary k n zs) = int n"
  "bs_first_error_id (partial_summary k n zs) = Min (el_id ` set zs)"
  "bs_last_error_id (partial_summary k n zs) = Max (el_id ` set zs)"
  "(partial_summary k n zs)\<lparr>bs_count := int m\<rparr> = partial_summary k m zs"
  by (simp_all add: partial_summary_def summarize_group_def)

text \<open>The summary rows after the decrement and the deletion of an empty row.\<close>

definition dec_summary :: "string \<times> string \<Rightarrow> summary_row list \<Rightarrow> summary_row list" where
  "dec_summary k t = delete_where (\<lambda>s. summary_key s = k \<and> bs_count s \<le> 0)
     (update_where (\<lambda>s. summary_key s = k) (\<lambda>s. s\<lparr>bs_count := bs_count s - 1\<rparr>) t)"

lemma key_count_update [simp]: "summary_key (s\<lparr>bs_count := n\<rparr>) = summary_key s"
  by (simp add: summary_key_def)

lemma dec_summary_row:
  assumes "distinct (map summary_key t)" "row_of summary_key k t = Some (partial_summary k (Suc n) zs)"
  shows "distinct (map summary_key (dec_summary k t))
    \<and> row_of summary_key j (dec_summary k t) =
       (if j = k then if n = 0 then None else Some (partial_summary k n zs) else row_of summary_key j t)"
proof -
  let ?f = "\<lambda>s :: summary_row. s\<lparr>bs_count := bs_count s - 1\<rparr>"
  let ?u = "update_where (\<lambda>s. summary_key s = k) ?f t"
  have d: "distinct (map summary_key ?u)" using assms(1) by (simp add: distinct_update_where)
  have r: "row_of summary_key j ?u = (if j = k then map_option ?f (row_of summary_key j t) else row_of summary_key j t)" for j
    by (rule row_of_update_where) simp
  have f: "?f (partial_summary k (Suc n) zs) = partial_summary k n zs"
    by (simp add: partial_summary_def)
  show ?thesis using assms(2) d
    by (auto simp: dec_summary_def distinct_delete_where row_of_delete [OF d] r f)
qed

lemma trigger_summary_alt:
  assumes "error_bucket old = Some k"
  shows "trigger_summary R old t =
     (if list_ex (\<lambda>s. summary_key s = k \<and> (bs_first_error_id s = el_id old \<or> bs_last_error_id s = el_id old)) (dec_summary k t)
      then if of_bucket k R = [] then None
        else Some (update_where (\<lambda>s. summary_key s = k) (\<lambda>s. (summarize_group (fst k) (snd k) (of_bucket k R))\<lparr>bs_count := bs_count s\<rparr>)
               (dec_summary k t))
      else Some (dec_summary k t))"
  using assms by (simp add: trigger_summary_def dec_summary_def of_bucket_def Let_def)

lemma pending_rowD:
  assumes "pending_ok R (old # G) t" "error_bucket old = Some k"
  obtains zs where "distinct (map summary_key t)" "endpoints_of (of_bucket k R) (old # of_bucket k G) zs"
    "row_of summary_key k t = Some (partial_summary k (Suc (length (of_bucket k R) + length (of_bucket k G))) zs)"
proof -
  have "pending_row R (old # G) k (row_of summary_key k t)" using assms(1) unfolding pending_ok_def by blast
  moreover have "of_bucket k (old # G) = old # of_bucket k G" using assms(2) by (simp add: of_bucket_def)
  ultimately obtain zs where "endpoints_of (of_bucket k R) (old # of_bucket k G) zs"
    "row_of summary_key k t = Some (partial_summary k (Suc (length (of_bucket k R) + length (of_bucket k G))) zs)"
    by (auto simp: pending_row_def)
  moreover have "distinct (map summary_key t)" using assms(1) by (simp add: pending_ok_def)
  ultimately show ?thesis using that by blast
qed

text \<open>The summary looks at the endpoints only while it has occurrences left.\<close>

lemma trigger_endpoint:
  assumes "distinct (map summary_key t)" "row_of summary_key k t = Some (partial_summary k (Suc n) zs)"
  shows "list_ex (\<lambda>s. summary_key s = k \<and> (bs_first_error_id s = i \<or> bs_last_error_id s = i)) (dec_summary k t)
    \<longleftrightarrow> n \<noteq> 0 \<and> (Min (el_id ` set zs) = i \<or> Max (el_id ` set zs) = i)"
  using dec_summary_row [OF assms, of k] by (simp add: list_ex_row_of)

lemma pending_inner:
  assumes zs: "endpoints_of R (old # G) zs" and mono: "mono_log es" and sub: "set R \<union> insert old (set G) \<subseteq> set es"
    and old: "old \<notin> set R" "old \<notin> set G"
    and inner: "el_id old \<noteq> Min (el_id ` set zs)" "el_id old \<noteq> Max (el_id ` set zs)"
  shows "\<exists>zs'. endpoints_of R G zs' \<and> partial_summary k n zs = partial_summary k n zs'"
proof (cases "R \<noteq> [] \<and> set zs = set R")
  case True
  then show ?thesis by (auto simp: endpoints_of_def)
next
  case False
  then have set_zs: "set zs = insert old (set R \<union> set G)" using zs by (auto simp: endpoints_of_def)
  then have rest: "set (R @ G) = set zs - {old}" using old by auto
  have "partial_summary k n zs = partial_summary k n (R @ G)"
    by (rule conjunct2 [OF endpoints_remove [OF mono _ _ rest]]) (use set_zs sub inner in simp_all)
  then show ?thesis by (intro exI [of _ "R @ G"]) (simp add: endpoints_of_def)
qed

lemma pending_other:
  assumes "error_bucket old \<noteq> Some k"
  shows "pending_row R (old # G) k = pending_row R G k"
proof -
  have "of_bucket k (old # G) = of_bucket k G" using assms by (auto simp: of_bucket_def)
  then show ?thesis unfolding pending_row_def by (simp only:)
qed

lemma trigger_update:
  assumes "pending_ok R (old # G) t" "error_bucket old = Some k" "distinct (map summary_key t')"
    "pending_row R G k (row_of summary_key k t')" "\<And>j. j \<noteq> k \<Longrightarrow> row_of summary_key j t' = row_of summary_key j t"
  shows "pending_ok R G t'"
  unfolding pending_ok_def
proof (intro conjI allI)
  fix j show "pending_row R G j (row_of summary_key j t')"
    using assms pending_other [of old j R G] unfolding pending_ok_def by (cases "j = k") (simp_all, metis)
qed (rule assms(3))

lemma trigger_step:
  assumes t: "pending_ok R (old # G) t" and mono: "mono_log (R @ old # G)" and some: "trigger_summary R old t = Some t'"
  shows "pending_ok R G t'"
proof (cases "error_bucket old")
  case None
  then show ?thesis using t some pending_other [of old _ R G] by (auto simp: trigger_summary_def pending_ok_def)
next
  case (Some k)
  let ?R = "of_bucket k R" and ?G = "of_bucket k G"
  obtain zs where d: "distinct (map summary_key t)" and zs: "endpoints_of ?R (old # ?G) zs"
    and row: "row_of summary_key k t = Some (partial_summary k (Suc (length ?R + length ?G)) zs)"
    using t Some by (rule pending_rowD)
  note dec = dec_summary_row [OF d row]
  show ?thesis
  proof (cases "length ?R + length ?G \<noteq> 0 \<and> (Min (el_id ` set zs) = el_id old \<or> Max (el_id ` set zs) = el_id old)")
    case True
    let ?f = "\<lambda>s. (summarize_group (fst k) (snd k) ?R)\<lparr>bs_count := bs_count s\<rparr>"
    have R: "?R \<noteq> []" and t': "t' = update_where (\<lambda>s. summary_key s = k) ?f (dec_summary k t)"
      using some True by (simp_all add: trigger_summary_alt [OF Some] trigger_endpoint [OF d row] split: if_splits)
    have "distinct (map summary_key t')" unfolding t' using dec [of k] by (intro distinct_update_where) auto
    moreover have "row_of summary_key j t' = (if j = k then map_option ?f (row_of summary_key j (dec_summary k t))
        else row_of summary_key j (dec_summary k t))" for j
      unfolding t' by (rule row_of_update_at) simp
    moreover have "endpoints_of ?R ?G ?R" using R by (simp add: endpoints_of_def)
    ultimately show ?thesis
      by (intro trigger_update [OF t Some]) (use R dec in \<open>auto simp: pending_row_def partial_summary_def\<close>)
  next
    case False
    then have t': "t' = dec_summary k t"
      using some by (auto simp: trigger_summary_alt [OF Some] trigger_endpoint [OF d row])
    have "old \<notin> set ?R" "old \<notin> set ?G" using mono by (auto simp: mono_log_def of_bucket_def)
    then have "length ?R + length ?G \<noteq> 0 \<Longrightarrow> \<exists>zs'. endpoints_of ?R ?G zs'
        \<and> partial_summary k (length ?R + length ?G) zs = partial_summary k (length ?R + length ?G) zs'"
      by (intro pending_inner [OF zs mono]) (use False in \<open>auto simp: of_bucket_def\<close>)
    then have "pending_row R G k (row_of summary_key k t')"
      using dec [of k] unfolding t' by (auto simp: pending_row_def)
    then show ?thesis by (intro trigger_update [OF t Some]) (use dec in \<open>auto simp: t'\<close>)
  qed
qed

text \<open>When it fails: an endpoint goes, nothing is left of its bucket, and other rows of it are still to come.\<close>

lemma trigger_fails:
  assumes t: "pending_ok R (old # G) t" and mono: "mono_log (R @ old # G)"
  shows "trigger_summary R old t = None \<Longrightarrow> \<exists>k. of_bucket k R = [] \<and> 2 \<le> length (of_bucket k (old # G))"
    and "of_bucket k R = [] \<Longrightarrow> 2 \<le> length (of_bucket k (old # G)) \<Longrightarrow> trigger_summary R old t \<noteq> None
      \<Longrightarrow> 2 \<le> length (of_bucket k G)"
proof -
  show "\<exists>k. of_bucket k R = [] \<and> 2 \<le> length (of_bucket k (old # G))" if none: "trigger_summary R old t = None"
  proof (cases "error_bucket old")
    case None
    then show ?thesis using none by (simp add: trigger_summary_def)
  next
    case (Some k)
    obtain zs where "distinct (map summary_key t)"
      "row_of summary_key k t = Some (partial_summary k (Suc (length (of_bucket k R) + length (of_bucket k G))) zs)"
      using t Some by (rule pending_rowD)
    from none trigger_endpoint [OF this] have "of_bucket k R = []" "length (of_bucket k G) \<noteq> 0"
      by (auto simp: trigger_summary_alt [OF Some] split: if_splits)
    then show ?thesis using Some by (intro exI [of _ k]) (auto simp: of_bucket_def Suc_le_eq)
  qed
  show "2 \<le> length (of_bucket k G)"
    if R: "of_bucket k R = []" and two: "2 \<le> length (of_bucket k (old # G))" and some: "trigger_summary R old t \<noteq> None"
  proof (cases "error_bucket old = Some k")
    case False
    then show ?thesis using two by (simp add: of_bucket_def)
  next
    case True
    obtain zs where d: "distinct (map summary_key t)" and zs: "endpoints_of (of_bucket k R) (old # of_bucket k G) zs"
      and row: "row_of summary_key k t = Some (partial_summary k (Suc (length (of_bucket k R) + length (of_bucket k G))) zs)"
      using t True by (rule pending_rowD)
    have set_zs: "set zs = insert old (set (of_bucket k G))" using zs R by (simp add: endpoints_of_def)
    have ne: "of_bucket k G \<noteq> []" using two True by (auto simp: of_bucket_def)
    show ?thesis
    proof (rule ccontr)
      assume "\<not> 2 \<le> length (of_bucket k G)"
      with ne obtain g where g: "of_bucket k G = [g]" by (cases "of_bucket k G") (auto simp: not_le length_Suc_conv less_Suc_eq)
      then have "Min (el_id ` set zs) = el_id old \<or> Max (el_id ` set zs) = el_id old" by (auto simp: set_zs min_def max_def)
      with g some R show False by (auto simp: trigger_summary_alt [OF True] trigger_endpoint [OF d row])
    qed
  qed
qed

lemma trigger_fold:
  assumes "pending_ok R G t" "mono_log (R @ G)"
  defines "run \<equiv> foldl (\<lambda>s old. Option.bind s (trigger_summary R old)) (Some t) G"
  shows "(run = None \<longleftrightarrow> (\<exists>k. of_bucket k R = [] \<and> 2 \<le> length (of_bucket k G)))
    \<and> (\<forall>t'. run = Some t' \<longrightarrow> pending_ok R [] t')"
  using assms(1,2) unfolding run_def
proof (induction G arbitrary: t)
  case (Cons old G)
  have none: "foldl (\<lambda>s old. Option.bind s (trigger_summary R old)) None G = None" for G
    by (induction G) auto
  show ?case
  proof (cases "trigger_summary R old t")
    case None
    with trigger_fails(1) [OF Cons.prems] show ?thesis by (auto simp: none)
  next
    case (Some t')
    have mono: "mono_log (R @ G)" using Cons.prems(2) by (auto simp: mono_log_def)
    have more: "2 \<le> length (of_bucket k G) \<Longrightarrow> 2 \<le> length (of_bucket k (old # G))" for k by (simp add: of_bucket_def)
    from Cons.IH [OF trigger_step [OF Cons.prems Some] mono] trigger_fails(2) [OF Cons.prems] more Some
    show ?thesis by (simp, meson)
  qed
qed (auto simp: of_bucket_def)


section \<open>The read models agree with the log\<close>

text \<open>
  Contexts on which the ingest path and the trigger read the same dimensions: no float (the two print
  them independently) and string labels in the build object.
\<close>

definition string_or_absent :: "json option \<Rightarrow> bool" where
  "string_or_absent v \<longleftrightarrow> (case v of None \<Rightarrow> True | Some (JStr _) \<Rightarrow> True | _ \<Rightarrow> False)"

definition plain_value :: "string \<times> json \<Rightarrow> bool" where
  "plain_value kv \<longleftrightarrow>
     (case snd kv of
        JNum (Float _) \<Rightarrow> False
      | JObj m \<Rightarrow> fst kv = ''build'' \<longrightarrow> string_or_absent (map_of m ''version'') \<and> string_or_absent (map_of m ''commit'')
      | _ \<Rightarrow> True)"

definition plain_row :: "error_row \<Rightarrow> bool" where
  "plain_row e \<longleftrightarrow> list_all plain_value (er_context (el_rec e))"

lemma plain_dimensions:
  assumes "list_all plain_value c"
  shows "trigger_dimensions pg c = dimension_values c"
proof -
  have "trigger_value pg k v = cohort_value k v" if "plain_value (k, v)" for k v
  proof (cases v)
    case (JNum n)
    then show ?thesis using that by (cases n) (auto simp: plain_value_def trigger_value_def cohort_value_def jsonb_text_def)
  next
    case (JObj m)
    then show ?thesis using that
      by (auto simp: plain_value_def trigger_value_def cohort_value_def jsonb_field_def jsonb_text_def string_or_absent_def
        split: option.splits json.splits)
  qed (auto simp: plain_value_def trigger_value_def cohort_value_def jsonb_text_def jsonb_field_def)
  with assms show ?thesis
    by (induction c) (auto simp: trigger_dimensions_def dimension_values_def map_filter_simps split: option.splits)
qed

interpretation app_counts: counter_view row_dimensions "row_removed pg" plain_row for pg
  by unfold_locales (simp add: row_dimensions_def row_removed_def plain_row_def plain_dimensions)

interpretation bucket_counts: counter_view bucket_dimensions "bucket_removed pg" plain_row for pg
  by unfold_locales (simp add: bucket_dimensions_def bucket_removed_def plain_row_def plain_dimensions split: option.splits)


definition rollups_ok :: "telemetry_db \<Rightarrow> bool" where
  "rollups_ok db \<longleftrightarrow> mono_log (errors db) \<and> (\<forall>e \<in> set (errors db). el_id e < next_error_id db)
     \<and> summaries_ok (bucket_summaries db) (errors db)
     \<and> tally (app_context_counts db) (hist row_dimensions (errors db))
     \<and> tally (bucket_context_counts db) (hist bucket_dimensions (errors db))"

text \<open>The state of the statement when its row triggers start, and when they have run.\<close>

lemma of_bucket_partition:
  "set (of_bucket k es) = set (of_bucket k (delete_where P es)) \<union> set (of_bucket k (filter P es))"
  "length (of_bucket k es) = length (of_bucket k (delete_where P es)) + length (of_bucket k (filter P es))"
  by (induction es) (auto simp: of_bucket_def delete_where_def)

lemma mono_log_partition: "mono_log es \<Longrightarrow> mono_log (delete_where P es @ filter P es)"
  by (auto simp: mono_log_def delete_where_def distinct_map_filter distinct_map dest: inj_onD intro: inj_on_subset)

lemma pending_start:
  assumes "summaries_ok t es"
  shows "pending_ok (delete_where P es) (filter P es) t"
  unfolding pending_ok_def
proof (intro conjI allI)
  fix k
  let ?R = "of_bucket k (delete_where P es)" and ?G = "of_bucket k (filter P es)"
  have "row_of summary_key k t = summary_view es k" using assms unfolding summaries_ok_def by blast
  moreover have "of_bucket k es = [] \<longleftrightarrow> ?R = [] \<and> ?G = []"
    using of_bucket_partition(2) [of k es P] by (metis add_is_0 length_0_conv)
  moreover have "endpoints_of ?R ?G (of_bucket k es)" using of_bucket_partition(1) [of k es P] by (simp add: endpoints_of_def)
  moreover have "summarize_group (fst k) (snd k) (of_bucket k es) = partial_summary k (length ?R + length ?G) (of_bucket k es)"
    using of_bucket_partition(2) [of k es P] by (simp add: partial_summary_def summarize_group_def)
  ultimately show "pending_row (delete_where P es) (filter P es) k (row_of summary_key k t)"
    by (auto simp: pending_row_def summary_view_def)
qed (use assms in \<open>simp add: summaries_ok_def\<close>)

lemma pending_finish:
  assumes "pending_ok R [] t"
  shows "summaries_ok t R"
  unfolding summaries_ok_def
proof (intro conjI allI)
  fix k
  have "pending_row R [] k (row_of summary_key k t)" using assms unfolding pending_ok_def by blast
  moreover have "partial_summary k (length (of_bucket k R)) zs = summarize_group (fst k) (snd k) (of_bucket k R)"
    if "set zs = set (of_bucket k R)" for zs
    using that by (simp add: partial_summary_def summarize_group_def)
  moreover have "of_bucket k [] = []" by (simp add: of_bucket_def)
  ultimately show "row_of summary_key k t = summary_view R k"
    by (auto simp: pending_row_def summary_view_def endpoints_of_def split: if_splits)
qed (use assms in \<open>simp add: pending_ok_def\<close>)

text \<open>The triggers of one statement touch the read models independently.\<close>

lemma foldl_bind_None: "foldl (\<lambda>s x. Option.bind s (f x)) None xs = None"
  by (induction xs) auto

lemma trigger_all:
  "foldl (\<lambda>s old. Option.bind s (remove_error_from_read_models pg old)) (Some db) G =
     map_option (\<lambda>sm. db\<lparr>bucket_summaries := sm,
         bucket_windows := fold (trigger_windows pg) G (bucket_windows db),
         app_context_counts := fold unbump (concat (map (row_removed pg) G)) (app_context_counts db),
         bucket_context_counts := fold unbump (concat (map (bucket_removed pg) G)) (bucket_context_counts db)\<rparr>)
       (foldl (\<lambda>s old. Option.bind s (trigger_summary (errors db) old)) (Some (bucket_summaries db)) G)"
proof (induction G arbitrary: db)
  case (Cons old G)
  show ?case
  proof (cases "trigger_summary (errors db) old (bucket_summaries db)")
    case None
    then show ?thesis by (simp add: remove_error_from_read_models_def foldl_bind_None)
  next
    case (Some sm)
    then have "remove_error_from_read_models pg old db = Some (db\<lparr>bucket_summaries := sm,
        bucket_windows := trigger_windows pg old (bucket_windows db),
        app_context_counts := fold unbump (row_removed pg old) (app_context_counts db),
        bucket_context_counts := fold unbump (bucket_removed pg old) (bucket_context_counts db)\<rparr>)"
      by (simp add: remove_error_from_read_models_def)
    with Some show ?thesis by (simp add: Cons.IH)
  qed
qed simp

lemma delete_errors_alt:
  "delete_errors pg P db =
     map_option (\<lambda>sm. (delete_evidence (\<lambda>ev. ew_error_id ev \<in> set (map el_id (filter P (errors db))))
         (db\<lparr>errors := delete_where P (errors db)\<rparr>))
       \<lparr>bucket_summaries := sm,
        bucket_windows := fold (trigger_windows pg) (filter P (errors db)) (bucket_windows db),
        app_context_counts := fold unbump (concat (map (row_removed pg) (filter P (errors db)))) (app_context_counts db),
        bucket_context_counts := fold unbump (concat (map (bucket_removed pg) (filter P (errors db)))) (bucket_context_counts db)\<rparr>)
     (foldl (\<lambda>s old. Option.bind s (trigger_summary (delete_where P (errors db)) old)) (Some (bucket_summaries db))
        (filter P (errors db)))"
  by (simp add: delete_errors_def Let_def trigger_all delete_evidence_def)

lemma delete_errors_rollups:
  assumes ok: "rollups_ok db"
  shows "delete_errors pg P db = None \<longleftrightarrow>
      (\<exists>k. of_bucket k (delete_where P (errors db)) = [] \<and> 2 \<le> length (of_bucket k (filter P (errors db))))"
    and "delete_errors pg P db = Some db' \<Longrightarrow> (\<And>e. e \<in> set (errors db) \<Longrightarrow> P e \<Longrightarrow> plain_row e) \<Longrightarrow> rollups_ok db'"
proof -
  let ?R = "delete_where P (errors db)" and ?G = "filter P (errors db)"
  have t: "pending_ok ?R ?G (bucket_summaries db)" "mono_log (?R @ ?G)"
    using ok pending_start mono_log_partition by (auto simp: rollups_ok_def)
  note fold = trigger_fold [OF t]
  show "delete_errors pg P db = None \<longleftrightarrow> (\<exists>k. of_bucket k ?R = [] \<and> 2 \<le> length (of_bucket k ?G))"
    using fold by (simp add: delete_errors_alt)
  show "rollups_ok db'" if del: "delete_errors pg P db = Some db'" and plain: "\<And>e. e \<in> set (errors db) \<Longrightarrow> P e \<Longrightarrow> plain_row e"
  proof -
    obtain sm where sm: "foldl (\<lambda>s old. Option.bind s (trigger_summary ?R old)) (Some (bucket_summaries db)) ?G = Some sm"
      and db': "errors db' = ?R" "next_error_id db' = next_error_id db" "bucket_summaries db' = sm"
        "app_context_counts db' = fold unbump (concat (map (row_removed pg) ?G)) (app_context_counts db)"
        "bucket_context_counts db' = fold unbump (concat (map (bucket_removed pg) ?G)) (bucket_context_counts db)"
      using del by (auto simp: delete_errors_alt delete_evidence_def)
    have "summaries_ok sm ?R" using fold sm pending_finish by blast
    moreover have "mono_log ?R" using ok mono_log_partition [of "errors db" P] by (auto simp: rollups_ok_def mono_log_def)
    moreover have "\<forall>e \<in> set ?R. el_id e < next_error_id db" using ok by (simp add: rollups_ok_def delete_where_def)
    ultimately show ?thesis using ok plain
      by (simp add: rollups_ok_def db' app_counts.view_delete bucket_counts.view_delete)
  qed
qed


lemma insert_errors_ids: "map el_id (insert_errors lib now a n recs) = map (\<lambda>i. n + int i) [0..<length recs]"
  by (rule nth_equalityI) (auto simp: insert_errors_def nth_enumerate_eq)

lemma insert_errors_fields:
  assumes "e \<in> set (insert_errors lib now a n recs)"
  shows "el_app_id e = a \<and> el_created_at e = now \<and> n \<le> el_id e \<and> el_id e < n + int (length recs)
    \<and> el_rec e \<in> set recs \<and> el_bucket_id e = Some (bucket_id lib (el_rec e))"
  using assms by (auto simp: insert_errors_def in_set_enumerate_eq)

lemma insert_errors_recs [simp]: "map el_rec (insert_errors lib now a n recs) = recs"
  by (rule nth_equalityI) (auto simp: insert_errors_def nth_enumerate_eq)

lemma ingest_errors_fields:
  assumes "recs \<noteq> []" "new = insert_errors lib now a (next_error_id db) recs"
  shows "errors (ingest_errors lib now a dep recs db) = errors db @ new"
    "next_error_id (ingest_errors lib now a dep recs db) = next_error_id db + int (length recs)"
    "bucket_summaries (ingest_errors lib now a dep recs db) = upsert_summaries a new (bucket_summaries db)"
    "app_context_counts (ingest_errors lib now a dep recs db)
      = bump_groups (concat (map row_dimensions new)) (app_context_counts db)"
    "bucket_context_counts (ingest_errors lib now a dep recs db)
      = bump_groups (concat (map bucket_dimensions new)) (bucket_context_counts db)"
  using assms by (simp_all add: ingest_errors_def Let_def split: prod.splits)

lemma mono_log_append:
  assumes "mono_log es" "distinct (map el_id new)" "\<And>e. e \<in> set es \<Longrightarrow> el_id e < n \<and> el_created_at e \<le> now"
    "\<And>e. e \<in> set new \<Longrightarrow> n \<le> el_id e \<and> el_created_at e = now"
  shows "mono_log (es @ new)"
proof -
  have "el_id ` set es \<inter> el_id ` set new = {}" using assms(3,4) by force
  moreover have "el_created_at e \<le> el_created_at e'" if "e \<in> set (es @ new)" "e' \<in> set (es @ new)" "el_id e \<le> el_id e'" for e e'
    using that assms by (fastforce simp: mono_log_def)
  ultimately show ?thesis using assms(1,2) by (auto simp: mono_log_def)
qed

lemma ingest_errors_rollups:
  assumes ok: "rollups_ok db" and clock: "\<forall>e \<in> set (errors db). el_created_at e \<le> now"
  shows "rollups_ok (ingest_errors lib now a dep recs db)"
proof (cases "recs = []")
  case True
  then show ?thesis using ok by (simp add: ingest_errors_def)
next
  case False
  let ?new = "insert_errors lib now a (next_error_id db) recs"
  have new: "el_app_id e = a \<and> el_created_at e = now \<and> next_error_id db \<le> el_id e
      \<and> el_id e < next_error_id db + int (length recs)" if "e \<in> set ?new" for e
    using insert_errors_fields [OF that] by simp
  have "distinct (map el_id ?new)" unfolding insert_errors_ids by (auto simp: distinct_map inj_on_def)
  then have "mono_log (errors db @ ?new)"
    using ok clock new by (intro mono_log_append) (auto simp: rollups_ok_def)
  moreover have "\<forall>e \<in> set (errors db @ ?new). el_id e < next_error_id db + int (length recs)"
    using ok new by (force simp: rollups_ok_def)
  moreover have "summaries_ok (upsert_summaries a ?new (bucket_summaries db)) (errors db @ ?new)"
    using ok new by (intro upsert_summaries_ok) (auto simp: rollups_ok_def)
  ultimately show ?thesis using ok app_counts.view_insert bucket_counts.view_insert
    by (simp add: rollups_ok_def ingest_errors_fields [OF False refl])
qed

text \<open>What the read models depend on.\<close>

lemma rollups_cong:
  assumes "errors db' = errors db" "next_error_id db' = next_error_id db" "bucket_summaries db' = bucket_summaries db"
    "app_context_counts db' = app_context_counts db" "bucket_context_counts db' = bucket_context_counts db"
  shows "rollups_ok db' \<longleftrightarrow> rollups_ok db"
  by (simp add: rollups_ok_def assms)

lemma store_graphs_frame:
  assumes "store_graphs now a gs db = Some db'"
  shows "errors db' = errors db \<and> next_error_id db' = next_error_id db \<and> bucket_summaries db' = bucket_summaries db
    \<and> app_context_counts db' = app_context_counts db \<and> bucket_context_counts db' = bucket_context_counts db
    \<and> processed_batches db' = processed_batches db \<and> evidence db' = evidence db
    \<and> next_evidence_id db' = next_evidence_id db
    \<and> app_storage_usage db' = app_storage_usage db \<and> bucket_windows db' = bucket_windows db
    \<and> edges db' = edges db \<and> integration_outbox db' = integration_outbox db"
  using assms by (auto simp: store_graphs_def Let_def split: if_splits)

text \<open>An accepted batch: its id was new, and it went through the steps of the transaction.\<close>

lemma ingest_batch_accepted:
  assumes "ingest_batch lib now a es recs gs bid dep db = Some (False, db')" "\<not> (es = [] \<and> recs = [] \<and> gs = [])"
  obtains db2 where "(a, bid) \<notin> batch_key ` set (processed_batches db)" "distinct (map fst es)"
    "db2 = (count_traffic now a dep (db\<lparr>processed_batches := processed_batches db @
       [\<lparr>pb_app_id = a, pb_batch_id = bid, pb_created_at = now\<rparr>]\<rparr>))"
    "store_graphs now a gs (ingest_errors lib now a dep recs
       (db2\<lparr>edges := fold (\<lambda>(k, d). bump (a, k) d) es (edges db2)\<rparr>)) = Some db'"
  using assms by (auto simp: ingest_batch_def ingest_edges_def Let_def bind_eq_Some_conv split: if_splits)

lemma count_traffic_frame [simp]:
  "errors (count_traffic now a dep db) = errors db" "next_error_id (count_traffic now a dep db) = next_error_id db"
  "bucket_summaries (count_traffic now a dep db) = bucket_summaries db"
  "app_context_counts (count_traffic now a dep db) = app_context_counts db"
  "bucket_context_counts (count_traffic now a dep db) = bucket_context_counts db"
  "processed_batches (count_traffic now a dep db) = processed_batches db"
  "evidence (count_traffic now a dep db) = evidence db"
  "next_evidence_id (count_traffic now a dep db) = next_evidence_id db"
  "app_storage_usage (count_traffic now a dep db) = app_storage_usage db"
  "bucket_windows (count_traffic now a dep db) = bucket_windows db"
  "edges (count_traffic now a dep db) = edges db"
  "integration_outbox (count_traffic now a dep db) = integration_outbox db"
  by (simp_all add: count_traffic_def split: option.splits)

lemma ingest_errors_frame [simp]:
  "processed_batches (ingest_errors lib now a dep recs db) = processed_batches db"
  "evidence (ingest_errors lib now a dep recs db) = evidence db"
  "next_evidence_id (ingest_errors lib now a dep recs db) = next_evidence_id db"
  "app_storage_usage (ingest_errors lib now a dep recs db) = app_storage_usage db"
  "edges (ingest_errors lib now a dep recs db) = edges db"
  by (simp_all add: ingest_errors_def Let_def split: prod.splits)

lemma ingest_batch_rollups:
  assumes "rollups_ok db" "\<forall>e \<in> set (errors db). el_created_at e \<le> now"
    "ingest_batch lib now a es recs gs bid dep db = Some (d, db')"
  shows "rollups_ok db'"
proof (cases "d \<or> es = [] \<and> recs = [] \<and> gs = []")
  case True
  then show ?thesis using assms(1,3)
    by (auto simp: ingest_batch_def ingest_edges_def Let_def bind_eq_Some_conv split: if_splits)
next
  case False
  then have acc: "ingest_batch lib now a es recs gs bid dep db = Some (False, db')" "\<not> (es = [] \<and> recs = [] \<and> gs = [])"
    using assms(3) by auto
  obtain db2 where "(a, bid) \<notin> batch_key ` set (processed_batches db)" "distinct (map fst es)"
    and db2: "db2 = (count_traffic now a dep (db\<lparr>processed_batches := processed_batches db @
       [\<lparr>pb_app_id = a, pb_batch_id = bid, pb_created_at = now\<rparr>]\<rparr>))"
    and st: "store_graphs now a gs (ingest_errors lib now a dep recs
       (db2\<lparr>edges := fold (\<lambda>(k, d). bump (a, k) d) es (edges db2)\<rparr>)) = Some db'"
    using acc by (rule ingest_batch_accepted)
  let ?db3 = "db2\<lparr>edges := fold (\<lambda>(k, d). bump (a, k) d) es (edges db2)\<rparr>"
  have "rollups_ok ?db3" using assms(1) rollups_cong [of ?db3 db] by (simp add: db2)
  then have "rollups_ok (ingest_errors lib now a dep recs ?db3)"
    using assms(2) by (intro ingest_errors_rollups) (simp_all add: db2)
  then show ?thesis using store_graphs_frame [OF st] rollups_cong [of db'] by blast
qed


declare split_paired_All [simp] split_paired_Ex [simp]

end
