(* ===== verification/Telemetry_Steps.thy ===== *)
theory Telemetry_Steps
  imports Rollups
begin

text \<open>
  The telemetry store as a state machine: its operations as labelled steps, the invariant every run keeps
  (read models, evidence rows and usage), the fate of a consumed batch id, the leases of the outbox, and
  the properties of the store with their witnesses.
\<close>

declare split_paired_All [simp del] split_paired_Ex [simp del]

section \<open>Evidence rows\<close>

definition stored_bytes :: "string \<Rightarrow> evidence_row list \<Rightarrow> int" where
  "stored_bytes a evs = sum_list (map ew_bytes (filter (\<lambda>r. ew_app_id r = a) evs))"

definition usage_of :: "string \<Rightarrow> string counter \<Rightarrow> int" where
  "usage_of a t = (case map_of t a of None \<Rightarrow> 0 | Some n \<Rightarrow> n)"

definition evidence_inv :: "telemetry_db \<Rightarrow> bool" where
  "evidence_inv db \<longleftrightarrow> distinct (map ew_id (evidence db))
     \<and> (\<forall>r \<in> set (evidence db). 0 \<le> ew_bytes r \<and> ew_id r < next_evidence_id db \<and> ew_error_id r \<in> el_id ` set (errors db))
     \<and> (\<forall>a. usage_of a (app_storage_usage db) = stored_bytes a (evidence db))"

lemma stored_bytes_simps [simp]:
  "stored_bytes a [] = 0"
  "stored_bytes a (r # evs) = (if ew_app_id r = a then ew_bytes r else 0) + stored_bytes a evs"
  "stored_bytes a (xs @ ys) = stored_bytes a xs + stored_bytes a ys"
  by (simp_all add: stored_bytes_def)

lemma stored_bytes_nonneg: "(\<And>r. r \<in> set evs \<Longrightarrow> 0 \<le> ew_bytes r) \<Longrightarrow> 0 \<le> stored_bytes a evs"
  by (induction evs) auto

lemma stored_bytes_partition: "stored_bytes a evs = stored_bytes a (delete_where P evs) + stored_bytes a (filter P evs)"
  by (induction evs) (auto simp: delete_where_def)

lemma usage_of_removed:
  "usage_of a (usage_removed r t) =
     (if a = ew_app_id r \<and> map_of t a \<noteq> None then max 0 (usage_of a t - ew_bytes r) else usage_of a t)"
proof -
  have "map_of (usage_removed r t) a =
      (if a = ew_app_id r then map_option (\<lambda>n. max 0 (n - ew_bytes r)) (map_of t a) else map_of t a)"
    by (induction t) (auto simp: usage_removed_def update_where_def)
  then show ?thesis by (auto simp: usage_of_def split: option.splits)
qed

lemma usage_of_bump [simp]: "usage_of a (bump k n t) = usage_of a t + (if a = k then n else 0)"
  by (auto simp: usage_of_def map_of_bump split: option.splits)

lemma usage_fold_removed:
  assumes "\<And>r. r \<in> set G \<Longrightarrow> 0 \<le> ew_bytes r" "0 \<le> m" "usage_of a t = m + stored_bytes a G"
  shows "usage_of a (fold usage_removed G t) = m"
  using assms
proof (induction G arbitrary: t)
  case (Cons r G)
  have G: "0 \<le> stored_bytes a G" using Cons.prems(1) by (intro stored_bytes_nonneg) auto
  have r: "0 \<le> ew_bytes r" using Cons.prems(1) by simp
  have "map_of t a = None \<Longrightarrow> usage_of a t = 0" by (simp add: usage_of_def)
  then have "usage_of a (usage_removed r t) = m + stored_bytes a G"
    using Cons.prems(2,3) G r by (auto simp: usage_of_removed split: if_splits)
  then show ?case using Cons.IH [of "usage_removed r t"] Cons.prems by simp
qed simp

lemma delete_evidence_inv:
  assumes "evidence_inv db" "\<And>r. r \<in> set (evidence db) \<Longrightarrow> \<not> P r \<Longrightarrow> ew_error_id r \<in> el_id ` set es"
  shows "evidence_inv (delete_evidence P (db\<lparr>errors := es\<rparr>))"
proof -
  have "usage_of a (fold usage_removed (filter P (evidence db)) (app_storage_usage db))
      = stored_bytes a (delete_where P (evidence db))" for a
    using assms(1) stored_bytes_partition [of a "evidence db" P]
    by (intro usage_fold_removed) (auto simp: evidence_inv_def delete_where_def intro!: stored_bytes_nonneg)
  with assms show ?thesis
    by (auto simp: evidence_inv_def delete_evidence_def delete_where_def distinct_map_filter)
qed

lemma insert_evidence_inv:
  assumes "evidence_inv db" "0 \<le> bytes" "insert_evidence now a e kind key bytes db = Some (i, db')"
  shows "evidence_inv db' \<and> stored_bytes a (evidence db') = stored_bytes a (evidence db) + bytes"
proof -
  have "ew_id r < next_evidence_id db" if "r \<in> set (evidence db)" for r using assms(1) that by (simp add: evidence_inv_def)
  then have "next_evidence_id db \<notin> ew_id ` set (evidence db)" "\<And>r. r \<in> set (evidence db) \<Longrightarrow> ew_id r < next_evidence_id db + 1"
    by force+
  with assms show ?thesis
    by (auto simp: evidence_inv_def insert_evidence_def Let_def usage_added_def list_ex_iff split: if_splits)
qed

lemma usage_insert_missing [simp]: "usage_of a (insert_missing fst (k, 0) t) = usage_of a t"
  by (auto simp: usage_of_def insert_missing_def map_of_eq_None_iff [symmetric] map_add_def split: option.splits)

lemma add_evidence_inv:
  assumes "evidence_inv db" "0 \<le> bytes" "add_evidence_within_quota now a e kind key bytes limit db = Some (r, db')"
  shows "evidence_inv db'"
proof (cases limit)
  case None
  then show ?thesis using assms insert_evidence_inv by (fastforce simp: add_evidence_within_quota_def)
next
  case (Some m)
  have "evidence_inv (db\<lparr>app_storage_usage := insert_missing fst (a, 0) (app_storage_usage db)\<rparr>)"
    using assms(1) by (simp add: evidence_inv_def)
  then show ?thesis using Some assms insert_evidence_inv
    by (fastforce simp: add_evidence_within_quota_def Let_def split: if_splits)
qed


section \<open>The store as a state machine\<close>

definition empty_telemetry :: "project_row list \<Rightarrow> telemetry_db" where
  "empty_telemetry ps = \<lparr>bucket_triage = [], bucket_tickets = [], bucket_resolution_status = [],
     bucket_resolution_events = [], projects = ps, edges = [], errors = [], next_error_id = 1,
     bucket_summaries = [], bucket_windows = [], app_context_counts = [], bucket_context_counts = [],
     build_traffic_rows = [], processed_batches = [], integration_outbox = [], next_outbox_id = 1,
     artifact_nodes = [], artifact_roots = [], evidence = [], next_evidence_id = 1, app_storage_usage = [],
     replay_results = [], next_replay_id = 1, cloud_runs = []\<rparr>"

datatype tevent = Accepted string string int | Pruned int | Quiet

text \<open>
  Every operation of the store. An ingest happens at an instant no earlier than the log, with contexts
  whose dimensions ingest and trigger read alike; an upload has a size.
\<close>

inductive tstep :: "(json \<Rightarrow> string) \<Rightarrow> bucket_lib \<Rightarrow> telemetry_db \<Rightarrow> tevent \<Rightarrow> telemetry_db \<Rightarrow> bool"
  for pg lib where
  t_ingest: "\<lbrakk>ingest_batch lib now a es recs gs bid dep db = Some (False, db'); \<not> (es = [] \<and> recs = [] \<and> gs = []);
      \<forall>e \<in> set (errors db). el_created_at e \<le> now; \<forall>r \<in> set recs. list_all plain_value (er_context r)\<rbrakk>
    \<Longrightarrow> tstep pg lib db (Accepted a bid now) db'"
| t_dedup: "ingest_batch lib now a es recs gs bid dep db = Some (True, db') \<Longrightarrow> tstep pg lib db Quiet db'"
| t_prune: "prune_processed_batches now hours db = (n, db')
    \<Longrightarrow> tstep pg lib db (Pruned (now - hours * 3600000000)) db'"
| t_sample: "delete_sample_bucket_data pg a b ids db = Some (r, db') \<Longrightarrow> tstep pg lib db Quiet db'"
| t_expire: "delete_expired_errors pg now days limit db = Some (n, db') \<Longrightarrow> tstep pg lib db Quiet db'"
| t_evidence: "add_evidence_within_quota now a e kind key bytes cap db = Some (r, db') \<Longrightarrow> 0 \<le> bytes
    \<Longrightarrow> tstep pg lib db Quiet db'"
| t_unevidence: "delete_evidence_rows ids db = (n, db') \<Longrightarrow> tstep pg lib db Quiet db'"
| t_remove: "tstep pg lib db Quiet (remove_evidence i db)"
| t_claim: "claim_integration_work now locked limit db = (w, db') \<Longrightarrow> tstep pg lib db Quiet db'"
| t_complete: "tstep pg lib db Quiet (complete_integration_work i db)"
| t_replay: "add_replay_result rfc now a b st runs failures rid db = (i, db') \<Longrightarrow> tstep pg lib db Quiet db'"
| t_edge: "tstep pg lib db Quiet (incr_edge a key db)"

inductive trun :: "(json \<Rightarrow> string) \<Rightarrow> bucket_lib \<Rightarrow> telemetry_db \<Rightarrow> tevent list \<Rightarrow> telemetry_db \<Rightarrow> bool"
  for pg lib where
  trun_Nil: "trun pg lib db [] db"
| trun_Cons: "tstep pg lib db e db1 \<Longrightarrow> trun pg lib db1 tr db2 \<Longrightarrow> trun pg lib db (e # tr) db2"

inductive_cases trun_ConsE: "trun pg lib db (e # tr) db'"
inductive_cases accepted_stepE: "tstep pg lib db (Accepted a b t) db'"

lemma trun_append: "trun pg lib db (tr @ tr') db' \<longleftrightarrow> (\<exists>m. trun pg lib db tr m \<and> trun pg lib m tr' db')"
proof (induction tr arbitrary: db)
  case Nil
  then show ?case by (auto intro: trun_Nil elim: trun.cases)
next
  case (Cons e tr)
  then show ?case by (simp, blast elim: trun_ConsE intro: trun_Cons)
qed

definition store_inv :: "telemetry_db \<Rightarrow> bool" where
  "store_inv db \<longleftrightarrow> rollups_ok db \<and> (\<forall>e \<in> set (errors db). plain_row e) \<and> evidence_inv db"

lemma delete_errors_inv:
  assumes "store_inv db" "delete_errors pg P db = Some db'"
  shows "store_inv db'"
proof -
  let ?gone = "map el_id (filter P (errors db))"
  let ?db1 = "delete_evidence (\<lambda>ev. ew_error_id ev \<in> set ?gone) (db\<lparr>errors := delete_where P (errors db)\<rparr>)"
  have "evidence_inv ?db1"
  proof (rule delete_evidence_inv)
    fix r assume "r \<in> set (evidence db)" "ew_error_id r \<notin> set ?gone"
    with assms(1) obtain e where "e \<in> set (errors db)" "el_id e = ew_error_id r" "\<not> P e"
      by (force simp: store_inv_def evidence_inv_def)
    then show "ew_error_id r \<in> el_id ` set (delete_where P (errors db))" by (force simp: delete_where_def)
  qed (use assms(1) in \<open>simp add: store_inv_def\<close>)
  moreover have "evidence db' = evidence ?db1" "errors db' = errors ?db1" "next_evidence_id db' = next_evidence_id ?db1"
    "app_storage_usage db' = app_storage_usage ?db1"
    using assms(2) by (auto simp: delete_errors_alt delete_evidence_def)
  ultimately have "evidence_inv db'" by (simp add: evidence_inv_def)
  moreover have "rollups_ok db'" using assms delete_errors_rollups(2) by (auto simp: store_inv_def)
  moreover have "errors db' = delete_where P (errors db)" using assms(2) by (auto simp: delete_errors_alt delete_evidence_def)
  then have "\<forall>e \<in> set (errors db'). plain_row e" using assms(1) by (simp add: store_inv_def delete_where_def)
  ultimately show ?thesis by (simp add: store_inv_def)
qed

text \<open>What the invariant reads: a step outside these columns keeps it.\<close>

lemma store_inv_cong:
  assumes "errors db' = errors db" "next_error_id db' = next_error_id db" "bucket_summaries db' = bucket_summaries db"
    "app_context_counts db' = app_context_counts db" "bucket_context_counts db' = bucket_context_counts db"
    "evidence db' = evidence db" "next_evidence_id db' = next_evidence_id db" "app_storage_usage db' = app_storage_usage db"
  shows "store_inv db' \<longleftrightarrow> store_inv db"
  by (simp add: store_inv_def evidence_inv_def rollups_ok_def assms)

lemma drop_empty_bucket:
  assumes "rollups_ok db" "of_bucket (a, b) (errors db) = []"
  shows "bucket_summaries (drop_bucket a b db) = bucket_summaries db"
    "bucket_context_counts (drop_bucket a b db) = bucket_context_counts db"
proof -
  have "row_of summary_key (a, b) (bucket_summaries db) = None"
    using assms unfolding rollups_ok_def summaries_ok_def summary_view_def by (metis (full_types))
  then show "bucket_summaries (drop_bucket a b db) = bucket_summaries db"
    by (auto simp: drop_bucket_def delete_where_def row_of_None filter_id_conv image_iff)
  have t: "tally (bucket_context_counts db) (hist bucket_dimensions (errors db))"
    using assms(1) by (simp add: rollups_ok_def)
  have "hist bucket_dimensions (errors db) (a, b, k, v) = 0" for k v
    using assms(2) by (auto simp: hist_def sum_list_eq_0_iff count_list_0_iff bucket_dimensions_def of_bucket_def
      error_bucket_def filter_empty_conv split: option.splits)
  then have "((a, b, k, v), n) \<notin> set (bucket_context_counts db)" for k v n
    using t unfolding tally_def by (metis Some_eq_map_of_iff option.distinct(1))
  then show "bucket_context_counts (drop_bucket a b db) = bucket_context_counts db"
    by (auto simp: drop_bucket_def delete_where_def filter_id_conv)
qed


lemma delete_sample_cases:
  assumes "delete_sample_bucket_data pg a b ids db = Some (r, db')"
  obtains "db' = db"
  | db1 where "delete_errors pg (\<lambda>e. error_bucket e = Some (a, b) \<and> el_id e \<in> set ids) db = Some db1"
      "db' = (if of_bucket (a, b) (errors db1) = [] then drop_bucket a b db1 else db1)"
proof (cases "ids = []")
  case False
  with assms obtain db1 where "delete_errors pg (\<lambda>e. error_bucket e = Some (a, b) \<and> el_id e \<in> set ids) db = Some db1"
    "db' = (if affected (\<lambda>e. error_bucket e = Some (a, b)) (errors db1) = 0 then drop_bucket a b db1 else db1)"
    by (auto simp: delete_sample_bucket_data_def Let_def bind_eq_Some_conv)
  then show ?thesis by (intro that(2)) (simp_all add: affected_def of_bucket_def)
qed (use assms that(1) in \<open>simp add: delete_sample_bucket_data_def\<close>)

lemma delete_sample_inv:
  assumes "store_inv db" "delete_sample_bucket_data pg a b ids db = Some (r, db')"
  shows "store_inv db'"
  using assms(2)
proof (cases rule: delete_sample_cases)
  case (2 db1)
  have inv: "store_inv db1" by (rule delete_errors_inv [OF assms(1) 2(1)])
  show ?thesis
  proof (cases "of_bucket (a, b) (errors db1) = []")
    case True
    then have "store_inv (drop_bucket a b db1) \<longleftrightarrow> store_inv db1"
      using inv drop_empty_bucket [of db1 a b] by (intro store_inv_cong) (auto simp: drop_bucket_def store_inv_def)
    with inv True show ?thesis by (simp add: 2(2))
  qed (simp add: 2(2) inv)
qed (use assms(1) in simp)

lemma ingest_batch_log:
  assumes "ingest_batch lib now a es recs gs bid dep db = Some (False, db')" "\<not> (es = [] \<and> recs = [] \<and> gs = [])"
  shows "errors db' = errors db @ insert_errors lib now a (next_error_id db) recs
    \<and> processed_batches db' = processed_batches db @ [\<lparr>pb_app_id = a, pb_batch_id = bid, pb_created_at = now\<rparr>]
    \<and> (a, bid) \<notin> batch_key ` set (processed_batches db)
    \<and> evidence db' = evidence db \<and> next_evidence_id db' = next_evidence_id db
    \<and> app_storage_usage db' = app_storage_usage db"
proof -
  obtain db2 where new: "(a, bid) \<notin> batch_key ` set (processed_batches db)" and "distinct (map fst es)"
    and db2: "db2 = (count_traffic now a dep (db\<lparr>processed_batches := processed_batches db @
       [\<lparr>pb_app_id = a, pb_batch_id = bid, pb_created_at = now\<rparr>]\<rparr>))"
    and st: "store_graphs now a gs (ingest_errors lib now a dep recs
       (db2\<lparr>edges := fold (\<lambda>(k, d). bump (a, k) d) es (edges db2)\<rparr>)) = Some db'"
    using assms by (rule ingest_batch_accepted)
  let ?db3 = "db2\<lparr>edges := fold (\<lambda>(k, d). bump (a, k) d) es (edges db2)\<rparr>"
  have "errors (ingest_errors lib now a dep recs ?db3) = errors db @ insert_errors lib now a (next_error_id db) recs"
    using ingest_errors_fields(1) [of recs _ lib now a ?db3 dep]
    by (cases "recs = []") (simp_all add: db2, simp add: ingest_errors_def insert_errors_def)
  with new store_graphs_frame [OF st] show ?thesis by (simp add: db2)
qed


lemma ingest_batch_inv:
  assumes "store_inv db" "ingest_batch lib now a es recs gs bid dep db = Some (False, db')" "\<not> (es = [] \<and> recs = [] \<and> gs = [])"
    "\<forall>e \<in> set (errors db). el_created_at e \<le> now" "\<forall>r \<in> set recs. list_all plain_value (er_context r)"
  shows "store_inv db'"
proof -
  note log = ingest_batch_log [OF assms(2,3)]
  have "plain_row e" if "e \<in> set (insert_errors lib now a (next_error_id db) recs)" for e
    using insert_errors_fields [OF that] assms(5) by (simp add: plain_row_def)
  moreover have "evidence_inv db'" using assms(1) log by (auto simp: store_inv_def evidence_inv_def)
  moreover have "rollups_ok db'" using assms(1) ingest_batch_rollups [OF _ assms(4,2)] by (simp add: store_inv_def)
  ultimately show ?thesis using assms(1) log by (auto simp: store_inv_def)
qed

lemma dedup_unchanged: "ingest_batch lib now a es recs gs bid dep db = Some (True, db') \<Longrightarrow> db' = db"
  by (auto simp: ingest_batch_def Let_def bind_eq_Some_conv split: if_splits)

lemma delete_evidence_store_inv: "store_inv db \<Longrightarrow> store_inv (delete_evidence P db)"
  using delete_evidence_inv [of db P "errors db"] rollups_cong [of "delete_evidence P db" db]
  by (auto simp: store_inv_def delete_evidence_def evidence_inv_def)

lemma add_evidence_frame:
  assumes "add_evidence_within_quota now a e kind key bytes cap db = Some (r, db')"
  shows "errors db' = errors db \<and> rollups_ok db' = rollups_ok db"
  using assms
  by (auto simp: add_evidence_within_quota_def insert_evidence_def Let_def rollups_ok_def split: if_splits option.splits)

lemma tstep_inv: "tstep pg lib db e db' \<Longrightarrow> store_inv db \<Longrightarrow> store_inv db'"
proof (induction rule: tstep.induct)
  case (t_evidence now a e kind key bytes cap db r db')
  then show ?case using add_evidence_inv add_evidence_frame [OF t_evidence(1)] by (auto simp: store_inv_def)
next
  case (t_expire now days limit db n db')
  then show ?case using delete_errors_inv by (auto simp: delete_expired_errors_def Let_def)
next
  case (t_claim now locked limit db w db')
  then obtain t where "db' = db\<lparr>integration_outbox := t\<rparr>"
    by (simp only: claim_integration_work_def Let_def prod.inject) blast
  then have "store_inv db' \<longleftrightarrow> store_inv db" by (intro store_inv_cong) simp_all
  with t_claim show ?case by simp
next
  case (t_complete db i)
  have "store_inv (complete_integration_work i db) \<longleftrightarrow> store_inv db"
    by (rule store_inv_cong) (simp_all add: complete_integration_work_def)
  with t_complete show ?case by simp
next
  case (t_replay rfc now a b st runs failures rid db i db')
  then have "store_inv db' \<longleftrightarrow> store_inv db" by (intro store_inv_cong) (auto simp: add_replay_result_def Let_def)
  with t_replay show ?case by simp
next
  case (t_edge db a key)
  have "store_inv (incr_edge a key db) \<longleftrightarrow> store_inv db" by (rule store_inv_cong) (simp_all add: incr_edge_def)
  with t_edge show ?case by simp
next
  case (t_prune now hours db n db')
  then have "store_inv db' \<longleftrightarrow> store_inv db"
    by (intro store_inv_cong) (auto simp: prune_processed_batches_def Let_def)
  with t_prune show ?case by simp
next
  case (t_ingest now a es recs gs bid dep db db')
  then show ?case by (intro ingest_batch_inv [of db lib now a es recs gs bid dep db'])
next
  case (t_sample a b ids db r db')
  then show ?case by (intro delete_sample_inv [of db pg a b ids r db'])
qed (auto simp: delete_evidence_rows_def remove_evidence_def delete_evidence_store_inv dest: dedup_unchanged)

lemma empty_inv: "store_inv (empty_telemetry ps)"
  by (simp add: store_inv_def rollups_ok_def evidence_inv_def empty_telemetry_def mono_log_def summaries_ok_def
    summary_view_def of_bucket_def row_of_def usage_of_def)

lemma trun_inv: "trun pg lib db tr db' \<Longrightarrow> store_inv db \<Longrightarrow> store_inv db'"
  by (induction rule: trun.induct) (auto intro: tstep_inv)

lemmas reachable_inv = trun_inv [OF _ empty_inv]

lemma delete_errors_None:
  assumes "store_inv db"
  shows "delete_errors pg P db = None \<longleftrightarrow>
    (\<exists>k. (\<forall>e \<in> set (of_bucket k (errors db)). P e) \<and> 2 \<le> length (of_bucket k (errors db)))"
proof -
  have "of_bucket k (delete_where P (errors db)) = [] \<longleftrightarrow> (\<forall>e \<in> set (of_bucket k (errors db)). P e)" for k
    by (auto simp: of_bucket_def delete_where_def filter_empty_conv)
  moreover have "of_bucket k (filter P (errors db)) = of_bucket k (errors db)" if "\<forall>e \<in> set (of_bucket k (errors db)). P e" for k
    using that by (auto simp: of_bucket_def intro!: filter_cong)
  ultimately show ?thesis
    using assms delete_errors_rollups(1) [of db pg P] unfolding store_inv_def by metis
qed

section \<open>Consumed batch ids\<close>

lemma delete_errors_batches: "delete_errors pg P db = Some db' \<Longrightarrow> processed_batches db' = processed_batches db"
  by (auto simp: delete_errors_alt delete_evidence_def)

text \<open>A consumed id is forgotten only by a pruning with a later cutoff.\<close>

lemma batch_kept_step:
  assumes "tstep pg lib db e db'" "r \<in> set (processed_batches db)" "\<And>c. e = Pruned c \<Longrightarrow> c \<le> pb_created_at r"
  shows "r \<in> set (processed_batches db')"
  using assms
proof (induction rule: tstep.induct)
  case (t_ingest now a es recs gs bid dep db db')
  then show ?case using ingest_batch_log [OF t_ingest(1,2)] by simp
next
  case (t_sample a b ids db q db')
  from t_sample(1) have "processed_batches db' = processed_batches db"
    by (cases rule: delete_sample_cases) (simp_all add: delete_errors_batches drop_bucket_def)
  with t_sample show ?case by simp
next
  case (t_expire now days limit db n db')
  then show ?case using delete_errors_batches by (auto simp: delete_expired_errors_def Let_def)
next
  case (t_evidence now a e kind key bytes cap db q db')
  then show ?case
    by (auto simp: add_evidence_within_quota_def insert_evidence_def Let_def split: if_splits option.splits)
next
  case (t_claim now locked limit db w db')
  then obtain t where "db' = db\<lparr>integration_outbox := t\<rparr>"
    by (simp only: claim_integration_work_def Let_def prod.inject) blast
  with t_claim show ?case by simp
qed (auto simp: prune_processed_batches_def delete_where_def delete_evidence_rows_def delete_evidence_def remove_evidence_def
  complete_integration_work_def add_replay_result_def incr_edge_def Let_def dest: dedup_unchanged)

lemma batch_kept_run:
  assumes "trun pg lib db tr db'" "r \<in> set (processed_batches db)" "\<And>c. Pruned c \<in> set tr \<Longrightarrow> c \<le> pb_created_at r"
  shows "r \<in> set (processed_batches db')"
  using assms by (induction rule: trun.induct) (auto dest: batch_kept_step)

section \<open>The outbox\<close>

lemma outbox_delay_bounds: "0 \<le> k \<Longrightarrow> 15 \<le> outbox_delay k \<and> outbox_delay k \<le> 3600"
proof -
  have "(1 :: int) \<le> 2 ^ nat (min k 8)" by simp
  then show ?thesis by (simp add: outbox_delay_def push_bit_eq_mult)
qed

lemma claim_work_rows:
  assumes "claim_integration_work now locked limit db = (work, db')"
  shows "\<exists>P. (\<forall>r. P r \<longrightarrow> (\<exists>q \<in> set (integration_outbox db).
      ob_id q = ob_id r \<and> ob_available_at q \<le> now \<and> \<not> locked (ob_id q)))
    \<and> (\<forall>r r'. ob_id r = ob_id r' \<longrightarrow> P r = P r')
    \<and> map iw_id work = map ob_id (filter P (integration_outbox db))
    \<and> integration_outbox db' = update_where P (claim_outbox_row now) (integration_outbox db)"
proof -
  let ?ok = "filter (\<lambda>r. ob_available_at r \<le> now \<and> \<not> locked (ob_id r)) (integration_outbox db)"
  let ?picked = "map ob_id (take (nat (max 1 (min 100 limit))) (sort_key ob_id ?ok))"
  let ?P = "\<lambda>r. ob_id r \<in> set ?picked"
  have "set ?picked \<subseteq> ob_id ` set ?ok" using set_take_subset by fastforce
  then have sub: "\<exists>q \<in> set (integration_outbox db). ob_id q = ob_id r \<and> ob_available_at q \<le> now \<and> \<not> locked (ob_id q)"
    if "?P r" for r using that by fastforce
  have work: "work = map (\<lambda>r. \<lparr>iw_id = ob_id r, iw_app_id = ob_app_id r, iw_bucket_id = ob_bucket_id r\<rparr>)
      (filter ?P (integration_outbox db))"
    and db': "db' = db\<lparr>integration_outbox := update_where ?P (claim_outbox_row now) (integration_outbox db)\<rparr>"
    using assms by (simp_all only: claim_integration_work_def Let_def prod.inject)
  from sub have "\<forall>r. ?P r \<longrightarrow> (\<exists>q \<in> set (integration_outbox db). ob_id q = ob_id r \<and> ob_available_at q \<le> now \<and> \<not> locked (ob_id q))"
    by blast
  then show ?thesis by (intro exI [of _ ?P]) (simp add: work db' o_def)
qed

section \<open>Reading the rollups\<close>

definition rollup_view :: "(int \<Rightarrow> string) \<Rightarrow> string \<Rightarrow> string \<Rightarrow> error_row list \<Rightarrow> BucketRollup" where
  "rollup_view rfc a b es =
     (let rs = sort_key el_id (of_bucket (a, b) es)
      in \<lparr>br_bucket_id = b, br_count = int (length rs), br_last_seen = rfc (el_created_at (last rs)),
          br_oldest = el_rec (hd rs), br_newest = el_rec (last rs)\<rparr>)"

lemma filter_unique: "distinct (map f xs) \<Longrightarrow> x \<in> set xs \<Longrightarrow> filter (\<lambda>y. f y = f x) xs = [x]"
  by (induction xs) (auto simp: filter_empty_conv image_iff)

lemma sort_ends:
  fixes f :: "'a \<Rightarrow> 'b::linorder"
  assumes "rs \<noteq> []"
  shows "hd (sort_key f rs) \<in> set rs \<and> f (hd (sort_key f rs)) = Min (set (map f rs))"
    "last (sort_key f rs) \<in> set rs \<and> f (last (sort_key f rs)) = Max (set (map f rs))"
proof -
  let ?s = "sort_key f rs"
  have ne: "?s \<noteq> []" and st: "set ?s = set rs" and so: "sorted (map f ?s)" using assms by simp_all
  have "f (hd ?s) \<le> f x" if "x \<in> set ?s" for x
    using so that ne by (cases ?s) auto
  moreover have "f x \<le> f (last ?s)" if "x \<in> set ?s" for x
  proof -
    obtain ys z where "?s = ys @ [z]" using ne by (cases ?s rule: rev_cases) auto
    with so that show ?thesis by (auto simp: sorted_append)
  qed
  ultimately show "hd ?s \<in> set rs \<and> f (hd ?s) = Min (set (map f rs))" "last ?s \<in> set rs \<and> f (last ?s) = Max (set (map f rs))"
    using ne st hd_in_set [OF ne] last_in_set [OF ne]
    by (auto intro!: Min_eqI [symmetric] Max_eqI [symmetric])
qed

lemma rollup_rows_view:
  assumes ok: "rollups_ok db" and ne: "of_bucket (a, b) (errors db) \<noteq> []"
  shows "rollup_rows rfc db (summarize_group a b (of_bucket (a, b) (errors db))) = [rollup_view rfc a b (errors db)]"
proof -
  let ?rs = "of_bucket (a, b) (errors db)"
  let ?lo = "hd (sort_key el_id ?rs)" and ?hi = "last (sort_key el_id ?rs)"
  have lo: "?lo \<in> set ?rs" "Min (el_id ` set ?rs) = el_id ?lo" and hi: "?hi \<in> set ?rs" "Max (el_id ` set ?rs) = el_id ?hi"
    using sort_ends [OF ne, of el_id] by simp_all
  have sub: "set ?rs \<subseteq> set (errors db)" by (auto simp: of_bucket_def)
  have mono: "mono_log (errors db)" using ok by (simp add: rollups_ok_def)
  have "el_created_at e \<le> el_created_at ?hi" if "e \<in> set ?rs" for e
  proof -
    have "el_id e \<le> el_id ?hi" using that hi(2) by (metis Max_ge finite_imageI finite_set imageI)
    then show ?thesis using mono that hi(1) sub unfolding mono_log_def by blast
  qed
  then have seen: "Max (el_created_at ` set ?rs) = el_created_at ?hi" using hi(1) by (intro Max_eqI) auto
  have ids: "error_by_id (el_id ?lo) db = [?lo]" "error_by_id (el_id ?hi) db = [?hi]"
    using mono lo(1) hi(1) sub unfolding error_by_id_def mono_log_def by (auto intro!: filter_unique)
  show ?thesis by (simp add: rollup_rows_def summarize_group_def rollup_view_def lo(2) hi(2) seen ids Let_def)
qed

lemma summary_row_view:
  assumes "rollups_ok db"
  shows "s \<in> set (bucket_summaries db) \<longleftrightarrow>
    (\<exists>a b. of_bucket (a, b) (errors db) \<noteq> [] \<and> s = summarize_group a b (of_bucket (a, b) (errors db)))"
proof -
  have d: "distinct (map summary_key (bucket_summaries db))"
    and v: "row_of summary_key k (bucket_summaries db) = summary_view (errors db) k" for k
    using assms unfolding rollups_ok_def summaries_ok_def by blast+
  show ?thesis
  proof
    assume "s \<in> set (bucket_summaries db)"
    then have "summary_view (errors db) (summary_key s) = Some s" using row_of_in [OF d] v by metis
    then show "\<exists>a b. of_bucket (a, b) (errors db) \<noteq> [] \<and> s = summarize_group a b (of_bucket (a, b) (errors db))"
      by (metis fst_conv option.distinct(1) option.inject snd_conv summary_view_def surj_pair)
  next
    assume "\<exists>a b. of_bucket (a, b) (errors db) \<noteq> [] \<and> s = summarize_group a b (of_bucket (a, b) (errors db))"
    then obtain a b where "of_bucket (a, b) (errors db) \<noteq> []" "s = summarize_group a b (of_bucket (a, b) (errors db))" by blast
    then have "row_of summary_key (a, b) (bucket_summaries db) = Some s" by (simp add: v summary_view_def)
    then show "s \<in> set (bucket_summaries db)" by (auto simp: row_of_def dest: find_in)
  qed
qed

section \<open>Properties\<close>

text \<open>The bucket list read from the stored summaries is the list a scan of the error log would give: one entry
  for every bucket that has an occurrence, with its exact count, its first and last occurrence by id and
  the instant of the last, in every state the store reaches.\<close>

theorem bucket_rollups_from_log:
  assumes "trun pg lib (empty_telemetry ps) tr db"
  shows "set (bucket_rollups rfc a db) =
      (\<lambda>b. rollup_view rfc a b (errors db)) ` {b. of_bucket (a, b) (errors db) \<noteq> []}
    \<and> distinct (map br_bucket_id (bucket_rollups rfc a db))"
proof -
  let ?view = "\<lambda>s. rollup_view rfc a (bs_bucket_id s) (errors db)"
  let ?rows = "sort_key (\<lambda>s. (bs_first_seen s, bs_bucket_id s)) (filter (\<lambda>s. bs_app_id s = a) (bucket_summaries db))"
  have ok: "rollups_ok db" using reachable_inv [OF assms] by (simp add: store_inv_def)
  have row: "s \<in> set ?rows \<longleftrightarrow> of_bucket (a, bs_bucket_id s) (errors db) \<noteq> []
      \<and> s = summarize_group a (bs_bucket_id s) (of_bucket (a, bs_bucket_id s) (errors db))" for s
    using summary_row_view [OF ok, of s] by (auto simp: summarize_group_def)
  have "rollup_rows rfc db s = [?view s]" if "s \<in> set ?rows" for s
  proof -
    have ne: "of_bucket (a, bs_bucket_id s) (errors db) \<noteq> []"
      and s: "s = summarize_group a (bs_bucket_id s) (of_bucket (a, bs_bucket_id s) (errors db))" using that row by blast+
    from arg_cong [OF s, of "rollup_rows rfc db"] rollup_rows_view [OF ok ne] show ?thesis by (rule trans)
  qed
  then have "bucket_rollups rfc a db = concat (map (\<lambda>s. [?view s]) ?rows)"
    unfolding bucket_rollups_def by (intro arg_cong [where f = concat] map_cong refl)
  then have eq: "bucket_rollups rfc a db = map ?view ?rows" by simp
  have "{b. of_bucket (a, b) (errors db) \<noteq> []} = bs_bucket_id ` set ?rows"
  proof (intro equalityI subsetI)
    fix b assume "b \<in> {b. of_bucket (a, b) (errors db) \<noteq> []}"
    then have mem: "summarize_group a b (of_bucket (a, b) (errors db)) \<in> set ?rows"
      using row [of "summarize_group a b (of_bucket (a, b) (errors db))"] by (simp add: summarize_group_def)
    have "b = bs_bucket_id (summarize_group a b (of_bucket (a, b) (errors db)))" by (simp add: summarize_group_def)
    then show "b \<in> bs_bucket_id ` set ?rows" using mem by (rule image_eqI)
  qed (use row in blast)
  moreover have "distinct (map bs_bucket_id ?rows)"
  proof -
    have "inj_on bs_bucket_id (set ?rows)"
    proof (rule inj_onI)
      fix s s' assume "s \<in> set ?rows" "s' \<in> set ?rows" and b: "bs_bucket_id s = bs_bucket_id s'"
      then have "s = summarize_group a (bs_bucket_id s) (of_bucket (a, bs_bucket_id s) (errors db))"
        "s' = summarize_group a (bs_bucket_id s') (of_bucket (a, bs_bucket_id s') (errors db))" using row by blast+
      then show "s = s'" unfolding b by (rule trans [OF _ sym])
    qed
    moreover have "distinct ?rows" using ok by (auto simp: rollups_ok_def summaries_ok_def distinct_map)
    ultimately show ?thesis by (simp add: distinct_map)
  qed
  ultimately show ?thesis unfolding eq by (simp add: image_image o_def rollup_view_def Let_def)
qed

text \<open>An outbox item that was handed to a drain is not handed out again before its backoff, of at least
  fifteen seconds, is over: two drains in that time get disjoint work.\<close>

theorem claimed_work_leased:
  assumes "claim_integration_work now locked limit db = (work, db')" "claim_integration_work now' locked' limit' db' = (work', db'')"
    "\<forall>r \<in> set (integration_outbox db). 0 \<le> ob_attempts r"
    "now' < now + 15000000"
  shows "set (map iw_id work) \<inter> set (map iw_id work') = {}"
proof -
  let ?t = "integration_outbox db" and ?t' = "integration_outbox db'"
  obtain P where P: "\<forall>r r'. ob_id r = ob_id r' \<longrightarrow> P r = P r'" "map iw_id work = map ob_id (filter P ?t)"
    "?t' = update_where P (claim_outbox_row now) ?t"
    using claim_work_rows [OF assms(1)] by blast
  obtain P' where P': "\<forall>r. P' r \<longrightarrow> (\<exists>q \<in> set ?t'. ob_id q = ob_id r \<and> ob_available_at q \<le> now' \<and> \<not> locked' (ob_id q))"
    "map iw_id work' = map ob_id (filter P' ?t')"
    using claim_work_rows [OF assms(2)] by blast
  have keep: "ob_id (claim_outbox_row now r) = ob_id r" for r by (simp add: claim_outbox_row_def)
  have late: "now' < ob_available_at q" if q: "q \<in> set ?t'" "P q" for q
  proof -
    obtain r where r: "r \<in> set ?t" "q = (if P r then claim_outbox_row now r else r)"
      using q(1) by (auto simp: P(3) update_where_def)
    then have "ob_id q = ob_id r" by (simp add: keep)
    then have "P r" using q(2) P(1) by blast
    then have "q = claim_outbox_row now r" using r(2) by simp
    then show ?thesis using outbox_delay_bounds [of "ob_attempts r"] r(1) assms(3,4) by (auto simp: claim_outbox_row_def)
  qed
  show ?thesis
  proof (rule ccontr)
    assume "\<not> ?thesis"
    then obtain i where "i \<in> ob_id ` set (filter P ?t)" "i \<in> ob_id ` set (filter P' ?t')"
      unfolding P(2) P'(2) by auto
    then obtain r r' where "P r" "P' r'" "r' \<in> set ?t'" "ob_id r = ob_id r'" by auto
    then obtain q where "q \<in> set ?t'" "ob_id q = ob_id r" "ob_available_at q \<le> now'" using P'(1) by force
    moreover from this P(1) \<open>P r\<close> have "P q" by blast
    ultimately show False using late by fastforce
  qed
qed

text \<open>A batch id is accepted once. In any run of the store, two acceptances of the same id are separated by a
  pruning whose cutoff lies after the first of them; a retry in between is answered as a duplicate.\<close>

theorem batch_stored_once:
  assumes "trun pg lib db (tr1 @ Accepted a b t # tr2 @ Accepted a b t' # tr3) db'"
  shows "\<exists>c. Pruned c \<in> set tr2 \<and> t < c"
proof (rule ccontr)
  assume no: "\<not> ?thesis"
  from assms obtain d1 d2 d3 d4 where first: "tstep pg lib d1 (Accepted a b t) d2" and mid: "trun pg lib d2 tr2 d3"
    and again: "tstep pg lib d3 (Accepted a b t') d4"
    by (auto simp: trun_append elim!: trun_ConsE)
  let ?r = "\<lparr>pb_app_id = a, pb_batch_id = b, pb_created_at = t\<rparr>"
  have "?r \<in> set (processed_batches d2)" using first by (auto elim!: accepted_stepE dest: ingest_batch_log)
  then have "?r \<in> set (processed_batches d3)" using batch_kept_run [OF mid, of ?r] no by (auto simp: not_less)
  moreover have "(a, b) \<notin> batch_key ` set (processed_batches d3)"
    using again by (auto elim!: accepted_stepE dest: ingest_batch_log)
  ultimately show False by (force simp: batch_key_def)
qed

text \<open>The evidence quota: a reservation under a limit either leaves the tables as they were because the stored
  bytes of the application and the upload exceed the limit (or the integer range), or adds exactly the
  upload, and then the bytes stored for the application are within the limit.\<close>

theorem quota_respected:
  assumes "trun pg lib (empty_telemetry ps) tr db" "0 \<le> bytes"
    "add_evidence_within_quota now a e kind key bytes (Some m) db = Some (r, db')"
  shows "(r = None \<longrightarrow> db' = db \<and> \<not> quota_allows (stored_bytes a (evidence db)) bytes m)
    \<and> (r \<noteq> None \<longrightarrow> stored_bytes a (evidence db') = stored_bytes a (evidence db) + bytes
         \<and> stored_bytes a (evidence db') \<le> m)"
proof -
  let ?db1 = "db\<lparr>app_storage_usage := insert_missing fst (a, 0) (app_storage_usage db)\<rparr>"
  have inv: "evidence_inv db" using reachable_inv [OF assms(1)] by (simp add: store_inv_def)
  then have "evidence_inv ?db1" by (simp add: evidence_inv_def)
  note ins = insert_evidence_inv [OF this assms(2)]
  have "usage_of a (insert_missing fst (a, 0) (app_storage_usage db)) = stored_bytes a (evidence db)"
    using inv by (simp add: evidence_inv_def)
  note used = this [unfolded usage_of_def]
  show ?thesis using assms(3) ins
    by (auto simp: add_evidence_within_quota_def Let_def used quota_allows_def split: if_splits)
qed

text \<open>C9. The read models are functions of the log: in every state reached from an empty store by ingests (at
  non-decreasing times, of contexts with plain values: no floats, and build labels that are strings), deletions,
  evidence and retention, the summary of a bucket is the count and the endpoints of its occurrences, the two
  context counters are the histograms of the dimensions of the log, the usage of an application is the sum of
  its evidence rows, and no evidence row outlives its error.\<close>

theorem read_models_exact:
  assumes "trun pg lib (empty_telemetry ps) tr db"
  shows "row_of summary_key k (bucket_summaries db) = summary_view (errors db) k
    \<and> tally (app_context_counts db) (hist row_dimensions (errors db))
    \<and> tally (bucket_context_counts db) (hist bucket_dimensions (errors db))
    \<and> usage_of a (app_storage_usage db) = stored_bytes a (evidence db)
    \<and> ew_error_id ` set (evidence db) \<subseteq> el_id ` set (errors db)"
  using reachable_inv [OF assms] by (auto simp: store_inv_def rollups_ok_def summaries_ok_def evidence_inv_def)

text \<open>C37. A statement that deletes errors is refused exactly when it removes every occurrence of a bucket that has
  two or more: the row triggers run after all the rows are gone, so the first endpoint among them finds
  nothing left to summarize and writes nulls into columns that refuse them.\<close>

theorem delete_errors_succeeds_iff:
  assumes "trun pg lib (empty_telemetry ps) tr db"
  shows "delete_errors pg P db = None \<longleftrightarrow>
    (\<exists>k. (\<forall>e \<in> set (of_bucket k (errors db)). P e) \<and> 2 \<le> length (of_bucket k (errors db)))"
  using reachable_inv [OF assms] by (rule delete_errors_None)

text \<open>Clearing a sample bucket, which deletes all its occurrences in one statement, therefore never succeeds
  for a bucket with two or more occurrences.\<close>

theorem sample_bucket_not_cleared:
  assumes "trun pg lib (empty_telemetry ps) tr db" "2 \<le> length (of_bucket (a, b) (errors db))"
  shows "delete_sample_bucket_data pg a b (map (\<lambda>(i, _, _). i) (errors_for_bucket rfc a b (length (errors db)) db)) db = None"
proof -
  let ?es = "of_bucket (a, b) (errors db)" and ?ids = "map (\<lambda>(i, _, _). i) (errors_for_bucket rfc a b (length (errors db)) db)"
  have "length ?es \<le> length (errors db)" by (simp add: of_bucket_def)
  then have ids: "set ?ids = el_id ` set ?es"
    by (simp add: errors_for_bucket_def with_meta_def of_bucket_def o_def)
  then have "?ids \<noteq> []" using assms(2) by (metis image_is_empty list.size(3) not_numeral_le_zero set_empty)
  moreover have "\<forall>e \<in> set ?es. error_bucket e = Some (a, b) \<and> el_id e \<in> set ?ids"
    unfolding ids by (auto simp: of_bucket_def)
  then have "delete_errors pg (\<lambda>e. error_bucket e = Some (a, b) \<and> el_id e \<in> set ?ids) db = None"
    using delete_errors_None [OF reachable_inv [OF assms(1)]] assms(2) by blast
  ultimately show ?thesis by (simp add: delete_sample_bucket_data_def Let_def)
qed


section \<open>Witnesses\<close>

definition telemetry_lib :: bucket_lib where
  "telemetry_lib = \<lparr>sha256_hex = (\<lambda>_. ''h''), identity_of_value = (\<lambda>_. None), value_of_identity = (\<lambda>_. JNull)\<rparr>"

definition sample_error :: ErrorRec where
  "sample_error = \<lparr>er_sig = ''S'', er_message = ''x'', er_path = [],
     er_context = [(''build'', JObj [(''commit'', JStr ''c1'')]), (''plan'', JStr ''free'')]\<rparr>"

definition sample_project :: project_row where
  "sample_project = \<lparr>pj_id = 1, pj_created_by = Some 1, pj_name = ''App'', pj_app_id = ''app''\<rparr>"

definition sample_ingest :: "ErrorRec list \<Rightarrow> (bool \<times> telemetry_db) option" where
  "sample_ingest recs = ingest_batch telemetry_lib 5 ''app'' [(''a|tap|b'', 1)] recs [] ''b1'' None (empty_telemetry [sample_project])"

definition sample_telemetry :: telemetry_db where
  "sample_telemetry = snd (the (sample_ingest [sample_error, sample_error]))"

lemma sample_ingested: "sample_ingest [sample_error, sample_error] = Some (False, sample_telemetry)"
proof -
  have "map_option fst (sample_ingest [sample_error, sample_error]) = Some False" by code_simp
  then show ?thesis by (auto simp: sample_telemetry_def)
qed

lemma sample_store_run: "trun pg telemetry_lib (empty_telemetry [sample_project]) [Accepted ''app'' ''b1'' 5] sample_telemetry"
proof -
  have "tstep pg telemetry_lib (empty_telemetry [sample_project]) (Accepted ''app'' ''b1'' 5) sample_telemetry"
    by (rule t_ingest [OF sample_ingested [unfolded sample_ingest_def]])
      (simp_all add: empty_telemetry_def sample_error_def plain_value_def string_or_absent_def)
  then show ?thesis by (blast intro: trun_Cons trun_Nil)
qed

text \<open>What the witnesses evaluate of the sample.\<close>

lemma sample_facts:
  "(\<lambda>db. (map error_bucket (errors db), map el_id (errors db), length (bucket_rollups (\<lambda>_. []) ''app'' db),
      map ob_attempts (integration_outbox db), map ob_available_at (integration_outbox db),
      map_option fst (add_evidence_within_quota 6 ''app'' 1 ''png'' ''k'' 40 (Some 100) db), map bs_count (bucket_summaries db)))
     sample_telemetry
   = ([Some (''app'', ''bkt_h''), Some (''app'', ''bkt_h'')], [1, 2], 1, [0], [5], Some (Some 1), [2])"
  by code_simp

lemma sample_error_rows:
  obtains e e' where "errors sample_telemetry = [e, e']" "error_bucket e = Some (''app'', ''bkt_h'')"
    "error_bucket e' = Some (''app'', ''bkt_h'')" "el_id e = 1" "el_id e' = 2"
  using sample_facts by (auto simp: map_eq_Cons_conv)

lemma sample_bucket: "length (of_bucket (''app'', ''bkt_h'') (errors sample_telemetry)) = 2"
  by (rule sample_error_rows) (simp add: of_bucket_def)

lemma sample_outbox:
  obtains r where "integration_outbox sample_telemetry = [r]" "ob_attempts r = 0" "ob_available_at r = 5"
  using sample_facts by (auto simp: map_eq_Cons_conv)

theorem bucket_rollups_from_log_witness:
  "length (bucket_rollups (\<lambda>_. []) ''app'' sample_telemetry) = 1
   \<and> set (bucket_rollups (\<lambda>_. []) ''app'' sample_telemetry) =
      (\<lambda>b. rollup_view (\<lambda>_. []) ''app'' b (errors sample_telemetry))
        ` {b. of_bucket (''app'', b) (errors sample_telemetry) \<noteq> []}"
proof -
  have "length (bucket_rollups (\<lambda>_. []) ''app'' sample_telemetry) = 1" using sample_facts by simp
  with bucket_rollups_from_log [OF sample_store_run, of "\<lambda>_. []" "''app''"] show ?thesis by blast
qed

theorem claimed_work_leased_witness:
  "length (fst (claim_integration_work 5 (\<lambda>_. False) 20 sample_telemetry)) = 1
   \<and> set (map iw_id (fst (claim_integration_work 5 (\<lambda>_. False) 20 sample_telemetry)))
     \<inter> set (map iw_id (fst (claim_integration_work 6 (\<lambda>_. False) 20
         (snd (claim_integration_work 5 (\<lambda>_. False) 20 sample_telemetry))))) = {}"
proof -
  have "length (fst (claim_integration_work 5 (\<lambda>_. False) 20 sample_telemetry)) = 1"
    and "list_all (\<lambda>r. 0 \<le> ob_attempts r) (integration_outbox sample_telemetry)"
    by (rule sample_outbox, simp add: claim_integration_work_def Let_def)+
  with claimed_work_leased [of 5 "\<lambda>_. False" 20 sample_telemetry _ _ 6 "\<lambda>_. False" 20,
      OF surjective_pairing surjective_pairing] show ?thesis by (simp add: list_all_iff)
qed

text \<open>A run that accepts an id, prunes it and accepts it again.\<close>

definition sample_batch :: "int \<Rightarrow> telemetry_db \<Rightarrow> telemetry_db" where
  "sample_batch now db = db\<lparr>processed_batches := processed_batches db @
       [\<lparr>pb_app_id = ''app'', pb_batch_id = ''b1'', pb_created_at = now\<rparr>],
     edges := bump (''app'', ''k'') 1 (edges db)\<rparr>"

lemma sample_batch_step:
  assumes "processed_batches db = []" "errors db = []"
  shows "tstep pg telemetry_lib db (Accepted ''app'' ''b1'' now) (sample_batch now db)"
  by (rule t_ingest [where es = "[(''k'', 1)]" and recs = "[]" and gs = "[]" and dep = None])
    (simp_all add: assms ingest_batch_def count_traffic_def ingest_edges_def ingest_errors_def store_graphs_def sample_batch_def)

lemma sample_again_run:
  "\<exists>db'. trun pg telemetry_lib (empty_telemetry [])
     ([] @ Accepted ''app'' ''b1'' 5 # [Pruned (10 - 0 * 3600000000)] @ Accepted ''app'' ''b1'' 11 # []) db'"
proof -
  let ?db1 = "sample_batch 5 (empty_telemetry [])"
  let ?db2 = "snd (prune_processed_batches 10 0 ?db1)"
  have "tstep pg telemetry_lib (empty_telemetry []) (Accepted ''app'' ''b1'' 5) ?db1"
    by (rule sample_batch_step) (simp_all add: empty_telemetry_def)
  moreover have "tstep pg telemetry_lib ?db1 (Pruned (10 - 0 * 3600000000)) ?db2"
    by (rule t_prune [OF surjective_pairing])
  moreover have "tstep pg telemetry_lib ?db2 (Accepted ''app'' ''b1'' 11) (sample_batch 11 ?db2)"
    by (rule sample_batch_step)
      (simp_all add: prune_processed_batches_def sample_batch_def empty_telemetry_def delete_where_def Let_def)
  ultimately show ?thesis unfolding append_Nil append_Cons by (blast intro: trun_Cons trun_Nil)
qed

theorem batch_stored_once_witness:
  "(\<exists>db'. trun (\<lambda>_. []) telemetry_lib (empty_telemetry [])
      ([] @ Accepted ''app'' ''b1'' 5 # [Pruned (10 - 0 * 3600000000)] @ Accepted ''app'' ''b1'' 11 # []) db')
   \<and> (\<exists>c. Pruned c \<in> set [Pruned (10 - 0 * 3600000000)] \<and> 5 < c)"
proof -
  obtain db' where "trun (\<lambda>_. []) telemetry_lib (empty_telemetry [])
      ([] @ Accepted ''app'' ''b1'' 5 # [Pruned (10 - 0 * 3600000000)] @ Accepted ''app'' ''b1'' 11 # []) db'"
    using sample_again_run by blast
  from this batch_stored_once [OF this] show ?thesis by blast
qed

theorem quota_respected_witness:
  "\<exists>db'. add_evidence_within_quota 6 ''app'' 1 ''png'' ''k'' 40 (Some 100) sample_telemetry = Some (Some 1, db')
     \<and> stored_bytes ''app'' (evidence db') \<le> 100"
proof -
  have "map_option fst (add_evidence_within_quota 6 ''app'' 1 ''png'' ''k'' 40 (Some 100) sample_telemetry) = Some (Some 1)"
    using sample_facts by simp
  then obtain db' where a: "add_evidence_within_quota 6 ''app'' 1 ''png'' ''k'' 40 (Some 100) sample_telemetry = Some (Some 1, db')"
    by auto
  from quota_respected [OF sample_store_run _ a] a show ?thesis by simp
qed

theorem read_models_exact_witness:
  "row_of summary_key (''app'', ''bkt_h'') (bucket_summaries sample_telemetry)
     = summary_view (errors sample_telemetry) (''app'', ''bkt_h'')
   \<and> map bs_count (bucket_summaries sample_telemetry) = [2]"
proof -
  have "map bs_count (bucket_summaries sample_telemetry) = [2]" using sample_facts by simp
  with read_models_exact [OF sample_store_run] show ?thesis by blast
qed

theorem delete_errors_succeeds_iff_witness:
  "delete_errors (\<lambda>_. []) (\<lambda>_. True) sample_telemetry = None
   \<and> delete_errors (\<lambda>_. []) (\<lambda>e. el_id e = 1) sample_telemetry \<noteq> None"
proof -
  have only: "of_bucket k (errors sample_telemetry) = [] \<or> k = (''app'', ''bkt_h'')" for k
    by (rule sample_error_rows) (auto simp: of_bucket_def)
  have two: "\<not> list_all (\<lambda>e. el_id e = 1) (of_bucket (''app'', ''bkt_h'') (errors sample_telemetry))"
    by (rule sample_error_rows) (simp add: of_bucket_def)
  have no: "\<not> (\<exists>k. (\<forall>e \<in> set (of_bucket k (errors sample_telemetry)). el_id e = 1)
      \<and> 2 \<le> length (of_bucket k (errors sample_telemetry)))"
  proof
    assume "\<exists>k. (\<forall>e \<in> set (of_bucket k (errors sample_telemetry)). el_id e = 1)
      \<and> 2 \<le> length (of_bucket k (errors sample_telemetry))"
    then obtain k where k: "\<forall>e \<in> set (of_bucket k (errors sample_telemetry)). el_id e = 1"
      "2 \<le> length (of_bucket k (errors sample_telemetry))" by blast
    then have "k = (''app'', ''bkt_h'')" using only [of k] by auto
    with k(1) two show False by (simp add: list_all_iff)
  qed
  have yes: "\<exists>k. (\<forall>e \<in> set (of_bucket k (errors sample_telemetry)). True) \<and> 2 \<le> length (of_bucket k (errors sample_telemetry))"
    using sample_bucket by (intro exI [of _ "(''app'', ''bkt_h'')"]) simp
  from no yes delete_errors_succeeds_iff [OF sample_store_run, of "\<lambda>_. []" "\<lambda>_. True"]
    delete_errors_succeeds_iff [OF sample_store_run, of "\<lambda>_. []" "\<lambda>e. el_id e = 1"] show ?thesis by blast
qed

theorem sample_bucket_not_cleared_witness:
  "delete_sample_bucket_data (\<lambda>_. []) ''app'' (''bkt_h'')
     (map (\<lambda>(i, _, _). i) (errors_for_bucket (\<lambda>_. []) ''app'' (''bkt_h'')
       (length (errors sample_telemetry)) sample_telemetry)) sample_telemetry = None"
  by (rule sample_bucket_not_cleared [OF sample_store_run]) (simp add: sample_bucket)

text \<open>
  The occurrence windows, unlike the summaries, can drift: ingest files an occurrence under the batch's
  deployment, the trigger looks for the build in its context. Here the batch names no deployment and
  the context a commit; the last occurrence is deleted and its window stays.
\<close>

lemma window_drift:
  "map_option (\<lambda>db. (errors db = [], map snd (bucket_windows db)))
     (Option.bind (sample_ingest [sample_error]) (\<lambda>(_, db). delete_errors (\<lambda>_. []) (\<lambda>_. True) db))
   = Some (True, [1])"
  by code_simp


declare split_paired_All [simp] split_paired_Ex [simp]

end
