(* ===== verification/Project_Store.thy ===== *)
theory Project_Store
  imports Telemetry_Steps
begin

text \<open>
  The rest of a tenant database: projects, issue-tracker settings, reproduction runs, portability pages
  (\<open>src/db/tenant/projects.rs\<close>) and human-authored captures (\<open>src/db/tenant/captures.rs\<close>). Proved:
  deleting a project always succeeds, erases every row of its application and no other, and the
  lifecycle of a capture.
\<close>

section \<open>Tables\<close>

record IntegrationRow =
  in_provider :: string
  in_repo :: "string option"
  in_base_url :: "string option"
  in_user_email :: "string option"
  in_extra :: json
  in_token_enc :: "string option"
  in_dispatch_repo :: "string option"
  in_dispatch_token_enc :: "string option"

record capture_row =
  cp_id :: string
  cp_review_token_hash :: string
  cp_created_by :: "int option"
  cp_app_id :: "string option"
  cp_status :: string
  cp_title :: "string option"
  cp_description :: "string option"
  cp_severity :: string
  cp_visibility :: string
  cp_platform :: string
  cp_target :: string
  cp_source_created_at :: string
  cp_manifest :: json
  cp_expires_at :: int
  cp_created_at :: int

record capture_file_row =
  cf_capture_id :: string
  cf_filename :: string
  cf_storage_key :: string
  cf_bytes :: int
  cf_sha256 :: string
  cf_content_type :: string
  cf_uploaded :: bool

record tenant_data =
  td_telemetry :: telemetry_db
  td_next_project_id :: int
  td_next_cloud_run_id :: int
  td_integrations :: "(string \<times> IntegrationRow) list"
  td_captures :: "capture_row list"
  td_capture_files :: "capture_file_row list"

definition cf_key :: "capture_file_row \<Rightarrow> string \<times> string" where
  "cf_key f = (cf_capture_id f, cf_filename f)"

abbreviation td_projects :: "tenant_data \<Rightarrow> project_row list" where
  "td_projects db \<equiv> projects (td_telemetry db)"

section \<open>Projects\<close>

definition create_project :: "int \<Rightarrow> string \<Rightarrow> string \<Rightarrow> tenant_data \<Rightarrow> int option \<times> tenant_data" where
  "create_project created_by name app_id db =
     (let i = td_next_project_id db; db1 = db\<lparr>td_next_project_id := i + 1\<rparr>
      in if app_id \<in> pj_app_id ` set (td_projects db) then (None, db1)
         else (Some i, db1\<lparr>td_telemetry := (td_telemetry db)\<lparr>projects := td_projects db @
           [\<lparr>pj_id = i, pj_created_by = Some created_by, pj_name = name, pj_app_id = app_id\<rparr>]\<rparr>\<rparr>))"

definition list_projects :: "tenant_data \<Rightarrow> (int \<times> string \<times> string) list" where
  "list_projects db = map (\<lambda>p. (pj_id p, pj_name p, pj_app_id p)) (sort_key pj_id (td_projects db))"

definition owns_app :: "string \<Rightarrow> tenant_data \<Rightarrow> bool" where
  "owns_app app_id db \<longleftrightarrow> row_of pj_app_id app_id (td_projects db) \<noteq> None"

definition project_id_for_app :: "string \<Rightarrow> tenant_data \<Rightarrow> int option" where
  "project_id_for_app app_id db = map_option pj_id (row_of pj_app_id app_id (td_projects db))"

definition app_for_project_id :: "int \<Rightarrow> tenant_data \<Rightarrow> string option" where
  "app_for_project_id project_id db = map_option pj_app_id (row_of pj_id project_id (td_projects db))"

definition project_for_app :: "string \<Rightarrow> tenant_data \<Rightarrow> (int \<times> string) option" where
  "project_for_app app_id db = map_option (\<lambda>p. (pj_id p, pj_name p)) (row_of pj_app_id app_id (td_projects db))"

definition count_projects :: "tenant_data \<Rightarrow> int" where
  "count_projects db = int (length (td_projects db))"

text \<open>\<open>captures.app_id REFERENCES projects(app_id) ON DELETE CASCADE\<close>, and the files go with the captures.\<close>

definition cascade_captures :: "string set \<Rightarrow> tenant_data \<Rightarrow> tenant_data" where
  "cascade_captures apps db =
     (let gone = (\<lambda>c. cp_app_id c \<in> Some ` apps);
          ids = map cp_id (filter gone (td_captures db))
      in db\<lparr>td_captures := delete_where gone (td_captures db),
            td_capture_files := delete_where (\<lambda>f. cf_capture_id f \<in> set ids) (td_capture_files db)\<rparr>)"

definition delete_projects_where :: "(project_row \<Rightarrow> bool) \<Rightarrow> tenant_data \<Rightarrow> tenant_data" where
  "delete_projects_where P db =
     cascade_captures (pj_app_id ` set (filter P (td_projects db)))
       (db\<lparr>td_telemetry := (td_telemetry db)\<lparr>projects := delete_where P (td_projects db)\<rparr>\<rparr>)"

definition delete_project_row :: "int \<Rightarrow> tenant_data \<Rightarrow> tenant_data" where
  "delete_project_row project_id db = delete_projects_where (\<lambda>p. pj_id p = project_id) db"

definition project_evidence_keys :: "string \<Rightarrow> tenant_data \<Rightarrow> string list" where
  "project_evidence_keys app_id db =
     map ew_storage_key (filter (\<lambda>r. ew_app_id r = app_id) (evidence (td_telemetry db)))
     @ concat (map (\<lambda>f. map (\<lambda>_. cf_storage_key f)
         (filter (\<lambda>c. cp_id c = cf_capture_id f \<and> cp_app_id c = Some app_id) (td_captures db))) (td_capture_files db))"

text \<open>
  The statements of \<open>delete_project_by_app\<close> in their order, with the triggers of \<open>evidence\<close> and
  \<open>errors\<close>. The read models go before the errors, so that the trigger finds no summary to recompute.
\<close>

definition purge_read_models :: "string \<Rightarrow> telemetry_db \<Rightarrow> telemetry_db" where
  "purge_read_models a db =
     (delete_evidence (\<lambda>r. ew_app_id r = a) db)\<lparr>
       app_storage_usage := delete_where (\<lambda>u. fst u = a)
         (app_storage_usage (delete_evidence (\<lambda>r. ew_app_id r = a) db)),
       artifact_roots := delete_where (\<lambda>r. fst (fst r) = a) (artifact_roots db),
       artifact_nodes := delete_where (\<lambda>r. nr_app_id r = a) (artifact_nodes db),
       bucket_summaries := delete_where (\<lambda>s. bs_app_id s = a) (bucket_summaries db),
       bucket_windows := delete_where (\<lambda>w. fst (fst w) = a) (bucket_windows db),
       app_context_counts := delete_where (\<lambda>c. fst (fst c) = a) (app_context_counts db),
       bucket_context_counts := delete_where (\<lambda>c. fst (fst c) = a) (bucket_context_counts db)\<rparr>"

definition purge_rest :: "string \<Rightarrow> telemetry_db \<Rightarrow> telemetry_db" where
  "purge_rest a db = db\<lparr>
       edges := delete_where (\<lambda>e. fst (fst e) = a) (edges db),
       build_traffic_rows := delete_where (\<lambda>r. tf_app_id r = a) (build_traffic_rows db),
       processed_batches := delete_where (\<lambda>r. pb_app_id r = a) (processed_batches db),
       replay_results := delete_where (\<lambda>r. rr_app_id r = a) (replay_results db),
       bucket_tickets := delete_where (\<lambda>r. tk_app_id r = a) (bucket_tickets db),
       integration_outbox := delete_where (\<lambda>r. ob_app_id r = a) (integration_outbox db),
       bucket_triage := delete_where (\<lambda>r. tr_app_id r = a) (bucket_triage db),
       bucket_resolution_status := delete_where (\<lambda>r. rs_app_id r = a) (bucket_resolution_status db),
       bucket_resolution_events := delete_where (\<lambda>r. ev_app_id r = a) (bucket_resolution_events db),
       cloud_runs := delete_where (\<lambda>r. cl_app_id r = a) (cloud_runs db)\<rparr>"

definition delete_project_by_app :: "(json \<Rightarrow> string) \<Rightarrow> string \<Rightarrow> tenant_data \<Rightarrow> (bool \<times> tenant_data) option" where
  "delete_project_by_app pg a db =
     map_option (\<lambda>tel.
       (list_ex (\<lambda>p. pj_app_id p = a) (td_projects db),
        delete_projects_where (\<lambda>p. pj_app_id p = a)
          (db\<lparr>td_telemetry := purge_rest a tel,
              td_integrations := delete_where (\<lambda>r. fst r = a) (td_integrations db)\<rparr>)))
       (delete_errors pg (\<lambda>e. el_app_id e = a) (purge_read_models a (td_telemetry db)))"

section \<open>Integrations and reproduction runs\<close>

definition integration_for :: "string \<Rightarrow> tenant_data \<Rightarrow> IntegrationRow option" where
  "integration_for app_id db = map_of (td_integrations db) app_id"

definition set_integration :: "string \<Rightarrow> IntegrationRow \<Rightarrow> tenant_data \<Rightarrow> tenant_data" where
  "set_integration app_id row db =
     db\<lparr>td_integrations := upsert fst (app_id, row) (\<lambda>(a, _). (a, row)) (td_integrations db)\<rparr>"

definition create_cloud_run :: "int \<Rightarrow> string \<Rightarrow> string \<Rightarrow> string \<Rightarrow> tenant_data \<Rightarrow> int \<times> tenant_data" where
  "create_cloud_run now app_id bkt requested_by db =
     (let i = td_next_cloud_run_id db; tel = td_telemetry db
      in (i, db\<lparr>td_next_cloud_run_id := i + 1, td_telemetry := tel\<lparr>cloud_runs := cloud_runs tel @
           [\<lparr>cl_id = i, cl_app_id = app_id, cl_bucket_id = bkt, cl_status = ''dispatched'',
             cl_requested_by = requested_by, cl_dispatched_at = now, cl_completed_at = None\<rparr>]\<rparr>\<rparr>))"

definition close_runs :: "(cloud_run_row \<Rightarrow> bool) \<Rightarrow> int \<Rightarrow> string \<Rightarrow> tenant_data \<Rightarrow> nat \<times> tenant_data" where
  "close_runs P now status db =
     (let tel = td_telemetry db; Q = (\<lambda>r. P r \<and> cl_status r = ''dispatched'')
      in (affected Q (cloud_runs tel),
          db\<lparr>td_telemetry := tel\<lparr>cloud_runs := update_where Q
            (\<lambda>r. r\<lparr>cl_status := status, cl_completed_at := Some now\<rparr>) (cloud_runs tel)\<rparr>\<rparr>))"

definition complete_cloud_run :: "int \<Rightarrow> int \<Rightarrow> string \<Rightarrow> string \<Rightarrow> string \<Rightarrow> tenant_data \<Rightarrow> bool \<times> tenant_data" where
  "complete_cloud_run now i app_id bkt status db =
     apfst (\<lambda>n. 0 < n)
       (close_runs (\<lambda>r. cl_id r = i \<and> cl_app_id r = app_id \<and> cl_bucket_id r = bkt) now status db)"

definition expire_stale_cloud_runs :: "int \<Rightarrow> int \<Rightarrow> tenant_data \<Rightarrow> nat \<times> tenant_data" where
  "expire_stale_cloud_runs now older_than_secs db =
     close_runs (\<lambda>r. cl_dispatched_at r < now - older_than_secs * 1000000) now ''expired'' db"

definition cloud_runs_for :: "string \<Rightarrow> string \<Rightarrow> tenant_data \<Rightarrow> cloud_run_row list" where
  "cloud_runs_for app_id bkt db =
     take 50 (rev (sort_key cl_id (filter (\<lambda>r. cl_app_id r = app_id \<and> cl_bucket_id r = bkt)
       (cloud_runs (td_telemetry db)))))"

section \<open>Portability pages\<close>

definition export_errors_page :: "int \<Rightarrow> string \<Rightarrow> int option \<Rightarrow> int \<Rightarrow> nat \<Rightarrow> telemetry_db \<Rightarrow> error_row list" where
  "export_errors_page now app_id within_days after_id limit db =
     take limit (sort_key el_id (filter (\<lambda>e. el_app_id e = app_id \<and> after_id < el_id e
       \<and> (case within_days of None \<Rightarrow> True | Some d \<Rightarrow> now - d * 86400000000 \<le> el_created_at e)) (errors db)))"

definition export_evidence_page :: "string \<Rightarrow> int \<Rightarrow> nat \<Rightarrow> telemetry_db \<Rightarrow> evidence_row list" where
  "export_evidence_page app_id after_id limit db =
     take limit (sort_key ew_id (filter (\<lambda>r. ew_app_id r = app_id \<and> after_id < ew_id r) (evidence db)))"

section \<open>Captures\<close>

record NewCapture =
  nc_id :: string
  nc_review_token_hash :: string
  nc_created_by :: "int option"
  nc_app_id :: "string option"
  nc_platform :: string
  nc_target :: string
  nc_source_created_at :: string
  nc_manifest :: json

text \<open>
  \<open>jeq\<close> is the equality of \<open>JSONB\<close> values. A failed statement, here a review token that is already taken,
  is \<open>None\<close>.
\<close>

definition create_capture :: "(json \<Rightarrow> json \<Rightarrow> bool) \<Rightarrow> int \<Rightarrow> NewCapture \<Rightarrow> tenant_data \<Rightarrow> bool option \<times> tenant_data" where
  "create_capture jeq now c db =
     (let expires = now + 30 * 60 * 1000000;
          known = (case nc_app_id c of None \<Rightarrow> True | Some a \<Rightarrow> owns_app a db);
          taken = list_ex (\<lambda>r. cp_review_token_hash r = nc_review_token_hash c \<and> cp_id r \<noteq> nc_id c) (td_captures db)
      in if \<not> known then (Some False, db)
         else (case row_of cp_id (nc_id c) (td_captures db) of
             Some r \<Rightarrow>
               if cp_status r = ''pending_review'' \<and> jeq (cp_manifest r) (nc_manifest c) then
                 (if taken then (None, db)
                  else (Some True, db\<lparr>td_captures := update_where (\<lambda>r. cp_id r = nc_id c)
                    (\<lambda>r. r\<lparr>cp_review_token_hash := nc_review_token_hash c, cp_app_id := nc_app_id c,
                           cp_expires_at := expires\<rparr>) (td_captures db)\<rparr>))
               else (Some False, db)
           | None \<Rightarrow>
               if taken then (None, db)
               else (Some True, db\<lparr>td_captures := td_captures db @
                 [\<lparr>cp_id = nc_id c, cp_review_token_hash = nc_review_token_hash c, cp_created_by = nc_created_by c,
                   cp_app_id = nc_app_id c, cp_status = ''pending_review'', cp_title = None, cp_description = None,
                   cp_severity = ''normal'', cp_visibility = ''project'', cp_platform = nc_platform c,
                   cp_target = nc_target c, cp_source_created_at = nc_source_created_at c,
                   cp_manifest = nc_manifest c, cp_expires_at = expires, cp_created_at = now\<rparr>]\<rparr>)))"

definition capture :: "string \<Rightarrow> tenant_data \<Rightarrow> capture_row option" where
  "capture i db = row_of cp_id i (td_captures db)"

definition capture_for_review :: "int \<Rightarrow> string \<Rightarrow> tenant_data \<Rightarrow> capture_row option" where
  "capture_for_review now review_token_hash db =
     List.find (\<lambda>c. cp_review_token_hash c = review_token_hash \<and> now < cp_expires_at c) (td_captures db)"

record CaptureApproval =
  ca_review_token_hash :: string
  ca_app_id :: string
  ca_title :: string
  ca_description :: string
  ca_severity :: string
  ca_visibility :: string

definition approve_capture :: "int \<Rightarrow> CaptureApproval \<Rightarrow> tenant_data \<Rightarrow> bool \<times> tenant_data" where
  "approve_capture now a db =
     (let P = (\<lambda>c. cp_review_token_hash c = ca_review_token_hash a \<and> now < cp_expires_at c
            \<and> cp_status c = ''pending_review'' \<and> owns_app (ca_app_id a) db)
      in (0 < affected P (td_captures db),
          db\<lparr>td_captures := update_where P (\<lambda>c. c\<lparr>cp_app_id := Some (ca_app_id a), cp_title := Some (ca_title a),
            cp_description := Some (ca_description a), cp_severity := ca_severity a, cp_visibility := ca_visibility a,
            cp_status := ''approved''\<rparr>) (td_captures db)\<rparr>))"

record PendingCaptureFile =
  pf_capture_id :: string
  pf_filename :: string
  pf_storage_key :: string
  pf_bytes :: int
  pf_sha256 :: string
  pf_content_type :: string
  pf_quota_bytes :: "int option"

definition open_status :: "string \<Rightarrow> bool" where
  "open_status s \<longleftrightarrow> s = ''approved'' \<or> s = ''uploading''"

definition capture_bytes :: "string \<Rightarrow> string \<times> string \<Rightarrow> tenant_data \<Rightarrow> int" where
  "capture_bytes app_id k db =
     sum_list (map cf_bytes (filter (\<lambda>f. cf_key f \<noteq> k
       \<and> list_ex (\<lambda>c. cp_id c = cf_capture_id f \<and> cp_app_id c = Some app_id) (td_captures db)) (td_capture_files db)))"

definition app_evidence_bytes :: "string \<Rightarrow> tenant_data \<Rightarrow> int" where
  "app_evidence_bytes app_id db = sum_list (map ew_bytes (filter (\<lambda>r. ew_app_id r = app_id) (evidence (td_telemetry db))))"

text \<open>An open capture without an application cannot be read as a string; the statement fails.\<close>

definition add_capture_file :: "PendingCaptureFile \<Rightarrow> tenant_data \<Rightarrow> bool option option \<times> tenant_data" where
  "add_capture_file f db =
     (case List.find (\<lambda>c. cp_id c = pf_capture_id f \<and> open_status (cp_status c)) (td_captures db) of
        None \<Rightarrow> (Some None, db)
      | Some c \<Rightarrow>
          (case cp_app_id c of
             None \<Rightarrow> (None, db)
           | Some app_id \<Rightarrow>
               (let k = (pf_capture_id f, pf_filename f);
                    used = app_evidence_bytes app_id db + capture_bytes app_id k db
                in if (case pf_quota_bytes f of None \<Rightarrow> False | Some m \<Rightarrow> \<not> quota_allows used (pf_bytes f) m)
                   then (Some (Some False), db)
                   else (Some (Some True),
                     db\<lparr>td_capture_files := upsert cf_key
                          \<lparr>cf_capture_id = pf_capture_id f, cf_filename = pf_filename f, cf_storage_key = pf_storage_key f,
                           cf_bytes = pf_bytes f, cf_sha256 = pf_sha256 f, cf_content_type = pf_content_type f,
                           cf_uploaded = False\<rparr>
                          (\<lambda>r. r\<lparr>cf_storage_key := pf_storage_key f, cf_bytes := pf_bytes f, cf_sha256 := pf_sha256 f,
                                 cf_content_type := pf_content_type f, cf_uploaded := False\<rparr>) (td_capture_files db),
                        td_captures := update_where (\<lambda>c. cp_id c = pf_capture_id f)
                          (\<lambda>c. c\<lparr>cp_status := ''uploading''\<rparr>) (td_captures db)\<rparr>))))"

definition remove_capture_file :: "string \<Rightarrow> string \<Rightarrow> tenant_data \<Rightarrow> tenant_data" where
  "remove_capture_file capture_id filename db =
     db\<lparr>td_capture_files := delete_where (\<lambda>f. cf_key f = (capture_id, filename)) (td_capture_files db)\<rparr>"

definition mark_capture_file_uploaded :: "string \<Rightarrow> string \<Rightarrow> tenant_data \<Rightarrow> bool \<times> tenant_data" where
  "mark_capture_file_uploaded capture_id filename db =
     (let P = (\<lambda>f. cf_key f = (capture_id, filename))
      in (0 < affected P (td_capture_files db),
          db\<lparr>td_capture_files := update_where P (\<lambda>f. f\<lparr>cf_uploaded := True\<rparr>) (td_capture_files db)\<rparr>))"

definition capture_files :: "string \<Rightarrow> tenant_data \<Rightarrow> capture_file_row list" where
  "capture_files capture_id db =
     sort_key cf_filename (filter (\<lambda>f. cf_capture_id f = capture_id \<and> cf_uploaded f) (td_capture_files db))"

definition captures_for_app :: "string \<Rightarrow> tenant_data \<Rightarrow> capture_row list" where
  "captures_for_app app_id db =
     sort_key (\<lambda>c. (cp_created_at c, cp_id c)) (filter (\<lambda>c. cp_app_id c = Some app_id) (td_captures db))"

definition complete_capture :: "int \<Rightarrow> string \<Rightarrow> tenant_data \<Rightarrow> bool \<times> tenant_data" where
  "complete_capture now i db =
     (let P = (\<lambda>c. cp_id c = i \<and> open_status (cp_status c))
      in (0 < affected P (td_captures db),
          db\<lparr>td_captures := update_where P (\<lambda>c. c\<lparr>cp_status := ''complete'', cp_expires_at := now\<rparr>) (td_captures db)\<rparr>))"

section \<open>Deleting a project erases the application\<close>

text \<open>The reference: every table of the tenant without the rows of the application.\<close>

definition erase_app :: "string \<Rightarrow> tenant_data \<Rightarrow> tenant_data" where
  "erase_app a db =
     (let tel = td_telemetry db
      in db\<lparr>td_telemetry := tel\<lparr>
           projects := delete_where (\<lambda>p. pj_app_id p = a) (projects tel),
           edges := delete_where (\<lambda>e. fst (fst e) = a) (edges tel),
           errors := delete_where (\<lambda>e. el_app_id e = a) (errors tel),
           bucket_summaries := delete_where (\<lambda>s. bs_app_id s = a) (bucket_summaries tel),
           bucket_windows := delete_where (\<lambda>w. fst (fst w) = a) (bucket_windows tel),
           app_context_counts := delete_where (\<lambda>c. fst (fst c) = a) (app_context_counts tel),
           bucket_context_counts := delete_where (\<lambda>c. fst (fst c) = a) (bucket_context_counts tel),
           build_traffic_rows := delete_where (\<lambda>r. tf_app_id r = a) (build_traffic_rows tel),
           processed_batches := delete_where (\<lambda>r. pb_app_id r = a) (processed_batches tel),
           integration_outbox := delete_where (\<lambda>r. ob_app_id r = a) (integration_outbox tel),
           artifact_nodes := delete_where (\<lambda>r. nr_app_id r = a) (artifact_nodes tel),
           artifact_roots := delete_where (\<lambda>r. fst (fst r) = a) (artifact_roots tel),
           evidence := delete_where (\<lambda>r. ew_app_id r = a) (evidence tel),
           app_storage_usage := delete_where (\<lambda>u. fst u = a) (app_storage_usage tel),
           replay_results := delete_where (\<lambda>r. rr_app_id r = a) (replay_results tel),
           cloud_runs := delete_where (\<lambda>r. cl_app_id r = a) (cloud_runs tel),
           bucket_triage := delete_where (\<lambda>r. tr_app_id r = a) (bucket_triage tel),
           bucket_tickets := delete_where (\<lambda>r. tk_app_id r = a) (bucket_tickets tel),
           bucket_resolution_status := delete_where (\<lambda>r. rs_app_id r = a) (bucket_resolution_status tel),
           bucket_resolution_events := delete_where (\<lambda>r. ev_app_id r = a) (bucket_resolution_events tel)\<rparr>,
         td_integrations := delete_where (\<lambda>r. fst r = a) (td_integrations db),
         td_captures := delete_where (\<lambda>c. cp_app_id c = Some a) (td_captures db),
         td_capture_files := delete_where (\<lambda>f. list_ex (\<lambda>c. cp_id c = cf_capture_id f \<and> cp_app_id c = Some a)
           (td_captures db)) (td_capture_files db)\<rparr>)"

lemma update_where_absent: "\<forall>r \<in> set t. \<not> P r \<Longrightarrow> update_where P f t = t"
  by (simp add: update_where_def map_idI)

lemma delete_where_absent: "\<forall>r \<in> set t. \<not> P r \<Longrightarrow> delete_where P t = t"
  by (simp add: delete_where_def filter_id_conv)

lemma fold_fixed: "(\<And>x. x \<in> set xs \<Longrightarrow> f x t = t) \<Longrightarrow> fold f xs t = t"
  by (induction xs) auto

lemma unbump_absent: "k \<notin> fst ` set t \<Longrightarrow> unbump k t = t"
  unfolding unbump_def by (subst update_where_absent, force, subst delete_where_absent, force, simp)

lemma trigger_summary_absent:
  assumes "\<forall>s \<in> set t. bs_app_id s \<noteq> el_app_id old"
  shows "trigger_summary R old t = Some t"
proof (cases "error_bucket old")
  case (Some k)
  then have "\<forall>s \<in> set t. summary_key s \<noteq> k"
    using assms by (auto simp: error_bucket_def summary_key_def split: option.splits)
  then have "update_where (\<lambda>s. summary_key s = k) f t = t" "delete_where (\<lambda>s. summary_key s = k \<and> Q s) t = t"
    "\<not> list_ex (\<lambda>s. summary_key s = k \<and> Q s) t" for f Q
    by (auto simp: update_where_absent delete_where_absent list_ex_iff)
  with Some show ?thesis by (simp add: trigger_summary_def Let_def)
qed (simp add: trigger_summary_def)

lemma triggers_absent:
  assumes "\<forall>s \<in> set t. bs_app_id s \<noteq> a" "\<forall>e \<in> set G. el_app_id e = a"
  shows "foldl (\<lambda>s old. Option.bind s (trigger_summary R old)) (Some t) G = Some t"
  using assms by (induction G) (simp_all add: trigger_summary_absent)

lemma trigger_windows_absent:
  assumes "\<forall>w \<in> set t. fst (fst w) \<noteq> el_app_id old"
  shows "trigger_windows pg old t = t"
proof (cases "el_bucket_id old")
  case (Some b)
  have "update_where (\<lambda>r. fst r = (el_app_id old, x)) f t = t" for x and f :: "_ \<Rightarrow> _"
    using assms by (intro update_where_absent) force
  then show ?thesis using Some assms unfolding trigger_windows_def by (auto intro!: delete_where_absent)
qed (simp add: trigger_windows_def)

lemma fold_usage_removed_app:
  "\<forall>r \<in> set rs. ew_app_id r = a \<Longrightarrow> delete_where (\<lambda>u. fst u = a) (fold usage_removed rs t) = delete_where (\<lambda>u. fst u = a) t"
proof (induction rs arbitrary: t)
  case (Cons r rs)
  have "delete_where (\<lambda>u. fst u = a) (usage_removed r t) = delete_where (\<lambda>u. fst u = a) t" if "ew_app_id r = a"
    using that by (induction t) (auto simp: usage_removed_def delete_where_def update_where_def)
  with Cons show ?case by simp
qed simp

lemma delete_errors_purged:
  assumes "\<forall>r \<in> set (evidence tel). \<forall>e \<in> set (errors tel). el_id e = ew_error_id r \<longrightarrow> ew_app_id r = el_app_id e"
  shows "delete_errors pg (\<lambda>e. el_app_id e = a) (purge_read_models a tel)
    = Some ((purge_read_models a tel)\<lparr>errors := delete_where (\<lambda>e. el_app_id e = a) (errors tel)\<rparr>)"
proof -
  let ?db = "purge_read_models a tel" and ?G = "filter (\<lambda>e. el_app_id e = a) (errors tel)"
  have eqs: "errors ?db = errors tel" "evidence ?db = delete_where (\<lambda>r. ew_app_id r = a) (evidence tel)"
    "\<forall>s \<in> set (bucket_summaries ?db). bs_app_id s \<noteq> a" "\<forall>w \<in> set (bucket_windows ?db). fst (fst w) \<noteq> a"
    "\<forall>w \<in> set (app_context_counts ?db). fst (fst w) \<noteq> a" "\<forall>w \<in> set (bucket_context_counts ?db). fst (fst w) \<noteq> a"
    by (simp_all add: purge_read_models_def delete_evidence_def set_delete_where)
  have none: "\<forall>r \<in> set (evidence ?db). ew_error_id r \<notin> set (map el_id ?G)"
    using assms by (fastforce simp: eqs set_delete_where)
  then have ev: "delete_evidence (\<lambda>ev. ew_error_id ev \<in> set (map el_id ?G)) (?db\<lparr>errors := x\<rparr>) = ?db\<lparr>errors := x\<rparr>" for x
    by (simp add: delete_evidence_def delete_where_absent filter_empty_conv)
  have "fold (trigger_windows pg) ?G (bucket_windows ?db) = bucket_windows ?db"
    using eqs(4) by (intro fold_fixed trigger_windows_absent) auto
  moreover have "fold unbump (concat (map (row_removed pg) ?G)) (app_context_counts ?db) = app_context_counts ?db"
    using eqs(5) by (intro fold_fixed unbump_absent) (force simp: row_removed_def)
  moreover have "fold unbump (concat (map (bucket_removed pg) ?G)) (bucket_context_counts ?db) = bucket_context_counts ?db"
    using eqs(6) by (intro fold_fixed unbump_absent) (force simp: bucket_removed_def split: option.splits)
  moreover have "foldl (\<lambda>s old. Option.bind s (trigger_summary R old)) (Some (bucket_summaries ?db)) ?G = Some (bucket_summaries ?db)" for R
    using eqs(3) by (intro triggers_absent) auto
  ultimately show ?thesis unfolding delete_errors_alt eqs(1) ev by simp
qed

text \<open>C29. In a tenant whose evidence rows carry the application of their error and whose captures name its
  applications, deleting a project never fails on its triggers and is exactly the removal of the rows of its
  application from every table of the tenant: nothing of the application stays, no row of another
  application changes.\<close>
theorem delete_project_erases:
  assumes "\<forall>r \<in> set (evidence (td_telemetry db)). \<forall>e \<in> set (errors (td_telemetry db)). el_id e = ew_error_id r \<longrightarrow> ew_app_id r = el_app_id e"
    and "\<forall>c \<in> set (td_captures db). \<forall>x. cp_app_id c = Some x \<longrightarrow> owns_app x db"
  shows "delete_project_by_app pg a db = Some (owns_app a db, erase_app a db)"
proof -
  let ?tel = "td_telemetry db"
  have usage: "delete_where (\<lambda>u. fst u = a) (fold usage_removed (filter (\<lambda>r. ew_app_id r = a) (evidence ?tel)) (app_storage_usage ?tel))
      = delete_where (\<lambda>u. fst u = a) (app_storage_usage ?tel)"
    by (rule fold_usage_removed_app) simp
  have owns: "list_ex (\<lambda>p. pj_app_id p = a) (projects ?tel) = owns_app a db"
    by (force simp: owns_app_def row_of_None list_ex_iff)
  have gone: "cp_app_id c \<in> Some ` pj_app_id ` set (filter (\<lambda>p. pj_app_id p = a) (projects ?tel)) \<longleftrightarrow> cp_app_id c = Some a"
    if "c \<in> set (td_captures db)" for c
  proof -
    have "pj_app_id ` set (filter (\<lambda>p. pj_app_id p = a) (projects ?tel)) = (if owns_app a db then {a} else {})"
      by (force simp: owns_app_def row_of_None)
    then show ?thesis using that assms(2) by auto
  qed
  then have caps: "delete_where (\<lambda>c. cp_app_id c \<in> Some ` pj_app_id ` set (filter (\<lambda>p. pj_app_id p = a) (projects ?tel))) (td_captures db)
      = delete_where (\<lambda>c. cp_app_id c = Some a) (td_captures db)"
    "filter (\<lambda>c. cp_app_id c \<in> Some ` pj_app_id ` set (filter (\<lambda>p. pj_app_id p = a) (projects ?tel))) (td_captures db)
      = filter (\<lambda>c. cp_app_id c = Some a) (td_captures db)"
    by (simp_all only: delete_where_def cong: filter_cong)
  have files: "(cf_capture_id f \<in> set (map cp_id (filter (\<lambda>c. cp_app_id c = Some a) (td_captures db))))
      = list_ex (\<lambda>c. cp_id c = cf_capture_id f \<and> cp_app_id c = Some a) (td_captures db)" for f
    by (force simp: list_ex_iff)
  show ?thesis
    unfolding delete_project_by_app_def delete_errors_purged [OF assms(1)] option.map delete_projects_where_def cascade_captures_def
    unfolding purge_rest_def purge_read_models_def delete_evidence_def erase_app_def Let_def
    by (simp add: owns usage caps files del: set_filter set_map)
qed

definition sample_data :: tenant_data where
  "sample_data = \<lparr>td_telemetry = sample_telemetry, td_next_project_id = 2, td_next_cloud_run_id = 1, td_integrations = [],
     td_captures = [\<lparr>cp_id = ''c'', cp_review_token_hash = ''h'', cp_created_by = None, cp_app_id = Some ''app'',
       cp_status = ''uploading'', cp_title = None, cp_description = None, cp_severity = ''medium'', cp_visibility = ''private'',
       cp_platform = ''web'', cp_target = ''t'', cp_source_created_at = [], cp_manifest = JNull, cp_expires_at = 9, cp_created_at = 0\<rparr>],
     td_capture_files = []\<rparr>"

theorem delete_project_erases_witness:
  "delete_project_by_app (\<lambda>_. []) ''app'' sample_data = Some (True, erase_app ''app'' sample_data)"
proof -
  have "\<forall>r \<in> set (evidence (td_telemetry sample_data)). \<forall>e \<in> set (errors (td_telemetry sample_data)).
      el_id e = ew_error_id r \<longrightarrow> ew_app_id r = el_app_id e"
    by code_simp
  moreover have "owns_app ''app'' sample_data" by code_simp
  moreover have "\<forall>c \<in> set (td_captures sample_data). \<forall>x. cp_app_id c = Some x \<longrightarrow> owns_app x sample_data"
    using calculation(2) by (simp add: sample_data_def)
  ultimately show ?thesis using delete_project_erases [of sample_data "\<lambda>_. []" "''app''"] by simp
qed

end
