(* ===== verification/Control_Store.thy ===== *)
theory Control_Store
  imports Table Text Protocol_Core
begin

text \<open>
  The control-plane database: accounts, sessions, organizations with their members, seats and
  invitations, API keys and CLI authorizations (\<open>src/db/control.rs\<close>, \<open>src/db/control/identity.rs\<close>,
  \<open>organizations.rs\<close>, \<open>credentials.rs\<close>, parts of \<open>tenant_registry.rs\<close>). One function per store method.
  A method that a constraint can refuse returns \<open>None\<close> beside the state it leaves; a sequence advances
  even when its statement fails. \<open>key_hash\<close>, the SHA-256 of a secret, is the argument \<open>kh\<close>. Times are
  microseconds.
\<close>

section \<open>Tables\<close>

record user_row =
  us_id :: int
  us_email :: string
  us_pass_hash :: string
  us_verified_at :: "int option"

record email_token_row =
  et_token_hash :: string
  et_user_id :: int
  et_purpose :: string
  et_expires_at :: int

record session_row =
  ss_token :: string
  ss_user_id :: int
  ss_active_org_id :: "int option"
  ss_expires_at :: "int option"

record org_row =
  og_id :: int
  og_name :: string
  og_plan :: string
  og_personal :: bool

record member_row =
  mb_org_id :: int
  mb_user_id :: int
  mb_role :: string
  mb_seat :: bool

record invitation_row =
  iv_id :: int
  iv_token_hash :: string
  iv_org_id :: int
  iv_email :: string
  iv_role :: string
  iv_seat :: bool
  iv_invited_by :: "int option"
  iv_expires_at :: int

record api_key_row =
  ak_key :: string
  ak_org_id :: int
  ak_created_by :: "int option"
  ak_project_id :: "int option"
  ak_prefix :: string
  ak_active :: bool
  ak_expires_at :: "int option"
  ak_created_at :: int

record cli_row =
  ca_device_hash :: string
  ca_user_code_hash :: string
  ca_org_id :: "int option"
  ca_user_id :: "int option"
  ca_approved :: bool
  ca_consumed :: bool
  ca_expires_at :: int

record directory_row =
  du_external_id :: string
  du_org_id :: int
  du_user_id :: int
  du_active :: bool

record audit_row =
  au_actor :: string
  au_action :: string
  au_org_id :: "int option"
  au_detail :: json
  au_at :: int

record control_db =
  users :: "user_row list"
  next_user_id :: int
  email_tokens :: "email_token_row list"
  sessions :: "session_row list"
  orgs :: "org_row list"
  next_org_id :: int
  org_members :: "member_row list"
  org_invitations :: "invitation_row list"
  next_invitation_id :: int
  api_keys :: "api_key_row list"
  cli_authorizations :: "cli_row list"
  directory_users :: "directory_row list"
  audit_rows :: "audit_row list"

definition member_key :: "member_row \<Rightarrow> int \<times> int" where
  "member_key m = (mb_org_id m, mb_user_id m)"

definition invitation_key :: "invitation_row \<Rightarrow> int \<times> string" where
  "invitation_key i = (iv_org_id i, iv_email i)"

definition empty_control :: control_db where
  "empty_control = \<lparr>users = [], next_user_id = 1, email_tokens = [], sessions = [], orgs = [], next_org_id = 1,
     org_members = [], org_invitations = [], next_invitation_id = 1, api_keys = [], cli_authorizations = [],
     directory_users = [], audit_rows = []\<rparr>"

text \<open>The rows the stores hand to their callers.\<close>

record User =
  u_id :: int
  u_email :: string

record Org =
  o_id :: int
  o_name :: string
  o_plan :: string
  o_role :: string

record Member =
  m_user_id :: int
  m_email :: string
  m_role :: string
  m_seat :: bool

record OrgSummary =
  sm_id :: int
  sm_name :: string
  sm_plan :: string
  sm_role :: string
  sm_personal :: bool

record OrgInvitation =
  oi_id :: int
  oi_org_name :: string
  oi_email :: string
  oi_role :: string
  oi_seat :: bool
  oi_expires_at :: int

definition secs :: "int \<Rightarrow> int" where "secs n = n * 1000000"

definition user_exists :: "int \<Rightarrow> control_db \<Rightarrow> bool" where
  "user_exists user_id db \<longleftrightarrow> list_ex (\<lambda>u. us_id u = user_id) (users db)"

definition org_exists :: "int \<Rightarrow> control_db \<Rightarrow> bool" where
  "org_exists org_id db \<longleftrightarrow> list_ex (\<lambda>r. og_id r = org_id) (orgs db)"

section \<open>Users and email tokens\<close>

definition create_user :: "string \<Rightarrow> string \<Rightarrow> control_db \<Rightarrow> int option \<times> control_db" where
  "create_user email pass_hash db =
     (let i = next_user_id db; db1 = db\<lparr>next_user_id := i + 1\<rparr>
      in if email \<in> us_email ` set (users db) then (None, db1)
         else (Some i, db1\<lparr>users := users db @
           [\<lparr>us_id = i, us_email = email, us_pass_hash = pass_hash, us_verified_at = None\<rparr>]\<rparr>))"

definition user_auth_by_email :: "string \<Rightarrow> control_db \<Rightarrow> (int \<times> string) option" where
  "user_auth_by_email email db =
     map_option (\<lambda>u. (us_id u, us_pass_hash u)) (row_of us_email email (users db))"

definition find_user_id_by_email :: "string \<Rightarrow> control_db \<Rightarrow> int option" where
  "find_user_id_by_email email db = map_option us_id (row_of us_email email (users db))"

definition user_by_id :: "int \<Rightarrow> control_db \<Rightarrow> User option" where
  "user_by_id user_id db =
     map_option (\<lambda>u. \<lparr>u_id = us_id u, u_email = us_email u\<rparr>) (row_of us_id user_id (users db))"

definition create_email_token :: "(string \<Rightarrow> string) \<Rightarrow> int \<Rightarrow> string \<Rightarrow> int \<Rightarrow> string \<Rightarrow> int \<Rightarrow> control_db
    \<Rightarrow> unit option \<times> control_db" where
  "create_email_token kh now token user_id purpose ttl_secs db =
     (if kh token \<in> et_token_hash ` set (email_tokens db) \<or> \<not> user_exists user_id db then (None, db)
      else (Some (), db\<lparr>email_tokens := email_tokens db @
        [\<lparr>et_token_hash = kh token, et_user_id = user_id, et_purpose = purpose,
          et_expires_at = now + secs ttl_secs\<rparr>]\<rparr>))"

definition consume_email_token :: "(string \<Rightarrow> string) \<Rightarrow> int \<Rightarrow> string \<Rightarrow> string \<Rightarrow> control_db
    \<Rightarrow> int option \<times> control_db" where
  "consume_email_token kh now token purpose db =
     (let P = (\<lambda>t. et_token_hash t = kh token \<and> et_purpose t = purpose \<and> now < et_expires_at t)
      in (map_option et_user_id (List.find P (email_tokens db)),
          db\<lparr>email_tokens := delete_where P (email_tokens db)\<rparr>))"

definition prune_email_tokens :: "int \<Rightarrow> control_db \<Rightarrow> nat \<times> control_db" where
  "prune_email_tokens now db =
     (let P = (\<lambda>t. et_expires_at t < now)
      in (affected P (email_tokens db), db\<lparr>email_tokens := delete_where P (email_tokens db)\<rparr>))"

definition mark_email_verified :: "int \<Rightarrow> int \<Rightarrow> control_db \<Rightarrow> control_db" where
  "mark_email_verified now user_id db =
     db\<lparr>users := update_where (\<lambda>u. us_id u = user_id \<and> us_verified_at u = None)
       (\<lambda>u. u\<lparr>us_verified_at := Some now\<rparr>) (users db)\<rparr>"

definition email_verified :: "int \<Rightarrow> control_db \<Rightarrow> bool" where
  "email_verified user_id db =
     (case row_of us_id user_id (users db) of Some u \<Rightarrow> us_verified_at u \<noteq> None | None \<Rightarrow> False)"

definition set_password :: "int \<Rightarrow> string \<Rightarrow> control_db \<Rightarrow> control_db" where
  "set_password user_id pass_hash db =
     db\<lparr>users := update_where (\<lambda>u. us_id u = user_id) (\<lambda>u. u\<lparr>us_pass_hash := pass_hash\<rparr>) (users db)\<rparr>"

section \<open>Sessions\<close>

definition live_session :: "int \<Rightarrow> session_row \<Rightarrow> bool" where
  "live_session now s \<longleftrightarrow> (case ss_expires_at s of None \<Rightarrow> True | Some e \<Rightarrow> now < e)"

text \<open>The organizations of a user: the join of \<open>org_members\<close> with \<open>orgs\<close>.\<close>

definition memberships :: "int \<Rightarrow> control_db \<Rightarrow> (member_row \<times> org_row) list" where
  "memberships user_id db =
     filter (\<lambda>(m, r). mb_user_id m = user_id \<and> og_id r = mb_org_id m) (List.product (org_members db) (orgs db))"

text \<open>\<open>ORDER BY o.personal DESC, o.id ASC\<close>.\<close>

definition org_order :: "member_row \<times> org_row \<Rightarrow> nat \<times> int" where
  "org_order p = (if og_personal (snd p) then 0 else 1, og_id (snd p))"

definition row_to_org :: "member_row \<times> org_row \<Rightarrow> Org" where
  "row_to_org p = \<lparr>o_id = og_id (snd p), o_name = og_name (snd p), o_plan = og_plan (snd p), o_role = mb_role (fst p)\<rparr>"

definition primary_org :: "int \<Rightarrow> control_db \<Rightarrow> Org option" where
  "primary_org user_id db =
     map_option row_to_org (select_first org_order (\<lambda>_. True) (memberships user_id db))"

definition create_session :: "(string \<Rightarrow> string) \<Rightarrow> int \<Rightarrow> string \<Rightarrow> int \<Rightarrow> int \<Rightarrow> control_db
    \<Rightarrow> unit option \<times> control_db" where
  "create_session kh now token user_id ttl_secs db =
     (if kh token \<in> ss_token ` set (sessions db) \<or> \<not> user_exists user_id db then (None, db)
      else (Some (), db\<lparr>sessions := sessions db @
        [\<lparr>ss_token = kh token, ss_user_id = user_id,
          ss_active_org_id = map_option (\<lambda>p. og_id (snd p))
            (select_first org_order (\<lambda>_. True) (memberships user_id db)),
          ss_expires_at = Some (now + secs ttl_secs)\<rparr>]\<rparr>))"

definition user_for_session :: "(string \<Rightarrow> string) \<Rightarrow> int \<Rightarrow> string \<Rightarrow> control_db \<Rightarrow> User option" where
  "user_for_session kh now token db =
     Option.bind (List.find (\<lambda>s. ss_token s = kh token \<and> live_session now s) (sessions db))
       (\<lambda>s. user_by_id (ss_user_id s) db)"

text \<open>\<open>ORDER BY (o.id = s.active_org_id) DESC, o.personal DESC, o.id ASC\<close>.\<close>

definition session_order :: "session_row \<Rightarrow> member_row \<times> org_row \<Rightarrow> nat \<times> nat \<times> int" where
  "session_order s p = (if ss_active_org_id s = Some (og_id (snd p)) then 0 else 1, org_order p)"

definition user_and_org_for_session :: "(string \<Rightarrow> string) \<Rightarrow> int \<Rightarrow> string \<Rightarrow> control_db \<Rightarrow> (User \<times> Org) option" where
  "user_and_org_for_session kh now token db =
     Option.bind (List.find (\<lambda>s. ss_token s = kh token \<and> live_session now s) (sessions db)) (\<lambda>s.
     Option.bind (user_by_id (ss_user_id s) db) (\<lambda>u.
     map_option (\<lambda>p. (u, row_to_org p))
       (select_first (session_order s) (\<lambda>_. True) (memberships (ss_user_id s) db))))"

definition set_session_org :: "(string \<Rightarrow> string) \<Rightarrow> int \<Rightarrow> string \<Rightarrow> int \<Rightarrow> int \<Rightarrow> control_db
    \<Rightarrow> bool \<times> control_db" where
  "set_session_org kh now token user_id org_id db =
     (let P = (\<lambda>s. ss_token s = kh token \<and> ss_user_id s = user_id \<and> live_session now s
            \<and> list_ex (\<lambda>m. member_key m = (org_id, user_id)) (org_members db))
      in (affected P (sessions db) = 1,
          db\<lparr>sessions := update_where P (\<lambda>s. s\<lparr>ss_active_org_id := Some org_id\<rparr>) (sessions db)\<rparr>))"

definition revoke_sessions_for_user :: "int \<Rightarrow> control_db \<Rightarrow> nat \<times> control_db" where
  "revoke_sessions_for_user user_id db =
     (let P = (\<lambda>s. ss_user_id s = user_id)
      in (affected P (sessions db), db\<lparr>sessions := delete_where P (sessions db)\<rparr>))"

definition prune_sessions :: "int \<Rightarrow> control_db \<Rightarrow> nat \<times> control_db" where
  "prune_sessions now db =
     (let P = (\<lambda>s. case ss_expires_at s of None \<Rightarrow> False | Some e \<Rightarrow> e < now)
      in (affected P (sessions db), db\<lparr>sessions := delete_where P (sessions db)\<rparr>))"

definition delete_session :: "(string \<Rightarrow> string) \<Rightarrow> string \<Rightarrow> control_db \<Rightarrow> control_db" where
  "delete_session kh token db =
     db\<lparr>sessions := delete_where (\<lambda>s. ss_token s = kh token) (sessions db)\<rparr>"

section \<open>The audit trail\<close>

definition audit_event :: "int \<Rightarrow> string \<Rightarrow> string \<Rightarrow> int option \<Rightarrow> json \<Rightarrow> control_db \<Rightarrow> control_db" where
  "audit_event now actor action org_id detail db =
     db\<lparr>audit_rows := audit_rows db @
       [\<lparr>au_actor = actor, au_action = action, au_org_id = org_id, au_detail = detail, au_at = now\<rparr>]\<rparr>"

definition audit_for_org :: "int \<Rightarrow> nat \<Rightarrow> control_db \<Rightarrow> audit_row list" where
  "audit_for_org org_id limit db = take limit (rev (filter (\<lambda>r. au_org_id r = Some org_id) (audit_rows db)))"

section \<open>Organizations and members\<close>

definition create_org :: "string \<Rightarrow> bool \<Rightarrow> control_db \<Rightarrow> int \<times> control_db" where
  "create_org name personal db =
     (let i = next_org_id db
      in (i, db\<lparr>orgs := orgs db @ [\<lparr>og_id = i, og_name = name, og_plan = ''free'', og_personal = personal\<rparr>],
                next_org_id := i + 1\<rparr>))"

definition add_member :: "int \<Rightarrow> int \<Rightarrow> string \<Rightarrow> control_db \<Rightarrow> unit option \<times> control_db" where
  "add_member org_id user_id role db =
     (if \<not> org_exists org_id db \<or> \<not> user_exists user_id db then (None, db)
      else (Some (), db\<lparr>org_members := upsert member_key
        \<lparr>mb_org_id = org_id, mb_user_id = user_id, mb_role = role, mb_seat = False\<rparr>
        (\<lambda>m. m\<lparr>mb_role := role\<rparr>) (org_members db)\<rparr>))"

definition list_user_orgs :: "(string \<Rightarrow> string) \<Rightarrow> int \<Rightarrow> control_db \<Rightarrow> OrgSummary list" where
  "list_user_orgs lower user_id db =
     map (\<lambda>(m, r). \<lparr>sm_id = og_id r, sm_name = og_name r, sm_plan = og_plan r, sm_role = mb_role m,
                     sm_personal = og_personal r\<rparr>)
       (sort_key (\<lambda>(m, r). (if og_personal r then 0 else (1::nat), lower (og_name r), og_id r))
         (memberships user_id db))"

definition rename_org_row :: "int \<Rightarrow> string \<Rightarrow> control_db \<Rightarrow> bool \<times> control_db" where
  "rename_org_row org_id name db =
     (affected (\<lambda>r. og_id r = org_id) (orgs db) = 1,
      db\<lparr>orgs := update_where (\<lambda>r. og_id r = org_id) (\<lambda>r. r\<lparr>og_name := name\<rparr>) (orgs db)\<rparr>)"

definition org_role :: "int \<Rightarrow> int \<Rightarrow> control_db \<Rightarrow> string option" where
  "org_role org_id user_id db = map_option mb_role (row_of member_key (org_id, user_id) (org_members db))"

definition is_owner :: "int \<Rightarrow> member_row \<Rightarrow> bool" where
  "is_owner org_id m \<longleftrightarrow> mb_org_id m = org_id \<and> mb_role m = ''owner''"

definition count_owners :: "int \<Rightarrow> control_db \<Rightarrow> int" where
  "count_owners org_id db = int (affected (is_owner org_id) (org_members db))"

definition set_role :: "int \<Rightarrow> int \<Rightarrow> string \<Rightarrow> control_db \<Rightarrow> bool \<times> control_db" where
  "set_role org_id user_id role db =
     (let P = (\<lambda>m. member_key m = (org_id, user_id))
      in (affected P (org_members db) = 1,
          db\<lparr>org_members := update_where P (\<lambda>m. m\<lparr>mb_role := role\<rparr>) (org_members db)\<rparr>))"

definition drop_member :: "int \<Rightarrow> int \<Rightarrow> control_db \<Rightarrow> control_db" where
  "drop_member org_id user_id db =
     db\<lparr>org_members := delete_where (\<lambda>m. member_key m = (org_id, user_id)) (org_members db)\<rparr>"

text \<open>
  \<open>ORDER BY (m.role='owner') DESC NULLS LAST, (m.role IS NULL) ASC, u.email\<close> over the members and the
  active directory users.
\<close>

definition list_org_users :: "int \<Rightarrow> control_db \<Rightarrow> Member list" where
  "list_org_users org_id db =
     (let scoped = remdups (map mb_user_id (filter (\<lambda>m. mb_org_id m = org_id) (org_members db))
            @ map du_user_id (filter (\<lambda>d. du_org_id d = org_id \<and> du_active d) (directory_users db)));
          joined = List.map_filter (\<lambda>i. map_option (\<lambda>u. (u, row_of member_key (org_id, i) (org_members db)))
            (row_of us_id i (users db))) scoped
      in map (\<lambda>(u, m). \<lparr>m_user_id = us_id u, m_email = us_email u,
                         m_role = (case m of Some r \<Rightarrow> mb_role r | None \<Rightarrow> ''none''),
                         m_seat = (case m of Some r \<Rightarrow> mb_seat r \<or> mb_role r = ''owner'' | None \<Rightarrow> False)\<rparr>)
           (sort_key (\<lambda>(u, m). (case m of Some r \<Rightarrow> if mb_role r = ''owner'' then 0 else 1 | None \<Rightarrow> (2::nat), us_email u))
             joined))"

definition org_name_plan :: "int \<Rightarrow> control_db \<Rightarrow> (string \<times> string) option" where
  "org_name_plan org_id db = map_option (\<lambda>r. (og_name r, og_plan r)) (row_of og_id org_id (orgs db))"

definition org_plan :: "int \<Rightarrow> control_db \<Rightarrow> string" where
  "org_plan org_id db = (case row_of og_id org_id (orgs db) of Some r \<Rightarrow> og_plan r | None \<Rightarrow> ''free'')"

definition set_org_plan :: "int \<Rightarrow> string \<Rightarrow> control_db \<Rightarrow> control_db" where
  "set_org_plan org_id plan db =
     db\<lparr>orgs := update_where (\<lambda>r. og_id r = org_id) (\<lambda>r. r\<lparr>og_plan := plan\<rparr>) (orgs db)\<rparr>"

definition org_is_personal :: "int \<Rightarrow> control_db \<Rightarrow> bool option" where
  "org_is_personal org_id db = map_option og_personal (row_of og_id org_id (orgs db))"

text \<open>Deleting an organization: its members, invitations, keys and authorizations cascade.\<close>

definition delete_org_row :: "int \<Rightarrow> control_db \<Rightarrow> bool \<times> control_db" where
  "delete_org_row org_id db =
     (org_exists org_id db,
      db\<lparr>orgs := delete_where (\<lambda>r. og_id r = org_id) (orgs db),
         org_members := delete_where (\<lambda>m. mb_org_id m = org_id) (org_members db),
         org_invitations := delete_where (\<lambda>i. iv_org_id i = org_id) (org_invitations db),
         api_keys := delete_where (\<lambda>k. ak_org_id k = org_id) (api_keys db),
         cli_authorizations := delete_where (\<lambda>c. ca_org_id c = Some org_id) (cli_authorizations db),
         directory_users := delete_where (\<lambda>d. du_org_id d = org_id) (directory_users db)\<rparr>)"

section \<open>Seats and invitations\<close>

definition seated :: "int \<Rightarrow> member_row \<Rightarrow> bool" where
  "seated org_id m \<longleftrightarrow> mb_org_id m = org_id \<and> (mb_seat m \<or> mb_role m = ''owner'')"

definition has_seat :: "int \<Rightarrow> int \<Rightarrow> control_db \<Rightarrow> bool" where
  "has_seat org_id user_id db \<longleftrightarrow> list_ex (\<lambda>m. seated org_id m \<and> mb_user_id m = user_id) (org_members db)"

definition count_seats :: "int \<Rightarrow> control_db \<Rightarrow> int" where
  "count_seats org_id db = int (affected (seated org_id) (org_members db))"

definition set_seat_row :: "int \<Rightarrow> int \<Rightarrow> bool \<Rightarrow> control_db \<Rightarrow> bool \<times> control_db" where
  "set_seat_row org_id user_id seat db =
     (let P = (\<lambda>m. member_key m = (org_id, user_id))
      in (affected P (org_members db) = 1,
          db\<lparr>org_members := update_where P (\<lambda>m. m\<lparr>mb_seat := seat\<rparr>) (org_members db)\<rparr>))"

text \<open>The pending invitations of an organization that hold a seat.\<close>

definition reserving :: "int \<Rightarrow> int \<Rightarrow> invitation_row \<Rightarrow> bool" where
  "reserving now org_id i \<longleftrightarrow> iv_org_id i = org_id \<and> iv_seat i \<and> now < iv_expires_at i"

definition seats_used_without :: "int \<Rightarrow> int \<Rightarrow> string \<Rightarrow> control_db \<Rightarrow> int" where
  "seats_used_without now org_id email db =
     count_seats org_id db + int (affected (\<lambda>i. reserving now org_id i \<and> iv_email i \<noteq> email) (org_invitations db))"

definition upsert_org_invitation :: "(string \<Rightarrow> string) \<Rightarrow> int \<Rightarrow> int \<Rightarrow> string \<Rightarrow> string \<Rightarrow> bool \<Rightarrow> int \<Rightarrow> string
    \<Rightarrow> int \<Rightarrow> int option \<Rightarrow> control_db \<Rightarrow> int option option \<times> control_db" where
  "upsert_org_invitation kh now org_id email role seat invited_by raw_token ttl_secs seat_limit db =
     (if \<not> org_exists org_id db then (None, db)
      else if seat \<and> (case seat_limit of Some limit \<Rightarrow> limit \<le> seats_used_without now org_id email db | None \<Rightarrow> False)
      then (Some None, db)
      else
        (let db1 = db\<lparr>next_invitation_id := next_invitation_id db + 1\<rparr>;
             expires = now + secs ttl_secs
         in if \<not> user_exists invited_by db
               \<or> list_ex (\<lambda>i. iv_token_hash i = kh raw_token \<and> invitation_key i \<noteq> (org_id, email)) (org_invitations db)
            then (None, db1)
            else
              (let t = upsert invitation_key
                     \<lparr>iv_id = next_invitation_id db, iv_token_hash = kh raw_token, iv_org_id = org_id, iv_email = email,
                      iv_role = role, iv_seat = seat, iv_invited_by = Some invited_by, iv_expires_at = expires\<rparr>
                     (\<lambda>i. i\<lparr>iv_token_hash := kh raw_token, iv_role := role, iv_seat := seat,
                            iv_invited_by := Some invited_by, iv_expires_at := expires\<rparr>) (org_invitations db)
               in (Some (map_option iv_id (row_of invitation_key (org_id, email) t)), db1\<lparr>org_invitations := t\<rparr>))))"

definition row_to_invitation :: "org_row \<Rightarrow> invitation_row \<Rightarrow> OrgInvitation" where
  "row_to_invitation r i = \<lparr>oi_id = iv_id i, oi_org_name = og_name r, oi_email = iv_email i, oi_role = iv_role i,
     oi_seat = iv_seat i, oi_expires_at = iv_expires_at i\<rparr>"

definition with_org :: "control_db \<Rightarrow> invitation_row \<Rightarrow> OrgInvitation option" where
  "with_org db i = map_option (\<lambda>r. row_to_invitation r i) (row_of og_id (iv_org_id i) (orgs db))"

definition list_org_invitations :: "(string \<Rightarrow> string) \<Rightarrow> int \<Rightarrow> int \<Rightarrow> control_db \<Rightarrow> OrgInvitation list" where
  "list_org_invitations lower now org_id db =
     List.map_filter (with_org db) (sort_key (\<lambda>i. lower (iv_email i))
       (filter (\<lambda>i. iv_org_id i = org_id \<and> now < iv_expires_at i) (org_invitations db)))"

definition org_invitation_by_token :: "(string \<Rightarrow> string) \<Rightarrow> int \<Rightarrow> string \<Rightarrow> control_db \<Rightarrow> OrgInvitation option" where
  "org_invitation_by_token kh now raw_token db =
     Option.bind (List.find (\<lambda>i. iv_token_hash i = kh raw_token \<and> now < iv_expires_at i) (org_invitations db)) (with_org db)"

definition refresh_org_invitation :: "(string \<Rightarrow> string) \<Rightarrow> int \<Rightarrow> int \<Rightarrow> int \<Rightarrow> string \<Rightarrow> int \<Rightarrow> control_db
    \<Rightarrow> OrgInvitation option option \<times> control_db" where
  "refresh_org_invitation kh now org_id invitation_id raw_token ttl_secs db =
     (let P = (\<lambda>i. iv_id i = invitation_id \<and> iv_org_id i = org_id);
          f = (\<lambda>i. i\<lparr>iv_token_hash := kh raw_token, iv_expires_at := now + secs ttl_secs\<rparr>)
      in if list_ex P (org_invitations db)
            \<and> list_ex (\<lambda>i. iv_token_hash i = kh raw_token \<and> iv_id i \<noteq> invitation_id) (org_invitations db)
         then (None, db)
         else (Some (Option.bind (List.find P (org_invitations db)) (\<lambda>i. with_org db (f i))),
               db\<lparr>org_invitations := update_where P f (org_invitations db)\<rparr>))"

definition revoke_org_invitation :: "int \<Rightarrow> int \<Rightarrow> control_db \<Rightarrow> bool \<times> control_db" where
  "revoke_org_invitation org_id invitation_id db =
     (let P = (\<lambda>i. iv_org_id i = org_id \<and> iv_id i = invitation_id)
      in (affected P (org_invitations db) = 1,
          db\<lparr>org_invitations := delete_where P (org_invitations db)\<rparr>))"

definition accept_org_invitation :: "(string \<Rightarrow> string) \<Rightarrow> int \<Rightarrow> string \<Rightarrow> int \<Rightarrow> string \<Rightarrow> control_db
    \<Rightarrow> int option option \<times> control_db" where
  "accept_org_invitation kh now raw_token user_id verified_email db =
     (let P = (\<lambda>i. iv_token_hash i = kh raw_token \<and> iv_email i = verified_email \<and> now < iv_expires_at i)
      in case List.find P (org_invitations db) of
           None \<Rightarrow> (Some None, db)
         | Some i \<Rightarrow>
             if \<not> org_exists (iv_org_id i) db \<or> \<not> user_exists user_id db then (None, db)
             else (Some (Some (iv_org_id i)),
               db\<lparr>org_members := upsert member_key
                    \<lparr>mb_org_id = iv_org_id i, mb_user_id = user_id, mb_role = iv_role i, mb_seat = iv_seat i\<rparr>
                    (\<lambda>m. m\<lparr>mb_role := iv_role i, mb_seat := mb_seat m \<or> iv_seat i\<rparr>) (org_members db),
                  org_invitations := delete_where P (org_invitations db)\<rparr>))"

definition prune_org_invitations :: "int \<Rightarrow> control_db \<Rightarrow> nat \<times> control_db" where
  "prune_org_invitations now db =
     (let P = (\<lambda>i. iv_expires_at i < now)
      in (affected P (org_invitations db), db\<lparr>org_invitations := delete_where P (org_invitations db)\<rparr>))"

section \<open>API keys and CLI authorizations\<close>

definition create_api_key :: "(string \<Rightarrow> string) \<Rightarrow> int \<Rightarrow> string \<Rightarrow> string \<Rightarrow> int \<Rightarrow> int \<Rightarrow> int option \<Rightarrow> control_db
    \<Rightarrow> unit option \<times> control_db" where
  "create_api_key kh now secret key_prefix org_id created_by project_id db =
     (if kh secret \<in> ak_key ` set (api_keys db) \<or> \<not> org_exists org_id db \<or> \<not> user_exists created_by db
      then (None, db)
      else (Some (), db\<lparr>api_keys := api_keys db @
        [\<lparr>ak_key = kh secret, ak_org_id = org_id, ak_created_by = Some created_by, ak_project_id = project_id,
          ak_prefix = key_prefix, ak_active = True, ak_expires_at = None, ak_created_at = now\<rparr>]\<rparr>))"

definition ascii_upper :: "char \<Rightarrow> char" where
  "ascii_upper c = (if is_ascii_lowercase c then char_of (byte c - 32) else c)"

definition create_cli_authorization :: "(string \<Rightarrow> string) \<Rightarrow> int \<Rightarrow> string \<Rightarrow> string \<Rightarrow> int \<Rightarrow> control_db
    \<Rightarrow> unit option \<times> control_db" where
  "create_cli_authorization kh now device_code user_code ttl_secs db =
     (let db1 = db\<lparr>cli_authorizations :=
            delete_where (\<lambda>c. ca_consumed c \<or> ca_expires_at c \<le> now) (cli_authorizations db)\<rparr>
      in if list_ex (\<lambda>c. ca_device_hash c = kh device_code \<or> ca_user_code_hash c = kh (map ascii_upper user_code))
              (cli_authorizations db1)
         then (None, db1)
         else (Some (), db1\<lparr>cli_authorizations := cli_authorizations db1 @
           [\<lparr>ca_device_hash = kh device_code, ca_user_code_hash = kh (map ascii_upper user_code), ca_org_id = None,
             ca_user_id = None, ca_approved = False, ca_consumed = False, ca_expires_at = now + secs ttl_secs\<rparr>]\<rparr>))"

definition approve_cli_authorization :: "(string \<Rightarrow> string) \<Rightarrow> int \<Rightarrow> string \<Rightarrow> int \<Rightarrow> int \<Rightarrow> control_db
    \<Rightarrow> bool option \<times> control_db" where
  "approve_cli_authorization kh now user_code user_id org_id db =
     (let P = (\<lambda>c. ca_user_code_hash c = kh (map ascii_upper user_code) \<and> now < ca_expires_at c \<and> \<not> ca_consumed c)
      in if list_ex P (cli_authorizations db) \<and> (\<not> user_exists user_id db \<or> \<not> org_exists org_id db) then (None, db)
         else (Some (affected P (cli_authorizations db) = 1),
               db\<lparr>cli_authorizations := update_where P
                 (\<lambda>c. c\<lparr>ca_org_id := Some org_id, ca_user_id := Some user_id, ca_approved := True\<rparr>)
                 (cli_authorizations db)\<rparr>))"

definition cli_authorization_state :: "(string \<Rightarrow> string) \<Rightarrow> int \<Rightarrow> string \<Rightarrow> control_db \<Rightarrow> (bool \<times> bool) option" where
  "cli_authorization_state kh now device_code db =
     map_option (\<lambda>c. (ca_approved c, ca_consumed c))
       (List.find (\<lambda>c. ca_device_hash c = kh device_code \<and> now < ca_expires_at c) (cli_authorizations db))"

text \<open>An approved row names an organization and a user; a row that does not is read as a failure.\<close>

definition consume_cli_authorization :: "(string \<Rightarrow> string) \<Rightarrow> int \<Rightarrow> string \<Rightarrow> string \<Rightarrow> string \<Rightarrow> control_db
    \<Rightarrow> int option option \<times> control_db" where
  "consume_cli_authorization kh now device_code secret key_prefix db =
     (case List.find (\<lambda>c. ca_device_hash c = kh device_code \<and> ca_approved c \<and> \<not> ca_consumed c \<and> now < ca_expires_at c)
        (cli_authorizations db) of
        None \<Rightarrow> (Some None, db)
      | Some c \<Rightarrow>
          (case (ca_org_id c, ca_user_id c) of
             (Some org_id, Some user_id) \<Rightarrow>
               (case create_api_key kh now secret key_prefix org_id user_id None db of
                  (None, _) \<Rightarrow> (None, db)
                | (Some _, db1) \<Rightarrow>
                    (Some (Some org_id), db1\<lparr>cli_authorizations :=
                       update_where (\<lambda>c. ca_device_hash c = kh device_code) (\<lambda>c. c\<lparr>ca_consumed := True\<rparr>)
                         (cli_authorizations db1)\<rparr>))
           | _ \<Rightarrow> (None, db)))"

definition list_api_keys :: "int \<Rightarrow> control_db \<Rightarrow> string list" where
  "list_api_keys org_id db =
     map ak_prefix (sort_key ak_created_at (filter (\<lambda>k. ak_org_id k = org_id) (api_keys db)))"

definition live_key :: "int \<Rightarrow> api_key_row \<Rightarrow> bool" where
  "live_key now k \<longleftrightarrow> ak_active k \<and> (case ak_expires_at k of None \<Rightarrow> True | Some e \<Rightarrow> now < e)"

definition org_for_api_key :: "(string \<Rightarrow> string) \<Rightarrow> int \<Rightarrow> string \<Rightarrow> control_db
    \<Rightarrow> (int \<times> string \<times> int option \<times> int option) option" where
  "org_for_api_key kh now presented db =
     Option.bind (List.find (\<lambda>k. ak_key k = kh presented \<and> live_key now k) (api_keys db)) (\<lambda>k.
     map_option (\<lambda>r. (og_id r, og_plan r, ak_project_id k, ak_created_by k)) (row_of og_id (ak_org_id k) (orgs db)))"

definition delete_api_key :: "(string \<Rightarrow> string) \<Rightarrow> string \<Rightarrow> control_db \<Rightarrow> control_db" where
  "delete_api_key kh secret db = db\<lparr>api_keys := delete_where (\<lambda>k. ak_key k = kh secret) (api_keys db)\<rparr>"

text \<open>\<open>prefix LIKE 'pk_live_%'\<close>: an underscore of the pattern stands for any one character.\<close>

definition like_pk_live :: "string \<Rightarrow> bool" where
  "like_pk_live key_prefix \<longleftrightarrow>
     (case chars key_prefix of
        p # k # _ # l # i # v # e # _ # _ \<Rightarrow>
          p = ''p'' \<and> k = ''k'' \<and> l = ''l'' \<and> i = ''i'' \<and> v = ''v'' \<and> e = ''e''
      | _ \<Rightarrow> False)"

definition revoke_publishable_keys_for_project :: "int \<Rightarrow> control_db \<Rightarrow> control_db" where
  "revoke_publishable_keys_for_project project_id db =
     db\<lparr>api_keys := update_where (\<lambda>k. ak_project_id k = Some project_id \<and> like_pk_live (ak_prefix k))
       (\<lambda>k. k\<lparr>ak_active := False\<rparr>) (api_keys db)\<rparr>"

definition delete_api_keys_for_project :: "int \<Rightarrow> control_db \<Rightarrow> nat \<times> control_db" where
  "delete_api_keys_for_project project_id db =
     (let P = (\<lambda>k. ak_project_id k = Some project_id)
      in (affected P (api_keys db), db\<lparr>api_keys := delete_where P (api_keys db)\<rparr>))"

end
