(* ===== verification/Control_Steps.thy ===== *)
theory Control_Steps
  imports Control_Store
begin

text \<open>
  Histories of the control plane: every state that a sequence of store calls can produce. The calls of
  concurrent requests interleave freely, since each is one statement or one transaction. Proved: the
  declared constraints hold in every such state.
\<close>

section \<open>Calls\<close>

datatype control_call =
    CreateUser string string
  | CreateEmailToken string int string int
  | ConsumeEmailToken string string
  | PruneEmailTokens
  | MarkEmailVerified int
  | SetPassword int string
  | CreateSession string int int
  | SetSessionOrg string int int
  | RevokeSessions int
  | PruneSessions
  | DeleteSession string
  | AuditEvent string string "int option" json
  | CreateOrg string bool
  | AddMember int int string
  | RenameOrg int string
  | SetRole int int string
  | DropMember int int
  | SetOrgPlan int string
  | DeleteOrg int
  | SetSeat int int bool
  | UpsertInvitation int string string bool int string int "int option"
  | RefreshInvitation int int string int
  | RevokeInvitation int int
  | AcceptInvitation string int string
  | PruneInvitations
  | CreateApiKey string string int int "int option"
  | CreateCli string string int
  | ApproveCli string int int
  | ConsumeCli string string string
  | DeleteApiKey string
  | RevokePublishable int
  | DeleteProjectKeys int

fun control_step :: "(string \<Rightarrow> string) \<Rightarrow> int \<Rightarrow> control_call \<Rightarrow> control_db \<Rightarrow> control_db" where
  "control_step kh now (CreateUser e h) db = snd (create_user e h db)"
| "control_step kh now (CreateEmailToken t u p ttl) db = snd (create_email_token kh now t u p ttl db)"
| "control_step kh now (ConsumeEmailToken t p) db = snd (consume_email_token kh now t p db)"
| "control_step kh now PruneEmailTokens db = snd (prune_email_tokens now db)"
| "control_step kh now (MarkEmailVerified u) db = mark_email_verified now u db"
| "control_step kh now (SetPassword u h) db = set_password u h db"
| "control_step kh now (CreateSession t u ttl) db = snd (create_session kh now t u ttl db)"
| "control_step kh now (SetSessionOrg t u r) db = snd (set_session_org kh now t u r db)"
| "control_step kh now (RevokeSessions u) db = snd (revoke_sessions_for_user u db)"
| "control_step kh now PruneSessions db = snd (prune_sessions now db)"
| "control_step kh now (DeleteSession t) db = delete_session kh t db"
| "control_step kh now (AuditEvent a b r d) db = audit_event now a b r d db"
| "control_step kh now (CreateOrg n p) db = snd (create_org n p db)"
| "control_step kh now (AddMember r u role) db = snd (add_member r u role db)"
| "control_step kh now (RenameOrg r n) db = snd (rename_org_row r n db)"
| "control_step kh now (SetRole r u role) db = snd (set_role r u role db)"
| "control_step kh now (DropMember r u) db = drop_member r u db"
| "control_step kh now (SetOrgPlan r p) db = set_org_plan r p db"
| "control_step kh now (DeleteOrg r) db = snd (delete_org_row r db)"
| "control_step kh now (SetSeat r u b) db = snd (set_seat_row r u b db)"
| "control_step kh now (UpsertInvitation r e role seat u t ttl lim) db =
     snd (upsert_org_invitation kh now r e role seat u t ttl lim db)"
| "control_step kh now (RefreshInvitation r i t ttl) db = snd (refresh_org_invitation kh now r i t ttl db)"
| "control_step kh now (RevokeInvitation r i) db = snd (revoke_org_invitation r i db)"
| "control_step kh now (AcceptInvitation t u e) db = snd (accept_org_invitation kh now t u e db)"
| "control_step kh now PruneInvitations db = snd (prune_org_invitations now db)"
| "control_step kh now (CreateApiKey s p r u pr) db = snd (create_api_key kh now s p r u pr db)"
| "control_step kh now (CreateCli d c ttl) db = snd (create_cli_authorization kh now d c ttl db)"
| "control_step kh now (ApproveCli c u r) db = snd (approve_cli_authorization kh now c u r db)"
| "control_step kh now (ConsumeCli d s p) db = snd (consume_cli_authorization kh now d s p db)"
| "control_step kh now (DeleteApiKey s) db = delete_api_key kh s db"
| "control_step kh now (RevokePublishable pr) db = revoke_publishable_keys_for_project pr db"
| "control_step kh now (DeleteProjectKeys pr) db = snd (delete_api_keys_for_project pr db)"

definition control_run :: "(string \<Rightarrow> string) \<Rightarrow> (int \<times> control_call) list \<Rightarrow> control_db \<Rightarrow> control_db" where
  "control_run kh cs db = foldl (\<lambda>db (now, c). control_step kh now c db) db cs"

section \<open>The declared constraints\<close>

text \<open>
  Primary keys, \<open>UNIQUE\<close> columns, foreign keys and sequences of \<open>CONTROL_SCHEMA\<close>. \<open>U\<close> and \<open>R\<close> are the
  ids of the users and of the organizations.
\<close>

definition users_ok :: "int \<Rightarrow> user_row list \<Rightarrow> bool" where
  "users_ok n us \<longleftrightarrow> distinct (map us_id us) \<and> distinct (map us_email us) \<and> (\<forall>u \<in> set us. us_id u < n)"

definition orgs_ok :: "int \<Rightarrow> org_row list \<Rightarrow> bool" where
  "orgs_ok n rs \<longleftrightarrow> distinct (map og_id rs) \<and> (\<forall>r \<in> set rs. og_id r < n)"

definition tokens_ok :: "int set \<Rightarrow> email_token_row list \<Rightarrow> bool" where
  "tokens_ok U ts \<longleftrightarrow> distinct (map et_token_hash ts) \<and> (\<forall>t \<in> set ts. et_user_id t \<in> U)"

definition sessions_ok :: "int set \<Rightarrow> session_row list \<Rightarrow> bool" where
  "sessions_ok U ss \<longleftrightarrow> distinct (map ss_token ss) \<and> (\<forall>s \<in> set ss. ss_user_id s \<in> U)"

definition members_ok :: "int set \<Rightarrow> int set \<Rightarrow> member_row list \<Rightarrow> bool" where
  "members_ok R U ms \<longleftrightarrow> distinct (map member_key ms) \<and> (\<forall>m \<in> set ms. mb_org_id m \<in> R \<and> mb_user_id m \<in> U)"

definition invitations_ok :: "int set \<Rightarrow> int set \<Rightarrow> int \<Rightarrow> invitation_row list \<Rightarrow> bool" where
  "invitations_ok R U n ivs \<longleftrightarrow> distinct (map iv_id ivs) \<and> distinct (map iv_token_hash ivs)
     \<and> distinct (map invitation_key ivs)
     \<and> (\<forall>i \<in> set ivs. iv_id i < n \<and> iv_org_id i \<in> R \<and> set_option (iv_invited_by i) \<subseteq> U)"

definition keys_ok :: "int set \<Rightarrow> int set \<Rightarrow> api_key_row list \<Rightarrow> bool" where
  "keys_ok R U ks \<longleftrightarrow> distinct (map ak_key ks)
     \<and> (\<forall>k \<in> set ks. ak_org_id k \<in> R \<and> set_option (ak_created_by k) \<subseteq> U)"

text \<open>An authorization names an organization and a user from its approval on, and is consumed after it.\<close>

definition cli_row_ok :: "int set \<Rightarrow> int set \<Rightarrow> cli_row \<Rightarrow> bool" where
  "cli_row_ok R U c \<longleftrightarrow>
     (ca_approved c \<longrightarrow> ca_org_id c \<in> Some ` R \<and> ca_user_id c \<in> Some ` U)
     \<and> (\<not> ca_approved c \<longrightarrow> ca_org_id c = None \<and> ca_user_id c = None \<and> \<not> ca_consumed c)"

definition cli_ok :: "int set \<Rightarrow> int set \<Rightarrow> cli_row list \<Rightarrow> bool" where
  "cli_ok R U cs \<longleftrightarrow> distinct (map ca_device_hash cs) \<and> distinct (map ca_user_code_hash cs)
     \<and> (\<forall>c \<in> set cs. cli_row_ok R U c)"

definition user_ids :: "control_db \<Rightarrow> int set" where "user_ids db = us_id ` set (users db)"
definition org_ids :: "control_db \<Rightarrow> int set" where "org_ids db = og_id ` set (orgs db)"

definition control_inv :: "control_db \<Rightarrow> bool" where
  "control_inv db \<longleftrightarrow> users_ok (next_user_id db) (users db) \<and> orgs_ok (next_org_id db) (orgs db)
     \<and> tokens_ok (user_ids db) (email_tokens db) \<and> sessions_ok (user_ids db) (sessions db)
     \<and> members_ok (org_ids db) (user_ids db) (org_members db)
     \<and> invitations_ok (org_ids db) (user_ids db) (next_invitation_id db) (org_invitations db)
     \<and> keys_ok (org_ids db) (user_ids db) (api_keys db) \<and> cli_ok (org_ids db) (user_ids db) (cli_authorizations db)"
section \<open>Every call keeps the constraints\<close>

declare table_simps [simp]

lemma user_exists_iff [simp]: "user_exists u db \<longleftrightarrow> u \<in> user_ids db"
  by (auto simp: user_exists_def list_ex_iff user_ids_def)

lemma org_exists_iff [simp]: "org_exists r db \<longleftrightarrow> r \<in> org_ids db"
  by (auto simp: org_exists_def list_ex_iff org_ids_def)

lemma tables_grow:
  assumes "U \<subseteq> U'" "R \<subseteq> R'"
  shows "tokens_ok U ts \<Longrightarrow> tokens_ok U' ts" "sessions_ok U ss \<Longrightarrow> sessions_ok U' ss"
    "members_ok R U ms \<Longrightarrow> members_ok R' U' ms" "invitations_ok R U n ivs \<Longrightarrow> invitations_ok R' U' n ivs"
    "keys_ok R U ks \<Longrightarrow> keys_ok R' U' ks" "cli_ok R U cs \<Longrightarrow> cli_ok R' U' cs"
  using assms unfolding tokens_ok_def sessions_ok_def members_ok_def invitations_ok_def keys_ok_def cli_ok_def
    cli_row_ok_def by (meson subset_iff image_mono subsetD)+


lemma user_ids_simps [simp]:
  "user_ids (db\<lparr>email_tokens := ts\<rparr>) = user_ids db" "user_ids (db\<lparr>sessions := ss\<rparr>) = user_ids db"
  "user_ids (db\<lparr>org_members := ms\<rparr>) = user_ids db" "user_ids (db\<lparr>org_invitations := ivs\<rparr>) = user_ids db"
  "user_ids (db\<lparr>next_invitation_id := n\<rparr>) = user_ids db" "user_ids (db\<lparr>api_keys := ks\<rparr>) = user_ids db"
  "user_ids (db\<lparr>cli_authorizations := cs\<rparr>) = user_ids db" "user_ids (db\<lparr>audit_rows := as\<rparr>) = user_ids db"
  "user_ids (db\<lparr>orgs := rs\<rparr>) = user_ids db" "user_ids (db\<lparr>next_org_id := n\<rparr>) = user_ids db"
  "user_ids (db\<lparr>next_user_id := n\<rparr>) = user_ids db" "user_ids (db\<lparr>directory_users := ds\<rparr>) = user_ids db"
  "user_ids (db\<lparr>users := us\<rparr>) = us_id ` set us"
  by (simp_all add: user_ids_def)

lemma org_ids_simps [simp]:
  "org_ids (db\<lparr>email_tokens := ts\<rparr>) = org_ids db" "org_ids (db\<lparr>sessions := ss\<rparr>) = org_ids db"
  "org_ids (db\<lparr>org_members := ms\<rparr>) = org_ids db" "org_ids (db\<lparr>org_invitations := ivs\<rparr>) = org_ids db"
  "org_ids (db\<lparr>next_invitation_id := n\<rparr>) = org_ids db" "org_ids (db\<lparr>api_keys := ks\<rparr>) = org_ids db"
  "org_ids (db\<lparr>cli_authorizations := cs\<rparr>) = org_ids db" "org_ids (db\<lparr>audit_rows := as\<rparr>) = org_ids db"
  "org_ids (db\<lparr>users := us\<rparr>) = org_ids db" "org_ids (db\<lparr>next_user_id := n\<rparr>) = org_ids db"
  "org_ids (db\<lparr>next_org_id := n\<rparr>) = org_ids db" "org_ids (db\<lparr>directory_users := ds\<rparr>) = org_ids db"
  "org_ids (db\<lparr>orgs := rs\<rparr>) = og_id ` set rs"
  by (simp_all add: org_ids_def)

text \<open>A statement on one table keeps the constraints when it keeps those of its table.\<close>

lemma control_inv_table:
  assumes "control_inv db"
  shows "tokens_ok (user_ids db) ts \<Longrightarrow> control_inv (db\<lparr>email_tokens := ts\<rparr>)"
    and "sessions_ok (user_ids db) ss \<Longrightarrow> control_inv (db\<lparr>sessions := ss\<rparr>)"
    and "members_ok (org_ids db) (user_ids db) ms \<Longrightarrow> control_inv (db\<lparr>org_members := ms\<rparr>)"
    and "invitations_ok (org_ids db) (user_ids db) (next_invitation_id db) ivs \<Longrightarrow> control_inv (db\<lparr>org_invitations := ivs\<rparr>)"
    and "keys_ok (org_ids db) (user_ids db) ks \<Longrightarrow> control_inv (db\<lparr>api_keys := ks\<rparr>)"
    and "cli_ok (org_ids db) (user_ids db) cs \<Longrightarrow> control_inv (db\<lparr>cli_authorizations := cs\<rparr>)"
    and "control_inv (db\<lparr>audit_rows := as\<rparr>)"
  using assms by (simp_all add: control_inv_def)

lemma control_invD:
  assumes "control_inv db"
  shows "users_ok (next_user_id db) (users db)" "orgs_ok (next_org_id db) (orgs db)"
    "tokens_ok (user_ids db) (email_tokens db)" "sessions_ok (user_ids db) (sessions db)"
    "members_ok (org_ids db) (user_ids db) (org_members db)"
    "invitations_ok (org_ids db) (user_ids db) (next_invitation_id db) (org_invitations db)"
    "keys_ok (org_ids db) (user_ids db) (api_keys db)" "cli_ok (org_ids db) (user_ids db) (cli_authorizations db)"
  using assms by (simp_all add: control_inv_def)

lemma control_inv_users:
  assumes "control_inv db" "users_ok n us" "user_ids db \<subseteq> us_id ` set us"
  shows "control_inv (db\<lparr>next_user_id := n, users := us\<rparr>)"
  using control_invD [OF assms(1)] tables_grow [OF assms(3) subset_refl] assms(2) by (simp add: control_inv_def)

lemma control_inv_orgs:
  assumes "control_inv db" "orgs_ok n rs" "org_ids db \<subseteq> og_id ` set rs"
  shows "control_inv (db\<lparr>orgs := rs, next_org_id := n\<rparr>)"
  using control_invD [OF assms(1)] tables_grow [OF subset_refl assms(3)] assms(2) by (simp add: control_inv_def)

lemma create_user_inv:
  assumes "control_inv db"
  shows "control_inv (snd (create_user e h db))"
proof (cases "e \<in> us_email ` set (users db)")
  case True
  then show ?thesis using control_invD [OF assms]
    by (auto simp: create_user_def Let_def control_inv_def users_ok_def)
next
  case False
  moreover have "users_ok (next_user_id db + 1) (users db @ [\<lparr>us_id = next_user_id db, us_email = e, us_pass_hash = h,
      us_verified_at = None\<rparr>])"
    using control_invD(1) [OF assms] False unfolding users_ok_def by force
  ultimately show ?thesis by (auto simp: create_user_def Let_def user_ids_def intro!: control_inv_users assms)
qed

lemma user_update_inv:
  assumes "control_inv db"
  shows "control_inv (mark_email_verified now u db)" "control_inv (set_password u h db)"
  using control_invD [OF assms]
  by (auto simp: mark_email_verified_def set_password_def control_inv_def users_ok_def user_ids_def)

lemma email_token_inv:
  assumes "control_inv db"
  shows "control_inv (snd (create_email_token kh now t u p ttl db))" "control_inv (snd (consume_email_token kh now t p db))"
    "control_inv (snd (prune_email_tokens now db))"
  using control_invD(3) [OF assms] assms
  by (auto simp: create_email_token_def consume_email_token_def prune_email_tokens_def Let_def tokens_ok_def
      intro!: control_inv_table distinct_delete_where)

lemma session_inv:
  assumes "control_inv db"
  shows "control_inv (snd (create_session kh now t u ttl db))" "control_inv (snd (set_session_org kh now t u r db))"
    "control_inv (snd (revoke_sessions_for_user u db))" "control_inv (snd (prune_sessions now db))"
    "control_inv (delete_session kh t db)"
  using control_invD(4) [OF assms] assms
  by (auto simp: create_session_def set_session_org_def revoke_sessions_for_user_def prune_sessions_def delete_session_def
      Let_def sessions_ok_def intro!: control_inv_table distinct_delete_where)


lemma org_inv:
  assumes "control_inv db"
  shows "control_inv (snd (create_org n p db))" "control_inv (snd (rename_org_row r n db))" "control_inv (set_org_plan r q db)"
proof -
  show "control_inv (snd (create_org n p db))"
  proof -
    have "orgs_ok (next_org_id db + 1) (orgs db @ [\<lparr>og_id = next_org_id db, og_name = n, og_plan = ''free'', og_personal = p\<rparr>])"
      using control_invD(2) [OF assms] unfolding orgs_ok_def by force
    then show ?thesis by (auto simp: create_org_def Let_def org_ids_def intro!: control_inv_orgs assms)
  qed
qed (use control_invD [OF assms] in \<open>auto simp: rename_org_row_def set_org_plan_def control_inv_def orgs_ok_def org_ids_def\<close>)

lemma delete_org_inv:
  assumes "control_inv db"
  shows "control_inv (snd (delete_org_row r db))"
  using control_invD [OF assms]
  by (auto simp: delete_org_row_def control_inv_def orgs_ok_def org_ids_def members_ok_def invitations_ok_def keys_ok_def
      cli_ok_def cli_row_ok_def intro!: distinct_delete_where)

lemma member_inv:
  assumes "control_inv db"
  shows "control_inv (snd (add_member r u role db))" "control_inv (snd (set_role r u role db))"
    "control_inv (drop_member r u db)" "control_inv (snd (set_seat_row r u b db))"
  using control_invD(5) [OF assms]
  by (auto simp: add_member_def set_role_def drop_member_def set_seat_row_def Let_def members_ok_def member_key_def
      intro!: control_inv_table [OF assms] assms distinct_delete_where distinct_upsert elim!: in_upsert)

lemma invitation_inv:
  assumes "control_inv db"
  shows "control_inv (snd (revoke_org_invitation r i db))" "control_inv (snd (prune_org_invitations now db))"
    "control_inv (snd (refresh_org_invitation kh now r i t ttl db))"
proof -
  note iv = control_invD(6) [OF assms]
  show "control_inv (snd (revoke_org_invitation r i db))" "control_inv (snd (prune_org_invitations now db))"
    using iv by (auto simp: revoke_org_invitation_def prune_org_invitations_def Let_def invitations_ok_def
        intro!: control_inv_table [OF assms] distinct_delete_where)
  show "control_inv (snd (refresh_org_invitation kh now r i t ttl db))"
  proof -
    let ?P = "\<lambda>v. iv_id v = i \<and> iv_org_id v = r" and ?f = "\<lambda>v. v\<lparr>iv_token_hash := kh t, iv_expires_at := now + secs ttl\<rparr>"
    let ?ivs = "org_invitations db"
    have "distinct (map iv_token_hash (update_where ?P ?f ?ivs))"
      if "\<not> (list_ex ?P ?ivs \<and> list_ex (\<lambda>v. iv_token_hash v = kh t \<and> iv_id v \<noteq> i) ?ivs)"
    proof (cases "list_ex ?P ?ivs")
      case True
      with that iv show ?thesis
        by (intro distinct_update_one [where k = "kh t"])
          (auto simp: invitations_ok_def list_ex_iff dest: key_unique [of iv_id])
    next
      case False
      then have "update_where ?P ?f ?ivs = ?ivs" by (intro update_where_none) (auto simp: list_ex_iff)
      with iv show ?thesis by (simp add: invitations_ok_def)
    qed
    then show ?thesis using iv
      by (auto simp: refresh_org_invitation_def Let_def invitations_ok_def invitation_key_def
          intro!: control_inv_table [OF assms] assms)
  qed
qed

lemma key_inv:
  assumes "control_inv db"
  shows "control_inv (snd (create_api_key kh now s p r u pr db))" "control_inv (delete_api_key kh s db)"
    "control_inv (revoke_publishable_keys_for_project q db)" "control_inv (snd (delete_api_keys_for_project q db))"
  using control_invD(7) [OF assms]
  by (auto simp: create_api_key_def delete_api_key_def revoke_publishable_keys_for_project_def
      delete_api_keys_for_project_def Let_def keys_ok_def intro!: control_inv_table [OF assms] assms distinct_delete_where)

lemma cli_inv:
  assumes "control_inv db"
  shows "control_inv (snd (create_cli_authorization kh now d c ttl db))"
    "control_inv (snd (approve_cli_authorization kh now c u r db))"
proof -
  show "control_inv (snd (create_cli_authorization kh now d c ttl db))"
    using control_invD(8) [OF assms]
    by (auto simp: create_cli_authorization_def Let_def cli_ok_def cli_row_ok_def list_ex_iff
      intro!: control_inv_table [OF assms] distinct_delete_where) metis+
  show "control_inv (snd (approve_cli_authorization kh now c u r db))"
    using control_invD(8) [OF assms]
    by (auto simp: approve_cli_authorization_def Let_def cli_ok_def cli_row_ok_def list_ex_iff
      intro!: control_inv_table [OF assms] assms)
qed


lemma upsert_invitation_inv:
  assumes "control_inv db"
  shows "control_inv (snd (upsert_org_invitation kh now r e role seat u t ttl lim db))"
proof -
  note iv = control_invD(6) [OF assms, unfolded invitations_ok_def]
  let ?ivs = "org_invitations db" and ?k = "(r, e)"
  let ?new = "\<lparr>iv_id = next_invitation_id db, iv_token_hash = kh t, iv_org_id = r, iv_email = e, iv_role = role,
    iv_seat = seat, iv_invited_by = Some u, iv_expires_at = now + secs ttl\<rparr>"
  let ?f = "\<lambda>i. i\<lparr>iv_token_hash := kh t, iv_role := role, iv_seat := seat, iv_invited_by := Some u,
    iv_expires_at := now + secs ttl\<rparr>"
  have seq: "control_inv (db\<lparr>next_invitation_id := next_invitation_id db + 1\<rparr>)"
    using control_invD [OF assms] by (auto simp: control_inv_def invitations_ok_def)
  have up: "control_inv (db\<lparr>next_invitation_id := next_invitation_id db + 1, org_invitations := upsert invitation_key ?new ?f ?ivs\<rparr>)"
    if "r \<in> org_ids db" "u \<in> user_ids db"
      and free: "\<not> list_ex (\<lambda>i. iv_token_hash i = kh t \<and> invitation_key i \<noteq> ?k) ?ivs"
  proof -
    have rows: "\<forall>i \<in> set (upsert invitation_key ?new ?f ?ivs). iv_id i < next_invitation_id db + 1 \<and> iv_org_id i \<in> org_ids db
        \<and> set_option (iv_invited_by i) \<subseteq> user_ids db"
      using iv that(1,2) by (auto elim!: in_upsert simp: invitation_key_def)
    have key_new: "invitation_key ?new = ?k" by (simp add: invitation_key_def)
    have dk: "distinct (map invitation_key (upsert invitation_key ?new ?f ?ivs))"
      using iv by (intro distinct_upsert) (auto simp: invitation_key_def)
    have "distinct (map iv_id (upsert invitation_key ?new ?f ?ivs)) \<and> distinct (map iv_token_hash (upsert invitation_key ?new ?f ?ivs))"
    proof (cases "?k \<in> invitation_key ` set ?ivs")
      case True
      then have eq: "upsert invitation_key ?new ?f ?ivs = update_where (\<lambda>i. invitation_key i = ?k) ?f ?ivs"
        by (simp add: upsert_def key_new)
      have "distinct (map iv_token_hash (update_where (\<lambda>i. invitation_key i = ?k) ?f ?ivs))"
        using iv free by (intro distinct_update_one [where k = "kh t"])
          (auto simp: list_ex_iff dest: key_unique [of invitation_key])
      with eq iv show ?thesis by simp
    next
      case False
      then have eq: "upsert invitation_key ?new ?f ?ivs = ?ivs @ [?new]" by (simp add: upsert_def key_new)
      have "kh t \<notin> iv_token_hash ` set ?ivs" using free False by (force simp: list_ex_iff)
      moreover have "next_invitation_id db \<notin> iv_id ` set ?ivs" using iv by force
      ultimately show ?thesis using iv by (simp add: eq)
    qed
    with rows dk show ?thesis using control_inv_table(4) [OF seq] by (simp add: invitations_ok_def)
  qed
  show ?thesis
    using assms seq up by (auto simp: upsert_org_invitation_def Let_def split: option.splits)
qed

lemma accept_invitation_inv:
  assumes "control_inv db"
  shows "control_inv (snd (accept_org_invitation kh now t u e db))"
proof -
  let ?P = "\<lambda>i. iv_token_hash i = kh t \<and> iv_email i = e \<and> now < iv_expires_at i"
  have "control_inv (db\<lparr>org_members := upsert member_key m f (org_members db),
      org_invitations := delete_where ?P (org_invitations db)\<rparr>)"
    if "mb_org_id m \<in> org_ids db" "mb_user_id m \<in> user_ids db" "\<And>s. member_key (f s) = member_key s" for m f
  proof -
    have keys: "mb_org_id (f s) = mb_org_id s" "mb_user_id (f s) = mb_user_id s" for s
      using that(3) [of s] by (simp_all add: member_key_def)
    have "control_inv (db\<lparr>org_members := upsert member_key m f (org_members db)\<rparr>)"
      using control_invD(5) [OF assms] that
      by (auto simp: members_ok_def keys intro!: control_inv_table [OF assms] distinct_upsert elim!: in_upsert)
    then show ?thesis
      using control_invD(6) [OF assms]
      by (intro control_inv_table(4)) (auto simp: invitations_ok_def intro: distinct_delete_where)
  qed
  then show ?thesis using assms
    by (auto simp: accept_org_invitation_def Let_def member_key_def split: option.splits)
qed

lemma consumed_cli_ok:
  assumes "cli_ok R U cs" "c \<in> set cs" "ca_approved c" "ca_device_hash c = d"
  shows "cli_ok R U (update_where (\<lambda>c. ca_device_hash c = d) (\<lambda>c. c\<lparr>ca_consumed := True\<rparr>) cs)"
proof -
  have "c' = c" if "c' \<in> set cs" "ca_device_hash c' = d" for c'
    using assms that by (auto simp: cli_ok_def dest: key_unique [of ca_device_hash])
  then have "cli_row_ok R U (c'\<lparr>ca_consumed := True\<rparr>)" if "c' \<in> set cs" "ca_device_hash c' = d" for c'
    using assms(1,3) that by (auto simp: cli_ok_def cli_row_ok_def)
  with assms(1) show ?thesis by (simp add: cli_ok_def)
qed

lemma consume_cli_cases:
  "consume_cli_authorization kh now d s p db = (Some None, db) \<or> consume_cli_authorization kh now d s p db = (None, db)
   \<or> (\<exists>c r u db'. c \<in> set (cli_authorizations db) \<and> ca_device_hash c = kh d \<and> ca_approved c \<and> \<not> ca_consumed c
      \<and> now < ca_expires_at c \<and> ca_org_id c = Some r \<and> ca_user_id c = Some u
      \<and> create_api_key kh now s p r u None db = (Some (), db')
      \<and> consume_cli_authorization kh now d s p db = (Some (Some r),
          db'\<lparr>cli_authorizations := update_where (\<lambda>c. ca_device_hash c = kh d) (\<lambda>c. c\<lparr>ca_consumed := True\<rparr>)
            (cli_authorizations db')\<rparr>))"
proof (cases "List.find (\<lambda>c. ca_device_hash c = kh d \<and> ca_approved c \<and> \<not> ca_consumed c \<and> now < ca_expires_at c)
    (cli_authorizations db)")
  case None
  then show ?thesis by (simp add: consume_cli_authorization_def)
next
  case (Some c)
  note c = find_in [OF this]
  show ?thesis
  proof (cases "\<exists>r u. ca_org_id c = Some r \<and> ca_user_id c = Some u")
    case True
    then obtain r u where ru: "ca_org_id c = Some r" "ca_user_id c = Some u" by blast
    obtain x db' where k: "create_api_key kh now s p r u None db = (x, db')" by fastforce
    show ?thesis using Some ru k c by (cases x) (simp_all add: consume_cli_authorization_def, blast)
  next
    case False
    then show ?thesis using Some by (auto simp: consume_cli_authorization_def split: option.splits)
  qed
qed

lemma consume_cli_inv:
  assumes "control_inv db"
  shows "control_inv (snd (consume_cli_authorization kh now d s p db))"
  using consume_cli_cases [of kh now d s p db]
proof (elim disjE exE conjE)
  fix c r u db'
  assume c: "c \<in> set (cli_authorizations db)" "ca_device_hash c = kh d" "ca_approved c"
    and k: "create_api_key kh now s p r u None db = (Some (), db')"
    and eq: "consume_cli_authorization kh now d s p db = (Some (Some r),
          db'\<lparr>cli_authorizations := update_where (\<lambda>c. ca_device_hash c = kh d) (\<lambda>c. c\<lparr>ca_consumed := True\<rparr>)
            (cli_authorizations db')\<rparr>)"
  have inv: "control_inv db'" using key_inv(1) [OF assms, of kh now s p r u None] k by simp
  have "cli_authorizations db' = cli_authorizations db"
    using k by (auto simp: create_api_key_def split: if_splits)
  with c consumed_cli_ok [OF control_invD(8) [OF inv], of c "kh d"] show ?thesis
    by (simp add: eq control_inv_table [OF inv])
qed (use assms in auto)

lemmas control_step_inv = create_user_inv user_update_inv email_token_inv session_inv org_inv delete_org_inv member_inv
  invitation_inv upsert_invitation_inv accept_invitation_inv key_inv cli_inv consume_cli_inv

lemma control_step_inv_all: "control_inv db \<Longrightarrow> control_inv (control_step kh now c db)"
  by (cases c) (simp_all add: control_step_inv audit_event_def control_inv_table)

lemma empty_control_inv: "control_inv empty_control"
  by (simp add: empty_control_def control_inv_def users_ok_def orgs_ok_def tokens_ok_def sessions_ok_def members_ok_def
      invitations_ok_def keys_ok_def cli_ok_def)

lemma control_run_inv: "control_inv db \<Longrightarrow> control_inv (control_run kh cs db)"
  by (induction cs arbitrary: db) (auto simp: control_run_def control_step_inv_all)

text \<open>Every state that any interleaving of control-plane calls can produce satisfies the declared
  constraints: ids, addresses, token hashes, memberships and keys are unique, every foreign key names a
  user and an organization that exist (the selection of a session is none), and a CLI authorization names its approver exactly from its
  approval on and is consumed only after it.
\<close>
theorem control_integrity: "control_inv (control_run kh cs empty_control)"
  by (rule control_run_inv [OF empty_control_inv])

end
