(* ===== verification/Credentials.thy ===== *)
theory Credentials
  imports Control_Steps
begin

text \<open>
  What the control plane promises about credentials over all its histories: the organization a session
  acts in, single use of email tokens, invitations and device codes, and the seats that invitations
  reserve. \<open>sample_control\<close> is a concrete history on which the theorems are instantiated.
\<close>

section \<open>Sessions and memberships\<close>

lemma memberships_iff:
  "(m, r) \<in> set (memberships u db) \<longleftrightarrow> m \<in> set (org_members db) \<and> r \<in> set (orgs db) \<and> mb_user_id m = u \<and> og_id r = mb_org_id m"
  by (auto simp: memberships_def)

lemma org_role_iff:
  assumes "control_inv db"
  shows "org_role r u db = Some role \<longleftrightarrow> (\<exists>m \<in> set (org_members db). member_key m = (r, u) \<and> mb_role m = role)"
  using control_invD(5) [OF assms] row_of_in [of member_key "org_members db"]
  by (fastforce simp: org_role_def members_ok_def row_of_def dest: find_in)

lemma org_role_None: "org_role r u db = None \<longleftrightarrow> (r, u) \<notin> member_key ` set (org_members db)"
  by (simp add: org_role_def row_of_None)

lemma role_membership:
  assumes "control_inv db" "org_role r u db = Some role"
  obtains m g where "(m, g) \<in> set (memberships u db)" "og_id g = r" "mb_role m = role"
proof -
  obtain m where m: "m \<in> set (org_members db)" "member_key m = (r, u)" "mb_role m = role"
    using assms(2) by (auto simp: org_role_iff [OF assms(1)])
  then have "r \<in> org_ids db" using control_invD(5) [OF assms(1)] by (auto simp: members_ok_def member_key_def)
  then obtain g where "g \<in> set (orgs db)" "og_id g = r" by (auto simp: org_ids_def)
  with m that [of m g] show ?thesis by (auto simp: memberships_iff member_key_def)
qed

lemma user_by_id_id: "user_by_id i db = Some u \<Longrightarrow> u_id u = i"
  by (auto simp: user_by_id_def row_of_def dest: find_in)

text \<open>C30. Whatever the history of the control plane, a live session is resolved to its own user and to an
  organization that user is a member of, with the role of that membership; the organization selected
  for the session is used whenever it still is one of them, and no stale selection crosses a
  membership boundary.
\<close>
theorem session_in_membership:
  assumes "user_and_org_for_session kh now token (control_run kh cs empty_control) = Some (user, org)"
  shows "\<exists>s \<in> set (sessions (control_run kh cs empty_control)).
    ss_token s = kh token \<and> live_session now s \<and> ss_user_id s = u_id user
    \<and> org_role (o_id org) (u_id user) (control_run kh cs empty_control) = Some (o_role org)
    \<and> (\<forall>r. ss_active_org_id s = Some r \<and> org_role r (u_id user) (control_run kh cs empty_control) \<noteq> None
          \<longrightarrow> o_id org = r)"
proof -
  let ?db = "control_run kh cs empty_control"
  have inv: "control_inv ?db" by (rule control_run_inv [OF empty_control_inv])
  obtain s p where s: "List.find (\<lambda>s. ss_token s = kh token \<and> live_session now s) (sessions ?db) = Some s"
    and u: "user_by_id (ss_user_id s) ?db = Some user" and org: "org = row_to_org p"
    and p: "select_first (session_order s) (\<lambda>_. True) (memberships (ss_user_id s) ?db) = Some p"
    using assms by (auto simp: user_and_org_for_session_def bind_eq_Some_conv)
  note sin = find_in [OF s] and uid = user_by_id_id [OF u] and first = select_first_Some [OF p]
  obtain m g where mg: "p = (m, g)" by fastforce
  then have mem: "m \<in> set (org_members ?db)" "mb_user_id m = u_id user" "og_id g = mb_org_id m"
    using first uid by (auto simp: memberships_iff)
  have role: "org_role (o_id org) (u_id user) ?db = Some (o_role org)"
    using mem by (auto simp: org_role_iff [OF inv] org mg row_to_org_def member_key_def)
  have "o_id org = r" if r: "ss_active_org_id s = Some r" "org_role r (u_id user) ?db \<noteq> None" for r
  proof -
    obtain role' where "org_role r (u_id user) ?db = Some role'" using r(2) by blast
    from role_membership [OF inv this] obtain m' g' where "(m', g') \<in> set (memberships (u_id user) ?db)" "og_id g' = r"
      by blast
    then have "session_order s p \<le> session_order s (m', g')" using first uid by auto
    with r(1) \<open>og_id g' = r\<close> show ?thesis
      by (auto simp: session_order_def org mg row_to_org_def less_eq_prod_def split: if_splits)
  qed
  then show ?thesis using sin uid role by (intro bexI [of _ s]) auto
qed

section \<open>Single-use credentials\<close>

text \<open>The calls that store a credential with a given hash.\<close>

fun issues :: "(string \<Rightarrow> string) \<Rightarrow> string \<Rightarrow> control_call \<Rightarrow> bool" where
  "issues kh h (CreateEmailToken t _ _ _) \<longleftrightarrow> kh t = h"
| "issues kh h (UpsertInvitation _ _ _ _ _ t _ _) \<longleftrightarrow> kh t = h"
| "issues kh h (RefreshInvitation _ _ t _) \<longleftrightarrow> kh t = h"
| "issues kh h (CreateCli d _ _) \<longleftrightarrow> kh d = h"
| "issues kh h _ \<longleftrightarrow> False"

definition no_email_token :: "string \<Rightarrow> control_db \<Rightarrow> bool" where
  "no_email_token h db \<longleftrightarrow> h \<notin> et_token_hash ` set (email_tokens db)"

definition no_invitation :: "string \<Rightarrow> control_db \<Rightarrow> bool" where
  "no_invitation h db \<longleftrightarrow> h \<notin> iv_token_hash ` set (org_invitations db)"

definition device_spent :: "string \<Rightarrow> control_db \<Rightarrow> bool" where
  "device_spent h db \<longleftrightarrow> (\<forall>c \<in> set (cli_authorizations db). ca_device_hash c = h \<longrightarrow> ca_consumed c)"

lemmas control_call_defs = create_user_def create_email_token_def consume_email_token_def
  prune_email_tokens_def mark_email_verified_def set_password_def create_session_def set_session_org_def
  revoke_sessions_for_user_def prune_sessions_def delete_session_def audit_event_def create_org_def add_member_def
  rename_org_row_def set_role_def drop_member_def set_org_plan_def delete_org_row_def set_seat_row_def
  upsert_org_invitation_def refresh_org_invitation_def revoke_org_invitation_def accept_org_invitation_def
  prune_org_invitations_def create_api_key_def create_cli_authorization_def approve_cli_authorization_def
  delete_api_key_def revoke_publishable_keys_for_project_def delete_api_keys_for_project_def

lemma consume_cli_frame:
  "email_tokens (snd (consume_cli_authorization kh now d s p db)) = email_tokens db"
  "org_invitations (snd (consume_cli_authorization kh now d s p db)) = org_invitations db"
  by (auto simp: consume_cli_authorization_def create_api_key_def split: option.splits prod.splits if_splits)

lemma no_email_token_step:
  "no_email_token h db \<Longrightarrow> \<not> issues kh h c \<Longrightarrow> no_email_token h (control_step kh now c db)"
  by (cases c) (auto simp: no_email_token_def control_call_defs consume_cli_frame Let_def split: option.splits)

lemma no_invitation_upsert:
  assumes "no_invitation h db" "kh t \<noteq> h"
  shows "no_invitation h (snd (upsert_org_invitation kh now r e role seat u t ttl lim db))"
  using assms by (auto simp: no_invitation_def upsert_org_invitation_def Let_def elim!: in_upsert split: option.splits)

lemma no_invitation_step:
  "no_invitation h db \<Longrightarrow> \<not> issues kh h c \<Longrightarrow> no_invitation h (control_step kh now c db)"
proof (cases c)
  case (UpsertInvitation r e role seat u t ttl lim)
  then show "no_invitation h db \<Longrightarrow> \<not> issues kh h c \<Longrightarrow> no_invitation h (control_step kh now c db)"
    by (simp add: no_invitation_upsert)
next
  case (RefreshInvitation r i t ttl)
  then show "no_invitation h db \<Longrightarrow> \<not> issues kh h c \<Longrightarrow> no_invitation h (control_step kh now c db)"
    by (auto simp: no_invitation_def refresh_org_invitation_def Let_def update_where_def)
qed (auto simp: no_invitation_def control_call_defs consume_cli_frame Let_def split: option.splits)

lemma device_spent_consume:
  assumes "device_spent h db"
  shows "device_spent h (snd (consume_cli_authorization kh now d s p db))"
  using consume_cli_cases [of kh now d s p db] assms
  by (auto simp: device_spent_def create_api_key_def update_where_def split: if_splits)

lemma device_spent_step:
  "device_spent h db \<Longrightarrow> \<not> issues kh h c \<Longrightarrow> device_spent h (control_step kh now c db)"
proof (cases c)
  case (ConsumeCli d s p)
  then show "device_spent h db \<Longrightarrow> \<not> issues kh h c \<Longrightarrow> device_spent h (control_step kh now c db)"
    by (simp add: device_spent_consume)
qed (auto simp: device_spent_def control_call_defs Let_def update_where_def split: option.splits)

lemma run_preserves:
  assumes "\<And>db now c. I db \<Longrightarrow> \<not> issues kh h c \<Longrightarrow> I (control_step kh now c db)" "I db"
    and "list_all (\<lambda>(_, c). \<not> issues kh h c) cs"
  shows "I (control_run kh cs db)"
  using assms(2,3) by (induction cs arbitrary: db) (auto simp: control_run_def intro: assms(1))


lemma consume_email_token_spends:
  assumes "control_inv db" "fst (consume_email_token kh now t purpose db) = Some u"
  shows "no_email_token (kh t) (snd (consume_email_token kh now t purpose db))"
proof -
  let ?P = "\<lambda>v. et_token_hash v = kh t \<and> et_purpose v = purpose \<and> now < et_expires_at v"
  obtain v where v: "v \<in> set (email_tokens db)" "?P v"
    using assms(2) by (auto simp: consume_email_token_def Let_def dest: find_in)
  then have "w = v" if "w \<in> set (email_tokens db)" "et_token_hash w = kh t" for w
    using control_invD(3) [OF assms(1)] that by (auto simp: tokens_ok_def dest: key_unique [of et_token_hash])
  with v show ?thesis by (auto simp: consume_email_token_def no_email_token_def Let_def)
qed

lemma accept_cases:
  assumes "fst (accept_org_invitation kh now t u e db) = Some (Some r)"
  obtains i where "i \<in> set (org_invitations db)" "iv_token_hash i = kh t" "iv_email i = e" "now < iv_expires_at i"
    "iv_org_id i = r" "r \<in> org_ids db" "u \<in> user_ids db"
    "snd (accept_org_invitation kh now t u e db) = db\<lparr>org_members := upsert member_key
        \<lparr>mb_org_id = r, mb_user_id = u, mb_role = iv_role i, mb_seat = iv_seat i\<rparr>
        (\<lambda>m. m\<lparr>mb_role := iv_role i, mb_seat := mb_seat m \<or> iv_seat i\<rparr>) (org_members db),
      org_invitations := delete_where (\<lambda>i. iv_token_hash i = kh t \<and> iv_email i = e \<and> now < iv_expires_at i) (org_invitations db)\<rparr>"
proof -
  let ?P = "\<lambda>i. iv_token_hash i = kh t \<and> iv_email i = e \<and> now < iv_expires_at i"
  obtain i where i: "List.find ?P (org_invitations db) = Some i"
    using assms by (cases "List.find ?P (org_invitations db)") (auto simp: accept_org_invitation_def)
  show ?thesis
    using that [of i] find_in [OF i] assms i by (auto simp: accept_org_invitation_def Let_def split: if_splits)
qed

lemma invitation_unique:
  assumes "control_inv db" "i \<in> set (org_invitations db)" "j \<in> set (org_invitations db)" "iv_token_hash i = iv_token_hash j"
  shows "i = j"
  using control_invD(6) [OF assms(1)] assms(2-) by (auto simp: invitations_ok_def dest: key_unique [of iv_token_hash])

lemma accept_spends:
  assumes "control_inv db" "fst (accept_org_invitation kh now t u e db) = Some (Some r)"
  shows "no_invitation (kh t) (snd (accept_org_invitation kh now t u e db))"
  using assms(2)
proof (rule accept_cases)
  fix i
  assume i: "i \<in> set (org_invitations db)" "iv_token_hash i = kh t" "iv_email i = e" "now < iv_expires_at i"
    and st: "snd (accept_org_invitation kh now t u e db) = db\<lparr>org_members := upsert member_key
        \<lparr>mb_org_id = r, mb_user_id = u, mb_role = iv_role i, mb_seat = iv_seat i\<rparr>
        (\<lambda>m. m\<lparr>mb_role := iv_role i, mb_seat := mb_seat m \<or> iv_seat i\<rparr>) (org_members db),
      org_invitations := delete_where (\<lambda>i. iv_token_hash i = kh t \<and> iv_email i = e \<and> now < iv_expires_at i) (org_invitations db)\<rparr>"
  have "x = i" if "x \<in> set (org_invitations db)" "iv_token_hash x = kh t" for x
    by (rule invitation_unique [OF assms(1) that(1) i(1)]) (simp add: that(2) i(2))
  then have "\<forall>x \<in> set (delete_where (\<lambda>i. iv_token_hash i = kh t \<and> iv_email i = e \<and> now < iv_expires_at i)
      (org_invitations db)). iv_token_hash x \<noteq> kh t"
    using i(3,4) by auto
  then show ?thesis unfolding st no_invitation_def by auto
qed

lemma consume_cli_spends:
  assumes "fst (consume_cli_authorization kh now d s p db) = Some (Some r)"
  shows "device_spent (kh d) (snd (consume_cli_authorization kh now d s p db))"
  using consume_cli_cases [of kh now d s p db] assms
  by (auto simp: device_spent_def create_api_key_def update_where_def split: if_splits)

text \<open>C32. Single-use credentials are used once. After an email token, an invitation or an approved device
  code was consumed in any reachable state, no later sequence of calls that does not issue that secret
  again can consume it a second time, under any purpose, for any account and at any time.
\<close>
theorem credentials_single_use:
  assumes "list_all (\<lambda>(_, c). \<not> issues kh (kh t) c) later"
  shows "(fst (consume_email_token kh now t purpose (control_run kh cs empty_control)) = Some u
      \<longrightarrow> fst (consume_email_token kh now' t purpose' (control_run kh later
            (snd (consume_email_token kh now t purpose (control_run kh cs empty_control))))) = None)
    \<and> (fst (accept_org_invitation kh now t u e (control_run kh cs empty_control)) = Some (Some r)
      \<longrightarrow> fst (accept_org_invitation kh now' t u' e' (control_run kh later
            (snd (accept_org_invitation kh now t u e (control_run kh cs empty_control))))) = Some None)
    \<and> (fst (consume_cli_authorization kh now t s p (control_run kh cs empty_control)) = Some (Some r)
      \<longrightarrow> fst (consume_cli_authorization kh now' t s' p' (control_run kh later
            (snd (consume_cli_authorization kh now t s p (control_run kh cs empty_control))))) = Some None)"
proof -
  let ?db = "control_run kh cs empty_control"
  have inv: "control_inv ?db" by (rule control_run_inv [OF empty_control_inv])
  have e: "no_email_token (kh t) db \<Longrightarrow> fst (consume_email_token kh now' t purpose' (control_run kh later db)) = None" for db
    using run_preserves [where I = "no_email_token (kh t)", OF no_email_token_step _ assms, of db]
    by (force simp: no_email_token_def consume_email_token_def Let_def find_None_iff)
  have i: "no_invitation (kh t) db \<Longrightarrow> fst (accept_org_invitation kh now' t u' e' (control_run kh later db)) = Some None" for db
    using run_preserves [where I = "no_invitation (kh t)", OF no_invitation_step _ assms, of db]
    by (force simp: no_invitation_def accept_org_invitation_def Let_def find_None_iff split: option.splits dest!: find_in)
  have d: "device_spent (kh t) db \<Longrightarrow> fst (consume_cli_authorization kh now' t s' p' (control_run kh later db)) = Some None" for db
    using run_preserves [where I = "device_spent (kh t)", OF device_spent_step _ assms, of db]
    by (auto simp: device_spent_def consume_cli_authorization_def Let_def split: option.splits dest!: find_in)
  show ?thesis
    by (intro conjI impI)
      (rule e, erule consume_email_token_spends [OF inv], rule i, erule accept_spends [OF inv],
        rule d, erule consume_cli_spends)
qed

section \<open>Seats\<close>

text \<open>Seats held by members and reserved by invitations.\<close>

definition seats_taken :: "int \<Rightarrow> int \<Rightarrow> control_db \<Rightarrow> int" where
  "seats_taken now org_id db = count_seats org_id db + int (affected (reserving now org_id) (org_invitations db))"


lemma affected_append: "affected Q (t @ u) = affected Q t + affected Q u"
  by (simp add: affected_def)

lemma affected_cong: "(\<And>x. x \<in> set t \<Longrightarrow> P x = Q x) \<Longrightarrow> affected P t = affected Q t"
  by (simp add: affected_def cong: filter_cong)

lemma affected_split: "affected Q t = affected (\<lambda>x. Q x \<and> P x) t + affected (\<lambda>x. Q x \<and> \<not> P x) t"
  by (induction t) (auto simp: affected_def)

lemma affected_update_same:
  "(\<And>s. P s \<Longrightarrow> Q (f s) = Q s) \<Longrightarrow> affected Q (update_where P f t) = affected Q t"
  by (induction t) (auto simp: affected_def update_where_def)

lemma affected_delete: "affected Q (delete_where P t) + affected (\<lambda>x. P x \<and> Q x) t = affected Q t"
  by (induction t) (auto simp: affected_def delete_where_def)

lemma affected_unique:
  assumes "distinct (map key t)" "i \<in> set t" "P i" "\<And>x. P x \<Longrightarrow> key x = key i"
  shows "affected (\<lambda>x. P x \<and> Q x) t = (if Q i then 1 else 0)"
proof -
  have "affected (\<lambda>x. P x \<and> Q x) t = affected (\<lambda>x. key x = key i \<and> (P x \<and> Q x)) t"
    using assms(4) by (intro affected_cong) blast
  also have "\<dots> = (if Q i then 1 else 0)"
  proof (cases "Q i")
    case True
    then show ?thesis using affected_key_1 [OF assms(1), of "key i" "\<lambda>x. P x \<and> Q x"] assms(2,3) by auto
  next
    case False
    then have "\<not> (key x = key i \<and> P x \<and> Q x)" if "x \<in> set t" for x
      using key_unique [OF assms(1) that assms(2)] by blast
    then show ?thesis using False by (simp add: affected_0)
  qed
  finally show ?thesis .
qed

lemma affected_update_le:
  assumes "distinct (map key t)"
  shows "affected Q (update_where (\<lambda>s. key s = k) f t) \<le> affected Q t + 1"
  using assms
proof (induction t)
  case (Cons r t)
  show ?case
  proof (cases "key r = k")
    case True
    with Cons.prems have "update_where (\<lambda>s. key s = k) f t = t" by (intro update_where_none) (force simp: image_iff)
    then show ?thesis by (auto simp: affected_def update_where_def)
  next
    case False
    then show ?thesis using Cons by (auto simp: affected_def update_where_def)
  qed
qed (simp add: affected_def update_where_def)

lemma affected_update_mono:
  "(\<And>s. s \<in> set t \<Longrightarrow> P s \<Longrightarrow> Q (f s) \<Longrightarrow> Q s) \<Longrightarrow> affected Q (update_where P f t) \<le> affected Q t"
  by (induction t) (auto simp: affected_def update_where_def)

lemma affected_upsert_le:
  assumes "distinct (map key t)"
  shows "affected Q (upsert key r f t) \<le> affected Q t + 1"
  using affected_update_le [OF assms, of Q "key r" f] by (auto simp: upsert_def affected_def)

lemma affected_upsert_mono:
  "\<not> Q r \<Longrightarrow> (\<And>s. s \<in> set t \<Longrightarrow> Q (f s) \<Longrightarrow> Q s) \<Longrightarrow> affected Q (upsert key r f t) \<le> affected Q t"
  by (simp add: upsert_def affected_update_mono affected_append) (simp add: affected_def)

text \<open>Accepting an invitation needs its secret, the invited address and a time before it expires; it
  makes the user a member with the invited role and moves the reserved seat to the membership, so that
  the seats taken by members and invitations together do not grow.
\<close>
theorem accept_moves_seat:
  assumes "control_inv db" and "fst (accept_org_invitation kh now token u email db) = Some (Some r)"
    and "\<forall>i \<in> set (org_invitations db). iv_role i \<noteq> ''owner''"
  shows "\<exists>i \<in> set (org_invitations db). iv_token_hash i = kh token \<and> iv_email i = email \<and> now < iv_expires_at i
      \<and> iv_org_id i = r \<and> org_role r u (snd (accept_org_invitation kh now token u email db)) = Some (iv_role i)
      \<and> (iv_seat i \<longrightarrow> has_seat r u (snd (accept_org_invitation kh now token u email db)))
      \<and> seats_taken now r (snd (accept_org_invitation kh now token u email db)) \<le> seats_taken now r db"
  using assms(2)
proof (rule accept_cases)
  fix i :: invitation_row
  let ?P = "\<lambda>i. iv_token_hash i = kh token \<and> iv_email i = email \<and> now < iv_expires_at i"
  let ?m = "\<lparr>mb_org_id = r, mb_user_id = u, mb_role = iv_role i, mb_seat = iv_seat i\<rparr>"
  let ?f = "\<lambda>m. m\<lparr>mb_role := iv_role i, mb_seat := mb_seat m \<or> iv_seat i\<rparr>"
  assume i: "i \<in> set (org_invitations db)" "iv_token_hash i = kh token" "iv_email i = email" "now < iv_expires_at i" "iv_org_id i = r"
    and st: "snd (accept_org_invitation kh now token u email db) = db\<lparr>org_members := upsert member_key ?m ?f (org_members db),
      org_invitations := delete_where ?P (org_invitations db)\<rparr>"
  note ms = control_invD(5) [OF assms(1), unfolded members_ok_def]
  have row: "row_of member_key (r, u) (upsert member_key ?m ?f (org_members db))
      = Some (case row_of member_key (r, u) (org_members db) of Some s \<Rightarrow> ?f s | None \<Rightarrow> ?m)"
    by (subst row_of_upsert) (auto simp: member_key_def)
  then have role: "org_role r u (snd (accept_org_invitation kh now token u email db)) = Some (iv_role i)"
    by (simp add: org_role_def st split: option.splits)
  have seat: "has_seat r u (snd (accept_org_invitation kh now token u email db))" if "iv_seat i"
    using row that by (auto simp: has_seat_def seated_def list_ex_iff st member_key_def row_of_def split: option.splits dest!: find_in)
  have gone: "affected (\<lambda>x. ?P x \<and> reserving now r x) (org_invitations db) = (if iv_seat i then 1 else 0)"
    using affected_unique [of iv_token_hash "org_invitations db" i ?P "reserving now r"] control_invD(6) [OF assms(1)] i
    by (simp add: invitations_ok_def reserving_def)
  have "affected (seated r) (upsert member_key ?m ?f (org_members db)) \<le> affected (seated r) (org_members db) + (if iv_seat i then 1 else 0)"
    using affected_upsert_le [of member_key "org_members db" "seated r" ?m ?f]
      affected_upsert_mono [of "seated r" ?m "org_members db" ?f member_key] ms assms(3) i(1)
    by (auto simp: seated_def)
  with gone affected_delete [of "reserving now r" ?P "org_invitations db"]
  have "seats_taken now r (snd (accept_org_invitation kh now token u email db)) \<le> seats_taken now r db"
    by (simp add: seats_taken_def count_seats_def st)
  with i role seat show ?thesis by blast
qed

text \<open>An invitation that reserves a seat under a limit is only stored while the seats taken by members
  and pending invitations, the new one included, stay within the limit; a refused one changes nothing.
\<close>
theorem invitation_within_limit:
  assumes "control_inv db"
  shows "case upsert_org_invitation kh now r email role True u token ttl (Some limit) db of
      (Some (Some i), db') \<Rightarrow> seats_taken now r db' \<le> limit
    | (Some None, db') \<Rightarrow> db' = db \<and> limit \<le> seats_used_without now r email db
    | (None, db') \<Rightarrow> org_invitations db' = org_invitations db"
proof -
  let ?ivs = "org_invitations db" and ?Q = "reserving now r"
  let ?new = "\<lparr>iv_id = next_invitation_id db, iv_token_hash = kh token, iv_org_id = r, iv_email = email, iv_role = role,
    iv_seat = True, iv_invited_by = Some u, iv_expires_at = now + secs ttl\<rparr>"
  let ?f = "\<lambda>i. i\<lparr>iv_token_hash := kh token, iv_role := role, iv_seat := True, iv_invited_by := Some u,
    iv_expires_at := now + secs ttl\<rparr>"
  let ?t = "upsert invitation_key ?new ?f ?ivs"
  note dk = control_invD(6) [OF assms, unfolded invitations_ok_def]
  have "distinct (map invitation_key ?t)"
    using dk by (intro distinct_upsert) (auto simp: invitation_key_def)
  moreover have "affected (\<lambda>i. ?Q i \<and> iv_email i = email) ?t = affected (\<lambda>i. invitation_key i = (r, email) \<and> ?Q i) ?t"
    by (rule affected_cong) (auto simp: invitation_key_def reserving_def)
  ultimately have "affected (\<lambda>i. ?Q i \<and> iv_email i = email) ?t \<le> 1"
    using affected_key_le_1 [of invitation_key ?t "(r, email)" ?Q] by simp
  moreover have "affected (\<lambda>i. ?Q i \<and> iv_email i \<noteq> email) ?t = affected (\<lambda>i. ?Q i \<and> iv_email i \<noteq> email) ?ivs"
    by (auto simp: upsert_def invitation_key_def affected_append intro!: affected_update_same) (simp add: affected_def)
  moreover have "affected ?Q ?t = affected (\<lambda>i. ?Q i \<and> iv_email i = email) ?t + affected (\<lambda>i. ?Q i \<and> iv_email i \<noteq> email) ?t"
    by (rule affected_split)
  ultimately have taken: "int (affected ?Q ?t) \<le> int (affected (\<lambda>i. ?Q i \<and> iv_email i \<noteq> email) ?ivs) + 1" by simp
  moreover have "row_of invitation_key (r, email) ?t \<noteq> None"
    by (subst row_of_upsert) (auto simp: invitation_key_def)
  ultimately show ?thesis
    by (auto simp: upsert_org_invitation_def Let_def seats_taken_def seats_used_without_def count_seats_def split: option.splits)
qed


section \<open>A sample history\<close>

text \<open>An owner with a session, an invitation, a reset token and an approved device code.\<close>

definition sample_kh :: "string \<Rightarrow> string" where "sample_kh s = CHR ''#'' # s"

definition sample_calls :: "(int \<times> control_call) list" where
  "sample_calls = [(0, CreateUser ''a@x'' ''p''), (0, CreateOrg ''Acme'' False), (0, AddMember 1 1 ''owner''),
     (0, CreateSession ''s'' 1 100), (0, CreateUser ''b@x'' ''p''),
     (0, UpsertInvitation 1 ''b@x'' ''member'' True 1 ''t'' 100 (Some 3)), (0, CreateEmailToken ''t'' 2 ''reset'' 100),
     (0, CreateCli ''t'' ''c'' 100), (0, ApproveCli ''c'' 1 1)]"

definition sample_control :: control_db where
  "sample_control = control_run sample_kh sample_calls empty_control"

lemma sample_control_inv: "control_inv sample_control"
  unfolding sample_control_def by (rule control_run_inv [OF empty_control_inv])

lemma sample_consumptions:
  "fst (consume_email_token sample_kh 1 ''t'' ''reset'' sample_control) = Some 2
   \<and> fst (accept_org_invitation sample_kh 1 ''t'' 2 ''b@x'' sample_control) = Some (Some 1)
   \<and> fst (consume_cli_authorization sample_kh 1 ''t'' ''sk_live_1'' ''sk_live_...'' sample_control) = Some (Some 1)
   \<and> map iv_role (org_invitations sample_control) = [''member'']
   \<and> map_option (\<lambda>(u, r). (u_email u, o_name r, o_role r)) (user_and_org_for_session sample_kh 1 ''s'' sample_control)
     = Some (''a@x'', ''Acme'', ''owner'')"
  by code_simp

theorem session_in_membership_witness:
  "\<exists>user org. user_and_org_for_session sample_kh 1 ''s'' sample_control = Some (user, org)
    \<and> (\<exists>s \<in> set (sessions sample_control). ss_token s = sample_kh ''s'' \<and> ss_user_id s = u_id user
        \<and> org_role (o_id org) (u_id user) sample_control = Some (o_role org))"
proof -
  obtain user org where uo: "user_and_org_for_session sample_kh 1 ''s'' sample_control = Some (user, org)"
    using sample_consumptions by auto
  then show ?thesis
    using session_in_membership [of sample_kh 1 "''s''" sample_calls user org]
    unfolding sample_control_def [symmetric] by blast
qed

theorem credentials_single_use_witness:
  "fst (consume_email_token sample_kh 2 ''t'' ''reset''
      (control_run sample_kh [(2, PruneSessions)] (snd (consume_email_token sample_kh 1 ''t'' ''reset'' sample_control)))) = None
   \<and> fst (accept_org_invitation sample_kh 2 ''t'' 2 ''b@x''
      (control_run sample_kh [(2, PruneSessions)] (snd (accept_org_invitation sample_kh 1 ''t'' 2 ''b@x'' sample_control)))) = Some None
   \<and> fst (consume_cli_authorization sample_kh 2 ''t'' ''sk_live_2'' ''p''
      (control_run sample_kh [(2, PruneSessions)]
        (snd (consume_cli_authorization sample_kh 1 ''t'' ''sk_live_1'' ''sk_live_...'' sample_control)))) = Some None"
  using credentials_single_use [of sample_kh "''t''" "[(2, PruneSessions)]" 1 "''reset''" sample_calls 2 2 "''reset''"
      "''b@x''" 1 2 "''b@x''" "''sk_live_1''" "''sk_live_...''" "''sk_live_2''" "''p''"] sample_consumptions
  unfolding sample_control_def [symmetric] by simp

theorem accept_moves_seat_witness:
  "seats_taken 1 1 (snd (accept_org_invitation sample_kh 1 ''t'' 2 ''b@x'' sample_control)) \<le> seats_taken 1 1 sample_control"
proof -
  have "\<forall>i \<in> set (org_invitations sample_control). iv_role i \<noteq> ''owner''"
    using sample_consumptions by (auto simp: map_eq_Cons_conv)
  then show ?thesis
    using accept_moves_seat [OF sample_control_inv, of sample_kh 1 "''t''" 2 "''b@x''" 1] sample_consumptions by blast
qed

theorem invitation_within_limit_witness:
  "case upsert_org_invitation sample_kh 1 1 ''c@x'' ''member'' True 1 ''t2'' 100 (Some 2) sample_control of
      (Some (Some i), db') \<Rightarrow> seats_taken 1 1 db' \<le> 2
    | (Some None, db') \<Rightarrow> db' = sample_control \<and> 2 \<le> seats_used_without 1 1 ''c@x'' sample_control
    | (None, db') \<Rightarrow> org_invitations db' = org_invitations sample_control"
  by (rule invitation_within_limit [OF sample_control_inv])

end
