(* ===== verification/Blob.thy ===== *)
theory Blob
  imports Table
begin

text \<open>
  Object storage (\<open>src/tenancy/blob.rs\<close>): the key check, the handle pinned to a tenant's scope and the
  local file-system backend. The file system is a table from absolute paths (lists of components) to
  bytes; \<open>io\<close> says whether the operating system carries a request out. Proved: what one tenant's handle
  does, deleting its whole scope included, never changes what another tenant's handle reads.
\<close>

section \<open>Keys and paths\<close>

type_synonym path = "string list"
type_synonym files = "(path \<times> string) list"

definition safe_key :: "string \<Rightarrow> string" where
  "safe_key key = dropWhile (\<lambda>c. c = CHR ''/'') key"

definition trim_slashes :: "string \<Rightarrow> string" where
  "trim_slashes s = rev (safe_key (rev (safe_key s)))"

definition is_safe_key :: "string \<Rightarrow> bool" where
  "is_safe_key key \<longleftrightarrow> key \<noteq> [] \<and> \<not> starts_with key ''/''
     \<and> \<not> list_ex (\<lambda>seg. seg = ''..'' \<or> seg = ''.'' \<or> seg = []) (split_all CHR ''/'' key)"

text \<open>\<open>Path::join\<close> and the resolution of the joined path: empty and \<open>.\<close> components vanish, \<open>..\<close> goes up.\<close>

definition resolve_step :: "path \<Rightarrow> string \<Rightarrow> path" where
  "resolve_step p seg = (if seg = [] \<or> seg = ''.'' then p else if seg = ''..'' then butlast p else p @ [seg])"

definition local_path :: "path \<Rightarrow> string \<Rightarrow> path" where
  "local_path root key = foldl resolve_step root (split_all CHR ''/'' (safe_key key))"

section \<open>The local backend\<close>

definition local_put :: "bool \<Rightarrow> path \<Rightarrow> string \<Rightarrow> string \<Rightarrow> files \<Rightarrow> bool \<times> files" where
  "local_put io root key bytes fs =
     (if io then (True, upsert fst (local_path root key, bytes) (\<lambda>(p, _). (p, bytes)) fs) else (False, fs))"

definition local_get :: "bool \<Rightarrow> path \<Rightarrow> string \<Rightarrow> files \<Rightarrow> string option" where
  "local_get io root key fs = (if io then map_option snd (row_of fst (local_path root key) fs) else None)"

definition local_url_for :: "string \<Rightarrow> string" where
  "local_url_for key = ''/v1/blob/'' @ key"

text \<open>A missing file is not an error.\<close>

definition local_delete :: "bool \<Rightarrow> path \<Rightarrow> string \<Rightarrow> files \<Rightarrow> bool \<times> files" where
  "local_delete io root key fs =
     (let p = local_path root key
      in if p \<notin> fst ` set fs then (True, fs)
         else if io then (True, delete_where (\<lambda>f. fst f = p) fs) else (False, fs))"

text \<open>\<open>remove_dir_all\<close>: 1 when something was there, 0 when nothing was.\<close>

definition local_delete_prefix :: "bool \<Rightarrow> path \<Rightarrow> string \<Rightarrow> files \<Rightarrow> nat option \<times> files" where
  "local_delete_prefix io root key_prefix fs =
     (let P = (\<lambda>f. prefix (local_path root key_prefix) (fst f))
      in if \<not> list_ex P fs then (Some 0, fs)
         else if io then (Some 1, delete_where P fs) else (None, fs))"

section \<open>The tenant's handle\<close>

definition scoped :: "string \<Rightarrow> string \<Rightarrow> string" where
  "scoped scope key = (if scope = [] then key else trim_slashes scope @ ''/'' @ key)"

definition safe_scoped :: "string \<Rightarrow> string \<Rightarrow> string option" where
  "safe_scoped scope key = (let k = scoped scope key in if is_safe_key k then Some k else None)"

definition blob_put :: "bool \<Rightarrow> path \<Rightarrow> string \<Rightarrow> string \<Rightarrow> string \<Rightarrow> files \<Rightarrow> bool \<times> files" where
  "blob_put io root scope key bytes fs =
     (case safe_scoped scope key of None \<Rightarrow> (False, fs) | Some k \<Rightarrow> local_put io root k bytes fs)"

definition blob_get :: "bool \<Rightarrow> path \<Rightarrow> string \<Rightarrow> string \<Rightarrow> files \<Rightarrow> string option" where
  "blob_get io root scope key fs =
     (case safe_scoped scope key of None \<Rightarrow> None | Some k \<Rightarrow> local_get io root k fs)"

definition blob_url_for :: "string \<Rightarrow> string \<Rightarrow> string option" where
  "blob_url_for scope key = map_option local_url_for (safe_scoped scope key)"

definition blob_delete :: "bool \<Rightarrow> path \<Rightarrow> string \<Rightarrow> string \<Rightarrow> files \<Rightarrow> bool \<times> files" where
  "blob_delete io root scope key fs =
     (case safe_scoped scope key of None \<Rightarrow> (False, fs) | Some k \<Rightarrow> local_delete io root k fs)"

definition delete_scope :: "bool \<Rightarrow> path \<Rightarrow> string \<Rightarrow> files \<Rightarrow> nat option \<times> files" where
  "delete_scope io root scope fs =
     (let s = trim_slashes scope in if s = [] then (None, fs) else local_delete_prefix io root s fs)"

text \<open>The scope the provisioner registers for an organization.\<close>

definition blob_scope :: "int \<Rightarrow> string" where
  "blob_scope org_id = ''t/'' @ show_int org_id"

datatype blob_op = Put string string | Delete string | DropScope

fun blob_step :: "path \<Rightarrow> string \<Rightarrow> bool \<times> blob_op \<Rightarrow> files \<Rightarrow> files" where
  "blob_step root scope (io, Put key bytes) fs = snd (blob_put io root scope key bytes fs)"
| "blob_step root scope (io, Delete key) fs = snd (blob_delete io root scope key fs)"
| "blob_step root scope (io, DropScope) fs = snd (delete_scope io root scope fs)"

section \<open>Paths of safe keys\<close>

lemma resolve_plain:
  "\<not> list_ex (\<lambda>seg. seg = ''..'' \<or> seg = ''.'' \<or> seg = []) segs \<Longrightarrow> foldl resolve_step root segs = root @ segs"
  by (induction segs arbitrary: root) (simp_all add: resolve_step_def)

lemma safe_key_id: "\<not> starts_with key ''/'' \<Longrightarrow> safe_key key = key"
  by (cases key) (auto simp: safe_key_def starts_with_def)

lemma local_path_safe: "is_safe_key key \<Longrightarrow> local_path root key = root @ split_all CHR ''/'' key"
  by (simp add: local_path_def is_safe_key_def safe_key_id resolve_plain)

lemma show_nat_chars: "c \<in> set (show_nat n) \<Longrightarrow> is_ascii_digit c"
  using show_nat_digits [of n] by (simp add: list_all_iff)

lemma show_int_chars: "c \<in> set (show_int i) \<Longrightarrow> c = CHR ''-'' \<or> is_ascii_digit c"
  by (auto simp: show_int_def dest: show_nat_chars split: if_splits)

lemma show_int_inj: "show_int i = show_int j \<longleftrightarrow> i = j"
proof
  have nat: "show_nat m = show_nat n \<Longrightarrow> m = n" for m n by (metis digits_value_show_nat)
  have neg: "show_nat m \<noteq> CHR ''-'' # r" for m r using show_nat_no_sign by blast
  assume "show_int i = show_int j"
  then show "i = j" using neg neg [symmetric] by (auto simp: show_int_def dest!: nat split: if_splits)
qed simp

definition org_segment :: "int \<Rightarrow> string" where "org_segment i = show_int i"

lemma org_segment_plain: "org_segment i \<noteq> []" "org_segment i \<noteq> ''.''" "org_segment i \<noteq> ''..''" "CHR ''/'' \<notin> set (org_segment i)"
proof -
  have "is_ascii_digit (CHR ''.'') = False" "is_ascii_digit (CHR ''/'') = False" by (simp_all add: ascii_simps byte_def)
  then show "org_segment i \<noteq> ''.''" "org_segment i \<noteq> ''..''" "CHR ''/'' \<notin> set (org_segment i)"
    using show_int_chars [of "CHR ''.''" i] show_int_chars [of "CHR ''/''" i] by (auto simp: org_segment_def)
  show "org_segment i \<noteq> []" using show_nat_nonempty by (auto simp: org_segment_def show_int_def)
qed

lemma trim_scope: "trim_slashes (blob_scope i) = blob_scope i"
proof -
  obtain xs c where xc: "org_segment i = xs @ [c]" using org_segment_plain(1) by (metis rev_exhaust)
  then have "c \<noteq> CHR ''/''" using org_segment_plain(4) [of i] by auto
  then show ?thesis using xc
    by (simp add: trim_slashes_def blob_scope_def safe_key_def org_segment_def)
qed

lemma split_scope: "split_all CHR ''/'' (blob_scope i @ ''/'' @ key) = ''t'' # org_segment i # split_all CHR ''/'' key"
proof -
  have "blob_scope i @ ''/'' @ key = ''t'' @ CHR ''/'' # (org_segment i @ CHR ''/'' # key)"
    by (simp add: blob_scope_def org_segment_def)
  then show ?thesis using split_all_step [of "CHR ''/''" "''t''"] split_all_step [OF org_segment_plain(4)] by simp
qed

lemma split_scope_alone: "split_all CHR ''/'' (blob_scope i) = [''t'', org_segment i]"
proof -
  have "blob_scope i = ''t'' @ CHR ''/'' # org_segment i" by (simp add: blob_scope_def org_segment_def)
  moreover have "split_all CHR ''/'' (org_segment i) = [org_segment i]"
    using org_segment_plain(4) [of i] split_all.simps [of "CHR ''/''" "org_segment i"] by (simp add: split_once_None)
  ultimately show ?thesis using split_all_step [of "CHR ''/''" "''t''" "org_segment i"] by simp
qed

definition tenant_root :: "path \<Rightarrow> int \<Rightarrow> path" where "tenant_root root i = root @ [''t'', org_segment i]"

lemma tenant_key_path:
  assumes "safe_scoped (blob_scope i) key = Some k"
  shows "local_path root k = tenant_root root i @ split_all CHR ''/'' key"
proof -
  have k: "is_safe_key k" "k = blob_scope i @ ''/'' @ key"
    using assms trim_scope [of i] by (auto simp: safe_scoped_def scoped_def Let_def blob_scope_def split: if_splits)
  show ?thesis using local_path_safe [OF k(1), of root] by (simp add: k(2) split_scope [simplified] tenant_root_def)
qed

lemma scope_path: "local_path root (blob_scope i) = tenant_root root i"
proof -
  have "is_safe_key (blob_scope i)"
    using org_segment_plain [of i] split_scope_alone [of i]
    by (auto simp: is_safe_key_def blob_scope_def starts_with_def)
  then show ?thesis by (simp add: local_path_safe split_scope_alone tenant_root_def)
qed

lemma tenant_roots_disjoint:
  assumes "i \<noteq> j" "prefix (tenant_root root i) p"
  shows "\<not> prefix (tenant_root root j) p"
  using assms show_int_inj [of i j] by (auto simp: tenant_root_def prefix_def org_segment_def)

text \<open>A step of tenant \<open>i\<close> changes only files below its root.\<close>

lemma row_of_delete_other: "\<not> P (p, b) \<Longrightarrow> (\<And>b'. P (p, b') = P (p, b)) \<Longrightarrow> row_of fst p (delete_where P fs) = row_of fst p fs"
  by (induction fs) (auto simp: row_of_def delete_where_def)

lemma row_of_put: "row_of fst p (upsert fst (q, b) (\<lambda>(p, _). (p, b)) fs) = (if p = q then Some (q, b) else row_of fst p fs)"
  by (subst row_of_upsert) (auto simp: row_of_def dest: find_in split: option.splits)

lemma blob_step_confined:
  assumes "\<not> prefix (tenant_root root i) p"
  shows "row_of fst p (blob_step root (blob_scope i) (io, op) fs) = row_of fst p fs"
proof (cases op)
  case (Put key bytes)
  have "local_path root k \<noteq> p" if "safe_scoped (blob_scope i) key = Some k" for k
    using assms tenant_key_path [OF that, of root] by auto
  then show ?thesis using Put
    by (auto simp: blob_put_def local_put_def row_of_put split: option.splits)
next
  case (Delete key)
  have "local_path root k \<noteq> p" if "safe_scoped (blob_scope i) key = Some k" for k
    using assms tenant_key_path [OF that, of root] by auto
  then show ?thesis using Delete
    by (auto simp: blob_delete_def local_delete_def Let_def row_of_delete_other split: option.splits)
next
  case DropScope
  then show ?thesis using assms
    by (auto simp: delete_scope_def trim_scope local_delete_prefix_def scope_path Let_def row_of_delete_other)
qed

text \<open>C31. Tenants are isolated in object storage. Whatever sequence of uploads and deletions a tenant's
  handle performs, with any keys and even deleting its whole scope, every read of any other tenant's
  handle returns what it returned before, and no file outside the tenant's own directory changes.
\<close>
theorem blob_isolation:
  assumes "a \<noteq> b"
  shows "blob_get io root (blob_scope b) key (fold (blob_step root (blob_scope a)) ops fs) = blob_get io root (blob_scope b) key fs
    \<and> (\<forall>p. \<not> prefix (tenant_root root a) p
        \<longrightarrow> row_of fst p (fold (blob_step root (blob_scope a)) ops fs) = row_of fst p fs)"
proof -
  have out: "row_of fst p (fold (blob_step root (blob_scope a)) ops fs) = row_of fst p fs"
    if "\<not> prefix (tenant_root root a) p" for p
    using that by (induction ops arbitrary: fs) (auto simp: blob_step_confined split_paired_all)
  have "\<not> prefix (tenant_root root a) (local_path root k)" if "safe_scoped (blob_scope b) key = Some k" for k
    using tenant_roots_disjoint [of b a root "local_path root k"] assms tenant_key_path [OF that, of root] by auto
  with out show ?thesis by (auto simp: blob_get_def local_get_def split: option.splits)
qed

text \<open>A key that a tenant's handle accepts is stored and read back; after its deletion it is gone, and a
  key that would leave the scope is refused by every operation.
\<close>
theorem blob_roundtrip:
  assumes "is_safe_key (scoped scope key)"
  shows "blob_get True root scope key (snd (blob_put True root scope key bytes fs)) = Some bytes
    \<and> blob_get io root scope key (snd (blob_delete True root scope key fs)) = None
    \<and> (\<forall>bad. \<not> is_safe_key (scoped scope bad) \<longrightarrow> blob_get io root scope bad fs = None \<and> blob_url_for scope bad = None
        \<and> blob_put io root scope bad bytes fs = (False, fs) \<and> blob_delete io root scope bad fs = (False, fs))"
  using assms
  by (auto simp: blob_get_def blob_put_def blob_delete_def safe_scoped_def local_get_def local_put_def local_delete_def
      Let_def row_of_put row_of_None delete_where_def blob_url_for_def)

theorem blob_isolation_witness:
  "blob_get True [] (blob_scope 12) ''app/1/x'' (fold (blob_step [] (blob_scope 1)) [(True, Put ''../12/app/1/x'' ''evil''), (True, DropScope)]
      (snd (blob_put True [] (blob_scope 12) ''app/1/x'' ''clip'' []))) = Some ''clip''"
proof -
  have "is_safe_key (scoped (blob_scope 12) ''app/1/x'')" by code_simp
  then have "blob_get True [] (blob_scope 12) ''app/1/x'' (snd (blob_put True [] (blob_scope 12) ''app/1/x'' ''clip'' [])) = Some ''clip''"
    by (auto simp: blob_get_def blob_put_def safe_scoped_def local_get_def local_put_def Let_def row_of_put)
  then show ?thesis
    using blob_isolation [of 1 12 True "[]" "''app/1/x''" "[(True, Put ''../12/app/1/x'' ''evil''), (True, DropScope)]"] by simp
qed

theorem blob_roundtrip_witness:
  "blob_get True [''srv''] (blob_scope 7) ''app/1/x'' (snd (blob_put True [''srv''] (blob_scope 7) ''app/1/x'' ''clip'' [])) = Some ''clip''"
proof -
  have "is_safe_key (scoped (blob_scope 7) ''app/1/x'')" by code_simp
  then show ?thesis using blob_roundtrip [of "blob_scope 7" "''app/1/x''" "[''srv'']" "''clip''" "[]" True] by simp
qed

end
