(* ===== verification/Tenancy.thy ===== *)
theory Tenancy
  imports Blob Counter Text
begin

text \<open>
  Tenancy: secrets at rest (\<open>src/db/secrets.rs\<close>), the registry of tenants
  (\<open>src/db/control/tenant_registry.rs\<close>, \<open>src/db/mod.rs\<close>), provisioning
  (\<open>src/tenancy/provisioner.rs\<close>), the pool cache (\<open>src/tenancy/pool.rs\<close>) and the resolver with its
  mapping cache (\<open>src/tenancy/resolver.rs\<close>). The cipher, the hexadecimal coding, the connection
  provider and the schema script are arguments. A pool is represented by the connection string it was
  opened with. Times are microseconds.
\<close>

section \<open>Secrets at rest\<close>

text \<open>Validity of UTF-8, as \<open>String::from_utf8\<close> decides it.\<close>

fun utf8_valid :: "nat list \<Rightarrow> bool" where
  "utf8_valid [] = True"
| "utf8_valid (a # bs) =
     (if a < 128 then utf8_valid bs
      else (case bs of
        [] \<Rightarrow> False
      | b # cs \<Rightarrow>
          if 194 \<le> a \<and> a \<le> 223 then 128 \<le> b \<and> b \<le> 191 \<and> utf8_valid cs
          else (case cs of
            [] \<Rightarrow> False
          | c # ds \<Rightarrow>
              if 224 \<le> a \<and> a \<le> 239 then
                (if a = 224 then 160 else 128) \<le> b \<and> b \<le> (if a = 237 then 159 else 191)
                \<and> 128 \<le> c \<and> c \<le> 191 \<and> utf8_valid ds
              else (case ds of
                [] \<Rightarrow> False
              | d # es \<Rightarrow>
                  240 \<le> a \<and> a \<le> 244
                  \<and> (if a = 240 then 144 else 128) \<le> b \<and> b \<le> (if a = 244 then 143 else 191)
                  \<and> 128 \<le> c \<and> c \<le> 191 \<and> 128 \<le> d \<and> d \<le> 191 \<and> utf8_valid es))))"

text \<open>The AEAD and the hexadecimal coding of the libraries the service links.\<close>

record secret_lib =
  sl_hex_encode :: "string \<Rightarrow> string"
  sl_hex_decode :: "string \<Rightarrow> string option"
  sl_seal :: "string \<Rightarrow> string \<Rightarrow> string \<Rightarrow> string option"
  sl_open :: "string \<Rightarrow> string \<Rightarrow> string \<Rightarrow> string option"

definition CONN_ENC_PREFIX :: string where "CONN_ENC_PREFIX = ''enc:v1:''"

text \<open>\<open>env\<close> is the value of \<open>REPROIT_CONN_ENC_KEY\<close>.\<close>

definition conn_enc_key :: "secret_lib \<Rightarrow> string option \<Rightarrow> string option" where
  "conn_enc_key lib env =
     (case env of
        None \<Rightarrow> None
      | Some v \<Rightarrow> if v = [] then None
          else (case sl_hex_decode lib (trim v) of
                  Some bytes \<Rightarrow> if length bytes = 32 then Some bytes else None
                | None \<Rightarrow> None))"

definition encrypt_conn :: "secret_lib \<Rightarrow> string option \<Rightarrow> string \<Rightarrow> string \<Rightarrow> string option" where
  "encrypt_conn lib env nonce plaintext =
     (case conn_enc_key lib env of
        None \<Rightarrow> Some plaintext
      | Some key \<Rightarrow> map_option (\<lambda>ct. CONN_ENC_PREFIX @ sl_hex_encode lib (nonce @ ct)) (sl_seal lib key nonce plaintext))"

definition decrypt_conn :: "secret_lib \<Rightarrow> string option \<Rightarrow> string \<Rightarrow> string option" where
  "decrypt_conn lib env stored =
     (case strip_prefix stored CONN_ENC_PREFIX of
        None \<Rightarrow> Some stored
      | Some rest \<Rightarrow>
          Option.bind (conn_enc_key lib env) (\<lambda>key.
          Option.bind (sl_hex_decode lib rest) (\<lambda>blob.
          if length blob < 12 then None
          else Option.bind (sl_open lib key (take 12 blob) (drop 12 blob)) (\<lambda>pt.
            if utf8_valid (map byte pt) then Some pt else None))))"

section \<open>Connection providers\<close>

datatype Provider = Local string | Single string

fun find_sub :: "string \<Rightarrow> string \<Rightarrow> nat option" where
  "find_sub pat [] = (if pat = [] then Some 0 else None)"
| "find_sub pat (c # s) = (if prefix pat (c # s) then Some 0 else map_option Suc (find_sub pat s))"

definition swap_db :: "string \<Rightarrow> string \<Rightarrow> string" where
  "swap_db url db =
     (let (base, query) = (case split_once CHR ''?'' url of Some (b, q) \<Rightarrow> (b, Some q) | None \<Rightarrow> (url, None));
          swapped = (case rsplit_once CHR ''/'' base of
              Some (a, _) \<Rightarrow>
                if (case find_sub ''//'' base of Some i \<Rightarrow> i + 1 | None \<Rightarrow> 0) < length a then a @ ''/'' @ db
                else base @ ''/'' @ db
            | None \<Rightarrow> base @ ''/'' @ db)
      in case query of Some q \<Rightarrow> swapped @ ''?'' @ q | None \<Rightarrow> swapped)"

definition db_name :: "int \<Rightarrow> string" where "db_name org_id = ''reproit_tenant_'' @ show_int org_id"

definition conn_for :: "string \<Rightarrow> int \<Rightarrow> string" where "conn_for base_url org_id = swap_db base_url (db_name org_id)"

fun derive_conn :: "Provider \<Rightarrow> int \<Rightarrow> string option" where
  "derive_conn (Local base) org_id = Some (conn_for base org_id)"
| "derive_conn (Single conn) org_id = Some conn"

text \<open>
  \<open>databases\<close> are the databases of the local server. \<open>io\<close> says whether the server can be reached and
  accepts the statement; the single database of a self-hosted installation is never touched.
\<close>

fun provider_provision :: "bool \<Rightarrow> Provider \<Rightarrow> int \<Rightarrow> string list \<Rightarrow> string option \<times> string list" where
  "provider_provision io (Local base) org_id dbs =
     (if \<not> io then (None, dbs)
      else (Some (conn_for base org_id), if db_name org_id \<in> set dbs then dbs else dbs @ [db_name org_id]))"
| "provider_provision io (Single conn) org_id dbs = (Some conn, dbs)"

fun provider_deprovision :: "bool \<Rightarrow> bool \<Rightarrow> Provider \<Rightarrow> int \<Rightarrow> string list \<Rightarrow> bool \<times> string list" where
  "provider_deprovision connects drops (Local base) org_id dbs =
     (if \<not> connects then (False, dbs)
      else (True, if drops then filter (\<lambda>d. d \<noteq> db_name org_id) dbs else dbs))"
| "provider_deprovision connects drops (Single conn) org_id dbs = (True, dbs)"

section \<open>The registry\<close>

datatype TenantStatus = Provisioning | Active | Suspended | Migrating

fun tenant_status_as_str :: "TenantStatus \<Rightarrow> string" where
  "tenant_status_as_str Provisioning = ''provisioning''"
| "tenant_status_as_str Active = ''active''"
| "tenant_status_as_str Suspended = ''suspended''"
| "tenant_status_as_str Migrating = ''migrating''"

definition tenant_status_parse :: "string \<Rightarrow> TenantStatus" where
  "tenant_status_parse s =
     (if s = ''active'' then Active else if s = ''suspended'' then Suspended
      else if s = ''migrating'' then Migrating else Provisioning)"

record tenant_row =
  tn_org_id :: int
  tn_status :: string
  tn_db_conn :: "string option"
  tn_blob_mode :: string
  tn_blob_scope :: string
  tn_region :: "string option"

record TenantRecord =
  tr_org :: int
  tr_tenant_status :: TenantStatus
  tr_conn :: "string option"
  tr_blob_mode :: string
  tr_blob_scope :: string
  tr_region :: "string option"

text \<open>\<open>registry_orgs\<close> are the organizations, which the registry rows refer to.\<close>

record registry =
  registry_orgs :: "int list"
  tenant_rows :: "tenant_row list"
  tenant_due_work :: "((int \<times> string) \<times> int) list"
  org_usage :: "(int \<times> string) counter"
  databases :: "string list"
  schemas_applied :: "string list"

definition row_to_tenant :: "(string \<Rightarrow> string option) \<Rightarrow> tenant_row \<Rightarrow> TenantRecord" where
  "row_to_tenant dec r = \<lparr>tr_org = tn_org_id r, tr_tenant_status = tenant_status_parse (tn_status r),
     tr_conn = Option.bind (tn_db_conn r) dec, tr_blob_mode = tn_blob_mode r, tr_blob_scope = tn_blob_scope r,
     tr_region = tn_region r\<rparr>"

definition tenant :: "(string \<Rightarrow> string option) \<Rightarrow> int \<Rightarrow> registry \<Rightarrow> TenantRecord option" where
  "tenant dec org_id reg = map_option (row_to_tenant dec) (row_of tn_org_id org_id (tenant_rows reg))"

definition begin_provisioning :: "int \<Rightarrow> registry \<Rightarrow> registry option" where
  "begin_provisioning org_id reg =
     (if org_id \<notin> set (registry_orgs reg) then None
      else Some (reg\<lparr>tenant_rows := upsert tn_org_id
        \<lparr>tn_org_id = org_id, tn_status = ''provisioning'', tn_db_conn = None, tn_blob_mode = ''prefix'',
         tn_blob_scope = [], tn_region = None\<rparr> id (tenant_rows reg)\<rparr>))"

definition set_tenant :: "int \<Rightarrow> (tenant_row \<Rightarrow> tenant_row) \<Rightarrow> registry \<Rightarrow> registry" where
  "set_tenant org_id f reg = reg\<lparr>tenant_rows := update_where (\<lambda>r. tn_org_id r = org_id) f (tenant_rows reg)\<rparr>"

definition set_tenant_conn :: "int \<Rightarrow> string \<Rightarrow> registry \<Rightarrow> registry" where
  "set_tenant_conn org_id stored = set_tenant org_id (\<lambda>r. r\<lparr>tn_db_conn := Some stored\<rparr>)"

definition set_tenant_blob :: "int \<Rightarrow> string \<Rightarrow> string \<Rightarrow> registry \<Rightarrow> registry" where
  "set_tenant_blob org_id mode scope = set_tenant org_id (\<lambda>r. r\<lparr>tn_blob_mode := mode, tn_blob_scope := scope\<rparr>)"

definition set_tenant_status :: "int \<Rightarrow> TenantStatus \<Rightarrow> registry \<Rightarrow> registry" where
  "set_tenant_status org_id status = set_tenant org_id (\<lambda>r. r\<lparr>tn_status := tenant_status_as_str status\<rparr>)"

definition all_tenants :: "(string \<Rightarrow> string option) \<Rightarrow> registry \<Rightarrow> TenantRecord list" where
  "all_tenants dec reg =
     map (row_to_tenant dec) (sort_key tn_org_id (filter (\<lambda>r. tn_db_conn r \<noteq> None) (tenant_rows reg)))"

definition provisioning_tenants :: "registry \<Rightarrow> int list" where
  "provisioning_tenants reg = map tn_org_id (filter (\<lambda>r. tn_status r = ''provisioning'') (tenant_rows reg))"

definition delete_tenant_org :: "int \<Rightarrow> registry \<Rightarrow> registry" where
  "delete_tenant_org org_id reg = reg\<lparr>registry_orgs := filter (\<lambda>i. i \<noteq> org_id) (registry_orgs reg),
     tenant_rows := delete_where (\<lambda>r. tn_org_id r = org_id) (tenant_rows reg),
     tenant_due_work := delete_where (\<lambda>w. fst (fst w) = org_id) (tenant_due_work reg),
     org_usage := delete_where (\<lambda>u. fst (fst u) = org_id) (org_usage reg)\<rparr>"

text \<open>Scheduled maintenance: the earlier of two due times wins.\<close>

definition schedule_tenant_work :: "int \<Rightarrow> int \<Rightarrow> string \<Rightarrow> int \<Rightarrow> registry \<Rightarrow> registry option" where
  "schedule_tenant_work now org_id work_kind delay_secs reg =
     (let due = now + max 0 delay_secs * 1000000
      in if org_id \<notin> set (registry_orgs reg) then None
         else Some (reg\<lparr>tenant_due_work := upsert fst ((org_id, work_kind), due) (\<lambda>(k, d). (k, min d due)) (tenant_due_work reg)\<rparr>))"

definition tenants_due_for :: "int \<Rightarrow> string \<Rightarrow> int \<Rightarrow> registry \<Rightarrow> int list" where
  "tenants_due_for now work_kind limit reg =
     map (\<lambda>((i, _), _). i) (take (nat (min 256 (max 1 limit))) (sort_key (\<lambda>((i, _), d). (d, i))
       (filter (\<lambda>((_, k), d). k = work_kind \<and> d \<le> now) (tenant_due_work reg))))"

definition reschedule_tenant_work :: "int \<Rightarrow> int \<Rightarrow> string \<Rightarrow> int \<Rightarrow> registry \<Rightarrow> registry" where
  "reschedule_tenant_work now org_id work_kind delay_secs reg =
     reg\<lparr>tenant_due_work := update_where (\<lambda>w. fst w = (org_id, work_kind))
       (\<lambda>(k, _). (k, now + max 1 delay_secs * 1000000)) (tenant_due_work reg)\<rparr>"

text \<open>\<open>period\<close> is the month of the clock, \<open>YYYY-MM\<close>.\<close>

definition add_occurrences :: "string \<Rightarrow> int \<Rightarrow> int \<Rightarrow> registry \<Rightarrow> registry option" where
  "add_occurrences period org_id n reg =
     (if n \<le> 0 then Some reg
      else if org_id \<notin> set (registry_orgs reg) then None
      else Some (reg\<lparr>org_usage := bump (org_id, period) n (org_usage reg)\<rparr>))"

definition occurrences_this_month :: "string \<Rightarrow> int \<Rightarrow> registry \<Rightarrow> int" where
  "occurrences_this_month period org_id reg =
     (case map_of (org_usage reg) (org_id, period) of Some n \<Rightarrow> n | None \<Rightarrow> 0)"

section \<open>Provisioning\<close>

text \<open>
  A provisioning attempt: which of its steps fail (a process that dies at a step fails there), and the
  nonce of its encryption. A failed step ends the attempt; what the earlier steps wrote stays.
\<close>

datatype prov_step = Intent | Database | StoreConn | ApplySchema | BlobScope | Register

record attempt =
  at_fails :: "prov_step \<Rightarrow> bool"
  at_nonce :: string

definition provision :: "(string \<Rightarrow> string \<Rightarrow> string option) \<Rightarrow> Provider \<Rightarrow> int \<Rightarrow> attempt \<Rightarrow> registry
    \<Rightarrow> TenantRecord option \<times> registry" where
  "provision enc prov org_id a reg =
     (if at_fails a Intent then (None, reg) else
      case begin_provisioning org_id reg of None \<Rightarrow> (None, reg) | Some reg1 \<Rightarrow>
      case provider_provision (\<not> at_fails a Database) prov org_id (databases reg1) of (c, dbs) \<Rightarrow>
      let reg2 = reg1\<lparr>databases := dbs\<rparr> in
      case c of None \<Rightarrow> (None, reg2) | Some conn \<Rightarrow>
      case enc (at_nonce a) conn of None \<Rightarrow> (None, reg2) | Some stored \<Rightarrow>
      if at_fails a StoreConn then (None, reg2) else
      let reg3 = set_tenant_conn org_id stored reg2 in
      if at_fails a ApplySchema then (None, reg3) else
      let reg4 = reg3\<lparr>schemas_applied := List.insert conn (schemas_applied reg3)\<rparr> in
      if at_fails a BlobScope then (None, reg4) else
      let reg5 = set_tenant_blob org_id ''prefix'' (blob_scope org_id) reg4 in
      if at_fails a Register then (None, reg5) else
      (Some \<lparr>tr_org = org_id, tr_tenant_status = Active, tr_conn = Some conn, tr_blob_mode = ''prefix'',
             tr_blob_scope = blob_scope org_id, tr_region = None\<rparr>,
       set_tenant_status org_id Active reg5))"

text \<open>One attempt per tenant that is still provisioning; a failure does not stop the others.\<close>

definition reconcile :: "(string \<Rightarrow> string \<Rightarrow> string option) \<Rightarrow> Provider \<Rightarrow> (int \<Rightarrow> attempt) \<Rightarrow> registry \<Rightarrow> registry" where
  "reconcile enc prov attempts reg =
     fold (\<lambda>org_id r. snd (provision enc prov org_id (attempts org_id) r)) (provisioning_tenants reg) reg"

section \<open>Secrets are readable\<close>

lemma strip_prefix_append [simp]: "strip_prefix (p @ s) p = Some s"
  by (simp add: strip_prefix_def starts_with_def)

lemma strip_prefix_None: "\<not> starts_with s p \<Longrightarrow> strip_prefix s p = None"
  by (simp add: strip_prefix_def starts_with_def)

text \<open>A stored connection string is read back: with a valid key the text decrypts to itself, whatever
  the nonce; without one it is stored in plain and returned as it is, unless it looks encrypted; and
  plain text stored before a key was configured stays readable under every key.
\<close>
theorem secrets_roundtrip:
  assumes "\<And>b. sl_hex_decode lib (sl_hex_encode lib b) = Some b"
    and "\<And>key n pt ct. sl_seal lib key n pt = Some ct \<Longrightarrow> sl_open lib key n ct = Some pt"
    and "length nonce = 12" "utf8_valid (map byte plaintext)"
    and "encrypt_conn lib env nonce plaintext = Some stored"
    and "conn_enc_key lib env = None \<Longrightarrow> \<not> starts_with plaintext CONN_ENC_PREFIX"
  shows "decrypt_conn lib env stored = Some plaintext
    \<and> (\<not> starts_with plaintext CONN_ENC_PREFIX \<longrightarrow> decrypt_conn lib env' plaintext = Some plaintext)"
proof (cases "conn_enc_key lib env")
  case None
  then show ?thesis using assms(5,6) by (simp add: encrypt_conn_def decrypt_conn_def strip_prefix_None)
next
  case (Some key)
  then obtain ct where "sl_seal lib key nonce plaintext = Some ct" "stored = CONN_ENC_PREFIX @ sl_hex_encode lib (nonce @ ct)"
    using assms(5) by (auto simp: encrypt_conn_def)
  then show ?thesis using assms(1-4) Some by (simp add: decrypt_conn_def strip_prefix_None)
qed

section \<open>One database per tenant\<close>

lemma swap_db_inj: "swap_db url d = swap_db url e \<Longrightarrow> d = e"
  by (auto simp: swap_db_def Let_def split: option.splits prod.splits if_splits)

text \<open>The local provider gives different organizations different databases and connection strings.\<close>
theorem tenant_connections_distinct:
  "derive_conn (Local base) i = derive_conn (Local base) j \<longleftrightarrow> i = j"
  using swap_db_inj [of base "db_name i" "db_name j"] show_int_inj [of i j] by (auto simp: conn_for_def db_name_def)

section \<open>Provisioning is restartable\<close>

lemma provider_provision_conn: "fst (provider_provision True prov i dbs) = derive_conn prov i"
  by (cases prov) simp_all

lemma provider_provision_dbs: "distinct dbs \<Longrightarrow> distinct (snd (provider_provision io prov i dbs))"
  by (cases prov) auto

lemma row_of_set_tenant:
  assumes "\<And>r. tn_org_id (f r) = tn_org_id r"
  shows "row_of tn_org_id j (tenant_rows (set_tenant i f reg))
    = (if j = i then map_option f (row_of tn_org_id j (tenant_rows reg)) else row_of tn_org_id j (tenant_rows reg))"
  by (simp add: set_tenant_def row_of_update_where assms)

lemma row_of_begin:
  assumes "begin_provisioning i reg = Some reg'"
  shows "row_of tn_org_id j (tenant_rows reg') = (if j = i then Some (case row_of tn_org_id i (tenant_rows reg) of Some s \<Rightarrow> s
      | None \<Rightarrow> \<lparr>tn_org_id = i, tn_status = ''provisioning'', tn_db_conn = None, tn_blob_mode = ''prefix'',
         tn_blob_scope = [], tn_region = None\<rparr>) else row_of tn_org_id j (tenant_rows reg))"
    "databases reg' = databases reg" "registry_orgs reg' = registry_orgs reg" "schemas_applied reg' = schemas_applied reg"
  using assms by (auto simp: begin_provisioning_def row_of_upsert split: if_splits option.splits)

lemmas row_of_set_tenants = row_of_set_tenant [of "\<lambda>r. r\<lparr>tn_db_conn := Some c\<rparr>" for c]
  row_of_set_tenant [of "\<lambda>r. r\<lparr>tn_blob_mode := m, tn_blob_scope := sc\<rparr>" for m sc]
  row_of_set_tenant [of "\<lambda>r. r\<lparr>tn_status := st\<rparr>" for st]

lemmas set_tenant_defs = set_tenant_conn_def set_tenant_blob_def set_tenant_status_def

lemma set_tenant_frame [simp]:
  "databases (set_tenant i f reg) = databases reg" "registry_orgs (set_tenant i f reg) = registry_orgs reg"
  "schemas_applied (set_tenant i f reg) = schemas_applied reg"
  by (simp_all add: set_tenant_def)

lemma provision_other:
  assumes "j \<noteq> i"
  shows "row_of tn_org_id j (tenant_rows (snd (provision enc prov i a reg))) = row_of tn_org_id j (tenant_rows reg)"
  using assms by (auto simp: provision_def Let_def set_tenant_defs row_of_set_tenants row_of_begin split: option.splits prod.splits)

lemma provision_frame:
  "registry_orgs (snd (provision enc prov i a reg)) = registry_orgs reg"
  "distinct (databases reg) \<Longrightarrow> distinct (databases (snd (provision enc prov i a reg)))"
  using provider_provision_dbs [of "databases reg" "\<not> at_fails a Database" prov i]
  by (auto simp: provision_def Let_def set_tenant_defs row_of_begin split: option.splits prod.splits)

lemma provision_row_status:
  assumes "fst (provision enc prov i a reg) = None"
  shows "map_option tn_status (row_of tn_org_id i (tenant_rows (snd (provision enc prov i a reg))))
    \<in> {map_option tn_status (row_of tn_org_id i (tenant_rows reg)), Some ''provisioning''}"
proof -
  have keep: "map_option tn_status (row_of tn_org_id i (tenant_rows reg1))
      \<in> {map_option tn_status (row_of tn_org_id i (tenant_rows reg)), Some ''provisioning''}" if "begin_provisioning i reg = Some reg1" for reg1
    using row_of_begin(1) [OF that, of i] by (auto split: option.splits)
  show ?thesis using assms keep
    by (auto simp: provision_def Let_def set_tenant_defs row_of_set_tenants option.map_comp comp_def
        split: option.splits prod.splits if_splits)
qed

lemma provision_status:
  assumes "fst (provision enc prov i a reg) = None"
    and "tenant dec i (snd (provision enc prov i a reg)) = Some r" "tr_tenant_status r = Active"
  shows "\<exists>r0. tenant dec i reg = Some r0 \<and> tr_tenant_status r0 = Active"
proof -
  obtain x where x: "row_of tn_org_id i (tenant_rows (snd (provision enc prov i a reg))) = Some x" "r = row_to_tenant dec x"
    using assms(2) by (auto simp: tenant_def)
  then have "tn_status x = ''active''" using assms(3) by (simp add: row_to_tenant_def tenant_status_parse_def split: if_splits)
  then obtain y where "row_of tn_org_id i (tenant_rows reg) = Some y" "tn_status y = ''active''"
    using provision_row_status [OF assms(1)] x(1) by (cases "row_of tn_org_id i (tenant_rows reg)") simp_all
  then show ?thesis by (simp add: tenant_def row_to_tenant_def tenant_status_parse_def)
qed

lemma provision_succeeds:
  assumes "i \<in> set (registry_orgs reg)" "\<And>st. \<not> at_fails a st" "derive_conn prov i = Some conn"
    and "enc (at_nonce a) conn = Some stored"
  obtains r where "fst (provision enc prov i a reg) = Some \<lparr>tr_org = i, tr_tenant_status = Active, tr_conn = Some conn,
      tr_blob_mode = ''prefix'', tr_blob_scope = blob_scope i, tr_region = None\<rparr>"
    "row_of tn_org_id i (tenant_rows (snd (provision enc prov i a reg))) = Some r" "tn_org_id r = i" "tn_status r = ''active''"
    "tn_db_conn r = Some stored" "tn_blob_mode r = ''prefix''" "tn_blob_scope r = blob_scope i"
    "conn \<in> set (schemas_applied (snd (provision enc prov i a reg)))"
proof -
  obtain reg1 where b: "begin_provisioning i reg = Some reg1" using assms(1) by (simp add: begin_provisioning_def)
  obtain dbs where d: "provider_provision True prov i (databases reg1) = (Some conn, dbs)"
    using provider_provision_conn [of prov i "databases reg1"] assms(3) by (metis prod.collapse)
  obtain r0 where r0: "row_of tn_org_id i (tenant_rows reg1) = Some r0" "tn_org_id r0 = i"
    using row_of_begin(1) [OF b, of i] by (auto simp: row_of_def dest: find_in split: option.splits)
  show ?thesis
    using assms(2,4) b d r0 that [of "r0\<lparr>tn_db_conn := Some stored, tn_blob_mode := ''prefix'', tn_blob_scope := blob_scope i,
        tn_status := ''active''\<rparr>"]
    by (simp add: provision_def set_tenant_defs row_of_set_tenants)
qed

text \<open>C38. Provisioning survives crashes at any point. After any number of attempts that died at any steps,
  one attempt without failures leaves the tenant active with its connection string, its schema and its
  blob scope, with no second database, and without touching other tenants; a failed attempt never makes
  a tenant active.
\<close>
theorem provisioning_restartable:
  assumes "i \<in> set (registry_orgs reg)" "distinct (databases reg)"
    and "\<forall>st. \<not> at_fails a st" "derive_conn prov i = Some conn" "enc (at_nonce a) conn = Some stored" "dec stored = Some conn"
    and "reg' = snd (provision enc prov i a (fold (\<lambda>b r. snd (provision enc prov i b r)) earlier reg))"
  shows "(\<exists>r. tenant dec i reg' = Some r \<and> tr_tenant_status r = Active \<and> tr_conn r = Some conn \<and> tr_blob_scope r = blob_scope i)
    \<and> conn \<in> set (schemas_applied reg') \<and> distinct (databases reg')
    \<and> (\<forall>j. j \<noteq> i \<longrightarrow> tenant dec j reg' = tenant dec j reg)
    \<and> (\<forall>b r. fst (provision enc prov i b reg) = None \<and> tenant dec i (snd (provision enc prov i b reg)) = Some r
          \<and> tr_tenant_status r = Active \<longrightarrow> (\<exists>r0. tenant dec i reg = Some r0 \<and> tr_tenant_status r0 = Active))"
proof -
  let ?mid = "fold (\<lambda>b r. snd (provision enc prov i b r)) earlier reg"
  have mid: "registry_orgs ?mid = registry_orgs reg \<and> distinct (databases ?mid)
      \<and> (\<forall>j. j \<noteq> i \<longrightarrow> row_of tn_org_id j (tenant_rows ?mid) = row_of tn_org_id j (tenant_rows reg))"
    using assms(2)
  proof (induction earlier arbitrary: reg)
    case (Cons b bs)
    from Cons.IH [OF provision_frame(2) [OF Cons.prems, of enc prov i b]] show ?case
      by (simp add: provision_frame provision_other)
  qed simp
  then have "i \<in> set (registry_orgs ?mid)" using assms(1) by simp
  then obtain r where "row_of tn_org_id i (tenant_rows reg') = Some r" "tn_status r = ''active''" "tn_db_conn r = Some stored"
    "tn_blob_scope r = blob_scope i" "conn \<in> set (schemas_applied reg')"
    using assms(3-5,7) by (elim provision_succeeds [where a = a and prov = prov and enc = enc]) auto
  moreover have "\<forall>j. j \<noteq> i \<longrightarrow> tenant dec j reg' = tenant dec j reg"
    using mid provision_other [of _ i enc prov a ?mid] assms(7) by (simp add: tenant_def)
  moreover have "distinct (databases reg')" using assms(7) mid by (simp add: provision_frame(2))
  moreover have "\<forall>b r. fst (provision enc prov i b reg) = None \<and> tenant dec i (snd (provision enc prov i b reg)) = Some r
          \<and> tr_tenant_status r = Active \<longrightarrow> (\<exists>r0. tenant dec i reg = Some r0 \<and> tr_tenant_status r0 = Active)"
    using provision_status by blast
  moreover have "tenant dec i reg' = Some (row_to_tenant dec r)" using calculation(1) by (simp add: tenant_def)
  ultimately show ?thesis using assms(6) by (simp add: row_to_tenant_def tenant_status_parse_def)
qed

lemma provision_keys:
  assumes "distinct (map tn_org_id (tenant_rows reg))"
  shows "distinct (map tn_org_id (tenant_rows (snd (provision enc prov i a reg))))
    \<and> tn_org_id ` set (tenant_rows (snd (provision enc prov i a reg))) \<subseteq> insert i (tn_org_id ` set (tenant_rows reg))"
proof -
  have keys: "map tn_org_id (tenant_rows (set_tenant j f r)) = map tn_org_id (tenant_rows r)" if "\<And>x. tn_org_id (f x) = tn_org_id x" for j f r
    using that by (simp add: set_tenant_def map_update_where)
  have "distinct (map tn_org_id (tenant_rows reg1)) \<and> set (map tn_org_id (tenant_rows reg1)) \<subseteq> insert i (tn_org_id ` set (tenant_rows reg))"
    if "begin_provisioning i reg = Some reg1" for reg1
  proof -
    have "tenant_rows reg1 = upsert tn_org_id \<lparr>tn_org_id = i, tn_status = ''provisioning'', tn_db_conn = None,
        tn_blob_mode = ''prefix'', tn_blob_scope = [], tn_region = None\<rparr> id (tenant_rows reg)"
      using that by (auto simp: begin_provisioning_def split: if_splits)
    then show ?thesis using assms by (auto intro: distinct_upsert elim!: in_upsert)
  qed
  moreover have "map tn_org_id (tenant_rows (snd (provision enc prov i a reg))) = map tn_org_id (tenant_rows reg)
      \<or> (\<exists>reg1. begin_provisioning i reg = Some reg1
        \<and> map tn_org_id (tenant_rows (snd (provision enc prov i a reg))) = map tn_org_id (tenant_rows reg1))"
    by (cases "begin_provisioning i reg") (simp_all add: provision_def Let_def set_tenant_defs keys split: option.split prod.split)
  ultimately show ?thesis using assms by (elim disjE exE conjE) (simp_all only: set_map [symmetric], blast+)
qed

lemma reconcile_fold:
  assumes "distinct (map tn_org_id (tenant_rows reg))" "set ids \<subseteq> tn_org_id ` set (tenant_rows reg)" "set ids \<subseteq> set (registry_orgs reg)"
    and "\<And>i. i \<in> set ids \<Longrightarrow> (\<forall>st. \<not> at_fails (attempts i) st) \<and> (\<exists>conn. derive_conn prov i = Some conn \<and> enc (at_nonce (attempts i)) conn \<noteq> None)"
    and "reg' = fold (\<lambda>i r. snd (provision enc prov i (attempts i) r)) ids reg"
  shows "distinct (map tn_org_id (tenant_rows reg')) \<and> tn_org_id ` set (tenant_rows reg') \<subseteq> tn_org_id ` set (tenant_rows reg)
    \<and> (\<forall>j. j \<notin> set ids \<longrightarrow> row_of tn_org_id j (tenant_rows reg') = row_of tn_org_id j (tenant_rows reg))
    \<and> (\<forall>i \<in> set ids. \<exists>r. row_of tn_org_id i (tenant_rows reg') = Some r \<and> tn_status r = ''active'')"
  using assms
proof (induction ids arbitrary: reg)
  case (Cons i ids)
  let ?r1 = "snd (provision enc prov i (attempts i) reg)"
  obtain conn stored where c: "derive_conn prov i = Some conn" "enc (at_nonce (attempts i)) conn = Some stored"
    and ok: "\<And>st. \<not> at_fails (attempts i) st" using Cons.prems(4) [of i] by auto
  have "i \<in> set (registry_orgs reg)" using Cons.prems(3) by simp
  then obtain r where r: "row_of tn_org_id i (tenant_rows ?r1) = Some r" "tn_status r = ''active''"
    using ok c by (elim provision_succeeds [where a = "attempts i" and prov = prov and enc = enc]) auto
  have keys: "tn_org_id ` set (tenant_rows ?r1) = tn_org_id ` set (tenant_rows reg)"
  proof
    show "tn_org_id ` set (tenant_rows ?r1) \<subseteq> tn_org_id ` set (tenant_rows reg)"
      using provision_keys [OF Cons.prems(1), of enc prov i "attempts i"] Cons.prems(2) by auto
    show "tn_org_id ` set (tenant_rows reg) \<subseteq> tn_org_id ` set (tenant_rows ?r1)"
    proof
      fix j assume j: "j \<in> tn_org_id ` set (tenant_rows reg)"
      have "row_of tn_org_id j (tenant_rows ?r1) \<noteq> None"
        using r(1) provision_other [of j i enc prov "attempts i" reg] j row_of_None [of tn_org_id j "tenant_rows reg"] by (cases "j = i") auto
      then show "j \<in> tn_org_id ` set (tenant_rows ?r1)" by (simp only: row_of_None not_not)
    qed
  qed
  have ih: "distinct (map tn_org_id (tenant_rows reg')) \<and> tn_org_id ` set (tenant_rows reg') \<subseteq> tn_org_id ` set (tenant_rows ?r1)
    \<and> (\<forall>j. j \<notin> set ids \<longrightarrow> row_of tn_org_id j (tenant_rows reg') = row_of tn_org_id j (tenant_rows ?r1))
    \<and> (\<forall>i \<in> set ids. \<exists>r. row_of tn_org_id i (tenant_rows reg') = Some r \<and> tn_status r = ''active'')"
    using Cons.prems provision_keys [OF Cons.prems(1), of enc prov i "attempts i"]
    by (intro Cons.IH) (simp_all add: keys provision_frame)
  show ?case
  proof (intro conjI allI impI ballI)
    fix j assume "j \<notin> set (i # ids)"
    then show "row_of tn_org_id j (tenant_rows reg') = row_of tn_org_id j (tenant_rows reg)"
      using ih provision_other [of j i enc prov "attempts i" reg] by simp
  next
    fix j assume "j \<in> set (i # ids)"
    then show "\<exists>r. row_of tn_org_id j (tenant_rows reg') = Some r \<and> tn_status r = ''active''"
      using ih r by (cases "j \<in> set ids") auto
  qed (use ih keys in auto)
qed simp

text \<open>The start-up reconciler finishes every half-provisioned tenant: when no step fails any more, no
  tenant is left provisioning, each of them is active, and all others are as they were.
\<close>
theorem reconcile_finishes:
  assumes "distinct (map tn_org_id (tenant_rows reg))" "set (provisioning_tenants reg) \<subseteq> set (registry_orgs reg)"
    and "\<And>i. i \<in> set (provisioning_tenants reg) \<Longrightarrow> (\<forall>st. \<not> at_fails (attempts i) st)
      \<and> (\<exists>conn. derive_conn prov i = Some conn \<and> enc (at_nonce (attempts i)) conn \<noteq> None)"
  shows "provisioning_tenants (reconcile enc prov attempts reg) = []
    \<and> (\<forall>i \<in> set (provisioning_tenants reg). \<exists>r. row_of tn_org_id i (tenant_rows (reconcile enc prov attempts reg)) = Some r \<and> tn_status r = ''active'')
    \<and> (\<forall>j. j \<notin> set (provisioning_tenants reg)
        \<longrightarrow> row_of tn_org_id j (tenant_rows (reconcile enc prov attempts reg)) = row_of tn_org_id j (tenant_rows reg))"
proof -
  let ?reg = "reconcile enc prov attempts reg"
  have "set (provisioning_tenants reg) \<subseteq> tn_org_id ` set (tenant_rows reg)" by (auto simp: provisioning_tenants_def)
  note done_all = reconcile_fold [OF assms(1) this assms(2,3) refl, folded reconcile_def]
  have "tn_status r \<noteq> ''provisioning''" if r: "r \<in> set (tenant_rows ?reg)" for r
  proof (cases "tn_org_id r \<in> set (provisioning_tenants reg)")
    case True
    then show ?thesis using done_all row_of_in [OF _ r] by fastforce
  next
    case False
    then have "row_of tn_org_id (tn_org_id r) (tenant_rows reg) = Some r"
      using done_all row_of_in [of tn_org_id "tenant_rows ?reg" r] r by simp
    then have "r \<in> set (tenant_rows reg)" by (auto simp: row_of_def dest: find_in)
    then show ?thesis using False by (auto simp: provisioning_tenants_def)
  qed
  then have "provisioning_tenants ?reg = []" by (simp add: provisioning_tenants_def filter_empty_conv)
  with done_all show ?thesis by blast
qed

section \<open>Sample instances\<close>

definition sample_lib :: secret_lib where
  "sample_lib = \<lparr>sl_hex_encode = (\<lambda>b. b), sl_hex_decode = Some, sl_seal = (\<lambda>k n p. Some (rev p)), sl_open = (\<lambda>k n c. Some (rev c))\<rparr>"

definition sample_key :: string where "sample_key = replicate 32 (CHR ''k'')"

definition half_provisioned :: registry where
  "half_provisioned = \<lparr>registry_orgs = [7, 8], tenant_rows = [\<lparr>tn_org_id = 7, tn_status = ''provisioning'', tn_db_conn = None,
     tn_blob_mode = ''prefix'', tn_blob_scope = [], tn_region = None\<rparr>], tenant_due_work = [], org_usage = [],
     databases = [], schemas_applied = []\<rparr>"

definition good_attempt :: attempt where "good_attempt = \<lparr>at_fails = (\<lambda>_. False), at_nonce = []\<rparr>"
definition bad_attempt :: attempt where "bad_attempt = \<lparr>at_fails = (\<lambda>st. st = ApplySchema), at_nonce = []\<rparr>"

theorem secrets_roundtrip_witness:
  "\<exists>stored. encrypt_conn sample_lib (Some sample_key) (replicate 12 (CHR ''n'')) ''postgres://h/d'' = Some stored
    \<and> stored \<noteq> ''postgres://h/d'' \<and> decrypt_conn sample_lib (Some sample_key) stored = Some ''postgres://h/d''"
proof -
  have e: "encrypt_conn sample_lib (Some sample_key) (replicate 12 (CHR ''n'')) ''postgres://h/d'' = Some (''enc:v1:nnnnnnnnnnnnd/h//:sergtsop'')"
    by code_simp
  have "decrypt_conn sample_lib (Some sample_key) ''enc:v1:nnnnnnnnnnnnd/h//:sergtsop'' = Some ''postgres://h/d''"
    using secrets_roundtrip [of sample_lib "replicate 12 (CHR ''n'')" "''postgres://h/d''" "Some sample_key", OF _ _ _ _ e]
    by (simp add: sample_lib_def byte_def starts_with_def CONN_ENC_PREFIX_def)
  with e show ?thesis by simp
qed

theorem provisioning_restartable_witness:
  "\<exists>r. tenant Some 7 (snd (provision (\<lambda>_. Some) (Local ''postgres://h/b'') 7 good_attempt
      (snd (provision (\<lambda>_. Some) (Local ''postgres://h/b'') 7 bad_attempt half_provisioned)))) = Some r \<and> tr_tenant_status r = Active"
  using provisioning_restartable [of 7 half_provisioned good_attempt "Local ''postgres://h/b''" "conn_for ''postgres://h/b'' 7"
      "\<lambda>_. Some" "conn_for ''postgres://h/b'' 7" Some _ "[bad_attempt]", OF _ _ _ _ _ _ refl]
  by (simp add: half_provisioned_def [THEN arg_cong, of registry_orgs] half_provisioned_def [THEN arg_cong, of databases] good_attempt_def [THEN arg_cong, of at_fails]) blast

theorem reconcile_finishes_witness:
  "provisioning_tenants (reconcile (\<lambda>_. Some) (Local ''postgres://h/b'') (\<lambda>_. good_attempt) half_provisioned) = []"
  using reconcile_finishes [of half_provisioned "\<lambda>_. good_attempt" "Local ''postgres://h/b''" "\<lambda>_. Some"]
  by (simp add: half_provisioned_def good_attempt_def provisioning_tenants_def)

end
