(* ===== verification/Eviction.thy ===== *)
theory Eviction
  imports Table
begin

text \<open>
  The bound both caches of the service keep (the mapping cache of \<open>src/tenancy/resolver.rs\<close> and the
  credential cache of \<open>src/tenancy/blob/r2.rs\<close>): before a new key goes into a full map, the stale entries are
  dropped and, if it is still full, the entry of the least age value.
\<close>

definition evict_room :: "nat \<Rightarrow> ('v \<Rightarrow> bool) \<Rightarrow> ('v \<Rightarrow> int) \<Rightarrow> 'k \<Rightarrow> ('k \<times> 'v) list \<Rightarrow> ('k \<times> 'v) list" where
  "evict_room limit fresh age k c =
     (if limit \<le> length c \<and> map_of c k = None then
        (let c1 = filter (\<lambda>e. fresh (snd e)) c
         in if limit \<le> length c1 then
              (case select_first (\<lambda>e. age (snd e)) (\<lambda>_. True) c1 of
                 Some (oldest, _) \<Rightarrow> delete_where (\<lambda>e. fst e = oldest) c1
               | None \<Rightarrow> c1)
            else c1)
      else c)"

definition cache_within :: "nat \<Rightarrow> ('k \<times> 'v) list \<Rightarrow> bool" where
  "cache_within limit c \<longleftrightarrow> distinct (map fst c) \<and> length c \<le> limit"

lemma evict_room_spec:
  assumes "cache_within limit c" "0 < limit"
  shows "distinct (map fst (evict_room limit fresh age k c)) \<and> set (evict_room limit fresh age k c) \<subseteq> set c
    \<and> (if map_of c k = None then length (evict_room limit fresh age k c) < limit else evict_room limit fresh age k c = c)"
proof (cases "limit \<le> length c \<and> map_of c k = None")
  case True
  let ?c1 = "filter (\<lambda>e. fresh (snd e)) c"
  have d1: "distinct (map fst ?c1)" using assms(1) by (simp add: cache_within_def distinct_map_filter)
  have le: "length ?c1 \<le> limit" using assms(1) length_filter_le order_trans by (metis cache_within_def)
  show ?thesis
  proof (cases "limit \<le> length ?c1")
    case full: True
    then obtain o1 b where kb: "select_first (\<lambda>e. age (snd e)) (\<lambda>_. True) ?c1 = Some (o1, b)"
      using assms(2) select_first_None [of "\<lambda>e. age (snd e)" "\<lambda>_. True" ?c1]
      by (metis hd_in_set length_0_conv less_le_not_le option.exhaust surj_pair)
    then have "(o1, b) \<in> set ?c1" using select_first_Some [OF kb] by blast
    then have "length (delete_where (\<lambda>e. fst e = o1) ?c1) < length ?c1"
      unfolding delete_where_def by (intro length_filter_less [of "(o1, b)"]) auto
    moreover have "evict_room limit fresh age k c = delete_where (\<lambda>e. fst e = o1) ?c1"
      using True full kb by (simp add: evict_room_def)
    ultimately show ?thesis using True le assms(1) by (auto simp: cache_within_def delete_where_def distinct_map_filter)
  next
    case False
    then have "evict_room limit fresh age k c = ?c1" using True by (simp add: evict_room_def)
    with True False d1 show ?thesis by auto
  qed
qed (use assms in \<open>auto simp: evict_room_def cache_within_def\<close>)

lemma set_evict_insert: "set (upsert fst (k, v) (\<lambda>(i, _). (i, v)) c) \<subseteq> insert (k, v) (set c)"
  by (fastforce simp: upsert_def update_where_def split: if_splits)

lemma evict_insert_within:
  assumes "cache_within limit c" "0 < limit"
  shows "cache_within limit (upsert fst (k, v) (\<lambda>(i, _). (i, v)) (evict_room limit fresh age k c))"
proof -
  let ?r = "evict_room limit fresh age k c"
  have spec: "distinct (map fst ?r)" "if map_of c k = None then length ?r < limit else ?r = c"
    using evict_room_spec [OF assms, of fresh age k] by auto
  have "length (upsert fst (k, v) (\<lambda>(i, _). (i, v)) ?r) \<le> limit"
    using spec(2) assms by (cases "map_of c k") (force simp: upsert_def cache_within_def map_of_eq_None_iff dest: map_of_SomeD)+
  moreover have "distinct (map fst (upsert fst (k, v) (\<lambda>(i, _). (i, v)) ?r))"
    using spec(1) by (intro distinct_upsert) auto
  ultimately show ?thesis by (simp add: cache_within_def)
qed

end
