(* ===== verification/Resolver.thy ===== *)
theory Resolver
  imports Tenancy Eviction
begin

text \<open>
  The caches in front of a tenant database: the bounded pool cache (\<open>src/tenancy/pool.rs\<close>) and the
  resolver with its mapping cache (\<open>src/tenancy/resolver.rs\<close>). The iteration order of a \<open>HashMap\<close> is the
  order of the list. Proved: both caches stay within their bounds and evict the oldest entries, a
  suspended tenant is refused once the cached mapping has expired, and a pool that is in use keeps its
  connection string past that expiry.
\<close>

section \<open>The pool cache\<close>

record pool_entry =
  pe_conn :: string
  pe_last_used :: int

record TenantPools =
  tp_inner :: "(int \<times> pool_entry) list"
  tp_cap :: nat
  tp_idle_ttl :: int

definition pools_new :: "string option \<Rightarrow> string option \<Rightarrow> TenantPools" where
  "pools_new cap_env idle_env =
     \<lparr>tp_inner = [],
      tp_cap = max 1 (case Option.bind cap_env (parse_unsigned 64) of Some n \<Rightarrow> n | None \<Rightarrow> 256),
      tp_idle_ttl = (case Option.bind idle_env (parse_unsigned 64) of Some n \<Rightarrow> int n | None \<Rightarrow> 300) * 1000000\<rparr>"

definition victim :: "(int \<times> pool_entry) list \<Rightarrow> int option" where
  "victim m = map_option fst (select_first (\<lambda>e. pe_last_used (snd e)) (\<lambda>_. True) m)"

lemma victim_in: "victim m = Some k \<Longrightarrow> k \<in> fst ` set m"
  by (force simp: victim_def dest!: select_first_Some)

function evict_locked :: "nat \<Rightarrow> (int \<times> pool_entry) list \<Rightarrow> (int \<times> pool_entry) list" where
  "evict_locked cap m =
     (if cap < length m then
        (case victim m of None \<Rightarrow> m | Some k \<Rightarrow> evict_locked cap (delete_where (\<lambda>e. fst e = k) m))
      else m)"
  by pat_completeness auto
termination
  by (relation "measure (\<lambda>(_, m). length m)")
    (auto simp: delete_where_def dest!: victim_in intro!: length_filter_less)

declare evict_locked.simps [simp del]

definition touch_pool :: "int \<Rightarrow> int \<Rightarrow> (int \<times> pool_entry) list \<Rightarrow> (int \<times> pool_entry) list" where
  "touch_pool now org_id m = update_where (\<lambda>e. fst e = org_id) (\<lambda>(i, e). (i, e\<lparr>pe_last_used := now\<rparr>)) m"

text \<open>The second half of \<open>get\<close>, after the connection was opened outside the lock.\<close>

definition pool_insert :: "int \<Rightarrow> int \<Rightarrow> string \<Rightarrow> TenantPools \<Rightarrow> string \<times> TenantPools" where
  "pool_insert now org_id conn tp =
     (case map_of (tp_inner tp) org_id of
        Some e \<Rightarrow> (pe_conn e, tp\<lparr>tp_inner := touch_pool now org_id (tp_inner tp)\<rparr>)
      | None \<Rightarrow> (conn, tp\<lparr>tp_inner := evict_locked (tp_cap tp)
          (tp_inner tp @ [(org_id, \<lparr>pe_conn = conn, pe_last_used = now\<rparr>)])\<rparr>))"

definition pool_get :: "int \<Rightarrow> bool \<Rightarrow> int \<Rightarrow> string \<Rightarrow> TenantPools \<Rightarrow> string option \<times> TenantPools" where
  "pool_get now connects org_id conn tp =
     (case map_of (tp_inner tp) org_id of
        Some e \<Rightarrow> (Some (pe_conn e), tp\<lparr>tp_inner := touch_pool now org_id (tp_inner tp)\<rparr>)
      | None \<Rightarrow> if connects then apfst Some (pool_insert now org_id conn tp) else (None, tp))"

definition pool_invalidate :: "int \<Rightarrow> TenantPools \<Rightarrow> TenantPools" where
  "pool_invalidate org_id tp = tp\<lparr>tp_inner := delete_where (\<lambda>e. fst e = org_id) (tp_inner tp)\<rparr>"

definition sweep_idle :: "int \<Rightarrow> TenantPools \<Rightarrow> nat \<times> TenantPools" where
  "sweep_idle now tp =
     (let P = (\<lambda>e. tp_idle_ttl tp < now - pe_last_used (snd e))
      in (affected P (tp_inner tp), tp\<lparr>tp_inner := delete_where P (tp_inner tp)\<rparr>))"

section \<open>The resolver\<close>

definition MAPPING_TTL :: int where "MAPPING_TTL = 120 * 1000000"
definition MAPPING_CACHE_MAX :: nat where "MAPPING_CACHE_MAX = 8192"

record CachedMapping =
  cm_conn :: string
  cm_blob_mode :: string
  cm_blob_scope :: string
  cm_inserted_at :: int

record Tenant =
  t_org_id :: int
  t_store :: string
  t_blob_scope :: string

datatype ResolveError = NotProvisioned | NotActive TenantStatus | Internal

record Resolver =
  rv_provider :: Provider
  rv_pools :: TenantPools
  rv_cache :: "(int \<times> CachedMapping) list"
  rv_single_tenant :: "int option"

definition fresh_mapping :: "int \<Rightarrow> CachedMapping \<Rightarrow> bool" where
  "fresh_mapping now m \<longleftrightarrow> now - cm_inserted_at m < MAPPING_TTL"

text \<open>At capacity, a new entry first drops the expired ones and then, if need be, the oldest one.\<close>

definition make_room :: "nat \<Rightarrow> int \<Rightarrow> int \<Rightarrow> (int \<times> CachedMapping) list \<Rightarrow> (int \<times> CachedMapping) list" where
  "make_room limit now org_id c =
     (if limit \<le> length c \<and> map_of c org_id = None then
        (let c1 = filter (\<lambda>e. fresh_mapping now (snd e)) c
         in if limit \<le> length c1 then
              (case select_first (\<lambda>e. cm_inserted_at (snd e)) (\<lambda>_. True) c1 of
                 Some (oldest, _) \<Rightarrow> delete_where (\<lambda>e. fst e = oldest) c1
               | None \<Rightarrow> c1)
            else c1)
      else c)"

definition cache_insert :: "nat \<Rightarrow> int \<Rightarrow> int \<Rightarrow> CachedMapping \<Rightarrow> (int \<times> CachedMapping) list \<Rightarrow> (int \<times> CachedMapping) list" where
  "cache_insert limit now org_id m c = upsert fst (org_id, m) (\<lambda>(i, _). (i, m)) (make_room limit now org_id c)"

definition conn_of :: "Resolver \<Rightarrow> TenantRecord \<Rightarrow> (ResolveError, string) result" where
  "conn_of rv record =
     (case tr_conn record of
        Some c \<Rightarrow> Ok c
      | None \<Rightarrow> ok_or (derive_conn (rv_provider rv) (tr_org record)) NotProvisioned)"

text \<open>\<open>lookup\<close> is what the control plane answers for an organization; \<open>None\<close> when it cannot be read.\<close>

definition read_mapping :: "int \<Rightarrow> TenantRecord option option \<Rightarrow> int \<Rightarrow> Resolver
    \<Rightarrow> (ResolveError, CachedMapping) result \<times> Resolver" where
  "read_mapping now lookup org_id rv =
     (case lookup of
        None \<Rightarrow> (Err Internal, rv)
      | Some None \<Rightarrow> (Err NotProvisioned, rv)
      | Some (Some record) \<Rightarrow>
          if tr_tenant_status record \<noteq> Active then (Err (NotActive (tr_tenant_status record)), rv)
          else (case conn_of rv record of
                  Inl e \<Rightarrow> (Err e, rv)
                | Inr conn \<Rightarrow>
                    (let m = \<lparr>cm_conn = conn, cm_blob_mode = tr_blob_mode record, cm_blob_scope = tr_blob_scope record,
                              cm_inserted_at = now\<rparr>
                     in (Ok m, rv\<lparr>rv_cache := cache_insert MAPPING_CACHE_MAX now org_id m (rv_cache rv)\<rparr>))))"

definition mapping_for :: "int \<Rightarrow> TenantRecord option option \<Rightarrow> int \<Rightarrow> Resolver
    \<Rightarrow> (ResolveError, CachedMapping) result \<times> Resolver" where
  "mapping_for now lookup org_id rv =
     (case map_of (rv_cache rv) org_id of
        Some m \<Rightarrow> if fresh_mapping now m then (Ok m, rv) else read_mapping now lookup org_id rv
      | None \<Rightarrow> read_mapping now lookup org_id rv)"

definition with_pool :: "int \<Rightarrow> bool \<Rightarrow> int \<Rightarrow> string \<Rightarrow> string \<Rightarrow> Resolver \<Rightarrow> (ResolveError, Tenant) result \<times> Resolver" where
  "with_pool now connects org_id conn scope rv =
     (case pool_get now connects org_id conn (rv_pools rv) of
        (None, tp) \<Rightarrow> (Err Internal, rv\<lparr>rv_pools := tp\<rparr>)
      | (Some store, tp) \<Rightarrow> (Ok \<lparr>t_org_id = org_id, t_store = store, t_blob_scope = scope\<rparr>, rv\<lparr>rv_pools := tp\<rparr>))"

definition resolve_tenant :: "int \<Rightarrow> TenantRecord option option \<Rightarrow> bool \<Rightarrow> int \<Rightarrow> Resolver
    \<Rightarrow> (ResolveError, Tenant) result \<times> Resolver" where
  "resolve_tenant now lookup connects org_id rv =
     (case rv_single_tenant rv of
        Some fixed \<Rightarrow>
          (case derive_conn (rv_provider rv) fixed of
             None \<Rightarrow> (Err NotProvisioned, rv)
           | Some conn \<Rightarrow> with_pool now connects fixed conn [] rv)
      | None \<Rightarrow>
          (case mapping_for now lookup org_id rv of
             (Inl e, rv') \<Rightarrow> (Err e, rv')
           | (Inr m, rv') \<Rightarrow> with_pool now connects org_id (cm_conn m) (cm_blob_scope m) rv'))"

definition invalidate :: "int \<Rightarrow> Resolver \<Rightarrow> Resolver" where
  "invalidate org_id rv = rv\<lparr>rv_cache := delete_where (\<lambda>e. fst e = org_id) (rv_cache rv),
                             rv_pools := pool_invalidate org_id (rv_pools rv)\<rparr>"

definition resolver_new :: "Provider \<Rightarrow> TenantPools \<Rightarrow> int option \<Rightarrow> Resolver" where
  "resolver_new prov pools single = \<lparr>rv_provider = prov, rv_pools = pools, rv_cache = [], rv_single_tenant = single\<rparr>"

section \<open>Bounds\<close>

lemma victim_oldest:
  assumes "victim m = Some k" "distinct (map fst m)"
  obtains b where "(k, b) \<in> set m" "\<And>e. e \<in> set m \<Longrightarrow> pe_last_used b \<le> pe_last_used (snd e)"
    "Suc (length (delete_where (\<lambda>e. fst e = k) m)) = length m" "set (delete_where (\<lambda>e. fst e = k) m) = set m - {(k, b)}"
proof -
  obtain b where b: "select_first (\<lambda>e. pe_last_used (snd e)) (\<lambda>_. True) m = Some (k, b)"
    using assms(1) by (auto simp: victim_def)
  note first = select_first_Some [OF this]
  have "affected (\<lambda>e. fst e = k \<and> True) m = 1" using affected_key_1 [OF assms(2), of k "\<lambda>_. True"] first by force
  moreover have "affected (\<lambda>e. fst e = k) m + length (delete_where (\<lambda>e. fst e = k) m) = length m"
    unfolding affected_def delete_where_def by (rule sum_length_filter_compl)
  moreover have "set (delete_where (\<lambda>e. fst e = k) m) = set m - {(k, b)}"
    using first assms(2) by (auto simp: delete_where_def dest: eq_key_imp_eq_value)
  ultimately show ?thesis using that [of b] first by simp
qed

lemma evict_locked_spec:
  assumes "distinct (map fst m)"
  shows "length (evict_locked cap m) = min cap (length m) \<and> set (evict_locked cap m) \<subseteq> set m
    \<and> distinct (map fst (evict_locked cap m))
    \<and> (\<forall>e \<in> set (evict_locked cap m). \<forall>d \<in> set m - set (evict_locked cap m). pe_last_used (snd d) \<le> pe_last_used (snd e))"
  using assms
proof (induction cap m rule: evict_locked.induct)
  case (1 cap m)
  show ?case
  proof (cases "cap < length m")
    case True
    then have "victim m \<noteq> None" by (cases m) (auto simp: victim_def select_first_None simp del: split_paired_All)
    then obtain k where k: "victim m = Some k" by blast
    from victim_oldest [OF k 1(2)] obtain b where b: "(k, b) \<in> set m" "\<And>e. e \<in> set m \<Longrightarrow> pe_last_used b \<le> pe_last_used (snd e)"
      and len: "Suc (length (delete_where (\<lambda>e. fst e = k) m)) = length m"
      and rest: "set (delete_where (\<lambda>e. fst e = k) m) = set m - {(k, b)}" by blast
    let ?m = "delete_where (\<lambda>e. fst e = k) m"
    have ev: "evict_locked cap m = evict_locked cap ?m" using True k by (simp add: evict_locked.simps [of cap m])
    note ih = 1(1) [OF True k distinct_delete_where [OF 1(2)]]
    have "pe_last_used (snd d) \<le> pe_last_used (snd e)"
      if "e \<in> set (evict_locked cap ?m)" "d \<in> set m - set (evict_locked cap ?m)" for e d
    proof (cases "d = (k, b)")
      case True
      moreover have "e \<in> set m" using that(1) ih rest by blast
      ultimately show ?thesis using b(2) by simp
    next
      case False
      then have "d \<in> set ?m - set (evict_locked cap ?m)" using that(2) rest by blast
      with that(1) ih show ?thesis by blast
    qed
    then show ?thesis unfolding ev using ih len True rest by auto
  qed (use 1(2) in \<open>simp add: evict_locked.simps [of cap m]\<close>)
qed

definition pools_ok :: "TenantPools \<Rightarrow> bool" where
  "pools_ok tp \<longleftrightarrow> distinct (map fst (tp_inner tp)) \<and> length (tp_inner tp) \<le> tp_cap tp"

lemma map_fst_touch [simp]: "map fst (touch_pool now i m) = map fst m"
  by (auto simp: touch_pool_def update_where_def)

lemma length_touch [simp]: "length (touch_pool now i m) = length m"
  by (simp add: touch_pool_def)

lemma pool_insert_ok: "pools_ok tp \<Longrightarrow> pools_ok (snd (pool_insert now i conn tp))"
  using evict_locked_spec [of "tp_inner tp @ [(i, \<lparr>pe_conn = conn, pe_last_used = now\<rparr>)]" "tp_cap tp"]
    map_of_eq_None_iff [of "tp_inner tp" i]
  by (cases "map_of (tp_inner tp) i") (simp_all add: pools_ok_def pool_insert_def)

lemma pool_ops_ok:
  assumes "pools_ok tp"
  shows "pools_ok (snd (pool_get now connects i conn tp))" "pools_ok (pool_invalidate i tp)" "pools_ok (snd (sweep_idle now tp))"
  using assms pool_insert_ok [OF assms, of now i conn]
  by (auto simp: pools_ok_def pool_get_def pool_invalidate_def sweep_idle_def Let_def delete_where_def distinct_map_filter
      apfst_def map_prod_def split: option.splits prod.splits intro: le_trans [OF length_filter_le])

lemma pool_get_cap:
  "tp_cap (snd (pool_get now connects i conn tp)) = tp_cap tp" "tp_idle_ttl (snd (pool_get now connects i conn tp)) = tp_idle_ttl tp"
  by (auto simp: pool_get_def pool_insert_def apfst_def map_prod_def split: option.splits)

definition cache_ok :: "(int \<times> CachedMapping) list \<Rightarrow> bool" where
  "cache_ok c \<longleftrightarrow> distinct (map fst c) \<and> length c \<le> MAPPING_CACHE_MAX"

lemma make_room_evict: "make_room limit now i c = evict_room limit (fresh_mapping now) cm_inserted_at i c"
  by (simp add: make_room_def evict_room_def)

lemma make_room_spec:
  assumes "distinct (map fst c)" "0 < limit" "length c \<le> limit"
  shows "distinct (map fst (make_room limit now i c)) \<and> set (make_room limit now i c) \<subseteq> set c
    \<and> (if map_of c i = None then length (make_room limit now i c) < limit else make_room limit now i c = c)"
  using evict_room_spec [of limit c "fresh_mapping now" cm_inserted_at i] assms
  by (simp add: make_room_evict cache_within_def)

lemma cache_insert_ok:
  assumes "cache_ok c"
  shows "cache_ok (cache_insert MAPPING_CACHE_MAX now i m c)"
  using assms evict_insert_within [of MAPPING_CACHE_MAX c i m "fresh_mapping now" cm_inserted_at]
  by (simp add: cache_ok_def cache_within_def cache_insert_def make_room_evict MAPPING_CACHE_MAX_def)

section \<open>Histories\<close>

text \<open>Requests of any tenants, maintenance and registry writes, in any order; each step has its time.\<close>

datatype resolver_op =
    Resolve bool bool int
  | SweepIdle
  | Invalidate int
  | SetStatus int TenantStatus
  | SetConn int string
  | SetBlob int string string
  | BeginProvisioning int
  | DeleteTenant int

fun resolver_step :: "(string \<Rightarrow> string option) \<Rightarrow> int \<times> resolver_op \<Rightarrow> registry \<times> Resolver \<Rightarrow> registry \<times> Resolver" where
  "resolver_step dec (now, Resolve reads connects i) (reg, rv) =
     (reg, snd (resolve_tenant now (if reads then Some (tenant dec i reg) else None) connects i rv))"
| "resolver_step dec (now, SweepIdle) (reg, rv) = (reg, rv\<lparr>rv_pools := snd (sweep_idle now (rv_pools rv))\<rparr>)"
| "resolver_step dec (now, Invalidate i) (reg, rv) = (reg, invalidate i rv)"
| "resolver_step dec (now, SetStatus i st) (reg, rv) = (set_tenant_status i st reg, rv)"
| "resolver_step dec (now, SetConn i stored) (reg, rv) = (set_tenant_conn i stored reg, rv)"
| "resolver_step dec (now, SetBlob i mode scope) (reg, rv) = (set_tenant_blob i mode scope reg, rv)"
| "resolver_step dec (now, BeginProvisioning i) (reg, rv) =
     ((case begin_provisioning i reg of Some reg' \<Rightarrow> reg' | None \<Rightarrow> reg), rv)"
| "resolver_step dec (now, DeleteTenant i) (reg, rv) = (delete_tenant_org i reg, rv)"

definition resolver_run :: "(string \<Rightarrow> string option) \<Rightarrow> (int \<times> resolver_op) list \<Rightarrow> registry \<times> Resolver \<Rightarrow> registry \<times> Resolver" where
  "resolver_run dec ops s = fold (resolver_step dec) ops s"

definition resolver_ok :: "Resolver \<Rightarrow> bool" where
  "resolver_ok rv \<longleftrightarrow> pools_ok (rv_pools rv) \<and> cache_ok (rv_cache rv)"

lemma read_mapping_ok: "resolver_ok rv \<Longrightarrow> resolver_ok (snd (read_mapping now lookup i rv))"
  by (auto simp: read_mapping_def resolver_ok_def cache_insert_ok Let_def split: option.splits sum.splits)

lemma mapping_for_ok: "resolver_ok rv \<Longrightarrow> resolver_ok (snd (mapping_for now lookup i rv))"
  by (auto simp: mapping_for_def read_mapping_ok split: option.splits)

lemma with_pool_ok: "resolver_ok rv \<Longrightarrow> resolver_ok (snd (with_pool now connects i conn scope rv))"
  using pool_ops_ok(1) [of "rv_pools rv" now connects i conn]
  by (auto simp: with_pool_def resolver_ok_def split: prod.splits option.splits)

lemma resolve_ok: "resolver_ok rv \<Longrightarrow> resolver_ok (snd (resolve_tenant now lookup connects i rv))"
  using mapping_for_ok [of rv now lookup i]
  by (auto simp: resolve_tenant_def with_pool_ok split: option.splits prod.splits sum.splits)

lemma invalidate_ok: "resolver_ok rv \<Longrightarrow> resolver_ok (invalidate i rv)"
  by (auto simp: resolver_ok_def invalidate_def pool_ops_ok cache_ok_def distinct_delete_where)
    (auto simp: delete_where_def intro: le_trans [OF length_filter_le])

lemma resolver_step_ok: "resolver_ok (snd s) \<Longrightarrow> resolver_ok (snd (resolver_step dec op s))"
  by (induction dec op s rule: resolver_step.induct)
    (simp_all add: resolve_ok invalidate_ok, simp add: resolver_ok_def pool_ops_ok)

lemma resolver_run_ok: "resolver_ok (snd s) \<Longrightarrow> resolver_ok (snd (resolver_run dec ops s))"
  by (induction ops arbitrary: s) (auto simp: resolver_run_def resolver_step_ok)

lemma mapping_for_pools: "rv_pools (snd (mapping_for now lookup i rv)) = rv_pools rv"
  by (auto simp: mapping_for_def read_mapping_def Let_def split: option.splits sum.splits)

lemma resolve_cap: "tp_cap (rv_pools (snd (resolve_tenant now lookup connects i rv))) = tp_cap (rv_pools rv)"
proof -
  have "tp_cap (rv_pools (snd (with_pool now connects j conn scope rv'))) = tp_cap (rv_pools rv')" for j conn scope rv'
    using pool_get_cap(1) [of now connects j conn "rv_pools rv'"]
    by (auto simp: with_pool_def split: prod.splits option.splits)
  then show ?thesis using mapping_for_pools [of now lookup i rv]
    by (auto simp: resolve_tenant_def split: option.splits prod.splits sum.splits)
qed

lemma resolver_run_cap: "tp_cap (rv_pools (snd (resolver_run dec ops s))) = tp_cap (rv_pools (snd s))"
proof -
  have "tp_cap (rv_pools (snd (resolver_step dec op s))) = tp_cap (rv_pools (snd s))" for op s
    by (induction dec op s rule: resolver_step.induct)
      (simp_all add: resolve_cap invalidate_def pool_invalidate_def sweep_idle_def Let_def)
  then show ?thesis by (induction ops arbitrary: s) (auto simp: resolver_run_def)
qed

text \<open>However many tenants are served and in whatever order, the pool cache never holds more pools than
  its configured cap and the mapping cache never more than its maximum, with one entry per tenant.
\<close>
theorem caches_bounded:
  "case resolver_run dec ops (reg, resolver_new prov (pools_new cap_env idle_env) single) of
     (_, rv) \<Rightarrow> length (tp_inner (rv_pools rv)) \<le> tp_cap (pools_new cap_env idle_env)
       \<and> distinct (map fst (tp_inner (rv_pools rv)))
       \<and> length (rv_cache rv) \<le> MAPPING_CACHE_MAX \<and> distinct (map fst (rv_cache rv))"
proof -
  let ?s = "(reg, resolver_new prov (pools_new cap_env idle_env) single)"
  have "resolver_ok (snd ?s)" by (simp add: resolver_ok_def resolver_new_def pools_new_def pools_ok_def cache_ok_def)
  from resolver_run_ok [OF this, of dec ops] show ?thesis
    using resolver_run_cap [of dec ops ?s]
    by (auto simp: resolver_ok_def pools_ok_def cache_ok_def resolver_new_def split: prod.splits)
qed

section \<open>Suspension and stale state\<close>

fun reactivates :: "int \<Rightarrow> resolver_op \<Rightarrow> bool" where
  "reactivates i (SetStatus j st) \<longleftrightarrow> i = j \<and> st = Active"
| "reactivates i _ \<longleftrightarrow> False"

definition serving :: "int \<Rightarrow> registry \<Rightarrow> bool" where
  "serving i reg \<longleftrightarrow> (\<exists>r \<in> set (tenant_rows reg). tn_org_id r = i \<and> tn_status r = ''active'')"

text \<open>Mappings of \<open>i\<close> are no younger than \<open>T\<close>.\<close>

definition cached_before :: "int \<Rightarrow> int \<Rightarrow> Resolver \<Rightarrow> bool" where
  "cached_before T i rv \<longleftrightarrow> (\<forall>e \<in> set (rv_cache rv). fst e = i \<longrightarrow> cm_inserted_at (snd e) \<le> T)"

lemma set_cache_insert: "set (cache_insert MAPPING_CACHE_MAX now i m c) \<subseteq> insert (i, m) (set c)"
proof -
  have "set (make_room MAPPING_CACHE_MAX now i c) \<subseteq> set c"
    by (auto simp: make_room_def Let_def delete_where_def split: option.splits if_splits)
  then show ?thesis by (fastforce simp: cache_insert_def upsert_def update_where_def split: if_splits)
qed

lemma not_serving_status:
  assumes "\<not> serving i reg" "tenant dec i reg = Some r"
  shows "tr_tenant_status r \<noteq> Active"
  using assms by (auto simp: serving_def tenant_def row_to_tenant_def row_of_def tenant_status_parse_def
      dest!: find_in split: if_splits)

lemma read_mapping_cached:
  assumes "cached_before T i rv" "j = i \<Longrightarrow> \<forall>r. lookup = Some (Some r) \<longrightarrow> tr_tenant_status r \<noteq> Active"
  shows "cached_before T i (snd (read_mapping now lookup j rv))"
  using assms set_cache_insert [of now j _ "rv_cache rv"]
  by (fastforce simp: read_mapping_def cached_before_def Let_def split: option.splits sum.splits)

lemma resolve_cached:
  assumes "cached_before T i rv" "\<not> serving i reg"
  shows "cached_before T i (snd (resolve_tenant now (if reads then Some (tenant dec j reg) else None) connects j rv))"
proof -
  have "cached_before T i (snd (mapping_for now (if reads then Some (tenant dec j reg) else None) j rv))"
    using assms not_serving_status [OF assms(2)] by (auto simp: mapping_for_def split: option.splits intro!: read_mapping_cached)
  moreover have "cached_before T i (snd (with_pool now connects k conn scope rv')) = cached_before T i rv'" for k conn scope rv'
    by (auto simp: with_pool_def cached_before_def split: prod.splits option.splits)
  ultimately show ?thesis using assms(1)
    by (auto simp: resolve_tenant_def split: option.splits prod.splits sum.splits)
qed

lemma suspended_step:
  assumes "cached_before T i (snd s)" "\<not> serving i (fst s)" "\<not> reactivates i (snd op)"
  shows "cached_before T i (snd (resolver_step dec op s)) \<and> \<not> serving i (fst (resolver_step dec op s))"
  using assms
proof (induction dec op s rule: resolver_step.induct)
  case (1 dec now reads connects j reg rv)
  then show ?case using resolve_cached [of T i rv reg now reads dec j connects] by simp
qed (auto simp: invalidate_def cached_before_def serving_def set_tenant_status_def set_tenant_conn_def
    set_tenant_blob_def set_tenant_def begin_provisioning_def delete_tenant_org_def delete_where_def update_where_def
    upsert_def split: if_splits option.splits elim: tenant_status_as_str.elims)

lemma suspended_run:
  assumes "cached_before T i (snd s)" "\<not> serving i (fst s)" "list_all (\<lambda>op. \<not> reactivates i (snd op)) ops"
  shows "cached_before T i (snd (resolver_run dec ops s)) \<and> \<not> serving i (fst (resolver_run dec ops s))"
  using assms by (induction ops arbitrary: s) (auto simp: resolver_run_def suspended_step)

lemma resolve_refuses:
  assumes "rv_single_tenant rv = None" "cached_before T i rv" "T + MAPPING_TTL \<le> now" "\<not> serving i reg"
  shows "\<exists>e. fst (resolve_tenant now (if reads then Some (tenant dec i reg) else None) connects i rv) = Err e"
proof -
  have "\<not> fresh_mapping now m" if "map_of (rv_cache rv) i = Some m" for m
    using map_of_SomeD [OF that] assms(2,3) by (force simp: cached_before_def fresh_mapping_def)
  then have "mapping_for now l i rv = read_mapping now l i rv" for l
    by (auto simp: mapping_for_def split: option.splits)
  moreover have "\<exists>e. fst (read_mapping now (if reads then Some (tenant dec i reg) else None) i rv) = Err e"
    using not_serving_status [OF assms(4)] by (auto simp: read_mapping_def split: option.splits)
  ultimately show ?thesis using assms(1)
    by (auto simp: resolve_tenant_def split: prod.splits sum.splits)
qed

lemma resolve_single [simp]: "rv_single_tenant (snd (resolve_tenant now l connects i rv)) = rv_single_tenant rv"
proof -
  have "rv_single_tenant (snd (with_pool now connects j conn scope rv')) = rv_single_tenant rv'" for j conn scope rv'
    by (auto simp: with_pool_def split: prod.splits option.splits)
  moreover have "rv_single_tenant (snd (mapping_for now l i rv)) = rv_single_tenant rv"
    by (auto simp: mapping_for_def read_mapping_def Let_def split: option.splits sum.splits)
  ultimately show ?thesis by (auto simp: resolve_tenant_def split: option.splits prod.splits sum.splits)
qed

lemma run_single: "rv_single_tenant (snd (resolver_run dec ops s)) = rv_single_tenant (snd s)"
proof -
  have "rv_single_tenant (snd (resolver_step dec op s)) = rv_single_tenant (snd s)" for op s
    by (induction dec op s rule: resolver_step.induct) (simp_all add: invalidate_def)
  then show ?thesis by (induction ops arbitrary: s) (auto simp: resolver_run_def)
qed

text \<open>A tenant that is not active in the registry from time \<open>T\<close> on, suspended, deleted or not yet
  registered, is refused by every hosted instance from \<open>T\<close> plus the mapping lifetime on, whatever
  requests, maintenance and registry writes happen in between and whichever entries the caches held,
  as long as nothing reactivates it.
\<close>
theorem suspended_tenant_refused:
  assumes "rv_single_tenant rv = None" "\<forall>e \<in> set (rv_cache rv). cm_inserted_at (snd e) \<le> T"
    and "\<not> serving i reg" "list_all (\<lambda>op. \<not> reactivates i (snd op)) ops"
    and "resolver_run dec ops (reg, rv) = (reg', rv')" "T + MAPPING_TTL \<le> now"
  shows "\<exists>e. fst (resolve_tenant now (if reads then Some (tenant dec i reg') else None) connects i rv') = Err e"
proof -
  have "cached_before T i (snd (reg, rv))" using assms(2) by (auto simp: cached_before_def)
  from suspended_run [OF this _ assms(4), of dec] have "cached_before T i rv'" "\<not> serving i reg'"
    using assms(3,5) by auto
  moreover have "rv_single_tenant rv' = None" using run_single [of dec ops "(reg, rv)"] assms(1,5) by simp
  ultimately show ?thesis using assms(6) by (intro resolve_refuses)
qed

text \<open>The mapping lifetime does not bound how long a replaced connection string stays in use: while a
  tenant's pool is cached, every successful resolution returns the store of the connection string the
  pool was opened with, whatever string the registry now holds and however old the mapping is.
\<close>
theorem pool_outlives_rotation:
  assumes "rv_single_tenant rv = None" "map_of (tp_inner (rv_pools rv)) i = Some e"
    and "fst (resolve_tenant now lookup connects i rv) = Ok t"
  shows "t_store t = pe_conn e \<and> map_of (tp_inner (rv_pools (snd (resolve_tenant now lookup connects i rv)))) i
      = Some (e\<lparr>pe_last_used := now\<rparr>)"
proof -
  obtain m rv' where m: "mapping_for now lookup i rv = (Ok m, rv')"
    using assms(1,3) by (auto simp: resolve_tenant_def split: prod.splits sum.splits)
  then have pools: "rv_pools rv' = rv_pools rv" using mapping_for_pools [of now lookup i rv] by simp
  have touch: "map_of (touch_pool now i c) i = Some (e\<lparr>pe_last_used := now\<rparr>)" if "map_of c i = Some e" for c
    using that by (induction c) (auto simp: touch_pool_def update_where_def split: if_splits)
  have "resolve_tenant now lookup connects i rv = with_pool now connects i (cm_conn m) (cm_blob_scope m) rv'"
    using assms(1) m by (simp add: resolve_tenant_def)
  then show ?thesis using assms(2,3) touch by (auto simp: with_pool_def pool_get_def pools)
qed

section \<open>Sample instances\<close>

definition sample_registry :: registry where
  "sample_registry = \<lparr>registry_orgs = [7], tenant_rows = [\<lparr>tn_org_id = 7, tn_status = ''active'', tn_db_conn = Some ''new'',
     tn_blob_mode = ''prefix'', tn_blob_scope = ''t/7'', tn_region = None\<rparr>], tenant_due_work = [], org_usage = [],
     databases = [], schemas_applied = []\<rparr>"

definition sample_resolver :: Resolver where
  "sample_resolver = (resolver_new (Local ''postgres://h/base'') (pools_new None None) None)
     \<lparr>rv_cache := [(7, \<lparr>cm_conn = ''old'', cm_blob_mode = ''prefix'', cm_blob_scope = ''t/7'', cm_inserted_at = 0\<rparr>)],
      rv_pools := \<lparr>tp_inner = [(7, \<lparr>pe_conn = ''old'', pe_last_used = 0\<rparr>)], tp_cap = 256, tp_idle_ttl = 300000000\<rparr>\<rparr>"

theorem suspended_tenant_refused_witness:
  "\<exists>e. fst (resolve_tenant 130000000 (Some (tenant Some 7 (set_tenant_status 7 Suspended sample_registry))) True 7
      (snd (resolver_run Some [(5, Resolve True True 7)] (set_tenant_status 7 Suspended sample_registry, sample_resolver)))) = Err e"
proof -
  let ?reg = "set_tenant_status 7 Suspended sample_registry"
  have "\<not> serving 7 ?reg"
    by (simp add: serving_def set_tenant_status_def set_tenant_def sample_registry_def update_where_def)
  then show ?thesis
    using suspended_tenant_refused [of sample_resolver 1 7 ?reg "[(5, Resolve True True 7)]" Some ?reg _ 130000000 True True]
    by (simp add: sample_resolver_def resolver_new_def resolver_run_def MAPPING_TTL_def)
qed

theorem pool_outlives_rotation_witness:
  "\<exists>t. fst (resolve_tenant 130000000 (Some (tenant Some 7 sample_registry)) True 7 sample_resolver) = Ok t \<and> t_store t = ''old''"
proof -
  have "case fst (resolve_tenant 130000000 (Some (tenant Some 7 sample_registry)) True 7 sample_resolver) of
      Inl _ \<Rightarrow> False | Inr _ \<Rightarrow> True" by code_simp
  then obtain t where t: "fst (resolve_tenant 130000000 (Some (tenant Some 7 sample_registry)) True 7 sample_resolver) = Ok t"
    by (auto split: sum.splits)
  then show ?thesis
    using pool_outlives_rotation [of sample_resolver 7 "\<lparr>pe_conn = ''old'', pe_last_used = 0\<rparr>" 130000000 "Some (tenant Some 7 sample_registry)" True t]
    by (simp add: sample_resolver_def resolver_new_def)
qed

end
