(* ===== verification/Request.thy ===== *)
theory Request
  imports Project_Store Credentials Resolver
begin

text \<open>
  How a request handler runs: the state of the service it can reach (\<open>App\<close> of \<open>src/lib.rs\<close>), the
  environment of one request, responses, and the sequencing of fallible calls with early returns. A
  handler is an action; its statements are composed by \<open>andthen\<close>, a \<open>return\<close> in the middle of the
  source is \<open>stop\<close>. The locale \<open>request_frame\<close> lifts a relation that every single call respects to
  whole handlers.
\<close>

section \<open>State and environment\<close>

record mail =
  ml_to :: string
  ml_subject :: string
  ml_text :: string

text \<open>
  A call of an external HTTP service: method, URL, credentials and JSON body. Its answer is a status with
  the JSON body, if the body is JSON; \<open>None\<close> is a connection that failed.
\<close>

record http_call =
  hc_method :: string
  hc_url :: string
  hc_auth :: string
  hc_body :: json

type_synonym http_answer = "(nat \<times> json option) option"

text \<open>
  A tenant database is found under the connection string of its pool. \<open>app_mails\<close> are the messages that
  were handed over for delivery, \<open>app_calls\<close> the calls of issue trackers and CI providers with their
  answers.
\<close>

record app =
  app_control :: control_db
  app_registry :: registry
  app_resolver :: Resolver
  app_tenants :: "string \<Rightarrow> tenant_data"
  app_files :: files
  app_mails :: "mail list"
  app_calls :: "(http_call \<times> http_answer) list"

text \<open>
  What one request sees of the world. \<open>sv_fails m\<close> says that the statements of the store method \<open>m\<close> fail
  during the request; \<open>sv_uuids\<close> are its fresh UUIDs in simple form, \<open>sv_random\<close> its random bytes in
  hexadecimal, \<open>sv_vars\<close> the environment variables of the process; the policy fields are the hooks of
  the edition; \<open>sv_http\<close> answers calls of external services, \<open>sv_locked\<close> are the outbox rows that
  another transaction holds.
\<close>

record env =
  sv_now :: int
  sv_fails :: "string \<Rightarrow> bool"
  sv_self_hosted :: bool
  sv_key_hash :: "string \<Rightarrow> string"
  sv_to_lowercase :: "string \<Rightarrow> string"
  sv_hash_password :: "string \<Rightarrow> string option"
  sv_verify_password :: "string \<Rightarrow> string \<Rightarrow> bool"
  sv_uuids :: "nat \<Rightarrow> string"
  sv_random :: "nat \<Rightarrow> string"
  sv_vars :: "string \<Rightarrow> string option"
  sv_mail_sent :: bool
  sv_rfc3339 :: "int \<Rightarrow> string"
  sv_jsonb_text :: "json \<Rightarrow> string"
  sv_valid_plan :: "string option \<Rightarrow> string option"
  sv_seat_limit :: "int \<Rightarrow> int option"
  sv_app_limit :: "int \<Rightarrow> int option"
  sv_login_denied :: "string \<Rightarrow> string option"
  sv_provider :: Provider
  sv_encrypt :: "string \<Rightarrow> string \<Rightarrow> string option"
  sv_decrypt :: "string \<Rightarrow> string option"
  sv_attempt :: attempt
  sv_blob_root :: path
  sv_lib :: bucket_lib
  sv_graph :: serde_graph
  sv_parse_time :: "string \<Rightarrow> int option"
  sv_pg_text :: "int \<Rightarrow> string"
  sv_jsonb_eq :: "json \<Rightarrow> json \<Rightarrow> bool"
  sv_ingest_denied :: "int \<Rightarrow> nat \<Rightarrow> (string \<times> int \<times> int) option"
  sv_evidence_cap :: "int \<Rightarrow> int option"
  sv_retention_days :: "int \<Rightarrow> int option"
  sv_http :: "http_call \<Rightarrow> http_answer"
  sv_locked :: "int \<Rightarrow> bool"

record response =
  ht_status :: nat
  ht_body :: json
  ht_cookie :: "string option"
  ht_location :: "string option"

definition reply :: "nat \<Rightarrow> json \<Rightarrow> response" where
  "reply status body = \<lparr>ht_status = status, ht_body = body, ht_cookie = None, ht_location = None\<rparr>"

definition err :: "nat \<Rightarrow> string \<Rightarrow> response" where
  "err status msg = reply status (JObj [(''error'', JStr msg)])"

definition redirect :: "string \<Rightarrow> response" where
  "redirect to = \<lparr>ht_status = 303, ht_body = JNull, ht_cookie = None, ht_location = Some to\<rparr>"

definition jint :: "int \<Rightarrow> json" where
  "jint i = JNum (if 0 \<le> i then PosInt (nat i) else NegInt i)"

definition jopt :: "('a \<Rightarrow> json) \<Rightarrow> 'a option \<Rightarrow> json" where
  "jopt f x = (case x of None \<Rightarrow> JNull | Some v \<Rightarrow> f v)"

section \<open>Actions\<close>

type_synonym 'a action = "app \<Rightarrow> (response, 'a) result \<times> app"

definition done_with :: "'a \<Rightarrow> 'a action" where "done_with x a = (Ok x, a)"

definition stop :: "response \<Rightarrow> 'a action" where "stop r a = (Err r, a)"

definition andthen :: "'a action \<Rightarrow> ('a \<Rightarrow> 'b action) \<Rightarrow> 'b action" where
  "andthen m f a = (case m a of (Inl r, a') \<Rightarrow> (Err r, a') | (Inr x, a') \<Rightarrow> f x a')"

definition require :: "bool \<Rightarrow> response \<Rightarrow> unit action" where
  "require b r = (if b then done_with () else stop r)"

definition need :: "'a option \<Rightarrow> response \<Rightarrow> 'a action" where
  "need x r = (case x of Some v \<Rightarrow> done_with v | None \<Rightarrow> stop r)"

text \<open>A reading and a writing method of the control store; \<open>None\<close> is an \<open>Err\<close> of the method.\<close>

definition look :: "env \<Rightarrow> string \<Rightarrow> (control_db \<Rightarrow> 'a) \<Rightarrow> 'a option action" where
  "look sv m f a = (Ok (if sv_fails sv m then None else Some (f (app_control a))), a)"

definition ctl :: "env \<Rightarrow> string \<Rightarrow> (control_db \<Rightarrow> 'a option \<times> control_db) \<Rightarrow> 'a option action" where
  "ctl sv m op a =
     (if sv_fails sv m then (Ok None, a)
      else (case op (app_control a) of (r, db) \<Rightarrow> (Ok r, a\<lparr>app_control := db\<rparr>)))"

definition total :: "(control_db \<Rightarrow> 'a \<times> control_db) \<Rightarrow> control_db \<Rightarrow> 'a option \<times> control_db" where
  "total op db = apfst Some (op db)"

definition effect :: "(control_db \<Rightarrow> control_db) \<Rightarrow> control_db \<Rightarrow> unit option \<times> control_db" where
  "effect f db = (Some (), f db)"

text \<open>The audit trail is written without waiting for its result.\<close>

definition audit :: "env \<Rightarrow> string \<Rightarrow> string \<Rightarrow> int option \<Rightarrow> json \<Rightarrow> unit action" where
  "audit sv actor act org_id detail =
     andthen (ctl sv ''audit'' (effect (audit_event (sv_now sv) actor act org_id detail))) (\<lambda>_. done_with ())"

definition respond :: "response action \<Rightarrow> app \<Rightarrow> response \<times> app" where
  "respond h a = (case h a of (Inl r, a') \<Rightarrow> (r, a') | (Inr r, a') \<Rightarrow> (r, a'))"

definition user_actor :: "int \<Rightarrow> string" where "user_actor i = ''user:'' @ show_int i"

lemmas action_defs = done_with_def stop_def andthen_def require_def need_def look_def ctl_def total_def effect_def
  audit_def respond_def

section \<open>Tenant calls\<close>

text \<open>
  \<open>Tenancy::provision\<close>: the registry refers to the organizations of the control plane; success drops the
  cached mapping and pool.
\<close>

definition registry_of :: "app \<Rightarrow> registry" where
  "registry_of a = (app_registry a)\<lparr>registry_orgs := map og_id (orgs (app_control a))\<rparr>"

definition tenancy_provision :: "env \<Rightarrow> int \<Rightarrow> TenantRecord option action" where
  "tenancy_provision sv org_id a =
     (case provision (sv_encrypt sv) (sv_provider sv) org_id (sv_attempt sv) (registry_of a) of
        (None, reg) \<Rightarrow> (Ok None, a\<lparr>app_registry := reg\<rparr>)
      | (Some r, reg) \<Rightarrow> (Ok (Some r), a\<lparr>app_registry := reg, app_resolver := invalidate org_id (app_resolver a)\<rparr>))"

definition tenancy_resolve :: "env \<Rightarrow> int \<Rightarrow> (ResolveError, Tenant) result action" where
  "tenancy_resolve sv org_id a =
     (case resolve_tenant (sv_now sv) (if sv_fails sv ''tenant'' then None else Some (tenant (sv_decrypt sv) org_id (registry_of a)))
         (\<not> sv_fails sv ''connect'') org_id (app_resolver a) of
        (r, rv) \<Rightarrow> (Ok r, a\<lparr>app_resolver := rv\<rparr>))"

text \<open>A reading and a writing method of the tenant store.\<close>

definition tlook :: "env \<Rightarrow> Tenant \<Rightarrow> string \<Rightarrow> (tenant_data \<Rightarrow> 'a) \<Rightarrow> 'a option action" where
  "tlook sv t m f a = (Ok (if sv_fails sv m then None else Some (f (app_tenants a (t_store t)))), a)"

definition tctl :: "env \<Rightarrow> Tenant \<Rightarrow> string \<Rightarrow> (tenant_data \<Rightarrow> 'a option \<times> tenant_data) \<Rightarrow> 'a option action" where
  "tctl sv t m op a =
     (if sv_fails sv m then (Ok None, a)
      else (case op (app_tenants a (t_store t)) of
              (r, db) \<Rightarrow> (Ok r, a\<lparr>app_tenants := (app_tenants a)(t_store t := db)\<rparr>)))"

section \<open>Sessions, cookies and keys\<close>

definition COOKIE_NAME :: string where "COOKIE_NAME = ''rid_session''"
definition SESSION_TTL_SECS :: int where "SESSION_TTL_SECS = 2592000"

definition new_session_token :: "env \<Rightarrow> string" where
  "new_session_token sv = sv_uuids sv 0 @ sv_uuids sv 1"

definition dev_open :: "env \<Rightarrow> bool" where
  "dev_open sv \<longleftrightarrow> sv_vars sv ''REPROIT_DEV_OPEN'' \<in> {Some ''1'', Some ''true''}"

definition secure_attr :: "env \<Rightarrow> string" where
  "secure_attr sv = (if dev_open sv then [] else ''; Secure'')"

definition session_cookie :: "env \<Rightarrow> string \<Rightarrow> string" where
  "session_cookie sv token = COOKIE_NAME @ ''='' @ token @ ''; HttpOnly; SameSite=Lax'' @ secure_attr sv
     @ ''; Path=/; Max-Age='' @ show_int SESSION_TTL_SECS"

definition cleared_cookie :: "env \<Rightarrow> string" where
  "cleared_cookie sv = COOKIE_NAME @ ''=; HttpOnly; SameSite=Lax'' @ secure_attr sv @ ''; Path=/; Max-Age=0''"

text \<open>The cookie header, when there is one and it is text.\<close>

definition first_some :: "('a \<Rightarrow> 'b option) \<Rightarrow> 'a list \<Rightarrow> 'b option" where
  "first_some f xs = (case List.map_filter f xs of [] \<Rightarrow> None | y # _ \<Rightarrow> Some y)"

definition cookie_value :: "string option \<Rightarrow> string \<Rightarrow> string option" where
  "cookie_value cookie name =
     Option.bind cookie (\<lambda>raw. first_some (\<lambda>c. Option.bind (strip_prefix (trim c) name) (\<lambda>rest. strip_prefix rest ''=''))
       (split_all CHR '';'' raw))"

definition with_cookie :: "string \<Rightarrow> nat \<Rightarrow> json \<Rightarrow> response" where
  "with_cookie cookie status body = (reply status body)\<lparr>ht_cookie := Some cookie\<rparr>"

definition new_api_key :: "env \<Rightarrow> string" where "new_api_key sv = ''sk_live_'' @ sv_random sv 0"
definition new_publishable_key :: "env \<Rightarrow> string" where "new_publishable_key sv = ''pk_live_'' @ sv_random sv 1"

definition is_publishable :: "string \<Rightarrow> bool" where "is_publishable token \<longleftrightarrow> starts_with token ''pk_''"

definition api_key_prefix :: "string \<Rightarrow> string" where
  "api_key_prefix secret = concat (take (8 + 2) (chars secret)) @ ''...''"

section \<open>Mail\<close>

definition trim_end_slashes :: "string \<Rightarrow> string" where
  "trim_end_slashes s = rev (dropWhile (\<lambda>c. c = CHR ''/'') (rev s))"

definition public_base :: "env \<Rightarrow> string" where
  "public_base sv =
     (case sv_vars sv ''REPROIT_PUBLIC_URL'' of
        Some v \<Rightarrow> if trim v = [] then ''http://localhost:8080'' else trim_end_slashes v
      | None \<Rightarrow> ''http://localhost:8080'')"

definition send_mail :: "env \<Rightarrow> string \<Rightarrow> string \<times> string \<Rightarrow> unit option action" where
  "send_mail sv to m a =
     (if sv_mail_sent sv then (Ok (Some ()), a\<lparr>app_mails := app_mails a @ [\<lparr>ml_to = to, ml_subject = fst m, ml_text = snd m\<rparr>]\<rparr>)
      else (Ok None, a))"

definition nl2 :: string where "nl2 = [CHR 0x0A, CHR 0x0A]"

definition verification_email :: "string \<Rightarrow> string \<times> string" where
  "verification_email link = (''Verify your ReproIt email'',
     ''Confirm your email to finish creating your ReproIt workspace:'' @ nl2 @ link @ nl2
     @ ''The link expires in 48 hours. If you didn't sign up, ignore this email.'')"

definition reset_email :: "string \<Rightarrow> string \<times> string" where
  "reset_email link = (''Reset your ReproIt password'',
     ''Reset your ReproIt password:'' @ nl2 @ link @ nl2
     @ ''The link expires in 30 minutes and works once. If you didn't request this, ignore this email; your password is unchanged.'')"

definition invitation_email :: "string \<Rightarrow> string \<Rightarrow> string \<times> string" where
  "invitation_email org_name link = (''Join '' @ org_name @ '' on ReproIt'',
     ''You have been invited to join '' @ org_name @ '' on ReproIt:'' @ nl2 @ link @ nl2
     @ ''The invitation expires in 7 days and works once. If you were not expecting it, ignore this email.'')"

section \<open>Running\<close>

text \<open>Running an action one call at a time.\<close>

lemma andthen_done: "andthen (done_with x) g a = g x a"
  by (simp add: action_defs)

lemma andthen_stop: "andthen (stop r) g a = (Err r, a)"
  by (simp add: action_defs)

lemma andthen_require: "andthen (require b r) g a = (if b then g () a else (Err r, a))"
  by (simp add: action_defs)

lemma andthen_need: "andthen (need v r) g a = (case v of Some x \<Rightarrow> g x a | None \<Rightarrow> (Err r, a))"
  by (simp add: action_defs split: option.split)

lemma andthen_look: "andthen (look sv m f) g a = g (if sv_fails sv m then None else Some (f (app_control a))) a"
  by (simp add: action_defs)

lemma andthen_tlook: "andthen (tlook sv t m f) g a = g (if sv_fails sv m then None else Some (f (app_tenants a (t_store t)))) a"
  by (simp add: action_defs tlook_def)

lemma andthen_ctl:
  "andthen (ctl sv m op) g a =
     (if sv_fails sv m then g None a else g (fst (op (app_control a))) (a\<lparr>app_control := snd (op (app_control a))\<rparr>))"
  by (simp add: action_defs split: prod.split)

lemma andthen_assoc: "andthen (andthen n h) g a = andthen n (\<lambda>x. andthen (h x) g) a"
  by (simp add: action_defs split: prod.split sum.split)

lemma andthen_if: "andthen (if b then m else n) g a = (if b then andthen m g a else andthen n g a)"
  by simp

lemmas andthen_run = andthen_if andthen_done andthen_stop andthen_require andthen_need andthen_look andthen_tlook andthen_ctl andthen_assoc

lemma respond_final: "snd (respond h a) = snd (h a)"
  by (simp add: respond_def split: prod.split sum.split)

lemma action_run:
  "done_with x a = (Ok x, a)" "stop r a = (Err r, a)" "require b r a = (if b then (Ok (), a) else (Err r, a))"
  "need v r a = (case v of Some x \<Rightarrow> (Ok x, a) | None \<Rightarrow> (Err r, a))"
  by (simp_all add: action_defs split: option.split)

lemmas run_simps = andthen_run action_run

section \<open>Frames\<close>

text \<open>
  A relation between the states before and after a request that is reflexive, transitive and respected
  by single calls is respected by the handlers that are composed of these calls.
\<close>

locale request_frame =
  fixes rel :: "app \<Rightarrow> app \<Rightarrow> bool"
  assumes rel_refl: "rel a a"
    and rel_trans: "rel a b \<Longrightarrow> rel b c \<Longrightarrow> rel a c"
begin

definition safe :: "'a action \<Rightarrow> bool" where
  "safe m \<longleftrightarrow> (\<forall>a. rel a (snd (m a)))"

lemma safeD: "safe m \<Longrightarrow> rel a (snd (m a))"
  by (simp add: safe_def)

lemma safe_done [simp, intro!]: "safe (done_with x)"
  by (simp add: safe_def done_with_def rel_refl)

lemma safe_stop [simp, intro!]: "safe (stop r)"
  by (simp add: safe_def stop_def rel_refl)

lemma safe_andthen [intro]:
  assumes "safe m" "\<And>x. safe (f x)"
  shows "safe (andthen m f)"
  unfolding safe_def
proof
  fix a
  show "rel a (snd (andthen m f a))"
    using safeD [OF assms(1), of a] safeD [OF assms(2)] rel_trans
    by (cases "m a" rule: prod.exhaust; cases "fst (m a)") (auto simp: andthen_def)
qed

lemma safe_require [simp, intro!]: "safe (require b r)"
  by (simp add: require_def)

lemma safe_need [simp, intro!]: "safe (need x r)"
  by (simp add: need_def split: option.split)

lemma safe_look [simp, intro!]: "safe (look sv m f)"
  by (simp add: safe_def look_def rel_refl)

lemma safe_tlook [simp, intro!]: "safe (tlook sv t m f)"
  by (simp add: safe_def tlook_def rel_refl)

lemma safe_if [intro]: "(c \<Longrightarrow> safe m) \<Longrightarrow> (\<not> c \<Longrightarrow> safe n) \<Longrightarrow> safe (if c then m else n)"
  by simp

lemma safe_option [intro]: "safe m \<Longrightarrow> (\<And>x. safe (f x)) \<Longrightarrow> safe (case v of None \<Rightarrow> m | Some x \<Rightarrow> f x)"
  by (simp split: option.split)

lemma safe_prod [intro]: "(\<And>x y. safe (f x y)) \<Longrightarrow> safe (case p of (x, y) \<Rightarrow> f x y)"
  by (simp split: prod.split)

lemma safe_sum [intro]: "(\<And>x. safe (f x)) \<Longrightarrow> (\<And>y. safe (g y)) \<Longrightarrow> safe (case v of Inl x \<Rightarrow> f x | Inr y \<Rightarrow> g y)"
  by (simp split: sum.split)

lemma safe_bool [intro]: "safe m \<Longrightarrow> safe n \<Longrightarrow> safe (case b of True \<Rightarrow> m | False \<Rightarrow> n)"
  by (simp split: bool.split)

lemma respond_safe: "safe h \<Longrightarrow> rel a (snd (respond h a))"
  using safeD [of h a] by (auto simp: respond_def split: prod.split sum.split)

end

text \<open>Most calls concern the control plane only; the others leave it as it is.\<close>

locale control_frame =
  fixes crel :: "control_db \<Rightarrow> control_db \<Rightarrow> bool"
  assumes crel_refl: "crel db db"
    and crel_trans: "crel db1 db2 \<Longrightarrow> crel db2 db3 \<Longrightarrow> crel db1 db3"

sublocale control_frame \<subseteq> request_frame "\<lambda>a b. crel (app_control a) (app_control b)"
  by unfold_locales (rule crel_refl, rule crel_trans)

context control_frame begin

lemma safe_same: "(\<And>a. app_control (snd (m a)) = app_control a) \<Longrightarrow> safe m"
  by (simp add: safe_def crel_refl)

lemma safe_ctl:
  assumes "\<And>db. crel db (snd (op db))"
  shows "safe (ctl sv m op)"
  using assms by (auto simp: safe_def ctl_def crel_refl split: prod.split) (metis snd_conv)

lemma safe_total: "(\<And>db. crel db (snd (op db))) \<Longrightarrow> safe (ctl sv m (total op))"
  by (rule safe_ctl) (simp add: total_def)

lemma safe_effect: "(\<And>db. crel db (f db)) \<Longrightarrow> safe (ctl sv m (effect f))"
  by (rule safe_ctl) (simp add: effect_def)

lemma safe_audit: "(\<And>db rows. crel db (db\<lparr>audit_rows := rows\<rparr>)) \<Longrightarrow> safe (audit sv actor act org_id detail)"
  unfolding audit_def by (intro safe_andthen safe_effect) (simp_all add: audit_event_def)

lemma safe_send_mail [simp, intro!]: "safe (send_mail sv to m)"
  by (rule safe_same) (simp add: send_mail_def)

lemma safe_tenancy_provision [simp, intro!]: "safe (tenancy_provision sv org_id)"
  by (rule safe_same) (auto simp: tenancy_provision_def split: prod.splits option.splits)

lemma safe_tenancy_resolve [simp, intro!]: "safe (tenancy_resolve sv org_id)"
  by (rule safe_same) (auto simp: tenancy_resolve_def split: prod.splits)

lemma safe_tctl [simp, intro!]: "safe (tctl sv t m op)"
  by (rule safe_same) (auto simp: tctl_def split: prod.splits)

lemmas safe_intros = safe_andthen safe_require safe_need safe_look safe_tlook safe_done safe_stop safe_if safe_option
  safe_prod safe_sum safe_send_mail safe_tenancy_provision safe_tenancy_resolve safe_tctl

end

end
