(* ===== verification/Accounts.thy ===== *)
theory Accounts
  imports Request
begin

text \<open>
  Accounts: the handlers of \<open>src/auth/mod.rs\<close> for signup, verification, login, logout, password reset and
  the device login of the command line. The body of a request is the argument of its handler, the
  \<open>Cookie\<close> header is \<open>cookie\<close>.
\<close>

section \<open>Sessions of a request\<close>

definition VERIFY_TTL_SECS :: int where "VERIFY_TTL_SECS = 48 * 60 * 60"
definition RESET_TTL_SECS :: int where "RESET_TTL_SECS = 30 * 60"
definition INVITE_TTL_SECS :: int where "INVITE_TTL_SECS = 7 * 24 * 60 * 60"
definition CLI_AUTH_TTL_SECS :: int where "CLI_AUTH_TTL_SECS = 10 * 60"

record Creds =
  cr_email :: string
  cr_password :: string
  cr_plan :: "string option"
  cr_invite :: "string option"
  cr_org_id :: "int option"

definition current_user :: "env \<Rightarrow> string option \<Rightarrow> User option action" where
  "current_user sv cookie =
     (case cookie_value cookie COOKIE_NAME of
        None \<Rightarrow> done_with None
      | Some token \<Rightarrow>
          andthen (look sv ''user_for_session'' (user_for_session (sv_key_hash sv) (sv_now sv) token)) (\<lambda>r.
          done_with (Option.bind r id)))"

definition session_status :: "env \<Rightarrow> string option \<Rightarrow> response action" where
  "session_status sv cookie =
     andthen (current_user sv cookie) (\<lambda>u. done_with (reply (if u \<noteq> None then 204 else 401) JNull))"

definition user_and_org :: "env \<Rightarrow> string option \<Rightarrow> (User \<times> Org) action" where
  "user_and_org sv cookie =
     andthen (need (cookie_value cookie COOKIE_NAME) (err 401 ''not signed in'')) (\<lambda>token.
     andthen (look sv ''user_and_org_for_session'' (user_and_org_for_session (sv_key_hash sv) (sv_now sv) token)) (\<lambda>r.
     need (Option.bind r id) (err 500 ''no org for account'')))"

definition can_manage :: "string \<Rightarrow> bool" where
  "can_manage role \<longleftrightarrow> role = ''owner'' \<or> role = ''admin''"

section \<open>Device login\<close>

definition cli_device :: "env \<Rightarrow> string option \<Rightarrow> response action" where
  "cli_device sv client =
     (let device_code = new_session_token sv;
          raw = map ascii_upper (sv_uuids sv 2);
          user_code = take 4 raw @ ''-'' @ take 4 (drop 4 raw);
          uri = public_base sv @ ''/cli''
      in andthen (ctl sv ''create_cli_authorization''
           (create_cli_authorization (sv_key_hash sv) (sv_now sv) device_code user_code CLI_AUTH_TTL_SECS)) (\<lambda>r.
         andthen (need r (err 500 ''could not start CLI login'')) (\<lambda>_.
         andthen (audit sv ''anonymous'' ''cli.login.start'' None
           (JObj [(''client'', JStr (case client of Some c \<Rightarrow> c | None \<Rightarrow> ''reproit''))])) (\<lambda>_.
         done_with (reply 200 (JObj [(''deviceCode'', JStr device_code), (''expiresIn'', jint CLI_AUTH_TTL_SECS),
           (''interval'', jint 2), (''userCode'', JStr user_code), (''verificationUri'', JStr uri),
           (''verificationUriComplete'', JStr (uri @ ''?code='' @ user_code))]))))))"

definition cli_approve :: "env \<Rightarrow> string option \<Rightarrow> string \<Rightarrow> response action" where
  "cli_approve sv cookie code =
     andthen (user_and_org sv cookie) (\<lambda>(user, org).
     andthen (ctl sv ''approve_cli_authorization''
       (approve_cli_authorization (sv_key_hash sv) (sv_now sv) (trim code) (u_id user) (o_id org))) (\<lambda>r.
     andthen (need r (err 500 ''could not approve CLI login'')) (\<lambda>found.
     andthen (require found (err 404 ''code is invalid or expired'')) (\<lambda>_.
     andthen (audit sv (user_actor (u_id user)) ''cli.login.approve'' (Some (o_id org)) (JObj [])) (\<lambda>_.
     done_with (reply 200 (JObj [(''approved'', JBool True), (''organization'', JStr (o_name org))])))))))"

definition project_json :: "int \<times> string \<times> string \<Rightarrow> json" where
  "project_json p = (case p of (i, name, app_id) \<Rightarrow>
     JObj [(''appId'', JStr app_id), (''id'', jint i), (''name'', JStr name)])"

definition tenant_projects :: "env \<Rightarrow> int \<Rightarrow> (int \<times> string \<times> string) list action" where
  "tenant_projects sv org_id =
     andthen (tenancy_resolve sv org_id) (\<lambda>r.
     case r of
       Inl _ \<Rightarrow> done_with []
     | Inr t \<Rightarrow> andthen (tlook sv t ''list_projects'' list_projects) (\<lambda>ps.
         done_with (case ps of Some l \<Rightarrow> l | None \<Rightarrow> [])))"

definition cli_token :: "env \<Rightarrow> string \<Rightarrow> response action" where
  "cli_token sv code =
     (let device_code = trim code; gone = err 410 ''authorization is expired or already used'';
          failed = err 500 ''could not finish CLI login'';
          token = new_api_key sv; key_prefix = api_key_prefix token
      in andthen (look sv ''cli_authorization_state''
           (cli_authorization_state (sv_key_hash sv) (sv_now sv) device_code)) (\<lambda>r.
         andthen (need r failed) (\<lambda>st.
         andthen (case st of
             None \<Rightarrow> stop gone
           | Some (approved, consumed) \<Rightarrow>
               if consumed then stop gone
               else if approved then done_with ()
               else stop (reply 202 (JObj [(''status'', JStr ''pending'')]))) (\<lambda>_.
         andthen (ctl sv ''consume_cli_authorization''
           (consume_cli_authorization (sv_key_hash sv) (sv_now sv) device_code token key_prefix)) (\<lambda>r.
         andthen (need r failed) (\<lambda>o'.
         andthen (need o' gone) (\<lambda>org_id.
         andthen (tenant_projects sv org_id) (\<lambda>ps.
         done_with (reply 200 (JObj [(''orgId'', jint org_id), (''projects'', JArr (map project_json ps)),
           (''token'', JStr token)]))))))))))"

section \<open>Signup and verification\<close>

definition provision_personal_org :: "env \<Rightarrow> int \<Rightarrow> unit action" where
  "provision_personal_org sv user_id =
     andthen (ctl sv ''create_org'' (total (create_org ''Personal'' True))) (\<lambda>r.
     andthen (need r (err 500 ''could not create org'')) (\<lambda>org_id.
     andthen (ctl sv ''add_member'' (add_member org_id user_id ''owner'')) (\<lambda>_.
     andthen (tenancy_provision sv org_id) (\<lambda>rec.
     require (rec \<noteq> None) (err 500 ''could not provision your workspace (retry shortly)'')))))"

definition hex64 :: "string \<Rightarrow> bool" where
  "hex64 t \<longleftrightarrow> length t = 64 \<and> list_all is_ascii_hexdigit t"

definition send_verification :: "env \<Rightarrow> int \<Rightarrow> string \<Rightarrow> string option \<Rightarrow> string option \<Rightarrow> unit action" where
  "send_verification sv user_id email plan invite =
     (let token = new_session_token sv;
          plan_q = (case plan of Some p \<Rightarrow> ''&plan='' @ p | None \<Rightarrow> []);
          invite_q = (case invite of Some t \<Rightarrow> if hex64 t then ''&invite='' @ t else [] | None \<Rightarrow> []);
          link = public_base sv @ ''/auth/verify?token='' @ token @ plan_q @ invite_q
      in andthen (ctl sv ''create_email_token''
           (create_email_token (sv_key_hash sv) (sv_now sv) token user_id ''verify'' VERIFY_TTL_SECS)) (\<lambda>r.
         case r of
           None \<Rightarrow> done_with ()
         | Some _ \<Rightarrow> andthen (send_mail sv email (verification_email link)) (\<lambda>_. done_with ())))"

definition valid_email :: "string \<Rightarrow> bool" where
  "valid_email email \<longleftrightarrow> CHR ''@'' \<in> set email \<and> length email \<le> 254"

definition valid_password :: "string \<Rightarrow> bool" where
  "valid_password p \<longleftrightarrow> 8 \<le> length p \<and> trim p \<noteq> []"

text \<open>Whether an invitation token belongs to a mailbox.\<close>

definition invited :: "env \<Rightarrow> string option \<Rightarrow> string option \<Rightarrow> bool action" where
  "invited sv invite email =
     (case (invite, email) of
        (Some token, Some e) \<Rightarrow>
          andthen (look sv ''org_invitation_by_token'' (org_invitation_by_token (sv_key_hash sv) (sv_now sv) token)) (\<lambda>r.
          done_with (case Option.bind r id of Some i \<Rightarrow> oi_email i = e | None \<Rightarrow> False))
      | _ \<Rightarrow> done_with False)"

definition start_session :: "env \<Rightarrow> int \<Rightarrow> unit option action" where
  "start_session sv user_id =
     ctl sv ''create_session'' (create_session (sv_key_hash sv) (sv_now sv) (new_session_token sv) user_id SESSION_TTL_SECS)"

definition prefer_org :: "env \<Rightarrow> int \<Rightarrow> int option \<Rightarrow> unit action" where
  "prefer_org sv user_id org_id =
     (case org_id of
        None \<Rightarrow> done_with ()
      | Some i \<Rightarrow> andthen (ctl sv ''set_session_org''
          (total (set_session_org (sv_key_hash sv) (sv_now sv) (new_session_token sv) user_id i))) (\<lambda>_. done_with ()))"

definition signup :: "env \<Rightarrow> Creds \<Rightarrow> response action" where
  "signup sv c =
     (let email = sv_to_lowercase sv (trim (cr_email c))
      in andthen (require (valid_email email) (err 400 ''enter a valid email'')) (\<lambda>_.
         andthen (require (valid_password (cr_password c)) (err 400 ''password must be at least 8 characters'')) (\<lambda>_.
         andthen (need (sv_hash_password sv (cr_password c)) (err 500 ''could not hash password'')) (\<lambda>hash.
         andthen (ctl sv ''create_user'' (create_user email hash)) (\<lambda>r.
         andthen (need r (err 409 ''that email is already registered'')) (\<lambda>user_id.
         andthen (audit sv (user_actor user_id) ''auth.signup'' None (JObj [])) (\<lambda>_.
         if \<not> sv_self_hosted sv then
           andthen (send_verification sv user_id email (sv_valid_plan sv (cr_plan c)) (cr_invite c)) (\<lambda>_.
           done_with (reply 201 (JObj [(''email'', JStr email), (''verifyEmail'', JBool True)])))
         else
           andthen (invited sv (cr_invite c) (Some email)) (\<lambda>joins_existing_org.
           andthen (if joins_existing_org then done_with () else provision_personal_org sv user_id) (\<lambda>_.
           andthen (ctl sv ''mark_email_verified'' (effect (mark_email_verified (sv_now sv) user_id))) (\<lambda>_.
           andthen (start_session sv user_id) (\<lambda>s.
           andthen (need s (err 500 ''could not start session'')) (\<lambda>_.
           andthen (prefer_org sv user_id (cr_org_id c)) (\<lambda>_.
           done_with (with_cookie (session_cookie sv (new_session_token sv)) 201
             (JObj [(''email'', JStr email), (''plan'', JStr ''free'')])))))))))))))))"

record TokenQuery =
  tq_token :: string
  tq_plan :: "string option"
  tq_invite :: "string option"

text \<open>The fresh tokens of one request are drawn in order; a verification draws only the session token.\<close>

definition verify_email :: "env \<Rightarrow> TokenQuery \<Rightarrow> response action" where
  "verify_email sv q =
     andthen (ctl sv ''consume_email_token''
       (total (consume_email_token (sv_key_hash sv) (sv_now sv) (tq_token q) ''verify''))) (\<lambda>r.
     andthen (need (Option.bind r id) (redirect ''/login?verify=failed'')) (\<lambda>uid.
     andthen (ctl sv ''mark_email_verified'' (effect (mark_email_verified (sv_now sv) uid))) (\<lambda>_.
     andthen (look sv ''user_by_id'' (user_by_id uid)) (\<lambda>u.
     andthen (invited sv (tq_invite q) (map_option u_email (Option.bind u id))) (\<lambda>valid_invite.
     andthen (if valid_invite then done_with ()
       else andthen (look sv ''primary_org'' (primary_org uid)) (\<lambda>p.
         if Option.bind p id = None then provision_personal_org sv uid else done_with ())) (\<lambda>_.
     andthen (audit sv (user_actor uid) ''auth.verify'' None (JObj [])) (\<lambda>_.
     andthen (start_session sv uid) (\<lambda>s.
     andthen (need s (redirect ''/login'')) (\<lambda>_.
     done_with ((redirect (case (valid_invite, tq_invite q, sv_valid_plan sv (tq_plan q)) of
          (True, Some invite, _) \<Rightarrow> ''/invite?token='' @ invite
        | (_, _, Some p) \<Rightarrow> ''/app?plan='' @ p @ ''#account''
        | _ \<Rightarrow> ''/app''))\<lparr>ht_cookie := Some (session_cookie sv (new_session_token sv))\<rparr>))))))))))"

section \<open>Password reset\<close>

definition forgot_password :: "env \<Rightarrow> string \<Rightarrow> response action" where
  "forgot_password sv raw_email =
     (let email = sv_to_lowercase sv (trim raw_email); token = new_session_token sv; ok = reply 200 (JObj [(''ok'', JBool True)])
      in andthen (look sv ''find_user_id_by_email'' (find_user_id_by_email email)) (\<lambda>r.
         case Option.bind r id of
           None \<Rightarrow> done_with ok
         | Some uid \<Rightarrow>
             andthen (ctl sv ''create_email_token''
               (create_email_token (sv_key_hash sv) (sv_now sv) token uid ''reset'' RESET_TTL_SECS)) (\<lambda>t.
             case t of
               None \<Rightarrow> done_with ok
             | Some _ \<Rightarrow>
                 andthen (send_mail sv email (reset_email (public_base sv @ ''/reset?token='' @ token))) (\<lambda>_.
                 andthen (audit sv (user_actor uid) ''auth.forgot'' None (JObj [])) (\<lambda>_.
                 done_with ok)))))"

definition reset_password :: "env \<Rightarrow> string \<Rightarrow> string \<Rightarrow> response action" where
  "reset_password sv token password =
     andthen (require (valid_password password) (err 400 ''password must be at least 8 characters'')) (\<lambda>_.
     andthen (ctl sv ''consume_email_token''
       (total (consume_email_token (sv_key_hash sv) (sv_now sv) token ''reset''))) (\<lambda>r.
     andthen (need (Option.bind r id) (err 400 ''invalid or expired reset link'')) (\<lambda>uid.
     andthen (need (sv_hash_password sv password) (err 500 ''could not hash password'')) (\<lambda>hash.
     andthen (ctl sv ''set_password'' (effect (set_password uid hash))) (\<lambda>s.
     andthen (need s (err 500 ''could not set password'')) (\<lambda>_.
     andthen (ctl sv ''revoke_sessions_for_user'' (total (revoke_sessions_for_user uid))) (\<lambda>_.
     andthen (ctl sv ''mark_email_verified'' (effect (mark_email_verified (sv_now sv) uid))) (\<lambda>_.
     andthen (audit sv (user_actor uid) ''auth.password_reset'' None (JObj [])) (\<lambda>_.
     done_with (reply 200 (JObj [(''ok'', JBool True)])))))))))))"

section \<open>Login and logout\<close>

definition sso_enforced_refusal :: "env \<Rightarrow> string \<Rightarrow> unit action" where
  "sso_enforced_refusal sv email =
     (case sv_login_denied sv email of None \<Rightarrow> done_with () | Some message \<Rightarrow> stop (err 403 message))"

definition login :: "env \<Rightarrow> Creds \<Rightarrow> response action" where
  "login sv c =
     (let email = sv_to_lowercase sv (trim (cr_email c)); wrong = err 401 ''wrong email or password''
      in andthen (sso_enforced_refusal sv email) (\<lambda>_.
         andthen (look sv ''user_auth_by_email'' (user_auth_by_email email)) (\<lambda>row.
         andthen (need (Option.bind row id) wrong) (\<lambda>(user_id, hash).
         if \<not> sv_verify_password sv (cr_password c) hash then
           andthen (audit sv (user_actor user_id) ''auth.login_failed'' None (JObj [])) (\<lambda>_. stop wrong)
         else
         andthen (look sv ''email_verified'' (email_verified user_id)) (\<lambda>v.
         if \<not> sv_self_hosted sv \<and> v \<noteq> Some True then
           andthen (send_verification sv user_id email (sv_valid_plan sv (cr_plan c)) (cr_invite c)) (\<lambda>_.
           stop (err 403 ''verify your email first; we just sent you a fresh link''))
         else
         andthen (audit sv (user_actor user_id) ''auth.login'' None (JObj [])) (\<lambda>_.
         andthen (look sv ''primary_org'' (primary_org user_id)) (\<lambda>p.
         andthen (if \<not> sv_self_hosted sv \<and> Option.bind p id = None then provision_personal_org sv user_id else done_with ()) (\<lambda>_.
         andthen (start_session sv user_id) (\<lambda>s.
         andthen (need s (err 500 ''could not start session'')) (\<lambda>_.
         andthen (prefer_org sv user_id (cr_org_id c)) (\<lambda>_.
         andthen (look sv ''primary_org'' (primary_org user_id)) (\<lambda>p.
         done_with (with_cookie (session_cookie sv (new_session_token sv)) 200
           (JObj [(''email'', JStr email),
                  (''plan'', JStr (case Option.bind p id of Some g \<Rightarrow> o_plan g | None \<Rightarrow> ''free''))]))))))))))))))"

definition logout :: "env \<Rightarrow> string option \<Rightarrow> response action" where
  "logout sv cookie =
     andthen (case Option.bind cookie (\<lambda>raw. first_some (\<lambda>c. strip_prefix (trim c) (COOKIE_NAME @ ''=''))
         (split_all CHR '';'' raw)) of
       None \<Rightarrow> done_with ()
     | Some token \<Rightarrow> andthen (ctl sv ''delete_session'' (effect (delete_session (sv_key_hash sv) token))) (\<lambda>_. done_with ())) (\<lambda>_.
     done_with (with_cookie (cleared_cookie sv) 200 (JObj [(''ok'', JBool True)])))"

end
