(* ===== verification/Organizations.thy ===== *)
theory Organizations
  imports Accounts
begin

text \<open>
  Organizations: the handlers of \<open>src/auth/organizations.rs\<close> and \<open>src/auth/account.rs\<close> for switching,
  creating, renaming and deleting organizations, invitations, members, roles and seats.
\<close>

section \<open>Organizations\<close>

definition set_active_org :: "env \<Rightarrow> string option \<Rightarrow> int \<Rightarrow> response action" where
  "set_active_org sv cookie org_id =
     andthen (current_user sv cookie) (\<lambda>u.
     andthen (need u (err 401 ''not signed in'')) (\<lambda>user.
     andthen (need (cookie_value cookie COOKIE_NAME) (err 401 ''not signed in'')) (\<lambda>token.
     andthen (ctl sv ''set_session_org''
       (total (set_session_org (sv_key_hash sv) (sv_now sv) token (u_id user) org_id))) (\<lambda>r.
     andthen (need r (err 500 ''could not switch organization'')) (\<lambda>ok.
     andthen (require ok (err 404 ''organization not found'')) (\<lambda>_.
     andthen (audit sv (user_actor (u_id user)) ''org.switch'' (Some org_id) (JObj [])) (\<lambda>_.
     done_with (reply 200 (JObj [(''ok'', JBool True), (''orgId'', jint org_id)])))))))))"

definition valid_org_name :: "string \<Rightarrow> bool" where
  "valid_org_name name \<longleftrightarrow> name \<noteq> [] \<and> length name \<le> 80"

text \<open>
  \<open>Tenancy::offboard_data\<close>: the objects of the scope, then the database, then the cached mapping. The
  tenant database itself is gone with its entry.
\<close>

definition offboard_data :: "env \<Rightarrow> int \<Rightarrow> unit option action" where
  "offboard_data sv org_id a =
     (if sv_fails sv ''tenant'' then (Ok None, a)
      else
        (let (blobs_ok, fs) = (case tenant (sv_decrypt sv) org_id (registry_of a) of
               None \<Rightarrow> (True, app_files a)
             | Some r \<Rightarrow> (case delete_scope (\<not> sv_fails sv ''delete_scope'') (sv_blob_root sv) (tr_blob_scope r) (app_files a) of
                 (n, fs) \<Rightarrow> (n \<noteq> None, fs)));
             a1 = a\<lparr>app_files := fs\<rparr>
         in if \<not> blobs_ok then (Ok None, a1)
            else (case provider_deprovision (\<not> sv_fails sv ''connect'') (\<not> sv_fails sv ''drop_database'') (sv_provider sv)
                    org_id (databases (app_registry a)) of
                (False, _) \<Rightarrow> (Ok None, a1)
              | (True, dbs) \<Rightarrow>
                  (Ok (Some ()), a1\<lparr>app_registry := (app_registry a)\<lparr>databases := dbs\<rparr>,
                                    app_resolver := invalidate org_id (app_resolver a)\<rparr>))))"

text \<open>The registry row of a deleted organization goes with it.\<close>

definition delete_org_cascade :: "env \<Rightarrow> int \<Rightarrow> bool option action" where
  "delete_org_cascade sv org_id a =
     (if sv_fails sv ''delete_org'' then (Ok None, a)
      else (case delete_org_row org_id (app_control a) of (r, db) \<Rightarrow>
        (Ok (Some r), a\<lparr>app_control := db, app_registry := delete_tenant_org org_id (app_registry a)\<rparr>)))"

definition create_org_request :: "env \<Rightarrow> string option \<Rightarrow> string \<Rightarrow> response action" where
  "create_org_request sv cookie raw_name =
     (let name = trim raw_name; failed = err 500 ''could not create organization''
      in andthen (require (\<not> sv_self_hosted sv) (err 400 ''self-hosted ReproIt uses one organization'')) (\<lambda>_.
         andthen (current_user sv cookie) (\<lambda>u.
         andthen (need u (err 401 ''not signed in'')) (\<lambda>user.
         andthen (require (valid_org_name name) (err 400 ''organization name required'')) (\<lambda>_.
         andthen (ctl sv ''create_org'' (total (create_org name False))) (\<lambda>r.
         andthen (need r failed) (\<lambda>org_id.
         andthen (ctl sv ''add_member'' (add_member org_id (u_id user) ''owner'')) (\<lambda>m.
         andthen (if m = None
           then andthen (delete_org_cascade sv org_id) (\<lambda>_. stop failed)
           else done_with ()) (\<lambda>_.
         andthen (tenancy_provision sv org_id) (\<lambda>rec.
         andthen (require (rec \<noteq> None) (err 500 ''could not provision organization (retry shortly)'')) (\<lambda>_.
         andthen (case cookie_value cookie COOKIE_NAME of
             None \<Rightarrow> done_with None
           | Some token \<Rightarrow> ctl sv ''set_session_org''
               (total (set_session_org (sv_key_hash sv) (sv_now sv) token (u_id user) org_id))) (\<lambda>_.
         andthen (audit sv (user_actor (u_id user)) ''org.create'' (Some org_id) (JObj [(''name'', JStr name)])) (\<lambda>_.
         done_with (reply 201 (JObj [(''id'', jint org_id), (''name'', JStr name)])))))))))))))))"

definition rename_org :: "env \<Rightarrow> string option \<Rightarrow> string \<Rightarrow> response action" where
  "rename_org sv cookie raw_name =
     andthen (user_and_org sv cookie) (\<lambda>(user, org).
     andthen (require (can_manage (o_role org)) (err 403 ''only owners/admins can rename the organization'')) (\<lambda>_.
     let name = trim raw_name
     in andthen (require (valid_org_name name) (err 400 ''organization name required'')) (\<lambda>_.
        andthen (ctl sv ''rename_org'' (total (rename_org_row (o_id org) name))) (\<lambda>r.
        andthen (require (r = Some True) (err 500 ''could not rename organization'')) (\<lambda>_.
        andthen (audit sv (user_actor (u_id user)) ''org.rename'' (Some (o_id org)) (JObj [(''name'', JStr name)])) (\<lambda>_.
        done_with (reply 200 (JObj [(''name'', JStr name), (''ok'', JBool True)]))))))))"

definition delete_org_request :: "env \<Rightarrow> string option \<Rightarrow> string \<Rightarrow> response action" where
  "delete_org_request sv cookie confirm =
     andthen (user_and_org sv cookie) (\<lambda>(user, org).
     andthen (require (o_role org = ''owner'') (err 403 ''only the organization owner can delete it'')) (\<lambda>_.
     andthen (require (confirm = o_name org) (err 400 ''type the exact organization name to confirm deletion'')) (\<lambda>_.
     andthen (require (\<not> sv_self_hosted sv) (err 400 ''self-hosted workspace deletion is managed by the deployment owner'')) (\<lambda>_.
     andthen (look sv ''org_is_personal'' (org_is_personal (o_id org))) (\<lambda>p.
     andthen (require (Option.bind p id = Some False) (err 400 ''the personal workspace is deleted through account deletion'')) (\<lambda>_.
     andthen (require (o_plan org = ''free'') (err 409 ''cancel the active subscription and wait for the plan to become free'')) (\<lambda>_.
     andthen (offboard_data sv (o_id org)) (\<lambda>d.
     andthen (need d (err 500 ''could not delete organization data'')) (\<lambda>_.
     andthen (delete_org_cascade sv (o_id org)) (\<lambda>r.
     andthen (need r (err 500 ''could not finish organization deletion; retry'')) (\<lambda>ok.
     andthen (require ok (err 404 ''organization not found'')) (\<lambda>_.
     andthen (look sv ''list_user_orgs'' (list_user_orgs (sv_to_lowercase sv) (u_id user))) (\<lambda>l.
     let next_org = (case l of Some (s # _) \<Rightarrow> Some (sm_id s) | _ \<Rightarrow> None)
     in andthen (case (cookie_value cookie COOKIE_NAME, next_org) of
            (Some token, Some next_id) \<Rightarrow> ctl sv ''set_session_org''
              (total (set_session_org (sv_key_hash sv) (sv_now sv) token (u_id user) next_id))
          | _ \<Rightarrow> done_with None) (\<lambda>_.
        andthen (audit sv (user_actor (u_id user)) ''org.delete'' (Some (o_id org))
          (JObj [(''name'', JStr (o_name org)), (''nextOrgId'', jopt jint next_org)])) (\<lambda>_.
        done_with (reply 200 (JObj [(''ok'', JBool True), (''orgId'', jopt jint next_org)])))))))))))))))))"

section \<open>Invitations\<close>

definition invite_role :: "string option \<Rightarrow> string" where
  "invite_role role = (if role = Some ''admin'' then ''admin'' else ''member'')"

definition deliver_invitation :: "env \<Rightarrow> OrgInvitation \<Rightarrow> string \<Rightarrow> unit option action" where
  "deliver_invitation sv i raw_token =
     send_mail sv (oi_email i) (invitation_email (oi_org_name i) (public_base sv @ ''/invite?token='' @ raw_token))"

definition invite_member :: "env \<Rightarrow> string option \<Rightarrow> string \<Rightarrow> string option \<Rightarrow> response action" where
  "invite_member sv cookie raw_email raw_role =
     andthen (user_and_org sv cookie) (\<lambda>(user, org).
     andthen (require (can_manage (o_role org)) (err 403 ''only owners/admins can invite members'')) (\<lambda>_.
     let email = sv_to_lowercase sv (trim raw_email); raw_token = new_session_token sv; role = invite_role raw_role;
         failed = err 500 ''could not create invitation''
     in andthen (require (valid_email email) (err 400 ''enter a valid email'')) (\<lambda>_.
        andthen (look sv ''find_user_id_by_email'' (find_user_id_by_email email)) (\<lambda>f.
        andthen (case Option.bind f id of
            None \<Rightarrow> done_with ()
          | Some target \<Rightarrow> andthen (look sv ''org_role'' (org_role (o_id org) target)) (\<lambda>r.
              require (Option.bind r id = None) (err 409 ''that person is already a member''))) (\<lambda>_.
        andthen (ctl sv ''upsert_org_invitation'' (upsert_org_invitation (sv_key_hash sv) (sv_now sv) (o_id org) email role
          True (u_id user) raw_token INVITE_TTL_SECS (sv_seat_limit sv (o_id org)))) (\<lambda>r.
        andthen (need r failed) (\<lambda>i.
        andthen (need i (err 402 ''seat limit reached for this plan; upgrade to invite another member'')) (\<lambda>invitation_id.
        andthen (look sv ''org_invitation_by_token'' (org_invitation_by_token (sv_key_hash sv) (sv_now sv) raw_token)) (\<lambda>t.
        andthen (need (Option.bind t id) failed) (\<lambda>invitation.
        andthen (deliver_invitation sv invitation raw_token) (\<lambda>d.
        andthen (need d (err 502 ''invitation saved, but the email could not be sent'')) (\<lambda>_.
        andthen (audit sv (user_actor (u_id user)) ''member.invite'' (Some (o_id org))
          (JObj [(''email'', JStr email), (''invitationId'', jint invitation_id), (''role'', JStr role)])) (\<lambda>_.
        done_with (reply 201 (JObj [(''email'', JStr (oi_email invitation)),
          (''expiresAt'', JStr (sv_rfc3339 sv (oi_expires_at invitation))), (''id'', jint (oi_id invitation)),
          (''role'', JStr (oi_role invitation)), (''seat'', JBool (oi_seat invitation))])))))))))))))))"

definition resend_invitation :: "env \<Rightarrow> string option \<Rightarrow> int \<Rightarrow> response action" where
  "resend_invitation sv cookie invitation_id =
     andthen (user_and_org sv cookie) (\<lambda>(user, org).
     andthen (require (can_manage (o_role org)) (err 403 ''only owners/admins can resend invitations'')) (\<lambda>_.
     andthen (ctl sv ''refresh_org_invitation'' (refresh_org_invitation (sv_key_hash sv) (sv_now sv) (o_id org) invitation_id
       (new_session_token sv) INVITE_TTL_SECS)) (\<lambda>r.
     andthen (need r (err 500 ''could not refresh invitation'')) (\<lambda>i.
     andthen (need i (err 404 ''invitation not found'')) (\<lambda>invitation.
     andthen (deliver_invitation sv invitation (new_session_token sv)) (\<lambda>d.
     andthen (need d (err 502 ''invitation refreshed, but the email could not be sent'')) (\<lambda>_.
     andthen (audit sv (user_actor (u_id user)) ''member.invite_resend'' (Some (o_id org))
       (JObj [(''invitationId'', jint (oi_id invitation))])) (\<lambda>_.
     done_with (reply 200 (JObj [(''expiresAt'', JStr (sv_rfc3339 sv (oi_expires_at invitation))), (''ok'', JBool True)]))))))))))"

definition revoke_invitation :: "env \<Rightarrow> string option \<Rightarrow> int \<Rightarrow> response action" where
  "revoke_invitation sv cookie invitation_id =
     andthen (user_and_org sv cookie) (\<lambda>(user, org).
     andthen (require (can_manage (o_role org)) (err 403 ''only owners/admins can revoke invitations'')) (\<lambda>_.
     andthen (ctl sv ''revoke_org_invitation'' (total (revoke_org_invitation (o_id org) invitation_id))) (\<lambda>r.
     andthen (need r (err 500 ''could not revoke invitation'')) (\<lambda>ok.
     andthen (require ok (err 404 ''invitation not found'')) (\<lambda>_.
     andthen (audit sv (user_actor (u_id user)) ''member.invite_revoke'' (Some (o_id org))
       (JObj [(''invitationId'', jint invitation_id)])) (\<lambda>_.
     done_with (reply 200 (JObj [(''ok'', JBool True)]))))))))"

definition invitation_preview :: "env \<Rightarrow> string \<Rightarrow> response action" where
  "invitation_preview sv token =
     andthen (look sv ''org_invitation_by_token'' (org_invitation_by_token (sv_key_hash sv) (sv_now sv) token)) (\<lambda>r.
     andthen (need (Option.bind r id) (err 404 ''invitation is invalid or expired'')) (\<lambda>i.
     done_with (reply 200 (JObj [(''email'', JStr (oi_email i)), (''expiresAt'', JStr (sv_rfc3339 sv (oi_expires_at i))),
       (''organization'', JStr (oi_org_name i)), (''role'', JStr (oi_role i))]))))"

definition accept_invitation :: "env \<Rightarrow> string option \<Rightarrow> string \<Rightarrow> response action" where
  "accept_invitation sv cookie token =
     andthen (current_user sv cookie) (\<lambda>u.
     andthen (need u (err 401 ''sign in to accept this invitation'')) (\<lambda>user.
     andthen (need (cookie_value cookie COOKIE_NAME) (err 401 ''sign in to accept this invitation'')) (\<lambda>session_token.
     andthen (ctl sv ''accept_org_invitation''
       (accept_org_invitation (sv_key_hash sv) (sv_now sv) token (u_id user) (u_email user))) (\<lambda>r.
     andthen (need r (err 500 ''could not accept invitation'')) (\<lambda>o'.
     andthen (need o' (err 400 ''invitation is invalid, expired, or belongs to another email'')) (\<lambda>org_id.
     andthen (ctl sv ''set_session_org''
       (total (set_session_org (sv_key_hash sv) (sv_now sv) session_token (u_id user) org_id))) (\<lambda>s.
     andthen (require (s = Some True) (err 500 ''could not open organization'')) (\<lambda>_.
     andthen (audit sv (user_actor (u_id user)) ''member.invite_accept'' (Some org_id) (JObj [])) (\<lambda>_.
     done_with (reply 200 (JObj [(''ok'', JBool True), (''orgId'', jint org_id)])))))))))))"

section \<open>Members, roles and seats\<close>

definition add_member_request :: "env \<Rightarrow> string option \<Rightarrow> string \<Rightarrow> string option \<Rightarrow> response action" where
  "add_member_request sv cookie raw_email raw_role =
     andthen (user_and_org sv cookie) (\<lambda>(_, org).
     andthen (require (can_manage (o_role org)) (err 403 ''only owners/admins can add members'')) (\<lambda>_.
     let email = sv_to_lowercase sv (trim raw_email); role = invite_role raw_role
     in andthen (look sv ''find_user_id_by_email'' (find_user_id_by_email email)) (\<lambda>f.
        andthen (need (Option.bind f id) (err 404 ''no Repro It account with that email (they must sign up first)'')) (\<lambda>target.
        andthen (ctl sv ''add_member'' (add_member (o_id org) target role)) (\<lambda>r.
        andthen (need r (err 500 ''could not add member'')) (\<lambda>_.
        done_with (reply 200 (JObj [(''email'', JStr email), (''role'', JStr role)]))))))))"

definition parse_role :: "Org \<Rightarrow> string \<Rightarrow> string action" where
  "parse_role org role =
     (if role \<in> {''none'', ''no_access'', ''no-access''} then done_with ''none''
      else if role = ''owner'' then
        andthen (require (o_role org = ''owner'') (err 403 ''only owners can grant owner'')) (\<lambda>_. done_with ''owner'')
      else if role = ''admin'' then done_with ''admin''
      else if role = ''member'' then done_with ''member''
      else stop (err 400 ''role must be none, owner, admin, or member''))"

definition set_member_role :: "env \<Rightarrow> string option \<Rightarrow> int \<Rightarrow> string \<Rightarrow> response action" where
  "set_member_role sv cookie user_id raw_role =
     andthen (user_and_org sv cookie) (\<lambda>(_, org).
     andthen (require (can_manage (o_role org)) (err 403 ''only owners/admins can manage roles'')) (\<lambda>_.
     andthen (parse_role org raw_role) (\<lambda>role.
     let ok = reply 200 (JObj [(''role'', JStr role), (''userId'', jint user_id)]);
         failed = err 500 ''could not update role''
     in andthen (look sv ''org_role'' (org_role (o_id org) user_id)) (\<lambda>c.
        let current_role = Option.bind c id
        in andthen (if current_role = None \<and> role = ''none'' then stop ok else done_with ()) (\<lambda>_.
           andthen (require (\<not> (current_role = Some ''owner'' \<and> o_role org \<noteq> ''owner''))
             (err 403 ''only owners can change owner roles'')) (\<lambda>_.
           andthen (if current_role = Some ''owner'' \<and> role \<noteq> ''owner'' then
               andthen (look sv ''count_owners'' (count_owners (o_id org))) (\<lambda>n.
               require (\<not> (case n of Some k \<Rightarrow> k | None \<Rightarrow> 1) \<le> 1) (err 400 ''cannot demote the last owner''))
             else done_with ()) (\<lambda>_.
           andthen (if role = ''none'' then
               andthen (ctl sv ''remove_member'' (effect (drop_member (o_id org) user_id))) (\<lambda>r. need r failed)
             else if current_role = None then
               andthen (ctl sv ''add_member'' (add_member (o_id org) user_id role)) (\<lambda>r. need r failed)
             else
               andthen (ctl sv ''set_member_role'' (total (set_role (o_id org) user_id role))) (\<lambda>r.
               require (r = Some True) failed)) (\<lambda>_.
           done_with ok))))))))"

definition remove_member :: "env \<Rightarrow> string option \<Rightarrow> int \<Rightarrow> response action" where
  "remove_member sv cookie user_id =
     andthen (user_and_org sv cookie) (\<lambda>(_, org).
     andthen (require (can_manage (o_role org)) (err 403 ''only owners/admins can remove members'')) (\<lambda>_.
     andthen (look sv ''org_role'' (org_role (o_id org) user_id)) (\<lambda>r.
     andthen (require (Option.bind r id \<noteq> Some ''owner'') (err 400 ''cannot remove an owner'')) (\<lambda>_.
     andthen (ctl sv ''remove_member'' (effect (drop_member (o_id org) user_id))) (\<lambda>d.
     andthen (need d (err 500 ''could not remove member'')) (\<lambda>_.
     done_with (reply 200 (JObj [(''ok'', JBool True)]))))))))"

definition set_seat :: "env \<Rightarrow> string option \<Rightarrow> int \<Rightarrow> bool \<Rightarrow> response action" where
  "set_seat sv cookie user_id seat =
     andthen (user_and_org sv cookie) (\<lambda>(user, org).
     andthen (require (can_manage (o_role org)) (err 403 ''only owners/admins can assign seats'')) (\<lambda>_.
     andthen (look sv ''org_role'' (org_role (o_id org) user_id)) (\<lambda>r.
     andthen (require (Option.bind r id \<noteq> None) (err 404 ''no such member in this org'')) (\<lambda>_.
     andthen (case (seat, sv_seat_limit sv (o_id org)) of
         (True, Some limit) \<Rightarrow>
           andthen (look sv ''count_seats'' (count_seats (o_id org))) (\<lambda>used.
           andthen (look sv ''has_seat'' (has_seat (o_id org) user_id)) (\<lambda>already.
           require (already = Some True \<or> (case used of Some n \<Rightarrow> n | None \<Rightarrow> 0) < limit)
             (err 402 ''hosted seat limit reached for this plan; upgrade to add more seats'')))
       | _ \<Rightarrow> done_with ()) (\<lambda>_.
     andthen (ctl sv ''set_seat'' (total (set_seat_row (o_id org) user_id seat))) (\<lambda>m.
     andthen (require (m = Some True) (err 500 ''could not update seat'')) (\<lambda>_.
     andthen (audit sv (user_actor (u_id user)) ''seat.set'' (Some (o_id org))
       (JObj [(''seat'', JBool seat), (''target'', jint user_id)])) (\<lambda>_.
     done_with (reply 200 (JObj [(''seat'', JBool seat), (''userId'', jint user_id)]))))))))))"

end
