(* ===== verification/Access.thy ===== *)
theory Access
  imports Accounts
begin

text \<open>
  Who may call the service: bearer credentials, the host and origin checks of \<open>src/http_security.rs\<close>,
  and the resolution of a caller to its tenant (\<open>App::tenant_of\<close> of \<open>src/lib.rs\<close>, \<open>tenant_for\<close> of
  \<open>src/ingest/mod.rs\<close>). A header that is present but not text is \<open>Some None\<close>.
\<close>

record headers =
  hd_cookie :: "string option"
  hd_authorization :: "string option option"
  hd_tenant :: "string option option"

section \<open>Hosts\<close>

definition to_ascii_lowercase :: "string \<Rightarrow> string" where
  "to_ascii_lowercase = map (\<lambda>c. if is_ascii_uppercase c then char_of (byte c + 32) else c)"

definition trim_end_dots :: "string \<Rightarrow> string" where
  "trim_end_dots s = rev (dropWhile (\<lambda>c. c = CHR ''.'') (rev s))"

definition normalize_host :: "string \<Rightarrow> string option" where
  "normalize_host value =
     (let host = to_ascii_lowercase (trim_end_dots (trim value))
      in if host = [] then None
         else if starts_with host ''['' then
           Some (case split_once CHR '']'' host of Some (h, _) \<Rightarrow> h @ '']'' | None \<Rightarrow> host)
         else Some (case split_once CHR '':'' host of Some (name, _) \<Rightarrow> name | None \<Rightarrow> host))"

definition configured_allowed_hosts :: "env \<Rightarrow> string set" where
  "configured_allowed_hosts sv = set (List.map_filter normalize_host
     (split_all CHR '','' (case sv_vars sv ''REPROIT_ALLOWED_HOSTS'' of Some v \<Rightarrow> v | None \<Rightarrow> [])))"

definition host_is_allowed :: "string option \<Rightarrow> string set \<Rightarrow> bool" where
  "host_is_allowed host allowed \<longleftrightarrow> allowed = {} \<or> (case Option.bind host normalize_host of Some h \<Rightarrow> h \<in> allowed | None \<Rightarrow> False)"

definition allowed_host :: "env \<Rightarrow> string option \<Rightarrow> unit action" where
  "allowed_host sv host = require (host_is_allowed host (configured_allowed_hosts sv)) (err 421 ''not found'')"

section \<open>Bearer credentials\<close>

datatype BearerError = Missing | Malformed

definition http_bearer :: "headers \<Rightarrow> (BearerError, string) result" where
  "http_bearer hs =
     (case hd_authorization hs of
        None \<Rightarrow> Err Missing
      | Some None \<Rightarrow> Err Malformed
      | Some (Some raw) \<Rightarrow>
          (case strip_prefix raw ''Bearer '' of
             None \<Rightarrow> Err Malformed
           | Some token \<Rightarrow> if trim token = [] then Err Malformed else Ok token))"

definition api_auth_error :: "(BearerError, string) result \<Rightarrow> response" where
  "api_auth_error b = err 401 (case b of
       Inl Missing \<Rightarrow> ''missing Authorization header: send `Authorization: Bearer <api key>` using an org API key (`sk_live_...`) or the configured `REPROIT_API_KEY` admin token''
     | Inl Malformed \<Rightarrow> ''invalid Authorization header: expected `Authorization: Bearer <api key>`; do not include quotes, prefixes other than Bearer, or redacted tokens''
     | Inr _ \<Rightarrow> ''invalid API key: use an active org API key (`sk_live_...`) or the server's configured `REPROIT_API_KEY` admin token'')"

definition worker_auth_error :: "bool \<Rightarrow> (BearerError, string) result \<Rightarrow> response" where
  "worker_auth_error configured b =
     (if \<not> configured
      then err 503 ''worker auth is not configured on this server: set `REPROIT_WORKER_TOKEN` and send it as `Authorization: Bearer <worker token>`''
      else err 401 (case b of
        Inl Missing \<Rightarrow> ''missing Authorization header: worker requests must send `Authorization: Bearer <worker token>` matching `REPROIT_WORKER_TOKEN`''
      | Inl Malformed \<Rightarrow> ''invalid Authorization header: expected `Authorization: Bearer <worker token>` for the worker API''
      | Inr _ \<Rightarrow> ''invalid worker token: send the exact `REPROIT_WORKER_TOKEN` value as `Authorization: Bearer <worker token>`''))"

datatype AuthCtx = Admin | Org int

record KeyScope =
  ks_project_id :: "int option"
  ks_user_id :: "int option"
  ks_publishable :: bool

definition OPEN :: KeyScope where
  "OPEN = \<lparr>ks_project_id = None, ks_user_id = None, ks_publishable = False\<rparr>"

definition shared_key :: "env \<Rightarrow> string option" where
  "shared_key sv = (case sv_vars sv ''REPROIT_API_KEY'' of Some k \<Rightarrow> if k = [] then None else Some k | None \<Rightarrow> None)"

definition tenant_header :: "headers \<Rightarrow> int option" where
  "tenant_header hs = Option.bind (Option.bind (hd_tenant hs) id) (\<lambda>v. parse_i64 (trim v))"

text \<open>The gate of the protected routes: what it puts into the request, or the refusal.\<close>

definition resolve_api_auth :: "env \<Rightarrow> headers \<Rightarrow> string \<Rightarrow> string \<Rightarrow> bool \<Rightarrow> (AuthCtx \<times> KeyScope) action" where
  "resolve_api_auth sv hs meth uri_path allow_publishable =
     (let token = http_bearer hs;
          fallback = (if dev_open sv then done_with (Admin, OPEN) else stop (api_auth_error token))
      in case token of
           Inl _ \<Rightarrow> fallback
         | Inr t \<Rightarrow>
             if (case shared_key sv of Some k \<Rightarrow> ct_eq k t | None \<Rightarrow> False) then
               andthen (audit sv ''admin-key'' ''admin.request'' (tenant_header hs)
                 (JObj [(''method'', JStr meth), (''path'', JStr uri_path)])) (\<lambda>_.
               done_with (Admin, OPEN))
             else if \<not> allow_publishable \<and> is_publishable t then
               stop (err 403 ''publishable keys (pk_live_) may only POST /v1/events; use a secret key (sk_live_) for this endpoint'')
             else
               andthen (look sv ''org_for_api_key'' (org_for_api_key (sv_key_hash sv) (sv_now sv) t)) (\<lambda>r.
               andthen (need r (err 500 ''could not validate API key: check control database connectivity/config (`DATABASE_URL`) and retry'')) (\<lambda>k.
               case k of
                 Some (org_id, _, project_id, created_by) \<Rightarrow>
                   done_with (Org org_id, \<lparr>ks_project_id = project_id, ks_user_id = created_by, ks_publishable = is_publishable t\<rparr>)
               | None \<Rightarrow> fallback)))"

definition require_api_key :: "env \<Rightarrow> headers \<Rightarrow> string \<Rightarrow> string \<Rightarrow> (AuthCtx \<times> KeyScope) action" where
  "require_api_key sv hs meth uri_path = resolve_api_auth sv hs meth uri_path False"

definition require_ingest_key :: "env \<Rightarrow> headers \<Rightarrow> string \<Rightarrow> string \<Rightarrow> (AuthCtx \<times> KeyScope) action" where
  "require_ingest_key sv hs meth uri_path = resolve_api_auth sv hs meth uri_path True"

definition worker_tokens :: "env \<Rightarrow> string list" where
  "worker_tokens sv = filter (\<lambda>t. t \<noteq> []) (map trim
     (split_all CHR '','' (case sv_vars sv ''REPROIT_WORKER_TOKEN'' of Some v \<Rightarrow> v | None \<Rightarrow> [])))"

definition require_worker_token :: "env \<Rightarrow> headers \<Rightarrow> unit action" where
  "require_worker_token sv hs =
     (let want = worker_tokens sv; token = http_bearer hs;
          ok = (case token of Inl _ \<Rightarrow> False | Inr t \<Rightarrow> foldl (\<lambda>b w. b \<or> ct_eq w t) False want)
      in require (ok \<or> dev_open sv) (worker_auth_error (want \<noteq> []) token))"

section \<open>Origins\<close>

definition origin_of :: "string \<Rightarrow> string option" where
  "origin_of url =
     (case find_sub ''://'' url of
        None \<Rightarrow> None
      | Some i \<Rightarrow>
          (let scheme = take i url; rest = drop (i + 3) url;
               authority = takeWhile (\<lambda>c. c \<notin> {CHR ''/'', CHR ''?'', CHR ''#''}) rest
           in if scheme = [] \<or> rest = [] \<or> authority = [] then None
              else Some (to_ascii_lowercase scheme @ ''://'' @ authority)))"

definition csrf_allowed_origins :: "env \<Rightarrow> string list option" where
  "csrf_allowed_origins sv =
     (case sv_vars sv ''REPROIT_PUBLIC_URL'' of
        None \<Rightarrow> None
      | Some public \<Rightarrow>
          if trim public = [] then None
          else Some (foldl (\<lambda>allowed raw. case origin_of (trim raw) of
                 Some u \<Rightarrow> if u \<in> set allowed then allowed else allowed @ [u] | None \<Rightarrow> allowed)
               (case origin_of (trim public) of Some u \<Rightarrow> [u] | None \<Rightarrow> [])
               (case sv_vars sv ''REPROIT_CORS_ORIGINS'' of Some l \<Rightarrow> split_all CHR '','' l | None \<Rightarrow> [])))"

definition csrf_origin_allowed :: "string option \<Rightarrow> string list \<Rightarrow> bool" where
  "csrf_origin_allowed claimed allowed =
     (case claimed of
        None \<Rightarrow> True
      | Some u \<Rightarrow> (case origin_of u of Some n \<Rightarrow> n | None \<Rightarrow> u) \<in> set allowed)"

text \<open>\<open>origin\<close> and \<open>referer\<close> are the headers that are text.\<close>

definition csrf_origin_check :: "env \<Rightarrow> string \<Rightarrow> string option \<Rightarrow> string option \<Rightarrow> unit action" where
  "csrf_origin_check sv meth origin referer =
     (if meth \<notin> {''POST'', ''PUT'', ''PATCH'', ''DELETE''} then done_with ()
      else (case csrf_allowed_origins sv of
              None \<Rightarrow> done_with ()
            | Some allowed \<Rightarrow>
                require (csrf_origin_allowed (case origin of Some u \<Rightarrow> Some u | None \<Rightarrow> Option.bind referer origin_of) allowed)
                  (reply 403 JNull)))"

section \<open>The caller's tenant\<close>

datatype AdminTargetError = TargetMissing | TargetInvalid

fun target_message :: "AdminTargetError \<Rightarrow> string" where
  "target_message TargetMissing = ''admin API-key requests must include `X-Reproit-Tenant: <org_id>`; use an org-scoped `sk_live_...` key or choose the target tenant org id''"
| "target_message TargetInvalid = ''invalid `X-Reproit-Tenant` header: send a numeric tenant org id, for example `X-Reproit-Tenant: 123`''"

definition admin_target_result :: "headers \<Rightarrow> (AdminTargetError, int) result" where
  "admin_target_result hs =
     (case hd_tenant hs of
        None \<Rightarrow> Err TargetMissing
      | Some v \<Rightarrow> ok_or (Option.bind v (\<lambda>s. parse_i64 (trim s))) TargetInvalid)"

definition not_found :: response where "not_found = err 404 ''not found''"
definition server_error :: response where "server_error = err 500 ''internal error''"

definition tenant_of :: "env \<Rightarrow> AuthCtx \<Rightarrow> headers \<Rightarrow> Tenant action" where
  "tenant_of sv auth hs =
     andthen (case auth of
         Org i \<Rightarrow> done_with i
       | Admin \<Rightarrow> (case admin_target_result hs of Inl e \<Rightarrow> stop (err 400 (target_message e)) | Inr i \<Rightarrow> done_with i)) (\<lambda>org_id.
     andthen (tenancy_resolve sv org_id) (\<lambda>r.
     case r of
       Inr t \<Rightarrow> done_with t
     | Inl Internal \<Rightarrow> stop server_error
     | Inl _ \<Rightarrow> stop not_found))"

definition tenant_for :: "env \<Rightarrow> AuthCtx \<Rightarrow> headers \<Rightarrow> string \<Rightarrow> Tenant action" where
  "tenant_for sv auth hs app_id =
     andthen (tenant_of sv auth hs) (\<lambda>t.
     andthen (tlook sv t ''owns_app'' (owns_app app_id)) (\<lambda>r.
     if r = Some True then done_with t else stop not_found))"

end
