(* ===== verification/Projects.thy ===== *)
theory Projects
  imports Organizations Access
begin

text \<open>
  Projects and their keys: the handlers of \<open>src/auth/projects.rs\<close>, the rotation of publishable keys
  (\<open>src/auth/mod.rs\<close>, \<open>src/ingest/mod.rs\<close>) and the account views of \<open>src/auth/account.rs\<close>.
\<close>

section \<open>Creating projects\<close>

text \<open>Only ASCII letters and digits of the lower-cased name stay in the slug.\<close>

definition trim_hyphens :: "string \<Rightarrow> string" where
  "trim_hyphens s = rev (dropWhile (\<lambda>c. c = CHR ''-'') (rev (dropWhile (\<lambda>c. c = CHR ''-'') s)))"

definition slug_char :: "string \<Rightarrow> char" where
  "slug_char ch = (case ch of [c] \<Rightarrow> if is_ascii_alphanumeric c then c else CHR ''-'' | _ \<Rightarrow> CHR ''-'')"

definition new_app_id :: "env \<Rightarrow> string \<Rightarrow> string" where
  "new_app_id sv name =
     trim_hyphens (map slug_char (chars (sv_to_lowercase sv name))) @ ''-'' @ take 6 (sv_uuids sv 0)"

text \<open>The secret and the publishable key are inserted by separate calls, which fail independently.\<close>

definition mint_key :: "env \<Rightarrow> string \<Rightarrow> int \<Rightarrow> int \<Rightarrow> int \<Rightarrow> unit option action" where
  "mint_key sv secret org_id user_id project_id =
     ctl sv (if is_publishable secret then ''create_publishable_key'' else ''create_api_key'')
       (create_api_key (sv_key_hash sv) (sv_now sv) secret (api_key_prefix secret) org_id user_id (Some project_id))"

definition drop_project :: "env \<Rightarrow> Tenant \<Rightarrow> int \<Rightarrow> unit action" where
  "drop_project sv t project_id =
     andthen (tctl sv t ''delete_project'' (\<lambda>db. (Some (), delete_project_row project_id db))) (\<lambda>_. done_with ())"

definition create_project_for :: "env \<Rightarrow> int \<Rightarrow> int \<Rightarrow> string \<Rightarrow> string \<Rightarrow> response action" where
  "create_project_for sv org_id user_id role requested_name =
     (let name = trim requested_name; app_id = new_app_id sv name; failed = err 500 ''could not create project'';
          key = new_api_key sv; pub_key = new_publishable_key sv
      in andthen (require (can_manage role) (err 403 ''only owners/admins can create projects'')) (\<lambda>_.
         andthen (require (valid_org_name name) (err 400 ''project name required'')) (\<lambda>_.
         andthen (tenancy_resolve sv org_id) (\<lambda>r.
         andthen (case r of Inl _ \<Rightarrow> stop failed | Inr t \<Rightarrow> done_with t) (\<lambda>t.
         andthen (case sv_app_limit sv org_id of
             None \<Rightarrow> done_with ()
           | Some limit \<Rightarrow> andthen (tlook sv t ''count_projects'' count_projects) (\<lambda>n.
               require ((case n of Some k \<Rightarrow> k | None \<Rightarrow> 0) < limit)
                 (err 402 ''app limit reached for this plan; upgrade to add more apps''))) (\<lambda>_.
         andthen (tctl sv t ''create_project'' (create_project user_id name app_id)) (\<lambda>p.
         andthen (need p failed) (\<lambda>project_id.
         andthen (mint_key sv key org_id user_id project_id) (\<lambda>k1.
         andthen (if k1 = None
           then andthen (drop_project sv t project_id) (\<lambda>_. stop (err 500 ''could not mint API key''))
           else done_with ()) (\<lambda>_.
         andthen (mint_key sv pub_key org_id user_id project_id) (\<lambda>k2.
         andthen (if k2 = None
           then andthen (ctl sv ''delete_api_key'' (effect (delete_api_key (sv_key_hash sv) key))) (\<lambda>_.
                andthen (drop_project sv t project_id) (\<lambda>_. stop (err 500 ''could not mint publishable key'')))
           else done_with ()) (\<lambda>_.
         andthen (audit sv (user_actor user_id) ''apikey.create'' (Some org_id)
           (JObj [(''prefix'', JStr (api_key_prefix key)), (''project'', jint project_id),
                  (''publishablePrefix'', JStr (api_key_prefix pub_key))])) (\<lambda>_.
         done_with (reply 201 (JObj [(''apiKey'', JStr key), (''apiKeyPrefix'', JStr (api_key_prefix key)),
           (''appId'', JStr app_id), (''id'', jint project_id), (''name'', JStr name),
           (''publishableKey'', JStr pub_key), (''publishableKeyPrefix'', JStr (api_key_prefix pub_key))])))))))))))))))"

definition create_project_request :: "env \<Rightarrow> string option \<Rightarrow> string \<Rightarrow> response action" where
  "create_project_request sv cookie name =
     andthen (user_and_org sv cookie) (\<lambda>(user, org). create_project_for sv (o_id org) (u_id user) (o_role org) name)"

text \<open>The caller of the project routes for automation: an account token of a member.\<close>

definition account_token :: "env \<Rightarrow> AuthCtx \<Rightarrow> KeyScope \<Rightarrow> string \<Rightarrow> (int \<times> int \<times> string) action" where
  "account_token sv auth scope what =
     andthen (case auth of Org i \<Rightarrow> done_with i | Admin \<Rightarrow> stop (err 403 ''an account token is required'')) (\<lambda>org_id.
     andthen (need (ks_user_id scope) (err 403 ''an account token is required'')) (\<lambda>user_id.
     andthen (require (ks_project_id scope = None \<and> \<not> ks_publishable scope) (err 403 what)) (\<lambda>_.
     andthen (look sv ''org_role'' (org_role org_id user_id)) (\<lambda>r.
     andthen (need (Option.bind r id) (err 403 ''organization membership required'')) (\<lambda>role.
     done_with (org_id, user_id, role))))))"

definition create_project_api :: "env \<Rightarrow> AuthCtx \<Rightarrow> KeyScope \<Rightarrow> string \<Rightarrow> response action" where
  "create_project_api sv auth scope name =
     andthen (account_token sv auth scope ''project-scoped keys cannot create projects'') (\<lambda>(org_id, user_id, role).
     create_project_for sv org_id user_id role name)"

section \<open>Deleting projects\<close>

text \<open>The objects are deleted one by one; the first failure ends the request.\<close>

fun delete_blobs :: "env \<Rightarrow> Tenant \<Rightarrow> string list \<Rightarrow> unit action" where
  "delete_blobs sv t [] = done_with ()"
| "delete_blobs sv t (k # ks) =
     andthen (\<lambda>a. case blob_delete (\<not> sv_fails sv (''blob:'' @ k)) (sv_blob_root sv) (t_blob_scope t) k (app_files a) of
         (ok, fs) \<Rightarrow> (Ok ok, a\<lparr>app_files := fs\<rparr>)) (\<lambda>ok.
     andthen (require ok (err 500 ''could not delete project evidence; nothing else was removed'')) (\<lambda>_.
     delete_blobs sv t ks))"

definition delete_project_for :: "env \<Rightarrow> int \<Rightarrow> int \<Rightarrow> string \<Rightarrow> string \<Rightarrow> string \<Rightarrow> response action" where
  "delete_project_for sv org_id user_id role app_id confirmation =
     (let failed = err 500 ''could not open project''; missing = err 404 ''project not found''
      in andthen (require (can_manage role) (err 403 ''only owners/admins can delete projects'')) (\<lambda>_.
         andthen (tenancy_resolve sv org_id) (\<lambda>r.
         andthen (case r of Inl _ \<Rightarrow> stop failed | Inr t \<Rightarrow> done_with t) (\<lambda>t.
         andthen (tlook sv t ''project_for_app'' (project_for_app app_id)) (\<lambda>p.
         andthen (need p failed) (\<lambda>found.
         andthen (need found missing) (\<lambda>(project_id, project_name).
         andthen (require (confirmation = project_name) (err 400 ''type the exact project name to confirm deletion'')) (\<lambda>_.
         andthen (tlook sv t ''project_evidence_keys'' (project_evidence_keys app_id)) (\<lambda>ks.
         andthen (need ks (err 500 ''could not enumerate project evidence'')) (\<lambda>keys.
         andthen (delete_blobs sv t keys) (\<lambda>_.
         andthen (ctl sv ''delete_api_keys_for_project'' (total (delete_api_keys_for_project project_id))) (\<lambda>d.
         andthen (need d (err 500 ''could not revoke project keys'')) (\<lambda>_.
         andthen (tctl sv t ''delete_project_by_app'' (\<lambda>db. case delete_project_by_app (sv_jsonb_text sv) app_id db of
             None \<Rightarrow> (None, db) | Some (x, db') \<Rightarrow> (Some x, db'))) (\<lambda>x.
         andthen (need x (err 500 ''could not delete project data'')) (\<lambda>deleted.
         andthen (require deleted missing) (\<lambda>_.
         andthen (audit sv (user_actor user_id) ''project.delete'' (Some org_id)
           (JObj [(''appId'', JStr app_id), (''evidenceObjects'', jint (int (length keys))), (''name'', JStr project_name),
                  (''project'', jint project_id)])) (\<lambda>_.
         done_with (reply 200 (JObj [(''appId'', JStr app_id), (''ok'', JBool True)])))))))))))))))))))"

definition delete_project_request :: "env \<Rightarrow> string option \<Rightarrow> string \<Rightarrow> string \<Rightarrow> response action" where
  "delete_project_request sv cookie app_id confirm =
     andthen (user_and_org sv cookie) (\<lambda>(user, org).
     delete_project_for sv (o_id org) (u_id user) (o_role org) app_id confirm)"

definition delete_project_api :: "env \<Rightarrow> AuthCtx \<Rightarrow> KeyScope \<Rightarrow> string \<Rightarrow> string \<Rightarrow> response action" where
  "delete_project_api sv auth scope app_id confirm =
     andthen (account_token sv auth scope ''project-scoped keys cannot delete projects'') (\<lambda>(org_id, user_id, role).
     delete_project_for sv org_id user_id role app_id confirm)"

section \<open>Publishable keys\<close>

definition rotate_publishable_key :: "env \<Rightarrow> string option \<Rightarrow> string \<Rightarrow> response action" where
  "rotate_publishable_key sv cookie app_id =
     andthen (user_and_org sv cookie) (\<lambda>(user, org).
     andthen (require (can_manage (o_role org)) (err 403 ''owner or admin required'')) (\<lambda>_.
     andthen (tenancy_resolve sv (o_id org)) (\<lambda>r.
     andthen (case r of Inl _ \<Rightarrow> stop (err 404 ''project not found'') | Inr t \<Rightarrow> done_with t) (\<lambda>t.
     andthen (tlook sv t ''project_id_for_app'' (project_id_for_app app_id)) (\<lambda>p.
     andthen (need (Option.bind p id) (err 404 ''project not found'')) (\<lambda>project_id.
     andthen (ctl sv ''revoke_publishable_keys_for_project'' (effect (revoke_publishable_keys_for_project project_id))) (\<lambda>v.
     andthen (need v (err 500 ''could not rotate publishable key'')) (\<lambda>_.
     let key = new_publishable_key sv
     in andthen (mint_key sv key (o_id org) (u_id user) project_id) (\<lambda>k.
        andthen (need k (err 500 ''could not rotate publishable key'')) (\<lambda>_.
        andthen (audit sv (user_actor (u_id user)) ''apikey.publishable.rotate'' (Some (o_id org))
          (JObj [(''prefix'', JStr (api_key_prefix key)), (''project'', jint project_id)])) (\<lambda>_.
        done_with (reply 200 (JObj [(''appId'', JStr app_id), (''publishableKey'', JStr key),
          (''publishableKeyPrefix'', JStr (api_key_prefix key))])))))))))))))"

definition post_publishable_key :: "env \<Rightarrow> AuthCtx \<Rightarrow> KeyScope \<Rightarrow> headers \<Rightarrow> string \<Rightarrow> response action" where
  "post_publishable_key sv auth scope hs app_id =
     andthen (require (\<not> ks_publishable scope) (err 403 ''a secret key is required to rotate the publishable key'')) (\<lambda>_.
     andthen (tenant_for sv auth hs app_id) (\<lambda>t.
     andthen (tlook sv t ''project_id_for_app'' (project_id_for_app app_id)) (\<lambda>p.
     andthen (need p server_error) (\<lambda>found.
     andthen (need found not_found) (\<lambda>project_id.
     andthen (require (ks_project_id scope = None \<or> ks_project_id scope = Some project_id) not_found) (\<lambda>_.
     andthen (need (ks_user_id scope) (err 403 ''a project secret key is required'')) (\<lambda>user_id.
     andthen (case auth of Org i \<Rightarrow> done_with i | Admin \<Rightarrow> stop (err 403 ''use a project secret key, not the admin key'')) (\<lambda>org_id.
     andthen (ctl sv ''revoke_publishable_keys_for_project'' (effect (revoke_publishable_keys_for_project project_id))) (\<lambda>v.
     andthen (need v server_error) (\<lambda>_.
     let key = new_publishable_key sv
     in andthen (mint_key sv key org_id user_id project_id) (\<lambda>k.
        andthen (need k server_error) (\<lambda>_.
        andthen (audit sv (user_actor user_id) ''apikey.publishable.rotate'' (Some org_id)
          (JObj [(''prefix'', JStr (api_key_prefix key)), (''project'', jint project_id)])) (\<lambda>_.
        done_with (reply 200 (JObj [(''appId'', JStr app_id), (''publishableKey'', JStr key),
          (''publishableKeyPrefix'', JStr (api_key_prefix key))])))))))))))))))"

section \<open>Account views\<close>

text \<open>\<open>account_card\<close> is the card of the edition; its members replace or extend those of the organization.\<close>

definition read_or :: "'a \<Rightarrow> 'a option action \<Rightarrow> 'a action" where
  "read_or d m = andthen m (\<lambda>r. done_with (case r of Some v \<Rightarrow> v | None \<Rightarrow> d))"

definition me :: "env \<Rightarrow> json \<Rightarrow> string option \<Rightarrow> response action" where
  "me sv account_card cookie =
     andthen (user_and_org sv cookie) (\<lambda>(user, org).
     andthen (tenant_projects sv (o_id org)) (\<lambda>ps.
     andthen (read_or [] (look sv ''list_api_keys'' (list_api_keys (o_id org)))) (\<lambda>keys.
     andthen (read_or [] (look sv ''list_org_users'' (list_org_users (o_id org)))) (\<lambda>members.
     andthen (read_or [] (look sv ''list_user_orgs'' (list_user_orgs (sv_to_lowercase sv) (u_id user)))) (\<lambda>organizations.
     andthen (if can_manage (o_role org)
       then read_or [] (look sv ''list_org_invitations'' (list_org_invitations (sv_to_lowercase sv) (sv_now sv) (o_id org)))
       else done_with []) (\<lambda>invitations.
     let base = [(''id'', jint (o_id org)), (''name'', JStr (o_name org)), (''role'', JStr (o_role org)),
           (''selfHosted'', JBool (sv_self_hosted sv))];
         org_json = (case account_card of JObj c \<Rightarrow> fold (\<lambda>(k, v). bt_insert k v) c base | _ \<Rightarrow> base)
     in done_with (reply 200 (JObj [
          (''apiKeys'', JArr (map JStr keys)),
          (''email'', JStr (u_email user)),
          (''invitations'', JArr (map (\<lambda>i. JObj [(''email'', JStr (oi_email i)), (''expiresAt'', JStr (sv_rfc3339 sv (oi_expires_at i))),
             (''id'', jint (oi_id i)), (''role'', JStr (oi_role i)), (''seat'', JBool (oi_seat i))]) invitations)),
          (''members'', JArr (map (\<lambda>m. JObj [(''email'', JStr (m_email m)), (''role'', JStr (m_role m)), (''seat'', JBool (m_seat m)),
             (''userId'', jint (m_user_id m))]) members)),
          (''org'', JObj org_json),
          (''organizations'', JArr (map (\<lambda>s. JObj [(''active'', JBool (sm_id s = o_id org)), (''id'', jint (sm_id s)),
             (''name'', JStr (sm_name s)), (''personal'', JBool (sm_personal s)), (''plan'', JStr (sm_plan s)),
             (''role'', JStr (sm_role s))]) organizations)),
          (''projects'', JArr (map project_json ps))]))))))))"

definition usage :: "env \<Rightarrow> json \<Rightarrow> string option \<Rightarrow> response action" where
  "usage sv usage_meter cookie =
     andthen (user_and_org sv cookie) (\<lambda>(_, org).
     andthen (tenancy_resolve sv (o_id org)) (\<lambda>r.
     andthen (case r of
         Inl _ \<Rightarrow> done_with 0
       | Inr t \<Rightarrow> read_or 0 (tlook sv t ''evidence_bytes_total'' (\<lambda>db. evidence_bytes_total (td_telemetry db)))) (\<lambda>n.
     let meter = (case usage_meter of JObj m \<Rightarrow> m | _ \<Rightarrow> []);
         plan = (case map_of meter ''plan'' of Some p \<Rightarrow> [(''plan'', p)] | None \<Rightarrow> []);
         occ = (case map_of meter ''occurrences'' of Some v \<Rightarrow> [(''occurrences'', v)] | None \<Rightarrow> [])
     in done_with (reply 200 (JObj (plan @ [(''used'', JObj ((''evidenceBytes'', jint n) # occ))]))))))"

definition get_me :: "env \<Rightarrow> AuthCtx \<Rightarrow> KeyScope \<Rightarrow> headers \<Rightarrow> response action" where
  "get_me sv auth scope hs =
     andthen (tenant_of sv auth hs) (\<lambda>t.
     andthen (tlook sv t ''list_projects'' list_projects) (\<lambda>r.
     andthen (need r server_error) (\<lambda>all.
     let ps = (case ks_project_id scope of Some p \<Rightarrow> filter (\<lambda>x. fst x = p) all | None \<Rightarrow> all)
     in done_with (reply 200 (JObj [(''orgId'', jint (t_org_id t)), (''projectCount'', jint (int (length ps))),
          (''projects'', JArr (map project_json ps))])))))"

end
