(* ===== verification/Sample_App.thy ===== *)
theory Sample_App
  imports Request
begin

text \<open>
  A concrete service, on which the theorems about requests are instantiated.
  One organization with its owner, who has the session \<open>s\<close>, and a second account. The cookie header
  carries another cookie first.
\<close>

definition sample_env :: env where
  "sample_env = \<lparr>sv_now = 1, sv_fails = (\<lambda>_. False), sv_self_hosted = False, sv_key_hash = sample_kh, sv_to_lowercase = id,
     sv_hash_password = Some, sv_verify_password = (=), sv_uuids = (\<lambda>n. replicate 32 (CHR ''u'')),
     sv_random = (\<lambda>n. if n = 0 then ''secret'' else ''public''), sv_vars = (\<lambda>_. None), sv_mail_sent = True,
     sv_rfc3339 = show_int, sv_jsonb_text = (\<lambda>_. []), sv_valid_plan = id, sv_seat_limit = (\<lambda>_. Some 5),
     sv_app_limit = (\<lambda>_. None), sv_login_denied = (\<lambda>_. None), sv_provider = Single ''postgres://h/one'',
     sv_encrypt = (\<lambda>_. Some), sv_decrypt = Some, sv_attempt = \<lparr>at_fails = (\<lambda>_. False), at_nonce = []\<rparr>,
     sv_blob_root = [], sv_lib = Buckets.sample_lib, sv_graph = sample_serde_graph, sv_parse_time = (\<lambda>_. None), sv_pg_text = show_int, sv_jsonb_eq = (=),
     sv_ingest_denied = (\<lambda>_ _. None), sv_evidence_cap = (\<lambda>_. None), sv_retention_days = (\<lambda>_. None),
     sv_http = (\<lambda>_. None), sv_locked = (\<lambda>_. False)\<rparr>"

definition sample_tenant :: tenant_data where
  "sample_tenant = \<lparr>td_telemetry = empty_telemetry [sample_project], td_next_project_id = 2, td_next_cloud_run_id = 1,
     td_integrations = [], td_captures = [], td_capture_files = []\<rparr>"

definition app_with :: "control_db \<Rightarrow> app" where
  "app_with db = \<lparr>app_control = db,
     app_registry = sample_registry\<lparr>tenant_rows := [\<lparr>tn_org_id = 1, tn_status = ''active'', tn_db_conn = Some ''new'',
       tn_blob_mode = ''prefix'', tn_blob_scope = ''t/1'', tn_region = None\<rparr>]\<rparr>,
     app_resolver = resolver_new (Single ''postgres://h/one'') (pools_new None None) None,
     app_tenants = (\<lambda>_. sample_tenant), app_files = [], app_mails = [], app_calls = []\<rparr>"

definition sample_app :: app where "sample_app = app_with sample_control"

definition sample_cookie :: "string option" where "sample_cookie = Some ''theme=dark; rid_session=s''"

end
