(* ===== verification/Account_Laws.thy ===== *)
theory Account_Laws
  imports Projects Sample_App
begin

text \<open>
  What the account handlers guarantee, over every request of \<open>account_call\<close> and every sequence of
  requests: the constraints of the control plane, the confinement of an organization's managers to
  their organization, the rights that roles give, the last owner, and what a session proves.
\<close>

section \<open>Requests\<close>

datatype account_call =
    RqSessionStatus
  | RqCliDevice "string option"
  | RqCliApprove string
  | RqCliToken string
  | RqSignup Creds
  | RqVerifyEmail TokenQuery
  | RqForgotPassword string
  | RqResetPassword string string
  | RqLogin Creds
  | RqLogout
  | RqSetActiveOrg int
  | RqCreateOrg string
  | RqRenameOrg string
  | RqDeleteOrg string
  | RqInvite string "string option"
  | RqResendInvitation int
  | RqRevokeInvitation int
  | RqInvitationPreview string
  | RqAcceptInvitation string
  | RqAddMember string "string option"
  | RqSetMemberRole int string
  | RqRemoveMember int
  | RqSetSeat int bool
  | RqCreateProject string
  | RqDeleteProject string string
  | RqRotateKey string
  | RqMe json
  | RqUsage json

fun serve :: "env \<Rightarrow> string option \<Rightarrow> account_call \<Rightarrow> response action" where
  "serve sv ck RqSessionStatus = session_status sv ck"
| "serve sv ck (RqCliDevice c) = cli_device sv c"
| "serve sv ck (RqCliApprove c) = cli_approve sv ck c"
| "serve sv ck (RqCliToken c) = cli_token sv c"
| "serve sv ck (RqSignup c) = signup sv c"
| "serve sv ck (RqVerifyEmail q) = verify_email sv q"
| "serve sv ck (RqForgotPassword e) = forgot_password sv e"
| "serve sv ck (RqResetPassword t p) = reset_password sv t p"
| "serve sv ck (RqLogin c) = login sv c"
| "serve sv ck RqLogout = logout sv ck"
| "serve sv ck (RqSetActiveOrg i) = set_active_org sv ck i"
| "serve sv ck (RqCreateOrg n) = create_org_request sv ck n"
| "serve sv ck (RqRenameOrg n) = rename_org sv ck n"
| "serve sv ck (RqDeleteOrg n) = delete_org_request sv ck n"
| "serve sv ck (RqInvite e r) = invite_member sv ck e r"
| "serve sv ck (RqResendInvitation i) = resend_invitation sv ck i"
| "serve sv ck (RqRevokeInvitation i) = revoke_invitation sv ck i"
| "serve sv ck (RqInvitationPreview t) = invitation_preview sv t"
| "serve sv ck (RqAcceptInvitation t) = accept_invitation sv ck t"
| "serve sv ck (RqAddMember e r) = add_member_request sv ck e r"
| "serve sv ck (RqSetMemberRole u r) = set_member_role sv ck u r"
| "serve sv ck (RqRemoveMember u) = remove_member sv ck u"
| "serve sv ck (RqSetSeat u b) = set_seat sv ck u b"
| "serve sv ck (RqCreateProject n) = create_project_request sv ck n"
| "serve sv ck (RqDeleteProject x n) = delete_project_request sv ck x n"
| "serve sv ck (RqRotateKey x) = rotate_publishable_key sv ck x"
| "serve sv ck (RqMe c) = me sv c ck"
| "serve sv ck (RqUsage m) = usage sv m ck"

definition serve_all :: "(env \<times> string option \<times> account_call) list \<Rightarrow> app \<Rightarrow> app" where
  "serve_all rqs a = foldl (\<lambda>a (sv, ck, c). snd (respond (serve sv ck c) a)) a rqs"

lemmas handler_defs = session_status_def cli_device_def cli_approve_def cli_token_def signup_def verify_email_def
  forgot_password_def reset_password_def login_def logout_def set_active_org_def create_org_request_def rename_org_def
  delete_org_request_def invite_member_def resend_invitation_def revoke_invitation_def invitation_preview_def
  accept_invitation_def add_member_request_def set_member_role_def remove_member_def set_seat_def
  create_project_request_def delete_project_request_def rotate_publishable_key_def me_def usage_def

lemmas helper_defs = provision_personal_org_def send_verification_def start_session_def prefer_org_def mint_key_def
  drop_project_def create_project_for_def delete_project_for_def

context control_frame begin

text \<open>Handlers outside the control store.\<close>

lemma safe_delete_blobs [simp, intro!]: "safe (delete_blobs sv t ks)"
proof (induction ks)
  case (Cons k ks)
  have "safe (\<lambda>a. case blob_delete io root scope k (app_files a) of (ok, fs) \<Rightarrow> (Ok ok, a\<lparr>app_files := fs\<rparr>))" for io root scope
    by (rule safe_same) (simp split: prod.split)
  then show ?case using Cons by (auto intro!: safe_andthen)
qed simp

lemma safe_offboard_data [simp, intro!]: "safe (offboard_data sv i)"
  by (rule safe_same) (auto simp: offboard_data_def Let_def split: prod.splits option.splits bool.splits)

lemma safe_delete_org_cascade:
  assumes "\<And>db. crel db (snd (delete_org_row i db))"
  shows "safe (delete_org_cascade sv i)"
  using assms by (auto simp: safe_def delete_org_cascade_def crel_refl split: prod.split) (metis snd_conv)

lemma safe_read_or: "safe m \<Longrightarrow> safe (read_or d m)"
  unfolding read_or_def by (intro safe_intros)

lemma safe_readers [simp, intro!]:
  "safe (current_user sv ck)" "safe (user_and_org sv ck)" "safe (tenant_projects sv i)" "safe (invited sv t e)"
  "safe (sso_enforced_refusal sv m)" "safe (deliver_invitation sv v tk)" "safe (parse_role g r)"
  unfolding current_user_def user_and_org_def tenant_projects_def invited_def sso_enforced_refusal_def
    deliver_invitation_def parse_role_def
  by (intro safe_intros)+

lemmas handler_safe = safe_intros safe_bool safe_readers safe_read_or safe_delete_blobs safe_offboard_data safe_total
  safe_effect safe_ctl

end

section \<open>The constraints of the control plane\<close>

definition keeps_integrity :: "control_db \<Rightarrow> control_db \<Rightarrow> bool" where
  "keeps_integrity db db' \<longleftrightarrow> (control_inv db \<longrightarrow> control_inv db')"

interpretation integrity: control_frame keeps_integrity
  by unfold_locales (simp_all add: keeps_integrity_def)

lemma integrity_audit: "integrity.safe (audit sv actor act i d)"
  by (rule integrity.safe_audit) (simp add: keeps_integrity_def control_inv_table)

lemma integrity_delete_org: "integrity.safe (delete_org_cascade sv i)"
  by (rule integrity.safe_delete_org_cascade) (simp add: keeps_integrity_def delete_org_inv)

lemma serve_integrity: "integrity.safe (serve sv ck c)"
  by (cases c; simp only: serve.simps handler_defs helper_defs Let_def;
      intro integrity.handler_safe integrity_audit integrity_delete_org;
      simp add: keeps_integrity_def control_step_inv)

text \<open>No sequence of account requests, whatever their arguments and whichever of their calls fail on
  the way, breaks a constraint of the control plane.\<close>
theorem requests_keep_integrity:
  assumes "control_inv (app_control a)"
  shows "control_inv (app_control (serve_all rqs a))"
  using assms
proof (induction rqs arbitrary: a)
  case (Cons rq rqs)
  obtain sv ck c where rq: "rq = (sv, ck, c)" by (cases rq)
  have "control_inv (app_control (snd (respond (serve sv ck c) a)))"
    using integrity.respond_safe [OF serve_integrity, of a sv ck c] Cons.prems by (simp add: keeps_integrity_def)
  from Cons.IH [OF this] show ?case by (simp add: serve_all_def rq)
qed (simp add: serve_all_def)

section \<open>Managers act in their organization only\<close>

text \<open>What the control plane holds of one organization.\<close>

definition org_view :: "int \<Rightarrow> control_db \<Rightarrow> org_row list \<times> member_row list \<times> invitation_row list \<times> directory_row list" where
  "org_view j db = (filter (\<lambda>r. og_id r = j) (orgs db), filter (\<lambda>m. mb_org_id m = j) (org_members db),
     filter (\<lambda>i. iv_org_id i = j) (org_invitations db), filter (\<lambda>d. du_org_id d = j) (directory_users db))"

definition same_others :: "int \<Rightarrow> control_db \<Rightarrow> control_db \<Rightarrow> bool" where
  "same_others i db db' \<longleftrightarrow> (\<forall>j. j \<noteq> i \<longrightarrow> org_view j db' = org_view j db)"

interpretation confined: control_frame "same_others i" for i
  by unfold_locales (simp_all add: same_others_def)

lemma filter_update_where_other:
  "(\<And>r. P r \<Longrightarrow> \<not> Q r \<and> \<not> Q (f r)) \<Longrightarrow> filter Q (update_where P f t) = filter Q t"
  by (induction t) (auto simp: update_where_def)

lemma filter_delete_where_other: "(\<And>r. P r \<Longrightarrow> \<not> Q r) \<Longrightarrow> filter Q (delete_where P t) = filter Q t"
  by (induction t) (auto simp: delete_where_def)

lemma filter_upsert_other:
  "\<not> Q r \<Longrightarrow> (\<And>x. key x = key r \<Longrightarrow> \<not> Q x \<and> \<not> Q (f x)) \<Longrightarrow> filter Q (upsert key r f t) = filter Q t"
  by (simp add: upsert_def filter_update_where_other)

lemmas filter_others = filter_update_where_other filter_delete_where_other filter_upsert_other

lemma confined_calls:
  "same_others i db (snd (rename_org_row i n db))" "same_others i db (snd (delete_org_row i db))"
  "same_others i db (snd (add_member i u role db))" "same_others i db (snd (set_role i u role db))"
  "same_others i db (drop_member i u db)" "same_others i db (snd (set_seat_row i u b db))"
  "same_others i db (snd (upsert_org_invitation kh now i e role b u t ttl lim db))"
  "same_others i db (snd (refresh_org_invitation kh now i v t ttl db))"
  "same_others i db (snd (revoke_org_invitation i v db))"
  "same_others i db (snd (set_session_org kh now t u r db))"
  "same_others i db (snd (create_api_key kh now t p r u pr db))" "same_others i db (delete_api_key kh t db)"
  "same_others i db (revoke_publishable_keys_for_project q db)" "same_others i db (snd (delete_api_keys_for_project q db))"
  by (auto simp: same_others_def org_view_def rename_org_row_def delete_org_row_def add_member_def set_role_def
      drop_member_def set_seat_row_def upsert_org_invitation_def refresh_org_invitation_def revoke_org_invitation_def
      set_session_org_def create_api_key_def delete_api_key_def revoke_publishable_keys_for_project_def
      delete_api_keys_for_project_def member_key_def invitation_key_def Let_def intro!: filter_others split: option.splits)

lemma confined_audit: "confined.safe i (audit sv actor act r d)"
  by (rule confined.safe_audit) (simp add: same_others_def org_view_def)

lemma confined_delete_org: "confined.safe i (delete_org_cascade sv i)"
  by (rule confined.safe_delete_org_cascade) (rule confined_calls)

text \<open>The requests that manage the organization of the session.\<close>

fun manages :: "account_call \<Rightarrow> bool" where
  "manages (RqRenameOrg _) = True"
| "manages (RqDeleteOrg _) = True"
| "manages (RqInvite _ _) = True"
| "manages (RqResendInvitation _) = True"
| "manages (RqRevokeInvitation _) = True"
| "manages (RqAddMember _ _) = True"
| "manages (RqSetMemberRole _ _) = True"
| "manages (RqRemoveMember _) = True"
| "manages (RqSetSeat _ _) = True"
| "manages (RqCreateProject _) = True"
| "manages (RqDeleteProject _ _) = True"
| "manages (RqRotateKey _) = True"
| "manages _ = False"

definition session_of :: "env \<Rightarrow> string option \<Rightarrow> control_db \<Rightarrow> (User \<times> Org) option" where
  "session_of sv cookie db =
     Option.bind (cookie_value cookie COOKIE_NAME) (\<lambda>token.
       if sv_fails sv ''user_and_org_for_session'' then None
       else user_and_org_for_session (sv_key_hash sv) (sv_now sv) token db)"

lemma user_and_org_session:
  "user_and_org sv cookie a =
     (case session_of sv cookie (app_control a) of
        Some p \<Rightarrow> (Ok p, a)
      | None \<Rightarrow> (Err (if cookie_value cookie COOKIE_NAME = None then err 401 ''not signed in'' else err 500 ''no org for account''), a))"
  by (auto simp: user_and_org_def session_of_def action_defs split: option.splits bind_splits)

lemma andthen_session:
  "andthen (user_and_org sv cookie) f a =
     (case session_of sv cookie (app_control a) of
        Some p \<Rightarrow> f p a
      | None \<Rightarrow> (Err (if cookie_value cookie COOKIE_NAME = None then err 401 ''not signed in'' else err 500 ''no org for account''), a))"
  by (simp add: andthen_def user_and_org_session split: option.split)

text \<open>Every management request starts from the session and the role it gives.\<close>

definition guarded :: "env \<Rightarrow> string option \<Rightarrow> response action \<Rightarrow> bool" where
  "guarded sv cookie h \<longleftrightarrow> (\<exists>body. h = andthen (user_and_org sv cookie) (\<lambda>(user, org). body user org)
     \<and> (\<forall>user org. confined.safe (o_id org) (body user org))
     \<and> (\<forall>user org a. \<not> can_manage (o_role org) \<longrightarrow> (\<exists>r. body user org a = (Err r, a) \<and> ht_status r = 403)))"

lemma guardedI:
  assumes "h = andthen (user_and_org sv cookie) (\<lambda>(user, org).
      andthen (require (allowed org) (err 403 msg)) (\<lambda>_. rest user org))"
    and "\<And>org. \<not> can_manage (o_role org) \<Longrightarrow> \<not> allowed org"
    and "\<And>user org. confined.safe (o_id org) (rest user org)"
  shows "guarded sv cookie h"
  unfolding guarded_def
proof (intro exI conjI allI impI)
  show "h = andthen (user_and_org sv cookie) (\<lambda>(user, org). andthen (require (allowed org) (err 403 msg)) (\<lambda>_. rest user org))"
    by (rule assms(1))
  show "confined.safe (o_id org) (andthen (require (allowed org) (err 403 msg)) (\<lambda>_. rest user org))" for user and org
    by (intro confined.handler_safe assms(3))
  show "andthen (require (allowed org) (err 403 msg)) (\<lambda>_. rest user org) a = (Err (err 403 msg), a)"
    if "\<not> can_manage (o_role org)" for user and org and a
    using assms(2) [OF that] by (simp add: andthen_def require_def stop_def)
qed (simp add: err_def reply_def)

lemmas guarded_request = guardedI [OF refl]

lemma manages_guarded: "manages c \<Longrightarrow> guarded sv ck (serve sv ck c)"
  by (cases c; simp only: serve.simps handler_defs helper_defs Let_def manages.simps simp_thms)
    (rule guarded_request; (intro confined.handler_safe confined_audit confined_delete_org)?; simp add: can_manage_def confined_calls)+

text \<open>C19. A request that manages an organization, without a session or a managing role, leaves the service exactly
  as before and is refused; with one, no organization other than the session's gains, loses or changes its
  row, members, invitations or directory entries. Keys and the data of tenants are not part of this view.\<close>
theorem managers_confined:
  assumes "manages c" "respond (serve sv ck c) a = (r, a')"
  shows "case session_of sv ck (app_control a) of
      None \<Rightarrow> a' = a \<and> ht_status r \<in> {401, 500}
    | Some (user, org) \<Rightarrow>
        if can_manage (o_role org) then \<forall>j. j \<noteq> o_id org \<longrightarrow> org_view j (app_control a') = org_view j (app_control a)
        else a' = a \<and> ht_status r = 403"
proof -
  obtain body where h: "serve sv ck c = andthen (user_and_org sv ck) (\<lambda>(user, org). body user org)"
    and conf: "\<And>user org. confined.safe (o_id org) (body user org)"
    and refuse: "\<And>user org a. \<not> can_manage (o_role org) \<Longrightarrow> \<exists>r. body user org a = (Err r, a) \<and> ht_status r = 403"
    using manages_guarded [OF assms(1), of sv ck] unfolding guarded_def by blast
  have run: "respond (andthen (user_and_org sv ck) (\<lambda>(user, org). body user org)) a = (r, a')"
    using assms(2) h by simp
  show ?thesis
  proof (cases "session_of sv ck (app_control a)")
    case None
    then show ?thesis using run by (auto simp: respond_def andthen_session err_def reply_def split: if_splits)
  next
    case (Some p)
    obtain user org where p: "p = (user, org)" by (cases p)
    have eq: "respond (body user org) a = (r, a')"
      using run by (simp add: respond_def andthen_session Some p)
    show ?thesis
    proof (cases "can_manage (o_role org)")
      case True
      from confined.respond_safe [OF conf [of org user], of a] eq have "same_others (o_id org) (app_control a) (app_control a')" by simp
      with True show ?thesis by (simp add: Some p same_others_def)
    next
      case False
      from refuse [OF False, of user a] eq show ?thesis using False by (auto simp: Some p respond_def)
    qed
  qed
qed

section \<open>An organization keeps an owner\<close>

definition owned :: "int \<Rightarrow> control_db \<Rightarrow> bool" where
  "owned j db \<longleftrightarrow> (\<exists>m \<in> set (org_members db). is_owner j m)"

lemma other_owner:
  assumes "control_inv db" "1 < count_owners i db"
  shows "\<exists>m \<in> set (org_members db). is_owner i m \<and> member_key m \<noteq> k"
proof (rule ccontr)
  assume "\<not> ?thesis"
  then have "affected (is_owner i) (org_members db) = affected (\<lambda>m. member_key m = k \<and> is_owner i m) (org_members db)"
    by (intro affected_cong) auto
  then show False
    using assms affected_key_le_1 [of member_key "org_members db" k "is_owner i"] control_invD(5) [OF assms(1)]
    by (auto simp: count_owners_def members_ok_def)
qed

lemma not_owner_key:
  assumes "control_inv db" "org_role i u db \<noteq> Some ''owner''" "m \<in> set (org_members db)" "is_owner i m"
  shows "member_key m \<noteq> (i, u)"
  using assms org_role_iff [OF assms(1), of i u "''owner''"] by (auto simp: is_owner_def)

lemma owned_other_key:
  assumes "\<exists>m \<in> set (org_members db). is_owner j m \<and> member_key m \<noteq> (i, u)"
  shows "owned j (drop_member i u db)" "owned j (snd (set_role i u role db))"
  using assms by (force simp: owned_def drop_member_def set_role_def Let_def set_delete_where update_where_def)+

lemma owned_add:
  assumes "org_role i u db = None" "owned j db"
  shows "owned j (snd (add_member i u role db))"
  using assms unfolding org_role_None
  by (force simp: owned_def add_member_def upsert_def member_key_def)

lemma owned_set_owner: "owned j db \<Longrightarrow> owned j (snd (set_role i u ''owner'' db))"
  by (force simp: owned_def set_role_def Let_def update_where_def is_owner_def)

lemma owned_keep:
  assumes "control_inv db" "owned j db" "org_role i u db \<noteq> Some ''owner'' \<or> 1 < count_owners i db"
  shows "\<exists>m \<in> set (org_members db). is_owner j m \<and> member_key m \<noteq> (i, u)"
proof (cases "j = i")
  case True
  then show ?thesis using assms other_owner [OF assms(1), of i] not_owner_key [OF assms(1), of i u] by (auto simp: owned_def)
next
  case False
  with assms(2) show ?thesis by (auto simp: owned_def is_owner_def member_key_def)
qed

lemma remove_member_owned:
  assumes "control_inv (app_control a)" "\<not> sv_fails sv ''org_role''" "owned j (app_control a)"
  shows "owned j (app_control (snd (remove_member sv ck u a)))"
  using assms owned_keep [OF assms(1,3)] owned_other_key(1)
  by (auto simp: remove_member_def andthen_session run_simps effect_def split: option.split prod.split if_split)

lemma parse_role_cases: "(\<exists>resp. parse_role org r = stop resp) \<or> (\<exists>role. parse_role org r = done_with role)"
proof -
  have "andthen (require b resp) (\<lambda>_. done_with x) = (if b then done_with x else stop resp)" for b resp and x :: string
    by (simp add: fun_eq_iff andthen_run) (simp add: stop_def)
  then show ?thesis by (simp add: parse_role_def) metis
qed

lemma set_member_role_owned:
  assumes "control_inv (app_control a)" "\<not> sv_fails sv ''org_role''" "owned j (app_control a)"
  shows "owned j (app_control (snd (set_member_role sv ck u r a)))"
proof (cases "session_of sv ck (app_control a)")
  case (Some p)
  let ?db = "app_control a"
  obtain user org where p: "p = (user, org)" by (cases p)
  have drop: "owned j (drop_member i u ?db)" and role: "owned j (snd (set_role i u x ?db))"
    if "org_role i u ?db \<noteq> Some ''owner'' \<or> 1 < count_owners i ?db" for i x
    using owned_other_key [OF owned_keep [OF assms(1,3) that]] by blast+
  note keep = assms(2,3) Some p owned_set_owner [OF assms(3)] owned_add [OF _ assms(3)]
  consider resp where "parse_role org r = stop resp" | x where "parse_role org r = done_with x"
    using parse_role_cases [of org r] by blast
  then show ?thesis
  proof cases
    case 2
    show ?thesis
    proof (cases "org_role (o_id org) u ?db")
      case None
      with keep drop [of "o_id org"] show ?thesis
        by (simp add: set_member_role_def andthen_session run_simps effect_def Let_def 2 split: option.split)
    next
      case (Some c)
      with keep drop [of "o_id org"] role [of "o_id org"] show ?thesis
        by (cases "c = ''owner''"; cases "x = ''owner''")
          (simp_all add: set_member_role_def andthen_session run_simps effect_def total_def Let_def 2 split: option.split)
    qed
  qed (use keep in \<open>simp add: set_member_role_def andthen_session run_simps\<close>)
qed (use assms in \<open>simp add: set_member_role_def andthen_session\<close>)

text \<open>C33. Changing roles and removing members never leaves an organization without an owner: as long as the
  current role of the member can be read, an organization that has an owner before the request has
  one after it.\<close>
theorem owner_kept:
  assumes "control_inv (app_control a)" "\<not> sv_fails sv ''org_role''" "owned j (app_control a)"
    and "c \<in> {RqSetMemberRole u r, RqRemoveMember u}"
  shows "owned j (app_control (snd (respond (serve sv ck c) a)))"
  using assms set_member_role_owned [OF assms(1-3)] remove_member_owned [OF assms(1-3)]
  by (auto simp: respond_final)

section \<open>Witnesses\<close>

lemma sample_app_inv: "control_inv (app_control sample_app)"
  by (simp add: sample_app_def app_with_def sample_control_inv)

lemma sample_session:
  "map_option (\<lambda>(u, r). (u_id u, o_id r, o_role r)) (session_of sample_env sample_cookie (app_control sample_app)) = Some (1, 1, ''owner'')"
  by code_simp

theorem requests_keep_integrity_witness:
  "control_inv (app_control (serve_all [(sample_env, sample_cookie, RqRenameOrg ''Zeta''), (sample_env, sample_cookie, RqLogout)] sample_app))"
  by (rule requests_keep_integrity [OF sample_app_inv])

theorem managers_confined_witness:
  "case respond (serve sample_env sample_cookie (RqAddMember ''b@x'' None)) sample_app of (r, a') \<Rightarrow>
     \<forall>j. j \<noteq> 1 \<longrightarrow> org_view j (app_control a') = org_view j (app_control sample_app)"
proof -
  obtain r a' where run: "respond (serve sample_env sample_cookie (RqAddMember ''b@x'' None)) sample_app = (r, a')" by fastforce
  then show ?thesis
    using managers_confined [OF _ run] sample_session by (auto simp: can_manage_def)
qed

theorem owner_kept_witness:
  "owned 1 (app_control (snd (respond (serve sample_env sample_cookie (RqSetMemberRole 1 ''member'')) sample_app)))"
proof -
  have "list_ex (is_owner 1) (org_members (app_control sample_app))" by code_simp
  then show ?thesis
    using owner_kept [OF sample_app_inv, of sample_env 1 "RqSetMemberRole 1 ''member''" 1 "''member''" sample_cookie]
    by (simp add: sample_env_def owned_def list_ex_iff)
qed

end
