(* ===== verification/Json_Access.thy ===== *)
theory Json_Access
  imports Protocol_Core
begin

text \<open>
  The accessors of \<open>serde_json::Value\<close> that handlers use: \<open>get\<close> on objects and the typed views. A number
  read as \<open>u64\<close> or \<open>i64\<close> has to be stored as an integer of that range.
\<close>

definition jfield :: "json \<Rightarrow> string \<Rightarrow> json option" where
  "jfield j k = Option.bind (as_object j) (\<lambda>m. map_of m k)"

fun as_bool :: "json \<Rightarrow> bool option" where
  "as_bool (JBool b) = Some b"
| "as_bool _ = None"

fun as_array :: "json \<Rightarrow> json list option" where
  "as_array (JArr xs) = Some xs"
| "as_array _ = None"

fun as_u64 :: "json \<Rightarrow> nat option" where
  "as_u64 (JNum (PosInt n)) = Some n"
| "as_u64 _ = None"

fun as_i64 :: "json \<Rightarrow> int option" where
  "as_i64 (JNum (PosInt n)) = (if int n < 2 ^ 63 then Some (int n) else None)"
| "as_i64 (JNum (NegInt i)) = Some i"
| "as_i64 _ = None"

definition str_field :: "json \<Rightarrow> string \<Rightarrow> string option" where
  "str_field j k = Option.bind (jfield j k) as_str"

end
