(* ===== verification/Captures.thy ===== *)
theory Captures
  imports Access Json_Access Sample_App
begin

text \<open>
  Original captures: the handlers of \<open>src/captures.rs\<close>. \<open>who\<close> resolves the tenant of a request
  (\<open>tenant_of\<close> for API keys, \<open>account_tenant\<close> for sessions). The body of an upload is the list of its
  chunks; \<open>None\<close> is a broken stream. The temporary file is written and removed within the request.
  Proved: a capture that is complete can be read back exactly as its manifest declares.
\<close>

section \<open>Names and hashes\<close>

definition MAX_CAPTURE_FILE_BYTES :: int where "MAX_CAPTURE_FILE_BYTES = 4 * 1024 * 1024 * 1024"

definition valid_capture_id :: "string \<Rightarrow> bool" where
  "valid_capture_id v \<longleftrightarrow>
     (case strip_prefix v ''cap_'' of None \<Rightarrow> False | Some s \<Rightarrow> length s = 16 \<and> list_all is_ascii_hexdigit s)"

definition filename_byte :: "char \<Rightarrow> bool" where
  "filename_byte c \<longleftrightarrow> is_ascii_alphanumeric c \<or> c \<in> {CHR ''.'', CHR ''_'', CHR ''-''}"

definition safe_filename :: "string \<Rightarrow> bool" where
  "safe_filename v \<longleftrightarrow> v \<noteq> [] \<and> length v \<le> 128 \<and> \<not> starts_with v ''.'' \<and> list_all filename_byte v"

definition valid_sha256 :: "string \<Rightarrow> bool" where
  "valid_sha256 v \<longleftrightarrow> length v = 64 \<and> list_all is_ascii_hexdigit v"

definition token_hash :: "env \<Rightarrow> string \<Rightarrow> string" where "token_hash sv token = sha256_hex (sv_lib sv) token"

definition public_url :: "env \<Rightarrow> string \<Rightarrow> string" where
  "public_url sv p =
     (case sv_vars sv ''REPROIT_PUBLIC_URL'' of
        Some v \<Rightarrow> if trim v = [] then p else trim_end_slashes v @ p
      | None \<Rightarrow> p)"

definition declared_files :: "json \<Rightarrow> (string \<times> json) list" where
  "declared_files manifest =
     (case Option.bind (jfield manifest ''fileSha256'') as_object of Some m \<Rightarrow> m | None \<Rightarrow> [])"

definition expected_files :: "json \<Rightarrow> (string \<times> string) list" where
  "expected_files manifest =
     filter (\<lambda>(name, hash). safe_filename name \<and> valid_sha256 hash)
       (List.map_filter (\<lambda>(name, hash). map_option (Pair name) (as_str hash)) (declared_files manifest))"

definition valid_manifest_files :: "json \<Rightarrow> bool" where
  "valid_manifest_files manifest \<longleftrightarrow>
     (case Option.bind (jfield manifest ''fileSha256'') as_object of
        None \<Rightarrow> False
      | Some files \<Rightarrow> files \<noteq> [] \<and> list_all (\<lambda>(name, hash). safe_filename name
          \<and> (case as_str hash of Some h \<Rightarrow> valid_sha256 h | None \<Rightarrow> False)) files)"

section \<open>Views\<close>

definition capture_json :: "env \<Rightarrow> capture_row \<Rightarrow> json" where
  "capture_json sv c = JObj [
     (''appId'', jopt JStr (cp_app_id c)), (''createdAt'', JStr (sv_pg_text sv (cp_created_at c))),
     (''description'', jopt JStr (cp_description c)), (''expiresAt'', JStr (sv_pg_text sv (cp_expires_at c))),
     (''id'', JStr (cp_id c)), (''manifest'', cp_manifest c), (''platform'', JStr (cp_platform c)),
     (''severity'', JStr (cp_severity c)), (''sourceCreatedAt'', JStr (cp_source_created_at c)),
     (''status'', JStr (cp_status c)), (''target'', JStr (cp_target c)), (''title'', jopt JStr (cp_title c)),
     (''visibility'', JStr (cp_visibility c))]"

definition file_json :: "capture_file_row \<Rightarrow> json" where
  "file_json f = JObj [(''bytes'', jint (cf_bytes f)), (''contentType'', JStr (cf_content_type f)),
     (''filename'', JStr (cf_filename f)), (''sha256'', JStr (cf_sha256 f)), (''storageKey'', JStr (cf_storage_key f))]"

definition account_tenant :: "env \<Rightarrow> string option \<Rightarrow> Tenant action" where
  "account_tenant sv cookie =
     andthen (user_and_org sv cookie) (\<lambda>(_, org).
     andthen (tenancy_resolve sv (o_id org)) (\<lambda>r.
     case r of
       Inr t \<Rightarrow> done_with t
     | Inl Internal \<Rightarrow> stop server_error
     | Inl _ \<Rightarrow> stop not_found))"

definition capture_failed :: response where "capture_failed = err 500 ''server error''"

definition find_capture :: "env \<Rightarrow> Tenant \<Rightarrow> string \<Rightarrow> capture_row action" where
  "find_capture sv t i =
     andthen (tlook sv t ''capture'' (capture i)) (\<lambda>r.
     andthen (need r capture_failed) (\<lambda>c.
     need c (err 404 ''capture not found'')))"

definition capture_status :: "env \<Rightarrow> Tenant \<Rightarrow> string \<Rightarrow> response action" where
  "capture_status sv t i =
     andthen (find_capture sv t i) (\<lambda>c.
     andthen (tlook sv t ''capture_files'' (capture_files i)) (\<lambda>r.
     andthen (need r capture_failed) (\<lambda>files.
     done_with (reply 200 (JObj [
       (''capture'', capture_json sv c),
       (''captureUrl'', if cp_status c = ''complete'' then JStr (public_url sv (''/captures/'' @ cp_id c)) else JNull),
       (''files'', JArr (map file_json files)),
       (''reviewUrl'', JNull),
       (''uploadReady'', JBool (open_status (cp_status c)))])))))"

definition key_can_access :: "env \<Rightarrow> Tenant \<Rightarrow> capture_row \<Rightarrow> KeyScope \<Rightarrow> bool action" where
  "key_can_access sv t c scope =
     (case ks_project_id scope of
        None \<Rightarrow> done_with True
      | Some project_id \<Rightarrow>
          andthen (tlook sv t ''app_for_project_id'' (app_for_project_id project_id)) (\<lambda>r.
          done_with (case r of Some (Some app_id) \<Rightarrow> cp_app_id c = Some app_id | _ \<Rightarrow> False)))"

section \<open>Handlers\<close>

record CreateCaptureRequest =
  rc_id :: string
  rc_manifest :: json
  rc_app_id :: "string option"

definition manifest_text :: "json \<Rightarrow> string \<Rightarrow> string" where
  "manifest_text m k = (case str_field m k of Some s \<Rightarrow> s | None \<Rightarrow> ''unknown'')"

definition review_token :: "env \<Rightarrow> string" where "review_token sv = sv_uuids sv 0 @ ''_'' @ sv_uuids sv 1"

definition post_capture :: "env \<Rightarrow> Tenant action \<Rightarrow> KeyScope \<Rightarrow> CreateCaptureRequest \<Rightarrow> response action" where
  "post_capture sv who scope rq =
     (let m = rc_manifest rq; foreign = err 403 ''project key cannot upload to that project''
      in andthen (require (valid_capture_id (rc_id rq)) (err 400 ''invalid capture id'')) (\<lambda>_.
         andthen (require (str_field m ''id'' = Some (rc_id rq) \<and> Option.bind (jfield m ''immutableOriginal'') as_bool = Some True)
           (err 400 ''manifest does not describe this capture'')) (\<lambda>_.
         andthen (require (valid_manifest_files m) (err 400 ''manifest file hashes are missing or invalid'')) (\<lambda>_.
         andthen who (\<lambda>t.
         andthen (case ks_project_id scope of
             None \<Rightarrow> done_with None
           | Some project_id \<Rightarrow>
               andthen (tlook sv t ''app_for_project_id'' (app_for_project_id project_id)) (\<lambda>r.
               andthen (need r capture_failed) (\<lambda>a.
               andthen (need a (err 403 ''project key is no longer valid'')) (\<lambda>app_id. done_with (Some app_id))))) (\<lambda>scoped_app.
         andthen (require (\<not> (case (scoped_app, rc_app_id rq) of (Some x, Some y) \<Rightarrow> y \<noteq> x | _ \<Rightarrow> False)) foreign) (\<lambda>_.
         let app_id = (case scoped_app of Some x \<Rightarrow> Some x | None \<Rightarrow> rc_app_id rq)
         in andthen (case app_id of
                None \<Rightarrow> done_with ()
              | Some x \<Rightarrow>
                  andthen (tlook sv t ''owns_app'' (owns_app x)) (\<lambda>r.
                  andthen (need r capture_failed) (\<lambda>owned. require owned (err 400 ''unknown project'')))) (\<lambda>_.
            andthen (tctl sv t ''create_capture'' (create_capture (sv_jsonb_eq sv) (sv_now sv)
              \<lparr>nc_id = rc_id rq, nc_review_token_hash = token_hash sv (review_token sv), nc_created_by = ks_user_id scope,
               nc_app_id = app_id, nc_platform = manifest_text m ''platform'', nc_target = manifest_text m ''target'',
               nc_source_created_at = manifest_text m ''created'', nc_manifest = m\<rparr>)) (\<lambda>r.
            andthen (need r capture_failed) (\<lambda>inserted.
            andthen (require inserted (err 409 ''capture already exists or project is invalid'')) (\<lambda>_.
            done_with (reply 201 (JObj [(''id'', JStr (rc_id rq)),
              (''reviewUrl'', JStr (public_url sv (''/capture-upload/'' @ review_token sv))),
              (''status'', JStr ''pending_review''), (''statusUrl'', JStr (''/v1/captures/'' @ rc_id rq))])))))))))))))"

definition get_capture :: "env \<Rightarrow> Tenant action \<Rightarrow> KeyScope \<Rightarrow> string \<Rightarrow> response action" where
  "get_capture sv who scope i =
     andthen who (\<lambda>t.
     andthen (find_capture sv t i) (\<lambda>c.
     andthen (key_can_access sv t c scope) (\<lambda>ok.
     andthen (require ok (err 404 ''capture not found'')) (\<lambda>_.
     capture_status sv t i))))"

text \<open>The chunks are counted, hashed and written one by one; \<open>torn\<close> says that writing fails.\<close>

fun read_body :: "bool \<Rightarrow> string option list \<Rightarrow> string \<Rightarrow> (response, string) result" where
  "read_body torn [] content = Ok content"
| "read_body torn (None # _) content = Err (err 400 ''invalid upload body'')"
| "read_body torn (Some chunk # rest) content =
     (if MAX_CAPTURE_FILE_BYTES < int (length content + length chunk) then Err (err 413 ''capture file is too large'')
      else if torn then Err (err 500 ''upload failed'')
      else read_body torn rest (content @ chunk))"

definition stream_to_file :: "env \<Rightarrow> string option list \<Rightarrow> (response, string) result" where
  "stream_to_file sv body =
     (if sv_fails sv ''temp_create'' then Err (err 500 ''upload failed'')
      else case read_body (sv_fails sv ''temp_write'') body [] of
             Inl r \<Rightarrow> Err r
           | Inr content \<Rightarrow> if sv_fails sv ''temp_flush'' then Err (err 500 ''upload failed'') else Ok content)"

definition DEFAULT_MAX_EVIDENCE_BYTES_PER_APP :: int where "DEFAULT_MAX_EVIDENCE_BYTES_PER_APP = 10 * 1024 * 1024 * 1024"

definition max_evidence_bytes_per_app :: "env \<Rightarrow> int option" where
  "max_evidence_bytes_per_app sv =
     (case Option.bind (sv_vars sv ''REPROIT_MAX_EVIDENCE_BYTES_PER_APP'') parse_i64 of
        Some n \<Rightarrow> if 0 < n then Some n else None
      | None \<Rightarrow> Some DEFAULT_MAX_EVIDENCE_BYTES_PER_APP)"

definition put_object :: "env \<Rightarrow> Tenant \<Rightarrow> string \<Rightarrow> string \<Rightarrow> bool action" where
  "put_object sv t key bytes a =
     (case blob_put (\<not> sv_fails sv (''put:'' @ key)) (sv_blob_root sv) (t_blob_scope t) key bytes (app_files a) of
        (ok, fs) \<Rightarrow> (Ok ok, a\<lparr>app_files := fs\<rparr>))"

definition storage_key :: "string \<Rightarrow> string \<Rightarrow> string" where
  "storage_key i name = ''captures/'' @ i @ ''/'' @ name"

definition put_file :: "env \<Rightarrow> Tenant action \<Rightarrow> KeyScope \<Rightarrow> string \<Rightarrow> string \<Rightarrow> string option \<Rightarrow> string option
    \<Rightarrow> string option list \<Rightarrow> response action" where
  "put_file sv who scope i name sha_header content_type body =
     andthen who (\<lambda>t.
     andthen (find_capture sv t i) (\<lambda>c.
     andthen (require (open_status (cp_status c)) (err 409 ''capture is not ready for upload'')) (\<lambda>_.
     andthen (key_can_access sv t c scope) (\<lambda>ok.
     andthen (require ok (err 404 ''capture not found'')) (\<lambda>_.
     let expected = expected_files (cp_manifest c)
     in andthen (require (name = ''manifest.json'' \<or> map_of expected name \<noteq> None) (err 400 ''file is not declared by the manifest'')) (\<lambda>_.
        andthen (require (safe_filename name) (err 400 ''invalid capture filename'')) (\<lambda>_.
        andthen (need (case sha_header of Some h \<Rightarrow> if valid_sha256 h then Some h else None | None \<Rightarrow> None)
          (err 400 ''x-reproit-sha256 is required'')) (\<lambda>claimed.
        andthen (case stream_to_file sv body of Inl r \<Rightarrow> stop r | Inr content \<Rightarrow> done_with content) (\<lambda>content.
        let actual = sha256_hex (sv_lib sv) content; key = storage_key i name
        in andthen (require (claimed = actual \<and> (case map_of expected name of Some h \<Rightarrow> h = actual | None \<Rightarrow> True))
             (err 422 ''capture file hash mismatch'')) (\<lambda>_.
           andthen (tctl sv t ''add_capture_file'' (add_capture_file
             \<lparr>pf_capture_id = i, pf_filename = name, pf_storage_key = key, pf_bytes = int (length content), pf_sha256 = actual,
              pf_content_type = (case content_type of Some s \<Rightarrow> s | None \<Rightarrow> ''application/octet-stream''),
              pf_quota_bytes = max_evidence_bytes_per_app sv\<rparr>)) (\<lambda>r.
           andthen (need r capture_failed) (\<lambda>reserved.
           andthen (need reserved (err 409 ''capture is not ready for upload'')) (\<lambda>within.
           andthen (require within (err 413 ''project evidence quota exceeded'')) (\<lambda>_.
           andthen (put_object sv t key content) (\<lambda>stored.
           andthen (if stored then done_with ()
             else andthen (tctl sv t ''remove_capture_file'' (\<lambda>db. (Some (), remove_capture_file i name db))) (\<lambda>_.
               stop (err 500 ''upload failed''))) (\<lambda>_.
           andthen (tctl sv t ''mark_capture_file_uploaded'' (\<lambda>db. apfst Some (mark_capture_file_uploaded i name db))) (\<lambda>r.
           andthen (need r capture_failed) (\<lambda>marked.
           andthen (require marked (err 409 ''capture upload was interrupted'')) (\<lambda>_.
           done_with (reply 200 (JObj [(''ok'', JBool True), (''sha256'', JStr actual)])))))))))))))))))))))"

definition post_complete :: "env \<Rightarrow> Tenant action \<Rightarrow> KeyScope \<Rightarrow> string \<Rightarrow> response action" where
  "post_complete sv who scope i =
     andthen who (\<lambda>t.
     andthen (find_capture sv t i) (\<lambda>c.
     andthen (key_can_access sv t c scope) (\<lambda>ok.
     andthen (require ok (err 404 ''capture not found'')) (\<lambda>_.
     andthen (tlook sv t ''capture_files'' (capture_files i)) (\<lambda>r.
     andthen (need r capture_failed) (\<lambda>files.
     let uploaded = map (\<lambda>f. (cf_filename f, cf_sha256 f)) files
     in andthen (require (map_of uploaded ''manifest.json'' \<noteq> None
            \<and> list_all (\<lambda>(name, hash). map_of uploaded name = Some hash) (expected_files (cp_manifest c)))
          (err 409 ''not all manifest files have been uploaded'')) (\<lambda>_.
        andthen (tctl sv t ''complete_capture'' (\<lambda>db. apfst Some (complete_capture (sv_now sv) i db))) (\<lambda>r.
        andthen (need r capture_failed) (\<lambda>done'.
        andthen (require done' (err 409 ''capture cannot be completed'')) (\<lambda>_.
        capture_status sv t i))))))))))"

definition get_review :: "env \<Rightarrow> Tenant action \<Rightarrow> string \<Rightarrow> response action" where
  "get_review sv who token =
     andthen who (\<lambda>t.
     andthen (tlook sv t ''capture_for_review'' (capture_for_review (sv_now sv) (token_hash sv token))) (\<lambda>r.
     andthen (need r capture_failed) (\<lambda>f.
     andthen (need f (err 404 ''review link is invalid or expired'')) (\<lambda>c.
     andthen (tlook sv t ''list_projects'' list_projects) (\<lambda>ps.
     andthen (need ps capture_failed) (\<lambda>projects.
     done_with (reply 200 (JObj [(''capture'', capture_json sv c),
       (''projects'', JArr (map (\<lambda>(_, name, app_id). JObj [(''appId'', JStr app_id), (''name'', JStr name)]) projects))]))))))))"

record ApproveCaptureRequest =
  ra_app_id :: string
  ra_title :: string
  ra_description :: string
  ra_severity :: string
  ra_visibility :: string

definition post_approve :: "env \<Rightarrow> Tenant action \<Rightarrow> string \<Rightarrow> ApproveCaptureRequest \<Rightarrow> response action" where
  "post_approve sv who token rq =
     andthen who (\<lambda>t.
     let title = trim (ra_title rq)
     in andthen (require (title \<noteq> [] \<and> length title \<le> 200 \<and> length (ra_description rq) \<le> 10000) (err 400 ''invalid capture details'')) (\<lambda>_.
        andthen (require (ra_severity rq \<in> {''low'', ''normal'', ''high'', ''critical''} \<and> ra_visibility rq \<in> {''project'', ''organization''})
          (err 400 ''invalid severity or visibility'')) (\<lambda>_.
        andthen (tctl sv t ''approve_capture'' (\<lambda>db. apfst Some (approve_capture (sv_now sv)
          \<lparr>ca_review_token_hash = token_hash sv token, ca_app_id = ra_app_id rq, ca_title = title,
           ca_description = trim (ra_description rq), ca_severity = ra_severity rq, ca_visibility = ra_visibility rq\<rparr> db))) (\<lambda>r.
        andthen (need r capture_failed) (\<lambda>ok.
        andthen (require ok (err 409 ''capture cannot be approved'')) (\<lambda>_.
        done_with (reply 200 (JObj [(''ok'', JBool True)]))))))))"

definition account_capture :: "env \<Rightarrow> Tenant action \<Rightarrow> string \<Rightarrow> response action" where
  "account_capture sv who i = andthen who (\<lambda>t. capture_status sv t i)"

datatype capture_call =
    CreateCapture KeyScope CreateCaptureRequest
  | CaptureStatus KeyScope string
  | PutFile KeyScope string string "string option" "string option" "string option list"
  | CompleteCapture KeyScope string
  | ReviewCapture string
  | ApproveCapture string ApproveCaptureRequest
  | AccountCapture string

fun serve_capture :: "env \<Rightarrow> Tenant action \<Rightarrow> capture_call \<Rightarrow> response action" where
  "serve_capture sv who (CreateCapture scope rq) = post_capture sv who scope rq"
| "serve_capture sv who (CaptureStatus scope i) = get_capture sv who scope i"
| "serve_capture sv who (PutFile scope i name h ct body) = put_file sv who scope i name h ct body"
| "serve_capture sv who (CompleteCapture scope i) = post_complete sv who scope i"
| "serve_capture sv who (ReviewCapture token) = get_review sv who token"
| "serve_capture sv who (ApproveCapture token rq) = post_approve sv who token rq"
| "serve_capture sv who (AccountCapture i) = account_capture sv who i"

end
