(* ===== verification/Request_Wp.thy ===== *)
theory Request_Wp
  imports Request
begin

text \<open>
  A program logic for actions: the locale \<open>request_wp\<close> computes the weakest precondition of an action whose
  early returns have to establish an invariant. With an invariant of the service state it proves that a
  handler keeps it; with \<open>False\<close> it proves that a handler runs to its end.
\<close>

section \<open>Weakest preconditions\<close>

locale request_wp =
  fixes I :: "app \<Rightarrow> bool"
begin

definition wp :: "'a action \<Rightarrow> ('a \<Rightarrow> app \<Rightarrow> bool) \<Rightarrow> app \<Rightarrow> bool" where
  "wp m Q a = (case m a of (Inl r, b) \<Rightarrow> I b | (Inr x, b) \<Rightarrow> Q x b)"

lemma wp_andthen: "wp (andthen m f) Q a = wp m (\<lambda>x. wp (f x) Q) a"
  by (simp add: wp_def andthen_def split: prod.split sum.split)

lemma wp_done: "wp (done_with x) Q a = Q x a"
  by (simp add: wp_def action_run)

lemma wp_stop: "wp (stop r) Q a = I a"
  by (simp add: wp_def action_run)

lemma wp_require: "wp (require b r) Q a = (if b then Q () a else I a)"
  by (simp add: wp_def action_run)

lemma wp_need: "wp (need v r) Q a = (case v of None \<Rightarrow> I a | Some x \<Rightarrow> Q x a)"
  by (simp add: wp_def action_run split: option.split)

lemma wp_tlook: "wp (tlook sv t m f) Q a = Q (if sv_fails sv m then None else Some (f (app_tenants a (t_store t)))) a"
  by (simp add: wp_def tlook_def)

lemma wp_tctl:
  "wp (tctl sv t m op) Q a =
     (if sv_fails sv m then Q None a
      else Q (fst (op (app_tenants a (t_store t)))) (a\<lparr>app_tenants := (app_tenants a)(t_store t := snd (op (app_tenants a (t_store t))))\<rparr>))"
  by (simp add: wp_def tctl_def split: prod.split)

lemmas wp_simps = wp_andthen wp_done wp_stop wp_require wp_need wp_tlook wp_tctl

text \<open>As introduction rules: one goal for each way a statement can end.\<close>

lemma wp_andthenI: "wp m (\<lambda>x. wp (f x) Q) a \<Longrightarrow> wp (andthen m f) Q a"
  by (simp add: wp_andthen)

lemma wp_doneI: "Q x a \<Longrightarrow> wp (done_with x) Q a"
  by (simp add: wp_done)

lemma wp_stopI: "I a \<Longrightarrow> wp (stop r) Q a"
  by (simp add: wp_stop)

lemma wp_requireI: "(\<not> b \<Longrightarrow> I a) \<Longrightarrow> (b \<Longrightarrow> Q () a) \<Longrightarrow> wp (require b r) Q a"
  by (simp add: wp_require)

lemma wp_needI: "(v = None \<Longrightarrow> I a) \<Longrightarrow> (\<And>x. v = Some x \<Longrightarrow> Q x a) \<Longrightarrow> wp (need v r) Q a"
  by (simp add: wp_need split: option.split)

lemma wp_tlookI: "Q None a \<Longrightarrow> Q (Some (f (app_tenants a (t_store t)))) a \<Longrightarrow> wp (tlook sv t m f) Q a"
  by (simp add: wp_tlook)

lemma wp_tctlI:
  "Q None a \<Longrightarrow> (\<And>r db. op (app_tenants a (t_store t)) = (r, db) \<Longrightarrow> Q r (a\<lparr>app_tenants := (app_tenants a)(t_store t := db)\<rparr>))
    \<Longrightarrow> wp (tctl sv t m op) Q a"
  by (simp add: wp_tctl)

lemma wp_read:
  "I a \<Longrightarrow> wp (f (g (app_tenants a (t_store t)))) Q a \<Longrightarrow> wp (andthen (tlook sv t m g) (\<lambda>r. andthen (need r e) f)) Q a"
  by (simp add: wp_andthen wp_tlook wp_need)

lemma wp_write:
  "I a \<Longrightarrow> (\<And>db. op (app_tenants a (t_store t)) = (None, db) \<Longrightarrow> I (a\<lparr>app_tenants := (app_tenants a)(t_store t := db)\<rparr>))
    \<Longrightarrow> (\<And>x db. op (app_tenants a (t_store t)) = (Some x, db) \<Longrightarrow> wp (f x) Q (a\<lparr>app_tenants := (app_tenants a)(t_store t := db)\<rparr>))
    \<Longrightarrow> wp (andthen (tctl sv t m op) (\<lambda>r. andthen (need r e) f)) Q a"
  by (simp add: wp_andthen wp_tctl wp_need split: option.split) (metis prod.collapse)

lemma wp_ifI: "(b \<Longrightarrow> wp m Q a) \<Longrightarrow> (\<not> b \<Longrightarrow> wp n Q a) \<Longrightarrow> wp (if b then m else n) Q a"
  by simp

lemma wp_optionI:
  "(v = None \<Longrightarrow> wp m Q a) \<Longrightarrow> (\<And>x. v = Some x \<Longrightarrow> wp (f x) Q a) \<Longrightarrow> wp (case v of None \<Rightarrow> m | Some x \<Rightarrow> f x) Q a"
  by (simp split: option.split)

lemma wp_sumI:
  "(\<And>x. v = Inl x \<Longrightarrow> wp (f x) Q a) \<Longrightarrow> (\<And>y. v = Inr y \<Longrightarrow> wp (g y) Q a) \<Longrightarrow> wp (case v of Inl x \<Rightarrow> f x | Inr y \<Rightarrow> g y) Q a"
  by (simp split: sum.split)

lemmas wp_intros = wp_read wp_write wp_andthenI wp_doneI wp_stopI wp_requireI wp_needI wp_tlookI wp_tctlI wp_ifI wp_optionI wp_sumI

lemma wp_mono: "wp m R a \<Longrightarrow> (\<And>x b. R x b \<Longrightarrow> Q x b) \<Longrightarrow> wp m Q a"
  by (auto simp: wp_def split: prod.splits sum.splits)

lemma wp_respond: "wp h (\<lambda>_. I) a \<Longrightarrow> I (snd (respond h a))"
  by (simp add: wp_def respond_def split: prod.splits sum.splits)

end

end
