(* ===== verification/Capture_Laws.thy ===== *)
theory Capture_Laws
  imports Captures Request_Wp
begin

text \<open>
  What the capture handlers guarantee: in every state that requests of a tenant reach, the files of a
  complete capture are stored with the hashes its manifest declares. The proofs compute weakest
  preconditions with \<open>request_wp\<close>.
\<close>

section \<open>The invariant\<close>

definition stored_file :: "path \<Rightarrow> (string \<Rightarrow> string) \<Rightarrow> string \<Rightarrow> files \<Rightarrow> capture_file_row \<Rightarrow> bool" where
  "stored_file root sha scope fs f \<longleftrightarrow>
     (\<exists>bytes. blob_get True root scope (cf_storage_key f) fs = Some bytes \<and> sha bytes = cf_sha256 f)"

definition has_file :: "tenant_data \<Rightarrow> string \<Rightarrow> string \<Rightarrow> (string \<Rightarrow> bool) \<Rightarrow> bool" where
  "has_file db i name P \<longleftrightarrow> (\<exists>f \<in> set (td_capture_files db). cf_key f = (i, name) \<and> cf_uploaded f \<and> P (cf_sha256 f))"

definition all_uploaded :: "tenant_data \<Rightarrow> capture_row \<Rightarrow> bool" where
  "all_uploaded db c \<longleftrightarrow> has_file db (cp_id c) ''manifest.json'' (\<lambda>_. True)
     \<and> (\<forall>(name, hash) \<in> set (expected_files (cp_manifest c)). has_file db (cp_id c) name (\<lambda>h. h = hash))"

definition file_ok :: "path \<Rightarrow> (string \<Rightarrow> string) \<Rightarrow> string \<Rightarrow> files \<Rightarrow> capture_file_row \<Rightarrow> bool" where
  "file_ok root sha scope fs f \<longleftrightarrow> valid_capture_id (cf_capture_id f) \<and> safe_filename (cf_filename f)
     \<and> cf_storage_key f = storage_key (cf_capture_id f) (cf_filename f)
     \<and> (cf_uploaded f \<longrightarrow> stored_file root sha scope fs f)"

definition capture_ok :: "tenant_data \<Rightarrow> capture_row \<Rightarrow> bool" where
  "capture_ok db c \<longleftrightarrow> valid_capture_id (cp_id c) \<and> (cp_status c = ''complete'' \<longrightarrow> all_uploaded db c)"

definition captures_ok :: "path \<Rightarrow> (string \<Rightarrow> string) \<Rightarrow> string \<Rightarrow> tenant_data \<Rightarrow> files \<Rightarrow> bool" where
  "captures_ok root sha scope db fs \<longleftrightarrow> distinct (map cp_id (td_captures db)) \<and> distinct (map cf_key (td_capture_files db))
     \<and> (\<forall>f \<in> set (td_capture_files db). file_ok root sha scope fs f)
     \<and> (\<forall>c \<in> set (td_captures db). capture_ok db c)"

lemma captures_okD:
  assumes "captures_ok root sha scope db fs"
  shows "distinct (map cp_id (td_captures db))" and "distinct (map cf_key (td_capture_files db))"
    and "f \<in> set (td_capture_files db) \<Longrightarrow> file_ok root sha scope fs f"
    and "c \<in> set (td_captures db) \<Longrightarrow> capture_ok db c"
  using assms by (simp_all add: captures_ok_def)

section \<open>Storage keys\<close>

lemma no_slash:
  assumes "valid_capture_id i" shows "CHR ''/'' \<notin> set i"
proof -
  obtain s where "i = ''cap_'' @ s" "list_all is_ascii_hexdigit s"
    using assms by (auto simp: valid_capture_id_def strip_prefix_Some split: option.splits)
  then show ?thesis by (auto simp: list_all_iff ascii_simps byte_def)
qed

lemma no_slash_name: "safe_filename n \<Longrightarrow> CHR ''/'' \<notin> set n"
  by (auto simp: safe_filename_def list_all_iff filename_byte_def ascii_simps byte_def)

lemma split_key:
  assumes "valid_capture_id i" "safe_filename n"
  shows "split_all CHR ''/'' (storage_key i n) = [''captures'', i, n]"
proof -
  have "storage_key i n = ''captures'' @ CHR ''/'' # (i @ CHR ''/'' # n)" by (simp add: storage_key_def)
  moreover have "split_all CHR ''/'' n = [n]"
    using no_slash_name [OF assms(2)] split_all.simps [of "CHR ''/''" n] by (simp add: split_once_None)
  ultimately show ?thesis
    using split_all_step [of "CHR ''/''" "''captures''"] split_all_step [OF no_slash [OF assms(1)]] by simp
qed

lemma key_path:
  assumes "safe_scoped (blob_scope org) (storage_key i n) = Some k" "valid_capture_id i" "safe_filename n"
  shows "local_path root k = tenant_root root org @ [''captures'', i, n]"
  using tenant_key_path [OF assms(1)] split_key [OF assms(2,3)] by simp

lemma key_safe:
  assumes "blob_put io root scope key bytes fs = (True, fs1)"
  shows "\<exists>k. safe_scoped scope key = Some k \<and> fs1 = upsert fst (local_path root k, bytes) (\<lambda>(p, _). (p, bytes)) fs"
  using assms by (simp add: blob_put_def local_put_def split: option.splits if_splits)

lemma get_put_same:
  assumes "blob_put io root scope key bytes fs = (True, fs1)"
  shows "blob_get True root scope key fs1 = Some bytes"
proof -
  obtain k where "safe_scoped scope key = Some k" "fs1 = upsert fst (local_path root k, bytes) (\<lambda>(p, _). (p, bytes)) fs"
    using key_safe [OF assms] by blast
  then show ?thesis by (simp add: blob_get_def local_get_def row_of_put)
qed

lemma get_put_other:
  assumes "blob_put io root (blob_scope org) (storage_key i n) bytes fs = (True, fs1)"
    and "valid_capture_id i" "safe_filename n" "valid_capture_id i'" "safe_filename n'" "(i', n') \<noteq> (i, n)"
  shows "blob_get True root (blob_scope org) (storage_key i' n') fs1 = blob_get True root (blob_scope org) (storage_key i' n') fs"
proof (cases "safe_scoped (blob_scope org) (storage_key i' n')")
  case (Some k')
  obtain k where k: "safe_scoped (blob_scope org) (storage_key i n) = Some k" "fs1 = upsert fst (local_path root k, bytes) (\<lambda>(p, _). (p, bytes)) fs"
    using key_safe [OF assms(1)] by blast
  have "local_path root k' \<noteq> local_path root k"
    using key_path [OF k(1) assms(2,3)] key_path [OF Some assms(4,5)] assms(6) by simp
  then show ?thesis using k Some by (simp add: blob_get_def local_get_def row_of_put)
qed (simp add: blob_get_def)

section \<open>Steps of an upload\<close>

text \<open>A file that is reserved and not yet uploaded.\<close>

definition reserved :: "string \<Rightarrow> string \<Rightarrow> string \<Rightarrow> tenant_data \<Rightarrow> bool" where
  "reserved i name hash db \<longleftrightarrow>
     (\<exists>f \<in> set (td_capture_files db). cf_key f = (i, name) \<and> \<not> cf_uploaded f \<and> cf_sha256 f = hash)"

lemma reserved_unique:
  assumes "captures_ok root sha scope db fs" "reserved i name hash db" "f \<in> set (td_capture_files db)" "cf_key f = (i, name)"
  shows "\<not> cf_uploaded f" "cf_sha256 f = hash"
  using assms captures_okD(2) [OF assms(1)] key_unique [of cf_key "td_capture_files db"] by (auto simp: reserved_def) metis+

lemma all_uploaded_mono:
  assumes "all_uploaded db c"
    and "\<And>f. f \<in> set (td_capture_files db) \<Longrightarrow> cf_uploaded f \<Longrightarrow> cf_capture_id f = cp_id c \<Longrightarrow> f \<in> set (td_capture_files db')"
  shows "all_uploaded db' c"
proof -
  have "has_file db' (cp_id c) n P" if "has_file db (cp_id c) n P" for n P
    using that assms(2) by (auto simp: has_file_def cf_key_def)
  then show ?thesis using assms(1) by (auto simp: all_uploaded_def)
qed

lemma captures_ok_change:
  assumes ok: "captures_ok root sha scope db fs"
    and caps: "\<And>c. c \<in> set (td_captures db') \<Longrightarrow> valid_capture_id (cp_id c)
        \<and> (cp_status c = ''complete'' \<longrightarrow> (\<exists>c' \<in> set (td_captures db). cp_id c' = cp_id c \<and> cp_manifest c' = cp_manifest c \<and> all_uploaded db c'))"
    and ids: "distinct (map cp_id (td_captures db'))"
    and keys: "distinct (map cf_key (td_capture_files db'))"
    and files: "\<And>f. f \<in> set (td_capture_files db') \<Longrightarrow> file_ok root sha scope fs f"
    and kept: "\<And>f c. f \<in> set (td_capture_files db) \<Longrightarrow> cf_uploaded f \<Longrightarrow> c \<in> set (td_captures db') \<Longrightarrow> cp_status c = ''complete''
        \<Longrightarrow> cf_capture_id f = cp_id c \<Longrightarrow> f \<in> set (td_capture_files db')"
  shows "captures_ok root sha scope db' fs"
  unfolding captures_ok_def
proof (intro conjI ballI)
  fix c assume c: "c \<in> set (td_captures db')"
  have "all_uploaded db' c" if st: "cp_status c = ''complete''"
  proof -
    obtain c' where c': "cp_id c' = cp_id c" "cp_manifest c' = cp_manifest c" "all_uploaded db c'" using caps [OF c] st by blast
    have "all_uploaded db' c'" using c'(3) by (rule all_uploaded_mono) (use kept [OF _ _ c st] c'(1) in simp)
    then show ?thesis using c' by (simp add: all_uploaded_def)
  qed
  then show "capture_ok db' c" using caps [OF c] by (simp add: capture_ok_def)
qed (use ids keys files in blast)+

text \<open>Reserving a file of an open capture.\<close>

lemma add_file_cases:
  assumes "add_capture_file pf db = (r, db')"
  shows "db' = db \<and> r \<noteq> Some (Some True) \<or> r = Some (Some True) \<and>
    (\<exists>row up. cf_key row = (pf_capture_id pf, pf_filename pf) \<and> \<not> cf_uploaded row \<and> cf_sha256 row = pf_sha256 pf
      \<and> cf_storage_key row = pf_storage_key pf
      \<and> (\<forall>x. cf_key (up x) = cf_key x \<and> \<not> cf_uploaded (up x) \<and> cf_sha256 (up x) = pf_sha256 pf \<and> cf_storage_key (up x) = pf_storage_key pf)
      \<and> td_capture_files db' = upsert cf_key row up (td_capture_files db)
      \<and> td_captures db' = update_where (\<lambda>c. cp_id c = pf_capture_id pf) (\<lambda>c. c\<lparr>cp_status := ''uploading''\<rparr>) (td_captures db))"
proof (cases "List.find (\<lambda>c. cp_id c = pf_capture_id pf \<and> open_status (cp_status c)) (td_captures db)")
  case (Some c)
  show ?thesis
  proof (cases "cp_app_id c")
    case (Some x)
    let ?row = "\<lparr>cf_capture_id = pf_capture_id pf, cf_filename = pf_filename pf, cf_storage_key = pf_storage_key pf,
                  cf_bytes = pf_bytes pf, cf_sha256 = pf_sha256 pf, cf_content_type = pf_content_type pf, cf_uploaded = False\<rparr>"
    let ?up = "\<lambda>r. r\<lparr>cf_storage_key := pf_storage_key pf, cf_bytes := pf_bytes pf, cf_sha256 := pf_sha256 pf,
                 cf_content_type := pf_content_type pf, cf_uploaded := False\<rparr>"
    have "cf_key ?row = (pf_capture_id pf, pf_filename pf)" "\<forall>x. cf_key (?up x) = cf_key x" by (simp_all add: cf_key_def)
    then show ?thesis using assms \<open>List.find _ _ = Some c\<close> Some
      by (auto simp: add_capture_file_def Let_def split: if_splits intro!: exI [of _ ?row] exI [of _ ?up])
  qed (use assms \<open>List.find _ _ = Some c\<close> in \<open>auto simp: add_capture_file_def\<close>)
qed (use assms in \<open>auto simp: add_capture_file_def\<close>)

lemma add_file_ok:
  assumes ok: "captures_ok root sha scope db fs" and add: "add_capture_file pf db = (Some (Some True), db')"
    and names: "valid_capture_id (pf_capture_id pf)" "safe_filename (pf_filename pf)"
      "pf_storage_key pf = storage_key (pf_capture_id pf) (pf_filename pf)"
  shows "captures_ok root sha scope db' fs" "reserved (pf_capture_id pf) (pf_filename pf) (pf_sha256 pf) db'"
proof -
  obtain row up where row: "cf_key row = (pf_capture_id pf, pf_filename pf)" "\<not> cf_uploaded row" "cf_sha256 row = pf_sha256 pf"
      "cf_storage_key row = pf_storage_key pf"
    and up: "\<And>x. cf_key (up x) = cf_key x" "\<And>x. \<not> cf_uploaded (up x)" "\<And>x. cf_sha256 (up x) = pf_sha256 pf"
      "\<And>x. cf_storage_key (up x) = pf_storage_key pf"
    and db': "td_capture_files db' = upsert cf_key row up (td_capture_files db)"
      "td_captures db' = update_where (\<lambda>c. cp_id c = pf_capture_id pf) (\<lambda>c. c\<lparr>cp_status := ''uploading''\<rparr>) (td_captures db)"
    using add_file_cases [OF add] by blast
  have new: "file_ok root sha scope fs f" if "cf_key f = (pf_capture_id pf, pf_filename pf)" "\<not> cf_uploaded f" "cf_storage_key f = pf_storage_key pf" for f
    using that names by (simp add: file_ok_def cf_key_def)
  show "captures_ok root sha scope db' fs"
  proof (rule captures_ok_change [OF ok])
    show "distinct (map cf_key (td_capture_files db'))"
      unfolding db' by (rule distinct_upsert [OF captures_okD(2) [OF ok]]) (rule up(1))
    show "file_ok root sha scope fs f" if "f \<in> set (td_capture_files db')" for f
      using that new row up captures_okD(3) [OF ok] unfolding db' upsert_def
      by (auto simp: set_update_where split: if_splits)
    show "f \<in> set (td_capture_files db')"
      if "f \<in> set (td_capture_files db)" "c \<in> set (td_captures db')" "cp_status c = ''complete''" "cf_capture_id f = cp_id c" for f c
    proof -
      have "cp_id c \<noteq> pf_capture_id pf" using that(2,3) by (auto simp: db' set_update_where)
      then have "cf_key f \<noteq> cf_key row" using that(4) row(1) by (auto simp: cf_key_def)
      then show ?thesis using that(1) by (auto simp: db' upsert_def set_update_where)
    qed
  qed (use captures_okD(1,4) [OF ok] names(1) in \<open>auto simp: db' set_update_where capture_ok_def intro!: distinct_update_where\<close>)
  show "reserved (pf_capture_id pf) (pf_filename pf) (pf_sha256 pf) db'"
  proof (cases "cf_key row \<in> cf_key ` set (td_capture_files db)")
    case True
    then obtain f where "f \<in> set (td_capture_files db)" "cf_key f = cf_key row" by auto
    then show ?thesis using up row
      by (auto simp: reserved_def db' upsert_def set_update_where list_ex_iff intro!: bexI [of _ "up f"])
  next
    case False
    then show ?thesis using row by (auto simp: reserved_def db' upsert_def list_ex_iff set_update_where intro!: bexI [of _ row])
  qed
qed

text \<open>Storing the object, giving up and finishing.\<close>

lemma put_object_ok:
  assumes ok: "captures_ok root sha (blob_scope org) db fs" and res: "reserved i name hash db"
    and put: "blob_put io root (blob_scope org) (storage_key i name) bytes fs = (True, fs1)"
    and names: "valid_capture_id i" "safe_filename name"
  shows "captures_ok root sha (blob_scope org) db fs1"
proof -
  have "file_ok root sha (blob_scope org) fs1 f" if f: "f \<in> set (td_capture_files db)" for f
  proof (cases "cf_key f = (i, name)")
    case True
    then show ?thesis using captures_okD(3) [OF ok f] reserved_unique(1) [OF ok res f] by (simp add: file_ok_def)
  next
    case False
    then show ?thesis using captures_okD(3) [OF ok f] get_put_other [OF put names, of "cf_capture_id f" "cf_filename f"]
      by (auto simp: file_ok_def stored_file_def cf_key_def)
  qed
  then show ?thesis using ok by (simp add: captures_ok_def)
qed

lemma remove_file_ok:
  assumes ok: "captures_ok root sha scope db fs" and res: "reserved i name hash db"
  shows "captures_ok root sha scope (remove_capture_file i name db) fs"
  by (rule captures_ok_change [OF ok])
    (use captures_okD [OF ok] reserved_unique(1) [OF ok res] in
      \<open>auto simp: remove_capture_file_def set_delete_where capture_ok_def intro!: distinct_delete_where\<close>)

lemma mark_file_ok:
  assumes ok: "captures_ok root sha scope db fs" and res: "reserved i name (sha bytes) db"
    and stored: "blob_get True root scope (storage_key i name) fs = Some bytes"
  shows "captures_ok root sha scope (snd (mark_capture_file_uploaded i name db)) fs"
proof (rule captures_ok_change [OF ok])
  show "file_ok root sha scope fs f" if "f \<in> set (td_capture_files (snd (mark_capture_file_uploaded i name db)))" for f
    using that captures_okD(3) [OF ok] reserved_unique(2) [OF ok res] stored
    by (fastforce simp: mark_capture_file_uploaded_def Let_def set_update_where file_ok_def stored_file_def cf_key_def)
  show "distinct (map cf_key (td_capture_files (snd (mark_capture_file_uploaded i name db))))"
    using captures_okD(2) [OF ok] by (simp add: mark_capture_file_uploaded_def Let_def distinct_update_where cf_key_def)
  show "f \<in> set (td_capture_files (snd (mark_capture_file_uploaded i name db)))"
    if "f \<in> set (td_capture_files db)" "cf_uploaded f" for f
    using that reserved_unique(1) [OF ok res that(1)] by (auto simp: mark_capture_file_uploaded_def Let_def set_update_where)
qed (use captures_okD(1,4) [OF ok] in \<open>auto simp: mark_capture_file_uploaded_def Let_def capture_ok_def\<close>)

text \<open>Creating, approving and completing.\<close>

lemma create_capture_ok:
  assumes ok: "captures_ok root sha scope db fs" and i: "valid_capture_id (nc_id c)"
  shows "captures_ok root sha scope (snd (create_capture jeq now c db)) fs"
  by (rule captures_ok_change [OF ok])
    (use captures_okD [OF ok] i in \<open>auto simp: create_capture_def Let_def set_update_where capture_ok_def row_of_None intro!: distinct_update_where split: option.splits if_splits\<close>)

lemma approve_capture_ok:
  assumes ok: "captures_ok root sha scope db fs"
  shows "captures_ok root sha scope (snd (approve_capture now ap db)) fs"
  by (rule captures_ok_change [OF ok])
    (use captures_okD [OF ok] in \<open>auto simp: approve_capture_def Let_def set_update_where capture_ok_def intro!: distinct_update_where\<close>)

lemma complete_capture_ok:
  assumes ok: "captures_ok root sha scope db fs" and all: "\<And>c. c \<in> set (td_captures db) \<Longrightarrow> cp_id c = i \<Longrightarrow> all_uploaded db c"
  shows "captures_ok root sha scope (snd (complete_capture now i db)) fs"
  by (rule captures_ok_change [OF ok])
    (use captures_okD [OF ok] all in \<open>auto simp: complete_capture_def Let_def set_update_where capture_ok_def intro!: distinct_update_where\<close>)

lemma capture_found:
  assumes "captures_ok root sha scope db fs" "capture i db = Some c"
  shows "c \<in> set (td_captures db)" "cp_id c = i" "valid_capture_id i" "c' \<in> set (td_captures db) \<Longrightarrow> cp_id c' = i \<Longrightarrow> c' = c"
proof -
  have c: "c \<in> set (td_captures db)" "cp_id c = i" using assms(2) by (auto simp: capture_def row_of_def dest: find_in)
  then show "c \<in> set (td_captures db)" "cp_id c = i" by blast+
  show "valid_capture_id i" using captures_okD(4) [OF assms(1) c(1)] c(2) by (simp add: capture_ok_def)
  show "c' = c" if "c' \<in> set (td_captures db)" "cp_id c' = i"
    using that c key_unique [OF captures_okD(1) [OF assms(1)]] by metis
qed

lemma uploaded_map:
  assumes "map_of (map (\<lambda>f. (cf_filename f, cf_sha256 f)) (capture_files i db)) name = Some h"
  shows "has_file db i name (\<lambda>x. x = h)"
  using map_of_SomeD [OF assms] by (auto simp: has_file_def capture_files_def cf_key_def)

lemma checked_all_uploaded:
  assumes "map_of (map (\<lambda>f. (cf_filename f, cf_sha256 f)) (capture_files i db)) ''manifest.json'' \<noteq> None"
    and "list_all (\<lambda>(name, hash). map_of (map (\<lambda>f. (cf_filename f, cf_sha256 f)) (capture_files i db)) name = Some hash)
      (expected_files (cp_manifest c))"
    and "cp_id c = i"
  shows "all_uploaded db c"
  using assms uploaded_map [of i db] by (fastforce simp: all_uploaded_def has_file_def list_all_iff)

section \<open>The handlers\<close>

text \<open>The service as one tenant sees it.\<close>

definition tenant_ok :: "path \<Rightarrow> (string \<Rightarrow> string) \<Rightarrow> Tenant \<Rightarrow> app \<Rightarrow> bool" where
  "tenant_ok root sha t a \<longleftrightarrow> captures_ok root sha (t_blob_scope t) (app_tenants a (t_store t)) (app_files a)"

interpretation intact: request_wp "tenant_ok root sha t" for root sha t .

lemma intact_put:
  "intact.wp root sha t (put_object sv t key bytes) Q a =
     (case blob_put (\<not> sv_fails sv (''put:'' @ key)) (sv_blob_root sv) (t_blob_scope t) key bytes (app_files a) of
        (ok, fs) \<Rightarrow> Q ok (a\<lparr>app_files := fs\<rparr>))"
  by (simp add: intact.wp_def put_object_def split: prod.split)

lemma blob_put_fails: "blob_put io root scope key bytes fs = (False, fs') \<Longrightarrow> fs' = fs"
  by (auto simp: blob_put_def local_put_def split: option.splits if_splits)

lemma tenant_ok_store [simp]:
  "tenant_ok root sha t (a\<lparr>app_tenants := (app_tenants a)(t_store t := db)\<rparr>) = captures_ok root sha (t_blob_scope t) db (app_files a)"
  "tenant_ok root sha t (a\<lparr>app_tenants := (app_tenants a)(t_store t := db), app_files := fs\<rparr>) = captures_ok root sha (t_blob_scope t) db fs"
  by (simp_all add: tenant_ok_def)

lemma status_intact:
  assumes "tenant_ok root sha t a" shows "intact.wp root sha t (capture_status sv t i) (\<lambda>_. tenant_ok root sha t) a"
  unfolding capture_status_def find_capture_def by (intro intact.wp_intros) (rule assms)+

lemma find_intact:
  assumes "tenant_ok root sha t a" "\<And>c. capture i (app_tenants a (t_store t)) = Some c \<Longrightarrow> Q c a"
  shows "intact.wp root sha t (find_capture sv t i) Q a"
  unfolding find_capture_def by (intro intact.wp_intros) (use assms in auto)

lemma access_intact:
  assumes "\<And>b. Q b a" shows "intact.wp root sha t (key_can_access sv t c scope) Q a"
  unfolding key_can_access_def by (intro intact.wp_intros assms)

lemma completion_step:
  assumes ok: "tenant_ok root sha t a" and c: "capture i (app_tenants a (t_store t)) = Some c"
    and all: "map_of (map (\<lambda>f. (cf_filename f, cf_sha256 f)) (capture_files i (app_tenants a (t_store t)))) ''manifest.json'' \<noteq> None \<and>
      list_all (\<lambda>(name, hash). map_of (map (\<lambda>f. (cf_filename f, cf_sha256 f)) (capture_files i (app_tenants a (t_store t)))) name = Some hash)
        (expected_files (cp_manifest c))"
    and run: "apfst Some (complete_capture now i (app_tenants a (t_store t))) = (r, db)"
  shows "tenant_ok root sha t (a\<lparr>app_tenants := (app_tenants a)(t_store t := db)\<rparr>)"
proof -
  let ?db = "app_tenants a (t_store t)"
  note found = capture_found [OF ok [unfolded tenant_ok_def] c]
  have "all_uploaded ?db c'" if "c' \<in> set (td_captures ?db)" "cp_id c' = i" for c'
    using checked_all_uploaded [of i ?db c] all found(2) found(4) [OF that] by auto
  then have "captures_ok root sha (t_blob_scope t) (snd (complete_capture now i ?db)) (app_files a)"
    by (rule complete_capture_ok [OF ok [unfolded tenant_ok_def]])
  then show ?thesis using run by (cases "complete_capture now i ?db") auto
qed

lemma complete_intact:
  assumes "tenant_ok root sha t a"
  shows "intact.wp root sha t (post_complete sv (done_with t) scope i) (\<lambda>_. tenant_ok root sha t) a"
  unfolding post_complete_def Let_def
  by (intro intact.wp_intros find_intact access_intact status_intact assms) (erule (2) completion_step [OF assms])+

lemma intact_putI:
  "(\<And>ok fs. blob_put (\<not> sv_fails sv (''put:'' @ key)) (sv_blob_root sv) (t_blob_scope t) key bytes (app_files a) = (ok, fs)
      \<Longrightarrow> Q ok (a\<lparr>app_files := fs\<rparr>))
    \<Longrightarrow> intact.wp root sha t (put_object sv t key bytes) Q a"
  by (simp add: intact_put split: prod.split)

definition upload_of :: "string \<Rightarrow> string \<Rightarrow> string \<Rightarrow> PendingCaptureFile \<Rightarrow> bool" where
  "upload_of i name hash pf \<longleftrightarrow> pf_capture_id pf = i \<and> pf_filename pf = name \<and> pf_sha256 pf = hash \<and> pf_storage_key pf = storage_key i name"

lemma upload_steps:
  assumes ok: "captures_ok root sha (blob_scope org) db fs" and c: "capture i db = Some c" and n: "safe_filename name"
    and pf: "upload_of i name (sha content) pf" and add: "add_capture_file pf db = (r, db1)"
  shows "captures_ok root sha (blob_scope org) db1 fs"
    and "r = Some (Some True) \<Longrightarrow> blob_put io root (blob_scope org) (storage_key i name) content fs = (st, fs1)
      \<Longrightarrow> captures_ok root sha (blob_scope org) db1 fs1"
    and "r = Some (Some True) \<Longrightarrow> blob_put io root (blob_scope org) (storage_key i name) content fs = (False, fs1)
      \<Longrightarrow> captures_ok root sha (blob_scope org) (remove_capture_file i name db1) fs1"
    and "r = Some (Some True) \<Longrightarrow> blob_put io root (blob_scope org) (storage_key i name) content fs = (True, fs1)
      \<Longrightarrow> apfst Some (mark_capture_file_uploaded i name db1) = (r2, db2) \<Longrightarrow> captures_ok root sha (blob_scope org) db2 fs1"
proof -
  have names: "valid_capture_id i" "safe_filename name" using capture_found(3) [OF ok c] n by simp_all
  have added: "captures_ok root sha (blob_scope org) db1 fs" "reserved i name (sha content) db1" if "r = Some (Some True)"
    using add_file_ok [OF ok add [unfolded that]] pf names by (simp_all add: upload_of_def)
  show keep: "captures_ok root sha (blob_scope org) db1 fs"
    using add_file_cases [OF add] added(1) ok by (cases "r = Some (Some True)") auto
  show put: "captures_ok root sha (blob_scope org) db1 fs1"
    if "r = Some (Some True)" "blob_put io root (blob_scope org) (storage_key i name) content fs = (st, fs1)" for st
  proof (cases st)
    case True
    then have "blob_put io root (blob_scope org) (storage_key i name) content fs = (True, fs1)" using that(2) by simp
    then show ?thesis by (rule put_object_ok [OF added [OF that(1)] _ names])
  next
    case False
    then show ?thesis using keep blob_put_fails [of io root "blob_scope org" "storage_key i name" content fs fs1] that(2) by simp
  qed
  show "captures_ok root sha (blob_scope org) (remove_capture_file i name db1) fs1"
    if "r = Some (Some True)" "blob_put io root (blob_scope org) (storage_key i name) content fs = (False, fs1)"
    using remove_file_ok [OF put [OF that] added(2) [OF that(1)]] .
  show "captures_ok root sha (blob_scope org) db2 fs1"
    if "r = Some (Some True)" "blob_put io root (blob_scope org) (storage_key i name) content fs = (True, fs1)"
      "apfst Some (mark_capture_file_uploaded i name db1) = (r2, db2)"
    using mark_file_ok [OF put [OF that(1,2)] added(2) [OF that(1)] get_put_same [OF that(2)]] that(3)
    by (cases "mark_capture_file_uploaded i name db1") simp
qed

lemma put_file_intact:
  assumes ok: "tenant_ok root (sha256_hex (sv_lib sv)) t a" and org: "t_blob_scope t = blob_scope org" and env: "sv_blob_root sv = root"
  shows "intact.wp root (sha256_hex (sv_lib sv)) t (put_file sv (done_with t) scope i name h ct body) (\<lambda>_. tenant_ok root (sha256_hex (sv_lib sv)) t) a"
proof -
  let ?sha = "sha256_hex (sv_lib sv)" and ?db = "app_tenants a (t_store t)"
  let ?pf = "\<lambda>content. \<lparr>pf_capture_id = i, pf_filename = name, pf_storage_key = storage_key i name, pf_bytes = int (length content),
      pf_sha256 = ?sha content, pf_content_type = (case ct of Some s \<Rightarrow> s | None \<Rightarrow> ''application/octet-stream''),
      pf_quota_bytes = max_evidence_bytes_per_app sv\<rparr>"
  let ?put = "\<lambda>content. blob_put (\<not> sv_fails sv (''put:'' @ storage_key i name)) (sv_blob_root sv) (t_blob_scope t) (storage_key i name) content"
  have steps: "captures_ok root ?sha (t_blob_scope t) db1 (app_files a)"
      "r = Some (Some True) \<Longrightarrow> ?put content (app_files a) = (st, fs1) \<Longrightarrow> captures_ok root ?sha (t_blob_scope t) db1 fs1"
      "r = Some (Some True) \<Longrightarrow> ?put content (app_files a) = (False, fs1)
        \<Longrightarrow> captures_ok root ?sha (t_blob_scope t) (remove_capture_file i name db1) fs1"
      "r = Some (Some True) \<Longrightarrow> ?put content (app_files a) = (True, fs1)
        \<Longrightarrow> apfst Some (mark_capture_file_uploaded i name db1) = (r2, db2) \<Longrightarrow> captures_ok root ?sha (t_blob_scope t) db2 fs1"
    if "capture i ?db = Some c" "safe_filename name" "add_capture_file (?pf content) ?db = (r, db1)"
    for c content r db1 st fs1 r2 db2
    using upload_steps [OF ok [unfolded tenant_ok_def org] that(1,2) _ that(3), of content] unfolding org env
    by (simp_all add: upload_of_def)
  show ?thesis
    unfolding put_file_def Let_def
    by (intro intact.wp_intros find_intact access_intact intact_putI ok)
      (auto simp: tenant_ok_def intro: steps(1) dest: steps(2-4))
qed

lemma serve_capture_intact:
  assumes ok: "tenant_ok root (sha256_hex (sv_lib sv)) t a" and org: "t_blob_scope t = blob_scope org" and env: "sv_blob_root sv = root"
  shows "tenant_ok root (sha256_hex (sv_lib sv)) t (snd (respond (serve_capture sv (done_with t) c) a))"
proof -
  let ?ok = "tenant_ok root (sha256_hex (sv_lib sv)) t"
  have "intact.wp root (sha256_hex (sv_lib sv)) t (serve_capture sv (done_with t) c) (\<lambda>_. ?ok) a"
  proof (cases c)
    case (CreateCapture scope rq)
    have new: "?ok (a\<lparr>app_tenants := (app_tenants a)(t_store t := db)\<rparr>)"
      if "valid_capture_id (nc_id nc)" "create_capture jeq now nc (app_tenants a (t_store t)) = (r, db)" for jeq now nc r db
      using create_capture_ok [OF ok [unfolded tenant_ok_def] that(1), of jeq now] that(2) by simp
    show ?thesis
      unfolding CreateCapture serve_capture.simps post_capture_def Let_def
      by (intro intact.wp_intros ok; rule new [rotated], assumption, simp)
  next
    case (CaptureStatus scope i)
    show ?thesis unfolding CaptureStatus serve_capture.simps get_capture_def
      by (intro intact.wp_intros find_intact access_intact status_intact ok)
  next
    case (PutFile scope i name h ct body)
    then show ?thesis using put_file_intact [OF ok org env] by simp
  next
    case (CompleteCapture scope i)
    then show ?thesis using complete_intact [OF ok] by simp
  next
    case (ReviewCapture token)
    show ?thesis unfolding ReviewCapture serve_capture.simps get_review_def by (intro intact.wp_intros ok)
  next
    case (ApproveCapture token rq)
    have new: "?ok (a\<lparr>app_tenants := (app_tenants a)(t_store t := db)\<rparr>)"
      if "apfst Some (approve_capture now ap (app_tenants a (t_store t))) = (r, db)" for now ap r db
      using approve_capture_ok [OF ok [unfolded tenant_ok_def], of now ap] that
      by (cases "approve_capture now ap (app_tenants a (t_store t))") simp
    show ?thesis unfolding ApproveCapture serve_capture.simps post_approve_def Let_def
      by (intro intact.wp_intros ok) (erule new)+
  next
    case (AccountCapture i)
    show ?thesis unfolding AccountCapture serve_capture.simps account_capture_def by (intro intact.wp_intros status_intact ok)
  qed
  then show ?thesis by (rule intact.wp_respond)
qed

definition serve_captures :: "Tenant \<Rightarrow> (env \<times> capture_call) list \<Rightarrow> app \<Rightarrow> app" where
  "serve_captures t rqs a = foldl (\<lambda>a (sv, c). snd (respond (serve_capture sv (done_with t) c) a)) a rqs"

lemma serve_captures_ok:
  assumes "list_all (\<lambda>(sv, c). sv_blob_root sv = root \<and> sha256_hex (sv_lib sv) = sha) rqs" "t_blob_scope t = blob_scope org"
    and "tenant_ok root sha t a"
  shows "tenant_ok root sha t (serve_captures t rqs a)"
  using assms(1,3)
proof (induction rqs arbitrary: a)
  case (Cons rq rqs)
  obtain sv c where rq: "rq = (sv, c)" by (cases rq)
  have "tenant_ok root sha t (snd (respond (serve_capture sv (done_with t) c) a))"
    using serve_capture_intact [OF _ assms(2), of root sv a c] Cons.prems rq by auto
  then show ?case using Cons.IH Cons.prems rq by (simp add: serve_captures_def)
qed (simp add: serve_captures_def)

text \<open>C13. A capture that is complete is there: from a tenant without captures, when requests created, uploaded,
  reviewed and completed captures one after the other (each runs to its end before the next), and whichever
  store or storage call failed in between, each file that the manifest of a complete capture declares is read
  back from the object store under the capture's key, with exactly the hash the manifest declares.\<close>
theorem complete_captures_stored:
  assumes "list_all (\<lambda>(sv, c). sv_blob_root sv = root \<and> sha256_hex (sv_lib sv) = sha) rqs"
    and "t_blob_scope t = blob_scope org"
    and "td_captures (app_tenants a (t_store t)) = []" "td_capture_files (app_tenants a (t_store t)) = []"
    and "a' = serve_captures t rqs a"
    and "c \<in> set (td_captures (app_tenants a' (t_store t)))" "cp_status c = ''complete''"
    and "(name, hash) \<in> set (expected_files (cp_manifest c))"
  shows "\<exists>bytes. blob_get True root (t_blob_scope t) (storage_key (cp_id c) name) (app_files a') = Some bytes \<and> sha bytes = hash"
proof -
  let ?db = "app_tenants a' (t_store t)"
  have "tenant_ok root sha t a" using assms(3,4) by (simp add: tenant_ok_def captures_ok_def)
  then have ok: "captures_ok root sha (t_blob_scope t) ?db (app_files a')"
    using serve_captures_ok [OF assms(1,2)] assms(5) by (simp add: tenant_ok_def)
  then have "has_file ?db (cp_id c) name (\<lambda>h. h = hash)"
    using captures_okD(4) [OF ok assms(6)] assms(7,8) by (auto simp: capture_ok_def all_uploaded_def)
  then obtain f where f: "f \<in> set (td_capture_files ?db)" "cf_key f = (cp_id c, name)" "cf_uploaded f" "cf_sha256 f = hash"
    by (auto simp: has_file_def)
  with captures_okD(3) [OF ok f(1)] show ?thesis by (auto simp: file_ok_def stored_file_def cf_key_def)
qed

lemma row_of_update_map:
  "(\<And>x. key (f x) = key x) \<Longrightarrow> row_of key k (update_where P f t) = map_option (\<lambda>x. if P x then f x else x) (row_of key k t)"
  by (induction t) (auto simp: row_of_def update_where_def)

text \<open>The check and the completion are separate statements. If a second upload of a file reserves it
  between them, the capture becomes complete although the file is not available, and an upload that
  then fails removes the file for good.\<close>
lemma completion_race:
  assumes "capture i db = Some c" "open_status (cp_status c)" "pf_capture_id pf = i"
    and "add_capture_file pf db = (Some (Some True), db1)" "complete_capture now i db1 = (r, db2)"
  shows "r \<and> (\<exists>c2. capture i db2 = Some c2 \<and> cp_status c2 = ''complete'')
    \<and> pf_filename pf \<notin> cf_filename ` set (capture_files i db2)
    \<and> (pf_filename pf \<notin> cf_filename ` {f \<in> set (td_capture_files (remove_capture_file i (pf_filename pf) db2)). cf_capture_id f = i})"
proof -
  obtain row up where row: "cf_key row = (i, pf_filename pf)" "\<not> cf_uploaded row"
    and up: "\<And>x. cf_key (up x) = cf_key x" "\<And>x. \<not> cf_uploaded (up x)"
    and db1: "td_capture_files db1 = upsert cf_key row up (td_capture_files db)"
      "td_captures db1 = update_where (\<lambda>c. cp_id c = i) (\<lambda>c. c\<lparr>cp_status := ''uploading''\<rparr>) (td_captures db)"
    using add_file_cases [OF assms(4)] assms(3) by auto
  have in1: "\<not> cf_uploaded f" if "f \<in> set (td_capture_files db1)" "cf_key f = (i, pf_filename pf)" for f
    using that row up unfolding db1 upsert_def by (force simp: set_update_where split: if_splits)
  have found: "capture i db1 = Some (c\<lparr>cp_status := ''uploading''\<rparr>)"
    using assms(1) unfolding capture_def db1 by (subst row_of_update_map) (auto simp: row_of_def find_Some_iff)
  have db2: "db2 = snd (complete_capture now i db1)" "r = fst (complete_capture now i db1)" using assms(5) by simp_all
  have id: "cp_id c = i" using assms(1) find_in unfolding capture_def row_of_def by fastforce
  have "capture i db2 = Some (c\<lparr>cp_status := ''complete'', cp_expires_at := now\<rparr>)"
    using found id unfolding db2 capture_def complete_capture_def Let_def
    by (simp add: row_of_update_map open_status_def)
  moreover have "r"
    using found find_in unfolding db2 complete_capture_def Let_def capture_def row_of_def
    by (fastforce simp: affected_def open_status_def filter_empty_conv)
  moreover have "td_capture_files db2 = td_capture_files db1" by (simp add: db2 complete_capture_def Let_def)
  ultimately show ?thesis using in1
    by (auto simp: capture_files_def cf_key_def remove_capture_file_def set_delete_where)
qed

section \<open>A complete upload is accepted\<close>

text \<open>With \<open>False\<close> for the early returns, the weakest precondition says that the action runs to its end.\<close>

interpretation run: request_wp "\<lambda>_. False" .

lemma complete_succeeds:
  assumes "\<And>m. \<not> sv_fails sv m" "capture i (app_tenants a (t_store t)) = Some c" "ks_project_id scope = None"
    and "map_of (map (\<lambda>f. (cf_filename f, cf_sha256 f)) (capture_files i (app_tenants a (t_store t)))) ''manifest.json'' \<noteq> None"
    and "list_all (\<lambda>(name, hash). map_of (map (\<lambda>f. (cf_filename f, cf_sha256 f)) (capture_files i (app_tenants a (t_store t)))) name = Some hash)
      (expected_files (cp_manifest c))"
    and "complete_capture (sv_now sv) i (app_tenants a (t_store t)) = (True, db)" "capture i db = Some c'"
  shows "app_tenants (snd (respond (post_complete sv (done_with t) scope i) a)) (t_store t) = db"
proof -
  have "run.wp (post_complete sv (done_with t) scope i) (\<lambda>_ b. app_tenants b (t_store t) = db) a"
    using assms by (simp add: post_complete_def find_capture_def key_can_access_def capture_status_def run.wp_simps Let_def)
  then show ?thesis by (auto simp: run.wp_def respond_def split: prod.splits sum.splits)
qed

section \<open>Witness\<close>

definition capture_env :: env where
  "capture_env = sample_env\<lparr>sv_lib := Buckets.sample_lib\<lparr>sha256_hex := \<lambda>s. replicate 63 (CHR ''0'') @ (if s = ''pixels'' then ''a'' else ''b'')\<rparr>\<rparr>"

definition capture_tenant :: Tenant where
  "capture_tenant = \<lparr>t_org_id = 1, t_store = ''new'', t_blob_scope = blob_scope 1\<rparr>"

definition capture_id :: string where "capture_id = ''cap_0123456789abcdef''"

definition capture_manifest :: json where
  "capture_manifest = JObj [(''fileSha256'', JObj [(''screen.png'', JStr (sha256_hex (sv_lib capture_env) ''pixels''))]),
     (''id'', JStr capture_id), (''immutableOriginal'', JBool True)]"

definition capture_requests :: "(env \<times> capture_call) list" where
  "capture_requests = map (Pair capture_env)
     [CreateCapture OPEN \<lparr>rc_id = capture_id, rc_manifest = capture_manifest, rc_app_id = None\<rparr>,
      ApproveCapture (review_token capture_env) \<lparr>ra_app_id = ''app'', ra_title = ''Crash'', ra_description = [],
        ra_severity = ''high'', ra_visibility = ''project''\<rparr>,
      PutFile OPEN capture_id ''screen.png'' (Some (sha256_hex (sv_lib capture_env) ''pixels'')) None [Some ''pix'', Some ''els''],
      PutFile OPEN capture_id ''manifest.json'' (Some (sha256_hex (sv_lib capture_env) ''m'')) None [Some ''m'']]"

definition upload_file :: "string \<Rightarrow> nat \<Rightarrow> string \<Rightarrow> capture_file_row" where
  "upload_file name n sha = \<lparr>cf_capture_id = capture_id, cf_filename = name, cf_storage_key = storage_key capture_id name, cf_bytes = int n,
     cf_sha256 = sha, cf_content_type = ''application/octet-stream'', cf_uploaded = True\<rparr>"

definition upload_capture :: capture_row where
  "upload_capture = \<lparr>cp_id = capture_id, cp_review_token_hash = token_hash capture_env (review_token capture_env), cp_created_by = None,
     cp_app_id = Some ''app'', cp_status = ''uploading'', cp_title = Some ''Crash'', cp_description = Some [], cp_severity = ''high'',
     cp_visibility = ''project'', cp_platform = ''unknown'', cp_target = ''unknown'', cp_source_created_at = ''unknown'',
     cp_manifest = capture_manifest, cp_expires_at = 1800000001, cp_created_at = 1\<rparr>"

definition uploaded_data :: tenant_data where
  "uploaded_data = sample_tenant\<lparr>td_captures := [upload_capture],
     td_capture_files := [upload_file ''screen.png'' 6 (sha256_hex (sv_lib capture_env) ''pixels''),
       upload_file ''manifest.json'' 1 (sha256_hex (sv_lib capture_env) ''m'')]\<rparr>"

lemma capture_uploads: "app_tenants (serve_captures capture_tenant capture_requests sample_app) ''new'' = uploaded_data"
  by code_simp

definition capture_run :: "(env \<times> capture_call) list" where
  "capture_run = capture_requests @ [(capture_env, CompleteCapture OPEN capture_id)]"

lemma capture_completes:
  "app_tenants (serve_captures capture_tenant capture_run sample_app) ''new''
   = uploaded_data\<lparr>td_captures := [upload_capture\<lparr>cp_status := ''complete'', cp_expires_at := 1\<rparr>]\<rparr>" (is "_ = ?done")
proof -
  let ?a = "serve_captures capture_tenant capture_requests sample_app"
  have "capture capture_id uploaded_data = Some upload_capture"
    "map_of (map (\<lambda>f. (cf_filename f, cf_sha256 f)) (capture_files capture_id uploaded_data)) ''manifest.json'' \<noteq> None"
    "list_all (\<lambda>(name, hash). map_of (map (\<lambda>f. (cf_filename f, cf_sha256 f)) (capture_files capture_id uploaded_data)) name = Some hash)
      (expected_files (cp_manifest upload_capture))"
    "complete_capture (sv_now capture_env) capture_id uploaded_data = (True, ?done)"
    "capture capture_id ?done = Some (upload_capture\<lparr>cp_status := ''complete'', cp_expires_at := 1\<rparr>)" by code_simp+
  moreover have "app_tenants ?a (t_store capture_tenant) = uploaded_data" using capture_uploads by (simp add: capture_tenant_def)
  ultimately have "app_tenants (snd (respond (post_complete capture_env (done_with capture_tenant) OPEN capture_id) ?a)) (t_store capture_tenant) = ?done"
    by (intro complete_succeeds) (simp_all add: capture_env_def sample_env_def OPEN_def)
  then show ?thesis by (simp add: capture_run_def serve_captures_def capture_tenant_def)
qed

theorem complete_captures_stored_witness:
  "\<exists>bytes. blob_get True [] (blob_scope 1) (storage_key capture_id ''screen.png'')
      (app_files (serve_captures capture_tenant capture_run sample_app)) = Some bytes
    \<and> sha256_hex (sv_lib capture_env) bytes = sha256_hex (sv_lib capture_env) ''pixels''"
proof -
  let ?c = "upload_capture\<lparr>cp_status := ''complete'', cp_expires_at := 1\<rparr>"
  have all: "list_all (\<lambda>(sv, c). sv_blob_root sv = [] \<and> sha256_hex (sv_lib sv) = sha256_hex (sv_lib capture_env)) capture_run"
    by (simp add: capture_run_def capture_requests_def capture_env_def sample_env_def)
  have "(''screen.png'', sha256_hex (sv_lib capture_env) ''pixels'') \<in> set (expected_files (cp_manifest ?c))" by code_simp
  then show ?thesis
    using complete_captures_stored [OF all, of capture_tenant 1 sample_app "serve_captures capture_tenant capture_run sample_app" ?c
      "''screen.png''"] capture_completes
    by (simp add: capture_tenant_def sample_app_def app_with_def sample_tenant_def uploaded_data_def upload_capture_def)
qed

end
