(* ===== verification/Float64.thy ===== *)
theory Float64
  imports Prelude Complex_Main "HOL-Library.Log_Nat"
begin

text \<open>
  The \<open>f64\<close> arithmetic of the rankings. The values that occur are finite, not negative, and far from the
  limits of the exponent, so a value is the rational number it stands for; every operation rounds its
  exact result to 53 significant bits, ties to even. Proved: rounding keeps numbers of 53 bits and the
  order, and its error is at most one part in \<open>2 ^ 53\<close>.
\<close>

section \<open>Rounding\<close>

definition pow2 :: "int \<Rightarrow> rat" where
  "pow2 k = (if 0 \<le> k then 2 ^ nat k else 1 / 2 ^ nat (- k))"

text \<open>To the nearest integer, ties to even, and \<open>f64::round\<close>, ties away from zero.\<close>

definition round_even :: "rat \<Rightarrow> int" where
  "round_even x = (let f = \<lfloor>x\<rfloor>; d = x - of_int f in if d < 1 / 2 \<or> (d = 1 / 2 \<and> even f) then f else f + 1)"

definition round_away :: "rat \<Rightarrow> int" where
  "round_away x = (if 0 \<le> x then \<lfloor>x + 1 / 2\<rfloor> else - \<lfloor>1 / 2 - x\<rfloor>)"

text \<open>The exponent of the last bit: \<open>2 ^ 52 \<le> x / 2 ^ e < 2 ^ 53\<close>.\<close>

definition last_bit :: "rat \<Rightarrow> int" where
  "last_bit x =
     (case quotient_of x of (n, d) \<Rightarrow>
        let e = bitlen n - bitlen d - 53 in if 2 ^ 53 \<le> x / pow2 e then e + 1 else e)"

definition fl :: "rat \<Rightarrow> rat" where
  "fl x =
     (if x = 0 then 0
      else let y = \<bar>x\<bar>; e = last_bit y; r = of_int (round_even (y / pow2 e)) * pow2 e in if x < 0 then - r else r)"

section \<open>Powers of two\<close>

lemma pow2_pos [simp]: "0 < pow2 k"
  by (simp add: pow2_def)

lemma pow2_powi: "pow2 k = 2 powi k"
  by (simp add: pow2_def power_int_def field_simps)

lemma pow2_add: "pow2 (a + b) = pow2 a * pow2 b"
  by (simp add: pow2_powi power_int_add)

lemma pow2_nat [simp]: "pow2 (int n) = 2 ^ n"
  by (simp add: pow2_def)

lemma pow2_mono: "a \<le> b \<Longrightarrow> pow2 a \<le> pow2 b"
  by (simp add: pow2_powi power_int_increasing)

lemma pow2_strict: "a < b \<Longrightarrow> pow2 a < pow2 b"
  by (simp add: pow2_powi power_int_strict_increasing)

lemma pow2_less: "pow2 a < pow2 b \<longleftrightarrow> a < b"
  using pow2_mono pow2_strict by (meson leD leI)

lemma pow2_of_int: "0 \<le> k \<Longrightarrow> pow2 k = of_int (2 ^ nat k)"
  by (simp add: pow2_def)

lemma pow2_plus53: "pow2 (e + 53) = pow2 e * 2 ^ 53"
  using pow2_nat [of 53] by (simp add: pow2_add)

section \<open>The exponent\<close>

lemma last_bit_bounds:
  assumes "0 < x"
  shows "pow2 (last_bit x + 52) \<le> x" "x < pow2 (last_bit x + 53)"
proof -
  obtain n d where q: "quotient_of x = (n, d)" by fastforce
  have x: "x = of_int n / of_int d" and d: "0 < d"
    using quotient_of_div [OF q] quotient_of_denom_pos [OF q] by auto
  have n: "0 < n" using assms d by (simp add: x zero_less_divide_iff)
  define a b where "a = bitlen n" and "b = bitlen d"
  have a: "2 ^ nat (a - 1) \<le> n" "n < 2 ^ nat a" and b: "2 ^ nat (b - 1) \<le> d" "d < 2 ^ nat b"
    using bitlen_bounds [OF n] bitlen_bounds [OF d] by (simp_all add: a_def b_def)
  have ab: "1 \<le> a" "1 \<le> b" using n d by (simp_all add: a_def b_def bitlen_def floorlog_def)
  have R: "pow2 (a - 1) \<le> of_int n" "of_int n < pow2 a" "pow2 (b - 1) \<le> of_int d" "of_int d < pow2 b"
    using a b ab by (simp_all only: pow2_of_int of_int_le_iff of_int_less_iff)
  let ?e = "a - b - 53"
  have "pow2 (a - 1) < x * pow2 b"
  proof -
    have "x * of_int d = of_int n" using d by (simp add: x)
    moreover have "x * of_int d < x * pow2 b" using R(4) assms by simp
    ultimately show ?thesis using R(1) by simp
  qed
  moreover have "x * pow2 (b - 1) < pow2 a"
  proof -
    have "x * of_int d = of_int n" using d by (simp add: x)
    moreover have "x * pow2 (b - 1) \<le> x * of_int d" using R(3) assms by simp
    ultimately show ?thesis using R(2) by simp
  qed
  moreover have "pow2 (a - 1) = pow2 (?e + 52) * pow2 b" "pow2 a = pow2 (?e + 54) * pow2 (b - 1)"
    by (simp_all flip: pow2_add)
  ultimately have w: "pow2 (?e + 52) < x" "x < pow2 (?e + 54)" by simp_all
  have lb: "last_bit x = (if 2 ^ 53 \<le> x / pow2 ?e then ?e + 1 else ?e)"
    by (simp add: last_bit_def q a_def b_def Let_def)
  have t: "2 ^ 53 \<le> x / pow2 ?e \<longleftrightarrow> pow2 (?e + 53) \<le> x"
    by (simp only: pow2_plus53 pos_le_divide_eq [OF pow2_pos] mult.commute)
  show "pow2 (last_bit x + 52) \<le> x" "x < pow2 (last_bit x + 53)"
    using w t unfolding lb by (auto simp: algebra_simps)
qed

lemma last_bit_unique:
  assumes "0 < x" "pow2 (e + 52) \<le> x" "x < pow2 (e + 53)"
  shows "last_bit x = e"
proof -
  have "pow2 (e + 52) < pow2 (last_bit x + 53)" "pow2 (last_bit x + 52) < pow2 (e + 53)"
    using assms last_bit_bounds [OF assms(1)] by linarith+
  then show ?thesis by (simp add: pow2_less)
qed

lemma last_bit_mono: "0 < x \<Longrightarrow> x \<le> y \<Longrightarrow> last_bit x \<le> last_bit y"
  using last_bit_bounds [of x] last_bit_bounds [of y] pow2_less [of "last_bit x + 52" "last_bit y + 53"] by simp

section \<open>Rounding to an integer\<close>

lemma round_even_int [simp]: "round_even (of_int k) = k"
  by (simp add: round_even_def)

lemma round_even_error: "\<bar>of_int (round_even x) - x\<bar> \<le> 1 / 2"
proof -
  have "of_int \<lfloor>x\<rfloor> \<le> x" "x < of_int \<lfloor>x\<rfloor> + 1" by linarith+
  then show ?thesis by (auto simp: round_even_def Let_def)
qed

lemma round_even_mono: "x \<le> y \<Longrightarrow> round_even x \<le> round_even y"
proof -
  assume xy: "x \<le> y"
  have f: "\<lfloor>x\<rfloor> \<le> \<lfloor>y\<rfloor>" using xy by (rule floor_mono)
  show ?thesis
  proof (cases "\<lfloor>x\<rfloor> = \<lfloor>y\<rfloor>")
    case True
    then show ?thesis using xy by (auto simp: round_even_def Let_def)
  next
    case False
    then have "round_even x \<le> \<lfloor>y\<rfloor>" using f by (auto simp: round_even_def Let_def)
    moreover have "\<lfloor>y\<rfloor> \<le> round_even y" by (simp add: round_even_def Let_def)
    ultimately show ?thesis by simp
  qed
qed

lemma round_away_mono: "0 \<le> x \<Longrightarrow> x \<le> y \<Longrightarrow> round_away x \<le> round_away y"
  by (simp add: round_away_def floor_mono)

lemma round_away_int [simp]: "round_away (of_int k) = k"
  by (simp add: round_away_def floor_eq_iff minus_equation_iff)

section \<open>Rounding to 53 bits\<close>

lemma fl_0 [simp]: "fl 0 = 0"
  by (simp add: fl_def)

lemma fl_pos_eq: "0 < x \<Longrightarrow> fl x = of_int (round_even (x / pow2 (last_bit x))) * pow2 (last_bit x)"
  by (simp add: fl_def Let_def)

lemma scaled_bounds:
  assumes "0 < x"
  shows "2 ^ 52 \<le> x / pow2 (last_bit x)" "x / pow2 (last_bit x) < 2 ^ 53"
  using last_bit_bounds [OF assms] pow2_nat [of 52] pow2_nat [of 53]
  by (simp_all add: pow2_add pos_le_divide_eq pos_divide_less_eq mult.commute)

lemma fl_bounds:
  assumes "0 < x"
  shows "pow2 (last_bit x + 52) \<le> fl x" "fl x \<le> pow2 (last_bit x + 53)"
proof -
  have "round_even (of_int (2 ^ 52)) \<le> round_even (x / pow2 (last_bit x))"
    "round_even (x / pow2 (last_bit x)) \<le> round_even (of_int (2 ^ 53))"
    using scaled_bounds [OF assms] by (intro round_even_mono; simp)+
  then have "2 ^ 52 \<le> round_even (x / pow2 (last_bit x))" "round_even (x / pow2 (last_bit x)) \<le> 2 ^ 53"
    by (simp_all only: round_even_int)
  then have "(2 ^ 52 :: rat) \<le> of_int (round_even (x / pow2 (last_bit x)))"
    "of_int (round_even (x / pow2 (last_bit x))) \<le> (2 ^ 53 :: rat)"
    by (metis of_int_le_iff of_int_numeral of_int_power)+
  then show "pow2 (last_bit x + 52) \<le> fl x" "fl x \<le> pow2 (last_bit x + 53)"
    using pow2_nat [of 52] pow2_nat [of 53] by (simp_all add: fl_pos_eq assms pow2_add)
qed

lemma fl_nonneg: "0 \<le> x \<Longrightarrow> 0 \<le> fl x"
  using fl_bounds(1) [of x] pow2_pos [of "last_bit x + 52"] by (cases "x = 0") (auto simp: less_le)

lemma fl_pos: "0 < x \<Longrightarrow> 0 < fl x"
  using fl_bounds(1) [of x] pow2_pos [of "last_bit x + 52"] by linarith

lemma fl_mono:
  assumes "0 \<le> x" "x \<le> y"
  shows "fl x \<le> fl y"
proof (cases "x = 0")
  case True
  then show ?thesis using fl_nonneg assms by simp
next
  case False
  with assms have pos: "0 < x" "0 < y" by simp_all
  show ?thesis
  proof (cases "last_bit x = last_bit y")
    case True
    have "round_even (x / pow2 (last_bit y)) \<le> round_even (y / pow2 (last_bit y))"
      using assms(2) by (intro round_even_mono) (simp add: divide_right_mono less_imp_le)
    then show ?thesis by (simp add: fl_pos_eq pos True)
  next
    case False
    with last_bit_mono [OF pos(1) assms(2)] have "last_bit x + 53 \<le> last_bit y + 52" by simp
    then have "pow2 (last_bit x + 53) \<le> pow2 (last_bit y + 52)" by (rule pow2_mono)
    with fl_bounds(2) [OF pos(1)] fl_bounds(1) [OF pos(2)] show ?thesis by linarith
  qed
qed

text \<open>Numbers of at most 53 bits are kept.\<close>

lemma fl_exact:
  assumes "0 < m" "m < 2 ^ 53"
  shows "fl (of_int m * pow2 k) = of_int m * pow2 k"
proof -
  let ?x = "of_int m * pow2 k :: rat"
  have pos: "0 < ?x" using assms by simp
  have "(of_int m :: rat) < 2 ^ 53" using assms(2) by (metis of_int_less_iff of_int_numeral of_int_power)
  then have "?x < pow2 (k + 53)" using pow2_nat [of 53] by (simp add: pow2_add mult.commute)
  with last_bit_bounds(1) [OF pos] have "pow2 (last_bit ?x + 52) < pow2 (k + 53)" by linarith
  then have le: "last_bit ?x \<le> k" by (simp add: pow2_less)
  define L where "L = last_bit ?x"
  define n where "n = nat (k - L)"
  have k: "pow2 k = pow2 L * 2 ^ n"
    using pow2_add [of L "k - L"] pow2_nat [of n] le by (simp add: L_def n_def)
  have "?x / pow2 L = of_int (m * 2 ^ n)"
    using pow2_pos [of L] by (simp add: k nonzero_divide_eq_eq less_imp_neq [symmetric])
  then have "round_even (?x / pow2 L) = m * 2 ^ n" by (simp only: round_even_int)
  then have "fl ?x = of_int (m * 2 ^ n) * pow2 L" using pos by (simp add: fl_pos_eq L_def)
  then show ?thesis by (simp add: k)
qed

lemma fl_int: "0 \<le> m \<Longrightarrow> m < 2 ^ 53 \<Longrightarrow> fl (of_int m) = of_int m"
  using fl_exact [of m 0] pow2_nat [of 0] by (cases "m = 0") auto

lemma fl_nat: "n < 2 ^ 53 \<Longrightarrow> fl (of_nat n) = of_nat n"
  using fl_int [of "int n"] by (simp only: of_int_of_nat_eq) simp

lemma fl_numeral [simp]: "(numeral n :: int) < 2 ^ 53 \<Longrightarrow> fl (numeral n) = numeral n"
  using fl_int [of "numeral n"] by simp

lemma fl_1 [simp]: "fl 1 = 1"
  using fl_int [of 1] by simp

lemma fl_half [simp]: "fl (1 / 2) = 1 / 2"
  using fl_exact [of 1 "-1"] by (simp add: pow2_def)

lemma fl_le: "0 \<le> x \<Longrightarrow> x \<le> y \<Longrightarrow> fl y = y \<Longrightarrow> fl x \<le> y"
  using fl_mono [of x y] by simp

lemma fl_ge: "0 \<le> y \<Longrightarrow> y \<le> x \<Longrightarrow> fl y = y \<Longrightarrow> y \<le> fl x"
  using fl_mono [of y x] by simp

lemma fl_error:
  assumes "0 \<le> x"
  shows "\<bar>fl x - x\<bar> \<le> x / 2 ^ 53"
proof (cases "x = 0")
  case False
  with assms have pos: "0 < x" by simp
  let ?p = "pow2 (last_bit x)"
  have "fl x - x = (of_int (round_even (x / ?p)) - x / ?p) * ?p"
    by (simp add: fl_pos_eq pos left_diff_distrib) (metis less_irrefl pow2_pos)
  then have "\<bar>fl x - x\<bar> = \<bar>of_int (round_even (x / ?p)) - x / ?p\<bar> * ?p"
    using pow2_pos [of "last_bit x"] by (simp only: abs_mult abs_of_pos)
  also have "\<dots> \<le> 1 / 2 * ?p" by (intro mult_right_mono round_even_error) (simp add: less_imp_le)
  also have "\<dots> \<le> x / 2 ^ 53" using last_bit_bounds(1) [OF pos] pow2_nat [of 52] by (simp add: pow2_add)
  finally show ?thesis .
qed simp

lemma fl_idem:
  assumes "0 \<le> x"
  shows "fl (fl x) = fl x"
proof (cases "x = 0")
  case False
  with assms have pos: "0 < x" by simp
  let ?r = "round_even (x / pow2 (last_bit x))"
  have r: "fl x = of_int ?r * pow2 (last_bit x)" by (simp add: fl_pos_eq pos)
  have "(of_int ?r :: rat) \<le> of_int (2 ^ 53)"
    using fl_bounds(2) [OF pos] by (simp add: r pow2_plus53 mult.commute [of "pow2 _"])
  then have le: "?r \<le> 2 ^ 53" by (simp only: of_int_le_iff)
  have "0 < (of_int ?r :: rat)" using fl_pos [OF pos] pow2_pos [of "last_bit x"] by (simp only: r zero_less_mult_pos2)
  then have "0 < ?r" by simp
  show ?thesis
  proof (cases "?r = 2 ^ 53")
    case True
    then have "fl x = of_int 1 * pow2 (last_bit x + 53)" by (simp add: r pow2_plus53)
    then show ?thesis using fl_exact [of 1] by (metis one_less_numeral_iff one_less_power semiring_norm(76) zero_less_numeral zero_less_one)
  next
    case False
    then show ?thesis using fl_exact [of ?r] le \<open>0 < ?r\<close> unfolding r by simp
  qed
qed simp

end
