(* ===== verification/Cohorts.thy ===== *)
theory Cohorts
  imports Float64 Telemetry Json_Access
begin

text \<open>
  Cohort analysis (\<open>src/ingest/cohorts.rs\<close>): the dimensions over-represented in a bucket, the histogram
  cards of the dashboard, and the fixture specification of a property-matched replay. \<open>jt\<close> prints a JSON
  value, \<open>ft\<close> a float. A lift of \<open>None\<close> is infinite.
  Proved: a dimension that is reported is shared by at least \<open>K_ANON\<close> members of the cohort and by half of
  it; a dimension that the baseline never has is reported as soon as it is; the rollup path of the
  telemetry store and the row path give the same answer.
\<close>

section \<open>Counting\<close>

type_synonym context_map = "(string \<times> json) list"
type_synonym ValueCounts = "(string \<times> nat) list"
type_synonym ContextCounts = "(string \<times> ValueCounts) list"

definition K_ANON :: nat where "K_ANON = 5"

definition count_values :: "string list \<Rightarrow> ValueCounts" where
  "count_values vs = foldl (\<lambda>counts s. bt_add s 1 counts) [] vs"

definition value_text :: "(json \<Rightarrow> string) \<Rightarrow> json \<Rightarrow> string" where
  "value_text jt v = (case v of JStr s \<Rightarrow> s | other \<Rightarrow> jt other)"

definition value_counts :: "(json \<Rightarrow> string) \<Rightarrow> context_map list \<Rightarrow> string \<Rightarrow> ValueCounts" where
  "value_counts jt rows key = count_values (map (value_text jt) (List.map_filter (\<lambda>r. map_of r key) rows))"

definition display_counts :: "context_map list \<Rightarrow> string \<Rightarrow> ValueCounts" where
  "display_counts rows key =
     count_values (List.map_filter (\<lambda>r. Option.bind (map_of r key) (cohort_value key)) rows)"

definition count_of :: "ValueCounts \<Rightarrow> string \<Rightarrow> nat" where
  "count_of counts v = (case map_of counts v of Some n \<Rightarrow> n | None \<Rightarrow> 0)"

section \<open>Shares and lifts\<close>

definition share :: "nat \<Rightarrow> nat \<Rightarrow> rat" where
  "share n total_n = fl (fl (of_nat n) / fl (of_nat total_n))"

definition lift_of :: "rat \<Rightarrow> rat \<Rightarrow> rat option" where
  "lift_of cohort_share baseline_share =
     (if 0 < baseline_share then Some (fl (cohort_share / baseline_share)) else None)"

definition enriched :: "rat option \<Rightarrow> bool" where
  "enriched lift = (case lift of None \<Rightarrow> True | Some l \<Rightarrow> 3 / 2 \<le> l)"

definition round2 :: "rat \<Rightarrow> rat" where
  "round2 x = fl (of_int (round_away (fl (x * 100))) / 100)"

definition shares_json :: "(rat \<Rightarrow> string) \<Rightarrow> rat \<Rightarrow> rat \<Rightarrow> rat option \<Rightarrow> (string \<times> json) list" where
  "shares_json ft cohort_share baseline_share lift =
     [(''baselineShare'', JNum (Float (ft (round2 baseline_share)))), (''cohortShare'', JNum (Float (ft (round2 cohort_share)))),
      (''lift'', case lift of None \<Rightarrow> JStr ''inf'' | Some l \<Rightarrow> JNum (Float (ft (round2 l))))]"

section \<open>Discriminators\<close>

text \<open>A dimension with its share and lift.\<close>

record finding =
  fd_key :: string
  fd_value :: string
  fd_share :: rat
  fd_base :: rat
  fd_lift :: "rat option"

definition finding_json :: "(rat \<Rightarrow> string) \<Rightarrow> finding \<Rightarrow> json" where
  "finding_json ft f =
     (case shares_json ft (fd_share f) (fd_base f) (fd_lift f) of
        [b, c, l] \<Rightarrow> JObj [b, c, (''key'', JStr (fd_key f)), l, (''value'', JStr (fd_value f))]
      | _ \<Rightarrow> JNull)"

definition judge :: "nat \<Rightarrow> nat \<Rightarrow> string \<Rightarrow> ValueCounts \<Rightarrow> string \<times> nat \<Rightarrow> finding option" where
  "judge cohort_n baseline_n key base_counts vc =
     (case vc of (v, n) \<Rightarrow>
        let cohort_share = share n cohort_n; baseline_share = share (count_of base_counts v) baseline_n;
            lift = lift_of cohort_share baseline_share
        in if 1 / 2 \<le> cohort_share \<and> enriched lift \<and> K_ANON \<le> n
           then Some \<lparr>fd_key = key, fd_value = v, fd_share = cohort_share, fd_base = baseline_share, fd_lift = lift\<rparr>
           else None)"

text \<open>Descending by share, then by lift; infinite is the greatest lift. The sort is stable.\<close>

definition finding_rank :: "finding \<Rightarrow> rat \<times> nat \<times> rat" where
  "finding_rank f = (- fd_share f, case fd_lift f of None \<Rightarrow> (0, 0) | Some l \<Rightarrow> (1, - l))"

definition findings_from_counts :: "nat \<Rightarrow> ContextCounts \<Rightarrow> nat \<Rightarrow> ContextCounts \<Rightarrow> finding list" where
  "findings_from_counts cohort_n cohort baseline_n baseline =
     (if cohort_n < K_ANON then []
      else sort_key finding_rank (concat (map (\<lambda>(key, values).
        List.map_filter (judge cohort_n (max baseline_n 1) key
          (case map_of baseline key of Some c \<Rightarrow> c | None \<Rightarrow> [])) values) cohort)))"

definition discriminators_from_counts :: "(rat \<Rightarrow> string) \<Rightarrow> nat \<Rightarrow> ContextCounts \<Rightarrow> nat \<Rightarrow> ContextCounts \<Rightarrow> json list" where
  "discriminators_from_counts ft cohort_n cohort baseline_n baseline =
     map (finding_json ft) (findings_from_counts cohort_n cohort baseline_n baseline)"

definition findings :: "(json \<Rightarrow> string) \<Rightarrow> context_map list \<Rightarrow> context_map list \<Rightarrow> finding list" where
  "findings jt cohort baseline =
     (if length cohort < K_ANON then []
      else sort_key finding_rank (concat (map (\<lambda>key.
        List.map_filter (judge (length cohort) (max (length baseline) 1) key (value_counts jt baseline key))
          (value_counts jt cohort key)) (sort_dedup (concat (map (map fst) cohort))))))"

definition discriminators :: "(json \<Rightarrow> string) \<Rightarrow> (rat \<Rightarrow> string) \<Rightarrow> context_map list \<Rightarrow> context_map list \<Rightarrow> json list" where
  "discriminators jt ft cohort baseline = map (finding_json ft) (findings jt cohort baseline)"

text \<open>The rollup tables the counts come from (\<open>bucket_context_counts\<close> and \<open>app_context_counts\<close>).\<close>

definition context_counts :: "context_map list \<Rightarrow> ContextCounts" where
  "context_counts rows =
     map (\<lambda>key. (key, count_values (List.map_filter (\<lambda>r. map_of (dimension_values r) key) rows)))
       (sort_dedup (concat (map (\<lambda>r. map fst (dimension_values r)) rows)))"

section \<open>Histogram cards\<close>

definition display_key_rank :: "string \<Rightarrow> nat" where
  "display_key_rank key =
     (let ranked = [''browser'', ''locale'', ''plan'', ''build'', ''os'', ''device'', ''platform'', ''role'', ''route'']
      in if key \<in> set ranked then length (takeWhile (\<lambda>k. k \<noteq> key) ranked) else 2 ^ 64 - 1)"

definition card_values :: "ValueCounts \<Rightarrow> ValueCounts \<Rightarrow> string list" where
  "card_values cohort_counts base_counts =
     take 4 (sort_key (\<lambda>v. (- int (count_of cohort_counts v), - int (count_of base_counts v), v))
       (sort_dedup (map fst cohort_counts @ map fst base_counts)))"

definition card_value :: "(rat \<Rightarrow> string) \<Rightarrow> nat \<Rightarrow> nat \<Rightarrow> ValueCounts \<Rightarrow> ValueCounts \<Rightarrow> string \<Rightarrow> json" where
  "card_value ft cohort_n base_n cohort_counts base_counts v =
     (let cohort_share = share (count_of cohort_counts v) cohort_n; baseline_share = share (count_of base_counts v) base_n
      in case shares_json ft cohort_share baseline_share (lift_of cohort_share baseline_share) of
           [b, c, l] \<Rightarrow> JObj [b, c, (''count'', JNum (PosInt (count_of cohort_counts v))), l, (''value'', JStr v)]
         | _ \<Rightarrow> JNull)"

definition card_keys :: "context_map list \<Rightarrow> string list" where
  "card_keys rows =
     sort_dedup (concat (map (\<lambda>r. filter (\<lambda>k. safe_cohort_key k \<and> Option.bind (map_of r k) (cohort_value k) \<noteq> None) (map fst r)) rows))"

definition cohort_breakdowns :: "(rat \<Rightarrow> string) \<Rightarrow> context_map list \<Rightarrow> context_map list \<Rightarrow> json list" where
  "cohort_breakdowns ft cohort baseline =
     (if cohort = [] then []
      else map snd (sort_key (\<lambda>(key, _). (display_key_rank key, key)) (List.map_filter (\<lambda>key.
        let cohort_counts = display_counts cohort key; base_counts = display_counts baseline key
        in if cohort_counts = [] then None
           else Some (key, JObj [(''key'', JStr key), (''total'', JNum (PosInt (length cohort))),
             (''values'', JArr (map (card_value ft (length cohort) (max (length baseline) 1) cohort_counts base_counts)
               (card_values cohort_counts base_counts)))])) (card_keys (cohort @ baseline)))))"

section \<open>Fixture specifications\<close>

definition flag :: "json \<Rightarrow> string \<Rightarrow> bool" where
  "flag fp key \<longleftrightarrow> Option.bind (jfield fp key) as_bool = Some True"

text \<open>\<open>directive k o\<close> inserts \<open>k\<close> when the value is there.\<close>

definition directive :: "string \<Rightarrow> json option \<Rightarrow> (string \<times> json) list \<Rightarrow> (string \<times> json) list" where
  "directive k o' m = (case o' of None \<Rightarrow> m | Some v \<Rightarrow> bt_insert k v m)"

definition on :: "bool \<Rightarrow> json option" where "on b = (if b then Some (JBool True) else None)"

definition field_to_input :: "json \<Rightarrow> json option" where
  "field_to_input fp =
     map_option (\<lambda>field.
       let num = (\<lambda>key. map_option (\<lambda>n. JNum (PosInt n)) (Option.bind (jfield fp key) as_u64));
           scripts = (case Option.bind (jfield fp ''scripts'') as_array of
             Some (x # xs) \<Rightarrow> Some (JArr (x # xs)) | _ \<Rightarrow> None)
       in JObj [(''field'', JStr field), (''generate'', JObj (fold (\<lambda>(k, v). directive k v)
            [(''minLen'', num ''len''), (''charset'', map_option JStr (str_field fp ''charset'')),
             (''emoji'', on (flag fp ''hasEmoji'')), (''rtl'', on (flag fp ''isRtl'')), (''empty'', on (flag fp ''isEmpty'')),
             (''minBytes'', num ''bytes''), (''minGraphemes'', num ''graphemes''), (''scripts'', scripts),
             (''combining'', on (flag fp ''hasCombiningMarks'')), (''zeroWidth'', on (flag fp ''hasZeroWidth'')),
             (''newline'', on (flag fp ''hasNewline'')), (''edgeWhitespace'', on (flag fp ''leadingTrailingWhitespace''))] []))])
       (str_field fp ''field'')"

definition pin :: "json \<Rightarrow> (string \<times> json) list \<Rightarrow> (string \<times> json) list" where
  "pin d spec =
     (case (str_field d ''key'', str_field d ''value'') of
        (Some key, Some val) \<Rightarrow>
          if key = ''fingerprint'' \<or> map_of spec key \<noteq> None then spec else bt_insert key (JStr val) spec
      | _ \<Rightarrow> spec)"

definition fixture_spec :: "context_map \<Rightarrow> json list \<Rightarrow> json" where
  "fixture_spec context discs =
     JObj (bt_insert ''inputs''
       (JArr (case Option.bind (map_of context ''fingerprint'') as_array of
          Some fs \<Rightarrow> List.map_filter field_to_input fs | None \<Rightarrow> [])) (fold pin discs []))"

section \<open>Counts\<close>

lemma count_values_spec:
  "bt_ok (count_values vs)" "map_of (count_values vs) v = (if v \<in> set vs then Some (count_list vs v) else None)"
proof -
  have "bt_ok (count_values vs) \<and> (\<forall>v. map_of (count_values vs) v = (if v \<in> set vs then Some (count_list vs v) else None))"
    by (induction vs rule: rev_induct) (auto simp: count_values_def map_of_bt_add count_list_append)
  then show "bt_ok (count_values vs)" "map_of (count_values vs) v = (if v \<in> set vs then Some (count_list vs v) else None)"
    by auto
qed

lemma set_count_values: "(v, n) \<in> set (count_values vs) \<longleftrightarrow> v \<in> set vs \<and> n = count_list vs v"
proof -
  have "distinct (map fst (count_values vs))" using count_values_spec(1) by (simp add: bt_ok_def)
  then have "(v, n) \<in> set (count_values vs) \<longleftrightarrow> map_of (count_values vs) v = Some n" by simp
  then show ?thesis by (auto simp: count_values_spec(2))
qed

lemma count_of_count_values: "count_of (count_values vs) v = count_list vs v"
  by (simp add: count_of_def count_values_spec(2))

text \<open>The members of a set of rows that have a value.\<close>

definition holders :: "(json \<Rightarrow> string) \<Rightarrow> string \<Rightarrow> string \<Rightarrow> context_map list \<Rightarrow> nat" where
  "holders jt key v rows = length (filter (\<lambda>r. map_option (value_text jt) (map_of r key) = Some v) rows)"

lemma holders_count: "count_list (map (value_text jt) (List.map_filter (\<lambda>r. map_of r key) rows)) v = holders jt key v rows"
  by (induction rows) (auto simp: holders_def map_filter_simps split: option.splits)

lemma holders_le: "holders jt key v rows \<le> length rows"
  by (simp add: holders_def)

lemma holders_key: "0 < holders jt key v rows \<Longrightarrow> \<exists>r \<in> set rows. key \<in> fst ` set r"
  by (force simp: holders_def filter_empty_conv dest!: map_of_SomeD)

lemma set_map_filter: "set (List.map_filter f xs) = {y. \<exists>x \<in> set xs. f x = Some y}"
  by (induction xs) (auto simp: map_filter_simps split: option.splits)

lemma set_value_counts: "(v, n) \<in> set (value_counts jt rows key) \<longleftrightarrow> 0 < n \<and> n = holders jt key v rows"
  unfolding value_counts_def set_count_values holders_count by (metis count_list_0_iff holders_count not_gr_zero)

lemma bex_value_counts:
  "(\<exists>x \<in> set (value_counts jt rows key). P x) \<longleftrightarrow> (\<exists>v. 0 < holders jt key v rows \<and> P (v, holders jt key v rows))"
  by (auto simp: Bex_def set_value_counts)

lemma count_of_value_counts: "count_of (value_counts jt rows key) v = holders jt key v rows"
  by (simp add: value_counts_def count_of_count_values holders_count)

section \<open>The thresholds\<close>

lemma share_half:
  assumes "c \<le> n" "0 < n" "n < 2 ^ 53"
  shows "1 / 2 \<le> share c n \<longleftrightarrow> n \<le> 2 * c"
proof
  have sh: "share c n = fl (of_nat c / of_nat n)" using assms by (simp add: share_def fl_nat)
  {
    assume "n \<le> 2 * c"
    then have "(of_nat n :: rat) \<le> 2 * of_nat c" by (metis of_nat_le_iff of_nat_mult of_nat_numeral)
    then have "(1 / 2 :: rat) \<le> of_nat c / of_nat n" using assms(2) by (subst pos_le_divide_eq) simp_all
    then show "1 / 2 \<le> share c n" unfolding sh by (rule fl_ge [rotated]) simp_all
  }
  {
    assume half: "1 / 2 \<le> share c n"
    show "n \<le> 2 * c"
    proof (rule ccontr)
      assume "\<not> n \<le> 2 * c"
      then have "2 * c + 1 \<le> n" by simp
      then have "(2 * of_nat c + 1 :: rat) \<le> of_nat n" using of_nat_mono [of "2 * c + 1" n, where 'a = rat] by simp
      moreover have "(of_nat n :: rat) < 2 ^ 53" using assms(3) by (metis of_nat_less_iff of_nat_numeral of_nat_power)
      ultimately have "(of_nat c :: rat) \<le> 9007199254740991 / 18014398509481984 * of_nat n" by simp
      then have "(of_nat c / of_nat n :: rat) \<le> 9007199254740991 / 18014398509481984"
        using assms(2) by (simp add: pos_divide_le_eq)
      moreover have "fl (9007199254740991 / 18014398509481984) = 9007199254740991 / 18014398509481984"
        using fl_exact [of 9007199254740991 "- 54"] by (simp add: pow2_def)
      ultimately have "share c n \<le> 9007199254740991 / 18014398509481984"
        unfolding sh by (intro fl_le) simp_all
      with half show False by simp
    qed
  }
qed

lemma share_0: "n < 2 ^ 53 \<Longrightarrow> 0 < n \<Longrightarrow> c < 2 ^ 53 \<Longrightarrow> share c n = 0 \<longleftrightarrow> c = 0"
  using fl_pos [of "of_nat c / of_nat n"] by (cases "c = 0") (auto simp: share_def fl_nat)

lemma share_nonneg: "0 \<le> share c n"
  by (simp add: share_def fl_nonneg)

lemma judge_Some:
  "judge n m key base (v, c) = Some f \<longleftrightarrow>
     1 / 2 \<le> share c n \<and> enriched (lift_of (share c n) (share (count_of base v) m)) \<and> K_ANON \<le> c
     \<and> f = \<lparr>fd_key = key, fd_value = v, fd_share = share c n, fd_base = share (count_of base v) m,
            fd_lift = lift_of (share c n) (share (count_of base v) m)\<rparr>"
  by (auto simp: judge_def Let_def)

section \<open>What is reported\<close>

lemma set_findings:
  "f \<in> set (findings jt cohort baseline) \<longleftrightarrow>
     K_ANON \<le> length cohort \<and> (\<exists>r \<in> set cohort. \<exists>key \<in> fst ` set r. \<exists>v. 0 < holders jt key v cohort
       \<and> judge (length cohort) (max (length baseline) 1) key (value_counts jt baseline key) (v, holders jt key v cohort) = Some f)"
  by (simp add: findings_def set_map_filter bex_value_counts not_less)

text \<open>A dimension is reported exactly when at least \<open>K_ANON\<close> members of the cohort share it, these are
  half of the cohort or more, and either no row of the baseline has it or its lift, computed in floating
  point, reaches 1.5. So no reported dimension singles out fewer than five occurrences, and a dimension
  that only the cohort has is never missed.\<close>
theorem discriminator_iff:
  assumes "length cohort < 2 ^ 53" "length baseline < 2 ^ 53"
  shows "(\<exists>f \<in> set (findings jt cohort baseline). fd_key f = key \<and> fd_value f = v) \<longleftrightarrow>
    K_ANON \<le> holders jt key v cohort \<and> length cohort \<le> 2 * holders jt key v cohort
    \<and> (holders jt key v baseline = 0
       \<or> 3 / 2 \<le> fl (share (holders jt key v cohort) (length cohort) / share (holders jt key v baseline) (max (length baseline) 1)))"
    (is "?L \<longleftrightarrow> ?R")
proof -
  let ?c = "holders jt key v cohort" and ?b = "holders jt key v baseline"
  let ?n = "length cohort" and ?m = "max (length baseline) 1"
  have bs: "share ?b ?m = 0 \<longleftrightarrow> ?b = 0"
    using assms(2) holders_le [of jt key v baseline] by (intro share_0) auto
  have en: "enriched (lift_of (share ?c ?n) (share ?b ?m)) \<longleftrightarrow> ?b = 0 \<or> 3 / 2 \<le> fl (share ?c ?n / share ?b ?m)"
    using bs share_nonneg [of ?b ?m] by (auto simp: enriched_def lift_of_def)
  have "?L \<longleftrightarrow> K_ANON \<le> ?n \<and> 0 < ?c \<and> 1 / 2 \<le> share ?c ?n \<and> enriched (lift_of (share ?c ?n) (share ?b ?m)) \<and> K_ANON \<le> ?c"
  proof
    assume ?L
    then show "K_ANON \<le> ?n \<and> 0 < ?c \<and> 1 / 2 \<le> share ?c ?n \<and> enriched (lift_of (share ?c ?n) (share ?b ?m)) \<and> K_ANON \<le> ?c"
      by (auto simp: set_findings judge_Some count_of_value_counts)
  next
    assume R: "K_ANON \<le> ?n \<and> 0 < ?c \<and> 1 / 2 \<le> share ?c ?n \<and> enriched (lift_of (share ?c ?n) (share ?b ?m)) \<and> K_ANON \<le> ?c"
    then obtain f where f: "judge ?n ?m key (value_counts jt baseline key) (v, ?c) = Some f"
      by (auto simp: judge_Some count_of_value_counts)
    moreover from R holders_key obtain r where "r \<in> set cohort" "key \<in> fst ` set r" by blast
    ultimately have "f \<in> set (findings jt cohort baseline)" using R unfolding set_findings by blast
    moreover from f have "fd_key f = key" "fd_value f = v" by (auto simp: judge_Some)
    ultimately show ?L by blast
  qed
  also have "\<dots> \<longleftrightarrow> ?R"
  proof (cases "?c = 0")
    case False
    then have "0 < ?n" using holders_le [of jt key v cohort] by linarith
    then have half: "1 / 2 \<le> share ?c ?n \<longleftrightarrow> ?n \<le> 2 * ?c" by (rule share_half [OF holders_le _ assms(1)])
    show ?thesis using False holders_le [of jt key v cohort] unfolding en half by (auto simp: K_ANON_def)
  qed (simp add: K_ANON_def)
  finally show ?thesis .
qed

section \<open>Rows and rollups\<close>

definition scalar :: "json \<Rightarrow> bool" where
  "scalar v \<longleftrightarrow> (case v of JStr _ \<Rightarrow> True | JNum _ \<Rightarrow> True | JBool _ \<Rightarrow> True | _ \<Rightarrow> False)"

definition plain_rows :: "context_map list \<Rightarrow> bool" where
  "plain_rows rows \<longleftrightarrow> list_all (list_all (\<lambda>(k, v). safe_cohort_key k \<and> scalar v)) rows"

lemma plain_dimension_values:
  assumes "\<And>n. jt (JNum n) = show_num n" "\<And>b. jt (JBool b) = show_bool b"
    and "list_all (\<lambda>(k, v). safe_cohort_key k \<and> scalar v) r"
  shows "dimension_values r = map (\<lambda>(k, v). (k, value_text jt v)) r"
  using assms(3)
proof (induction r)
  case (Cons e r)
  obtain k v where e: "e = (k, v)" by fastforce
  have "cohort_value k v = Some (value_text jt v)"
    using Cons.prems assms(1,2) by (cases v) (auto simp: e scalar_def cohort_value_def value_text_def)
  then show ?case using Cons by (simp add: e dimension_values_def map_filter_simps)
qed (simp add: dimension_values_def map_filter_simps)

lemma map_filter_map_option: "List.map_filter (\<lambda>x. map_option g (f x)) xs = map g (List.map_filter f xs)"
  by (induction xs) (auto simp: map_filter_simps split: option.splits)

lemma map_filter_cong: "(\<And>x. x \<in> set xs \<Longrightarrow> f x = g x) \<Longrightarrow> List.map_filter f xs = List.map_filter g xs"
  by (induction xs) (auto simp: map_filter_simps split: option.splits)

lemma plain_context_counts:
  assumes "\<And>n. jt (JNum n) = show_num n" "\<And>b. jt (JBool b) = show_bool b" "plain_rows rows"
  shows "context_counts rows = map (\<lambda>key. (key, value_counts jt rows key)) (sort_dedup (concat (map (map fst) rows)))"
proof -
  have d: "dimension_values r = map (\<lambda>(k, v). (k, value_text jt v)) r" if "r \<in> set rows" for r
    using plain_dimension_values [OF assms(1,2)] assms(3) that by (simp add: plain_rows_def list_all_iff)
  have lk: "map_of (map (\<lambda>(k, v). (k, value_text jt v)) r) key = map_option (value_text jt) (map_of r key)" for r key
    by (induction r) auto
  have "List.map_filter (\<lambda>r. map_of (dimension_values r) key) rows
      = map (value_text jt) (List.map_filter (\<lambda>r. map_of r key) rows)" for key
    by (simp only: map_filter_map_option [symmetric] lk [symmetric]) (rule map_filter_cong, simp add: d)
  moreover have "map (\<lambda>r. map fst (dimension_values r)) rows = map (map fst) rows"
    using d by (simp add: o_def case_prod_unfold)
  ultimately show ?thesis by (simp only: context_counts_def value_counts_def)
qed

lemma absent_counts: "key \<notin> set (concat (map (map fst) rows)) \<Longrightarrow> value_counts jt rows key = []"
proof -
  assume "key \<notin> set (concat (map (map fst) rows))"
  then have "map_of r key = None" if "r \<in> set rows" for r using that by (force simp: map_of_eq_None_iff)
  then have "List.map_filter (\<lambda>r. map_of r key) rows = []"
    by (induction rows) (auto simp: map_filter_simps)
  then show ?thesis by (simp add: value_counts_def count_values_def)
qed

text \<open>The telemetry store computes the discriminators from its counter tables, the other editions from
  the rows themselves: for contexts of scalar values under keys that may be shown, both give the same
  list.\<close>
theorem rollup_discriminators_agree:
  assumes "\<And>n. jt (JNum n) = show_num n" "\<And>b. jt (JBool b) = show_bool b" "plain_rows cohort" "plain_rows baseline"
  shows "discriminators_from_counts ft (length cohort) (context_counts cohort) (length baseline) (context_counts baseline)
    = discriminators jt ft cohort baseline"
proof -
  have base: "(case map_of (context_counts baseline) key of Some c \<Rightarrow> c | None \<Rightarrow> []) = value_counts jt baseline key" for key
    using absent_counts [of key baseline jt]
    by (auto simp: plain_context_counts [OF assms(1,2,4)] map_of_map_restrict restrict_map_def)
  show ?thesis
    by (simp add: discriminators_from_counts_def discriminators_def findings_from_counts_def findings_def base
        plain_context_counts [OF assms(1,2,3)] o_def del: map_concat)
qed

section \<open>The fixture of a bucket\<close>

lemma pin_ok: "bt_ok m \<Longrightarrow> bt_ok (fold pin ds m)"
  by (induction ds arbitrary: m) (auto simp: pin_def split: option.splits)

lemma finding_fields: "str_field (finding_json ft f) ''key'' = Some (fd_key f)" "str_field (finding_json ft f) ''value'' = Some (fd_value f)"
  by (simp_all add: finding_json_def shares_json_def str_field_def jfield_def)

lemma pins_first:
  assumes "k \<noteq> ''fingerprint''" "bt_ok m"
  shows "map_of (fold pin (map (finding_json ft) fs) m) k =
    (case map_of m k of Some v \<Rightarrow> Some v | None \<Rightarrow> map_option (\<lambda>f. JStr (fd_value f)) (List.find (\<lambda>f. fd_key f = k) fs))"
  using assms(2)
proof (induction fs arbitrary: m)
  case (Cons f fs)
  have "bt_ok (pin (finding_json ft f) m)" using Cons.prems by (simp add: pin_def finding_fields)
  moreover have "map_of (pin (finding_json ft f) m) k =
      (if fd_key f = k \<and> map_of m k = None then Some (JStr (fd_value f)) else map_of m k)"
    using Cons.prems assms(1) by (auto simp: pin_def finding_fields)
  ultimately show ?case using Cons.IH by (auto split: option.splits)
qed (simp split: option.splits)

text \<open>The fixture specification of a bucket pins every dimension that is reported, each to the reported
  value that ranks first, and no other; the inputs are the directives of the fingerprint.\<close>
theorem fixture_pins_discriminators:
  "jfield (fixture_spec context (discriminators jt ft cohort baseline)) k =
     (if k = ''inputs'' then Some (JArr (case Option.bind (map_of context ''fingerprint'') as_array of
          Some fs \<Rightarrow> List.map_filter field_to_input fs | None \<Rightarrow> []))
      else if k = ''fingerprint'' then None
      else map_option (\<lambda>f. JStr (fd_value f)) (List.find (\<lambda>f. fd_key f = k) (findings jt cohort baseline)))"
proof -
  have none: "map_of (fold pin ds m) ''fingerprint'' = None" if "map_of m ''fingerprint'' = None" "bt_ok m" for ds m
    using that by (induction ds arbitrary: m) (auto simp: pin_def split: option.splits)
  show ?thesis
    using pins_first [of k "[]" ft "findings jt cohort baseline"] none [of "[]"] pin_ok [of "[]"]
    by (simp add: fixture_spec_def jfield_def discriminators_def)
qed

text \<open>Without discriminators and fingerprint the specification is not the empty object.\<close>

lemma fixture_spec_empty: "fixture_spec [] [] = JObj [(''inputs'', JArr [])]"
  by (simp add: fixture_spec_def)

section \<open>Witnesses\<close>

definition sample_text :: "json \<Rightarrow> string" where
  "sample_text v = (case v of JNum n \<Rightarrow> show_num n | JBool b \<Rightarrow> show_bool b | _ \<Rightarrow> [])"

definition sample_cohort :: "context_map list" where
  "sample_cohort = replicate 5 [(''locale'', JStr ''tr'')] @ replicate 4 [(''locale'', JStr ''de'')]"

definition sample_baseline :: "context_map list" where
  "sample_baseline = replicate 3 [(''locale'', JStr ''tr'')] @ replicate 9 [(''locale'', JStr ''en'')]"

theorem discriminator_iff_witness:
  "\<exists>f \<in> set (findings sample_text sample_cohort sample_baseline). fd_key f = ''locale'' \<and> fd_value f = ''tr''"
proof -
  have "K_ANON \<le> holders sample_text ''locale'' ''tr'' sample_cohort
      \<and> length sample_cohort \<le> 2 * holders sample_text ''locale'' ''tr'' sample_cohort"
    "3 / 2 \<le> fl (share (holders sample_text ''locale'' ''tr'' sample_cohort) (length sample_cohort)
       / share (holders sample_text ''locale'' ''tr'' sample_baseline) (max (length sample_baseline) 1))"
    by code_simp+
  then show ?thesis
    using discriminator_iff [of sample_cohort sample_baseline sample_text "''locale''" "''tr''"]
    by (simp add: sample_cohort_def sample_baseline_def)
qed

theorem rollup_discriminators_agree_witness:
  "discriminators_from_counts (\<lambda>_. []) 9 (context_counts sample_cohort) 12 (context_counts sample_baseline)
   = discriminators sample_text (\<lambda>_. []) sample_cohort sample_baseline"
proof -
  have "plain_rows sample_cohort" "plain_rows sample_baseline" by code_simp+
  then show ?thesis
    using rollup_discriminators_agree [of sample_text sample_cohort sample_baseline "\<lambda>_. []"]
    by (simp add: sample_text_def sample_cohort_def sample_baseline_def)
qed

end
