(* ===== verification/Impact.thy ===== *)
theory Impact
  imports Cohorts
begin

text \<open>
  The order of the bucket list (\<open>src/ingest/impact.rs\<close>): a weighted sum of six factors in \<open>f64\<close>, each
  between 0 and 1, plus the boosts. The logarithm and the power function of the platform are the record
  \<open>libm\<close>, \<open>pe\<close> parses an RFC 3339 time to seconds, \<open>ft\<close> prints a float; \<open>oracles\<close> is the table read from
  the vendored registry.
  Proved: a regressed bucket comes before every bucket that is not, whatever their other signals; the
  score is monotone in severity and in the number of occurrences.
\<close>

section \<open>Weights\<close>

definition W_SEVERITY :: rat where "W_SEVERITY = 40"
definition W_BLAST :: rat where "W_BLAST = 25"
definition W_FREQUENCY :: rat where "W_FREQUENCY = 15"
definition W_TREND :: rat where "W_TREND = 20"
definition W_RECENCY :: rat where "W_RECENCY = 15"
definition BOOST_NEW :: rat where "BOOST_NEW = 12"
definition BOOST_REGRESSED :: rat where "BOOST_REGRESSED = 120"
definition RECENCY_HALF_LIFE_SECS :: rat where "RECENCY_HALF_LIFE_SECS = 24 * 3600"
definition FREQUENCY_WINDOW_SECS :: int where "FREQUENCY_WINDOW_SECS = 24 * 3600"
definition FREQUENCY_SATURATION :: rat where "FREQUENCY_SATURATION = 50"
definition BLAST_SATURATION :: rat where "BLAST_SATURATION = 500"

lemmas weight_defs = W_SEVERITY_def W_BLAST_def W_FREQUENCY_def W_TREND_def W_RECENCY_def BOOST_NEW_def BOOST_REGRESSED_def

section \<open>Severity\<close>

datatype Severity = Crash | Leak | Operability | Jank | Unclassified

fun severity_weight :: "Severity \<Rightarrow> rat" where
  "severity_weight Crash = 1"
| "severity_weight Leak = fl (8 / 10)"
| "severity_weight Operability = fl (55 / 100)"
| "severity_weight Jank = fl (3 / 10)"
| "severity_weight Unclassified = fl (5 / 10)"

fun severity_as_str :: "Severity \<Rightarrow> string" where
  "severity_as_str Crash = ''crash''"
| "severity_as_str Leak = ''leak''"
| "severity_as_str Operability = ''operability''"
| "severity_as_str Jank = ''jank''"
| "severity_as_str Unclassified = ''unclassified''"

definition severity_class :: "string \<Rightarrow> Severity option" where
  "severity_class s = List.find (\<lambda>v. severity_as_str v = s) [Crash, Leak, Operability, Jank, Unclassified]"

fun all_some :: "'a option list \<Rightarrow> 'a list option" where
  "all_some [] = Some []"
| "all_some (None # _) = None"
| "all_some (Some x # xs) = map_option (Cons x) (all_some xs)"

text \<open>\<open>None\<close> is a panic: the registry is malformed.\<close>

definition known_oracles :: "json \<Rightarrow> (string \<times> Severity) list option" where
  "known_oracles doc =
     Option.bind (Option.bind (jfield doc ''severity'') as_object) (\<lambda>m.
     Option.bind (all_some (map (\<lambda>(cls, ids).
       Option.bind (severity_class cls) (\<lambda>s.
       Option.bind (as_array ids) (\<lambda>xs. all_some (map (\<lambda>i. map_option (\<lambda>n. (n, s)) (as_str i)) xs)))) m)) (\<lambda>ts.
     if concat ts = [] then None else Some (concat ts)))"

definition severity_for_oracle :: "(string \<times> Severity) list \<Rightarrow> string \<Rightarrow> Severity" where
  "severity_for_oracle oracles i = (case map_of oracles i of Some s \<Rightarrow> s | None \<Rightarrow> Unclassified)"

section \<open>Signals and factors\<close>

record libm =
  ln_1p :: "rat \<Rightarrow> rat"
  half_powf :: "rat \<Rightarrow> rat"

record Actionability =
  is_new :: bool
  is_regressed :: bool

record BucketSignals =
  sg_oracle :: "string option"
  sg_count :: "64 word"
  sg_timeline :: Timeline
  sg_last_seen :: "string option"
  sg_action :: Actionability

record Impact =
  im_score :: rat
  im_severity :: Severity
  im_why :: json

definition as_f64 :: "64 word \<Rightarrow> rat" where "as_f64 n = fl (of_nat (unat n))"

definition blast_factor :: "libm \<Rightarrow> 64 word \<Rightarrow> rat" where
  "blast_factor lm n = (if n = 0 then 0 else min (fl (ln_1p lm (as_f64 n) / ln_1p lm BLAST_SATURATION)) 1)"

definition frequency_factor :: "(string \<Rightarrow> int option) \<Rightarrow> Timeline \<Rightarrow> int option \<Rightarrow> rat" where
  "frequency_factor pe series now_epoch =
     (case now_epoch of
        None \<Rightarrow> 0
      | Some now \<Rightarrow>
          let cutoff = now - FREQUENCY_WINDOW_SECS;
              recent = sum_list (map tn_count (filter (\<lambda>c. case pe (tn_window c) of Some w \<Rightarrow> cutoff \<le> w | None \<Rightarrow> False) (tl_total series)))
          in min (fl (as_f64 recent / FREQUENCY_SATURATION)) 1)"

definition trend_factor :: "Timeline \<Rightarrow> rat" where
  "trend_factor series =
     (let n = length (tl_total series); mid = n div 2;
          older = as_f64 (sum_list (map tn_count (take mid (tl_total series))));
          newer = as_f64 (sum_list (map tn_count (drop mid (tl_total series))))
      in if n < 2 then 1 / 2
         else if fl (older + newer) = 0 then 1 / 2
         else fl (newer / fl (older + newer)))"

definition recency_factor :: "libm \<Rightarrow> (string \<Rightarrow> int option) \<Rightarrow> string option \<Rightarrow> int option \<Rightarrow> rat" where
  "recency_factor lm pe last_seen now_epoch =
     (case (Option.bind last_seen pe, now_epoch) of
        (Some last', Some now) \<Rightarrow>
          let gap = now - last'
          in if gap \<le> 0 then 1 else half_powf lm (fl (fl (of_int gap) / RECENCY_HALF_LIFE_SECS))
      | _ \<Rightarrow> 0)"

section \<open>The score\<close>

text \<open>The sum in the order of the source, and the boosts.\<close>

definition weighted_sum :: "rat \<Rightarrow> rat \<Rightarrow> rat \<Rightarrow> rat \<Rightarrow> rat \<Rightarrow> rat" where
  "weighted_sum f_sev f_blast f_freq f_trend f_recency =
     fl (fl (fl (fl (fl (W_SEVERITY * f_sev) + fl (W_BLAST * f_blast)) + fl (W_FREQUENCY * f_freq)) + fl (W_TREND * f_trend))
       + fl (W_RECENCY * f_recency))"

definition action_boost :: "Actionability \<Rightarrow> rat" where
  "action_boost act =
     (let b = (if is_new act then fl (0 + BOOST_NEW) else 0) in if is_regressed act then fl (b + BOOST_REGRESSED) else b)"

definition bucket_severity :: "(string \<times> Severity) list \<Rightarrow> BucketSignals \<Rightarrow> Severity" where
  "bucket_severity oracles sg =
     (case sg_oracle sg of Some i \<Rightarrow> severity_for_oracle oracles i | None \<Rightarrow> Unclassified)"

definition impact_score :: "(string \<times> Severity) list \<Rightarrow> libm \<Rightarrow> (string \<Rightarrow> int option) \<Rightarrow> (rat \<Rightarrow> string)
    \<Rightarrow> BucketSignals \<Rightarrow> string \<Rightarrow> Impact" where
  "impact_score oracles lm pe ft sg now =
     (let severity = bucket_severity oracles sg; now_epoch = pe now;
          f_sev = severity_weight severity; f_blast = blast_factor lm (sg_count sg);
          f_freq = frequency_factor pe (sg_timeline sg) now_epoch; f_trend = trend_factor (sg_timeline sg);
          f_recency = recency_factor lm pe (sg_last_seen sg) now_epoch;
          b = action_boost (sg_action sg);
          num = (\<lambda>x. JNum (Float (ft x)));
          factor = (\<lambda>f w. [(''factor'', num (round2 f)), (''weight'', num w)])
      in \<lparr>im_score = round2 (fl (weighted_sum f_sev f_blast f_freq f_trend f_recency + b)),
          im_severity = severity,
          im_why = JObj [
            (''blast'', JObj ((''count'', JNum (PosInt (unat (sg_count sg)))) # factor f_blast W_BLAST)),
            (''boost'', JObj [(''new'', JBool (is_new (sg_action sg))), (''regressed'', JBool (is_regressed (sg_action sg))),
              (''total'', num (round2 b))]),
            (''frequency'', JObj (factor f_freq W_FREQUENCY)),
            (''recency'', JObj (factor f_recency W_RECENCY)),
            (''severity'', JObj ((''class'', JStr (severity_as_str severity)) # factor f_sev W_SEVERITY)),
            (''trend'', JObj [(''factor'', num (round2 f_trend)), (''spiking'', JBool (1 / 2 < f_trend)), (''weight'', num W_TREND)])]\<rparr>)"

section \<open>Factors are between 0 and 1\<close>

text \<open>What the ranking needs of the platform's functions.\<close>

definition libm_ok :: "libm \<Rightarrow> bool" where
  "libm_ok lm \<longleftrightarrow> (\<forall>x y. 0 \<le> x \<and> x \<le> y \<longrightarrow> 0 \<le> ln_1p lm x \<and> ln_1p lm x \<le> ln_1p lm y) \<and> 0 < ln_1p lm BLAST_SATURATION
     \<and> (\<forall>x. 0 \<le> x \<longrightarrow> 0 \<le> half_powf lm x \<and> half_powf lm x \<le> 1)"

lemma severity_weight_values:
  "severity_weight Crash = 1"
  "severity_weight Leak = 3602879701896397 / 4503599627370496"
  "severity_weight Operability = 2476979795053773 / 4503599627370496"
  "severity_weight Jank = 5404319552844595 / 18014398509481984" "severity_weight Unclassified = 1 / 2"
  by code_simp+

lemma severity_weight_bounds: "severity_weight Jank \<le> severity_weight s" "severity_weight s \<le> 1" "0 \<le> severity_weight s"
proof -
  show "severity_weight Jank \<le> severity_weight s" using severity_weight_values by (cases s) simp_all
  show "severity_weight s \<le> 1" using severity_weight_values by (cases s) simp_all
  show "0 \<le> severity_weight s" using severity_weight_values by (cases s) simp_all
qed

lemma as_f64_nonneg: "0 \<le> as_f64 n"
  unfolding as_f64_def by (intro fl_nonneg of_nat_0_le_iff)

lemma as_f64_idem: "fl (as_f64 n) = as_f64 n"
  unfolding as_f64_def by (intro fl_idem of_nat_0_le_iff)

lemma as_f64_mono: "m \<le> n \<Longrightarrow> as_f64 m \<le> as_f64 n"
  unfolding as_f64_def word_le_nat_alt by (intro fl_mono of_nat_0_le_iff of_nat_mono)

lemma blast_bounds:
  assumes "libm_ok lm"
  shows "0 \<le> blast_factor lm n" "blast_factor lm n \<le> 1"
proof -
  have "0 \<le> ln_1p lm (as_f64 n) / ln_1p lm BLAST_SATURATION"
    using assms as_f64_nonneg [of n] unfolding libm_ok_def by (metis divide_nonneg_pos order_refl)
  then show "0 \<le> blast_factor lm n" "blast_factor lm n \<le> 1" using fl_nonneg by (auto simp: blast_factor_def)
qed

lemma frequency_bounds: "0 \<le> frequency_factor pe series now" "frequency_factor pe series now \<le> 1"
  using fl_nonneg as_f64_nonneg by (auto simp: frequency_factor_def Let_def FREQUENCY_SATURATION_def split: option.split)

lemma trend_bounds: "0 \<le> trend_factor series" "trend_factor series \<le> 1"
proof -
  define od where "od = as_f64 (sum_list (map tn_count (take (length (tl_total series) div 2) (tl_total series))))"
  define nw where "nw = as_f64 (sum_list (map tn_count (drop (length (tl_total series) div 2) (tl_total series))))"
  have n: "0 \<le> od" "0 \<le> nw" by (simp_all add: od_def nw_def as_f64_nonneg)
  have "nw = fl nw" by (simp only: nw_def as_f64_idem)
  also have "\<dots> \<le> fl (od + nw)" using n by (intro fl_mono) simp_all
  finally have "nw \<le> fl (od + nw)" .
  moreover have "0 \<le> fl (od + nw)" using n by (simp add: fl_nonneg)
  ultimately have "0 \<le> fl (nw / fl (od + nw))" "fl (nw / fl (od + nw)) \<le> 1"
    using n by (auto intro!: fl_nonneg fl_le simp: divide_le_eq_1)
  then show "0 \<le> trend_factor series" "trend_factor series \<le> 1"
    by (simp_all add: trend_factor_def Let_def flip: od_def nw_def)
qed

lemma recency_bounds:
  assumes "libm_ok lm"
  shows "0 \<le> recency_factor lm pe last' now" "recency_factor lm pe last' now \<le> 1"
  using assms fl_nonneg by (auto simp: recency_factor_def libm_ok_def Let_def RECENCY_HALF_LIFE_SECS_def split: option.split)

section \<open>Bounds of the score\<close>

lemma fl_mult_mono: "0 \<le> w \<Longrightarrow> 0 \<le> x \<Longrightarrow> x \<le> y \<Longrightarrow> fl (w * x) \<le> fl (w * y)"
  by (intro fl_mono mult_nonneg_nonneg mult_left_mono)

lemma fl_mult_nonneg: "0 \<le> w \<Longrightarrow> 0 \<le> x \<Longrightarrow> 0 \<le> fl (w * x)"
  by (intro fl_nonneg mult_nonneg_nonneg)

lemma fl_add_mono: "0 \<le> a \<Longrightarrow> 0 \<le> b \<Longrightarrow> a \<le> c \<Longrightarrow> b \<le> d \<Longrightarrow> fl (a + b) \<le> fl (c + d)"
  by (intro fl_mono add_nonneg_nonneg add_mono)

lemma fl_add_nonneg: "0 \<le> a \<Longrightarrow> 0 \<le> b \<Longrightarrow> 0 \<le> fl (a + b)"
  by (intro fl_nonneg add_nonneg_nonneg)

lemmas fl_rules = fl_add_mono fl_mult_mono fl_add_nonneg fl_mult_nonneg

lemma weighted_sum_mono:
  assumes "0 \<le> a" "a \<le> a'" "0 \<le> b" "b \<le> b'" "0 \<le> c" "c \<le> c'" "0 \<le> d" "d \<le> d'" "0 \<le> e" "e \<le> e'"
  shows "0 \<le> weighted_sum a b c d e" "weighted_sum a b c d e \<le> weighted_sum a' b' c' d' e'"
  using assms unfolding weighted_sum_def weight_defs by (intro fl_rules; simp)+

lemma round2_mono:
  assumes "0 \<le> x" "x \<le> y"
  shows "round2 x \<le> round2 y"
proof -
  have "0 \<le> fl (x * 100)" "fl (x * 100) \<le> fl (y * 100)" using assms by (auto intro: fl_nonneg fl_mono)
  then have r: "round_away (fl (x * 100)) \<le> round_away (fl (y * 100))" "0 \<le> round_away (fl (x * 100))"
    by (rule round_away_mono) (simp add: round_away_def \<open>0 \<le> fl (x * 100)\<close>)
  then show ?thesis unfolding round2_def by (intro fl_mono) (simp_all add: divide_right_mono)
qed

lemma round2_int: "0 \<le> k \<Longrightarrow> k < 10 ^ 10 \<Longrightarrow> round2 (of_int k) = of_int k"
proof -
  assume k: "0 \<le> k" "k < 10 ^ 10"
  have "fl (of_int k * 100) = of_int (k * 100)" using fl_int [of "k * 100"] k by simp
  then have "round_away (fl (of_int k * 100)) = k * 100" by (simp only: round_away_int)
  then show ?thesis using fl_int [of k] k by (simp add: round2_def)
qed

lemma round2_numbers: "round2 127 = 127" "round2 132 = 132"
  using round2_int [of 127] round2_int [of 132] by simp_all

lemma weighted_sum_max: "weighted_sum 1 1 1 1 1 = 115"
  by (simp add: weighted_sum_def weight_defs)

lemma weighted_sum_min: "weighted_sum (severity_weight Jank) 0 0 0 0 = 12"
proof -
  have "fl (40 * severity_weight Jank) = 12" by code_simp
  then show ?thesis by (simp add: weighted_sum_def weight_defs del: severity_weight.simps)
qed

text \<open>The part of the score before the boosts.\<close>

definition base_score :: "(string \<times> Severity) list \<Rightarrow> libm \<Rightarrow> (string \<Rightarrow> int option) \<Rightarrow> BucketSignals \<Rightarrow> string \<Rightarrow> rat" where
  "base_score oracles lm pe sg now =
     weighted_sum (severity_weight (bucket_severity oracles sg)) (blast_factor lm (sg_count sg))
       (frequency_factor pe (sg_timeline sg) (pe now)) (trend_factor (sg_timeline sg)) (recency_factor lm pe (sg_last_seen sg) (pe now))"

lemma im_score_base:
  "im_score (impact_score oracles lm pe ft sg now) = round2 (fl (base_score oracles lm pe sg now + action_boost (sg_action sg)))"
  by (simp add: impact_score_def base_score_def Let_def)

lemma base_score_bounds:
  assumes "libm_ok lm"
  shows "12 \<le> base_score oracles lm pe sg now" "base_score oracles lm pe sg now \<le> 115"
proof -
  note b = severity_weight_bounds blast_bounds [OF assms] frequency_bounds trend_bounds recency_bounds [OF assms]
  show "12 \<le> base_score oracles lm pe sg now" "base_score oracles lm pe sg now \<le> 115"
    unfolding base_score_def weighted_sum_min [symmetric] weighted_sum_max [symmetric]
    by (intro weighted_sum_mono(2) b order_refl; simp)+
qed

text \<open>Between the scores with and without a regression is a gap that no rounding closes.\<close>

lemma score_margin:
  assumes "libm_ok lm"
  shows "is_regressed (sg_action s) \<Longrightarrow> 132 \<le> im_score (impact_score oracles lm pe ft s now)"
    and "\<not> is_regressed (sg_action s) \<Longrightarrow> im_score (impact_score oracles lm pe ft s now) \<le> 127"
proof -
  note base = base_score_bounds [OF assms(1), of oracles pe s now]
  assume "is_regressed (sg_action s)"
  then have "120 \<le> action_boost (sg_action s)" by (auto simp: action_boost_def weight_defs)
  then have "132 \<le> fl (base_score oracles lm pe s now + action_boost (sg_action s))" using base by (auto intro!: fl_ge)
  then show "132 \<le> im_score (impact_score oracles lm pe ft s now)"
    using round2_mono [of 132] by (simp add: im_score_base round2_numbers)
next
  note base = base_score_bounds [OF assms(1), of oracles pe s now]
  assume "\<not> is_regressed (sg_action s)"
  then have "action_boost (sg_action s) \<le> 12" "0 \<le> action_boost (sg_action s)" by (auto simp: action_boost_def weight_defs)
  then have "fl (base_score oracles lm pe s now + action_boost (sg_action s)) \<le> 127"
    "0 \<le> fl (base_score oracles lm pe s now + action_boost (sg_action s))"
    using base by (auto intro!: fl_le fl_nonneg)
  then show "im_score (impact_score oracles lm pe ft s now) \<le> 127"
    using round2_mono [of "fl (base_score oracles lm pe s now + action_boost (sg_action s))" 127] by (simp add: im_score_base round2_numbers)
qed

text \<open>C27. A regression comes first: the score of a bucket with a regression is greater than the score of
  any bucket without one, for all signals of both, although every step of the sum is rounded.\<close>
theorem regression_ranks_first:
  assumes "libm_ok lm" "is_regressed (sg_action s)" "\<not> is_regressed (sg_action t)"
  shows "im_score (impact_score oracles lm pe ft t now) < im_score (impact_score oracles lm pe ft s now)"
  by (rule le_less_trans [OF score_margin(2) [OF assms(1,3)]])
    (rule less_le_trans [OF _ score_margin(1) [OF assms(1,2)]], simp)

text \<open>With everything else equal, a bucket of a more severe class or with more occurrences never ranks
  lower.\<close>
theorem impact_monotone:
  assumes "libm_ok lm" "severity_weight (bucket_severity oracles t) \<le> severity_weight (bucket_severity oracles s)"
    and "sg_count t \<le> sg_count s" "sg_timeline t = sg_timeline s" "sg_last_seen t = sg_last_seen s" "sg_action t = sg_action s"
  shows "im_score (impact_score oracles lm pe ft t now) \<le> im_score (impact_score oracles lm pe ft s now)"
proof -
  have n: "as_f64 (sg_count t) \<le> as_f64 (sg_count s)"
    using assms(3) by (rule as_f64_mono)
  then have "ln_1p lm (as_f64 (sg_count t)) \<le> ln_1p lm (as_f64 (sg_count s))" "0 \<le> ln_1p lm (as_f64 (sg_count t))"
    "0 < ln_1p lm BLAST_SATURATION" using assms(1) as_f64_nonneg by (auto simp: libm_ok_def)
  then have "blast_factor lm (sg_count t) \<le> blast_factor lm (sg_count s)" if "sg_count s \<noteq> 0"
    using that blast_bounds(1) [OF assms(1), of "sg_count s"]
    by (cases "sg_count t = 0") (auto simp: blast_factor_def min_le_iff_disj intro!: fl_mono divide_right_mono divide_nonneg_pos)
  moreover have "sg_count s = 0 \<Longrightarrow> sg_count t = 0" using assms(3) by simp
  ultimately have "blast_factor lm (sg_count t) \<le> blast_factor lm (sg_count s)" by fastforce
  then have "base_score oracles lm pe t now \<le> base_score oracles lm pe s now"
    using assms(2) severity_weight_bounds blast_bounds [OF assms(1)] frequency_bounds trend_bounds recency_bounds [OF assms(1)]
    unfolding base_score_def assms(4,5) by (intro weighted_sum_mono(2)) simp_all
  moreover have "0 \<le> action_boost (sg_action s)" by (auto simp: action_boost_def weight_defs)
  ultimately show ?thesis
    using base_score_bounds(1) [OF assms(1), of oracles pe t now] unfolding im_score_base assms(6)
    by (intro round2_mono fl_mono fl_nonneg) simp_all
qed

text \<open>A flat series of an odd number of windows counts as spiking: its newer half has the middle window.\<close>

lemma flat_series_spikes:
  "1 / 2 < trend_factor \<lparr>tl_cells = [], tl_total = [\<lparr>tn_window = w1, tn_count = 1\<rparr>, \<lparr>tn_window = w2, tn_count = 1\<rparr>,
     \<lparr>tn_window = w3, tn_count = 1\<rparr>]\<rparr>"
proof -
  have "1 / 2 < fl (2 / 3)" by code_simp
  then show ?thesis by (simp add: trend_factor_def as_f64_def Let_def numeral_3_eq_3)
qed

text \<open>A last occurrence that cannot be read gives no recency credit.\<close>

lemma unreadable_last_seen: "pe ts = None \<Longrightarrow> recency_factor lm pe (Some ts) now = 0"
  by (simp add: recency_factor_def)

section \<open>Witnesses\<close>

definition sample_libm :: libm where
  "sample_libm = \<lparr>ln_1p = id, half_powf = (\<lambda>x. 1 / (1 + x))\<rparr>"

definition sample_signals :: "string \<Rightarrow> 64 word \<Rightarrow> bool \<Rightarrow> BucketSignals" where
  "sample_signals oracle n regressed = \<lparr>sg_oracle = Some oracle, sg_count = n, sg_timeline = \<lparr>tl_cells = [], tl_total = []\<rparr>,
     sg_last_seen = Some ''5'', sg_action = \<lparr>is_new = \<not> regressed, is_regressed = regressed\<rparr>\<rparr>"

lemma sample_libm_ok: "libm_ok sample_libm"
  by (auto simp: libm_ok_def sample_libm_def BLAST_SATURATION_def)

theorem regression_ranks_first_witness:
  "im_score (impact_score [(''crash'', Crash)] sample_libm parse_i64 (\<lambda>_. []) (sample_signals ''crash'' 1000 False) ''9'')
   < im_score (impact_score [(''crash'', Crash)] sample_libm parse_i64 (\<lambda>_. []) (sample_signals ''other'' 1 True) ''9'')"
  by (rule regression_ranks_first [OF sample_libm_ok]) (simp_all add: sample_signals_def)

theorem impact_monotone_witness:
  "im_score (impact_score [(''crash'', Crash)] sample_libm parse_i64 (\<lambda>_. []) (sample_signals ''other'' 3 False) ''9'')
   \<le> im_score (impact_score [(''crash'', Crash)] sample_libm parse_i64 (\<lambda>_. []) (sample_signals ''crash'' 4 False) ''9'')"
  by (rule impact_monotone [OF sample_libm_ok])
    (simp_all add: sample_signals_def bucket_severity_def severity_for_oracle_def severity_weight_values)

end
