(* ===== verification/Trackers.thy ===== *)
theory Trackers
  imports Request Json_Access
begin

text \<open>
  The issue trackers (\<open>src/integrations/github.rs\<close>, \<open>jira.rs\<close>, \<open>linear.rs\<close>, \<open>shortcut.rs\<close>), the
  dispatch of a CI run (\<open>dispatch.rs\<close>) and the provider-independent surface of \<open>src/integrations/mod.rs\<close>.
  A tracker is its configuration; each operation sends one HTTP call and reads the answer. \<open>None\<close> is the
  error of the operation.
\<close>

section \<open>Calls\<close>

definition send_call :: "env \<Rightarrow> http_call \<Rightarrow> http_answer action" where
  "send_call sv c a = (Ok (sv_http sv c), a\<lparr>app_calls := app_calls a @ [(c, sv_http sv c)]\<rparr>)"

definition is_success :: "nat \<Rightarrow> bool" where "is_success status \<longleftrightarrow> 200 \<le> status \<and> status < 300"

text \<open>The answer of a call that has to carry JSON, and of one of which only the status counts.\<close>

definition json_answer :: "http_answer \<Rightarrow> json option" where
  "json_answer r = (case r of Some (status, Some v) \<Rightarrow> if is_success status then Some v else None | _ \<Rightarrow> None)"

definition plain_answer :: "http_answer \<Rightarrow> unit option" where
  "plain_answer r = (case r of Some (status, _) \<Rightarrow> if is_success status then Some () else None | None \<Rightarrow> None)"

definition bearer_header :: "string \<Rightarrow> string" where "bearer_header token = ''Bearer '' @ token"

definition call :: "string \<Rightarrow> string \<Rightarrow> string \<Rightarrow> json \<Rightarrow> http_call" where
  "call meth url auth body = \<lparr>hc_method = meth, hc_url = url, hc_auth = auth, hc_body = body\<rparr>"

section \<open>GitHub\<close>

record GithubTracker =
  gh_repo :: string
  gh_token :: string
  gh_base_url :: string

definition GITHUB_API :: string where "GITHUB_API = ''https://api.github.com''"

definition github_new :: "string \<Rightarrow> string \<Rightarrow> GithubTracker" where
  "github_new repo token = \<lparr>gh_repo = repo, gh_token = token, gh_base_url = GITHUB_API\<rparr>"

definition issues_url :: "GithubTracker \<Rightarrow> string \<Rightarrow> string" where
  "issues_url t sfx = gh_base_url t @ ''/repos/'' @ gh_repo t @ ''/issues'' @ sfx"

definition github_create :: "GithubTracker \<Rightarrow> string \<Rightarrow> string \<Rightarrow> http_call" where
  "github_create t title body =
     call ''POST'' (issues_url t []) (bearer_header (gh_token t)) (JObj [(''body'', JStr body), (''title'', JStr title)])"

definition github_created :: "json \<Rightarrow> (string \<times> string) option" where
  "github_created v =
     map_option (\<lambda>n. (show_int n, case str_field v ''html_url'' of Some u \<Rightarrow> u | None \<Rightarrow> []))
       (Option.bind (jfield v ''number'') as_i64)"

definition github_comment :: "GithubTracker \<Rightarrow> string \<Rightarrow> string \<Rightarrow> http_call" where
  "github_comment t n body =
     call ''POST'' (issues_url t (''/'' @ n @ ''/comments'')) (bearer_header (gh_token t)) (JObj [(''body'', JStr body)])"

definition github_state :: "GithubTracker \<Rightarrow> string \<Rightarrow> string \<Rightarrow> http_call" where
  "github_state t n state = call ''PATCH'' (issues_url t (''/'' @ n)) (bearer_header (gh_token t)) (JObj [(''state'', JStr state)])"

section \<open>Jira\<close>

record JiraTracker =
  jr_base_url :: string
  jr_email :: string
  jr_api_token :: string
  jr_project_key :: string
  jr_issue_type :: string
  jr_done_transition_id :: "string option"

definition jira_from_parts :: "string \<Rightarrow> string \<Rightarrow> string \<Rightarrow> string \<Rightarrow> string option \<Rightarrow> string option \<Rightarrow> JiraTracker" where
  "jira_from_parts base_url email api_token project_key issue_type done_transition_id =
     \<lparr>jr_base_url = trim_end_slashes base_url, jr_email = email, jr_api_token = api_token, jr_project_key = project_key,
      jr_issue_type = (case issue_type of Some s \<Rightarrow> s | None \<Rightarrow> ''Bug''), jr_done_transition_id = done_transition_id\<rparr>"

definition jira_api :: "JiraTracker \<Rightarrow> string \<Rightarrow> string" where "jira_api t p = jr_base_url t @ ''/rest/api/3'' @ p"

text \<open>\<open>basic_auth\<close>: the user and the password of the header, before their encoding.\<close>

definition jira_auth :: "JiraTracker \<Rightarrow> string" where "jira_auth t = ''Basic '' @ jr_email t @ '':'' @ jr_api_token t"

definition adf_doc :: "string \<Rightarrow> json" where
  "adf_doc body = JObj [(''content'', JArr [JObj [(''content'', JArr [JObj [(''text'', JStr body), (''type'', JStr ''text'')]]),
       (''type'', JStr ''paragraph'')]]), (''type'', JStr ''doc''), (''version'', jint 1)]"

definition jira_create :: "JiraTracker \<Rightarrow> string \<Rightarrow> string \<Rightarrow> http_call" where
  "jira_create t title body =
     call ''POST'' (jira_api t ''/issue'') (jira_auth t) (JObj [(''fields'', JObj [(''description'', adf_doc body),
       (''issuetype'', JObj [(''name'', JStr (jr_issue_type t))]), (''project'', JObj [(''key'', JStr (jr_project_key t))]),
       (''summary'', JStr title)])])"

definition jira_created :: "JiraTracker \<Rightarrow> json \<Rightarrow> (string \<times> string) option" where
  "jira_created t v = map_option (\<lambda>key. (key, jr_base_url t @ ''/browse/'' @ key)) (str_field v ''key'')"

definition jira_comment :: "JiraTracker \<Rightarrow> string \<Rightarrow> string \<Rightarrow> http_call" where
  "jira_comment t i body = call ''POST'' (jira_api t (''/issue/'' @ i @ ''/comment'')) (jira_auth t) (JObj [(''body'', adf_doc body)])"

definition jira_close :: "JiraTracker \<Rightarrow> string \<Rightarrow> http_call option" where
  "jira_close t i =
     map_option (\<lambda>tid. call ''POST'' (jira_api t (''/issue/'' @ i @ ''/transitions'')) (jira_auth t)
       (JObj [(''transition'', JObj [(''id'', JStr tid)])])) (jr_done_transition_id t)"

section \<open>Linear\<close>

record LinearTracker =
  ln_token :: string
  ln_team_id :: string
  ln_done_state_id :: "string option"
  ln_base_url :: string

definition linear_from_parts :: "string \<Rightarrow> string \<Rightarrow> string option \<Rightarrow> string option \<Rightarrow> LinearTracker" where
  "linear_from_parts token team_id done_state_id base_url =
     \<lparr>ln_token = token, ln_team_id = team_id, ln_done_state_id = done_state_id,
      ln_base_url = (case base_url of Some u \<Rightarrow> u | None \<Rightarrow> ''https://api.linear.app/graphql'')\<rparr>"

definition gql_call :: "LinearTracker \<Rightarrow> string \<Rightarrow> json \<Rightarrow> http_call" where
  "gql_call t query variables =
     call ''POST'' (ln_base_url t) (bearer_header (ln_token t)) (JObj [(''query'', JStr query), (''variables'', variables)])"

definition gql_answer :: "http_answer \<Rightarrow> json option" where
  "gql_answer r = Option.bind (json_answer r) (\<lambda>v. if jfield v ''errors'' = None then Some v else None)"

definition linear_create :: "LinearTracker \<Rightarrow> string \<Rightarrow> string \<Rightarrow> http_call" where
  "linear_create t title body =
     gql_call t ''mutation($input: IssueCreateInput!) { issueCreate(input: $input) { success issue { id identifier url } } }''
       (JObj [(''input'', JObj [(''description'', JStr body), (''teamId'', JStr (ln_team_id t)), (''title'', JStr title)])])"

definition linear_created :: "json \<Rightarrow> (string \<times> string) option" where
  "linear_created v =
     (let issue = Option.bind (Option.bind (jfield v ''data'') (\<lambda>d. jfield d ''issueCreate'')) (\<lambda>c. jfield c ''issue'')
      in map_option (\<lambda>i. (i, case Option.bind issue (\<lambda>x. str_field x ''url'') of Some u \<Rightarrow> u | None \<Rightarrow> []))
           (Option.bind issue (\<lambda>x. str_field x ''id'')))"

definition linear_comment :: "LinearTracker \<Rightarrow> string \<Rightarrow> string \<Rightarrow> http_call" where
  "linear_comment t i body =
     gql_call t ''mutation($input: CommentCreateInput!) { commentCreate(input: $input) { success } }''
       (JObj [(''input'', JObj [(''body'', JStr body), (''issueId'', JStr i)])])"

definition linear_close :: "LinearTracker \<Rightarrow> string \<Rightarrow> http_call option" where
  "linear_close t i =
     map_option (\<lambda>sid. gql_call t
       ''mutation($id: String!, $input: IssueUpdateInput!) { issueUpdate(id: $id, input: $input) { success } }''
       (JObj [(''id'', JStr i), (''input'', JObj [(''stateId'', JStr sid)])])) (ln_done_state_id t)"

section \<open>Shortcut\<close>

record ShortcutTracker =
  sc_token :: string
  sc_project_id :: int
  sc_done_state_id :: "int option"
  sc_base_url :: string

definition shortcut_from_parts :: "string \<Rightarrow> int \<Rightarrow> int option \<Rightarrow> string option \<Rightarrow> ShortcutTracker" where
  "shortcut_from_parts token project_id done_state_id base_url =
     \<lparr>sc_token = token, sc_project_id = project_id, sc_done_state_id = done_state_id,
      sc_base_url = (case base_url of Some u \<Rightarrow> u | None \<Rightarrow> ''https://api.app.shortcut.com/api/v3'')\<rparr>"

definition shortcut_api :: "ShortcutTracker \<Rightarrow> string \<Rightarrow> string" where
  "shortcut_api t p = trim_end_slashes (sc_base_url t) @ p"

definition shortcut_auth :: "ShortcutTracker \<Rightarrow> string" where "shortcut_auth t = ''Shortcut-Token: '' @ sc_token t"

definition shortcut_create :: "ShortcutTracker \<Rightarrow> string \<Rightarrow> string \<Rightarrow> http_call" where
  "shortcut_create t title body =
     call ''POST'' (shortcut_api t ''/stories'') (shortcut_auth t) (JObj [(''description'', JStr body), (''name'', JStr title),
       (''project_id'', jint (sc_project_id t)), (''story_type'', JStr ''bug'')])"

definition shortcut_created :: "json \<Rightarrow> (string \<times> string) option" where
  "shortcut_created v =
     map_option (\<lambda>n. (show_int n,
         case Option.bind (case jfield v ''app_url'' of Some u \<Rightarrow> Some u | None \<Rightarrow> jfield v ''url'') as_str of Some u \<Rightarrow> u | None \<Rightarrow> []))
       (Option.bind (jfield v ''id'') as_i64)"

definition shortcut_comment :: "ShortcutTracker \<Rightarrow> string \<Rightarrow> string \<Rightarrow> http_call" where
  "shortcut_comment t i body =
     call ''POST'' (shortcut_api t (''/stories/'' @ i @ ''/comments'')) (shortcut_auth t) (JObj [(''text'', JStr body)])"

definition shortcut_close :: "ShortcutTracker \<Rightarrow> string \<Rightarrow> http_call option" where
  "shortcut_close t i =
     map_option (\<lambda>sid. call ''PUT'' (shortcut_api t (''/stories/'' @ i)) (shortcut_auth t) (JObj [(''workflow_state_id'', jint sid)]))
       (sc_done_state_id t)"

section \<open>The configured tracker\<close>

datatype ConfiguredTracker = Github GithubTracker | Jira JiraTracker | Linear LinearTracker | Shortcut ShortcutTracker

fun tracker_provider :: "ConfiguredTracker \<Rightarrow> string" where
  "tracker_provider (Github _) = ''github''"
| "tracker_provider (Jira _) = ''jira''"
| "tracker_provider (Linear _) = ''linear''"
| "tracker_provider (Shortcut _) = ''shortcut''"

fun tracker_repo :: "ConfiguredTracker \<Rightarrow> string" where
  "tracker_repo (Github t) = gh_repo t"
| "tracker_repo (Jira t) = jr_project_key t"
| "tracker_repo (Linear t) = ln_team_id t"
| "tracker_repo (Shortcut _) = ''shortcut''"

fun create_call :: "ConfiguredTracker \<Rightarrow> string \<Rightarrow> string \<Rightarrow> http_call" where
  "create_call (Github t) title body = github_create t title body"
| "create_call (Jira t) title body = jira_create t title body"
| "create_call (Linear t) title body = linear_create t title body"
| "create_call (Shortcut t) title body = shortcut_create t title body"

fun created :: "ConfiguredTracker \<Rightarrow> http_answer \<Rightarrow> (string \<times> string) option" where
  "created (Github _) r = Option.bind (json_answer r) github_created"
| "created (Jira t) r = Option.bind (json_answer r) (jira_created t)"
| "created (Linear _) r = Option.bind (gql_answer r) linear_created"
| "created (Shortcut _) r = Option.bind (json_answer r) shortcut_created"

definition create_issue :: "env \<Rightarrow> ConfiguredTracker \<Rightarrow> string \<Rightarrow> string \<Rightarrow> (string \<times> string) option action" where
  "create_issue sv t title body = andthen (send_call sv (create_call t title body)) (\<lambda>r. done_with (created t r))"

fun comment_call :: "ConfiguredTracker \<Rightarrow> string \<Rightarrow> string \<Rightarrow> http_call" where
  "comment_call (Github t) i body = github_comment t i body"
| "comment_call (Jira t) i body = jira_comment t i body"
| "comment_call (Linear t) i body = linear_comment t i body"
| "comment_call (Shortcut t) i body = shortcut_comment t i body"

fun tracker_ok :: "ConfiguredTracker \<Rightarrow> http_answer \<Rightarrow> unit option" where
  "tracker_ok (Linear _) r = map_option (\<lambda>_. ()) (gql_answer r)"
| "tracker_ok _ r = plain_answer r"

definition comment_issue :: "env \<Rightarrow> ConfiguredTracker \<Rightarrow> string \<Rightarrow> string \<Rightarrow> unit option action" where
  "comment_issue sv t i body = andthen (send_call sv (comment_call t i body)) (\<lambda>r. done_with (tracker_ok t r))"

text \<open>Without a configured target state, closing does nothing and succeeds.\<close>

fun close_call :: "ConfiguredTracker \<Rightarrow> string \<Rightarrow> http_call option" where
  "close_call (Github t) i = Some (github_state t i ''closed'')"
| "close_call (Jira t) i = jira_close t i"
| "close_call (Linear t) i = linear_close t i"
| "close_call (Shortcut t) i = shortcut_close t i"

definition close_issue :: "env \<Rightarrow> ConfiguredTracker \<Rightarrow> string \<Rightarrow> unit option action" where
  "close_issue sv t i =
     (case close_call t i of
        None \<Rightarrow> done_with (Some ())
      | Some c \<Rightarrow> andthen (send_call sv c) (\<lambda>r. done_with (tracker_ok t r)))"

text \<open>Only GitHub can reopen; the default of the trait is an error.\<close>

fun reopen_issue :: "env \<Rightarrow> ConfiguredTracker \<Rightarrow> string \<Rightarrow> unit option action" where
  "reopen_issue sv (Github t) i = andthen (send_call sv (github_state t i ''open'')) (\<lambda>r. done_with (plain_answer r))"
| "reopen_issue sv _ i = done_with None"

section \<open>Dispatching a CI run\<close>

definition EVENT_TYPE :: string where "EVENT_TYPE = ''reproit-repro''"

definition dispatch_call :: "string \<Rightarrow> string \<Rightarrow> json \<Rightarrow> http_call" where
  "dispatch_call repo token payload =
     call ''POST'' (''https://api.github.com/repos/'' @ repo @ ''/dispatches'') (bearer_header token)
       (JObj [(''client_payload'', payload), (''event_type'', JStr EVENT_TYPE)])"

definition repository_dispatch :: "env \<Rightarrow> string \<Rightarrow> string \<Rightarrow> json \<Rightarrow> unit option action" where
  "repository_dispatch sv repo token payload =
     andthen (send_call sv (dispatch_call repo token payload)) (\<lambda>r. done_with (plain_answer r))"

end
