(* ===== verification/Integrations.thy ===== *)
theory Integrations
  imports Access Trackers
begin

text \<open>
  A bucket and its ticket (\<open>src/integrations/mod.rs\<close>): the tracker that is configured for an application,
  the text of issues and comments, the hooks that file, comment, close and reopen, and the configuration
  requests. A hook never fails; what it cannot do, it leaves.
\<close>

section \<open>Configuration\<close>

definition env_key :: "string \<Rightarrow> string" where
  "env_key app_id =
     map (\<lambda>c. case c of [b] \<Rightarrow> if is_ascii_alphanumeric b then ascii_upper b else CHR ''_'' | _ \<Rightarrow> CHR ''_'') (chars app_id)"

definition nonempty :: "string option \<Rightarrow> string option" where
  "nonempty v = (case v of Some s \<Rightarrow> if s = [] then None else Some s | None \<Rightarrow> None)"

definition env_for :: "env \<Rightarrow> string \<Rightarrow> string \<Rightarrow> string option" where
  "env_for sv base app_key =
     (case nonempty (sv_vars sv (base @ ''__'' @ app_key)) of
        Some v \<Rightarrow> Some v
      | None \<Rightarrow> if sv_self_hosted sv then nonempty (sv_vars sv base) else None)"

definition jira_from_env :: "env \<Rightarrow> string \<Rightarrow> JiraTracker option" where
  "jira_from_env sv k =
     Option.bind (env_for sv ''REPROIT_JIRA_BASE_URL'' k) (\<lambda>base_url.
     Option.bind (env_for sv ''REPROIT_JIRA_EMAIL'' k) (\<lambda>email.
     Option.bind (env_for sv ''REPROIT_JIRA_API_TOKEN'' k) (\<lambda>token.
     Option.bind (env_for sv ''REPROIT_JIRA_PROJECT_KEY'' k) (\<lambda>project.
     Some (jira_from_parts base_url email token project (env_for sv ''REPROIT_JIRA_ISSUE_TYPE'' k)
       (env_for sv ''REPROIT_JIRA_DONE_TRANSITION_ID'' k))))))"

definition linear_from_env :: "env \<Rightarrow> string \<Rightarrow> LinearTracker option" where
  "linear_from_env sv k =
     Option.bind (env_for sv ''REPROIT_LINEAR_TOKEN'' k) (\<lambda>token.
     Option.bind (env_for sv ''REPROIT_LINEAR_TEAM_ID'' k) (\<lambda>team.
     Some (linear_from_parts token team (env_for sv ''REPROIT_LINEAR_DONE_STATE_ID'' k) (env_for sv ''REPROIT_LINEAR_BASE_URL'' k))))"

definition shortcut_from_env :: "env \<Rightarrow> string \<Rightarrow> ShortcutTracker option" where
  "shortcut_from_env sv k =
     Option.bind (env_for sv ''REPROIT_SHORTCUT_TOKEN'' k) (\<lambda>token.
     Option.bind (Option.bind (env_for sv ''REPROIT_SHORTCUT_PROJECT_ID'' k) parse_i64) (\<lambda>project.
     Some (shortcut_from_parts token project (Option.bind (env_for sv ''REPROIT_SHORTCUT_DONE_STATE_ID'' k) parse_i64)
       (env_for sv ''REPROIT_SHORTCUT_BASE_URL'' k))))"

definition resolve_env :: "env \<Rightarrow> string \<Rightarrow> ConfiguredTracker option" where
  "resolve_env sv app_id =
     (let key = env_key app_id;
          provider = to_ascii_lowercase (case env_for sv ''REPROIT_TRACKER_PROVIDER'' key of
            Some p \<Rightarrow> p
          | None \<Rightarrow> (case env_for sv ''REPROIT_ISSUE_PROVIDER'' key of Some p \<Rightarrow> p | None \<Rightarrow> ''github''))
      in if provider = ''github'' \<or> provider = ''gh'' then
           Option.bind (env_for sv ''REPROIT_GH_REPO'' key) (\<lambda>repo.
           Option.bind (env_for sv ''REPROIT_GH_TOKEN'' key) (\<lambda>token. Some (Github (github_new repo token))))
         else if provider = ''jira'' then map_option Jira (jira_from_env sv key)
         else if provider = ''linear'' then map_option Linear (linear_from_env sv key)
         else if provider = ''shortcut'' \<or> provider = ''clubhouse'' then map_option Shortcut (shortcut_from_env sv key)
         else None)"

definition extra_field :: "IntegrationRow \<Rightarrow> string \<Rightarrow> string option" where
  "extra_field row k = nonempty (str_field (in_extra row) k)"

definition from_config :: "env \<Rightarrow> IntegrationRow \<Rightarrow> ConfiguredTracker option" where
  "from_config sv row =
     Option.bind (Option.bind (in_token_enc row) (sv_decrypt sv)) (\<lambda>token.
     let p = in_provider row
     in if p = ''github'' \<or> p = ''gh'' then map_option (\<lambda>repo. Github (github_new repo token)) (nonempty (in_repo row))
        else if p = ''jira'' then
          Option.bind (nonempty (in_base_url row)) (\<lambda>base_url.
          Option.bind (nonempty (in_user_email row)) (\<lambda>email.
          Option.bind (extra_field row ''projectKey'') (\<lambda>project.
          Some (Jira (jira_from_parts base_url email token project (extra_field row ''issueType'') (extra_field row ''doneTransitionId''))))))
        else if p = ''linear'' then
          map_option (\<lambda>team. Linear (linear_from_parts token team (extra_field row ''doneStateId'') (nonempty (in_base_url row))))
            (extra_field row ''teamId'')
        else if p = ''shortcut'' \<or> p = ''clubhouse'' then
          map_option (\<lambda>project. Shortcut (shortcut_from_parts token project
              (Option.bind (extra_field row ''doneStateId'') parse_i64) (nonempty (in_base_url row))))
            (Option.bind (extra_field row ''projectId'') parse_i64)
        else None)"

definition resolve_for :: "env \<Rightarrow> Tenant \<Rightarrow> string \<Rightarrow> ConfiguredTracker option action" where
  "resolve_for sv t app_id =
     andthen (tlook sv t ''integration_for'' (integration_for app_id)) (\<lambda>r.
     done_with (case Option.bind (Option.bind r id) (from_config sv) of
        Some tracker \<Rightarrow> Some tracker | None \<Rightarrow> resolve_env sv app_id))"

definition is_configured_for :: "env \<Rightarrow> Tenant \<Rightarrow> string \<Rightarrow> bool action" where
  "is_configured_for sv t app_id = andthen (resolve_for sv t app_id) (\<lambda>c. done_with (c \<noteq> None))"

section \<open>Issues and comments\<close>

definition is_verified_fix :: "string \<Rightarrow> 32 word \<Rightarrow> 32 word \<Rightarrow> bool" where
  "is_verified_fix status runs failures \<longleftrightarrow> status = ''not_reproduced'' \<and> 3 \<le> sint runs \<and> failures = 0"

definition nl :: string where "nl = [CHR 0x0A]"

definition join :: "string \<Rightarrow> string list \<Rightarrow> string" where
  "join sep xs = (case xs of [] \<Rightarrow> [] | y # ys \<Rightarrow> y @ concat (map (\<lambda>z. sep @ z) ys))"

definition build_str :: "(string \<times> string) list \<Rightarrow> string" where
  "build_str side =
     (case (map_of side ''version'', map_of side ''commit'') of
        (Some v, Some c) \<Rightarrow> v @ '' ('' @ c @ '')''
      | (Some v, None) \<Rightarrow> v
      | (None, Some c) \<Rightarrow> c
      | (None, None) \<Rightarrow> ''unknown'')"

definition replay_md :: "string list \<Rightarrow> string" where
  "replay_md replay =
     (if replay = [] then ''_(no executable replay steps; reproduces on load)_''
      else join nl (map (\<lambda>(i, a). show_nat (i + 1) @ ''. `'' @ a @ ''`'') (enumerate 0 replay)))"

definition issue_body :: "string \<Rightarrow> string \<Rightarrow> ErrorRec \<Rightarrow> ErrorRec \<Rightarrow> string \<times> string" where
  "issue_body app_id bucket oldest newest =
     (case lineage oldest newest of (first, last') \<Rightarrow>
        (''[reproit] '' @ bucket @ '': '' @ crash_summary newest,
         ''Auto-filed by **reproit** for production bug bucket `'' @ bucket @ ''` in app `'' @ app_id @ ''`.'' @ nl @ nl
         @ ''This is a PII-safe repro package: derived signatures and an executable replay only, never user values.'' @ nl @ nl
         @ ''**Crash signature:** `'' @ er_sig newest @ ''`'' @ nl
         @ ''**Normalized message:** '' @ normalize_message (er_message newest) @ nl
         @ ''**First seen:** '' @ build_str first @ nl
         @ ''**Last seen:** '' @ build_str last' @ nl @ nl
         @ ''**Replay actions:**'' @ nl @ replay_md (replay_actions newest) @ nl @ nl
         @ ''**Reproduce locally:**'' @ nl @ ''```sh'' @ nl @ ''reproit '' @ bucket @ nl @ ''```'' @ nl
         @ ''reproit will download the replay package, synthesize a PII-safe fixture, replay the actions deterministically, and post the verdict back. A clean pull request verifies the candidate fix. This issue closes only after that commit is deployed and production confirms the bug stays gone.''))"

definition fix_comment :: "string \<Rightarrow> string option \<Rightarrow> string" where
  "fix_comment bucket build =
     ''reproit confirmed in production that bucket `'' @ bucket @ ''` stays gone''
     @ (case build of Some b \<Rightarrow> '' after build `'' @ b @ ''`'' | None \<Rightarrow> []) @ ''. Closing automatically.''"

definition fix_verified_comment :: "string \<Rightarrow> string option \<Rightarrow> string" where
  "fix_verified_comment bucket build =
     ''reproit verified the fix for bucket `'' @ bucket
     @ (case build of
          Some b \<Rightarrow> ''` on commit `'' @ b @ ''`. The issue will close after that build is deployed and production confirms the bug stays gone.''
        | None \<Rightarrow> ''` in CI. The issue will close after deployment and production confirmation.'')"

definition regression_comment :: "string \<Rightarrow> string option \<Rightarrow> string" where
  "regression_comment bucket build =
     ''reproit detected bucket `'' @ bucket @ ''` again in production''
     @ (case build of Some b \<Rightarrow> '' on build `'' @ b @ ''`'' | None \<Rightarrow> []) @ ''. The fix has regressed.''"

section \<open>Hooks\<close>

text \<open>The triage tables are a part of the tenant database.\<close>

definition with_triage :: "triage_db \<Rightarrow> telemetry_db \<Rightarrow> telemetry_db" where
  "with_triage d db = db\<lparr>bucket_triage := bucket_triage d, bucket_tickets := bucket_tickets d,
     bucket_resolution_status := bucket_resolution_status d, bucket_resolution_events := bucket_resolution_events d\<rparr>"

definition on_triage :: "(triage_db \<Rightarrow> triage_db) \<Rightarrow> tenant_data \<Rightarrow> tenant_data" where
  "on_triage f d = d\<lparr>td_telemetry := with_triage (f (triage_db.truncate (td_telemetry d))) (td_telemetry d)\<rparr>"

definition ticket_of :: "string \<Rightarrow> string \<Rightarrow> tenant_data \<Rightarrow> ticket_row option" where
  "ticket_of app_id bucket d = ticket_for_bucket app_id bucket (triage_db.truncate (td_telemetry d))"

definition finish_work :: "env \<Rightarrow> Tenant \<Rightarrow> int \<Rightarrow> unit action" where
  "finish_work sv t i =
     andthen (tctl sv t ''complete_integration_work''
       (\<lambda>d. (Some (), d\<lparr>td_telemetry := complete_integration_work i (td_telemetry d)\<rparr>))) (\<lambda>_. done_with ())"

definition save_link :: "env \<Rightarrow> Tenant \<Rightarrow> string \<Rightarrow> string \<Rightarrow> ConfiguredTracker \<Rightarrow> string \<times> string \<Rightarrow> unit option action" where
  "save_link sv t app_id bucket tracker issue =
     tctl sv t ''link_ticket'' (\<lambda>d. (Some (), on_triage
       (link_ticket app_id bucket (tracker_provider tracker) (tracker_repo tracker) (fst issue) (snd issue)) d))"

definition file_issue_for_bucket :: "env \<Rightarrow> Tenant \<Rightarrow> string \<Rightarrow> string \<Rightarrow> ErrorRec \<Rightarrow> ErrorRec \<Rightarrow> string option action" where
  "file_issue_for_bucket sv t app_id bucket oldest newest =
     andthen (resolve_for sv t app_id) (\<lambda>c.
     case c of
       None \<Rightarrow> done_with None
     | Some tracker \<Rightarrow>
         andthen (tlook sv t ''ticket_for_bucket'' (ticket_of app_id bucket)) (\<lambda>link.
         if link \<noteq> Some None then done_with None
         else
           andthen (create_issue sv tracker (fst (issue_body app_id bucket oldest newest)) (snd (issue_body app_id bucket oldest newest))) (\<lambda>r.
           case r of
             None \<Rightarrow> done_with None
           | Some issue \<Rightarrow>
               andthen (save_link sv t app_id bucket tracker issue) (\<lambda>saved.
               done_with (map_option (\<lambda>_. snd issue) saved)))))"

definition drain_item :: "env \<Rightarrow> Tenant \<Rightarrow> IntegrationWork \<Rightarrow> unit action" where
  "drain_item sv t w =
     andthen (is_configured_for sv t (iw_app_id w)) (\<lambda>configured.
     if \<not> configured then finish_work sv t (iw_id w)
     else
       andthen (tlook sv t ''bucket_endpoints'' (\<lambda>d. bucket_endpoints (iw_app_id w) (iw_bucket_id w) (td_telemetry d))) (\<lambda>r.
       case r of
         None \<Rightarrow> done_with ()
       | Some None \<Rightarrow> finish_work sv t (iw_id w)
       | Some (Some (oldest, newest)) \<Rightarrow>
           if is_tester_capture newest then finish_work sv t (iw_id w)
           else
             andthen (file_issue_for_bucket sv t (iw_app_id w) (iw_bucket_id w) oldest newest) (\<lambda>_.
             andthen (tlook sv t ''ticket_for_bucket'' (ticket_of (iw_app_id w) (iw_bucket_id w))) (\<lambda>link.
             if Option.bind link id \<noteq> None then finish_work sv t (iw_id w) else done_with ()))))"

fun each_item :: "('x \<Rightarrow> unit action) \<Rightarrow> 'x list \<Rightarrow> unit action" where
  "each_item f [] = done_with ()"
| "each_item f (x # xs) = andthen (f x) (\<lambda>_. each_item f xs)"

definition drain_outbox :: "env \<Rightarrow> Tenant \<Rightarrow> unit action" where
  "drain_outbox sv t =
     andthen (tctl sv t ''claim_integration_work'' (\<lambda>d.
       case claim_integration_work (sv_now sv) (sv_locked sv) 20 (td_telemetry d) of
         (work, db) \<Rightarrow> (Some work, d\<lparr>td_telemetry := db\<rparr>))) (\<lambda>work.
     each_item (drain_item sv t) (case work of Some ws \<Rightarrow> ws | None \<Rightarrow> []))"

text \<open>The tracker and the ticket of a bucket, when there are both.\<close>

definition linked :: "env \<Rightarrow> Tenant \<Rightarrow> string \<Rightarrow> string \<Rightarrow> (ConfiguredTracker \<times> ticket_row) option action" where
  "linked sv t app_id bucket =
     andthen (resolve_for sv t app_id) (\<lambda>c.
     case c of
       None \<Rightarrow> done_with None
     | Some tracker \<Rightarrow>
         andthen (tlook sv t ''ticket_for_bucket'' (ticket_of app_id bucket)) (\<lambda>link.
         done_with (map_option (Pair tracker) (Option.bind link id))))"

definition close_ticket_on_fix :: "env \<Rightarrow> Tenant \<Rightarrow> string \<Rightarrow> string \<Rightarrow> string option \<Rightarrow> unit action" where
  "close_ticket_on_fix sv t app_id bucket build =
     andthen (linked sv t app_id bucket) (\<lambda>l.
     case l of
       None \<Rightarrow> done_with ()
     | Some (tracker, link) \<Rightarrow>
         andthen (comment_issue sv tracker (tk_external_id link) (fix_comment bucket build)) (\<lambda>ok.
         if ok = None then done_with ()
         else andthen (close_issue sv tracker (tk_external_id link)) (\<lambda>_. done_with ())))"

definition comment_ticket_fix_verified :: "env \<Rightarrow> Tenant \<Rightarrow> string \<Rightarrow> string \<Rightarrow> string option \<Rightarrow> unit action" where
  "comment_ticket_fix_verified sv t app_id bucket build =
     andthen (linked sv t app_id bucket) (\<lambda>l.
     case l of
       None \<Rightarrow> done_with ()
     | Some (tracker, link) \<Rightarrow>
         andthen (comment_issue sv tracker (tk_external_id link) (fix_verified_comment bucket build)) (\<lambda>_. done_with ()))"

definition reopen_ticket_on_regression :: "env \<Rightarrow> Tenant \<Rightarrow> string \<Rightarrow> string \<Rightarrow> string option \<Rightarrow> unit action" where
  "reopen_ticket_on_regression sv t app_id bucket build =
     andthen (linked sv t app_id bucket) (\<lambda>l.
     case l of
       None \<Rightarrow> done_with ()
     | Some (tracker, link) \<Rightarrow>
         andthen (comment_issue sv tracker (tk_external_id link) (regression_comment bucket build)) (\<lambda>_.
         andthen (reopen_issue sv tracker (tk_external_id link)) (\<lambda>_. done_with ())))"

section \<open>Configuration requests\<close>

definition internal_error :: response where "internal_error = err 500 ''internal error''"

definition get_integration :: "env \<Rightarrow> AuthCtx \<Rightarrow> headers \<Rightarrow> string \<Rightarrow> response action" where
  "get_integration sv auth hs app_id =
     andthen (tenant_for sv auth hs app_id) (\<lambda>t.
     andthen (tlook sv t ''integration_for'' (integration_for app_id)) (\<lambda>r.
     andthen (need r internal_error) (\<lambda>row.
     done_with (reply 200 (case row of
       Some i \<Rightarrow> JObj [(''baseUrl'', jopt JStr (in_base_url i)), (''dispatchRepo'', jopt JStr (in_dispatch_repo i)),
         (''dispatchTokenSet'', JBool (in_dispatch_token_enc i \<noteq> None)), (''extra'', in_extra i),
         (''provider'', JStr (in_provider i)), (''repo'', jopt JStr (in_repo i)),
         (''tokenSet'', JBool (in_token_enc i \<noteq> None)), (''userEmail'', jopt JStr (in_user_email i))]
     | None \<Rightarrow> JObj [(''dispatchTokenSet'', JBool False), (''provider'', JNull), (''tokenSet'', JBool False)])))))"

record PutIntegration =
  pi_provider :: "string option"
  pi_repo :: "string option"
  pi_base_url :: "string option"
  pi_user_email :: "string option"
  pi_extra :: "json option"
  pi_token :: "string option"
  pi_dispatch_repo :: "string option"
  pi_dispatch_token :: "string option"

text \<open>Absent keeps the stored secret, the empty string clears it, anything else replaces it.\<close>

definition merge_secret :: "env \<Rightarrow> nat \<Rightarrow> string option \<Rightarrow> string option \<Rightarrow> string option option" where
  "merge_secret sv n incoming stored =
     (case incoming of
        None \<Rightarrow> Some stored
      | Some s \<Rightarrow> if s = [] then Some None else map_option Some (sv_encrypt sv (sv_random sv n) s))"

definition or_stored :: "string option \<Rightarrow> string option \<Rightarrow> string option" where
  "or_stored put stored = nonempty (case put of Some s \<Rightarrow> Some s | None \<Rightarrow> stored)"

definition no_integration :: IntegrationRow where
  "no_integration = \<lparr>in_provider = [], in_repo = None, in_base_url = None, in_user_email = None, in_extra = JNull,
     in_token_enc = None, in_dispatch_repo = None, in_dispatch_token_enc = None\<rparr>"

definition merged_row :: "PutIntegration \<Rightarrow> IntegrationRow \<Rightarrow> string option \<Rightarrow> string option \<Rightarrow> IntegrationRow" where
  "merged_row p prev token dispatch_token =
     \<lparr>in_provider = (case nonempty (pi_provider p) of Some s \<Rightarrow> s | None \<Rightarrow> if in_provider prev = [] then ''github'' else in_provider prev),
      in_repo = or_stored (pi_repo p) (in_repo prev), in_base_url = or_stored (pi_base_url p) (in_base_url prev),
      in_user_email = or_stored (pi_user_email p) (in_user_email prev),
      in_extra = (case pi_extra p of Some (JObj m) \<Rightarrow> JObj m | _ \<Rightarrow> (case in_extra prev of JObj m \<Rightarrow> JObj m | _ \<Rightarrow> JObj [])),
      in_token_enc = token, in_dispatch_repo = or_stored (pi_dispatch_repo p) (in_dispatch_repo prev),
      in_dispatch_token_enc = dispatch_token\<rparr>"

definition put_integration :: "env \<Rightarrow> AuthCtx \<Rightarrow> headers \<Rightarrow> string \<Rightarrow> PutIntegration \<Rightarrow> response action" where
  "put_integration sv auth hs app_id p =
     andthen (tenant_for sv auth hs app_id) (\<lambda>t.
     andthen (tlook sv t ''integration_for'' (integration_for app_id)) (\<lambda>r.
     let prev = (case Option.bind r id of Some i \<Rightarrow> i | None \<Rightarrow> no_integration)
     in andthen (need (merge_secret sv 0 (pi_token p) (in_token_enc prev)) internal_error) (\<lambda>token.
        andthen (need (merge_secret sv 1 (pi_dispatch_token p) (in_dispatch_token_enc prev)) internal_error) (\<lambda>dispatch_token.
        let row = merged_row p prev token dispatch_token
        in andthen (tctl sv t ''set_integration'' (\<lambda>d. (Some (), set_integration app_id row d))) (\<lambda>saved.
           andthen (need saved internal_error) (\<lambda>_.
           andthen (audit sv ''org-key'' ''integration.set'' None (JObj [(''app'', JStr app_id), (''provider'', JStr (in_provider row))])) (\<lambda>_.
           done_with (reply 200 (JObj [(''ok'', JBool True), (''provider'', JStr (in_provider row))])))))))))"

end
