(* ===== verification/Integration_Laws.thy ===== *)
theory Integration_Laws
  imports Integrations Request_Wp Sample_App
begin

text \<open>
  What the issue tracker integration guarantees: every issue that is created is linked, so a bucket gets at
  most one; nothing of the context of an error but its build reaches a ticket; a hosted process reads
  tracker variables of the application only; stored tokens are never returned.
\<close>

section \<open>Issues and links\<close>

text \<open>The title of the issue a call asks for.\<close>

definition issue_title :: "http_call \<Rightarrow> string option" where
  "issue_title c =
     (let b = hc_body c; within = (\<lambda>ks. foldl (\<lambda>v k. Option.bind v (\<lambda>j. jfield j k)) (Some b) ks)
      in case str_field b ''title'' of
           Some s \<Rightarrow> Some s
         | None \<Rightarrow> (case str_field b ''name'' of
             Some s \<Rightarrow> Some s
           | None \<Rightarrow> (case Option.bind (within [''fields'', ''summary'']) as_str of
               Some s \<Rightarrow> Some s
             | None \<Rightarrow> Option.bind (within [''variables'', ''input'', ''title'']) as_str)))"

definition answered :: "http_answer \<Rightarrow> bool" where "answered r \<longleftrightarrow> plain_answer r \<noteq> None"

text \<open>The issues that were created: calls for one that were answered with success.\<close>

definition issues_made :: "(http_call \<times> http_answer) list \<Rightarrow> nat" where
  "issues_made calls = length (filter (\<lambda>(c, r). issue_title c \<noteq> None \<and> answered r) calls)"

definition tickets :: "Tenant \<Rightarrow> app \<Rightarrow> ticket_row list" where
  "tickets t a = bucket_tickets (td_telemetry (app_tenants a (t_store t)))"

definition balanced :: "Tenant \<Rightarrow> nat \<Rightarrow> app \<Rightarrow> bool" where
  "balanced t n a \<longleftrightarrow> issues_made (app_calls a) + n = length (tickets t a) \<and> distinct (map tk_key (tickets t a))"

text \<open>A tracker that answers with success also tells the issue, and the link can be stored.\<close>

definition tracker_reliable :: "env \<Rightarrow> bool" where
  "tracker_reliable sv \<longleftrightarrow> \<not> sv_fails sv ''link_ticket''
     \<and> (\<forall>tracker title body. let r = sv_http sv (create_call tracker title body) in answered r \<longrightarrow> created tracker r \<noteq> None)"

lemma title_create: "issue_title (create_call tracker title body) = Some title"
  by (cases tracker)
    (simp_all add: github_create_def jira_create_def linear_create_def shortcut_create_def gql_call_def call_def
      issue_title_def str_field_def jfield_def Let_def)

lemma title_comment: "issue_title (comment_call tracker i body) = None"
  by (cases tracker)
    (simp_all add: github_comment_def jira_comment_def linear_comment_def shortcut_comment_def gql_call_def call_def
      issue_title_def str_field_def jfield_def adf_doc_def Let_def)

lemma title_close: "close_call tracker i = Some c \<Longrightarrow> issue_title c = None"
  by (cases tracker)
    (auto simp: github_state_def jira_close_def linear_close_def shortcut_close_def gql_call_def call_def
      issue_title_def str_field_def jfield_def Let_def)

lemma title_state: "issue_title (github_state g i s) = None"
  by (simp add: github_state_def call_def issue_title_def str_field_def jfield_def Let_def)

lemma created_answered: "created tracker r = Some x \<Longrightarrow> answered r"
  by (cases tracker) (auto simp: answered_def plain_answer_def json_answer_def gql_answer_def bind_eq_Some_conv
    split: option.splits if_splits)

interpretation bal: request_wp "balanced t n" for t n .

lemma bal_call: "issue_title c = None \<Longrightarrow> balanced t n a \<Longrightarrow> (\<And>r b. balanced t n b \<Longrightarrow> Q r b) \<Longrightarrow> bal.wp t n (send_call sv c) Q a"
  by (simp add: bal.wp_def send_call_def balanced_def tickets_def issues_made_def)

lemma bal_tctl:
  "balanced t n a \<Longrightarrow> (\<And>d. bucket_tickets (td_telemetry (snd (op d))) = bucket_tickets (td_telemetry d))
    \<Longrightarrow> (\<And>r b. balanced t n b \<Longrightarrow> Q r b) \<Longrightarrow> bal.wp t n (tctl sv t m op) Q a"
  by (simp add: bal.wp_tctl balanced_def tickets_def)

lemma bal_tlook: "balanced t n a \<Longrightarrow> (\<And>r b. balanced t n b \<Longrightarrow> Q r b) \<Longrightarrow> bal.wp t n (tlook sv t m f) Q a"
  by (simp add: bal.wp_tlook)

lemma bal_resolve_for: "balanced t n a \<Longrightarrow> (\<And>c b. balanced t n b \<Longrightarrow> Q c b) \<Longrightarrow> bal.wp t n (resolve_for sv t app_id) Q a"
  by (simp add: resolve_for_def bal.wp_andthen bal.wp_tlook bal.wp_done)

lemma bal_finish: "balanced t n a \<Longrightarrow> (\<And>u b. balanced t n b \<Longrightarrow> Q u b) \<Longrightarrow> bal.wp t n (finish_work sv t i) Q a"
  unfolding finish_work_def
  by (intro bal.wp_andthenI bal_tctl bal.wp_doneI) (simp_all add: complete_integration_work_def)

text \<open>Filing: the one call that creates an issue is followed by the link under a key that has none.\<close>

lemma link_adds:
  assumes "ticket_of app_id bucket d = None"
  shows "map tk_key (bucket_tickets (td_telemetry (on_triage (link_ticket app_id bucket p r e u) d)))
    = map tk_key (bucket_tickets (td_telemetry d)) @ [(app_id, bucket)]"
    "(app_id, bucket) \<notin> set (map tk_key (bucket_tickets (td_telemetry d)))"
proof -
  have b: "bucket_tickets (triage_db.truncate (td_telemetry d)) = bucket_tickets (td_telemetry d)"
    by (simp add: triage_db.truncate_def)
  have none: "(app_id, bucket) \<notin> tk_key ` set (bucket_tickets (td_telemetry d))"
    using assms by (simp add: ticket_of_def ticket_for_bucket_def row_of_None b)
  show "(app_id, bucket) \<notin> set (map tk_key (bucket_tickets (td_telemetry d)))" using none by simp
  show "map tk_key (bucket_tickets (td_telemetry (on_triage (link_ticket app_id bucket p r e u) d)))
      = map tk_key (bucket_tickets (td_telemetry d)) @ [(app_id, bucket)]"
    using none by (simp add: on_triage_def with_triage_def link_ticket_def b upsert_def tk_key_def)
qed

lemma bal_file:
  assumes "tracker_reliable sv" "balanced t n a" "\<And>u b. balanced t n b \<Longrightarrow> Q u b"
  shows "bal.wp t n (file_issue_for_bucket sv t app_id bucket oldest newest) Q a"
proof -
  let ?body = "issue_body app_id bucket oldest newest"
  have filed: "bal.wp t n (andthen (create_issue sv tracker (fst ?body) (snd ?body)) (\<lambda>r. case r of
        None \<Rightarrow> done_with None
      | Some issue \<Rightarrow> andthen (save_link sv t app_id bucket tracker issue) (\<lambda>saved. done_with (map_option (\<lambda>_. snd issue) saved)))) Q b"
    if bal: "balanced t n b" and free: "ticket_of app_id bucket (app_tenants b (t_store t)) = None" for tracker b
  proof -
    let ?c = "create_call tracker (fst ?body) (snd ?body)"
    let ?b = "b\<lparr>app_calls := app_calls b @ [(?c, sv_http sv ?c)]\<rparr>"
    show ?thesis
    proof (cases "created tracker (sv_http sv ?c)")
      case None
      then have "\<not> answered (sv_http sv ?c)" using assms(1) unfolding tracker_reliable_def Let_def by blast
      then have "balanced t n ?b" using bal by (simp add: balanced_def tickets_def issues_made_def)
      then show ?thesis using None assms(3)
        by (simp add: bal.wp_def create_issue_def send_call_def andthen_def done_with_def)
    next
      case (Some issue)
      let ?d = "on_triage (link_ticket app_id bucket (tracker_provider tracker) (tracker_repo tracker) (fst issue) (snd issue))
        (app_tenants b (t_store t))"
      let ?e = "?b\<lparr>app_tenants := (app_tenants b)(t_store t := ?d)\<rparr>"
      have "length (bucket_tickets (td_telemetry ?d)) = Suc (length (tickets t b))"
        using arg_cong [OF link_adds(1) [OF free], of length] by (simp add: tickets_def)
      moreover have "distinct (map tk_key (bucket_tickets (td_telemetry ?d)))"
        using link_adds [OF free] bal by (simp add: balanced_def tickets_def)
      ultimately have "balanced t n ?e"
        using bal title_create created_answered [OF Some] by (simp add: balanced_def tickets_def issues_made_def)
      then show ?thesis using Some assms(1,3)
        by (simp add: bal.wp_def create_issue_def send_call_def save_link_def tctl_def tracker_reliable_def andthen_def done_with_def)
    qed
  qed
  show ?thesis
    unfolding file_issue_for_bucket_def
    by (intro bal.wp_andthenI bal_resolve_for assms(2) bal.wp_optionI bal.wp_doneI assms(3))
      (auto simp: bal.wp_tlook bal.wp_done assms(3) intro: filed)
qed

lemma bal_drain_item:
  assumes "tracker_reliable sv" "balanced t n a" "\<And>u b. balanced t n b \<Longrightarrow> Q u b"
  shows "bal.wp t n (drain_item sv t w) Q a"
  unfolding drain_item_def is_configured_for_def
  by (intro bal.wp_andthenI bal.wp_doneI bal.wp_ifI bal_resolve_for bal_finish bal_tlook assms)
    (auto split: option.split prod.split intro!: bal.wp_andthenI bal.wp_doneI bal.wp_ifI bal_finish bal_file bal_tlook assms)

lemma bal_each:
  assumes "\<And>x a Q. balanced t n a \<Longrightarrow> (\<And>u b. balanced t n b \<Longrightarrow> Q u b) \<Longrightarrow> bal.wp t n (f x) Q a"
    and "balanced t n a" "\<And>u b. balanced t n b \<Longrightarrow> Q u b"
  shows "bal.wp t n (each_item f xs) Q a"
  using assms(2,3)
proof (induction xs arbitrary: a Q)
  case (Cons x xs)
  then show ?case by (auto intro!: bal.wp_andthenI assms(1) Cons.IH)
qed (simp add: bal.wp_done)

lemma bal_drain:
  assumes "tracker_reliable sv" "balanced t n a"
  shows "balanced t n (snd (drain_outbox sv t a))"
proof -
  have "bal.wp t n (drain_outbox sv t) (\<lambda>_. balanced t n) a"
    unfolding drain_outbox_def
    by (intro bal.wp_andthenI bal_tctl assms bal_each bal_drain_item)
      (auto simp: claim_integration_work_def Let_def)
  then show ?thesis by (simp add: bal.wp_def split: prod.splits sum.splits)
qed

text \<open>The hooks in the order a process runs them; \<open>SaveConfig\<close> stands for the configuration request.\<close>

datatype hook =
    Drain
  | CloseOnFix string string "string option"
  | CommentVerified string string "string option"
  | ReopenOnRegression string string "string option"
  | SaveConfig string IntegrationRow

fun run_hook :: "env \<Rightarrow> Tenant \<Rightarrow> hook \<Rightarrow> unit action" where
  "run_hook sv t Drain = drain_outbox sv t"
| "run_hook sv t (CloseOnFix app_id bucket build) = close_ticket_on_fix sv t app_id bucket build"
| "run_hook sv t (CommentVerified app_id bucket build) = comment_ticket_fix_verified sv t app_id bucket build"
| "run_hook sv t (ReopenOnRegression app_id bucket build) = reopen_ticket_on_regression sv t app_id bucket build"
| "run_hook sv t (SaveConfig app_id row) =
     andthen (tctl sv t ''set_integration'' (\<lambda>d. (Some (), set_integration app_id row d))) (\<lambda>_. done_with ())"

definition run_hooks :: "Tenant \<Rightarrow> (env \<times> hook) list \<Rightarrow> app \<Rightarrow> app" where
  "run_hooks t hs a = foldl (\<lambda>a (sv, h). snd (run_hook sv t h a)) a hs"

lemma bal_linked: "balanced t n a \<Longrightarrow> (\<And>c b. balanced t n b \<Longrightarrow> Q c b) \<Longrightarrow> bal.wp t n (linked sv t app_id bucket) Q a"
  unfolding linked_def
  by (intro bal.wp_andthenI bal_resolve_for) (auto split: option.split intro!: bal.wp_andthenI bal.wp_doneI bal_tlook)

lemma bal_comment: "balanced t n a \<Longrightarrow> (\<And>c b. balanced t n b \<Longrightarrow> Q c b) \<Longrightarrow> bal.wp t n (comment_issue sv tracker i body) Q a"
  unfolding comment_issue_def by (intro bal.wp_andthenI bal_call bal.wp_doneI title_comment) simp_all

lemma bal_close: "balanced t n a \<Longrightarrow> (\<And>c b. balanced t n b \<Longrightarrow> Q c b) \<Longrightarrow> bal.wp t n (close_issue sv tracker i) Q a"
  unfolding close_issue_def
  by (auto split: option.split intro!: bal.wp_andthenI bal_call bal.wp_doneI title_close)

lemma bal_reopen: "balanced t n a \<Longrightarrow> (\<And>c b. balanced t n b \<Longrightarrow> Q c b) \<Longrightarrow> bal.wp t n (reopen_issue sv tracker i) Q a"
  by (cases tracker) (auto intro!: bal.wp_andthenI bal_call bal.wp_doneI title_state)

lemma bal_hook:
  assumes "tracker_reliable sv" "balanced t n a"
  shows "balanced t n (snd (run_hook sv t h a))"
proof -
  have "bal.wp t n (run_hook sv t h) (\<lambda>_. balanced t n) a" if "h \<noteq> Drain"
    using that assms(2)
    by (cases h; simp only: run_hook.simps close_ticket_on_fix_def comment_ticket_fix_verified_def reopen_ticket_on_regression_def)
      (auto split: option.split prod.split intro!: bal.wp_andthenI bal_linked bal_comment bal_close bal_reopen bal.wp_doneI
        bal.wp_ifI bal_tctl simp: set_integration_def)
  then show ?thesis using bal_drain [OF assms] by (cases "h = Drain") (auto simp: bal.wp_def split: prod.splits sum.splits)
qed

lemma run_balanced: "list_all (\<lambda>(sv, h). tracker_reliable sv) hs \<Longrightarrow> balanced t n a \<Longrightarrow> balanced t n (run_hooks t hs a)"
  by (induction hs arbitrary: a) (auto simp: run_hooks_def bal_hook)

text \<open>C18. Every issue that is created has a link of its own: over any sequence of hooks, the number of
  issues the trackers created grows by exactly the number of links, and no bucket has two links, so no
  bucket gets a second issue. This needs a tracker whose successful answers name the issue, and links
  that can be stored.\<close>
theorem issues_linked:
  assumes "list_all (\<lambda>(sv, h). tracker_reliable sv) hs"
    and "distinct (map tk_key (tickets t a))" "issues_made (app_calls a) \<le> length (tickets t a)"
    and "b = run_hooks t hs a"
  shows "length (tickets t b) - length (tickets t a) = issues_made (app_calls b) - issues_made (app_calls a)
    \<and> distinct (map tk_key (tickets t b))"
proof -
  let ?n = "length (tickets t a) - issues_made (app_calls a)"
  have "balanced t ?n a" using assms(2,3) by (simp add: balanced_def)
  then have "balanced t ?n (run_hooks t hs a)" by (rule run_balanced [OF assms(1)])
  then show "length (tickets t b) - length (tickets t a) = issues_made (app_calls b) - issues_made (app_calls a)
    \<and> distinct (map tk_key (tickets t b))"
    using assms(3,4) by (auto simp: balanced_def)
qed

section \<open>What a ticket tells\<close>

definition without_context :: "ErrorRec \<Rightarrow> ErrorRec" where
  "without_context r = r\<lparr>er_context := filter (\<lambda>(k, _). k = ''build'') (er_context r)\<rparr>"

text \<open>A ticket tells nothing of the context of an error but its build: removing every other entry of the
  context changes neither the title nor the body of the issue. Nor does it tell a typed value: a step that
  is not a replay action can be removed as well.\<close>
theorem issue_hides_context:
  "issue_body app_id bucket (without_context oldest) (without_context newest) = issue_body app_id bucket oldest newest
   \<and> issue_body app_id bucket oldest (newest\<lparr>er_path := filter (\<lambda>s. is_replay_action (st_action s)) (er_path newest)\<rparr>)
     = issue_body app_id bucket oldest newest"
proof -
  have "map_of (filter (\<lambda>(k, _). k = ''build'') m) ''build'' = map_of m ''build''" for m :: "(string \<times> json) list"
    by (induction m) auto
  then have b: "build_of (without_context r) = build_of r" for r
    by (simp add: build_of_def build_object_def without_context_def)
  have r: "replay_actions (r\<lparr>er_path := filter (\<lambda>s. is_replay_action (st_action s)) (er_path r)\<rparr>) = replay_actions r" for r
    by (simp add: replay_actions_def filter_map o_def)
  have p: "build_of (r\<lparr>er_path := p\<rparr>) = build_of r" "crash_summary (r\<lparr>er_path := p\<rparr>) = crash_summary r" for r p
    by (simp_all add: build_of_def build_object_def crash_summary_def)
  have c: "crash_summary (without_context r) = crash_summary r" "replay_actions (without_context r) = replay_actions r" for r
    by (simp_all add: crash_summary_def replay_actions_def without_context_def)
  show ?thesis
    unfolding issue_body_def lineage_def b r p c by (simp add: without_context_def)
qed

section \<open>Whose configuration\<close>

text \<open>A hosted process takes the tracker of an application from variables of that application only: two
  processes whose variables agree under the suffix of the application resolve the same tracker, whatever
  the unsuffixed variables are.\<close>
theorem hosted_env_isolated:
  assumes "\<not> sv_self_hosted sv" "\<not> sv_self_hosted sv'"
    and "\<And>base. sv_vars sv (base @ ''__'' @ env_key app_id) = sv_vars sv' (base @ ''__'' @ env_key app_id)"
  shows "resolve_env sv app_id = resolve_env sv' app_id"
proof -
  have e: "env_for sv base (env_key app_id) = env_for sv' base (env_key app_id)" for base
    using assms by (simp add: env_for_def)
  show ?thesis
    unfolding resolve_env_def jira_from_env_def linear_from_env_def shortcut_from_env_def Let_def e by (rule refl)
qed

text \<open>Different applications can have the same suffix.\<close>

lemma env_key_collision: "env_key ''acme-web'' = env_key ''acme_web''"
  by code_simp

text \<open>A row with its secrets replaced.\<close>

definition redact :: "(string \<Rightarrow> string) \<Rightarrow> IntegrationRow \<Rightarrow> IntegrationRow" where
  "redact f i = i\<lparr>in_token_enc := map_option f (in_token_enc i), in_dispatch_token_enc := map_option f (in_dispatch_token_enc i)\<rparr>"

definition redacted :: "(string \<Rightarrow> string) \<Rightarrow> app \<Rightarrow> app" where
  "redacted f a = a\<lparr>app_tenants := (\<lambda>s. (app_tenants a s)\<lparr>td_integrations := map (\<lambda>(k, i). (k, redact f i)) (td_integrations (app_tenants a s))\<rparr>)\<rparr>"

lemma redacted_integration:
  "integration_for k (app_tenants (redacted f a) s) = map_option (redact f) (integration_for k (app_tenants a s))"
proof -
  have "map_of (map (\<lambda>(k, i). (k, redact f i)) m) k = map_option (redact f) (map_of m k)" for m
    by (induction m) auto
  then show ?thesis by (simp add: redacted_def integration_for_def)
qed

text \<open>Actions that do not look at the secrets commute with the replacement.\<close>

definition blind :: "(string \<Rightarrow> string) \<Rightarrow> 'a action \<Rightarrow> bool" where
  "blind f m \<longleftrightarrow> (\<forall>a. m (redacted f a) = apsnd (redacted f) (m a))"

lemma blind_andthen: "blind f m \<Longrightarrow> (\<And>x. blind f (g x)) \<Longrightarrow> blind f (andthen m g)"
  by (auto simp: blind_def andthen_def split: prod.splits sum.splits)

lemma blind_simple: "blind f (done_with x)" "blind f (stop r)" "blind f (require b r)" "blind f (need v r)"
  by (auto simp: blind_def done_with_def stop_def require_def need_def split: option.split)

lemma blind_resolve: "blind f (tenancy_resolve sv org_id)"
  by (simp add: blind_def tenancy_resolve_def registry_of_def redacted_def split: prod.split)

lemma blind_tlook: "(\<And>m d. g (d\<lparr>td_integrations := m\<rparr>) = g d) \<Longrightarrow> blind f (tlook sv t k g)"
  by (simp add: blind_def tlook_def redacted_def)

lemma blind_tenant_for: "blind f (tenant_for sv auth hs app_id)"
  unfolding tenant_for_def tenant_of_def
  by (auto intro!: blind_andthen blind_simple blind_resolve blind_tlook simp: owns_app_def split: AuthCtx.split sum.split ResolveError.split)

text \<open>Stored secrets are write-only: the answer to reading the configuration of an application is the same
  whatever the stored tokens of all applications are.\<close>
theorem tokens_never_returned:
  "fst (respond (get_integration sv auth hs app_id) (redacted f a)) = fst (respond (get_integration sv auth hs app_id) a)"
proof (cases "tenant_for sv auth hs app_id a")
  case (Pair r b)
  then have red: "tenant_for sv auth hs app_id (redacted f a) = (r, redacted f b)"
    using blind_tenant_for [of f sv auth hs app_id] by (simp add: blind_def)
  show ?thesis
  proof (cases r)
    case (Inr t)
    show ?thesis using Pair red Inr
      by (cases "integration_for app_id (app_tenants b (t_store t))")
        (auto simp: get_integration_def andthen_def tlook_def need_def stop_def done_with_def respond_def redacted_integration redact_def)
  qed (use Pair red in \<open>simp add: get_integration_def andthen_def respond_def\<close>)
qed

section \<open>The configuration request\<close>

text \<open>A failed read of the stored row counts as an empty row, so a request that sends no token erases the
  stored one.\<close>

lemma failed_read_erases_token:
  "sv_fails sv ''integration_for'' \<Longrightarrow> pi_token p = None \<Longrightarrow> merge_secret sv 0 (pi_token p) (in_token_enc no_integration) = Some None"
  by (simp add: merge_secret_def no_integration_def)

section \<open>Witnesses\<close>

text \<open>A tracker that accepts every call, an application with a GitHub configuration and one new bucket.\<close>

definition accepting :: "http_call \<Rightarrow> http_answer" where
  "accepting c = Some (201, Some (JObj [(''data'', JObj [(''issueCreate'', JObj [(''issue'', JObj [(''id'', JStr ''L1'')])])]),
     (''id'', jint 7), (''key'', JStr ''ENG-1''), (''number'', jint 7)]))"

definition tracker_env :: "int \<Rightarrow> bool \<Rightarrow> env" where
  "tracker_env now link_fails = sample_env\<lparr>sv_http := accepting, sv_now := now, sv_fails := (\<lambda>m. link_fails \<and> m = ''link_ticket'')\<rparr>"

definition tracker_tenant :: Tenant where
  "tracker_tenant = \<lparr>t_org_id = 1, t_store = ''new'', t_blob_scope = ''t/1''\<rparr>"

definition tracker_app :: app where
  "tracker_app = sample_app\<lparr>app_tenants := (\<lambda>_. sample_tenant\<lparr>td_telemetry := sample_telemetry,
     td_integrations := [(''app'', no_integration\<lparr>in_provider := ''github'', in_repo := Some ''o/r'', in_token_enc := Some ''t''\<rparr>)]\<rparr>)\<rparr>"

lemma tracker_env_reliable: "tracker_reliable (tracker_env now False)"
proof -
  have "created tracker (accepting c) \<noteq> None" for tracker c
    by (cases tracker) (simp_all add: accepting_def json_answer_def is_success_def gql_answer_def github_created_def jira_created_def
      linear_created_def shortcut_created_def str_field_def jfield_def jint_def Let_def)
  then show ?thesis by (simp add: tracker_reliable_def tracker_env_def Let_def)
qed

lemma drained_once:
  "issues_made (app_calls (run_hooks tracker_tenant [(tracker_env 5 False, Drain), (tracker_env 90000000 False, Drain)] tracker_app)) = 1"
  by code_simp

text \<open>When the link cannot be stored, the next drain creates a second issue for the bucket.\<close>

lemma filed_twice:
  "issues_made (app_calls (run_hooks tracker_tenant [(tracker_env 5 True, Drain), (tracker_env 90000000 False, Drain)] tracker_app)) = 2"
  by code_simp

theorem issues_linked_witness:
  "length (tickets tracker_tenant (run_hooks tracker_tenant [(tracker_env 5 False, Drain), (tracker_env 90000000 False, Drain)] tracker_app)) = 1"
proof -
  have start: "tickets tracker_tenant tracker_app = []" "app_calls tracker_app = []" by code_simp+
  then show ?thesis
    using issues_linked [of "[(tracker_env 5 False, Drain), (tracker_env 90000000 False, Drain)]" tracker_tenant tracker_app, OF _ _ _ refl]
      drained_once
    by (simp add: tracker_env_reliable issues_made_def)
qed

theorem hosted_env_isolated_witness:
  "resolve_env (sample_env\<lparr>sv_vars := (\<lambda>k. if k = ''REPROIT_GH_TOKEN'' then Some ''t'' else None)\<rparr>) ''app'' = resolve_env sample_env ''app''"
  by (rule hosted_env_isolated) (auto simp: sample_env_def env_key_def dest: arg_cong [of _ _ rev])

end
