(* ===== verification/Ingest.thy ===== *)
theory Ingest
  imports Integrations Captures Impact
begin

text \<open>
  Ingestion and the reads over it (\<open>src/ingest/mod.rs\<close>): accepting a batch of events, the usage graph, the
  proof of a run, the paged list of errors and the cohorts. \<open>view_lib\<close> holds what views need of the
  platform: the mathematical functions, how floats and JSON values are printed, how instants are written,
  the table of oracles, and the derived serialization of a ledger.
\<close>

section \<open>Limits\<close>

definition DEFAULT_MAX_ERROR_SCAN :: int where "DEFAULT_MAX_ERROR_SCAN = 200000"

definition positive_var :: "env \<Rightarrow> string \<Rightarrow> int \<Rightarrow> int" where
  "positive_var sv name fallback =
     (case Option.bind (sv_vars sv name) parse_i64 of Some n \<Rightarrow> if 0 < n then n else fallback | None \<Rightarrow> fallback)"

definition max_error_scan :: "env \<Rightarrow> nat" where
  "max_error_scan sv = nat (positive_var sv ''REPROIT_MAX_ERROR_SCAN'' DEFAULT_MAX_ERROR_SCAN)"

definition baseline_sample :: "env \<Rightarrow> nat" where
  "baseline_sample sv = nat (positive_var sv ''REPROIT_BASELINE_SAMPLE'' 20000)"

section \<open>Records as JSON\<close>

record view_lib =
  vl_libm :: libm
  vl_float :: "rat \<Rightarrow> string"
  vl_text :: "json \<Rightarrow> string"
  vl_epoch :: "string \<Rightarrow> int option"
  vl_epoch_text :: "int \<Rightarrow> string"
  vl_oracles :: "(string \<times> Severity) list"
  vl_ledger :: "ProofLedger \<Rightarrow> json"

record EvidenceRec =
  ev_kind :: string
  ev_key :: string
  ev_bytes :: int
  ev_ts :: string
  ev_url :: string

definition jnat :: "nat \<Rightarrow> json" where "jnat n = JNum (PosInt n)"

definition step_json :: "Step \<Rightarrow> json" where
  "step_json s = JObj ((''action'', JStr (st_action s))
     # (case st_label s of None \<Rightarrow> [] | Some l \<Rightarrow> [(''label'', JStr l)]) @ [(''sig'', JStr (st_sig s))])"

definition error_json :: "ErrorRec \<Rightarrow> json" where
  "error_json r = JObj [(''context'', JObj (er_context r)), (''message'', JStr (er_message r)),
     (''path'', JArr (map step_json (er_path r))), (''sig'', JStr (er_sig r))]"

definition evidence_json :: "EvidenceRec \<Rightarrow> json" where
  "evidence_json e = JObj [(''bytes'', jint (ev_bytes e)), (''key'', JStr (ev_key e)), (''kind'', JStr (ev_kind e)),
     (''ts'', JStr (ev_ts e)), (''url'', JStr (ev_url e))]"

definition result_json :: "ReplayResult \<Rightarrow> json" where
  "result_json r = JObj [(''created_at'', JStr (rp_created_at r)), (''failures'', jint (sint (rp_failures r))),
     (''local_repro_id'', jopt JStr (rp_local_repro_id r)), (''runs'', jint (sint (rp_runs r))), (''status'', JStr (rp_status r))]"

definition NIMBUS_SAMPLE :: string where "NIMBUS_SAMPLE = ''nimbus-shop''"

definition sample_kind :: "ErrorRec \<Rightarrow> string option" where
  "sample_kind r =
     (if Option.bind (map_of (er_context r) ''reproitSample'') as_str = Some NIMBUS_SAMPLE then Some NIMBUS_SAMPLE else None)"

definition visual_evidence_role :: "string \<Rightarrow> string option" where
  "visual_evidence_role kind =
     (if kind \<in> {''mp4'', ''gif''} then Some ''clip''
      else if kind \<in> {''png'', ''jpg'', ''jpeg''} then Some ''screenshot'' else None)"

definition visual_item :: "string \<Rightarrow> EvidenceRec \<Rightarrow> json" where
  "visual_item role e = JObj [(''bytes'', jint (ev_bytes e)), (''key'', JStr (ev_key e)), (''kind'', JStr (ev_kind e)),
     (''path'', JStr (ev_key e)), (''role'', JStr role), (''ts'', JStr (ev_ts e)), (''url'', JStr (ev_url e))]"

definition visual_evidence_refs :: "EvidenceRec list \<Rightarrow> json" where
  "visual_evidence_refs evs =
     (let visual = List.map_filter (\<lambda>e. map_option (\<lambda>role. (role, e)) (visual_evidence_role (ev_kind e))) evs;
          items = (\<lambda>xs. JArr (map (\<lambda>(role, e). visual_item role e) xs))
      in JObj [(''clips'', items (filter (\<lambda>(role, _). role = ''clip'') visual)), (''count'', jnat (length visual)),
           (''items'', items visual), (''paths'', JArr (map (\<lambda>(_, e). JStr (ev_key e)) visual)),
           (''screenshots'', items (filter (\<lambda>(role, _). role = ''screenshot'') visual))])"

section \<open>Accepting a batch\<close>

definition batch_recs :: "env \<Rightarrow> EventBatch \<Rightarrow> ErrorRec list" where
  "batch_recs sv b = ba_error_recs (aggregate_events (sv_lib sv) (eb_frames b))"

definition batch_edges :: "env \<Rightarrow> EventBatch \<Rightarrow> (string \<times> int) list" where
  "batch_edges sv b = ba_edge_counts (aggregate_events (sv_lib sv) (eb_frames b))"

text \<open>A publishable key is good for the project it was minted for only.\<close>

definition check_pin :: "env \<Rightarrow> Tenant \<Rightarrow> KeyScope \<Rightarrow> string \<Rightarrow> unit action" where
  "check_pin sv t scope app_id =
     (if ks_publishable scope then
        andthen (tlook sv t ''project_id_for_app'' (project_id_for_app app_id)) (\<lambda>r.
        andthen (need r server_error) (\<lambda>posted.
        require (ks_project_id scope \<noteq> None \<and> posted = ks_project_id scope)
          (err 403 ''this publishable key is not valid for this appId; use the pk_live_ key minted for this project'')))
      else done_with ())"

definition persist_batch :: "env \<Rightarrow> Tenant \<Rightarrow> EventBatch \<Rightarrow> bool option action" where
  "persist_batch sv t b = tctl sv t ''ingest_batch'' (\<lambda>d.
     case ingest_batch (sv_lib sv) (sv_now sv) (eb_app_id b) (batch_edges sv b) (batch_recs sv b) (eb_evidence b)
            (eb_batch_id b) (Option.bind (eb_deployment b) deployment_key) (td_telemetry d) of
       None \<Rightarrow> (None, d)
     | Some (deduped, db) \<Rightarrow> (Some deduped, d\<lparr>td_telemetry := db\<rparr>))"

definition ingested_json :: "env \<Rightarrow> EventBatch \<Rightarrow> json" where
  "ingested_json sv b =
     (let captures = map (bucket_id (sv_lib sv)) (filter is_tester_capture (batch_recs sv b))
      in JObj ((if captures = [] then [] else [(''captures'', JArr (map JStr captures))])
           @ [(''ingested'', JObj [(''edges'', jint (sum_list (map snd (batch_edges sv b)))),
                (''errors'', jnat (length (batch_recs sv b))), (''evidenceGraphs'', jnat (length (eb_evidence b)))]),
              (''ok'', JBool True)]))"

text \<open>
  A spawned task outlives the request and its result is not looked at; its calls come after the request's
  own. Ingestion spawns the drain of the outbox.
\<close>

definition spawn :: "unit action \<Rightarrow> unit action" where "spawn m a = (Ok (), snd (m a))"

definition accept_batch :: "env \<Rightarrow> Tenant \<Rightarrow> EventBatch \<Rightarrow> response action" where
  "accept_batch sv t b =
     andthen (case sv_ingest_denied sv (t_org_id t) (length (batch_recs sv b)) of
         Some (message, used, limit) \<Rightarrow> stop (reply 429 (JObj [(''error'', JStr message), (''limit'', jint limit), (''used'', jint used)]))
       | None \<Rightarrow> done_with ()) (\<lambda>_.
     andthen (persist_batch sv t b) (\<lambda>r.
     andthen (need r server_error) (\<lambda>deduped.
     if deduped then done_with (reply 200 (JObj [(''deduped'', JBool True), (''ok'', JBool True)]))
     else andthen (spawn (drain_outbox sv t)) (\<lambda>_. done_with (reply 200 (ingested_json sv b))))))"

definition post_events :: "env \<Rightarrow> AuthCtx \<Rightarrow> KeyScope \<Rightarrow> headers \<Rightarrow> EventBatch \<Rightarrow> response action" where
  "post_events sv auth scope hs b =
     andthen (case batch_validate (sv_graph sv) b of
         Inl e \<Rightarrow> stop (err 400 (reason_as_str (pe_reason e)))
       | Inr _ \<Rightarrow> done_with ()) (\<lambda>_.
     andthen (tenant_for sv auth hs (eb_app_id b)) (\<lambda>t.
     andthen (check_pin sv t scope (eb_app_id b)) (\<lambda>_.
     accept_batch sv t b)))"

section \<open>Reads\<close>

definition empty_set_sign :: string where "empty_set_sign = [CHR 0xE2, CHR 0x88, CHR 0x85]"

definition nth_part :: "string list \<Rightarrow> nat \<Rightarrow> string" where
  "nth_part p i = (if i < length p then p ! i else [])"

definition edge_ends :: "string \<Rightarrow> string \<times> string \<times> string" where
  "edge_ends key = (let p = split_all CHR ''|'' key in (nth_part p 0, nth_part p 1, nth_part p 2))"

definition graph_states :: "(string \<times> int) list \<Rightarrow> string list" where
  "graph_states es =
     sort_dedup (filter (\<lambda>s. s \<noteq> [] \<and> s \<noteq> empty_set_sign)
       (concat (map (\<lambda>(k, _). case edge_ends k of (f, _, t) \<Rightarrow> [f, t]) es)))"

definition edge_json :: "string \<times> int \<Rightarrow> json" where
  "edge_json e = (case e of (k, c) \<Rightarrow> case edge_ends k of (f, act, t) \<Rightarrow>
     JObj [(''action'', JStr act), (''count'', jint c), (''from'', JStr f), (''to'', JStr t)])"

definition get_graph :: "env \<Rightarrow> AuthCtx \<Rightarrow> headers \<Rightarrow> string \<Rightarrow> response action" where
  "get_graph sv auth hs app_id =
     andthen (tenant_for sv auth hs app_id) (\<lambda>t.
     andthen (tlook sv t ''edges'' (\<lambda>d. edges_of app_id (td_telemetry d))) (\<lambda>r.
     andthen (need r server_error) (\<lambda>es.
     done_with (reply 200 (JObj [(''appId'', JStr app_id), (''edges'', JArr (map edge_json es)),
       (''states'', jnat (length (graph_states es)))])))))"

definition get_run_proof :: "env \<Rightarrow> view_lib \<Rightarrow> AuthCtx \<Rightarrow> headers \<Rightarrow> string \<Rightarrow> string \<Rightarrow> response action" where
  "get_run_proof sv vl auth hs app_id run_id =
     andthen (tenant_for sv auth hs app_id) (\<lambda>t.
     andthen (tlook sv t ''proof_ledger'' (\<lambda>d. proof_ledger_of (sv_graph sv) app_id run_id (td_telemetry d))) (\<lambda>r.
     andthen (need (case r of Some (Inr found) \<Rightarrow> Some found | _ \<Rightarrow> None) server_error) (\<lambda>found.
     andthen (need found (err 404 ''proof ledger not found'')) (\<lambda>(root, ledger).
     done_with (reply 200 (JObj [(''appId'', JStr app_id), (''graphRoot'', JStr root), (''ledger'', vl_ledger vl ledger),
       (''runId'', JStr run_id)]))))))"

definition ERRORS_PAGE_DEFAULT :: int where "ERRORS_PAGE_DEFAULT = 500"
definition ERRORS_PAGE_MAX :: int where "ERRORS_PAGE_MAX = 5000"

definition query_int :: "(string \<Rightarrow> string option) \<Rightarrow> string \<Rightarrow> int \<Rightarrow> int \<Rightarrow> int" where
  "query_int page name least fallback =
     (case Option.bind (page name) parse_i64 of Some n \<Rightarrow> if least \<le> n then n else fallback | None \<Rightarrow> fallback)"

definition page_limit :: "(string \<Rightarrow> string option) \<Rightarrow> int" where
  "page_limit page = min (query_int page ''limit'' 1 ERRORS_PAGE_DEFAULT) ERRORS_PAGE_MAX"

definition page_offset :: "(string \<Rightarrow> string option) \<Rightarrow> int" where
  "page_offset page = query_int page ''offset'' 0 0"

definition get_errors :: "env \<Rightarrow> AuthCtx \<Rightarrow> headers \<Rightarrow> string \<Rightarrow> (string \<Rightarrow> string option) \<Rightarrow> response action" where
  "get_errors sv auth hs app_id page =
     andthen (tenant_for sv auth hs app_id) (\<lambda>t.
     andthen (tlook sv t ''errors_paginated''
       (\<lambda>d. errors_paginated app_id (nat (page_limit page)) (nat (page_offset page)) (td_telemetry d))) (\<lambda>r.
     andthen (need r server_error) (\<lambda>(errs, all).
     done_with (reply 200 (JObj [(''appId'', JStr app_id), (''count'', jnat (length errs)), (''errors'', JArr (map error_json errs)),
       (''limit'', jint (page_limit page)), (''offset'', jint (page_offset page)), (''total'', jnat all)])))))"

section \<open>Cohorts\<close>

definition DAY :: int where "DAY = 86400"

definition now_secs :: "env \<Rightarrow> int" where "now_secs sv = sv_now sv div 1000000"

definition daily_counts_last_14 :: "env \<Rightarrow> view_lib \<Rightarrow> (string \<times> string option) list \<Rightarrow> 64 word list" where
  "daily_counts_last_14 sv vl series =
     (let by_day = foldl (\<lambda>m c. case vl_epoch vl (tn_window c) of
                Some e \<Rightarrow> bt_add ((e div DAY) * DAY) (tn_count c) m | None \<Rightarrow> m) []
              (tl_total (timeline (vl_epoch vl) (vl_epoch_text vl) series DAY));
          today = (now_secs sv div DAY) * DAY
      in map (\<lambda>i. case map_of by_day (today - (13 - int i) * DAY) of Some n \<Rightarrow> n | None \<Rightarrow> 0) [0..<14])"

text \<open>The occurrences of each signature, by signature, oldest first.\<close>

type_synonym occurrence = "int \<times> string \<times> ErrorRec \<times> string option"

definition occ_rec :: "occurrence \<Rightarrow> ErrorRec" where "occ_rec oc = fst (snd (snd oc))"

definition by_sig :: "occurrence list \<Rightarrow> (string \<times> occurrence list) list" where
  "by_sig occ = foldl (\<lambda>m oc. let sig = er_sig (occ_rec oc)
     in bt_insert sig ((case map_of m sig of Some grp \<Rightarrow> grp | None \<Rightarrow> []) @ [oc]) m) [] occ"

definition cluster_json :: "env \<Rightarrow> view_lib \<Rightarrow> occurrence list \<Rightarrow> string \<times> occurrence list \<Rightarrow> json" where
  "cluster_json sv vl occ c = (case c of (sig, grp) \<Rightarrow>
     JObj [(''count'', jnat (length grp)),
       (''daily14'', JArr (map (\<lambda>n. jnat (unat n)) (daily_counts_last_14 sv vl (map (\<lambda>(_, ts, _). (ts, None)) grp)))),
       (''discriminators'', JArr (discriminators (vl_text vl) (vl_float vl)
          (map (\<lambda>oc. er_context (occ_rec oc)) grp) (map (\<lambda>oc. er_context (occ_rec oc)) occ))),
       (''message'', JStr (case grp of [] \<Rightarrow> [] | oc # _ \<Rightarrow> er_message (occ_rec oc))),
       (''sig'', JStr sig)])"

definition clusters_of :: "occurrence list \<Rightarrow> (string \<times> occurrence list) list" where
  "clusters_of occ = sort_key (\<lambda>(_, grp). - int (length grp)) (by_sig occ)"

definition get_cohorts :: "env \<Rightarrow> view_lib \<Rightarrow> AuthCtx \<Rightarrow> headers \<Rightarrow> string \<Rightarrow> response action" where
  "get_cohorts sv vl auth hs app_id =
     andthen (tenant_for sv auth hs app_id) (\<lambda>t.
     andthen (tlook sv t ''errors_with_meta_capped''
       (\<lambda>d. errors_with_meta_capped (sv_rfc3339 sv) app_id (max_error_scan sv) (td_telemetry d))) (\<lambda>r.
     andthen (need r server_error) (\<lambda>(occ, dropped).
     done_with (reply 200 (JObj [(''appId'', JStr app_id), (''clusters'', jnat (length (clusters_of occ))),
       (''errors'', JArr (map (cluster_json sv vl occ) (clusters_of occ)))])))))"

end
