(* ===== verification/Evidence.thy ===== *)
theory Evidence
  imports Ingest
begin

text \<open>
  Evidence artifacts (\<open>src/ingest/evidence.rs\<close>): the upload to a bucket with the reservation of its rows,
  the list of a bucket's artifacts and the proxy of stored bytes, with the two helpers of
  \<open>src/ingest/bucket_api.rs\<close> they use. A multipart body is the list of its parts; a part whose bytes cannot
  be read has none, and a body that breaks off ends in \<open>Broken\<close>.
\<close>

section \<open>Kinds\<close>

definition content_kind :: "string \<Rightarrow> string option" where
  "content_kind ct =
     (let m = trim (hd (split_all CHR '';'' ct))
      in if m = ''video/mp4'' then Some ''mp4'' else if m = ''image/gif'' then Some ''gif''
         else if m = ''image/png'' then Some ''png'' else if m = ''image/jpeg'' then Some ''jpg'' else None)"

definition extension_of :: "string \<Rightarrow> string" where
  "extension_of s = last (split_all CHR ''.'' s)"

definition evidence_kind :: "string option \<Rightarrow> string option \<Rightarrow> string" where
  "evidence_kind content_type filename =
     (case Option.bind content_type content_kind of
        Some k \<Rightarrow> k
      | None \<Rightarrow>
          (case map_option (\<lambda>f. to_ascii_lowercase (extension_of f)) filename of
             None \<Rightarrow> ''blob''
           | Some e \<Rightarrow> if e \<in> {''mp4'', ''gif'', ''png''} then e else if e \<in> {''jpg'', ''jpeg''} then ''jpg'' else ''blob''))"

definition kind_ext :: "string \<Rightarrow> string" where
  "kind_ext kind = (if kind \<in> {''mp4'', ''gif'', ''png'', ''jpg''} then kind else ''bin'')"

definition blob_mime :: "string \<Rightarrow> string" where
  "blob_mime ext =
     (if ext = ''mp4'' then ''video/mp4'' else if ext = ''gif'' then ''image/gif'' else if ext = ''png'' then ''image/png''
      else if ext \<in> {''jpg'', ''jpeg''} then ''image/jpeg'' else ''application/octet-stream'')"

section \<open>Rows and addresses\<close>

definition url_for :: "Tenant \<Rightarrow> string \<Rightarrow> string option" where
  "url_for t key = blob_url_for (t_blob_scope t) key"

definition with_url :: "Tenant \<Rightarrow> string \<times> string \<times> int \<times> string \<Rightarrow> EvidenceRec option" where
  "with_url t row = (case row of (kind, key, bytes, ts) \<Rightarrow>
     map_option (\<lambda>u. \<lparr>ev_kind = kind, ev_key = key, ev_bytes = bytes, ev_ts = ts, ev_url = u\<rparr>) (url_for t key))"

definition resolve_evidence :: "env \<Rightarrow> Tenant \<Rightarrow> int list \<Rightarrow> EvidenceRec list action" where
  "resolve_evidence sv t error_ids =
     andthen (tlook sv t ''evidence_for_many'' (\<lambda>d. evidence_for_many (sv_rfc3339 sv) error_ids (td_telemetry d))) (\<lambda>r.
     andthen (need r server_error) (\<lambda>rows.
     need (all_some (map (with_url t) rows)) server_error))"

definition bucket_rows :: "env \<Rightarrow> Tenant \<Rightarrow> string \<Rightarrow> string \<Rightarrow> (int \<times> string \<times> ErrorRec) list option action" where
  "bucket_rows sv t app_id bucket =
     tlook sv t ''errors_for_bucket'' (\<lambda>d. errors_for_bucket (sv_rfc3339 sv) app_id bucket (max_error_scan sv) (td_telemetry d))"

definition bucket_error_ids :: "env \<Rightarrow> Tenant \<Rightarrow> string \<Rightarrow> string \<Rightarrow> int list action" where
  "bucket_error_ids sv t app_id bucket =
     andthen (bucket_rows sv t app_id bucket) (\<lambda>r.
     andthen (need r server_error) (\<lambda>rows.
     if rows = [] then stop not_found else done_with (map fst rows)))"

section \<open>Upload\<close>

datatype part = Part "string option" "string option" "string option" | Broken string

definition MAX_EVIDENCE_FIELD_BYTES :: nat where "MAX_EVIDENCE_FIELD_BYTES = 25 * 1024 * 1024"

definition evidence_cap :: "env \<Rightarrow> Tenant \<Rightarrow> int option" where
  "evidence_cap sv t =
     (case sv_evidence_cap sv (t_org_id t) of Some c \<Rightarrow> Some c | None \<Rightarrow> max_evidence_bytes_per_app sv)"

definition hyphenated :: "string \<Rightarrow> string" where
  "hyphenated u = take 8 u @ ''-'' @ take 4 (drop 8 u) @ ''-'' @ take 4 (drop 12 u) @ ''-'' @ take 4 (drop 16 u) @ ''-'' @ drop 20 u"

definition evidence_key :: "env \<Rightarrow> string \<Rightarrow> int \<Rightarrow> nat \<Rightarrow> string \<Rightarrow> string" where
  "evidence_key sv app_id error_id n kind =
     app_id @ ''/'' @ show_int error_id @ ''/'' @ hyphenated (sv_uuids sv n) @ ''.'' @ kind_ext kind"

definition reserve_evidence :: "env \<Rightarrow> Tenant \<Rightarrow> string \<Rightarrow> int \<Rightarrow> string \<Rightarrow> string \<Rightarrow> int \<Rightarrow> int option
    \<Rightarrow> int option option action" where
  "reserve_evidence sv t app_id error_id kind key bytes cap =
     tctl sv t ''add_evidence_within_quota'' (\<lambda>d.
       case add_evidence_within_quota (sv_now sv) app_id error_id kind key bytes cap (td_telemetry d) of
         None \<Rightarrow> (None, d)
       | Some (r, db) \<Rightarrow> (Some r, d\<lparr>td_telemetry := db\<rparr>))"

definition release_evidence :: "env \<Rightarrow> Tenant \<Rightarrow> int \<Rightarrow> unit option action" where
  "release_evidence sv t i =
     tctl sv t ''remove_evidence'' (\<lambda>d. (Some (), d\<lparr>td_telemetry := remove_evidence i (td_telemetry d)\<rparr>))"

definition store_part :: "env \<Rightarrow> Tenant \<Rightarrow> string \<Rightarrow> int \<Rightarrow> int option \<Rightarrow> nat \<Rightarrow> string \<Rightarrow> string \<Rightarrow> EvidenceRec action" where
  "store_part sv t app_id error_id cap n kind data =
     (let key = evidence_key sv app_id error_id n kind; bytes = int (length data)
      in andthen (reserve_evidence sv t app_id error_id kind key bytes cap) (\<lambda>r.
         andthen (need r server_error) (\<lambda>reserved.
         andthen (need reserved (err 413 ''app evidence quota exceeded'')) (\<lambda>i.
         andthen (put_object sv t key data) (\<lambda>stored.
         andthen (if stored then done_with () else andthen (release_evidence sv t i) (\<lambda>_. stop server_error)) (\<lambda>_.
         andthen (need (url_for t key) server_error) (\<lambda>url.
         done_with \<lparr>ev_kind = kind, ev_key = key, ev_bytes = bytes, ev_ts = sv_rfc3339 sv (sv_now sv), ev_url = url\<rparr>)))))))"

fun store_parts :: "env \<Rightarrow> Tenant \<Rightarrow> string \<Rightarrow> int \<Rightarrow> int option \<Rightarrow> part list \<Rightarrow> EvidenceRec list \<Rightarrow> EvidenceRec list action" where
  "store_parts sv t app_id error_id cap [] stored = done_with stored"
| "store_parts sv t app_id error_id cap (Broken e # _) stored = stop (err 400 e)"
| "store_parts sv t app_id error_id cap (Part ct name None # _) stored = stop (err 400 ''could not read multipart field'')"
| "store_parts sv t app_id error_id cap (Part ct name (Some data) # parts) stored =
     (if MAX_EVIDENCE_FIELD_BYTES < length data then stop (err 413 ''evidence file too large'')
      else if data = [] then store_parts sv t app_id error_id cap parts stored
      else andthen (store_part sv t app_id error_id cap (length stored) (evidence_kind ct name) data) (\<lambda>e.
           store_parts sv t app_id error_id cap parts (stored @ [e])))"

definition store_evidence_for_error :: "env \<Rightarrow> Tenant \<Rightarrow> string \<Rightarrow> int \<Rightarrow> part list \<Rightarrow> int option \<Rightarrow> response action" where
  "store_evidence_for_error sv t app_id error_id parts cap =
     andthen (store_parts sv t app_id error_id cap parts []) (\<lambda>stored.
     if stored = [] then stop (err 400 ''no file parts in multipart body'')
     else done_with (reply 200 (JObj [(''evidence'', JArr (map evidence_json stored)), (''ok'', JBool True),
       (''stored'', jnat (length stored))])))"

definition post_bucket_evidence :: "env \<Rightarrow> AuthCtx \<Rightarrow> headers \<Rightarrow> string \<Rightarrow> string \<Rightarrow> part list \<Rightarrow> response action" where
  "post_bucket_evidence sv auth hs app_id bucket parts =
     andthen (tenant_for sv auth hs app_id) (\<lambda>t.
     andthen (bucket_error_ids sv t app_id bucket) (\<lambda>ids.
     if ids = [] then stop not_found
     else store_evidence_for_error sv t app_id (last ids) parts (evidence_cap sv t)))"

section \<open>Reads\<close>

definition get_bucket_evidence :: "env \<Rightarrow> AuthCtx \<Rightarrow> headers \<Rightarrow> string \<Rightarrow> string \<Rightarrow> response action" where
  "get_bucket_evidence sv auth hs app_id bucket =
     andthen (tenant_for sv auth hs app_id) (\<lambda>t.
     andthen (bucket_error_ids sv t app_id bucket) (\<lambda>ids.
     andthen (resolve_evidence sv t ids) (\<lambda>evs.
     done_with (reply 200 (JObj [(''appId'', JStr app_id), (''bucketId'', JStr bucket), (''count'', jnat (length evs)),
       (''evidence'', JArr (map evidence_json evs)), (''visualEvidence'', visual_evidence_refs evs)])))))"

text \<open>The bytes with their content type.\<close>

definition get_blob :: "env \<Rightarrow> AuthCtx \<Rightarrow> headers \<Rightarrow> string \<Rightarrow> (string \<times> string) action" where
  "get_blob sv auth hs key =
     andthen (require (is_safe_key key) (err 400 ''invalid key'')) (\<lambda>_.
     andthen (tenant_for sv auth hs (hd (split_all CHR ''/'' key))) (\<lambda>t.
     andthen (\<lambda>a. (Ok (blob_get (\<not> sv_fails sv ''blob_get'') (sv_blob_root sv) (t_blob_scope t) key (app_files a)), a)) (\<lambda>r.
     andthen (need r not_found) (\<lambda>bytes.
     done_with (blob_mime (extension_of key), bytes)))))"

end
