(* ===== verification/Replay.thy ===== *)
theory Replay
  imports Evidence
begin

text \<open>
  Replay verdicts and hosted runs (\<open>src/ingest/replay.rs\<close>): recording an attempt and what follows from it
  (a confirmed tester report is filed, a verified fix anchors the triage and is noted on the ticket, the run
  that reports is closed), dispatching a run to the customer's CI, and the two histories.
\<close>

section \<open>Reading the request\<close>

definition REPLAY_STATUSES :: "string list" where
  "REPLAY_STATUSES = [''reproduced'', ''not_reproduced'', ''stale'', ''flaky'']"

definition text_or_empty :: "json \<Rightarrow> string \<Rightarrow> string" where
  "text_or_empty body k = (case str_field body k of Some s \<Rightarrow> s | None \<Rightarrow> [])"

text \<open>\<open>as i32\<close> keeps the low 32 bits.\<close>

definition count_field :: "json \<Rightarrow> string \<Rightarrow> 32 word" where
  "count_field body k = word_of_int (case Option.bind (jfield body k) as_i64 of Some n \<Rightarrow> n | None \<Rightarrow> 0)"

definition fixed_in_build_field :: "json \<Rightarrow> string option" where
  "fixed_in_build_field body = nonempty (map_option trim (str_field body ''fixedInBuild''))"

definition quoted :: "string \<Rightarrow> string" where "quoted s = [CHR 0x22] @ s @ [CHR 0x22]"

definition bad_replay_status :: response where
  "bad_replay_status = err 400 (''status must be one of ['' @ join '', '' (map quoted REPLAY_STATUSES) @ '']'')"

definition triage_of :: "tenant_data \<Rightarrow> triage_db" where
  "triage_of d = triage_db.truncate (td_telemetry d)"

section \<open>Recording an attempt\<close>

definition record_attempt :: "env \<Rightarrow> Tenant \<Rightarrow> string \<Rightarrow> string \<Rightarrow> json \<Rightarrow> int option action" where
  "record_attempt sv t app_id bucket body =
     tctl sv t ''add_replay_result'' (\<lambda>d.
       case add_replay_result (sv_rfc3339 sv) (sv_now sv) app_id bucket (text_or_empty body ''status'') (count_field body ''runs'')
              (count_field body ''failures'') (str_field body ''localReproId'') (td_telemetry d) of
         (i, db) \<Rightarrow> (Some i, d\<lparr>td_telemetry := db\<rparr>))"

definition file_confirmed_capture :: "env \<Rightarrow> Tenant \<Rightarrow> string \<Rightarrow> string \<Rightarrow> unit action" where
  "file_confirmed_capture sv t app_id bucket =
     andthen (bucket_rows sv t app_id bucket) (\<lambda>r.
     case r of
       Some rows \<Rightarrow>
         if rows \<noteq> [] \<and> is_tester_capture (snd (snd (last rows))) then
           andthen (file_issue_for_bucket sv t app_id bucket (snd (snd (hd rows))) (snd (snd (last rows)))) (\<lambda>_. done_with ())
         else done_with ()
     | None \<Rightarrow> done_with ())"

definition fix_is_new :: "env \<Rightarrow> Tenant \<Rightarrow> string \<Rightarrow> string \<Rightarrow> bool action" where
  "fix_is_new sv t app_id bucket =
     andthen (tlook sv t ''triage_for_bucket'' (\<lambda>d. triage_for_bucket app_id bucket (triage_of d))) (\<lambda>tr.
     andthen (tlook sv t ''last_resolution_status'' (\<lambda>d. last_resolution_status app_id bucket (triage_of d))) (\<lambda>rs.
     done_with (Option.bind (Option.bind tr id) tr_fixed_in_build = None \<or> Option.bind rs id = Some ''regressed'')))"

definition anchor_fix :: "env \<Rightarrow> Tenant \<Rightarrow> string \<Rightarrow> string \<Rightarrow> string option \<Rightarrow> unit action" where
  "anchor_fix sv t app_id bucket anchor =
     andthen (tctl sv t ''advance_triage_unless_wontfix'' (\<lambda>d.
       case advance_triage_unless_wontfix (sv_now sv) app_id bucket (status_as_str Fixed) anchor (triage_of d) of
         (changed, db) \<Rightarrow> (Some changed, on_triage (\<lambda>_. db) d))) (\<lambda>_. done_with ())"

definition close_run :: "env \<Rightarrow> Tenant \<Rightarrow> int \<Rightarrow> string \<Rightarrow> string \<Rightarrow> string \<Rightarrow> unit action" where
  "close_run sv t run_id app_id bucket status =
     andthen (tctl sv t ''complete_cloud_run'' (\<lambda>d. apfst Some (complete_cloud_run (sv_now sv) run_id app_id bucket status d))) (\<lambda>_.
     done_with ())"

definition post_replay_results :: "env \<Rightarrow> AuthCtx \<Rightarrow> headers \<Rightarrow> string \<Rightarrow> string \<Rightarrow> json \<Rightarrow> response action" where
  "post_replay_results sv auth hs app_id bucket body =
     (let status = text_or_empty body ''status'';
          verified = is_verified_fix status (count_field body ''runs'') (count_field body ''failures'')
      in andthen (tenant_for sv auth hs app_id) (\<lambda>t.
         andthen (require (status \<in> set REPLAY_STATUSES) bad_replay_status) (\<lambda>_.
         andthen (record_attempt sv t app_id bucket body) (\<lambda>r.
         andthen (need r server_error) (\<lambda>i.
         andthen (if status = ''reproduced'' then file_confirmed_capture sv t app_id bucket else done_with ()) (\<lambda>_.
         andthen (if verified then fix_is_new sv t app_id bucket else done_with False) (\<lambda>is_new_fix.
         andthen (if verified then anchor_fix sv t app_id bucket (fixed_in_build_field body) else done_with ()) (\<lambda>_.
         andthen (if is_new_fix then is_configured_for sv t app_id else done_with False) (\<lambda>tell.
         andthen (if tell then comment_ticket_fix_verified sv t app_id bucket (fixed_in_build_field body) else done_with ()) (\<lambda>_.
         andthen (case Option.bind (jfield body ''runId'') as_i64 of
             Some run_id \<Rightarrow> close_run sv t run_id app_id bucket ''completed'' | None \<Rightarrow> done_with ()) (\<lambda>_.
         done_with (reply 200 (JObj [(''id'', jint i), (''ok'', JBool True)])))))))))))))"

section \<open>Hosted runs\<close>

fun requester :: "AuthCtx \<Rightarrow> string" where
  "requester Admin = ''admin''"
| "requester (Org i) = ''org:'' @ show_int i"

definition post_reproduce :: "env \<Rightarrow> AuthCtx \<Rightarrow> headers \<Rightarrow> string \<Rightarrow> string \<Rightarrow> response action" where
  "post_reproduce sv auth hs app_id bucket =
     andthen (tenant_for sv auth hs app_id) (\<lambda>t.
     andthen (tlook sv t ''integration_for'' (integration_for app_id)) (\<lambda>r.
     andthen (need r server_error) (\<lambda>row.
     andthen (need (Option.bind row (\<lambda>i. Option.bind (in_dispatch_repo i) (\<lambda>repo. map_option (Pair repo) (in_dispatch_token_enc i))))
       (err 409 ''no dispatch repo configured for this app; PUT /v1/apps/:app/integrations with dispatchRepo + dispatchToken first'')) (\<lambda>(repo, token_enc).
     andthen (need (sv_decrypt sv token_enc) server_error) (\<lambda>token.
     andthen (tctl sv t ''create_cloud_run'' (\<lambda>d. apfst Some (create_cloud_run (sv_now sv) app_id bucket (requester auth) d))) (\<lambda>r.
     andthen (need r server_error) (\<lambda>run_id.
     let what = [(''app'', JStr app_id), (''bucket'', JStr bucket)]
     in andthen (repository_dispatch sv repo token (JObj (what @ [(''runId'', jint run_id)]))) (\<lambda>sent.
        if sent = None then
          andthen (close_run sv t run_id app_id bucket ''failed'') (\<lambda>_.
          stop (reply 502 (JObj [(''error'', JStr ''repository_dispatch failed; check the dispatch repo/token''), (''runId'', jint run_id)])))
        else
          andthen (audit sv (requester auth) ''run.dispatch'' None (JObj (what @ [(''repo'', JStr repo), (''runId'', jint run_id)]))) (\<lambda>_.
          done_with (reply 200 (JObj [(''ok'', JBool True), (''runId'', jint run_id), (''status'', JStr ''dispatched'')])))))))))))"

text \<open>An attempt with \<open>2 ^ 32 + 3\<close> runs is read as one with three, the number that verifies a fix.\<close>

lemma runs_truncated:
  "count_field (JObj [(''runs'', jint 4294967299)]) ''runs'' = 3"
  by (simp add: count_field_def jint_def jfield_def)

section \<open>Histories\<close>

definition run_json :: "env \<Rightarrow> cloud_run_row \<Rightarrow> json" where
  "run_json sv r = JObj [(''completedAt'', jopt (\<lambda>i. JStr (sv_rfc3339 sv i)) (cl_completed_at r)),
     (''dispatchedAt'', JStr (sv_rfc3339 sv (cl_dispatched_at r))), (''requestedBy'', JStr (cl_requested_by r)),
     (''runId'', jint (cl_id r)), (''status'', JStr (cl_status r))]"

definition get_cloud_runs :: "env \<Rightarrow> AuthCtx \<Rightarrow> headers \<Rightarrow> string \<Rightarrow> string \<Rightarrow> response action" where
  "get_cloud_runs sv auth hs app_id bucket =
     andthen (tenant_for sv auth hs app_id) (\<lambda>t.
     andthen (tlook sv t ''cloud_runs_for'' (cloud_runs_for app_id bucket)) (\<lambda>r.
     andthen (need r server_error) (\<lambda>runs.
     done_with (reply 200 (JObj [(''bucketId'', JStr bucket), (''runs'', JArr (map (run_json sv) runs))])))))"

definition repro_status :: "view_lib \<Rightarrow> ReplayResult list \<Rightarrow> json" where
  "repro_status vl results =
     (case results of
        [] \<Rightarrow> JObj [(''attempts'', jnat 0), (''reproduced'', jnat 0), (''status'', JStr ''ready'')]
      | latest # _ \<Rightarrow>
          (let n = length (filter (\<lambda>r. rp_status r = ''reproduced'') results)
           in JObj [(''attempts'', jnat (length results)), (''localReproId'', jopt JStr (rp_local_repro_id latest)),
                (''rate'', JNum (Float (vl_float vl (round2 (share n (length results)))))), (''reproduced'', jnat n),
                (''status'', JStr (rp_status latest))]))"

definition get_replay_results :: "env \<Rightarrow> view_lib \<Rightarrow> AuthCtx \<Rightarrow> headers \<Rightarrow> string \<Rightarrow> string \<Rightarrow> response action" where
  "get_replay_results sv vl auth hs app_id bucket =
     andthen (tenant_for sv auth hs app_id) (\<lambda>t.
     andthen (tlook sv t ''replay_results_for'' (\<lambda>d. replay_results_for app_id bucket (td_telemetry d))) (\<lambda>r.
     andthen (need r server_error) (\<lambda>results.
     done_with (reply 200 (JObj [(''bucketId'', JStr bucket), (''repro'', repro_status vl results),
       (''results'', JArr (map result_json results))])))))"

end
