(* ===== verification/Export.thy ===== *)
theory Export
  imports Ingest Telemetry_Steps Sample_App
begin

text \<open>
  The portability export (\<open>src/ingest/export.rs\<close>): a stream of JSON lines, read page by page. A stream is
  the list of its lines and whether it was aborted; a client that leaves has received a prefix of the
  lines. A failing page read is \<open>sv_fails\<close> at the name of the method with the id it starts after.
  Proved: paging ends, and a stream that is not aborted has every retained row exactly once, in order.
\<close>

section \<open>Streams\<close>

type_synonym stream = "json list \<times> bool"

definition lines :: "json list \<Rightarrow> stream" where "lines xs = (xs, False)"

definition abort :: stream where "abort = ([], True)"

definition follow :: "stream \<Rightarrow> stream \<Rightarrow> stream" where
  "follow s s' = (if snd s then s else (fst s @ fst s', snd s'))"

definition EXPORT_PAGE :: nat where "EXPORT_PAGE = 1000"

definition page_lost :: "env \<Rightarrow> string \<Rightarrow> int \<Rightarrow> bool" where
  "page_lost sv m after = sv_fails sv (m @ '':'' @ show_int after)"

section \<open>Lines\<close>

definition head_line :: "env \<Rightarrow> Tenant \<Rightarrow> string \<Rightarrow> int option \<Rightarrow> json" where
  "head_line sv t app_id days = JObj [(''app'', JStr app_id), (''exportedAt'', JStr (sv_rfc3339 sv (sv_now sv))),
     (''kind'', JStr ''app''), (''org'', jint (t_org_id t)), (''retentionDays'', jopt jint days)]"

definition triage_all_for_app :: "string \<Rightarrow> tenant_data \<Rightarrow> (string \<times> triage_row) list" where
  "triage_all_for_app app_id d =
     map (\<lambda>r. (tr_bucket_id r, r)) (filter (\<lambda>r. tr_app_id r = app_id) (bucket_triage (td_telemetry d)))"

definition triage_line :: "env \<Rightarrow> string \<times> triage_row \<Rightarrow> json" where
  "triage_line sv p = (case p of (bucket, t) \<Rightarrow>
     JObj [(''assignee'', jopt jint (tr_assignee t)), (''bucket'', JStr bucket), (''fixedInBuild'', jopt JStr (tr_fixed_in_build t)),
       (''kind'', JStr ''bucket''), (''status'', JStr (tr_status t)), (''updatedAt'', JStr (sv_rfc3339 sv (tr_updated_at t)))])"

definition error_line :: "env \<Rightarrow> error_row \<Rightarrow> json" where
  "error_line sv e = (let r = el_rec e in
     JObj [(''at'', JStr (sv_rfc3339 sv (el_created_at e))), (''bucket'', jopt JStr (el_bucket_id e)), (''context'', JObj (er_context r)),
       (''id'', jint (el_id e)), (''kind'', JStr ''error''), (''message'', JStr (er_message r)),
       (''path'', JArr (map step_json (er_path r))), (''sig'', JStr (er_sig r))])"

definition evidence_line :: "env \<Rightarrow> evidence_row \<Rightarrow> json" where
  "evidence_line sv r =
     JObj [(''at'', JStr (sv_rfc3339 sv (ew_created_at r))), (''bytes'', jint (ew_bytes r)), (''errorId'', jint (ew_error_id r)),
       (''evidenceKind'', JStr (ew_kind r)), (''id'', jint (ew_id r)), (''key'', JStr (ew_storage_key r)), (''kind'', JStr ''evidence'')]"

definition capture_line :: "env \<Rightarrow> tenant_data \<Rightarrow> capture_row \<Rightarrow> json" where
  "capture_line sv d c = JObj [(''capture'', capture_json sv c), (''files'', JArr (map file_json (capture_files (cp_id c) d))),
     (''kind'', JStr ''capture'')]"

section \<open>Paging\<close>

lemma page_shrinks:
  assumes "page = take n (sort_key k (filter (\<lambda>r. P r \<and> (after :: int) < k r) rows))" "page \<noteq> []"
  shows "length (filter (\<lambda>r. k (last page) < k r) rows) < length (filter (\<lambda>r. after < k r) rows)"
proof -
  let ?l = "last page"
  have "?l \<in> set page" using assms(2) by simp
  then have l: "?l \<in> set rows" "after < k ?l"
    using assms(1) by (auto dest: in_set_takeD)
  have "filter (\<lambda>r. k ?l < k r) rows = filter (\<lambda>r. k ?l < k r) (filter (\<lambda>r. after < k r) rows)"
    using l(2) by (auto intro: filter_cong)
  moreover have "?l \<in> set (filter (\<lambda>r. after < k r) rows)" using l by simp
  ultimately show ?thesis by (metis length_filter_less less_irrefl)
qed

definition retained :: "env \<Rightarrow> string \<Rightarrow> int option \<Rightarrow> error_row \<Rightarrow> bool" where
  "retained sv app_id days e \<longleftrightarrow> el_app_id e = app_id
     \<and> (case days of None \<Rightarrow> True | Some d \<Rightarrow> sv_now sv - d * 86400000000 \<le> el_created_at e)"

lemma errors_page: "export_errors_page (sv_now sv) app_id days after n db =
    take n (sort_key el_id (filter (\<lambda>e. retained sv app_id days e \<and> after < el_id e) (errors db)))"
  by (simp add: export_errors_page_def retained_def conj_ac)

lemma evidence_page: "export_evidence_page app_id after n db =
    take n (sort_key ew_id (filter (\<lambda>r. ew_app_id r = app_id \<and> after < ew_id r) (evidence db)))"
  by (simp add: export_evidence_page_def)

function export_errors :: "env \<Rightarrow> string \<Rightarrow> int option \<Rightarrow> telemetry_db \<Rightarrow> int \<Rightarrow> stream" where
  "export_errors sv app_id days db after =
     (let page = export_errors_page (sv_now sv) app_id days after EXPORT_PAGE db
      in if page_lost sv ''export_errors_page'' after then abort
         else if page = [] then lines []
         else if length page < EXPORT_PAGE then lines (map (error_line sv) page)
         else follow (lines (map (error_line sv) page)) (export_errors sv app_id days db (el_id (last page))))"
  by pat_completeness auto
termination
  by (relation "measure (\<lambda>(sv, app_id, days, db, after). length (filter (\<lambda>e. after < el_id e) (errors db)))")
    (simp, simp, rule page_shrinks, rule errors_page, simp)

function export_evidence :: "env \<Rightarrow> string \<Rightarrow> telemetry_db \<Rightarrow> int \<Rightarrow> stream" where
  "export_evidence sv app_id db after =
     (let page = export_evidence_page app_id after EXPORT_PAGE db
      in if page_lost sv ''export_evidence_page'' after then abort
         else if page = [] then lines []
         else if length page < EXPORT_PAGE then lines (map (evidence_line sv) page)
         else follow (lines (map (evidence_line sv) page)) (export_evidence sv app_id db (ew_id (last page))))"
  by pat_completeness auto
termination
  by (relation "measure (\<lambda>(sv, app_id, db, after). length (filter (\<lambda>r. after < ew_id r) (evidence db)))")
    (simp, simp, rule page_shrinks, rule evidence_page, simp)

declare export_errors.simps [simp del] export_evidence.simps [simp del]

fun export_captures :: "env \<Rightarrow> tenant_data \<Rightarrow> capture_row list \<Rightarrow> stream" where
  "export_captures sv d [] = lines []"
| "export_captures sv d (c # cs) =
     (if sv_fails sv (''capture_files:'' @ cp_id c) then abort
      else follow (lines [capture_line sv d c]) (export_captures sv d cs))"

definition export_stream :: "env \<Rightarrow> Tenant \<Rightarrow> string \<Rightarrow> int option \<Rightarrow> tenant_data \<Rightarrow> stream" where
  "export_stream sv t app_id days d =
     follow (lines [head_line sv t app_id days])
       (follow (if sv_fails sv ''triage_all_for_app'' then abort
                else lines (map (triage_line sv) (sort_key fst (triage_all_for_app app_id d))))
       (follow (export_errors sv app_id days (td_telemetry d) 0)
       (follow (export_evidence sv app_id (td_telemetry d) 0)
         (if sv_fails sv ''captures_for_app'' then abort else export_captures sv d (captures_for_app app_id d)))))"

definition get_export :: "env \<Rightarrow> AuthCtx \<Rightarrow> headers \<Rightarrow> string \<Rightarrow> stream action" where
  "get_export sv auth hs app_id =
     andthen (tenant_for sv auth hs app_id) (\<lambda>t.
     \<lambda>a. (Ok (export_stream sv t app_id (sv_retention_days sv (t_org_id t)) (app_tenants a (t_store t))), a))"

section \<open>Keyset paging\<close>

text \<open>What a keyset read promises: the next rows in key order after a key. Its client is a loop of pages.\<close>

locale keyset =
  fixes rows :: "'r list" and key :: "'r \<Rightarrow> int" and keep :: "'r \<Rightarrow> bool" and page :: "int \<Rightarrow> nat \<Rightarrow> 'r list"
  assumes page_rows: "page after n = take n (sort_key key (filter (\<lambda>r. keep r \<and> after < key r) rows))"
begin

definition rest :: "int \<Rightarrow> 'r list" where
  "rest after = sort_key key (filter (\<lambda>r. keep r \<and> after < key r) rows)"

lemma page_take: "page after n = take n (rest after)"
  by (simp add: page_rows rest_def)

lemma rest_strict:
  assumes "distinct (map key rows)"
  shows "sorted_wrt (\<lambda>x y. key x < key y) (rest after)"
proof -
  have "distinct (map key (rest after))"
    using assms by (simp add: rest_def distinct_map inj_on_def)
  moreover have "sorted (map key (rest after))" by (simp add: rest_def)
  ultimately have "sorted_wrt (<) (map key (rest after))" by (simp add: strict_sorted_iff)
  then show ?thesis by (simp add: sorted_wrt_map)
qed

lemma rest_later: "after \<le> l \<Longrightarrow> rest l = filter (\<lambda>r. l < key r) (rest after)"
  unfolding rest_def filter_sort filter_filter
  by (rule arg_cong [where f = "sort_key key"], rule filter_cong [OF refl]) auto

text \<open>After a full page, what remains to be read is the rest of the list.\<close>

lemma rest_page:
  assumes "distinct (map key rows)" "page after n \<noteq> []"
  shows "rest (key (last (page after n))) = drop n (rest after)"
proof -
  define xs where "xs = rest after"
  let ?p = "take n xs" and ?q = "drop n xs"
  have ne: "?p \<noteq> []" using assms(2) by (simp add: page_take xs_def)
  have w: "sorted_wrt (\<lambda>x y. key x < key y) (?p @ ?q)" using rest_strict [OF assms(1)] by (simp add: xs_def)
  have last: "last ?p \<in> set ?p" using ne by simp
  have "filter (\<lambda>r. key (last ?p) < key r) ?p = []"
  proof -
    have "sorted_wrt (\<lambda>x y. key x < key y) (butlast ?p @ [last ?p])" using w ne by (simp add: sorted_wrt_append)
    then have "\<forall>x \<in> set (butlast ?p). key x < key (last ?p)" by (simp add: sorted_wrt_append)
    then have "\<forall>x \<in> set ?p. key x \<le> key (last ?p)"
      using ne by (metis append_butlast_last_id less_imp_le order_refl set_ConsD set_append Un_iff set_empty2 empty_iff list.set(1))
    then show ?thesis by (auto simp: filter_empty_conv not_less)
  qed
  moreover have "filter (\<lambda>r. key (last ?p) < key r) ?q = ?q"
    using w [unfolded sorted_wrt_append] last unfolding filter_id_conv by blast
  moreover have "after \<le> key (last ?p)"
    using last by (auto simp: xs_def rest_def dest: in_set_takeD)
  ultimately show ?thesis
    using rest_later [of after "key (last ?p)"] filter_append [of _ ?p ?q] by (simp add: page_take xs_def)
qed

end

interpretation err_pages: keyset "errors db" el_id "retained sv app_id days"
    "\<lambda>after n. export_errors_page (sv_now sv) app_id days after n db" for db sv app_id days
  by unfold_locales (rule errors_page)

interpretation ev_pages: keyset "evidence db" ew_id "\<lambda>r. ew_app_id r = app_id"
    "\<lambda>after n. export_evidence_page app_id after n db" for db app_id
  by unfold_locales (rule evidence_page)

section \<open>What a stream delivers\<close>

text \<open>A stream delivers \<open>xs\<close> when it is a prefix of it, and all of it unless it is aborted.\<close>

definition delivers :: "stream \<Rightarrow> json list \<Rightarrow> bool" where
  "delivers s xs \<longleftrightarrow> prefix (fst s) xs \<and> (snd s \<or> fst s = xs)"

lemma delivers_lines: "delivers (lines xs) xs"
  by (simp add: delivers_def lines_def)

lemma delivers_abort: "delivers abort xs"
  by (simp add: delivers_def abort_def)

lemma delivers_read: "delivers s xs \<Longrightarrow> delivers (if failed then abort else s) xs"
  by (simp add: delivers_abort)

lemma delivers_follow: "delivers s xs \<Longrightarrow> delivers s' ys \<Longrightarrow> delivers (follow s s') (xs @ ys)"
  by (auto simp: delivers_def follow_def)

lemma delivers_page: "delivers s (map f (drop n xs)) \<Longrightarrow> delivers (follow (lines (map f (take n xs))) s) (map f xs)"
  using delivers_follow [OF delivers_lines, of s "map f (drop n xs)" "map f (take n xs)"]
  by (simp flip: map_append)

text \<open>A page that is not full is the last one.\<close>

lemma short_page: "length (take n xs) < n \<Longrightarrow> take n xs = xs"
  by auto

lemma export_errors_delivers:
  assumes "distinct (map el_id (errors db))"
  shows "delivers (export_errors sv app_id days db after) (map (error_line sv) (err_pages.rest db sv app_id days after))"
  using assms
proof (induction sv app_id days db after rule: export_errors.induct)
  case (1 sv app_id days db after)
  let ?page = "export_errors_page (sv_now sv) app_id days after EXPORT_PAGE db"
  have page: "?page = take EXPORT_PAGE (err_pages.rest db sv app_id days after)" by (rule err_pages.page_take)
  have n: "0 < EXPORT_PAGE" by (simp add: EXPORT_PAGE_def)
  have more: "delivers (export_errors sv app_id days db (el_id (last ?page)))
      (map (error_line sv) (drop EXPORT_PAGE (err_pages.rest db sv app_id days after)))"
    if "\<not> page_lost sv ''export_errors_page'' after" "?page \<noteq> []" "\<not> length ?page < EXPORT_PAGE"
    using 1(1) [OF refl that 1(2)] err_pages.rest_page [OF 1(2) that(2)] by simp
  show ?case
    using more n short_page [of EXPORT_PAGE "err_pages.rest db sv app_id days after"]
    by (subst export_errors.simps)
      (auto simp: Let_def page delivers_abort delivers_lines delivers_page simp del: length_take)
qed

lemma export_evidence_delivers:
  assumes "distinct (map ew_id (evidence db))"
  shows "delivers (export_evidence sv app_id db after) (map (evidence_line sv) (ev_pages.rest db app_id after))"
  using assms
proof (induction sv app_id db after rule: export_evidence.induct)
  case (1 sv app_id db after)
  let ?page = "export_evidence_page app_id after EXPORT_PAGE db"
  have page: "?page = take EXPORT_PAGE (ev_pages.rest db app_id after)" by (rule ev_pages.page_take)
  have n: "0 < EXPORT_PAGE" by (simp add: EXPORT_PAGE_def)
  have more: "delivers (export_evidence sv app_id db (ew_id (last ?page)))
      (map (evidence_line sv) (drop EXPORT_PAGE (ev_pages.rest db app_id after)))"
    if "\<not> page_lost sv ''export_evidence_page'' after" "?page \<noteq> []" "\<not> length ?page < EXPORT_PAGE"
    using 1(1) [OF refl that 1(2)] ev_pages.rest_page [OF 1(2) that(2)] by simp
  show ?case
    using more n short_page [of EXPORT_PAGE "ev_pages.rest db app_id after"]
    by (subst export_evidence.simps)
      (auto simp: Let_def page delivers_abort delivers_lines delivers_page simp del: length_take)
qed

lemma export_captures_delivers: "delivers (export_captures sv d cs) (map (capture_line sv d) cs)"
proof (induction cs)
  case (Cons c cs)
  then show ?case using delivers_follow [OF delivers_lines Cons, of "[capture_line sv d c]"]
    by (simp add: delivers_abort)
qed (simp add: delivers_lines)

text \<open>The lines of a complete export.\<close>

definition whole_export :: "env \<Rightarrow> Tenant \<Rightarrow> string \<Rightarrow> int option \<Rightarrow> tenant_data \<Rightarrow> json list" where
  "whole_export sv t app_id days d = head_line sv t app_id days
     # map (triage_line sv) (sort_key fst (triage_all_for_app app_id d))
     @ map (error_line sv) (sort_key el_id (filter (retained sv app_id days) (errors (td_telemetry d))))
     @ map (evidence_line sv) (sort_key ew_id (filter (\<lambda>r. ew_app_id r = app_id) (evidence (td_telemetry d))))
     @ map (capture_line sv d) (captures_for_app app_id d)"

text \<open>C21. An export ends and is complete or visibly broken. For any number of rows and any page reads that
  fail, the stream is a prefix of the whole export: the header, the triage of every bucket in order, every
  error row within retention exactly once and oldest first, every artifact key exactly once, and the
  captures. Unless it is aborted it is all of that; so a client never takes a truncated export for a
  finished one.
\<close>
theorem export_delivers:
  assumes "distinct (map el_id (errors (td_telemetry d)))" "\<forall>e \<in> set (errors (td_telemetry d)). 0 < el_id e"
    and "distinct (map ew_id (evidence (td_telemetry d)))" "\<forall>r \<in> set (evidence (td_telemetry d)). 0 < ew_id r"
  shows "delivers (export_stream sv t app_id days d) (whole_export sv t app_id days d)"
proof -
  have e: "err_pages.rest (td_telemetry d) sv app_id days 0 = sort_key el_id (filter (retained sv app_id days) (errors (td_telemetry d)))"
    using assms(2) by (auto simp: err_pages.rest_def intro: arg_cong [where f = "sort_key el_id"] filter_cong)
  have r: "ev_pages.rest (td_telemetry d) app_id 0 = sort_key ew_id (filter (\<lambda>r. ew_app_id r = app_id) (evidence (td_telemetry d)))"
    using assms(4) by (auto simp: ev_pages.rest_def intro: arg_cong [where f = "sort_key ew_id"] filter_cong)
  have "whole_export sv t app_id days d = [head_line sv t app_id days]
     @ map (triage_line sv) (sort_key fst (triage_all_for_app app_id d))
     @ map (error_line sv) (err_pages.rest (td_telemetry d) sv app_id days 0)
     @ map (evidence_line sv) (ev_pages.rest (td_telemetry d) app_id 0) @ map (capture_line sv d) (captures_for_app app_id d)"
    by (simp add: whole_export_def e r)
  then show ?thesis
    unfolding export_stream_def
    by (simp only:) (intro delivers_follow delivers_read delivers_lines export_errors_delivers export_evidence_delivers
        export_captures_delivers assms)
qed

definition sample_export_data :: tenant_data where
  "sample_export_data = sample_tenant\<lparr>td_telemetry := sample_telemetry\<rparr>"

theorem export_delivers_witness:
  "delivers (export_stream sample_env \<lparr>t_org_id = 1, t_store = ''s'', t_blob_scope = ''t/1''\<rparr> ''app'' None sample_export_data)
     (whole_export sample_env \<lparr>t_org_id = 1, t_store = ''s'', t_blob_scope = ''t/1''\<rparr> ''app'' None sample_export_data)
   \<and> length (errors (td_telemetry sample_export_data)) = 2"
proof -
  have tel: "td_telemetry sample_export_data = sample_telemetry" by (simp add: sample_export_data_def)
  have ev: "evidence sample_telemetry = []" by code_simp
  obtain e e' where "errors sample_telemetry = [e, e']" "el_id e = 1" "el_id e' = 2" by (rule sample_error_rows) blast
  then show ?thesis
    using export_delivers [of sample_export_data sample_env _ "''app''" None] by (simp add: tel ev)
qed

end
