(* ===== verification/Bucket_API.thy ===== *)
theory Bucket_API
  imports Replay Export
begin

text \<open>
  The bucket list, the replay package and the ticket of a bucket (\<open>src/ingest/bucket_api.rs\<close>), with the
  batched reads of \<open>src/db/tenant/telemetry.rs\<close> the list is built from.
\<close>

section \<open>Batched reads\<close>

definition counts_of :: "(string \<times> string \<times> int) list \<Rightarrow> ContextCounts" where
  "counts_of rows = foldl (\<lambda>m (k, v, n).
     bt_insert k (bt_insert v (nat (max 0 n)) (case map_of m k of Some vs \<Rightarrow> vs | None \<Rightarrow> [])) m) [] rows"

definition app_counts :: "string \<Rightarrow> telemetry_db \<Rightarrow> ContextCounts" where
  "app_counts app_id db =
     counts_of (map (\<lambda>((_, k, v), n). (k, v, n)) (filter (\<lambda>((a, _, _), _). a = app_id) (app_context_counts db)))"

definition bucket_counts :: "string \<Rightarrow> string \<Rightarrow> telemetry_db \<Rightarrow> ContextCounts" where
  "bucket_counts app_id b db =
     counts_of (map (\<lambda>((_, _, k, v), n). (k, v, n))
       (filter (\<lambda>((a, b', _, _), _). a = app_id \<and> b' = b) (bucket_context_counts db)))"

definition context_count_maps :: "string \<Rightarrow> telemetry_db \<Rightarrow> ContextCounts \<times> (string \<Rightarrow> ContextCounts)" where
  "context_count_maps app_id db = (app_counts app_id db, \<lambda>b. bucket_counts app_id b db)"

definition replay_results_by_bucket :: "string \<Rightarrow> telemetry_db \<Rightarrow> string \<Rightarrow> ReplayResult list" where
  "replay_results_by_bucket app_id db b =
     map rr_result (filter (\<lambda>r. rr_bucket_id r = b)
       (sort_key (\<lambda>r. (rr_bucket_id r, - rr_id r)) (filter (\<lambda>r. rr_app_id r = app_id) (replay_results db))))"

section \<open>The bucket list\<close>

text \<open>What the list reads before its loop.\<close>

record list_reads =
  lr_rollups :: "BucketRollup list"
  lr_baseline_n :: nat
  lr_baseline_counts :: ContextCounts
  lr_counts :: "string \<Rightarrow> ContextCounts"
  lr_windows :: "string \<Rightarrow> (string \<times> string option \<times> int) list"
  lr_results :: "string \<Rightarrow> ReplayResult list"
  lr_triage :: "(string \<times> triage_row) list"
  lr_traffic :: "(string \<times> int \<times> string) list"

definition weighted_builds :: "list_reads \<Rightarrow> (Occurrence \<times> 64 word) list" where
  "weighted_builds lr = map (\<lambda>(build, n, ts). (\<lparr>occ_at = ts, occ_build = Some build\<rparr>, word_of_int n)) (lr_traffic lr)"

definition thresholds :: "env \<Rightarrow> Thresholds" where
  "thresholds sv = thresholds_configured (sv_vars sv ''REPROIT_RESOLVE_QUIET_SECS'') (sv_vars sv ''REPROIT_MIN_POST_FIX_TRAFFIC'')"

definition now_text :: "env \<Rightarrow> string" where "now_text sv = sv_rfc3339 sv (sv_now sv)"

definition fixed_of :: "list_reads \<Rightarrow> string \<Rightarrow> string option" where
  "fixed_of lr b = Option.bind (map_of (lr_triage lr) b) tr_fixed_in_build"

definition list_outcome :: "env \<Rightarrow> view_lib \<Rightarrow> list_reads \<Rightarrow> string \<Rightarrow> Outcome" where
  "list_outcome sv vl lr b =
     evaluate (vl_epoch vl) (vl_epoch_text vl) (map (\<lambda>(ts, build, _). \<lparr>occ_at = ts, occ_build = build\<rparr>) (lr_windows lr b))
       (first_seen_by_build (vl_epoch vl) (map fst (weighted_builds lr))) (fixed_of lr b)
       (case fixed_of lr b of Some f \<Rightarrow> post_fix_build_traffic (vl_epoch vl) (weighted_builds lr) f | None \<Rightarrow> 0)
       (now_text sv) (thresholds sv)"

definition outcome_json :: "Outcome \<Rightarrow> json" where
  "outcome_json oc = JObj [(''fixedInBuild'', jopt JStr (out_fixed_in_build oc)),
     (''lastSeenOnFixedBuild'', jopt JStr (out_last_seen_on_fixed_build oc)),
     (''postFixOccurrences'', jnat (out_post_fix_occurrences oc)), (''status'', JStr (resolution_as_str (out_status oc)))]"

definition DEFAULT_TIMELINE_WINDOW_SECS :: int where "DEFAULT_TIMELINE_WINDOW_SECS = 3600"

definition bucket_signals :: "env \<Rightarrow> view_lib \<Rightarrow> list_reads \<Rightarrow> BucketRollup \<Rightarrow> BucketSignals" where
  "bucket_signals sv vl lr r =
     \<lparr>sg_oracle = Option.bind (map_of (er_context (br_newest r)) ''oracle'') as_str, sg_count = word_of_int (br_count r),
      sg_timeline = timeline_weighted (vl_epoch vl) (vl_epoch_text vl)
        (map (\<lambda>(ts, build, n). (ts, build, word_of_int n)) (lr_windows lr (br_bucket_id r))) DEFAULT_TIMELINE_WINDOW_SECS,
      sg_last_seen = Some (br_last_seen r),
      sg_action = \<lparr>is_new = map_of (lr_triage lr) (br_bucket_id r) = None,
        is_regressed = out_status (list_outcome sv vl lr (br_bucket_id r)) = Regressed\<rparr>\<rparr>"

definition bucket_impact :: "env \<Rightarrow> view_lib \<Rightarrow> list_reads \<Rightarrow> BucketRollup \<Rightarrow> Impact" where
  "bucket_impact sv vl lr r =
     impact_score (vl_oracles vl) (vl_libm vl) (vl_epoch vl) (vl_float vl) (bucket_signals sv vl lr r) (now_text sv)"

text \<open>The shortest replay of the two endpoints that has any step.\<close>

definition replay_len :: "ErrorRec \<Rightarrow> ErrorRec \<Rightarrow> nat" where
  "replay_len newest oldest =
     (case filter (\<lambda>n. 0 < n) (map (\<lambda>r. length (replay_actions r)) [newest, oldest]) of [] \<Rightarrow> 0 | n # ns \<Rightarrow> foldl min n ns)"

definition start_sig :: "ErrorRec \<Rightarrow> json" where
  "start_sig r = (case er_path r of [] \<Rightarrow> JNull | s # _ \<Rightarrow> JStr (st_sig s))"

definition build_json :: "(string \<times> string) list \<Rightarrow> json" where
  "build_json side = JObj (map (\<lambda>(k, v). (k, JStr v)) side)"

definition lineage_json :: "ErrorRec \<Rightarrow> ErrorRec \<Rightarrow> json" where
  "lineage_json oldest newest = (case lineage oldest newest of (first, last') \<Rightarrow>
     JObj [(''firstSeen'', build_json first), (''lastSeen'', build_json last')])"

definition identity_json :: "env \<Rightarrow> ErrorRec \<Rightarrow> json" where
  "identity_json sv r = jopt (value_of_identity (sv_lib sv)) (finding_identity (sv_lib sv) r)"

definition unconfirmed :: "list_reads \<Rightarrow> BucketRollup \<Rightarrow> bool" where
  "unconfirmed lr r \<longleftrightarrow> is_tester_capture (br_newest r) \<and> \<not> tester_capture_confirmed (lr_results lr (br_bucket_id r))"

definition list_triage_json :: "env \<Rightarrow> triage_row option \<Rightarrow> json" where
  "list_triage_json sv t = (case t of
       Some t \<Rightarrow> JObj [(''fixedInBuild'', jopt JStr (tr_fixed_in_build t)), (''status'', JStr (tr_status t)),
                   (''updatedAt'', JStr (sv_rfc3339 sv (tr_updated_at t)))]
     | None \<Rightarrow> JObj [(''fixedInBuild'', JNull), (''status'', JStr ''untriaged''), (''updatedAt'', JNull)])"

definition bucket_item :: "env \<Rightarrow> view_lib \<Rightarrow> list_reads \<Rightarrow> BucketRollup \<Rightarrow> json" where
  "bucket_item sv vl lr r =
     (let b = br_bucket_id r; oldest = br_oldest r; newest = br_newest r; results = lr_results lr b;
          scored = bucket_impact sv vl lr r
      in JObj [
        (''bucketId'', JStr b), (''bugId'', JStr (bug_id (sv_lib sv) newest)),
        (''capture'', if is_tester_capture newest then JObj [(''source'', JStr ''tester''),
           (''status'', JStr (if tester_capture_confirmed results then ''confirmed'' else ''pending''))] else JNull),
        (''count'', jint (br_count r)), (''crashSig'', JStr (er_sig newest)),
        (''discriminators'', JArr (discriminators_from_counts (vl_float vl) (nat (br_count r)) (lr_counts lr b)
           (lr_baseline_n lr) (lr_baseline_counts lr))),
        (''findingIdentity'', identity_json sv newest),
        (''impact'', JObj [(''score'', JNum (Float (vl_float vl (im_score scored)))),
           (''severity'', JStr (severity_as_str (im_severity scored))), (''why'', im_why scored)]),
        (''lineage'', lineage_json oldest newest), (''message'', JStr (er_message newest)),
        (''replayLen'', jnat (replay_len newest oldest)), (''repro'', repro_status vl results),
        (''resolution'', outcome_json (list_outcome sv vl lr b)),
        (''sample'', if list_all (\<lambda>x. sample_kind x = Some NIMBUS_SAMPLE) [oldest, newest] then JStr NIMBUS_SAMPLE else JNull),
        (''startSig'', start_sig newest), (''triage'', list_triage_json sv (map_of (lr_triage lr) b))])"

text \<open>By score, the highest first, then by id.\<close>

type_synonym ranked = "rat \<times> string \<times> json"

definition ranked_item :: "env \<Rightarrow> view_lib \<Rightarrow> list_reads \<Rightarrow> BucketRollup \<Rightarrow> ranked" where
  "ranked_item sv vl lr r = (im_score (bucket_impact sv vl lr r), br_bucket_id r, bucket_item sv vl lr r)"

definition rank :: "ranked list \<Rightarrow> ranked list" where
  "rank xs = sort_key (\<lambda>(score, b, _). (- score, b)) xs"

definition ranked_items :: "env \<Rightarrow> view_lib \<Rightarrow> list_reads \<Rightarrow> ranked list" where
  "ranked_items sv vl lr = rank (map (ranked_item sv vl lr) (filter (\<lambda>r. \<not> unconfirmed lr r) (lr_rollups lr)))"

definition pending_items :: "env \<Rightarrow> view_lib \<Rightarrow> list_reads \<Rightarrow> ranked list" where
  "pending_items sv vl lr = rank (map (ranked_item sv vl lr) (filter (unconfirmed lr) (lr_rollups lr)))"

definition bucket_list_json :: "env \<Rightarrow> view_lib \<Rightarrow> string \<Rightarrow> list_reads \<Rightarrow> json" where
  "bucket_list_json sv vl app_id lr =
     (let items = map (\<lambda>(_, _, v). v) (ranked_items sv vl lr); pending = map (\<lambda>(_, _, v). v) (pending_items sv vl lr)
      in JObj [(''appId'', JStr app_id), (''buckets'', jnat (length items)), (''items'', JArr items),
           (''pendingCaptures'', JArr pending)])"

definition read_list :: "env \<Rightarrow> string \<Rightarrow> tenant_data \<Rightarrow> list_reads" where
  "read_list sv app_id d =
     (let db = td_telemetry d; rollups = bucket_rollups (sv_rfc3339 sv) app_id db
      in \<lparr>lr_rollups = rollups, lr_baseline_n = nat (sum_list (map br_count rollups)),
          lr_baseline_counts = fst (context_count_maps app_id db), lr_counts = snd (context_count_maps app_id db),
          lr_windows = (\<lambda>b. bucket_window_counts (sv_rfc3339 sv) app_id b db),
          lr_results = replay_results_by_bucket app_id db, lr_triage = triage_all_for_app app_id d,
          lr_traffic = build_traffic (sv_rfc3339 sv) app_id db\<rparr>)"

definition bucket_list_for_tenant :: "env \<Rightarrow> view_lib \<Rightarrow> Tenant \<Rightarrow> string \<Rightarrow> json option action" where
  "bucket_list_for_tenant sv vl t app_id a =
     (Ok (if list_ex (sv_fails sv) [''bucket_rollups'', ''context_count_maps'', ''bucket_window_counts'',
            ''replay_results_by_bucket'', ''triage_all_for_app'', ''build_traffic''] then None
          else Some (bucket_list_json sv vl app_id (read_list sv app_id (app_tenants a (t_store t))))), a)"

definition get_buckets :: "env \<Rightarrow> view_lib \<Rightarrow> AuthCtx \<Rightarrow> headers \<Rightarrow> string \<Rightarrow> response action" where
  "get_buckets sv vl auth hs app_id =
     andthen (tenant_for sv auth hs app_id) (\<lambda>t.
     andthen (bucket_list_for_tenant sv vl t app_id) (\<lambda>r.
     andthen (need r server_error) (\<lambda>v. done_with (reply 200 v))))"

end
