(* ===== verification/Context_Tables.thy ===== *)
theory Context_Tables
  imports Bucket_API Telemetry_Steps
begin

text \<open>
  The counter tables of contexts and the analysis that reads them: the maps the bucket list gets from the
  telemetry store are those that counting over the occurrences themselves would give, so the ranked list
  and the detail view, which counts rows, report the same discriminators.
\<close>

section \<open>Ordered maps are determined by their lookups\<close>

lemma bt_eqI:
  assumes "bt_ok m" "bt_ok m'" "map_of m = map_of m'"
  shows "m = m'"
proof -
  have "fst ` set m = fst ` set m'" using arg_cong [OF assms(3), of dom] by (simp add: dom_map_of_conv_image_fst)
  then have keys: "map fst m = map fst m'"
    using assms(1,2) by (intro sorted_distinct_set_unique) (auto simp: bt_ok_def)
  have "map snd m = map (\<lambda>k. the (map_of m k)) (map fst m)" if "bt_ok m" for m :: "('a \<times> 'b) list"
    using that by (auto simp: bt_ok_def)
  then have "map snd m = map snd m'" using keys assms by metis
  with keys show ?thesis by (metis zip_map_fst_snd)
qed

section \<open>Reading a table\<close>

definition inner :: "ContextCounts \<Rightarrow> string \<Rightarrow> ValueCounts" where
  "inner m k = (case map_of m k of Some vs \<Rightarrow> vs | None \<Rightarrow> [])"

definition table_counts :: "((string \<times> string) \<times> int) list \<Rightarrow> ContextCounts" where
  "table_counts t = counts_of (map (\<lambda>((k, v), n). (k, v, n)) t)"

lemma table_counts_snoc:
  "table_counts (t @ [((k, v), n)]) = bt_insert k (bt_insert v (nat (max 0 n)) (inner (table_counts t) k)) (table_counts t)"
  by (simp add: table_counts_def counts_of_def inner_def)

definition nested_ok :: "ContextCounts \<Rightarrow> bool" where
  "nested_ok m \<longleftrightarrow> bt_ok m \<and> (\<forall>k vs. map_of m k = Some vs \<longrightarrow> bt_ok vs)"

lemma inner_ok: "nested_ok m \<Longrightarrow> bt_ok (inner m k)"
  by (auto simp: inner_def nested_ok_def split: option.split)

lemma nested_ok_table: "nested_ok (table_counts t)"
proof (induction t rule: rev_induct)
  case Nil
  then show ?case by (simp add: table_counts_def counts_of_def nested_ok_def)
next
  case (snoc r t)
  obtain k v n where r: "r = ((k, v), n)" by (metis prod.exhaust)
  have "bt_ok (inner (table_counts t) k)" by (rule inner_ok [OF snoc])
  with snoc show ?case by (auto simp: r table_counts_snoc nested_ok_def split: if_splits)
qed

lemma table_counts_keys: "fst ` set (table_counts t) = (fst \<circ> fst) ` set t"
proof (induction t rule: rev_induct)
  case Nil
  then show ?case by (simp add: table_counts_def counts_of_def)
next
  case (snoc r t)
  obtain k v n where r: "r = ((k, v), n)" by (metis prod.exhaust)
  show ?case using snoc by (simp add: r table_counts_snoc)
qed

lemma map_of_snoc_new: "x \<notin> fst ` set t \<Longrightarrow> map_of (t @ [(x, n)]) = (map_of t)(x \<mapsto> n)"
  by (simp add: fun_eq_iff map_add_def map_of_eq_None_iff [THEN iffD2] split: option.split)

lemma table_counts_lookup:
  assumes "distinct (map fst t)"
  shows "map_of (inner (table_counts t) k) v = map_option (\<lambda>n. nat (max 0 n)) (map_of t (k, v))"
  using assms
proof (induction t arbitrary: k v rule: rev_induct)
  case Nil
  then show ?case by (simp add: table_counts_def counts_of_def inner_def)
next
  case (snoc r t)
  obtain k' v' n where r: "r = ((k', v'), n)" by (metis prod.exhaust)
  have ok: "bt_ok (table_counts t)" "bt_ok (inner (table_counts t) k)" for k
    using nested_ok_table inner_ok by (auto simp: nested_ok_def)
  have "inner (table_counts (t @ [r])) k = (if k = k' then bt_insert v' (nat (max 0 n)) (inner (table_counts t) k') else inner (table_counts t) k)"
    using ok(1) by (simp add: r table_counts_snoc inner_def)
  moreover have "map_of (t @ [r]) = (map_of t)((k', v') \<mapsto> n)"
    using snoc.prems unfolding r by (intro map_of_snoc_new) auto
  ultimately show ?case using snoc ok(2) by auto
qed

section \<open>Counting rows\<close>

lemma nested_eqI:
  assumes "nested_ok m" "nested_ok m'" "fst ` set m = fst ` set m'" "\<And>k v. map_of (inner m k) v = map_of (inner m' k) v"
  shows "m = m'"
proof (rule bt_eqI)
  show "map_of m = map_of m'"
  proof
    fix k
    have "map_of m k = None \<longleftrightarrow> map_of m' k = None" using assms(3) by (simp add: map_of_eq_None_iff)
    moreover have "inner m k = inner m' k" using inner_ok assms by (intro bt_eqI) (auto simp: fun_eq_iff)
    ultimately show "map_of m k = map_of m' k" by (auto simp: inner_def split: option.splits)
  qed
qed (use assms in \<open>simp_all add: nested_ok_def\<close>)

lemma context_counts_lookup: "map_of (context_counts rows) key =
    (if \<exists>r \<in> set rows. key \<in> fst ` set (dimension_values r)
     then Some (count_values (List.map_filter (\<lambda>r. map_of (dimension_values r) key) rows)) else None)"
  by (auto simp: context_counts_def map_of_map_restrict restrict_map_def)

lemma nested_ok_context: "nested_ok (context_counts rows)"
proof -
  have "map fst (context_counts rows) = sort_dedup (concat (map (\<lambda>r. map fst (dimension_values r)) rows))"
    by (simp add: context_counts_def o_def)
  then have "bt_ok (context_counts rows)"
    using strictly_sorted_sort_dedup strictly_sorted_iff unfolding bt_ok_def by metis
  then show ?thesis by (auto simp: nested_ok_def context_counts_lookup count_values_spec split: if_splits)
qed

lemma context_counts_keys: "fst ` set (context_counts rows) = (\<Union>r \<in> set rows. fst ` set (dimension_values r))"
  by (force simp: context_counts_def)

text \<open>The number of rows with a value, as the histogram of the pairs counts them.\<close>

definition pair_count :: "context_map list \<Rightarrow> string \<times> string \<Rightarrow> nat" where
  "pair_count rows p = sum_list (map (\<lambda>r. count_list (dimension_values r) p) rows)"

lemma count_pair: "distinct (map fst m) \<Longrightarrow> count_list m (k, v) = (if map_of m k = Some v then 1 else 0)"
  by (induction m) (force dest: map_of_SomeD)+

lemma pair_count_lookup:
  assumes "\<forall>r \<in> set rows. distinct (map fst (dimension_values r))"
  shows "count_list (List.map_filter (\<lambda>r. map_of (dimension_values r) k) rows) v = pair_count rows (k, v)"
  using assms by (induction rows) (auto simp: pair_count_def map_filter_simps count_pair split: option.split)

lemma context_counts_inner:
  assumes "\<forall>r \<in> set rows. distinct (map fst (dimension_values r))"
  shows "map_of (inner (context_counts rows) k) v = (if pair_count rows (k, v) = 0 then None else Some (pair_count rows (k, v)))"
proof (cases "\<exists>r \<in> set rows. k \<in> fst ` set (dimension_values r)")
  case True
  let ?vs = "List.map_filter (\<lambda>r. map_of (dimension_values r) k) rows"
  have "v \<in> set ?vs \<longleftrightarrow> count_list ?vs v \<noteq> 0" by (simp add: count_list_0_iff)
  with True show ?thesis
    by (simp add: inner_def context_counts_lookup count_values_spec pair_count_lookup [OF assms])
next
  case False
  then have "List.map_filter (\<lambda>r. map_of (dimension_values r) k) rows = []"
    by (induction rows) (auto simp: map_filter_simps map_of_eq_None_iff [THEN iffD2])
  with False show ?thesis using pair_count_lookup [OF assms, of k v] by (auto simp: inner_def context_counts_lookup)
qed

text \<open>A table that tallies the rows reads as the counts over the rows.\<close>

lemma table_counts_rows:
  assumes "tally t f" "\<And>p. f p = pair_count rows p" "\<forall>r \<in> set rows. distinct (map fst (dimension_values r))"
  shows "table_counts t = context_counts rows"
proof (rule nested_eqI [OF nested_ok_table nested_ok_context])
  have t: "distinct (map fst t)" "\<And>p. map_of t p = (if pair_count rows p = 0 then None else Some (int (pair_count rows p)))"
    using assms(1) by (simp add: tally_def) (use assms(1) in \<open>simp only: tally_def assms(2)\<close>)
  have pos: "(k, v) \<in> fst ` set t \<longleftrightarrow> (\<exists>r \<in> set rows. (k, v) \<in> set (dimension_values r))" for k v
  proof -
    have "(k, v) \<in> fst ` set t \<longleftrightarrow> pair_count rows (k, v) \<noteq> 0"
      using t(2) [of "(k, v)"] by (metis map_of_eq_None_iff option.simps(3))
    then show ?thesis by (simp add: pair_count_def count_list_0_iff)
  qed
  show "fst ` set (table_counts t) = fst ` set (context_counts rows)"
  proof -
    have "fst ` set t = (\<Union>r \<in> set rows. set (dimension_values r))" 
    proof (rule set_eqI)
      fix p show "p \<in> fst ` set t \<longleftrightarrow> p \<in> (\<Union>r \<in> set rows. set (dimension_values r))"
        by (cases p) (simp only: pos UN_iff)
    qed
    then show ?thesis by (simp only: table_counts_keys context_counts_keys image_comp [symmetric] image_UN)
  qed
  show "map_of (inner (table_counts t) k) v = map_of (inner (context_counts rows) k) v" for k v
    by (simp add: table_counts_lookup t context_counts_inner [OF assms(3)])
qed

section \<open>The maps of the store\<close>

lemma dimension_values_Cons:
  "dimension_values ((k, v) # m) =
     (if safe_cohort_key k then (case cohort_value k v of Some w \<Rightarrow> [(k, w)] | None \<Rightarrow> []) else []) @ dimension_values m"
  by (simp add: dimension_values_def map_filter_simps split: option.split)

lemma dimension_values_keys: "k \<in> fst ` set (dimension_values m) \<Longrightarrow> k \<in> fst ` set m"
  by (force simp: dimension_values_def set_map_filter split: if_splits option.splits)

lemma dimension_values_distinct: "distinct (map fst m) \<Longrightarrow> distinct (map fst (dimension_values m))"
  by (induction m rule: list.induct)
    (simp_all add: dimension_values_def map_filter_simps, use dimension_values_keys [unfolded dimension_values_def] in \<open>force split: option.splits\<close>)

definition row_contexts :: "error_row list \<Rightarrow> context_map list" where
  "row_contexts es = map (\<lambda>e. er_context (el_rec e)) es"

definition app_rows :: "string \<Rightarrow> telemetry_db \<Rightarrow> error_row list" where
  "app_rows a db = filter (\<lambda>e. el_app_id e = a) (errors db)"

text \<open>The rows of a table under a fixed first column.\<close>

definition rows_under :: "'a \<Rightarrow> ('a \<times> 'b) counter \<Rightarrow> 'b counter" where
  "rows_under a t = map (\<lambda>((_, k), n). (k, n)) (filter (\<lambda>((a', _), _). a' = a) t)"

lemma rows_under_Cons: "rows_under a (((a', k), n) # t) = (if a' = a then (k, n) # rows_under a t else rows_under a t)"
  by (simp add: rows_under_def)

lemma rows_under_lookup: "map_of (rows_under a t) k = map_of t (a, k)"
proof (induction t)
  case (Cons r t)
  obtain a' k' n where "r = ((a', k'), n)" by (metis prod.exhaust)
  with Cons show ?case by (simp add: rows_under_Cons)
qed (simp add: rows_under_def)

lemma rows_under_keys: "k \<in> fst ` set (rows_under a t) \<longleftrightarrow> (a, k) \<in> fst ` set t"
  by (force simp: rows_under_def)

lemma tally_rows_under:
  assumes "tally t f"
  shows "tally (rows_under a t) (\<lambda>k. f (a, k))"
proof -
  have "distinct (map fst t) \<Longrightarrow> distinct (map fst (rows_under a t))"
  proof (induction t)
    case (Cons r t)
    obtain a' k n where r: "r = ((a', k), n)" by (metis prod.exhaust)
    show ?case using Cons rows_under_keys [of k a t] by (auto simp: r rows_under_Cons)
  qed (simp add: rows_under_def)
  with assms show ?thesis by (simp add: tally_def rows_under_lookup)
qed

lemma count_tagged: "count_list (map (\<lambda>p. (a', p)) ps) (a, p) = (if a' = a then count_list ps p else 0)"
  by (induction ps) auto

lemma pair_count_filter: "pair_count (row_contexts (filter P es)) p
    = sum_list (map (\<lambda>e. if P e then count_list (dimension_values (er_context (el_rec e))) p else 0) es)"
  by (induction es) (simp_all add: pair_count_def row_contexts_def)

lemma app_hist: "hist row_dimensions es (a, p) = pair_count (row_contexts (filter (\<lambda>e. el_app_id e = a) es)) p"
proof -
  have "row_dimensions e = map (\<lambda>p. (el_app_id e, p)) (dimension_values (er_context (el_rec e)))" for e
    by (simp add: row_dimensions_def case_prod_unfold)
  then show ?thesis by (simp add: hist_def pair_count_filter count_tagged)
qed

lemma bucket_hist: "hist bucket_dimensions es (a, b, p) = pair_count (row_contexts (of_bucket (a, b) es)) p"
proof -
  have "bucket_dimensions e = (case el_bucket_id e of None \<Rightarrow> []
      | Some b' \<Rightarrow> map (\<lambda>p. (el_app_id e, p)) (map (\<lambda>p. (b', p)) (dimension_values (er_context (el_rec e)))))" for e
    by (simp add: bucket_dimensions_def case_prod_unfold o_def split: option.split)
  then have "count_list (bucket_dimensions e) (a, b, p)
      = (if error_bucket e = Some (a, b) then count_list (dimension_values (er_context (el_rec e))) p else 0)" for e
    by (auto simp: count_tagged error_bucket_def simp del: map_map split: option.split)
  then show ?thesis by (simp add: hist_def of_bucket_def pair_count_filter)
qed

lemma app_counts_rows_under: "app_counts a db = table_counts (rows_under a (app_context_counts db))"
  unfolding app_counts_def table_counts_def rows_under_def
  by (rule arg_cong [of _ _ counts_of]) (induction "app_context_counts db", auto)

lemma bucket_counts_rows_under: "bucket_counts a b db = table_counts (rows_under b (rows_under a (bucket_context_counts db)))"
proof -
  have "map (\<lambda>((_, _, k, v), n). (k, v, n)) (filter (\<lambda>((a', b', _, _), _). a' = a \<and> b' = b) t)
      = map (\<lambda>((k, v), n). (k, v, n)) (rows_under b (rows_under a t))" for t :: "(string \<times> string \<times> string \<times> string) counter"
    by (induction t) (auto simp: rows_under_def)
  then show ?thesis by (simp add: bucket_counts_def table_counts_def)
qed

lemma keys_distinct:
  assumes "\<And>e. e \<in> set es \<Longrightarrow> distinct (map fst (er_context (el_rec e)))"
  shows "\<forall>r \<in> set (row_contexts es). distinct (map fst (dimension_values r))"
  using assms by (auto simp: row_contexts_def dimension_values_distinct)

text \<open>In every state the telemetry store can reach, the two count maps the ranked list computes its
  discriminators from are the counts over the contexts of the logged occurrences: those of the application
  for the baseline, those of the bucket for the cohort.\<close>

lemma list_counts_exact:
  assumes "trun pg lib (empty_telemetry ps) tr db" "\<And>e. e \<in> set (errors db) \<Longrightarrow> distinct (map fst (er_context (el_rec e)))"
  shows "context_count_maps a db = (context_counts (row_contexts (app_rows a db)),
    \<lambda>b. context_counts (row_contexts (of_bucket (a, b) (errors db))))"
proof -
  have ok: "tally (app_context_counts db) (hist row_dimensions (errors db))"
    "tally (bucket_context_counts db) (hist bucket_dimensions (errors db))"
    using reachable_inv [OF assms(1)] by (simp_all add: store_inv_def rollups_ok_def)
  have "app_counts a db = context_counts (row_contexts (app_rows a db))"
    unfolding app_counts_rows_under
    by (rule table_counts_rows [OF tally_rows_under [OF ok(1)]]) (auto simp: app_hist app_rows_def intro!: keys_distinct assms(2))
  moreover have "bucket_counts a b db = context_counts (row_contexts (of_bucket (a, b) (errors db)))" for b
    unfolding bucket_counts_rows_under
    by (rule table_counts_rows [OF tally_rows_under [OF tally_rows_under [OF ok(2)]]])
      (auto simp: bucket_hist of_bucket_def intro!: keys_distinct assms(2))
  ultimately show ?thesis by (simp add: context_count_maps_def)
qed

text \<open>C39. The ranked list and the detail view report the same discriminators: in every state the telemetry
  store reaches as for the read models, those computed from the two counter tables, whatever deletions their triggers have seen,
  are those computed from the contexts of the rows themselves, for contexts of scalar values under keys
  that may be shown, each key once, with numbers and booleans printed alike on both sides.\<close>

theorem list_discriminators_agree:
  assumes "trun pg lib (empty_telemetry ps) tr db" "\<And>n. jt (JNum n) = show_num n" "\<And>b. jt (JBool b) = show_bool b"
    and "plain_rows (row_contexts (app_rows a db))" "\<And>e. e \<in> set (errors db) \<Longrightarrow> distinct (map fst (er_context (el_rec e)))"
  shows "discriminators_from_counts ft (length (of_bucket (a, b) (errors db))) (snd (context_count_maps a db) b)
      (length (app_rows a db)) (fst (context_count_maps a db))
    = discriminators jt ft (row_contexts (of_bucket (a, b) (errors db))) (row_contexts (app_rows a db))"
proof -
  have "set (of_bucket (a, b) (errors db)) \<subseteq> set (app_rows a db)"
    by (auto simp: of_bucket_def app_rows_def error_bucket_def split: option.splits)
  then have "plain_rows (row_contexts (of_bucket (a, b) (errors db)))"
    using assms(4) by (auto simp: plain_rows_def row_contexts_def list_all_iff)
  then show ?thesis
    using rollup_discriminators_agree [OF assms(2,3) _ assms(4), of "row_contexts (of_bucket (a, b) (errors db))" ft]
    by (simp add: list_counts_exact [OF assms(1,5)] row_contexts_def)
qed

text \<open>A store with one batch of two errors.\<close>

definition plain_error :: "string \<Rightarrow> ErrorRec" where
  "plain_error plan = \<lparr>er_sig = ''S'', er_message = ''x'', er_path = [], er_context = [(''plan'', JStr plan)]\<rparr>"

definition plain_ingest :: "(bool \<times> telemetry_db) option" where
  "plain_ingest = ingest_batch telemetry_lib 5 ''app'' [(''a|tap|b'', 1)] [plain_error ''free'', plain_error ''pro''] [] ''b1'' None
     (empty_telemetry [sample_project])"

definition plain_telemetry :: telemetry_db where "plain_telemetry = snd (the plain_ingest)"

lemma plain_store_run:
  "trun pg telemetry_lib (empty_telemetry [sample_project]) [Accepted ''app'' ''b1'' 5] plain_telemetry"
proof -
  have "map_option fst plain_ingest = Some False" by code_simp
  then have "plain_ingest = Some (False, plain_telemetry)"
    unfolding plain_telemetry_def by (metis (no_types) map_option_eq_Some option.sel prod.collapse)
  then have "tstep pg telemetry_lib (empty_telemetry [sample_project]) (Accepted ''app'' ''b1'' 5) plain_telemetry"
    unfolding plain_ingest_def
    by (rule t_ingest) (simp_all add: empty_telemetry_def plain_error_def plain_value_def string_or_absent_def)
  then show ?thesis by (blast intro: trun_Cons trun_Nil)
qed

theorem list_discriminators_agree_witness:
  "(\<lambda>db. discriminators_from_counts (\<lambda>_. []) (length (of_bucket (''app'', ''bkt_h'') (errors db)))
       (snd (context_count_maps ''app'' db) ''bkt_h'') (length (app_rows ''app'' db)) (fst (context_count_maps ''app'' db))
     = discriminators sample_text (\<lambda>_. []) (row_contexts (of_bucket (''app'', ''bkt_h'') (errors db)))
       (row_contexts (app_rows ''app'' db))) plain_telemetry"
proof -
  let ?db = plain_telemetry
  have "list_all (\<lambda>e. distinct (map fst (er_context (el_rec e)))) (errors ?db)" "plain_rows (row_contexts (app_rows ''app'' ?db))"
    by code_simp+
  then have "distinct (map fst (er_context (el_rec e)))" if "e \<in> set (errors ?db)" for e using that by (simp add: list_all_iff)
  from list_discriminators_agree [OF plain_store_run [where pg = "\<lambda>_. []"] _ _ \<open>plain_rows _\<close> this, of sample_text]
  show ?thesis by (simp add: sample_text_def)
qed

end
