(* ===== verification/Bucket_Laws.thy ===== *)
theory Bucket_Laws
  imports Context_Tables Impact
begin

text \<open>
  The ranked list against the log: it has every bucket once, regressions first; the histories it shows are
  those of the detail view; and its verdict, taken from hourly windows, lags behind that of the detail view
  by at most the hour in which the fix was deployed.
\<close>

section \<open>Ranking\<close>

definition ranks_before :: "ranked \<Rightarrow> ranked \<Rightarrow> bool" where
  "ranks_before x y \<longleftrightarrow> fst y < fst x \<or> fst x = fst y \<and> fst (snd x) < fst (snd y)"

definition ranked_id :: "ranked \<Rightarrow> string" where "ranked_id x = fst (snd x)"

lemma mset_rank [simp]: "mset (rank xs) = mset xs"
  by (simp add: rank_def)

lemma set_rank [simp]: "set (rank xs) = set xs"
  by (simp add: rank_def)

lemma distinct_rank: "distinct (map ranked_id (rank xs)) \<longleftrightarrow> distinct (map ranked_id xs)"
proof -
  have "mset (map ranked_id (rank xs)) = mset (map ranked_id xs)" by simp
  then show ?thesis by (rule mset_eq_imp_distinct_iff)
qed

lemma rank_sorted:
  assumes "distinct (map ranked_id xs)"
  shows "sorted_wrt ranks_before (rank xs)"
proof -
  let ?key = "\<lambda>(score, b, _). (- score, b)" and ?ys = "rank xs"
  have "map ranked_id ?ys = map snd (map ?key ?ys)" by (simp add: ranked_id_def case_prod_unfold o_def)
  then have "distinct (map ?key ?ys)" using assms distinct_rank by (metis distinct_map)
  moreover have "sorted (map ?key ?ys)" by (simp add: rank_def)
  ultimately have "sorted_wrt (<) (map ?key ?ys)" by (simp add: strict_sorted_iff)
  then show ?thesis unfolding sorted_wrt_map
    by (rule sorted_wrt_mono_rel [rotated]) (auto simp: ranks_before_def less_prod_simp)
qed

lemma ranked_ids [simp]: "ranked_id (ranked_item sv vl lr r) = br_bucket_id r"
  by (simp add: ranked_id_def ranked_item_def)

lemma list_split:
  "mset (map ranked_id (ranked_items sv vl lr) @ map ranked_id (pending_items sv vl lr)) = mset (map br_bucket_id (lr_rollups lr))"
proof -
  have "image_mset f (filter_mset (\<lambda>r. \<not> P r) M) + image_mset f (filter_mset P M) = image_mset f M" for f P and M :: "BucketRollup multiset"
    by (metis add.commute image_mset_union multiset_partition)
  then show ?thesis by (simp add: ranked_items_def pending_items_def multiset.map_comp o_def)
qed

definition list_regressed :: "env \<Rightarrow> view_lib \<Rightarrow> list_reads \<Rightarrow> string \<Rightarrow> bool" where
  "list_regressed sv vl lr b \<longleftrightarrow> out_status (list_outcome sv vl lr b) = Regressed"

lemma regressed_first:
  assumes "libm_ok (vl_libm vl)" "sorted_wrt ranks_before xs" "set xs \<subseteq> range (ranked_item sv vl lr)"
  shows "sorted_wrt (\<lambda>x y. list_regressed sv vl lr (ranked_id y) \<longrightarrow> list_regressed sv vl lr (ranked_id x)) xs"
  using assms(2)
proof (rule sorted_wrt_mono_rel [rotated])
  fix x y assume "x \<in> set xs" "y \<in> set xs" and before: "ranks_before x y"
  then obtain r s where r: "x = ranked_item sv vl lr r" and s: "y = ranked_item sv vl lr s" using assms(3) by blast
  have act: "is_regressed (sg_action (bucket_signals sv vl lr q)) \<longleftrightarrow> list_regressed sv vl lr (br_bucket_id q)" for q
    by (simp add: bucket_signals_def list_regressed_def)
  have le: "fst y \<le> fst x" using before by (auto simp: ranks_before_def)
  have score: "fst (ranked_item sv vl lr q) = im_score (impact_score (vl_oracles vl) (vl_libm vl) (vl_epoch vl) (vl_float vl)
      (bucket_signals sv vl lr q) (now_text sv))" for q
    by (simp add: ranked_item_def bucket_impact_def)
  show "list_regressed sv vl lr (ranked_id y) \<longrightarrow> list_regressed sv vl lr (ranked_id x)"
  proof (rule ccontr)
    assume "\<not> ?thesis"
    then have "132 \<le> fst y" "fst x \<le> 127"
      using score_margin [OF assms(1)] act [of r] act [of s] unfolding r s score by simp_all
    with le show False by simp
  qed
qed

text \<open>C16. The bucket list of an application is complete and its order is settled. In every state the telemetry
  store can reach, each bucket of the application that has an occurrence is in it exactly once, either
  ranked or among the unconfirmed reports of testers; the ranked ones stand by score, the highest first,
  and then by id, so the order does not depend on the order of the rows; and no bucket without a regression
  stands before one with a regression, whatever its severity and its traffic.
\<close>

theorem ranked_list_complete:
  assumes "trun pg lib (empty_telemetry ps) tr (td_telemetry d)" "libm_ok (vl_libm vl)"
  shows "(\<lambda>lr. distinct (map ranked_id (ranked_items sv vl lr) @ map ranked_id (pending_items sv vl lr))
      \<and> set (map ranked_id (ranked_items sv vl lr) @ map ranked_id (pending_items sv vl lr))
          = {b. of_bucket (a, b) (errors (td_telemetry d)) \<noteq> []}
      \<and> sorted_wrt ranks_before (ranked_items sv vl lr)
      \<and> sorted_wrt (\<lambda>x y. list_regressed sv vl lr (ranked_id y) \<longrightarrow> list_regressed sv vl lr (ranked_id x)) (ranked_items sv vl lr))
    (read_list sv a d)"
proof -
  let ?lr = "read_list sv a d"
  have rolls: "lr_rollups ?lr = bucket_rollups (sv_rfc3339 sv) a (td_telemetry d)" by (simp add: read_list_def Let_def)
  note log = bucket_rollups_from_log [OF assms(1), of "sv_rfc3339 sv" a]
  have ids: "br_bucket_id ` set (lr_rollups ?lr) = {b. of_bucket (a, b) (errors (td_telemetry d)) \<noteq> []}"
    using log by (simp add: rolls image_image rollup_view_def Let_def)
  have dist: "distinct (map br_bucket_id (lr_rollups ?lr))" using log by (simp add: rolls)
  note split = list_split [of sv vl ?lr]
  have all: "distinct (map ranked_id (ranked_items sv vl ?lr) @ map ranked_id (pending_items sv vl ?lr))"
    using mset_eq_imp_distinct_iff [OF split] dist by simp
  have "distinct (map ranked_id (ranked_items sv vl ?lr))" using all by simp
  then have sorted: "sorted_wrt ranks_before (ranked_items sv vl ?lr)"
    unfolding ranked_items_def distinct_rank by (rule rank_sorted)
  then have "sorted_wrt (\<lambda>x y. list_regressed sv vl ?lr (ranked_id y) \<longrightarrow> list_regressed sv vl ?lr (ranked_id x)) (ranked_items sv vl ?lr)"
    by (rule regressed_first [OF assms(2)]) (auto simp: ranked_items_def)
  moreover have "set (map ranked_id (ranked_items sv vl ?lr) @ map ranked_id (pending_items sv vl ?lr))
      = {b. of_bucket (a, b) (errors (td_telemetry d)) \<noteq> []}"
    unfolding mset_eq_setD [OF split] set_map by (rule ids)
  ultimately show ?thesis using all sorted by blast
qed

section \<open>Histories\<close>

text \<open>The batched read of all attempts gives each bucket the history the detail view reads.\<close>

lemma histories_agree:
  assumes "distinct (map rr_id (replay_results db))"
  shows "replay_results_by_bucket a db b = replay_results_for a b db"
proof -
  let ?mine = "filter (\<lambda>r. rr_app_id r = a \<and> rr_bucket_id r = b) (replay_results db)"
  let ?g = "\<lambda>r. (rr_bucket_id r, - rr_id r)" and ?all = "filter (\<lambda>r. rr_app_id r = a) (replay_results db)"
  let ?ys = "filter (\<lambda>r. rr_bucket_id r = b) (sort_key ?g ?all)"
  have "sorted_wrt (\<lambda>x y. ?g x \<le> ?g y) ?ys"
    using sorted_sort_key [of ?g ?all] by (intro sorted_wrt_filter) (simp only: sorted_wrt_map)
  then have "sorted_wrt (\<lambda>x y. rr_id y \<le> rr_id x) ?ys"
    by (rule sorted_wrt_mono_rel [rotated]) (auto simp: less_eq_prod_simp)
  then have "sorted (map rr_id (rev ?ys))" by (simp add: sorted_wrt_map sorted_wrt_rev)
  moreover have "mset ?mine = mset (rev ?ys)" by (simp add: mset_filter filter_filter_mset conj_commute)
  moreover have "inj_on rr_id (set ?mine)" using assms by (auto simp: distinct_map intro: inj_on_subset)
  ultimately have "sort_key rr_id ?mine = rev ?ys" by (intro sort_key_inj_key_eq)
  then show ?thesis by (simp add: replay_results_by_bucket_def replay_results_for_def)
qed

section \<open>Verdicts\<close>

lemma regressed_iff:
  "out_status (evaluate pe pr bug fs claimed traffic now th) = Regressed \<longleftrightarrow>
     (\<exists>fixed fe. claimed = Some fixed \<and> map_of fs fixed = Some fe \<and> (\<exists>oc \<in> set bug. recurrence pe fs fixed fe oc))"
proof (cases claimed)
  case (Some fixed)
  show ?thesis
  proof (cases "map_of fs fixed")
    case (Some fe)
    let ?post = "post_fix_epoch pe fs fixed fe"
    have "selected ?post bug = [] \<longleftrightarrow> filter (\<lambda>oc. ?post oc \<noteq> None) bug = []"
      unfolding length_0_conv [symmetric] length_selected ..
    then have "selected ?post bug \<noteq> [] \<longleftrightarrow> (\<exists>oc \<in> set bug. recurrence pe fs fixed fe oc)"
      unfolding recurrence_iff [symmetric] by (simp add: filter_empty_conv)
    then show ?thesis using \<open>claimed = Some fixed\<close> Some by (simp add: evaluate_unfold Let_def)
  qed (simp add: \<open>claimed = Some fixed\<close> evaluate_def)
qed (simp add: evaluate_def)

text \<open>The start of the hour of an instant, in seconds.\<close>

lemma hour_start: "date_trunc_hour t div 1000000 = t div 1000000 div 3600 * 3600"
proof -
  have "t div 3600000000 = t div 1000000 div 3600" by (simp add: zdiv_zmult2_eq [symmetric])
  then show ?thesis by (simp add: date_trunc_hour_def)
qed

definition at_instant :: "env \<Rightarrow> int \<times> string option \<Rightarrow> Occurrence" where
  "at_instant sv o' = \<lparr>occ_at = sv_rfc3339 sv (fst o'), occ_build = snd o'\<rparr>"

definition at_hour :: "env \<Rightarrow> int \<times> string option \<Rightarrow> Occurrence" where
  "at_hour sv o' = \<lparr>occ_at = sv_rfc3339 sv (date_trunc_hour (fst o')), occ_build = snd o'\<rparr>"

lemma hour_recurrence:
  assumes "\<And>i. i \<in> {fst o', date_trunc_hour (fst o')} \<Longrightarrow> pe (sv_rfc3339 sv i) = Some (i div 1000000)"
  shows "recurrence pe fs fixed fe (at_hour sv o') \<longleftrightarrow>
    recurrence pe fs fixed fe (at_instant sv o') \<and> fe \<le> fst o' div 1000000 div 3600 * 3600"
  by (auto simp: recurrence_def at_hour_def at_instant_def assms hour_start)

text \<open>C17. The verdict of the ranked list lags behind that of the detail view, but never runs ahead: when the
  windows of the list are the hourly image of the occurrences, builds included, and both read the same traffic,
  of which there is some, a bucket the list calls regressed is regressed; and one that is regressed while the list
  does not say so has recurred only in the hour in which the fix build was first seen, because the list
  knows only the hour of an occurrence and takes it to be the start of that hour.
\<close>

theorem list_verdict_lags:
  assumes "\<And>i. i \<in> fst ` set occs \<union> date_trunc_hour ` fst ` set occs \<Longrightarrow> vl_epoch vl (sv_rfc3339 sv i) = Some (i div 1000000)"
    and "(\<lambda>(w, build, _). (w, build)) ` set (lr_windows lr b) = (\<lambda>(i, build). (sv_rfc3339 sv (date_trunc_hour i), build)) ` set occs"
    and "weighted_traffic st a = weighted_builds lr" "lr_traffic lr \<noteq> []"
  defines "detail \<equiv> compute_resolution_for_occurrences (vl_epoch vl) (vl_epoch_text vl) (thresholds sv) st (now_text sv) a
    (fixed_of lr b) (map (at_instant sv) occs)"
  shows "(list_regressed sv vl lr b \<longrightarrow> out_status detail = Regressed)
    \<and> (out_status detail = Regressed \<and> \<not> list_regressed sv vl lr b \<longrightarrow>
        (\<exists>fixed fe. fixed_of lr b = Some fixed \<and> map_of (first_seen_by_build (vl_epoch vl) (app_stream st a)) fixed = Some fe
          \<and> (\<forall>o' \<in> set occs. recurrence (vl_epoch vl) (first_seen_by_build (vl_epoch vl) (app_stream st a)) fixed fe (at_instant sv o')
              \<longrightarrow> fst o' div 1000000 div 3600 = fe div 3600)))"
proof -
  let ?fs = "first_seen_by_build (vl_epoch vl) (app_stream st a)"
  have "weighted_builds lr \<noteq> []" using assms(4) by (simp add: weighted_builds_def)
  then have fs: "first_seen_by_build (vl_epoch vl) (map fst (weighted_builds lr)) = ?fs"
    by (simp add: app_stream_def assms(3))
  have "set (map (\<lambda>(ts, build, _). \<lparr>occ_at = ts, occ_build = build\<rparr>) (lr_windows lr b))
      = (\<lambda>(w, build). \<lparr>occ_at = w, occ_build = build\<rparr>) ` (\<lambda>(w, build, _). (w, build)) ` set (lr_windows lr b)"
    by (simp add: image_image case_prod_unfold)
  then have hours: "set (map (\<lambda>(ts, build, _). \<lparr>occ_at = ts, occ_build = build\<rparr>) (lr_windows lr b)) = at_hour sv ` set occs"
    unfolding assms(2) by (simp add: image_image case_prod_unfold at_hour_def)
  have list: "list_regressed sv vl lr b \<longleftrightarrow> (\<exists>fixed fe. fixed_of lr b = Some fixed \<and> map_of ?fs fixed = Some fe
      \<and> (\<exists>o' \<in> set occs. recurrence (vl_epoch vl) ?fs fixed fe (at_hour sv o')))"
    unfolding list_regressed_def list_outcome_def regressed_iff hours fs by simp
  have det: "out_status detail = Regressed \<longleftrightarrow> (\<exists>fixed fe. fixed_of lr b = Some fixed \<and> map_of ?fs fixed = Some fe
      \<and> (\<exists>o' \<in> set occs. recurrence (vl_epoch vl) ?fs fixed fe (at_instant sv o')))"
    unfolding detail_def compute_resolution_for_occurrences_def regressed_iff by simp
  have same_hour: "e div 3600 = fe div 3600" if "fe \<le> e" "\<not> fe \<le> e div 3600 * 3600" for e fe :: int
    using zdiv_mono1 [OF that(1), of 3600] zdiv_mono1 [of "e div 3600 * 3600" fe 3600] that(2) by simp
  have hr: "recurrence (vl_epoch vl) ?fs fixed fe (at_hour sv o') \<longleftrightarrow>
      recurrence (vl_epoch vl) ?fs fixed fe (at_instant sv o') \<and> fe \<le> fst o' div 1000000 div 3600 * 3600"
    if "o' \<in> set occs" for o' fixed fe
    using that by (intro hour_recurrence assms(1)) auto
  have after: "fe \<le> fst o' div 1000000" if "o' \<in> set occs" "recurrence (vl_epoch vl) ?fs fixed fe (at_instant sv o')" for fixed fe o'
    using that by (auto simp: recurrence_def at_instant_def assms(1))
  show ?thesis
  proof (intro conjI impI)
    assume "list_regressed sv vl lr b"
    then show "out_status detail = Regressed" unfolding list det using hr by blast
  next
    assume gap: "out_status detail = Regressed \<and> \<not> list_regressed sv vl lr b"
    then obtain fixed fe where f: "fixed_of lr b = Some fixed" "map_of ?fs fixed = Some fe" unfolding det by blast
    have "fst o' div 1000000 div 3600 = fe div 3600" if "o' \<in> set occs" "recurrence (vl_epoch vl) ?fs fixed fe (at_instant sv o')" for o'
    proof (rule same_hour [OF after [OF that]])
      show "\<not> fe \<le> fst o' div 1000000 div 3600 * 3600"
        using gap that f hr [OF that(1), of fixed fe] unfolding list by blast
    qed
    with f show "\<exists>fixed fe. fixed_of lr b = Some fixed \<and> map_of ?fs fixed = Some fe
        \<and> (\<forall>o' \<in> set occs. recurrence (vl_epoch vl) ?fs fixed fe (at_instant sv o') \<longrightarrow> fst o' div 1000000 div 3600 = fe div 3600)"
      by blast
  qed
qed

text \<open>Without counted traffic the list never calls a bucket regressed or resolved: unlike the detail view, it
  does not fall back to the errors.\<close>

lemma list_needs_traffic: "lr_traffic lr = [] \<Longrightarrow> out_status (list_outcome sv vl lr b) \<in> {Resolution.Active, Resolving}"
  by (cases "fixed_of lr b") (simp_all add: list_outcome_def evaluate_def weighted_builds_def first_seen_by_build_def)

section \<open>Witnesses\<close>

definition sample_view :: view_lib where
  "sample_view = \<lparr>vl_libm = sample_libm, vl_float = (\<lambda>_. []), vl_text = (\<lambda>_. []),
     vl_epoch = (\<lambda>s. map_option (\<lambda>i. i div 1000000) (parse_i64 s)), vl_epoch_text = show_int, vl_oracles = [], vl_ledger = (\<lambda>_. JNull)\<rparr>"

theorem ranked_list_complete_witness:
  "(\<lambda>lr. distinct (map ranked_id (ranked_items sample_env sample_view lr) @ map ranked_id (pending_items sample_env sample_view lr))
      \<and> set (map ranked_id (ranked_items sample_env sample_view lr) @ map ranked_id (pending_items sample_env sample_view lr))
          = {b. of_bucket (''app'', b) (errors (td_telemetry sample_export_data)) \<noteq> []}
      \<and> sorted_wrt ranks_before (ranked_items sample_env sample_view lr)
      \<and> sorted_wrt (\<lambda>x y. list_regressed sample_env sample_view lr (ranked_id y) \<longrightarrow> list_regressed sample_env sample_view lr (ranked_id x))
          (ranked_items sample_env sample_view lr))
    (read_list sample_env ''app'' sample_export_data)"
  by (rule ranked_list_complete [where pg = "\<lambda>_. []"])
    (use sample_store_run in \<open>simp_all add: sample_export_data_def sample_view_def sample_libm_ok\<close>)

text \<open>A fix build that is first seen ten minutes past the hour, and an error on it one minute later.\<close>

definition early_list :: list_reads where
  "early_list = \<lparr>lr_rollups = [], lr_baseline_n = 0, lr_baseline_counts = [], lr_counts = (\<lambda>_. []),
     lr_windows = (\<lambda>_. [(show_int 3600000000, Some ''2'', 1)]), lr_results = (\<lambda>_. []),
     lr_triage = [(''b'', \<lparr>tr_app_id = ''app'', tr_bucket_id = ''b'', tr_status = ''fixed'', tr_assignee = None,
       tr_fixed_in_build = Some ''2'', tr_updated_at = 0\<rparr>)],
     lr_traffic = [(''2'', 2, show_int 4200000000)]\<rparr>"

definition early_streams :: streams where
  "early_streams = \<lparr>streams.build_traffic = (\<lambda>_. [(''2'', 2, show_int 4200000000)]), recent_stream = (\<lambda>_. []), bucket_stream = (\<lambda>_ _. [])\<rparr>"

lemma early_first_seen:
  "first_seen_by_build (vl_epoch sample_view) [\<lparr>occ_at = show_int 4200000000, occ_build = Some ''2''\<rparr>] = [(''2'', 4200)]"
  by (simp add: first_seen_by_build_def see_build_def sample_view_def)

lemma early_stream: "app_stream early_streams ''app'' = [\<lparr>occ_at = show_int 4200000000, occ_build = Some ''2''\<rparr>]"
  by (simp add: app_stream_def weighted_traffic_def early_streams_def)

lemma early_fixed: "fixed_of early_list ''b'' = Some ''2''"
  by (simp add: fixed_of_def early_list_def)

text \<open>The error is a regression, and the list does not show it.\<close>

theorem list_verdict_lags_witness:
  "\<not> list_regressed sample_env sample_view early_list ''b''
   \<and> out_status (compute_resolution_for_occurrences (vl_epoch sample_view) (vl_epoch_text sample_view) (thresholds sample_env)
       early_streams (now_text sample_env) ''app'' (fixed_of early_list ''b'') (map (at_instant sample_env) [(4260000000, Some ''2'')])) = Regressed
   \<and> (\<exists>fixed fe. fixed_of early_list ''b'' = Some fixed
        \<and> map_of (first_seen_by_build (vl_epoch sample_view) (app_stream early_streams ''app'')) fixed = Some fe
        \<and> 4260000000 div 1000000 div 3600 = fe div 3600)"
proof -
  have rfc: "sv_rfc3339 sample_env = show_int" by (simp add: sample_env_def)
  have epoch: "vl_epoch sample_view (show_int i) = Some (i div 1000000)" if "i \<in> {3600000000, 4260000000}" for i
    using that by (auto simp: sample_view_def)
  have list: "\<not> list_regressed sample_env sample_view early_list ''b''"
    unfolding list_regressed_def list_outcome_def regressed_iff early_fixed
    by (simp add: weighted_builds_def early_list_def early_first_seen recurrence_def epoch)
  have rec: "recurrence (vl_epoch sample_view) [(''2'', 4200)] ''2'' 4200 (at_instant sample_env (4260000000, Some ''2''))"
    by (simp add: recurrence_def at_instant_def rfc epoch)
  then have det: "out_status (compute_resolution_for_occurrences (vl_epoch sample_view) (vl_epoch_text sample_view) (thresholds sample_env)
      early_streams (now_text sample_env) ''app'' (fixed_of early_list ''b'') (map (at_instant sample_env) [(4260000000, Some ''2'')])) = Regressed"
    unfolding compute_resolution_for_occurrences_def regressed_iff early_fixed early_stream early_first_seen by simp
  have "(\<lambda>(w, build, _). (w, build)) ` set (lr_windows early_list ''b'')
      = (\<lambda>(i, build). (sv_rfc3339 sample_env (date_trunc_hour i), build)) ` set [(4260000000, Some ''2'')]"
    by (simp add: early_list_def rfc date_trunc_hour_def)
  note lags = list_verdict_lags [OF _ this, of sample_view early_streams "''app''"]
  have "weighted_traffic early_streams ''app'' = weighted_builds early_list" "lr_traffic early_list \<noteq> []"
    by (simp_all add: weighted_traffic_def weighted_builds_def early_streams_def early_list_def)
  with lags list det rec show ?thesis
    by (simp add: epoch rfc date_trunc_hour_def early_stream early_first_seen early_fixed)
qed

end
