(* ===== verification/Replay_Package.thy ===== *)
theory Replay_Package
  imports Bucket_API
begin

text \<open>
  The replay package of a bucket and its ticket (\<open>src/ingest/bucket_api.rs\<close>). The package is looked up in
  one application or in every project the caller's key can see.
\<close>

section \<open>The package\<close>

definition display_step :: "Step \<Rightarrow> json" where
  "display_step s = JObj [(''action'', JStr (st_action s)),
     (''display'', JStr (case st_label s of Some l \<Rightarrow> l | None \<Rightarrow> st_action s)), (''label'', jopt JStr (st_label s)),
     (''sig'', JStr (st_sig s))]"

definition display_path :: "ErrorRec \<Rightarrow> json list" where "display_path r = map display_step (er_path r)"

definition howto :: string where
  "howto = ''reproit <bucketId>: downloads this package, saves it locally, synthesizes the fixture, replays the actions, then reports the verdict to Cloud''"

definition bucket_package :: "env \<Rightarrow> view_lib \<Rightarrow> string \<Rightarrow> string \<Rightarrow> ErrorRec \<Rightarrow> ErrorRec \<Rightarrow> ErrorRec \<Rightarrow> nat \<Rightarrow> json list
    \<Rightarrow> EvidenceRec list \<Rightarrow> ReplayResult list \<Rightarrow> json" where
  "bucket_package sv vl app_id bucket newest oldest source n discs evs results =
     (let actions = JArr (map JStr (replay_actions source)); fixture = fixture_spec (er_context source) discs;
          outcomes = JArr (map result_json results)
      in JObj [(''actions'', actions), (''appId'', JStr app_id), (''bucketId'', JStr bucket),
        (''bugId'', JStr (bug_id (sv_lib sv) newest)), (''context'', JObj (er_context source)), (''count'', jnat n),
        (''crashSig'', JStr (er_sig newest)), (''discriminators'', JArr discs), (''displayPath'', JArr (display_path source)),
        (''evidence'', JArr (map evidence_json evs)), (''expectedError'', JStr (er_message newest)),
        (''findingIdentity'', identity_json sv newest), (''fixture'', fixture), (''fixtureSpec'', fixture),
        (''howto'', JStr howto), (''lineage'', lineage_json oldest newest), (''message'', JStr (er_message newest)),
        (''replay'', actions), (''replayResults'', outcomes), (''repro'', repro_status vl results), (''results'', outcomes),
        (''startSig'', start_sig source), (''summary'', JStr (crash_summary newest)),
        (''visualEvidence'', visual_evidence_refs evs)])"

text \<open>\<open>min_by_key\<close>: the first of the elements with the least key.\<close>

fun min_by_key :: "('a \<Rightarrow> nat) \<Rightarrow> 'a list \<Rightarrow> 'a option" where
  "min_by_key f [] = None"
| "min_by_key f (x # xs) = Some (foldl (\<lambda>m y. if f y < f m then y else m) x xs)"

definition replay_source :: "ErrorRec list \<Rightarrow> ErrorRec" where
  "replay_source recs =
     (case min_by_key (\<lambda>r. length (replay_actions r)) (filter (\<lambda>r. replay_actions r \<noteq> []) (rev recs)) of
        Some r \<Rightarrow> r | None \<Rightarrow> last recs)"

definition bucket_package_for_tenant :: "env \<Rightarrow> view_lib \<Rightarrow> Tenant \<Rightarrow> string \<Rightarrow> string \<Rightarrow> json option action" where
  "bucket_package_for_tenant sv vl t app_id bucket =
     andthen (bucket_rows sv t app_id bucket) (\<lambda>r.
     andthen (need r server_error) (\<lambda>rows.
     if rows = [] then done_with None
     else
       andthen (tlook sv t ''recent_errors_with_meta''
         (\<lambda>d. recent_errors_with_meta (sv_rfc3339 sv) app_id (baseline_sample sv) (td_telemetry d))) (\<lambda>base.
       andthen (need base server_error) (\<lambda>base.
       andthen (resolve_evidence sv t (map fst rows)) (\<lambda>evs.
       andthen (tlook sv t ''replay_results_for'' (\<lambda>d. replay_results_for app_id bucket (td_telemetry d))) (\<lambda>r.
       andthen (need r server_error) (\<lambda>results.
       let recs = map (\<lambda>(_, _, x). x) rows; contexts = map er_context recs;
           discs = discriminators (vl_text vl) (vl_float vl) contexts (map (\<lambda>(_, _, x). er_context x) base)
       in done_with (Some (bucket_package sv vl app_id bucket (last recs) (hd recs) (replay_source recs) (length rows)
            discs evs results)))))))))"

section \<open>Requests\<close>

definition get_bucket :: "env \<Rightarrow> view_lib \<Rightarrow> AuthCtx \<Rightarrow> headers \<Rightarrow> string \<Rightarrow> string \<Rightarrow> response action" where
  "get_bucket sv vl auth hs app_id bucket =
     andthen (tenant_for sv auth hs app_id) (\<lambda>t.
     andthen (bucket_package_for_tenant sv vl t app_id bucket) (\<lambda>p.
     andthen (need p not_found) (\<lambda>v. done_with (reply 200 v))))"

fun packages :: "env \<Rightarrow> view_lib \<Rightarrow> Tenant \<Rightarrow> string \<Rightarrow> string list \<Rightarrow> (string \<times> json) list action" where
  "packages sv vl t bucket [] = done_with []"
| "packages sv vl t bucket (app_id # apps) =
     andthen (bucket_package_for_tenant sv vl t app_id bucket) (\<lambda>p.
     andthen (packages sv vl t bucket apps) (\<lambda>found.
     done_with (case p of Some v \<Rightarrow> (app_id, v) # found | None \<Rightarrow> found)))"

definition visible_projects :: "KeyScope \<Rightarrow> (int \<times> string \<times> string) list \<Rightarrow> string list" where
  "visible_projects scope ps =
     map (\<lambda>(_, _, app_id). app_id) (filter (\<lambda>(i, _, _). case ks_project_id scope of None \<Rightarrow> True | Some p \<Rightarrow> i = p) ps)"

definition get_bucket_global :: "env \<Rightarrow> view_lib \<Rightarrow> AuthCtx \<Rightarrow> KeyScope \<Rightarrow> headers \<Rightarrow> string \<Rightarrow> response action" where
  "get_bucket_global sv vl auth scope hs bucket =
     andthen (tenant_of sv auth hs) (\<lambda>t.
     andthen (tlook sv t ''list_projects'' list_projects) (\<lambda>r.
     andthen (need r server_error) (\<lambda>ps.
     andthen (packages sv vl t bucket (visible_projects scope ps)) (\<lambda>found.
     case found of
       [] \<Rightarrow> stop not_found
     | [(_, v)] \<Rightarrow> done_with (reply 200 v)
     | _ \<Rightarrow> stop (reply 409 (JObj [(''bucketId'', JStr bucket),
         (''error'', JStr ''bucket exists in more than one accessible project''),
         (''projects'', JArr (map (\<lambda>(app_id, _). JStr app_id) found))]))))))"

section \<open>Tickets\<close>

definition ticket_json :: "ticket_row \<Rightarrow> json" where
  "ticket_json l = JObj [(''externalId'', JStr (tk_external_id l)), (''provider'', JStr (tk_provider l)),
     (''repo'', JStr (tk_repo l)), (''url'', JStr (tk_url l))]"

definition linked_json :: "string \<Rightarrow> ticket_row \<Rightarrow> json" where
  "linked_json bucket l = JObj [(''bucketId'', JStr bucket), (''linked'', JBool True), (''ticket'', ticket_json l)]"

definition get_ticket :: "env \<Rightarrow> AuthCtx \<Rightarrow> headers \<Rightarrow> string \<Rightarrow> string \<Rightarrow> response action" where
  "get_ticket sv auth hs app_id bucket =
     andthen (tenant_for sv auth hs app_id) (\<lambda>t.
     andthen (tlook sv t ''ticket_for_bucket'' (ticket_of app_id bucket)) (\<lambda>r.
     andthen (need r server_error) (\<lambda>link.
     case link of
       Some l \<Rightarrow> done_with (reply 200 (linked_json bucket l))
     | None \<Rightarrow> andthen (is_configured_for sv t app_id) (\<lambda>configured.
         done_with (reply 200 (JObj [(''bucketId'', JStr bucket), (''configured'', JBool configured), (''linked'', JBool False)]))))))"

definition post_ticket :: "env \<Rightarrow> AuthCtx \<Rightarrow> headers \<Rightarrow> string \<Rightarrow> string \<Rightarrow> response action" where
  "post_ticket sv auth hs app_id bucket =
     andthen (tenant_for sv auth hs app_id) (\<lambda>t.
     andthen (is_configured_for sv t app_id) (\<lambda>configured.
     andthen (require configured (err 400 ''no issue tracker configured for this app'')) (\<lambda>_.
     andthen (tlook sv t ''ticket_for_bucket'' (ticket_of app_id bucket)) (\<lambda>r.
     andthen (need r server_error) (\<lambda>link.
     case link of
       Some l \<Rightarrow> done_with (reply 200 (linked_json bucket l))
     | None \<Rightarrow>
         andthen (bucket_rows sv t app_id bucket) (\<lambda>r.
         andthen (need r server_error) (\<lambda>rows.
         if rows = [] then stop not_found
         else
           andthen (file_issue_for_bucket sv t app_id bucket (snd (snd (hd rows))) (snd (snd (last rows)))) (\<lambda>filed.
           case filed of
             Some u \<Rightarrow> done_with (reply 200 (JObj [(''bucketId'', JStr bucket), (''linked'', JBool True), (''url'', JStr u)]))
           | None \<Rightarrow> stop (err 502 ''could not file issue with the tracker'')))))))))"

end
