(* ===== verification/Tenant_Frame.thy ===== *)
theory Tenant_Frame
  imports Integrations
begin

text \<open>
  Requests that touch one tenant: the locale \<open>tenant_frame\<close> lifts a relation between the states of one
  tenant's database to whole handlers, with every other database unchanged; \<open>hook_frame\<close> extends it to the
  hooks of the issue trackers, for relations that do not look at triage and outbox.
\<close>

section \<open>One tenant\<close>

locale tenant_frame =
  fixes t :: Tenant and R :: "tenant_data \<Rightarrow> tenant_data \<Rightarrow> bool"
  assumes R_refl: "R d d"
    and R_trans: "R d1 d2 \<Longrightarrow> R d2 d3 \<Longrightarrow> R d1 d3"
begin

definition within :: "app \<Rightarrow> app \<Rightarrow> bool" where
  "within a b \<longleftrightarrow> R (app_tenants a (t_store t)) (app_tenants b (t_store t))
     \<and> (\<forall>s. s \<noteq> t_store t \<longrightarrow> app_tenants b s = app_tenants a s)"

end

sublocale tenant_frame \<subseteq> request_frame within
  by unfold_locales (auto simp: within_def R_refl intro: R_trans)

context tenant_frame begin

lemma withinI: "app_tenants b = app_tenants a \<Longrightarrow> within a b"
  by (simp add: within_def R_refl)

lemma safe_same_tenants: "(\<And>a. app_tenants (snd (m a)) = app_tenants a) \<Longrightarrow> safe m"
  by (simp add: safe_def withinI)

lemma safe_tctl: "(\<And>d. R d (snd (op d))) \<Longrightarrow> safe (tctl sv t m op)"
  by (auto simp: safe_def tctl_def within_def R_refl split: prod.split) (metis snd_conv)

lemma safe_call: "safe (send_call sv c)"
  by (rule safe_same_tenants) (simp add: send_call_def)

lemma safe_ctl: "safe (ctl sv m op)"
  by (rule safe_same_tenants) (simp add: ctl_def split: prod.split)

lemma safe_audit: "safe (audit sv actor act i j)"
  unfolding audit_def by (intro safe_andthen safe_ctl safe_done)

lemma safe_resolve: "safe (tenancy_resolve sv i)"
  by (rule safe_same_tenants) (auto simp: tenancy_resolve_def split: prod.split)

lemma safe_each: "(\<And>x. safe (f x)) \<Longrightarrow> safe (each_item f xs)"
  by (induction xs) (auto intro: safe_andthen)

lemmas safe_calls = safe_andthen safe_require safe_need safe_look safe_tlook safe_done safe_stop safe_if safe_option
  safe_prod safe_sum safe_call safe_ctl safe_audit safe_resolve safe_each

lemma safe_issue_calls:
  "safe (create_issue sv c title body)" "safe (comment_issue sv c i body)" "safe (close_issue sv c i)" "safe (reopen_issue sv c i)"
  unfolding create_issue_def comment_issue_def close_issue_def
  by (intro safe_calls)+ (cases c; auto intro: safe_calls)

lemma safe_resolve_for: "safe (resolve_for sv t app_id)" "safe (is_configured_for sv t app_id)" "safe (linked sv t app_id bucket)"
  unfolding is_configured_for_def linked_def resolve_for_def by (intro safe_calls)+

end

section \<open>Hooks\<close>

locale hook_frame = tenant_frame +
  assumes R_triage: "R d (on_triage f d)"
    and R_outbox: "R d (d\<lparr>td_telemetry := (td_telemetry d)\<lparr>integration_outbox := rows\<rparr>\<rparr>)"
begin

lemma safe_save_link: "safe (save_link sv t app_id bucket c issue)"
  unfolding save_link_def by (rule safe_tctl) (simp add: R_triage)

lemma safe_finish: "safe (finish_work sv t i)"
  unfolding finish_work_def by (intro safe_andthen safe_tctl safe_done) (simp add: complete_integration_work_def R_outbox)

lemma safe_file: "safe (file_issue_for_bucket sv t app_id bucket oldest newest)"
  unfolding file_issue_for_bucket_def by (intro safe_calls safe_resolve_for safe_issue_calls safe_save_link)

lemma safe_drain: "safe (drain_outbox sv t)"
  unfolding drain_outbox_def drain_item_def
  by (intro safe_calls safe_tctl safe_resolve_for safe_finish safe_file)
    (auto simp: claim_integration_work_def Let_def R_outbox)

lemma safe_notes:
  "safe (close_ticket_on_fix sv t app_id bucket build)" "safe (comment_ticket_fix_verified sv t app_id bucket build)"
  "safe (reopen_ticket_on_regression sv t app_id bucket build)"
  unfolding close_ticket_on_fix_def comment_ticket_fix_verified_def reopen_ticket_on_regression_def
  by (intro safe_calls safe_resolve_for safe_issue_calls)+

end

text \<open>The telemetry the hooks never touch.\<close>

definition log_view :: "tenant_data \<Rightarrow> error_row list \<times> (string \<times> string) set \<times> (string \<times> string) counter \<times> evidence_row list" where
  "log_view d = (let db = td_telemetry d in (errors db, batch_key ` set (processed_batches db), edges db, evidence db))"

interpretation log: hook_frame t "\<lambda>d d'. log_view d' = log_view d" for t
  by unfold_locales (simp_all add: log_view_def on_triage_def with_triage_def Let_def)

lemma drain_keeps_log:
  "log_view (app_tenants (snd (drain_outbox sv t a)) (t_store t)) = log_view (app_tenants a (t_store t))"
  "s \<noteq> t_store t \<Longrightarrow> app_tenants (snd (drain_outbox sv t a)) s = app_tenants a s"
  using log.safeD [OF log.safe_drain, of t a sv] by (simp_all add: log.within_def)

text \<open>Finding the tenant of a caller changes no tenant's data.\<close>

lemma tenant_for_data: "app_tenants (snd (tenant_for sv auth hs app_id a)) = app_tenants a"
proof -
  have "app_tenants (snd (tenancy_resolve sv i b)) = app_tenants b" for i b
    by (auto simp: tenancy_resolve_def split: prod.split)
  note r = this
  show ?thesis
  proof (cases auth)
    case (Org i)
    then show ?thesis using r [of i a]
      by (auto simp: tenant_for_def tenant_of_def andthen_def done_with_def stop_def tlook_def split: prod.splits sum.splits ResolveError.splits)
  next
    case Admin
    then show ?thesis
    proof (cases "admin_target_result hs")
      case (Inr i)
      then show ?thesis using r [of i a] Admin
        by (auto simp: tenant_for_def tenant_of_def andthen_def done_with_def stop_def tlook_def split: prod.splits sum.splits ResolveError.splits)
    qed (simp add: tenant_for_def tenant_of_def andthen_def stop_def)
  qed
qed

end
