(* ===== verification/Ingest_Laws.thy ===== *)
theory Ingest_Laws
  imports Ingest Tenant_Frame Telemetry_Steps Sample_App
begin

text \<open>
  What ingestion guarantees: a batch is counted once however often it is sent; a publishable key writes to
  the project it was minted for and nowhere else; the usage graph gives back the edges that were sent.
\<close>

section \<open>The content of a batch\<close>

fun counted :: "Event \<Rightarrow> bool" where
  "counted (EGraphEdge _ _ _) = True"
| "counted (EFinding _ _ _ _ _) = True"
| "counted _ = False"

definition has_content :: "EventBatch \<Rightarrow> bool" where
  "has_content b \<longleftrightarrow> list_ex (\<lambda>f. counted (ef_event f)) (eb_frames b) \<or> eb_evidence b \<noteq> []"

lemma bt_insert_nonempty: "bt_insert k v m \<noteq> []"
  by (induction m) (auto split: prod.splits if_splits)

lemma aggregate_empty:
  "ba_edge_counts (foldl (aggregate_frame lib) agg fs) = [] \<and> ba_error_recs (foldl (aggregate_frame lib) agg fs) = []
     \<longleftrightarrow> ba_edge_counts agg = [] \<and> ba_error_recs agg = [] \<and> \<not> list_ex (\<lambda>f. counted (ef_event f)) fs"
proof (induction fs arbitrary: agg)
  case (Cons f fs)
  show ?case
    by (cases "ef_event f"; simp only: foldl_Cons Cons) (auto simp: aggregate_frame_def bt_add_def bt_insert_nonempty)
qed simp

lemma content_nonempty: "has_content b \<Longrightarrow> \<not> (batch_edges sv b = [] \<and> batch_recs sv b = [] \<and> eb_evidence b = [])"
  using aggregate_empty [of "sv_lib sv" "\<lparr>ba_edge_counts = [], ba_error_recs = []\<rparr>" "eb_frames b"]
  by (auto simp: has_content_def batch_edges_def batch_recs_def aggregate_events_def)

section \<open>Accepting\<close>

definition batch_keys :: "Tenant \<Rightarrow> app \<Rightarrow> (string \<times> string) set" where
  "batch_keys t a = batch_key ` set (processed_batches (td_telemetry (app_tenants a (t_store t))))"

lemma log_view_keys: "log_view (app_tenants b (t_store t)) = log_view (app_tenants a (t_store t)) \<Longrightarrow> batch_keys t b = batch_keys t a"
  by (simp add: log_view_def batch_keys_def Let_def)

lemma persist_result: "\<exists>r c. persist_batch sv t b a = (Inr r, c)"
  by (simp add: persist_batch_def tctl_def split: prod.split)

lemma persist_unchanged:
  assumes "persist_batch sv t b a = (Inr r, c)" "r \<noteq> Some False"
  shows "c = a"
proof -
  let ?d = "app_tenants a (t_store t)"
  let ?i = "ingest_batch (sv_lib sv) (sv_now sv) (eb_app_id b) (batch_edges sv b) (batch_recs sv b) (eb_evidence b)
    (eb_batch_id b) (Option.bind (eb_deployment b) deployment_key) (td_telemetry ?d)"
  have id: "?d\<lparr>td_telemetry := td_telemetry ?d\<rparr> = ?d" "a\<lparr>app_tenants := (app_tenants a)(t_store t := ?d)\<rparr> = a" by simp_all
  show ?thesis
  proof (cases ?i)
    case None
    then show ?thesis using assms id by (auto simp: persist_batch_def tctl_def split: if_splits)
  next
    case (Some p)
    then obtain fresh db where p: "?i = Some (fresh, db)" by (cases p) auto
    show ?thesis
    proof (cases fresh)
      case True
      with p have "?i = Some (True, db)" by simp
      then have "db = td_telemetry ?d" by (rule dedup_unchanged)
      then show ?thesis using assms(1) p id by (auto simp: persist_batch_def tctl_def split: if_splits)
    qed (use assms p in \<open>auto simp: persist_batch_def tctl_def split: if_splits\<close>)
  qed
qed

lemma persist_stored:
  assumes "persist_batch sv t b a = (Inr (Some False), c)"
  shows "\<exists>db. ingest_batch (sv_lib sv) (sv_now sv) (eb_app_id b) (batch_edges sv b) (batch_recs sv b) (eb_evidence b)
      (eb_batch_id b) (Option.bind (eb_deployment b) deployment_key) (td_telemetry (app_tenants a (t_store t))) = Some (False, db)
    \<and> c = a\<lparr>app_tenants := (app_tenants a)(t_store t := (app_tenants a (t_store t))\<lparr>td_telemetry := db\<rparr>)\<rparr>"
  using assms by (auto simp: persist_batch_def tctl_def split: prod.splits option.splits if_splits)

text \<open>How accepting a batch ends.\<close>

lemma accepted_cases:
  assumes "accept_batch sv t b a = (r, c)"
  obtains (refused) resp where "r = Inl resp" "c = a"
  | (repeated) resp where "r = Inr resp" "c = a" "persist_batch sv t b a = (Inr (Some True), a)"
  | (stored) resp d where "r = Inr resp" "persist_batch sv t b a = (Inr (Some False), d)" "c = snd (drain_outbox sv t d)"
proof -
  obtain p d where p: "persist_batch sv t b a = (Inr p, d)" using persist_result by blast
  note same = persist_unchanged [OF p]
  show ?thesis
  proof (cases "sv_ingest_denied sv (t_org_id t) (length (batch_recs sv b))")
    case None
    then show ?thesis
      using assms p same refused repeated stored
      by (cases p) (auto simp: accept_batch_def andthen_def done_with_def need_def stop_def spawn_def split: if_splits bool.splits)
  next
    case (Some q)
    then show ?thesis using assms refused
      by (auto simp: accept_batch_def andthen_def stop_def split: prod.splits)
  qed
qed

definition repeated_answer :: response where
  "repeated_answer = reply 200 (JObj [(''deduped'', JBool True), (''ok'', JBool True)])"

lemma accepted_recorded:
  assumes "has_content b" "accept_batch sv t b a = (Inr resp, a')"
  shows "(eb_app_id b, eb_batch_id b) \<in> batch_keys t a'"
proof -
  have dup: "(eb_app_id b, eb_batch_id b) \<in> batch_keys t a" if "persist_batch sv t b a = (Inr (Some True), a)"
    using that by (auto simp: persist_batch_def tctl_def ingest_batch_def batch_keys_def Let_def bind_eq_Some_conv split: option.splits if_splits)
  from assms(2) show ?thesis
  proof (cases rule: accepted_cases)
    case (stored resp' d)
    then obtain db where i: "ingest_batch (sv_lib sv) (sv_now sv) (eb_app_id b) (batch_edges sv b) (batch_recs sv b) (eb_evidence b)
        (eb_batch_id b) (Option.bind (eb_deployment b) deployment_key) (td_telemetry (app_tenants a (t_store t))) = Some (False, db)"
      and d: "d = a\<lparr>app_tenants := (app_tenants a)(t_store t := (app_tenants a (t_store t))\<lparr>td_telemetry := db\<rparr>)\<rparr>"
      using persist_stored by blast
    have "(eb_app_id b, eb_batch_id b) \<in> batch_keys t d"
      using ingest_batch_log [OF i content_nonempty [OF assms(1)]] by (simp add: d batch_keys_def batch_key_def)
    then show ?thesis using log_view_keys [OF drain_keeps_log(1), of t sv d] stored by simp
  qed (use dup in simp_all)
qed

text \<open>A recorded batch is answered as a repetition, unless the edition refuses it or the store fails.\<close>

lemma accept_repeated:
  assumes "has_content b" "(eb_app_id b, eb_batch_id b) \<in> batch_keys t c"
  shows "\<exists>e. accept_batch sv t b c =
    (if sv_ingest_denied sv (t_org_id t) (length (batch_recs sv b)) = None \<and> \<not> sv_fails sv ''ingest_batch''
     then Inr repeated_answer else Inl e, c)"
proof -
  let ?d = "app_tenants c (t_store t)"
  have "ingest_batch (sv_lib sv) (sv_now sv) (eb_app_id b) (batch_edges sv b) (batch_recs sv b) (eb_evidence b)
      (eb_batch_id b) (Option.bind (eb_deployment b) deployment_key) (td_telemetry ?d) = Some (True, td_telemetry ?d)"
    using content_nonempty [OF assms(1), of sv] assms(2) by (auto simp: ingest_batch_def batch_keys_def)
  moreover have "?d\<lparr>td_telemetry := td_telemetry ?d\<rparr> = ?d" "c\<lparr>app_tenants := (app_tenants c)(t_store t := ?d)\<rparr> = c" by simp_all
  ultimately have "persist_batch sv t b c = (Inr (if sv_fails sv ''ingest_batch'' then None else Some True), c)"
    by (simp add: persist_batch_def tctl_def)
  then show ?thesis
    by (cases "sv_ingest_denied sv (t_org_id t) (length (batch_recs sv b))")
      (auto simp: accept_batch_def andthen_def done_with_def need_def stop_def repeated_answer_def split: prod.splits)
qed

text \<open>C11. A batch is counted once. When a post of a batch with an edge, a finding or an evidence graph is
  accepted, its id is recorded in the tenant. From then on, for as long as the id is recorded, a post of the
  same batch to that tenant, by whoever and whatever happened in between, changes the data of no tenant; it is
  answered as a duplicate when the key may post to the application, the edition admits it and the store
  answers.\<close>
theorem batch_counted_once:
  assumes "has_content b" "tenant_for sv auth hs (eb_app_id b) a = (Inr t, a1)" "post_events sv auth scope hs b a = (Inr resp, a')"
  shows "(eb_app_id b, eb_batch_id b) \<in> batch_keys t a'
    \<and> (\<forall>sv' auth' scope' hs' c c1. tenant_for sv' auth' hs' (eb_app_id b) c = (Inr t, c1) \<and> (eb_app_id b, eb_batch_id b) \<in> batch_keys t c
        \<longrightarrow> app_tenants (snd (post_events sv' auth' scope' hs' b c)) = app_tenants c
          \<and> (batch_validate (sv_graph sv') b = Inr () \<and> \<not> ks_publishable scope'
              \<and> sv_ingest_denied sv' (t_org_id t) (length (batch_recs sv' b)) = None \<and> \<not> sv_fails sv' ''ingest_batch''
              \<longrightarrow> fst (post_events sv' auth' scope' hs' b c) = Inr repeated_answer))"
proof (intro conjI allI impI; (elim conjE)?)
  obtain d where "accept_batch sv t b d = (Inr resp, a')"
    using assms(2,3) by (auto simp: post_events_def andthen_def done_with_def stop_def split: sum.splits prod.splits)
  then show "(eb_app_id b, eb_batch_id b) \<in> batch_keys t a'" by (rule accepted_recorded [OF assms(1)])
next
  fix sv' auth' scope' hs' c c1
  assume t: "tenant_for sv' auth' hs' (eb_app_id b) c = (Inr t, c1)" and key: "(eb_app_id b, eb_batch_id b) \<in> batch_keys t c"
  have data: "app_tenants c1 = app_tenants c" using tenant_for_data [of sv' auth' hs' "eb_app_id b" c] t by simp
  then have "(eb_app_id b, eb_batch_id b) \<in> batch_keys t c1" using key by (simp add: batch_keys_def)
  from accept_repeated [OF assms(1) this, of sv'] obtain e where acc: "accept_batch sv' t b c1 =
      (if sv_ingest_denied sv' (t_org_id t) (length (batch_recs sv' b)) = None \<and> \<not> sv_fails sv' ''ingest_batch''
       then Inr repeated_answer else Inl e, c1)" by blast
  show "app_tenants (snd (post_events sv' auth' scope' hs' b c)) = app_tenants c"
    using t data acc by (auto simp: post_events_def andthen_def done_with_def stop_def check_pin_def tlook_def need_def require_def
        split: sum.splits option.splits)
  assume "batch_validate (sv_graph sv') b = Inr ()" "\<not> ks_publishable scope'"
    "sv_ingest_denied sv' (t_org_id t) (length (batch_recs sv' b)) = None" "\<not> sv_fails sv' ''ingest_batch''"
  then show "fst (post_events sv' auth' scope' hs' b c) = Inr repeated_answer"
    using t acc by (simp add: post_events_def andthen_def done_with_def check_pin_def)
qed

section \<open>Publishable keys\<close>

definition other_errors :: "string \<Rightarrow> Tenant \<Rightarrow> app \<Rightarrow> error_row list" where
  "other_errors app_id t a = filter (\<lambda>e. el_app_id e \<noteq> app_id) (errors (td_telemetry (app_tenants a (t_store t))))"

lemma accept_confined:
  assumes "accept_batch sv t b a = (r, c)"
  shows "other_errors (eb_app_id b) t c = other_errors (eb_app_id b) t a \<and> (\<forall>s. s \<noteq> t_store t \<longrightarrow> app_tenants c s = app_tenants a s)"
  using assms
proof (cases rule: accepted_cases)
  case (stored resp d)
  then obtain db where i: "ingest_batch (sv_lib sv) (sv_now sv) (eb_app_id b) (batch_edges sv b) (batch_recs sv b) (eb_evidence b)
      (eb_batch_id b) (Option.bind (eb_deployment b) deployment_key) (td_telemetry (app_tenants a (t_store t))) = Some (False, db)"
    and d: "d = a\<lparr>app_tenants := (app_tenants a)(t_store t := (app_tenants a (t_store t))\<lparr>td_telemetry := db\<rparr>)\<rparr>"
    using persist_stored by blast
  have "filter (\<lambda>e. el_app_id e \<noteq> eb_app_id b) (errors db)
      = filter (\<lambda>e. el_app_id e \<noteq> eb_app_id b) (errors (td_telemetry (app_tenants a (t_store t))))"
  proof (cases "batch_edges sv b = [] \<and> batch_recs sv b = [] \<and> eb_evidence b = []")
    case True
    then show ?thesis using i by (simp add: ingest_batch_def)
  next
    case False
    then show ?thesis using ingest_batch_log [OF i False]
      by (auto simp: filter_empty_conv dest: insert_errors_fields)
  qed
  moreover have "errors (td_telemetry (app_tenants c (t_store t))) = errors db"
    using drain_keeps_log(1) [of sv t d] stored(3) by (simp add: log_view_def d Let_def)
  ultimately show ?thesis using drain_keeps_log(2) [of _ t sv d] stored(3) by (simp add: other_errors_def d)
qed simp_all

text \<open>C20. A publishable key, which any visitor of a page can read, writes to its own project only: when a
  request with one changes any stored data, the posted application is the project the key was minted
  for, the data of every other tenant is as it was, and so are the error rows of every other project of
  the organization.
\<close>
theorem publishable_pinned:
  assumes "ks_publishable scope" "app_tenants (snd (respond (post_events sv auth scope hs b) a)) \<noteq> app_tenants a"
  shows "\<exists>t. ks_project_id scope \<noteq> None
    \<and> project_id_for_app (eb_app_id b) (app_tenants a (t_store t)) = ks_project_id scope
    \<and> other_errors (eb_app_id b) t (snd (respond (post_events sv auth scope hs b) a)) = other_errors (eb_app_id b) t a
    \<and> (\<forall>s. s \<noteq> t_store t \<longrightarrow> app_tenants (snd (respond (post_events sv auth scope hs b) a)) s = app_tenants a s)"
proof -
  obtain r c where t: "tenant_for sv auth hs (eb_app_id b) a = (r, c)" by (rule prod.exhaust)
  then have data: "app_tenants c = app_tenants a" using tenant_for_data [of sv auth hs "eb_app_id b" a] by simp
  show ?thesis
  proof (cases "batch_validate (sv_graph sv) b")
    case (Inr u)
    show ?thesis
    proof (cases r)
      case (Inr ten)
      obtain r' c' where acc: "accept_batch sv ten b c = (r', c')" by (rule prod.exhaust)
      let ?p = "project_id_for_app (eb_app_id b) (app_tenants c (t_store ten))"
      have run: "snd (respond (post_events sv auth scope hs b) a) = (if \<not> sv_fails sv ''project_id_for_app''
          \<and> ks_project_id scope \<noteq> None \<and> ?p = ks_project_id scope then c' else c)"
        using \<open>batch_validate (sv_graph sv) b = Inr u\<close> t Inr assms(1) acc
        by (auto simp: post_events_def respond_final check_pin_def andthen_def done_with_def tlook_def need_def require_def stop_def)
      with assms(2) data have "ks_project_id scope \<noteq> None" "?p = ks_project_id scope"
          "snd (respond (post_events sv auth scope hs b) a) = c'"
        by (auto split: if_splits)
      then show ?thesis using accept_confined [OF acc] data by (intro exI [of _ ten]) (simp add: other_errors_def)
    qed (use assms(2) t data \<open>batch_validate (sv_graph sv) b = Inr u\<close> in \<open>simp add: post_events_def respond_final andthen_def done_with_def\<close>)
  qed (use assms(2) in \<open>simp add: post_events_def respond_final andthen_def stop_def\<close>)
qed

section \<open>The usage graph\<close>

text \<open>The key under which an edge is counted gives back its ends and its action, when none has a bar in it.\<close>
lemma edge_ends_roundtrip:
  assumes "CHR ''|'' \<notin> set f" "CHR ''|'' \<notin> set act" "CHR ''|'' \<notin> set to_sig"
  shows "edge_ends (edge_key f act to_sig) = (f, act, to_sig)"
proof -
  have "split_all CHR ''|'' to_sig = [to_sig]"
    using assms(3) split_all.simps [of "CHR ''|''" to_sig] by (simp add: split_once_None)
  then have "split_all CHR ''|'' (edge_key f act to_sig) = [f, act, to_sig]"
    using split_all_step [OF assms(1), of "act @ CHR ''|'' # to_sig"] split_all_step [OF assms(2), of to_sig]
    by (simp add: edge_key_def)
  then show ?thesis by (simp add: edge_ends_def Let_def nth_part_def)
qed

section \<open>Witnesses\<close>

text \<open>A batch with one edge for the sample application, and the key of its page.\<close>

definition edge_batch :: EventBatch where
  "edge_batch = \<lparr>eb_version = 1, eb_batch_id = ''b1'', eb_app_id = ''app'', eb_deployment = None,
     eb_frames = [\<lparr>ef_run_id = ''run-1'', ef_sequence = 7, ef_scope = Shared, ef_event = EGraphEdge ''a'' ''tap'' ''b''\<rparr>],
     eb_evidence = []\<rparr>"

definition page_key :: KeyScope where
  "page_key = \<lparr>ks_project_id = Some 1, ks_user_id = Some 1, ks_publishable = True\<rparr>"

definition ingest_tenant :: Tenant where
  "ingest_tenant = \<lparr>t_org_id = 1, t_store = ''new'', t_blob_scope = ''t/1''\<rparr>"

definition no_headers :: headers where
  "no_headers = \<lparr>hd_cookie = None, hd_authorization = None, hd_tenant = None\<rparr>"

lemma sample_batch_content: "has_content edge_batch"
  by code_simp

lemma sample_batch_valid: "batch_validate (sv_graph sample_env) edge_batch = Ok ()"
proof -
  have "token_ok ''b1''" "token_ok ''app''" "token_ok ''run-1''"
    by (simp_all add: token_ok_def token_byte_def ascii_simps MAX_TOKEN_BYTES_def)
  then have "batch_ok sample_serde_graph edge_batch"
    by (simp add: batch_ok_def edge_batch_def VERSION_def MAX_BATCH_FRAMES_def MAX_BATCH_GRAPHS_def frame_ok_def
        MAX_TEXT_BYTES_def MAX_FRAME_BYTES_def sample_serde_graph_def sample_serde_def scope_validate_def)
  then show ?thesis by (simp add: sample_env_def batch_val.accepts_iff)
qed

lemma sample_batch_accepted:
  "map_prod (map_sum ht_status ht_status) (batch_keys ingest_tenant) (accept_batch sample_env ingest_tenant edge_batch sample_app)
    = (Inr 200, {(''app'', ''b1'')})"
  by code_simp

lemma sample_batch_fresh: "batch_keys ingest_tenant sample_app = {}"
  by code_simp

lemma sample_batch_posted:
  "batch_keys ingest_tenant (snd (respond (post_events sample_env (Org 1) page_key no_headers edge_batch) sample_app)) = {(''app'', ''b1'')}"
proof -
  have "batch_keys ingest_tenant (snd (respond (andthen (tenant_for sample_env (Org 1) no_headers ''app'') (\<lambda>t.
      andthen (check_pin sample_env t page_key ''app'') (\<lambda>_. accept_batch sample_env t edge_batch))) sample_app)) = {(''app'', ''b1'')}"
    by code_simp
  moreover have "eb_app_id edge_batch = ''app''" by (simp add: edge_batch_def)
  moreover have "respond (andthen (done_with ()) f) sample_app = respond (f ()) sample_app" for f :: "unit \<Rightarrow> response action"
    by (simp add: respond_def andthen_done)
  ultimately show ?thesis by (simp only: post_events_def sample_batch_valid sum.case)
qed

text \<open>The key of the server, and what it posts twice.\<close>

definition server_key :: KeyScope where
  "server_key = \<lparr>ks_project_id = None, ks_user_id = Some 1, ks_publishable = False\<rparr>"

definition posted :: app where
  "posted = snd (post_events sample_env (Org 1) server_key no_headers edge_batch sample_app)"

definition post_valid :: "response action" where
  "post_valid = andthen (tenant_for sample_env (Org 1) no_headers ''app'') (\<lambda>t.
     andthen (check_pin sample_env t server_key ''app'') (\<lambda>_. accept_batch sample_env t edge_batch))"

lemma post_valid: "post_events sample_env (Org 1) server_key no_headers edge_batch = post_valid"
proof -
  have "eb_app_id edge_batch = ''app''" by (simp add: edge_batch_def)
  moreover have "andthen (done_with ()) f = f ()" for f :: "unit \<Rightarrow> response action"
    by (simp add: fun_eq_iff andthen_done)
  ultimately show ?thesis by (simp only: post_events_def sample_batch_valid sum.case post_valid_def)
qed

lemma posted_tenant:
  "fst (tenant_for sample_env (Org 1) no_headers ''app'' sample_app) = Inr \<lparr>t_org_id = 1, t_store = ''new'', t_blob_scope = ''t/1''\<rparr>"
  "map_sum ht_status ht_status (fst (post_valid sample_app)) = Inr 200"
  "fst (tenant_for sample_env (Org 1) no_headers ''app'' (snd (post_valid sample_app))) = Inr \<lparr>t_org_id = 1, t_store = ''new'', t_blob_scope = ''t/1''\<rparr>"
  by code_simp+

theorem batch_counted_once_witness:
  "(''app'', ''b1'') \<in> batch_keys ingest_tenant posted
    \<and> app_tenants (snd (post_events sample_env (Org 1) server_key no_headers edge_batch posted)) = app_tenants posted
    \<and> fst (post_events sample_env (Org 1) server_key no_headers edge_batch posted) = Inr repeated_answer"
proof -
  have app: "eb_app_id edge_batch = ''app''" "eb_batch_id edge_batch = ''b1''" by (simp_all add: edge_batch_def)
  obtain a1 where first: "tenant_for sample_env (Org 1) no_headers (eb_app_id edge_batch) sample_app = (Inr ingest_tenant, a1)"
    using posted_tenant(1) unfolding app ingest_tenant_def by (metis prod.collapse)
  obtain c1 where again: "tenant_for sample_env (Org 1) no_headers (eb_app_id edge_batch) posted = (Inr ingest_tenant, c1)"
    using posted_tenant(3) unfolding app ingest_tenant_def posted_def post_valid by (metis prod.collapse)
  obtain resp where post: "post_events sample_env (Org 1) server_key no_headers edge_batch sample_app = (Inr resp, posted)"
    using posted_tenant(2) unfolding posted_def post_valid by (cases "post_valid sample_app"; cases "fst (post_valid sample_app)") auto
  note once = batch_counted_once [OF sample_batch_content first post]
  show ?thesis
    using once [THEN conjunct1] once [THEN conjunct2, rule_format, OF conjI [OF again], of] sample_batch_valid
    by (auto simp: app server_key_def sample_env_def)
qed

theorem publishable_pinned_witness:
  "\<exists>t :: Tenant. project_id_for_app ''app'' (app_tenants sample_app (t_store t)) = Some 1"
proof -
  have ne: "app_tenants (snd (respond (post_events sample_env (Org 1) page_key no_headers edge_batch) sample_app)) \<noteq> app_tenants sample_app"
    using sample_batch_posted sample_batch_fresh by (auto simp: batch_keys_def)
  have "ks_publishable page_key" by (simp add: page_key_def)
  from publishable_pinned [OF this ne]
  have "\<exists>t :: Tenant. project_id_for_app (eb_app_id edge_batch) (app_tenants sample_app (t_store t)) = ks_project_id page_key"
    by (rule ex_forward) (elim conjE)
  then show ?thesis by (simp add: page_key_def edge_batch_def)
qed

end
