(* ===== verification/Replay_Laws.thy ===== *)
theory Replay_Laws
  imports Replay_Package Ingest_Laws
begin

text \<open>
  What replays may do: a dispatched run and the answer to the request that asked for it agree with the
  stored run, and the report of a verdict never closes or reopens a ticket.
\<close>

section \<open>Dispatching a run\<close>

definition runs_of :: "Tenant \<Rightarrow> app \<Rightarrow> cloud_run_row list" where
  "runs_of t a = cloud_runs (td_telemetry (app_tenants a (t_store t)))"

definition next_run :: "Tenant \<Rightarrow> app \<Rightarrow> int" where
  "next_run t a = td_next_cloud_run_id (app_tenants a (t_store t))"

definition dispatched_run :: "env \<Rightarrow> AuthCtx \<Rightarrow> string \<Rightarrow> string \<Rightarrow> int \<Rightarrow> cloud_run_row" where
  "dispatched_run sv auth app_id bucket i = \<lparr>cl_id = i, cl_app_id = app_id, cl_bucket_id = bucket, cl_status = ''dispatched'',
     cl_requested_by = requester auth, cl_dispatched_at = sv_now sv, cl_completed_at = None\<rparr>"

definition run_payload :: "string \<Rightarrow> string \<Rightarrow> int \<Rightarrow> json" where
  "run_payload app_id bucket i = JObj [(''app'', JStr app_id), (''bucket'', JStr bucket), (''runId'', jint i)]"

text \<open>The calls and the runs, one outcome of the request after the other.\<close>

definition nothing_sent :: "Tenant \<Rightarrow> app \<Rightarrow> response \<Rightarrow> app \<Rightarrow> bool" where
  "nothing_sent t a resp b \<longleftrightarrow> ht_status resp \<notin> {200, 502} \<and> app_calls b = app_calls a \<and> runs_of t b = runs_of t a"

text \<open>The repository and the decrypted token of the integration of the application.\<close>

definition dispatch_target :: "env \<Rightarrow> string \<Rightarrow> Tenant \<Rightarrow> app \<Rightarrow> (string \<times> string) option" where
  "dispatch_target sv app_id t a =
     Option.bind (integration_for app_id (app_tenants a (t_store t))) (\<lambda>i.
       Option.bind (in_dispatch_repo i) (\<lambda>repo.
       Option.bind (in_dispatch_token_enc i) (\<lambda>token_enc. map_option (Pair repo) (sv_decrypt sv token_enc))))"

definition run_sent :: "env \<Rightarrow> AuthCtx \<Rightarrow> string \<Rightarrow> string \<Rightarrow> Tenant \<Rightarrow> app \<Rightarrow> response \<Rightarrow> app \<Rightarrow> bool" where
  "run_sent sv auth app_id bucket t a resp b \<longleftrightarrow> ht_status resp = 200
     \<and> jfield (ht_body resp) ''runId'' = Some (jint (next_run t a))
     \<and> (\<exists>repo token answer. dispatch_target sv app_id t a = Some (repo, token) \<and> plain_answer answer \<noteq> None
          \<and> app_calls b = app_calls a @ [(dispatch_call repo token (run_payload app_id bucket (next_run t a)), answer)])
     \<and> runs_of t b = runs_of t a @ [dispatched_run sv auth app_id bucket (next_run t a)]"

definition run_failed :: "env \<Rightarrow> AuthCtx \<Rightarrow> string \<Rightarrow> string \<Rightarrow> Tenant \<Rightarrow> app \<Rightarrow> response \<Rightarrow> app \<Rightarrow> bool" where
  "run_failed sv auth app_id bucket t a resp b \<longleftrightarrow> ht_status resp = 502
     \<and> (\<exists>repo token answer. dispatch_target sv app_id t a = Some (repo, token) \<and> plain_answer answer = None
          \<and> app_calls b = app_calls a @ [(dispatch_call repo token (run_payload app_id bucket (next_run t a)), answer)])
     \<and> runs_of t b = runs_of t a @ [if sv_fails sv ''complete_cloud_run'' then dispatched_run sv auth app_id bucket (next_run t a)
          else (dispatched_run sv auth app_id bucket (next_run t a))\<lparr>cl_status := ''failed'', cl_completed_at := Some (sv_now sv)\<rparr>]"

lemma runs_closed:
  assumes "\<forall>r \<in> set rs. cl_id r < i" "cl_id r = i" "cl_app_id r = app_id" "cl_bucket_id r = bucket" "cl_status r = ''dispatched''"
  shows "update_where (\<lambda>r. (cl_id r = i \<and> cl_app_id r = app_id \<and> cl_bucket_id r = bucket) \<and> cl_status r = ''dispatched'') f (rs @ [r])
    = rs @ [f r]"
proof -
  have "update_where (\<lambda>r. (cl_id r = i \<and> cl_app_id r = app_id \<and> cl_bucket_id r = bucket) \<and> cl_status r = ''dispatched'') f rs = rs"
    using assms(1) by (intro update_where_none) auto
  then show ?thesis using assms(2-) by (simp add: update_where_def)
qed

text \<open>The state after the run is stored.\<close>

definition with_run :: "env \<Rightarrow> AuthCtx \<Rightarrow> string \<Rightarrow> string \<Rightarrow> Tenant \<Rightarrow> app \<Rightarrow> app" where
  "with_run sv auth app_id bucket t a = snd (tctl sv t ''create_cloud_run''
     (\<lambda>d. apfst Some (create_cloud_run (sv_now sv) app_id bucket (requester auth) d)) a)"

lemma with_run_facts:
  assumes "\<not> sv_fails sv ''create_cloud_run''"
  shows "tctl sv t ''create_cloud_run'' (\<lambda>d. apfst Some (create_cloud_run (sv_now sv) app_id bucket (requester auth) d)) a
      = (Inr (Some (next_run t a)), with_run sv auth app_id bucket t a)"
    and "app_calls (with_run sv auth app_id bucket t a) = app_calls a"
    and "runs_of t (with_run sv auth app_id bucket t a) = runs_of t a @ [dispatched_run sv auth app_id bucket (next_run t a)]"
  using assms
  by (simp_all add: with_run_def tctl_def create_cloud_run_def next_run_def runs_of_def dispatched_run_def Let_def)

lemma close_run_facts:
  shows "fst (close_run sv t i app_id bucket status a) = Inr ()"
    and "app_calls (snd (close_run sv t i app_id bucket status a)) = app_calls a"
    and "runs_of t (snd (close_run sv t i app_id bucket status a)) =
      (if sv_fails sv ''complete_cloud_run'' then runs_of t a
       else update_where (\<lambda>r. (cl_id r = i \<and> cl_app_id r = app_id \<and> cl_bucket_id r = bucket) \<and> cl_status r = ''dispatched'')
         (\<lambda>r. r\<lparr>cl_status := status, cl_completed_at := Some (sv_now sv)\<rparr>) (runs_of t a))"
  by (simp_all add: close_run_def tctl_def action_defs complete_cloud_run_def close_runs_def runs_of_def Let_def split: prod.split)

text \<open>C28. A request for a hosted run, in a tenant whose run ids are below their sequence, ends in one of three ways.
  It is answered (with 200, where the comment of the handler says 202) with the id of a run, exactly one
  dispatch with that id went to the repository of the application's integration under its decrypted token and
  was accepted, and the run is stored as dispatched; or it is answered with 502, exactly one such dispatch
  went out and was refused or lost, and the run is stored as failed, unless that very write fails; or nothing
  went out and no run is stored.
\<close>

theorem reproduce_settles:
  assumes "tenant_for sv auth hs app_id a0 = (Inr t, a)" "\<forall>r \<in> set (runs_of t a). cl_id r < next_run t a"
    and "respond (post_reproduce sv auth hs app_id bucket) a0 = (resp, b)"
  shows "nothing_sent t a resp b \<or> run_sent sv auth app_id bucket t a resp b \<or> run_failed sv auth app_id bucket t a resp b"
proof -
  let ?row = "integration_for app_id (app_tenants a (t_store t))"
  let ?target = "Option.bind ?row (\<lambda>i. Option.bind (in_dispatch_repo i) (\<lambda>repo. map_option (Pair repo) (in_dispatch_token_enc i)))"
  note run = assms(3) [unfolded post_reproduce_def respond_def andthen_def assms(1) Let_def, simplified]
  show ?thesis
  proof (cases "sv_fails sv ''integration_for'' \<or> ?target = None \<or> sv_fails sv ''create_cloud_run''
      \<or> sv_decrypt sv (snd (the ?target)) = None")
    case True
    then have "nothing_sent t a resp b"
      using run by (auto simp: nothing_sent_def tlook_def need_def done_with_def stop_def tctl_def server_error_def err_def reply_def
        split: option.splits prod.splits if_splits)
    then show ?thesis ..
  next
    case False
    then obtain repo token_enc token where target: "?target = Some (repo, token_enc)" and tok: "sv_decrypt sv token_enc = Some token"
      and ok: "\<not> sv_fails sv ''create_cloud_run''" "\<not> sv_fails sv ''integration_for''" by auto
    note facts = with_run_facts [OF ok(1), where t = t and app_id = app_id and bucket = bucket and auth = auth and a = a]
    have to: "dispatch_target sv app_id t a = Some (repo, token)"
      using target tok by (auto simp: dispatch_target_def split: Option.bind_splits)
    let ?run = "with_run sv auth app_id bucket t a" and ?call = "dispatch_call repo token (run_payload app_id bucket (next_run t a))"
    let ?sent = "?run\<lparr>app_calls := app_calls a @ [(?call, sv_http sv ?call)]\<rparr>"
    have sent: "repository_dispatch sv repo token (run_payload app_id bucket (next_run t a)) ?run = (Inr (plain_answer (sv_http sv ?call)), ?sent)"
      by (simp add: repository_dispatch_def send_call_def andthen_def done_with_def facts(2))
    have runs: "runs_of t ?sent = runs_of t a @ [dispatched_run sv auth app_id bucket (next_run t a)]"
      using facts(3) by (simp add: runs_of_def)
    show ?thesis
    proof (cases "plain_answer (sv_http sv ?call)")
      case None
      then have "resp = reply 502 (JObj [(''error'', JStr ''repository_dispatch failed; check the dispatch repo/token''), (''runId'', jint (next_run t a))])"
        "b = snd (close_run sv t (next_run t a) app_id bucket ''failed'' ?sent)"
        using run sent target tok ok facts(1) close_run_facts(1) [of sv t "next_run t a" app_id bucket "''failed''" ?sent]
        by (auto simp: run_payload_def tlook_def need_def done_with_def stop_def split: prod.splits)
      moreover have "update_where (\<lambda>r. (cl_id r = next_run t a \<and> cl_app_id r = app_id \<and> cl_bucket_id r = bucket) \<and> cl_status r = ''dispatched'')
          f (runs_of t a @ [dispatched_run sv auth app_id bucket (next_run t a)])
        = runs_of t a @ [f (dispatched_run sv auth app_id bucket (next_run t a))]" for f
        by (rule runs_closed [OF assms(2)]) (simp_all add: dispatched_run_def)
      ultimately have "run_failed sv auth app_id bucket t a resp b"
        unfolding run_failed_def using None to by (auto simp: reply_def close_run_facts(2,3) runs)
      then show ?thesis by blast
    next
      case (Some u)
      then have "resp = reply 200 (JObj [(''ok'', JBool True), (''runId'', jint (next_run t a)), (''status'', JStr ''dispatched'')])"
        "app_calls b = app_calls ?sent" "runs_of t b = runs_of t ?sent"
        using run sent target tok ok facts(1)
        by (auto simp: run_payload_def tlook_def need_def done_with_def stop_def audit_def ctl_def andthen_def effect_def runs_of_def split: prod.splits if_splits)
      then have "run_sent sv auth app_id bucket t a resp b"
        using Some to runs by (auto simp: run_sent_def reply_def jfield_def)
      then show ?thesis by blast
    qed
  qed
qed

section \<open>Reporting a verdict\<close>

text \<open>The calls a report may make: filing an issue and writing a comment.\<close>

definition files_or_comments :: "http_call \<Rightarrow> bool" where
  "files_or_comments c \<longleftrightarrow> (\<exists>t title body. c = create_call t title body) \<or> (\<exists>t i body. c = comment_call t i body)"

definition changes_state :: "http_call \<Rightarrow> bool" where
  "changes_state c \<longleftrightarrow> (\<exists>t i. close_call t i = Some c) \<or> (\<exists>t i state. c = github_state t i state)"

lemmas call_shapes = call_def github_create_def github_comment_def github_state_def jira_create_def jira_comment_def jira_close_def
  gql_call_def linear_create_def linear_comment_def linear_close_def shortcut_create_def shortcut_comment_def shortcut_close_def

text \<open>The body of a call tells what it does, whatever tracker it goes to.\<close>

lemma no_state_change: "files_or_comments c \<Longrightarrow> \<not> changes_state c"
proof -
  have "close_call t' i' \<noteq> Some (create_call t x y)" "close_call t' i' \<noteq> Some (comment_call t x y)" for t t' i' x y
    by (cases t; cases t'; auto simp: call_shapes)+
  moreover have "create_call t x y \<noteq> github_state g n s" "comment_call t x y \<noteq> github_state g n s" for t x y g n s
    by (cases t; simp add: call_shapes)+
  ultimately show "files_or_comments c \<Longrightarrow> \<not> changes_state c"
    unfolding files_or_comments_def changes_state_def by metis
qed

definition quiet_calls :: "app \<Rightarrow> app \<Rightarrow> bool" where
  "quiet_calls a b \<longleftrightarrow> (\<exists>cs. app_calls b = app_calls a @ cs \<and> (\<forall>c \<in> set cs. files_or_comments (fst c)))"

interpretation quiet: request_frame quiet_calls
proof
  show "quiet_calls a a" for a by (simp add: quiet_calls_def)
  show "quiet_calls a c" if "quiet_calls a b" "quiet_calls b c" for a b c using that by (force simp: quiet_calls_def)
qed

lemma quiet_same_calls: "(\<And>a. app_calls (snd (m a)) = app_calls a) \<Longrightarrow> quiet.safe m"
  by (simp add: quiet.safe_def quiet_calls_def)

lemma quiet_store: "quiet.safe (tctl sv t m op)" "quiet.safe (tenancy_resolve sv i)"
  by (rule quiet_same_calls; auto simp: tctl_def tenancy_resolve_def split: prod.split)+

lemma quiet_call: "files_or_comments c \<Longrightarrow> quiet.safe (send_call sv c)"
  by (simp add: quiet.safe_def quiet_calls_def send_call_def)

lemma quiet_issue:
  "quiet.safe (create_issue sv c title body)" "quiet.safe (comment_issue sv c i body)"
proof -
  have "files_or_comments (create_call c title body)" "files_or_comments (comment_call c i body)"
    unfolding files_or_comments_def by blast+
  then show "quiet.safe (create_issue sv c title body)" "quiet.safe (comment_issue sv c i body)"
    unfolding create_issue_def comment_issue_def by (auto intro: quiet_call)
qed

lemmas quiet_calls_intros = quiet.safe_andthen quiet.safe_require quiet.safe_need quiet.safe_look quiet.safe_tlook quiet.safe_done
  quiet.safe_stop quiet.safe_if quiet.safe_option quiet.safe_prod quiet.safe_sum quiet_store quiet_issue

lemma quiet_tracker:
  "quiet.safe (is_configured_for sv t app_id)" "quiet.safe (linked sv t app_id bucket)"
  unfolding is_configured_for_def linked_def resolve_for_def by (intro quiet_calls_intros)+

lemma quiet_hooks:
  "quiet.safe (file_issue_for_bucket sv t app_id bucket oldest newest)" "quiet.safe (comment_ticket_fix_verified sv t app_id bucket build)"
  unfolding file_issue_for_bucket_def comment_ticket_fix_verified_def resolve_for_def save_link_def
  by (intro quiet_calls_intros quiet_tracker)+

lemma quiet_tenant: "quiet.safe (tenant_for sv auth hs app_id)"
  unfolding tenant_for_def tenant_of_def by (cases auth) (auto intro!: quiet_calls_intros split: ResolveError.split)

text \<open>C40. Reporting a verdict never closes or reopens a ticket, whatever the verdict is: all calls of the request
  to a tracker file an issue or write a comment. Tickets are closed by the sweep, on evidence from
  production.
\<close>

theorem verdict_closes_nothing:
  "\<exists>cs. app_calls (snd (respond (post_replay_results sv auth hs app_id bucket body) a)) = app_calls a @ cs
    \<and> list_all (\<lambda>c. files_or_comments (fst c) \<and> \<not> changes_state (fst c)) cs"
proof -
  have "quiet.safe (post_replay_results sv auth hs app_id bucket body)"
    unfolding post_replay_results_def record_attempt_def file_confirmed_capture_def fix_is_new_def anchor_fix_def close_run_def
      bucket_rows_def Let_def
    by (intro quiet_calls_intros quiet_tracker quiet_hooks quiet_tenant)
  then have "quiet_calls a (snd (respond (post_replay_results sv auth hs app_id bucket body) a))" by (rule quiet.respond_safe)
  then show ?thesis unfolding quiet_calls_def list_all_iff using no_state_change by blast
qed

section \<open>Witness\<close>

definition dispatch_env :: env where "dispatch_env = sample_env\<lparr>sv_http := (\<lambda>_. Some (204, None))\<rparr>"

definition dispatch_app :: app where
  "dispatch_app = sample_app\<lparr>app_tenants := (\<lambda>_. sample_tenant\<lparr>
     td_integrations := [(''app'', no_integration\<lparr>in_dispatch_repo := Some ''o/r'', in_dispatch_token_enc := Some ''t''\<rparr>)]\<rparr>)\<rparr>"

definition dispatch_start :: app where "dispatch_start = snd (tenant_for dispatch_env (Org 1) no_headers ''app'' dispatch_app)"

lemma dispatch_tenant: "tenant_for dispatch_env (Org 1) no_headers ''app'' dispatch_app = (Inr ingest_tenant, dispatch_start)"
proof -
  have "fst (tenant_for dispatch_env (Org 1) no_headers ''app'' dispatch_app) = Inr ingest_tenant" by code_simp
  then show ?thesis by (simp add: dispatch_start_def prod_eq_iff)
qed

theorem reproduce_settles_witness:
  "run_sent dispatch_env (Org 1) ''app'' ''b'' ingest_tenant dispatch_start
     (fst (respond (post_reproduce dispatch_env (Org 1) no_headers ''app'' ''b'') dispatch_app))
     (snd (respond (post_reproduce dispatch_env (Org 1) no_headers ''app'' ''b'') dispatch_app))"
proof -
  have runs: "runs_of ingest_tenant dispatch_start = []" by code_simp
  have "ht_status (fst (respond (post_reproduce dispatch_env (Org 1) no_headers ''app'' ''b'') dispatch_app)) = 200" by code_simp
  with reproduce_settles [OF dispatch_tenant _ prod.collapse [symmetric], of "''b''"] runs show ?thesis
    by (simp add: nothing_sent_def run_failed_def)
qed

end
