(* ===== verification/Dashboard.thy ===== *)
theory Dashboard
  imports Replay_Package
begin

text \<open>
  The dashboard requests of \<open>src/triage/mod.rs\<close>: the two ways to be authorized for the data of an
  application, reading and setting the triage of a bucket, its detail and its time series, the feed of
  transitions and the removal of the onboarding sample. The request headers a handler reads beside the
  credentials are arguments.
\<close>

section \<open>Authorization\<close>

datatype BearerVerdict = Bearer_Admin | Bearer_Org int | Bearer_Deny

fun bearer_decision :: "bool \<Rightarrow> (int \<times> bool) option \<Rightarrow> BearerVerdict" where
  "bearer_decision True _ = Bearer_Admin"
| "bearer_decision False (Some (org_id, True)) = Bearer_Org org_id"
| "bearer_decision False _ = Bearer_Deny"

definition dashboard_bearer :: "headers \<Rightarrow> string option" where
  "dashboard_bearer hs = Option.bind (Option.bind (hd_authorization hs) id) (\<lambda>h. strip_prefix h ''Bearer '')"

definition header_target :: "headers \<Rightarrow> int option" where
  "header_target hs = (case admin_target_result hs of Inr i \<Rightarrow> Some i | Inl _ \<Rightarrow> None)"

text \<open>\<open>ok()\<close>: the refusal of the call is dropped.\<close>

definition tried :: "'a action \<Rightarrow> 'a option action" where
  "tried m a = (case m a of (Inl _, b) \<Rightarrow> (Ok None, b) | (Inr x, b) \<Rightarrow> (Ok (Some x), b))"

definition owning_tenant :: "env \<Rightarrow> int \<Rightarrow> string \<Rightarrow> (Tenant \<times> int) action" where
  "owning_tenant sv org_id app_id =
     andthen (tenancy_resolve sv org_id) (\<lambda>r.
     case r of
       Inl _ \<Rightarrow> stop not_found
     | Inr t \<Rightarrow>
         andthen (tlook sv t ''owns_app'' (owns_app app_id)) (\<lambda>r.
         andthen (require (r = Some True) not_found) (\<lambda>_. done_with (t, org_id))))"

definition seat_required :: response where
  "seat_required = err 402 ''a dashboard seat is required (the CLI stays free); ask an owner to assign you one''"

definition seated_tenant :: "env \<Rightarrow> headers \<Rightarrow> string \<Rightarrow> (Tenant \<times> int) action" where
  "seated_tenant sv hs app_id =
     andthen (current_user sv (hd_cookie hs)) (\<lambda>user.
     andthen (case user of Some _ \<Rightarrow> tried (user_and_org sv (hd_cookie hs)) | None \<Rightarrow> done_with None) (\<lambda>pair.
     let org = map_option snd pair
     in andthen (case (user, org) of
           (Some u, Some g) \<Rightarrow> andthen (look sv ''has_seat'' (has_seat (o_id g) (u_id u))) (\<lambda>r. done_with (r = Some True))
         | _ \<Rightarrow> done_with False) (\<lambda>seat.
        case seat_decision (user \<noteq> None) seat of
          NotSignedIn \<Rightarrow> stop (err 401 ''not signed in'')
        | NoSeat \<Rightarrow> stop seat_required
        | Allow \<Rightarrow> (case (user, org) of
            (Some _, Some g) \<Rightarrow> owning_tenant sv (o_id g) app_id
          | _ \<Rightarrow> stop (err 401 ''not signed in'')))))"

definition authorized_tenant :: "env \<Rightarrow> headers \<Rightarrow> string \<Rightarrow> (Tenant \<times> int) action" where
  "authorized_tenant sv hs app_id =
     (case dashboard_bearer hs of
        None \<Rightarrow> seated_tenant sv hs app_id
      | Some token \<Rightarrow>
          if (case shared_key sv of Some s \<Rightarrow> ct_eq s token | None \<Rightarrow> False) then
            (case header_target hs of
               Some org_id \<Rightarrow> owning_tenant sv org_id app_id
             | None \<Rightarrow> stop (err 400 ''admin requests must name a tenant via X-Reproit-Tenant''))
          else
            andthen (look sv ''org_for_api_key'' (org_for_api_key (sv_key_hash sv) (sv_now sv) token)) (\<lambda>r.
            case Option.bind r id of
              Some (org_id, _) \<Rightarrow> owning_tenant sv org_id app_id
            | None \<Rightarrow> seated_tenant sv hs app_id))"

section \<open>Triage\<close>

definition triage_json :: "env \<Rightarrow> triage_row \<Rightarrow> json" where
  "triage_json sv t = JObj [(''assignee'', jopt jint (tr_assignee t)), (''fixedInBuild'', jopt JStr (tr_fixed_in_build t)),
     (''status'', JStr (tr_status t)), (''updated_at'', JStr (sv_rfc3339 sv (tr_updated_at t)))]"

definition stored_triage :: "env \<Rightarrow> Tenant \<Rightarrow> string \<Rightarrow> string \<Rightarrow> triage_row option option action" where
  "stored_triage sv t app_id bucket =
     tlook sv t ''triage_for_bucket'' (\<lambda>d. triage_for_bucket app_id bucket (triage_of d))"

definition get_triage :: "env \<Rightarrow> headers \<Rightarrow> string \<Rightarrow> string \<Rightarrow> response action" where
  "get_triage sv hs app_id bucket =
     andthen (authorized_tenant sv hs app_id) (\<lambda>(t, _).
     andthen (stored_triage sv t app_id bucket) (\<lambda>r.
     andthen (need r server_error) (\<lambda>row.
     done_with (reply 200 (JObj [(''bucketId'', JStr bucket), (''triage'', case row of
         Some tr \<Rightarrow> triage_json sv tr
       | None \<Rightarrow> JObj [(''fixedInBuild'', JNull), (''status'', JStr (status_as_str Untriaged)), (''updatedAt'', JNull)])])))))"

definition bad_status :: response where
  "bad_status = err 400 ''status must be one of: untriaged, investigating, fixed, wontfix''"

definition current_status :: "triage_row option \<Rightarrow> Status" where
  "current_status row = (case Option.bind row (\<lambda>t. status_parse (tr_status t)) of Some s \<Rightarrow> s | None \<Rightarrow> Untriaged)"

definition fix_anchor :: "Status \<Rightarrow> string option \<Rightarrow> string option" where
  "fix_anchor next fixed_in_build =
     (if next = Fixed then (case fixed_in_build of Some b \<Rightarrow> if trim b \<noteq> [] then Some (trim b) else None | None \<Rightarrow> None) else None)"

definition set_triage :: "env \<Rightarrow> headers \<Rightarrow> string \<Rightarrow> string \<Rightarrow> string \<Rightarrow> string option \<Rightarrow> response action" where
  "set_triage sv hs app_id bucket status fixed_in_build =
     andthen (authorized_tenant sv hs app_id) (\<lambda>(t, _).
     andthen (need (status_parse status) bad_status) (\<lambda>to_status.
     andthen (stored_triage sv t app_id bucket) (\<lambda>r.
     andthen (need r server_error) (\<lambda>row.
     let next = apply_status (current_status row) to_status; anchor = fix_anchor next fixed_in_build
     in andthen (tctl sv t ''upsert_triage'' (\<lambda>d. (Some (), on_triage
          (upsert_triage (sv_now sv) app_id bucket (status_as_str next) None anchor) d))) (\<lambda>saved.
        andthen (need saved server_error) (\<lambda>_.
        done_with (reply 200 (JObj [(''bucketId'', JStr bucket),
          (''triage'', JObj [(''fixedInBuild'', jopt JStr anchor), (''status'', JStr (status_as_str next))])]))))))))"

section \<open>Detail\<close>

text \<open>A failed read of a stream is an empty stream.\<close>

definition dated :: "(int \<times> string \<times> ErrorRec) list \<Rightarrow> Occurrence list" where
  "dated rows = map (\<lambda>(_, ts, r). \<lparr>occ_at = ts, occ_build = build_version r\<rparr>) rows"

definition streams_of :: "env \<Rightarrow> telemetry_db \<Rightarrow> streams" where
  "streams_of sv db =
     \<lparr>streams.build_traffic = (\<lambda>a. if sv_fails sv ''build_traffic'' then []
         else map (\<lambda>(build, n, ts). (build, word_of_int n, ts)) (Telemetry.build_traffic (sv_rfc3339 sv) a db)),
      recent_stream = (\<lambda>a. if sv_fails sv ''recent_errors_with_meta'' then []
         else dated (recent_errors_with_meta (sv_rfc3339 sv) a (baseline_sample sv) db)),
      bucket_stream = (\<lambda>a b. if sv_fails sv ''errors_for_bucket'' then []
         else dated (errors_for_bucket (sv_rfc3339 sv) a b (baseline_sample sv) db))\<rparr>"

definition detail_outcome :: "env \<Rightarrow> view_lib \<Rightarrow> telemetry_db \<Rightarrow> string \<Rightarrow> string option \<Rightarrow> Occurrence list \<Rightarrow> Outcome" where
  "detail_outcome sv vl db app_id fixed bug =
     compute_resolution_for_occurrences (vl_epoch vl) (vl_epoch_text vl) (thresholds sv) (streams_of sv db) (now_text sv) app_id fixed bug"

definition compute_resolution :: "env \<Rightarrow> view_lib \<Rightarrow> telemetry_db \<Rightarrow> string \<Rightarrow> string \<Rightarrow> string option \<Rightarrow> Outcome" where
  "compute_resolution sv vl db app_id bucket fixed =
     detail_outcome sv vl db app_id fixed (bucket_stream (streams_of sv db) app_id bucket)"

definition all_sample :: "ErrorRec list \<Rightarrow> bool" where
  "all_sample rs \<longleftrightarrow> list_all (\<lambda>r. sample_kind r = Some NIMBUS_SAMPLE) rs"

definition bucket_detail :: "env \<Rightarrow> string \<Rightarrow> string \<Rightarrow> ErrorRec \<Rightarrow> ErrorRec \<Rightarrow> string option \<Rightarrow> nat \<Rightarrow> json list \<Rightarrow> json list \<Rightarrow> json
    \<Rightarrow> json option \<Rightarrow> triage_row option \<Rightarrow> Outcome \<Rightarrow> (string \<times> json) list" where
  "bucket_detail sv app_id bucket newest oldest sample n discs cohorts repro ticket triage outcome =
     [(''appId'', JStr app_id), (''bucketId'', JStr bucket), (''bugId'', JStr (bug_id (sv_lib sv) newest)),
      (''cohorts'', JArr cohorts), (''context'', JObj (er_context newest)), (''count'', jnat n),
      (''crashSig'', JStr (er_sig newest)), (''crashSummary'', JStr (crash_summary newest)), (''discriminators'', JArr discs),
      (''displayPath'', JArr (display_path newest)), (''findingIdentity'', identity_json sv newest),
      (''lineage'', lineage_json oldest newest), (''message'', JStr (er_message newest)),
      (''replay'', JArr (map JStr (replay_actions newest))), (''repro'', repro), (''reproduceCommand'', JStr (''reproit '' @ bucket)),
      (''resolution'', outcome_json outcome), (''sample'', jopt JStr sample), (''ticket'', jopt id ticket),
      (''triage'', JObj [(''fixedInBuild'', jopt JStr (Option.bind triage tr_fixed_in_build)),
         (''status'', JStr (case triage of Some t \<Rightarrow> tr_status t | None \<Rightarrow> status_as_str Untriaged)),
         (''updatedAt'', jopt (\<lambda>t. JStr (sv_rfc3339 sv (tr_updated_at t))) triage)])]"

definition timeline_json :: "string \<Rightarrow> string \<Rightarrow> int \<Rightarrow> Timeline \<Rightarrow> Outcome \<Rightarrow> json" where
  "timeline_json app_id bucket window ts outcome = JObj [(''appId'', JStr app_id), (''bucketId'', JStr bucket),
     (''resolution'', outcome_json outcome),
     (''series'', JArr (map (\<lambda>c. JObj [(''build'', JStr (tc_build c)), (''count'', jnat (unat (tc_count c))), (''window'', JStr (tc_window c))]) (tl_cells ts))),
     (''total'', JArr (map (\<lambda>c. JObj [(''count'', jnat (unat (tn_count c))), (''window'', JStr (tn_window c))]) (tl_total ts))),
     (''windowSecs'', jint window)]"

definition bucket_sample_rows :: "env \<Rightarrow> Tenant \<Rightarrow> string \<Rightarrow> string \<Rightarrow> (int \<times> string \<times> ErrorRec) list action" where
  "bucket_sample_rows sv t app_id bucket =
     andthen (tlook sv t ''errors_for_bucket''
       (\<lambda>d. errors_for_bucket (sv_rfc3339 sv) app_id bucket (baseline_sample sv) (td_telemetry d))) (\<lambda>r.
     andthen (need r server_error) (\<lambda>rows.
     if rows = [] then stop not_found else done_with rows))"

text \<open>\<open>ok().flatten()\<close> and \<open>unwrap_or_default\<close>.\<close>

definition quietly :: "'a \<Rightarrow> 'a option action \<Rightarrow> 'a action" where
  "quietly x m = andthen m (\<lambda>r. done_with (case r of Some v \<Rightarrow> v | None \<Rightarrow> x))"

definition the_data :: "Tenant \<Rightarrow> tenant_data action" where
  "the_data t a = (Ok (app_tenants a (t_store t)), a)"

definition detail_json :: "env \<Rightarrow> view_lib \<Rightarrow> Tenant \<Rightarrow> string \<Rightarrow> string \<Rightarrow> json action" where
  "detail_json sv vl t app_id bucket =
     andthen (bucket_sample_rows sv t app_id bucket) (\<lambda>rows.
     andthen (quietly [] (tlook sv t ''recent_errors_with_meta''
       (\<lambda>d. recent_errors_with_meta (sv_rfc3339 sv) app_id (baseline_sample sv) (td_telemetry d)))) (\<lambda>base.
     andthen (quietly [] (tlook sv t ''replay_results_for'' (\<lambda>d. replay_results_for app_id bucket (td_telemetry d)))) (\<lambda>results.
     andthen (quietly None (tlook sv t ''ticket_for_bucket'' (ticket_of app_id bucket))) (\<lambda>ticket.
     andthen (quietly None (stored_triage sv t app_id bucket)) (\<lambda>triage.
     andthen (the_data t) (\<lambda>d.
     let recs = map (\<lambda>(_, _, r). r) rows; cohort = map er_context recs; baseline = map (\<lambda>(_, _, r). er_context r) base;
         outcome = detail_outcome sv vl (td_telemetry d) app_id (Option.bind triage tr_fixed_in_build) (dated rows);
         ts = timeline (vl_epoch vl) (vl_epoch_text vl) (map (\<lambda>oc. (occ_at oc, occ_build oc)) (dated rows)) 300
     in done_with (JObj (bt_insert ''timeline'' (timeline_json app_id bucket 300 ts outcome)
          (bucket_detail sv app_id bucket (last recs) (hd recs) (if all_sample recs then Some NIMBUS_SAMPLE else None) (length rows)
            (discriminators (vl_text vl) (vl_float vl) cohort baseline) (cohort_breakdowns (vl_float vl) cohort baseline)
            (repro_status vl results) (map_option ticket_json ticket) triage outcome)))))))))"

definition etag :: "env \<Rightarrow> view_lib \<Rightarrow> json \<Rightarrow> string" where
  "etag sv vl v = quoted (sha256_hex (sv_lib sv) (vl_text vl v))"

definition get_bucket_detail :: "env \<Rightarrow> view_lib \<Rightarrow> headers \<Rightarrow> string option \<Rightarrow> string \<Rightarrow> string \<Rightarrow> response action" where
  "get_bucket_detail sv vl hs if_none_match app_id bucket =
     andthen (authorized_tenant sv hs app_id) (\<lambda>(t, _).
     andthen (detail_json sv vl t app_id bucket) (\<lambda>v.
     done_with (if if_none_match = Some (etag sv vl v) then reply 304 JNull else reply 200 v)))"

definition get_bucket_timeline :: "env \<Rightarrow> view_lib \<Rightarrow> headers \<Rightarrow> string \<Rightarrow> string \<Rightarrow> int option \<Rightarrow> response action" where
  "get_bucket_timeline sv vl hs app_id bucket window =
     andthen (authorized_tenant sv hs app_id) (\<lambda>(t, _).
     andthen (bucket_sample_rows sv t app_id bucket) (\<lambda>rows.
     andthen (quietly None (stored_triage sv t app_id bucket)) (\<lambda>triage.
     andthen (the_data t) (\<lambda>d.
     let secs = (case window of Some w \<Rightarrow> w | None \<Rightarrow> DEFAULT_TIMELINE_WINDOW_SECS);
         ts = timeline (vl_epoch vl) (vl_epoch_text vl) (map (\<lambda>oc. (occ_at oc, occ_build oc)) (dated rows)) secs
     in done_with (reply 200 (timeline_json app_id bucket secs ts
          (compute_resolution sv vl (td_telemetry d) app_id bucket (Option.bind triage tr_fixed_in_build))))))))"

section \<open>The other requests\<close>

definition get_dashboard_buckets :: "env \<Rightarrow> view_lib \<Rightarrow> headers \<Rightarrow> string \<Rightarrow> response action" where
  "get_dashboard_buckets sv vl hs app_id =
     andthen (authorized_tenant sv hs app_id) (\<lambda>(t, _).
     andthen (bucket_list_for_tenant sv vl t app_id) (\<lambda>r.
     andthen (need r server_error) (\<lambda>v. done_with (reply 200 v))))"

definition RECENT_EVENTS_LIMIT :: nat where "RECENT_EVENTS_LIMIT = 100"

text \<open>\<open>event_at\<close> is the instant of an event, a column that the table of the model leaves to the store.\<close>

definition event_json :: "(resolution_event \<Rightarrow> string) \<Rightarrow> resolution_event \<Rightarrow> json" where
  "event_json event_at e = JObj [(''at'', JStr (event_at e)), (''bucketId'', JStr (ev_bucket_id e)), (''build'', jopt JStr (ev_build e)),
     (''fromStatus'', jopt JStr (ev_from e)), (''toStatus'', JStr (ev_to e))]"

definition get_resolution_events :: "env \<Rightarrow> (resolution_event \<Rightarrow> string) \<Rightarrow> headers \<Rightarrow> string \<Rightarrow> response action" where
  "get_resolution_events sv event_at hs app_id =
     andthen (authorized_tenant sv hs app_id) (\<lambda>(t, _).
     andthen (tlook sv t ''recent_resolution_events'' (\<lambda>d. recent_resolution_events app_id RECENT_EVENTS_LIMIT (triage_of d))) (\<lambda>r.
     andthen (need r server_error) (\<lambda>es.
     done_with (reply 200 (JObj [(''appId'', JStr app_id), (''count'', jnat (length es)), (''events'', JArr (map (event_json event_at) es))])))))"

definition delete_blob :: "env \<Rightarrow> Tenant \<Rightarrow> string \<Rightarrow> unit action" where
  "delete_blob sv t key a =
     (Ok (), a\<lparr>app_files := snd (blob_delete (\<not> sv_fails sv (''delete:'' @ key)) (sv_blob_root sv) (t_blob_scope t) key (app_files a))\<rparr>)"

definition clear_sample :: "env \<Rightarrow> Tenant \<Rightarrow> string \<Rightarrow> string \<Rightarrow> response action" where
  "clear_sample sv t app_id bucket =
     andthen (tlook sv t ''errors_for_bucket''
       (\<lambda>d. errors_for_bucket (sv_rfc3339 sv) app_id bucket (length (errors (td_telemetry d))) (td_telemetry d))) (\<lambda>r.
     andthen (need r server_error) (\<lambda>rows.
     andthen (require (rows \<noteq> []) not_found) (\<lambda>_.
     andthen (require (all_sample (map (\<lambda>(_, _, x). x) rows)) (err 400 ''only NimbusShop sample data can be cleared here'')) (\<lambda>_.
     andthen (tctl sv t ''delete_sample_bucket_data'' (\<lambda>d.
       case delete_sample_bucket_data (sv_jsonb_text sv) app_id bucket (map fst rows) (td_telemetry d) of
         Some (res, db) \<Rightarrow> (Some res, d\<lparr>td_telemetry := db\<rparr>) | None \<Rightarrow> (None, d))) (\<lambda>r.
     andthen (need r server_error) (\<lambda>(deleted, keys).
     andthen (each_item (delete_blob sv t) keys) (\<lambda>_.
     done_with (reply 200 (JObj [(''cleared'', JBool True), (''occurrences'', jnat deleted), (''sample'', JStr NIMBUS_SAMPLE)])))))))))"

definition delete_sample_bucket :: "env \<Rightarrow> headers \<Rightarrow> string \<Rightarrow> string \<Rightarrow> response action" where
  "delete_sample_bucket sv hs app_id bucket =
     andthen (user_and_org sv (hd_cookie hs)) (\<lambda>(_, org).
     andthen (require (can_manage (o_role org)) (err 403 ''owner or admin required'')) (\<lambda>_.
     andthen (owning_tenant sv (o_id org) app_id) (\<lambda>(t, _).
     clear_sample sv t app_id bucket)))"

end
