(* ===== verification/Dashboard_Laws.thy ===== *)
theory Dashboard_Laws
  imports Dashboard Tenant_Frame Telemetry_Steps Sample_App
begin

text \<open>
  What holds of the dashboard requests: the gate implements the pure authorization rule, reading changes
  nothing, only the bundled sample can be cleared, and the verdict of the detail view no longer sees the
  occurrences of a bucket that has filled its sample.
\<close>

section \<open>The gate\<close>

text \<open>What the stores of the service answer in a state, as the directory of the pure rule.\<close>

definition resolved :: "env \<Rightarrow> app \<Rightarrow> int \<Rightarrow> Tenant option" where
  "resolved sv a i = (case fst (tenancy_resolve sv i a) of Inr (Inr t) \<Rightarrow> Some t | _ \<Rightarrow> None)"

definition directory_of :: "env \<Rightarrow> app \<Rightarrow> directory" where
  "directory_of sv a =
     \<lparr>dir_shared_key = shared_key sv,
      dir_org_for_key = (\<lambda>token. if sv_fails sv ''org_for_api_key'' then None
         else map_option fst (org_for_api_key (sv_key_hash sv) (sv_now sv) token (app_control a))),
      dir_has_seat = (\<lambda>org u. \<not> sv_fails sv ''has_seat'' \<and> has_seat org u (app_control a)),
      dir_resolves = (\<lambda>i. resolved sv a i \<noteq> None),
      dir_owns_app = (\<lambda>i app_id. \<not> sv_fails sv ''owns_app''
         \<and> (case resolved sv a i of Some t \<Rightarrow> owns_app app_id (app_tenants a (t_store t)) | None \<Rightarrow> False))\<rparr>"

definition answer :: "'a action \<Rightarrow> app \<Rightarrow> 'a option" where
  "answer m a = (case fst (m a) of Inr x \<Rightarrow> Some x | Inl _ \<Rightarrow> None)"

definition request_of :: "env \<Rightarrow> headers \<Rightarrow> app \<Rightarrow> request" where
  "request_of sv hs a =
     \<lparr>rq_authorization = Option.bind (hd_authorization hs) id, rq_tenant_header = Option.bind (hd_tenant hs) id,
      rq_user = map_option u_id (Option.bind (answer (current_user sv (hd_cookie hs)) a) id),
      rq_user_org = map_option (o_id \<circ> snd) (answer (user_and_org sv (hd_cookie hs)) a)\<rparr>"

lemma current_user_run: "current_user sv ck a = (Inr (Option.bind (answer (current_user sv ck) a) id), a)"
  by (auto simp: current_user_def answer_def action_defs split: option.split)

lemma tried_pair: "tried (user_and_org sv ck) a = (Inr (answer (user_and_org sv ck) a), a)"
  by (auto simp: tried_def user_and_org_def answer_def action_defs split: option.split)

lemma owning_iff: "fst (owning_tenant sv i app_id a) = Inr (t, org) \<longleftrightarrow>
    org = i \<and> resolved sv a i = Some t \<and> dir_owns_app (directory_of sv a) i app_id"
proof -
  have same: "app_tenants (snd (tenancy_resolve sv i a)) = app_tenants a"
    by (simp add: tenancy_resolve_def split: prod.split)
  obtain r b where run: "tenancy_resolve sv i a = (Inr r, b)"
    by (cases "tenancy_resolve sv i a") (auto simp: tenancy_resolve_def split: prod.splits)
  with same have tenants: "app_tenants b = app_tenants a" by simp
  show ?thesis
    by (cases r) (auto simp: owning_tenant_def andthen_def run resolved_def directory_of_def tlook_def require_def done_with_def stop_def tenants)
qed

lemma resolves_owning: "resolve_owning (directory_of sv a) i app_id = Ok org \<longleftrightarrow>
    org = i \<and> resolved sv a i \<noteq> None \<and> dir_owns_app (directory_of sv a) i app_id"
  by (auto simp: resolve_owning_Ok directory_of_def)

lemma owning_refines: "fst (owning_tenant sv i app_id a) = Inr (t, org) \<longleftrightarrow>
    resolve_owning (directory_of sv a) i app_id = Ok org \<and> resolved sv a org = Some t"
  by (auto simp: owning_iff resolves_owning)

lemma seated_refines: "fst (seated_tenant sv hs app_id a) = Inr (t, org) \<longleftrightarrow>
    seat_gate (directory_of sv a) (request_of sv hs a) app_id = Ok org \<and> resolved sv a org = Some t"
proof (cases "Option.bind (answer (current_user sv (hd_cookie hs)) a) id")
  case None
  then show ?thesis
    by (simp add: seated_tenant_def seat_gate_def request_of_def andthen_def current_user_run [of sv "hd_cookie hs" a]
        seat_decision_def done_with_def stop_def)
next
  case (Some u)
  note user = this
  show ?thesis
  proof (cases "answer (user_and_org sv (hd_cookie hs)) a")
    case None
    with user show ?thesis
      by (simp add: seated_tenant_def seat_gate_def request_of_def andthen_def current_user_run [of sv "hd_cookie hs" a] tried_pair
          seat_decision_def done_with_def stop_def)
  next
    case (Some p)
    obtain w g where p: "p = (w, g)" by (rule prod.exhaust)
    have seat: "(if sv_fails sv ''has_seat'' then None else Some (has_seat (o_id g) (u_id u) (app_control a))) = Some True
        \<longleftrightarrow> dir_has_seat (directory_of sv a) (o_id g) (u_id u)" by (simp add: directory_of_def)
    from user Some p seat show ?thesis
      by (auto simp: seated_tenant_def seat_gate_def request_of_def andthen_def current_user_run [of sv "hd_cookie hs" a] tried_pair
          seat_decision_def done_with_def stop_def look_def seat_required_def owning_refines split: if_splits)
  qed
qed

text \<open>The gate of the dashboard requests implements the pure rule of authorization: with what the stores
  answer in the state at hand as its directory, a request is let through to a tenant exactly when the rule
  admits it for the organization, and the tenant is the one that organization resolves to. Failing lookups
  count as no answer.
\<close>

theorem dashboard_gate_refines:
  "fst (authorized_tenant sv hs app_id a) = Inr (t, org) \<longleftrightarrow>
    authorize_app (directory_of sv a) (request_of sv hs a) app_id = Ok org \<and> resolved sv a org = Some t"
proof (cases "dashboard_bearer hs")
  case None
  then have "bearer (request_of sv hs a) = None" by (simp add: bearer_def request_of_def dashboard_bearer_def)
  with None show ?thesis by (simp add: authorized_tenant_def authorize_app_def seated_refines)
next
  case (Some token)
  note b = this
  then have pure: "bearer (request_of sv hs a) = Some token" by (simp add: bearer_def request_of_def dashboard_bearer_def)
  have key: "(case dir_shared_key (directory_of sv a) of Some s \<Rightarrow> s \<noteq> [] \<and> ct_eq s token | None \<Rightarrow> False)
      \<longleftrightarrow> (case shared_key sv of Some s \<Rightarrow> ct_eq s token | None \<Rightarrow> False)"
    by (auto simp: directory_of_def shared_key_def split: option.splits)
  have "(case ok_or x e of Inl _ \<Rightarrow> None | Inr i \<Rightarrow> Some i) = x" for x :: "int option" and e :: AdminTargetError by (cases x) simp_all
  then have target: "header_target hs = admin_target (request_of sv hs a)"
    by (cases "hd_tenant hs")
      (auto simp: header_target_def admin_target_result_def admin_target_def request_of_def split: option.split)
  show ?thesis
  proof (cases "case shared_key sv of Some s \<Rightarrow> ct_eq s token | None \<Rightarrow> False")
    case True
    with b pure key target show ?thesis
      by (cases "admin_target (request_of sv hs a)")
        (auto simp: authorized_tenant_def authorize_app_def Let_def owning_refines stop_def)
  next
    case False
    let ?r = "if sv_fails sv ''org_for_api_key'' then None
      else org_for_api_key (sv_key_hash sv) (sv_now sv) token (app_control a)"
    have org: "dir_org_for_key (directory_of sv a) token = map_option fst ?r" by (simp add: directory_of_def)
    have run: "fst (authorized_tenant sv hs app_id a) = fst ((case ?r of Some (i, _) \<Rightarrow> owning_tenant sv i app_id | None \<Rightarrow> seated_tenant sv hs app_id) a)"
      using b False by (auto simp: authorized_tenant_def andthen_def look_def split: option.split)
    show ?thesis
      using pure key False org by (cases ?r) (auto simp: run authorize_app_def Let_def owning_refines seated_refines split: prod.split)
  qed
qed

lemma resolved_org: "resolved sv a i = Some t \<Longrightarrow> rv_single_tenant (app_resolver a) = None \<Longrightarrow> t_org_id t = i"
  by (auto simp: resolved_def tenancy_resolve_def resolve_tenant_def with_pool_def split: prod.splits sum.splits option.splits)

text \<open>C10. A dashboard request that the gate lets through is served from the tenant that its organization resolves to
  (hosted, the organization's own), that tenant has the application, and the organization is the one the
  shared admin key came with, the owner of the presented key, or the active organization of the session's user,
  who has a seat in it.\<close>
theorem dashboard_gate_confined:
  assumes "fst (authorized_tenant sv hs app_id a) = Inr (t, org)"
  shows "resolved sv a org = Some t \<and> owns_app app_id (app_tenants a (t_store t))
    \<and> (rv_single_tenant (app_resolver a) = None \<longrightarrow> t_org_id t = org)
    \<and> ((\<exists>token. dashboard_bearer hs = Some token \<and> shared_key sv = Some token \<and> header_target hs = Some org)
      \<or> (\<exists>token scope. dashboard_bearer hs = Some token
          \<and> org_for_api_key (sv_key_hash sv) (sv_now sv) token (app_control a) = Some (org, scope))
      \<or> (\<exists>u w g. answer (current_user sv (hd_cookie hs)) a = Some (Some u) \<and> answer (user_and_org sv (hd_cookie hs)) a = Some (w, g)
          \<and> o_id g = org \<and> has_seat org (u_id u) (app_control a)))"
proof -
  have own: "org = i \<and> resolved sv a org = Some t \<and> owns_app app_id (app_tenants a (t_store t))"
    if "fst (owning_tenant sv i app_id a) = Inr (t, org)" for i
    using that by (auto simp: owning_iff directory_of_def)
  have seated: "\<exists>u w g. answer (current_user sv (hd_cookie hs)) a = Some (Some u) \<and> answer (user_and_org sv (hd_cookie hs)) a = Some (w, g)
      \<and> has_seat (o_id g) (u_id u) (app_control a) \<and> fst (owning_tenant sv (o_id g) app_id a) = Inr (t, org)"
    if "fst (seated_tenant sv hs app_id a) = Inr (t, org)"
    using that by (cases "answer (current_user sv (hd_cookie hs)) a"; cases "answer (user_and_org sv (hd_cookie hs)) a")
      (auto simp: seated_tenant_def andthen_def current_user_run [of sv "hd_cookie hs" a] tried_pair seat_decision_def done_with_def
        stop_def look_def seat_required_def split: if_splits option.splits)
  note run = assms [unfolded authorized_tenant_def]
  show ?thesis
  proof (cases "dashboard_bearer hs")
    case None
    then have "fst (seated_tenant sv hs app_id a) = Inr (t, org)" using run by simp
    then show ?thesis using seated own resolved_org by blast
  next
    case (Some token)
    show ?thesis
    proof (cases "shared_key sv = Some token")
      case True
      then obtain i where "header_target hs = Some i" "fst (owning_tenant sv i app_id a) = Inr (t, org)"
        using run Some by (auto simp: ct_eq_iff stop_def split: option.splits)
      then show ?thesis using own [of i] resolved_org True Some by blast
    next
      case False
      then have "fst (seated_tenant sv hs app_id a) = Inr (t, org)
          \<or> (\<exists>i scope. org_for_api_key (sv_key_hash sv) (sv_now sv) token (app_control a) = Some (i, scope)
               \<and> fst (owning_tenant sv i app_id a) = Inr (t, org))"
        using run Some by (auto simp: ct_eq_iff andthen_def look_def split: option.splits if_splits)
      then show ?thesis using seated own resolved_org Some by blast
    qed
  qed
qed

section \<open>Reading\<close>

text \<open>A request that only reads may use the caches of the resolver and the audit log, nothing else.\<close>

definition data_of :: "app \<Rightarrow> (string \<Rightarrow> tenant_data) \<times> files \<times> (http_call \<times> http_answer) list" where
  "data_of a = (app_tenants a, app_files a, app_calls a)"

interpretation reads: request_frame "\<lambda>a b. data_of b = data_of a"
  by unfold_locales simp_all

lemma reads_same: "(\<And>a. data_of (snd (m a)) = data_of a) \<Longrightarrow> reads.safe m"
  by (simp add: reads.safe_def)

lemma reads_steps:
  "reads.safe (tenancy_resolve sv i)" "reads.safe (the_data t)" "reads.safe (current_user sv ck)" "reads.safe (user_and_org sv ck)"
  "reads.safe (tried (user_and_org sv ck))" "reads.safe (bucket_list_for_tenant sv vl t app_id)"
proof -
  show "reads.safe (current_user sv ck)" by (rule reads_same, subst current_user_run) simp
  show "reads.safe (tried (user_and_org sv ck))" by (rule reads_same) (simp add: tried_pair)
  show "reads.safe (user_and_org sv ck)"
    unfolding user_and_org_def by (intro reads.safe_andthen reads.safe_need reads.safe_look)
qed (rule reads_same; simp add: tenancy_resolve_def the_data_def bucket_list_for_tenant_def data_of_def split: prod.split)+

lemmas reads_intros = reads.safe_andthen reads.safe_require reads.safe_need reads.safe_look reads.safe_tlook reads.safe_done
  reads.safe_stop reads.safe_if reads.safe_option reads.safe_prod reads.safe_sum reads_steps

lemma reads_verdict: "reads.safe m1 \<Longrightarrow> reads.safe m2 \<Longrightarrow> reads.safe m3 \<Longrightarrow>
    reads.safe (case v of Allow \<Rightarrow> m1 | NoSeat \<Rightarrow> m2 | NotSignedIn \<Rightarrow> m3)"
  by (cases v) simp_all

lemma reads_gate: "reads.safe (owning_tenant sv i app_id)" "reads.safe (seated_tenant sv hs app_id)" "reads.safe (authorized_tenant sv hs app_id)"
proof -
  show own: "reads.safe (owning_tenant sv i app_id)" for i unfolding owning_tenant_def by (intro reads_intros)
  show seated: "reads.safe (seated_tenant sv hs app_id)"
    unfolding seated_tenant_def Let_def by (intro reads_intros reads_verdict own)
  show "reads.safe (authorized_tenant sv hs app_id)"
    unfolding authorized_tenant_def by (intro reads_intros own seated)
qed

text \<open>Reading changes nothing: whatever the caller presents and whichever reads fail, a request for the triage,
  the detail, the time series, the list of buckets or the feed of transitions leaves the data of every
  tenant and every stored object as it was, and calls no other service.
\<close>

theorem dashboard_reads_pure:
  "data_of (snd (respond (get_triage sv hs app_id bucket) a)) = data_of a
    \<and> data_of (snd (respond (get_bucket_detail sv vl hs if_none_match app_id bucket) a)) = data_of a
    \<and> data_of (snd (respond (get_bucket_timeline sv vl hs app_id bucket window) a)) = data_of a
    \<and> data_of (snd (respond (get_dashboard_buckets sv vl hs app_id) a)) = data_of a
    \<and> data_of (snd (respond (get_resolution_events sv event_at hs app_id) a)) = data_of a"
  by (intro conjI reads.respond_safe;
      unfold get_triage_def get_bucket_detail_def get_bucket_timeline_def get_dashboard_buckets_def get_resolution_events_def
        stored_triage_def bucket_sample_rows_def detail_json_def quietly_def Let_def;
      intro reads_intros reads_gate)

section \<open>Clearing the sample\<close>





text \<open>A tenant whose only error is one of the sample.\<close>

definition sample_shop_error :: ErrorRec where
  "sample_shop_error = \<lparr>er_sig = ''S'', er_message = ''x'', er_path = [], er_context = [(''reproitSample'', JStr NIMBUS_SAMPLE)]\<rparr>"

definition shop_db :: telemetry_db where
  "shop_db = snd (the (ingest_batch telemetry_lib 5 ''app'' [(''a|tap|b'', 1)] [sample_shop_error] [] ''b1'' None (empty_telemetry [sample_project])))"

definition shop_app :: app where
  "shop_app = sample_app\<lparr>app_tenants := (\<lambda>_. sample_tenant\<lparr>td_telemetry := shop_db\<rparr>)\<rparr>"

definition shop_headers :: headers where
  "shop_headers = \<lparr>hd_cookie = sample_cookie, hd_authorization = None, hd_tenant = None\<rparr>"



lemma shop_gate: "fst (authorized_tenant sample_env shop_headers ''app'' shop_app) = Inr (\<lparr>t_org_id = 1, t_store = ''new'', t_blob_scope = ''t/1''\<rparr>, 1)"
  by code_simp

text \<open>The owner of the organization, by the session.\<close>

theorem dashboard_gate_confined_witness:
  "owns_app ''app'' (app_tenants shop_app ''new'')
    \<and> (\<exists>u g w. answer (current_user sample_env sample_cookie) shop_app = Some (Some u)
        \<and> answer (user_and_org sample_env sample_cookie) shop_app = Some (w, g) \<and> o_id g = 1 \<and> has_seat 1 (u_id u) (app_control shop_app))"
proof -
  have "dashboard_bearer shop_headers = None" by (simp add: dashboard_bearer_def shop_headers_def)
  with dashboard_gate_confined [OF shop_gate] show ?thesis by (auto simp: shop_headers_def)
qed

section \<open>A full sample\<close>

text \<open>
  The detail view and the sweep read the occurrences of a bucket oldest first, up to the size of the sample.
  Once a bucket has that many, later occurrences are not read, so no verdict can depend on them.
\<close>

lemma full_sample_blind:
  assumes "cap \<le> length (of_bucket (a, b) (errors db))" "errors db' = errors db @ new"
    and "\<And>e n. e \<in> set (errors db) \<Longrightarrow> n \<in> set new \<Longrightarrow> el_id e < el_id n"
  shows "errors_for_bucket rfc a b cap db' = errors_for_bucket rfc a b cap db"
proof -
  let ?old = "of_bucket (a, b) (errors db)" and ?new = "of_bucket (a, b) new"
  have "sort_key el_id (?old @ ?new) = sort_key el_id ?old @ sort_key el_id ?new"
  proof (rule properties_for_sort_key)
    have st: "filter (\<lambda>x. el_id k = el_id x) (sort_key el_id xs) = filter (\<lambda>x. el_id k = el_id x) xs" for k :: error_row and xs :: "error_row list"
      unfolding eq_commute [of "el_id k"] by (rule sort_key_stable)
    show "filter (\<lambda>x. el_id k = el_id x) (sort_key el_id ?old @ sort_key el_id ?new) = filter (\<lambda>x. el_id k = el_id x) (?old @ ?new)" for k :: error_row
      by (simp only: filter_append st)
    show "sorted (map el_id (sort_key el_id ?old @ sort_key el_id ?new))"
      using assms(3) by (auto simp: sorted_append of_bucket_def less_imp_le)
  qed simp_all
  then show ?thesis using assms(1,2) by (simp add: errors_for_bucket_def of_bucket_def)
qed

end
