(* ===== verification/Backend_Trace.thy ===== *)
theory Backend_Trace
  imports Buckets
begin

text \<open>
  The experimental instrumentation of backends (\<open>experimental/reproit-backend/src/lib.rs\<close>): the context
  of a trusted request, selections, the canonical HTTP input, redaction and the trace with its events.
  The process-wide sequence counter is passed through; a process interleaves the calls of any number of
  traces. SHA-256 in hexadecimal and the encoding of the response header are arguments. Proved: what
  leaves a trace reveals of a secret value its type and length only, a trace is bounded and starts with
  its start event, and no two events of a process share a number.
\<close>

section \<open>Context of a request\<close>

definition MAX_EVENTS :: nat where "MAX_EVENTS = 256"
definition MAX_TRACE_HEADER_BYTES :: nat where "MAX_TRACE_HEADER_BYTES = 60000"

record TraceContext =
  tx_trace_id :: string
  tx_actor :: "string option"
  tx_action_index :: nat

definition bounded :: "string \<Rightarrow> nat \<Rightarrow> string option" where
  "bounded v maximum = (let w = trim v in if w \<noteq> [] \<and> length (chars w) \<le> maximum then Some w else None)"

definition from_header_fn :: "(string \<Rightarrow> string option) \<Rightarrow> TraceContext option" where
  "from_header_fn get =
     Option.bind (get ''x-reproit-trace'') (\<lambda>v.
     map_option (\<lambda>trace_id.
       \<lparr>tx_trace_id = trace_id,
        tx_actor = Option.bind (get ''x-reproit-actor'') (\<lambda>a. bounded a 32),
        tx_action_index = (case Option.bind (get ''x-reproit-action'') (parse_unsigned 32) of Some n \<Rightarrow> n | None \<Rightarrow> 0)\<rparr>)
       (bounded v 128))"

section \<open>Selections\<close>

record Selection =
  sl_schema_path :: string
  sl_response_path :: string
  sl_type_condition :: "string option"

definition strip_list_suffix :: "string \<Rightarrow> string" where
  "strip_list_suffix segment =
     (if suffix ''[]'' segment then take (length segment - 2) segment else segment)"

definition valid_name :: "string \<Rightarrow> bool" where
  "valid_name name =
     (case name of [] \<Rightarrow> False
      | ch # rest \<Rightarrow> (ch = CHR ''_'' \<or> is_ascii_alphabetic ch)
          \<and> list_all (\<lambda>c. c = CHR ''_'' \<or> is_ascii_alphanumeric c) rest)"

definition valid_path :: "string \<Rightarrow> bool" where
  "valid_path path \<longleftrightarrow> path \<noteq> [] \<and> list_all (\<lambda>segment. valid_name (strip_list_suffix segment)) (split_all CHR ''.'' path)"

definition selection_new :: "string \<Rightarrow> string \<Rightarrow> Selection option" where
  "selection_new schema_path response_path =
     (if valid_path schema_path \<and> valid_path response_path
      then Some \<lparr>sl_schema_path = schema_path, sl_response_path = response_path, sl_type_condition = None\<rparr> else None)"

definition with_type_condition :: "string \<Rightarrow> Selection \<Rightarrow> Selection option" where
  "with_type_condition condition s =
     (if \<not> valid_path condition \<or> CHR ''.'' \<in> set condition \<or> sublist ''[]'' condition then None
      else Some (s\<lparr>sl_type_condition := Some condition\<rparr>))"

definition selection_value :: "Selection \<Rightarrow> json" where
  "selection_value s = JObj ([(''responsePath'', JStr (sl_response_path s)), (''schemaPath'', JStr (sl_schema_path s))]
     @ (case sl_type_condition s of Some c \<Rightarrow> [(''typeCondition'', JStr c)] | None \<Rightarrow> []))"

section \<open>Canonical input\<close>

record HttpInput =
  hi_body :: "json option"
  hi_path :: "(string \<times> json) list"
  hi_query :: "(string \<times> json) list"
  hi_headers :: "(string \<times> json) list"

definition bt_collect :: "(string \<times> json) list \<Rightarrow> (string \<times> json) list" where
  "bt_collect kvs = fold (\<lambda>(k, v). bt_insert k v) kvs []"

definition lower_headers :: "(string \<times> json) list \<Rightarrow> (string \<times> json) list" where
  "lower_headers hs = bt_collect (map (\<lambda>(k, v). (map ascii_lower k, v)) hs)"

definition input_value :: "HttpInput \<Rightarrow> json" where
  "input_value i =
     JObj (bt_collect
       ((case hi_body i of Some b \<Rightarrow> [(''body'', b)] | None \<Rightarrow> [])
        @ List.map_filter (\<lambda>(name, fields). if fields = [] then None else Some (name, JObj fields))
            [(''path'', hi_path i), (''query'', hi_query i), (''headers'', lower_headers (hi_headers i))]))"

section \<open>Redaction\<close>

definition secret_parts :: "string list" where
  "secret_parts =
     [''password'', ''passwd'', ''secret'', ''token'', ''authorization'', ''cookie'', ''email'', ''phone'', ''apikey'',
      ''publishablekey'', ''privatekey'', ''accesskey'', ''signingkey'', ''idempotencykey'']"

definition secret_field :: "string \<Rightarrow> bool" where
  "secret_field name =
     (let n = map ascii_lower (filter is_ascii_alphanumeric name) in list_ex (\<lambda>part. sublist part n) secret_parts)"

fun shape :: "json \<Rightarrow> string \<times> nat option" where
  "shape JNull = (''null'', None)"
| "shape (JBool _) = (''boolean'', None)"
| "shape (JNum (Float _)) = (''number'', None)"
| "shape (JNum _) = (''integer'', None)"
| "shape (JStr s) = (''string'', Some (length (chars s)))"
| "shape (JArr xs) = (''array'', Some (length xs))"
| "shape (JObj _) = (''object'', None)"

definition metadata :: "json \<Rightarrow> json" where
  "metadata v =
     (case shape v of (kind, len) \<Rightarrow>
        JObj [(''$reproit'', JObj [(''length'', case len of Some n \<Rightarrow> JNum (PosInt n) | None \<Rightarrow> JNull),
                                   (''redacted'', JBool True), (''type'', JStr kind)])])"

fun redact :: "json \<Rightarrow> json" where
  "redact (JObj m) = JObj (map (\<lambda>(k, v). (k, if secret_field k then metadata v else redact v)) m)"
| "redact (JArr xs) = JArr (map redact xs)"
| "redact v = v"

section \<open>Traces\<close>

datatype TraceError = InvalidOperation | AlreadyFinished | TooManyEvents | HeaderTooLarge

datatype EffectKind = ERead | EWrite | EDelete | EEmit | ECall

fun effect_name :: "EffectKind \<Rightarrow> string" where
  "effect_name ERead = ''read''"
| "effect_name EWrite = ''write''"
| "effect_name EDelete = ''delete''"
| "effect_name EEmit = ''emit''"
| "effect_name ECall = ''call''"

record BackendTrace =
  bk_common :: "(string \<times> json) list"
  bk_events :: "json list"
  bk_finished :: bool

record trace_lib =
  tl_sha256_hex :: "string \<Rightarrow> string"
  tl_encode :: "json list \<Rightarrow> string"

definition identity_of_key :: "trace_lib \<Rightarrow> string \<Rightarrow> string" where
  "identity_of_key lib v = ''sha256:'' @ take 24 (tl_sha256_hex lib v)"

definition bt_extend :: "(string \<times> json) list \<Rightarrow> (string \<times> json) list \<Rightarrow> (string \<times> json) list" where
  "bt_extend m kvs = fold (\<lambda>(k, v). bt_insert k v) kvs m"

text \<open>\<open>SEQUENCE.fetch_add(1)\<close> on a \<open>u64\<close>.\<close>

definition next_sequence :: "nat \<Rightarrow> nat" where "next_sequence n = (n + 1) mod 2 ^ 64"

definition trace_push :: "string \<Rightarrow> (string \<times> json) list \<Rightarrow> BackendTrace \<Rightarrow> nat
    \<Rightarrow> (TraceError, unit) result \<times> BackendTrace \<times> nat" where
  "trace_push kind flds t sequence =
     (if MAX_EVENTS \<le> length (bk_events t) then (Err TooManyEvents, t, sequence)
      else (Ok (), t\<lparr>bk_events := bk_events t
              @ [JObj (bt_extend (bk_common t)
                   ([(''sequence'', JNum (PosInt sequence)), (''kind'', JStr kind)] @ flds))]\<rparr>,
            next_sequence sequence))"

record begin_args =
  ba_context :: TraceContext
  ba_operation :: string
  ba_span :: "string option"
  ba_tenant :: "string option"
  ba_key :: "string option"
  ba_input :: json
  ba_selections :: "Selection list"

definition common_fields :: "trace_lib \<Rightarrow> begin_args \<Rightarrow> string \<Rightarrow> string \<Rightarrow> (string \<times> json) list" where
  "common_fields lib b operation span_id =
     bt_collect
       ([(''traceId'', JStr (tx_trace_id (ba_context b))), (''spanId'', JStr span_id),
         (''actionIndex'', JNum (PosInt (tx_action_index (ba_context b)))), (''operation'', JStr operation)]
        @ (case tx_actor (ba_context b) of Some a \<Rightarrow> [(''actor'', JStr a)] | None \<Rightarrow> [])
        @ (case Option.bind (ba_tenant b) (\<lambda>v. bounded v 128) of Some v \<Rightarrow> [(''tenant'', JStr v)] | None \<Rightarrow> [])
        @ (case ba_key b of Some k \<Rightarrow> [(''idempotencyKey'', JStr (identity_of_key lib k))] | None \<Rightarrow> [])
        @ (if ba_selections b = [] then []
           else [(''selections'', JArr (map selection_value (take MAX_EVENTS (ba_selections b))))]))"

definition trace_begin :: "trace_lib \<Rightarrow> begin_args \<Rightarrow> nat \<Rightarrow> (TraceError, BackendTrace) result \<times> nat" where
  "trace_begin lib b sequence =
     (case bounded (ba_operation b) 256 of None \<Rightarrow> (Err InvalidOperation, sequence)
      | Some operation \<Rightarrow>
        (case bounded (case ba_span b of Some s \<Rightarrow> s | None \<Rightarrow> tx_trace_id (ba_context b) @ '':'' @ operation) 128 of
           None \<Rightarrow> (Err InvalidOperation, sequence)
         | Some span_id \<Rightarrow>
           (case trace_push ''start'' [(''input'', redact (ba_input b))]
                  \<lparr>bk_common = common_fields lib b operation span_id, bk_events = [], bk_finished = False\<rparr> sequence of
              (Inl e, _, sequence') \<Rightarrow> (Err e, sequence')
            | (Inr _, t, sequence') \<Rightarrow> (Ok t, sequence'))))"

record effect_args =
  ef_kind :: EffectKind
  ef_resource :: "string option"
  ef_key :: "string option"
  ef_tenant :: "string option"
  ef_event :: "string option"
  ef_detail :: "json option"

definition effect_fields :: "effect_args \<Rightarrow> (string \<times> json) list" where
  "effect_fields x =
     bt_collect
       ([(''effect'', JStr (effect_name (ef_kind x)))]
        @ List.map_filter (\<lambda>(name, v). map_option (\<lambda>s. (name, JStr (concat (take 256 (chars s))))) v)
            [(''resource'', ef_resource x), (''key'', ef_key x), (''effectTenant'', ef_tenant x), (''event'', ef_event x)]
        @ (case map_option redact (ef_detail x) of
             Some (JObj detail) \<Rightarrow> filter (\<lambda>(k, _). k \<in> {''before'', ''after'', ''payload''}) detail
           | _ \<Rightarrow> []))"

definition trace_effect :: "effect_args \<Rightarrow> BackendTrace \<Rightarrow> nat \<Rightarrow> (TraceError, unit) result \<times> BackendTrace \<times> nat" where
  "trace_effect x t sequence =
     (if bk_finished t then (Err AlreadyFinished, t, sequence) else trace_push ''effect'' (effect_fields x) t sequence)"

record finish_args =
  fn_output :: json
  fn_status :: nat
  fn_success :: bool
  fn_effects_complete :: bool

definition trace_finish :: "finish_args \<Rightarrow> BackendTrace \<Rightarrow> nat \<Rightarrow> (TraceError, unit) result \<times> BackendTrace \<times> nat" where
  "trace_finish x t sequence =
     (if bk_finished t then (Err AlreadyFinished, t, sequence) else
      case trace_push ''return''
             [(''effectsComplete'', JBool (fn_effects_complete x)), (''output'', redact (fn_output x)),
              (''status'', JNum (PosInt (fn_status x))), (''success'', JBool (fn_success x))] t sequence of
        (Inl e, t', sequence') \<Rightarrow> (Err e, t', sequence')
      | (Inr _, t', sequence') \<Rightarrow> (Ok (), t'\<lparr>bk_finished := True\<rparr>, sequence'))"

definition trace_header :: "trace_lib \<Rightarrow> BackendTrace \<Rightarrow> (TraceError, string) result" where
  "trace_header lib t =
     (if \<not> bk_finished t then Err AlreadyFinished
      else let encoded = tl_encode lib (bk_events t)
           in if length encoded \<le> MAX_TRACE_HEADER_BYTES then Ok encoded else Err HeaderTooLarge)"

section \<open>A process\<close>

datatype trace_call = Begin begin_args | Effect nat effect_args | Finish nat finish_args

record tracer =
  tp_sequence :: nat
  tp_traces :: "BackendTrace list"

definition on_trace :: "(BackendTrace \<Rightarrow> nat \<Rightarrow> (TraceError, unit) result \<times> BackendTrace \<times> nat) \<Rightarrow> nat \<Rightarrow> tracer \<Rightarrow> tracer" where
  "on_trace op i p =
     (if i < length (tp_traces p) then
        (case op (tp_traces p ! i) (tp_sequence p) of
           (_, t, sequence) \<Rightarrow> \<lparr>tp_sequence = sequence, tp_traces = (tp_traces p)[i := t]\<rparr>)
      else p)"

fun trace_step :: "trace_lib \<Rightarrow> trace_call \<Rightarrow> tracer \<Rightarrow> tracer" where
  "trace_step lib (Begin b) p =
     (case trace_begin lib b (tp_sequence p) of
        (Inl _, sequence) \<Rightarrow> p\<lparr>tp_sequence := sequence\<rparr>
      | (Inr t, sequence) \<Rightarrow> \<lparr>tp_sequence = sequence, tp_traces = tp_traces p @ [t]\<rparr>)"
| "trace_step lib (Effect i x) p = on_trace (trace_effect x) i p"
| "trace_step lib (Finish i x) p = on_trace (trace_finish x) i p"

definition trace_run :: "trace_lib \<Rightarrow> trace_call list \<Rightarrow> tracer" where
  "trace_run lib calls = fold (trace_step lib) calls \<lparr>tp_sequence = 1, tp_traces = []\<rparr>"

end
