(* ===== verification/Backend_Trace_Laws.thy ===== *)
theory Backend_Trace_Laws
  imports Backend_Trace Json_Access "HOL-Library.Multiset"
begin

text \<open>
  What a backend trace reveals and how it is built, over \<open>Backend_Trace\<close>: redaction as an equivalence of
  values, the shape of every trace of a process and the numbers of its events.
\<close>

section \<open>Redaction\<close>

text \<open>Values that differ under secret fields only, and there keep type and length.\<close>

inductive agrees :: "json \<Rightarrow> json \<Rightarrow> bool" where
  agrees_same: "agrees v v"
| agrees_array: "list_all2 agrees xs ys \<Longrightarrow> agrees (JArr xs) (JArr ys)"
| agrees_object: "list_all2 (\<lambda>x y. fst x = fst y
      \<and> (secret_field (fst x) \<and> shape (snd x) = shape (snd y) \<or> \<not> secret_field (fst x) \<and> agrees (snd x) (snd y))) m n
    \<Longrightarrow> agrees (JObj m) (JObj n)"
  monos list_all2_mono

lemma metadata_eq: "metadata v = metadata w \<longleftrightarrow> shape v = shape w"
  by (auto simp: metadata_def split: prod.splits option.splits)

lemma map_eq_map_all2: "map f xs = map g ys \<longleftrightarrow> list_all2 (\<lambda>x y. f x = g y) xs ys"
  by (simp add: list.rel_eq [symmetric] list.rel_map)

lemma redact_agrees: "agrees v w \<Longrightarrow> redact v = redact w"
proof (induction rule: agrees.induct)
  case (agrees_array xs ys)
  then show ?case by (auto simp: map_eq_map_all2 elim: list_all2_mono)
next
  case (agrees_object m n)
  then have "map (\<lambda>(k, v). (k, if secret_field k then metadata v else redact v)) m
    = map (\<lambda>(k, v). (k, if secret_field k then metadata v else redact v)) n"
    unfolding map_eq_map_all2 by (elim list_all2_mono) (auto simp: metadata_eq)
  then show ?case by simp
qed simp

lemma agrees_redact: "redact v = redact w \<Longrightarrow> agrees v w"
proof (induction v arbitrary: w)
  case (JArr xs)
  obtain ys where "w = JArr ys" using JArr.prems by (cases w) auto
  moreover have "list_all2 (\<lambda>x y. redact x = redact y) xs ys" using JArr.prems calculation by (simp add: map_eq_map_all2)
  then have "list_all2 agrees xs ys" by (rule list.rel_mono_strong) (rule JArr.IH)
  ultimately show ?case by (simp add: agrees_array)
next
  case (JObj m)
  obtain n where n: "w = JObj n" using JObj.prems by (cases w) auto
  have "list_all2 (\<lambda>x y. (case x of (k, v) \<Rightarrow> (k, if secret_field k then metadata v else redact v))
      = (case y of (k, v) \<Rightarrow> (k, if secret_field k then metadata v else redact v))) m n"
    using JObj.prems n by (simp add: map_eq_map_all2)
  then have "list_all2 (\<lambda>x y. fst x = fst y
      \<and> (secret_field (fst x) \<and> shape (snd x) = shape (snd y) \<or> \<not> secret_field (fst x) \<and> agrees (snd x) (snd y))) m n"
    by (rule list.rel_mono_strong) (auto simp: metadata_eq split: if_splits intro: JObj.IH)
  then show ?case by (simp add: n agrees_object)
qed (auto intro: agrees_same, (case_tac w; simp add: agrees_same)+)

lemma redact_iff: "redact v = redact w \<longleftrightarrow> agrees v w"
  using redact_agrees agrees_redact by blast

section \<open>Calls that differ in secrets\<close>

fun same_call :: "trace_call \<Rightarrow> trace_call \<Rightarrow> bool" where
  "same_call (Begin b) (Begin c) \<longleftrightarrow> (\<exists>v. agrees (ba_input b) v \<and> c = b\<lparr>ba_input := v\<rparr>)"
| "same_call (Effect i x) (Effect j y) \<longleftrightarrow> i = j \<and> (\<exists>d. rel_option agrees (ef_detail x) d \<and> y = x\<lparr>ef_detail := d\<rparr>)"
| "same_call (Finish i x) (Finish j y) \<longleftrightarrow> i = j \<and> (\<exists>v. agrees (fn_output x) v \<and> y = x\<lparr>fn_output := v\<rparr>)"
| "same_call _ _ \<longleftrightarrow> False"

lemma trace_begin_cong: "redact x = redact (ba_input b) \<Longrightarrow> trace_begin lib (b\<lparr>ba_input := x\<rparr>) sequence = trace_begin lib b sequence"
  by (simp add: trace_begin_def common_fields_def cong: option.case_cong)

lemma effect_fields_cong: "map_option redact d = map_option redact (ef_detail x) \<Longrightarrow> effect_fields (x\<lparr>ef_detail := d\<rparr>) = effect_fields x"
  by (simp add: effect_fields_def)

lemma same_call_step: "same_call c d \<Longrightarrow> trace_step lib c p = trace_step lib d p"
proof (induction c d rule: same_call.induct)
  case (1 b c)
  then show ?case by (auto simp: trace_begin_cong dest!: redact_agrees [symmetric])
next
  case (2 i x j y)
  then obtain d where d: "rel_option agrees (ef_detail x) d" "y = x\<lparr>ef_detail := d\<rparr>" "i = j" by auto
  have "map_option redact d = map_option redact (ef_detail x)"
    using d(1) by (cases rule: option.rel_cases) (simp_all add: redact_agrees)
  then have "effect_fields y = effect_fields x" unfolding d(2) by (rule effect_fields_cong)
  then have "trace_effect y = trace_effect x" by (intro ext) (simp add: trace_effect_def)
  then show ?case by (simp add: d(3))
next
  case (3 i x j y)
  then obtain v where v: "agrees (fn_output x) v" "y = x\<lparr>fn_output := v\<rparr>" "i = j" by auto
  then have "trace_finish y = trace_finish x" using redact_agrees [OF v(1)] by (intro ext) (simp add: trace_finish_def)
  then show ?case by (simp add: v(3))
qed simp_all

text \<open>C7. What a process records and sends depends on a secret value through its type and length only: calls
  of any number of interleaved traces whose inputs, effect details and outputs differ only under secret
  fields, at any depth, leave the same events and the same sequence counter, so the response headers are
  the same too.\<close>
theorem trace_hides_secrets:
  assumes "list_all2 same_call calls calls'"
  shows "trace_run lib calls = trace_run lib calls'
    \<and> map (trace_header lib) (tp_traces (trace_run lib calls)) = map (trace_header lib) (tp_traces (trace_run lib calls'))"
proof -
  have "fold (trace_step lib) calls p = fold (trace_step lib) calls' p" for p
    using assms by (induction arbitrary: p rule: list_all2_induct) (simp_all add: same_call_step)
  then show ?thesis by (simp add: trace_run_def)
qed

section \<open>Keys of an event\<close>

lemma map_of_bt_insert_any: "map_of (bt_insert k v m) = (map_of m)(k \<mapsto> v)"
  by (induction k v m rule: bt_insert.induct) (auto simp: fun_eq_iff)

lemma map_of_bt_extend: "map_of (bt_extend m kvs) = map_of m ++ map_of (rev kvs)"
  by (induction kvs arbitrary: m) (auto simp: bt_extend_def map_add_def fun_eq_iff map_of_bt_insert_any split: option.split)

lemma map_of_bt_collect: "map_of (bt_collect kvs) = map_of (rev kvs)"
  using map_of_bt_extend [of "[]" kvs] by (simp add: bt_collect_def bt_extend_def)

lemma keys_bt_collect: "fst ` set (bt_collect kvs) = fst ` set kvs"
  by (metis dom_map_of_conv_image_fst map_of_bt_collect set_rev)

definition event_keys :: "string set" where "event_keys = {''sequence'', ''kind'', ''traceId'', ''spanId'', ''operation''}"

lemma effect_keys: "fst ` set (effect_fields x) \<inter> event_keys = {}"
proof -
  have "fst ` set (effect_fields x) \<subseteq> {''effect'', ''resource'', ''key'', ''effectTenant'', ''event'', ''before'', ''after'', ''payload''}"
    by (auto simp: effect_fields_def keys_bt_collect List.map_filter_def split: option.splits json.splits)
  then show ?thesis by (auto simp: event_keys_def)
qed

section \<open>Shape of a trace\<close>

definition event_kind :: "json \<Rightarrow> string option" where "event_kind e = str_field e ''kind''"

definition event_sequence :: "json \<Rightarrow> nat" where
  "event_sequence e = (case Option.bind (jfield e ''sequence'') as_u64 of Some n \<Rightarrow> n | None \<Rightarrow> 0)"

definition trace_ok :: "BackendTrace \<Rightarrow> bool" where
  "trace_ok t \<longleftrightarrow>
     bk_events t \<noteq> [] \<and> length (bk_events t) \<le> MAX_EVENTS
     \<and> event_kind (hd (bk_events t)) = Some ''start''
     \<and> list_all (\<lambda>e. event_kind e = Some ''effect'')
         (tl (if bk_finished t then butlast (bk_events t) else bk_events t))
     \<and> (bk_finished t \<longrightarrow> event_kind (last (bk_events t)) = Some ''return'')
     \<and> list_all (\<lambda>e. jfield e ''traceId'' = map_of (bk_common t) ''traceId''
           \<and> jfield e ''operation'' = map_of (bk_common t) ''operation'') (bk_events t)"

definition pushed :: "string \<Rightarrow> (string \<times> json) list \<Rightarrow> BackendTrace \<Rightarrow> nat \<Rightarrow> json" where
  "pushed kind flds t n =
     JObj (bt_extend (bk_common t) ([(''sequence'', JNum (PosInt n)), (''kind'', JStr kind)] @ flds))"

lemma trace_push_cases:
  obtains (full) "trace_push kind flds t n = (Err TooManyEvents, t, n)"
  | (room) "trace_push kind flds t n = (Ok (), t\<lparr>bk_events := bk_events t @ [pushed kind flds t n]\<rparr>, next_sequence n)"
      "length (bk_events t) < MAX_EVENTS"
  by (cases "MAX_EVENTS \<le> length (bk_events t)") (auto simp: trace_push_def pushed_def)

lemma map_of_not_key: "k \<notin> fst ` set kvs \<Longrightarrow> map_of (rev kvs) k = None"
  by (simp add: map_of_eq_None_iff)

lemma pushed_keys:
  assumes "fst ` set flds \<inter> event_keys = {}"
  shows "event_kind (pushed kind flds t n) = Some kind" "event_sequence (pushed kind flds t n) = n"
    "jfield (pushed kind flds t n) ''traceId'' = map_of (bk_common t) ''traceId''"
    "jfield (pushed kind flds t n) ''operation'' = map_of (bk_common t) ''operation''"
proof -
  have no: "map_of (rev flds) k = None" if "k \<in> event_keys" for k using assms that by (intro map_of_not_key) auto
  note nos = no [of "''kind''"] no [of "''sequence''"] no [of "''traceId''"] no [of "''operation''"]
  show "event_kind (pushed kind flds t n) = Some kind" "event_sequence (pushed kind flds t n) = n"
    "jfield (pushed kind flds t n) ''traceId'' = map_of (bk_common t) ''traceId''"
    "jfield (pushed kind flds t n) ''operation'' = map_of (bk_common t) ''operation''"
    using nos by (simp_all add: event_keys_def pushed_def event_kind_def event_sequence_def str_field_def jfield_def map_of_bt_extend
      map_add_def split: option.splits)
qed

lemma begin_ok:
  assumes "trace_begin lib b n = (Inr t, n')"
  shows "trace_ok t" "bk_events t = [pushed ''start'' [(''input'', redact (ba_input b))] t n]" "n' = next_sequence n"
proof -
  obtain c where t: "t = \<lparr>bk_common = c, bk_events = [pushed ''start'' [(''input'', redact (ba_input b))] t n], bk_finished = False\<rparr>"
    and n': "n' = next_sequence n"
    using assms by (auto simp: trace_begin_def trace_push_def pushed_def MAX_EVENTS_def split: option.splits)
  show "bk_events t = [pushed ''start'' [(''input'', redact (ba_input b))] t n]" "n' = next_sequence n"
    using t n' by (metis BackendTrace.select_convs(2), simp)
  then show "trace_ok t" using t pushed_keys [of "[(''input'', redact (ba_input b))]" "''start''" t n]
    by (cases "bk_finished t") (auto simp: trace_ok_def MAX_EVENTS_def event_keys_def, metis BackendTrace.select_convs(3))
qed

text \<open>A call on a trace leaves it alone or appends one event with the number it was given.\<close>

definition extends :: "BackendTrace \<Rightarrow> BackendTrace \<Rightarrow> nat \<Rightarrow> nat \<Rightarrow> bool" where
  "extends t t' n n' \<longleftrightarrow>
     t' = t \<and> n' = n
     \<or> (\<exists>e. bk_events t' = bk_events t @ [e] \<and> event_sequence e = n) \<and> n' = next_sequence n"

lemma effect_ok:
  assumes "trace_effect x t n = (r, t', n')"
  shows "trace_ok t \<Longrightarrow> trace_ok t'" "extends t t' n n'"
proof -
  note keys = pushed_keys [where kind = "''effect''" and t = t and n = n, OF effect_keys [of x]]
  show "trace_ok t \<Longrightarrow> trace_ok t'"
    using assms keys by (cases rule: trace_push_cases [of "''effect''" "effect_fields x" t n])
      (auto simp: trace_effect_def trace_ok_def split: if_splits)
  show "extends t t' n n'"
    using assms keys by (cases rule: trace_push_cases [of "''effect''" "effect_fields x" t n])
      (auto simp: trace_effect_def extends_def split: if_splits)
qed

lemma finish_ok:
  assumes "trace_finish x t n = (r, t', n')"
  shows "trace_ok t \<Longrightarrow> trace_ok t'" "extends t t' n n'"
proof -
  let ?f = "[(''effectsComplete'', JBool (fn_effects_complete x)), (''output'', redact (fn_output x)),
              (''status'', JNum (PosInt (fn_status x))), (''success'', JBool (fn_success x))]"
  have "fst ` set ?f \<inter> event_keys = {}" by (auto simp: event_keys_def)
  note keys = pushed_keys [where kind = "''return''" and t = t and n = n, OF this]
  show "trace_ok t \<Longrightarrow> trace_ok t'"
    using assms keys by (cases rule: trace_push_cases [of "''return''" ?f t n])
      (auto simp: trace_finish_def trace_ok_def split: if_splits)
  show "extends t t' n n'"
    using assms keys by (cases rule: trace_push_cases [of "''return''" ?f t n])
      (auto simp: trace_finish_def extends_def split: if_splits)
qed

section \<open>The process\<close>

definition numbers :: "BackendTrace \<Rightarrow> nat list" where "numbers t = map event_sequence (bk_events t)"

definition tracer_ok :: "tracer \<Rightarrow> bool" where
  "tracer_ok p \<longleftrightarrow> list_all trace_ok (tp_traces p)"

lemma on_trace_ok:
  assumes "\<And>t n r t' n'. op t n = (r, t', n') \<Longrightarrow> trace_ok t \<Longrightarrow> trace_ok t'" "tracer_ok p"
  shows "tracer_ok (on_trace op i p)"
proof (cases "op (tp_traces p ! i) (tp_sequence p)")
  case (fields r t n)
  then show ?thesis
    using assms(1) [OF fields] assms(2) by (auto simp: tracer_ok_def on_trace_def list_all_length nth_list_update)
qed

lemma tracer_ok_step: "tracer_ok p \<Longrightarrow> tracer_ok (trace_step lib c p)"
proof (cases c)
  case (Begin b)
  then show "tracer_ok p \<Longrightarrow> ?thesis" by (auto simp: tracer_ok_def begin_ok(1) split: prod.split sum.split)
next
  case (Effect i x)
  show "tracer_ok p \<Longrightarrow> ?thesis" unfolding Effect trace_step.simps by (rule on_trace_ok) (rule effect_ok(1))
next
  case (Finish i x)
  show "tracer_ok p \<Longrightarrow> ?thesis" unfolding Finish trace_step.simps by (rule on_trace_ok) (rule finish_ok(1))
qed

lemma run_traces_ok: "list_all trace_ok (tp_traces (trace_run lib calls))"
proof -
  have "tracer_ok (fold (trace_step lib) calls p)" if "tracer_ok p" for p
    using that by (induction calls arbitrary: p) (simp_all add: tracer_ok_step)
  then show ?thesis by (simp add: trace_run_def tracer_ok_def)
qed

section \<open>Numbers\<close>

definition issued :: "tracer \<Rightarrow> nat list" where "issued p = concat (map numbers (tp_traces p))"

lemma mset_concat_update:
  "i < length xs \<Longrightarrow> f y = f (xs ! i) @ ys \<Longrightarrow> mset (concat (map f (xs[i := y]))) = mset (concat (map f xs)) + mset ys"
proof (induction xs arbitrary: i)
  case (Cons x xs)
  then show ?case by (cases i) auto
qed simp

lemma mset_concat_same: "i < length xs \<Longrightarrow> f y = f (xs ! i) \<Longrightarrow> map f (xs[i := y]) = map f xs"
  by (metis list_update_id map_update)

text \<open>A call issues nothing or the next number.\<close>

definition numbered :: "tracer \<Rightarrow> tracer \<Rightarrow> bool" where
  "numbered p q \<longleftrightarrow>
     mset (issued q) = mset (issued p) \<and> tp_sequence q = tp_sequence p
     \<or> mset (issued q) = add_mset (tp_sequence p) (mset (issued p)) \<and> tp_sequence q = next_sequence (tp_sequence p)"

lemma numbered_on_trace:
  assumes "\<And>t n r t' n'. op t n = (r, t', n') \<Longrightarrow> extends t t' n n'"
  shows "numbered p (on_trace op i p)"
proof (cases "i < length (tp_traces p)")
  case True
  obtain r t n where op: "op (tp_traces p ! i) (tp_sequence p) = (r, t, n)" by (metis prod.exhaust)
  have e: "on_trace op i p = \<lparr>tp_sequence = n, tp_traces = (tp_traces p)[i := t]\<rparr>" using True op by (simp add: on_trace_def)
  from assms [OF op] show ?thesis unfolding extends_def
  proof (elim disjE conjE exE)
    fix ev
    assume "bk_events t = bk_events (tp_traces p ! i) @ [ev]" "event_sequence ev = tp_sequence p"
    then have "numbers t = numbers (tp_traces p ! i) @ [tp_sequence p]" by (simp add: numbers_def)
    then show "n = next_sequence (tp_sequence p) \<Longrightarrow> ?thesis"
      using mset_concat_update [OF True, of numbers t "[tp_sequence p]"] by (simp add: numbered_def issued_def e)
  qed (simp add: numbered_def issued_def e)
qed (simp add: numbered_def on_trace_def)

lemma numbered_step: "numbered p (trace_step lib c p)"
proof (cases c)
  case (Begin b)
  show ?thesis
  proof (cases "trace_begin lib b (tp_sequence p)")
    case (Pair r n)
    then show ?thesis
    proof (cases r)
      case (Inl e)
      then have "n = tp_sequence p" using Pair by (auto simp: trace_begin_def trace_push_def MAX_EVENTS_def split: option.splits)
      then show ?thesis using Inl Pair Begin by (simp add: numbered_def issued_def)
    next
      case (Inr t)
      note b = begin_ok [OF Pair [unfolded Inr]]
      have "numbers t = [tp_sequence p]"
        unfolding numbers_def b(2) using pushed_keys(2) [of "[(''input'', redact (ba_input b))]"] by (simp add: event_keys_def)
      then show ?thesis using Inr Pair Begin b(3) by (simp add: numbered_def issued_def)
    qed
  qed
next
  case (Effect i x)
  show ?thesis unfolding Effect trace_step.simps by (rule numbered_on_trace) (rule effect_ok(2))
next
  case (Finish i x)
  show ?thesis unfolding Finish trace_step.simps by (rule numbered_on_trace) (rule finish_ok(2))
qed

definition contiguous :: "nat \<Rightarrow> tracer \<Rightarrow> bool" where
  "contiguous n p \<longleftrightarrow> 1 \<le> tp_sequence p \<and> tp_sequence p \<le> n + 1 \<and> mset (issued p) = mset [1..<tp_sequence p]"

lemma contiguous_step:
  assumes "contiguous n p" "n + 2 < 2 ^ 64"
  shows "contiguous (n + 1) (trace_step lib c p)"
proof -
  have "next_sequence (tp_sequence p) = tp_sequence p + 1" using assms by (simp add: contiguous_def next_sequence_def)
  moreover have "1 \<le> tp_sequence p" using assms by (simp add: contiguous_def)
  moreover have "mset [1..<tp_sequence p + 1] = add_mset (tp_sequence p) (mset [1..<tp_sequence p])"
    using calculation(2) by (simp del: mset_upt)
  ultimately show ?thesis using assms(1) numbered_step [of p lib c] unfolding contiguous_def numbered_def
    by (auto simp del: mset_upt)
qed

lemma contiguous_run: "contiguous n p \<Longrightarrow> n + length calls + 1 < 2 ^ 64 \<Longrightarrow> contiguous (n + length calls) (fold (trace_step lib) calls p)"
proof (induction calls arbitrary: n p)
  case (Cons c calls)
  then show ?case using Cons.IH [OF contiguous_step [OF Cons.prems(1), of lib c]] by simp
qed simp

text \<open>The numbers of a trace grow at its end only.\<close>

definition increasing :: "tracer \<Rightarrow> bool" where
  "increasing p \<longleftrightarrow> list_all (\<lambda>t. sorted_wrt (<) (numbers t)) (tp_traces p)"

lemma increasing_on_trace:
  assumes "\<And>t n r t' n'. op t n = (r, t', n') \<Longrightarrow> extends t t' n n'" "increasing p" "\<And>k. k \<in> set (issued p) \<Longrightarrow> k < tp_sequence p"
  shows "increasing (on_trace op i p)"
proof (cases "i < length (tp_traces p)")
  case True
  obtain r t n where op: "op (tp_traces p ! i) (tp_sequence p) = (r, t, n)" by (metis prod.exhaust)
  have e: "on_trace op i p = \<lparr>tp_sequence = n, tp_traces = (tp_traces p)[i := t]\<rparr>" using True op by (simp add: on_trace_def)
  have "set (numbers (tp_traces p ! i)) \<subseteq> set (issued p)" using nth_mem [OF True] by (auto simp: issued_def)
  then have old: "sorted_wrt (<) (numbers (tp_traces p ! i))" "\<And>k. k \<in> set (numbers (tp_traces p ! i)) \<Longrightarrow> k < tp_sequence p"
    using assms(2,3) True by (auto simp: increasing_def list_all_length)
  have "numbers t = numbers (tp_traces p ! i) \<or> numbers t = numbers (tp_traces p ! i) @ [tp_sequence p]"
    using assms(1) [OF op] by (auto simp: extends_def numbers_def)
  then have "sorted_wrt (<) (numbers t)" using old by (auto simp: sorted_wrt_append)
  then show ?thesis using assms(2) by (auto simp: increasing_def e list_all_iff dest: subsetD [OF set_update_subset_insert])
qed (use assms(2) in \<open>simp add: on_trace_def\<close>)

lemma begin_numbers: "trace_begin lib b n = (Inr t, n') \<Longrightarrow> numbers t = [n]"
  using begin_ok(2) pushed_keys(2) [of "[(''input'', redact (ba_input b))]"] by (simp add: numbers_def event_keys_def)

lemma increasing_step:
  assumes "contiguous n p" "increasing p"
  shows "increasing (trace_step lib c p)"
proof -
  have "set (issued p) = set_mset (mset [1..<tp_sequence p])" using assms(1) unfolding contiguous_def by (metis set_mset_mset)
  then have less: "k \<in> set (issued p) \<Longrightarrow> k < tp_sequence p" for k by simp
  show ?thesis
  proof (cases c)
    case (Begin b)
    then show ?thesis using assms(2) by (auto simp: increasing_def dest: begin_numbers split: prod.split sum.split)
  next
    case (Effect i x)
    show ?thesis unfolding Effect trace_step.simps by (rule increasing_on_trace [OF effect_ok(2) assms(2) less])
  next
    case (Finish i x)
    show ?thesis unfolding Finish trace_step.simps by (rule increasing_on_trace [OF finish_ok(2) assms(2) less])
  qed
qed

lemma increasing_run:
  "contiguous n p \<Longrightarrow> increasing p \<Longrightarrow> n + length calls + 1 < 2 ^ 64 \<Longrightarrow> increasing (fold (trace_step lib) calls p)"
proof (induction calls arbitrary: n p)
  case (Cons c calls)
  then show ?case using Cons.IH [OF contiguous_step [OF Cons.prems(1), of lib c] increasing_step] by simp
qed simp

text \<open>C26. In every process, however its traces interleave, each trace has at most 256 events, the first is its
  start event, every further one an effect until the return event that ends a finished trace, and all carry
  the trace and operation it was begun with. Before the 64-bit counter of the process wraps, the numbers of the
  events of a trace increase, and over all traces they are 1, 2, 3 and so on, each issued to one event.\<close>
theorem traces_wellformed:
  "list_all trace_ok (tp_traces (trace_run lib calls))
   \<and> (length calls + 1 < 2 ^ 64 \<longrightarrow>
       list_all (\<lambda>t. sorted_wrt (<) (map event_sequence (bk_events t))) (tp_traces (trace_run lib calls))
       \<and> mset (concat (map (\<lambda>t. map event_sequence (bk_events t)) (tp_traces (trace_run lib calls))))
         = mset [1..<tp_sequence (trace_run lib calls)])"
proof (intro conjI impI run_traces_ok)
  assume n: "length calls + 1 < 2 ^ 64"
  let ?start = "\<lparr>tp_sequence = 1, tp_traces = []\<rparr>"
  have start: "contiguous 0 ?start" "increasing ?start" by (simp_all add: contiguous_def issued_def increasing_def)
  have "contiguous (0 + length calls) (trace_run lib calls)" "increasing (trace_run lib calls)"
    unfolding trace_run_def using contiguous_run [OF start(1)] increasing_run [OF start] n by simp_all
  then show "list_all (\<lambda>t. sorted_wrt (<) (map event_sequence (bk_events t))) (tp_traces (trace_run lib calls))"
    "mset (concat (map (\<lambda>t. map event_sequence (bk_events t)) (tp_traces (trace_run lib calls)))) = mset [1..<tp_sequence (trace_run lib calls)]"
    by (simp_all add: contiguous_def increasing_def issued_def numbers_def [abs_def])
qed

section \<open>Limits\<close>

text \<open>A trace that is full before it is finished never finishes and has no header; the error of the header
  is the one of a finished trace.\<close>
lemma full_trace_lost:
  assumes "MAX_EVENTS \<le> length (bk_events t)" "\<not> bk_finished t"
  shows "trace_finish x t n = (Err TooManyEvents, t, n)" "trace_header lib t = Err AlreadyFinished"
  using assms by (simp_all add: trace_finish_def trace_push_def trace_header_def)

section \<open>Witness\<close>

definition trace_sample :: "string \<Rightarrow> trace_call list" where
  "trace_sample secret =
     [Begin \<lparr>ba_context = \<lparr>tx_trace_id = ''trace-a'', tx_actor = Some ''alice'', tx_action_index = 7\<rparr>,
        ba_operation = ''createProject'', ba_span = None, ba_tenant = Some ''org-1'', ba_key = None,
        ba_input = JObj [(''name'', JStr ''demo''), (''password'', JStr secret)], ba_selections = []\<rparr>,
      Finish 0 \<lparr>fn_output = JArr [JObj [(''apiKey'', JStr secret)]], fn_status = 201, fn_success = True, fn_effects_complete = True\<rparr>]"

definition trace_lib_sample :: trace_lib where
  "trace_lib_sample = \<lparr>tl_sha256_hex = (\<lambda>s. s), tl_encode = (\<lambda>es. show_nat (length es))\<rparr>"

lemma sample_secrets: "secret_field ''password''" "secret_field ''apiKey''" "\<not> secret_field ''name''"
  by code_simp+

lemma sample_agrees:
  "agrees (JObj [(''name'', JStr ''demo''), (''password'', JStr ''abcdefgh'')])
     (JObj [(''name'', JStr ''demo''), (''password'', JStr ''12345678'')])"
  "agrees (JArr [JObj [(''apiKey'', JStr ''abcdefgh'')]]) (JArr [JObj [(''apiKey'', JStr ''12345678'')]])"
proof -
  have s: "shape (JStr ''abcdefgh'') = shape (JStr ''12345678'')" by code_simp
  show "agrees (JObj [(''name'', JStr ''demo''), (''password'', JStr ''abcdefgh'')])
     (JObj [(''name'', JStr ''demo''), (''password'', JStr ''12345678'')])"
    by (rule agrees_object) (simp add: sample_secrets agrees_same del: shape.simps, rule s)
  show "agrees (JArr [JObj [(''apiKey'', JStr ''abcdefgh'')]]) (JArr [JObj [(''apiKey'', JStr ''12345678'')]])"
    by (intro agrees_array list.rel_intros agrees_object) (simp_all add: sample_secrets del: shape.simps, rule s)
qed

theorem trace_hides_secrets_witness:
  "trace_run trace_lib_sample (trace_sample ''abcdefgh'') = trace_run trace_lib_sample (trace_sample ''12345678'')
   \<and> map (trace_header trace_lib_sample) (tp_traces (trace_run trace_lib_sample (trace_sample ''abcdefgh'')))
     = map (trace_header trace_lib_sample) (tp_traces (trace_run trace_lib_sample (trace_sample ''12345678'')))"
  by (rule trace_hides_secrets) (auto simp: trace_sample_def sample_agrees)

theorem traces_wellformed_witness:
  "list_all (\<lambda>t. trace_ok t \<and> sorted_wrt (<) (map event_sequence (bk_events t))) (tp_traces (trace_run trace_lib_sample (trace_sample ''abc'')))
    \<and> mset (concat (map (\<lambda>t. map event_sequence (bk_events t)) (tp_traces (trace_run trace_lib_sample (trace_sample ''abc'')))))
      = mset [1..<tp_sequence (trace_run trace_lib_sample (trace_sample ''abc''))]"
proof -
  have "length (trace_sample ''abc'') + 1 < 2 ^ 64" by (simp add: trace_sample_def)
  then show ?thesis using traces_wellformed [of trace_lib_sample "trace_sample ''abc''"] by (simp add: list_all_iff)
qed

lemma long_operation_rejected:
  "fst (trace_begin trace_lib_sample
     \<lparr>ba_context = \<lparr>tx_trace_id = ''t'', tx_actor = None, tx_action_index = 0\<rparr>, ba_operation = replicate 127 (CHR ''a''),
      ba_span = None, ba_tenant = None, ba_key = None, ba_input = JNull, ba_selections = []\<rparr> 1) = Err InvalidOperation"
  by code_simp

end
