(* ===== verification/Contract_Capture.thy ===== *)
theory Contract_Capture
  imports Backend_Trace_Laws Blob
begin

text \<open>
  The capture middleware of the trace-bound contracts (\<open>src/backend_contract.rs\<close>): which requests it traces,
  what it hands to the service and what it hands back. The service is an argument; the JSON reader and the
  encoding of a trace are parameters, and \<open>between\<close> is what other requests did to the event counter of the
  process while the service ran. Bodies that break off are not modelled.
\<close>

section \<open>The registry\<close>

record Endpoint =
  ep_method :: string
  ep_router_path :: string
  ep_openapi_path :: string
  ep_operation :: string

definition ENDPOINTS :: "Endpoint list" where
  "ENDPOINTS =
     [\<lparr>ep_method = ''post'', ep_router_path = ''/auth/signup'', ep_openapi_path = ''/auth/signup'', ep_operation = ''cloudSignup''\<rparr>,
      \<lparr>ep_method = ''post'', ep_router_path = ''/account/projects'', ep_openapi_path = ''/account/projects'',
        ep_operation = ''cloudCreateProject''\<rparr>,
      \<lparr>ep_method = ''post'', ep_router_path = ''/v1/events'', ep_openapi_path = ''/v1/events'', ep_operation = ''cloudIngestEvents''\<rparr>,
      \<lparr>ep_method = ''get'', ep_router_path = ''/v1/me'', ep_openapi_path = ''/v1/me'', ep_operation = ''cloudGetMe''\<rparr>,
      \<lparr>ep_method = ''post'', ep_router_path = ''/v1/apps/:app/buckets/:bucket/replay-results'',
        ep_openapi_path = ''/v1/apps/{app}/buckets/{bucket}/replay-results'', ep_operation = ''cloudRecordReplay''\<rparr>]"

definition registered_operation :: "string \<Rightarrow> string \<Rightarrow> (string \<times> (string \<times> json) list) option" where
  "registered_operation meth path =
     (case List.find (\<lambda>e. map ascii_lower meth = map ascii_lower (ep_method e) \<and> path = ep_router_path e) (take 4 ENDPOINTS) of
        Some e \<Rightarrow> Some (ep_operation e, [])
      | None \<Rightarrow>
          if meth = ''POST'' then
            (case split_all CHR ''/'' (trim_slashes path) of
               [p0, p1, app_id, p3, bucket, p5] \<Rightarrow>
                 if p0 = ''v1'' \<and> p1 = ''apps'' \<and> p3 = ''buckets'' \<and> p5 = ''replay-results''
                 then Some (ep_operation (ENDPOINTS ! 4), [(''app'', JStr app_id), (''bucket'', JStr bucket)])
                 else None
             | _ \<Rightarrow> None)
          else None)"

section \<open>The middleware\<close>

record http_request =
  hq_method :: string
  hq_path :: string
  hq_header :: "string \<Rightarrow> string option"
  hq_body :: string

record http_response =
  hs_status :: nat
  hs_headers :: "(string \<times> string) list"
  hs_body :: string

definition MAX_TRACED_REQUEST :: nat where "MAX_TRACED_REQUEST = 32 * 1024 * 1024"
definition MAX_TRACED_RESPONSE :: nat where "MAX_TRACED_RESPONSE = 4 * 1024 * 1024"

definition EVENTS_HEADER :: string where "EVENTS_HEADER = ''x-reproit-events''"

definition header_insert :: "string \<Rightarrow> string \<Rightarrow> (string \<times> string) list \<Rightarrow> (string \<times> string) list" where
  "header_insert name v hs = filter (\<lambda>h. fst h \<noteq> name) hs @ [(name, v)]"

definition json_or_null :: "(string \<Rightarrow> json option) \<Rightarrow> string \<Rightarrow> json" where
  "json_or_null parse body = (case parse body of Some v \<Rightarrow> v | None \<Rightarrow> JNull)"

definition traced_input :: "(string \<Rightarrow> json option) \<Rightarrow> (string \<times> json) list \<Rightarrow> string \<Rightarrow> json" where
  "traced_input parse path_values body =
     (if path_values = [] then json_or_null parse body
      else JObj [(''body'', json_or_null parse body), (''path'', JObj path_values)])"

text \<open>The answer of the service with the finished trace.\<close>

definition traced_response :: "trace_lib \<Rightarrow> (string \<Rightarrow> json option) \<Rightarrow> BackendTrace \<Rightarrow> nat \<Rightarrow> http_response \<Rightarrow> http_response \<times> nat" where
  "traced_response lib parse t sequence response =
     (if MAX_TRACED_RESPONSE < length (hs_body response) then (response\<lparr>hs_body := []\<rparr>, sequence)
      else
        (case trace_finish \<lparr>fn_output = json_or_null parse (hs_body response), fn_status = hs_status response,
                fn_success = 200 \<le> hs_status response \<and> hs_status response < 400, fn_effects_complete = False\<rparr> t sequence of
           (_, t', sequence') \<Rightarrow>
             (case trace_header lib t' of
                Inr encoded \<Rightarrow> (response\<lparr>hs_headers := header_insert EVENTS_HEADER encoded (hs_headers response)\<rparr>, sequence')
              | Inl _ \<Rightarrow> (response, sequence'))))"

definition contract_capture :: "trace_lib \<Rightarrow> (string \<Rightarrow> json option) \<Rightarrow> (nat \<Rightarrow> nat) \<Rightarrow> (http_request \<Rightarrow> 's \<Rightarrow> http_response \<times> 's)
    \<Rightarrow> http_request \<Rightarrow> nat \<times> 's \<Rightarrow> http_response \<times> nat \<times> 's" where
  "contract_capture lib parse between next request st =
     (case st of (sequence, s) \<Rightarrow>
      (case (from_header_fn (hq_header request), registered_operation (hq_method request) (hq_path request)) of
         (Some context, Some (operation, path_values)) \<Rightarrow>
           if MAX_TRACED_REQUEST < length (hq_body request)
           then (\<lparr>hs_status = 413, hs_headers = [], hs_body = []\<rparr>, sequence, s)
           else
             (case trace_begin lib \<lparr>ba_context = context, ba_operation = operation, ba_span = None, ba_tenant = None, ba_key = None,
                      ba_input = traced_input parse path_values (hq_body request), ba_selections = []\<rparr> sequence of
                (Inl _, sequence1) \<Rightarrow> (case next request s of (response, s') \<Rightarrow> (response, between sequence1, s'))
              | (Inr t, sequence1) \<Rightarrow>
                  (case next request s of (response, s') \<Rightarrow>
                   (case traced_response lib parse t (between sequence1) response of
                      (response', sequence2) \<Rightarrow> (response', sequence2, s'))))
       | _ \<Rightarrow> (case next request s of (response, s') \<Rightarrow> (response, between sequence, s'))))"

section \<open>What it changes\<close>

definition other_headers :: "http_response \<Rightarrow> (string \<times> string) list" where
  "other_headers r = filter (\<lambda>h. fst h \<noteq> EVENTS_HEADER) (hs_headers r)"

lemma traced_response_same:
  assumes "traced_response lib parse t n r = (r', n')" "length (hs_body r) \<le> MAX_TRACED_RESPONSE"
  shows "hs_status r' = hs_status r" "hs_body r' = hs_body r" "other_headers r' = other_headers r"
  using assms by (auto simp: traced_response_def other_headers_def header_insert_def filter_id_conv split: prod.splits sum.splits)

text \<open>The middleware is transparent: on a request and an answer within its two limits the service is called with the
  request as it came, and its answer is returned with its status, its body and every header but the one of the
  trace. A request that is not traced is not touched at all.\<close>
theorem capture_transparent:
  assumes "length (hq_body request) \<le> MAX_TRACED_REQUEST" "next request s = (response, s')"
    and "length (hs_body response) \<le> MAX_TRACED_RESPONSE"
    and "contract_capture lib parse between next request (n, s) = (response', n', s'')"
  shows "s'' = s' \<and> hs_status response' = hs_status response \<and> hs_body response' = hs_body response
    \<and> other_headers response' = other_headers response
    \<and> (from_header_fn (hq_header request) = None \<or> registered_operation (hq_method request) (hq_path request) = None \<longrightarrow> response' = response)"
  using assms traced_response_same [OF _ assms(3)]
  by (auto simp: contract_capture_def not_less split: option.splits prod.splits sum.splits)

text \<open>A traced answer above four mebibytes arrives without its body, and says it is a success.\<close>

lemma large_answer_emptied:
  assumes "MAX_TRACED_RESPONSE < length (hs_body r)"
  shows "traced_response lib parse t n r = (r\<lparr>hs_body := []\<rparr>, n)"
  using assms by (simp add: traced_response_def)

section \<open>Witness\<close>

definition me_request :: http_request where
  "me_request = \<lparr>hq_method = ''GET'', hq_path = ''/v1/me'',
     hq_header = (\<lambda>name. if name = ''x-reproit-trace'' then Some ''trace-a'' else if name = ''x-reproit-action'' then Some ''7'' else None),
     hq_body = []\<rparr>"

definition me_service :: "http_request \<Rightarrow> nat \<Rightarrow> http_response \<times> nat" where
  "me_service r s = (\<lparr>hs_status = 200, hs_headers = [(''content-type'', ''application/json'')], hs_body = ''{}''\<rparr>, s + 1)"

lemma me_registered: "registered_operation ''GET'' ''/v1/me'' = Some (''cloudGetMe'', [])"
  by code_simp

theorem capture_transparent_witness:
  "snd (snd (contract_capture trace_lib_sample (\<lambda>_. Some (JObj [])) id me_service me_request (1, 0))) = 1
    \<and> hs_body (fst (contract_capture trace_lib_sample (\<lambda>_. Some (JObj [])) id me_service me_request (1, 0))) = ''{}''"
proof -
  let ?c = "contract_capture trace_lib_sample (\<lambda>_. Some (JObj [])) id me_service me_request (1, 0)"
  have s: "me_service me_request 0 = (\<lparr>hs_status = 200, hs_headers = [(''content-type'', ''application/json'')], hs_body = ''{}''\<rparr>, 1)"
    by (simp add: me_service_def)
  have "?c = (fst ?c, fst (snd ?c), snd (snd ?c))" by simp
  from capture_transparent [OF _ s _ this] show ?thesis by (simp add: me_request_def MAX_TRACED_REQUEST_def MAX_TRACED_RESPONSE_def)
qed

end
