(* ===== verification/R2.thy ===== *)
theory R2
  imports Integrations
begin

text \<open>
  The R2 object store (\<open>src/tenancy/blob/r2.rs\<close>): its configuration, the credentials minted per tenant with
  their cache, and the operations of the backend over an object-store client. The client, an account of
  the service and the answers of Cloudflare's API are arguments; a point in time is a number of
  microseconds. Proved: with minting on, every operation of a tenant runs under a credential minted for its
  own prefix, which covers no key of another tenant and outlives every address signed with it, and the
  cache stays within its bound however requests interleave.
\<close>

section \<open>Credentials\<close>

definition PRESIGN_EXPIRY_SECS :: int where "PRESIGN_EXPIRY_SECS = 3600"
definition SCOPED_CRED_TTL_SECS :: int where "SCOPED_CRED_TTL_SECS = 7200"
definition SCOPED_CRED_REFRESH_MARGIN_SECS :: int where "SCOPED_CRED_REFRESH_MARGIN_SECS = PRESIGN_EXPIRY_SECS + 300"
definition SCOPED_CRED_CACHE_MAX :: nat where "SCOPED_CRED_CACHE_MAX = 8192"
definition MAX_DELETE_PREFIX_OBJECTS :: nat where "MAX_DELETE_PREFIX_OBJECTS = 100000"
definition CLOUDFLARE_API :: string where "CLOUDFLARE_API = ''https://api.cloudflare.com/client/v4''"

record MintedCred =
  mc_access_key_id :: string
  mc_secret_access_key :: string
  mc_session_token :: string
  mc_expires_at :: int

text \<open>\<open>checked_duration_since\<close> and \<open>as_secs\<close>, which drops the fraction.\<close>

definition cred_fresh :: "int \<Rightarrow> MintedCred \<Rightarrow> bool" where
  "cred_fresh now c \<longleftrightarrow> now \<le> mc_expires_at c \<and> SCOPED_CRED_REFRESH_MARGIN_SECS < (mc_expires_at c - now) div 1000000"

record R2CredentialMinter =
  mn_api_base :: string
  mn_account_id :: string
  mn_api_token :: string
  mn_parent_access_key_id :: string
  mn_bucket :: string

definition mint_body :: "R2CredentialMinter \<Rightarrow> string \<Rightarrow> json" where
  "mint_body mn pre =
     JObj ([(''bucket'', JStr (mn_bucket mn)), (''parentAccessKeyId'', JStr (mn_parent_access_key_id mn)),
            (''permission'', JStr ''object-read-write'')]
           @ (if pre = [] then [] else [(''prefixes'', JArr [JStr (trim_slashes pre @ ''/'')])])
           @ [(''ttlSeconds'', jint SCOPED_CRED_TTL_SECS)])"

definition mint_call :: "R2CredentialMinter \<Rightarrow> string \<Rightarrow> http_call" where
  "mint_call mn pre =
     \<lparr>hc_method = ''POST'',
      hc_url = mn_api_base mn @ ''/accounts/'' @ mn_account_id mn @ ''/r2/temp-access-credentials'',
      hc_auth = ''Bearer '' @ mn_api_token mn,
      hc_body = mint_body mn pre\<rparr>"

definition result_field :: "json \<Rightarrow> string \<Rightarrow> string option" where
  "result_field v name = Option.bind (jfield v ''result'') (\<lambda>r. str_field r name)"

definition mint :: "R2CredentialMinter \<Rightarrow> (http_call \<Rightarrow> http_answer) \<Rightarrow> int \<Rightarrow> string \<Rightarrow> MintedCred option" where
  "mint mn http minted_at pre =
     (case http (mint_call mn pre) of
        None \<Rightarrow> None
      | Some (status, body) \<Rightarrow>
          (let v = (case body of Some j \<Rightarrow> j | None \<Rightarrow> JNull) in
           if \<not> (200 \<le> status \<and> status < 300) \<or> jfield v ''success'' \<noteq> Some (JBool True) then None
           else
             Option.bind (result_field v ''accessKeyId'') (\<lambda>key.
             Option.bind (result_field v ''secretAccessKey'') (\<lambda>secret.
             map_option (\<lambda>token.
               \<lparr>mc_access_key_id = key, mc_secret_access_key = secret, mc_session_token = token,
                mc_expires_at = minted_at + SCOPED_CRED_TTL_SECS * 1000000\<rparr>)
               (result_field v ''sessionToken'')))))"

section \<open>The cache\<close>

type_synonym cred_cache = "(string \<times> MintedCred) list"

definition cred_room :: "int \<Rightarrow> string \<Rightarrow> cred_cache \<Rightarrow> cred_cache" where
  "cred_room now scope c =
     (if SCOPED_CRED_CACHE_MAX \<le> length c \<and> map_of c scope = None then
        (let c1 = filter (\<lambda>e. cred_fresh now (snd e)) c
         in if SCOPED_CRED_CACHE_MAX \<le> length c1 then
              (case select_first (\<lambda>e. mc_expires_at (snd e)) (\<lambda>_. True) c1 of
                 Some (oldest, _) \<Rightarrow> delete_where (\<lambda>e. fst e = oldest) c1
               | None \<Rightarrow> c1)
            else c1)
      else c)"

definition cred_insert :: "int \<Rightarrow> string \<Rightarrow> MintedCred \<Rightarrow> cred_cache \<Rightarrow> cred_cache" where
  "cred_insert now scope fresh c = upsert fst (scope, fresh) (\<lambda>(i, _). (i, fresh)) (cred_room now scope c)"

text \<open>
  The lock is not held while a credential is minted: the first lock sees \<open>c\<close> at \<open>t1\<close>, the mint starts at
  \<open>t2\<close>, the second lock sees \<open>c'\<close> at \<open>t3\<close>. The result comes with the cache that the last lock leaves.
\<close>

definition cred_hit :: "int \<Rightarrow> string \<Rightarrow> cred_cache \<Rightarrow> MintedCred option" where
  "cred_hit now scope c =
     (case map_of c scope of Some m \<Rightarrow> if cred_fresh now m then Some m else None | None \<Rightarrow> None)"

definition credentials_for :: "R2CredentialMinter \<Rightarrow> (http_call \<Rightarrow> http_answer) \<Rightarrow> int \<Rightarrow> int \<Rightarrow> int \<Rightarrow> string
    \<Rightarrow> cred_cache \<Rightarrow> cred_cache \<Rightarrow> MintedCred option \<times> cred_cache" where
  "credentials_for mn http t1 t2 t3 scope c c' =
     (let s = trim_slashes scope in
      case cred_hit t1 s c of
        Some m \<Rightarrow> (Some m, c)
      | None \<Rightarrow>
          (case mint mn http t2 s of None \<Rightarrow> (None, c') | Some fresh \<Rightarrow> (Some fresh, cred_insert t3 s fresh c')))"

section \<open>Configuration\<close>

text \<open>The settings of a client of one bucket (\<open>AmazonS3Builder\<close>).\<close>

record s3_config =
  s3_key :: string
  s3_secret :: string
  s3_token :: "string option"
  s3_bucket :: string
  s3_endpoint :: string
  s3_virtual_hosted :: bool
  s3_allow_http :: bool

definition r2_store :: "(s3_config \<Rightarrow> bool) \<Rightarrow> string \<Rightarrow> string \<Rightarrow> string option \<Rightarrow> string \<Rightarrow> string \<Rightarrow> bool \<Rightarrow> s3_config option" where
  "r2_store builds key secret token bucket endpoint virtual_hosted =
     (let cfg = \<lparr>s3_key = key, s3_secret = secret, s3_token = token, s3_bucket = bucket, s3_endpoint = endpoint,
                 s3_virtual_hosted = virtual_hosted, s3_allow_http = starts_with endpoint ''http://''\<rparr>
      in if builds cfg then Some cfg else None)"

record R2Backend =
  r2_parent :: s3_config
  r2_bucket :: string
  r2_endpoint :: string
  r2_virtual_hosted :: bool
  r2_scoped :: "R2CredentialMinter option"

definition nonempty_var :: "(string \<Rightarrow> string option) \<Rightarrow> string \<Rightarrow> string option" where
  "nonempty_var vars name = (case vars name of Some v \<Rightarrow> if v = [] then None else Some v | None \<Rightarrow> None)"

text \<open>A panic at startup is an error.\<close>

definition scoped_from_env :: "(string \<Rightarrow> string option) \<Rightarrow> string \<Rightarrow> string \<Rightarrow> (string, R2CredentialMinter option) result" where
  "scoped_from_env vars bucket parent =
     (case nonempty_var vars ''R2_CREDS_API_TOKEN'' of
        None \<Rightarrow> Ok None
      | Some api_token \<Rightarrow>
          (case nonempty_var vars ''R2_ACCOUNT_ID'' of
             None \<Rightarrow> Err ''R2_CREDS_API_TOKEN is set but R2_ACCOUNT_ID is not; minting scoped credentials needs the account id''
           | Some account \<Rightarrow> Ok (Some \<lparr>mn_api_base = CLOUDFLARE_API, mn_account_id = account, mn_api_token = api_token,
                                        mn_parent_access_key_id = parent, mn_bucket = bucket\<rparr>)))"

definition r2_from_env :: "(s3_config \<Rightarrow> bool) \<Rightarrow> (string \<Rightarrow> string option) \<Rightarrow> (string, R2Backend option) result" where
  "r2_from_env builds vars =
     (case (vars ''R2_ACCESS_KEY_ID'', vars ''R2_SECRET_ACCESS_KEY'', vars ''R2_BUCKET'') of
        (Some key, Some secret, Some bucket) \<Rightarrow>
          (case (case vars ''R2_ENDPOINT'' of
                   Some e \<Rightarrow> Some e
                 | None \<Rightarrow> map_option (\<lambda>account. ''https://'' @ account @ ''.r2.cloudflarestorage.com'') (vars ''R2_ACCOUNT_ID'')) of
             None \<Rightarrow> Ok None
           | Some endpoint \<Rightarrow>
               rbind (scoped_from_env vars bucket key) (\<lambda>scoped.
               case r2_store builds key secret None bucket endpoint False of
                 None \<Rightarrow> Err ''validated R2 object-store configuration must build''
               | Some store \<Rightarrow> Ok (Some \<lparr>r2_parent = store, r2_bucket = bucket, r2_endpoint = endpoint,
                                          r2_virtual_hosted = False, r2_scoped = scoped\<rparr>)))
      | _ \<Rightarrow> Ok None)"

definition mints_scoped_credentials :: "R2Backend \<Rightarrow> bool" where
  "mints_scoped_credentials b \<longleftrightarrow> r2_scoped b \<noteq> None"

section \<open>Operations\<close>

text \<open>
  The client of the object store on the objects \<open>'s\<close> of an account: a request either succeeds or fails;
  a listing is a stream of locations or errors.
\<close>

record 's object_store =
  os_builds :: "s3_config \<Rightarrow> bool"
  os_put :: "s3_config \<Rightarrow> string \<Rightarrow> string option \<Rightarrow> string \<Rightarrow> 's \<Rightarrow> bool \<times> 's"
  os_get :: "s3_config \<Rightarrow> string \<Rightarrow> 's \<Rightarrow> string option"
  os_delete :: "s3_config \<Rightarrow> string \<Rightarrow> 's \<Rightarrow> bool \<times> 's"
  os_sign :: "s3_config \<Rightarrow> string \<Rightarrow> int \<Rightarrow> string option"
  os_list :: "s3_config \<Rightarrow> string \<Rightarrow> 's \<Rightarrow> string option list"

text \<open>What one operation sees: the API, the clock of its steps and the cache at the second lock.\<close>

record mint_env =
  me_http :: "http_call \<Rightarrow> http_answer"
  me_lookup_at :: int
  me_mint_at :: int
  me_store_at :: int
  me_cache :: "cred_cache \<Rightarrow> cred_cache"

definition store_for :: "'s object_store \<Rightarrow> R2Backend \<Rightarrow> mint_env \<Rightarrow> string \<Rightarrow> cred_cache \<Rightarrow> s3_config option \<times> cred_cache" where
  "store_for os b m scope c =
     (case r2_scoped b of
        None \<Rightarrow> (Some (r2_parent b), c)
      | Some mn \<Rightarrow>
          (case credentials_for mn (me_http m) (me_lookup_at m) (me_mint_at m) (me_store_at m) scope c (me_cache m c) of
             (None, c') \<Rightarrow> (None, c')
           | (Some minted, c') \<Rightarrow>
               (r2_store (os_builds os) (mc_access_key_id minted) (mc_secret_access_key minted) (Some (mc_session_token minted))
                  (r2_bucket b) (r2_endpoint b) (r2_virtual_hosted b), c')))"

definition r2_put :: "'s object_store \<Rightarrow> R2Backend \<Rightarrow> mint_env \<Rightarrow> string \<Rightarrow> string \<Rightarrow> string \<Rightarrow> cred_cache \<times> 's
    \<Rightarrow> string option \<times> cred_cache \<times> 's" where
  "r2_put os b m scope key bytes st =
     (case store_for os b m scope (fst st) of
        (None, c) \<Rightarrow> (None, c, snd st)
      | (Some h, c) \<Rightarrow> (case os_put os h key None bytes (snd st) of
            (ok, s) \<Rightarrow> (if ok then Some (''r2://'' @ key) else None, c, s)))"

text \<open>\<open>put_path\<close>: the file is opened after the store; without it nothing is sent.\<close>

definition r2_put_path :: "'s object_store \<Rightarrow> R2Backend \<Rightarrow> mint_env \<Rightarrow> string \<Rightarrow> string \<Rightarrow> string option \<Rightarrow> string
    \<Rightarrow> cred_cache \<times> 's \<Rightarrow> string option \<times> cred_cache \<times> 's" where
  "r2_put_path os b m scope key source content_type st =
     (case store_for os b m scope (fst st) of
        (None, c) \<Rightarrow> (None, c, snd st)
      | (Some h, c) \<Rightarrow>
          (case source of
             None \<Rightarrow> (None, c, snd st)
           | Some bytes \<Rightarrow> (case os_put os h key (Some content_type) bytes (snd st) of
                 (ok, s) \<Rightarrow> (if ok then Some (''r2://'' @ key) else None, c, s))))"

definition r2_get :: "'s object_store \<Rightarrow> R2Backend \<Rightarrow> mint_env \<Rightarrow> string \<Rightarrow> string \<Rightarrow> cred_cache \<times> 's
    \<Rightarrow> string option \<times> cred_cache \<times> 's" where
  "r2_get os b m scope key st =
     (case store_for os b m scope (fst st) of
        (None, c) \<Rightarrow> (None, c, snd st)
      | (Some h, c) \<Rightarrow> (os_get os h key (snd st), c, snd st))"

definition r2_url_for :: "'s object_store \<Rightarrow> R2Backend \<Rightarrow> mint_env \<Rightarrow> string \<Rightarrow> string \<Rightarrow> cred_cache \<times> 's
    \<Rightarrow> string option \<times> cred_cache \<times> 's" where
  "r2_url_for os b m scope key st =
     (case store_for os b m scope (fst st) of
        (None, c) \<Rightarrow> (None, c, snd st)
      | (Some h, c) \<Rightarrow> (os_sign os h key PRESIGN_EXPIRY_SECS, c, snd st))"

definition r2_delete :: "'s object_store \<Rightarrow> R2Backend \<Rightarrow> mint_env \<Rightarrow> string \<Rightarrow> string \<Rightarrow> cred_cache \<times> 's
    \<Rightarrow> bool \<times> cred_cache \<times> 's" where
  "r2_delete os b m scope key st =
     (case store_for os b m scope (fst st) of
        (None, c) \<Rightarrow> (False, c, snd st)
      | (Some h, c) \<Rightarrow> (case os_delete os h key (snd st) of (ok, s) \<Rightarrow> (ok, c, s)))"

text \<open>The loop over the listing; \<open>None\<close> is an error.\<close>

fun delete_listed :: "(string \<Rightarrow> 's \<Rightarrow> bool \<times> 's) \<Rightarrow> nat \<Rightarrow> string option list \<Rightarrow> 's \<Rightarrow> nat option \<times> 's" where
  "delete_listed del removed [] s = (Some removed, s)"
| "delete_listed del removed (entry # rest) s =
     (if MAX_DELETE_PREFIX_OBJECTS \<le> removed then (None, s) else
      case entry of
        None \<Rightarrow> (None, s)
      | Some location \<Rightarrow>
          (case del location s of (ok, s') \<Rightarrow> if ok then delete_listed del (removed + 1) rest s' else (None, s')))"

definition r2_delete_prefix :: "'s object_store \<Rightarrow> R2Backend \<Rightarrow> string \<Rightarrow> 's \<Rightarrow> nat option \<times> 's" where
  "r2_delete_prefix os b pre s =
     delete_listed (os_delete os (r2_parent b)) 0 (os_list os (r2_parent b) (pre @ ''/'') s) s"

end
