(* ===== verification/R2_Laws.thy ===== *)
theory R2_Laws
  imports R2 Eviction
begin

text \<open>
  The credentials of the R2 backend: the caches a process can reach while its requests interleave, what
  a tenant's credential covers, and how long it lives.
\<close>

section \<open>What the credential service grants\<close>

text \<open>
  A temporary credential opens one bucket, under the prefixes of the request it was issued for or, without
  any, the whole bucket (Cloudflare's documentation of \<open>temp-access-credentials\<close>).
\<close>

record temp_credential =
  tk_secret :: string
  tk_token :: string
  tk_bucket :: "string option"
  tk_prefixes :: "string list option"

definition asked_prefixes :: "json \<Rightarrow> string list option" where
  "asked_prefixes body = (case jfield body ''prefixes'' of Some (JArr ps) \<Rightarrow> Some (List.map_filter as_str ps) | _ \<Rightarrow> None)"

definition grants_key :: "temp_credential \<Rightarrow> string \<Rightarrow> bool" where
  "grants_key tc key \<longleftrightarrow> (case tk_prefixes tc of None \<Rightarrow> True | Some ps \<Rightarrow> list_ex (starts_with key) ps)"

text \<open>
  \<open>issued\<close> is what the service has issued, by access key id. It answers a request with a credential it
  issued for that request.
\<close>

definition answers_issued :: "(string \<Rightarrow> temp_credential option) \<Rightarrow> (http_call \<Rightarrow> http_answer) \<Rightarrow> bool" where
  "answers_issued issued http \<longleftrightarrow>
     (\<forall>call status v key. http call = Some (status, Some v) \<and> jfield v ''success'' = Some (JBool True)
        \<and> result_field v ''accessKeyId'' = Some key \<longrightarrow>
        (\<exists>tc. issued key = Some tc \<and> result_field v ''secretAccessKey'' = Some (tk_secret tc)
           \<and> result_field v ''sessionToken'' = Some (tk_token tc)
           \<and> tk_bucket tc = str_field (hc_body call) ''bucket'' \<and> tk_prefixes tc = asked_prefixes (hc_body call)))"

text \<open>The credential is the one that the service issued for this bucket and scope.\<close>

definition minted_for :: "(string \<Rightarrow> temp_credential option) \<Rightarrow> R2CredentialMinter \<Rightarrow> string \<Rightarrow> MintedCred \<Rightarrow> bool" where
  "minted_for issued mn scope cred \<longleftrightarrow>
     issued (mc_access_key_id cred) = Some \<lparr>tk_secret = mc_secret_access_key cred, tk_token = mc_session_token cred,
       tk_bucket = Some (mn_bucket mn), tk_prefixes = (if scope = [] then None else Some [trim_slashes scope @ ''/''])\<rparr>"

lemma mint_asks: "asked_prefixes (mint_body mn scope) = (if scope = [] then None else Some [trim_slashes scope @ ''/''])"
  "str_field (mint_body mn scope) ''bucket'' = Some (mn_bucket mn)"
  by (simp_all add: asked_prefixes_def mint_body_def jfield_def str_field_def List.map_filter_def)

lemma mint_issued:
  assumes "answers_issued issued http" "mint mn http minted_at scope = Some cred"
  shows "minted_for issued mn scope cred"
proof -
  obtain status v where v: "http (mint_call mn scope) = Some (status, Some v)" "jfield v ''success'' = Some (JBool True)"
    "result_field v ''accessKeyId'' = Some (mc_access_key_id cred)"
    and f: "result_field v ''secretAccessKey'' = Some (mc_secret_access_key cred)" "result_field v ''sessionToken'' = Some (mc_session_token cred)"
    using assms(2) by (auto simp: mint_def Let_def jfield_def split: option.splits if_splits Option.bind_splits)
  have "hc_body (mint_call mn scope) = mint_body mn scope" by (simp add: mint_call_def)
  then obtain tc where "issued (mc_access_key_id cred) = Some tc" "tk_secret tc = mc_secret_access_key cred" "tk_token tc = mc_session_token cred"
    "tk_bucket tc = Some (mn_bucket mn)" "tk_prefixes tc = (if scope = [] then None else Some [trim_slashes scope @ ''/''])"
    using assms(1) [unfolded answers_issued_def, rule_format, of "mint_call mn scope" status v "mc_access_key_id cred"] v f
    by (auto simp: mint_asks)
  then show ?thesis by (cases tc) (simp add: minted_for_def)
qed

section \<open>Reachable caches\<close>

text \<open>Only the second lock of a request changes the cache: it stores what was just minted for its scope.\<close>

inductive cred_reach :: "(string \<Rightarrow> temp_credential option) \<Rightarrow> R2CredentialMinter \<Rightarrow> cred_cache \<Rightarrow> bool" for issued mn where
  reach_empty: "cred_reach issued mn []"
| reach_store: "cred_reach issued mn c \<Longrightarrow> answers_issued issued http \<Longrightarrow> mint mn http minted_at scope = Some cred
    \<Longrightarrow> cred_reach issued mn (cred_insert now scope cred c)"

definition creds_ok :: "(string \<Rightarrow> temp_credential option) \<Rightarrow> R2CredentialMinter \<Rightarrow> cred_cache \<Rightarrow> bool" where
  "creds_ok issued mn c \<longleftrightarrow> cache_within SCOPED_CRED_CACHE_MAX c \<and> (\<forall>(s, cred) \<in> set c. minted_for issued mn s cred)"

lemma cred_room_evict: "cred_room now s c = evict_room SCOPED_CRED_CACHE_MAX (cred_fresh now) mc_expires_at s c"
  by (simp add: cred_room_def evict_room_def)

lemma cred_insert_ok:
  assumes "creds_ok issued mn c" "minted_for issued mn s cred"
  shows "creds_ok issued mn (cred_insert now s cred c)"
proof -
  have c: "cache_within SCOPED_CRED_CACHE_MAX c" "0 < SCOPED_CRED_CACHE_MAX"
    using assms(1) by (simp_all add: creds_ok_def SCOPED_CRED_CACHE_MAX_def)
  have "set (cred_insert now s cred c) \<subseteq> insert (s, cred) (set c)"
    using evict_room_spec [OF c] set_evict_insert unfolding cred_insert_def cred_room_evict by fastforce
  then show ?thesis using assms evict_insert_within [OF c]
    by (auto simp: creds_ok_def cred_insert_def cred_room_evict)
qed

lemma reach_ok: "cred_reach issued mn c \<Longrightarrow> creds_ok issued mn c"
proof (induction rule: cred_reach.induct)
  case (reach_store c http minted_at scope cred now)
  show ?case by (rule cred_insert_ok [OF reach_store.IH mint_issued [OF reach_store.hyps(2,3)]])
qed (simp add: creds_ok_def cache_within_def)

lemma credentials_reach:
  assumes "credentials_for mn http t1 t2 t3 scope c c' = (r, c'')" "answers_issued issued http" "cred_reach issued mn c" "cred_reach issued mn c'"
  shows "cred_reach issued mn c''" "r = Some cred \<Longrightarrow> minted_for issued mn (trim_slashes scope) cred"
proof -
  show "cred_reach issued mn c''"
    using assms by (auto simp: credentials_for_def Let_def intro: reach_store split: option.splits)
  assume "r = Some cred"
  then consider "cred_hit t1 (trim_slashes scope) c = Some cred" | "mint mn http t2 (trim_slashes scope) = Some cred"
    using assms(1) by (auto simp: credentials_for_def Let_def split: option.splits)
  then show "minted_for issued mn (trim_slashes scope) cred"
  proof cases
    case 1
    then have "(trim_slashes scope, cred) \<in> set c" by (auto simp: cred_hit_def split: option.splits if_splits dest: map_of_SomeD)
    then show ?thesis using reach_ok [OF assms(3)] by (auto simp: creds_ok_def)
  qed (rule mint_issued [OF assms(2)])
qed

section \<open>Coverage\<close>

lemma scoped_tenant: "scoped (blob_scope j) key = blob_scope j @ ''/'' @ key"
proof -
  have "blob_scope j \<noteq> []" by (simp add: blob_scope_def)
  then show ?thesis by (simp add: scoped_def trim_scope)
qed

lemma scope_prefix_iff: "starts_with (scoped (blob_scope j) key) (blob_scope i @ ''/'') \<longleftrightarrow> i = j"
proof
  assume "starts_with (scoped (blob_scope j) key) (blob_scope i @ ''/'')"
  then obtain r where "blob_scope j @ ''/'' @ key = (blob_scope i @ ''/'') @ r"
    unfolding scoped_tenant starts_with_def prefix_def by blast
  then have "split_all CHR ''/'' (blob_scope j @ ''/'' @ key) = split_all CHR ''/'' (blob_scope i @ ''/'' @ r)" by simp
  then have "org_segment j = org_segment i" unfolding split_scope by simp
  then show "i = j" by (simp add: org_segment_def show_int_inj)
qed (simp add: scoped_tenant starts_with_def)

text \<open>C8. With minting on, whatever requests ran before and interleave now, an operation for a tenant that
  gets a client at all gets one with a credential that the service issued for the bucket and the prefix of this
  tenant: never the parent's, and it opens the scoped keys of this tenant and of no other. The credentials
  held stay within their bound. The service is assumed to answer a request with a credential it issued for
  that request, which the parent's access key is not.\<close>
theorem tenant_credential_confined:
  assumes "r2_scoped b = Some mn" "answers_issued issued (me_http m)" "issued (mn_parent_access_key_id mn) = None"
    and "cred_reach issued mn c" "\<And>c. cred_reach issued mn c \<Longrightarrow> cred_reach issued mn (me_cache m c)"
    and "store_for os b m (blob_scope i) c = (Some h, c')"
  shows "cred_reach issued mn c' \<and> length c' \<le> SCOPED_CRED_CACHE_MAX
    \<and> s3_key h \<noteq> mn_parent_access_key_id mn \<and> s3_bucket h = r2_bucket b
    \<and> (\<exists>tc. issued (s3_key h) = Some tc \<and> s3_secret h = tk_secret tc \<and> s3_token h = Some (tk_token tc)
        \<and> tk_bucket tc = Some (mn_bucket mn) \<and> (\<forall>j key. grants_key tc (scoped (blob_scope j) key) \<longleftrightarrow> i = j))"
proof -
  obtain r where cf: "credentials_for mn (me_http m) (me_lookup_at m) (me_mint_at m) (me_store_at m) (blob_scope i) c (me_cache m c) = (Some r, c')"
    and h: "s3_key h = mc_access_key_id r" "s3_secret h = mc_secret_access_key r" "s3_token h = Some (mc_session_token r)" "s3_bucket h = r2_bucket b"
    using assms(1,6) by (auto simp: store_for_def r2_store_def Let_def split: prod.splits option.splits if_splits)
  note cr = credentials_reach [OF cf assms(2,4) assms(5) [OF assms(4)]]
  have "blob_scope i \<noteq> []" by (simp add: blob_scope_def)
  then have tc: "issued (s3_key h) = Some \<lparr>tk_secret = s3_secret h, tk_token = mc_session_token r,
      tk_bucket = Some (mn_bucket mn), tk_prefixes = Some [blob_scope i @ ''/'']\<rparr>" (is "_ = Some ?tc")
    using cr(2) by (simp add: minted_for_def h trim_scope)
  have "grants_key ?tc (scoped (blob_scope j) key) \<longleftrightarrow> i = j" for j key
    using scope_prefix_iff [of j key i] by (simp add: grants_key_def)
  moreover have "length c' \<le> SCOPED_CRED_CACHE_MAX" using reach_ok [OF cr(1)] by (simp add: creds_ok_def cache_within_def)
  moreover have "s3_key h \<noteq> mn_parent_access_key_id mn" using tc assms(3) by auto
  ultimately show ?thesis using cr(1) h tc by fastforce
qed

section \<open>Lifetime\<close>

lemma credential_outlives:
  assumes "credentials_for mn http t1 t2 t3 scope c c' = (Some cred, c'')" "t1 \<le> t2" "sign_at \<le> t1 + 300 * 1000000"
  shows "sign_at + PRESIGN_EXPIRY_SECS * 1000000 \<le> mc_expires_at cred"
proof -
  consider "cred_hit t1 (trim_slashes scope) c = Some cred" | "mint mn http t2 (trim_slashes scope) = Some cred"
    using assms(1) by (auto simp: credentials_for_def Let_def split: option.splits)
  then show ?thesis
  proof cases
    case 1
    then have "cred_fresh t1 cred" by (auto simp: cred_hit_def split: option.splits if_splits)
    then have "3901 * 1000000 \<le> mc_expires_at cred - t1"
      by (auto simp: cred_fresh_def SCOPED_CRED_REFRESH_MARGIN_SECS_def PRESIGN_EXPIRY_SECS_def)
    then show ?thesis using assms(3) by (simp add: PRESIGN_EXPIRY_SECS_def)
  next
    case 2
    then have "mc_expires_at cred = t2 + SCOPED_CRED_TTL_SECS * 1000000"
      by (auto simp: mint_def Let_def split: option.splits if_splits Option.bind_splits)
    then show ?thesis using assms(2,3) by (simp add: PRESIGN_EXPIRY_SECS_def SCOPED_CRED_TTL_SECS_def)
  qed
qed

text \<open>C25. With minting on, the address that \<open>url_for\<close> hands out was signed, for this key and some number of
  seconds, under a credential from the cache or just minted, and if it was signed within five minutes of
  the lookup of that credential it expires before the credential does.\<close>
theorem signed_address_covered:
  assumes "r2_scoped b = Some mn" "r2_url_for os b m scope key (c, s) = (Some url, c', s')"
    and "me_lookup_at m \<le> me_mint_at m" "sign_at \<le> me_lookup_at m + 300 * 1000000"
  shows "\<exists>cred h secs.
      credentials_for mn (me_http m) (me_lookup_at m) (me_mint_at m) (me_store_at m) scope c (me_cache m c) = (Some cred, c')
      \<and> s3_key h = mc_access_key_id cred \<and> s3_token h = Some (mc_session_token cred)
      \<and> os_sign os h key secs = Some url \<and> sign_at + secs * 1000000 \<le> mc_expires_at cred"
proof -
  obtain h where st: "store_for os b m scope c = (Some h, c')" "os_sign os h key PRESIGN_EXPIRY_SECS = Some url"
    using assms(2) by (auto simp: r2_url_for_def split: prod.splits option.splits)
  obtain cred where "credentials_for mn (me_http m) (me_lookup_at m) (me_mint_at m) (me_store_at m) scope c (me_cache m c) = (Some cred, c')"
    "s3_key h = mc_access_key_id cred" "s3_token h = Some (mc_session_token cred)"
    using st(1) assms(1) by (auto simp: store_for_def r2_store_def Let_def split: prod.splits option.splits if_splits)
  then show ?thesis using credential_outlives assms(3,4) st(2) by blast
qed

section \<open>Failures\<close>

text \<open>A failed mint fails the operation; the parent's client is not a fallback.\<close>
lemma mint_failure_closed:
  assumes "r2_scoped b = Some mn" "cred_hit (me_lookup_at m) (trim_slashes scope) c = None" "\<And>call. me_http m call = None"
  shows "r2_put os b m scope key bytes (c, s) = (None, me_cache m c, s)"
    "r2_get os b m scope key (c, s) = (None, me_cache m c, s)"
    "r2_url_for os b m scope key (c, s) = (None, me_cache m c, s)"
    "r2_delete os b m scope key (c, s) = (False, me_cache m c, s)"
  using assms by (simp_all add: r2_put_def r2_get_def r2_url_for_def r2_delete_def store_for_def credentials_for_def mint_def Let_def)

text \<open>An offboarded scope of more than the limit is left to further runs.\<close>
lemma delete_listed_bounded:
  "delete_listed del removed locations s = (Some n, s') \<Longrightarrow> n = removed + length locations \<and> (locations = [] \<or> n \<le> MAX_DELETE_PREFIX_OBJECTS)"
proof (induction locations arbitrary: removed s)
  case (Cons entry rest)
  obtain s1 where "removed < MAX_DELETE_PREFIX_OBJECTS" "delete_listed del (removed + 1) rest s1 = (Some n, s')"
    using Cons.prems by (auto split: if_splits option.splits prod.splits)
  then show ?case using Cons.IH [of "removed + 1" s1] by fastforce
qed simp

section \<open>Witness\<close>

definition sample_minter :: R2CredentialMinter where
  "sample_minter = \<lparr>mn_api_base = CLOUDFLARE_API, mn_account_id = ''acc'', mn_api_token = ''tok'', mn_parent_access_key_id = ''parent'', mn_bucket = ''b''\<rparr>"

definition sample_parent :: s3_config where
  "sample_parent = \<lparr>s3_key = ''parent'', s3_secret = ''secret'', s3_token = None, s3_bucket = ''b'', s3_endpoint = ''https://acc'',
     s3_virtual_hosted = False, s3_allow_http = False\<rparr>"

definition sample_r2 :: R2Backend where
  "sample_r2 = \<lparr>r2_parent = sample_parent, r2_bucket = ''b'', r2_endpoint = ''https://acc'', r2_virtual_hosted = False, r2_scoped = Some sample_minter\<rparr>"

definition sample_answer :: http_answer where
  "sample_answer = Some (200, Some (JObj [(''result'', JObj [(''accessKeyId'', JStr ''k''), (''secretAccessKey'', JStr ''s''), (''sessionToken'', JStr ''t'')]),
     (''success'', JBool True)]))"

definition sample_mint :: mint_env where
  "sample_mint = \<lparr>me_http = (\<lambda>_. sample_answer), me_lookup_at = 10, me_mint_at = 20, me_store_at = 30, me_cache = (\<lambda>c. c)\<rparr>"

definition sample_client :: "unit object_store" where
  "sample_client = \<lparr>os_builds = (\<lambda>_. True), os_put = (\<lambda>_ _ _ _ s. (True, s)), os_get = (\<lambda>_ _ _. None), os_delete = (\<lambda>_ _ s. (True, s)),
     os_sign = (\<lambda>h key secs. Some (''https://b/'' @ key)), os_list = (\<lambda>_ _ _. [])\<rparr>"

definition sample_handle :: s3_config where
  "sample_handle = sample_parent\<lparr>s3_key := ''k'', s3_secret := ''s'', s3_token := Some ''t''\<rparr>"

definition sample_cred :: MintedCred where
  "sample_cred = \<lparr>mc_access_key_id = ''k'', mc_secret_access_key = ''s'', mc_session_token = ''t'', mc_expires_at = 7200000020\<rparr>"

definition sample_issued :: "string \<Rightarrow> temp_credential option" where
  "sample_issued key = (if key = ''k'' then Some \<lparr>tk_secret = ''s'', tk_token = ''t'', tk_bucket = Some ''b'', tk_prefixes = Some [''t/7/'']\<rparr> else None)"

text \<open>A service that answers requests for tenant 7 only.\<close>

definition sample_service :: mint_env where
  "sample_service = sample_mint\<lparr>me_http := (\<lambda>call. if hc_body call = mint_body sample_minter ''t/7'' then sample_answer else None)\<rparr>"

lemma sample_service_issued: "answers_issued sample_issued (me_http sample_service)"
proof -
  obtain j where r: "sample_answer = Some (200, Some j)" "result_field j ''accessKeyId'' = Some ''k''"
      "result_field j ''secretAccessKey'' = Some ''s''" "result_field j ''sessionToken'' = Some ''t''"
    by (simp add: sample_answer_def result_field_def jfield_def str_field_def)
  have "asked_prefixes (mint_body sample_minter ''t/7'') = Some [''t/7/'']" "str_field (mint_body sample_minter ''t/7'') ''bucket'' = Some ''b''"
    by code_simp+
  then show ?thesis using r(2-4) by (auto simp: answers_issued_def sample_service_def sample_issued_def r(1))
qed

lemma sample_store: "store_for sample_client sample_r2 sample_service (blob_scope 7) [] = (Some sample_handle, [(''t/7'', sample_cred)])"
  by code_simp

theorem tenant_credential_confined_witness:
  "cred_reach sample_issued sample_minter [(''t/7'', sample_cred)] \<and> length [(''t/7'', sample_cred)] \<le> SCOPED_CRED_CACHE_MAX
    \<and> s3_key sample_handle \<noteq> mn_parent_access_key_id sample_minter \<and> s3_bucket sample_handle = r2_bucket sample_r2
    \<and> (\<exists>tc. sample_issued (s3_key sample_handle) = Some tc \<and> s3_secret sample_handle = tk_secret tc \<and> s3_token sample_handle = Some (tk_token tc)
        \<and> tk_bucket tc = Some (mn_bucket sample_minter) \<and> (\<forall>j key. grants_key tc (scoped (blob_scope j) key) \<longleftrightarrow> 7 = j))"
  by (rule tenant_credential_confined [OF _ sample_service_issued _ _ _ sample_store])
    (simp_all add: sample_r2_def sample_service_def sample_mint_def sample_issued_def sample_minter_def reach_empty)

lemma sample_url: "r2_url_for sample_client sample_r2 sample_service ''t/7'' ''t/7/k'' ([], ()) = (Some ''https://b/t/7/k'', [(''t/7'', sample_cred)], ())"
  "credentials_for sample_minter (me_http sample_service) 10 20 30 ''t/7'' [] [] = (Some sample_cred, [(''t/7'', sample_cred)])"
  by code_simp+

theorem signed_address_covered_witness:
  "\<exists>h secs. s3_key h = ''k'' \<and> s3_token h = Some ''t'' \<and> os_sign sample_client h ''t/7/k'' secs = Some ''https://b/t/7/k''
     \<and> 300000010 + secs * 1000000 \<le> 7200000020"
  using signed_address_covered [OF _ sample_url(1), of sample_minter 300000010] sample_url(2)
  by (auto simp: sample_r2_def sample_service_def sample_mint_def sample_cred_def)

end
