(* ===== verification/Retention_Laws.thy ===== *)
theory Retention_Laws
  imports Operations
begin

text \<open>
  The retention pass of \<open>Operations\<close>: no blob is left without its row, what a complete pass leaves
  behind, and the records that stop it.
\<close>

section \<open>Blobs\<close>

definition blob_gone :: "env \<Rightarrow> Tenant \<Rightarrow> string \<Rightarrow> app \<Rightarrow> bool" where
  "blob_gone sv t key a \<longleftrightarrow> blob_get True (sv_blob_root sv) (t_blob_scope t) key (app_files a) = None"

lemma blob_delete_files:
  assumes "blob_delete io dir scope key fs = (ok, fs')"
  shows "fs' = fs \<or> (\<exists>p. fs' = delete_where (\<lambda>f. fst f = p) fs)"
  using assms by (auto simp: blob_delete_def local_delete_def Let_def split: option.splits if_splits)

lemma row_of_delete_where: "row_of fst p (delete_where (\<lambda>f. fst f = q) fs) = (if p = q then None else row_of fst p fs)"
  by (induction fs) (auto simp: row_of_def delete_where_def)

lemma blob_delete_keeps_gone:
  assumes "blob_delete io dir scope key fs = (ok, fs')" "blob_get True dir scope k fs = None"
  shows "blob_get True dir scope k fs' = None"
  using blob_delete_files [OF assms(1)] assms(2)
  by (auto simp: blob_get_def local_get_def row_of_delete_where split: option.splits)

lemma blob_delete_ok:
  assumes "blob_delete io dir scope key fs = (True, fs')"
  shows "blob_get True dir scope key fs' = None"
proof -
  have "row_of fst p fs = None" if "p \<notin> fst ` set fs" for p using that by (auto simp: row_of_None)
  then show ?thesis using assms
    by (auto simp: blob_delete_def local_delete_def blob_get_def local_get_def row_of_delete_where Let_def split: option.splits if_splits)
qed

lemma retire_gone:
  assumes "retire_blobs sv t batch a = (ids, b)"
  shows "(\<forall>k. blob_gone sv t k a \<longrightarrow> blob_gone sv t k b)
    \<and> (\<forall>i \<in> set ids. \<exists>key. (i, key) \<in> set batch \<and> blob_gone sv t key b)"
  using assms
proof (induction batch arbitrary: a ids)
  case (Cons x batch)
  obtain j key where x: "x = (j, key)" by (cases x)
  obtain ok fs where d: "blob_delete (\<not> sv_fails sv (''blob:'' @ key)) (sv_blob_root sv) (t_blob_scope t) key (app_files a) = (ok, fs)"
    by fastforce
  obtain ids' where r: "retire_blobs sv t batch (a\<lparr>app_files := fs\<rparr>) = (ids', b)" and ids: "ids = (if ok then j # ids' else ids')"
    using Cons.prems x d by (auto split: prod.splits)
  have step: "blob_gone sv t k a \<Longrightarrow> blob_gone sv t k (a\<lparr>app_files := fs\<rparr>)" for k
    using blob_delete_keeps_gone [OF d] by (simp add: blob_gone_def)
  have "ok \<Longrightarrow> blob_gone sv t key (a\<lparr>app_files := fs\<rparr>)" using blob_delete_ok d by (simp add: blob_gone_def)
  then show ?case using Cons.IH [OF r] step x ids by (auto split: if_splits)
qed simp

section \<open>No orphans\<close>

text \<open>
  From \<open>a\<close> to \<open>b\<close>: the evidence rows that are gone have no blob any more, blobs do not come back, no row
  appears and the ids stay distinct.
\<close>

definition no_orphan :: "env \<Rightarrow> Tenant \<Rightarrow> app \<Rightarrow> app \<Rightarrow> bool" where
  "no_orphan sv t a b \<longleftrightarrow>
     (\<forall>r \<in> set (evidence (telemetry_of t a)). r \<in> set (evidence (telemetry_of t b)) \<or> blob_gone sv t (ew_storage_key r) b)
     \<and> (\<forall>k. blob_gone sv t k a \<longrightarrow> blob_gone sv t k b)
     \<and> set (evidence (telemetry_of t b)) \<subseteq> set (evidence (telemetry_of t a))"

lemma no_orphan_refl: "no_orphan sv t a a"
  by (simp add: no_orphan_def)

lemma no_orphan_trans: "no_orphan sv t a b \<Longrightarrow> no_orphan sv t b c \<Longrightarrow> no_orphan sv t a c"
  by (auto simp: no_orphan_def)

lemma evidence_batch_rows:
  "(i, key) \<in> set (evidence_batch sv t days a) \<Longrightarrow> \<exists>r \<in> set (evidence (telemetry_of t a)). ew_id r = i \<and> ew_storage_key r = key"
  by (auto simp: evidence_batch_def expired_evidence_keys_def dest!: in_set_takeD)

lemma remaining_evidence:
  "evidence (snd (delete_evidence_rows ids db)) = filter (\<lambda>r. ew_id r \<notin> set ids) (evidence db)"
  "errors (snd (delete_evidence_rows ids db)) = errors db"
  by (simp_all add: delete_evidence_rows_def delete_evidence_def delete_where_def)

lemma retire_round:
  assumes "retire_blobs sv t (evidence_batch sv t days a) a = (ids, b)" "distinct (map ew_id (evidence (telemetry_of t a)))"
  shows "no_orphan sv t a b" "no_orphan sv t a (put_telemetry t (snd (delete_evidence_rows ids (telemetry_of t b))) b)"
proof -
  have e: "telemetry_of t b = telemetry_of t a" using retire_telemetry [OF assms(1)] by (simp add: telemetry_of_def)
  note g = retire_gone [OF assms(1)]
  show "no_orphan sv t a b" using g by (simp add: no_orphan_def e)
  have "blob_gone sv t (ew_storage_key r) b" if hyp: "r \<in> set (evidence (telemetry_of t a))" "ew_id r \<in> set ids" for r
  proof -
    obtain key where k: "(ew_id r, key) \<in> set (evidence_batch sv t days a)" "blob_gone sv t key b" using g hyp(2) by blast
    obtain r' where "r' \<in> set (evidence (telemetry_of t a))" "ew_id r' = ew_id r" "ew_storage_key r' = key"
      using evidence_batch_rows [OF k(1)] by blast
    then show ?thesis using assms(2) hyp(1) k(2) by (metis distinct_map inj_onD)
  qed
  then show "no_orphan sv t a (put_telemetry t (snd (delete_evidence_rows ids (telemetry_of t b))) b)"
    using g by (auto simp: no_orphan_def e remaining_evidence blob_gone_def)
qed

lemma evidence_pass_no_orphan:
  "distinct (map ew_id (evidence (telemetry_of t a))) \<Longrightarrow> evidence_pass sv t days deleted a = (r, b) \<Longrightarrow>
   no_orphan sv t a b \<and> errors (telemetry_of t b) = errors (telemetry_of t a)"
proof (induction sv t days deleted a rule: evidence_pass.induct)
  case (1 sv t days deleted a)
  let ?batch = "evidence_batch sv t days a"
  obtain ids a1 where ret: "retire_blobs sv t ?batch a = (ids, a1)" by fastforce
  let ?a2 = "put_telemetry t (snd (delete_evidence_rows ids (telemetry_of t a1))) a1"
  have e: "telemetry_of t a1 = telemetry_of t a" using retire_telemetry [OF ret] by (simp add: telemetry_of_def)
  note round = retire_round [OF ret 1(2)]
  have d2: "distinct (map ew_id (evidence (telemetry_of t ?a2)))" using 1(2) by (simp add: remaining_evidence e distinct_map_filter)
  have err: "errors (telemetry_of t ?a2) = errors (telemetry_of t a)" by (simp add: remaining_evidence e)
  consider "b = a" | "b = a1" | "b = ?a2"
    | "\<not> sv_fails sv ''expired_evidence_keys''" "?batch \<noteq> []" "\<not> (ids \<noteq> [] \<and> sv_fails sv ''delete_evidence_rows'')"
      "\<not> (ids = [] \<or> length ?batch < 500)" "evidence_pass sv t days (deleted + length ids) ?a2 = (r, b)"
    using 1(3) ret by (subst (asm) evidence_pass.simps) (auto simp: Let_def split: if_splits)
  then show ?case
  proof cases
    case 4
    then show ?thesis using 1(1) [OF 4(1) refl 4(2) ret [symmetric] 4(3) refl refl 4(4) d2 4(5)] round(2) err
      by (auto intro: no_orphan_trans)
  qed (use round err e in \<open>auto simp: no_orphan_refl\<close>)
qed

lemma expired_evidence_kept:
  assumes "delete_expired_errors pg now days limit db = Some (n, db')"
  shows "evidence db' = evidence db" "set (errors db') \<subseteq> set (errors db)"
    "\<And>e. e \<in> set (errors db) \<Longrightarrow> now - days * 86400000000 \<le> el_created_at e \<Longrightarrow> distinct (map el_id (errors db)) \<Longrightarrow> e \<in> set (errors db')"
proof -
  define expired where "expired = take limit (sort_key el_id (filter (\<lambda>e. el_created_at e < now - days * 86400000000
            \<and> \<not> list_ex (\<lambda>r. ew_error_id r = el_id e) (evidence db)) (errors db)))"
  let ?P = "\<lambda>e. el_id e \<in> set (map el_id expired)"
  have d: "delete_errors pg ?P db = Some db'"
    using assms by (auto simp: delete_expired_errors_def Let_def expired_def)
  have ex: "e \<in> set (errors db) \<and> el_created_at e < now - days * 86400000000 \<and> (\<forall>r \<in> set (evidence db). ew_error_id r \<noteq> el_id e)"
    if "e \<in> set expired" for e
    using that by (auto simp: expired_def list_ex_iff dest!: in_set_takeD)
  have "evidence db' = delete_where (\<lambda>ev. ew_error_id ev \<in> set (map el_id (filter ?P (errors db)))) (evidence db)"
    using d by (auto simp: delete_errors_alt delete_evidence_def)
  also have "\<dots> = evidence db" using ex by (fastforce simp: delete_where_def filter_id_conv)
  finally show "evidence db' = evidence db" .
  have e: "errors db' = delete_where ?P (errors db)" using d by (auto simp: delete_errors_alt delete_evidence_def)
  then show "set (errors db') \<subseteq> set (errors db)" by (auto simp: delete_where_def)
  fix e
  assume in_db: "e \<in> set (errors db)" and young: "now - days * 86400000000 \<le> el_created_at e" and dist: "distinct (map el_id (errors db))"
  have "\<not> ?P e"
  proof
    assume "?P e"
    then obtain e' where "e' \<in> set expired" "el_id e' = el_id e" by auto
    then show False using ex [of e'] in_db young dist by (metis distinct_map inj_onD leD)
  qed
  then show "e \<in> set (errors db')" using in_db by (simp add: e delete_where_def)
qed

lemma errors_pass_evidence:
  "errors_pass sv t days deleted a = (r, b) \<Longrightarrow> evidence (telemetry_of t b) = evidence (telemetry_of t a) \<and> app_files b = app_files a"
proof (induction sv t days deleted a rule: errors_pass.induct)
  case (1 sv t days deleted a)
  show ?case
  proof (cases "delete_expired_errors (sv_jsonb_text sv) (sv_now sv) days 5000 (telemetry_of t a)")
    case None
    then show ?thesis using 1(2) by (subst (asm) errors_pass.simps) (auto split: if_splits)
  next
    case (Some x)
    obtain n db where x: "x = (n, db)" by (cases x)
    note kept = expired_evidence_kept(1) [OF Some [unfolded x]]
    consider "b = a" | "b = put_telemetry t db a"
      | "\<not> sv_fails sv ''delete_expired_errors''" "\<not> n < 5000" "errors_pass sv t days (deleted + n) (put_telemetry t db a) = (r, b)"
      using 1(2) Some x by (subst (asm) errors_pass.simps) (auto simp: Let_def split: if_splits)
    then show ?thesis
    proof cases
      case 3
      then show ?thesis using 1(1) [OF 3(1) Some [unfolded x] refl refl 3(2) 3(3)] kept by simp
    qed (simp_all add: kept)
  qed
qed

text \<open>C24. Retention never leaves a blob behind without its row: whatever requests to the store or the object
  storage fail, every evidence row the pass removed had its blob deleted, blobs it could not delete keep
  their row, and no error with evidence is deleted with it.\<close>
theorem retention_keeps_ledger:
  assumes "distinct (map ew_id (evidence (telemetry_of t a)))"
  shows "no_orphan sv t a (snd (retention_pass sv t days a))"
proof -
  obtain r a1 where ev: "evidence_pass sv t days 0 a = (r, a1)" by fastforce
  note first = evidence_pass_no_orphan [OF assms ev, THEN conjunct1]
  show ?thesis
  proof (cases r)
    case None
    then show ?thesis using first by (simp add: retention_pass_def ev)
  next
    case (Some n)
    obtain r' a2 where er: "errors_pass sv t days 0 a1 = (r', a2)" by fastforce
    have "no_orphan sv t a a2" using first errors_pass_evidence [OF er] by (simp add: no_orphan_def blob_gone_def telemetry_of_def)
    then show ?thesis by (auto simp: retention_pass_def ev er Some split: option.splits)
  qed
qed

section \<open>A complete pass\<close>

definition expired :: "env \<Rightarrow> int \<Rightarrow> error_row \<Rightarrow> bool" where
  "expired sv days e \<longleftrightarrow> el_created_at e < sv_now sv - days * 86400000000"

text \<open>The storage carries out the deletion of every blob the tenant's rows name.\<close>

definition storage_up :: "env \<Rightarrow> Tenant \<Rightarrow> app \<Rightarrow> bool" where
  "storage_up sv t a \<longleftrightarrow>
     (\<forall>r \<in> set (evidence (telemetry_of t a)). \<not> sv_fails sv (''blob:'' @ ew_storage_key r)
        \<and> safe_scoped (t_blob_scope t) (ew_storage_key r) \<noteq> None)"

lemma blob_delete_up: "safe_scoped scope key \<noteq> None \<Longrightarrow> fst (blob_delete True dir scope key fs)"
  by (auto simp: blob_delete_def local_delete_def Let_def split: option.splits)

lemma retire_all:
  assumes "retire_blobs sv t batch a = (ids, b)"
    and "\<And>i key. (i, key) \<in> set batch \<Longrightarrow> \<not> sv_fails sv (''blob:'' @ key) \<and> safe_scoped (t_blob_scope t) key \<noteq> None"
  shows "ids = map fst batch"
  using assms
proof (induction batch arbitrary: a ids)
  case (Cons x batch)
  obtain j key where x: "x = (j, key)" by (cases x)
  have up: "\<not> sv_fails sv (''blob:'' @ key)" "safe_scoped (t_blob_scope t) key \<noteq> None" using Cons.prems(2) x by auto
  obtain fs where d: "blob_delete (\<not> sv_fails sv (''blob:'' @ key)) (sv_blob_root sv) (t_blob_scope t) key (app_files a) = (True, fs)"
    using blob_delete_up [OF up(2)] up(1) by (metis (full_types) prod.collapse)
  obtain ids' where r: "retire_blobs sv t batch (a\<lparr>app_files := fs\<rparr>) = (ids', b)" and "ids = j # ids'"
    using Cons.prems(1) x d by (auto split: prod.splits)
  moreover have "ids' = map fst batch" by (rule Cons.IH [OF r]) (meson Cons.prems(2) list.set_intros(2))
  ultimately show ?case by (simp add: x)
qed simp

definition no_expired_evidence :: "env \<Rightarrow> Tenant \<Rightarrow> int \<Rightarrow> app \<Rightarrow> bool" where
  "no_expired_evidence sv t days a \<longleftrightarrow>
     (\<forall>r \<in> set (evidence (telemetry_of t a)). \<forall>e \<in> set (errors (telemetry_of t a)). el_id e = ew_error_id r \<longrightarrow> \<not> expired sv days e)"

definition expired_rows :: "env \<Rightarrow> Tenant \<Rightarrow> int \<Rightarrow> app \<Rightarrow> evidence_row list" where
  "expired_rows sv t days a = filter (\<lambda>r. list_ex (\<lambda>e. el_id e = ew_error_id r \<and> expired sv days e) (errors (telemetry_of t a)))
     (evidence (telemetry_of t a))"

lemma evidence_batch_alt:
  "evidence_batch sv t days a = map (\<lambda>r. (ew_id r, ew_storage_key r)) (take 500 (sort_key ew_id (expired_rows sv t days a)))"
  by (simp add: evidence_batch_def expired_evidence_keys_def expired_rows_def expired_def)

lemma batch_covers:
  assumes "length (evidence_batch sv t days a) < 500"
  shows "set (evidence_batch sv t days a) = (\<lambda>r. (ew_id r, ew_storage_key r)) ` set (expired_rows sv t days a)"
  using assms by (simp add: evidence_batch_alt)

lemma no_expired_iff: "no_expired_evidence sv t days a \<longleftrightarrow> expired_rows sv t days a = []"
  by (auto simp: no_expired_evidence_def expired_rows_def filter_empty_conv list_ex_iff)

lemma round_covers:
  assumes "length (evidence_batch sv t days a) < 500" "telemetry_of t b = telemetry_of t a"
  shows "no_expired_evidence sv t days (put_telemetry t (snd (delete_evidence_rows (map fst (evidence_batch sv t days a)) (telemetry_of t b))) b)"
proof -
  have "ew_id r \<in> fst ` set (evidence_batch sv t days a)"
    if "r \<in> set (evidence (telemetry_of t a))" "e \<in> set (errors (telemetry_of t a))" "el_id e = ew_error_id r" "expired sv days e" for r e
    unfolding batch_covers [OF assms(1)] using that by (force simp: expired_rows_def list_ex_iff)
  then show ?thesis by (auto simp: no_expired_evidence_def remaining_evidence assms(2))
qed

lemma evidence_pass_complete:
  "storage_up sv t a \<Longrightarrow> evidence_pass sv t days deleted a = (Some n, b) \<Longrightarrow> no_expired_evidence sv t days b"
proof (induction sv t days deleted a rule: evidence_pass.induct)
  case (1 sv t days deleted a)
  let ?batch = "evidence_batch sv t days a"
  obtain ids a1 where ret: "retire_blobs sv t ?batch a = (ids, a1)" by fastforce
  let ?a2 = "put_telemetry t (snd (delete_evidence_rows ids (telemetry_of t a1))) a1"
  have e: "telemetry_of t a1 = telemetry_of t a" using retire_telemetry [OF ret] by (simp add: telemetry_of_def)
  have ids: "ids = map fst ?batch"
    by (rule retire_all [OF ret]) (use 1(2) evidence_batch_rows in \<open>fastforce simp: storage_up_def\<close>)
  have up2: "storage_up sv t ?a2" using 1(2) by (simp add: storage_up_def remaining_evidence e)
  consider "b = a" "?batch = []" | "b = ?a2" "length ?batch < 500"
    | "\<not> sv_fails sv ''expired_evidence_keys''" "?batch \<noteq> []" "\<not> (ids \<noteq> [] \<and> sv_fails sv ''delete_evidence_rows'')"
      "\<not> (ids = [] \<or> length ?batch < 500)" "evidence_pass sv t days (deleted + length ids) ?a2 = (Some n, b)"
    using 1(3) ret ids by (subst (asm) evidence_pass.simps) (auto simp: Let_def split: if_splits)
  then show ?case
  proof cases
    case 1
    then have "expired_rows sv t days a = []" by (simp add: evidence_batch_alt)
    then show ?thesis using 1(1) by (simp add: no_expired_iff)
  next
    case 2
    then show ?thesis using round_covers [OF 2(2) e] by (simp add: ids)
  next
    case 3
    then show ?thesis using 1(1) [OF 3(1) refl 3(2) ret [symmetric] 3(3) refl refl 3(4) up2 3(5)] by simp
  qed
qed

lemma taken_length:
  assumes "mset ys \<subseteq># mset xs" "\<And>x. x \<in> set (take n ys) \<Longrightarrow> P x"
  shows "length (take n ys) \<le> length (filter P xs)"
proof -
  have "length (take n ys) = length (filter P (take n ys))" using assms(2) by (metis filter_True)
  also have "\<dots> \<le> length (filter P ys)" by (metis append_take_drop_id filter_append length_append le_add1)
  also have "\<dots> \<le> length (filter P xs)"
    using size_mset_mono [OF multiset_filter_mono [OF assms(1), of P]] by (simp flip: mset_filter)
  finally show ?thesis .
qed

lemma expired_batch_complete:
  assumes "delete_expired_errors pg (sv_now sv) days limit db = Some (n, db')" "n < limit"
    and "e \<in> set (errors db')" "\<And>r. r \<in> set (evidence db) \<Longrightarrow> ew_error_id r \<noteq> el_id e"
  shows "\<not> expired sv days e"
proof -
  let ?Q = "\<lambda>e. el_created_at e < sv_now sv - days * 86400000000 \<and> \<not> list_ex (\<lambda>r. ew_error_id r = el_id e) (evidence db)"
  let ?ex = "take limit (sort_key el_id (filter ?Q (errors db)))"
  let ?P = "\<lambda>e. el_id e \<in> set (map el_id ?ex)"
  have d: "delete_errors pg ?P db = Some db'" and n: "n = length (filter ?P (errors db))"
    using assms(1) by (auto simp: delete_expired_errors_def affected_def Let_def)
  have e: "errors db' = delete_where ?P (errors db)" using d by (auto simp: delete_errors_alt delete_evidence_def)
  have "length (filter ?Q (errors db)) < limit"
  proof (rule ccontr)
    assume full: "\<not> length (filter ?Q (errors db)) < limit"
    have "mset (sort_key el_id (filter ?Q (errors db))) \<subseteq># mset (errors db)" by simp
    then have "length ?ex \<le> n" unfolding n by (rule taken_length) simp
    then show False using full assms(2) by simp
  qed
  then have "set ?ex = set (filter ?Q (errors db))" by simp
  moreover have "e \<in> set (errors db)" "\<not> ?P e" using assms(3) e by (auto simp: delete_where_def)
  ultimately show ?thesis using assms(4) by (auto simp: expired_def list_ex_iff)
qed

lemma errors_pass_complete:
  "no_expired_evidence sv t days a \<Longrightarrow> errors_pass sv t days deleted a = (Some n, b) \<Longrightarrow>
   e \<in> set (errors (telemetry_of t b)) \<Longrightarrow> \<not> expired sv days e"
proof (induction sv t days deleted a rule: errors_pass.induct)
  case (1 sv t days deleted a)
  then obtain k db where x: "delete_expired_errors (sv_jsonb_text sv) (sv_now sv) days 5000 (telemetry_of t a) = Some (k, db)"
    and not_failed: "\<not> sv_fails sv ''delete_expired_errors''"
    by (subst (asm) errors_pass.simps) (auto split: if_splits option.splits)
  note kept = expired_evidence_kept(1,2) [OF x]
  consider "b = put_telemetry t db a" "k < 5000" | "\<not> k < 5000" "errors_pass sv t days (deleted + k) (put_telemetry t db a) = (Some n, b)"
    using 1(3) x by (subst (asm) errors_pass.simps) (auto simp: Let_def split: if_splits)
  then show ?case
  proof cases
    case 1
    then have e: "e \<in> set (errors db)" using \<open>e \<in> set (errors (telemetry_of t b))\<close> by simp
    show ?thesis
    proof (cases "\<exists>r \<in> set (evidence (telemetry_of t a)). ew_error_id r = el_id e")
      case True
      then show ?thesis using \<open>no_expired_evidence sv t days a\<close> e kept(2) by (force simp: no_expired_evidence_def)
    next
      case False
      then show ?thesis using expired_batch_complete [OF x 1(2) e] by blast
    qed
  next
    case 2
    have "no_expired_evidence sv t days (put_telemetry t db a)" using \<open>no_expired_evidence sv t days a\<close> kept by (auto simp: no_expired_evidence_def)
    then show ?thesis using 1(1) [OF not_failed x refl refl 2(1) _ 2(2)] \<open>e \<in> set (errors (telemetry_of t b))\<close> by blast
  qed
qed

lemma errors_pass_keeps:
  "errors_pass sv t days deleted a = (r, b) \<Longrightarrow> distinct (map el_id (errors (telemetry_of t a))) \<Longrightarrow>
   set (errors (telemetry_of t b)) \<subseteq> set (errors (telemetry_of t a))
   \<and> (\<forall>e \<in> set (errors (telemetry_of t a)). \<not> expired sv days e \<longrightarrow> e \<in> set (errors (telemetry_of t b)))"
proof (induction sv t days deleted a rule: errors_pass.induct)
  case (1 sv t days deleted a)
  show ?case
  proof (cases "delete_expired_errors (sv_jsonb_text sv) (sv_now sv) days 5000 (telemetry_of t a)")
    case None
    then show ?thesis using 1(2) by (subst (asm) errors_pass.simps) (auto split: if_splits)
  next
    case (Some x)
    obtain n db where x: "x = (n, db)" by (cases x)
    note kept = expired_evidence_kept(2,3) [OF Some [unfolded x]]
    obtain P where P: "delete_errors (sv_jsonb_text sv) P (telemetry_of t a) = Some db"
      using Some x by (auto simp: delete_expired_errors_def Let_def)
    then have "errors db = delete_where P (errors (telemetry_of t a))" by (auto simp: delete_errors_alt delete_evidence_def)
    then have d: "distinct (map el_id (errors db))" using 1(3) by (simp add: delete_where_def distinct_map_filter)
    consider "b = a" | "b = put_telemetry t db a"
      | "\<not> sv_fails sv ''delete_expired_errors''" "\<not> n < 5000" "errors_pass sv t days (deleted + n) (put_telemetry t db a) = (r, b)"
      using 1(2) Some x by (subst (asm) errors_pass.simps) (auto simp: Let_def split: if_splits)
    then show ?thesis
    proof cases
      case 3
      then show ?thesis using 1(1) [OF 3(1) Some [unfolded x] refl refl 3(2) 3(3)] kept 1(3) d by (auto simp: expired_def)
    qed (use kept 1(3) in \<open>auto simp: expired_def\<close>)
  qed
qed

text \<open>C14. A retention pass that runs to its end while the object storage answers leaves exactly the errors
  inside the retention window.\<close>
theorem retention_exact:
  assumes "retention_pass sv t days a = (Some counts, b)" "storage_up sv t a"
    and "distinct (map ew_id (evidence (telemetry_of t a)))" "distinct (map el_id (errors (telemetry_of t a)))"
  shows "set (errors (telemetry_of t b)) = {e \<in> set (errors (telemetry_of t a)). \<not> el_created_at e < sv_now sv - days * 86400000000}"
proof -
  obtain n m a1 where ev: "evidence_pass sv t days 0 a = (Some n, a1)" and er: "errors_pass sv t days 0 a1 = (Some m, b)"
    using assms(1) by (auto simp: retention_pass_def split: prod.splits option.splits)
  have same: "errors (telemetry_of t a1) = errors (telemetry_of t a)" using evidence_pass_no_orphan [OF assms(3) ev] by simp
  have "\<not> expired sv days e" if "e \<in> set (errors (telemetry_of t b))" for e
    using errors_pass_complete [OF evidence_pass_complete [OF assms(2) ev] er that] .
  then show ?thesis using errors_pass_keeps [OF er] assms(4) by (auto simp: same expired_def)
qed

section \<open>A pass that is stuck\<close>

lemma evidence_pass_inv: "store_inv (telemetry_of t a) \<Longrightarrow> evidence_pass sv t days deleted a = (r, b) \<Longrightarrow> store_inv (telemetry_of t b)"
proof (induction sv t days deleted a rule: evidence_pass.induct)
  case (1 sv t days deleted a)
  let ?batch = "evidence_batch sv t days a"
  obtain ids a1 where ret: "retire_blobs sv t ?batch a = (ids, a1)" by fastforce
  let ?a2 = "put_telemetry t (snd (delete_evidence_rows ids (telemetry_of t a1))) a1"
  have e: "telemetry_of t a1 = telemetry_of t a" using retire_telemetry [OF ret] by (simp add: telemetry_of_def)
  have inv2: "store_inv (telemetry_of t ?a2)" using 1(2) by (simp add: e delete_evidence_rows_def delete_evidence_store_inv)
  consider "b = a" | "b = a1" | "b = ?a2"
    | "\<not> sv_fails sv ''expired_evidence_keys''" "?batch \<noteq> []" "\<not> (ids \<noteq> [] \<and> sv_fails sv ''delete_evidence_rows'')"
      "\<not> (ids = [] \<or> length ?batch < 500)" "evidence_pass sv t days (deleted + length ids) ?a2 = (r, b)"
    using 1(3) ret by (subst (asm) evidence_pass.simps) (auto simp: Let_def split: if_splits)
  then show ?case
  proof cases
    case 4
    then show ?thesis using 1(1) [OF 4(1) refl 4(2) ret [symmetric] 4(3) refl refl 4(4) inv2 4(5)] by simp
  qed (use 1(2) inv2 e in simp_all)
qed

text \<open>A bucket whose records, two or more, have all left the retention window and have no evidence stops the
  retention of the whole tenant: no pass deletes any error, since the trigger that maintains the summary of
  the bucket fails and takes the batch with it.\<close>
theorem retention_blocked:
  assumes "store_inv (telemetry_of t a)" "2 \<le> length (of_bucket k (errors (telemetry_of t a)))"
    and "\<And>e. e \<in> set (of_bucket k (errors (telemetry_of t a))) \<Longrightarrow> el_created_at e < sv_now sv - days * 86400000000"
    and "\<And>e r. e \<in> set (of_bucket k (errors (telemetry_of t a))) \<Longrightarrow> r \<in> set (evidence (telemetry_of t a)) \<Longrightarrow> ew_error_id r \<noteq> el_id e"
    and "length (errors (telemetry_of t a)) \<le> 5000"
  shows "fst (retention_pass sv t days a) = None
    \<and> errors (telemetry_of t (snd (retention_pass sv t days a))) = errors (telemetry_of t a)"
proof -
  obtain r a1 where ev: "evidence_pass sv t days 0 a = (r, a1)" by fastforce
  have dist: "distinct (map ew_id (evidence (telemetry_of t a)))" using assms(1) by (simp add: store_inv_def evidence_inv_def)
  note first = evidence_pass_no_orphan [OF dist ev]
  have inv: "store_inv (telemetry_of t a1)" by (rule evidence_pass_inv [OF assms(1) ev])
  let ?db = "telemetry_of t a1"
  let ?ex = "take 5000 (sort_key el_id (filter (\<lambda>e. el_created_at e < sv_now sv - days * 86400000000
      \<and> \<not> list_ex (\<lambda>r. ew_error_id r = el_id e) (evidence ?db)) (errors ?db)))"
  have "e \<in> set ?ex" if "e \<in> set (of_bucket k (errors ?db))" for e
  proof -
    have "length (filter (\<lambda>e. el_created_at e < sv_now sv - days * 86400000000
      \<and> \<not> list_ex (\<lambda>r. ew_error_id r = el_id e) (evidence ?db)) (errors ?db)) \<le> 5000"
      by (rule le_trans [OF length_filter_le]) (use assms(5) first in simp)
    then have "?ex = sort_key el_id (filter (\<lambda>e. el_created_at e < sv_now sv - days * 86400000000
      \<and> \<not> list_ex (\<lambda>r. ew_error_id r = el_id e) (evidence ?db)) (errors ?db))" by simp
    moreover have "e \<in> set (of_bucket k (errors (telemetry_of t a)))" using that first by simp
    moreover have "e \<in> set (errors ?db)" using that by (simp add: of_bucket_def)
    ultimately show ?thesis using assms(3,4) first by (auto simp: list_ex_iff no_orphan_def)
  qed
  then have "\<exists>k. (\<forall>e \<in> set (of_bucket k (errors ?db)). el_id e \<in> set (map el_id ?ex)) \<and> 2 \<le> length (of_bucket k (errors ?db))"
    using assms(2) first by (intro exI [of _ k]) auto
  then have "delete_errors (sv_jsonb_text sv) (\<lambda>e. el_id e \<in> set (map el_id ?ex)) ?db = None"
    using delete_errors_None [OF inv] by blast
  then have "delete_expired_errors (sv_jsonb_text sv) (sv_now sv) days 5000 ?db = None"
    unfolding delete_expired_errors_def Let_def by simp
  then have "errors_pass sv t days 0 a1 = (None, a1)" by (subst errors_pass.simps) simp
  then show ?thesis using first by (cases r) (simp_all add: retention_pass_def ev)
qed

section \<open>Witness\<close>

definition retention_env :: env where "retention_env = sample_env\<lparr>sv_now := 8 * 86400000000\<rparr>"

definition kept_tenant :: Tenant where "kept_tenant = \<lparr>t_org_id = 1, t_store = ''new'', t_blob_scope = ''t/1''\<rparr>"

definition retention_app :: "ErrorRec list \<Rightarrow> app" where
  "retention_app recs = sample_app\<lparr>app_tenants := (\<lambda>_. sample_tenant\<lparr>td_telemetry := snd (the (sample_ingest recs))\<rparr>)\<rparr>"

lemma retention_facts:
  "(\<lambda>db. (length (errors db), map ew_id (evidence db), map el_id (errors db))) (telemetry_of kept_tenant (retention_app [sample_error])) = (1, [], [1])"
  "(\<lambda>r. (fst r, errors (telemetry_of kept_tenant (snd r)))) (retention_pass retention_env kept_tenant 7 (retention_app [sample_error])) = (Some (1, 0), [])"
  by code_simp+

theorem retention_exact_witness:
  "{e \<in> set (errors (telemetry_of kept_tenant (retention_app [sample_error]))). \<not> el_created_at e < sv_now retention_env - 7 * 86400000000} = {}"
proof -
  have "retention_pass retention_env kept_tenant 7 (retention_app [sample_error])
      = (Some (1, 0), snd (retention_pass retention_env kept_tenant 7 (retention_app [sample_error])))"
    "errors (telemetry_of kept_tenant (snd (retention_pass retention_env kept_tenant 7 (retention_app [sample_error])))) = []"
    using retention_facts(2) by (simp_all add: prod_eq_iff)
  with retention_exact [OF this(1)] retention_facts(1) show ?thesis by (simp add: storage_up_def)
qed

definition evidence_app :: app where
  "evidence_app = sample_app\<lparr>app_tenants := (\<lambda>_. sample_tenant\<lparr>td_telemetry := (empty_telemetry [sample_project])
     \<lparr>errors := [\<lparr>el_id = 1, el_app_id = ''app'', el_rec = sample_error, el_bucket_id = Some ''bkt_h'', el_created_at = 5\<rparr>], evidence := [\<lparr>ew_id = 1, ew_app_id = ''app'', ew_error_id = 1, ew_kind = ''png'', ew_storage_key = ''app/1/a.png'', ew_bytes = 3, ew_created_at = 5\<rparr>,
       \<lparr>ew_id = 2, ew_app_id = ''app'', ew_error_id = 1, ew_kind = ''png'', ew_storage_key = ''app/1/b.png'', ew_bytes = 3, ew_created_at = 5\<rparr>]\<rparr>\<rparr>),
     app_files := [([''t'', ''1'', ''app'', ''1'', ''a.png''], ''one''), ([''t'', ''1'', ''app'', ''1'', ''b.png''], ''two'')]\<rparr>"

definition flaky_env :: env where "flaky_env = retention_env\<lparr>sv_fails := (\<lambda>m. m = ''blob:app/1/b.png'')\<rparr>"

lemma evidence_facts:
  "map ew_id (evidence (telemetry_of kept_tenant evidence_app)) = [1, 2]"
  "(\<lambda>r. (fst r, map ew_id (evidence (telemetry_of kept_tenant (snd r))), map el_id (errors (telemetry_of kept_tenant (snd r))), map snd (app_files (snd r))))
     (retention_pass flaky_env kept_tenant 7 evidence_app) = (Some (0, 1), [2], [1], [''two''])"
  by code_simp+

theorem retention_keeps_ledger_witness:
  "no_orphan flaky_env kept_tenant evidence_app (snd (retention_pass flaky_env kept_tenant 7 evidence_app))
   \<and> map ew_id (evidence (telemetry_of kept_tenant (snd (retention_pass flaky_env kept_tenant 7 evidence_app)))) = [2]"
proof -
  have "map ew_id (evidence (telemetry_of kept_tenant (snd (retention_pass flaky_env kept_tenant 7 evidence_app)))) = [2]"
    using evidence_facts(2) by simp
  then show ?thesis using retention_keeps_ledger [of kept_tenant evidence_app flaky_env 7] evidence_facts(1) by simp
qed

lemma blocked_facts:
  "(\<lambda>db. (map el_created_at (errors db), evidence db, map error_bucket (errors db))) sample_telemetry
     = ([5, 5], [], [Some (''app'', ''bkt_h''), Some (''app'', ''bkt_h'')])"
  by code_simp

theorem retention_blocked_witness:
  "fst (retention_pass retention_env kept_tenant 7 (retention_app [sample_error, sample_error])) = None
    \<and> errors (telemetry_of kept_tenant (snd (retention_pass retention_env kept_tenant 7 (retention_app [sample_error, sample_error]))))
      = errors (telemetry_of kept_tenant (retention_app [sample_error, sample_error]))"
proof -
  have db: "telemetry_of kept_tenant (retention_app [sample_error, sample_error]) = sample_telemetry"
    by (simp add: telemetry_of_def retention_app_def sample_telemetry_def)
  have inv: "store_inv sample_telemetry" by (rule trun_inv [OF sample_store_run empty_inv])
  have created: "el_created_at e = 5" if "e \<in> set (errors sample_telemetry)" for e
    using that blocked_facts by (auto simp: map_eq_Cons_conv)
  have len: "length (errors sample_telemetry) = 2" and ev: "evidence sample_telemetry = []"
    using blocked_facts by (auto simp: map_eq_Cons_conv)
  show ?thesis
    by (rule retention_blocked [where k = "(''app'', ''bkt_h'')"])
      (use sample_bucket created len ev inv in \<open>auto simp: db retention_env_def of_bucket_def\<close>)
qed

end
