(* ===== verification/Operations_Laws.thy ===== *)
theory Operations_Laws
  imports Retention_Laws Account_Laws Request_Wp
begin

text \<open>
  What the one-shot commands leave behind: an offboarded organization is gone and nothing of another one
  is touched; the bootstrap of an installation mints one working key and no second one.
\<close>

section \<open>Sequences\<close>

lemma andthen_ok: "andthen m f a = (Inr x, b) \<longleftrightarrow> (\<exists>y c. m a = (Inr y, c) \<and> f y c = (Inr x, b))"
  by (auto simp: andthen_def split: prod.split sum.split)

lemma bail_run [simp]: "bail msg a \<noteq> (Inr x, b)"
  by (simp add: bail_def stop_def)

lemma done_run [simp]: "done_with x a = (Inr y, b) \<longleftrightarrow> x = y \<and> a = b"
  by (auto simp: done_with_def)

lemma try_run [simp]: "try_store r a = (Inr y, b) \<longleftrightarrow> r = Some y \<and> a = b"
  by (auto simp: try_store_def need_def done_with_def stop_def split: option.splits)

section \<open>Offboarding\<close>

definition audited :: "app \<Rightarrow> app \<Rightarrow> bool" where
  "audited a b \<longleftrightarrow> (\<exists>rows. b = a\<lparr>app_control := (app_control a)\<lparr>audit_rows := rows\<rparr>\<rparr>)"

lemma audit_run: "audit sv actor act i j a = (Inr u, b) \<Longrightarrow> audited a b"
  by (auto simp: audit_def andthen_def ctl_def effect_def audit_event_def audited_def done_with_def split: if_splits)
    (rule exI [of _ "audit_rows (app_control a)"], simp)

definition offboard_scope :: "env \<Rightarrow> int \<Rightarrow> app \<Rightarrow> string" where
  "offboard_scope sv i a =
     (case List.find (\<lambda>t. tr_org t = i) (all_tenants (sv_decrypt sv) (registry_of a)) of
        Some t \<Rightarrow> tr_blob_scope t | None \<Rightarrow> ''t/'' @ show_int i)"

lemma require_run: "(if p then done_with () else bail msg) a = (Inr u, b) \<longleftrightarrow> p \<and> b = a"
  "(if p then bail msg else done_with ()) a = (Inr u, b) \<longleftrightarrow> \<not> p \<and> b = a"
  by auto

lemma rlook_run: "rlook sv m f a = (Inr r, b) \<longleftrightarrow> r = (if sv_fails sv m then None else Some (f (registry_of a))) \<and> b = a"
  by (auto simp: rlook_def)

lemma clear_run: "clear_scope sv scope a = (Inr n, b) \<longleftrightarrow>
    n = fst (delete_scope (\<not> sv_fails sv ''delete_scope'') (sv_blob_root sv) scope (app_files a))
    \<and> b = a\<lparr>app_files := snd (delete_scope (\<not> sv_fails sv ''delete_scope'') (sv_blob_root sv) scope (app_files a))\<rparr>"
  by (auto simp: clear_scope_def split: prod.split)

text \<open>The databases after an offboarding: a failed \<open>DROP DATABASE\<close> is ignored.\<close>

definition databases_left :: "env \<Rightarrow> int \<Rightarrow> app \<Rightarrow> string list" where
  "databases_left sv i a =
     (case sv_provider sv of
        Local _ \<Rightarrow> if sv_fails sv ''drop_database'' then databases (app_registry a)
          else filter (\<lambda>d. d \<noteq> db_name i) (databases (app_registry a))
      | Single _ \<Rightarrow> databases (app_registry a))"

lemma deprovision_run:
  "tenancy_deprovision sv i a = (Inr (Some u), b) \<Longrightarrow>
   b = a\<lparr>app_registry := (app_registry a)\<lparr>databases := databases_left sv i a\<rparr>, app_resolver := invalidate i (app_resolver a)\<rparr>"
  by (cases "sv_provider sv") (auto simp: tenancy_deprovision_def databases_left_def split: prod.splits bool.splits if_splits)

lemma cascade_run:
  "delete_org_cascade sv i a = (Inr (Some d), b) \<Longrightarrow>
   b = a\<lparr>app_control := snd (delete_org_row i (app_control a)), app_registry := delete_tenant_org i (app_registry a)\<rparr>"
  by (auto simp: delete_org_cascade_def split: prod.splits if_splits)

lemma offboard_steps:
  assumes "run_offboard sv i yes a = (Inr (), b)"
  obtains c where "yes" "\<not> sv_self_hosted sv"
    "c = a\<lparr>app_registry := delete_tenant_org i ((app_registry a)\<lparr>databases := databases_left sv i a\<rparr>), app_resolver := invalidate i (app_resolver a),
      app_files := snd (delete_scope (\<not> sv_fails sv ''delete_scope'') (sv_blob_root sv) (offboard_scope sv i a) (app_files a)),
      app_control := snd (delete_org_row i (app_control a))\<rparr>"
    "audited c b"
proof -
  from assms obtain u d c1 c2 where "yes" "\<not> sv_self_hosted sv" and c1: "tenancy_deprovision sv i a = (Inr (Some u), c1)"
    and c2: "delete_org_cascade sv i (c1\<lparr>app_files := snd (delete_scope (\<not> sv_fails sv ''delete_scope'') (sv_blob_root sv)
        (offboard_scope sv i a) (app_files c1))\<rparr>) = (Inr (Some d), c2)"
    and au: "audit sv ''ops'' ''org.offboard'' (Some i) (JObj [(''deleted'', JBool d)]) c2 = (Inr (), b)"
    unfolding run_offboard_def Let_def andthen_ok require_run rlook_run clear_run try_run offboard_scope_def
    by (clarsimp split: if_splits)
  from deprovision_run [OF c1] cascade_run [OF c2] \<open>yes\<close> \<open>\<not> sv_self_hosted sv\<close> audit_run [OF au]
  show ?thesis by (intro that [of c2]) simp_all
qed

lemma offboard_scope_own:
  assumes "\<And>r. r \<in> set (tenant_rows (app_registry a)) \<Longrightarrow> tn_org_id r = i \<Longrightarrow> tn_blob_scope r = blob_scope i"
  shows "offboard_scope sv i a = blob_scope i"
proof (cases "List.find (\<lambda>t. tr_org t = i) (all_tenants (sv_decrypt sv) (registry_of a))")
  case None
  then show ?thesis by (simp add: offboard_scope_def blob_scope_def)
next
  case (Some t)
  then have "t \<in> set (all_tenants (sv_decrypt sv) (registry_of a)) \<and> tr_org t = i"
    unfolding find_Some_iff by auto
  then obtain r where "r \<in> set (tenant_rows (app_registry a))" "tn_org_id r = i" "tr_blob_scope t = tn_blob_scope r"
    by (auto simp: all_tenants_def registry_of_def row_to_tenant_def)
  then show ?thesis using assms Some by (simp add: offboard_scope_def)
qed

lemma delete_scope_files:
  assumes "delete_scope io dir (blob_scope i) fs = (n, fs')"
  shows "\<not> prefix (tenant_root dir i) p \<Longrightarrow> row_of fst p fs' = row_of fst p fs"
    "io \<Longrightarrow> prefix (tenant_root dir i) p \<Longrightarrow> row_of fst p fs' = None"
proof -
  show "\<not> prefix (tenant_root dir i) p \<Longrightarrow> row_of fst p fs' = row_of fst p fs"
    using blob_step_confined [of dir i p io DropScope fs] assms by simp
  have "blob_scope i \<noteq> []" by (simp add: blob_scope_def)
  then have "io \<Longrightarrow> fs' = delete_where (\<lambda>f. prefix (tenant_root dir i) (fst f)) fs"
    using assms by (auto simp: delete_scope_def local_delete_prefix_def trim_scope scope_path delete_where_def list_ex_iff Let_def split: if_splits)
  then show "io \<Longrightarrow> prefix (tenant_root dir i) p \<Longrightarrow> row_of fst p fs' = None"
    by (auto simp: row_of_None delete_where_def)
qed

text \<open>Everything the control plane and the registry keep of one organization.\<close>

definition held_for :: "int \<Rightarrow> app \<Rightarrow> (org_row list \<times> member_row list \<times> invitation_row list \<times> directory_row list)
    \<times> (api_key_row list \<times> cli_row list) \<times> tenant_row list \<times> ((int \<times> string) \<times> int) list \<times> (int \<times> string) counter" where
  "held_for j a =
     (org_view j (app_control a),
      (filter (\<lambda>k. ak_org_id k = j) (api_keys (app_control a)), filter (\<lambda>c. ca_org_id c = Some j) (cli_authorizations (app_control a))),
      filter (\<lambda>r. tn_org_id r = j) (tenant_rows (app_registry a)), filter (\<lambda>w. fst (fst w) = j) (tenant_due_work (app_registry a)),
      filter (\<lambda>u. fst (fst u) = j) (org_usage (app_registry a)))"

lemma offboard_held:
  assumes "audited c b" "app_control c = snd (delete_org_row i (app_control a))"
    "app_registry c = delete_tenant_org i ((app_registry a)\<lparr>databases := dbs\<rparr>)"
  shows "held_for i b = (([], [], [], []), ([], []), [], [], [])" "j \<noteq> i \<Longrightarrow> held_for j b = held_for j a"
proof -
  have b: "held_for k b = held_for k c" for k using assms(1) by (auto simp: audited_def held_for_def org_view_def)
  have other: "filter (\<lambda>r. f r = j) (delete_where (\<lambda>r. f r = i) t) = filter (\<lambda>r. f r = j) t"
    if "j \<noteq> i" for f :: "'r \<Rightarrow> 'k" and i j :: 'k and t
    by (rule filter_delete_where_other) (use that in auto)
  show "held_for i b = (([], [], [], []), ([], []), [], [], [])"
    unfolding b by (simp add: held_for_def org_view_def assms(2,3) delete_org_row_def delete_tenant_org_def delete_where_def)
  show "j \<noteq> i \<Longrightarrow> held_for j b = held_for j a"
    unfolding b by (simp add: held_for_def org_view_def assms(2,3) delete_org_row_def delete_tenant_org_def other)
qed

text \<open>C15. After an offboarding that succeeded, for a tenant whose registry row has the blob scope of its
  organization: every row that the control plane and the registry keep of the organization is gone (sessions
  keep their selection, and the audit log stays), its database is gone when the local provider could drop it,
  and nothing is left under its blob scope when that could be cleared. Of every other organization all these
  rows, the database and the blobs are as before.\<close>
theorem offboard_erases:
  assumes "run_offboard sv i yes a = (Inr (), b)"
    and "\<And>r. r \<in> set (tenant_rows (app_registry a)) \<Longrightarrow> tn_org_id r = i \<Longrightarrow> tn_blob_scope r = blob_scope i"
  shows "yes \<and> \<not> sv_self_hosted sv \<and> held_for i b = (([], [], [], []), ([], []), [], [], [])
    \<and> ((\<exists>base. sv_provider sv = Local base) \<and> \<not> sv_fails sv ''drop_database'' \<longrightarrow> db_name i \<notin> set (databases (app_registry b)))
    \<and> (\<not> sv_fails sv ''delete_scope'' \<longrightarrow> (\<forall>p. prefix (tenant_root (sv_blob_root sv) i) p \<longrightarrow> row_of fst p (app_files b) = None))
    \<and> (\<forall>j. j \<noteq> i \<longrightarrow> held_for j b = held_for j a
         \<and> (db_name j \<in> set (databases (app_registry b)) \<longleftrightarrow> db_name j \<in> set (databases (app_registry a)))
         \<and> (\<forall>p. prefix (tenant_root (sv_blob_root sv) j) p \<longrightarrow> row_of fst p (app_files b) = row_of fst p (app_files a)))"
proof -
  obtain c where ok: "yes" "\<not> sv_self_hosted sv"
    and c: "c = a\<lparr>app_registry := delete_tenant_org i ((app_registry a)\<lparr>databases := databases_left sv i a\<rparr>), app_resolver := invalidate i (app_resolver a),
      app_files := snd (delete_scope (\<not> sv_fails sv ''delete_scope'') (sv_blob_root sv) (offboard_scope sv i a) (app_files a)),
      app_control := snd (delete_org_row i (app_control a))\<rparr>"
    and au: "audited c b"
    by (rule offboard_steps [OF assms(1)])
  let ?fs = "snd (delete_scope (\<not> sv_fails sv ''delete_scope'') (sv_blob_root sv) (blob_scope i) (app_files a))"
  have own: "offboard_scope sv i a = blob_scope i" by (rule offboard_scope_own) (rule assms(2))
  have b: "databases (app_registry b) = databases_left sv i a" "app_files b = ?fs"
    using au by (auto simp: audited_def c own delete_tenant_org_def)
  have "db_name j = db_name i \<longleftrightarrow> j = i" for j by (simp add: db_name_def show_int_inj)
  then have dbs: "j \<noteq> i \<Longrightarrow> db_name j \<in> set (databases (app_registry b)) \<longleftrightarrow> db_name j \<in> set (databases (app_registry a))"
    "\<exists>base. sv_provider sv = Local base \<Longrightarrow> \<not> sv_fails sv ''drop_database'' \<Longrightarrow> db_name i \<notin> set (databases (app_registry b))" for j
    unfolding b by (auto simp: databases_left_def split: Provider.splits)
  note files = delete_scope_files [where io = "\<not> sv_fails sv ''delete_scope''" and dir = "sv_blob_root sv" and i = i and fs = "app_files a", OF surjective_pairing]
  have disj: "row_of fst p ?fs = row_of fst p (app_files a)" if "j \<noteq> i" "prefix (tenant_root (sv_blob_root sv) j) p" for j p
    using files(1) tenant_roots_disjoint that by blast
  have held: "held_for i b = (([], [], [], []), ([], []), [], [], [])" "j \<noteq> i \<Longrightarrow> held_for j b = held_for j a" for j
    using offboard_held [OF au, of i a "databases_left sv i a"] by (simp_all add: c)
  show ?thesis unfolding b(2) held(1) using ok files(2) disj held(2) dbs by blast
qed

section \<open>Bootstrap\<close>

definition no_new_key :: "app \<Rightarrow> app \<Rightarrow> bool" where
  "no_new_key a b \<longleftrightarrow> api_keys (app_control b) = api_keys (app_control a) \<and> app_tenants b = app_tenants a"

interpretation nokey: request_frame no_new_key
  by unfold_locales (simp_all add: no_new_key_def)

interpretation logic: request_wp I for I .

lemma nokey_steps:
  "(\<And>db. api_keys (snd (op db)) = api_keys db) \<Longrightarrow> nokey.safe (ctl sv m op)"
  "nokey.safe (tenancy_provision sv i)" "nokey.safe (tenancy_resolve sv i)"
  "nokey.safe (bail msg)" "nokey.safe (try_store r)"
proof -
  show "nokey.safe (ctl sv m op)" if "\<And>db. api_keys (snd (op db)) = api_keys db"
    using that by (auto simp: nokey.safe_def ctl_def no_new_key_def split: prod.split) (metis snd_conv)
  show "nokey.safe (tenancy_provision sv i)" "nokey.safe (tenancy_resolve sv i)"
    by (auto simp: nokey.safe_def tenancy_provision_def tenancy_resolve_def no_new_key_def split: prod.splits option.splits)
  show "nokey.safe (bail msg)" "nokey.safe (try_store r)"
    by (simp_all add: nokey.safe_def bail_def try_store_def need_def stop_def done_with_def no_new_key_def split: option.split)
qed

lemma wp_step:
  "nokey.safe m \<Longrightarrow> no_new_key a c \<Longrightarrow> (\<And>d. no_new_key a d \<Longrightarrow> I d) \<Longrightarrow> (\<And>x d. no_new_key a d \<Longrightarrow> logic.wp I (f x) Q d)
    \<Longrightarrow> logic.wp I (andthen m f) Q c"
proof (cases "m c")
  case (Pair r d)
  assume safe: "nokey.safe m" and c: "no_new_key a c" and inv: "\<And>d. no_new_key a d \<Longrightarrow> I d"
    and rest: "\<And>x d. no_new_key a d \<Longrightarrow> logic.wp I (f x) Q d"
  have "no_new_key c d" using nokey.safeD [OF safe, of c] Pair by simp
  then have d: "no_new_key a d" using c by (rule nokey.rel_trans [rotated])
  show "logic.wp I (andthen m f) Q c"
    unfolding logic.wp_andthen using rest [OF d] inv [OF d] by (cases r) (simp_all add: logic.wp_def Pair)
qed

text \<open>The list of keys is the one before the command.\<close>

lemma wp_listed:
  assumes "no_new_key a c" "\<And>d. no_new_key a d \<Longrightarrow> I d"
    and "list_api_keys i (app_control a) \<noteq> [] \<Longrightarrow> Q None c"
    and "list_api_keys i (app_control a) = [] \<Longrightarrow> logic.wp I rest Q c"
  shows "logic.wp I (andthen (look sv m (list_api_keys i)) (\<lambda>r. andthen (try_store r) (\<lambda>ks. if ks \<noteq> [] then done_with None else rest))) Q c"
proof -
  have "list_api_keys i (app_control c) = list_api_keys i (app_control a)" using assms(1) by (simp add: no_new_key_def list_api_keys_def)
  then show ?thesis using assms
    by (cases "list_api_keys i (app_control a) = []") (simp_all add: logic.wp_def andthen_def look_def try_store_def need_def done_with_def stop_def)
qed

text \<open>The key that is printed resolves to the installation's organization and to a stored project.\<close>

definition key_works :: "env \<Rightarrow> string \<Rightarrow> string \<Rightarrow> app \<Rightarrow> bool" where
  "key_works sv app_id key b \<longleftrightarrow>
     (\<exists>plan project_id user_id store. org_for_api_key (sv_key_hash sv) (sv_now sv) key (app_control b)
          = Some (SELF_HOSTED_ORG_ID, plan, Some project_id, Some user_id)
        \<and> app_for_project_id project_id (app_tenants b store) = Some app_id)"

lemma find_last: "\<not> list_ex P xs \<Longrightarrow> P y \<Longrightarrow> List.find P (xs @ [y]) = Some y"
  by (induction xs) auto

lemma created_key_resolves:
  assumes "create_api_key kh now key pre i user_id (Some p) db = (Some (), db')"
  shows "\<exists>plan. org_for_api_key kh now key db' = Some (i, plan, Some p, Some user_id)"
proof -
  let ?row = "\<lparr>ak_key = kh key, ak_org_id = i, ak_created_by = Some user_id, ak_project_id = Some p, ak_prefix = pre,
    ak_active = True, ak_expires_at = None, ak_created_at = now\<rparr>"
  have fresh: "kh key \<notin> ak_key ` set (api_keys db)" and org: "org_exists i db" and db': "db' = db\<lparr>api_keys := api_keys db @ [?row]\<rparr>"
    using assms by (auto simp: create_api_key_def split: if_splits)
  have "List.find (\<lambda>k. ak_key k = kh key \<and> live_key now k) (api_keys db @ [?row]) = Some ?row"
    by (rule find_last) (use fresh in \<open>force simp: live_key_def list_ex_iff\<close>, simp add: live_key_def)
  moreover have "row_of og_id i (orgs db) \<noteq> None" using org unfolding org_exists_def list_ex_iff row_of_None by auto
  ultimately show ?thesis using fresh by (auto simp: org_for_api_key_def db' row_of_def dest: find_in)
qed

lemma created_project_found:
  assumes "create_project user_id name app_id d = (Some p, d')" "\<And>q. q \<in> set (td_projects d) \<Longrightarrow> pj_id q < td_next_project_id d"
  shows "app_for_project_id p d' = Some app_id"
proof -
  let ?row = "\<lparr>pj_id = p, pj_created_by = Some user_id, pj_name = name, pj_app_id = app_id\<rparr>"
  have p: "p = td_next_project_id d" "td_projects d' = td_projects d @ [?row]"
    using assms(1) by (auto simp: create_project_def Let_def split: if_splits)
  have "List.find (\<lambda>q. pj_id q = p) (td_projects d @ [?row]) = Some ?row"
    by (rule find_last) (use assms(2) p(1) in \<open>fastforce simp: list_ex_iff\<close>, simp)
  then show ?thesis by (simp add: app_for_project_id_def row_of_def p(2))
qed

text \<open>How the keys may grow in one run.\<close>

definition grown :: "nat \<Rightarrow> app \<Rightarrow> app \<Rightarrow> bool" where
  "grown n a b \<longleftrightarrow> (\<exists>new. api_keys (app_control b) = api_keys (app_control a) @ new \<and> length new \<le> n
     \<and> list_all (\<lambda>k. ak_org_id k = SELF_HOSTED_ORG_ID) new)"

definition projects_numbered :: "app \<Rightarrow> bool" where
  "projects_numbered a \<longleftrightarrow> (\<forall>s. \<forall>q \<in> set (td_projects (app_tenants a s)). pj_id q < td_next_project_id (app_tenants a s))"

lemma not_new_grown: "no_new_key a b \<Longrightarrow> grown n a b"
  by (simp add: no_new_key_def grown_def)

text \<open>The end of a first run: the project and its key.\<close>

lemma minted_key_works:
  assumes "no_new_key a c" "\<And>d. grown 1 a d \<Longrightarrow> I d"
    and "\<And>b. grown 1 a b \<Longrightarrow> projects_numbered a \<longrightarrow> key_works sv app_id (new_api_key sv) b \<Longrightarrow> Q (Some (app_id, new_api_key sv)) b"
  shows "logic.wp I (andthen (tctl sv t ''create_project'' (create_project user_id name app_id)) (\<lambda>r.
           andthen (try_store r) (\<lambda>project_id.
           andthen (mint_key sv (new_api_key sv) SELF_HOSTED_ORG_ID user_id project_id) (\<lambda>r.
           andthen (try_store r) (\<lambda>_. done_with (Some (app_id, new_api_key sv))))))) Q c"
proof -
  let ?d = "app_tenants c (t_store t)"
  have same: "api_keys (app_control c) = api_keys (app_control a)" "app_tenants c = app_tenants a" using assms(1) by (simp_all add: no_new_key_def)
  have sk: "\<not> is_publishable (new_api_key sv)" by (simp add: is_publishable_def new_api_key_def starts_with_def)
  let ?create = "\<lambda>p. create_api_key (sv_key_hash sv) (sv_now sv) (new_api_key sv) (api_key_prefix (new_api_key sv)) SELF_HOSTED_ORG_ID user_id (Some p) (app_control c)"
  have keys: "\<exists>new. api_keys (snd (?create p)) = api_keys (app_control a) @ new \<and> length new \<le> 1
      \<and> list_all (\<lambda>k. ak_org_id k = SELF_HOSTED_ORG_ID) new" for p
    by (simp add: create_api_key_def same)
  have works: "key_works sv app_id (new_api_key sv) (c\<lparr>app_tenants := (app_tenants c)(t_store t := d'), app_control := db'\<rparr>)"
    if p: "create_project user_id name app_id ?d = (Some p, d')" and k: "?create p = (Some (), db')" and n: "projects_numbered a" for p d' db'
  proof -
    obtain plan where "org_for_api_key (sv_key_hash sv) (sv_now sv) (new_api_key sv) db' = Some (SELF_HOSTED_ORG_ID, plan, Some p, Some user_id)"
      using created_key_resolves [OF k] by blast
    moreover have "q \<in> set (td_projects ?d) \<Longrightarrow> pj_id q < td_next_project_id ?d" for q using n same by (simp add: projects_numbered_def)
    ultimately show ?thesis using created_project_found [OF p]
      unfolding key_works_def by (intro exI [of _ plan] exI [of _ p] exI [of _ user_id] exI [of _ "t_store t"]) simp
  qed
  have grow: "grown 1 a (c\<lparr>app_tenants := ts\<rparr>)" "grown 1 a c" for ts
    by (simp_all add: grown_def same)
  have failed: "grown 1 a (c\<lparr>app_tenants := ts, app_control := db'\<rparr>)" if "?create p = (res, db')" for ts p res db'
    using keys [of p] that by (simp add: grown_def)
  show ?thesis
    using assms(2,3) sk grow failed works
    by (auto simp: logic.wp_def andthen_def tctl_def try_store_def need_def done_with_def stop_def mint_key_def ctl_def
        split: prod.splits option.splits)
qed

lemma bootstrap_run:
  assumes "bootstrap sv email password name a = (r, b)"
  defines "none \<equiv> list_api_keys SELF_HOSTED_ORG_ID (app_control a) = []"
  shows "no_new_key a b \<or> none \<and> grown 1 a b"
    "r = Inr (Some (app_id, key)) \<Longrightarrow> none \<and> (projects_numbered a \<longrightarrow> key_works sv app_id key b)"
proof -
  let ?I = "\<lambda>b. no_new_key a b \<or> none \<and> grown 1 a b"
  let ?Q = "\<lambda>x b. ?I b \<and> (case x of None \<Rightarrow> True | Some (app_id, key) \<Rightarrow> none \<and> (projects_numbered a \<longrightarrow> key_works sv app_id key b))"
  have nk: "no_new_key a a" by (simp add: no_new_key_def)
  have "logic.wp ?I (bootstrap sv email password name) ?Q a"
    unfolding bootstrap_def Let_def
    by (intro wp_listed [where a = a] minted_key_works [where a = a] wp_step [where a = a] nokey_steps nokey.safe_andthen nokey.safe_if nokey.safe_option nokey.safe_sum nokey.safe_done
          nokey.safe_need nokey.safe_look nk; assumption?)
      (simp_all add: create_org_def create_user_def add_member_def total_def Let_def nk none_def not_new_grown)
  then show "?I b" "r = Inr (Some (app_id, key)) \<Longrightarrow> none \<and> (projects_numbered a \<longrightarrow> key_works sv app_id key b)"
    by (auto simp: logic.wp_def assms(1) split: sum.splits option.splits)
qed

definition bootstraps :: "(env \<times> string \<times> string \<times> string) list \<Rightarrow> app \<Rightarrow> app" where
  "bootstraps runs a = fold (\<lambda>(sv, email, password, name) a. snd (bootstrap sv email password name a)) runs a"

lemma length_listed: "length (list_api_keys i db) = length (filter (\<lambda>k. ak_org_id k = i) (api_keys db))"
  by (simp add: list_api_keys_def)

lemma bootstrap_count:
  assumes "bootstrap sv email password name a = (r, b)"
  shows "length (list_api_keys SELF_HOSTED_ORG_ID (app_control b)) \<le> max 1 (length (list_api_keys SELF_HOSTED_ORG_ID (app_control a)))"
  using bootstrap_run(1) [OF assms]
proof
  assume n: "list_api_keys SELF_HOSTED_ORG_ID (app_control a) = [] \<and> grown 1 a b"
  then obtain new where new: "api_keys (app_control b) = api_keys (app_control a) @ new" "length new \<le> 1" by (auto simp: grown_def)
  have "length (filter (\<lambda>k. ak_org_id k = SELF_HOSTED_ORG_ID) (api_keys (app_control a))) = 0" using n length_listed by (metis list.size(3))
  then show ?thesis using new(2) by (auto simp: length_listed new(1) intro: le_trans [OF length_filter_le])
qed (simp add: no_new_key_def list_api_keys_def)

lemma bootstraps_count:
  "length (list_api_keys SELF_HOSTED_ORG_ID (app_control (bootstraps runs a))) \<le> max 1 (length (list_api_keys SELF_HOSTED_ORG_ID (app_control a)))"
proof (induction runs arbitrary: a)
  case (Cons x runs)
  obtain sv email password name where x: "x = (sv, email, password, name)" by (cases x)
  have "length (list_api_keys SELF_HOSTED_ORG_ID (app_control (snd (bootstrap sv email password name a))))
      \<le> max 1 (length (list_api_keys SELF_HOSTED_ORG_ID (app_control a)))"
    by (rule bootstrap_count [OF surjective_pairing])
  then show ?case using Cons [of "snd (bootstrap sv email password name a)"] by (simp add: bootstraps_def x)
qed (simp add: bootstraps_def)

text \<open>C23. The bootstrap of an installation mints at most one key: however often it has run before and whatever
  failed, an organization without a key ends with at most one. A run that finds a key changes no key and no
  project; any other adds at most one key, whether it fails or not. The key it prints opens the organization
  and the project it names, when project ids are below their sequence.\<close>
theorem bootstrap_mints_once:
  assumes "bootstrap sv email password name a = (r, b)"
  shows "length (list_api_keys SELF_HOSTED_ORG_ID (app_control (bootstraps runs c))) \<le> max 1 (length (list_api_keys SELF_HOSTED_ORG_ID (app_control c)))
    \<and> (list_api_keys SELF_HOSTED_ORG_ID (app_control a) \<noteq> [] \<longrightarrow> api_keys (app_control b) = api_keys (app_control a) \<and> app_tenants b = app_tenants a)
    \<and> length (api_keys (app_control b)) \<le> length (api_keys (app_control a)) + 1
    \<and> (case r of Inr (Some (app_id, key)) \<Rightarrow> list_api_keys SELF_HOSTED_ORG_ID (app_control a) = [] \<and> (projects_numbered a \<longrightarrow> key_works sv app_id key b)
       | _ \<Rightarrow> True)"
proof -
  note run = bootstrap_run [OF assms]
  have "length (api_keys (app_control b)) \<le> length (api_keys (app_control a)) + 1"
    using run(1) by (auto simp: no_new_key_def grown_def)
  moreover have "list_api_keys SELF_HOSTED_ORG_ID (app_control a) \<noteq> [] \<longrightarrow> api_keys (app_control b) = api_keys (app_control a) \<and> app_tenants b = app_tenants a"
    using run(1) by (auto simp: no_new_key_def)
  ultimately show ?thesis using run(2) bootstraps_count by (auto split: sum.split option.split)
qed

section \<open>Witness\<close>

definition install_env :: env where
  "install_env = sample_env\<lparr>sv_self_hosted := True, sv_key_hash := id\<rparr>"

definition fresh_install :: app where
  "fresh_install = (app_with empty_control)\<lparr>app_registry := (app_registry (app_with empty_control))\<lparr>tenant_rows := []\<rparr>,
     app_tenants := (\<lambda>_. sample_tenant\<lparr>td_telemetry := empty_telemetry []\<rparr>)\<rparr>"

definition installed :: app where
  "installed = snd (bootstrap install_env ''Owner@x'' ''password'' ''Default'' fresh_install)"

lemma bootstrap_runs:
  "fst (bootstrap install_env ''Owner@x'' ''password'' ''Default'' fresh_install) = Inr (Some (''Default-uuuuuu'', ''sk_live_secret''))"
  by code_simp

text \<open>Two runs: the first prints the key, the second finds it.\<close>

theorem bootstrap_mints_once_witness:
  "key_works install_env ''Default-uuuuuu'' ''sk_live_secret'' installed
    \<and> length (list_api_keys SELF_HOSTED_ORG_ID (app_control (bootstraps (replicate 2 (install_env, ''Owner@x'', ''password'', ''Default'')) fresh_install))) \<le> 1"
proof -
  have "bootstrap install_env ''Owner@x'' ''password'' ''Default'' fresh_install
      = (Inr (Some (''Default-uuuuuu'', ''sk_live_secret'')), installed)"
    using bootstrap_runs by (simp add: installed_def prod_eq_iff)
  moreover have "projects_numbered fresh_install" "list_api_keys SELF_HOSTED_ORG_ID (app_control fresh_install) = []"
    by (simp_all add: projects_numbered_def fresh_install_def app_with_def empty_telemetry_def empty_control_def list_api_keys_def)
  ultimately show ?thesis
    using bootstrap_mints_once [of install_env "''Owner@x''" "''password''" "''Default''" fresh_install _ installed
        "replicate 2 (install_env, ''Owner@x'', ''password'', ''Default'')" fresh_install] by simp
qed

text \<open>A run whose key could not be stored leaves its project; the next run creates a second one.\<close>

lemma bootstrap_retry_duplicates:
  "(\<lambda>b. length (td_projects (app_tenants (snd (bootstrap install_env ''Owner@x'' ''password'' ''Default'' b)) ''postgres://h/one'')))
     (snd (bootstrap (install_env\<lparr>sv_fails := (\<lambda>m. m = ''create_api_key''), sv_uuids := (\<lambda>_. replicate 32 (CHR ''v''))\<rparr>) ''Owner@x'' ''password'' ''Default'' fresh_install)) = 2"
  by code_simp

text \<open>Resuming a tenant that was never provisioned makes it active without a database: no reconciliation finds it again.\<close>

lemma resume_strands_provisioning:
  "(\<lambda>r. (isl (fst r), provisioning_tenants (app_registry (snd r)), map tn_status (tenant_rows (app_registry (snd r)))))
     (run_set_tenant_status sample_env 7 Active True (sample_app\<lparr>app_registry := half_provisioned\<rparr>)) = (False, [], [''active''])"
  by code_simp

definition two_scopes :: app where
  "two_scopes = sample_app\<lparr>app_files := [([''t'', ''1'', ''a''], ''x''), ([''t'', ''12'', ''a''], ''y'')],
     app_registry := (app_registry sample_app)\<lparr>databases := [db_name 1, db_name 12]\<rparr>\<rparr>"

definition local_env :: env where "local_env = sample_env\<lparr>sv_provider := Local ''postgres://h/base''\<rparr>"

definition offboarded :: app where "offboarded = snd (run_offboard local_env 1 True two_scopes)"

lemma offboard_runs: "map_sum ht_status id (fst (run_offboard local_env 1 True two_scopes)) = Inr ()"
  by code_simp

theorem offboard_erases_witness:
  "held_for 1 offboarded = (([], [], [], []), ([], []), [], [], []) \<and> db_name 1 \<notin> set (databases (app_registry offboarded))
   \<and> db_name 12 \<in> set (databases (app_registry offboarded)) \<and> row_of fst [''t'', ''1'', ''a''] (app_files offboarded) = None
   \<and> row_of fst [''t'', ''12'', ''a''] (app_files offboarded) = Some ([''t'', ''12'', ''a''], ''y'')"
proof -
  have "run_offboard local_env 1 True two_scopes = (Inr (), offboarded)"
    using offboard_runs by (cases "fst (run_offboard local_env 1 True two_scopes)") (simp_all add: offboarded_def prod_eq_iff)
  note erased = offboard_erases [OF this]
  have roots: "tenant_root (sv_blob_root local_env) 1 = [''t'', ''1'']" "tenant_root (sv_blob_root local_env) 12 = [''t'', ''12'']"
    by code_simp+
  have scope: "blob_scope 1 = ''t/1''" by code_simp
  have rows: "tn_blob_scope r = blob_scope 1" if "r \<in> set (tenant_rows (app_registry two_scopes))" "tn_org_id r = 1" for r
    using that scope by (simp add: two_scopes_def sample_app_def app_with_def)
  have before: "row_of fst [''t'', ''12'', ''a''] (app_files two_scopes) = Some ([''t'', ''12'', ''a''], ''y'')"
    "db_name 12 \<in> set (databases (app_registry two_scopes))" by code_simp+
  have env: "\<not> sv_fails local_env ''delete_scope''" "\<not> sv_fails local_env ''drop_database''" "\<exists>base. sv_provider local_env = Local base"
    by (simp_all add: local_env_def sample_env_def)
  have under: "prefix (tenant_root (sv_blob_root local_env) 1) [''t'', ''1'', ''a'']"
    "prefix (tenant_root (sv_blob_root local_env) 12) [''t'', ''12'', ''a'']" "(12::int) \<noteq> 1" using roots by simp_all
  show ?thesis using erased [OF rows] before env under by metis
qed

end
