(* ===== verification/Migrations.thy ===== *)
theory Migrations
  imports Operations
begin

text \<open>
  The fleet migration (\<open>run_tenant_migrations\<close> of \<open>src/operations.rs\<close>): the tasks of a \<open>JoinSet\<close> finish in
  any order, which is an argument, as is the outcome of the schema script on a database. Proved:
  whatever the order, every active tenant is migrated once and no failure hides another.
\<close>

text \<open>The outcome of \<open>db::schema::apply\<close> in its task.\<close>

datatype applied = Applied | Refused string | Panicked

record fleet =
  fl_pending :: "(int \<times> string) list"
  fl_migrated :: nat
  fl_failures :: "string list"
  fl_schemas :: "string list"

definition failure_text :: "(string \<Rightarrow> applied) \<Rightarrow> int \<times> string \<Rightarrow> string list" where
  "failure_text script task =
     (case script (snd task) of Refused e \<Rightarrow> [''tenant '' @ show_int (fst task) @ '': '' @ e] | _ \<Rightarrow> [])"

text \<open>\<open>join_next\<close> on the task at position \<open>k\<close>; a task that panicked ends the command.\<close>

definition finish_task :: "(string \<Rightarrow> applied) \<Rightarrow> nat \<Rightarrow> fleet \<Rightarrow> (string, fleet) result" where
  "finish_task script k ft =
     (let task = fl_pending ft ! k;
          ft' = ft\<lparr>fl_pending := take k (fl_pending ft) @ drop (Suc k) (fl_pending ft),
                   fl_migrated := fl_migrated ft + 1, fl_failures := fl_failures ft @ failure_text script task\<rparr>
      in case script (snd task) of
           Panicked \<Rightarrow> Err ''task panicked''
         | Applied \<Rightarrow> Ok (ft'\<lparr>fl_schemas := List.insert (snd task) (fl_schemas ft)\<rparr>)
         | Refused _ \<Rightarrow> Ok ft')"

lemma finish_shrinks: "finish_task script k ft = Inr ft' \<Longrightarrow> k < length (fl_pending ft) \<Longrightarrow> length (fl_pending ft') < length (fl_pending ft)"
  by (auto simp: finish_task_def Let_def split: applied.splits)

text \<open>Tasks are joined until fewer than \<open>limit\<close> are left; \<open>pick\<close> tells which of them is next.\<close>

function join_until :: "(string \<Rightarrow> applied) \<Rightarrow> (nat \<Rightarrow> nat) \<Rightarrow> nat \<Rightarrow> fleet \<Rightarrow> (string, fleet) result" where
  "join_until script pick limit ft =
     (if length (fl_pending ft) < limit then Ok ft
      else if fl_pending ft = [] then Err ''migration task exists''
      else (case finish_task script (pick (fl_migrated ft) mod length (fl_pending ft)) ft of
              Inl e \<Rightarrow> Err e
            | Inr ft' \<Rightarrow> join_until script pick limit ft'))"
  by pat_completeness auto
termination
  by (relation "measure (\<lambda>(script, pick, limit, ft). length (fl_pending ft))") (auto intro!: finish_shrinks)

declare join_until.simps [simp del]

fun spawn_all :: "(string \<Rightarrow> applied) \<Rightarrow> (nat \<Rightarrow> nat) \<Rightarrow> nat \<Rightarrow> TenantRecord list \<Rightarrow> fleet \<Rightarrow> (string, fleet) result" where
  "spawn_all script pick concurrency [] ft = Ok ft"
| "spawn_all script pick concurrency (t # ts) ft =
     (case (tr_tenant_status t = TenantStatus.Active, tr_conn t) of
        (True, Some conn) \<Rightarrow>
          (case join_until script pick concurrency ft of
             Inl e \<Rightarrow> Err e
           | Inr ft' \<Rightarrow> spawn_all script pick concurrency ts (ft'\<lparr>fl_pending := fl_pending ft' @ [(tr_org t, conn)]\<rparr>))
      | _ \<Rightarrow> spawn_all script pick concurrency ts ft)"

definition migrate_all :: "(string \<Rightarrow> applied) \<Rightarrow> (nat \<Rightarrow> nat) \<Rightarrow> nat \<Rightarrow> TenantRecord list \<Rightarrow> (string, fleet) result" where
  "migrate_all script pick concurrency ts =
     (case spawn_all script pick concurrency ts \<lparr>fl_pending = [], fl_migrated = 0, fl_failures = [], fl_schemas = []\<rparr> of
        Inl e \<Rightarrow> Err e
      | Inr ft \<Rightarrow> join_until script pick 1 ft)"

definition note_schemas :: "string list \<Rightarrow> Request.app \<Rightarrow> Request.app" where
  "note_schemas conns a =
     a\<lparr>app_registry := (app_registry a)\<lparr>schemas_applied := fold List.insert conns (schemas_applied (app_registry a))\<rparr>\<rparr>"

definition run_tenant_migrations :: "env \<Rightarrow> (string \<Rightarrow> applied) \<Rightarrow> (nat \<Rightarrow> nat) \<Rightarrow> nat \<Rightarrow> nat action" where
  "run_tenant_migrations sv script pick concurrency =
     andthen (rlook sv ''all_tenants'' (all_tenants (sv_decrypt sv))) (\<lambda>r.
     andthen (try_store r) (\<lambda>ts a.
     case migrate_all script pick concurrency ts of
       Inl e \<Rightarrow> bail e a
     | Inr ft \<Rightarrow>
         (if fl_failures ft \<noteq> []
          then bail (show_nat (length (fl_failures ft)) @ '' of '' @ show_nat (fl_migrated ft)
                 @ '' tenant migrations failed: '' @ join ''; '' (fl_failures ft))
          else done_with (fl_migrated ft)) (note_schemas (fl_schemas ft) a)))"

text \<open>\<open>Cmd::Migrate\<close> clamps the number of databases at a time.\<close>

definition migrate_command :: "env \<Rightarrow> (string \<Rightarrow> applied) \<Rightarrow> (nat \<Rightarrow> nat) \<Rightarrow> nat \<Rightarrow> nat action" where
  "migrate_command sv script pick concurrency = run_tenant_migrations sv script pick (max 1 (min 16 concurrency))"

section \<open>The order does not matter\<close>

text \<open>The tenants to migrate, and the accounts of a set of finished tasks.\<close>

definition eligible :: "TenantRecord list \<Rightarrow> (int \<times> string) list" where
  "eligible ts = [(tr_org t, conn). t \<leftarrow> ts, tr_tenant_status t = TenantStatus.Active, conn \<leftarrow> (case tr_conn t of Some c \<Rightarrow> [c] | None \<Rightarrow> [])]"

definition settled :: "(string \<Rightarrow> applied) \<Rightarrow> (int \<times> string) multiset \<Rightarrow> fleet \<Rightarrow> bool" where
  "settled script tasks ft \<longleftrightarrow>
     (\<exists>ended. tasks = ended + mset (fl_pending ft) \<and> fl_migrated ft = size ended
        \<and> mset (fl_failures ft) = (\<Sum>t\<in>#ended. mset (failure_text script t))
        \<and> set (fl_schemas ft) = {conn. script conn = Applied \<and> conn \<in> snd ` set_mset ended})"

lemma mset_take_drop: "k < length xs \<Longrightarrow> mset xs = add_mset (xs ! k) (mset (take k xs @ drop (Suc k) xs))"
  using arg_cong [OF id_take_nth_drop [of k xs], of mset] by simp

lemma finish_settled:
  assumes "finish_task script k ft = Inr ft'" "settled script tasks ft" "k < length (fl_pending ft)"
  shows "settled script tasks ft'"
proof -
  obtain ended where e: "tasks = ended + mset (fl_pending ft)" "fl_migrated ft = size ended"
      "mset (fl_failures ft) = (\<Sum>t\<in>#ended. mset (failure_text script t))"
      "set (fl_schemas ft) = {conn. script conn = Applied \<and> conn \<in> snd ` set_mset ended}"
    using assms(2) by (auto simp: settled_def)
  let ?t = "fl_pending ft ! k"
  have f: "fl_pending ft' = take k (fl_pending ft) @ drop (Suc k) (fl_pending ft)" "fl_migrated ft' = Suc (fl_migrated ft)"
      "fl_failures ft' = fl_failures ft @ failure_text script ?t"
      "set (fl_schemas ft') = {conn. script conn = Applied \<and> conn = snd ?t} \<union> set (fl_schemas ft)"
    using assms(1) by (auto simp: finish_task_def Let_def split: applied.splits)
  have "mset (fl_pending ft) = add_mset ?t (mset (fl_pending ft'))" using mset_take_drop [OF assms(3)] f(1) by simp
  then have "tasks = add_mset ?t ended + mset (fl_pending ft')" using e(1) by simp
  moreover have "mset (fl_failures ft') = (\<Sum>t\<in>#add_mset ?t ended. mset (failure_text script t))" using e(3) f(3) by simp
  moreover have "set (fl_schemas ft') = {conn. script conn = Applied \<and> conn \<in> snd ` set_mset (add_mset ?t ended)}"
    unfolding f(4) e(4) by auto
  moreover have "fl_migrated ft' = size (add_mset ?t ended)" using e(2) f(2) by simp
  ultimately show ?thesis unfolding settled_def by blast
qed

lemma finish_returns: "script (snd (fl_pending ft ! k)) \<noteq> Panicked \<Longrightarrow> \<exists>ft'. finish_task script k ft = Inr ft'"
  by (auto simp: finish_task_def Let_def split: applied.splits)

lemma join_settled:
  assumes "settled script tasks ft" "0 < limit" "\<And>conn. script conn \<noteq> Panicked"
  shows "\<exists>ft'. join_until script pick limit ft = Inr ft' \<and> settled script tasks ft' \<and> length (fl_pending ft') < limit"
  using assms
proof (induction script pick limit ft rule: join_until.induct)
  case (1 script pick limit ft)
  show ?case
  proof (cases "length (fl_pending ft) < limit")
    case False
    let ?k = "pick (fl_migrated ft) mod length (fl_pending ft)"
    have ne: "fl_pending ft \<noteq> []" using False 1(3) by auto
    then have k: "?k < length (fl_pending ft)" by simp
    obtain ft1 where f: "finish_task script ?k ft = Inr ft1" using finish_returns 1(4) by meson
    have "settled script tasks ft1" using finish_settled [OF f 1(2) k] .
    then show ?thesis using 1(1) [OF False ne f] 1(3,4) False ne f by (simp add: join_until.simps [of _ _ _ ft])
  qed (use 1(2) in \<open>auto simp: join_until.simps\<close>)
qed

lemma spawn_settled:
  assumes "settled script tasks ft" "0 < concurrency" "\<And>conn. script conn \<noteq> Panicked"
  shows "\<exists>ft'. spawn_all script pick concurrency ts ft = Inr ft' \<and> settled script (tasks + mset (eligible ts)) ft'"
  using assms(1)
proof (induction ts arbitrary: tasks ft)
  case (Cons t ts)
  show ?case
  proof (cases "tr_tenant_status t = TenantStatus.Active \<and> tr_conn t \<noteq> None")
    case True
    then obtain conn where c: "tr_tenant_status t = TenantStatus.Active" "tr_conn t = Some conn" by auto
    obtain ft1 where j: "join_until script pick concurrency ft = Inr ft1" "settled script tasks ft1"
      using join_settled [OF Cons.prems assms(2,3)] by blast
    have "settled script (tasks + {#(tr_org t, conn)#}) (ft1\<lparr>fl_pending := fl_pending ft1 @ [(tr_org t, conn)]\<rparr>)"
      using j(2) by (auto simp: settled_def)
    from Cons.IH [OF this] show ?thesis using c j(1) by (auto simp: eligible_def)
  qed (use Cons in \<open>auto simp: eligible_def split: option.splits\<close>)
qed (simp add: eligible_def)

lemma migrate_settled:
  assumes "0 < concurrency" "\<And>conn. script conn \<noteq> Panicked"
  obtains ft where "migrate_all script pick concurrency ts = Inr ft" "settled script (mset (eligible ts)) ft" "fl_pending ft = []"
proof -
  let ?ft = "\<lparr>fl_pending = [], fl_migrated = 0, fl_failures = [], fl_schemas = []\<rparr>"
  have "settled script {#} ?ft" by (simp add: settled_def)
  from spawn_settled [OF this assms, of pick ts] obtain ft1 where
    s: "spawn_all script pick concurrency ts ?ft = Inr ft1" "settled script (mset (eligible ts)) ft1" by auto
  obtain ft2 where "join_until script pick 1 ft1 = Inr ft2" "settled script (mset (eligible ts)) ft2" "length (fl_pending ft2) < 1"
    using join_settled [OF s(2) _ assms(2), of 1 pick] by auto
  then show ?thesis using that s(1) by (simp add: migrate_all_def)
qed

lemma fold_insert_set: "set (fold List.insert xs ys) = set xs \<union> set ys"
  by (induction xs arbitrary: ys) auto

lemma sum_failures: "(\<Sum>t\<in>#mset el. mset (failure_text script t)) = mset (concat (map (failure_text script) el))"
  by (induction el) simp_all

text \<open>C22. A fleet migration that can read the fleet and whose tasks do not panic reaches every active tenant with a database exactly once,
  whatever the number of tasks at a time and the order in which they finish: the script has run on exactly
  the databases that accept it, the command succeeds with their number when all do, and otherwise its
  message lists the failure of each tenant that refused, in the order in which they finished.\<close>
theorem migrations_reach_fleet:
  assumes "\<And>conn. script conn \<noteq> Panicked" "\<not> sv_fails sv ''all_tenants''"
    "migrate_command sv script pick concurrency a = (r, b)"
  defines "fleet \<equiv> eligible (all_tenants (sv_decrypt sv) (registry_of a))"
  defines "refused \<equiv> concat (map (failure_text script) fleet)"
  shows "set (schemas_applied (app_registry b))
       = set (schemas_applied (app_registry a)) \<union> {conn. script conn = Applied \<and> conn \<in> snd ` set fleet}
    \<and> (if refused = [] then r = Inr (length fleet)
       else \<exists>listed. mset listed = mset refused
          \<and> r = Inl (err 1 (show_nat (length refused) @ '' of '' @ show_nat (length fleet)
                 @ '' tenant migrations failed: '' @ join ''; '' listed)))"
proof -
  have "0 < max 1 (min 16 concurrency)" by simp
  then obtain ft where m: "migrate_all script pick (max 1 (min 16 concurrency)) (all_tenants (sv_decrypt sv) (registry_of a)) = Inr ft"
      "settled script (mset fleet) ft" "fl_pending ft = []"
    using migrate_settled assms(1) unfolding fleet_def by metis
  then have ft: "fl_migrated ft = length fleet" "mset (fl_failures ft) = mset refused"
      "set (fl_schemas ft) = {conn. script conn = Applied \<and> conn \<in> snd ` set fleet}"
    by (auto simp: settled_def sum_failures refused_def)
  have len: "length (fl_failures ft) = length refused" using ft(2) mset_eq_length by blast
  have ne: "fl_failures ft = [] \<longleftrightarrow> refused = []" using len by (metis length_0_conv)
  have "(r, b) = (if refused \<noteq> [] then bail (show_nat (length refused) @ '' of '' @ show_nat (length fleet)
                 @ '' tenant migrations failed: '' @ join ''; '' (fl_failures ft))
          else done_with (length fleet)) (note_schemas (fl_schemas ft) a)"
    using assms(2,3) m(1) ft(1) len ne
    by (auto simp: migrate_command_def run_tenant_migrations_def andthen_def rlook_def try_store_def need_def done_with_def
        split: if_splits)
  then show ?thesis using ft(2,3)
    by (auto simp: bail_def stop_def done_with_def note_schemas_def fold_insert_set split: if_splits)
qed

definition fleet_app :: Request.app where
  "fleet_app = sample_app\<lparr>app_registry := sample_registry\<lparr>
     tenant_rows := [\<lparr>tn_org_id = 1, tn_status = ''active'', tn_db_conn = Some ''new'', tn_blob_mode = ''prefix'', tn_blob_scope = ''t/1'', tn_region = None\<rparr>,
                     \<lparr>tn_org_id = 2, tn_status = ''active'', tn_db_conn = Some ''old'', tn_blob_mode = ''prefix'', tn_blob_scope = ''t/2'', tn_region = None\<rparr>]\<rparr>\<rparr>"

definition half_broken :: "string \<Rightarrow> applied" where
  "half_broken conn = (if conn = ''old'' then Refused ''locked'' else Applied)"

lemma fleet_facts: "eligible (all_tenants (sv_decrypt sample_env) (registry_of fleet_app)) = [(1, ''new''), (2, ''old'')]"
  by code_simp

theorem migrations_reach_fleet_witness:
  "set (schemas_applied (app_registry (snd (migrate_command sample_env half_broken (\<lambda>n. n) 1 fleet_app))))
     = set (schemas_applied (app_registry fleet_app)) \<union> {''new''}
   \<and> fst (migrate_command sample_env half_broken (\<lambda>n. n) 1 fleet_app)
     = Inl (err 1 ''1 of 2 tenant migrations failed: tenant 2: locked'')"
proof -
  have "half_broken conn \<noteq> Panicked" for conn by (simp add: half_broken_def)
  moreover have "\<not> sv_fails sample_env ''all_tenants''" by (simp add: sample_env_def)
  moreover have "concat (map (failure_text half_broken) [(1, ''new''), (2, ''old'')]) = [''tenant 2: locked'']"
    "show_nat (length [''tenant 2: locked'']) @ '' of '' @ show_nat (length [(1 :: int, ''new''), (2, ''old'')])
        @ '' tenant migrations failed: '' @ join ''; '' [''tenant 2: locked''] = ''1 of 2 tenant migrations failed: tenant 2: locked''"
    "{conn. half_broken conn = Applied \<and> conn \<in> snd ` set [(1 :: int, ''new''), (2, ''old'')]} = {''new''}"
    by (code_simp, code_simp, auto simp: half_broken_def split: if_splits)
  ultimately show ?thesis
    using migrations_reach_fleet [of half_broken sample_env "\<lambda>n. n" 1 fleet_app
        "fst (migrate_command sample_env half_broken (\<lambda>n. n) 1 fleet_app)"
        "snd (migrate_command sample_env half_broken (\<lambda>n. n) 1 fleet_app)"]
    unfolding fleet_facts by (auto simp del: length_Cons)
qed

end
