(* ===== verification/Maintenance.thy ===== *)
theory Maintenance
  imports Operations Worker
begin

text \<open>
  The background loops: one tick of the minutely maintenance (\<open>spawn_background_sweeps\<close> of
  \<open>src/lib.rs\<close>) and one pass of the resolution sweep over the tenants that are due
  (\<open>sweep_once\<close> of \<open>src/sweep.rs\<close>). The job tables are those of \<open>Worker\<close>, so the state of a tick is
  a pair. Proved: a pass serves every due tenant that can be opened and moves it to the back, and what
  happens when 128 due tenants cannot be opened.
\<close>

section \<open>The minutely tick\<close>

text \<open>The payload of an operational alert, when a webhook is configured.\<close>

definition ops_alert :: "env \<Rightarrow> string \<Rightarrow> json option" where
  "ops_alert sv message =
     (case text_var sv ''REPROIT_ALERT_WEBHOOK'' of
        None \<Rightarrow> None
      | Some _ \<Rightarrow> Some (JObj [(''kind'', JStr ''ops''), (''text'', JStr (''Reproit ops: '' @ message))]))"

definition expired_runs_text :: "nat \<Rightarrow> int \<Rightarrow> string" where
  "expired_runs_text n org_id =
     show_nat n @ '' hosted reproduction run(s) for org '' @ show_int org_id
     @ '' timed out with no verdict from CI: the repository_dispatch loop may be broken (check the app''
     @ [CHR 0x27] @ ''s reproit-repro workflow and its REPROIT_CLOUD_KEY secret)''"

definition tick_tenant :: "env \<Rightarrow> world \<Rightarrow> bool \<Rightarrow> TenantRecord \<Rightarrow> json list \<times> Request.app \<times> Worker.app
    \<Rightarrow> json list \<times> Request.app \<times> Worker.app" where
  "tick_tenant sv w hourly tr s =
     (case s of (alerts, a, wa) \<Rightarrow>
      if tr_tenant_status tr \<noteq> TenantStatus.Active then s else
      (case tenancy_resolve sv (tr_org tr) a of
         (Inr (Inr t), a1) \<Rightarrow>
           (let a2 = (if hourly
                  then snd (tctl sv t ''prune_processed_batches'' (\<lambda>d. case prune_processed_batches (sv_now sv) 48 (td_telemetry d) of
                         (n, db) \<Rightarrow> (Some n, d\<lparr>td_telemetry := db\<rparr>)) a1)
                  else a1)
            in case tctl sv t ''expire_stale_cloud_runs''
                   (\<lambda>d. apfst Some (expire_stale_cloud_runs (sv_now sv) (cloud_run_timeout_secs sv) d)) a2 of
                 (r, a3) \<Rightarrow>
                   (alerts @ (case r of Inr (Some n) \<Rightarrow>
                        if 1 \<le> n then (case ops_alert sv (expired_runs_text n (tr_org tr)) of Some p \<Rightarrow> [p] | None \<Rightarrow> []) else []
                      | _ \<Rightarrow> []), a3, requeue_tenant w (tr_org tr) wa))
       | (_, a1) \<Rightarrow> (alerts, a1, wa)))"

definition sweep_pools :: "env \<Rightarrow> Request.app \<Rightarrow> nat \<times> Request.app" where
  "sweep_pools sv a =
     (case sweep_idle (sv_now sv) (rv_pools (app_resolver a)) of
        (n, pools) \<Rightarrow> (n, a\<lparr>app_resolver := (app_resolver a)\<lparr>rv_pools := pools\<rparr>\<rparr>))"

text \<open>\<open>ticks\<close> is the number of ticks before this one; the hourly work is due on the first of every sixty.\<close>

definition background_tick :: "env \<Rightarrow> world \<Rightarrow> nat \<Rightarrow> Request.app \<times> Worker.app \<Rightarrow> json list \<times> Request.app \<times> Worker.app" where
  "background_tick sv w ticks s =
     (case s of (a, wa) \<Rightarrow>
      let hourly = ((ticks + 1) mod 60 = 1);
          a1 = snd (ctl sv ''prune_sessions'' (total (prune_sessions (sv_now sv))) a);
          a2 = snd (ctl sv ''prune_org_invitations'' (total (prune_org_invitations (sv_now sv))) a1)
      in case (if sv_fails sv ''all_tenants'' then ([], a2, wa)
               else fold (tick_tenant sv w hourly) (all_tenants (sv_decrypt sv) (registry_of a2)) ([], a2, wa)) of
           (alerts, a3, wa') \<Rightarrow> (alerts, snd (sweep_pools sv a3), wa'))"

section \<open>The resolution sweep\<close>

definition put_registry :: "registry \<Rightarrow> Request.app \<Rightarrow> Request.app" where
  "put_registry reg a = a\<lparr>app_registry := reg\<rparr>"

text \<open>Self-hosted: every active tenant is due at once.\<close>

definition enqueue_tenant :: "env \<Rightarrow> TenantRecord \<Rightarrow> Request.app \<Rightarrow> Request.app" where
  "enqueue_tenant sv tr a =
     (if tr_tenant_status tr \<noteq> TenantStatus.Active \<or> sv_fails sv ''schedule_tenant_work'' then a
      else (case schedule_tenant_work (sv_now sv) (tr_org tr) ''resolution'' 0 (registry_of a) of
              None \<Rightarrow> a | Some reg \<Rightarrow> put_registry reg a))"

text \<open>\<open>as i64\<close> of the interval.\<close>

definition sweep_delay :: "env \<Rightarrow> int" where
  "sweep_delay sv =
     (let n = (case interval_secs (sv_vars sv ''REPROIT_SWEEP_SECS'') of Some n \<Rightarrow> n | None \<Rightarrow> 300)
      in if n mod 2 ^ 64 < 2 ^ 63 then int (n mod 2 ^ 64) else int (n mod 2 ^ 64) - 2 ^ 64)"

definition sweep_store :: "env \<Rightarrow> (int \<Rightarrow> sweep_env) \<Rightarrow> int \<Rightarrow> Tenant \<Rightarrow> Request.app \<Rightarrow> nat \<times> effect list \<times> Request.app" where
  "sweep_store sv sw org_id t a =
     (case sweep_tenant (sv_fails sv ''anchored_buckets'') (sw org_id) (triage_db.truncate (td_telemetry (app_tenants a (t_store t)))) of
        (n, effs, db) \<Rightarrow>
          (n, effs, a\<lparr>app_tenants := (app_tenants a)(t_store t := on_triage (\<lambda>_. db) (app_tenants a (t_store t)))\<rparr>))"

definition reschedule :: "env \<Rightarrow> int \<Rightarrow> Request.app \<Rightarrow> Request.app" where
  "reschedule sv org_id a =
     (if sv_fails sv ''reschedule_tenant_work'' then a
      else put_registry (reschedule_tenant_work (sv_now sv) org_id ''resolution'' (sweep_delay sv) (app_registry a)) a)"

definition sweep_org :: "env \<Rightarrow> (int \<Rightarrow> sweep_env) \<Rightarrow> int \<Rightarrow> nat \<times> effect list \<times> Request.app \<Rightarrow> nat \<times> effect list \<times> Request.app" where
  "sweep_org sv sw org_id s =
     (case s of (changes, effs, a) \<Rightarrow>
      (case tenancy_resolve sv org_id a of
         (Inr (Inr t), a1) \<Rightarrow>
           (case sweep_store sv sw org_id t a1 of (n, es, a2) \<Rightarrow> (changes + n, effs @ es, reschedule sv org_id a2))
       | (_, a1) \<Rightarrow> (changes, effs, a1)))"

definition due_orgs :: "env \<Rightarrow> Request.app \<Rightarrow> int list" where
  "due_orgs sv a = tenants_due_for (sv_now sv) ''resolution'' 128 (registry_of a)"

definition sweep_once :: "env \<Rightarrow> (int \<Rightarrow> sweep_env) \<Rightarrow> Request.app \<Rightarrow> nat \<times> effect list \<times> Request.app" where
  "sweep_once sv sw a =
     (if sv_self_hosted sv \<and> sv_fails sv ''all_tenants'' then (0, [], a) else
      let a1 = (if sv_self_hosted sv then fold (enqueue_tenant sv) (all_tenants (sv_decrypt sv) (registry_of a)) a else a)
      in if sv_fails sv ''tenants_due_for'' then (0, [], a1)
         else fold (sweep_org sv sw) (due_orgs sv a1) (0, [], a1))"

section \<open>A pass that serves nobody\<close>

text \<open>
  The registry bars a tenant that is missing or not active, once no fresh mapping of it is cached. Such a
  tenant keeps its place in the queue.
\<close>

definition barred :: "env \<Rightarrow> Request.app \<Rightarrow> int \<Rightarrow> bool" where
  "barred sv a org_id \<longleftrightarrow>
     rv_single_tenant (app_resolver a) = None
     \<and> (case map_of (rv_cache (app_resolver a)) org_id of None \<Rightarrow> True | Some m \<Rightarrow> \<not> fresh_mapping (sv_now sv) m)
     \<and> (case tenant (sv_decrypt sv) org_id (registry_of a) of None \<Rightarrow> True | Some r \<Rightarrow> tr_tenant_status r \<noteq> TenantStatus.Active)"

lemma barred_resolve:
  assumes "barred sv a org_id"
  obtains e where "tenancy_resolve sv org_id a = (Inr (Inl e), a)"
proof -
  let ?lookup = "if sv_fails sv ''tenant'' then None else Some (tenant (sv_decrypt sv) org_id (registry_of a))"
  have "\<exists>e. read_mapping (sv_now sv) ?lookup org_id (app_resolver a) = (Inl e, app_resolver a)"
    using assms by (auto simp: barred_def read_mapping_def split: option.split)
  then obtain e where "mapping_for (sv_now sv) ?lookup org_id (app_resolver a) = (Inl e, app_resolver a)"
    using assms by (auto simp: barred_def mapping_for_def split: option.splits)
  then have "resolve_tenant (sv_now sv) ?lookup (\<not> sv_fails sv ''connect'') org_id (app_resolver a) = (Inl e, app_resolver a)"
    using assms by (simp add: barred_def resolve_tenant_def)
  then show ?thesis using that by (simp add: tenancy_resolve_def)
qed

text \<open>Hosted, a pass of the resolution sweep serves nobody when the 128 tenants that have been due longest
  are suspended or gone: it skips each without moving it back in the queue, so it changes nothing at all, and
  every tenant behind them waits until they are gone.\<close>
theorem sweep_starved:
  assumes "\<not> sv_self_hosted sv" "\<And>org_id. org_id \<in> set (due_orgs sv a) \<Longrightarrow> barred sv a org_id"
  shows "sweep_once sv sw a = (0, [], a) \<and> length (due_orgs sv a) \<le> 128"
proof -
  have "fold (sweep_org sv sw) orgs (0, [], a) = (0, [], a)" if "\<And>i. i \<in> set orgs \<Longrightarrow> barred sv a i" for orgs
    using that
  proof (induction orgs)
    case (Cons i orgs)
    obtain e where "tenancy_resolve sv i a = (Inr (Inl e), a)" by (rule barred_resolve [of sv a i]) (use Cons.prems in auto)
    then show ?case using Cons by (simp add: sweep_org_def)
  qed simp
  from this [of "due_orgs sv a"] have "fold (sweep_org sv sw) (due_orgs sv a) (0, [], a) = (0, [], a)" using assms(2) by blast
  moreover have "length (due_orgs sv a) \<le> 128" by (simp add: due_orgs_def tenants_due_for_def)
  ultimately show ?thesis using assms(1) by (simp add: sweep_once_def)
qed

definition starved_app :: Request.app where
  "starved_app = sample_app\<lparr>app_registry := sample_registry\<lparr>
     tenant_rows := [\<lparr>tn_org_id = 1, tn_status = ''suspended'', tn_db_conn = Some ''new'', tn_blob_mode = ''prefix'', tn_blob_scope = ''t/1'', tn_region = None\<rparr>],
     tenant_due_work := [((1, ''resolution''), 0)]\<rparr>\<rparr>"

lemma starved_facts: "due_orgs sample_env starved_app = [1]" "barred sample_env starved_app 1"
  by code_simp+

theorem sweep_starved_witness:
  "sweep_once sample_env (\<lambda>_. sample_sweep) starved_app = (0, [], starved_app) \<and> due_orgs sample_env starved_app = [1]"
  using sweep_starved [of sample_env starved_app "\<lambda>_. sample_sweep"] starved_facts by (simp add: sample_env_def)

section \<open>Job tables in a tick\<close>

text \<open>The tick touches the job tables through the requeue turn of each tenant only.\<close>

lemma tick_jobs:
  assumes "\<And>i wa. P wa \<Longrightarrow> P (requeue_tenant w i wa)" "P wa"
  shows "P (snd (snd (background_tick sv w ticks (a, wa))))"
proof -
  have step: "P (snd (snd (tick_tenant sv w hourly tr s)))" if "P (snd (snd s))" for hourly tr s
    using assms(1) that by (auto simp: tick_tenant_def Let_def split: prod.splits sum.splits)
  have "P (snd (snd (fold (tick_tenant sv w hourly) trs s)))" if "P (snd (snd s))" for hourly trs s
    using that step by (induction trs arbitrary: s) simp_all
  then show ?thesis using assms(2) by (auto simp: background_tick_def Let_def split: prod.splits if_splits) (metis snd_conv)+
qed

text \<open>So a tick keeps the job tables well formed and the routing hint complete.\<close>

lemma tick_keeps_good:
  assumes "good wa" "\<And>i. \<not> fails w (MarkTenantPending i)"
  shows "good (snd (snd (background_tick sv w ticks (a, wa))))"
proof (rule tick_jobs [where P = good, OF _ assms(1)])
  show "good (requeue_tenant w i wa')" if "good wa'" for i wa' using that assms(2) by (rule good_requeue)
qed

end
