(* ===== verification/Schema.thy ===== *)
theory Schema
  imports Telemetry_Steps
begin

text \<open>
  The migration of a tenant database (\<open>src/db/schema.rs\<close>): the backfill statements at the end of the
  schema, the loop that identifies legacy errors, and \<open>apply\<close>, which may be interrupted between any two of
  its statements and is then run again.
\<close>

declare split_paired_All [simp del] split_paired_Ex [simp del]

section \<open>Backfill statements\<close>

text \<open>\<open>INSERT ... SELECT ... GROUP BY ... ON CONFLICT DO NOTHING\<close>, with one row for each key of the list.\<close>

definition insert_groups :: "('r \<Rightarrow> 'k) \<Rightarrow> ('k \<Rightarrow> 'r) \<Rightarrow> 'k list \<Rightarrow> 'r list \<Rightarrow> 'r list" where
  "insert_groups key row ks t = fold (\<lambda>k. insert_missing key (row k)) (remdups ks) t"

definition count_groups :: "'k list \<Rightarrow> 'k counter \<Rightarrow> 'k counter" where
  "count_groups ks t = insert_groups fst (\<lambda>k. (k, int (count_list ks k))) ks t"

definition backfill_summaries :: "error_row list \<Rightarrow> summary_row list \<Rightarrow> summary_row list" where
  "backfill_summaries es t =
     insert_groups summary_key (\<lambda>(a, b). summarize_group a b (filter (\<lambda>e. error_bucket e = Some (a, b)) es))
       (List.map_filter error_bucket es) t"

text \<open>The build of a row, commit first.\<close>

definition row_build :: "(json \<Rightarrow> string) \<Rightarrow> error_row \<Rightarrow> string option" where
  "row_build pg e =
     (let build = map_of (er_context (el_rec e)) ''build''
      in coalesce [jsonb_field pg build ''commit'', jsonb_field pg build ''version''])"

definition traffic_group :: "string \<times> string \<Rightarrow> error_row list \<Rightarrow> traffic_row" where
  "traffic_group k es =
     \<lparr>tf_app_id = fst k, tf_build = snd k, tf_count = int (length es),
      tf_first_seen = Min (set (map el_created_at es)), tf_last_seen = Max (set (map el_created_at es))\<rparr>"

definition backfill_traffic :: "(json \<Rightarrow> string) \<Rightarrow> error_row list \<Rightarrow> traffic_row list \<Rightarrow> traffic_row list" where
  "backfill_traffic pg es t =
     (let key = (\<lambda>e. map_option (Pair (el_app_id e)) (row_build pg e))
      in insert_groups traffic_key (\<lambda>k. traffic_group k (filter (\<lambda>e. key e = Some k) es)) (List.map_filter key es) t)"

definition backfill_windows :: "(json \<Rightarrow> string) \<Rightarrow> error_row list \<Rightarrow> (string \<times> string \<times> int \<times> string) counter
    \<Rightarrow> (string \<times> string \<times> int \<times> string) counter" where
  "backfill_windows pg es t =
     count_groups (List.map_filter (\<lambda>e. map_option (\<lambda>b. (el_app_id e, b, date_trunc_hour (el_created_at e), window_build pg e))
       (el_bucket_id e)) es) t"

text \<open>The backfill wants a version or a commit in every \<open>build\<close>, the deletion trigger only in an object.\<close>

definition backfill_dimensions :: "(json \<Rightarrow> string) \<Rightarrow> (string \<times> json) list \<Rightarrow> (string \<times> string) list" where
  "backfill_dimensions pg context =
     trigger_dimensions pg (filter (\<lambda>(key, v). key \<noteq> ''build''
       \<or> coalesce [jsonb_field pg (Some v) ''version'', jsonb_field pg (Some v) ''commit''] \<noteq> None) context)"

definition backfill_app_counts :: "(json \<Rightarrow> string) \<Rightarrow> error_row list \<Rightarrow> (string \<times> string \<times> string) counter
    \<Rightarrow> (string \<times> string \<times> string) counter" where
  "backfill_app_counts pg es t =
     count_groups (concat (map (\<lambda>e. map (Pair (el_app_id e)) (backfill_dimensions pg (er_context (el_rec e)))) es)) t"

definition backfill_bucket_counts :: "(json \<Rightarrow> string) \<Rightarrow> error_row list \<Rightarrow> (string \<times> string \<times> string \<times> string) counter
    \<Rightarrow> (string \<times> string \<times> string \<times> string) counter" where
  "backfill_bucket_counts pg es t =
     count_groups (concat (map (\<lambda>e. case el_bucket_id e of
         None \<Rightarrow> []
       | Some b \<Rightarrow> map (\<lambda>d. (el_app_id e, b, d)) (backfill_dimensions pg (er_context (el_rec e)))) es)) t"

text \<open>What the schema script changes in a database whose tables exist.\<close>

definition run_schema :: "(json \<Rightarrow> string) \<Rightarrow> telemetry_db \<Rightarrow> telemetry_db" where
  "run_schema pg db =
     db\<lparr>bucket_summaries := backfill_summaries (errors db) (bucket_summaries db),
        build_traffic_rows := backfill_traffic pg (errors db) (build_traffic_rows db),
        bucket_windows := backfill_windows pg (errors db) (bucket_windows db),
        app_context_counts := backfill_app_counts pg (errors db) (app_context_counts db),
        bucket_context_counts := backfill_bucket_counts pg (errors db) (bucket_context_counts db)\<rparr>"

section \<open>The migration\<close>

definition rows_without_bucket :: "telemetry_db \<Rightarrow> (int \<times> ErrorRec) list" where
  "rows_without_bucket db =
     map (\<lambda>e. (el_id e, el_rec e)) (sort_key el_id (filter (\<lambda>e. el_bucket_id e = None) (errors db)))"

definition set_missing_bucket :: "'z bucket_lib_scheme \<Rightarrow> int \<times> ErrorRec \<Rightarrow> telemetry_db \<Rightarrow> telemetry_db" where
  "set_missing_bucket lib row db =
     db\<lparr>errors := update_where (\<lambda>e. el_id e = fst row \<and> el_bucket_id e = None)
       (\<lambda>e. e\<lparr>el_bucket_id := Some (bucket_id lib (snd row))\<rparr>) (errors db)\<rparr>"

definition backfill_missing_bucket_ids :: "'z bucket_lib_scheme \<Rightarrow> telemetry_db \<Rightarrow> telemetry_db" where
  "backfill_missing_bucket_ids lib db = fold (set_missing_bucket lib) (rows_without_bucket db) db"

definition TENANT_SCHEMA_VERSION :: int where "TENANT_SCHEMA_VERSION = 2"

text \<open>A tenant database with its migration table.\<close>

type_synonym versioned = "int list \<times> telemetry_db"

definition schema_applied :: "int list \<Rightarrow> bool" where
  "schema_applied versions \<longleftrightarrow> \<not> (case versions of [] \<Rightarrow> 0 | _ \<Rightarrow> Max (set versions)) < TENANT_SCHEMA_VERSION"

definition record_version :: "versioned \<Rightarrow> versioned" where
  "record_version s = (insert_missing id TENANT_SCHEMA_VERSION (fst s), snd s)"

definition apply_schema :: "'z bucket_lib_scheme \<Rightarrow> (json \<Rightarrow> string) \<Rightarrow> versioned \<Rightarrow> versioned" where
  "apply_schema lib pg s =
     (if schema_applied (fst s) then s
      else record_version (apsnd (run_schema pg) (apsnd (backfill_missing_bucket_ids lib) (apsnd (run_schema pg) s))))"

text \<open>The statements of one call, and a call that is interrupted after some of them.\<close>

definition apply_statements :: "'z bucket_lib_scheme \<Rightarrow> (json \<Rightarrow> string) \<Rightarrow> telemetry_db \<Rightarrow> (versioned \<Rightarrow> versioned) list" where
  "apply_statements lib pg db =
     apsnd (run_schema pg) # map (\<lambda>row. apsnd (set_missing_bucket lib row)) (rows_without_bucket db)
       @ [apsnd (run_schema pg), record_version]"

definition apply_interrupted :: "'z bucket_lib_scheme \<Rightarrow> (json \<Rightarrow> string) \<Rightarrow> nat \<Rightarrow> versioned \<Rightarrow> versioned" where
  "apply_interrupted lib pg n s =
     (if schema_applied (fst s) then s else fold (\<lambda>f. f) (take n (apply_statements lib pg (snd s))) s)"

definition apply_attempts :: "'z bucket_lib_scheme \<Rightarrow> (json \<Rightarrow> string) \<Rightarrow> nat list \<Rightarrow> versioned \<Rightarrow> versioned" where
  "apply_attempts lib pg ns s = fold (apply_interrupted lib pg) ns s"

section \<open>Groups\<close>

lemma insert_groups_row:
  assumes "\<And>k. key (row k) = k"
  shows "row_of key k (insert_groups key row ks t) =
    (case row_of key k t of Some r \<Rightarrow> Some r | None \<Rightarrow> if k \<in> set ks then Some (row k) else None)"
proof -
  have "row_of key k (fold (\<lambda>k. insert_missing key (row k)) ks t) =
    (case row_of key k t of Some r \<Rightarrow> Some r | None \<Rightarrow> if k \<in> set ks then Some (row k) else None)" for ks
  proof (induction ks arbitrary: t)
    case (Cons j ks)
    have "row_of key k (insert_missing key (row j) t) =
        (case row_of key k t of Some r \<Rightarrow> Some r | None \<Rightarrow> if k = j then Some (row j) else None)"
    proof (cases "j \<in> key ` set t")
      case True
      then have "row_of key j t \<noteq> None" by (simp add: row_of_None)
      then show ?thesis using True by (auto simp: insert_missing_def assms split: option.split)
    next
      case False
      then show ?thesis by (auto simp: insert_missing_def assms row_of_append split: option.split)
    qed
    then show ?case by (simp add: Cons split: option.splits)
  qed (simp split: option.split)
  then show ?thesis by (simp add: insert_groups_def)
qed

lemma backfilled_summary:
  "row_of summary_key k (backfill_summaries es t) = (case row_of summary_key k t of Some r \<Rightarrow> Some r | None \<Rightarrow> summary_view es k)"
proof -
  have "k \<in> set (List.map_filter error_bucket es) \<longleftrightarrow> of_bucket k es \<noteq> []"
    by (force simp: List.map_filter_def of_bucket_def filter_empty_conv image_iff)
  then show ?thesis
    unfolding backfill_summaries_def
    by (subst insert_groups_row) (auto simp: summary_view_def of_bucket_def split: prod.split option.split)
qed

section \<open>Identifying legacy rows\<close>

definition identified :: "'z bucket_lib_scheme \<Rightarrow> error_row \<Rightarrow> error_row" where
  "identified lib e = (case el_bucket_id e of None \<Rightarrow> e\<lparr>el_bucket_id := Some (bucket_id lib (el_rec e))\<rparr> | Some _ \<Rightarrow> e)"

definition identified_at :: "'z bucket_lib_scheme \<Rightarrow> int set \<Rightarrow> error_row list \<Rightarrow> error_row list" where
  "identified_at lib ids es = map (\<lambda>e. if el_id e \<in> ids then identified lib e else e) es"

lemma identified_simps [simp]:
  "el_id (identified lib e) = el_id e" "identified lib (identified lib e) = identified lib e"
  by (simp_all add: identified_def split: option.split)

lemma identified_at_simps [simp]:
  "map el_id (identified_at lib ids es) = map el_id es"
  "identified_at lib ids (identified_at lib ids' es) = identified_at lib (ids' \<union> ids) es"
  "identified_at lib {} es = es"
  "map (identified lib) (identified_at lib ids es) = map (identified lib) es"
  by (simp_all add: identified_at_def)

lemma set_missing_row:
  assumes "distinct (map el_id es)" "e \<in> set es"
  shows "update_where (\<lambda>x. el_id x = el_id e \<and> el_bucket_id x = None) (\<lambda>x. x\<lparr>el_bucket_id := Some (bucket_id lib (el_rec e))\<rparr>)
      (identified_at lib ids es) = identified_at lib (insert (el_id e) ids) es"
proof -
  have "x = e" if "x \<in> set es" "el_id x = el_id e" for x using key_unique [OF assms(1) that(1) assms(2) that(2)] .
  then show ?thesis by (auto simp: update_where_def identified_at_def identified_def split: option.splits)
qed

lemma set_missing_rows:
  assumes "distinct (map el_id (errors db))" "set xs \<subseteq> set (errors db)"
  shows "fold (set_missing_bucket lib) (map (\<lambda>e. (el_id e, el_rec e)) xs) (db\<lparr>errors := identified_at lib ids (errors db)\<rparr>)
    = db\<lparr>errors := identified_at lib (ids \<union> el_id ` set xs) (errors db)\<rparr>"
  using assms(2)
proof (induction xs arbitrary: ids)
  case (Cons e xs)
  have "set_missing_bucket lib (el_id e, el_rec e) (db\<lparr>errors := identified_at lib ids (errors db)\<rparr>)
      = db\<lparr>errors := identified_at lib (insert (el_id e) ids) (errors db)\<rparr>"
    using set_missing_row [OF assms(1), of e lib ids] Cons.prems by (simp add: set_missing_bucket_def)
  then show ?case using Cons.IH [of "insert (el_id e) ids"] Cons.prems by simp
qed simp

text \<open>Part of the loop, and all of it.\<close>

lemma backfill_prefix:
  assumes "distinct (map el_id (errors db))"
  obtains ids where "fold (set_missing_bucket lib) (take m (rows_without_bucket db)) db = db\<lparr>errors := identified_at lib ids (errors db)\<rparr>"
    "length (rows_without_bucket db) \<le> m \<Longrightarrow> identified_at lib ids (errors db) = map (identified lib) (errors db)"
proof -
  let ?xs = "take m (sort_key el_id (filter (\<lambda>e. el_bucket_id e = None) (errors db)))"
  have sub: "set ?xs \<subseteq> set (errors db)" by (auto dest: in_set_takeD)
  have "take m (rows_without_bucket db) = map (\<lambda>e. (el_id e, el_rec e)) ?xs" by (simp add: rows_without_bucket_def take_map)
  then have "fold (set_missing_bucket lib) (take m (rows_without_bucket db)) db = db\<lparr>errors := identified_at lib (el_id ` set ?xs) (errors db)\<rparr>"
    using set_missing_rows [OF assms sub, of lib "{}"] by simp
  moreover have "identified_at lib (el_id ` set ?xs) (errors db) = map (identified lib) (errors db)" if "length (rows_without_bucket db) \<le> m"
    using that by (auto simp: rows_without_bucket_def identified_at_def identified_def split: option.split)
  ultimately show ?thesis using that by blast
qed

section \<open>One attempt\<close>

definition summary_at :: "string \<times> string \<Rightarrow> versioned \<Rightarrow> summary_row option" where
  "summary_at k s = row_of summary_key k (bucket_summaries (snd s))"

lemma fold_apsnd: "fold (\<lambda>f. f) (map (\<lambda>x. apsnd (g x)) xs) (vs, d) = (vs, fold g xs d)"
  by (induction xs arbitrary: d) simp_all

lemma run_schema_facts [simp]:
  "errors (run_schema pg db) = errors db" "rows_without_bucket (run_schema pg db) = rows_without_bucket db"
  "row_of summary_key k (bucket_summaries (run_schema pg db)) =
    (case row_of summary_key k (bucket_summaries db) of Some r \<Rightarrow> Some r | None \<Rightarrow> summary_view (errors db) k)"
  by (simp_all add: run_schema_def rows_without_bucket_def backfilled_summary)

lemma record_version_facts [simp]: "snd (record_version s) = snd s" "schema_applied (fst (record_version s))"
proof -
  have mem: "TENANT_SCHEMA_VERSION \<in> set (fst (record_version s))" by (auto simp: record_version_def insert_missing_def)
  then have "TENANT_SCHEMA_VERSION \<le> Max (set (fst (record_version s)))" by (rule Max_ge [OF finite_set])
  then show "schema_applied (fst (record_version s))" using mem by (auto simp: schema_applied_def not_less split: list.split)
qed (simp add: record_version_def)

lemma attempt_ends:
  assumes "\<not> schema_applied (fst s)" "distinct (map el_id (errors (snd s)))" "s' = apply_interrupted lib pg (Suc m) s"
  obtains ids last where "errors (snd s') = identified_at lib ids (errors (snd s))"
    "\<And>k. summary_at k s' = (case summary_at k s of Some r \<Rightarrow> Some r | None \<Rightarrow>
        case summary_view (errors (snd s)) k of Some r \<Rightarrow> Some r | None \<Rightarrow> if last then summary_view (errors (snd s')) k else None)"
    "last \<Longrightarrow> errors (snd s') = map (identified lib) (errors (snd s))" "schema_applied (fst s') \<Longrightarrow> last"
    "length (apply_statements lib pg (snd s)) \<le> Suc m \<Longrightarrow> schema_applied (fst s')"
proof -
  obtain vs db where s: "s = (vs, db)" by (cases s)
  let ?n = "length (rows_without_bucket db)" and ?db = "run_schema pg db"
  obtain ids where f: "fold (set_missing_bucket lib) (take m (rows_without_bucket db)) ?db = ?db\<lparr>errors := identified_at lib ids (errors db)\<rparr>"
    "?n \<le> m \<Longrightarrow> identified_at lib ids (errors db) = map (identified lib) (errors db)"
    using backfill_prefix [of ?db lib m] assms(2) by (auto simp: s)
  let ?mid = "?db\<lparr>errors := identified_at lib ids (errors db)\<rparr>"
  have s': "s' = fold (\<lambda>f. f) (take (m - ?n) [apsnd (run_schema pg), record_version]) (vs, ?mid)"
    using assms(1) by (simp add: assms(3) s apply_interrupted_def apply_statements_def take_map fold_apsnd f(1))
  consider "m \<le> ?n" | "m = Suc ?n" | "Suc (Suc ?n) \<le> m" by linarith
  then show ?thesis
  proof cases
    case 1
    then have "s' = (vs, ?mid)" by (simp add: s')
    then show ?thesis using assms(1) 1
      by (intro that [of ids False]) (auto simp: s summary_at_def apply_statements_def split: option.split)
  next
    case 2
    then have "s' = (vs, run_schema pg ?mid)" by (simp add: s')
    then show ?thesis using assms(1) 2 f(2)
      by (intro that [of ids True]) (auto simp: s summary_at_def apply_statements_def split: option.split)
  next
    case 3
    then obtain j where m: "m = Suc (Suc ?n) + j" using le_Suc_ex by blast
    have "s' = record_version (vs, run_schema pg ?mid)" unfolding s' m by simp
    then show ?thesis using 3 f(2)
      by (intro that [of ids True]) (auto simp: s summary_at_def apply_statements_def split: option.split)
  qed
qed

lemma apply_schema_attempt: "apply_schema lib pg s = apply_interrupted lib pg (length (apply_statements lib pg (snd s))) s"
  by (cases s) (simp add: apply_schema_def apply_interrupted_def apply_statements_def fold_apsnd backfill_missing_bucket_ids_def)

lemma complete_attempt:
  assumes "\<not> schema_applied (fst s)" "distinct (map el_id (errors (snd s)))"
  shows "summary_at k (apply_schema lib pg s) = (case summary_at k s of Some r \<Rightarrow> Some r | None \<Rightarrow>
    case summary_view (errors (snd s)) k of Some r \<Rightarrow> Some r | None \<Rightarrow> summary_view (map (identified lib) (errors (snd s))) k)"
proof -
  obtain m where m: "length (apply_statements lib pg (snd s)) = Suc m" by (simp add: apply_statements_def)
  have eq: "apply_schema lib pg s = apply_interrupted lib pg (Suc m) s" by (simp add: apply_schema_attempt m)
  show ?thesis
  proof (rule attempt_ends [OF assms refl, where lib = lib and pg = pg and m = m])
    fix ids last
    assume e: "\<And>k. summary_at k (apply_interrupted lib pg (Suc m) s) = (case summary_at k s of Some r \<Rightarrow> Some r | None \<Rightarrow>
        case summary_view (errors (snd s)) k of Some r \<Rightarrow> Some r
        | None \<Rightarrow> if last then summary_view (errors (snd (apply_interrupted lib pg (Suc m) s))) k else None)"
      and l: "last \<Longrightarrow> errors (snd (apply_interrupted lib pg (Suc m) s)) = map (identified lib) (errors (snd s))"
      "schema_applied (fst (apply_interrupted lib pg (Suc m) s)) \<Longrightarrow> last"
      "length (apply_statements lib pg (snd s)) \<le> Suc m \<Longrightarrow> schema_applied (fst (apply_interrupted lib pg (Suc m) s))"
    have last using l(2,3) m by simp
    then show ?thesis unfolding eq e using l(1) by (simp split: option.split)
  qed
qed

section \<open>Rows of a bucket\<close>

lemma identified_bucket: "error_bucket e = Some k \<Longrightarrow> identified lib e = e"
  by (auto simp: error_bucket_def identified_def split: option.split)

lemma bucket_grows: "length (of_bucket k es) \<le> length (of_bucket k (identified_at lib ids es))"
  by (induction es) (auto simp: of_bucket_def identified_at_def identified_bucket)

lemma bucket_full:
  "length (of_bucket k es) \<le> length (of_bucket k (map (identified lib) es))
   \<and> (length (of_bucket k es) = length (of_bucket k (map (identified lib) es)) \<longrightarrow> of_bucket k es = of_bucket k (map (identified lib) es))"
  by (induction es) (auto simp: of_bucket_def identified_bucket)

lemma bucket_stays:
  assumes "of_bucket k es = of_bucket k (map (identified lib) es)"
  shows "of_bucket k (identified_at lib ids es) = of_bucket k (map (identified lib) es)"
  using bucket_full [of k "identified_at lib ids es" lib] bucket_grows [of k es lib ids] assms by simp

lemma view_exact: "summary_view es k = summary_view (map (identified lib) es) k \<longleftrightarrow> of_bucket k es = of_bucket k (map (identified lib) es)"
  using bucket_full [of k es lib] by (auto simp: summary_view_def summarize_group_def)

section \<open>Any number of attempts\<close>

text \<open>The databases on which the schema script has run at the start of an attempt.\<close>

primrec attempt_starts :: "'z bucket_lib_scheme \<Rightarrow> (json \<Rightarrow> string) \<Rightarrow> nat list \<Rightarrow> versioned \<Rightarrow> telemetry_db list" where
  "attempt_starts lib pg [] s = [snd s]"
| "attempt_starts lib pg (n # ns) s =
     (if n = 0 \<or> schema_applied (fst s) then [] else [snd s]) @ attempt_starts lib pg ns (apply_interrupted lib pg n s)"

definition migrated :: "'z bucket_lib_scheme \<Rightarrow> (json \<Rightarrow> string) \<Rightarrow> nat list \<Rightarrow> versioned \<Rightarrow> versioned" where
  "migrated lib pg ns s = apply_schema lib pg (apply_attempts lib pg ns s)"

text \<open>Every attempt keeps what the identified log will be; one that recorded its version has reached it.\<close>

definition towards :: "'z bucket_lib_scheme \<Rightarrow> error_row list \<Rightarrow> versioned \<Rightarrow> bool" where
  "towards lib F s \<longleftrightarrow> distinct (map el_id (errors (snd s))) \<and> map (identified lib) (errors (snd s)) = F
     \<and> (schema_applied (fst s) \<longrightarrow> errors (snd s) = F \<and> (\<forall>k. summary_at k s = None \<longrightarrow> of_bucket k F = []))"

lemma towards_attempt: "towards lib F s \<Longrightarrow> towards lib F (apply_interrupted lib pg n s)"
proof (cases "n = 0 \<or> schema_applied (fst s)")
  case True
  then show "towards lib F s \<Longrightarrow> ?thesis" by (auto simp: apply_interrupted_def)
next
  case False
  then obtain m where n: "n = Suc m" by (cases n) auto
  assume t: "towards lib F s"
  then have d: "distinct (map el_id (errors (snd s)))" by (simp add: towards_def)
  have na: "\<not> schema_applied (fst s)" using False by simp
  from attempt_ends [OF na d refl, where lib = lib and pg = pg and m = m]
  obtain ids last where e: "errors (snd (apply_interrupted lib pg n s)) = identified_at lib ids (errors (snd s))"
    "\<And>k. summary_at k (apply_interrupted lib pg n s) = (case summary_at k s of Some r \<Rightarrow> Some r | None \<Rightarrow>
        case summary_view (errors (snd s)) k of Some r \<Rightarrow> Some r
        | None \<Rightarrow> if last then summary_view (errors (snd (apply_interrupted lib pg n s))) k else None)"
    "last \<Longrightarrow> errors (snd (apply_interrupted lib pg n s)) = map (identified lib) (errors (snd s))"
    "schema_applied (fst (apply_interrupted lib pg n s)) \<Longrightarrow> last"
    unfolding n by metis
  have "errors (snd (apply_interrupted lib pg n s)) = F \<and> (\<forall>k. summary_at k (apply_interrupted lib pg n s) = None \<longrightarrow> of_bucket k F = [])"
    if "schema_applied (fst (apply_interrupted lib pg n s))"
    using t e(3) [OF e(4) [OF that]] e(4) [OF that]
    by (auto simp: towards_def e(2) summary_view_def split: option.splits if_splits)
  then show ?thesis using t by (simp add: towards_def e(1))
qed

lemma towards_attempts: "towards lib F s \<Longrightarrow> towards lib F (apply_attempts lib pg ns s)"
  unfolding apply_attempts_def by (induction ns arbitrary: s) (simp_all add: towards_attempt)

lemma starts_rows:
  assumes "towards lib F s" "of_bucket k (errors (snd s)) = of_bucket k F" "d \<in> set (attempt_starts lib pg ns s)"
  shows "of_bucket k (errors d) = of_bucket k F"
  using assms
proof (induction ns arbitrary: s)
  case (Cons n ns)
  let ?s = "apply_interrupted lib pg n s"
  have "of_bucket k (errors (snd ?s)) = of_bucket k F"
  proof (cases "n = 0 \<or> schema_applied (fst s)")
    case True
    then show ?thesis using Cons.prems(2) by (auto simp: apply_interrupted_def)
  next
    case False
    then obtain m where n: "n = Suc m" by (cases n) auto
    have d: "distinct (map el_id (errors (snd s)))" and F: "F = map (identified lib) (errors (snd s))"
      using Cons.prems(1) by (simp_all add: towards_def)
    have na: "\<not> schema_applied (fst s)" using False by simp
    from attempt_ends [OF na d refl, where lib = lib and pg = pg and m = m]
    obtain ids where "errors (snd ?s) = identified_at lib ids (errors (snd s))" unfolding n by metis
    then show ?thesis using bucket_stays [of k "errors (snd s)" lib ids] Cons.prems(2) by (simp add: F)
  qed
  then show ?case using Cons.IH [OF towards_attempt [OF Cons.prems(1)]] Cons.prems by (auto split: if_splits)
qed simp

text \<open>The first time the script sees a row of a bucket decides its summary.\<close>

lemma summary_decided:
  assumes "towards lib F s"
  shows "summary_at k (migrated lib pg ns s) = summary_view F k \<longleftrightarrow>
    (case summary_at k s of Some r \<Rightarrow> Some r = summary_view F k
     | None \<Rightarrow> \<forall>d \<in> set (attempt_starts lib pg ns s). of_bucket k (errors d) = [] \<or> of_bucket k (errors d) = of_bucket k F)"
  using assms
proof (induction ns arbitrary: s)
  case Nil
  have F: "F = map (identified lib) (errors (snd s))" using Nil by (simp add: towards_def)
  show ?case
  proof (cases "schema_applied (fst s)")
    case True
    then show ?thesis using Nil
      by (auto simp: towards_def migrated_def apply_attempts_def apply_schema_def summary_view_def split: option.split)
  next
    case False
    have d: "distinct (map el_id (errors (snd s)))" using Nil by (simp add: towards_def)
    have "summary_at k (apply_schema lib pg s) = (case summary_at k s of Some r \<Rightarrow> Some r | None \<Rightarrow>
        case summary_view (errors (snd s)) k of Some r \<Rightarrow> Some r | None \<Rightarrow> summary_view F k)"
      unfolding F by (rule complete_attempt [OF False d])
    then have r: "summary_at k (migrated lib pg [] s) = (case summary_at k s of Some r \<Rightarrow> Some r | None \<Rightarrow>
        case summary_view (errors (snd s)) k of Some r \<Rightarrow> Some r | None \<Rightarrow> summary_view F k)"
      by (simp add: migrated_def apply_attempts_def)
    show ?thesis
    proof (cases "summary_at k s = None \<and> of_bucket k (errors (snd s)) \<noteq> []")
      case True
      then have "summary_at k (migrated lib pg [] s) = summary_view (errors (snd s)) k" using r by (simp add: summary_view_def)
      then show ?thesis using True view_exact [of "errors (snd s)" k lib, folded F] by simp
    next
      case no: False
      show ?thesis
      proof (cases "summary_at k s")
        case None
        then show ?thesis using r no by (simp add: summary_view_def)
      qed (simp add: r)
    qed
  qed
next
  case (Cons n ns)
  let ?s = "apply_interrupted lib pg n s"
  have fin: "migrated lib pg (n # ns) s = migrated lib pg ns ?s" by (simp add: migrated_def apply_attempts_def)
  note IH = Cons.IH [OF towards_attempt [OF Cons.prems, of pg n]]
  show ?case
  proof (cases "n = 0 \<or> schema_applied (fst s)")
    case True
    then have "?s = s" by (auto simp: apply_interrupted_def)
    have "attempt_starts lib pg (n # ns) s = attempt_starts lib pg ns ?s" using True by simp
    then show ?thesis using IH unfolding fin \<open>?s = s\<close> by (simp only:)
  next
    case False
    then obtain m where n: "n = Suc m" by (cases n) auto
    have d: "distinct (map el_id (errors (snd s)))" and F: "F = map (identified lib) (errors (snd s))"
      using Cons.prems by (simp_all add: towards_def)
    have na: "\<not> schema_applied (fst s)" using False by simp
    from attempt_ends [OF na d refl, where lib = lib and pg = pg and m = m]
    obtain last where e: "summary_at k ?s = (case summary_at k s of Some r \<Rightarrow> Some r | None \<Rightarrow>
          case summary_view (errors (snd s)) k of Some r \<Rightarrow> Some r | None \<Rightarrow> if last then summary_view (errors (snd ?s)) k else None)"
      "last \<Longrightarrow> errors (snd ?s) = F"
      unfolding n F by metis
    have later: "of_bucket k (errors d) = of_bucket k F" if "of_bucket k (errors (snd ?s)) = of_bucket k F" "d \<in> set (attempt_starts lib pg ns ?s)" for d
      using starts_rows [OF towards_attempt [OF Cons.prems] that] .
    have seen: "of_bucket k (errors d) = of_bucket k F" if "of_bucket k (errors (snd s)) = of_bucket k F" "d \<in> set (attempt_starts lib pg (n # ns) s)" for d
      using starts_rows [OF Cons.prems that] .
    show ?thesis
    proof (cases "summary_at k s")
      case (Some r)
      then show ?thesis using IH e(1) by (simp add: fin)
    next
      case None
      show ?thesis
      proof (cases "of_bucket k (errors (snd s)) = []")
        case True
        then have v: "summary_view (errors (snd s)) k = None" by (simp add: summary_view_def)
        show ?thesis
        proof (cases "last \<and> of_bucket k F \<noteq> []")
          case True
          then show ?thesis using IH e later None v \<open>of_bucket k (errors (snd s)) = []\<close> False by (auto simp: fin summary_view_def)
        next
          case no: False
          then have "summary_at k ?s = None" using e None v by (auto simp: summary_view_def)
          then show ?thesis using IH None True False by (simp add: fin)
        qed
      next
        case rows: False
        then have "summary_at k ?s = summary_view (errors (snd s)) k" using e(1) None by (simp add: summary_view_def)
        then have "summary_at k (migrated lib pg (n # ns) s) = summary_view F k \<longleftrightarrow> of_bucket k (errors (snd s)) = of_bucket k F"
          using IH view_exact [of "errors (snd s)" k lib, folded F] rows by (cases "summary_at k ?s") (simp_all add: fin summary_view_def)
        then show ?thesis using None rows seen False by auto
      qed
    qed
  qed
qed

text \<open>C99. When nothing else writes to a tenant whose summaries are empty, a migration that runs to its end after any
  number of interrupted attempts has identified every legacy
  error. The summary of a bucket is then exact if and only if no attempt started on a log in which the bucket
  had some of its rows but not all: the first attempt that sees a row of it fixes its summary.\<close>
theorem migration_summaries_exact_iff:
  assumes "\<not> schema_applied (fst s)" "distinct (map el_id (errors (snd s)))" "bucket_summaries (snd s) = []"
    and "(versions, db) = migrated lib pg ns s"
  shows "schema_applied versions \<and> errors db = map (identified lib) (errors (snd s))
    \<and> (row_of summary_key k (bucket_summaries db) = summary_view (errors db) k \<longleftrightarrow>
        (\<forall>d \<in> set (attempt_starts lib pg ns s). of_bucket k (errors d) \<in> {[], of_bucket k (errors db)}))"
proof -
  let ?F = "map (identified lib) (errors (snd s))"
  have t: "towards lib ?F s" using assms(1,2) by (simp add: towards_def)
  have f: "towards lib ?F (migrated lib pg ns s)"
    unfolding migrated_def apply_schema_attempt by (rule towards_attempt) (rule towards_attempts [OF t])
  have "schema_applied (fst (apply_schema lib pg x))" for x by (simp add: apply_schema_def)
  then have v: "schema_applied versions" using assms(4) by (metis fst_conv migrated_def)
  then have "errors db = ?F" using f assms(4) [symmetric] by (simp add: towards_def)
  moreover have "summary_at k s = None" by (simp add: summary_at_def assms(3) row_of_def)
  ultimately show ?thesis using v summary_decided [OF t, where pg = pg and ns = ns and k = k] assms(4) [symmetric]
    by (simp add: summary_at_def)
qed

section \<open>Examples\<close>

definition legacy_row :: "int \<Rightarrow> error_row" where
  "legacy_row i = \<lparr>el_id = i, el_app_id = ''app'', el_rec = \<lparr>er_sig = ''S'', er_message = ''x'', er_path = [], er_context = []\<rparr>,
     el_bucket_id = None, el_created_at = i\<rparr>"

definition legacy :: versioned where
  "legacy = ([1], (empty_telemetry [sample_project])\<lparr>errors := [legacy_row 1, legacy_row 2]\<rparr>)"

lemma legacy_facts:
  "\<not> schema_applied (fst legacy)" "distinct (map el_id (errors (snd legacy)))" "bucket_summaries (snd legacy) = []"
  "list_all (\<lambda>e. el_bucket_id e = None) (errors (snd legacy))"
  by code_simp+

text \<open>Without an interruption the two legacy errors get one summary that counts both.\<close>

theorem migration_summaries_exact_iff_witness:
  "row_of summary_key (''app'', ''bkt_h'') (bucket_summaries (snd (migrated telemetry_lib (\<lambda>_. []) [] legacy)))
    = summary_view (errors (snd (migrated telemetry_lib (\<lambda>_. []) [] legacy))) (''app'', ''bkt_h'')"
proof -
  let ?m = "migrated telemetry_lib (\<lambda>_. []) [] legacy" and ?k = "(''app'', ''bkt_h'')"
  have "of_bucket ?k (errors (snd legacy)) = []"
    using legacy_facts(4) by (simp add: of_bucket_def filter_empty_conv list_all_iff error_bucket_def)
  moreover have "row_of summary_key ?k (bucket_summaries (snd ?m)) = summary_view (errors (snd ?m)) ?k \<longleftrightarrow>
      (\<forall>d \<in> set (attempt_starts telemetry_lib (\<lambda>_. []) [] legacy). of_bucket ?k (errors d) \<in> {[], of_bucket ?k (errors (snd ?m))})"
    using migration_summaries_exact_iff [OF legacy_facts(1-3) prod.collapse, where lib = telemetry_lib and pg = "\<lambda>_. []" and ns = "[]"]
    by blast
  ultimately show ?thesis by simp
qed

text \<open>An attempt that stops after the first of them leaves a bucket of two errors with a count of one.\<close>

lemma interrupted_migration_stale:
  "(\<lambda>db. (map bs_count (bucket_summaries db), map el_bucket_id (errors db))) (snd (migrated telemetry_lib (\<lambda>_. []) [2, 2] legacy))
    = ([1], [Some ''bkt_h'', Some ''bkt_h''])"
  by code_simp

text \<open>A build label that is a string is counted by the ingest path and the trigger, but not by the backfill.\<close>

lemma string_build_not_backfilled:
  "dimension_values [(''build'', JStr ''v1'')] = [(''build'', ''v1'')]"
  "trigger_dimensions pg [(''build'', JStr ''v1'')] = [(''build'', ''v1'')]"
  "backfill_dimensions pg [(''build'', JStr ''v1'')] = []"
  by (simp_all add: dimension_values_def trigger_dimensions_def backfill_dimensions_def jsonb_field_def safe_cohort_key_def
      cohort_value_def trigger_value_def map_filter_simps)

text \<open>Once the version is recorded the script does not run again, whatever it says now.\<close>

lemma applied_schema_not_run: "schema_applied (fst s) \<Longrightarrow> apply_schema lib pg s = s"
  by (simp add: apply_schema_def)

end
