(* ===== verification/Spec2Isabelle.thy ===== *)
theory Spec2Isabelle
  imports Protocol_Causal Protocol_Environment Protocol_Evidence Worker Triage Buckets Account_Laws Capture_Laws Impact Integration_Laws
    Bucket_Laws Replay_Laws Dashboard_Laws Contract_Capture R2_Laws Operations_Laws Migrations Maintenance Schema
begin

text \<open>
  \<^bold>\<open>A verification library for the Reproit cloud service.\<close>

  The service receives event batches from SDKs and CI runs, groups production errors into buckets,
  decides from later traffic whether a claimed fix held, and runs fuzz jobs as shards that a fleet of
  workers pulls from per-tenant queues. Its parts, the theories that model them and what is proved:

  \<^item> \<^bold>\<open>Wire protocol\<close> (\<open>protocol/src/lib.rs\<close>, \<open>causal.rs\<close>, \<open>environment.rs\<close>). \<open>Protocol_Core\<close> holds the
    constants, JSON values, error codes and primitive validators; \<open>Protocol_Frame\<close> events, frames and
    the line format; \<open>Protocol_Ledger\<close> the proof ledger; \<open>Protocol_Causal\<close> causal graphs, validated by
    Kahn's algorithm; \<open>Protocol_Environment\<close> environment proofs; \<open>Protocol_Evidence\<close> evidence graphs
    and batches. Every \<open>validate\<close> is a function into a result, and the lemmas say exactly which values
    it accepts: acyclic graphs, content-addressed histories, ledgers that \<open>from_stages\<close> rebuilds;
    \<open>encode_line\<close> and \<open>decode_frame_line\<close> are inverse, and a defective line keeps its scope.

  \<^item> \<^bold>\<open>Jobs\<close> (\<open>src/jobs/\<close>, \<open>src/db/tenant/jobs.rs\<close>, parts of \<open>src/lib.rs\<close>, \<open>src/operations.rs\<close>,
    \<open>src/db/control/tenant_registry.rs\<close>). \<open>Job_Model\<close> is the specification and the fan-out into
    shards; \<open>Shard_Queue\<close> the tables \<open>jobs\<close> and \<open>shards\<close> with one function per store method and the
    step relation \<open>qstep\<close> of arbitrary interleavings of these calls; \<open>Scheduler\<close> the claim policy;
    \<open>Worker\<close> the handlers \<open>claim\<close>, \<open>heartbeat\<close>, \<open>result\<close>, the embedded worker, submission, the
    requeue sweep and the routing hint. Proved: the queue invariant of every reachable state, the
    refinement of an abstract lease (who may report a shard), that no shard is claimed twice without
    a requeue, that a completed job stays complete, the claim order and its bound on overtaking, that
    an id given to a worker routes back to its shard, and that the hint of tenants with pending work
    is complete when handlers do not interleave, together with the interleaving that loses it.

  \<^item> \<^bold>\<open>Buckets\<close> (\<open>src/ingest/buckets.rs\<close>, \<open>src/ingest/aggregation.rs\<close>). \<open>Text\<close> is the character
    view of UTF-8 strings, \<open>Buckets\<close> the reduction of batches, message normalization, identifiers,
    replay actions and the time series. Proved: volatile words of a message do not change its
    bucket, and the time series conserves the occurrences.

  \<^item> \<^bold>\<open>Triage and resolution\<close> (\<open>src/triage/\<close>, \<open>src/db/tenant/triage.rs\<close>, \<open>src/sweep.rs\<close>).
    \<open>Resolution\<close> is the verdict from production evidence, \<open>Triage\<close> the status machine, the stored
    rows, the authorization of a data request and the background sweep. Proved: the decision table of
    the verdict, that old builds never cause a regression, that the guarded SQL update implements the
    pure rule for verified fixes, that sweeps keep the transition log linked, and that a request is
    served only from the tenant its credential belongs to.

  \<^item> \<^bold>\<open>Telemetry store\<close> (\<open>src/db/tenant/telemetry.rs\<close>, \<open>projects.rs\<close>, \<open>captures.rs\<close>, \<open>src/db/schema.rs\<close>).
    \<open>Counter\<close> is a table of counts, \<open>Telemetry\<close> the tables of a tenant, the ingest transaction and the
    triggers of the schema, \<open>Rollups\<close> the read models as functions of the error log, \<open>Telemetry_Steps\<close> the
    step relation of arbitrary store calls, \<open>Project_Store\<close> projects, integrations, replay runs and
    captures. Proved: the read models are exact after any calls with plain contexts at times that do not run backwards, a batch is stored once, the
    bucket list equals the list computed from the log, the deletions that the triggers refuse, quotas,
    and that deleting a project is the removal of exactly its rows.

  \<^item> \<^bold>\<open>Control plane\<close> (\<open>src/db/control/\<close>). \<open>Control_Store\<close> holds the tables and one function per store method,
    \<open>Control_Steps\<close> sequences of calls and the constraints they keep, \<open>Credentials\<close> sessions, single-use
    credentials and seats.

  \<^item> \<^bold>\<open>Tenancy and objects\<close> (\<open>src/tenancy/\<close>, \<open>src/db/secrets.rs\<close>). \<open>Blob\<close> is key safety, scopes and the local
    object store, \<open>Tenancy\<close> secrets, the registry, provisioning that may die at any step and the
    reconciler, \<open>Resolver\<close> the pool and mapping caches. Proved: tenants do not touch each other's
    objects, provisioning can be restarted, caches are bounded, a suspended tenant is refused after the
    life of a cached mapping.

  \<^item> \<^bold>\<open>Requests\<close> (\<open>src/auth/\<close>, \<open>src/http_security.rs\<close>, \<open>src/mail.rs\<close>, parts of \<open>src/lib.rs\<close>, \<open>src/ingest/mod.rs\<close>).
    \<open>Request\<close> is the state of the whole service, the environment of one request and the sequencing of
    fallible calls; \<open>Request_Wp\<close> a weakest-precondition calculus for them; \<open>Accounts\<close>, \<open>Organizations\<close>, \<open>Access\<close>
    and \<open>Projects\<close> the handlers, statement by statement; \<open>Account_Laws\<close> what holds of every request:
    constraints are kept, a management request leaves the rows of other organizations alone (their keys are the
    exception, a finding), an organization keeps an owner.
    \<open>Captures\<close> is the upload, review and completion of a tester's capture, \<open>Capture_Laws\<close> that a complete
    capture has all its files when requests run one after the other.

  \<^item> \<^bold>\<open>Ranking\<close> (\<open>src/ingest/cohorts.rs\<close>, \<open>src/ingest/impact.rs\<close>). \<open>Float64\<close> is rounding to doubles, \<open>Cohorts\<close>
    the discriminators of a bucket and its fixture, \<open>Impact\<close> the score. Proved: when a dimension is reported,
    that the two ways to count agree, that a regression has a higher score than anything else.

  \<^item> \<^bold>\<open>Issue trackers\<close> (\<open>src/integrations/\<close>). \<open>Trackers\<close> is the calls to the four trackers and to the CI,
    \<open>Integrations\<close> the configuration, the texts and the hooks, \<open>Tenant_Frame\<close> what a hook or a handler of one
    tenant leaves alone, \<open>Integration_Laws\<close> that every issue has a link of its own as long as links can be stored, that texts tell nothing of
    the context, that stored tokens are never returned.

  \<^item> \<^bold>\<open>Ingest requests\<close> (\<open>src/ingest/\<close>). \<open>Ingest\<close> is the acceptance of a batch and the reads of the graph, the
    errors and the cohorts; \<open>Evidence\<close> uploads and blobs; \<open>Export\<close> the paged export, with the locale \<open>keyset\<close>
    of a page read that is interpreted for errors and evidence; \<open>Replay\<close> attempts and hosted runs;
    \<open>Bucket_API\<close> the ranked list; \<open>Replay_Package\<close> the package of a bucket and its ticket. \<open>Ingest_Laws\<close>: a batch
    is counted once, a publishable key writes to its project only. \<open>Context_Tables\<close>: the counter tables read
    as the counts over the rows, so list and detail report the same discriminators. \<open>Bucket_Laws\<close>: the list
    has every bucket once, regressions first, and its verdict lags behind that of the detail view by at most
    the hour of the deployment. \<open>Replay_Laws\<close>: a request for a hosted run, its dispatch and the stored run
    agree, and the report of a verdict closes no ticket.

  \<^item> \<^bold>\<open>Dashboard requests\<close> (\<open>src/triage/mod.rs\<close>). \<open>Dashboard\<close> is the gate and the handlers of the signed-in
    surface. \<open>Dashboard_Laws\<close>: what the gate lets through is served from the tenant of the caller's organization, which has
    the application, reading changes nothing, only the bundled sample can be cleared, and a verdict no longer sees the occurrences of a
    bucket that has filled its sample.

  \<^item> \<^bold>\<open>R2\<close> (\<open>src/tenancy/blob/r2.rs\<close>). \<open>R2\<close> is the backend over an object-store client: configuration,
    credentials minted per tenant with their cache, every operation. \<open>R2_Laws\<close>: a tenant runs under a
    credential of its own prefix, and a signed address expires before its credential. The bound of the
    cache is that of \<open>Eviction\<close>, which the resolver's cache shares.

  \<^item> \<^bold>\<open>Operations\<close> (\<open>src/operations.rs\<close>, \<open>src/bootstrap.rs\<close>, parts of \<open>src/lib.rs\<close> and \<open>src/sweep.rs\<close>).
    \<open>Operations\<close> is the commands, the retention pass, the bootstrap and the configuration; \<open>Migrations\<close> the
    fleet migration, whose tasks finish in any order; \<open>Maintenance\<close> a tick of the background loop and a pass
    of the resolution sweep. \<open>Retention_Laws\<close>: no blob without its row, what a pass leaves and what stops it.
    \<open>Operations_Laws\<close>: an offboarding erases one tenant and no other, bootstraps mint at most one key and it works.

  \<^item> \<^bold>\<open>Backend instrumentation\<close> (\<open>experimental/reproit-backend/src/lib.rs\<close>). \<open>Backend_Trace\<close> is contexts,
    traces and redaction, \<open>Backend_Trace_Laws\<close> the traces of a process: bounded, well formed, numbered
    without repetition, and the same for inputs that differ in secrets only.

  \<open>Prelude\<close> holds results, validators, byte classes, string splitting, decimal numbers and ordered
  maps; \<open>Table\<close> the SQL statements over lists of rows (\<open>update_where\<close>, \<open>upsert\<close>, \<open>select_first\<close>).

  \<^bold>\<open>How the code is rendered.\<close> A struct is a record, an enum a datatype; a \<open>u16\<close>, \<open>u32\<close> or \<open>u64\<close> is a
  word of its width, an \<open>i64\<close> an integer with its wrap-around or saturation written out. A string is
  the list of its UTF-8 bytes. A double that is only stored is its 64-bit pattern; the doubles of the
  claim score are integers rounded to 53 bits. An \<open>INT\<close> column holds the signed reading of the bound
  word. A store method is one atomic function on the rows; rows that concurrent transactions hold
  locked are an argument of \<open>claim_shard\<close>, failing statements a predicate of the \<open>world\<close>. A \<open>BTreeMap\<close>
  is a list sorted by key. The clock, fresh identifiers, environment variables, the file system, JSON,
  SHA-256, hexadecimal output and the RFC 3339 functions are arguments; what a theorem needs of them
  is a premise.

  \<^bold>\<open>Termination.\<close> Loops are structural recursion or have a measure. The loops of the causal graph
  carry fuel: \<open>kahn\<close> has one unit per node and \<open>closure_loop\<close> one per node and one more, since every
  round removes a node or adds one; the theorems prove that it suffices. \<open>trim_start_matches\<close> has one
  unit per byte. The loops of retention and of the fleet migration end because every round deletes a row
  or a task.

  \<^bold>\<open>Interfaces.\<close> \<open>validator\<close> (what a validator accepts, lifted to lists and options), \<open>key_update\<close>
  (row updates that keep the key), \<open>attempts\<close> (claims tried in order) and \<open>keyed_store\<close> (what a lookup
  returns after an upsert) are locales, interpreted on the operations of the model. \<open>counter_view\<close> is the
  contract between a table of counts and the rows it counts; \<open>request_frame\<close> and \<open>control_frame\<close> lift a
  relation that single calls respect to whole handlers, and each law about all requests is one
  interpretation of the latter.

  \<^bold>\<open>Not modelled.\<close> Routing tables, response headers, metrics and rate limits; the Neon client; the command
  line, the mail transport, the start-up of the process and the web pages. Of the worker, the child
  process, the isolated directory and the polling loop of the embedded pool; of the background loops,
  their timers. Text columns are compared bytewise, which is the order of the identifiers the service
  generates.
\<close>

end
